(* ===== verification/Prelude.thy ===== *)
theory Prelude
  imports Main "HOL-Library.Char_ord" "HOL-Library.List_Lexorder" "HOL-Library.Option_ord"
    "HOL-Library.Product_Lexorder" "HOL-Library.Sublist"
begin

text \<open>
  Shared vocabulary of the development.

  Strings. A Rust \<open>String\<close> is a sequence of UTF-8 bytes and a HOL \<open>string\<close> is a list of
  eight-bit characters, so a Rust string is modelled by the list of its bytes: \<open>len()\<close> is
  \<open>length\<close>, and comparing strings (Rust's \<open>Ord\<close>, SQLite's BINARY collation) is the bytewise
  lexicographic order of \<open>Char_ord\<close> and \<open>List_Lexorder\<close>.  \<open>str::trim\<close> and
  \<open>char::is_control\<close> work on Unicode characters; here they are written on the UTF-8 encodings of
  the White_Space and Cc characters.

  Queries. A table is the list of its rows in rowid order.  \<open>find\<close> is a query that returns the
  first row, \<open>filter\<close> a query that returns all, \<open>sql_update\<close> an UPDATE, \<open>sql_count\<close> the
  number of rows a WHERE clause selects, and \<open>next_rowid\<close> SQLite's choice of a new rowid.
\<close>

section \<open>Lemma collections\<close>

named_theorems ascii_simps "bytes of the printable ASCII range"
named_theorems row_simps "effects of queries and updates on tables"

section \<open>Results\<close>

text \<open>The errors of \<open>rusqlite::Result\<close> that the sources construct or match on.\<close>

datatype sql_error = InvalidQuery | QueryReturnedNoRows | ConstraintViolation

type_synonym 'a sql_result = "sql_error + 'a"

section \<open>UTF-8 strings\<close>

definition ws1 :: "char list" where
  "ws1 = [CHR 0x09, CHR 0x0A, CHR 0x0B, CHR 0x0C, CHR 0x0D, CHR 0x20]"

definition ws2 :: "string list" where
  "ws2 = [[CHR 0xC2, CHR 0x85], [CHR 0xC2, CHR 0xA0]]"

definition ws3 :: "string list" where
  "ws3 = [[CHR 0xE1, CHR 0x9A, CHR 0x80],
          [CHR 0xE2, CHR 0x80, CHR 0x80], [CHR 0xE2, CHR 0x80, CHR 0x81],
          [CHR 0xE2, CHR 0x80, CHR 0x82], [CHR 0xE2, CHR 0x80, CHR 0x83],
          [CHR 0xE2, CHR 0x80, CHR 0x84], [CHR 0xE2, CHR 0x80, CHR 0x85],
          [CHR 0xE2, CHR 0x80, CHR 0x86], [CHR 0xE2, CHR 0x80, CHR 0x87],
          [CHR 0xE2, CHR 0x80, CHR 0x88], [CHR 0xE2, CHR 0x80, CHR 0x89],
          [CHR 0xE2, CHR 0x80, CHR 0x8A], [CHR 0xE2, CHR 0x80, CHR 0xA8],
          [CHR 0xE2, CHR 0x80, CHR 0xA9], [CHR 0xE2, CHR 0x80, CHR 0xAF],
          [CHR 0xE2, CHR 0x81, CHR 0x9F], [CHR 0xE3, CHR 0x80, CHR 0x80]]"

text \<open>Number of bytes of the White_Space character a string starts, or ends, with (0: none).\<close>

definition ws_head :: "string \<Rightarrow> nat" where
  "ws_head s =
     (if s = [] then 0
      else if hd s \<in> set ws1 then 1
      else if take 2 s \<in> set ws2 then 2
      else if take 3 s \<in> set ws3 then 3 else 0)"

definition ws_last :: "string \<Rightarrow> nat" where
  "ws_last s =
     (if s = [] then 0
      else if last s \<in> set ws1 then 1
      else if drop (length s - 2) s \<in> set ws2 then 2
      else if drop (length s - 3) s \<in> set ws3 then 3 else 0)"

function trim_start :: "string \<Rightarrow> string" where
  "trim_start s = (if ws_head s = 0 then s else trim_start (drop (ws_head s) s))"
  by pat_completeness auto
termination
  by (relation "measure length") (auto simp: ws_head_def split: if_splits)

function trim_end :: "string \<Rightarrow> string" where
  "trim_end s = (if ws_last s = 0 then s else trim_end (take (length s - ws_last s) s))"
  by pat_completeness auto
termination
  by (relation "measure length") (auto simp: ws_last_def split: if_splits)

declare trim_start.simps [simp del] trim_end.simps [simp del]

text \<open>\<open>str::trim\<close>.\<close>

definition trim :: "string \<Rightarrow> string" where
  "trim s = trim_end (trim_start s)"

abbreviation blank :: "string \<Rightarrow> bool" where
  "blank s \<equiv> trim s = []"

text \<open>\<open>value.chars().any(char::is_control)\<close>: the bytes 00-1F and 7F, and the two-byte
  encodings C2 80 to C2 9F of the C1 controls.\<close>

definition ascii_control :: "char \<Rightarrow> bool" where
  "ascii_control c \<longleftrightarrow> c < CHR 0x20 \<or> c = CHR 0x7F"

fun has_control :: "string \<Rightarrow> bool" where
  "has_control [] = False"
| "has_control [c] = ascii_control c"
| "has_control (c # d # cs) =
     (ascii_control c \<or> (c = CHR 0xC2 \<and> CHR 0x80 \<le> d \<and> d \<le> CHR 0x9F) \<or> has_control (d # cs))"

text \<open>The character classes of the validation regexes, all of the form
  \<open>^[A-Za-z0-9][A-Za-z0-9<extra>]{0,n}$\<close>.\<close>

definition is_alnum :: "char \<Rightarrow> bool" where
  "is_alnum c \<longleftrightarrow> (CHR ''0'' \<le> c \<and> c \<le> CHR ''9'') \<or> (CHR ''A'' \<le> c \<and> c \<le> CHR ''Z'')
     \<or> (CHR ''a'' \<le> c \<and> c \<le> CHR ''z'')"

definition is_ascii_digit :: "char \<Rightarrow> bool" where
  "is_ascii_digit c \<longleftrightarrow> CHR ''0'' \<le> c \<and> c \<le> CHR ''9''"

definition name_shape :: "string \<Rightarrow> nat \<Rightarrow> string \<Rightarrow> bool" where
  "name_shape extra n s =
     (case s of [] \<Rightarrow> False
      | c # cs \<Rightarrow> is_alnum c \<and> length cs \<le> n \<and> list_all (\<lambda>d. is_alnum d \<or> d \<in> set extra) cs)"

text \<open>Printable ASCII other than the space: bytes that are neither white space nor control.\<close>

definition graphic :: "char \<Rightarrow> bool" where
  "graphic c \<longleftrightarrow> CHR 0x21 \<le> c \<and> c \<le> CHR 0x7E"

text \<open>Decimal text of integers (\<open>to_string\<close> and \<open>{}\<close> formatting).\<close>

definition digit_char :: "nat \<Rightarrow> char" where
  "digit_char n = char_of (48 + n)"

fun dec :: "nat \<Rightarrow> string" where
  "dec n = (if n < 10 then [digit_char n] else dec (n div 10) @ [digit_char (n mod 10)])"

declare dec.simps [simp del]

definition int_to_string :: "int \<Rightarrow> string" where
  "int_to_string i = (if i < 0 then ''-'' @ dec (nat (- i)) else dec (nat i))"

section \<open>Queries on tables\<close>

definition sql_update :: "('r \<Rightarrow> bool) \<Rightarrow> ('r \<Rightarrow> 'r) \<Rightarrow> 'r list \<Rightarrow> 'r list" where
  "sql_update P f rows = map (\<lambda>r. if P r then f r else r) rows"

definition sql_count :: "('r \<Rightarrow> bool) \<Rightarrow> 'r list \<Rightarrow> nat" where
  "sql_count P rows = length (filter P rows)"

text \<open>A new rowid: 1 for an empty table, else one more than the largest.\<close>

definition next_rowid :: "int list \<Rightarrow> int" where
  "next_rowid ids = (case ids of [] \<Rightarrow> 1 | i # is \<Rightarrow> fold max is i + 1)"

section \<open>Lemmas on strings\<close>

lemma less_char_of_char [ascii_simps]: "c < d \<longleftrightarrow> (of_char c :: nat) < of_char d"
  by (simp add: less_char_def)

lemma less_eq_char_of_char [ascii_simps]: "c \<le> d \<longleftrightarrow> (of_char c :: nat) \<le> of_char d"
  by (simp add: less_eq_char_def)


lemma length_ws2: "w \<in> set ws2 \<Longrightarrow> length w = 2"
  by (auto simp: ws2_def)

lemma length_ws3: "w \<in> set ws3 \<Longrightarrow> length w = 3"
  by (auto simp: ws3_def)

lemma trim_start_id: "ws_head s = 0 \<Longrightarrow> trim_start s = s"
  by (subst trim_start.simps) simp

lemma trim_end_id: "ws_last s = 0 \<Longrightarrow> trim_end s = s"
  by (subst trim_end.simps) simp

lemma trim_start_suffix: "\<exists>p. s = p @ trim_start s"
proof (induction s rule: trim_start.induct)
  case (1 s)
  show ?case
  proof (cases "ws_head s = 0")
    case True
    then show ?thesis by (simp add: trim_start_id)
  next
    case False
    with "1.IH" obtain p where "drop (ws_head s) s = p @ trim_start (drop (ws_head s) s)" by blast
    with False have "s = (take (ws_head s) s @ p) @ trim_start s"
      by (metis append.assoc append_take_drop_id trim_start.simps)
    then show ?thesis by blast
  qed
qed

lemma trim_end_prefix: "\<exists>q. s = trim_end s @ q"
proof (induction s rule: trim_end.induct)
  case (1 s)
  show ?case
  proof (cases "ws_last s = 0")
    case True
    then show ?thesis by (simp add: trim_end_id)
  next
    case False
    let ?t = "take (length s - ws_last s) s"
    from False "1.IH" obtain q where "?t = trim_end ?t @ q" by blast
    with False have "s = trim_end s @ (q @ drop (length s - ws_last s) s)"
      by (metis append.assoc append_take_drop_id trim_end.simps)
    then show ?thesis by blast
  qed
qed

lemma ws_head_trim_start [simp]: "ws_head (trim_start s) = 0"
  by (induction s rule: trim_start.induct) (metis trim_start.simps)

lemma ws_last_trim_end [simp]: "ws_last (trim_end s) = 0"
  by (induction s rule: trim_end.induct) (metis trim_end.simps)

text \<open>A string that starts with no white space has no prefix that does.\<close>

lemma ws_head_prefix: "ws_head (s @ t) = 0 \<Longrightarrow> ws_head s = 0"
proof (cases "s = []")
  case True
  then show ?thesis by (simp add: ws_head_def)
next
  case False
  assume z: "ws_head (s @ t) = 0"
  from z False have 1: "hd s \<notin> set ws1"
    by (auto simp: ws_head_def split: if_splits)
  have 2: "take 2 s \<notin> set ws2"
  proof
    assume a: "take 2 s \<in> set ws2"
    then have "length (take 2 s) = 2" by (rule length_ws2)
    then have "take 2 (s @ t) = take 2 s" by simp
    with z False a show False by (auto simp: ws_head_def split: if_splits)
  qed
  have 3: "take 3 s \<notin> set ws3"
  proof
    assume a: "take 3 s \<in> set ws3"
    then have "length (take 3 s) = 3" by (rule length_ws3)
    then have "take 3 (s @ t) = take 3 s" by simp
    with z False a show False by (auto simp: ws_head_def split: if_splits)
  qed
  from 1 2 3 show ?thesis by (simp add: ws_head_def)
qed

lemma ws_head_trim [simp]: "ws_head (trim s) = 0"
proof -
  obtain q where "trim_start s = trim s @ q"
    using trim_end_prefix [of "trim_start s"] by (auto simp: trim_def)
  then show ?thesis
    using ws_head_trim_start [of s] ws_head_prefix [of "trim s" q] by simp
qed

lemma ws_last_trim [simp]: "ws_last (trim s) = 0"
  by (simp add: trim_def)

lemma trim_fixed: "ws_head s = 0 \<Longrightarrow> ws_last s = 0 \<Longrightarrow> trim s = s"
  by (simp add: trim_def trim_start_id trim_end_id)

lemma trim_idem [simp]: "trim (trim s) = trim s"
  by (rule trim_fixed) simp_all

lemma trim_Nil [simp]: "trim [] = []"
  by (rule trim_fixed) (simp_all add: ws_head_def ws_last_def)

lemma length_trim: "length (trim s) \<le> length s"
proof -
  from trim_start_suffix obtain p where p: "s = p @ trim_start s" ..
  from trim_end_prefix obtain q where q: "trim_start s = trim_end (trim_start s) @ q" ..
  from q have "length (trim s) \<le> length (trim_start s)"
    unfolding trim_def by (metis le_add1 length_append)
  also from p have "\<dots> \<le> length s"
    by (metis le_add2 length_append)
  finally show ?thesis .
qed

text \<open>Strings of graphic ASCII are their own trim and hold no control character.\<close>

lemma graphic_ws: "graphic c \<Longrightarrow> c \<notin> set ws1"
  by (auto simp: graphic_def ws1_def ascii_simps)

lemma graphic_high: "graphic c \<Longrightarrow> (of_char c :: nat) < 128"
  by (simp add: graphic_def ascii_simps)

lemma ws_high:
  assumes "w \<in> set ws2 \<union> set ws3" shows "w \<noteq> []" and "\<forall>c \<in> set w. (of_char c :: nat) \<ge> 128"
  using assms by (auto simp: ws2_def ws3_def)

lemma trim_graphic: "list_all graphic s \<Longrightarrow> trim s = s"
proof (cases "s = []")
  case False
  assume g: "list_all graphic s"
  have high: "w \<notin> set ws2 \<union> set ws3" if "set w \<subseteq> set s" for w
  proof
    assume w: "w \<in> set ws2 \<union> set ws3"
    from ws_high [OF w] obtain c where "c \<in> set w" "(of_char c :: nat) \<ge> 128"
      by (metis list.set_sel(1))
    with that g show False by (meson graphic_high list_all_iff not_less subsetD)
  qed
  have "hd s \<notin> set ws1" "last s \<notin> set ws1"
    using False g by (simp_all add: list_all_iff graphic_ws)
  with high [of "take 2 s"] high [of "take 3 s"]
    high [of "drop (length s - 2) s"] high [of "drop (length s - 3) s"]
  show ?thesis
    by (intro trim_fixed) (simp_all add: ws_head_def ws_last_def set_take_subset set_drop_subset)
qed simp

lemma has_control_graphic: "list_all graphic s \<Longrightarrow> \<not> has_control s"
  by (induction s rule: has_control.induct) (auto simp: graphic_def ascii_control_def ascii_simps)

lemma is_alnum_graphic: "is_alnum c \<Longrightarrow> graphic c"
  by (auto simp: is_alnum_def graphic_def ascii_simps)

lemma name_shape_graphic:
  "name_shape extra n s \<Longrightarrow> list_all graphic extra \<Longrightarrow> list_all graphic s"
  by (auto simp: name_shape_def list_all_iff is_alnum_graphic split: list.splits)

lemma name_shape_nonempty: "name_shape extra n s \<Longrightarrow> s \<noteq> []"
  by (auto simp: name_shape_def)

lemma name_shape_length: "name_shape extra n s \<Longrightarrow> length s \<le> Suc n"
  by (auto simp: name_shape_def split: list.splits)

lemma name_shape_trim: "name_shape extra n s \<Longrightarrow> list_all graphic extra \<Longrightarrow> trim s = s"
  by (blast intro: trim_graphic name_shape_graphic)

lemma is_ascii_digit_digit_char: "n < 10 \<Longrightarrow> is_ascii_digit (digit_char n)"
  by (simp add: is_ascii_digit_def digit_char_def ascii_simps)

lemma digits_dec: "list_all is_ascii_digit (dec n)"
  by (induction n rule: dec.induct) (subst dec.simps, simp add: is_ascii_digit_digit_char)

lemma length_dec: "n < 10 ^ k \<Longrightarrow> 0 < k \<Longrightarrow> length (dec n) \<le> k"
proof (induction n arbitrary: k rule: dec.induct)
  case (1 n)
  show ?case
  proof (cases "n < 10")
    case True
    then show ?thesis using "1.prems" by (subst dec.simps) simp
  next
    case False
    then obtain j where k: "k = Suc j" and j: "0 < j"
      using "1.prems" by (cases k; cases "k - 1") auto
    have "n div 10 < 10 ^ j" using "1.prems"(1) k by (simp add: less_mult_imp_div_less mult.commute)
    then have "length (dec (n div 10)) \<le> j" using "1.IH" False j by blast
    then show ?thesis using False k by (subst dec.simps) simp
  qed
qed

section \<open>Lemmas on tables\<close>

lemma set_sql_update [row_simps]:
  "r' \<in> set (sql_update P f rows) \<longleftrightarrow> (\<exists>r \<in> set rows. r' = (if P r then f r else r))"
  by (auto simp: sql_update_def image_iff)

lemma length_sql_update [simp]: "length (sql_update P f rows) = length rows"
  by (simp add: sql_update_def)

lemma map_sql_update: "(\<And>r. P r \<Longrightarrow> k (f r) = k r) \<Longrightarrow> map k (sql_update P f rows) = map k rows"
  by (simp add: sql_update_def)

lemma sql_update_none: "sql_count P rows = 0 \<Longrightarrow> sql_update P f rows = rows"
  by (induction rows) (auto simp: sql_update_def sql_count_def split: if_splits)

lemma sql_count_0 [row_simps]: "sql_count P rows = 0 \<longleftrightarrow> (\<forall>r \<in> set rows. \<not> P r)"
  by (auto simp: sql_count_def filter_empty_conv)

lemma sql_count_pos [row_simps]: "0 < sql_count P rows \<longleftrightarrow> (\<exists>r \<in> set rows. P r)"
  by (auto simp: sql_count_def filter_empty_conv)

lemma sql_count_append [row_simps]: "sql_count P (xs @ ys) = sql_count P xs + sql_count P ys"
  by (simp add: sql_count_def)

text \<open>A key column with distinct values selects exactly its row.\<close>

lemma find_key:
  "distinct (map k rows) \<Longrightarrow> r \<in> set rows \<Longrightarrow> find (\<lambda>x. k x = k r) rows = Some r"
  by (induction rows) (auto simp: image_iff)

lemma find_key_iff:
  "distinct (map k rows) \<Longrightarrow> find (\<lambda>x. k x = v) rows = Some r \<longleftrightarrow> r \<in> set rows \<and> k r = v"
  using find_key [of k rows r] by (auto simp: find_Some_iff)

lemma find_SomeD: "find P rows = Some r \<Longrightarrow> r \<in> set rows \<and> P r"
  by (auto simp: find_Some_iff)

lemma find_append: "find P (xs @ ys) = (case find P xs of None \<Rightarrow> find P ys | Some r \<Rightarrow> Some r)"
  by (induction xs) auto

lemma distinct_key_eq:
  "distinct (map k rows) \<Longrightarrow> r \<in> set rows \<Longrightarrow> r' \<in> set rows \<Longrightarrow> k r = k r' \<Longrightarrow> r = r'"
  by (auto simp: distinct_map inj_on_def)

lemma sql_count_key:
  "distinct (map k rows) \<Longrightarrow> sql_count (\<lambda>x. k x = v) rows = (if v \<in> k ` set rows then 1 else 0)"
  by (induction rows) (auto simp: sql_count_def filter_empty_conv)

lemma fold_max_ge: "i \<le> fold max is (i::int)" and fold_max_mem: "j \<in> set is \<Longrightarrow> j \<le> fold max is (i::int)"
proof -
  have *: "fold max is i = Max (insert i (set is))" for i and "is" :: "int list"
    by (simp add: Max.set_eq_fold [symmetric] Max.eq_fold' flip: list.set)
  show "i \<le> fold max is i" by (simp add: *)
  show "j \<le> fold max is i" if "j \<in> set is" using that by (simp add: *)
qed

lemma int_le_fold_max: "i < fold max is j + 1 \<longleftrightarrow> i \<le> (fold max is j :: int)"
  by linarith

lemma next_rowid_gt: "i \<in> set ids \<Longrightarrow> i < next_rowid ids"
  by (cases ids) (auto simp: next_rowid_def int_le_fold_max fold_max_ge fold_max_mem)

lemma next_rowid_fresh: "next_rowid ids \<notin> set ids"
  using next_rowid_gt by blast

lemma next_rowid_pos: "(\<forall>i \<in> set ids. 0 < i) \<Longrightarrow> 0 < next_rowid ids"
proof (cases ids)
  case (Cons i "is")
  assume "\<forall>i \<in> set ids. 0 < i"
  with Cons have "0 < i" by simp
  also have "i \<le> fold max is i" by (rule fold_max_ge)
  finally show ?thesis by (simp add: next_rowid_def Cons)
qed (simp add: next_rowid_def)

lemma sorted_next_rowid:
  "sorted_wrt (<) ids \<Longrightarrow> sorted_wrt (<) (ids @ [next_rowid ids])"
  by (auto simp: sorted_wrt_append next_rowid_gt)

lemma sorted_less_distinct: "sorted_wrt (<) (xs :: 'a::linorder list) \<Longrightarrow> distinct xs"
  by (simp add: strict_sorted_iff)

end
