(* ===== verification/Encoding.thy ===== *)
theory Encoding
  imports Prelude "HOL-Library.Word" "HOL-Library.Countable"
begin

text \<open>
  Byte strings, JSON values and the third-party codecs.

  \<open>base64\<close>, \<open>serde_json\<close>, \<open>sha2\<close> and \<open>ring\<close> are not part of the repository: they are the
  fields of the record \<open>externals\<close>, an argument of every definition that calls them.  What a
  theorem relies on is the named hypotheses \<open>json_faithful\<close> (\<open>from_slice\<close> reads back what
  \<open>to_vec\<close> wrote) and \<open>base64_faithful\<close> (URL-safe base64 decodes what it encoded, encodes nothing
  to the empty text and never uses a dot).  \<open>hmac::verify\<close> accepts a tag exactly when it is the one \<open>hmac::sign\<close> computes.
  The instance \<open>sample_externals\<close> satisfies both hypotheses.
\<close>

type_synonym bytes = "8 word list"

definition as_bytes :: "string \<Rightarrow> bytes" where
  "as_bytes s = map (\<lambda>c. of_nat (of_char c)) s"

section \<open>JSON values\<close>

text \<open>\<open>serde_json::Value\<close>; a number that is not an integer is kept as its text.\<close>

datatype json =
    JNull
  | JBool bool
  | JInt int
  | JFloat string
  | JStr string
  | JArr "json list"
  | JObj "(string \<times> json) list"

instance json :: countable
  by countable_datatype

definition json_get :: "string \<Rightarrow> json \<Rightarrow> json option" where
  "json_get key v = (case v of JObj fields \<Rightarrow> map_of fields key | _ \<Rightarrow> None)"

definition as_str :: "json \<Rightarrow> string option" where
  "as_str v = (case v of JStr s \<Rightarrow> Some s | _ \<Rightarrow> None)"

definition as_u64 :: "json \<Rightarrow> nat option" where
  "as_u64 v = (case v of JInt i \<Rightarrow> if 0 \<le> i \<and> i < 2 ^ 64 then Some (nat i) else None | _ \<Rightarrow> None)"

text \<open>\<open>json!\<close> of an \<open>Option\<close>.\<close>

definition json_opt :: "('a \<Rightarrow> json) \<Rightarrow> 'a option \<Rightarrow> json" where
  "json_opt f x = (case x of None \<Rightarrow> JNull | Some v \<Rightarrow> f v)"

text \<open>\<open>BTreeMap::insert\<close> on the sorted list of entries.\<close>

fun btree_insert :: "string \<Rightarrow> 'v \<Rightarrow> (string \<times> 'v) list \<Rightarrow> (string \<times> 'v) list" where
  "btree_insert k v [] = [(k, v)]"
| "btree_insert k v ((k', v') # es) =
     (if k < k' then (k, v) # (k', v') # es
      else if k = k' then (k, v) # es
      else (k', v') # btree_insert k v es)"

definition btree_of :: "(string \<times> 'v) list \<Rightarrow> (string \<times> 'v) list" where
  "btree_of pairs = fold (\<lambda>(k, v). btree_insert k v) pairs []"

section \<open>External functions\<close>

record externals =
  b64_encode :: "bytes \<Rightarrow> string"
  b64_decode :: "string \<Rightarrow> bytes option"
  json_to_vec :: "json \<Rightarrow> bytes"
  json_from_slice :: "bytes \<Rightarrow> json option"
  hmac_sha256 :: "bytes \<Rightarrow> bytes \<Rightarrow> bytes"
  hmac_sha1 :: "bytes \<Rightarrow> bytes \<Rightarrow> bytes"
  sha256 :: "bytes \<Rightarrow> bytes"

definition json_faithful :: "externals \<Rightarrow> bool" where
  "json_faithful ext \<longleftrightarrow> (\<forall>v. json_from_slice ext (json_to_vec ext v) = Some v)"

definition base64_faithful :: "externals \<Rightarrow> bool" where
  "base64_faithful ext \<longleftrightarrow> b64_encode ext [] = [] \<and>
     (\<forall>bs. b64_decode ext (b64_encode ext bs) = Some bs \<and> CHR ''.'' \<notin> set (b64_encode ext bs))"

text \<open>Lower-case hexadecimal, as \<open>{byte:02x}\<close> prints it.\<close>

definition hex_digit :: "nat \<Rightarrow> char" where
  "hex_digit n = (if n < 10 then char_of (48 + n) else char_of (87 + n))"

definition hex_byte :: "8 word \<Rightarrow> string" where
  "hex_byte b = [hex_digit (unat b div 16), hex_digit (unat b mod 16)]"

definition hex :: "bytes \<Rightarrow> string" where
  "hex bs = concat (map hex_byte bs)"

section \<open>An instance of the external functions\<close>

definition unhex_digit :: "char \<Rightarrow> nat" where
  "unhex_digit c = (if (of_char c :: nat) < 58 then of_char c - 48 else of_char c - 87)"

fun unhex :: "string \<Rightarrow> bytes option" where
  "unhex [] = Some []"
| "unhex [c] = None"
| "unhex (c # d # cs) = map_option ((#) (of_nat (unhex_digit c * 16 + unhex_digit d))) (unhex cs)"

definition sample_externals :: externals where
  "sample_externals = \<lparr>b64_encode = hex, b64_decode = unhex,
     json_to_vec = (\<lambda>v. replicate (to_nat v) 0), json_from_slice = (\<lambda>bs. Some (from_nat (length bs))),
     hmac_sha256 = (\<lambda>k m. replicate 32 (of_nat (length k + length m))),
     hmac_sha1 = (\<lambda>k m. replicate 20 (of_nat (length k + length m))),
     sha256 = (\<lambda>m. replicate 32 (of_nat (length m)))\<rparr>"

section \<open>Lemmas\<close>

lemma inj_as_bytes: "as_bytes s = as_bytes t \<longleftrightarrow> s = t"
proof -
  have "inj (\<lambda>c. of_nat (of_char c) :: 8 word)"
  proof (rule injI)
    fix c d :: char
    assume "(of_nat (of_char c) :: 8 word) = of_nat (of_char d)"
    then have "unat (of_nat (of_char c) :: 8 word) = unat (of_nat (of_char d) :: 8 word)"
      by simp
    then have "(of_char c :: nat) mod 2 ^ 8 = of_char d mod 2 ^ 8"
      by (simp add: unat_of_nat)
    then show "c = d" by simp
  qed
  then show ?thesis
    unfolding as_bytes_def by (metis inj_map_eq_map)
qed

lemma unhex_hex_digit: "n < 16 \<Longrightarrow> unhex_digit (hex_digit n) = n"
  by (simp add: unhex_digit_def hex_digit_def)

lemma hex_digit_no_dot: "n < 16 \<Longrightarrow> hex_digit n \<noteq> CHR ''.''"
proof
  assume n: "n < 16" and "hex_digit n = CHR ''.''"
  then have "(of_char (hex_digit n) :: nat) = 46" by simp
  with n show False by (auto simp: hex_digit_def split: if_splits)
qed

lemma unat_byte: "unat (b :: 8 word) < 256"
  using unsigned_less [of b, where ?'a = nat] by simp

lemma hex_byte_bounds: "unat (b :: 8 word) div 16 < 16" "unat b mod 16 < 16"
  using unat_byte [of b] by auto

lemma unhex_hex: "unhex (hex bs) = Some bs"
proof (induction bs)
  case (Cons b bs)
  have "of_nat (unat b div 16 * 16 + unat b mod 16) = b" by simp
  with Cons show ?case
    by (simp add: hex_def hex_byte_def unhex_hex_digit hex_byte_bounds del: of_nat_add of_nat_mult)
qed (simp add: hex_def)

lemma sample_json_faithful: "json_faithful sample_externals"
  by (simp add: json_faithful_def sample_externals_def)

lemma sample_base64_faithful: "base64_faithful sample_externals"
proof -
  have "CHR ''.'' \<notin> set (hex bs)" for bs
    using hex_digit_no_dot [OF hex_byte_bounds(1)] hex_digit_no_dot [OF hex_byte_bounds(2)]
    by (auto simp: hex_def hex_byte_def) metis+
  then show ?thesis
    by (simp add: base64_faithful_def sample_externals_def unhex_hex) (simp add: hex_def)
qed

lemma json_to_vec_inj:
  "json_faithful ext \<Longrightarrow> json_to_vec ext v = json_to_vec ext w \<longleftrightarrow> v = w"
  unfolding json_faithful_def by (metis option.inject)

lemma json_opt_inj: "(\<And>x y. f x = f y \<longleftrightarrow> x = y) \<Longrightarrow> (\<And>x. f x \<noteq> JNull) \<Longrightarrow>
  json_opt f a = json_opt f b \<longleftrightarrow> a = b"
  by (auto simp: json_opt_def split: option.splits dest: sym)

end
