(* ===== verification/Participant_Auth.thy ===== *)
theory Participant_Auth
  imports Encoding
begin

text \<open>
  The HMAC proofs of \<open>participant_auth.rs\<close>: the participant's shared secret, the canonical bytes of
  each authenticated request and the verification of a proof over them.  The lemmas show that the
  canonical bytes determine the request (every field is signed) and that requests of different
  purposes never share their bytes, so a proof made for one request is a proof for no other.
\<close>

definition AUTH_SCHEME :: string where
  "AUTH_SCHEME = ''hmac-sha256-v1''"

definition SECRET_PREFIX :: string where
  "SECRET_PREFIX = ''hmac-sha256-secret:''"

section \<open>Secrets\<close>

definition decode_secret :: "externals \<Rightarrow> string \<Rightarrow> bytes option" where
  "decode_secret ext secret =
     (if \<not> prefix SECRET_PREFIX secret then None
      else let encoded = drop (length SECRET_PREFIX) secret in
        if encoded = [] then None
        else case b64_decode ext encoded of
               None \<Rightarrow> None
             | Some decoded \<Rightarrow> if length decoded = 32 then Some decoded else None)"

definition validate_secret :: "externals \<Rightarrow> string \<Rightarrow> bool" where
  "validate_secret ext secret = (decode_secret ext secret \<noteq> None)"

text \<open>The random bytes are an argument.\<close>

definition generate_secret :: "externals \<Rightarrow> bytes \<Rightarrow> string \<times> string" where
  "generate_secret ext random = (let secret = SECRET_PREFIX @ b64_encode ext random in (secret, secret))"

section \<open>Canonical bytes\<close>

definition canonical_write_bytes_with_intent ::
    "externals \<Rightarrow> string \<Rightarrow> string \<Rightarrow> string \<Rightarrow> string \<Rightarrow> int option \<Rightarrow> string \<Rightarrow> string option \<Rightarrow> bytes" where
  "canonical_write_bytes_with_intent ext participant_id channel kind body reply_to nonce intent_id =
     json_to_vec ext (JObj (btree_of (
       [(''auth_version'', JStr AUTH_SCHEME), (''body'', JStr body), (''channel'', JStr channel)] @
       (case intent_id of Some i \<Rightarrow> [(''intent_id'', JStr i)] | None \<Rightarrow> []) @
       [(''kind'', JStr kind), (''nonce'', JStr nonce), (''participant_id'', JStr participant_id),
        (''reply_to'', json_opt JInt reply_to)])))"

definition canonical_read_bytes :: "externals \<Rightarrow> string \<Rightarrow> string \<Rightarrow> int \<Rightarrow> nat \<Rightarrow> bytes" where
  "canonical_read_bytes ext participant_id channel after limit =
     json_to_vec ext (JObj (btree_of
       [(''after'', JInt after), (''auth_version'', JStr AUTH_SCHEME), (''channel'', JStr channel),
        (''limit'', JInt (int limit)), (''participant_id'', JStr participant_id),
        (''purpose'', JStr ''blackboard-read-v1'')]))"

definition canonical_authorization_decision_bytes ::
    "externals \<Rightarrow> string \<Rightarrow> string \<Rightarrow> string \<Rightarrow> string \<Rightarrow> string \<Rightarrow> string option \<Rightarrow> string option \<Rightarrow> bytes" where
  "canonical_authorization_decision_bytes ext participant_id principal_provider principal_subject
       target_participant_id capability resource intent_id =
     json_to_vec ext (JObj (btree_of
       [(''auth_version'', JStr AUTH_SCHEME), (''capability'', JStr capability),
        (''intent_id'', json_opt JStr intent_id), (''participant_id'', JStr participant_id),
        (''principal_provider'', JStr principal_provider),
        (''principal_subject'', JStr principal_subject),
        (''purpose'', JStr ''authorization-decision-explain-v1''), (''resource'', json_opt JStr resource),
        (''target_participant_id'', JStr target_participant_id)]))"

definition canonical_capability_bytes ::
    "externals \<Rightarrow> string \<Rightarrow> string \<Rightarrow> string option \<Rightarrow> bytes" where
  "canonical_capability_bytes ext participant_id capability resource =
     json_to_vec ext (JObj (btree_of
       [(''auth_version'', JStr AUTH_SCHEME), (''capability'', JStr capability),
        (''participant_id'', JStr participant_id), (''purpose'', JStr ''blackboard-capability-v1''),
        (''resource'', json_opt JStr resource)]))"

section \<open>Proofs\<close>

definition compute_message_proof :: "externals \<Rightarrow> string \<Rightarrow> bytes \<Rightarrow> string option" where
  "compute_message_proof ext secret message =
     map_option (\<lambda>key. b64_encode ext (hmac_sha256 ext key message)) (decode_secret ext secret)"

definition verify_message_proof :: "externals \<Rightarrow> string \<Rightarrow> string \<Rightarrow> bytes \<Rightarrow> bool" where
  "verify_message_proof ext secret proof_text message =
     (case decode_secret ext secret of
        None \<Rightarrow> False
      | Some key \<Rightarrow>
          (case b64_decode ext proof_text of
             None \<Rightarrow> False
           | Some tag \<Rightarrow> if length tag \<noteq> 32 then False else hmac_sha256 ext key message = tag))"

definition verify_capability_proof ::
    "externals \<Rightarrow> string \<Rightarrow> string \<Rightarrow> string \<Rightarrow> string \<Rightarrow> string option \<Rightarrow> bool" where
  "verify_capability_proof ext secret proof_text participant_id capability resource =
     verify_message_proof ext secret proof_text
       (canonical_capability_bytes ext participant_id capability resource)"

definition verify_write_proof_with_intent ::
    "externals \<Rightarrow> string \<Rightarrow> string \<Rightarrow> string \<Rightarrow> string \<Rightarrow> string \<Rightarrow> string \<Rightarrow> int option \<Rightarrow> string
     \<Rightarrow> string option \<Rightarrow> bool" where
  "verify_write_proof_with_intent ext secret proof_text participant_id channel kind body reply_to nonce
       intent_id =
     verify_message_proof ext secret proof_text
       (canonical_write_bytes_with_intent ext participant_id channel kind body reply_to nonce intent_id)"

definition verify_write_proof ::
    "externals \<Rightarrow> string \<Rightarrow> string \<Rightarrow> string \<Rightarrow> string \<Rightarrow> string \<Rightarrow> string \<Rightarrow> int option \<Rightarrow> string \<Rightarrow> bool" where
  "verify_write_proof ext secret proof_text participant_id channel kind body reply_to nonce =
     verify_write_proof_with_intent ext secret proof_text participant_id channel kind body reply_to
       nonce None"

definition verify_read_proof ::
    "externals \<Rightarrow> string \<Rightarrow> string \<Rightarrow> string \<Rightarrow> string \<Rightarrow> int \<Rightarrow> nat \<Rightarrow> bool" where
  "verify_read_proof ext secret proof_text participant_id channel after limit =
     verify_message_proof ext secret proof_text (canonical_read_bytes ext participant_id channel after limit)"

text \<open>\<open>canonical_http_request_bytes\<close> of \<open>web_auth.rs\<close>, the fifth kind of bytes signed with the
  participant's secret.\<close>

definition canonical_http_request_bytes :: "externals \<Rightarrow> string \<Rightarrow> string \<Rightarrow> string \<Rightarrow> bytes" where
  "canonical_http_request_bytes ext participant_id http_method request_target =
     json_to_vec ext (JObj (btree_of
       [(''auth_version'', JStr AUTH_SCHEME), (''method'', JStr http_method),
        (''participant_id'', JStr participant_id), (''purpose'', JStr ''http-request-auth-v1''),
        (''request_target'', JStr request_target)]))"

definition verify_http_request_auth ::
    "externals \<Rightarrow> string \<Rightarrow> string \<Rightarrow> string \<Rightarrow> string \<Rightarrow> string \<Rightarrow> bool" where
  "verify_http_request_auth ext secret proof_text participant_id http_method request_target =
     verify_message_proof ext secret proof_text
       (canonical_http_request_bytes ext participant_id http_method request_target)"

section \<open>Requests\<close>

text \<open>Everything a participant's secret signs, and the bytes that are signed.\<close>

datatype signed_request =
    SignedWrite string string string string "int option" string "string option"
  | SignedRead string string int nat
  | SignedDecision string string string string string "string option" "string option"
  | SignedCapability string string "string option"
  | SignedHttp string string string

fun canonical_bytes :: "externals \<Rightarrow> signed_request \<Rightarrow> bytes" where
  "canonical_bytes ext (SignedWrite p c k b r n i) = canonical_write_bytes_with_intent ext p c k b r n i"
| "canonical_bytes ext (SignedRead p c a l) = canonical_read_bytes ext p c a l"
| "canonical_bytes ext (SignedDecision p pp ps t c r i) =
     canonical_authorization_decision_bytes ext p pp ps t c r i"
| "canonical_bytes ext (SignedCapability p c r) = canonical_capability_bytes ext p c r"
| "canonical_bytes ext (SignedHttp p m t) = canonical_http_request_bytes ext p m t"

lemmas canonical_defs = canonical_write_bytes_with_intent_def canonical_read_bytes_def
  canonical_authorization_decision_bytes_def canonical_capability_bytes_def
  canonical_http_request_bytes_def

lemma json_opt_JInt [simp]: "json_opt JInt a = json_opt JInt b \<longleftrightarrow> a = b"
  by (rule json_opt_inj) simp_all

lemma json_opt_JStr [simp]: "json_opt JStr a = json_opt JStr b \<longleftrightarrow> a = b"
  by (rule json_opt_inj) simp_all

text \<open>The entries of a \<open>BTreeMap\<close> built from keys in ascending order are the pairs as given.\<close>

lemma btree_insert_last:
  "\<forall>e \<in> set es. fst e < k \<Longrightarrow> btree_insert k v es = es @ [(k, v)]"
  by (induction es) (auto dest: less_asym)

lemma btree_fold_ascending:
  "sorted_wrt (<) (map fst (acc @ pairs)) \<Longrightarrow>
   fold (\<lambda>(k, v). btree_insert k v) pairs acc = acc @ pairs"
proof (induction pairs arbitrary: acc)
  case (Cons p pairs)
  obtain k v where p: "p = (k, v)" by fastforce
  have "\<forall>e \<in> set acc. fst e < k"
    using Cons.prems p by (auto simp: sorted_wrt_append)
  then have "btree_insert k v acc = acc @ [(k, v)]" by (rule btree_insert_last)
  with Cons.IH [of "acc @ [(k, v)]"] Cons.prems p show ?case by simp
qed simp

lemma btree_of_ascending: "sorted_wrt (<) (map fst pairs) \<Longrightarrow> btree_of pairs = pairs"
  unfolding btree_of_def using btree_fold_ascending [of "[]" pairs] by simp

section \<open>Properties\<close>

text \<open>C31: The signed bytes determine the request: two authenticated requests (writes, reads, decision
  explanations, capability proofs, HTTP requests) have the same canonical bytes only if they are the
  same request in every field, so a proof for one purpose or one set of fields never covers another.\<close>

theorem canonical_bytes_injective:
  assumes "json_faithful ext"
  shows "canonical_bytes ext r = canonical_bytes ext r' \<longleftrightarrow> r = r'"
proof -
  note simps = canonical_defs json_to_vec_inj [OF assms] btree_of_ascending less_char_of_char
  show ?thesis
    by (cases r; cases r') (auto simp: simps split: option.splits)
qed

theorem canonical_bytes_injective_witness:
  "canonical_bytes sample_externals (SignedCapability ''p'' ''post_message'' None) \<noteq>
   canonical_bytes sample_externals (SignedRead ''p'' ''post_message'' 0 20)"
  using canonical_bytes_injective [OF sample_json_faithful, of "SignedCapability ''p'' ''post_message'' None"
    "SignedRead ''p'' ''post_message'' 0 20"] by simp

lemma generated_secret_decodes:
  assumes "base64_faithful ext" and "length random = 32"
  shows "decode_secret ext (fst (generate_secret ext random)) = Some random"
proof -
  have dec: "b64_decode ext (b64_encode ext bs) = Some bs" for bs
    using assms(1) by (simp add: base64_faithful_def)
  have "b64_encode ext random \<noteq> []"
  proof
    assume "b64_encode ext random = []"
    moreover have "b64_encode ext [] = []" using assms(1) by (simp add: base64_faithful_def)
    ultimately have "random = []" using dec [of random] dec [of "[]"] by simp
    with assms(2) show False by simp
  qed
  then show ?thesis using assms(2) by (simp add: decode_secret_def generate_secret_def Let_def dec)
qed

lemma generated_secret_valid:
  "base64_faithful ext \<Longrightarrow> length random = 32 \<Longrightarrow> validate_secret ext (fst (generate_secret ext random))"
  using generated_secret_decodes [of ext random] by (simp add: validate_secret_def)

text \<open>A generated secret works: the secret made from 32 random bytes is accepted as a participant
  secret, and the proof computed with it over a message verifies for that message.\<close>

theorem generated_secret_proves:
  assumes "base64_faithful ext" and "length random = 32"
    and "\<forall>m. length (hmac_sha256 ext random m) = 32"
  shows "validate_secret ext (fst (generate_secret ext random)) \<and>
    (\<exists>p. compute_message_proof ext (fst (generate_secret ext random)) message = Some p \<and>
      verify_message_proof ext (fst (generate_secret ext random)) p message)"
proof -
  have dec: "b64_decode ext (b64_encode ext bs) = Some bs" for bs
    using assms(1) by (simp add: base64_faithful_def)
  from generated_secret_decodes [OF assms(1,2)] show ?thesis
    using assms(3) by (simp add: validate_secret_def compute_message_proof_def verify_message_proof_def dec)
qed

theorem generated_secret_proves_witness:
  "\<exists>p. compute_message_proof sample_externals (fst (generate_secret sample_externals (replicate 32 7))) [1, 2]
      = Some p \<and>
    verify_message_proof sample_externals (fst (generate_secret sample_externals (replicate 32 7))) p [1, 2]"
  using generated_secret_proves [OF sample_base64_faithful, of "replicate 32 7" "[1, 2]"]
  by (simp add: sample_externals_def)

end
