(* ===== verification/Web_Auth.thy ===== *)
theory Web_Auth
  imports Participant_Auth
begin

unbundle bit_operations_syntax

text \<open>
  Human sign-in of \<open>web_auth.rs\<close>: base32 secrets, time-based one-time codes and the signed web
  sessions.  Shift registers are 32-bit words as in the code; \<open>u64\<close> clock values are naturals
  with the checked and saturating operations written out.  The lemmas show that base32 decoding
  inverts encoding, that a code is six digits and matches only its own step or a neighbouring one,
  and that an issued session verifies until it expires and only with a tag of the server's key.
\<close>

definition TOTP_PERIOD_SECS :: nat where "TOTP_PERIOD_SECS = 30"

definition TOTP_DIGITS :: nat where "TOTP_DIGITS = 6"

definition TOTP_MAX_FAILURES :: int where "TOTP_MAX_FAILURES = 5"

definition TOTP_LOCK_SECS :: nat where "TOTP_LOCK_SECS = 60"

definition GUEST_PARTICIPANT_ID :: string where "GUEST_PARTICIPANT_ID = ''anonymous''"

definition WEB_SESSION_PREFIX :: string where "WEB_SESSION_PREFIX = ''bbsess-v1''"

definition WEB_SESSION_PURPOSE :: string where "WEB_SESSION_PURPOSE = ''human-web-session-v1''"

definition WEB_SESSION_TTL_SECS :: nat where "WEB_SESSION_TTL_SECS = 8 * 60 * 60"

definition BASE32_ALPHABET :: string where
  "BASE32_ALPHABET = ''ABCDEFGHIJKLMNOPQRSTUVWXYZ234567''"

section \<open>Unsigned arithmetic\<close>

definition u64_max :: nat where "u64_max = 2 ^ 64 - 1"

definition saturating_add_u64 :: "nat \<Rightarrow> nat \<Rightarrow> nat" where
  "saturating_add_u64 a b = min (a + b) u64_max"

definition checked_sub_u64 :: "nat \<Rightarrow> nat \<Rightarrow> nat option" where
  "checked_sub_u64 a b = (if b \<le> a then Some (a - b) else None)"

definition checked_add_u64 :: "nat \<Rightarrow> nat \<Rightarrow> nat option" where
  "checked_add_u64 a b = (if a + b \<le> u64_max then Some (a + b) else None)"

section \<open>Base32\<close>

text \<open>The inner \<open>while bits >= 5\<close> loop: the characters it pushes and the bits left over.\<close>

fun base32_emit :: "32 word \<Rightarrow> nat \<Rightarrow> string \<times> nat" where
  "base32_emit buffer bits =
     (if bits < 5 then ([], bits)
      else let (out, rest) = base32_emit buffer (bits - 5)
           in (BASE32_ALPHABET ! unat (drop_bit (bits - 5) buffer AND 0x1f) # out, rest))"

declare base32_emit.simps [simp del]

fun base32_encode_loop :: "32 word \<Rightarrow> nat \<Rightarrow> bytes \<Rightarrow> string" where
  "base32_encode_loop buffer bits [] =
     (if bits > 0 then [BASE32_ALPHABET ! unat (push_bit (5 - bits) buffer AND 0x1f)] else [])"
| "base32_encode_loop buffer bits (byte # bytes) =
     (let buffer = push_bit 8 buffer OR ucast byte;
          (out, bits) = base32_emit buffer (bits + 8)
      in out @ base32_encode_loop buffer bits bytes)"

definition base32_encode :: "bytes \<Rightarrow> string" where
  "base32_encode bytes = base32_encode_loop 0 0 bytes"

definition to_ascii_uppercase :: "char \<Rightarrow> char" where
  "to_ascii_uppercase c = (if CHR ''a'' \<le> c \<and> c \<le> CHR ''z'' then char_of (of_char c - 32 :: nat) else c)"

definition base32_index :: "char \<Rightarrow> nat option" where
  "base32_index c =
     (let upper = to_ascii_uppercase c in
      if CHR ''A'' \<le> upper \<and> upper \<le> CHR ''Z'' then Some (of_char upper - of_char (CHR ''A''))
      else if CHR ''2'' \<le> upper \<and> upper \<le> CHR ''7'' then Some (of_char upper - of_char (CHR ''2'') + 26)
      else None)"

fun base32_decode_loop :: "32 word \<Rightarrow> nat \<Rightarrow> string \<Rightarrow> bytes option" where
  "base32_decode_loop buffer bits [] = Some []"
| "base32_decode_loop buffer bits (c # cs) =
     (case base32_index c of
        None \<Rightarrow> None
      | Some index \<Rightarrow>
          (let buffer = push_bit 5 buffer OR of_nat index; bits = bits + 5 in
           if bits \<ge> 8 then
             map_option ((#) (ucast (drop_bit (bits - 8) buffer AND 0xff)))
               (base32_decode_loop buffer (bits - 8) cs)
           else base32_decode_loop buffer bits cs))"

definition base32_decode :: "string \<Rightarrow> bytes option" where
  "base32_decode s =
     (if s = [] \<or> CHR ''='' \<in> set s then None else base32_decode_loop 0 0 s)"

definition validate_totp_secret :: "string \<Rightarrow> bool" where
  "validate_totp_secret secret =
     (case base32_decode secret of Some bs \<Rightarrow> 10 \<le> length bs \<and> length bs \<le> 64 | None \<Rightarrow> False)"

text \<open>The 20 random bytes are an argument.\<close>

definition generate_totp_secret :: "bytes \<Rightarrow> string" where
  "generate_totp_secret random = base32_encode random"

section \<open>One-time codes\<close>

definition u64_to_be_bytes :: "nat \<Rightarrow> bytes" where
  "u64_to_be_bytes n = map (\<lambda>i. of_nat (n div 256 ^ (7 - i))) [0..<8]"

definition zero_padded :: "nat \<Rightarrow> nat \<Rightarrow> string" where
  "zero_padded width n = replicate (width - length (dec n)) (CHR ''0'') @ dec n"

definition totp_code_bytes :: "externals \<Rightarrow> bytes \<Rightarrow> nat \<Rightarrow> nat \<Rightarrow> string option" where
  "totp_code_bytes ext secret step digits =
     (if digits < 6 \<or> 8 < digits then None
      else let digest = hmac_sha1 ext secret (u64_to_be_bytes step) in
        if digest = [] then None
        else let offset = unat (last digest AND 0x0f) in
          if length digest < offset + 4 then None
          else let binary = (push_bit 24 (ucast (digest ! offset AND 0x7f)) OR
                             push_bit 16 (ucast (digest ! (offset + 1))) OR
                             push_bit 8 (ucast (digest ! (offset + 2))) OR
                             ucast (digest ! (offset + 3))) :: 32 word
               in Some (zero_padded digits (unat binary mod 10 ^ digits)))"

fun first_matching_step :: "externals \<Rightarrow> bytes \<Rightarrow> string \<Rightarrow> nat list \<Rightarrow> nat option" where
  "first_matching_step ext secret code [] = None"
| "first_matching_step ext secret code (step # steps) =
     (case totp_code_bytes ext secret step TOTP_DIGITS of
        None \<Rightarrow> None
      | Some expected \<Rightarrow> if expected = code then Some step else first_matching_step ext secret code steps)"

definition matching_totp_step :: "externals \<Rightarrow> string \<Rightarrow> string \<Rightarrow> nat \<Rightarrow> nat option" where
  "matching_totp_step ext secret code now =
     (if length code \<noteq> TOTP_DIGITS \<or> \<not> list_all is_ascii_digit code then None
      else case base32_decode secret of
             None \<Rightarrow> None
           | Some key \<Rightarrow>
               let current = now div TOTP_PERIOD_SECS;
                   candidates = [Some current, checked_sub_u64 current 1, checked_add_u64 current 1]
               in first_matching_step ext key code (List.map_filter id candidates))"

section \<open>Web sessions\<close>

datatype web_session_kind = HumanWeb | Guest

fun web_session_kind_as_str :: "web_session_kind \<Rightarrow> string" where
  "web_session_kind_as_str HumanWeb = ''human-web''"
| "web_session_kind_as_str Guest = ''guest''"

definition web_session_kind_parse :: "string \<Rightarrow> web_session_kind option" where
  "web_session_kind_parse s =
     (if s = ''human-web'' then Some HumanWeb else if s = ''guest'' then Some Guest else None)"

record web_session =
  ws_participant_id :: string
  ws_session_type :: web_session_kind
  ws_expires_at :: nat
  ws_token :: string

definition canonical_json :: "externals \<Rightarrow> (string \<times> json) list \<Rightarrow> bytes" where
  "canonical_json ext pairs = json_to_vec ext (JObj (btree_of pairs))"

text \<open>\<open>str::split('.')\<close>.\<close>

fun split_dot :: "string \<Rightarrow> string list" where
  "split_dot [] = [[]]"
| "split_dot (c # cs) =
     (if c = CHR ''.'' then [] # split_dot cs
      else case split_dot cs of [] \<Rightarrow> [[c]] | p # ps \<Rightarrow> (c # p) # ps)"

text \<open>The process key of \<open>session_hmac_key\<close> is the argument \<open>key\<close>.\<close>

definition issue_web_session_at ::
    "externals \<Rightarrow> bytes \<Rightarrow> string \<Rightarrow> web_session_kind \<Rightarrow> nat \<Rightarrow> web_session" where
  "issue_web_session_at ext key participant_id session_type now =
     (let expires_at = saturating_add_u64 now WEB_SESSION_TTL_SECS;
          payload = canonical_json ext
            [(''expires_at'', JInt (int expires_at)), (''participant_id'', JStr participant_id),
             (''purpose'', JStr WEB_SESSION_PURPOSE),
             (''session_type'', JStr (web_session_kind_as_str session_type)),
             (''version'', JStr WEB_SESSION_PREFIX)];
          tag = hmac_sha256 ext key payload
      in \<lparr>ws_participant_id = participant_id, ws_session_type = session_type, ws_expires_at = expires_at,
          ws_token = WEB_SESSION_PREFIX @ ''.'' @ b64_encode ext payload @ ''.'' @ b64_encode ext tag\<rparr>)"

text \<open>The checks on the payload, after the tag has been verified.\<close>

definition session_from_payload :: "json \<Rightarrow> string \<Rightarrow> nat \<Rightarrow> web_session option" where
  "session_from_payload payload token now =
     (case (Option.bind (json_get ''version'' payload) as_str,
            Option.bind (json_get ''purpose'' payload) as_str) of
        (Some version, Some purpose) \<Rightarrow>
          (if version \<noteq> WEB_SESSION_PREFIX \<or> purpose \<noteq> WEB_SESSION_PURPOSE then None
           else case (Option.bind (json_get ''participant_id'' payload) as_str,
                      Option.bind (json_get ''expires_at'' payload) as_u64,
                      case json_get ''session_type'' payload of
                        None \<Rightarrow> Some HumanWeb
                      | Some v \<Rightarrow> Option.bind (as_str v) web_session_kind_parse) of
                  (Some participant_id, Some expires_at, Some session_type) \<Rightarrow>
                    (if participant_id = [] \<or> 64 < length participant_id \<or> expires_at < now then None
                     else if session_type = Guest \<and> participant_id \<noteq> GUEST_PARTICIPANT_ID then None
                     else Some \<lparr>ws_participant_id = participant_id, ws_session_type = session_type,
                                ws_expires_at = expires_at, ws_token = token\<rparr>)
                | _ \<Rightarrow> None)
      | _ \<Rightarrow> None)"

definition verify_web_session_at :: "externals \<Rightarrow> bytes \<Rightarrow> string \<Rightarrow> nat \<Rightarrow> web_session option" where
  "verify_web_session_at ext key token now =
     (case split_dot token of
        [version, payload_encoded, tag_encoded] \<Rightarrow>
          (if version \<noteq> WEB_SESSION_PREFIX then None
           else case (b64_decode ext payload_encoded, b64_decode ext tag_encoded) of
                  (Some payload, Some tag) \<Rightarrow>
                    (if hmac_sha256 ext key payload \<noteq> tag then None
                     else case json_from_slice ext payload of
                            None \<Rightarrow> None
                          | Some v \<Rightarrow> session_from_payload v token now)
                | _ \<Rightarrow> None)
      | _ \<Rightarrow> None)"

section \<open>Base32 decodes what it encoded\<close>

lemma and_0x1f: "(x :: 32 word) AND 0x1f = take_bit 5 x"
  by (simp add: take_bit_eq_mask mask_eq_exp_minus_1)

lemma and_0xff: "(x :: 32 word) AND 0xff = take_bit 8 x"
  by (simp add: take_bit_eq_mask mask_eq_exp_minus_1)

lemma base32_index_alphabet: "i < 32 \<Longrightarrow> base32_index (BASE32_ALPHABET ! i) = Some i"
proof -
  have "list_all (\<lambda>i. base32_index (BASE32_ALPHABET ! i) = Some i) [0..<32]"
    by code_simp
  then show "i < 32 \<Longrightarrow> ?thesis" by (simp add: list_all_iff)
qed

text \<open>The character the encoder pushes for five bits of its buffer, read back by the decoder.\<close>

definition chunk_char :: "32 word \<Rightarrow> char" where
  "chunk_char x = BASE32_ALPHABET ! unat (take_bit 5 x)"

lemma unat_take_bit5: "unat (take_bit 5 (x :: 32 word)) < 32"
  using take_bit_nat_less_exp [of 5 "unat x"] by (simp add: unsigned_take_bit_eq)

lemma decode_chunk:
  "base32_decode_loop d j (chunk_char x # cs) =
     (let d' = push_bit 5 d OR take_bit 5 x in
      if 3 \<le> j then map_option ((#) (ucast (take_bit 8 (drop_bit (j - 3) d')))) (base32_decode_loop d' (j - 3) cs)
      else base32_decode_loop d' (j + 5) cs)"
  by (simp add: chunk_char_def base32_index_alphabet unat_take_bit5 and_0xff Let_def)

declare base32_decode_loop.simps(2) [simp del]

lemma emit_chunks:
  "base32_emit b (k + 8) =
     (if k + 8 < 10 then ([chunk_char (drop_bit (k + 3) b)], k + 3)
      else ([chunk_char (drop_bit (k + 3) b), chunk_char (drop_bit (k - 2) b)], k - 2))" if "k < 5"
proof -
  from that consider "k = 0" | "k = 1" | "k = 2" | "k = 3" | "k = 4" by linarith
  then show ?thesis
    by cases (simp_all add: base32_emit.simps and_0x1f chunk_char_def)
qed

lemma bit_feed:
  "bit (push_bit 5 d OR take_bit 5 (x :: 32 word)) i = (if i < 5 then bit x i else i < 32 \<and> bit d (i - 5))"
  by (auto simp: bit_simps dest: bit_imp_le_length)

lemma bit_load:
  "bit (push_bit 8 (e :: 32 word) OR ucast (b :: 8 word)) i =
     (if i < 8 then bit b i else i < 32 \<and> bit e (i - 8))"
  by (auto simp: bit_simps dest: bit_imp_le_length)

lemma byte_eq: "(\<And>i. i < 8 \<Longrightarrow> bit (d :: 32 word) (s + i) = bit b i) \<Longrightarrow>
  ucast (take_bit 8 (drop_bit s d)) = (b :: 8 word)"
  by (rule bit_eqI) (auto simp: bit_simps dest: bit_imp_le_length)

lemma all_below_upt: "(\<forall>i < n. P i) \<longleftrightarrow> list_all P [0..<n]"
  by (auto simp: list_all_iff)

text \<open>Encoder and decoder in step: with \<open>k\<close> bits pending in the encoder, the decoder holds the other
  \<open>8 - k\<close> bits of the last byte.\<close>

definition in_step :: "nat \<Rightarrow> 32 word \<Rightarrow> 32 word \<Rightarrow> 8 word \<Rightarrow> bool" where
  "in_step k e d b \<longleftrightarrow> (\<forall>i < k. bit e i = bit b i) \<and> (\<forall>i < 8 - k. bit d i = bit b (i + k))"

lemma flush_byte:
  assumes "in_step k e d b" and "1 \<le> k" and "k \<le> 4" 
    and "\<And>i. i < k \<Longrightarrow> bit (x :: 32 word) (5 - k + i) = bit e i"
  shows "ucast (take_bit 8 (drop_bit (5 - k) (push_bit 5 d OR take_bit 5 x))) = b"
proof (rule byte_eq)
  fix i :: nat
  assume i: "i < 8"
  show "bit (push_bit 5 d OR take_bit 5 x) (5 - k + i) = bit b i"
  proof (cases "i < k")
    case True
    then have "bit x (5 - k + i) = bit b i" using assms(1,4) by (simp add: in_step_def)
    moreover have "5 - k + i < 5" using True assms(3) by simp
    ultimately show ?thesis by (simp only: bit_feed if_True)
  next
    case False
    then have "5 - k + i - 5 = i - k" "i - k < 8 - k" using assms(2,3) i by auto
    then show ?thesis using False assms i by (auto simp: bit_feed in_step_def)
  qed
qed

lemma encode_chunks:
  assumes "k < 5" and "e' = push_bit 8 e OR ucast b"
  shows "base32_encode_loop e k (b # bs) =
     (if k < 2 then chunk_char (drop_bit (k + 3) e') # base32_encode_loop e' (k + 3) bs
      else chunk_char (drop_bit (k + 3) e') # chunk_char (drop_bit (k - 2) e') #
           base32_encode_loop e' (k - 2) bs)"
  using emit_chunks [OF assms(1)] assms(2) by (simp add: Let_def)

declare base32_encode_loop.simps(2) [simp del]

lemma base32_loop_roundtrip:
  "base32_decode_loop d 0 (base32_encode_loop e 0 bs) = Some bs"
  "1 \<le> k \<Longrightarrow> k \<le> 4 \<Longrightarrow> in_step k e d b \<Longrightarrow>
     base32_decode_loop d (8 - k) (base32_encode_loop e k bs) = Some (b # bs)"
proof (induction bs arbitrary: e d b k)
  case Nil
  case 1
  show ?case by simp
next
  case Nil
  case 2
  have "BASE32_ALPHABET ! unat (push_bit (5 - k) e AND 0x1f) = chunk_char (push_bit (5 - k) e)"
    by (simp add: chunk_char_def and_0x1f)
  moreover have "ucast (take_bit 8 (drop_bit (5 - k) (push_bit 5 d OR take_bit 5 (push_bit (5 - k) e)))) = b"
    using 2 by (intro flush_byte [of k e]) (auto simp: bit_simps)
  ultimately show ?case using 2 by (simp add: decode_chunk Let_def)
next
  case (Cons c bs)
  case 1
  obtain E where E: "E = push_bit 8 e OR ucast c" by simp
  have Eb: "bit E i = bit c i" if "i < 8" for i using that by (simp add: E bit_load del: bit_or_iff)
  have "in_step 3 E (push_bit 5 d OR take_bit 5 (drop_bit 3 E)) c"
    by (simp add: in_step_def bit_feed bit_drop_bit_eq Eb add.commute)
  from Cons.IH(2) [OF _ _ this] show ?case
    by (simp add: encode_chunks [OF _ E] decode_chunk Let_def)
next
  case (Cons c bs)
  case 2
  obtain E where E: "E = push_bit 8 e OR ucast c" by simp
  have Eb: "bit E i = (if i < 8 then bit c i else i < 32 \<and> bit e (i - 8))" for i
    by (simp only: E bit_load)
  obtain D where D: "D = push_bit 5 d OR take_bit 5 (drop_bit (k + 3) E)" by simp
  have Db: "bit D i = (if i < 5 then bit E (i + (k + 3)) else i < 32 \<and> bit d (i - 5))" for i
    by (simp only: D bit_feed bit_drop_bit_eq comp_def add.commute)
  have flush: "ucast (take_bit 8 (drop_bit (5 - k) D)) = b"
    unfolding D using 2 by (intro flush_byte [of k e]) (auto simp: bit_drop_bit_eq Eb)
  show ?case
  proof (cases "k = 1")
    case True
    then have "in_step 4 E D c"
      by (simp add: in_step_def Db Eb)
    from Cons.IH(2) [OF _ _ this] show ?thesis
      using True flush by (simp add: encode_chunks [OF _ E] decode_chunk Let_def D)
  next
    case False
    let ?D2 = "push_bit 5 D OR take_bit 5 (drop_bit (k - 2) E)"
    have k: "k \<in> {2, 3, 4}" using False 2 by auto
    show ?thesis
    proof (cases "k = 2")
      case True
      have "ucast (take_bit 8 (drop_bit 0 ?D2)) = c"
        by (rule byte_eq) (auto simp: True bit_feed Db Eb bit_drop_bit_eq)
      with Cons.IH(1) [of ?D2 E] show ?thesis
        using True flush by (simp add: encode_chunks [OF _ E] decode_chunk Let_def D)
    next
      case False
      then have "in_step (k - 2) E ?D2 c"
        using k by (auto simp: in_step_def bit_feed Db Eb bit_drop_bit_eq add.commute)
      from Cons.IH(2) [OF _ _ this] show ?thesis
        using False k flush by (auto simp: encode_chunks [OF _ E] decode_chunk Let_def D)
    qed
  qed
qed

section \<open>One-time codes\<close>

lemma length_zero_padded: "n < 10 ^ w \<Longrightarrow> 0 < w \<Longrightarrow> length (zero_padded w n) = w"
  using length_dec [of n w] by (simp add: zero_padded_def)

lemma digits_zero_padded: "list_all is_ascii_digit (zero_padded w n)"
  using digits_dec [of n] by (auto simp: zero_padded_def list_all_iff is_ascii_digit_def ascii_simps)

lemma totp_code_shape:
  "totp_code_bytes ext key step w = Some code \<Longrightarrow> length code = w \<and> list_all is_ascii_digit code"
  by (auto simp: totp_code_bytes_def Let_def length_zero_padded digits_zero_padded split: if_splits)

lemma first_matching_step_sound:
  "first_matching_step ext key code steps = Some s \<Longrightarrow>
   s \<in> set steps \<and> totp_code_bytes ext key s TOTP_DIGITS = Some code"
  by (induction steps) (auto split: option.splits if_splits)

lemma first_matching_step_complete:
  "\<forall>s \<in> set steps. totp_code_bytes ext key s TOTP_DIGITS \<noteq> None \<Longrightarrow>
   s \<in> set steps \<Longrightarrow> totp_code_bytes ext key s TOTP_DIGITS = Some code \<Longrightarrow>
   \<exists>s'. first_matching_step ext key code steps = Some s'"
  by (induction steps) auto

text \<open>A 20-byte SHA-1 tag always yields a code.\<close>

lemma totp_code_defined:
  assumes "length (hmac_sha1 ext key (u64_to_be_bytes step)) = 20"
  shows "totp_code_bytes ext key step TOTP_DIGITS \<noteq> None"
proof -
  let ?d = "hmac_sha1 ext key (u64_to_be_bytes step)"
  have "(x :: 8 word) AND 0x0f = take_bit 4 x" for x
    by (simp add: take_bit_eq_mask mask_eq_exp_minus_1)
  then have "unat (last ?d AND 0x0f) < 16"
    using take_bit_nat_less_exp [of 4 "unat (last ?d)"] by (simp add: unsigned_take_bit_eq)
  then show ?thesis
    using assms by (auto simp: totp_code_bytes_def TOTP_DIGITS_def Let_def)
qed

section \<open>Sessions\<close>

lemma split_dot_no_dot: "CHR ''.'' \<notin> set s \<Longrightarrow> split_dot s = [s]"
  by (induction s) auto

lemma split_dot_append: "CHR ''.'' \<notin> set s \<Longrightarrow> split_dot (s @ CHR ''.'' # t) = s # split_dot t"
  by (induction s) auto

lemma split_dot_token:
  "base64_faithful ext \<Longrightarrow>
   split_dot (WEB_SESSION_PREFIX @ ''.'' @ b64_encode ext p @ ''.'' @ b64_encode ext t) =
     [WEB_SESSION_PREFIX, b64_encode ext p, b64_encode ext t]"
  by (simp add: base64_faithful_def split_dot_append split_dot_no_dot WEB_SESSION_PREFIX_def)

lemma web_session_kind_parse_as_str [simp]:
  "web_session_kind_parse (web_session_kind_as_str k) = Some k"
  by (cases k) (simp_all add: web_session_kind_parse_def)

text \<open>The payload of an issued session, as the verifier reads it back.\<close>

definition session_fields :: "string \<Rightarrow> web_session_kind \<Rightarrow> nat \<Rightarrow> (string \<times> json) list" where
  "session_fields p kind expires_at =
     [(''expires_at'', JInt (int expires_at)), (''participant_id'', JStr p),
      (''purpose'', JStr WEB_SESSION_PURPOSE), (''session_type'', JStr (web_session_kind_as_str kind)),
      (''version'', JStr WEB_SESSION_PREFIX)]"

lemma btree_of_session_fields: "btree_of (session_fields p kind e) = session_fields p kind e"
  by (rule btree_of_ascending) (simp add: session_fields_def ascii_simps)

lemma verify_issued:
  assumes "json_faithful ext" and "base64_faithful ext"
    and "issue_web_session_at ext key p kind t0 = s"
  shows "verify_web_session_at ext key (ws_token s) t =
    session_from_payload (JObj (session_fields p kind (ws_expires_at s))) (ws_token s) t"
proof -
  let ?exp = "saturating_add_u64 t0 WEB_SESSION_TTL_SECS"
  let ?payload = "canonical_json ext (session_fields p kind ?exp)"
  have json: "json_from_slice ext ?payload = Some (JObj (session_fields p kind ?exp))"
    using assms(1) by (simp add: json_faithful_def canonical_json_def btree_of_session_fields)
  have s: "s = \<lparr>ws_participant_id = p, ws_session_type = kind, ws_expires_at = ?exp,
      ws_token = WEB_SESSION_PREFIX @ ''.'' @ b64_encode ext ?payload @ ''.'' @
        b64_encode ext (hmac_sha256 ext key ?payload)\<rparr>"
    using assms(3) by (simp add: issue_web_session_at_def session_fields_def Let_def)
  show ?thesis
    unfolding s verify_web_session_at_def web_session.select_convs split_dot_token [OF assms(2)]
    using assms(2) json by (simp add: base64_faithful_def)
qed

lemma payload_accepted:
  "int e < 2 ^ 64 \<Longrightarrow> p \<noteq> [] \<Longrightarrow> length p \<le> 64 \<Longrightarrow> (kind = Guest \<longrightarrow> p = GUEST_PARTICIPANT_ID) \<Longrightarrow>
   session_from_payload (JObj (session_fields p kind e)) token t =
     (if t \<le> e then Some \<lparr>ws_participant_id = p, ws_session_type = kind, ws_expires_at = e, ws_token = token\<rparr>
      else None)"
  by (auto simp: session_from_payload_def session_fields_def json_get_def as_str_def as_u64_def)

lemma issued_fields:
  "ws_participant_id (issue_web_session_at ext key p kind t0) = p"
  "ws_session_type (issue_web_session_at ext key p kind t0) = kind"
  "ws_expires_at (issue_web_session_at ext key p kind t0) = saturating_add_u64 t0 WEB_SESSION_TTL_SECS"
  by (simp_all add: issue_web_session_at_def Let_def)

lemma saturating_add_u64_bound: "int (saturating_add_u64 a b) < 2 ^ 64"
  by (simp add: saturating_add_u64_def u64_max_def)

section \<open>Properties\<close>

text \<open>Base32 round trip: every non-empty secret is decoded from its encoding bit for bit, although the
  32-bit shift register overflows, so a generated 20-byte secret is always a valid TOTP secret.\<close>

theorem base32_roundtrip:
  assumes "bs \<noteq> []"
  shows "base32_decode (base32_encode bs) = Some bs \<and>
    (length bs = 20 \<longrightarrow> validate_totp_secret (generate_totp_secret bs))"
proof -
  have loop: "base32_decode_loop 0 0 (base32_encode bs) = Some bs"
    unfolding base32_encode_def by (rule base32_loop_roundtrip(1))
  with assms have ne: "base32_encode bs \<noteq> []" by auto
  have eq: "CHR ''='' \<notin> set cs" if "base32_decode_loop d j cs = Some out" for d j cs out
    using that
  proof (induction cs arbitrary: d j out)
    case (Cons c cs)
    have "base32_index (CHR ''='') = None" by code_simp
    with Cons show ?case
      by (auto simp: base32_decode_loop.simps(2) Let_def split: option.splits if_splits)
  qed simp
  from loop ne eq have "base32_decode (base32_encode bs) = Some bs"
    by (auto simp: base32_decode_def)
  then show ?thesis
    by (simp add: validate_totp_secret_def generate_totp_secret_def)
qed

theorem base32_roundtrip_witness:
  "base32_decode (base32_encode [0x00, 0xff, 0x10, 0x7f, 0x80, 0x01]) = Some [0x00, 0xff, 0x10, 0x7f, 0x80, 0x01]"
  using base32_roundtrip [of "[0x00, 0xff, 0x10, 0x7f, 0x80, 0x01]"] by simp

text \<open>C32: A one-time code is accepted exactly for its own 30-second step or a neighbouring one: whatever
  step is reported is within one of the current step and its six-digit code is the one given, and any
  code of the current, previous or next step is accepted.\<close>

theorem matching_totp_step_iff:
  assumes "\<forall>k m. length (hmac_sha1 ext k m) = 20" and "base32_decode secret = Some key"
    and "now \<le> u64_max"
  shows "(\<forall>s. matching_totp_step ext secret code now = Some s \<longrightarrow>
      now div 30 \<le> s + 1 \<and> s \<le> now div 30 + 1 \<and> totp_code_bytes ext key s 6 = Some code) \<and>
    ((\<exists>s. now div 30 \<le> s + 1 \<and> s \<le> now div 30 + 1 \<and> totp_code_bytes ext key s 6 = Some code)
      \<longrightarrow> matching_totp_step ext secret code now \<noteq> None)"
proof -
  define steps where "steps = List.map_filter id [Some (now div 30), checked_sub_u64 (now div 30) 1,
    checked_add_u64 (now div 30) 1]"
  have steps: "s \<in> set steps \<longleftrightarrow> now div 30 \<le> s + 1 \<and> s \<le> now div 30 + 1" for s
    using assms(3) by (auto simp: steps_def List.map_filter_def checked_sub_u64_def checked_add_u64_def
        u64_max_def)
  have m: "matching_totp_step ext secret code now =
      (if length code = 6 \<and> list_all is_ascii_digit code then first_matching_step ext key code steps else None)"
    by (simp add: matching_totp_step_def assms(2) steps_def TOTP_DIGITS_def TOTP_PERIOD_SECS_def Let_def)
  have "\<forall>s \<in> set steps. totp_code_bytes ext key s TOTP_DIGITS \<noteq> None"
    using assms(1) totp_code_defined by blast
  then show ?thesis
    using steps first_matching_step_sound [of ext key code steps]
      first_matching_step_complete [of steps ext key _ code] totp_code_shape [of ext key _ 6 code]
    by (auto simp: m TOTP_DIGITS_def split: if_splits)
qed

theorem matching_totp_step_iff_witness:
  "matching_totp_step sample_externals (base32_encode (replicate 10 7))
     (the (totp_code_bytes sample_externals (replicate 10 7) 4 6)) 100 \<noteq> None"
proof -
  have h: "\<forall>k m. length (hmac_sha1 sample_externals k m) = 20" by (simp add: sample_externals_def)
  have d: "base32_decode (base32_encode (replicate 10 7)) = Some (replicate 10 7)" by code_simp
  have "totp_code_bytes sample_externals (replicate 10 7) 4 TOTP_DIGITS \<noteq> None"
    by (intro totp_code_defined) (simp add: sample_externals_def)
  then have c: "totp_code_bytes sample_externals (replicate 10 7) 4 6 =
      Some (the (totp_code_bytes sample_externals (replicate 10 7) 4 6))"
    by (simp add: TOTP_DIGITS_def)
  show ?thesis
    using matching_totp_step_iff [OF h d, of 100 "the (totp_code_bytes sample_externals (replicate 10 7) 4 6)"] c
    by (simp only: u64_max_def) fastforce
qed

text \<open>A web session verifies as issued until it expires and not later: for a participant id of 1 to 64
  bytes (and the guest id for a guest session) the token verifies to exactly the issued session at
  every time up to \<open>expires_at\<close>, and to nothing after it.\<close>

theorem web_session_roundtrip:
  assumes "json_faithful ext" and "base64_faithful ext"
    and "issue_web_session_at ext key p kind t0 = s"
    and "p \<noteq> []" and "length p \<le> 64" and "kind = Guest \<longrightarrow> p = GUEST_PARTICIPANT_ID"
  shows "verify_web_session_at ext key (ws_token s) t = (if t \<le> ws_expires_at s then Some s else None) \<and>
    ws_expires_at s = min (t0 + 28800) u64_max"
proof -
  note f = issued_fields [of ext key p kind t0, unfolded assms(3)]
  have "\<lparr>ws_participant_id = p, ws_session_type = kind, ws_expires_at = ws_expires_at s,
      ws_token = ws_token s\<rparr> = s"
    using f by (cases s) simp
  then show ?thesis
    using verify_issued [OF assms(1-3), of t] payload_accepted [OF _ assms(4-6)] f
      saturating_add_u64_bound [of t0 WEB_SESSION_TTL_SECS]
    by (simp add: saturating_add_u64_def WEB_SESSION_TTL_SECS_def)
qed

theorem web_session_roundtrip_witness:
  "verify_web_session_at sample_externals [1] (ws_token (issue_web_session_at sample_externals [1] ''ada'' HumanWeb 50)) 60
     = Some (issue_web_session_at sample_externals [1] ''ada'' HumanWeb 50)"
  using web_session_roundtrip [OF sample_json_faithful sample_base64_faithful, of "[1]" "''ada''" HumanWeb 50 _ 60,
      OF refl]
  by (simp add: u64_max_def)

text \<open>A verified session was signed by the server: acceptance implies the payload carries the tag of
  the process key, the session has not expired, its participant id has 1 to 64 bytes, and a guest
  session speaks only for the guest id.\<close>

theorem verified_session_authentic:
  assumes "verify_web_session_at ext key token now = Some s"
  shows "(\<exists>payload encoded tag. split_dot token = [WEB_SESSION_PREFIX, encoded, tag] \<and>
      b64_decode ext encoded = Some payload \<and> b64_decode ext tag = Some (hmac_sha256 ext key payload)) \<and>
    now \<le> ws_expires_at s \<and> ws_participant_id s \<noteq> [] \<and> length (ws_participant_id s) \<le> 64 \<and>
    (ws_session_type s = Guest \<longrightarrow> ws_participant_id s = ''anonymous'') \<and> ws_token s = token"
proof -
  obtain payload encoded tag v where parts: "split_dot token = [WEB_SESSION_PREFIX, encoded, tag]"
      "b64_decode ext encoded = Some payload" "b64_decode ext tag = Some (hmac_sha256 ext key payload)"
    and v: "session_from_payload v token now = Some s"
    using assms unfolding verify_web_session_at_def
    by (auto split: list.splits option.splits if_splits)
  from v show ?thesis
    unfolding session_from_payload_def GUEST_PARTICIPANT_ID_def
    using parts by (auto split: option.splits if_splits)
qed

theorem verified_session_authentic_witness:
  "let s = issue_web_session_at sample_externals [1] ''anonymous'' Guest 50 in
   verify_web_session_at sample_externals [1] (ws_token s) 60 = Some s \<and>
   (\<exists>payload encoded tag. split_dot (ws_token s) = [WEB_SESSION_PREFIX, encoded, tag] \<and>
      b64_decode sample_externals encoded = Some payload \<and>
      b64_decode sample_externals tag = Some (hmac_sha256 sample_externals [1] payload))"
proof -
  obtain s where s: "issue_web_session_at sample_externals [1] ''anonymous'' Guest 50 = s" by simp
  note f = issued_fields [of sample_externals "[1]" "''anonymous''" Guest 50, unfolded s]
  have e: "ws_expires_at s = 28850"
    using f(3) by (simp add: saturating_add_u64_def WEB_SESSION_TTL_SECS_def u64_max_def)
  have "session_from_payload (JObj (session_fields ''anonymous'' Guest 28850)) (ws_token s) 60 =
      Some \<lparr>ws_participant_id = ''anonymous'', ws_session_type = Guest, ws_expires_at = 28850,
        ws_token = ws_token s\<rparr>"
    by (subst payload_accepted) (simp_all add: GUEST_PARTICIPANT_ID_def)
  also have "\<dots> = Some s" using e f(1,2) by (cases s) simp
  finally have v: "verify_web_session_at sample_externals [1] (ws_token s) 60 = Some s"
    using verify_issued [OF sample_json_faithful sample_base64_faithful s, of 60] e by simp
  from v verified_session_authentic [OF v] show ?thesis unfolding s Let_def by blast
qed

end
