(* ===== verification/Board.thy ===== *)
theory Board
  imports Prelude
begin

text \<open>
  The durable state of the blackboard: one record per table of \<open>schema.sql\<close> and the record
  \<open>board\<close> of all tables, plus the value types of \<open>model.rs\<close> and the principal of
  \<open>execution.rs\<close>.

  Columns keep their SQL types: TEXT is \<open>string\<close>, a nullable column an \<open>option\<close>, INTEGER
  \<open>int\<close>.  A table lists its rows in rowid order.  The field \<open>schema\<close> holds the tables of
  \<open>sqlite_master\<close> with their columns, which the \<open>*_schema_current\<close> guards read.  SQLite's
  clock \<open>unixepoch()\<close> is an argument \<open>now\<close> of the operations that read it.  Opening the
  database, the WAL and I/O errors are outside the model: a statement on the current schema
  succeeds unless a constraint of the schema refuses it.
\<close>

section \<open>Values\<close>

record identity =
  id_source :: string
  id_instance :: string
  id_label :: "string option"

record principal =
  provider :: string
  subject :: string

section \<open>Rows\<close>

record message =
  m_id :: int
  m_created_at :: int
  m_channel :: string
  m_source :: string
  m_instance :: string
  m_conversation_ref :: "string option"
  m_kind :: string
  m_body :: string
  m_reply_to :: "int option"

record identity_row =
  i_instance :: string
  i_source :: string
  i_label :: "string option"
  i_token_hash :: "string option"
  i_created_at :: int

record participant_row =
  p_participant_id :: string
  p_source :: string
  p_label :: "string option"
  p_role :: string
  p_status :: string
  p_auth_scheme :: "string option"
  p_auth_secret :: "string option"
  p_totp_secret :: "string option"
  p_totp_last_step :: "int option"
  p_totp_fail_count :: int
  p_totp_locked_until :: "int option"
  p_owner_provider :: "string option"
  p_owner_subject :: "string option"
  p_owner_login :: "string option"
  p_created_at :: int
  p_updated_at :: int

record durable_grant =
  g_id :: int
  g_principal_provider :: string
  g_principal_subject :: string
  g_participant_id :: string
  g_capability :: string
  g_resource :: "string option"
  g_status :: string
  g_created_at :: int
  g_updated_at :: int

record delegated_grant =
  d_id :: int
  d_principal_provider :: string
  d_principal_subject :: string
  d_participant_id :: string
  d_capability :: string
  d_resource :: "string option"
  d_intent_id :: "string option"
  d_expires_at :: "int option"
  d_one_shot :: int
  d_consumed_at :: "int option"
  d_consumed_intent_id :: "string option"
  d_status :: string
  d_created_at :: int
  d_updated_at :: int

record admin_event =
  e_id :: int
  e_grant_store :: string
  e_grant_id :: int
  e_operation :: string
  e_actor_surface :: string
  e_actor_provider :: "string option"
  e_actor_subject :: "string option"
  e_actor_participant_id :: "string option"
  e_target_principal_provider :: string
  e_target_principal_subject :: string
  e_participant_id :: string
  e_capability :: string
  e_resource :: "string option"
  e_intent_id :: "string option"
  e_expires_at :: "int option"
  e_one_shot :: int
  e_before_status :: "string option"
  e_after_status :: string
  e_created_at :: int

record channel_row =
  c_name :: string
  c_visibility :: string
  c_status :: string
  c_created_at :: int
  c_updated_at :: int
  c_created_by :: "string option"

record navigation_write =
  n_instance :: string
  n_nonce :: string
  n_request_hash :: string
  n_message_id :: int
  n_created_at :: int

record ingress_row =
  in_delivery_id :: string
  in_participant_id :: "string option"
  in_intent_id :: string
  in_transport :: string
  in_external_ref :: string
  in_principal_provider :: string
  in_principal_subject :: string
  in_created_at :: int

record receipt_row =
  r_participant_id :: string
  r_intent_id :: string
  r_intent_hash :: string
  r_capability :: string
  r_message_id :: int
  r_status :: string
  r_created_at :: int

record provenance_row =
  a_participant_id :: string
  a_intent_id :: string
  a_principal_provider :: "string option"
  a_principal_subject :: "string option"
  a_capability :: "string option"
  a_resource :: "string option"
  a_source :: string
  a_reason :: string
  a_grant_id :: "int option"
  a_created_at :: int

section \<open>The board\<close>

type_synonym schema_table = "string \<times> string list"

record board =
  messages :: "message list"
  identities :: "identity_row list"
  web_participants :: "participant_row list"
  principal_grants :: "durable_grant list"
  delegated_grants :: "delegated_grant list"
  authorization_admin_events :: "admin_event list"
  channels :: "channel_row list"
  navigation_writes :: "navigation_write list"
  ingress_provenance :: "ingress_row list"
  execution_receipts :: "receipt_row list"
  execution_authorization_provenance :: "provenance_row list"
  schema :: "schema_table list"

text \<open>The tables and columns that \<open>schema.sql\<close> creates.\<close>

definition current_schema :: "schema_table list" where
  "current_schema =
    [(''messages'', [''id'', ''created_at'', ''channel'', ''source'', ''instance'',
        ''conversation_ref'', ''kind'', ''body'', ''reply_to'']),
     (''identities'', [''instance'', ''source'', ''label'', ''token_hash'', ''created_at'']),
     (''web_capabilities'', [''instance'', ''capability_hash'', ''created_at'', ''updated_at'']),
     (''web_participants'', [''participant_id'', ''source'', ''label'', ''role'', ''status'',
        ''auth_scheme'', ''auth_secret'', ''totp_secret'', ''totp_last_step'', ''totp_fail_count'',
        ''totp_locked_until'', ''owner_provider'', ''owner_subject'', ''owner_login'',
        ''created_at'', ''updated_at'']),
     (''principal_grants'', [''id'', ''principal_provider'', ''principal_subject'',
        ''participant_id'', ''capability'', ''resource'', ''status'', ''created_at'', ''updated_at'']),
     (''delegated_grants'', [''id'', ''principal_provider'', ''principal_subject'',
        ''participant_id'', ''capability'', ''resource'', ''intent_id'', ''expires_at'', ''one_shot'',
        ''consumed_at'', ''consumed_intent_id'', ''status'', ''created_at'', ''updated_at'']),
     (''authorization_admin_events'', [''id'', ''grant_store'', ''grant_id'', ''operation'',
        ''actor_surface'', ''actor_provider'', ''actor_subject'', ''actor_participant_id'',
        ''target_principal_provider'', ''target_principal_subject'', ''participant_id'',
        ''capability'', ''resource'', ''intent_id'', ''expires_at'', ''one_shot'', ''before_status'',
        ''after_status'', ''created_at'']),
     (''channels'', [''name'', ''visibility'', ''status'', ''created_at'', ''updated_at'',
        ''created_by'']),
     (''navigation_writes'', [''instance'', ''nonce'', ''request_hash'', ''message_id'',
        ''created_at'']),
     (''ingress_provenance'', [''delivery_id'', ''participant_id'', ''intent_id'', ''transport'',
        ''external_ref'', ''principal_provider'', ''principal_subject'', ''created_at'']),
     (''execution_receipts'', [''participant_id'', ''intent_id'', ''intent_hash'', ''capability'',
        ''message_id'', ''status'', ''created_at'']),
     (''execution_authorization_provenance'', [''participant_id'', ''intent_id'',
        ''principal_provider'', ''principal_subject'', ''capability'', ''resource'', ''source'',
        ''reason'', ''grant_id'', ''created_at''])]"

text \<open>The board that \<open>db::initialize\<close> leaves on a fresh database file.\<close>

definition empty_board :: board where
  "empty_board = \<lparr>messages = [], identities = [], web_participants = [], principal_grants = [],
     delegated_grants = [], authorization_admin_events = [], channels = [], navigation_writes = [],
     ingress_provenance = [], execution_receipts = [], execution_authorization_provenance = [],
     schema = current_schema\<rparr>"

section \<open>Schema guards\<close>

definition table_exists :: "board \<Rightarrow> string \<Rightarrow> bool" where
  "table_exists db table = (map_of (schema db) table \<noteq> None)"

definition table_has_columns :: "board \<Rightarrow> string \<Rightarrow> string list \<Rightarrow> bool" where
  "table_has_columns db table required =
     (case map_of (schema db) table of
        None \<Rightarrow> False
      | Some columns \<Rightarrow> list_all (\<lambda>column. column \<in> set columns) required)"

text \<open>\<open>CREATE TABLE IF NOT EXISTS\<close>: a table that exists is left as it is.\<close>

definition create_table_if_not_exists :: "string \<Rightarrow> string list \<Rightarrow> board \<Rightarrow> board" where
  "create_table_if_not_exists table columns db =
     (if table_exists db table then db else db\<lparr>schema := schema db @ [(table, columns)]\<rparr>)"

lemma table_has_columns_schema:
  "schema db = schema db' \<Longrightarrow> table_has_columns db = table_has_columns db'"
  by (intro ext) (simp add: table_has_columns_def)

lemma table_exists_schema: "schema db = schema db' \<Longrightarrow> table_exists db = table_exists db'"
  by (intro ext) (simp add: table_exists_def)

lemma create_table_if_not_exists_id: "table_exists db table \<Longrightarrow> create_table_if_not_exists table cols db = db"
  by (simp add: create_table_if_not_exists_def)

end
