(* ===== verification/Windows.thy ===== *)
theory Windows
  imports Prelude "HOL-Library.Multiset"
begin

text \<open>
  Cursor windows.  Several surfaces of the board (durable and delegated grants, administration
  history, channel messages, the channel directory) answer a read with a bounded window of rows
  in key order together with a \<open>has_more\<close> flag, and a client reads on with the last key as the
  cursor.  The interface is the locale \<open>paged_store\<close>: what a provider promises of one window.
  The client's facts (a window never repeats or skips a row, \<open>has_more\<close> is exact, reading on
  until \<open>has_more\<close> is false returns the whole table) are proved once in the locale; the
  components interpret it on their own window functions.
\<close>

section \<open>Providers\<close>

text \<open>\<open>WHERE key > cursor ORDER BY key ASC\<close> and its descending twin.\<close>

definition beyond :: "('k \<Rightarrow> 'k \<Rightarrow> bool) \<Rightarrow> ('r \<Rightarrow> 'k) \<Rightarrow> 'k option \<Rightarrow> 'r \<Rightarrow> bool" where
  "beyond lt key cursor r = (case cursor of None \<Rightarrow> True | Some k \<Rightarrow> lt k (key r))"

definition select_asc :: "('r \<Rightarrow> 'k::linorder) \<Rightarrow> 'k option \<Rightarrow> 'r list \<Rightarrow> 'r list" where
  "select_asc key after rows = sort_key key (filter (beyond (<) key after) rows)"

definition select_desc :: "('r \<Rightarrow> 'k::linorder) \<Rightarrow> 'k option \<Rightarrow> 'r list \<Rightarrow> 'r list" where
  "select_desc key before rows = rev (sort_key key (filter (beyond (>) key before) rows))"

text \<open>The idiom of the readers: fetch one row more than the limit, report whether it was there,
  and cut the result to the limit.\<close>

definition truncate_window :: "nat \<Rightarrow> 'r list \<Rightarrow> 'r list \<times> bool" where
  "truncate_window limit fetched = (take limit fetched, limit < length fetched)"

section \<open>Clients\<close>

text \<open>Read windows from \<open>cursor\<close> on until one reports no more rows; the fuel bounds the number
  of windows and \<open>None\<close> means it ran out.\<close>

fun drain :: "nat \<Rightarrow> ('k option \<Rightarrow> 'r list \<times> bool) \<Rightarrow> ('r \<Rightarrow> 'k) \<Rightarrow> 'k option \<Rightarrow> 'r list option" where
  "drain 0 page key cursor = None"
| "drain (Suc fuel) page key cursor =
     (case page cursor of (rs, more) \<Rightarrow>
        if \<not> more then Some rs
        else map_option ((@) rs)
               (drain fuel page key (if rs = [] then None else Some (key (last rs)))))"

section \<open>The interface\<close>

lemma filter_sorted_split:
  assumes "sorted_wrt (\<lambda>a b. lt (key a) (key b)) (xs @ x # ys)"
    and "\<And>k. \<not> lt k k" and "\<And>a b c. lt a b \<Longrightarrow> lt b c \<Longrightarrow> lt a c"
  shows "filter (\<lambda>r. lt (key x) (key r)) (xs @ x # ys) = ys"
proof -
  have ys: "\<forall>y \<in> set ys. lt (key x) (key y)" and xs: "\<forall>z \<in> set xs. lt (key z) (key x)"
    using assms(1) by (auto simp: sorted_wrt_append)
  have "filter (\<lambda>r. lt (key x) (key r)) ys = ys" using ys by simp
  moreover have "filter (\<lambda>r. lt (key x) (key r)) xs = []"
    unfolding filter_empty_conv using xs assms(2,3) by blast
  ultimately show ?thesis by (simp add: assms(2))
qed

lemma beyond_continue:
  assumes srt: "sorted_wrt (\<lambda>a b. lt (key a) (key b)) ms"
    and irrefl: "\<And>k. \<not> lt k k" and trans: "\<And>a b c. lt a b \<Longrightarrow> lt b c \<Longrightarrow> lt a c"
    and rs: "rs = take n (filter (beyond lt key c) ms)" and ne: "rs \<noteq> []"
  shows "filter (beyond lt key (Some (key (last rs)))) ms = drop n (filter (beyond lt key c) ms)"
proof -
  define b where "b = filter (beyond lt key c) ms"
  obtain xs where t: "take n b = xs @ [last rs]"
    using rs ne unfolding b_def by (metis append_butlast_last_id)
  then have b: "b = xs @ last rs # drop n b"
    by (metis append.assoc append_Cons append_Nil append_take_drop_id)
  have "sorted_wrt (\<lambda>a b. lt (key a) (key b)) b"
    unfolding b_def using srt by (rule sorted_wrt_filter)
  then have *: "filter (\<lambda>r. lt (key (last rs)) (key r)) b = drop n b"
    using filter_sorted_split [of lt key xs "last rs" "drop n b"] irrefl trans b by metis
  have "last rs \<in> set b" using b by (metis in_set_conv_decomp)
  then have "beyond lt key c (last rs)" by (simp add: b_def)
  then have "filter (beyond lt key (Some (key (last rs)))) ms = filter (\<lambda>r. lt (key (last rs)) (key r)) b"
    unfolding b_def filter_filter
    by (intro filter_cong refl) (auto simp: beyond_def split: option.splits dest: trans)
  with * show ?thesis by (simp add: b_def)
qed

locale paged_store =
  fixes inv :: "'s \<Rightarrow> bool"
    and rows :: "'s \<Rightarrow> 'r list"
    and key :: "'r \<Rightarrow> 'k"
    and lt :: "'k \<Rightarrow> 'k \<Rightarrow> bool"
    and page :: "'s \<Rightarrow> nat \<Rightarrow> 'k option \<Rightarrow> 'r list \<times> bool"
  assumes lt_irrefl: "\<not> lt k k"
    and lt_trans: "lt a b \<Longrightarrow> lt b c \<Longrightarrow> lt a c"
    and rows_sorted: "inv s \<Longrightarrow> sorted_wrt (\<lambda>a b. lt (key a) (key b)) (rows s)"
    and page_rows: "inv s \<Longrightarrow> 0 < n \<Longrightarrow>
      page s n cursor = truncate_window n (filter (beyond lt key cursor) (rows s))"
begin

lemma page_bounded: "inv s \<Longrightarrow> 0 < n \<Longrightarrow> length (fst (page s n c)) \<le> n"
  by (simp add: page_rows truncate_window_def)

lemma page_subset: "inv s \<Longrightarrow> 0 < n \<Longrightarrow> set (fst (page s n c)) \<subseteq> {r \<in> set (rows s). beyond lt key c r}"
  using set_take_subset [of n "filter (beyond lt key c) (rows s)"]
  by (auto simp: page_rows truncate_window_def)

lemma page_sorted: "inv s \<Longrightarrow> 0 < n \<Longrightarrow> sorted_wrt (\<lambda>a b. lt (key a) (key b)) (fst (page s n c))"
  using sorted_wrt_filter [OF rows_sorted, of s "beyond lt key c"]
  by (simp add: page_rows truncate_window_def sorted_wrt_take)

text \<open>The flag is exact: some row lies beyond the window if and only if it is set.\<close>

lemma page_more_iff:
  "inv s \<Longrightarrow> 0 < n \<Longrightarrow> snd (page s n c) \<longleftrightarrow>
     (\<exists>r \<in> set (rows s). beyond lt key c r \<and> r \<notin> set (fst (page s n c)))"
proof -
  assume i: "inv s" and n: "0 < n"
  let ?b = "filter (beyond lt key c) (rows s)"
  have srt: "sorted_wrt (\<lambda>a b. lt (key a) (key b)) ?b"
    using i by (simp add: rows_sorted sorted_wrt_filter)
  have "distinct ?b"
    using srt lt_irrefl by (metis (mono_tags, lifting) distinct_conv_nth linorder_neqE_nat sorted_wrt_nth_less)
  then have "set (take n ?b) \<inter> set (drop n ?b) = {}"
    by (simp add: set_take_disj_set_drop_if_distinct)
  moreover have "set ?b = set (take n ?b) \<union> set (drop n ?b)"
    by (metis append_take_drop_id set_append)
  ultimately have "(n < length ?b) = (\<exists>r \<in> set ?b. r \<notin> set (take n ?b))"
    by (metis (no_types, lifting) Int_iff UnE drop_eq_Nil empty_iff in_set_conv_nth length_pos_if_in_set
        list.set_intros(1) list.exhaust not_less set_empty UnCI)
  then show ?thesis
    using i n by (auto simp: page_rows truncate_window_def)
qed

text \<open>Reading on from the last key of a window continues exactly after that window.\<close>

lemma page_continue:
  assumes i: "inv s" and n: "0 < n" and rs: "page s n c = (rs, more)" and ne: "rs \<noteq> []"
  shows "filter (beyond lt key (Some (key (last rs)))) (rows s) =
    drop n (filter (beyond lt key c) (rows s))"
proof (rule beyond_continue [where lt = lt and key = key and c = c and n = n])
  show "rs = take n (filter (beyond lt key c) (rows s))"
    using i n rs by (simp add: page_rows truncate_window_def)
qed (use rows_sorted [OF i] lt_irrefl lt_trans ne in blast)+

text \<open>A client that reads on until \<open>has_more\<close> is false gets the whole table, in order.\<close>

lemma drain_beyond:
  assumes i: "inv s" and n: "0 < n"
  shows "length (filter (beyond lt key c) (rows s)) < fuel \<Longrightarrow>
    drain fuel (page s n) key c = Some (filter (beyond lt key c) (rows s))"
proof (induction fuel arbitrary: c)
  case (Suc fuel)
  let ?b = "filter (beyond lt key c) (rows s)"
  have p: "page s n c = (take n ?b, n < length ?b)"
    using i n by (simp add: page_rows truncate_window_def)
  show ?case
  proof (cases "n < length ?b")
    case False
    then show ?thesis using p by simp
  next
    case True
    let ?c = "Some (key (last (take n ?b)))"
    have ne: "take n ?b \<noteq> []" using True n by auto
    have next_rows: "filter (beyond lt key ?c) (rows s) = drop n ?b"
      using page_continue [OF i n p ne] .
    moreover have "length (drop n ?b) < fuel" using Suc.prems n True by simp
    ultimately have "drain fuel (page s n) key ?c = Some (drop n ?b)"
      using Suc.IH [of ?c] by simp
    then show ?thesis using p True ne by simp
  qed
qed simp

lemma drain_all:
  "inv s \<Longrightarrow> 0 < n \<Longrightarrow> length (rows s) < fuel \<Longrightarrow> drain fuel (page s n) key None = Some (rows s)"
  using drain_beyond [of s n None fuel] by (simp add: beyond_def)

end

section \<open>Facts for interpretations\<close>

lemma strict_sort_key:
  "distinct (map key rows) \<Longrightarrow> sorted_wrt (\<lambda>a b. key a < key b) (sort_key key rows)"
proof -
  assume d: "distinct (map key rows)"
  have "distinct (map key (sort_key key rows))"
    using d by (simp add: distinct_map)
  then have "sorted_wrt (<) (map key (sort_key key rows))"
    by (simp add: strict_sorted_iff)
  then show ?thesis by (simp add: sorted_wrt_map)
qed

lemma strict_sort_key_desc:
  "distinct (map key rows) \<Longrightarrow> sorted_wrt (\<lambda>a b. key a > key b) (rev (sort_key key rows))"
  using strict_sort_key by (simp add: sorted_wrt_rev)

lemma select_asc_eq: "select_asc key c rows = filter (beyond (<) key c) (sort_key key rows)"
  by (simp add: select_asc_def filter_sort)

lemma select_desc_eq: "select_desc key c rows = filter (beyond (>) key c) (rev (sort_key key rows))"
  by (simp add: select_desc_def filter_sort flip: rev_filter)

lemma truncate_fetched: "truncate_window n (take (n + 1) xs) = truncate_window n xs"
  by (simp add: truncate_window_def min_def)

end
