(* ===== verification/Db.thy ===== *)
theory Db
  imports Board Windows
begin

text \<open>
  The message log, the channels and the navigation-write path of \<open>db.rs\<close>.

  An operation that changes the board returns its result with the new board.  A transaction that
  returns before \<open>tx.commit()\<close> is rolled back, so such a branch returns the board it was given.
  The lemmas show that the log is append-only with strictly increasing ids, that a retried
  navigation write is answered from the log, and (by interpreting \<open>paged_store\<close>) that the channel
  directory is read completely by its windows.
\<close>

section \<open>Channels\<close>

definition default_visibility :: "string \<Rightarrow> string" where
  "default_visibility channel = (if channel = ''blackboard-lounge'' then ''public'' else ''private'')"

text \<open>\<open>INSERT OR IGNORE INTO channels\<close>: the number of rows inserted and the new board.  A row whose
  name exists, or whose visibility the CHECK constraint refuses, is ignored.\<close>

definition insert_channel_or_ignore ::
    "int \<Rightarrow> string \<Rightarrow> string \<Rightarrow> string option \<Rightarrow> board \<Rightarrow> nat \<times> board" where
  "insert_channel_or_ignore now name visibility created_by db =
     (if (\<exists>c \<in> set (channels db). c_name c = name) \<or> visibility \<notin> {''public'', ''private''} then (0, db)
      else (1, db\<lparr>channels := channels db @
        [\<lparr>c_name = name, c_visibility = visibility, c_status = ''active'', c_created_at = now,
          c_updated_at = now, c_created_by = created_by\<rparr>]\<rparr>))"

definition channel_metadata :: "board \<Rightarrow> string \<Rightarrow> channel_row option" where
  "channel_metadata db channel = find (\<lambda>c. c_name c = channel) (channels db)"

definition channel_is_public_active :: "board \<Rightarrow> string \<Rightarrow> bool" where
  "channel_is_public_active db channel =
     (find (\<lambda>c. c_name c = channel \<and> c_visibility c = ''public'' \<and> c_status c = ''active'')
        (channels db) \<noteq> None)"

definition ensure_channel :: "int \<Rightarrow> string \<Rightarrow> string option \<Rightarrow> board \<Rightarrow> board" where
  "ensure_channel now channel created_by db =
     snd (insert_channel_or_ignore now channel (default_visibility channel) created_by db)"

definition ensure_channel_for_write ::
    "int \<Rightarrow> string \<Rightarrow> string option \<Rightarrow> board \<Rightarrow> bool \<times> board" where
  "ensure_channel_for_write now channel created_by db =
     (let db' = ensure_channel now channel created_by db
      in (case channel_metadata db' channel of
            Some metadata \<Rightarrow> c_status metadata = ''active''
          | None \<Rightarrow> False, db'))"

definition create_channel ::
    "int \<Rightarrow> string \<Rightarrow> string \<Rightarrow> string option \<Rightarrow> board \<Rightarrow> bool \<times> board" where
  "create_channel now channel visibility created_by db =
     (let (changed, db') = insert_channel_or_ignore now channel visibility created_by db
      in (changed = 1, db'))"

text \<open>An UPDATE that would break a CHECK constraint fails and changes nothing.\<close>

definition update_channel ::
    "int \<Rightarrow> string \<Rightarrow> string option \<Rightarrow> string option \<Rightarrow> board \<Rightarrow> bool sql_result \<times> board" where
  "update_channel now channel visibility status db =
     (let hit = (\<lambda>c. c_name c = channel); changed = sql_count hit (channels db) in
      if visibility = None \<and> status = None then (Inr False, db)
      else if 0 < changed \<and>
          ((case visibility of Some v \<Rightarrow> v \<notin> {''public'', ''private''} | None \<Rightarrow> False) \<or>
           (case status of Some s \<Rightarrow> s \<notin> {''active'', ''archived''} | None \<Rightarrow> False))
        then (Inl ConstraintViolation, db)
      else (Inr (changed = 1), db\<lparr>channels := sql_update hit
        (\<lambda>c. c\<lparr>c_visibility := (case visibility of Some v \<Rightarrow> v | None \<Rightarrow> c_visibility c),
               c_status := (case status of Some s \<Rightarrow> s | None \<Rightarrow> c_status c),
               c_updated_at := now\<rparr>) (channels db)\<rparr>))"

section \<open>The channel directory\<close>

record channel_summary =
  s_channel :: string
  s_message_count :: nat
  s_last_id :: int
  s_visibility :: string
  s_status :: string
  s_created_at :: int
  s_updated_at :: int
  s_created_by :: "string option"

definition channel_summary_row :: "board \<Rightarrow> channel_row \<Rightarrow> channel_summary" where
  "channel_summary_row db c =
     (let ids = map m_id (filter (\<lambda>m. m_channel m = c_name c) (messages db)) in
      \<lparr>s_channel = c_name c, s_message_count = length ids,
       s_last_id = (case ids of [] \<Rightarrow> 0 | i # is \<Rightarrow> fold max is i),
       s_visibility = c_visibility c, s_status = c_status c, s_created_at = c_created_at c,
       s_updated_at = c_updated_at c, s_created_by = c_created_by c\<rparr>)"

definition read_channel_directory_rows ::
    "board \<Rightarrow> bool \<Rightarrow> string option \<Rightarrow> nat \<Rightarrow> channel_summary list" where
  "read_channel_directory_rows db public_only after_name fetch_limit =
     map (channel_summary_row db)
       (take fetch_limit (select_asc c_name after_name
          (filter (\<lambda>c. public_only \<longrightarrow> c_visibility c = ''public'' \<and> c_status c = ''active'')
             (channels db))))"

definition default_channel_directory_window_size :: nat where
  "default_channel_directory_window_size = 20"

definition max_channel_directory_window_size :: nat where
  "max_channel_directory_window_size = 200"

definition read_channel_directory_window ::
    "board \<Rightarrow> string option \<Rightarrow> nat option \<Rightarrow> bool \<Rightarrow> (channel_summary list \<times> bool) sql_result" where
  "read_channel_directory_window db after_name limit public_only =
     (if after_name = Some '''' then Inl InvalidQuery
      else let limit = (case limit of Some n \<Rightarrow> n | None \<Rightarrow> default_channel_directory_window_size) in
        if limit < 1 \<or> max_channel_directory_window_size < limit then Inl InvalidQuery
        else Inr (truncate_window limit
               (read_channel_directory_rows db public_only after_name (limit + 1))))"

section \<open>Messages\<close>

definition message_by_id :: "board \<Rightarrow> int \<Rightarrow> message sql_result" where
  "message_by_id db i =
     (case find (\<lambda>m. m_id m = i) (messages db) of Some m \<Rightarrow> Inr m | None \<Rightarrow> Inl QueryReturnedNoRows)"

definition message_exists :: "board \<Rightarrow> int \<Rightarrow> bool" where
  "message_exists db i = (find (\<lambda>m. m_id m = i) (messages db) \<noteq> None)"

definition list_messages_after :: "board \<Rightarrow> int \<Rightarrow> string option \<Rightarrow> nat \<Rightarrow> message list" where
  "list_messages_after db after channel limit =
     take limit (sort_key m_id
       (filter (\<lambda>m. (case channel of Some c \<Rightarrow> m_channel m = c | None \<Rightarrow> True) \<and> after < m_id m)
          (messages db)))"

text \<open>\<open>INSERT INTO messages\<close> with \<open>last_insert_rowid()\<close>.\<close>

definition insert_message ::
    "int \<Rightarrow> string \<Rightarrow> identity \<Rightarrow> string option \<Rightarrow> string \<Rightarrow> string \<Rightarrow> int option \<Rightarrow> board
     \<Rightarrow> int \<times> board" where
  "insert_message now channel who conversation_ref kind body reply_to db =
     (let i = next_rowid (map m_id (messages db)) in
      (i, db\<lparr>messages := messages db @
        [\<lparr>m_id = i, m_created_at = now, m_channel = channel, m_source = id_source who,
          m_instance = id_instance who, m_conversation_ref = conversation_ref, m_kind = kind,
          m_body = body, m_reply_to = reply_to\<rparr>]\<rparr>))"

definition append_message ::
    "int \<Rightarrow> identity \<Rightarrow> string \<Rightarrow> string \<Rightarrow> string \<Rightarrow> int option \<Rightarrow> board
     \<Rightarrow> message sql_result \<times> board" where
  "append_message now who channel kind body reply_to db =
     (let db1 = ensure_channel now channel (Some (id_instance who)) db;
          (i, db2) = insert_message now channel who None kind body reply_to db1
      in (message_by_id db2 i, db2))"

section \<open>Navigation writes\<close>

datatype navigation_append_result =
    NavCreated message
  | NavExisting message
  | NavNonceConflict
  | NavReplyTargetNotFound

record navigation_message_input =
  ni_channel :: string
  ni_kind :: string
  ni_body :: string
  ni_reply_to :: "int option"
  ni_nonce :: string
  ni_request_hash :: string

definition find_navigation :: "board \<Rightarrow> string \<Rightarrow> string \<Rightarrow> navigation_write option" where
  "find_navigation db instance_id nonce =
     find (\<lambda>n. n_instance n = instance_id \<and> n_nonce n = nonce) (navigation_writes db)"

text \<open>\<open>INSERT OR IGNORE INTO navigation_writes ... VALUES (instance, nonce, request_hash, 0)\<close>.\<close>

definition reserve_navigation ::
    "int \<Rightarrow> string \<Rightarrow> string \<Rightarrow> string \<Rightarrow> board \<Rightarrow> nat \<times> board" where
  "reserve_navigation now instance_id nonce request_hash db =
     (if find_navigation db instance_id nonce \<noteq> None then (0, db)
      else (1, db\<lparr>navigation_writes := navigation_writes db @
        [\<lparr>n_instance = instance_id, n_nonce = nonce, n_request_hash = request_hash,
          n_message_id = 0, n_created_at = now\<rparr>]\<rparr>))"

definition bind_navigation :: "int \<Rightarrow> string \<Rightarrow> string \<Rightarrow> board \<Rightarrow> board" where
  "bind_navigation message_id instance_id nonce db =
     db\<lparr>navigation_writes := sql_update (\<lambda>n. n_instance n = instance_id \<and> n_nonce n = nonce)
          (\<lambda>n. n\<lparr>n_message_id := message_id\<rparr>) (navigation_writes db)\<rparr>"

definition append_navigation_message_with_conversation ::
    "int \<Rightarrow> identity \<Rightarrow> navigation_message_input \<Rightarrow> string option \<Rightarrow> board
     \<Rightarrow> navigation_append_result sql_result \<times> board" where
  "append_navigation_message_with_conversation now who input conversation_ref db =
     (let who_id = id_instance who;
          (_, db1) = insert_channel_or_ignore now (ni_channel input)
                       (default_visibility (ni_channel input)) (Some who_id) db;
          (reserved, db2) = reserve_navigation now who_id (ni_nonce input) (ni_request_hash input) db1
      in if reserved = 0 then
           (case find_navigation db2 who_id (ni_nonce input) of
              None \<Rightarrow> (Inl QueryReturnedNoRows, db)
            | Some n \<Rightarrow>
                if n_request_hash n \<noteq> ni_request_hash input then (Inr NavNonceConflict, db)
                else (case message_by_id db2 (n_message_id n) of
                        Inl e \<Rightarrow> (Inl e, db)
                      | Inr m \<Rightarrow> (Inr (NavExisting m), db)))
         else if (case ni_reply_to input of Some t \<Rightarrow> \<not> message_exists db2 t | None \<Rightarrow> False)
         then (Inr NavReplyTargetNotFound, db)
         else
           (let (i, db3) = insert_message now (ni_channel input) who conversation_ref (ni_kind input)
                             (ni_body input) (ni_reply_to input) db2;
                db4 = bind_navigation i who_id (ni_nonce input) db3
            in case message_by_id db4 i of
                 Inl e \<Rightarrow> (Inl e, db)
               | Inr m \<Rightarrow> (Inr (NavCreated m), db4)))"

definition append_navigation_message ::
    "int \<Rightarrow> identity \<Rightarrow> navigation_message_input \<Rightarrow> board
     \<Rightarrow> navigation_append_result sql_result \<times> board" where
  "append_navigation_message now who input db =
     append_navigation_message_with_conversation now who input None db"

text \<open>One window of the directory and the whole directory, as the reader of \<open>read_channel_directory_window\<close>
  sees them.\<close>

definition directory_page ::
    "board \<times> bool \<Rightarrow> nat \<Rightarrow> string option \<Rightarrow> channel_summary list \<times> bool" where
  "directory_page s limit after_name =
     truncate_window limit (read_channel_directory_rows (fst s) (snd s) after_name (limit + 1))"

definition directory_rows :: "board \<times> bool \<Rightarrow> channel_summary list" where
  "directory_rows s = map (channel_summary_row (fst s)) (sort_key c_name
     (filter (\<lambda>c. snd s \<longrightarrow> c_visibility c = ''public'' \<and> c_status c = ''active'') (channels (fst s))))"

section \<open>Well-formed logs\<close>

text \<open>The log invariant: ids are positive and strictly increase, a reply points to an earlier
  message, channel names are distinct, and a navigation key occurs once and names a message of
  its participant.\<close>

definition log_wf :: "board \<Rightarrow> bool" where
  "log_wf db \<longleftrightarrow> sorted_wrt (<) (map m_id (messages db)) \<and> (\<forall>m \<in> set (messages db). 0 < m_id m)"

definition replies_wf :: "board \<Rightarrow> bool" where
  "replies_wf db \<longleftrightarrow> (\<forall>m \<in> set (messages db). \<forall>t. m_reply_to m = Some t \<longrightarrow>
     t < m_id m \<and> t \<in> m_id ` set (messages db))"

definition channel_ok :: "channel_row \<Rightarrow> bool" where
  "channel_ok c \<longleftrightarrow> c_visibility c \<in> {''public'', ''private''} \<and> c_status c \<in> {''active'', ''archived''}"

definition channels_wf :: "board \<Rightarrow> bool" where
  "channels_wf db \<longleftrightarrow> distinct (map c_name (channels db)) \<and> (\<forall>c \<in> set (channels db). channel_ok c)"

definition navigation_wf :: "board \<Rightarrow> bool" where
  "navigation_wf db \<longleftrightarrow> distinct (map (\<lambda>n. (n_instance n, n_nonce n)) (navigation_writes db)) \<and>
     (\<forall>n \<in> set (navigation_writes db). \<exists>m \<in> set (messages db).
        m_id m = n_message_id n \<and> m_instance m = n_instance n)"

definition db_wf :: "board \<Rightarrow> bool" where
  "db_wf db \<longleftrightarrow> log_wf db \<and> replies_wf db \<and> channels_wf db \<and> navigation_wf db"

section \<open>Frames\<close>

named_theorems db_frame "what an operation leaves alone"

lemma insert_channel_frame [db_frame, simp]:
  "messages (snd (insert_channel_or_ignore now c v b db)) = messages db"
  "identities (snd (insert_channel_or_ignore now c v b db)) = identities db"
  "web_participants (snd (insert_channel_or_ignore now c v b db)) = web_participants db"
  "principal_grants (snd (insert_channel_or_ignore now c v b db)) = principal_grants db"
  "delegated_grants (snd (insert_channel_or_ignore now c v b db)) = delegated_grants db"
  "authorization_admin_events (snd (insert_channel_or_ignore now c v b db)) = authorization_admin_events db"
  "navigation_writes (snd (insert_channel_or_ignore now c v b db)) = navigation_writes db"
  "ingress_provenance (snd (insert_channel_or_ignore now c v b db)) = ingress_provenance db"
  "execution_receipts (snd (insert_channel_or_ignore now c v b db)) = execution_receipts db"
  "execution_authorization_provenance (snd (insert_channel_or_ignore now c v b db)) =
     execution_authorization_provenance db"
  "schema (snd (insert_channel_or_ignore now c v b db)) = schema db"
  by (simp_all add: insert_channel_or_ignore_def)

lemma message_by_id_cong: "messages db = messages db' \<Longrightarrow> message_by_id db = message_by_id db'"
  by (intro ext) (simp add: message_by_id_def)

lemma message_exists_cong: "messages db = messages db' \<Longrightarrow> message_exists db = message_exists db'"
  by (intro ext) (simp add: message_exists_def)

lemma find_navigation_cong:
  "navigation_writes db = navigation_writes db' \<Longrightarrow> find_navigation db = find_navigation db'"
  by (intro ext) (simp add: find_navigation_def)

section \<open>Channels: lemmas\<close>

lemma channels_insert_channel:
  "set (channels (snd (insert_channel_or_ignore now c v b db))) \<supseteq> set (channels db)"
  by (auto simp: insert_channel_or_ignore_def)

lemma channels_wf_insert_channel:
  "channels_wf db \<Longrightarrow> channels_wf (snd (insert_channel_or_ignore now c v b db))"
  by (auto simp: insert_channel_or_ignore_def channels_wf_def channel_ok_def)

lemma channels_wf_ensure: "channels_wf db \<Longrightarrow> channels_wf (ensure_channel now c b db)"
  by (simp add: ensure_channel_def channels_wf_insert_channel)

lemma default_visibility_cases: "default_visibility c \<in> {''public'', ''private''}"
  by (simp add: default_visibility_def)

text \<open>Ensuring a channel never changes the lifecycle of one that exists.\<close>

lemma metadata_insert_existing:
  "channel_metadata db c = Some m \<Longrightarrow>
     channel_metadata (snd (insert_channel_or_ignore now d v b db)) c = Some m"
  by (auto simp: channel_metadata_def insert_channel_or_ignore_def find_append)

lemma metadata_insert_new:
  "channel_metadata db c = None \<Longrightarrow> v \<in> {''public'', ''private''} \<Longrightarrow>
     channel_metadata (snd (insert_channel_or_ignore now c v b db)) c =
       Some \<lparr>c_name = c, c_visibility = v, c_status = ''active'', c_created_at = now,
         c_updated_at = now, c_created_by = b\<rparr>"
proof -
  assume n: "channel_metadata db c = None" and v: "v \<in> {''public'', ''private''}"
  from n have "\<not> (\<exists>d \<in> set (channels db). c_name d = c)"
    by (auto simp: channel_metadata_def find_None_iff)
  with n v show ?thesis
    by (simp add: channel_metadata_def insert_channel_or_ignore_def find_append)
qed

lemma ensure_active_iff:
  "fst (ensure_channel_for_write now c b db) \<longleftrightarrow>
     (case channel_metadata db c of None \<Rightarrow> True | Some m \<Rightarrow> c_status m = ''active'')"
proof (cases "channel_metadata db c")
  case None
  then show ?thesis
    using metadata_insert_new [OF None default_visibility_cases]
    by (simp add: ensure_channel_for_write_def ensure_channel_def Let_def)
next
  case (Some m)
  then show ?thesis
    using metadata_insert_existing [OF Some]
    by (simp add: ensure_channel_for_write_def ensure_channel_def Let_def)
qed

section \<open>The log: lemmas\<close>

lemma insert_message_eq:
  "insert_message now ch who cref k b r db = (i, db') \<longleftrightarrow>
     i = next_rowid (map m_id (messages db)) \<and>
     db' = db\<lparr>messages := messages db @
        [\<lparr>m_id = i, m_created_at = now, m_channel = ch, m_source = id_source who,
          m_instance = id_instance who, m_conversation_ref = cref, m_kind = k, m_body = b,
          m_reply_to = r\<rparr>]\<rparr>"
  by (auto simp: insert_message_def Let_def)

lemma message_by_id_last:
  "i \<notin> m_id ` set ms \<Longrightarrow> messages db = ms @ [m] \<Longrightarrow> m_id m = i \<Longrightarrow> message_by_id db i = Inr m"
  by (auto simp: message_by_id_def find_append image_iff dest!: find_SomeD split: option.splits)

lemma message_by_id_mem:
  "log_wf db \<Longrightarrow> m \<in> set (messages db) \<Longrightarrow> message_by_id db (m_id m) = Inr m"
  by (simp add: message_by_id_def log_wf_def find_key sorted_less_distinct)

lemma message_by_id_iff:
  "log_wf db \<Longrightarrow> message_by_id db i = Inr m \<longleftrightarrow> m \<in> set (messages db) \<and> m_id m = i"
  using message_by_id_mem [of db m]
  by (auto simp: message_by_id_def dest: find_SomeD split: option.splits)

lemma message_exists_iff: "message_exists db i \<longleftrightarrow> i \<in> m_id ` set (messages db)"
  by (auto simp: message_exists_def find_None_iff image_iff)

lemma log_wf_append:
  assumes "log_wf db" "messages db' = messages db @ [m]" "m_id m = next_rowid (map m_id (messages db))"
  shows "log_wf db'"
  using assms sorted_next_rowid [of "map m_id (messages db)"] next_rowid_pos [of "map m_id (messages db)"]
  by (auto simp: log_wf_def)

lemma replies_wf_append:
  assumes "replies_wf db" "messages db' = messages db @ [m]" "m_id m = next_rowid (map m_id (messages db))"
    and "\<And>t. m_reply_to m = Some t \<Longrightarrow> message_exists db t"
  shows "replies_wf db'"
  using assms next_rowid_gt [of _ "map m_id (messages db)"]
  by (fastforce simp: replies_wf_def message_exists_iff)

lemma log_wf_cong: "messages db' = messages db \<Longrightarrow> log_wf db' = log_wf db"
  by (simp add: log_wf_def)

lemma replies_wf_cong: "messages db' = messages db \<Longrightarrow> replies_wf db' = replies_wf db"
  by (simp add: replies_wf_def)

lemma list_messages_after_log:
  assumes "log_wf db"
  shows "list_messages_after db after channel limit =
    take limit (filter (\<lambda>m. (case channel of Some c \<Rightarrow> m_channel m = c | None \<Rightarrow> True) \<and> after < m_id m)
      (messages db))"
proof -
  let ?f = "filter (\<lambda>m. (case channel of Some c \<Rightarrow> m_channel m = c | None \<Rightarrow> True) \<and> after < m_id m)
      (messages db)"
  have "sorted_wrt (\<lambda>a b. m_id a < m_id b) (messages db)"
    using assms by (simp add: log_wf_def sorted_wrt_map)
  then have "sorted_wrt (\<lambda>a b. m_id a < m_id b) ?f"
    by (rule sorted_wrt_filter)
  then have "sorted (map m_id ?f)"
    unfolding sorted_wrt_map by (rule sorted_wrt_mono_rel [rotated]) simp
  then have "sort_key m_id ?f = ?f" by (rule sort_key_id_if_sorted)
  then show ?thesis by (simp add: list_messages_after_def)
qed

section \<open>Navigation writes: lemmas\<close>

lemma navigation_wf_mem:
  "navigation_wf db \<Longrightarrow> n \<in> set (navigation_writes db) \<Longrightarrow>
     find_navigation db (n_instance n) (n_nonce n) = Some n"
  using find_key [of "\<lambda>n. (n_instance n, n_nonce n)" "navigation_writes db" n]
  by (simp add: navigation_wf_def find_navigation_def)

lemma find_navigationD:
  "find_navigation db i k = Some n \<Longrightarrow> n \<in> set (navigation_writes db) \<and> n_instance n = i \<and> n_nonce n = k"
  by (auto simp: find_navigation_def dest: find_SomeD)

lemma reserve_bind:
  assumes "find_navigation db i k = None"
  shows "navigation_writes (bind_navigation mid i k (snd (reserve_navigation now i k h db))) =
    navigation_writes db @ [\<lparr>n_instance = i, n_nonce = k, n_request_hash = h, n_message_id = mid,
      n_created_at = now\<rparr>]"
proof -
  have "\<forall>n \<in> set (navigation_writes db). \<not> (n_instance n = i \<and> n_nonce n = k)"
    using assms by (auto simp: find_navigation_def find_None_iff)
  then have "sql_update (\<lambda>n. n_instance n = i \<and> n_nonce n = k) (\<lambda>n. n\<lparr>n_message_id := mid\<rparr>)
      (navigation_writes db) = navigation_writes db"
    by (intro sql_update_none) (simp add: row_simps)
  then show ?thesis
    using assms by (simp add: bind_navigation_def reserve_navigation_def sql_update_def)
qed

lemma navigation_wf_cong:
  "navigation_writes db' = navigation_writes db \<Longrightarrow> set (messages db) \<subseteq> set (messages db') \<Longrightarrow>
     navigation_wf db \<Longrightarrow> navigation_wf db'"
  by (fastforce simp: navigation_wf_def)

lemma navigation_wf_append:
  assumes "navigation_wf db" and "find_navigation db (n_instance n) (n_nonce n) = None"
    and "navigation_writes db' = navigation_writes db @ [n]"
    and "set (messages db) \<subseteq> set (messages db')"
    and "m \<in> set (messages db')" "m_id m = n_message_id n" "m_instance m = n_instance n"
  shows "navigation_wf db'"
  using assms by (fastforce simp: navigation_wf_def find_navigation_def find_None_iff)

section \<open>Windows of the channel directory\<close>

lemma s_channel_summary [simp]: "s_channel (channel_summary_row db c) = c_name c"
  by (simp add: channel_summary_row_def Let_def)

lemma filter_map_summary:
  "map (channel_summary_row db) (filter (beyond (<) c_name k) cs) =
     filter (beyond (<) s_channel k) (map (channel_summary_row db) cs)"
  by (induction cs) (auto simp: beyond_def split: option.splits)

interpretation directory: paged_store
  "\<lambda>s. channels_wf (fst s)" directory_rows s_channel "(<)" directory_page
proof
  fix s :: "board \<times> bool"
  let ?P = "\<lambda>c. snd s \<longrightarrow> c_visibility c = ''public'' \<and> c_status c = ''active''"
  assume "channels_wf (fst s)"
  then have "distinct (map c_name (filter ?P (channels (fst s))))"
    by (simp add: channels_wf_def distinct_map_filter)
  then show "sorted_wrt (\<lambda>a b. s_channel a < s_channel b) (directory_rows s)"
    by (simp add: directory_rows_def sorted_wrt_map strict_sort_key)
  fix n :: nat and k :: "string option"
  show "directory_page s n k = truncate_window n (filter (beyond (<) s_channel k) (directory_rows s))"
    by (simp only: directory_page_def read_channel_directory_rows_def directory_rows_def select_asc_eq
        filter_map_summary [symmetric] take_map [symmetric] truncate_fetched)
qed auto

section \<open>Preservation\<close>

lemma db_wf_ensure: "db_wf db \<Longrightarrow> db_wf (ensure_channel now c b db)"
  by (auto simp: db_wf_def ensure_channel_def channels_wf_insert_channel
      intro: log_wf_cong [THEN iffD2] replies_wf_cong [THEN iffD2] navigation_wf_cong)

lemma db_wf_create_channel: "db_wf db \<Longrightarrow> db_wf (snd (create_channel now c v b db))"
  by (auto simp: db_wf_def create_channel_def channels_wf_insert_channel case_prod_beta
      intro: log_wf_cong [THEN iffD2] replies_wf_cong [THEN iffD2] navigation_wf_cong)

lemma channels_wf_update_channel: "channels_wf db \<Longrightarrow> channels_wf (snd (update_channel now c v s db))"
proof -
  assume w: "channels_wf db"
  let ?f = "\<lambda>ch. ch\<lparr>c_visibility := (case v of Some v \<Rightarrow> v | None \<Rightarrow> c_visibility ch),
     c_status := (case s of Some s \<Rightarrow> s | None \<Rightarrow> c_status ch), c_updated_at := now\<rparr>"
  let ?cs = "sql_update (\<lambda>ch. c_name ch = c) ?f (channels db)"
  have names: "map c_name ?cs = map c_name (channels db)"
    by (rule map_sql_update) simp
  show ?thesis
  proof (cases "channels (snd (update_channel now c v s db)) = channels db")
    case True
    with w show ?thesis by (simp add: channels_wf_def)
  next
    case False
    then have eq: "channels (snd (update_channel now c v s db)) = ?cs"
      by (auto simp: update_channel_def Let_def split: if_splits)
    have some: "0 < sql_count (\<lambda>ch. c_name ch = c) (channels db)"
    proof (rule ccontr)
      assume "\<not> 0 < sql_count (\<lambda>ch. c_name ch = c) (channels db)"
      then have "?cs = channels db" by (simp add: sql_update_none)
      with eq False show False by simp
    qed
    from False some have "(case v of Some v \<Rightarrow> v \<in> {''public'', ''private''} | None \<Rightarrow> True)"
      and "(case s of Some s \<Rightarrow> s \<in> {''active'', ''archived''} | None \<Rightarrow> True)"
      by (auto simp: update_channel_def Let_def split: if_splits option.splits)
    then have "channel_ok ch \<Longrightarrow> channel_ok (?f ch)" for ch
      by (auto simp: channel_ok_def split: option.splits)
    with w names eq show ?thesis by (auto simp: channels_wf_def row_simps)
  qed
qed

lemma update_channel_frame:
  "messages (snd (update_channel now c v s db)) = messages db"
  "navigation_writes (snd (update_channel now c v s db)) = navigation_writes db"
  by (simp_all add: update_channel_def Let_def)

lemma db_wf_update_channel: "db_wf db \<Longrightarrow> db_wf (snd (update_channel now c v s db))"
  by (auto simp: db_wf_def update_channel_frame channels_wf_update_channel
      intro: log_wf_cong [THEN iffD2] replies_wf_cong [THEN iffD2] navigation_wf_cong)

lemma append_message_result:
  assumes "append_message now who ch k b r db = (res, db')"
  shows "res = Inr \<lparr>m_id = next_rowid (map m_id (messages db)), m_created_at = now, m_channel = ch,
      m_source = id_source who, m_instance = id_instance who, m_conversation_ref = None, m_kind = k,
      m_body = b, m_reply_to = r\<rparr>"
    and "db' = ensure_channel now ch (Some (id_instance who)) db\<lparr>messages := messages db @ [projr res]\<rparr>"
  using assms message_by_id_last [of "next_rowid (map m_id (messages db))" "messages db" db']
    next_rowid_fresh [of "map m_id (messages db)"]
  by (auto simp: append_message_def insert_message_def ensure_channel_def Let_def)

lemma db_wf_append_message:
  assumes "db_wf db" and "\<And>t. r = Some t \<Longrightarrow> message_exists db t"
  shows "db_wf (snd (append_message now who ch k b r db))"
proof -
  obtain res db' where a: "append_message now who ch k b r db = (res, db')" by fastforce
  note r = append_message_result [OF a]
  have m: "messages db' = messages db @ [projr res]" and n: "navigation_writes db' = navigation_writes db"
    and c: "channels db' = channels (ensure_channel now ch (Some (id_instance who)) db)"
    using r(2) by (simp_all add: ensure_channel_def)
  have i: "m_id (projr res) = next_rowid (map m_id (messages db))" and t: "m_reply_to (projr res) = r"
    using r(1) by simp_all
  have "log_wf db'" using assms(1) m i by (auto simp: db_wf_def intro: log_wf_append)
  moreover have "replies_wf db'"
    using assms m i t by (auto simp: db_wf_def intro: replies_wf_append)
  moreover have "channels_wf db'"
    using assms(1) c channels_wf_ensure [of db] by (simp add: db_wf_def channels_wf_def)
  moreover have "navigation_wf db'"
    using assms(1) m n by (auto simp: db_wf_def intro: navigation_wf_cong)
  ultimately show ?thesis using a by (simp add: db_wf_def)
qed

text \<open>The one branch of a navigation write that changes the board.\<close>

lemma navigation_created:
  assumes "append_navigation_message_with_conversation now who input cref db = (Inr (NavCreated m), db')"
  shows "find_navigation db (id_instance who) (ni_nonce input) = None"
    and "m = \<lparr>m_id = next_rowid (map m_id (messages db)), m_created_at = now, m_channel = ni_channel input,
        m_source = id_source who, m_instance = id_instance who, m_conversation_ref = cref,
        m_kind = ni_kind input, m_body = ni_body input, m_reply_to = ni_reply_to input\<rparr>"
    and "messages db' = messages db @ [m]"
    and "navigation_writes db' = navigation_writes db @ [\<lparr>n_instance = id_instance who,
        n_nonce = ni_nonce input, n_request_hash = ni_request_hash input, n_message_id = m_id m,
        n_created_at = now\<rparr>]"
    and "channels db' = channels (ensure_channel now (ni_channel input) (Some (id_instance who)) db)"
    and "\<And>t. ni_reply_to input = Some t \<Longrightarrow> message_exists db t"
proof -
  let ?i = "id_instance who" and ?k = "ni_nonce input" and ?h = "ni_request_hash input"
  let ?db1 = "snd (insert_channel_or_ignore now (ni_channel input)
    (default_visibility (ni_channel input)) (Some ?i) db)"
  let ?db2 = "snd (reserve_navigation now ?i ?k ?h ?db1)"
  have f: "find_navigation ?db1 = find_navigation db" by (rule find_navigation_cong) simp
  have fresh: "find_navigation db ?i ?k = None"
    using assms unfolding append_navigation_message_with_conversation_def Let_def
    by (auto simp: reserve_navigation_def f case_prod_beta split: if_splits option.splits sum.splits)
  then show "find_navigation db ?i ?k = None" .
  have m2: "messages ?db2 = messages db" and c2: "channels ?db2 = channels ?db1"
    by (simp_all add: reserve_navigation_def)
  obtain i db3 where ins: "insert_message now (ni_channel input) who cref (ni_kind input) (ni_body input)
      (ni_reply_to input) ?db2 = (i, db3)" by fastforce
  let ?db4 = "bind_navigation i ?i ?k db3"
  have unfolded: "(case ni_reply_to input of Some t \<Rightarrow> message_exists db t | None \<Rightarrow> True) \<and>
      message_by_id ?db4 i = Inr m \<and> db' = ?db4"
    using assms fresh ins unfolding append_navigation_message_with_conversation_def Let_def
    by (auto simp: reserve_navigation_def f message_exists_def case_prod_beta
        split: if_splits option.splits sum.splits)
  have im: "i = next_rowid (map m_id (messages db))"
    and m4: "messages ?db4 = messages db @ [\<lparr>m_id = i, m_created_at = now, m_channel = ni_channel input,
        m_source = id_source who, m_instance = ?i, m_conversation_ref = cref, m_kind = ni_kind input,
        m_body = ni_body input, m_reply_to = ni_reply_to input\<rparr>]"
    using ins by (simp_all add: insert_message_eq bind_navigation_def m2)
  have "i \<notin> m_id ` set (messages db)" using im next_rowid_fresh [of "map m_id (messages db)"] by simp
  from message_by_id_last [OF this m4] unfolded
  show m: "m = \<lparr>m_id = next_rowid (map m_id (messages db)), m_created_at = now, m_channel = ni_channel input,
        m_source = id_source who, m_instance = ?i, m_conversation_ref = cref,
        m_kind = ni_kind input, m_body = ni_body input, m_reply_to = ni_reply_to input\<rparr>"
    by (simp add: im)
  show "messages db' = messages db @ [m]" using unfolded m4 m im by simp
  have "navigation_writes ?db4 = navigation_writes (bind_navigation i ?i ?k ?db2)"
    using ins by (simp add: insert_message_eq bind_navigation_def)
  with reserve_bind [of ?db1 ?i ?k i now ?h] fresh f unfolded im m
  show "navigation_writes db' = navigation_writes db @ [\<lparr>n_instance = ?i, n_nonce = ?k,
      n_request_hash = ?h, n_message_id = m_id m, n_created_at = now\<rparr>]" by simp
  show "channels db' = channels (ensure_channel now (ni_channel input) (Some ?i) db)"
    using unfolded ins c2 by (simp add: insert_message_eq bind_navigation_def ensure_channel_def)
  show "message_exists db t" if "ni_reply_to input = Some t" for t
    using unfolded that by simp
qed

lemma db_wf_navigation_created:
  assumes w: "db_wf db"
    and "append_navigation_message_with_conversation now who input cref db = (Inr (NavCreated m), db')"
  shows "db_wf db'"
proof -
  note c = navigation_created [OF assms(2)]
  have i: "m_id m = next_rowid (map m_id (messages db))" and r: "m_reply_to m = ni_reply_to input"
    and who: "m_instance m = id_instance who"
    using c(2) by simp_all
  have "log_wf db'" using w c(3) i by (auto simp: db_wf_def intro: log_wf_append)
  moreover have "replies_wf db'"
    using w c(3,6) i r by (auto simp: db_wf_def intro: replies_wf_append)
  moreover have "channels_wf db'"
    using w c(5) channels_wf_ensure [of db] by (simp add: db_wf_def channels_wf_def)
  moreover have "navigation_wf db'"
    using w c(1,3,4) who by (intro navigation_wf_append [of db _ db' m]) (auto simp: db_wf_def)
  ultimately show ?thesis by (simp add: db_wf_def)
qed

lemma navigation_not_created:
  "append_navigation_message_with_conversation now who input cref db = (res, db') \<Longrightarrow>
     (\<And>m. res \<noteq> Inr (NavCreated m)) \<Longrightarrow> db' = db"
  unfolding append_navigation_message_with_conversation_def Let_def
  by (auto split: if_splits option.splits sum.splits prod.splits)

section \<open>Properties\<close>

text \<open>Appending a message extends the log by exactly that message, attributed to the resolved
  identity, with an id above every earlier one, and returns the stored row; a reader whose cursor
  stood just before it gets it next.\<close>

theorem append_message_extends_log:
  assumes "log_wf db" and "append_message now who ch k b r db = (res, db')"
  shows "\<exists>m. res = Inr m \<and> messages db' = messages db @ [m] \<and> log_wf db' \<and>
    (\<forall>x \<in> set (messages db). m_id x < m_id m) \<and> m_source m = id_source who \<and>
    m_instance m = id_instance who \<and> m_channel m = ch \<and> m_kind m = k \<and> m_body m = b \<and>
    m_reply_to m = r \<and> list_messages_after db' (m_id m - 1) (Some ch) 1 = [m]"
proof -
  note r = append_message_result [OF assms(2)]
  let ?m = "projr res"
  have m: "messages db' = messages db @ [?m]" and i: "m_id ?m = next_rowid (map m_id (messages db))"
    using r by (simp_all add: ensure_channel_def)
  have wf: "log_wf db'" by (rule log_wf_append [OF assms(1) m i])
  have lt: "\<forall>x \<in> set (messages db). m_id x < m_id ?m"
    using next_rowid_gt [of _ "map m_id (messages db)"] i by simp
  then have "filter (\<lambda>x. m_channel x = ch \<and> m_id ?m - 1 < m_id x) (messages db) = []"
    by (auto simp: filter_empty_conv)
  moreover have "m_channel ?m = ch" using r(1) by simp
  ultimately have "list_messages_after db' (m_id ?m - 1) (Some ch) 1 = [?m]"
    by (simp add: list_messages_after_log [OF wf] m)
  with wf lt m r(1) show ?thesis by (intro exI [of _ ?m]) simp
qed

theorem append_message_extends_log_witness:
  "\<exists>m. fst (append_message 7 \<lparr>id_source = ''maker'', id_instance = ''maker-main'', id_label = None\<rparr>
      ''lounge'' ''message'' ''hello'' None empty_board) = Inr m \<and> m_body m = ''hello''"
proof -
  have "log_wf empty_board" by (simp add: log_wf_def empty_board_def)
  from append_message_extends_log [OF this surjective_pairing, of 7
      "\<lparr>id_source = ''maker'', id_instance = ''maker-main'', id_label = None\<rparr>" "''lounge''"
      "''message''" "''hello''" None]
  show ?thesis by blast
qed

text \<open>Polling with the last id received as the cursor continues the read exactly: two consecutive
  reads return what one larger read returns, so no message is skipped or repeated.\<close>

theorem polling_continues:
  assumes "log_wf db" and "list_messages_after db after channel n = rs" and "rs \<noteq> []"
  shows "rs @ list_messages_after db (m_id (last rs)) channel k =
    list_messages_after db after channel (n + k)"
proof -
  let ?in = "\<lambda>m. case channel of Some c \<Rightarrow> m_channel m = c | None \<Rightarrow> True"
  let ?ms = "filter ?in (messages db)"
  have flt: "filter (\<lambda>m. ?in m \<and> a < m_id m) (messages db) = filter (beyond (<) m_id (Some a)) ?ms" for a
    by (simp add: beyond_def conj_commute)
  have page: "list_messages_after db a channel j = take j (filter (beyond (<) m_id (Some a)) ?ms)" for a j
    by (simp only: list_messages_after_log [OF assms(1)] flt)
  let ?b = "filter (beyond (<) m_id (Some after)) ?ms"
  have "sorted_wrt (\<lambda>x y. m_id x < m_id y) ?ms"
    using assms(1) by (simp add: log_wf_def sorted_wrt_map sorted_wrt_filter)
  moreover have rs: "rs = take n ?b" using assms(2) page by simp
  ultimately have "filter (beyond (<) m_id (Some (m_id (last rs)))) ?ms = drop n ?b"
    using assms(3) by (intro beyond_continue) auto
  then have "list_messages_after db (m_id (last rs)) channel k = take k (drop n ?b)"
    by (simp only: page)
  then show ?thesis
    by (simp only: page rs take_add)
qed

theorem polling_continues_witness:
  "let db = snd (append_message 7 \<lparr>id_source = ''m'', id_instance = ''m'', id_label = None\<rparr>
        ''c'' ''message'' ''hi'' None empty_board)
   in list_messages_after db 0 None 1 \<noteq> [] \<and>
     list_messages_after db 0 None 1 @ list_messages_after db (m_id (last (list_messages_after db 0 None 1))) None 5
       = list_messages_after db 0 None (1 + 5)"
proof -
  let ?db = "snd (append_message 7 \<lparr>id_source = ''m'', id_instance = ''m'', id_label = None\<rparr>
        ''c'' ''message'' ''hi'' None empty_board)"
  have m: "messages ?db = [\<lparr>m_id = 1, m_created_at = 7, m_channel = ''c'', m_source = ''m'',
      m_instance = ''m'', m_conversation_ref = None, m_kind = ''message'', m_body = ''hi'',
      m_reply_to = None\<rparr>]"
    by (simp add: append_message_def ensure_channel_def insert_channel_or_ignore_def empty_board_def
        insert_message_def next_rowid_def Let_def default_visibility_def)
  then have "log_wf ?db" and "list_messages_after ?db 0 None 1 \<noteq> []"
    by (simp_all add: log_wf_def list_messages_after_def)
  with polling_continues [of ?db 0 None 1 _ 5, OF _ refl] show ?thesis
    by (simp add: Let_def)
qed

text \<open>A retried navigation write is answered from the log: after a write created a message, the same
  request returns that message as existing and changes nothing, and a different request under the
  same nonce is refused as a nonce conflict and changes nothing.\<close>

theorem navigation_retry_idempotent:
  assumes "db_wf db" and "append_navigation_message now who input db = (Inr (NavCreated m), db')"
    and "ni_nonce other = ni_nonce input"
  shows "append_navigation_message now' who other db' =
    (if ni_request_hash other = ni_request_hash input then Inr (NavExisting m)
     else Inr NavNonceConflict, db')"
proof -
  have created: "append_navigation_message_with_conversation now who input None db = (Inr (NavCreated m), db')"
    using assms(2) by (simp add: append_navigation_message_def)
  note c = navigation_created [OF created]
  have wf: "db_wf db'" by (rule db_wf_navigation_created [OF assms(1) created])
  let ?n = "\<lparr>n_instance = id_instance who, n_nonce = ni_nonce input,
    n_request_hash = ni_request_hash input, n_message_id = m_id m, n_created_at = now\<rparr>"
  have f: "find_navigation db' (id_instance who) (ni_nonce input) = Some ?n"
    using navigation_wf_mem [of db' ?n] wf c(4) by (simp add: db_wf_def)
  have fx: "find_navigation (snd (insert_channel_or_ignore now' x v b db')) = find_navigation db'" for x v b
    by (rule find_navigation_cong) simp
  have mx: "message_by_id (snd (insert_channel_or_ignore now' x v b db')) (m_id m) = Inr m" for x v b
    using message_by_id_mem [of db' m] wf c(3) by (simp add: db_wf_def message_by_id_def)
  show ?thesis
    using assms(3) by (simp add: append_navigation_message_def append_navigation_message_with_conversation_def
        reserve_navigation_def case_prod_beta fx f mx Let_def)
qed

theorem navigation_retry_idempotent_witness:
  "let who = \<lparr>id_source = ''m'', id_instance = ''m-1'', id_label = None\<rparr>;
       input = \<lparr>ni_channel = ''c'', ni_kind = ''message'', ni_body = ''hi'', ni_reply_to = None,
                ni_nonce = ''n1'', ni_request_hash = ''h1''\<rparr>;
       (r1, db1) = append_navigation_message 7 who input empty_board;
       (r2, db2) = append_navigation_message 9 who input db1
   in \<exists>m. r1 = Inr (NavCreated m) \<and> r2 = Inr (NavExisting m) \<and> db2 = db1"
proof -
  let ?who = "\<lparr>id_source = ''m'', id_instance = ''m-1'', id_label = None\<rparr>"
  let ?input = "\<lparr>ni_channel = ''c'', ni_kind = ''message'', ni_body = ''hi'', ni_reply_to = None,
                ni_nonce = ''n1'', ni_request_hash = ''h1''\<rparr>"
  obtain r1 db1 where 1: "append_navigation_message 7 ?who ?input empty_board = (r1, db1)" by fastforce
  then obtain m where m: "r1 = Inr (NavCreated m)"
    by (auto simp: append_navigation_message_def append_navigation_message_with_conversation_def
        insert_channel_or_ignore_def reserve_navigation_def find_navigation_def insert_message_def
        message_by_id_def bind_navigation_def next_rowid_def default_visibility_def empty_board_def Let_def)
  have "db_wf empty_board"
    by (simp add: db_wf_def log_wf_def replies_wf_def channels_wf_def navigation_wf_def empty_board_def)
  from navigation_retry_idempotent [OF this 1 [unfolded m] refl, of 9]
  show ?thesis by (simp add: 1 m Let_def)
qed

text \<open>The channel directory is read completely: for every window size the surface accepts, reading
  windows with the last name as the cursor until \<open>has_more\<close> is false returns every visible channel
  exactly once in name order.\<close>

theorem directory_windows_complete:
  assumes "channels_wf db" and "1 \<le> n" and "n \<le> max_channel_directory_window_size"
  shows "\<exists>rows. drain (Suc (length (channels db))) (directory_page (db, public_only) n) s_channel None
      = Some rows \<and>
    map s_channel rows = sort (map c_name (filter
      (\<lambda>c. public_only \<longrightarrow> c_visibility c = ''public'' \<and> c_status c = ''active'') (channels db))) \<and>
    (\<forall>cursor. cursor \<noteq> Some [] \<longrightarrow>
      read_channel_directory_window db cursor (Some n) public_only =
        Inr (directory_page (db, public_only) n cursor))"
proof -
  let ?s = "(db, public_only)"
  let ?P = "\<lambda>c. public_only \<longrightarrow> c_visibility c = ''public'' \<and> c_status c = ''active''"
  have "length (directory_rows ?s) < Suc (length (channels db))"
    by (simp add: directory_rows_def le_imp_less_Suc)
  then have "drain (Suc (length (channels db))) (directory_page ?s n) s_channel None
      = Some (directory_rows ?s)"
    using assms(1,2) by (intro directory.drain_all) simp_all
  moreover have "map s_channel (directory_rows ?s) = sort (map c_name (filter ?P (channels db)))"
    by (rule properties_for_sort [symmetric]) (simp_all add: directory_rows_def comp_def)
  moreover have "read_channel_directory_window db cursor (Some n) public_only =
      Inr (directory_page ?s n cursor)" if "cursor \<noteq> Some []" for cursor
    using that assms(2,3) by (simp add: read_channel_directory_window_def directory_page_def)
  ultimately show ?thesis by blast
qed

theorem directory_windows_complete_witness:
  "let db = snd (create_channel 3 ''b'' ''public'' None (snd (create_channel 2 ''a'' ''private'' None empty_board)))
   in map_option (map s_channel) (drain (Suc (length (channels db))) (directory_page (db, False) 1) s_channel None)
      = Some (sort [''a'', ''b''])"
proof -
  let ?db = "snd (create_channel 3 ''b'' ''public'' None (snd (create_channel 2 ''a'' ''private'' None empty_board)))"
  have c: "map c_name (channels ?db) = [''a'', ''b'']"
    by (simp add: create_channel_def insert_channel_or_ignore_def empty_board_def)
  have "channels_wf ?db"
    by (simp add: channels_wf_def channel_ok_def create_channel_def insert_channel_or_ignore_def empty_board_def)
  from directory_windows_complete [OF this, of 1 False]
  obtain rows where "drain (Suc (length (channels ?db))) (directory_page (?db, False) 1) s_channel None = Some rows"
    and "map s_channel rows = sort (map c_name (channels ?db))"
    by (auto simp: max_channel_directory_window_size_def)
  then show ?thesis unfolding c by (simp add: Let_def)
qed

text \<open>A guest never sees a private or archived channel: every row of a public-only directory window
  is a channel that is public and active.\<close>

theorem guest_directory_public_only:
  assumes "read_channel_directory_window db after_name limit True = Inr (rs, has_more)" and "s \<in> set rs"
  shows "channel_is_public_active db (s_channel s)"
proof -
  obtain n where "rs = take n (read_channel_directory_rows db True after_name (n + 1))"
    using assms(1) by (auto simp: read_channel_directory_window_def truncate_window_def Let_def
        split: if_splits)
  with assms(2) have "s \<in> set (read_channel_directory_rows db True after_name (n + 1))"
    by (blast dest: in_set_takeD)
  then obtain c where "c \<in> set (channels db)" "c_visibility c = ''public''" "c_status c = ''active''"
    and "s = channel_summary_row db c"
    by (auto simp: read_channel_directory_rows_def select_asc_def dest!: in_set_takeD)
  then show ?thesis
    by (auto simp: channel_is_public_active_def find_None_iff)
qed

theorem guest_directory_public_only_witness:
  "\<exists>s. fst (projr (read_channel_directory_window (snd (create_channel 3 ''b'' ''public'' None empty_board))
      None None True)) = [s] \<and>
    channel_is_public_active (snd (create_channel 3 ''b'' ''public'' None empty_board)) (s_channel s)"
proof -
  let ?db = "snd (create_channel 3 ''b'' ''public'' None empty_board)"
  obtain s where r: "read_channel_directory_window ?db None None True = Inr ([s], False)"
    by (simp add: read_channel_directory_window_def read_channel_directory_rows_def select_asc_def
        beyond_def create_channel_def insert_channel_or_ignore_def empty_board_def truncate_window_def
        default_channel_directory_window_size_def max_channel_directory_window_size_def)
  with guest_directory_public_only [OF r, of s] show ?thesis by simp
qed

text \<open>A write can only land in an active channel, and channels created by writing are private except
  the lounge: \<open>ensure_channel_for_write\<close> accepts exactly when the channel is new or active, never
  changes an existing channel, and makes a channel publicly readable only if it already was or it is
  the new lounge.\<close>

theorem ensure_channel_for_write_spec:
  assumes "ensure_channel_for_write now c b db = (ok, db')"
  shows "ok = (case channel_metadata db c of None \<Rightarrow> True | Some m \<Rightarrow> c_status m = ''active'') \<and>
     (\<forall>d m. channel_metadata db d = Some m \<longrightarrow> channel_metadata db' d = Some m) \<and>
     (\<forall>d. channel_is_public_active db' d =
       (channel_is_public_active db d \<or>
        (d = c \<and> channel_metadata db c = None \<and> c = ''blackboard-lounge'')))"
proof -
  have db': "db' = snd (insert_channel_or_ignore now c (default_visibility c) b db)"
    using assms by (simp add: ensure_channel_for_write_def ensure_channel_def Let_def)
  have "ok = (case channel_metadata db c of None \<Rightarrow> True | Some m \<Rightarrow> c_status m = ''active'')"
    using ensure_active_iff [of now c b db] assms by simp
  moreover have "channel_metadata db d = Some m \<longrightarrow> channel_metadata db' d = Some m" for d m
    using metadata_insert_existing db' by simp
  moreover have "channel_is_public_active db' d = (channel_is_public_active db d \<or>
        (d = c \<and> channel_metadata db c = None \<and> c = ''blackboard-lounge''))" for d
  proof (cases "\<exists>x \<in> set (channels db). c_name x = c")
    case True
    then have "db' = db" and "channel_metadata db c \<noteq> None"
      by (auto simp: db' insert_channel_or_ignore_def channel_metadata_def find_None_iff)
    then show ?thesis by auto
  next
    case False
    then have n: "channel_metadata db c = None"
      by (auto simp: channel_metadata_def find_None_iff)
    have "channels db' = channels db @ [\<lparr>c_name = c, c_visibility = default_visibility c,
        c_status = ''active'', c_created_at = now, c_updated_at = now, c_created_by = b\<rparr>]"
      using False by (simp add: db' insert_channel_or_ignore_def default_visibility_def)
    with n show ?thesis
      by (auto simp: channel_is_public_active_def find_append default_visibility_def split: option.splits)
  qed
  ultimately show ?thesis by blast
qed

theorem ensure_channel_for_write_spec_witness:
  "\<not> channel_is_public_active (snd (ensure_channel_for_write 5 ''lab'' None empty_board)) ''lab'' \<and>
   channel_is_public_active (snd (ensure_channel_for_write 5 ''blackboard-lounge'' None empty_board))
     ''blackboard-lounge''"
proof -
  have e: "\<And>d. \<not> channel_is_public_active empty_board d" "\<And>d. channel_metadata empty_board d = None"
    by (simp_all add: channel_is_public_active_def channel_metadata_def empty_board_def)
  show ?thesis
    using ensure_channel_for_write_spec [OF surjective_pairing, of 5 "''lab''" None empty_board]
      ensure_channel_for_write_spec [OF surjective_pairing, of 5 "''blackboard-lounge''" None empty_board] e
    by simp
qed

end
