(* ===== verification/Identity.thy ===== *)
theory Identity
  imports Board Web_Auth
begin

text \<open>
  Identities and participants of \<open>identity.rs\<close>: validation of names, bearer-token identities, the
  durable web participants with their role, status and credentials, and the sign-in with a one-time
  code, with its replay protection and lock-out.  The first argument \<open>now\<close> of an operation that
  writes is SQLite's clock; \<open>authenticate_web_totp\<close> takes the caller's clock as well.
\<close>

section \<open>Validation\<close>

definition validate_source :: "string \<Rightarrow> string option" where
  "validate_source source =
     (let source = trim source in if name_shape ''._:/-'' 127 source then Some source else None)"

definition validate_participant_id :: "string \<Rightarrow> string option" where
  "validate_participant_id participant_id =
     (let participant_id = trim participant_id
      in if name_shape ''._:-'' 63 participant_id then Some participant_id else None)"

text \<open>\<open>chars().count()\<close>: the bytes that are not UTF-8 continuation bytes.\<close>

definition char_count :: "string \<Rightarrow> nat" where
  "char_count s = length (filter (\<lambda>c. \<not> (CHR 0x80 \<le> c \<and> c \<le> CHR 0xBF)) s)"

definition normalize_label :: "string option \<Rightarrow> string + string option" where
  "normalize_label label =
     (case map_option trim label of
        Some value \<Rightarrow>
          if value = [] then Inr None
          else if 256 < char_count value then Inl ''invalid label''
          else Inr (Some value)
      | None \<Rightarrow> Inr None)"

section \<open>Token identities\<close>

definition hash_token :: "externals \<Rightarrow> string \<Rightarrow> string" where
  "hash_token ext token = hex (sha256 ext (as_bytes token))"

definition identity_of_row :: "identity_row \<Rightarrow> identity" where
  "identity_of_row r = \<lparr>id_source = i_source r, id_instance = i_instance r, id_label = i_label r\<rparr>"

definition resolve_identity :: "externals \<Rightarrow> board \<Rightarrow> string \<Rightarrow> identity option" where
  "resolve_identity ext db token =
     (if token = [] then None
      else map_option identity_of_row
             (find (\<lambda>r. i_token_hash r = Some (hash_token ext token)) (identities db)))"

definition get_identity :: "board \<Rightarrow> string \<Rightarrow> identity option" where
  "get_identity db instance_id =
     map_option identity_of_row (find (\<lambda>r. i_instance r = instance_id) (identities db))"

text \<open>The random instance ids and tokens are the argument \<open>draws\<close>: the loop takes one pair per attempt
  and retries on a constraint violation; \<open>None\<close> means that every given pair collided.\<close>

fun register_attempts ::
    "externals \<Rightarrow> int \<Rightarrow> string \<Rightarrow> string option \<Rightarrow> (string \<times> string) list \<Rightarrow> board
     \<Rightarrow> (identity \<times> string) option \<times> board" where
  "register_attempts ext now source label [] db = (None, db)"
| "register_attempts ext now source label ((instance_id, token) # draws) db =
     (if (\<exists>r \<in> set (identities db). i_instance r = instance_id \<or> i_token_hash r = Some (hash_token ext token))
      then register_attempts ext now source label draws db
      else (Some (\<lparr>id_source = source, id_instance = instance_id, id_label = label\<rparr>, token),
            db\<lparr>identities := identities db @
              [\<lparr>i_instance = instance_id, i_source = source, i_label = label,
                i_token_hash = Some (hash_token ext token), i_created_at = now\<rparr>]\<rparr>))"

definition register_identity ::
    "externals \<Rightarrow> int \<Rightarrow> string \<Rightarrow> string option \<Rightarrow> (string \<times> string) list \<Rightarrow> board
     \<Rightarrow> (identity \<times> string) option sql_result \<times> board" where
  "register_identity ext now source label draws db =
     (case validate_source source of
        None \<Rightarrow> (Inl InvalidQuery, db)
      | Some source \<Rightarrow>
          (case normalize_label label of
             Inl _ \<Rightarrow> (Inl InvalidQuery, db)
           | Inr label \<Rightarrow>
               (let (r, db') = register_attempts ext now source label draws db in (Inr r, db'))))"

definition rotate_token ::
    "externals \<Rightarrow> string \<Rightarrow> string \<Rightarrow> board \<Rightarrow> string option sql_result \<times> board" where
  "rotate_token ext token instance_id db =
     (let changed = sql_count (\<lambda>r. i_instance r = instance_id) (identities db) in
      if 0 < changed \<and> (\<exists>r \<in> set (identities db). i_instance r \<noteq> instance_id \<and>
           i_token_hash r = Some (hash_token ext token))
      then (Inl ConstraintViolation, db)
      else (Inr (if changed = 1 then Some token else None),
            db\<lparr>identities := sql_update (\<lambda>r. i_instance r = instance_id)
                 (\<lambda>r. r\<lparr>i_token_hash := Some (hash_token ext token)\<rparr>) (identities db)\<rparr>))"

definition revoke_token :: "string \<Rightarrow> board \<Rightarrow> bool \<times> board" where
  "revoke_token instance_id db =
     (sql_count (\<lambda>r. i_instance r = instance_id) (identities db) = 1,
      db\<lparr>identities := sql_update (\<lambda>r. i_instance r = instance_id)
           (\<lambda>r. r\<lparr>i_token_hash := None\<rparr>) (identities db)\<rparr>)"

section \<open>Participants\<close>

definition identity_of_participant :: "participant_row \<Rightarrow> identity" where
  "identity_of_participant r =
     \<lparr>id_source = p_source r, id_instance = p_participant_id r, id_label = p_label r\<rparr>"

definition get_web_participant :: "board \<Rightarrow> string \<Rightarrow> identity option" where
  "get_web_participant db participant_id =
     map_option identity_of_participant
       (find (\<lambda>r. p_participant_id r = participant_id) (web_participants db))"

definition get_web_participant_role :: "board \<Rightarrow> string \<Rightarrow> string option" where
  "get_web_participant_role db participant_id =
     (if validate_participant_id participant_id = None then None
      else map_option p_role (find (\<lambda>r. p_participant_id r = participant_id \<and> p_status r = ''active'')
             (web_participants db)))"

text \<open>\<open>UPDATE web_participants SET ... WHERE participant_id = ?\<close> under a further condition: whether one
  row changed, and the new board.\<close>

definition update_participant ::
    "string \<Rightarrow> (participant_row \<Rightarrow> bool) \<Rightarrow> (participant_row \<Rightarrow> participant_row) \<Rightarrow> board \<Rightarrow> bool \<times> board" where
  "update_participant participant_id cond f db =
     (let hit = (\<lambda>r. p_participant_id r = participant_id \<and> cond r) in
      (sql_count hit (web_participants db) = 1,
       db\<lparr>web_participants := sql_update hit f (web_participants db)\<rparr>))"

definition set_web_participant_role ::
    "int \<Rightarrow> string \<Rightarrow> string \<Rightarrow> board \<Rightarrow> bool sql_result \<times> board" where
  "set_web_participant_role now participant_id role db =
     (if validate_participant_id participant_id = None \<or> role \<notin> {''user'', ''admin''}
      then (Inl InvalidQuery, db)
      else let (changed, db') = update_participant participant_id (\<lambda>_. True)
                 (\<lambda>r. r\<lparr>p_role := role, p_updated_at := now\<rparr>) db
           in (Inr changed, db'))"

definition set_web_participant_status ::
    "int \<Rightarrow> string \<Rightarrow> string \<Rightarrow> board \<Rightarrow> bool sql_result \<times> board" where
  "set_web_participant_status now participant_id status db =
     (if validate_participant_id participant_id = None \<or> status \<notin> {''active'', ''inactive''}
      then (Inl InvalidQuery, db)
      else let (changed, db') = update_participant participant_id (\<lambda>_. True)
                 (\<lambda>r. r\<lparr>p_status := status, p_updated_at := now\<rparr>) db
           in (Inr changed, db'))"

definition new_participant :: "int \<Rightarrow> string \<Rightarrow> string \<Rightarrow> string option \<Rightarrow> participant_row" where
  "new_participant now participant_id source label =
     \<lparr>p_participant_id = participant_id, p_source = source, p_label = label, p_role = ''user'',
      p_status = ''active'', p_auth_scheme = None, p_auth_secret = None, p_totp_secret = None,
      p_totp_last_step = None, p_totp_fail_count = 0, p_totp_locked_until = None,
      p_owner_provider = None, p_owner_subject = None, p_owner_login = None,
      p_created_at = now, p_updated_at = now\<rparr>"

definition provision_web_participant_identity ::
    "int \<Rightarrow> string \<Rightarrow> string \<Rightarrow> string option \<Rightarrow> board \<Rightarrow> identity option sql_result \<times> board" where
  "provision_web_participant_identity now participant_id source label db =
     (case validate_participant_id participant_id of
        None \<Rightarrow> (Inl InvalidQuery, db)
      | Some participant_id \<Rightarrow>
          (case validate_source source of
             None \<Rightarrow> (Inl InvalidQuery, db)
           | Some source \<Rightarrow>
               (case normalize_label label of
                  Inl _ \<Rightarrow> (Inl InvalidQuery, db)
                | Inr label \<Rightarrow>
                    (if get_web_participant db participant_id \<noteq> None then (Inr None, db)
                     else (Inr (Some \<lparr>id_source = source, id_instance = participant_id, id_label = label\<rparr>),
                           db\<lparr>web_participants := web_participants db @
                                [new_participant now participant_id source label]\<rparr>)))))"

section \<open>One-time-code sign-in\<close>

definition set_web_participant_totp ::
    "int \<Rightarrow> string \<Rightarrow> string \<Rightarrow> board \<Rightarrow> bool sql_result \<times> board" where
  "set_web_participant_totp now participant_id secret db =
     (if validate_participant_id participant_id = None \<or> \<not> validate_totp_secret secret
      then (Inl InvalidQuery, db)
      else let (changed, db') = update_participant participant_id (\<lambda>_. True)
                 (\<lambda>r. r\<lparr>p_totp_secret := Some secret, p_totp_last_step := None, p_totp_fail_count := 0,
                        p_totp_locked_until := None, p_updated_at := now\<rparr>) db
           in (Inr changed, db'))"

definition revoke_web_participant_totp :: "int \<Rightarrow> string \<Rightarrow> board \<Rightarrow> bool sql_result \<times> board" where
  "revoke_web_participant_totp now participant_id db =
     (if validate_participant_id participant_id = None then (Inl InvalidQuery, db)
      else let (changed, db') = update_participant participant_id (\<lambda>r. p_totp_secret r \<noteq> None)
                 (\<lambda>r. r\<lparr>p_totp_secret := None, p_totp_last_step := None, p_totp_fail_count := 0,
                        p_totp_locked_until := None, p_updated_at := now\<rparr>) db
           in (Inr changed, db'))"

text \<open>\<open>i64::try_from(n).unwrap_or(i64::MAX)\<close>.\<close>

definition i64_max :: int where "i64_max = 2 ^ 63 - 1"

definition clamp_i64 :: "nat \<Rightarrow> int" where
  "clamp_i64 n = min (int n) i64_max"

definition authenticate_web_totp ::
    "externals \<Rightarrow> int \<Rightarrow> string \<Rightarrow> string \<Rightarrow> nat \<Rightarrow> board \<Rightarrow> identity option \<times> board" where
  "authenticate_web_totp ext clock participant_id code now db =
     (if validate_participant_id participant_id = None \<or> length code \<noteq> TOTP_DIGITS \<or>
         \<not> list_all is_ascii_digit code
      then (None, db)
      else case find (\<lambda>r. p_participant_id r = participant_id \<and> p_status r = ''active'' \<and>
                          p_totp_secret r \<noteq> None) (web_participants db) of
             None \<Rightarrow> (None, db)
           | Some row \<Rightarrow>
               (if (case p_totp_locked_until row of Some until \<Rightarrow> clamp_i64 now < until | None \<Rightarrow> False)
                then (None, db)
                else case matching_totp_step ext (the (p_totp_secret row)) code now of
                       Some step \<Rightarrow>
                         (if (case p_totp_last_step row of Some last_step \<Rightarrow> clamp_i64 step \<le> last_step | None \<Rightarrow> False)
                          then (None, db)
                          else (Some \<lparr>id_source = p_source row, id_instance = participant_id,
                                      id_label = p_label row\<rparr>,
                                snd (update_participant participant_id (\<lambda>_. True)
                                  (\<lambda>r. r\<lparr>p_totp_last_step := Some (clamp_i64 step), p_totp_fail_count := 0,
                                         p_totp_locked_until := None, p_updated_at := clock\<rparr>) db)))
                     | None \<Rightarrow>
                         (let effective_fail_count =
                                (if p_totp_locked_until row \<noteq> None then 0 else p_totp_fail_count row);
                              new_fail_count = min (effective_fail_count + 1) i64_max
                          in if TOTP_MAX_FAILURES \<le> new_fail_count
                             then (None, snd (update_participant participant_id (\<lambda>_. True)
                               (\<lambda>r. r\<lparr>p_totp_fail_count := 0,
                                      p_totp_locked_until :=
                                        Some (clamp_i64 (saturating_add_u64 now TOTP_LOCK_SECS)),
                                      p_updated_at := clock\<rparr>) db))
                             else (None, snd (update_participant participant_id (\<lambda>_. True)
                               (\<lambda>r. r\<lparr>p_totp_fail_count := new_fail_count, p_totp_locked_until := None,
                                      p_updated_at := clock\<rparr>) db)))))"

section \<open>HMAC credentials\<close>

record participant_auth_row =
  pa_identity :: identity
  pa_auth_scheme :: string
  pa_auth_secret :: string

definition get_web_participant_auth :: "board \<Rightarrow> string \<Rightarrow> participant_auth_row option" where
  "get_web_participant_auth db participant_id =
     (if validate_participant_id participant_id = None then None
      else map_option (\<lambda>r. \<lparr>pa_identity = identity_of_participant r, pa_auth_scheme = the (p_auth_scheme r),
                            pa_auth_secret = the (p_auth_secret r)\<rparr>)
             (find (\<lambda>r. p_participant_id r = participant_id \<and> p_status r = ''active'' \<and>
                        p_auth_scheme r = Some AUTH_SCHEME \<and> p_auth_secret r \<noteq> None)
                (web_participants db)))"

definition set_web_participant_auth_secret ::
    "externals \<Rightarrow> int \<Rightarrow> string \<Rightarrow> string \<Rightarrow> board \<Rightarrow> bool sql_result \<times> board" where
  "set_web_participant_auth_secret ext now participant_id secret db =
     (if validate_participant_id participant_id = None \<or> \<not> validate_secret ext secret
      then (Inl InvalidQuery, db)
      else let (changed, db') = update_participant participant_id (\<lambda>_. True)
                 (\<lambda>r. r\<lparr>p_auth_secret := Some secret, p_auth_scheme := Some AUTH_SCHEME,
                        p_updated_at := now\<rparr>) db
           in (Inr changed, db'))"

definition revoke_web_participant_auth :: "int \<Rightarrow> string \<Rightarrow> board \<Rightarrow> bool sql_result \<times> board" where
  "revoke_web_participant_auth now participant_id db =
     (if validate_participant_id participant_id = None then (Inl InvalidQuery, db)
      else let (changed, db') = update_participant participant_id (\<lambda>r. p_auth_secret r \<noteq> None)
                 (\<lambda>r. r\<lparr>p_auth_secret := None, p_auth_scheme := None, p_updated_at := now\<rparr>) db
           in (Inr changed, db'))"

section \<open>Owners\<close>

text \<open>The GitHub account that owns a participant (\<open>github_webhook.rs\<close>), from which the policy derives implicit
  authority.  \<open>ensure_owner_columns\<close> adds columns that the current schema has.\<close>

definition GITHUB_PROVIDER :: string where "GITHUB_PROVIDER = ''github''"

definition set_participant_owner ::
    "int \<Rightarrow> string \<Rightarrow> string \<Rightarrow> string \<Rightarrow> string option \<Rightarrow> board \<Rightarrow> bool sql_result \<times> board" where
  "set_participant_owner now participant_id provider_name subject_id login db =
     (if validate_participant_id participant_id = None \<or> trim provider_name \<noteq> GITHUB_PROVIDER \<or>
         blank subject_id \<or> \<not> list_all is_ascii_digit subject_id \<or>
         (case login of Some v \<Rightarrow> blank v \<or> 128 < char_count v | None \<Rightarrow> False)
      then (Inl InvalidQuery, db)
      else let (changed, db') = update_participant participant_id (\<lambda>_. True)
                 (\<lambda>r. r\<lparr>p_owner_provider := Some (trim provider_name), p_owner_subject := Some (trim subject_id),
                        p_owner_login := map_option trim login, p_updated_at := now\<rparr>) db
           in (Inr changed, db'))"

definition clear_participant_owner :: "int \<Rightarrow> string \<Rightarrow> board \<Rightarrow> bool sql_result \<times> board" where
  "clear_participant_owner now participant_id db =
     (if validate_participant_id participant_id = None then (Inl InvalidQuery, db)
      else let (changed, db') = update_participant participant_id (\<lambda>_. True)
                 (\<lambda>r. r\<lparr>p_owner_provider := None, p_owner_subject := None, p_owner_login := None,
                        p_updated_at := now\<rparr>) db
           in (Inr changed, db'))"

section \<open>Well-formed participants\<close>

text \<open>The primary key and the CHECK constraints of \<open>web_participants\<close>.\<close>

definition participant_ok :: "participant_row \<Rightarrow> bool" where
  "participant_ok r \<longleftrightarrow> p_role r \<in> {''user'', ''admin''} \<and> p_status r \<in> {''active'', ''inactive''} \<and>
     (case p_auth_scheme r of None \<Rightarrow> p_auth_secret r = None
      | Some scheme \<Rightarrow> scheme = AUTH_SCHEME \<and> p_auth_secret r \<noteq> None) \<and>
     (p_owner_provider r = None \<longleftrightarrow> p_owner_subject r = None)"

definition participants_wf :: "board \<Rightarrow> bool" where
  "participants_wf db \<longleftrightarrow> distinct (map p_participant_id (web_participants db)) \<and>
     (\<forall>r \<in> set (web_participants db). participant_ok r)"

text \<open>The primary key and the UNIQUE column of \<open>identities\<close>.\<close>

definition identities_wf :: "board \<Rightarrow> bool" where
  "identities_wf db \<longleftrightarrow> distinct (map i_instance (identities db)) \<and>
     (\<forall>r \<in> set (identities db). \<forall>r' \<in> set (identities db).
        i_token_hash r = i_token_hash r' \<longrightarrow> i_token_hash r \<noteq> None \<longrightarrow> r = r')"

text \<open>The row a sign-in reads, and a sequence of sign-in attempts (clock, participant, code, time).\<close>

definition totp_row :: "board \<Rightarrow> string \<Rightarrow> participant_row option" where
  "totp_row db participant_id = find (\<lambda>r. p_participant_id r = participant_id \<and> p_status r = ''active'' \<and>
     p_totp_secret r \<noteq> None) (web_participants db)"

fun totp_attempts :: "externals \<Rightarrow> (int \<times> string \<times> string \<times> nat) list \<Rightarrow> board \<Rightarrow> board" where
  "totp_attempts ext [] db = db"
| "totp_attempts ext ((clock, participant_id, code, now) # rest) db =
     totp_attempts ext rest (snd (authenticate_web_totp ext clock participant_id code now db))"

section \<open>Lemmas on participants\<close>

lemma validate_participant_id_trim:
  "validate_participant_id p = Some q \<Longrightarrow> q = trim p \<and> name_shape ''._:-'' 63 q"
  by (auto simp: validate_participant_id_def Let_def split: if_splits)

lemma validate_participant_id_idem:
  "validate_participant_id p = Some q \<Longrightarrow> validate_participant_id q = Some q"
  by (auto simp: validate_participant_id_def Let_def split: if_splits)

lemma validate_participant_id_graphic:
  "validate_participant_id p = Some q \<Longrightarrow> q \<noteq> [] \<and> list_all graphic q"
  using validate_participant_id_trim [of p q] name_shape_nonempty name_shape_graphic [of "''._:-''" 63 q]
  by (auto simp: graphic_def ascii_simps)

lemma find_sql_update_key:
  assumes "distinct (map k rows)" and "\<And>r. k (f r) = k r"
  shows "find (\<lambda>r. k r = v \<and> Q r) (sql_update (\<lambda>r. k r = v \<and> P r) f rows) =
    (case find (\<lambda>r. k r = v) rows of
       None \<Rightarrow> None
     | Some r \<Rightarrow> let r' = (if P r then f r else r) in if Q r' then Some r' else None)"
  using assms(1)
proof (induction rows)
  case (Cons r rows)
  show ?case
  proof (cases "k r = v")
    case True
    have "\<forall>r' \<in> set rows. k r' \<noteq> v" using Cons.prems True by (metis distinct.simps(2) image_eqI list.map(2) list.set_map)
    then have "find (\<lambda>r. k r = v \<and> Q r) (sql_update (\<lambda>r. k r = v \<and> P r) f rows) = None"
      by (auto simp: find_None_iff set_sql_update)
    then show ?thesis using True assms(2) by (simp add: sql_update_def Let_def)
  next
    case False
    then show ?thesis using Cons assms(2) by (simp add: sql_update_def)
  qed
qed (simp add: sql_update_def)

lemma find_sql_update_other:
  assumes "\<And>r. k (f r) = k r" and "w \<noteq> v"
  shows "find (\<lambda>r. k r = w \<and> Q r) (sql_update (\<lambda>r. k r = v \<and> P r) f rows) =
    find (\<lambda>r. k r = w \<and> Q r) rows"
  using assms by (induction rows) (auto simp: sql_update_def)

lemma find_key_cond:
  assumes "distinct (map k rows)"
  shows "find (\<lambda>r. k r = v \<and> Q r) rows =
    (case find (\<lambda>r. k r = v) rows of None \<Rightarrow> None | Some r \<Rightarrow> if Q r then Some r else None)"
  using find_sql_update_key [OF assms, of "\<lambda>r. r" v Q "\<lambda>_. False"]
  by (simp add: sql_update_def Let_def cong: option.case_cong)

lemma update_participant_frame [simp]:
  "messages (snd (update_participant p c f db)) = messages db"
  "identities (snd (update_participant p c f db)) = identities db"
  "principal_grants (snd (update_participant p c f db)) = principal_grants db"
  "delegated_grants (snd (update_participant p c f db)) = delegated_grants db"
  "authorization_admin_events (snd (update_participant p c f db)) = authorization_admin_events db"
  "channels (snd (update_participant p c f db)) = channels db"
  "navigation_writes (snd (update_participant p c f db)) = navigation_writes db"
  "ingress_provenance (snd (update_participant p c f db)) = ingress_provenance db"
  "execution_receipts (snd (update_participant p c f db)) = execution_receipts db"
  "execution_authorization_provenance (snd (update_participant p c f db)) =
     execution_authorization_provenance db"
  "schema (snd (update_participant p c f db)) = schema db"
  by (simp_all add: update_participant_def Let_def)

lemma participants_wf_update:
  assumes "participants_wf db" and "\<And>r. p_participant_id (f r) = p_participant_id r"
    and "\<And>r. participant_ok r \<Longrightarrow> c r \<Longrightarrow> participant_ok (f r)"
  shows "participants_wf (snd (update_participant p c f db))"
  using assms map_sql_update [of _ p_participant_id f "web_participants db"]
  by (auto simp: participants_wf_def update_participant_def Let_def set_sql_update)

lemma update_participant_ids:
  "(\<And>r. p_participant_id (f r) = p_participant_id r) \<Longrightarrow>
   p_participant_id ` set (web_participants (snd (update_participant p c f db))) =
   p_participant_id ` set (web_participants db)"
  using map_sql_update [of "\<lambda>r. p_participant_id r = p \<and> c r" p_participant_id f "web_participants db"]
  by (simp add: update_participant_def Let_def flip: set_map)

lemma totp_row_update:
  assumes "participants_wf db" and "totp_row db p = Some row"
    and "\<And>r. p_participant_id (f r) = p_participant_id r" and "\<And>r. p_status (f r) = p_status r"
    and "\<And>r. p_totp_secret (f r) = p_totp_secret r"
  shows "totp_row (snd (update_participant p (\<lambda>_. True) f db)) p = Some (f row)"
proof -
  have d: "distinct (map p_participant_id (web_participants db))"
    using assms(1) by (simp add: participants_wf_def)
  have row: "p_status row = ''active''" "p_totp_secret row \<noteq> None"
    using assms(2) by (auto simp: totp_row_def dest: find_SomeD)
  have "find (\<lambda>r. p_participant_id r = p) (web_participants db) = Some row"
    using assms(2) unfolding totp_row_def find_key_cond [OF d, of p]
    by (auto split: option.splits if_splits)
  with row show ?thesis
    using find_sql_update_key [OF d assms(3), of p "\<lambda>r. p_status r = ''active'' \<and> p_totp_secret r \<noteq> None"
        "\<lambda>_. True"]
    by (simp add: totp_row_def update_participant_def assms(4,5) Let_def)
qed

lemma totp_row_update_other:
  "q \<noteq> p \<Longrightarrow> (\<And>r. p_participant_id (f r) = p_participant_id r) \<Longrightarrow>
   totp_row (snd (update_participant p c f db)) q = totp_row db q"
  using find_sql_update_other [of p_participant_id f q p
      "\<lambda>r. p_status r = ''active'' \<and> p_totp_secret r \<noteq> None" c "web_participants db"]
  by (simp add: totp_row_def update_participant_def Let_def)

section \<open>Lemmas on sign-in\<close>

text \<open>The outcomes of an attempt: nothing changes, or the row is updated by a success, a counted failure
  or a lock-out.\<close>

definition totp_accept :: "int \<Rightarrow> nat \<Rightarrow> participant_row \<Rightarrow> participant_row" where
  "totp_accept clock step r = r\<lparr>p_totp_last_step := Some (clamp_i64 step), p_totp_fail_count := 0,
     p_totp_locked_until := None, p_updated_at := clock\<rparr>"

definition totp_fail :: "int \<Rightarrow> nat \<Rightarrow> participant_row \<Rightarrow> participant_row \<Rightarrow> participant_row" where
  "totp_fail clock now row r =
     (let n = min ((if p_totp_locked_until row \<noteq> None then 0 else p_totp_fail_count row) + 1) i64_max in
      if TOTP_MAX_FAILURES \<le> n
      then r\<lparr>p_totp_fail_count := 0,
             p_totp_locked_until := Some (clamp_i64 (saturating_add_u64 now TOTP_LOCK_SECS)),
             p_updated_at := clock\<rparr>
      else r\<lparr>p_totp_fail_count := n, p_totp_locked_until := None, p_updated_at := clock\<rparr>)"

definition totp_locked :: "nat \<Rightarrow> participant_row \<Rightarrow> bool" where
  "totp_locked now row = (case p_totp_locked_until row of Some until \<Rightarrow> clamp_i64 now < until | None \<Rightarrow> False)"

definition totp_replayed :: "nat \<Rightarrow> participant_row \<Rightarrow> bool" where
  "totp_replayed step row = (case p_totp_last_step row of Some l \<Rightarrow> clamp_i64 step \<le> l | None \<Rightarrow> False)"

lemma authenticate_cases:
  "authenticate_web_totp ext clock p code now db =
     (if validate_participant_id p = None \<or> length code \<noteq> TOTP_DIGITS \<or> \<not> list_all is_ascii_digit code
      then (None, db)
      else case totp_row db p of
             None \<Rightarrow> (None, db)
           | Some row \<Rightarrow>
               (if totp_locked now row then (None, db)
                else case matching_totp_step ext (the (p_totp_secret row)) code now of
                       Some step \<Rightarrow>
                         (if totp_replayed step row then (None, db)
                          else (Some \<lparr>id_source = p_source row, id_instance = p, id_label = p_label row\<rparr>,
                                snd (update_participant p (\<lambda>_. True) (totp_accept clock step) db)))
                     | None \<Rightarrow> (None, snd (update_participant p (\<lambda>_. True) (totp_fail clock now row) db))))"
proof -
  have "totp_accept clock step = (\<lambda>r. r\<lparr>p_totp_last_step := Some (clamp_i64 step), p_totp_fail_count := 0,
     p_totp_locked_until := None, p_updated_at := clock\<rparr>)" for step
    by (rule ext) (simp add: totp_accept_def)
  moreover have "totp_fail clock now row =
     (let n = min ((if p_totp_locked_until row \<noteq> None then 0 else p_totp_fail_count row) + 1) i64_max in
      if TOTP_MAX_FAILURES \<le> n
      then (\<lambda>r. r\<lparr>p_totp_fail_count := 0,
             p_totp_locked_until := Some (clamp_i64 (saturating_add_u64 now TOTP_LOCK_SECS)),
             p_updated_at := clock\<rparr>)
      else (\<lambda>r. r\<lparr>p_totp_fail_count := n, p_totp_locked_until := None, p_updated_at := clock\<rparr>))" for row
    by (rule ext) (simp add: totp_fail_def Let_def)
  ultimately show ?thesis
    unfolding authenticate_web_totp_def totp_row_def totp_locked_def totp_replayed_def
    by (simp add: Let_def split: option.split)
qed

lemma participant_ok_cong:
  "p_role r = p_role r' \<Longrightarrow> p_status r = p_status r' \<Longrightarrow> p_auth_scheme r = p_auth_scheme r' \<Longrightarrow>
   p_auth_secret r = p_auth_secret r' \<Longrightarrow> p_owner_provider r = p_owner_provider r' \<Longrightarrow>
   p_owner_subject r = p_owner_subject r' \<Longrightarrow> participant_ok r = participant_ok r'"
  unfolding participant_ok_def by (simp cong: option.case_cong)

lemma totp_accept_keeps [simp]:
  "p_participant_id (totp_accept c s r) = p_participant_id r" "p_status (totp_accept c s r) = p_status r"
  "p_totp_secret (totp_accept c s r) = p_totp_secret r" "participant_ok (totp_accept c s r) = participant_ok r"
  "p_totp_last_step (totp_accept c s r) = Some (clamp_i64 s)"
  by (simp_all add: totp_accept_def cong: participant_ok_cong)

lemma totp_fail_keeps [simp]:
  "p_participant_id (totp_fail c n w r) = p_participant_id r" "p_status (totp_fail c n w r) = p_status r"
  "p_totp_secret (totp_fail c n w r) = p_totp_secret r" "participant_ok (totp_fail c n w r) = participant_ok r"
  "p_totp_last_step (totp_fail c n w r) = p_totp_last_step r"
  by (simp_all add: totp_fail_def Let_def cong: participant_ok_cong)

lemma participants_wf_authenticate:
  "participants_wf db \<Longrightarrow> participants_wf (snd (authenticate_web_totp ext c p code now db))"
  unfolding authenticate_cases
  by (auto intro!: participants_wf_update split: option.splits)

lemma totp_row_authenticate_other:
  "q \<noteq> p \<Longrightarrow> totp_row (snd (authenticate_web_totp ext c p code now db)) q = totp_row db q"
  unfolding authenticate_cases by (auto simp: totp_row_update_other split: option.splits)

text \<open>One attempt never lowers the last accepted step of any participant, and keeps the secret.\<close>

definition step_reached :: "board \<Rightarrow> string \<Rightarrow> string \<Rightarrow> int \<Rightarrow> bool" where
  "step_reached db p secret l \<longleftrightarrow> (\<exists>row l'. totp_row db p = Some row \<and> p_totp_secret row = Some secret \<and>
     p_totp_last_step row = Some l' \<and> l \<le> l')"

lemma step_reached_authenticate:
  assumes "participants_wf db" and "step_reached db p secret l"
  shows "step_reached (snd (authenticate_web_totp ext c q code now db)) p secret l"
proof (cases "q = p")
  case False
  with assms(2) show ?thesis by (simp add: step_reached_def totp_row_authenticate_other)
next
  case True
  obtain row l' where row: "totp_row db p = Some row" "p_totp_secret row = Some secret"
      "p_totp_last_step row = Some l'" "l \<le> l'"
    using assms(2) by (auto simp: step_reached_def)
  have upd: "totp_row (snd (update_participant p (\<lambda>_. True) f db)) p = Some (f row)"
    if "f = totp_accept c s \<or> f = totp_fail c now row" for f s
    using that by (intro totp_row_update assms(1) row(1)) auto
  show ?thesis
    using row True upd [of "totp_fail c now row"] upd [of "totp_accept c s" s for s]
    unfolding authenticate_cases
    by (auto simp: step_reached_def totp_replayed_def split: option.splits)
qed

lemma step_reached_attempts:
  "participants_wf db \<Longrightarrow> step_reached db p secret l \<Longrightarrow>
   participants_wf (totp_attempts ext as db) \<and> step_reached (totp_attempts ext as db) p secret l"
  by (induction ext as db rule: totp_attempts.induct)
    (auto intro: step_reached_authenticate participants_wf_authenticate)

lemma replay_refused:
  assumes "step_reached db p secret l" and "matching_totp_step ext secret code now = Some s"
    and "clamp_i64 s \<le> l"
  shows "authenticate_web_totp ext c p code now db = (None, db)"
  using assms unfolding authenticate_cases
  by (auto simp: step_reached_def totp_replayed_def split: option.splits)

lemma authenticate_success:
  assumes "participants_wf db" and "authenticate_web_totp ext c p code now db = (Some who, db')"
  obtains row secret s where "totp_row db p = Some row" "p_totp_secret row = Some secret"
    "matching_totp_step ext secret code now = Some s" "\<not> totp_locked now row"
    "step_reached db' p secret (clamp_i64 s)" "participants_wf db'" "id_instance who = p"
proof -
  obtain row s where row: "totp_row db p = Some row" "\<not> totp_locked now row" "\<not> totp_replayed s row"
      "matching_totp_step ext (the (p_totp_secret row)) code now = Some s" "id_instance who = p"
    and db': "db' = snd (update_participant p (\<lambda>_. True) (totp_accept c s) db)"
    using assms(2) unfolding authenticate_cases by (auto split: if_splits option.splits)
  obtain secret where secret: "p_totp_secret row = Some secret"
    using row(1) by (auto simp: totp_row_def dest: find_SomeD)
  have "totp_row db' p = Some (totp_accept c s row)"
    unfolding db' by (rule totp_row_update [OF assms(1) row(1)]) simp_all
  then have "step_reached db' p secret (clamp_i64 s)"
    using secret by (simp add: step_reached_def)
  moreover have "participants_wf db'"
    unfolding db' using assms(1) by (rule participants_wf_update) simp_all
  ultimately show thesis using that row secret by simp
qed

text \<open>A failing attempt: a valid request whose code matches no step.\<close>

definition failing :: "externals \<Rightarrow> string \<Rightarrow> string \<Rightarrow> string \<times> nat \<Rightarrow> bool" where
  "failing ext p secret a \<longleftrightarrow> validate_participant_id p \<noteq> None \<and> length (fst a) = TOTP_DIGITS \<and>
     list_all is_ascii_digit (fst a) \<and> matching_totp_step ext secret (fst a) (snd a) = None"

definition totp_state :: "board \<Rightarrow> string \<Rightarrow> string \<Rightarrow> int \<Rightarrow> int option \<Rightarrow> bool" where
  "totp_state db p secret n lock \<longleftrightarrow> participants_wf db \<and> (\<exists>row. totp_row db p = Some row \<and>
     p_totp_secret row = Some secret \<and> p_totp_fail_count row = n \<and> p_totp_locked_until row = lock)"

lemma totp_state_fail:
  assumes "totp_state db p secret n None" and "failing ext p secret (code, now)" and "0 \<le> n" and "n < 5"
  shows "totp_state (snd (authenticate_web_totp ext c p code now db)) p secret
    (if n = 4 then 0 else n + 1) (if n = 4 then Some (clamp_i64 (saturating_add_u64 now 60)) else None)"
proof -
  obtain row where row: "totp_row db p = Some row" "p_totp_secret row = Some secret"
      "p_totp_fail_count row = n" "p_totp_locked_until row = None" and wf: "participants_wf db"
    using assms(1) by (auto simp: totp_state_def)
  let ?db = "snd (update_participant p (\<lambda>_. True) (totp_fail c now row) db)"
  have db': "snd (authenticate_web_totp ext c p code now db) = ?db"
    using assms(2) row unfolding authenticate_cases by (auto simp: failing_def totp_locked_def)
  have "totp_row ?db p = Some (totp_fail c now row row)"
    by (rule totp_row_update [OF wf row(1)]) simp_all
  moreover have "participants_wf ?db" using wf by (rule participants_wf_update) simp_all
  moreover have "p_totp_fail_count (totp_fail c now row row) = (if n = 4 then 0 else n + 1)"
    and "p_totp_locked_until (totp_fail c now row row) =
      (if n = 4 then Some (clamp_i64 (saturating_add_u64 now 60)) else None)"
    using assms(3,4) row by (auto simp: totp_fail_def TOTP_MAX_FAILURES_def TOTP_LOCK_SECS_def i64_max_def Let_def)
  ultimately show ?thesis using row(2) by (simp add: db' totp_state_def)
qed

lemma totp_state_failures:
  "totp_state db p secret n None \<Longrightarrow> 0 \<le> n \<Longrightarrow> int (length as) = 5 - n \<Longrightarrow> as \<noteq> [] \<Longrightarrow>
   \<forall>a \<in> set as. failing ext p secret a \<Longrightarrow>
   totp_state (totp_attempts ext (map (\<lambda>(code, now). (c, p, code, now)) as) db) p secret 0
     (Some (clamp_i64 (saturating_add_u64 (snd (last as)) 60)))"
proof (induction as arbitrary: db n)
  case (Cons a as)
  obtain code now where a: "a = (code, now)" by fastforce
  have n: "n < 5" using Cons.prems(3) by simp
  note st = totp_state_fail [OF Cons.prems(1) _ Cons.prems(2) n, of ext code now c]
  show ?case
  proof (cases "as = []")
    case True
    then have "n = 4" using Cons.prems(3) by simp
    with st Cons.prems(5) a True show ?thesis by simp
  next
    case False
    then have "n \<noteq> 4" using Cons.prems(3) by (cases as) auto
    then have "totp_state (snd (authenticate_web_totp ext c p code now db)) p secret (n + 1) None"
      using st Cons.prems(5) a by simp
    from Cons.IH [OF this] show ?thesis
      using Cons.prems False a by simp
  qed
qed simp

text \<open>A sample participant with a one-time-code secret, and its code at every step.\<close>

definition sample_totp_row :: participant_row where
  "sample_totp_row = (new_participant 7 ''ada'' ''human'' None)
     \<lparr>p_totp_secret := Some (base32_encode (replicate 10 7))\<rparr>"

definition sample_totp_board :: board where
  "sample_totp_board = empty_board\<lparr>web_participants := [sample_totp_row]\<rparr>"

lemma sample_totp_board_facts:
  "participants_wf sample_totp_board" "totp_row sample_totp_board ''ada'' = Some sample_totp_row"
  "p_totp_secret sample_totp_row = Some (base32_encode (replicate 10 7))"
  "p_totp_locked_until sample_totp_row = None" "p_totp_last_step sample_totp_row = None"
  "p_totp_fail_count sample_totp_row = 0" "validate_participant_id ''ada'' = Some ''ada''"
  by (simp_all add: participants_wf_def sample_totp_board_def sample_totp_row_def new_participant_def
      participant_ok_def totp_row_def) code_simp

lemma sample_hmac: "hmac_sha1 sample_externals k m = replicate 20 (of_nat (length k + length m))"
  by (simp add: sample_externals_def)

lemma sample_totp: "totp_code_bytes sample_externals (replicate 10 7) s 6 = Some ''174162''"
proof -
  have "digit_char 1 = CHR ''1''" "digit_char 2 = CHR ''2''" "digit_char 4 = CHR ''4''"
    "digit_char 6 = CHR ''6''" "digit_char 7 = CHR ''7''"
    by code_simp+
  then have "zero_padded 6 174162 = ''174162''"
    by (simp add: zero_padded_def dec.simps)
  then show ?thesis
    by (simp add: totp_code_bytes_def sample_hmac u64_to_be_bytes_def Let_def)
qed

lemma sample_code:
  "matching_totp_step sample_externals (base32_encode (replicate 10 7)) ''174162'' t = Some (t div 30)"
  "matching_totp_step sample_externals (base32_encode (replicate 10 7)) ''000000'' t = None"
proof -
  have d: "base32_decode (base32_encode (replicate 10 7)) = Some (replicate 10 7)" by code_simp
  show "matching_totp_step sample_externals (base32_encode (replicate 10 7)) ''174162'' t = Some (t div 30)"
    by (simp add: matching_totp_step_def d TOTP_DIGITS_def TOTP_PERIOD_SECS_def sample_totp Let_def
        is_ascii_digit_def ascii_simps List.map_filter_def)
  show "matching_totp_step sample_externals (base32_encode (replicate 10 7)) ''000000'' t = None"
    by (simp add: matching_totp_step_def d TOTP_DIGITS_def TOTP_PERIOD_SECS_def sample_totp Let_def
        is_ascii_digit_def ascii_simps List.map_filter_def checked_sub_u64_def checked_add_u64_def)
qed

lemma register_attempts_created:
  "register_attempts ext now source label draws db = (Some (who, token), db') \<Longrightarrow>
   \<exists>row. identities db' = identities db @ [row] \<and> who = identity_of_row row \<and>
     i_token_hash row = Some (hash_token ext token) \<and>
     (\<forall>r \<in> set (identities db). i_instance r \<noteq> i_instance row \<and> i_token_hash r \<noteq> i_token_hash row)"
  by (induction ext now source label draws db rule: register_attempts.induct)
    (auto simp: identity_of_row_def split: if_splits)

section \<open>Properties\<close>

lemma participant_updates_ok:
  "role \<in> {''user'', ''admin''} \<Longrightarrow> participant_ok r \<Longrightarrow> participant_ok (r\<lparr>p_role := role, p_updated_at := now\<rparr>)"
  "status \<in> {''active'', ''inactive''} \<Longrightarrow> participant_ok r \<Longrightarrow>
     participant_ok (r\<lparr>p_status := status, p_updated_at := now\<rparr>)"
  "participant_ok r \<Longrightarrow> participant_ok (r\<lparr>p_auth_secret := Some secret, p_auth_scheme := Some AUTH_SCHEME,
     p_updated_at := now\<rparr>)"
  "participant_ok r \<Longrightarrow> participant_ok (r\<lparr>p_auth_secret := None, p_auth_scheme := None, p_updated_at := now\<rparr>)"
  "participant_ok r \<Longrightarrow> participant_ok (r\<lparr>p_totp_secret := ts, p_totp_last_step := None, p_totp_fail_count := 0,
     p_totp_locked_until := None, p_updated_at := now\<rparr>)"
  by (auto simp: participant_ok_def split: option.splits)

lemma provision_wf:
  "participants_wf db \<Longrightarrow> participants_wf (snd (provision_web_participant_identity now p source label db))"
  by (auto simp: provision_web_participant_identity_def participants_wf_def get_web_participant_def
      new_participant_def participant_ok_def find_None_iff split: option.splits sum.splits)

lemma set_status_wf: "participants_wf db \<Longrightarrow> participants_wf (snd (set_web_participant_status now p status db))"
  by (auto simp: set_web_participant_status_def case_prod_beta participant_updates_ok intro!: participants_wf_update)

lemma set_role_wf: "participants_wf db \<Longrightarrow> participants_wf (snd (set_web_participant_role now p role db))"
  by (auto simp: set_web_participant_role_def case_prod_beta participant_updates_ok intro!: participants_wf_update)

lemma credentials_wf:
  assumes "participants_wf db"
  shows "participants_wf (snd (set_web_participant_totp now p secret db))"
    "participants_wf (snd (revoke_web_participant_totp now p db))"
    "participants_wf (snd (set_web_participant_auth_secret ext now p secret db))"
    "participants_wf (snd (revoke_web_participant_auth now p db))"
  using assms
  by (auto simp: set_web_participant_totp_def revoke_web_participant_totp_def set_web_participant_auth_secret_def
      revoke_web_participant_auth_def case_prod_beta participant_updates_ok intro!: participants_wf_update)

lemma owner_wf:
  assumes "participants_wf db"
  shows "participants_wf (snd (set_participant_owner now p prov sub login db))"
    "participants_wf (snd (clear_participant_owner now p db))"
proof -
  have "participant_ok (r\<lparr>p_owner_provider := Some a, p_owner_subject := Some b, p_owner_login := c, p_updated_at := now\<rparr>)"
    "participant_ok (r\<lparr>p_owner_provider := None, p_owner_subject := None, p_owner_login := None, p_updated_at := now\<rparr>)"
    if "participant_ok r" for r a b c
    using that by (simp_all add: participant_ok_def cong: option.case_cong)
  then show "participants_wf (snd (set_participant_owner now p prov sub login db))"
    "participants_wf (snd (clear_participant_owner now p db))"
    using assms by (auto simp: set_participant_owner_def clear_participant_owner_def case_prod_beta
        intro!: participants_wf_update)
qed

text \<open>C33: The participant table keeps its key and its CHECK constraints (one row per id; role, status,
  credential and owner columns consistent) under every operation of \<open>identity.rs\<close> and under the assignment and
  removal of an owner.\<close>

theorem participants_wf_preserved:
  assumes "participants_wf db"
  shows "participants_wf (snd (provision_web_participant_identity now p source label db)) \<and>
    participants_wf (snd (set_web_participant_role now p role db)) \<and>
    participants_wf (snd (set_web_participant_status now p status db)) \<and>
    participants_wf (snd (set_web_participant_totp now p secret db)) \<and>
    participants_wf (snd (revoke_web_participant_totp now p db)) \<and>
    participants_wf (snd (authenticate_web_totp ext now p code t db)) \<and>
    participants_wf (snd (set_web_participant_auth_secret ext now p secret db)) \<and>
    participants_wf (snd (revoke_web_participant_auth now p db)) \<and>
    participants_wf (snd (set_participant_owner now p owner_provider owner_subject login db)) \<and>
    participants_wf (snd (clear_participant_owner now p db))"
  using assms by (simp add: provision_wf set_status_wf set_role_wf credentials_wf owner_wf participants_wf_authenticate)

theorem participants_wf_preserved_witness:
  "participants_wf (snd (provision_web_participant_identity 7 ''ada'' ''human'' None empty_board))"
proof -
  have "participants_wf empty_board" by (simp add: participants_wf_def empty_board_def)
  from participants_wf_preserved [OF this] show ?thesis by blast
qed

text \<open>C30: A one-time code cannot be replayed: once a sign-in was accepted at some 30-second step, no later
  sign-in of that participant with a code of the same or an earlier step is accepted, whatever other
  sign-in attempts (of anyone) happen in between, until the secret is replaced.\<close>

theorem totp_no_replay:
  assumes "participants_wf db" and "totp_row db p = Some row" and "p_totp_secret row = Some secret"
    and "authenticate_web_totp ext c p code now db = (Some who, db1)"
    and "matching_totp_step ext secret code now = Some s"
    and "matching_totp_step ext secret code' now' = Some s'" and "s' \<le> s"
  shows "fst (authenticate_web_totp ext c' p code' now' (totp_attempts ext attempts db1)) = None"
proof -
  have "step_reached db1 p secret (clamp_i64 s) \<and> participants_wf db1"
    by (rule authenticate_success [OF assms(1,4)]) (use assms(2,3,5) in simp)
  then have "step_reached (totp_attempts ext attempts db1) p secret (clamp_i64 s)"
    using step_reached_attempts by blast
  moreover have "clamp_i64 s' \<le> clamp_i64 s" using assms(7) by (simp add: clamp_i64_def min_def)
  ultimately show ?thesis using replay_refused [OF _ assms(6)] by simp
qed

theorem totp_no_replay_witness:
  "let db1 = snd (authenticate_web_totp sample_externals 100 ''ada'' ''174162'' 100 sample_totp_board) in
   fst (authenticate_web_totp sample_externals 100 ''ada'' ''174162'' 100 sample_totp_board) \<noteq> None \<and>
   fst (authenticate_web_totp sample_externals 101 ''ada'' ''174162'' 101
     (totp_attempts sample_externals [(100, ''ada'', ''000000'', 101)] db1)) = None"
proof -
  note b = sample_totp_board_facts
  obtain who where a: "fst (authenticate_web_totp sample_externals 100 ''ada'' ''174162'' 100 sample_totp_board) = Some who"
    unfolding authenticate_cases
    by (simp add: b sample_code TOTP_DIGITS_def totp_locked_def totp_replayed_def is_ascii_digit_def ascii_simps)
  have "authenticate_web_totp sample_externals 100 ''ada'' ''174162'' 100 sample_totp_board =
      (Some who, snd (authenticate_web_totp sample_externals 100 ''ada'' ''174162'' 100 sample_totp_board))"
    by (simp add: a prod_eq_iff)
  from totp_no_replay [OF b(1,2) _ this, of "base32_encode (replicate 10 7)" 3 "''174162''" 101 3 101
      "[(100, ''ada'', ''000000'', 101)]"] a
  show ?thesis by (simp add: b sample_code Let_def del: totp_attempts.simps)
qed

text \<open>Guessing is throttled: after five consecutive attempts with wrong codes on an unlocked participant
  with no counted failure, every sign-in in the following 60 seconds is refused without changing
  anything, even with the right code.\<close>

theorem totp_lockout:
  assumes "totp_state db p secret 0 None" and "length as = 5" and "\<forall>a \<in> set as. failing ext p secret a"
    and "int now < int (snd (last as)) + 60" and "int (snd (last as)) + 60 \<le> i64_max"
    and "db' = totp_attempts ext (map (\<lambda>(code, t). (c, p, code, t)) as) db"
  shows "authenticate_web_totp ext c' p code now db' = (None, db')"
proof -
  have ne: "as \<noteq> []" using assms(2) by auto
  have "totp_state db' p secret 0 (Some (clamp_i64 (saturating_add_u64 (snd (last as)) 60)))"
    unfolding assms(6) using totp_state_failures [OF assms(1) _ _ ne assms(3)] assms(2) by simp
  then obtain row where row: "totp_row db' p = Some row"
      "p_totp_locked_until row = Some (clamp_i64 (saturating_add_u64 (snd (last as)) 60))"
    by (auto simp: totp_state_def)
  have "clamp_i64 now < clamp_i64 (saturating_add_u64 (snd (last as)) 60)"
    using assms(4,5) by (simp add: clamp_i64_def saturating_add_u64_def u64_max_def i64_max_def min_def)
  with row show ?thesis
    unfolding authenticate_cases by (simp add: totp_locked_def)
qed

theorem totp_lockout_witness:
  "let as = [(''000000'', 100), (''000000'', 101), (''000000'', 102), (''000000'', 103), (''000000'', 104)];
       db' = totp_attempts sample_externals (map (\<lambda>(code, t). (9, ''ada'', code, t)) as) sample_totp_board
   in authenticate_web_totp sample_externals 9 ''ada'' ''174162'' 150 db' = (None, db')"
proof -
  let ?as = "[(''000000'', 100), (''000000'', 101), (''000000'', 102), (''000000'', 103), (''000000'', 104)]"
  note b = sample_totp_board_facts
  have st: "totp_state sample_totp_board ''ada'' (base32_encode (replicate 10 7)) 0 None"
    by (simp add: totp_state_def b)
  have f: "\<forall>a \<in> set ?as. failing sample_externals ''ada'' (base32_encode (replicate 10 7)) a"
    by (simp add: failing_def b sample_code TOTP_DIGITS_def is_ascii_digit_def ascii_simps)
  show ?thesis
    unfolding Let_def by (rule totp_lockout [OF st _ f _ _ refl]) (simp_all add: i64_max_def)
qed

text \<open>Deactivation revokes every credential: once a participant's status is set to inactive, neither a
  one-time code nor an HMAC secret nor a role lookup of that id is answered, and reactivation restores
  the row as it was apart from its status and time stamp.\<close>

theorem inactive_participant_has_no_credentials:
  assumes "participants_wf db" and "set_web_participant_status now p ''inactive'' db = (Inr True, db')"
  shows "authenticate_web_totp ext c p code t db' = (None, db') \<and>
    get_web_participant_auth db' p = None \<and> get_web_participant_role db' p = None \<and>
    get_web_participant db' p = get_web_participant db p \<and>
    (\<forall>q. q \<noteq> p \<longrightarrow> get_web_participant_auth db' q = get_web_participant_auth db q \<and> totp_row db' q = totp_row db q)"
proof -
  let ?f = "\<lambda>r. r\<lparr>p_status := ''inactive'', p_updated_at := now\<rparr>"
  have d: "distinct (map p_participant_id (web_participants db))"
    using assms(1) by (simp add: participants_wf_def)
  have db': "db' = snd (update_participant p (\<lambda>_. True) ?f db)"
    using assms(2) by (auto simp: set_web_participant_status_def case_prod_beta split: if_splits)
  have rows: "web_participants db' = sql_update (\<lambda>r. p_participant_id r = p \<and> True) ?f (web_participants db)"
    by (simp add: db' update_participant_def Let_def)
  have none: "find (\<lambda>r. p_participant_id r = p \<and> p_status r = ''active'' \<and> Q r) (web_participants db') = None" for Q
    unfolding rows by (subst find_sql_update_key [OF d]) (auto split: option.splits)
  have other: "find (\<lambda>r. p_participant_id r = q \<and> Q r) (web_participants db') =
      find (\<lambda>r. p_participant_id r = q \<and> Q r) (web_participants db)" if "q \<noteq> p" for q Q
    unfolding rows using that by (subst find_sql_update_other) auto
  have "totp_row db' p = None" unfolding totp_row_def by (rule none)
  moreover have "get_web_participant_auth db' p = None" by (simp add: get_web_participant_auth_def none)
  moreover have "get_web_participant_role db' p = None"
    using none [of "\<lambda>_. True"] by (simp add: get_web_participant_role_def)
  moreover have "get_web_participant db' p = get_web_participant db p"
    using find_sql_update_key [OF d, of ?f p "\<lambda>_. True" "\<lambda>_. True"]
    by (simp add: get_web_participant_def rows identity_of_participant_def Let_def split: option.splits)
  moreover have "get_web_participant_auth db' q = get_web_participant_auth db q" if "q \<noteq> p" for q
    using other [OF that] by (simp add: get_web_participant_auth_def)
  moreover have "totp_row db' q = totp_row db q" if "q \<noteq> p" for q
    using other [OF that] by (simp add: totp_row_def)
  ultimately show ?thesis by (simp add: authenticate_cases)
qed

theorem inactive_participant_has_no_credentials_witness:
  "let db' = snd (set_web_participant_status 8 ''ada'' ''inactive'' sample_totp_board)
   in fst (authenticate_web_totp sample_externals 9 ''ada'' ''174162'' 100 db') = None \<and>
     fst (authenticate_web_totp sample_externals 9 ''ada'' ''174162'' 100 sample_totp_board) \<noteq> None"
proof -
  note b = sample_totp_board_facts
  obtain db' where db': "set_web_participant_status 8 ''ada'' ''inactive'' sample_totp_board = (Inr True, db')"
    by (simp add: set_web_participant_status_def b update_participant_def sample_totp_board_def
        sample_totp_row_def new_participant_def sql_count_def)
  have "fst (authenticate_web_totp sample_externals 9 ''ada'' ''174162'' 100 sample_totp_board) \<noteq> None"
    unfolding authenticate_cases
    by (simp add: b sample_code TOTP_DIGITS_def totp_locked_def totp_replayed_def is_ascii_digit_def ascii_simps)
  with inactive_participant_has_no_credentials [OF b(1) db', of sample_externals 9 "''174162''" 100]
  show ?thesis by (simp add: db' Let_def)
qed

text \<open>Token life cycle: a registered identity's token resolves to exactly that identity, and after the
  token is revoked or rotated to one with another hash it resolves to nobody.\<close>

theorem token_lifecycle:
  assumes "identities_wf db" and "register_identity ext now source label draws db = (Inr (Some (who, token)), db1)"
    and "token \<noteq> []"
  shows "identities_wf db1 \<and> resolve_identity ext db1 token = Some who \<and>
    resolve_identity ext (snd (revoke_token (id_instance who) db1)) token = None \<and>
    (hash_token ext token' \<noteq> hash_token ext token \<longrightarrow>
      fst (rotate_token ext token' (id_instance who) db1) = Inr (Some token') \<longrightarrow>
      resolve_identity ext (snd (rotate_token ext token' (id_instance who) db1)) token = None)"
proof -
  obtain draws' src lbl where r: "register_attempts ext now src lbl draws' db = (Some (who, token), db1)"
    using assms(2) by (auto simp: register_identity_def case_prod_beta split: option.splits sum.splits) (metis prod.collapse)
  then obtain row where row: "identities db1 = identities db @ [row]" "who = identity_of_row row"
      "i_token_hash row = Some (hash_token ext token)"
      "\<forall>r \<in> set (identities db). i_instance r \<noteq> i_instance row \<and> i_token_hash r \<noteq> i_token_hash row"
    using register_attempts_created by blast
  have wf: "identities_wf db1"
    using assms(1) row(3,4) by (auto simp: identities_wf_def row(1))
  have res: "resolve_identity ext db1 token = Some who"
    using assms(3) row by (auto simp: resolve_identity_def find_append find_None_iff split: option.splits dest: find_SomeD)
  have gone: "resolve_identity ext (db1\<lparr>identities := sql_update (\<lambda>r. i_instance r = id_instance who)
      (\<lambda>r. r\<lparr>i_token_hash := h\<rparr>) (identities db1)\<rparr>) token = None" if "h \<noteq> Some (hash_token ext token)" for h
    using that row by (auto simp: resolve_identity_def find_None_iff set_sql_update identity_of_row_def)
  show ?thesis
    using wf res gone [of None] gone [of "Some (hash_token ext token')"]
    by (auto simp: revoke_token_def rotate_token_def Let_def split: if_splits)
qed

theorem token_lifecycle_witness:
  "let (r, db1) = register_identity sample_externals 5 ''maker'' None [(''i-1'', ''tok'')] empty_board
   in \<exists>who. r = Inr (Some (who, ''tok'')) \<and> resolve_identity sample_externals db1 ''tok'' = Some who \<and>
     resolve_identity sample_externals (snd (revoke_token (id_instance who) db1)) ''tok'' = None"
proof -
  have v: "validate_source ''maker'' = Some ''maker''" by code_simp
  obtain who db1 where r: "register_identity sample_externals 5 ''maker'' None [(''i-1'', ''tok'')] empty_board
      = (Inr (Some (who, ''tok'')), db1)"
    by (simp add: register_identity_def v normalize_label_def empty_board_def)
  have "identities_wf empty_board" by (simp add: identities_wf_def empty_board_def)
  from token_lifecycle [OF this r] show ?thesis by (simp add: r)
qed

end
