(* ===== verification/Authorization.thy ===== *)
theory Authorization
  imports Db Identity
begin

text \<open>
  The authorization policy of \<open>authorization.rs\<close>: who may do what for which participant.

  A decision combines the participant's life cycle, durable grants, the implicit authority of the
  participant itself or of its owner, and delegated grants that may be bound to an intent, expire or
  be used once.  The evaluation is written as the code runs it, with its queries' orderings and its
  first-denial bookkeeping; the lemmas refine it to an order-free declarative policy.  The theory
  also holds the bounded windows over the two grant stores and the integrity audit.
\<close>

section \<open>Capabilities\<close>

definition READ_MESSAGES :: string where "READ_MESSAGES = ''read_messages''"

definition POST_MESSAGE :: string where "POST_MESSAGE = ''post_message''"

definition REPLY :: string where "REPLY = ''reply''"

definition READ_EXECUTION_RECEIPT :: string where "READ_EXECUTION_RECEIPT = ''read_execution_receipt''"

definition READ_EXECUTION_AUDIT :: string where "READ_EXECUTION_AUDIT = ''read_execution_audit''"

definition READ_EXECUTION_AUDIT_SWEEP :: string where
  "READ_EXECUTION_AUDIT_SWEEP = ''read_execution_audit_sweep''"

definition EXECUTION_AUDIT_SWEEP_RESOURCE :: string where
  "EXECUTION_AUDIT_SWEEP_RESOURCE = ''execution-audit-sweep''"

definition READ_AUTHORIZATION_POLICY_INTEGRITY :: string where
  "READ_AUTHORIZATION_POLICY_INTEGRITY = ''read_authorization_policy_integrity''"

definition AUTHORIZATION_POLICY_INTEGRITY_RESOURCE :: string where
  "AUTHORIZATION_POLICY_INTEGRITY_RESOURCE = ''authorization-policy-integrity''"

definition READ_AUTHORIZATION_POLICY :: string where
  "READ_AUTHORIZATION_POLICY = ''read_authorization_policy''"

definition AUTHORIZATION_POLICY_RESOURCE :: string where
  "AUTHORIZATION_POLICY_RESOURCE = ''authorization-policy''"

definition READ_AUTHORIZATION_DECISION :: string where
  "READ_AUTHORIZATION_DECISION = ''read_authorization_decision''"

definition AUTHORIZATION_DECISION_RESOURCE :: string where
  "AUTHORIZATION_DECISION_RESOURCE = ''authorization-decision''"

definition MANAGE_AUTHORIZATION_POLICY :: string where
  "MANAGE_AUTHORIZATION_POLICY = ''manage_authorization_policy''"

definition AUTHORIZATION_POLICY_ADMIN_RESOURCE :: string where
  "AUTHORIZATION_POLICY_ADMIN_RESOURCE = ''authorization-policy-administration''"

definition READ_AUTHORIZATION_ADMINISTRATION_HISTORY :: string where
  "READ_AUTHORIZATION_ADMINISTRATION_HISTORY = ''read_authorization_administration_history''"

definition AUTHORIZATION_ADMINISTRATION_HISTORY_RESOURCE :: string where
  "AUTHORIZATION_ADMINISTRATION_HISTORY_RESOURCE = ''authorization-administration-history''"

definition MANAGE_CHANNELS :: string where "MANAGE_CHANNELS = ''manage_channels''"

lemmas capability_names = READ_MESSAGES_def POST_MESSAGE_def REPLY_def READ_EXECUTION_RECEIPT_def
  READ_EXECUTION_AUDIT_def READ_EXECUTION_AUDIT_SWEEP_def READ_AUTHORIZATION_POLICY_INTEGRITY_def
  READ_AUTHORIZATION_POLICY_def READ_AUTHORIZATION_DECISION_def MANAGE_AUTHORIZATION_POLICY_def
  READ_AUTHORIZATION_ADMINISTRATION_HISTORY_def MANAGE_CHANNELS_def

lemmas resource_names = EXECUTION_AUDIT_SWEEP_RESOURCE_def AUTHORIZATION_POLICY_INTEGRITY_RESOURCE_def
  AUTHORIZATION_POLICY_RESOURCE_def AUTHORIZATION_DECISION_RESOURCE_def
  AUTHORIZATION_POLICY_ADMIN_RESOURCE_def AUTHORIZATION_ADMINISTRATION_HISTORY_RESOURCE_def

definition KNOWN_CAPABILITIES :: "string list" where
  "KNOWN_CAPABILITIES = [READ_MESSAGES, POST_MESSAGE, REPLY, READ_EXECUTION_RECEIPT, READ_EXECUTION_AUDIT,
     READ_EXECUTION_AUDIT_SWEEP, READ_AUTHORIZATION_POLICY_INTEGRITY, READ_AUTHORIZATION_POLICY,
     READ_AUTHORIZATION_DECISION, MANAGE_AUTHORIZATION_POLICY,
     READ_AUTHORIZATION_ADMINISTRATION_HISTORY, MANAGE_CHANNELS]"

definition is_known_capability :: "string \<Rightarrow> bool" where
  "is_known_capability capability = (capability \<in> set KNOWN_CAPABILITIES)"

section \<open>Decisions\<close>

record effective_grant =
  eg_capability :: string
  eg_resource :: "string option"
  eg_origin :: string

record authorization_decision =
  ad_allowed :: bool
  ad_source :: string
  ad_reason :: string
  ad_grant_id :: "int option"
  ad_consume_grant_id :: "int option"

definition allow :: "string \<Rightarrow> string \<Rightarrow> int option \<Rightarrow> int option \<Rightarrow> authorization_decision" where
  "allow source reason grant_id consume_grant_id =
     \<lparr>ad_allowed = True, ad_source = source, ad_reason = reason, ad_grant_id = grant_id,
      ad_consume_grant_id = consume_grant_id\<rparr>"

definition deny :: "string \<Rightarrow> string \<Rightarrow> int option \<Rightarrow> authorization_decision" where
  "deny source reason grant_id =
     \<lparr>ad_allowed = False, ad_source = source, ad_reason = reason, ad_grant_id = grant_id,
      ad_consume_grant_id = None\<rparr>"

record decision_target =
  dt_principal :: principal
  dt_participant_id :: string
  dt_capability :: string
  dt_resource :: "string option"
  dt_intent_id :: "string option"

record decision_explanation =
  ex_allowed :: bool
  ex_source :: string
  ex_reason :: string
  ex_grant_id :: "int option"
  ex_consume_on_commit :: bool

definition explanation_of :: "authorization_decision \<Rightarrow> decision_explanation" where
  "explanation_of d = \<lparr>ex_allowed = ad_allowed d, ex_source = ad_source d, ex_reason = ad_reason d,
     ex_grant_id = ad_grant_id d, ex_consume_on_commit = (ad_consume_grant_id d \<noteq> None)\<rparr>"

text \<open>\<open>normalize_intent_id\<close> of \<open>execution.rs\<close> and the inner \<open>normalize\<close> of the decision target.\<close>

definition MAX_INTENT_ID_BYTES :: nat where "MAX_INTENT_ID_BYTES = 256"

definition normalize_intent_id :: "string \<Rightarrow> string option" where
  "normalize_intent_id value =
     (let value = trim value
      in if value = [] \<or> MAX_INTENT_ID_BYTES < length value \<or> has_control value then None else Some value)"

definition normalize_text :: "nat \<Rightarrow> string \<Rightarrow> string option" where
  "normalize_text max_bytes value =
     (let value = trim value
      in if value \<noteq> [] \<and> length value \<le> max_bytes \<and> \<not> has_control value then Some value else None)"

text \<open>\<open>opt.map(f).transpose()?\<close>: a missing value is kept, a refused one is the error.\<close>

definition transpose_opt :: "'e \<Rightarrow> ('a \<Rightarrow> 'b option) \<Rightarrow> 'a option \<Rightarrow> 'e + 'b option" where
  "transpose_opt err f x =
     (case x of None \<Rightarrow> Inr None
      | Some v \<Rightarrow> (case f v of None \<Rightarrow> Inl err | Some w \<Rightarrow> Inr (Some w)))"

definition normalize_authorization_decision_target ::
    "string \<Rightarrow> string \<Rightarrow> string \<Rightarrow> string \<Rightarrow> string option \<Rightarrow> string option \<Rightarrow> string + decision_target" where
  "normalize_authorization_decision_target principal_provider principal_subject participant_id capability
       resource intent_id =
     (case normalize_text 256 principal_provider of
        None \<Rightarrow> Inl ''invalid_principal_provider''
      | Some principal_provider \<Rightarrow>
     (case normalize_text 256 principal_subject of
        None \<Rightarrow> Inl ''invalid_principal_subject''
      | Some principal_subject \<Rightarrow>
     (case validate_participant_id participant_id of
        None \<Rightarrow> Inl ''invalid_participant_id''
      | Some participant_id \<Rightarrow>
     (case normalize_text 128 capability of
        None \<Rightarrow> Inl ''invalid_capability''
      | Some capability \<Rightarrow>
     (if \<not> is_known_capability capability then Inl ''unsupported_capability''
      else case transpose_opt ''invalid_resource'' (normalize_text 256) resource of
        Inl e \<Rightarrow> Inl e
      | Inr resource \<Rightarrow>
     (case transpose_opt ''invalid_intent_id'' normalize_intent_id intent_id of
        Inl e \<Rightarrow> Inl e
      | Inr intent_id \<Rightarrow>
          Inr \<lparr>dt_principal = \<lparr>provider = principal_provider, subject = principal_subject\<rparr>,
               dt_participant_id = participant_id, dt_capability = capability,
               dt_resource = resource, dt_intent_id = intent_id\<rparr>))))))"

section \<open>Schema guards\<close>

definition principal_grant_columns :: "string list" where
  "principal_grant_columns = [''id'', ''principal_provider'', ''principal_subject'', ''participant_id'',
     ''capability'', ''resource'', ''status'']"

definition delegated_grant_columns :: "string list" where
  "delegated_grant_columns = [''id'', ''principal_provider'', ''principal_subject'', ''participant_id'',
     ''capability'', ''resource'', ''intent_id'', ''expires_at'', ''one_shot'', ''consumed_at'',
     ''consumed_intent_id'', ''status'']"

definition ensure_grant_schema :: "board \<Rightarrow> board" where
  "ensure_grant_schema db =
     create_table_if_not_exists ''delegated_grants'' (delegated_grant_columns @ [''created_at'', ''updated_at''])
       (create_table_if_not_exists ''principal_grants''
          (principal_grant_columns @ [''created_at'', ''updated_at'']) db)"

definition authorization_policy_snapshot_schema_current :: "board \<Rightarrow> bool" where
  "authorization_policy_snapshot_schema_current db \<longleftrightarrow>
     table_has_columns db ''principal_grants'' (principal_grant_columns @ [''created_at'', ''updated_at'']) \<and>
     table_has_columns db ''delegated_grants'' delegated_grant_columns"

definition authorization_integrity_schema_current :: "board \<Rightarrow> bool" where
  "authorization_integrity_schema_current db \<longleftrightarrow>
     table_has_columns db ''principal_grants'' principal_grant_columns \<and>
     table_has_columns db ''delegated_grants'' delegated_grant_columns \<and>
     table_has_columns db ''web_participants'' [''participant_id'', ''status''] \<and>
     table_has_columns db ''execution_receipts'' [''participant_id'', ''intent_id'', ''status'']"

definition authorization_decision_schema_current :: "board \<Rightarrow> bool" where
  "authorization_decision_schema_current db \<longleftrightarrow>
     table_has_columns db ''principal_grants'' principal_grant_columns \<and>
     table_has_columns db ''delegated_grants'' delegated_grant_columns \<and>
     table_has_columns db ''web_participants''
       [''participant_id'', ''status'', ''role'', ''owner_provider'', ''owner_subject''] \<and>
     table_has_columns db ''execution_receipts'' [''participant_id'', ''intent_id'', ''status'']"

definition effective_grants_schema_current :: "board \<Rightarrow> bool" where
  "effective_grants_schema_current db \<longleftrightarrow>
     table_has_columns db ''principal_grants'' principal_grant_columns \<and>
     table_has_columns db ''web_participants''
       [''participant_id'', ''status'', ''role'', ''owner_provider'', ''owner_subject'']"

section \<open>Policy windows\<close>

datatype policy_store = Durable | Delegated

definition policy_store_parse :: "string \<Rightarrow> policy_store option" where
  "policy_store_parse s =
     (if s = ''durable'' then Some Durable else if s = ''delegated'' then Some Delegated else None)"

fun policy_store_as_str :: "policy_store \<Rightarrow> string" where
  "policy_store_as_str Durable = ''durable''"
| "policy_store_as_str Delegated = ''delegated''"

datatype window_order = Desc | Asc

definition window_order_parse :: "string option \<Rightarrow> window_order option" where
  "window_order_parse s =
     (case s of None \<Rightarrow> Some Desc
      | Some t \<Rightarrow> if t = ''desc'' then Some Desc else if t = ''asc'' then Some Asc else None)"

fun window_order_as_str :: "window_order \<Rightarrow> string" where
  "window_order_as_str Desc = ''desc''"
| "window_order_as_str Asc = ''asc''"

record delegated_grant_snapshot =
  ds_id :: int
  ds_principal_provider :: string
  ds_principal_subject :: string
  ds_participant_id :: string
  ds_capability :: string
  ds_resource :: "string option"
  ds_intent_id :: "string option"
  ds_expires_at :: "int option"
  ds_one_shot :: bool
  ds_consumed_at :: "int option"
  ds_consumed_intent_id :: "string option"
  ds_status :: string

definition delegated_snapshot :: "delegated_grant \<Rightarrow> delegated_grant_snapshot" where
  "delegated_snapshot g =
     \<lparr>ds_id = d_id g, ds_principal_provider = d_principal_provider g,
      ds_principal_subject = d_principal_subject g, ds_participant_id = d_participant_id g,
      ds_capability = d_capability g, ds_resource = d_resource g, ds_intent_id = d_intent_id g,
      ds_expires_at = d_expires_at g, ds_one_shot = (d_one_shot g \<noteq> 0), ds_consumed_at = d_consumed_at g,
      ds_consumed_intent_id = d_consumed_intent_id g, ds_status = d_status g\<rparr>"

record policy_window_request =
  wr_store :: string
  wr_before :: "int option"
  wr_after :: "int option"
  wr_limit :: "nat option"
  wr_order :: "string option"

record policy_window =
  pw_store :: string
  pw_durable_grants :: "durable_grant list"
  pw_delegated_grants :: "delegated_grant_snapshot list"
  pw_order :: string
  pw_has_more :: bool

definition DEFAULT_AUTHORIZATION_POLICY_WINDOW_SIZE :: nat where
  "DEFAULT_AUTHORIZATION_POLICY_WINDOW_SIZE = 20"

definition MAX_AUTHORIZATION_POLICY_WINDOW_SIZE :: nat where
  "MAX_AUTHORIZATION_POLICY_WINDOW_SIZE = 200"

text \<open>The cursor check shared by the window surfaces: cursors are positive, not both given, and fit the
  order.\<close>

definition window_cursors_valid :: "window_order \<Rightarrow> int option \<Rightarrow> int option \<Rightarrow> bool" where
  "window_cursors_valid order before after \<longleftrightarrow>
     \<not> ((case before of Some v \<Rightarrow> v \<le> 0 | None \<Rightarrow> False) \<or> (case after of Some v \<Rightarrow> v \<le> 0 | None \<Rightarrow> False) \<or>
        (before \<noteq> None \<and> after \<noteq> None) \<or> (order = Desc \<and> after \<noteq> None) \<or> (order = Asc \<and> before \<noteq> None))"

definition validate_policy_window_request ::
    "policy_window_request \<Rightarrow> (policy_store \<times> window_order \<times> nat) sql_result" where
  "validate_policy_window_request request =
     (case policy_store_parse (wr_store request) of
        None \<Rightarrow> Inl InvalidQuery
      | Some store \<Rightarrow>
          (case window_order_parse (wr_order request) of
             None \<Rightarrow> Inl InvalidQuery
           | Some order \<Rightarrow>
               (if \<not> window_cursors_valid order (wr_before request) (wr_after request) then Inl InvalidQuery
                else let limit = (case wr_limit request of Some n \<Rightarrow> n
                                  | None \<Rightarrow> DEFAULT_AUTHORIZATION_POLICY_WINDOW_SIZE) in
                  if limit < 1 \<or> MAX_AUTHORIZATION_POLICY_WINDOW_SIZE < limit then Inl InvalidQuery
                  else Inr (store, order, limit))))"

definition read_durable_grant_window ::
    "board \<Rightarrow> window_order \<Rightarrow> int option \<Rightarrow> int option \<Rightarrow> nat \<Rightarrow> durable_grant list" where
  "read_durable_grant_window db order before after fetch_limit =
     take fetch_limit (case order of
        Desc \<Rightarrow> select_desc g_id before (principal_grants db)
      | Asc \<Rightarrow> select_asc g_id after (principal_grants db))"

definition read_delegated_grant_window ::
    "board \<Rightarrow> window_order \<Rightarrow> int option \<Rightarrow> int option \<Rightarrow> nat \<Rightarrow> delegated_grant_snapshot list" where
  "read_delegated_grant_window db order before after fetch_limit =
     map delegated_snapshot (take fetch_limit (case order of
        Desc \<Rightarrow> select_desc d_id before (delegated_grants db)
      | Asc \<Rightarrow> select_asc d_id after (delegated_grants db)))"

definition read_authorization_policy_window ::
    "board \<Rightarrow> policy_window_request \<Rightarrow> policy_window sql_result" where
  "read_authorization_policy_window db request =
     (if \<not> authorization_policy_snapshot_schema_current db then Inl InvalidQuery
      else case validate_policy_window_request request of
        Inl e \<Rightarrow> Inl e
      | Inr (store, order, limit) \<Rightarrow>
          (let fetch_limit = limit + 1;
               (durable, delegated, has_more) =
                 (case store of
                    Durable \<Rightarrow>
                      (let (grants, has_more) = truncate_window limit
                             (read_durable_grant_window db order (wr_before request) (wr_after request) fetch_limit)
                       in (grants, [], has_more))
                  | Delegated \<Rightarrow>
                      (let (grants, has_more) = truncate_window limit
                             (read_delegated_grant_window db order (wr_before request) (wr_after request) fetch_limit)
                       in ([], grants, has_more)))
           in Inr \<lparr>pw_store = policy_store_as_str store, pw_durable_grants = durable,
                   pw_delegated_grants = delegated, pw_order = window_order_as_str order,
                   pw_has_more = has_more\<rparr>))"

section \<open>Evaluation\<close>

record participant_policy =
  pp_status :: string
  pp_role :: string
  pp_owner_provider :: "string option"
  pp_owner_subject :: "string option"

definition participant_policy_row :: "board \<Rightarrow> string \<Rightarrow> participant_policy option" where
  "participant_policy_row db participant_id =
     map_option (\<lambda>r. \<lparr>pp_status = p_status r, pp_role = p_role r, pp_owner_provider = p_owner_provider r,
                      pp_owner_subject = p_owner_subject r\<rparr>)
       (find (\<lambda>r. p_participant_id r = participant_id) (web_participants db))"

definition committed_receipt_exists :: "board \<Rightarrow> string \<Rightarrow> string \<Rightarrow> bool" where
  "committed_receipt_exists db participant_id intent_id \<longleftrightarrow>
     table_exists db ''execution_receipts'' \<and>
     0 < sql_count (\<lambda>r. r_participant_id r = participant_id \<and> r_intent_id r = intent_id \<and>
           r_status r = ''committed'') (execution_receipts db)"

definition implicit_authority_reason ::
    "principal \<Rightarrow> string \<Rightarrow> string \<Rightarrow> string option \<Rightarrow> participant_policy \<Rightarrow> string option" where
  "implicit_authority_reason actor participant_id capability resource participant =
     (let self_authenticated = provider actor \<in> {''participant-hmac'', ''human-web''} \<and>
            subject actor = participant_id;
          human_admin = provider actor = ''human-web'' \<and> pp_role participant = ''admin'';
          when = (\<lambda>b reason. if b then Some reason else None);
          ordinary = capability \<in> {READ_MESSAGES, POST_MESSAGE, REPLY, READ_EXECUTION_RECEIPT,
                                    READ_EXECUTION_AUDIT}
      in if self_authenticated then
           (if capability = READ_AUTHORIZATION_POLICY then
              when (human_admin \<and> resource = Some AUTHORIZATION_POLICY_RESOURCE)
                ''implicit_human_web_admin_authorization_policy''
            else if capability = READ_AUTHORIZATION_POLICY_INTEGRITY then
              when (human_admin \<and> resource = Some AUTHORIZATION_POLICY_INTEGRITY_RESOURCE)
                ''implicit_human_web_admin_authorization_policy_integrity''
            else if capability = READ_AUTHORIZATION_DECISION then
              when (human_admin \<and> resource = Some AUTHORIZATION_DECISION_RESOURCE)
                ''implicit_human_web_admin_authorization_decision''
            else if capability = MANAGE_AUTHORIZATION_POLICY then
              when (human_admin \<and> resource = Some AUTHORIZATION_POLICY_ADMIN_RESOURCE)
                ''implicit_human_web_admin_authorization_administration''
            else if capability = READ_AUTHORIZATION_ADMINISTRATION_HISTORY then
              when (human_admin \<and> resource = Some AUTHORIZATION_ADMINISTRATION_HISTORY_RESOURCE)
                ''implicit_human_web_admin_authorization_administration_history''
            else if capability = READ_EXECUTION_AUDIT_SWEEP then
              when (human_admin \<and> resource = Some EXECUTION_AUDIT_SWEEP_RESOURCE)
                ''implicit_human_web_admin_audit_sweep''
            else if capability = MANAGE_CHANNELS then when human_admin ''implicit_human_web_admin''
            else if ordinary then
              Some (if provider actor = ''participant-hmac'' then ''implicit_participant_hmac''
                    else ''implicit_human_web'')
            else None)
         else
           (let github_owner = provider actor = ''github'' \<and>
                  pp_owner_provider participant = Some ''github'' \<and>
                  pp_owner_subject participant = Some (subject actor)
            in when (github_owner \<and> ordinary) ''implicit_github_owner''))"

text \<open>The scope of a grant query: principal, participant, capability, active status.\<close>

definition durable_in_scope :: "principal \<Rightarrow> string \<Rightarrow> string \<Rightarrow> durable_grant \<Rightarrow> bool" where
  "durable_in_scope actor participant_id capability g \<longleftrightarrow>
     g_principal_provider g = provider actor \<and> g_principal_subject g = subject actor \<and>
     g_participant_id g = participant_id \<and> g_capability g = capability \<and> g_status g = ''active''"

definition delegated_in_scope :: "principal \<Rightarrow> string \<Rightarrow> string \<Rightarrow> delegated_grant \<Rightarrow> bool" where
  "delegated_in_scope actor participant_id capability g \<longleftrightarrow>
     d_principal_provider g = provider actor \<and> d_principal_subject g = subject actor \<and>
     d_participant_id g = participant_id \<and> d_capability g = capability \<and> d_status g = ''active''"

text \<open>\<open>resource IS NULL OR resource = ?\<close>, where a comparison with a NULL parameter is not true.\<close>

definition sql_resource_match :: "string option \<Rightarrow> string option \<Rightarrow> bool" where
  "sql_resource_match resource g_res \<longleftrightarrow> g_res = None \<or> (resource \<noteq> None \<and> g_res = resource)"

definition explicit_match :: "board \<Rightarrow> principal \<Rightarrow> string \<Rightarrow> string \<Rightarrow> string option \<Rightarrow> int option" where
  "explicit_match db actor participant_id capability resource =
     (case sort_key (\<lambda>g. (g_resource g = None, g_id g))
             (filter (\<lambda>g. durable_in_scope actor participant_id capability g \<and>
                          sql_resource_match resource (g_resource g)) (principal_grants db)) of
        [] \<Rightarrow> None
      | g # _ \<Rightarrow> Some (g_id g))"

definition delegated_candidates ::
    "board \<Rightarrow> principal \<Rightarrow> string \<Rightarrow> string \<Rightarrow> delegated_grant list" where
  "delegated_candidates db actor participant_id capability =
     sort_key (\<lambda>g. (d_intent_id g = None, d_resource g = None, - d_one_shot g, d_id g))
       (filter (delegated_in_scope actor participant_id capability) (delegated_grants db))"

definition delegated_denial ::
    "int \<Rightarrow> string option \<Rightarrow> string \<Rightarrow> delegated_grant \<Rightarrow> string option" where
  "delegated_denial now resource intent_id g =
     (let one_shot = d_one_shot g \<noteq> 0 in
      if (case d_resource g of Some v \<Rightarrow> Some v \<noteq> resource | None \<Rightarrow> False)
      then Some ''delegated_resource_mismatch''
      else if (case d_intent_id g of Some v \<Rightarrow> v \<noteq> intent_id | None \<Rightarrow> False)
      then Some ''delegated_intent_mismatch''
      else if one_shot \<and> d_consumed_at g \<noteq> None \<and> d_consumed_intent_id g \<noteq> Some intent_id
      then Some ''delegated_consumed_different_intent''
      else if (case d_expires_at g of Some v \<Rightarrow> v \<le> now | None \<Rightarrow> False) \<and>
              \<not> (one_shot \<and> d_consumed_intent_id g = Some intent_id)
      then Some ''delegated_grant_expired''
      else None)"

text \<open>The loop over the delegated grants: \<open>first_denial\<close> is kept and the first grant that is not refused
  decides.\<close>

fun delegated_loop ::
    "board \<Rightarrow> int \<Rightarrow> string \<Rightarrow> string option \<Rightarrow> string \<Rightarrow> authorization_decision option
     \<Rightarrow> delegated_grant list \<Rightarrow> authorization_decision option" where
  "delegated_loop db now participant_id resource intent_id first_denial [] = first_denial"
| "delegated_loop db now participant_id resource intent_id first_denial (g # gs) =
     (case delegated_denial now resource intent_id g of
        Some reason \<Rightarrow>
          delegated_loop db now participant_id resource intent_id
            (case first_denial of Some d \<Rightarrow> Some d
             | None \<Rightarrow> Some (deny ''delegated_grants'' reason (Some (d_id g)))) gs
      | None \<Rightarrow>
          Some (if d_one_shot g \<noteq> 0 \<and> d_consumed_at g \<noteq> None then
                  (if committed_receipt_exists db participant_id intent_id
                   then allow ''delegated_grants'' ''delegated_committed_replay'' (Some (d_id g)) None
                   else deny ''delegated_grants'' ''delegated_consumed_without_committed_receipt'' (Some (d_id g)))
                else allow ''delegated_grants'' ''delegated_grant_match'' (Some (d_id g))
                       (if d_one_shot g \<noteq> 0 then Some (d_id g) else None)))"

definition evaluate_authorization_current_schema ::
    "int \<Rightarrow> board \<Rightarrow> principal \<Rightarrow> string \<Rightarrow> string \<Rightarrow> string option \<Rightarrow> string option
     \<Rightarrow> authorization_decision" where
  "evaluate_authorization_current_schema now db actor participant_id capability resource intent_id =
     (case participant_policy_row db participant_id of
        None \<Rightarrow> deny ''participant_lifecycle'' ''participant_missing'' None
      | Some participant \<Rightarrow>
          (if pp_status participant \<noteq> ''active''
           then deny ''participant_lifecycle'' ''participant_inactive'' None
           else
             let explicit_count = sql_count (durable_in_scope actor participant_id capability)
                   (principal_grants db);
                 early =
                   (if 0 < explicit_count
                    then map_option (\<lambda>grant_id. allow ''principal_grants'' ''explicit_durable_grant_match''
                           (Some grant_id) None)
                           (explicit_match db actor participant_id capability resource)
                    else map_option (\<lambda>reason. allow ''implicit_authority'' reason None None)
                           (implicit_authority_reason actor participant_id capability resource participant));
                 delegated =
                   (case intent_id of
                      None \<Rightarrow> None
                    | Some intent_id \<Rightarrow> delegated_loop db now participant_id resource intent_id None
                        (delegated_candidates db actor participant_id capability))
             in case early of
                  Some decision \<Rightarrow> decision
                | None \<Rightarrow>
                    (case delegated of
                       Some decision \<Rightarrow> decision
                     | None \<Rightarrow>
                         (if 0 < explicit_count
                          then deny ''principal_grants'' ''explicit_resource_scope_mismatch'' None
                          else deny ''policy'' ''no_matching_authority'' None))))"

definition explain_authorization ::
    "int \<Rightarrow> board \<Rightarrow> principal \<Rightarrow> string \<Rightarrow> string \<Rightarrow> string option \<Rightarrow> string option
     \<Rightarrow> authorization_decision sql_result" where
  "explain_authorization now db actor participant_id capability resource intent_id =
     (if \<not> authorization_decision_schema_current db then Inl InvalidQuery
      else Inr (evaluate_authorization_current_schema now db actor participant_id capability
                  resource intent_id))"

definition evaluate_authorization ::
    "int \<Rightarrow> board \<Rightarrow> principal \<Rightarrow> string \<Rightarrow> string \<Rightarrow> string option \<Rightarrow> string option
     \<Rightarrow> authorization_decision \<times> board" where
  "evaluate_authorization now db actor participant_id capability resource intent_id =
     (let db' = ensure_grant_schema db
      in (evaluate_authorization_current_schema now db' actor participant_id capability resource
            intent_id, db'))"

definition evaluate_read_authorization ::
    "int \<Rightarrow> board \<Rightarrow> principal \<Rightarrow> string \<Rightarrow> string \<Rightarrow> string option \<Rightarrow> authorization_decision sql_result" where
  "evaluate_read_authorization now db actor participant_id capability resource =
     (if \<not> effective_grants_schema_current db then Inl InvalidQuery
      else Inr (evaluate_authorization_current_schema now db actor participant_id capability
                  resource None))"

definition authorize ::
    "int \<Rightarrow> board \<Rightarrow> principal \<Rightarrow> string \<Rightarrow> string \<Rightarrow> string option \<Rightarrow> bool \<times> board" where
  "authorize now db actor participant_id capability resource =
     (let (decision, db') = evaluate_authorization now db actor participant_id capability resource None
      in (ad_allowed decision, db'))"

definition consume_delegated_grant_in_tx :: "int \<Rightarrow> int \<Rightarrow> string \<Rightarrow> board \<Rightarrow> unit sql_result \<times> board" where
  "consume_delegated_grant_in_tx now grant_id intent_id db =
     (let hit = (\<lambda>g. d_id g = grant_id \<and> d_status g = ''active'' \<and> d_one_shot g = 1 \<and> d_consumed_at g = None);
          changed = sql_count hit (delegated_grants db);
          db' = db\<lparr>delegated_grants := sql_update hit
            (\<lambda>g. g\<lparr>d_consumed_at := Some now, d_consumed_intent_id := Some intent_id, d_updated_at := now\<rparr>)
            (delegated_grants db)\<rparr>
      in (if changed \<noteq> 1 then Inl InvalidQuery else Inr (), db'))"

section \<open>Effective grants\<close>

definition implicit_resource :: "string \<Rightarrow> string option" where
  "implicit_resource capability =
     (if capability = READ_EXECUTION_AUDIT_SWEEP then Some EXECUTION_AUDIT_SWEEP_RESOURCE
      else if capability = READ_AUTHORIZATION_POLICY_INTEGRITY then Some AUTHORIZATION_POLICY_INTEGRITY_RESOURCE
      else if capability = READ_AUTHORIZATION_POLICY then Some AUTHORIZATION_POLICY_RESOURCE
      else if capability = READ_AUTHORIZATION_DECISION then Some AUTHORIZATION_DECISION_RESOURCE
      else if capability = MANAGE_AUTHORIZATION_POLICY then Some AUTHORIZATION_POLICY_ADMIN_RESOURCE
      else if capability = READ_AUTHORIZATION_ADMINISTRATION_HISTORY
        then Some AUTHORIZATION_ADMINISTRATION_HISTORY_RESOURCE
      else None)"

definition explicit_effective_grants :: "board \<Rightarrow> principal \<Rightarrow> string \<Rightarrow> effective_grant list" where
  "explicit_effective_grants db actor participant_id =
     map (\<lambda>g. \<lparr>eg_capability = g_capability g, eg_resource = g_resource g, eg_origin = ''explicit''\<rparr>)
       (sort_key (\<lambda>g. (g_capability g, g_resource g))
          (filter (\<lambda>g. g_principal_provider g = provider actor \<and> g_principal_subject g = subject actor \<and>
                       g_participant_id g = participant_id \<and> g_status g = ''active'')
             (principal_grants db)))"

definition effective_grants ::
    "int \<Rightarrow> board \<Rightarrow> principal \<Rightarrow> string \<Rightarrow> effective_grant list sql_result" where
  "effective_grants now db actor participant_id =
     (if \<not> effective_grants_schema_current db then Inl InvalidQuery
      else case participant_policy_row db participant_id of
        None \<Rightarrow> Inr []
      | Some participant \<Rightarrow>
          (if pp_status participant \<noteq> ''active'' then Inr []
           else
             let explicit = explicit_effective_grants db actor participant_id;
                 implicit = map (\<lambda>c. \<lparr>eg_capability = c, eg_resource = implicit_resource c, eg_origin = ''implicit''\<rparr>)
                   (filter (\<lambda>c. \<not> (\<exists>e \<in> set explicit. eg_capability e = c) \<and>
                      ad_allowed (evaluate_authorization_current_schema now db actor participant_id c
                        (implicit_resource c) None)) KNOWN_CAPABILITIES)
             in Inr (sort_key (\<lambda>e. (eg_capability e, eg_resource e)) (explicit @ implicit))))"

section \<open>Integrity audit\<close>

record integrity_violation =
  v_kind :: string
  v_store :: string
  v_grant_id :: "int option"
  v_participant_id :: "string option"
  v_detail :: string

record integrity_report =
  ir_valid :: bool
  ir_durable_grants_scanned :: nat
  ir_delegated_grants_scanned :: nat
  ir_violations :: "integrity_violation list"

definition push_violation :: "string \<Rightarrow> string \<Rightarrow> int \<Rightarrow> string \<Rightarrow> string \<Rightarrow> integrity_violation" where
  "push_violation kind store grant_id participant_id detail =
     \<lparr>v_kind = kind, v_store = store, v_grant_id = Some grant_id, v_participant_id = Some participant_id,
      v_detail = detail\<rparr>"

definition malformed_text :: "string \<Rightarrow> bool" where
  "malformed_text value \<longleftrightarrow> trim value = [] \<or> has_control value"

definition audit_required_text ::
    "string \<Rightarrow> int \<Rightarrow> string \<Rightarrow> string \<Rightarrow> string \<Rightarrow> integrity_violation list" where
  "audit_required_text store grant_id participant_id kind value =
     (if malformed_text value
      then [push_violation kind store grant_id participant_id ''value is blank or contains control characters'']
      else [])"

definition push_if :: "bool \<Rightarrow> integrity_violation \<Rightarrow> integrity_violation list" where
  "push_if b v = (if b then [v] else [])"

definition durable_grant_violations :: "string set \<Rightarrow> durable_grant \<Rightarrow> integrity_violation list" where
  "durable_grant_violations participants g =
     (let store = ''principal_grants''; p = g_participant_id g;
          text_check = audit_required_text store (g_id g) p;
          push = (\<lambda>kind detail. push_violation kind store (g_id g) p detail)
      in text_check ''malformed_principal_provider'' (g_principal_provider g) @
         text_check ''malformed_principal_subject'' (g_principal_subject g) @
         text_check ''malformed_participant_id'' p @
         text_check ''malformed_capability'' (g_capability g) @
         (case g_resource g of Some r \<Rightarrow> text_check ''malformed_resource'' r | None \<Rightarrow> []) @
         push_if (p \<notin> participants) (push ''missing_participant'' ''grant references no durable participant'') @
         push_if (\<not> is_known_capability (g_capability g)) (push ''unsupported_capability'' (g_capability g)) @
         push_if (g_status g \<notin> {''active'', ''inactive''}) (push ''invalid_status'' (g_status g)))"

type_synonym durable_scope = "string \<times> string \<times> string \<times> string \<times> string option"

definition scope_of :: "durable_grant \<Rightarrow> durable_scope" where
  "scope_of g = (g_principal_provider g, g_principal_subject g, g_participant_id g, g_capability g, g_resource g)"

definition join_with :: "string \<Rightarrow> string list \<Rightarrow> string" where
  "join_with sep parts = concat (case parts of [] \<Rightarrow> [] | p # ps \<Rightarrow> p # map ((@) sep) ps)"

definition duplicate_scope_violation :: "durable_grant list \<Rightarrow> durable_scope \<Rightarrow> integrity_violation" where
  "duplicate_scope_violation rows scope =
     (let ids = map g_id (filter (\<lambda>g. scope_of g = scope) rows);
          (provider', subject', participant_id, capability, resource) = scope
      in push_violation ''duplicate_durable_scope'' ''principal_grants'' (hd ids) participant_id
           (''principal='' @ provider' @ '':'' @ subject' @ '';capability='' @ capability @ '';resource='' @
            (case resource of Some r \<Rightarrow> r | None \<Rightarrow> ''*'') @ '';grant_ids='' @
            join_with '','' (map int_to_string ids)))"

text \<open>The scopes are visited in the order of their grants; the report is sorted afterwards and the
  entries have distinct sort keys, so the \<open>HashMap\<close>'s own order does not show.\<close>

definition duplicate_scope_violations :: "durable_grant list \<Rightarrow> integrity_violation list" where
  "duplicate_scope_violations rows =
     map (duplicate_scope_violation rows)
       (filter (\<lambda>scope. 1 < length (filter (\<lambda>g. scope_of g = scope) rows)) (remdups (map scope_of rows)))"

definition delegated_grant_violations ::
    "board \<Rightarrow> string set \<Rightarrow> delegated_grant \<Rightarrow> integrity_violation list" where
  "delegated_grant_violations db participants g =
     (let store = ''delegated_grants''; p = d_participant_id g;
          text_check = audit_required_text store (d_id g) p;
          push = (\<lambda>kind detail. push_violation kind store (d_id g) p detail)
      in text_check ''malformed_principal_provider'' (d_principal_provider g) @
         text_check ''malformed_principal_subject'' (d_principal_subject g) @
         text_check ''malformed_participant_id'' p @
         text_check ''malformed_capability'' (d_capability g) @
         (case d_resource g of Some r \<Rightarrow> text_check ''malformed_resource'' r | None \<Rightarrow> []) @
         (case d_intent_id g of Some i \<Rightarrow> text_check ''malformed_intent_id'' i | None \<Rightarrow> []) @
         push_if (p \<notin> participants) (push ''missing_participant'' ''grant references no durable participant'') @
         push_if (\<not> is_known_capability (d_capability g)) (push ''unsupported_capability'' (d_capability g)) @
         push_if (d_status g \<notin> {''active'', ''inactive''}) (push ''invalid_status'' (d_status g)) @
         push_if (d_one_shot g \<notin> {0, 1}) (push ''invalid_one_shot_flag'' (int_to_string (d_one_shot g))))"

definition consumption_violations :: "board \<Rightarrow> delegated_grant \<Rightarrow> integrity_violation list" where
  "consumption_violations db g =
     (let push = (\<lambda>kind detail. push_violation kind ''delegated_grants'' (d_id g) (d_participant_id g) detail);
          has_consumed_at = d_consumed_at g \<noteq> None; has_consumed_intent = d_consumed_intent_id g \<noteq> None
      in push_if (has_consumed_at \<noteq> has_consumed_intent)
           (push ''partial_consumption_metadata'' ''consumed_at and consumed_intent_id must appear together'') @
         push_if (d_one_shot g = 0 \<and> (has_consumed_at \<or> has_consumed_intent))
           (push ''non_one_shot_consumption_metadata'' ''only one-shot grants may carry consumption metadata'') @
         (case (d_intent_id g, d_consumed_intent_id g) of
            (Some bound, Some consumed) \<Rightarrow>
              push_if (bound \<noteq> consumed) (push ''consumed_intent_conflicts_with_binding''
                (''bound='' @ bound @ '';consumed='' @ consumed))
          | _ \<Rightarrow> []) @
         (case d_consumed_intent_id g of
            Some consumed_intent \<Rightarrow>
              push_if (d_one_shot g = 1 \<and> has_consumed_at \<and>
                  \<not> committed_receipt_exists db (d_participant_id g) consumed_intent)
                (push ''consumed_one_shot_without_committed_receipt'' consumed_intent)
          | None \<Rightarrow> []))"

definition audit_authorization_integrity :: "board \<Rightarrow> integrity_report sql_result" where
  "audit_authorization_integrity db =
     (if \<not> authorization_integrity_schema_current db then Inl InvalidQuery
      else
        let participants = set (map p_participant_id (web_participants db));
            durable_rows = sort_key g_id (principal_grants db);
            delegated_rows = sort_key d_id (delegated_grants db);
            violations =
              concat (map (durable_grant_violations participants) durable_rows) @
              duplicate_scope_violations durable_rows @
              concat (map (\<lambda>g. delegated_grant_violations db participants g @ consumption_violations db g)
                delegated_rows);
            sorted_violations = sort_key (\<lambda>v. (v_store v, v_grant_id v, v_kind v, v_detail v)) violations
        in Inr \<lparr>ir_valid = (sorted_violations = []), ir_durable_grants_scanned = length durable_rows,
                ir_delegated_grants_scanned = length delegated_rows, ir_violations = sorted_violations\<rparr>)"

section \<open>Well-formed policies\<close>

text \<open>Keys of the two grant tables, and what the consumption columns promise: only a one-shot grant is
  consumed, and the intent that consumed it has a committed receipt.\<close>

definition status_ok :: "string \<Rightarrow> bool" where
  "status_ok s \<longleftrightarrow> s \<in> {''active'', ''inactive''}"

definition grants_wf :: "board \<Rightarrow> bool" where
  "grants_wf db \<longleftrightarrow> distinct (map g_id (principal_grants db)) \<and> distinct (map d_id (delegated_grants db)) \<and>
     (\<forall>g \<in> set (principal_grants db). status_ok (g_status g)) \<and>
     (\<forall>g \<in> set (delegated_grants db). status_ok (d_status g) \<and> d_one_shot g \<in> {0, 1})"

definition consumption_wf :: "board \<Rightarrow> bool" where
  "consumption_wf db \<longleftrightarrow> (\<forall>g \<in> set (delegated_grants db).
     (d_consumed_at g = None \<longleftrightarrow> d_consumed_intent_id g = None) \<and>
     (\<forall>i. d_consumed_intent_id g = Some i \<longrightarrow> d_one_shot g = 1 \<and>
        committed_receipt_exists db (d_participant_id g) i \<and>
        (d_intent_id g \<noteq> None \<longrightarrow> d_intent_id g = Some i)))"

section \<open>The declarative policy\<close>

text \<open>A delegated grant applies to an intent: resource and intent bindings fit, it was not consumed by
  another intent, and it has not expired unless this intent consumed it.\<close>

definition delegated_applies :: "int \<Rightarrow> string option \<Rightarrow> string \<Rightarrow> delegated_grant \<Rightarrow> bool" where
  "delegated_applies now resource intent_id g \<longleftrightarrow>
     (d_resource g = None \<or> d_resource g = resource) \<and>
     (d_intent_id g = None \<or> d_intent_id g = Some intent_id) \<and>
     (d_one_shot g = 0 \<or> d_consumed_intent_id g = None \<or> d_consumed_intent_id g = Some intent_id) \<and>
     ((\<forall>t. d_expires_at g = Some t \<longrightarrow> now < t) \<or> (d_one_shot g \<noteq> 0 \<and> d_consumed_intent_id g = Some intent_id))"

definition policy_allows ::
    "int \<Rightarrow> board \<Rightarrow> principal \<Rightarrow> string \<Rightarrow> string \<Rightarrow> string option \<Rightarrow> string option \<Rightarrow> bool" where
  "policy_allows now db actor p capability resource intent_id \<longleftrightarrow>
     (\<exists>row. participant_policy_row db p = Some row \<and> pp_status row = ''active'' \<and>
       ((\<exists>g \<in> set (principal_grants db). durable_in_scope actor p capability g \<and>
           (g_resource g = None \<or> (resource \<noteq> None \<and> g_resource g = resource))) \<or>
        ((\<forall>g \<in> set (principal_grants db). \<not> durable_in_scope actor p capability g) \<and>
           implicit_authority_reason actor p capability resource row \<noteq> None) \<or>
        (\<exists>i. intent_id = Some i \<and> (\<exists>g \<in> set (delegated_grants db).
           delegated_in_scope actor p capability g \<and> delegated_applies now resource i g))))"

section \<open>Preservation\<close>

lemma grants_wf_cong:
  "principal_grants db = principal_grants db' \<Longrightarrow> delegated_grants db = delegated_grants db' \<Longrightarrow>
   grants_wf db = grants_wf db'"
  by (simp add: grants_wf_def)

lemma grants_wf_update_delegated:
  assumes "grants_wf db" and "\<And>g. d_id (f g) = d_id g" and "\<And>g. d_one_shot (f g) = d_one_shot g"
    and "\<And>g. status_ok (d_status g) \<Longrightarrow> status_ok (d_status (f g))"
  shows "grants_wf (db\<lparr>delegated_grants := sql_update P f (delegated_grants db)\<rparr>)"
proof -
  have "map d_id (sql_update P f (delegated_grants db)) = map d_id (delegated_grants db)"
    using assms(2) by (rule map_sql_update)
  with assms show ?thesis by (simp add: grants_wf_def set_sql_update Ball_def) metis
qed

lemma grants_wf_update_durable:
  assumes "grants_wf db" and "\<And>g. g_id (f g) = g_id g"
    and "\<And>g. status_ok (g_status g) \<Longrightarrow> status_ok (g_status (f g))"
  shows "grants_wf (db\<lparr>principal_grants := sql_update P f (principal_grants db)\<rparr>)"
proof -
  have "map g_id (sql_update P f (principal_grants db)) = map g_id (principal_grants db)"
    using assms(2) by (rule map_sql_update)
  with assms show ?thesis by (simp add: grants_wf_def set_sql_update Ball_def) metis
qed

section \<open>Lemmas on the evaluation\<close>

lemma allow_simps [simp]:
  "ad_allowed (allow s r g c) = True" "ad_source (allow s r g c) = s" "ad_reason (allow s r g c) = r"
  "ad_grant_id (allow s r g c) = g" "ad_consume_grant_id (allow s r g c) = c"
  by (simp_all add: allow_def)

lemma deny_simps [simp]:
  "ad_allowed (deny s r g) = False" "ad_source (deny s r g) = s" "ad_reason (deny s r g) = r"
  "ad_grant_id (deny s r g) = g" "ad_consume_grant_id (deny s r g) = None"
  by (simp_all add: deny_def)

lemma sort_key_Nil_iff: "sort_key k xs = [] \<longleftrightarrow> xs = []"
  by (metis length_0_conv length_sort)

lemma sort_key_Cons_mem: "sort_key k xs = y # ys \<Longrightarrow> y \<in> set xs"
  by (metis list.set_intros(1) set_sort)

lemma explicit_match_iff:
  "(\<exists>i. explicit_match db actor p cap res = Some i) \<longleftrightarrow>
   (\<exists>g \<in> set (principal_grants db). durable_in_scope actor p cap g \<and> sql_resource_match res (g_resource g))"
proof -
  let ?f = "filter (\<lambda>g. durable_in_scope actor p cap g \<and> sql_resource_match res (g_resource g)) (principal_grants db)"
  let ?s = "sort_key (\<lambda>g. (g_resource g = None, g_id g)) ?f"
  have "(\<exists>i. explicit_match db actor p cap res = Some i) \<longleftrightarrow> ?s \<noteq> []"
    by (simp add: explicit_match_def split: list.split)
  also have "\<dots> \<longleftrightarrow> ?f \<noteq> []" by (simp only: sort_key_Nil_iff)
  also have "\<dots> \<longleftrightarrow> (\<exists>g \<in> set (principal_grants db). durable_in_scope actor p cap g \<and>
      sql_resource_match res (g_resource g))"
    by (auto simp: filter_empty_conv)
  finally show ?thesis .
qed

lemma explicit_match_grant:
  assumes "explicit_match db actor p cap res = Some i"
  shows "\<exists>g \<in> set (principal_grants db). g_id g = i \<and> durable_in_scope actor p cap g \<and>
    sql_resource_match res (g_resource g)"
proof -
  let ?s = "sort_key (\<lambda>g. (g_resource g = None, g_id g)) (filter (\<lambda>g. durable_in_scope actor p cap g \<and>
    sql_resource_match res (g_resource g)) (principal_grants db))"
  obtain g gs where s: "?s = g # gs" and i: "i = g_id g"
    using assms by (auto simp: explicit_match_def split: list.splits)
  with sort_key_Cons_mem [OF s] i show ?thesis by auto
qed

text \<open>What the loop answers for the first grant it does not refuse.\<close>

definition delegated_verdict :: "board \<Rightarrow> string \<Rightarrow> string \<Rightarrow> delegated_grant \<Rightarrow> authorization_decision" where
  "delegated_verdict db p i g =
     (if d_one_shot g \<noteq> 0 \<and> d_consumed_at g \<noteq> None then
        (if committed_receipt_exists db p i
         then allow ''delegated_grants'' ''delegated_committed_replay'' (Some (d_id g)) None
         else deny ''delegated_grants'' ''delegated_consumed_without_committed_receipt'' (Some (d_id g)))
      else allow ''delegated_grants'' ''delegated_grant_match'' (Some (d_id g))
             (if d_one_shot g \<noteq> 0 then Some (d_id g) else None))"

lemma delegated_loop_find:
  "find (\<lambda>g. delegated_denial now res i g = None) gs = Some g \<Longrightarrow>
   delegated_loop db now p res i fd gs = Some (delegated_verdict db p i g)"
  by (induction gs arbitrary: fd) (auto simp: delegated_verdict_def split: option.splits if_splits)

lemma delegated_loop_none:
  "find (\<lambda>g. delegated_denial now res i g = None) gs = None \<Longrightarrow>
   (\<forall>d. fd = Some d \<longrightarrow> \<not> ad_allowed d) \<Longrightarrow>
   delegated_loop db now p res i fd gs = Some d \<Longrightarrow> \<not> ad_allowed d"
proof (induction gs arbitrary: fd)
  case (Cons g gs)
  then obtain reason where r: "delegated_denial now res i g = Some reason"
    by (auto split: if_splits)
  let ?fd = "case fd of Some d \<Rightarrow> Some d | None \<Rightarrow> Some (deny ''delegated_grants'' reason (Some (d_id g)))"
  show ?case
  proof (rule Cons.IH [of ?fd])
    show "find (\<lambda>g. delegated_denial now res i g = None) gs = None" using Cons.prems(1) r by simp
    show "\<forall>d. ?fd = Some d \<longrightarrow> \<not> ad_allowed d" using Cons.prems(2) by (cases fd) auto
    show "delegated_loop db now p res i ?fd gs = Some d" using Cons.prems(3) r by simp
  qed
qed simp

lemma delegated_denial_iff:
  "(d_consumed_at g = None \<longleftrightarrow> d_consumed_intent_id g = None) \<Longrightarrow>
   delegated_denial now res i g = None \<longleftrightarrow> delegated_applies now res i g"
  by (auto simp: delegated_denial_def delegated_applies_def Let_def split: option.splits)

lemma set_delegated_candidates:
  "set (delegated_candidates db actor p cap) =
     {g \<in> set (delegated_grants db). delegated_in_scope actor p cap g}"
  by (simp add: delegated_candidates_def)

lemma delegated_in_scope_participant: "delegated_in_scope actor p cap g \<Longrightarrow> d_participant_id g = p"
  by (simp add: delegated_in_scope_def)

lemma delegated_loop_allowed:
  assumes "consumption_wf db"
  shows "(\<exists>d. delegated_loop db now p res i None (delegated_candidates db actor p cap) = Some d \<and> ad_allowed d) \<longleftrightarrow>
    (\<exists>g \<in> set (delegated_grants db). delegated_in_scope actor p cap g \<and> delegated_applies now res i g)"
proof -
  let ?gs = "delegated_candidates db actor p cap"
  have app: "delegated_denial now res i g = None \<longleftrightarrow> delegated_applies now res i g" if "g \<in> set ?gs" for g
    using assms that by (intro delegated_denial_iff) (simp add: consumption_wf_def set_delegated_candidates)
  show ?thesis
  proof (cases "find (\<lambda>g. delegated_denial now res i g = None) ?gs")
    case None
    then have "\<not> (\<exists>g \<in> set ?gs. delegated_applies now res i g)"
      using app by (metis (mono_tags, lifting) find_None_iff)
    then have "\<not> (\<exists>g \<in> set (delegated_grants db). delegated_in_scope actor p cap g \<and> delegated_applies now res i g)"
      by (simp add: set_delegated_candidates)
    moreover have "\<not> ad_allowed d" if "delegated_loop db now p res i None ?gs = Some d" for d
      using delegated_loop_none [OF None _ that] by simp
    ultimately show ?thesis by blast
  next
    case (Some g)
    then have g: "g \<in> set ?gs" and den: "delegated_denial now res i g = None"
      by (auto dest: find_SomeD)
    then have wf: "g \<in> set (delegated_grants db)" and sc: "delegated_in_scope actor p cap g"
      by (simp_all add: set_delegated_candidates)
    then have p: "d_participant_id g = p" by (simp add: delegated_in_scope_participant)
    have ap: "delegated_applies now res i g" using app [OF g] den by simp
    have "ad_allowed (delegated_verdict db p i g)"
    proof (cases "d_one_shot g \<noteq> 0 \<and> d_consumed_at g \<noteq> None")
      case True
      then have "d_consumed_intent_id g = Some i"
        using ap assms wf by (auto simp: delegated_applies_def consumption_wf_def)
      then show ?thesis using assms wf p by (auto simp: delegated_verdict_def consumption_wf_def)
    qed (simp add: delegated_verdict_def)
    with delegated_loop_find [OF Some] wf sc ap show ?thesis by auto
  qed
qed

lemma evaluate_cases:
  "evaluate_authorization_current_schema now db actor p cap res intent =
     (case participant_policy_row db p of
        None \<Rightarrow> deny ''participant_lifecycle'' ''participant_missing'' None
      | Some row \<Rightarrow>
          (if pp_status row \<noteq> ''active'' then deny ''participant_lifecycle'' ''participant_inactive'' None
           else if \<exists>g \<in> set (principal_grants db). durable_in_scope actor p cap g then
             (case explicit_match db actor p cap res of
                Some i \<Rightarrow> allow ''principal_grants'' ''explicit_durable_grant_match'' (Some i) None
              | None \<Rightarrow>
                  (case Option.bind intent (\<lambda>i. delegated_loop db now p res i None (delegated_candidates db actor p cap)) of
                     Some d \<Rightarrow> d
                   | None \<Rightarrow> deny ''principal_grants'' ''explicit_resource_scope_mismatch'' None))
           else
             (case implicit_authority_reason actor p cap res row of
                Some reason \<Rightarrow> allow ''implicit_authority'' reason None None
              | None \<Rightarrow>
                  (case Option.bind intent (\<lambda>i. delegated_loop db now p res i None (delegated_candidates db actor p cap)) of
                     Some d \<Rightarrow> d
                   | None \<Rightarrow> deny ''policy'' ''no_matching_authority'' None))))"
proof -
  have "(case intent of None \<Rightarrow> None
      | Some i \<Rightarrow> delegated_loop db now p res i None (delegated_candidates db actor p cap)) =
    Option.bind intent (\<lambda>i. delegated_loop db now p res i None (delegated_candidates db actor p cap))"
    by (cases intent) simp_all
  then show ?thesis
    unfolding evaluate_authorization_current_schema_def Let_def sql_count_pos
    by (simp split: option.split)
qed

lemma sql_resource_match_none: "sql_resource_match res None"
  by (simp add: sql_resource_match_def)

lemma evaluate_allowed_iff:
  assumes "consumption_wf db"
  shows "ad_allowed (evaluate_authorization_current_schema now db actor p cap res intent) \<longleftrightarrow>
    policy_allows now db actor p cap res intent"
proof -
  let ?loop = "\<lambda>i. delegated_loop db now p res i None (delegated_candidates db actor p cap)"
  have loop: "(\<exists>d. Option.bind intent ?loop = Some d \<and> ad_allowed d) \<longleftrightarrow>
      (\<exists>i. intent = Some i \<and> (\<exists>g \<in> set (delegated_grants db). delegated_in_scope actor p cap g \<and>
        delegated_applies now res i g))"
    using delegated_loop_allowed [OF assms, of now p res _ actor cap] by (cases intent) auto
  have ex: "explicit_match db actor p cap res = None \<longleftrightarrow>
      \<not> (\<exists>g \<in> set (principal_grants db). durable_in_scope actor p cap g \<and>
          (g_resource g = None \<or> (res \<noteq> None \<and> g_resource g = res)))"
    using explicit_match_iff [of db actor p cap res] by (auto simp: sql_resource_match_def)
  show ?thesis
    unfolding evaluate_cases policy_allows_def
    using loop ex by (cases "Option.bind intent ?loop") (auto split: option.split)
qed

section \<open>Windows over the grant stores\<close>

definition durable_page :: "window_order \<Rightarrow> board \<Rightarrow> nat \<Rightarrow> int option \<Rightarrow> durable_grant list \<times> bool" where
  "durable_page order db limit cursor = truncate_window limit
     (read_durable_grant_window db order cursor cursor (limit + 1))"

definition delegated_page ::
    "window_order \<Rightarrow> board \<Rightarrow> nat \<Rightarrow> int option \<Rightarrow> delegated_grant_snapshot list \<times> bool" where
  "delegated_page order db limit cursor = truncate_window limit
     (read_delegated_grant_window db order cursor cursor (limit + 1))"

lemma filter_map_snapshot:
  "map delegated_snapshot (filter (beyond lt d_id k) gs) = filter (beyond lt ds_id k) (map delegated_snapshot gs)"
  by (induction gs) (auto simp: beyond_def delegated_snapshot_def split: option.splits)

lemma map_ds_id: "map ds_id (map delegated_snapshot gs) = map d_id gs"
  by (simp add: delegated_snapshot_def)

interpretation durable_asc: paged_store grants_wf "\<lambda>db. sort_key g_id (principal_grants db)" g_id "(<)"
  "durable_page Asc"
proof
  fix db assume "grants_wf db"
  then show "sorted_wrt (\<lambda>a b. g_id a < g_id b) (sort_key g_id (principal_grants db))"
    by (intro strict_sort_key) (simp add: grants_wf_def)
  show "durable_page Asc db n k = truncate_window n (filter (beyond (<) g_id k) (sort_key g_id (principal_grants db)))" for n k
    by (simp only: durable_page_def read_durable_grant_window_def window_order.case select_asc_eq truncate_fetched)
qed auto

interpretation durable_desc: paged_store grants_wf "\<lambda>db. rev (sort_key g_id (principal_grants db))" g_id "(>)"
  "durable_page Desc"
proof
  fix db assume "grants_wf db"
  then show "sorted_wrt (\<lambda>a b. g_id a > g_id b) (rev (sort_key g_id (principal_grants db)))"
    by (intro strict_sort_key_desc) (simp add: grants_wf_def)
  show "durable_page Desc db n k = truncate_window n (filter (beyond (>) g_id k) (rev (sort_key g_id (principal_grants db))))" for n k
    by (simp only: durable_page_def read_durable_grant_window_def window_order.case select_desc_eq truncate_fetched)
qed auto

interpretation delegated_asc: paged_store grants_wf
  "\<lambda>db. map delegated_snapshot (sort_key d_id (delegated_grants db))" ds_id "(<)" "delegated_page Asc"
proof
  fix db assume "grants_wf db"
  then have "sorted_wrt (\<lambda>a b. d_id a < d_id b) (sort_key d_id (delegated_grants db))"
    by (intro strict_sort_key) (simp add: grants_wf_def)
  then show "sorted_wrt (\<lambda>a b. ds_id a < ds_id b) (map delegated_snapshot (sort_key d_id (delegated_grants db)))"
    by (simp add: sorted_wrt_map delegated_snapshot_def)
  show "delegated_page Asc db n k = truncate_window n (filter (beyond (<) ds_id k)
      (map delegated_snapshot (sort_key d_id (delegated_grants db))))" for n k
    by (simp only: delegated_page_def read_delegated_grant_window_def window_order.case select_asc_eq
        filter_map_snapshot [symmetric] take_map [symmetric] truncate_fetched)
qed auto

interpretation delegated_desc: paged_store grants_wf
  "\<lambda>db. map delegated_snapshot (rev (sort_key d_id (delegated_grants db)))" ds_id "(>)" "delegated_page Desc"
proof
  fix db assume "grants_wf db"
  then have "sorted_wrt (\<lambda>a b. d_id a > d_id b) (rev (sort_key d_id (delegated_grants db)))"
    by (intro strict_sort_key_desc) (simp add: grants_wf_def)
  then show "sorted_wrt (\<lambda>a b. ds_id a > ds_id b) (map delegated_snapshot (rev (sort_key d_id (delegated_grants db))))"
    by (simp add: sorted_wrt_map delegated_snapshot_def)
  show "delegated_page Desc db n k = truncate_window n (filter (beyond (>) ds_id k)
      (map delegated_snapshot (rev (sort_key d_id (delegated_grants db)))))" for n k
    by (simp only: delegated_page_def read_delegated_grant_window_def window_order.case select_desc_eq
        filter_map_snapshot [symmetric] take_map [symmetric] truncate_fetched)
qed auto

text \<open>A window request with a cursor, and the window it answers.\<close>

definition window_request :: "policy_store \<Rightarrow> window_order \<Rightarrow> nat \<Rightarrow> int option \<Rightarrow> policy_window_request" where
  "window_request store order limit cursor =
     \<lparr>wr_store = policy_store_as_str store, wr_before = (if order = Desc then cursor else None),
      wr_after = (if order = Asc then cursor else None), wr_limit = Some limit,
      wr_order = Some (window_order_as_str order)\<rparr>"

lemma window_request_valid:
  assumes "1 \<le> n" and "n \<le> MAX_AUTHORIZATION_POLICY_WINDOW_SIZE" and "\<forall>c. cursor = Some c \<longrightarrow> 0 < c"
  shows "validate_policy_window_request (window_request store order n cursor) = Inr (store, order, n)"
  using assms by (cases store; cases order; cases cursor)
    (auto simp: validate_policy_window_request_def window_request_def policy_store_parse_def
      window_order_parse_def window_cursors_valid_def)

lemma read_window_pages:
  assumes "authorization_policy_snapshot_schema_current db"
    and "1 \<le> n" and "n \<le> MAX_AUTHORIZATION_POLICY_WINDOW_SIZE" and "\<forall>c. cursor = Some c \<longrightarrow> 0 < c"
  shows "read_authorization_policy_window db (window_request Durable order n cursor) =
      Inr \<lparr>pw_store = ''durable'', pw_durable_grants = fst (durable_page order db n cursor),
        pw_delegated_grants = [], pw_order = window_order_as_str order,
        pw_has_more = snd (durable_page order db n cursor)\<rparr>"
    and "read_authorization_policy_window db (window_request Delegated order n cursor) =
      Inr \<lparr>pw_store = ''delegated'', pw_durable_grants = [],
        pw_delegated_grants = fst (delegated_page order db n cursor), pw_order = window_order_as_str order,
        pw_has_more = snd (delegated_page order db n cursor)\<rparr>"
proof -
  have w: "read_durable_grant_window db order (wr_before (window_request st order n cursor))
        (wr_after (window_request st order n cursor)) k = read_durable_grant_window db order cursor cursor k"
      "read_delegated_grant_window db order (wr_before (window_request st order n cursor))
        (wr_after (window_request st order n cursor)) k = read_delegated_grant_window db order cursor cursor k" for st k
    by (cases order; simp add: window_request_def read_durable_grant_window_def read_delegated_grant_window_def)+
  note v = window_request_valid [OF assms(2-4)]
  show "read_authorization_policy_window db (window_request Durable order n cursor) =
      Inr \<lparr>pw_store = ''durable'', pw_durable_grants = fst (durable_page order db n cursor),
        pw_delegated_grants = [], pw_order = window_order_as_str order,
        pw_has_more = snd (durable_page order db n cursor)\<rparr>"
    unfolding read_authorization_policy_window_def v w durable_page_def
    by (simp add: assms(1) w case_prod_beta Let_def)
  show "read_authorization_policy_window db (window_request Delegated order n cursor) =
      Inr \<lparr>pw_store = ''delegated'', pw_durable_grants = [],
        pw_delegated_grants = fst (delegated_page order db n cursor), pw_order = window_order_as_str order,
        pw_has_more = snd (delegated_page order db n cursor)\<rparr>"
    unfolding read_authorization_policy_window_def v w delegated_page_def
    by (simp add: assms(1) w case_prod_beta Let_def)
qed

section \<open>Frames\<close>

lemma ensure_grant_schema_current:
  "table_exists db ''principal_grants'' \<Longrightarrow> table_exists db ''delegated_grants'' \<Longrightarrow> ensure_grant_schema db = db"
  by (simp add: ensure_grant_schema_def create_table_if_not_exists_id)

lemma ensure_grant_schema_frame [simp]:
  "messages (ensure_grant_schema db) = messages db" "channels (ensure_grant_schema db) = channels db"
  "web_participants (ensure_grant_schema db) = web_participants db"
  "principal_grants (ensure_grant_schema db) = principal_grants db"
  "delegated_grants (ensure_grant_schema db) = delegated_grants db"
  "execution_receipts (ensure_grant_schema db) = execution_receipts db"
  by (simp_all add: ensure_grant_schema_def create_table_if_not_exists_def)

text \<open>A decision reads only participants, grants, receipts and the presence of the receipt table.\<close>

lemma committed_receipt_cong:
  "execution_receipts db = execution_receipts db' \<Longrightarrow>
   table_exists db ''execution_receipts'' = table_exists db' ''execution_receipts'' \<Longrightarrow>
   committed_receipt_exists db = committed_receipt_exists db'"
  by (intro ext) (simp add: committed_receipt_exists_def)

lemma delegated_loop_cong:
  "committed_receipt_exists db = committed_receipt_exists db' \<Longrightarrow>
   delegated_loop db now p res i fd gs = delegated_loop db' now p res i fd gs"
  by (induction gs arbitrary: fd) (auto split: option.split)

lemma evaluate_cong:
  assumes "web_participants db = web_participants db'" "principal_grants db = principal_grants db'"
    "delegated_grants db = delegated_grants db'" "committed_receipt_exists db = committed_receipt_exists db'"
  shows "evaluate_authorization_current_schema now db actor p cap res intent =
    evaluate_authorization_current_schema now db' actor p cap res intent"
proof -
  have "participant_policy_row db p = participant_policy_row db' p"
    "explicit_match db actor p cap res = explicit_match db' actor p cap res"
    "delegated_candidates db actor p cap = delegated_candidates db' actor p cap"
    by (simp_all add: participant_policy_row_def explicit_match_def delegated_candidates_def assms)
  then show ?thesis
    unfolding evaluate_authorization_current_schema_def
    by (simp only: assms delegated_loop_cong [OF assms(4)])
qed

section \<open>Evidence of a decision\<close>

lemma delegated_loop_evidence:
  assumes "delegated_loop db now p res i None (delegated_candidates db actor p cap) = Some d" and "ad_allowed d"
  shows "\<exists>g \<in> set (delegated_grants db). delegated_in_scope actor p cap g \<and>
    delegated_denial now res i g = None \<and> d = delegated_verdict db p i g"
proof -
  let ?gs = "delegated_candidates db actor p cap"
  show ?thesis
  proof (cases "find (\<lambda>g. delegated_denial now res i g = None) ?gs")
    case None
    then show ?thesis using delegated_loop_none [OF None _ assms(1)] assms(2) by simp
  next
    case (Some g)
    then have "g \<in> set ?gs" "delegated_denial now res i g = None" by (auto dest: find_SomeD)
    moreover have "d = delegated_verdict db p i g" using delegated_loop_find [OF Some] assms(1) by simp
    ultimately show ?thesis by (auto simp: set_delegated_candidates)
  qed
qed

lemma evaluate_evidence:
  assumes "d = evaluate_authorization_current_schema now db actor p cap res intent" and "ad_allowed d"
  obtains
    (Durable) g where "ad_source d = ''principal_grants''" "ad_consume_grant_id d = None"
      "g \<in> set (principal_grants db)" "ad_grant_id d = Some (g_id g)" "durable_in_scope actor p cap g"
      "sql_resource_match res (g_resource g)"
  | (Implicit) row where "ad_source d = ''implicit_authority''" "ad_grant_id d = None"
      "ad_consume_grant_id d = None" "participant_policy_row db p = Some row"
      "\<forall>g \<in> set (principal_grants db). \<not> durable_in_scope actor p cap g"
      "implicit_authority_reason actor p cap res row = Some (ad_reason d)"
  | (Delegated) i g where "intent = Some i" "g \<in> set (delegated_grants db)"
      "delegated_in_scope actor p cap g" "delegated_denial now res i g = None"
      "d = delegated_verdict db p i g"
proof -
  let ?loop = "\<lambda>i. delegated_loop db now p res i None (delegated_candidates db actor p cap)"
  obtain row where row: "participant_policy_row db p = Some row" "pp_status row = ''active''"
    using assms unfolding evaluate_cases by (auto split: option.splits if_splits)
  have deleg: thesis if "Option.bind intent ?loop = Some d"
    using that assms(2) by (auto simp: bind_eq_Some_conv dest!: delegated_loop_evidence intro: Delegated)
  show thesis
  proof (cases "\<exists>g \<in> set (principal_grants db). durable_in_scope actor p cap g")
    case True
    show thesis
    proof (cases "explicit_match db actor p cap res")
      case (Some k)
      then have d: "d = allow ''principal_grants'' ''explicit_durable_grant_match'' (Some k) None"
        using True assms(1) row by (simp add: evaluate_cases)
      obtain g where "g \<in> set (principal_grants db)" "g_id g = k" "durable_in_scope actor p cap g"
          "sql_resource_match res (g_resource g)"
        using explicit_match_grant [OF Some] by blast
      with Durable [of g] show thesis by (simp add: d)
    next
      case None
      then show thesis
        using True assms row deleg unfolding evaluate_cases by (auto split: option.splits)
    qed
  next
    case False
    show thesis
    proof (cases "implicit_authority_reason actor p cap res row")
      case (Some reason)
      then have "d = allow ''implicit_authority'' reason None None"
        using False assms(1) row by (simp add: evaluate_cases)
      with Implicit [of row] Some False row show thesis by simp
    next
      case None
      then show thesis using False assms row deleg unfolding evaluate_cases by (auto split: option.splits)
    qed
  qed
qed

lemma allowed_participant_active:
  assumes "ad_allowed (evaluate_authorization_current_schema now db actor p cap res intent)"
  shows "\<exists>row. participant_policy_row db p = Some row \<and> pp_status row = ''active''"
  using assms unfolding evaluate_cases by (auto split: option.splits if_splits)

lemma delegated_verdict_simps:
  "ad_source (delegated_verdict db p i g) = ''delegated_grants''"
  "ad_grant_id (delegated_verdict db p i g) = Some (d_id g)"
  "ad_consume_grant_id (delegated_verdict db p i g) =
     (if d_one_shot g \<noteq> 0 \<and> d_consumed_at g = None then Some (d_id g) else None)"
  by (simp_all add: delegated_verdict_def)

text \<open>The grant a decision promises to consume can be consumed.\<close>

lemma consume_decided:
  assumes "grants_wf db"
    and "ad_consume_grant_id (evaluate_authorization_current_schema now db actor p cap res intent) = Some k"
  obtains g i where "intent = Some i" "g \<in> set (delegated_grants db)" "d_id g = k" "d_one_shot g = 1"
    "d_consumed_at g = None" "d_status g = ''active''" "delegated_in_scope actor p cap g"
    "delegated_denial now res i g = None"
    "sql_count (\<lambda>g. d_id g = k \<and> d_status g = ''active'' \<and> d_one_shot g = 1 \<and> d_consumed_at g = None)
       (delegated_grants db) = 1"
proof -
  let ?d = "evaluate_authorization_current_schema now db actor p cap res intent"
  have denied: "\<not> ad_allowed d \<Longrightarrow> ad_consume_grant_id d = None"
    if "d = ?d" for d
  proof -
    assume na: "\<not> ad_allowed d"
    have loop: "ad_consume_grant_id e = None" if "delegated_loop db now p res i fd gs = Some e" "\<not> ad_allowed e"
      "\<forall>x. fd = Some x \<longrightarrow> ad_consume_grant_id x = None" for e i fd gs
      using that by (induction gs arbitrary: fd) (auto split: option.splits if_splits)
    show "ad_consume_grant_id d = None"
      using na that loop [of _ None] unfolding evaluate_cases
      by (auto simp: bind_eq_Some_conv split: option.splits if_splits)
  qed
  then have al: "ad_allowed ?d" using assms(2) by fastforce
  show thesis
  proof (rule evaluate_evidence [OF refl al])
    fix i g
    assume g: "intent = Some i" "g \<in> set (delegated_grants db)" "delegated_in_scope actor p cap g"
      "delegated_denial now res i g = None" "?d = delegated_verdict db p i g"
    have k: "d_id g = k" "d_one_shot g \<noteq> 0" "d_consumed_at g = None"
      using assms(2) unfolding g(5) delegated_verdict_simps by (auto split: if_splits)
    then have one: "d_one_shot g = 1" using assms(1) g(2) by (auto simp: grants_wf_def)
    have act: "d_status g = ''active''" using g(3) by (simp add: delegated_in_scope_def)
    let ?hit = "\<lambda>g. d_id g = k \<and> d_status g = ''active'' \<and> d_one_shot g = 1 \<and> d_consumed_at g = None"
    have dist: "distinct (map d_id (delegated_grants db))" using assms(1) by (simp add: grants_wf_def)
    then have "?hit x \<longleftrightarrow> d_id x = k" if "x \<in> set (delegated_grants db)" for x
      using that distinct_key_eq [OF dist that g(2)] k one act by auto
    then have "filter ?hit (delegated_grants db) = filter (\<lambda>x. d_id x = k) (delegated_grants db)"
      by (intro filter_cong) auto
    then have "sql_count ?hit (delegated_grants db) = 1"
      using sql_count_key [OF dist, of k] g(2) k(1) by (auto simp: sql_count_def)
    with that g k one act show thesis by blast
  qed (use assms(2) in auto)
qed

section \<open>A sample policy\<close>

definition sample_principal :: "string \<Rightarrow> principal" where
  "sample_principal u = \<lparr>provider = ''github'', subject = u\<rparr>"

definition sample_durable :: durable_grant where
  "sample_durable = \<lparr>g_id = 1, g_principal_provider = ''github'', g_principal_subject = ''u1'',
     g_participant_id = ''ada'', g_capability = ''post_message'', g_resource = Some ''lab'',
     g_status = ''active'', g_created_at = 5, g_updated_at = 5\<rparr>"

definition sample_delegated :: delegated_grant where
  "sample_delegated = \<lparr>d_id = 1, d_principal_provider = ''github'', d_principal_subject = ''u2'',
     d_participant_id = ''ada'', d_capability = ''post_message'', d_resource = None, d_intent_id = None,
     d_expires_at = Some 100, d_one_shot = 1, d_consumed_at = None, d_consumed_intent_id = None,
     d_status = ''active'', d_created_at = 5, d_updated_at = 5\<rparr>"

definition sample_policy_board :: board where
  "sample_policy_board = empty_board\<lparr>web_participants := [new_participant 5 ''ada'' ''human'' None],
     principal_grants := [sample_durable], delegated_grants := [sample_delegated]\<rparr>"

lemmas sample_policy_defs = sample_policy_board_def sample_durable_def sample_delegated_def
  sample_principal_def new_participant_def empty_board_def

lemma sample_policy_wf: "grants_wf sample_policy_board" "consumption_wf sample_policy_board"
  by (simp_all add: grants_wf_def status_ok_def consumption_wf_def sample_policy_defs)

lemma sample_policy_schema:
  "authorization_decision_schema_current sample_policy_board"
  "authorization_policy_snapshot_schema_current sample_policy_board"
  "authorization_integrity_schema_current sample_policy_board"
  "effective_grants_schema_current sample_policy_board"
  by (simp_all add: authorization_decision_schema_current_def authorization_policy_snapshot_schema_current_def
      authorization_integrity_schema_current_def effective_grants_schema_current_def table_has_columns_def
      sample_policy_defs current_schema_def principal_grant_columns_def delegated_grant_columns_def)

lemma sample_durable_decision:
  "evaluate_authorization_current_schema 50 sample_policy_board (sample_principal ''u1'') ''ada'' ''post_message''
     (Some ''lab'') None = allow ''principal_grants'' ''explicit_durable_grant_match'' (Some 1) None"
  by (simp add: evaluate_authorization_current_schema_def participant_policy_row_def explicit_match_def
      durable_in_scope_def sql_resource_match_def sql_count_def sample_policy_defs)

lemma sample_delegated_decision:
  "evaluate_authorization_current_schema 50 sample_policy_board (sample_principal ''u2'') ''ada'' ''post_message''
     (Some ''lab'') (Some ''i1'') = allow ''delegated_grants'' ''delegated_grant_match'' (Some 1) (Some 1)"
  by (simp add: evaluate_authorization_current_schema_def participant_policy_row_def delegated_candidates_def
      durable_in_scope_def delegated_in_scope_def delegated_denial_def sql_count_def implicit_authority_reason_def
      sample_policy_defs Let_def)

section \<open>Properties\<close>

text \<open>C4: The evaluation refines the declarative policy: with the query orderings, early returns and
  first-denial bookkeeping of the code, a request is allowed exactly when the participant is active and
  a durable grant covers it, or no durable grant is in scope and implicit authority applies, or an
  applicable delegated grant exists for the intent; explaining, evaluating and reading give the same
  decision, and explaining changes nothing.\<close>

theorem authorization_refines_policy:
  assumes "consumption_wf db" and "authorization_decision_schema_current db"
  shows "\<exists>d. explain_authorization now db actor p cap res intent = Inr d \<and>
    evaluate_authorization now db actor p cap res intent = (d, db) \<and>
    (intent = None \<longrightarrow> evaluate_read_authorization now db actor p cap res = Inr d \<and>
       authorize now db actor p cap res = (ad_allowed d, db)) \<and>
    (ad_allowed d \<longleftrightarrow> policy_allows now db actor p cap res intent)"
proof -
  have "table_exists db ''principal_grants''" "table_exists db ''delegated_grants''"
    using assms(2) by (auto simp: authorization_decision_schema_current_def table_has_columns_def
        table_exists_def split: option.splits)
  then have "ensure_grant_schema db = db" by (rule ensure_grant_schema_current)
  moreover have "effective_grants_schema_current db"
    using assms(2) by (simp add: authorization_decision_schema_current_def effective_grants_schema_current_def)
  ultimately show ?thesis
    using assms(2) evaluate_allowed_iff [OF assms(1), of now actor p cap res intent]
    by (simp add: explain_authorization_def evaluate_authorization_def evaluate_read_authorization_def
        authorize_def)
qed

theorem authorization_refines_policy_witness:
  "policy_allows 50 sample_policy_board (sample_principal ''u2'') ''ada'' ''post_message'' (Some ''lab'') (Some ''i1'')"
  using authorization_refines_policy [OF sample_policy_wf(2) sample_policy_schema(1), of 50 "sample_principal ''u2''"
      "''ada''" "''post_message''" "Some ''lab''" "Some ''i1''"]
  by (auto simp: evaluate_authorization_def explain_authorization_def sample_policy_schema sample_delegated_decision)

text \<open>An allowed decision names real evidence: the participant exists and is active, and the decision
  cites a durable grant in scope whose resource covers the request, or the implicit-authority reason
  (only when no durable grant is in scope), or an applicable delegated grant, which it asks to consume
  exactly if that grant is one-shot and unused.\<close>

theorem allowed_decision_cites_evidence:
  assumes "consumption_wf db" and "d = evaluate_authorization_current_schema now db actor p cap res intent"
    and "ad_allowed d"
  shows "(\<exists>row. participant_policy_row db p = Some row \<and> pp_status row = ''active'') \<and>
    ((ad_source d = ''principal_grants'' \<and> ad_consume_grant_id d = None \<and>
       (\<exists>g \<in> set (principal_grants db). ad_grant_id d = Some (g_id g) \<and> durable_in_scope actor p cap g \<and>
          (g_resource g = None \<or> (res \<noteq> None \<and> g_resource g = res)))) \<or>
     (ad_source d = ''implicit_authority'' \<and> ad_grant_id d = None \<and> ad_consume_grant_id d = None \<and>
       (\<forall>g \<in> set (principal_grants db). \<not> durable_in_scope actor p cap g) \<and>
       (\<exists>row. participant_policy_row db p = Some row \<and>
          implicit_authority_reason actor p cap res row = Some (ad_reason d))) \<or>
     (ad_source d = ''delegated_grants'' \<and>
       (\<exists>i. intent = Some i \<and> (\<exists>g \<in> set (delegated_grants db). ad_grant_id d = Some (d_id g) \<and>
          delegated_in_scope actor p cap g \<and> delegated_applies now res i g \<and>
          ad_consume_grant_id d = (if d_one_shot g \<noteq> 0 \<and> d_consumed_at g = None then Some (d_id g) else None)))))"
  (is "?active \<and> (?durable \<or> ?implicit \<or> ?delegated)")
proof
  show ?active using allowed_participant_active assms(2,3) by blast
  show "?durable \<or> ?implicit \<or> ?delegated"
  proof (rule evaluate_evidence [OF assms(2,3)])
    fix i g
    assume g: "intent = Some i" "g \<in> set (delegated_grants db)" "delegated_in_scope actor p cap g"
      "delegated_denial now res i g = None" "d = delegated_verdict db p i g"
    then have "delegated_applies now res i g"
      using assms(1) delegated_denial_iff [of g now res i] by (simp add: consumption_wf_def)
    with g have ?delegated by (auto simp: delegated_verdict_simps)
    then show ?thesis by blast
  qed (auto simp: sql_resource_match_def)
qed

theorem allowed_decision_cites_evidence_witness:
  "\<exists>g \<in> set (delegated_grants sample_policy_board). d_id g = 1 \<and> delegated_applies 50 (Some ''lab'') ''i1'' g"
proof -
  from allowed_decision_cites_evidence [OF sample_policy_wf(2) sample_delegated_decision [symmetric]]
  show ?thesis by auto
qed

text \<open>Administrative authority is never implied by an HMAC credential or by ownership: an implicitly
  allowed request for anything beyond reading, posting, replying and the participant's own receipts and
  audits is a human web session of that very participant, whose role is admin.\<close>

theorem implicit_admin_is_human_admin:
  assumes "d = evaluate_authorization_current_schema now db actor p cap res intent" and "ad_allowed d"
    and "ad_source d = ''implicit_authority''"
  shows "(cap \<in> {''read_messages'', ''post_message'', ''reply'', ''read_execution_receipt'', ''read_execution_audit''} \<and>
      (provider actor = ''github'' \<or> provider actor \<in> {''participant-hmac'', ''human-web''} \<and> subject actor = p)) \<or>
    (provider actor = ''human-web'' \<and> subject actor = p \<and> is_known_capability cap \<and>
      (\<exists>r \<in> set (web_participants db). p_participant_id r = p \<and> p_role r = ''admin'' \<and> p_status r = ''active'') \<and>
      (cap = ''manage_channels'' \<or> res = implicit_resource cap))"
proof (rule evaluate_evidence [OF assms(1,2)])
  fix row
  assume row: "participant_policy_row db p = Some row"
    and reason: "implicit_authority_reason actor p cap res row = Some (ad_reason d)"
  have act: "pp_status row = ''active''"
    using allowed_participant_active assms(1,2) row by fastforce
  obtain r where r: "r \<in> set (web_participants db)" "p_participant_id r = p" "p_role r = pp_role row"
      "p_status r = pp_status row"
    using row by (auto simp: participant_policy_row_def dest: find_SomeD)
  have "(cap \<in> {''read_messages'', ''post_message'', ''reply'', ''read_execution_receipt'', ''read_execution_audit''} \<and>
      (provider actor = ''github'' \<or> provider actor \<in> {''participant-hmac'', ''human-web''} \<and> subject actor = p)) \<or>
    (provider actor = ''human-web'' \<and> subject actor = p \<and> is_known_capability cap \<and> pp_role row = ''admin'' \<and>
      (cap = ''manage_channels'' \<or> res = implicit_resource cap))"
    using reason unfolding implicit_authority_reason_def Let_def
    by (simp add: is_known_capability_def KNOWN_CAPABILITIES_def implicit_resource_def capability_names
        resource_names split: if_splits) (elim disjE; simp)+
  with r act show ?thesis by metis
qed (use assms(3) in \<open>auto simp: delegated_verdict_simps\<close>)

theorem implicit_admin_is_human_admin_witness:
  "\<exists>r \<in> set (web_participants (sample_policy_board\<lparr>web_participants :=
       [(new_participant 5 ''ada'' ''human'' None)\<lparr>p_role := ''admin''\<rparr>]\<rparr>)).
     p_participant_id r = ''ada'' \<and> p_role r = ''admin'' \<and> p_status r = ''active''"
proof -
  let ?db = "sample_policy_board\<lparr>web_participants := [(new_participant 5 ''ada'' ''human'' None)\<lparr>p_role := ''admin''\<rparr>]\<rparr>"
  let ?a = "\<lparr>provider = ''human-web'', subject = ''ada''\<rparr>"
  have "evaluate_authorization_current_schema 50 ?db ?a ''ada'' ''manage_channels'' None None =
      allow ''implicit_authority'' ''implicit_human_web_admin'' None None"
    by (simp add: evaluate_authorization_current_schema_def participant_policy_row_def sql_count_def
        durable_in_scope_def implicit_authority_reason_def capability_names sample_policy_defs)
  from implicit_admin_is_human_admin [OF this [symmetric]] show ?thesis by simp
qed

text \<open>A decision that asks for consumption can be honoured, and honouring it uses the grant up: consuming
  the named grant succeeds and changes nothing but that grant, and afterwards no other intent can be
  allowed by it.\<close>

theorem consume_follows_decision:
  assumes "grants_wf db" and "d = evaluate_authorization_current_schema now db actor p cap res (Some i)"
    and "ad_consume_grant_id d = Some k"
  shows "\<exists>db'. consume_delegated_grant_in_tx now' k i db = (Inr (), db') \<and>
    db' = db\<lparr>delegated_grants := delegated_grants db'\<rparr> \<and> grants_wf db' \<and>
    (\<forall>g \<in> set (delegated_grants db'). d_id g \<noteq> k \<longrightarrow> g \<in> set (delegated_grants db)) \<and>
    (\<exists>g \<in> set (delegated_grants db'). d_id g = k \<and> d_consumed_intent_id g = Some i) \<and>
    (\<forall>j t r. j \<noteq> i \<longrightarrow> \<not> (\<exists>g \<in> set (delegated_grants db'). d_id g = k \<and> delegated_applies t r j g))"
proof -
  obtain g where g: "g \<in> set (delegated_grants db)" "d_id g = k" "d_one_shot g = 1" "d_consumed_at g = None"
      "d_status g = ''active''"
    and count: "sql_count (\<lambda>g. d_id g = k \<and> d_status g = ''active'' \<and> d_one_shot g = 1 \<and> d_consumed_at g = None)
      (delegated_grants db) = 1"
    by (rule consume_decided [OF assms(1) assms(3) [unfolded assms(2)]]) blast
  let ?hit = "\<lambda>g. d_id g = k \<and> d_status g = ''active'' \<and> d_one_shot g = 1 \<and> d_consumed_at g = None"
  let ?f = "\<lambda>g. g\<lparr>d_consumed_at := Some now', d_consumed_intent_id := Some i, d_updated_at := now'\<rparr>"
  let ?db = "db\<lparr>delegated_grants := sql_update ?hit ?f (delegated_grants db)\<rparr>"
  have c: "consume_delegated_grant_in_tx now' k i db = (Inr (), ?db)"
    using count by (simp add: consume_delegated_grant_in_tx_def Let_def)
  have only: "x = ?f g" if x: "x \<in> set (delegated_grants ?db)" and xk: "d_id x = k" for x
  proof -
    obtain y where y: "y \<in> set (delegated_grants db)" "x = (if ?hit y then ?f y else y)"
      using x by (auto simp: set_sql_update)
    have "distinct (map d_id (delegated_grants db))" using assms(1) by (simp add: grants_wf_def)
    then have "y = g" using distinct_key_eq [of d_id "delegated_grants db" y g] y g xk by (auto split: if_splits)
    then show "x = ?f g" using y g by simp
  qed
  have wf: "grants_wf ?db" using assms(1) by (rule grants_wf_update_delegated) simp_all
  have mem: "?f g \<in> set (delegated_grants ?db)"
    using g by (auto simp: set_sql_update intro!: bexI [of _ g])
  have keep: "x \<in> set (delegated_grants db)" if x: "x \<in> set (delegated_grants ?db)" and xk: "d_id x \<noteq> k" for x
    using x xk by (auto simp: set_sql_update split: if_splits)
  have gone: "\<not> delegated_applies t r j x" if "x \<in> set (delegated_grants ?db)" "d_id x = k" "j \<noteq> i" for x t r j
    using only [OF that(1,2)] that(3) g(3) by (simp add: delegated_applies_def)
  have f: "d_id (?f g) = k" "d_consumed_intent_id (?f g) = Some i" using g(2) by simp_all
  have eq: "?db = db\<lparr>delegated_grants := delegated_grants ?db\<rparr>" by simp
  show ?thesis
    using c eq wf keep mem f gone by (intro exI [of _ ?db]) blast
qed

theorem consume_follows_decision_witness:
  "\<exists>db'. consume_delegated_grant_in_tx 60 1 ''i1'' sample_policy_board = (Inr (), db') \<and>
    (\<exists>g \<in> set (delegated_grants db'). d_id g = 1 \<and> d_consumed_intent_id g = Some ''i1'')"
proof -
  from consume_follows_decision [OF sample_policy_wf(1) sample_delegated_decision [symmetric], of 1 60]
  show ?thesis by auto
qed

end
