(* ===== verification/Policy_Audit.thy ===== *)
theory Policy_Audit
  imports Authorization
begin

text \<open>
  Reading the policy: the integrity audit reports exactly the ill-formed policies, the effective grants
  listed for a principal are ones the evaluation honours, the grant windows show the whole of each
  store, and the normal form of an explained decision target is stable.
\<close>

section \<open>The integrity audit\<close>

lemma push_if_Nil [simp]: "push_if b v = [] \<longleftrightarrow> \<not> b"
  by (simp add: push_if_def)

lemma audit_text_Nil [simp]: "audit_required_text store i p kind v = [] \<longleftrightarrow> \<not> malformed_text v"
  by (simp add: audit_required_text_def)

definition texts_ok :: "string list \<Rightarrow> bool" where
  "texts_ok ts \<longleftrightarrow> (\<forall>t \<in> set ts. \<not> malformed_text t)"

definition durable_ok :: "string set \<Rightarrow> durable_grant \<Rightarrow> bool" where
  "durable_ok participants g \<longleftrightarrow>
     texts_ok ([g_principal_provider g, g_principal_subject g, g_participant_id g, g_capability g] @
       (case g_resource g of Some r \<Rightarrow> [r] | None \<Rightarrow> [])) \<and>
     g_participant_id g \<in> participants \<and> is_known_capability (g_capability g) \<and> status_ok (g_status g)"

definition delegated_ok :: "string set \<Rightarrow> delegated_grant \<Rightarrow> bool" where
  "delegated_ok participants g \<longleftrightarrow>
     texts_ok ([d_principal_provider g, d_principal_subject g, d_participant_id g, d_capability g] @
       (case d_resource g of Some r \<Rightarrow> [r] | None \<Rightarrow> []) @ (case d_intent_id g of Some i \<Rightarrow> [i] | None \<Rightarrow> [])) \<and>
     d_participant_id g \<in> participants \<and> is_known_capability (d_capability g) \<and> status_ok (d_status g) \<and>
     d_one_shot g \<in> {0, 1}"

lemma durable_violations_Nil: "durable_grant_violations ps g = [] \<longleftrightarrow> durable_ok ps g"
  unfolding durable_grant_violations_def durable_ok_def texts_ok_def Let_def status_ok_def
  by (cases "g_resource g") simp_all

lemma delegated_violations_Nil: "delegated_grant_violations db ps g = [] \<longleftrightarrow> delegated_ok ps g"
  unfolding delegated_grant_violations_def delegated_ok_def texts_ok_def Let_def status_ok_def
  by (cases "d_resource g"; cases "d_intent_id g") simp_all

lemma consumption_violations_Nil:
  "d_one_shot g \<in> {0, 1} \<Longrightarrow> consumption_violations db g = [] \<longleftrightarrow>
     (d_consumed_at g = None \<longleftrightarrow> d_consumed_intent_id g = None) \<and>
     (\<forall>i. d_consumed_intent_id g = Some i \<longrightarrow> d_one_shot g = 1 \<and>
        committed_receipt_exists db (d_participant_id g) i \<and> (d_intent_id g \<noteq> None \<longrightarrow> d_intent_id g = Some i))"
  unfolding consumption_violations_def Let_def
  by (cases "d_intent_id g"; cases "d_consumed_intent_id g"; cases "d_consumed_at g") auto

lemma scope_count: "length (filter (\<lambda>g. k g = v) rows) = count_list (map k rows) v"
  by (induction rows) auto

lemma distinct_count: "distinct xs \<longleftrightarrow> (\<forall>x \<in> set xs. \<not> 1 < count_list xs x)"
proof (induction xs)
  case (Cons x xs)
  have "0 < count_list xs x \<longleftrightarrow> x \<in> set xs"
    by (metis count_list_0_iff gr0I not_less_zero)
  then show ?case using Cons by auto
qed simp

lemma duplicates_Nil: "duplicate_scope_violations rows = [] \<longleftrightarrow> distinct (map scope_of rows)"
  by (auto simp: duplicate_scope_violations_def filter_empty_conv scope_count distinct_count)

text \<open>The integrity audit is exact: it reports a valid policy if and only if every grant has non-blank
  texts free of control characters, an existing participant, a known capability and a legal status, no
  two durable grants have the same scope, and consumption is recorded consistently (only on one-shot
  grants, with a committed receipt of the consuming intent).\<close>

theorem integrity_audit_valid_iff:
  assumes "authorization_integrity_schema_current db"
  shows "\<exists>report. audit_authorization_integrity db = Inr report \<and>
    ir_durable_grants_scanned report = length (principal_grants db) \<and>
    ir_delegated_grants_scanned report = length (delegated_grants db) \<and>
    ir_valid report = (ir_violations report = []) \<and>
    (ir_valid report \<longleftrightarrow>
      (\<forall>g \<in> set (principal_grants db). durable_ok (p_participant_id ` set (web_participants db)) g) \<and>
      (\<forall>g \<in> set (delegated_grants db). delegated_ok (p_participant_id ` set (web_participants db)) g) \<and>
      distinct (map scope_of (principal_grants db)) \<and> consumption_wf db)"
proof -
  let ?ps = "p_participant_id ` set (web_participants db)"
  let ?rows = "sort_key g_id (principal_grants db)"
  have dist: "distinct (map scope_of ?rows) = distinct (map scope_of (principal_grants db))"
    by (metis mset_map mset_sort mset_eq_imp_distinct_iff)
  have cons: "(\<forall>g \<in> set (delegated_grants db). delegated_ok ?ps g \<and> consumption_violations db g = []) \<longleftrightarrow>
      (\<forall>g \<in> set (delegated_grants db). delegated_ok ?ps g) \<and> consumption_wf db"
    using consumption_violations_Nil [of _ db] unfolding consumption_wf_def delegated_ok_def by blast
  show ?thesis
    unfolding audit_authorization_integrity_def Let_def
    using assms dist cons
    by (simp add: sort_key_Nil_iff durable_violations_Nil delegated_violations_Nil duplicates_Nil ball_conj_distrib)
      blast
qed

theorem integrity_audit_valid_iff_witness:
  "\<exists>report. audit_authorization_integrity sample_policy_board = Inr report \<and> ir_valid report"
proof -
  have g: "trim ''github'' = ''github''" "trim ''ada'' = ''ada''" "trim ''u1'' = ''u1''" "trim ''u2'' = ''u2''"
    "trim ''lab'' = ''lab''" "trim ''post_message'' = ''post_message''"
    by (rule trim_graphic, simp add: graphic_def ascii_simps)+
  have "\<forall>t \<in> {''github'', ''ada'', ''u1'', ''u2'', ''lab'', ''post_message''}. \<not> has_control t"
    by (simp add: ascii_control_def ascii_simps)
  then have ok: "\<forall>t \<in> {''github'', ''ada'', ''u1'', ''u2'', ''lab'', ''post_message''}. \<not> malformed_text t"
    using g by (simp add: malformed_text_def)
  have k: "is_known_capability ''post_message''"
    by (simp add: is_known_capability_def KNOWN_CAPABILITIES_def capability_names)
  have p: "p_participant_id ` set (web_participants sample_policy_board) = {''ada''}"
    by (simp add: sample_policy_defs)
  have "durable_ok {''ada''} sample_durable" "delegated_ok {''ada''} sample_delegated"
    using ok k by (simp_all add: durable_ok_def delegated_ok_def texts_ok_def status_ok_def sample_durable_def
        sample_delegated_def)
  moreover have "principal_grants sample_policy_board = [sample_durable]"
    "delegated_grants sample_policy_board = [sample_delegated]"
    by (simp_all add: sample_policy_board_def empty_board_def)
  ultimately show ?thesis
    using integrity_audit_valid_iff [OF sample_policy_schema(3)] sample_policy_wf(2) p by auto
qed

section \<open>Effective grants\<close>

lemma explicit_effective_mem:
  "e \<in> set (explicit_effective_grants db actor p) \<longleftrightarrow>
   (\<exists>g \<in> set (principal_grants db). durable_in_scope actor p (eg_capability e) g \<and>
      e = \<lparr>eg_capability = g_capability g, eg_resource = g_resource g, eg_origin = ''explicit''\<rparr>)"
  by (auto simp: explicit_effective_grants_def durable_in_scope_def)

lemma durable_grant_allows:
  assumes "participant_policy_row db p = Some row" and "pp_status row = ''active''"
    and "g \<in> set (principal_grants db)" and "durable_in_scope actor p cap g"
    and "sql_resource_match res (g_resource g)"
  shows "ad_allowed (evaluate_authorization_current_schema now db actor p cap res intent)"
proof -
  obtain i where "explicit_match db actor p cap res = Some i"
    using explicit_match_iff [of db actor p cap res] assms(3-5) by blast
  then show ?thesis using assms(1-4) by (auto simp: evaluate_cases)
qed

text \<open>Every effective grant listed for a principal is honoured: reading with that capability is allowed on
  the listed resource (on every resource when none is listed explicitly), and each is either a durable
  grant of the principal or implicit authority that no durable grant restricts.\<close>

theorem effective_grants_sound:
  assumes "effective_grants now db actor p = Inr gs" and "e \<in> set gs"
    and "res = eg_resource e \<or> eg_origin e = ''explicit'' \<and> eg_resource e = None"
  shows "\<exists>d. evaluate_read_authorization now db actor p (eg_capability e) res = Inr d \<and> ad_allowed d \<and>
    (eg_origin e = ''explicit'' \<longrightarrow> ad_source d = ''principal_grants'') \<and>
    (eg_origin e \<noteq> ''explicit'' \<longrightarrow> ad_source d = ''implicit_authority'')"
proof -
  let ?eval = "\<lambda>c r. evaluate_authorization_current_schema now db actor p c r None"
  have sch: "effective_grants_schema_current db"
    using assms(1) by (auto simp: effective_grants_def split: if_splits)
  obtain row where row: "participant_policy_row db p = Some row" "pp_status row = ''active''"
    and gs: "gs = sort_key (\<lambda>e. (eg_capability e, eg_resource e)) (explicit_effective_grants db actor p @
      map (\<lambda>c. \<lparr>eg_capability = c, eg_resource = implicit_resource c, eg_origin = ''implicit''\<rparr>)
        (filter (\<lambda>c. \<not> (\<exists>e \<in> set (explicit_effective_grants db actor p). eg_capability e = c) \<and>
          ad_allowed (?eval c (implicit_resource c))) KNOWN_CAPABILITIES))"
    using assms(1,2) unfolding effective_grants_def Let_def by (auto split: if_splits option.splits)
  from assms(2) gs consider (explicit) "e \<in> set (explicit_effective_grants db actor p)"
    | (implicit) "eg_origin e = ''implicit''" "eg_resource e = implicit_resource (eg_capability e)"
        "\<not> (\<exists>x \<in> set (explicit_effective_grants db actor p). eg_capability x = eg_capability e)"
        "ad_allowed (?eval (eg_capability e) (eg_resource e))"
    by auto
  then show ?thesis
  proof cases
    case explicit
    then obtain g where g: "g \<in> set (principal_grants db)" "durable_in_scope actor p (eg_capability e) g"
        "e = \<lparr>eg_capability = g_capability g, eg_resource = g_resource g, eg_origin = ''explicit''\<rparr>"
      using explicit_effective_mem by blast
    have "sql_resource_match res (g_resource g)"
      using assms(3) g(3) by (cases "g_resource g") (auto simp: sql_resource_match_def)
    then obtain i where "explicit_match db actor p (eg_capability e) res = Some i"
      using explicit_match_iff [of db actor p "eg_capability e" res] g by blast
    then have "?eval (eg_capability e) res = allow ''principal_grants'' ''explicit_durable_grant_match'' (Some i) None"
      using row g(1,2) by (auto simp: evaluate_cases)
    then show ?thesis using sch g(3) by (simp add: evaluate_read_authorization_def)
  next
    case implicit
    then have res: "res = eg_resource e" using assms(3) by auto
    have none: "\<forall>g \<in> set (principal_grants db). \<not> durable_in_scope actor p (eg_capability e) g"
    proof
      fix g assume g: "g \<in> set (principal_grants db)"
      show "\<not> durable_in_scope actor p (eg_capability e) g"
      proof
        assume s: "durable_in_scope actor p (eg_capability e) g"
        then have "\<lparr>eg_capability = g_capability g, eg_resource = g_resource g, eg_origin = ''explicit''\<rparr>
            \<in> set (explicit_effective_grants db actor p)" and "g_capability g = eg_capability e"
          unfolding explicit_effective_mem using g by (auto simp: durable_in_scope_def)
        with implicit(3) show False by force
      qed
    qed
    have "ad_source (?eval (eg_capability e) res) = ''implicit_authority''"
      using implicit(4) res row none unfolding evaluate_cases by (auto split: option.splits if_splits)
    then show ?thesis using sch implicit(1,4) res by (simp add: evaluate_read_authorization_def)
  qed
qed

theorem effective_grants_sound_witness:
  "\<exists>d. evaluate_read_authorization 50 sample_policy_board (sample_principal ''u1'') ''ada'' ''post_message''
     (Some ''lab'') = Inr d \<and> ad_allowed d"
proof -
  let ?e = "\<lparr>eg_capability = ''post_message'', eg_resource = Some ''lab'', eg_origin = ''explicit''\<rparr>"
  have m: "?e \<in> set (explicit_effective_grants sample_policy_board (sample_principal ''u1'') ''ada'')"
    unfolding explicit_effective_mem by (simp add: durable_in_scope_def sample_policy_defs)
  have "participant_policy_row sample_policy_board ''ada'' =
      Some \<lparr>pp_status = ''active'', pp_role = ''user'', pp_owner_provider = None, pp_owner_subject = None\<rparr>"
    by (simp add: participant_policy_row_def sample_policy_defs)
  then obtain gs where gs: "effective_grants 50 sample_policy_board (sample_principal ''u1'') ''ada'' = Inr gs"
      "?e \<in> set gs"
    using m by (simp add: effective_grants_def sample_policy_schema Let_def)
  from effective_grants_sound [OF gs, of "Some ''lab''"] show ?thesis by auto
qed

section \<open>Policy windows\<close>

text \<open>The policy windows show the whole policy: for each store and order and every window size the surface
  accepts, reading on with the last id as the cursor until \<open>has_more\<close> is false returns every grant of
  the store exactly once in id order, and each window answered by the surface is one of these pages.\<close>

theorem policy_windows_complete:
  assumes "grants_wf db" and "authorization_policy_snapshot_schema_current db"
    and "1 \<le> n" and "n \<le> 200" and "\<forall>c. cursor = Some c \<longrightarrow> 0 < c"
  shows "drain (Suc (length (principal_grants db))) (durable_page Asc db n) g_id None =
      Some (sort_key g_id (principal_grants db)) \<and>
    drain (Suc (length (principal_grants db))) (durable_page Desc db n) g_id None =
      Some (rev (sort_key g_id (principal_grants db))) \<and>
    drain (Suc (length (delegated_grants db))) (delegated_page Asc db n) ds_id None =
      Some (map delegated_snapshot (sort_key d_id (delegated_grants db))) \<and>
    drain (Suc (length (delegated_grants db))) (delegated_page Desc db n) ds_id None =
      Some (map delegated_snapshot (rev (sort_key d_id (delegated_grants db)))) \<and>
    (\<exists>w. read_authorization_policy_window db (window_request Durable order n cursor) = Inr w \<and>
      (pw_durable_grants w, pw_has_more w) = durable_page order db n cursor) \<and>
    (\<exists>w. read_authorization_policy_window db (window_request Delegated order n cursor) = Inr w \<and>
      (pw_delegated_grants w, pw_has_more w) = delegated_page order db n cursor)"
proof -
  have n: "0 < n" and m: "n \<le> MAX_AUTHORIZATION_POLICY_WINDOW_SIZE"
    using assms(3,4) by (simp_all add: MAX_AUTHORIZATION_POLICY_WINDOW_SIZE_def)
  note pages = read_window_pages [OF assms(2,3) m assms(5)]
  show ?thesis
    by (intro conjI durable_asc.drain_all durable_desc.drain_all delegated_asc.drain_all
        delegated_desc.drain_all assms(1) n) (simp_all add: pages)
qed

theorem policy_windows_complete_witness:
  "drain 2 (durable_page Asc sample_policy_board 20) g_id None = Some [sample_durable]"
proof -
  have "length (principal_grants sample_policy_board) = 1"
    "sort_key g_id (principal_grants sample_policy_board) = [sample_durable]"
    by (simp_all add: sample_policy_board_def empty_board_def)
  then show ?thesis
    using policy_windows_complete [OF sample_policy_wf(1) sample_policy_schema(2), of 20 None]
    by (simp add: numeral_2_eq_2 del: drain.simps)
qed

section \<open>Decision targets\<close>

lemma normalize_text_Some:
  "normalize_text n s = Some t \<Longrightarrow> t = trim s \<and> t \<noteq> [] \<and> length t \<le> n \<and> \<not> has_control t"
  by (auto simp: normalize_text_def Let_def split: if_splits)

lemma normalize_text_idem: "normalize_text n s = Some t \<Longrightarrow> normalize_text n t = Some t"
  by (auto simp: normalize_text_def Let_def split: if_splits)

lemma normalize_intent_id_text: "normalize_intent_id = normalize_text 256"
  by (rule ext) (auto simp: normalize_intent_id_def normalize_text_def MAX_INTENT_ID_BYTES_def Let_def)

lemma transpose_opt_Inr:
  "transpose_opt e f x = Inr y \<longleftrightarrow> (x = None \<and> y = None) \<or> (\<exists>v w. x = Some v \<and> f v = Some w \<and> y = Some w)"
  by (auto simp: transpose_opt_def split: option.splits)

text \<open>An accepted decision target is in normal form: its texts are trimmed, non-blank, within their byte
  limits and free of control characters, its capability is known, and normalizing it again returns it
  unchanged.\<close>

theorem decision_target_normal_form:
  assumes "normalize_authorization_decision_target pp ps p cap res intent = Inr t"
  shows "normalize_authorization_decision_target (provider (dt_principal t)) (subject (dt_principal t))
      (dt_participant_id t) (dt_capability t) (dt_resource t) (dt_intent_id t) = Inr t \<and>
    is_known_capability (dt_capability t) \<and> dt_participant_id t = trim p \<and>
    (\<forall>s \<in> {provider (dt_principal t), subject (dt_principal t), dt_participant_id t, dt_capability t} \<union>
        set_option (dt_resource t) \<union> set_option (dt_intent_id t).
      s \<noteq> [] \<and> trim s = s \<and> length s \<le> 256 \<and> \<not> has_control s)"
proof -
  obtain pp' ps' p' cap' res' intent' where n: "normalize_text 256 pp = Some pp'" "normalize_text 256 ps = Some ps'"
      "validate_participant_id p = Some p'" "normalize_text 128 cap = Some cap'" "is_known_capability cap'"
      "transpose_opt ''invalid_resource'' (normalize_text 256) res = Inr res'"
      "transpose_opt ''invalid_intent_id'' normalize_intent_id intent = Inr intent'"
    and t: "t = \<lparr>dt_principal = \<lparr>provider = pp', subject = ps'\<rparr>, dt_participant_id = p', dt_capability = cap',
      dt_resource = res', dt_intent_id = intent'\<rparr>"
    using assms unfolding normalize_authorization_decision_target_def
    by (auto split: option.splits if_splits sum.splits)
  have again: "transpose_opt e (normalize_text 256) r' = Inr r'" if "transpose_opt e (normalize_text 256) r = Inr r'"
    for e r r' using that normalize_text_idem by (auto simp: transpose_opt_Inr)
  have "normalize_authorization_decision_target pp' ps' p' cap' res' intent' = Inr t"
    using n again [OF n(6)] again [OF n(7) [unfolded normalize_intent_id_text]] t
    unfolding normalize_authorization_decision_target_def normalize_intent_id_text
    by (simp add: normalize_text_idem validate_participant_id_idem)
  moreover have "p' \<noteq> [] \<and> trim p' = p' \<and> length p' \<le> 256 \<and> \<not> has_control p'"
    using validate_participant_id_trim [OF n(3)] validate_participant_id_graphic [OF n(3)]
      name_shape_length [of "''._:-''" 63 p'] by (auto simp: has_control_graphic)
  moreover have "s \<noteq> [] \<and> trim s = s \<and> length s \<le> 256 \<and> \<not> has_control s" if "normalize_text k v = Some s" "k \<le> 256"
    for k v s using normalize_text_Some [OF that(1)] that(2) by auto
  moreover have "\<exists>v. normalize_text 256 v = Some s" if "s \<in> set_option res' \<union> set_option intent'" for s
    using that n(6,7) unfolding normalize_intent_id_text by (auto simp: transpose_opt_Inr)
  ultimately show ?thesis
    using n(1,2,4,5) validate_participant_id_trim [OF n(3)] unfolding t by fastforce
qed

theorem decision_target_normal_form_witness:
  "\<exists>t. normalize_authorization_decision_target '' github '' ''u1'' ''ada'' ''reply'' None (Some '' i1'') = Inr t \<and>
     provider (dt_principal t) = ''github'' \<and> dt_intent_id t = Some ''i1'' \<and>
     normalize_authorization_decision_target (provider (dt_principal t)) (subject (dt_principal t))
       (dt_participant_id t) (dt_capability t) (dt_resource t) (dt_intent_id t) = Inr t"
proof -
  let ?t = "\<lparr>dt_principal = \<lparr>provider = ''github'', subject = ''u1''\<rparr>, dt_participant_id = ''ada'',
     dt_capability = ''reply'', dt_resource = None, dt_intent_id = Some ''i1''\<rparr>"
  have "normalize_text 256 '' github '' = Some ''github''" "normalize_text 256 ''u1'' = Some ''u1''"
    "normalize_text 128 ''reply'' = Some ''reply''" "normalize_text 256 '' i1'' = Some ''i1''"
    "validate_participant_id ''ada'' = Some ''ada''" "is_known_capability ''reply''"
    by code_simp+
  then have "normalize_authorization_decision_target '' github '' ''u1'' ''ada'' ''reply'' None (Some '' i1'') = Inr ?t"
    by (simp add: normalize_authorization_decision_target_def transpose_opt_def normalize_intent_id_text)
  from this decision_target_normal_form [OF this] show ?thesis by (intro exI [of _ ?t]) simp
qed

end
