(* ===== verification/Authorization_Admin.thy ===== *)
theory Authorization_Admin
  imports Policy_Audit
begin

text \<open>
  Administration of the authorization policy (\<open>authorization_admin.rs\<close>): creating, reactivating and
  deactivating durable and delegated grants, each under a transaction that also records an
  administration event, with variants that first require the caller to hold
  \<open>manage_authorization_policy\<close>, and the bounded windows over the recorded history.

  What the four operations share is the locale \<open>admin_operation\<close>: they keep the policy well formed,
  change nothing but grants and events, record what they change under the acting principal, and do
  nothing when they fail.  Each is an interpretation; the authorized variants and the replay of the
  history rest on it.
\<close>

section \<open>Types\<close>

datatype admin_error = AdminError string | AdminSql sql_error

type_synonym 'a admin_result = "admin_error + 'a"

definition MAX_PROVIDER_BYTES :: nat where "MAX_PROVIDER_BYTES = 256"
definition MAX_SUBJECT_BYTES :: nat where "MAX_SUBJECT_BYTES = 256"
definition MAX_CAPABILITY_BYTES :: nat where "MAX_CAPABILITY_BYTES = 128"
definition MAX_RESOURCE_BYTES :: nat where "MAX_RESOURCE_BYTES = 256"
definition MAX_SURFACE_BYTES :: nat where "MAX_SURFACE_BYTES = 64"

definition DEFAULT_ADMINISTRATION_HISTORY_WINDOW_SIZE :: nat where
  "DEFAULT_ADMINISTRATION_HISTORY_WINDOW_SIZE = 20"

definition MAX_ADMINISTRATION_HISTORY_WINDOW_SIZE :: nat where
  "MAX_ADMINISTRATION_HISTORY_WINDOW_SIZE = 200"

record administration_actor =
  ac_surface :: string
  ac_principal :: "principal option"
  ac_participant_id :: "string option"

definition local_cli :: administration_actor where
  "local_cli = \<lparr>ac_surface = ''local-cli'', ac_principal = None, ac_participant_id = None\<rparr>"

record normalized_actor =
  na_surface :: string
  na_provider :: "string option"
  na_subject :: "string option"
  na_participant_id :: "string option"

record durable_create =
  dc_principal_provider :: string
  dc_principal_subject :: string
  dc_participant_id :: string
  dc_capability :: string
  dc_resource :: "string option"

record delegated_create =
  lc_principal_provider :: string
  lc_principal_subject :: string
  lc_participant_id :: string
  lc_capability :: string
  lc_resource :: "string option"
  lc_intent_id :: "string option"
  lc_expires_at :: "int option"
  lc_one_shot :: bool

datatype create_state = Created | Existing | Reactivated

record grant_scope =
  gs_principal_provider :: string
  gs_principal_subject :: string
  gs_participant_id :: string
  gs_capability :: string
  gs_resource :: "string option"
  gs_intent_id :: "string option"
  gs_expires_at :: "int option"
  gs_one_shot :: bool

section \<open>Normalization\<close>

definition normalize :: "string \<Rightarrow> nat \<Rightarrow> string \<Rightarrow> string admin_result" where
  "normalize value max_bytes field =
     (let value = trim value
      in if value = [] \<or> max_bytes < length value \<or> has_control value
         then Inl (AdminError (''invalid '' @ field)) else Inr value)"

definition normalize_optional :: "string option \<Rightarrow> nat \<Rightarrow> string \<Rightarrow> string option admin_result" where
  "normalize_optional value max_bytes field =
     (case value of None \<Rightarrow> Inr None
      | Some v \<Rightarrow> (case normalize v max_bytes field of Inl e \<Rightarrow> Inl e | Inr w \<Rightarrow> Inr (Some w)))"

text \<open>The \<open>?\<close> operator.\<close>

definition try_bind :: "'e + 'a \<Rightarrow> ('a \<Rightarrow> 'e + 'b) \<Rightarrow> 'e + 'b" where
  "try_bind r f = (case r of Inl e \<Rightarrow> Inl e | Inr x \<Rightarrow> f x)"

definition ok_or :: "'a option \<Rightarrow> 'e \<Rightarrow> 'e + 'a" where
  "ok_or x e = (case x of None \<Rightarrow> Inl e | Some v \<Rightarrow> Inr v)"

definition normalize_actor :: "administration_actor \<Rightarrow> normalized_actor admin_result" where
  "normalize_actor actor =
     try_bind (normalize (ac_surface actor) MAX_SURFACE_BYTES ''actor_surface'') (\<lambda>surface.
     try_bind (case ac_principal actor of
        Some pr \<Rightarrow>
          try_bind (normalize (provider pr) MAX_PROVIDER_BYTES ''actor_provider'') (\<lambda>provider'.
          try_bind (normalize (subject pr) MAX_SUBJECT_BYTES ''actor_subject'') (\<lambda>subject'.
            Inr (Some provider', Some subject')))
      | None \<Rightarrow> Inr (None, None)) (\<lambda>(provider', subject').
     try_bind (transpose_opt (AdminError ''invalid actor_participant_id'') validate_participant_id
        (ac_participant_id actor)) (\<lambda>participant_id.
     Inr \<lparr>na_surface = surface, na_provider = provider', na_subject = subject',
          na_participant_id = participant_id\<rparr>)))"

definition normalize_durable_grant_create_request :: "durable_create \<Rightarrow> durable_create admin_result" where
  "normalize_durable_grant_create_request request =
     try_bind (normalize (dc_principal_provider request) MAX_PROVIDER_BYTES ''principal_provider'') (\<lambda>provider'.
     try_bind (normalize (dc_principal_subject request) MAX_SUBJECT_BYTES ''principal_subject'') (\<lambda>subject'.
     try_bind (ok_or (validate_participant_id (dc_participant_id request)) (AdminError ''invalid participant_id''))
       (\<lambda>participant_id.
     try_bind (normalize (dc_capability request) MAX_CAPABILITY_BYTES ''capability'') (\<lambda>capability.
     if \<not> is_known_capability capability then Inl (AdminError (''unsupported capability: '' @ capability))
     else
     try_bind (normalize_optional (dc_resource request) MAX_RESOURCE_BYTES ''resource'') (\<lambda>resource.
     Inr \<lparr>dc_principal_provider = provider', dc_principal_subject = subject',
          dc_participant_id = participant_id, dc_capability = capability, dc_resource = resource\<rparr>)))))"

definition normalize_delegated_grant_create_request :: "delegated_create \<Rightarrow> delegated_create admin_result" where
  "normalize_delegated_grant_create_request request =
     try_bind (normalize (lc_principal_provider request) MAX_PROVIDER_BYTES ''principal_provider'') (\<lambda>provider'.
     try_bind (normalize (lc_principal_subject request) MAX_SUBJECT_BYTES ''principal_subject'') (\<lambda>subject'.
     try_bind (ok_or (validate_participant_id (lc_participant_id request)) (AdminError ''invalid participant_id''))
       (\<lambda>participant_id.
     try_bind (normalize (lc_capability request) MAX_CAPABILITY_BYTES ''capability'') (\<lambda>capability.
     try_bind (normalize_optional (lc_resource request) MAX_RESOURCE_BYTES ''resource'') (\<lambda>resource.
     try_bind (transpose_opt (AdminError ''invalid intent_id'') normalize_intent_id (lc_intent_id request))
       (\<lambda>intent_id.
     Inr \<lparr>lc_principal_provider = provider', lc_principal_subject = subject',
          lc_participant_id = participant_id, lc_capability = capability, lc_resource = resource,
          lc_intent_id = intent_id, lc_expires_at = lc_expires_at request,
          lc_one_shot = lc_one_shot request\<rparr>))))))"

section \<open>Schema\<close>

definition admin_event_columns :: "string list" where
  "admin_event_columns = [''id'', ''grant_store'', ''grant_id'', ''operation'', ''actor_surface'',
     ''actor_provider'', ''actor_subject'', ''actor_participant_id'', ''target_principal_provider'',
     ''target_principal_subject'', ''participant_id'', ''capability'', ''resource'', ''intent_id'',
     ''expires_at'', ''one_shot'', ''before_status'', ''after_status'', ''created_at'']"

definition migrate_schema :: "board \<Rightarrow> board" where
  "migrate_schema db =
     create_table_if_not_exists ''authorization_admin_events'' admin_event_columns (ensure_grant_schema db)"

definition schema_current :: "board \<Rightarrow> bool" where
  "schema_current db \<longleftrightarrow>
     authorization_policy_snapshot_schema_current db \<and>
     table_has_columns db ''delegated_grants'' [''updated_at''] \<and>
     table_has_columns db ''authorization_admin_events'' admin_event_columns"

definition require_schema_current :: "board \<Rightarrow> unit admin_result" where
  "require_schema_current db =
     (if \<not> schema_current db
      then Inl (AdminError ''authorization administration schema requires migration: run db init first'')
      else Inr ())"

section \<open>Recording\<close>

text \<open>\<open>INSERT INTO authorization_admin_events\<close>.\<close>

definition record_event ::
    "int \<Rightarrow> normalized_actor \<Rightarrow> string \<Rightarrow> int \<Rightarrow> string \<Rightarrow> grant_scope \<Rightarrow> string option \<Rightarrow> string
     \<Rightarrow> board \<Rightarrow> board" where
  "record_event now actor grant_store grant_id operation scope before_status after_status db =
     db\<lparr>authorization_admin_events := authorization_admin_events db @
       [\<lparr>e_id = next_rowid (map e_id (authorization_admin_events db)), e_grant_store = grant_store,
         e_grant_id = grant_id, e_operation = operation, e_actor_surface = na_surface actor,
         e_actor_provider = na_provider actor, e_actor_subject = na_subject actor,
         e_actor_participant_id = na_participant_id actor,
         e_target_principal_provider = gs_principal_provider scope,
         e_target_principal_subject = gs_principal_subject scope, e_participant_id = gs_participant_id scope,
         e_capability = gs_capability scope, e_resource = gs_resource scope, e_intent_id = gs_intent_id scope,
         e_expires_at = gs_expires_at scope, e_one_shot = (if gs_one_shot scope then 1 else 0),
         e_before_status = before_status, e_after_status = after_status, e_created_at = now\<rparr>]\<rparr>"

definition require_active_participant :: "board \<Rightarrow> string \<Rightarrow> unit admin_result" where
  "require_active_participant db participant_id =
     (case map_option p_status (find (\<lambda>r. p_participant_id r = participant_id) (web_participants db)) of
        Some status \<Rightarrow>
          if status = ''active'' then Inr ()
          else Inl (AdminError (''participant is not active: '' @ participant_id))
      | None \<Rightarrow> Inl (AdminError (''unknown participant: '' @ participant_id)))"

section \<open>Durable grants\<close>

definition durable_scope_hit :: "string \<Rightarrow> string \<Rightarrow> string \<Rightarrow> string \<Rightarrow> string option \<Rightarrow> durable_grant \<Rightarrow> bool" where
  "durable_scope_hit provider' subject' participant_id capability resource g \<longleftrightarrow>
     scope_of g = (provider', subject', participant_id, capability, resource)"

definition durable_request_scope :: "durable_create \<Rightarrow> grant_scope" where
  "durable_request_scope request =
     \<lparr>gs_principal_provider = dc_principal_provider request, gs_principal_subject = dc_principal_subject request,
      gs_participant_id = dc_participant_id request, gs_capability = dc_capability request,
      gs_resource = dc_resource request, gs_intent_id = None, gs_expires_at = None, gs_one_shot = False\<rparr>"

definition create_durable_grant_in_tx ::
    "int \<Rightarrow> normalized_actor \<Rightarrow> durable_create \<Rightarrow> board \<Rightarrow> (int \<times> create_state) admin_result \<times> board" where
  "create_durable_grant_in_tx now actor request db =
     (case require_active_participant db (dc_participant_id request) of
        Inl e \<Rightarrow> (Inl e, db)
      | Inr _ \<Rightarrow>
          (let rows = sort_key g_id (filter (durable_scope_hit (dc_principal_provider request)
                 (dc_principal_subject request) (dc_participant_id request) (dc_capability request)
                 (dc_resource request)) (principal_grants db));
               scope = durable_request_scope request
           in case find (\<lambda>g. g_status g = ''active'') rows of
                Some g \<Rightarrow> (Inr (g_id g, Existing), db)
              | None \<Rightarrow>
                  (case rows of
                     g # _ \<Rightarrow>
                       (let db1 = db\<lparr>principal_grants := sql_update (\<lambda>r. g_id r = g_id g)
                              (\<lambda>r. r\<lparr>g_status := ''active'', g_updated_at := now\<rparr>) (principal_grants db)\<rparr>;
                            db2 = record_event now actor ''durable'' (g_id g) ''reactivate'' scope
                              (Some ''inactive'') ''active'' db1
                        in (Inr (g_id g, Reactivated), db2))
                   | [] \<Rightarrow>
                       (let i = next_rowid (map g_id (principal_grants db));
                            db1 = db\<lparr>principal_grants := principal_grants db @
                              [\<lparr>g_id = i, g_principal_provider = dc_principal_provider request,
                                g_principal_subject = dc_principal_subject request,
                                g_participant_id = dc_participant_id request,
                                g_capability = dc_capability request, g_resource = dc_resource request,
                                g_status = ''active'', g_created_at = now, g_updated_at = now\<rparr>]\<rparr>;
                            db2 = record_event now actor ''durable'' i ''create'' scope None ''active'' db1
                        in (Inr (i, Created), db2)))))"

definition durable_row_scope :: "durable_grant \<Rightarrow> grant_scope" where
  "durable_row_scope g =
     \<lparr>gs_principal_provider = g_principal_provider g, gs_principal_subject = g_principal_subject g,
      gs_participant_id = g_participant_id g, gs_capability = g_capability g, gs_resource = g_resource g,
      gs_intent_id = None, gs_expires_at = None, gs_one_shot = False\<rparr>"

definition deactivate_durable_grant_in_tx ::
    "int \<Rightarrow> normalized_actor \<Rightarrow> int \<Rightarrow> board \<Rightarrow> nat option admin_result \<times> board" where
  "deactivate_durable_grant_in_tx now actor grant_id db =
     (if grant_id \<le> 0 then (Inl (AdminError ''grant_id must be positive''), db)
      else case find (\<lambda>g. g_id g = grant_id) (principal_grants db) of
             None \<Rightarrow> (Inr None, db)
           | Some g \<Rightarrow>
               (let hit = (\<lambda>r. durable_scope_hit (g_principal_provider g) (g_principal_subject g)
                      (g_participant_id g) (g_capability g) (g_resource g) r \<and> g_status r \<noteq> ''inactive'');
                    active_ids = map g_id (sort_key g_id (filter hit (principal_grants db)));
                    updated = sql_count hit (principal_grants db);
                    db1 = db\<lparr>principal_grants := sql_update hit
                      (\<lambda>r. r\<lparr>g_status := ''inactive'', g_updated_at := now\<rparr>) (principal_grants db)\<rparr>;
                    db2 = fold (\<lambda>i. record_event now actor ''durable'' i ''deactivate''
                      (durable_row_scope g) (Some ''active'') ''inactive'') active_ids db1
                in (Inr (Some updated), db2)))"

section \<open>Delegated grants\<close>

definition delegated_request_scope :: "delegated_create \<Rightarrow> grant_scope" where
  "delegated_request_scope request =
     \<lparr>gs_principal_provider = lc_principal_provider request, gs_principal_subject = lc_principal_subject request,
      gs_participant_id = lc_participant_id request, gs_capability = lc_capability request,
      gs_resource = lc_resource request, gs_intent_id = lc_intent_id request,
      gs_expires_at = lc_expires_at request, gs_one_shot = lc_one_shot request\<rparr>"

definition create_delegated_grant_in_tx ::
    "int \<Rightarrow> normalized_actor \<Rightarrow> delegated_create \<Rightarrow> board \<Rightarrow> int admin_result \<times> board" where
  "create_delegated_grant_in_tx now actor request db =
     (case require_active_participant db (lc_participant_id request) of
        Inl e \<Rightarrow> (Inl e, db)
      | Inr _ \<Rightarrow>
          (if (case lc_expires_at request of Some t \<Rightarrow> t \<le> now | None \<Rightarrow> False)
           then (Inl (AdminError ''expires_at must be a future Unix timestamp''), db)
           else
             (let i = next_rowid (map d_id (delegated_grants db));
                  db1 = db\<lparr>delegated_grants := delegated_grants db @
                    [\<lparr>d_id = i, d_principal_provider = lc_principal_provider request,
                      d_principal_subject = lc_principal_subject request,
                      d_participant_id = lc_participant_id request, d_capability = lc_capability request,
                      d_resource = lc_resource request, d_intent_id = lc_intent_id request,
                      d_expires_at = lc_expires_at request, d_one_shot = (if lc_one_shot request then 1 else 0),
                      d_consumed_at = None, d_consumed_intent_id = None, d_status = ''active'',
                      d_created_at = now, d_updated_at = now\<rparr>]\<rparr>;
                  db2 = record_event now actor ''delegated'' i ''create'' (delegated_request_scope request)
                    None ''active'' db1
              in (Inr i, db2))))"

definition delegated_row_scope :: "delegated_grant \<Rightarrow> grant_scope" where
  "delegated_row_scope g =
     \<lparr>gs_principal_provider = d_principal_provider g, gs_principal_subject = d_principal_subject g,
      gs_participant_id = d_participant_id g, gs_capability = d_capability g, gs_resource = d_resource g,
      gs_intent_id = d_intent_id g, gs_expires_at = d_expires_at g, gs_one_shot = (d_one_shot g \<noteq> 0)\<rparr>"

definition deactivate_delegated_grant_in_tx ::
    "int \<Rightarrow> normalized_actor \<Rightarrow> int \<Rightarrow> board \<Rightarrow> nat option admin_result \<times> board" where
  "deactivate_delegated_grant_in_tx now actor grant_id db =
     (if grant_id \<le> 0 then (Inl (AdminError ''grant_id must be positive''), db)
      else case find (\<lambda>g. d_id g = grant_id) (delegated_grants db) of
             None \<Rightarrow> (Inr None, db)
           | Some g \<Rightarrow>
               (let hit = (\<lambda>r. d_id r = grant_id \<and> d_status r \<noteq> ''inactive'');
                    updated = sql_count hit (delegated_grants db);
                    db1 = db\<lparr>delegated_grants := sql_update hit
                      (\<lambda>r. r\<lparr>d_status := ''inactive'', d_updated_at := now\<rparr>) (delegated_grants db)\<rparr>;
                    db2 = (if updated = 1
                      then record_event now actor ''delegated'' grant_id ''deactivate'' (delegated_row_scope g)
                        (Some (d_status g)) ''inactive'' db1
                      else db1)
                in (Inr (Some updated), db2)))"

section \<open>Transactions\<close>

text \<open>What the eight public operations share: the schema check, the normalized actor and request, the
  caller's authority for the authorized variants, and the transaction, which is rolled back on error.\<close>

definition commit :: "board \<Rightarrow> 'a admin_result \<times> board \<Rightarrow> 'a admin_result \<times> board" where
  "commit db r = (case fst r of Inl e \<Rightarrow> (Inl e, db) | Inr x \<Rightarrow> (Inr x, snd r))"

definition authorize_administration :: "int \<Rightarrow> board \<Rightarrow> principal \<Rightarrow> string \<Rightarrow> unit admin_result" where
  "authorize_administration now db caller caller_participant_id =
     (case explain_authorization now db caller caller_participant_id MANAGE_AUTHORIZATION_POLICY
             (Some AUTHORIZATION_POLICY_ADMIN_RESOURCE) None of
        Inl e \<Rightarrow> Inl (AdminSql e)
      | Inr decision \<Rightarrow> if \<not> ad_allowed decision then Inl (AdminError ''authorization denied'') else Inr ())"

definition administer ::
    "('q \<Rightarrow> 'r admin_result) \<Rightarrow> (int \<Rightarrow> normalized_actor \<Rightarrow> 'r \<Rightarrow> board \<Rightarrow> 'a admin_result \<times> board)
     \<Rightarrow> (board \<Rightarrow> unit admin_result) \<Rightarrow> int \<Rightarrow> administration_actor \<Rightarrow> 'q \<Rightarrow> board \<Rightarrow> 'a admin_result \<times> board" where
  "administer norm op authority now actor request db =
     (case require_schema_current db of
        Inl e \<Rightarrow> (Inl e, db)
      | Inr _ \<Rightarrow>
          (case normalize_actor actor of
             Inl e \<Rightarrow> (Inl e, db)
           | Inr actor \<Rightarrow>
               (case norm request of
                  Inl e \<Rightarrow> (Inl e, db)
                | Inr request \<Rightarrow>
                    (case authority db of
                       Inl e \<Rightarrow> (Inl e, db)
                     | Inr _ \<Rightarrow> commit db (op now actor request db)))))"

definition caller_actor :: "string \<Rightarrow> principal \<Rightarrow> string \<Rightarrow> administration_actor" where
  "caller_actor surface caller caller_participant_id =
     \<lparr>ac_surface = surface, ac_principal = Some caller, ac_participant_id = Some caller_participant_id\<rparr>"

definition create_durable_grant ::
    "int \<Rightarrow> administration_actor \<Rightarrow> durable_create \<Rightarrow> board \<Rightarrow> (int \<times> create_state) admin_result \<times> board" where
  "create_durable_grant =
     administer normalize_durable_grant_create_request create_durable_grant_in_tx (\<lambda>_. Inr ())"

definition create_durable_grant_authorized ::
    "int \<Rightarrow> string \<Rightarrow> principal \<Rightarrow> string \<Rightarrow> durable_create \<Rightarrow> board
     \<Rightarrow> (int \<times> create_state) admin_result \<times> board" where
  "create_durable_grant_authorized now surface caller caller_participant_id =
     administer normalize_durable_grant_create_request create_durable_grant_in_tx
       (\<lambda>db. authorize_administration now db caller caller_participant_id) now
       (caller_actor surface caller caller_participant_id)"

definition deactivate_durable_grant ::
    "int \<Rightarrow> administration_actor \<Rightarrow> int \<Rightarrow> board \<Rightarrow> nat option admin_result \<times> board" where
  "deactivate_durable_grant = administer Inr deactivate_durable_grant_in_tx (\<lambda>_. Inr ())"

definition deactivate_durable_grant_authorized ::
    "int \<Rightarrow> string \<Rightarrow> principal \<Rightarrow> string \<Rightarrow> int \<Rightarrow> board \<Rightarrow> nat option admin_result \<times> board" where
  "deactivate_durable_grant_authorized now surface caller caller_participant_id =
     administer Inr deactivate_durable_grant_in_tx
       (\<lambda>db. authorize_administration now db caller caller_participant_id) now
       (caller_actor surface caller caller_participant_id)"

definition create_delegated_grant ::
    "int \<Rightarrow> administration_actor \<Rightarrow> delegated_create \<Rightarrow> board \<Rightarrow> int admin_result \<times> board" where
  "create_delegated_grant =
     administer normalize_delegated_grant_create_request create_delegated_grant_in_tx (\<lambda>_. Inr ())"

definition create_delegated_grant_authorized ::
    "int \<Rightarrow> string \<Rightarrow> principal \<Rightarrow> string \<Rightarrow> delegated_create \<Rightarrow> board \<Rightarrow> int admin_result \<times> board" where
  "create_delegated_grant_authorized now surface caller caller_participant_id =
     administer normalize_delegated_grant_create_request create_delegated_grant_in_tx
       (\<lambda>db. authorize_administration now db caller caller_participant_id) now
       (caller_actor surface caller caller_participant_id)"

definition deactivate_delegated_grant ::
    "int \<Rightarrow> administration_actor \<Rightarrow> int \<Rightarrow> board \<Rightarrow> nat option admin_result \<times> board" where
  "deactivate_delegated_grant = administer Inr deactivate_delegated_grant_in_tx (\<lambda>_. Inr ())"

definition deactivate_delegated_grant_authorized ::
    "int \<Rightarrow> string \<Rightarrow> principal \<Rightarrow> string \<Rightarrow> int \<Rightarrow> board \<Rightarrow> nat option admin_result \<times> board" where
  "deactivate_delegated_grant_authorized now surface caller caller_participant_id =
     administer Inr deactivate_delegated_grant_in_tx
       (\<lambda>db. authorize_administration now db caller caller_participant_id) now
       (caller_actor surface caller caller_participant_id)"

section \<open>History windows\<close>

record history_window_request =
  hw_participant_id :: "string option"
  hw_before :: "int option"
  hw_after :: "int option"
  hw_limit :: "nat option"
  hw_order :: "string option"

record history_window =
  hr_events :: "admin_event list"
  hr_order :: string
  hr_has_more :: bool

definition history_rows :: "board \<Rightarrow> string option \<Rightarrow> window_order \<Rightarrow> int option \<Rightarrow> int option \<Rightarrow> nat \<Rightarrow> admin_event list" where
  "history_rows db participant_id order before after fetch_limit =
     (let rows = filter (\<lambda>e. case participant_id of Some p \<Rightarrow> e_participant_id e = p | None \<Rightarrow> True)
            (authorization_admin_events db)
      in take fetch_limit (case order of
           Desc \<Rightarrow> select_desc e_id before rows
         | Asc \<Rightarrow> select_asc e_id after rows))"

definition read_administration_event_window ::
    "board \<Rightarrow> history_window_request \<Rightarrow> history_window sql_result" where
  "read_administration_event_window db request =
     (if \<not> schema_current db then Inl InvalidQuery
      else if (case hw_before request of Some v \<Rightarrow> v \<le> 0 | None \<Rightarrow> False) \<or>
              (case hw_after request of Some v \<Rightarrow> v \<le> 0 | None \<Rightarrow> False) \<or>
              (hw_before request \<noteq> None \<and> hw_after request \<noteq> None) then Inl InvalidQuery
      else case window_order_parse (hw_order request) of
        None \<Rightarrow> Inl InvalidQuery
      | Some order \<Rightarrow>
          (if (order = Desc \<and> hw_after request \<noteq> None) \<or> (order = Asc \<and> hw_before request \<noteq> None)
           then Inl InvalidQuery
           else let limit = (case hw_limit request of Some n \<Rightarrow> n
                             | None \<Rightarrow> DEFAULT_ADMINISTRATION_HISTORY_WINDOW_SIZE) in
             if limit < 1 \<or> MAX_ADMINISTRATION_HISTORY_WINDOW_SIZE < limit then Inl InvalidQuery
             else case transpose_opt InvalidQuery validate_participant_id (hw_participant_id request) of
               Inl e \<Rightarrow> Inl e
             | Inr participant_id \<Rightarrow>
                 (let (events, has_more) = truncate_window limit
                        (history_rows db participant_id order (hw_before request) (hw_after request) (limit + 1))
                  in Inr \<lparr>hr_events = events, hr_order = window_order_as_str order, hr_has_more = has_more\<rparr>)))"

section \<open>Well-formed history\<close>

text \<open>The scope an event records, the last event about a grant, and the history invariant: event ids
  increase, every grant's last event has the grant's scope and current status, and every event is
  about a grant of its store.\<close>

definition event_scope :: "admin_event \<Rightarrow> grant_scope" where
  "event_scope e =
     \<lparr>gs_principal_provider = e_target_principal_provider e, gs_principal_subject = e_target_principal_subject e,
      gs_participant_id = e_participant_id e, gs_capability = e_capability e, gs_resource = e_resource e,
      gs_intent_id = e_intent_id e, gs_expires_at = e_expires_at e, gs_one_shot = (e_one_shot e \<noteq> 0)\<rparr>"

definition last_event :: "admin_event list \<Rightarrow> string \<Rightarrow> int \<Rightarrow> admin_event option" where
  "last_event es store i = find (\<lambda>e. e_grant_store e = store \<and> e_grant_id e = i) (rev es)"

definition explained :: "admin_event list \<Rightarrow> string \<Rightarrow> int \<Rightarrow> grant_scope \<Rightarrow> string \<Rightarrow> bool" where
  "explained es store i scope status \<longleftrightarrow>
     (\<exists>e. last_event es store i = Some e \<and> event_scope e = scope \<and> e_after_status e = status)"

definition event_refers :: "int set \<Rightarrow> int set \<Rightarrow> admin_event \<Rightarrow> bool" where
  "event_refers durable_ids delegated_ids e \<longleftrightarrow>
     e_grant_store e = ''durable'' \<and> e_grant_id e \<in> durable_ids \<or>
     e_grant_store e = ''delegated'' \<and> e_grant_id e \<in> delegated_ids"

definition history_of :: "admin_event list \<Rightarrow> durable_grant list \<Rightarrow> delegated_grant list \<Rightarrow> bool" where
  "history_of es pg dg \<longleftrightarrow> sorted_wrt (<) (map e_id es) \<and>
     (\<forall>g \<in> set pg. explained es ''durable'' (g_id g) (durable_row_scope g) (g_status g)) \<and>
     (\<forall>g \<in> set dg. explained es ''delegated'' (d_id g) (delegated_row_scope g) (d_status g)) \<and>
     (\<forall>e \<in> set es. event_refers (g_id ` set pg) (d_id ` set dg) e)"

definition history_wf :: "board \<Rightarrow> bool" where
  "history_wf db = history_of (authorization_admin_events db) (principal_grants db) (delegated_grants db)"

definition policy_wf :: "board \<Rightarrow> bool" where
  "policy_wf db \<longleftrightarrow> grants_wf db \<and> distinct (map scope_of (principal_grants db)) \<and> history_wf db"

section \<open>Lemmas on events\<close>

definition event_by :: "normalized_actor \<Rightarrow> admin_event \<Rightarrow> bool" where
  "event_by a e \<longleftrightarrow> e_actor_surface e = na_surface a \<and> e_actor_provider e = na_provider a \<and>
     e_actor_subject e = na_subject a \<and> e_actor_participant_id e = na_participant_id a"

lemma record_event_snoc:
  obtains ev where "record_event now a store i operation scope before after db =
      db\<lparr>authorization_admin_events := authorization_admin_events db @ [ev]\<rparr>"
    "e_grant_store ev = store" "e_grant_id ev = i" "event_scope ev = scope" "e_after_status ev = after"
    "e_id ev = next_rowid (map e_id (authorization_admin_events db))" "event_by a ev"
    "e_before_status ev = before" "e_operation ev = operation"
  by (rule that, unfold record_event_def, rule refl) (simp_all add: event_scope_def event_by_def)

lemma last_event_snoc:
  "last_event (es @ [e]) store i =
     (if e_grant_store e = store \<and> e_grant_id e = i then Some e else last_event es store i)"
  by (simp add: last_event_def)

lemma explained_other:
  assumes "\<not> (e_grant_store e = store \<and> e_grant_id e = i)"
  shows "explained (es @ [e]) store i scope status = explained es store i scope status"
proof -
  have "last_event (es @ [e]) store i = last_event es store i"
    unfolding last_event_snoc using assms by (rule if_not_P)
  then show ?thesis by (simp only: explained_def)
qed

lemma explained_same:
  "e_grant_store e = store \<Longrightarrow> e_grant_id e = i \<Longrightarrow> event_scope e = scope \<Longrightarrow> e_after_status e = status \<Longrightarrow>
   explained (es @ [e]) store i scope status"
  unfolding explained_def last_event_snoc by simp

text \<open>One recorded change: every grant of the new tables is either the one the event is about, with the
  scope and status the event gives, or was there before with the same scope and status.\<close>

lemma history_of_durable_step:
  assumes "history_of es pg dg"
    and "e_grant_store ev = ''durable''" and "e_grant_id ev \<in> g_id ` set new"
    and "e_id ev = next_rowid (map e_id es)"
    and same: "\<And>g. g \<in> set new \<Longrightarrow> g_id g = e_grant_id ev \<Longrightarrow>
      event_scope ev = durable_row_scope g \<and> e_after_status ev = g_status g"
    and old: "\<And>g. g \<in> set new \<Longrightarrow> g_id g \<noteq> e_grant_id ev \<Longrightarrow> g \<in> set pg"
    and sub: "g_id ` set pg \<subseteq> g_id ` set new"
  shows "history_of (es @ [ev]) new dg"
  unfolding history_of_def
proof (intro conjI ballI)
  show "sorted_wrt (<) (map e_id (es @ [ev]))"
    using assms(1,4) sorted_next_rowid by (simp add: history_of_def)
next
  fix g assume g: "g \<in> set new"
  show "explained (es @ [ev]) ''durable'' (g_id g) (durable_row_scope g) (g_status g)"
  proof (cases "g_id g = e_grant_id ev")
    case True
    then show ?thesis using assms(2) same [OF g True] by (intro explained_same) simp_all
  next
    case False
    then have "\<not> (e_grant_store ev = ''durable'' \<and> e_grant_id ev = g_id g)" by simp
    note other = explained_other [OF this]
    show ?thesis unfolding other using assms(1) old [OF g False] by (simp add: history_of_def)
  qed
next
  fix g assume g: "g \<in> set dg"
  have "\<not> (e_grant_store ev = ''delegated'' \<and> e_grant_id ev = d_id g)" using assms(2) by simp
  then show "explained (es @ [ev]) ''delegated'' (d_id g) (delegated_row_scope g) (d_status g)"
    using assms(1) g by (simp add: history_of_def explained_other)
next
  fix e assume "e \<in> set (es @ [ev])"
  then consider "e \<in> set es" | "e = ev" by auto
  then show "event_refers (g_id ` set new) (d_id ` set dg) e"
  proof cases
    case 1
    then have "event_refers (g_id ` set pg) (d_id ` set dg) e" using assms(1) by (simp add: history_of_def)
    then show ?thesis using sub unfolding event_refers_def by blast
  next
    case 2
    then show ?thesis using assms(2,3) by (simp only: event_refers_def) blast
  qed
qed

lemma history_of_delegated_step:
  assumes "history_of es pg dg"
    and "e_grant_store ev = ''delegated''" and "e_grant_id ev \<in> d_id ` set new"
    and "e_id ev = next_rowid (map e_id es)"
    and same: "\<And>g. g \<in> set new \<Longrightarrow> d_id g = e_grant_id ev \<Longrightarrow>
      event_scope ev = delegated_row_scope g \<and> e_after_status ev = d_status g"
    and old: "\<And>g. g \<in> set new \<Longrightarrow> d_id g \<noteq> e_grant_id ev \<Longrightarrow> g \<in> set dg"
    and sub: "d_id ` set dg \<subseteq> d_id ` set new"
  shows "history_of (es @ [ev]) pg new"
  unfolding history_of_def
proof (intro conjI ballI)
  show "sorted_wrt (<) (map e_id (es @ [ev]))"
    using assms(1,4) sorted_next_rowid by (simp add: history_of_def)
next
  fix g assume g: "g \<in> set new"
  show "explained (es @ [ev]) ''delegated'' (d_id g) (delegated_row_scope g) (d_status g)"
  proof (cases "d_id g = e_grant_id ev")
    case True
    then show ?thesis using assms(2) same [OF g True] by (intro explained_same) simp_all
  next
    case False
    then have "\<not> (e_grant_store ev = ''delegated'' \<and> e_grant_id ev = d_id g)" by simp
    note other = explained_other [OF this]
    show ?thesis unfolding other using assms(1) old [OF g False] by (simp add: history_of_def)
  qed
next
  fix g assume g: "g \<in> set pg"
  have "\<not> (e_grant_store ev = ''durable'' \<and> e_grant_id ev = g_id g)" using assms(2) by simp
  then show "explained (es @ [ev]) ''durable'' (g_id g) (durable_row_scope g) (g_status g)"
    using assms(1) g by (simp add: history_of_def explained_other)
next
  fix e assume "e \<in> set (es @ [ev])"
  then consider "e \<in> set es" | "e = ev" by auto
  then show "event_refers (g_id ` set pg) (d_id ` set new) e"
  proof cases
    case 1
    then have "event_refers (g_id ` set pg) (d_id ` set dg) e" using assms(1) by (simp add: history_of_def)
    then show ?thesis using sub unfolding event_refers_def by blast
  next
    case 2
    then show ?thesis using assms(2,3) by (simp only: event_refers_def) blast
  qed
qed

section \<open>The shared contract\<close>

text \<open>Only the grant tables and the event log change.\<close>

definition policy_only :: "board \<Rightarrow> board \<Rightarrow> bool" where
  "policy_only db db' \<longleftrightarrow> db' = db\<lparr>principal_grants := principal_grants db',
     delegated_grants := delegated_grants db', authorization_admin_events := authorization_admin_events db'\<rparr>"

definition recorded_by :: "normalized_actor \<Rightarrow> board \<Rightarrow> board \<Rightarrow> bool" where
  "recorded_by a db db' \<longleftrightarrow> (\<exists>es. authorization_admin_events db' = authorization_admin_events db @ es \<and>
     (\<forall>e \<in> set es. event_by a e) \<and> (es = [] \<longrightarrow> db' = db))"

locale admin_operation =
  fixes op :: "int \<Rightarrow> normalized_actor \<Rightarrow> 'r \<Rightarrow> board \<Rightarrow> 'a admin_result \<times> board"
  assumes keeps_wf: "policy_wf db \<Longrightarrow> policy_wf (snd (op now a r db))"
    and keeps_consumption: "policy_wf db \<Longrightarrow> consumption_wf db \<Longrightarrow> consumption_wf (snd (op now a r db))"
    and changes_policy_only: "policy_wf db \<Longrightarrow> policy_only db (snd (op now a r db))"
    and records_changes: "policy_wf db \<Longrightarrow> recorded_by a db (snd (op now a r db))"
begin

lemma administer_cases:
  assumes "administer norm op authority now actor q db = (x, db')"
  shows "(\<exists>e. x = Inl e \<and> db' = db) \<or>
   (\<exists>a r y. x = Inr y \<and> schema_current db \<and> normalize_actor actor = Inr a \<and> norm q = Inr r \<and>
      authority db = Inr () \<and> op now a r db = (Inr y, db'))"
proof (cases "schema_current db \<and> (\<exists>a. normalize_actor actor = Inr a) \<and> (\<exists>r. norm q = Inr r) \<and> authority db = Inr ()")
  case True
  then obtain a r where ar: "normalize_actor actor = Inr a" "norm q = Inr r" by blast
  obtain y d where o: "op now a r db = (y, d)" by fastforce
  have "(x, db') = commit db (y, d)"
    using assms True ar o by (simp add: administer_def require_schema_current_def)
  then show ?thesis using True ar o by (cases y) (auto simp: commit_def)
next
  case False
  then have "\<exists>e. (x, db') = (Inl e, db)"
    unfolding assms [symmetric] administer_def require_schema_current_def
    by (cases "schema_current db"; cases "normalize_actor actor"; cases "norm q"; cases "authority db") simp_all
  then show ?thesis by blast
qed

lemma administer_keeps:
  assumes "policy_wf db" and "consumption_wf db"
  shows "policy_wf (snd (administer norm op authority now actor q db)) \<and>
    consumption_wf (snd (administer norm op authority now actor q db))"
proof -
  obtain x db' where r: "administer norm op authority now actor q db = (x, db')" by fastforce
  from administer_cases [OF r] show ?thesis
    using assms keeps_wf keeps_consumption r by (metis snd_conv)
qed

lemma administer_error: "administer norm op authority now actor q db = (Inl e, db') \<Longrightarrow> db' = db"
  using administer_cases by fastforce

lemma administer_refused:
  "authority db = Inl e \<Longrightarrow> \<exists>e'. administer norm op authority now actor q db = (Inl e', db)"
  using administer_cases by (metis Inl_Inr_False surj_pair)

lemma administer_refused_board:
  "authority db = Inl e \<Longrightarrow> snd (administer norm op authority now actor q db) = db"
  by (drule administer_refused [of authority db e norm now actor q]) (elim exE, simp)

lemma administer_recorded:
  assumes "policy_wf db"
  shows "policy_only db (snd (administer norm op authority now actor q db)) \<and>
    (\<exists>es. authorization_admin_events (snd (administer norm op authority now actor q db)) =
         authorization_admin_events db @ es \<and>
       (\<forall>e \<in> set es. \<exists>a. normalize_actor actor = Inr a \<and> event_by a e) \<and>
       (es = [] \<longrightarrow> snd (administer norm op authority now actor q db) = db))"
proof -
  obtain x db' where r: "administer norm op authority now actor q db = (x, db')" by fastforce
  from administer_cases [OF r] show ?thesis
  proof
    assume "\<exists>e. x = Inl e \<and> db' = db"
    then show ?thesis using r by (simp add: policy_only_def)
  next
    assume "\<exists>a q' y. x = Inr y \<and> schema_current db \<and> normalize_actor actor = Inr a \<and> norm q = Inr q' \<and>
      authority db = Inr () \<and> op now a q' db = (Inr y, db')"
    then obtain a q' y where o: "op now a q' db = (Inr y, db')" and a: "normalize_actor actor = Inr a" by blast
    have "recorded_by a db db'" "policy_only db db'"
      using records_changes [OF assms, of a now q'] changes_policy_only [OF assms, of now a q'] o by simp_all
    then show ?thesis using r a by (auto simp: recorded_by_def)
  qed
qed

end

section \<open>The operations\<close>

lemma filter_key:
  "distinct (map k xs) \<Longrightarrow> filter (\<lambda>x. k x = v \<and> P x) xs =
     (case find (\<lambda>x. k x = v) xs of None \<Rightarrow> [] | Some x \<Rightarrow> if P x then [x] else [])"
proof (induction xs)
  case (Cons x xs)
  show ?case
  proof (cases "k x = v")
    case True
    then have "\<forall>y \<in> set xs. k y \<noteq> v" using Cons.prems by (metis distinct.simps(2) image_eqI list.map(2) list.set_map)
    then have "filter (\<lambda>x. k x = v \<and> P x) xs = []" by (auto simp: filter_empty_conv)
    then show ?thesis using True by simp
  qed (use Cons in simp)
qed simp

lemma consumption_wf_cong:
  "delegated_grants db = delegated_grants db' \<Longrightarrow> execution_receipts db = execution_receipts db' \<Longrightarrow>
   schema db = schema db' \<Longrightarrow> consumption_wf db = consumption_wf db'"
  by (simp add: consumption_wf_def committed_receipt_exists_def table_exists_def)

lemma consumption_wf_update:
  assumes "consumption_wf db" and "\<And>g. d_consumed_at (f g) = d_consumed_at g"
    and "\<And>g. d_consumed_intent_id (f g) = d_consumed_intent_id g" and "\<And>g. d_one_shot (f g) = d_one_shot g"
    and "\<And>g. d_participant_id (f g) = d_participant_id g" and "\<And>g. d_intent_id (f g) = d_intent_id g"
  shows "consumption_wf (db\<lparr>delegated_grants := sql_update P f (delegated_grants db)\<rparr>)"
proof -
  have c: "committed_receipt_exists (db\<lparr>delegated_grants := sql_update P f (delegated_grants db)\<rparr>) =
      committed_receipt_exists db"
    by (rule committed_receipt_cong) (simp_all add: table_exists_def)
  have "\<exists>g0 \<in> set (delegated_grants db). d_consumed_at g = d_consumed_at g0 \<and>
      d_consumed_intent_id g = d_consumed_intent_id g0 \<and> d_one_shot g = d_one_shot g0 \<and>
      d_participant_id g = d_participant_id g0 \<and> d_intent_id g = d_intent_id g0"
    if "g \<in> set (sql_update P f (delegated_grants db))" for g
    using that assms(2-6) by (auto simp: set_sql_update)
  with assms(1) show ?thesis unfolding consumption_wf_def c by (simp add: Ball_def) metis
qed

lemma record_event_grants [simp]:
  "principal_grants (record_event now a st i op sc b af db) = principal_grants db"
  "delegated_grants (record_event now a st i op sc b af db) = delegated_grants db"
  "execution_receipts (record_event now a st i op sc b af db) = execution_receipts db"
  "web_participants (record_event now a st i op sc b af db) = web_participants db"
  "messages (record_event now a st i op sc b af db) = messages db"
  "schema (record_event now a st i op sc b af db) = schema db"
  by (simp_all add: record_event_def)

lemma policy_only_refl: "policy_only db db"
  by (simp add: policy_only_def)

lemma policy_only_record:
  "policy_only db db1 \<Longrightarrow> policy_only db (record_event now a st i op sc b af db1)"
  unfolding policy_only_def record_event_def by (cases db; cases db1) simp

lemma recorded_by_record:
  assumes "authorization_admin_events db1 = authorization_admin_events db"
  shows "recorded_by a db (record_event now a st i op sc b af db1)"
proof (rule record_event_snoc [of now a st i op sc b af db1])
  fix ev
  assume "record_event now a st i op sc b af db1 =
    db1\<lparr>authorization_admin_events := authorization_admin_events db1 @ [ev]\<rparr>" and "event_by a ev"
  then show ?thesis unfolding recorded_by_def using assms by (intro exI [of _ "[ev]"]) simp
qed

lemma recorded_by_refl: "recorded_by a db db"
  by (simp add: recorded_by_def)

text \<open>A change of one durable grant, recorded: the policy stays well formed.\<close>

lemma policy_wf_durable_change:
  assumes wf: "policy_wf db" and grants: "grants_wf (db\<lparr>principal_grants := new\<rparr>)"
    and scopes: "distinct (map scope_of new)" and mem: "i \<in> g_id ` set new"
    and same: "\<And>g. g \<in> set new \<Longrightarrow> g_id g = i \<Longrightarrow> scope = durable_row_scope g \<and> after = g_status g"
    and old: "\<And>g. g \<in> set new \<Longrightarrow> g_id g \<noteq> i \<Longrightarrow> g \<in> set (principal_grants db)"
    and sub: "g_id ` set (principal_grants db) \<subseteq> g_id ` set new"
  shows "policy_wf (record_event now a ''durable'' i op scope b after (db\<lparr>principal_grants := new\<rparr>))"
proof (rule record_event_snoc [of now a "''durable''" i op scope b after "db\<lparr>principal_grants := new\<rparr>"])
  fix ev
  assume ev: "record_event now a ''durable'' i op scope b after (db\<lparr>principal_grants := new\<rparr>) =
      (db\<lparr>principal_grants := new\<rparr>)\<lparr>authorization_admin_events :=
        authorization_admin_events (db\<lparr>principal_grants := new\<rparr>) @ [ev]\<rparr>"
    "e_grant_store ev = ''durable''" "e_grant_id ev = i" "event_scope ev = scope" "e_after_status ev = after"
    "e_id ev = next_rowid (map e_id (authorization_admin_events (db\<lparr>principal_grants := new\<rparr>)))"
  have "history_of (authorization_admin_events db @ [ev]) new (delegated_grants db)"
    by (rule history_of_durable_step [of _ "principal_grants db"])
      (use wf ev same old sub mem in \<open>simp_all add: policy_wf_def history_wf_def\<close>)
  then show ?thesis
    using grants scopes unfolding ev(1) policy_wf_def history_wf_def by (simp add: grants_wf_def)
qed

lemma policy_wf_delegated_change:
  assumes wf: "policy_wf db" and grants: "grants_wf (db\<lparr>delegated_grants := new\<rparr>)"
    and mem: "i \<in> d_id ` set new"
    and same: "\<And>g. g \<in> set new \<Longrightarrow> d_id g = i \<Longrightarrow> scope = delegated_row_scope g \<and> after = d_status g"
    and old: "\<And>g. g \<in> set new \<Longrightarrow> d_id g \<noteq> i \<Longrightarrow> g \<in> set (delegated_grants db)"
    and sub: "d_id ` set (delegated_grants db) \<subseteq> d_id ` set new"
  shows "policy_wf (record_event now a ''delegated'' i op scope b after (db\<lparr>delegated_grants := new\<rparr>))"
proof (rule record_event_snoc [of now a "''delegated''" i op scope b after "db\<lparr>delegated_grants := new\<rparr>"])
  fix ev
  assume ev: "record_event now a ''delegated'' i op scope b after (db\<lparr>delegated_grants := new\<rparr>) =
      (db\<lparr>delegated_grants := new\<rparr>)\<lparr>authorization_admin_events :=
        authorization_admin_events (db\<lparr>delegated_grants := new\<rparr>) @ [ev]\<rparr>"
    "e_grant_store ev = ''delegated''" "e_grant_id ev = i" "event_scope ev = scope" "e_after_status ev = after"
    "e_id ev = next_rowid (map e_id (authorization_admin_events (db\<lparr>delegated_grants := new\<rparr>)))"
  have "history_of (authorization_admin_events db @ [ev]) (principal_grants db) new"
    by (rule history_of_delegated_step [of _ _ "delegated_grants db"])
      (use wf ev same old sub mem in \<open>simp_all add: policy_wf_def history_wf_def\<close>)
  then show ?thesis
    using wf grants unfolding ev(1) policy_wf_def history_wf_def by (simp add: grants_wf_def)
qed

definition request_scope_key :: "durable_create \<Rightarrow> durable_scope" where
  "request_scope_key r = (dc_principal_provider r, dc_principal_subject r, dc_participant_id r, dc_capability r,
     dc_resource r)"

definition reactivate_durable :: "int \<Rightarrow> int \<Rightarrow> board \<Rightarrow> durable_grant list" where
  "reactivate_durable now i db = sql_update (\<lambda>r. g_id r = i)
     (\<lambda>r. r\<lparr>g_status := ''active'', g_updated_at := now\<rparr>) (principal_grants db)"

definition new_durable :: "int \<Rightarrow> durable_create \<Rightarrow> board \<Rightarrow> durable_grant" where
  "new_durable now request db =
     \<lparr>g_id = next_rowid (map g_id (principal_grants db)), g_principal_provider = dc_principal_provider request,
      g_principal_subject = dc_principal_subject request, g_participant_id = dc_participant_id request,
      g_capability = dc_capability request, g_resource = dc_resource request, g_status = ''active'',
      g_created_at = now, g_updated_at = now\<rparr>"

lemma create_durable_cases:
  assumes "create_durable_grant_in_tx now a request db = r"
  obtains (Refused) e where "r = (Inl e, db)" "require_active_participant db (dc_participant_id request) = Inl e"
  | (Existing) g where "require_active_participant db (dc_participant_id request) = Inr ()"
      "g \<in> set (principal_grants db)" "scope_of g = request_scope_key request" "g_status g = ''active''"
      "r = (Inr (g_id g, Existing), db)"
  | (Reactivated) g where "require_active_participant db (dc_participant_id request) = Inr ()"
      "g \<in> set (principal_grants db)" "scope_of g = request_scope_key request"
      "\<forall>x \<in> set (principal_grants db). scope_of x = request_scope_key request \<longrightarrow> g_status x \<noteq> ''active''"
      "r = (Inr (g_id g, Reactivated), record_event now a ''durable'' (g_id g) ''reactivate''
        (durable_request_scope request) (Some ''inactive'') ''active''
        (db\<lparr>principal_grants := reactivate_durable now (g_id g) db\<rparr>))"
  | (Created) "require_active_participant db (dc_participant_id request) = Inr ()"
      "\<forall>x \<in> set (principal_grants db). scope_of x \<noteq> request_scope_key request"
      "r = (Inr (g_id (new_durable now request db), Created), record_event now a ''durable''
        (g_id (new_durable now request db)) ''create'' (durable_request_scope request) None ''active''
        (db\<lparr>principal_grants := principal_grants db @ [new_durable now request db]\<rparr>))"
proof (cases "require_active_participant db (dc_participant_id request)")
  case (Inl e)
  then have "r = (Inl e, db)" using assms by (simp add: create_durable_grant_in_tx_def)
  with Inl show thesis by (rule Refused [rotated])
next
  case (Inr u)
  let ?rows = "sort_key g_id (filter (durable_scope_hit (dc_principal_provider request)
    (dc_principal_subject request) (dc_participant_id request) (dc_capability request) (dc_resource request))
    (principal_grants db))"
  have rows: "set ?rows = {g \<in> set (principal_grants db). scope_of g = request_scope_key request}"
    by (auto simp: durable_scope_hit_def request_scope_key_def)
  have act: "require_active_participant db (dc_participant_id request) = Inr ()" using Inr by simp
  show thesis
  proof (cases "find (\<lambda>g. g_status g = ''active'') ?rows")
    case (Some g)
    then have "g \<in> set ?rows" "g_status g = ''active''" by (auto dest: find_SomeD)
    moreover have "r = (Inr (g_id g, Existing), db)"
      using assms act Some by (simp add: create_durable_grant_in_tx_def Let_def)
    ultimately show thesis using Existing act rows by blast
  next
    case None
    show thesis
    proof (cases ?rows)
      case (Cons g gs)
      then have "g \<in> set ?rows" by (metis list.set_intros(1))
      moreover have "\<forall>x \<in> set ?rows. g_status x \<noteq> ''active''" using None by (simp add: find_None_iff)
      moreover have "r = (Inr (g_id g, Reactivated), record_event now a ''durable'' (g_id g) ''reactivate''
          (durable_request_scope request) (Some ''inactive'') ''active''
          (db\<lparr>principal_grants := reactivate_durable now (g_id g) db\<rparr>))"
        using assms act None unfolding create_durable_grant_in_tx_def Let_def
        by (simp add: Cons reactivate_durable_def)
      ultimately show thesis using Reactivated act rows by blast
    next
      case Nil
      then have "\<forall>x \<in> set (principal_grants db). scope_of x \<noteq> request_scope_key request"
        using rows by auto
      moreover have "r = (Inr (g_id (new_durable now request db), Created), record_event now a ''durable''
          (g_id (new_durable now request db)) ''create'' (durable_request_scope request) None ''active''
          (db\<lparr>principal_grants := principal_grants db @ [new_durable now request db]\<rparr>))"
        using assms act unfolding create_durable_grant_in_tx_def Let_def
        by (simp add: Nil new_durable_def)
      ultimately show thesis using Created act by blast
    qed
  qed
qed

lemma durable_request_row_scope:
  "scope_of g = request_scope_key request \<Longrightarrow> durable_request_scope request = durable_row_scope g"
  by (simp add: scope_of_def request_scope_key_def durable_request_scope_def durable_row_scope_def)

lemma scope_of_reactivate: "map scope_of (reactivate_durable now i db) = map scope_of (principal_grants db)"
  unfolding reactivate_durable_def by (rule map_sql_update) (simp add: scope_of_def)

lemma reactivate_ids: "g_id ` set (reactivate_durable now i db) = g_id ` set (principal_grants db)"
proof -
  have "map g_id (reactivate_durable now i db) = map g_id (principal_grants db)"
    unfolding reactivate_durable_def by (rule map_sql_update) simp
  then show ?thesis by (metis list.set_map)
qed

lemma reactivate_mem:
  assumes "g \<in> set (reactivate_durable now i db)"
  shows "(g_id g \<noteq> i \<and> g \<in> set (principal_grants db)) \<or>
   (g_id g = i \<and> g_status g = ''active'' \<and> (\<exists>g0 \<in> set (principal_grants db). g_id g0 = i \<and> scope_of g = scope_of g0))"
proof -
  obtain g0 where g0: "g0 \<in> set (principal_grants db)"
    "g = (if g_id g0 = i then g0\<lparr>g_status := ''active'', g_updated_at := now\<rparr> else g0)"
    using assms unfolding reactivate_durable_def set_sql_update by blast
  show ?thesis
  proof (cases "g_id g0 = i")
    case True
    then show ?thesis using g0 by (intro disjI2) (auto simp: scope_of_def intro!: bexI [of _ g0])
  next
    case False
    then show ?thesis using g0 by simp
  qed
qed

lemma create_durable_policy_wf:
  assumes wf: "policy_wf db"
  shows "policy_wf (snd (create_durable_grant_in_tx now a request db))"
proof (rule create_durable_cases [of now a request db, OF refl])
  fix g
  assume g: "g \<in> set (principal_grants db)" "scope_of g = request_scope_key request"
    and r: "create_durable_grant_in_tx now a request db = (Inr (g_id g, Reactivated), record_event now a ''durable''
      (g_id g) ''reactivate'' (durable_request_scope request) (Some ''inactive'') ''active''
      (db\<lparr>principal_grants := reactivate_durable now (g_id g) db\<rparr>))"
  have gw: "grants_wf db" and dist: "distinct (map g_id (principal_grants db))"
    using wf by (simp_all add: policy_wf_def grants_wf_def)
  show ?thesis
    unfolding r snd_conv
  proof (rule policy_wf_durable_change [OF wf])
    show "grants_wf (db\<lparr>principal_grants := reactivate_durable now (g_id g) db\<rparr>)"
      unfolding reactivate_durable_def using gw by (rule grants_wf_update_durable) (simp_all add: status_ok_def)
    show "distinct (map scope_of (reactivate_durable now (g_id g) db))"
      using wf by (simp add: scope_of_reactivate policy_wf_def)
    show "g_id g \<in> g_id ` set (reactivate_durable now (g_id g) db)" using g by (simp add: reactivate_ids)
    show "g_id ` set (principal_grants db) \<subseteq> g_id ` set (reactivate_durable now (g_id g) db)"
      by (simp add: reactivate_ids)
  next
    fix x assume x: "x \<in> set (reactivate_durable now (g_id g) db)"
    from reactivate_mem [OF x] show "g_id x \<noteq> g_id g \<Longrightarrow> x \<in> set (principal_grants db)" by blast
    assume "g_id x = g_id g"
    with reactivate_mem [OF x] obtain g0 where "g0 \<in> set (principal_grants db)" "g_id g0 = g_id g"
      "scope_of x = scope_of g0" "g_status x = ''active''" by blast
    moreover from this(1,2) have "g0 = g" using distinct_key_eq [OF dist _ g(1)] by blast
    ultimately show "durable_request_scope request = durable_row_scope x \<and> ''active'' = g_status x"
      using g(2) by (simp add: durable_request_row_scope)
  qed
next
  let ?n = "new_durable now request db"
  assume fresh: "\<forall>x \<in> set (principal_grants db). scope_of x \<noteq> request_scope_key request"
    and r: "create_durable_grant_in_tx now a request db = (Inr (g_id ?n, Created), record_event now a ''durable''
      (g_id ?n) ''create'' (durable_request_scope request) None ''active''
      (db\<lparr>principal_grants := principal_grants db @ [?n]\<rparr>))"
  have n: "g_id ?n = next_rowid (map g_id (principal_grants db))" "scope_of ?n = request_scope_key request"
    "g_status ?n = ''active''"
    by (simp_all add: new_durable_def scope_of_def request_scope_key_def)
  have new: "g_id ?n \<notin> g_id ` set (principal_grants db)"
    using next_rowid_fresh [of "map g_id (principal_grants db)"] by (simp add: n)
  show ?thesis
    unfolding r snd_conv
  proof (rule policy_wf_durable_change [OF wf])
    show "grants_wf (db\<lparr>principal_grants := principal_grants db @ [?n]\<rparr>)"
      using wf new n(3) by (auto simp: policy_wf_def grants_wf_def status_ok_def)
    show "distinct (map scope_of (principal_grants db @ [?n]))"
      using wf fresh n(2) by (auto simp: policy_wf_def)
    show "g_id x \<noteq> g_id ?n \<Longrightarrow> x \<in> set (principal_grants db)" if "x \<in> set (principal_grants db @ [?n])" for x
      using that by auto
    show "durable_request_scope request = durable_row_scope x \<and> ''active'' = g_status x"
      if "x \<in> set (principal_grants db @ [?n])" "g_id x = g_id ?n" for x
    proof -
      have "x \<notin> set (principal_grants db)" using that(2) new by (metis image_eqI)
      then have "x = ?n" using that(1) by simp
      then show ?thesis using n(2,3) durable_request_row_scope by simp
    qed
  qed auto
qed (use wf in simp_all)

text \<open>Deactivating a durable grant: with distinct scopes at most the grant itself is active in its scope.\<close>

definition deactivated_durable :: "int \<Rightarrow> durable_grant \<Rightarrow> board \<Rightarrow> durable_grant list" where
  "deactivated_durable now g db = sql_update (\<lambda>r. scope_of r = scope_of g \<and> g_status r \<noteq> ''inactive'')
     (\<lambda>r. r\<lparr>g_status := ''inactive'', g_updated_at := now\<rparr>) (principal_grants db)"

lemma deactivate_durable_cases:
  assumes wf: "policy_wf db" and r: "deactivate_durable_grant_in_tx now a i db = r"
  obtains (Refused) "i \<le> 0" "r = (Inl (AdminError ''grant_id must be positive''), db)"
  | (Missing) "r = (Inr None, db)" "i \<notin> g_id ` set (principal_grants db)"
  | (Inactive) g where "g \<in> set (principal_grants db)" "g_id g = i" "g_status g = ''inactive''"
      "r = (Inr (Some 0), db)"
  | (Done) g where "g \<in> set (principal_grants db)" "g_id g = i" "g_status g = ''active''" "0 < i"
      "r = (Inr (Some 1), record_event now a ''durable'' i ''deactivate'' (durable_row_scope g) (Some ''active'')
        ''inactive'' (db\<lparr>principal_grants := deactivated_durable now g db\<rparr>))"
proof (cases "i \<le> 0")
  case True
  with r Refused show thesis by (simp add: deactivate_durable_grant_in_tx_def)
next
  case False
  show thesis
  proof (cases "find (\<lambda>g. g_id g = i) (principal_grants db)")
    case None
    then have "i \<notin> g_id ` set (principal_grants db)" by (auto simp: find_None_iff)
    moreover have "r = (Inr None, db)" using r False None by (simp add: deactivate_durable_grant_in_tx_def)
    ultimately show thesis by (rule Missing [rotated])
  next
    case (Some g)
    then have g: "g \<in> set (principal_grants db)" "g_id g = i" by (auto dest: find_SomeD)
    let ?hit = "\<lambda>r. scope_of r = scope_of g \<and> g_status r \<noteq> ''inactive''"
    have dist: "distinct (map scope_of (principal_grants db))" using wf by (simp add: policy_wf_def)
    have flt: "filter ?hit (principal_grants db) = (if g_status g \<noteq> ''inactive'' then [g] else [])"
      using filter_key [OF dist, of "scope_of g"] find_key [OF dist g(1)] by simp
    have hit: "durable_scope_hit (g_principal_provider g) (g_principal_subject g) (g_participant_id g)
        (g_capability g) (g_resource g) x \<longleftrightarrow> scope_of x = scope_of g" for x
      by (simp add: durable_scope_hit_def scope_of_def)
    have st: "g_status g = ''active'' \<or> g_status g = ''inactive''"
      using wf g(1) by (auto simp: policy_wf_def grants_wf_def status_ok_def)
    show thesis
    proof (cases "g_status g = ''inactive''")
      case True
      then have "sql_update ?hit (\<lambda>r. r\<lparr>g_status := ''inactive'', g_updated_at := now\<rparr>) (principal_grants db) =
          principal_grants db"
        using flt by (intro sql_update_none) (simp add: sql_count_def)
      then have "r = (Inr (Some 0), db)"
        using r False Some True by (simp add: deactivate_durable_grant_in_tx_def hit flt sql_count_def Let_def)
      with True g show thesis using Inactive by blast
    next
      case act: False
      then have "r = (Inr (Some 1), record_event now a ''durable'' i ''deactivate'' (durable_row_scope g) (Some ''active'')
        ''inactive'' (db\<lparr>principal_grants := deactivated_durable now g db\<rparr>))"
        using r False Some g(2)
        by (simp add: deactivate_durable_grant_in_tx_def hit flt sql_count_def deactivated_durable_def Let_def)
      with act st g False show thesis using Done by (metis linorder_not_le)
    qed
  qed
qed

lemma deactivated_durable_mem:
  assumes "policy_wf db" and "g \<in> set (principal_grants db)" and "x \<in> set (deactivated_durable now g db)"
  shows "(g_id x \<noteq> g_id g \<and> x \<in> set (principal_grants db)) \<or>
    (g_id x = g_id g \<and> scope_of x = scope_of g \<and> g_status x = ''inactive'')"
proof -
  obtain y where y: "y \<in> set (principal_grants db)" "x = (if scope_of y = scope_of g \<and> g_status y \<noteq> ''inactive''
      then y\<lparr>g_status := ''inactive'', g_updated_at := now\<rparr> else y)"
    using assms(3) unfolding deactivated_durable_def set_sql_update by blast
  have d: "distinct (map scope_of (principal_grants db))" "distinct (map g_id (principal_grants db))"
    using assms(1) by (simp_all add: policy_wf_def grants_wf_def)
  show ?thesis
  proof (cases "y = g")
    case True
    then show ?thesis using y(2) by (simp add: scope_of_def)
  next
    case False
    then have "scope_of y \<noteq> scope_of g" "g_id y \<noteq> g_id g"
      using distinct_key_eq [OF d(1) y(1) assms(2)] distinct_key_eq [OF d(2) y(1) assms(2)] by blast+
    then show ?thesis using y by simp
  qed
qed

lemma deactivated_durable_keys:
  "map scope_of (deactivated_durable now g db) = map scope_of (principal_grants db)"
  "map g_id (deactivated_durable now g db) = map g_id (principal_grants db)"
  unfolding deactivated_durable_def by (rule map_sql_update, simp add: scope_of_def)+

lemma durable_row_scope_eq: "scope_of x = scope_of g \<Longrightarrow> durable_row_scope x = durable_row_scope g"
  by (simp add: scope_of_def durable_row_scope_def)

lemma deactivate_durable_policy_wf:
  assumes wf: "policy_wf db"
  shows "policy_wf (snd (deactivate_durable_grant_in_tx now a i db))"
proof (rule deactivate_durable_cases [OF wf, of now a i, OF refl])
  fix g
  assume g: "g \<in> set (principal_grants db)" "g_id g = i"
    and r: "deactivate_durable_grant_in_tx now a i db = (Inr (Some 1), record_event now a ''durable'' i ''deactivate''
      (durable_row_scope g) (Some ''active'') ''inactive'' (db\<lparr>principal_grants := deactivated_durable now g db\<rparr>))"
  have ids: "g_id ` set (deactivated_durable now g db) = g_id ` set (principal_grants db)"
    using deactivated_durable_keys(2) [of now g db] by (metis list.set_map)
  show ?thesis
    unfolding r snd_conv
  proof (rule policy_wf_durable_change [OF wf])
    show "grants_wf (db\<lparr>principal_grants := deactivated_durable now g db\<rparr>)"
      unfolding deactivated_durable_def using wf
      by (intro grants_wf_update_durable) (simp_all add: policy_wf_def status_ok_def)
    show "distinct (map scope_of (deactivated_durable now g db))"
      using wf by (simp add: deactivated_durable_keys policy_wf_def)
    show "i \<in> g_id ` set (deactivated_durable now g db)" unfolding ids using g by blast
    show "g_id ` set (principal_grants db) \<subseteq> g_id ` set (deactivated_durable now g db)" by (simp add: ids)
  next
    fix x assume x: "x \<in> set (deactivated_durable now g db)"
    note m = deactivated_durable_mem [OF wf g(1) x]
    show "g_id x \<noteq> i \<Longrightarrow> x \<in> set (principal_grants db)" using m g(2) by blast
    show "g_id x = i \<Longrightarrow> durable_row_scope g = durable_row_scope x \<and> ''inactive'' = g_status x"
      using m g(2) durable_row_scope_eq [of x g] by (elim disjE) simp_all
  qed
qed (use wf in simp_all)

lemma new_delegated_scope:
  "delegated_row_scope \<lparr>d_id = i, d_principal_provider = lc_principal_provider q,
     d_principal_subject = lc_principal_subject q, d_participant_id = lc_participant_id q,
     d_capability = lc_capability q, d_resource = lc_resource q, d_intent_id = lc_intent_id q,
     d_expires_at = lc_expires_at q, d_one_shot = (if lc_one_shot q then 1 else 0), d_consumed_at = None,
     d_consumed_intent_id = None, d_status = st, d_created_at = t, d_updated_at = t'\<rparr> = delegated_request_scope q"
  by (simp add: delegated_row_scope_def delegated_request_scope_def)

definition new_delegated :: "int \<Rightarrow> delegated_create \<Rightarrow> board \<Rightarrow> delegated_grant" where
  "new_delegated now q db =
     \<lparr>d_id = next_rowid (map d_id (delegated_grants db)), d_principal_provider = lc_principal_provider q,
      d_principal_subject = lc_principal_subject q, d_participant_id = lc_participant_id q,
      d_capability = lc_capability q, d_resource = lc_resource q, d_intent_id = lc_intent_id q,
      d_expires_at = lc_expires_at q, d_one_shot = (if lc_one_shot q then 1 else 0), d_consumed_at = None,
      d_consumed_intent_id = None, d_status = ''active'', d_created_at = now, d_updated_at = now\<rparr>"

lemma create_delegated_cases:
  assumes "create_delegated_grant_in_tx now a q db = r"
  obtains (Refused) e where "r = (Inl e, db)"
  | (Done) "require_active_participant db (lc_participant_id q) = Inr ()"
      "\<forall>t. lc_expires_at q = Some t \<longrightarrow> now < t"
      "r = (Inr (d_id (new_delegated now q db)), record_event now a ''delegated'' (d_id (new_delegated now q db))
        ''create'' (delegated_request_scope q) None ''active''
        (db\<lparr>delegated_grants := delegated_grants db @ [new_delegated now q db]\<rparr>))"
proof (cases "require_active_participant db (lc_participant_id q)")
  case (Inl e)
  then have "r = (Inl e, db)" using assms by (simp add: create_delegated_grant_in_tx_def)
  then show thesis by (rule Refused)
next
  case (Inr u)
  show thesis
  proof (cases "case lc_expires_at q of Some t \<Rightarrow> t \<le> now | None \<Rightarrow> False")
    case True
    then have "r = (Inl (AdminError ''expires_at must be a future Unix timestamp''), db)"
      using assms Inr by (simp add: create_delegated_grant_in_tx_def)
    then show thesis by (rule Refused)
  next
    case False
    then have "\<forall>t. lc_expires_at q = Some t \<longrightarrow> now < t" by (auto split: option.splits)
    moreover have "r = (Inr (d_id (new_delegated now q db)), record_event now a ''delegated''
        (d_id (new_delegated now q db)) ''create'' (delegated_request_scope q) None ''active''
        (db\<lparr>delegated_grants := delegated_grants db @ [new_delegated now q db]\<rparr>))"
      using assms Inr False by (simp add: create_delegated_grant_in_tx_def new_delegated_def Let_def)
    ultimately show thesis using Done Inr by simp
  qed
qed

lemma new_delegated_facts:
  "delegated_row_scope (new_delegated now q db) = delegated_request_scope q"
  "d_status (new_delegated now q db) = ''active''" "d_one_shot (new_delegated now q db) \<in> {0, 1}"
  "d_consumed_at (new_delegated now q db) = None" "d_consumed_intent_id (new_delegated now q db) = None"
  "d_id (new_delegated now q db) \<notin> d_id ` set (delegated_grants db)"
  using next_rowid_fresh [of "map d_id (delegated_grants db)"]
  by (simp_all add: new_delegated_def new_delegated_scope)

lemma create_delegated_policy_wf:
  assumes wf: "policy_wf db"
  shows "policy_wf (snd (create_delegated_grant_in_tx now a q db))"
proof (rule create_delegated_cases [of now a q db, OF refl])
  let ?n = "new_delegated now q db"
  assume r: "create_delegated_grant_in_tx now a q db = (Inr (d_id ?n), record_event now a ''delegated'' (d_id ?n)
        ''create'' (delegated_request_scope q) None ''active'' (db\<lparr>delegated_grants := delegated_grants db @ [?n]\<rparr>))"
  show ?thesis
    unfolding r snd_conv
  proof (rule policy_wf_delegated_change [OF wf])
    show "grants_wf (db\<lparr>delegated_grants := delegated_grants db @ [?n]\<rparr>)"
      using wf new_delegated_facts(2,3,6) [of now q db] by (auto simp: policy_wf_def grants_wf_def status_ok_def)
    fix x assume x: "x \<in> set (delegated_grants db @ [?n])"
    then show "d_id x \<noteq> d_id ?n \<Longrightarrow> x \<in> set (delegated_grants db)" by auto
    assume "d_id x = d_id ?n"
    then have "x \<notin> set (delegated_grants db)" using new_delegated_facts(6) [of now q db] by (metis image_eqI)
    then have "x = ?n" using x by simp
    then show "delegated_request_scope q = delegated_row_scope x \<and> ''active'' = d_status x"
      by (simp add: new_delegated_facts)
  qed auto
qed (use wf in simp)

text \<open>Deactivating a delegated grant.\<close>

definition deactivated_delegated :: "int \<Rightarrow> int \<Rightarrow> board \<Rightarrow> delegated_grant list" where
  "deactivated_delegated now i db = sql_update (\<lambda>r. d_id r = i \<and> d_status r \<noteq> ''inactive'')
     (\<lambda>r. r\<lparr>d_status := ''inactive'', d_updated_at := now\<rparr>) (delegated_grants db)"

lemma deactivate_delegated_cases:
  assumes wf: "policy_wf db" and r: "deactivate_delegated_grant_in_tx now a i db = r"
  obtains (Refused) "i \<le> 0" "r = (Inl (AdminError ''grant_id must be positive''), db)"
  | (Missing) "r = (Inr None, db)" "i \<notin> d_id ` set (delegated_grants db)"
  | (Inactive) g where "g \<in> set (delegated_grants db)" "d_id g = i" "d_status g = ''inactive''"
      "r = (Inr (Some 0), db)"
  | (Done) g where "g \<in> set (delegated_grants db)" "d_id g = i" "d_status g = ''active''" "0 < i"
      "r = (Inr (Some 1), record_event now a ''delegated'' i ''deactivate'' (delegated_row_scope g)
        (Some (d_status g)) ''inactive'' (db\<lparr>delegated_grants := deactivated_delegated now i db\<rparr>))"
proof (cases "i \<le> 0")
  case True
  with r Refused show thesis by (simp add: deactivate_delegated_grant_in_tx_def)
next
  case False
  show thesis
  proof (cases "find (\<lambda>g. d_id g = i) (delegated_grants db)")
    case None
    then have "i \<notin> d_id ` set (delegated_grants db)" by (auto simp: find_None_iff)
    moreover have "r = (Inr None, db)" using r False None by (simp add: deactivate_delegated_grant_in_tx_def)
    ultimately show thesis by (rule Missing [rotated])
  next
    case (Some g)
    then have g: "g \<in> set (delegated_grants db)" "d_id g = i" by (auto dest: find_SomeD)
    let ?hit = "\<lambda>r. d_id r = i \<and> d_status r \<noteq> ''inactive''"
    have dist: "distinct (map d_id (delegated_grants db))" using wf by (simp add: policy_wf_def grants_wf_def)
    have flt: "filter ?hit (delegated_grants db) = (if d_status g \<noteq> ''inactive'' then [g] else [])"
      using filter_key [OF dist, of i] Some by simp
    have st: "d_status g = ''active'' \<or> d_status g = ''inactive''"
      using wf g(1) by (auto simp: policy_wf_def grants_wf_def status_ok_def)
    show thesis
    proof (cases "d_status g = ''inactive''")
      case True
      then have "sql_update ?hit (\<lambda>r. r\<lparr>d_status := ''inactive'', d_updated_at := now\<rparr>) (delegated_grants db) =
          delegated_grants db"
        using flt by (intro sql_update_none) (simp add: sql_count_def)
      then have "r = (Inr (Some 0), db)"
        using r False Some flt True unfolding deactivate_delegated_grant_in_tx_def Let_def
        by (simp add: sql_count_def)
      with True g show thesis using Inactive by blast
    next
      case act: False
      then have "r = (Inr (Some 1), record_event now a ''delegated'' i ''deactivate'' (delegated_row_scope g)
        (Some (d_status g)) ''inactive'' (db\<lparr>delegated_grants := deactivated_delegated now i db\<rparr>))"
        using r False Some flt unfolding deactivate_delegated_grant_in_tx_def Let_def
        by (simp add: sql_count_def deactivated_delegated_def)
      with act st g False show thesis using Done by (metis linorder_not_le)
    qed
  qed
qed

lemma deactivate_delegated_policy_wf:
  assumes wf: "policy_wf db"
  shows "policy_wf (snd (deactivate_delegated_grant_in_tx now a i db))"
proof (rule deactivate_delegated_cases [OF wf, of now a i, OF refl])
  fix g
  assume g: "g \<in> set (delegated_grants db)" "d_id g = i" "d_status g = ''active''"
    and r: "deactivate_delegated_grant_in_tx now a i db = (Inr (Some 1), record_event now a ''delegated'' i ''deactivate''
      (delegated_row_scope g) (Some (d_status g)) ''inactive'' (db\<lparr>delegated_grants := deactivated_delegated now i db\<rparr>))"
  have dist: "distinct (map d_id (delegated_grants db))" using wf by (simp add: policy_wf_def grants_wf_def)
  have "map d_id (deactivated_delegated now i db) = map d_id (delegated_grants db)"
    unfolding deactivated_delegated_def by (rule map_sql_update) simp
  then have ids: "d_id ` set (deactivated_delegated now i db) = d_id ` set (delegated_grants db)"
    by (metis list.set_map)
  have m: "(d_id x \<noteq> i \<and> x \<in> set (delegated_grants db)) \<or>
      (d_id x = i \<and> delegated_row_scope x = delegated_row_scope g \<and> d_status x = ''inactive'')"
    if x: "x \<in> set (deactivated_delegated now i db)" for x
  proof -
    obtain y where y: "y \<in> set (delegated_grants db)" "x = (if d_id y = i \<and> d_status y \<noteq> ''inactive''
        then y\<lparr>d_status := ''inactive'', d_updated_at := now\<rparr> else y)"
      using x unfolding deactivated_delegated_def set_sql_update by blast
    show ?thesis
    proof (cases "d_id y = i")
      case True
      then have "y = g" using distinct_key_eq [OF dist y(1) g(1)] g(2) by simp
      then show ?thesis using y(2) g(2,3) by (simp add: delegated_row_scope_def)
    qed (use y in simp)
  qed
  show ?thesis
    unfolding r snd_conv
  proof (rule policy_wf_delegated_change [OF wf])
    show "grants_wf (db\<lparr>delegated_grants := deactivated_delegated now i db\<rparr>)"
      unfolding deactivated_delegated_def using wf
      by (intro grants_wf_update_delegated) (simp_all add: policy_wf_def status_ok_def)
    show "i \<in> d_id ` set (deactivated_delegated now i db)" unfolding ids using g by blast
    show "d_id ` set (delegated_grants db) \<subseteq> d_id ` set (deactivated_delegated now i db)" by (simp add: ids)
  next
    fix x assume x: "x \<in> set (deactivated_delegated now i db)"
    show "d_id x \<noteq> i \<Longrightarrow> x \<in> set (delegated_grants db)" using m [OF x] by blast
    show "d_id x = i \<Longrightarrow> delegated_row_scope g = delegated_row_scope x \<and> ''inactive'' = d_status x"
      using m [OF x] by (elim disjE) simp_all
  qed
qed (use wf in simp_all)

section \<open>Interpretations\<close>

lemma policy_only_principal: "policy_only db (db\<lparr>principal_grants := pg\<rparr>)"
  by (simp add: policy_only_def)

lemma policy_only_delegated: "policy_only db (db\<lparr>delegated_grants := dg\<rparr>)"
  by (simp add: policy_only_def)

lemma consumption_wf_record: "consumption_wf (record_event now a st i op sc b af db) = consumption_wf db"
  by (rule consumption_wf_cong) simp_all

lemma consumption_wf_principal: "consumption_wf (db\<lparr>principal_grants := pg\<rparr>) = consumption_wf db"
  by (rule consumption_wf_cong) simp_all

lemma consumption_wf_new_delegated:
  assumes "consumption_wf db"
  shows "consumption_wf (db\<lparr>delegated_grants := delegated_grants db @ [new_delegated now q db]\<rparr>)"
proof -
  have c: "committed_receipt_exists (db\<lparr>delegated_grants := delegated_grants db @ [new_delegated now q db]\<rparr>) =
      committed_receipt_exists db"
    by (rule committed_receipt_cong) (simp_all add: table_exists_def)
  show ?thesis
    using assms new_delegated_facts(4,5) [of now q db] unfolding consumption_wf_def c by auto
qed

lemmas record_laws = policy_only_refl recorded_by_refl policy_only_record policy_only_principal
  policy_only_delegated recorded_by_record consumption_wf_record consumption_wf_principal

interpretation durable_create: admin_operation create_durable_grant_in_tx
proof
  fix db now a and r :: durable_create
  assume wf: "policy_wf db"
  show "policy_wf (snd (create_durable_grant_in_tx now a r db))" using wf by (rule create_durable_policy_wf)
  show "policy_only db (snd (create_durable_grant_in_tx now a r db))"
    by (rule create_durable_cases [of now a r db, OF refl]) (simp_all add: record_laws)
  show "recorded_by a db (snd (create_durable_grant_in_tx now a r db))"
    by (rule create_durable_cases [of now a r db, OF refl]) (simp_all add: record_laws)
  show "consumption_wf (snd (create_durable_grant_in_tx now a r db))" if "consumption_wf db"
    by (rule create_durable_cases [of now a r db, OF refl]) (use that in \<open>simp_all add: record_laws\<close>)
qed

interpretation durable_deactivate: admin_operation deactivate_durable_grant_in_tx
proof
  fix db now a and r :: int
  assume wf: "policy_wf db"
  note cases = deactivate_durable_cases [OF wf, of now a r, OF refl]
  show "policy_wf (snd (deactivate_durable_grant_in_tx now a r db))" using wf by (rule deactivate_durable_policy_wf)
  show "policy_only db (snd (deactivate_durable_grant_in_tx now a r db))"
    by (rule cases) (simp_all add: record_laws)
  show "recorded_by a db (snd (deactivate_durable_grant_in_tx now a r db))"
    by (rule cases) (simp_all add: record_laws)
  show "consumption_wf (snd (deactivate_durable_grant_in_tx now a r db))" if "consumption_wf db"
    by (rule cases) (use that in \<open>simp_all add: record_laws\<close>)
qed

interpretation delegated_create: admin_operation create_delegated_grant_in_tx
proof
  fix db now a and r :: delegated_create
  assume wf: "policy_wf db"
  note cases = create_delegated_cases [of now a r db, OF refl]
  show "policy_wf (snd (create_delegated_grant_in_tx now a r db))" using wf by (rule create_delegated_policy_wf)
  show "policy_only db (snd (create_delegated_grant_in_tx now a r db))"
    by (rule cases) (simp_all add: record_laws)
  show "recorded_by a db (snd (create_delegated_grant_in_tx now a r db))"
    by (rule cases) (simp_all add: record_laws)
  show "consumption_wf (snd (create_delegated_grant_in_tx now a r db))" if "consumption_wf db"
    by (rule cases) (use that in \<open>simp_all add: record_laws consumption_wf_new_delegated\<close>)
qed

interpretation delegated_deactivate: admin_operation deactivate_delegated_grant_in_tx
proof
  fix db now a and r :: int
  assume wf: "policy_wf db"
  note cases = deactivate_delegated_cases [OF wf, of now a r, OF refl]
  show "policy_wf (snd (deactivate_delegated_grant_in_tx now a r db))" using wf by (rule deactivate_delegated_policy_wf)
  show "policy_only db (snd (deactivate_delegated_grant_in_tx now a r db))"
    by (rule cases) (simp_all add: record_laws)
  show "recorded_by a db (snd (deactivate_delegated_grant_in_tx now a r db))"
    by (rule cases) (simp_all add: record_laws)
  show "consumption_wf (snd (deactivate_delegated_grant_in_tx now a r db))" if c: "consumption_wf db"
  proof -
    have "consumption_wf (db\<lparr>delegated_grants := deactivated_delegated now r db\<rparr>)"
      unfolding deactivated_delegated_def using c by (rule consumption_wf_update) simp_all
    with c show ?thesis by - (rule cases, simp_all add: record_laws)
  qed
qed

section \<open>The administration as one operation\<close>

text \<open>The eight public operations as data, for statements about all of them and about sequences.\<close>

datatype admin_call =
    CreateDurable administration_actor durable_create
  | CreateDurableAuthorized string principal string durable_create
  | DeactivateDurable administration_actor int
  | DeactivateDurableAuthorized string principal string int
  | CreateDelegated administration_actor delegated_create
  | CreateDelegatedAuthorized string principal string delegated_create
  | DeactivateDelegated administration_actor int
  | DeactivateDelegatedAuthorized string principal string int

fun admin_effect :: "int \<Rightarrow> admin_call \<Rightarrow> board \<Rightarrow> board" where
  "admin_effect now (CreateDurable a q) db = snd (create_durable_grant now a q db)"
| "admin_effect now (CreateDurableAuthorized s c p q) db = snd (create_durable_grant_authorized now s c p q db)"
| "admin_effect now (DeactivateDurable a i) db = snd (deactivate_durable_grant now a i db)"
| "admin_effect now (DeactivateDurableAuthorized s c p i) db = snd (deactivate_durable_grant_authorized now s c p i db)"
| "admin_effect now (CreateDelegated a q) db = snd (create_delegated_grant now a q db)"
| "admin_effect now (CreateDelegatedAuthorized s c p q) db = snd (create_delegated_grant_authorized now s c p q db)"
| "admin_effect now (DeactivateDelegated a i) db = snd (deactivate_delegated_grant now a i db)"
| "admin_effect now (DeactivateDelegatedAuthorized s c p i) db =
     snd (deactivate_delegated_grant_authorized now s c p i db)"

fun call_actor :: "admin_call \<Rightarrow> administration_actor" where
  "call_actor (CreateDurable a q) = a"
| "call_actor (CreateDurableAuthorized s c p q) = caller_actor s c p"
| "call_actor (DeactivateDurable a i) = a"
| "call_actor (DeactivateDurableAuthorized s c p i) = caller_actor s c p"
| "call_actor (CreateDelegated a q) = a"
| "call_actor (CreateDelegatedAuthorized s c p q) = caller_actor s c p"
| "call_actor (DeactivateDelegated a i) = a"
| "call_actor (DeactivateDelegatedAuthorized s c p i) = caller_actor s c p"

fun call_caller :: "admin_call \<Rightarrow> (principal \<times> string) option" where
  "call_caller (CreateDurableAuthorized s c p q) = Some (c, p)"
| "call_caller (DeactivateDurableAuthorized s c p i) = Some (c, p)"
| "call_caller (CreateDelegatedAuthorized s c p q) = Some (c, p)"
| "call_caller (DeactivateDelegatedAuthorized s c p i) = Some (c, p)"
| "call_caller _ = None"

lemmas admin_call_defs = create_durable_grant_def create_durable_grant_authorized_def
  deactivate_durable_grant_def deactivate_durable_grant_authorized_def create_delegated_grant_def
  create_delegated_grant_authorized_def deactivate_delegated_grant_def deactivate_delegated_grant_authorized_def

lemma admin_effect_keeps:
  "policy_wf db \<Longrightarrow> consumption_wf db \<Longrightarrow>
   policy_wf (admin_effect now call db) \<and> consumption_wf (admin_effect now call db)"
  by (cases call) (simp_all add: admin_call_defs durable_create.administer_keeps
      durable_deactivate.administer_keeps delegated_create.administer_keeps delegated_deactivate.administer_keeps)

lemma admin_effect_recorded:
  assumes "policy_wf db"
  shows "policy_only db (admin_effect now call db) \<and>
    (\<exists>es. authorization_admin_events (admin_effect now call db) = authorization_admin_events db @ es \<and>
       (\<forall>e \<in> set es. \<exists>a. normalize_actor (call_actor call) = Inr a \<and> event_by a e) \<and>
       (es = [] \<longrightarrow> admin_effect now call db = db))"
  using durable_create.administer_recorded [OF assms] durable_deactivate.administer_recorded [OF assms]
    delegated_create.administer_recorded [OF assms] delegated_deactivate.administer_recorded [OF assms]
  by (cases call) (simp_all add: admin_call_defs)

lemma admin_effect_denied:
  assumes "call_caller call = Some (c, p)" and "authorize_administration now db c p = Inl e"
  shows "admin_effect now call db = db"
  using assms
  by (cases call) (simp_all add: admin_call_defs durable_create.administer_refused_board
      durable_deactivate.administer_refused_board delegated_create.administer_refused_board
      delegated_deactivate.administer_refused_board)

section \<open>History windows\<close>

definition history_page :: "window_order \<Rightarrow> board \<times> string option \<Rightarrow> nat \<Rightarrow> int option \<Rightarrow> admin_event list \<times> bool" where
  "history_page order s limit cursor =
     truncate_window limit (history_rows (fst s) (snd s) order cursor cursor (limit + 1))"

definition participant_events :: "board \<times> string option \<Rightarrow> admin_event list" where
  "participant_events s = filter (\<lambda>e. case snd s of Some p \<Rightarrow> e_participant_id e = p | None \<Rightarrow> True)
     (authorization_admin_events (fst s))"

lemma participant_events_sorted:
  "history_wf db \<Longrightarrow> sorted_wrt (\<lambda>a b. e_id a < e_id b) (participant_events (db, p))"
  by (simp add: history_wf_def history_of_def participant_events_def sorted_wrt_map sorted_wrt_filter)

lemma sort_participant_events:
  assumes "history_wf db"
  shows "sort_key e_id (participant_events (db, p)) = participant_events (db, p)"
proof (rule sort_key_id_if_sorted)
  have "sorted_wrt (<) (map e_id (participant_events (db, p)))"
    using participant_events_sorted [OF assms] by (simp add: sorted_wrt_map)
  then show "sorted (map e_id (participant_events (db, p)))" by (simp add: strict_sorted_iff)
qed

interpretation history_asc: paged_store "\<lambda>s. history_wf (fst s)" participant_events e_id "(<)" "history_page Asc"
proof
  fix s :: "board \<times> string option"
  obtain db p where s: "s = (db, p)" by fastforce
  assume w: "history_wf (fst s)"
  then show "sorted_wrt (\<lambda>a b. e_id a < e_id b) (participant_events s)"
    unfolding s by (simp add: participant_events_sorted)
  show "history_page Asc s n k = truncate_window n (filter (beyond (<) e_id k) (participant_events s))" for n k
    unfolding s history_page_def history_rows_def Let_def fst_conv snd_conv window_order.case select_asc_eq
      truncate_fetched participant_events_def [of "(db, p)", unfolded fst_conv snd_conv, symmetric]
    using w s by (simp add: sort_participant_events)
qed auto

interpretation history_desc: paged_store "\<lambda>s. history_wf (fst s)" "\<lambda>s. rev (participant_events s)" e_id "(>)"
  "history_page Desc"
proof
  fix s :: "board \<times> string option"
  obtain db p where s: "s = (db, p)" by fastforce
  assume w: "history_wf (fst s)"
  then show "sorted_wrt (\<lambda>a b. e_id a > e_id b) (rev (participant_events s))"
    unfolding s by (simp add: participant_events_sorted sorted_wrt_rev)
  show "history_page Desc s n k = truncate_window n (filter (beyond (>) e_id k) (rev (participant_events s)))" for n k
    unfolding s history_page_def history_rows_def Let_def fst_conv snd_conv window_order.case select_desc_eq
      truncate_fetched participant_events_def [of "(db, p)", unfolded fst_conv snd_conv, symmetric]
    using w s by (simp add: sort_participant_events)
qed auto

section \<open>A sample administration\<close>

definition sample_admin_board :: board where
  "sample_admin_board = empty_board
     \<lparr>web_participants := [(new_participant 5 ''ada'' ''human'' None)\<lparr>p_role := ''admin''\<rparr>]\<rparr>"

definition sample_durable_create :: durable_create where
  "sample_durable_create = \<lparr>dc_principal_provider = ''github'', dc_principal_subject = ''u1'',
     dc_participant_id = ''ada'', dc_capability = ''post_message'', dc_resource = None\<rparr>"

lemma sample_admin_wf: "policy_wf sample_admin_board" "consumption_wf sample_admin_board"
  by (simp_all add: policy_wf_def grants_wf_def history_wf_def history_of_def consumption_wf_def
      sample_admin_board_def empty_board_def)

lemma sample_admin_schema: "schema_current sample_admin_board"
  by (simp add: schema_current_def sample_admin_board_def empty_board_def current_schema_def
      authorization_policy_snapshot_schema_current_def table_has_columns_def principal_grant_columns_def
      delegated_grant_columns_def admin_event_columns_def)

lemma sample_normalized:
  "normalize_actor local_cli = Inr \<lparr>na_surface = ''local-cli'', na_provider = None, na_subject = None,
     na_participant_id = None\<rparr>"
  "normalize_durable_grant_create_request sample_durable_create = Inr sample_durable_create"
proof -
  have n: "normalize ''local-cli'' 64 f = Inr ''local-cli''" "normalize ''github'' 256 f = Inr ''github''"
    "normalize ''u1'' 256 f = Inr ''u1''" "normalize ''post_message'' 128 f = Inr ''post_message''" for f
    by (simp_all add: normalize_def trim_graphic graphic_def ascii_simps ascii_control_def)
  have v: "validate_participant_id ''ada'' = Some ''ada''" by code_simp
  show "normalize_actor local_cli = Inr \<lparr>na_surface = ''local-cli'', na_provider = None, na_subject = None,
     na_participant_id = None\<rparr>"
    by (simp add: normalize_actor_def local_cli_def try_bind_def MAX_SURFACE_BYTES_def n transpose_opt_def)
  show "normalize_durable_grant_create_request sample_durable_create = Inr sample_durable_create"
    by (simp add: normalize_durable_grant_create_request_def sample_durable_create_def try_bind_def n v ok_or_def
        MAX_PROVIDER_BYTES_def MAX_SUBJECT_BYTES_def MAX_CAPABILITY_BYTES_def normalize_optional_def
        is_known_capability_def KNOWN_CAPABILITIES_def capability_names)
qed

lemma sample_tx:
  "\<exists>d. create_durable_grant_in_tx 9 a sample_durable_create sample_admin_board = (Inr (1, Created), d) \<and>
     principal_grants d \<noteq> []"
proof -
  have b: "principal_grants sample_admin_board = []"
    "web_participants sample_admin_board = [(new_participant 5 ''ada'' ''human'' None)\<lparr>p_role := ''admin''\<rparr>]"
    by (simp_all add: sample_admin_board_def empty_board_def)
  have "dc_participant_id sample_durable_create = ''ada''" by (simp add: sample_durable_create_def)
  then show ?thesis
    by (simp add: create_durable_grant_in_tx_def require_active_participant_def b new_participant_def
        next_rowid_def Let_def)
qed

lemma sample_created:
  "\<exists>db'. create_durable_grant 9 local_cli sample_durable_create sample_admin_board = (Inr (1, Created), db')"
  using sample_tx [of "\<lparr>na_surface = ''local-cli'', na_provider = None, na_subject = None, na_participant_id = None\<rparr>"]
  by (auto simp: create_durable_grant_def administer_def require_schema_current_def sample_admin_schema
      sample_normalized commit_def)

section \<open>Properties\<close>

text \<open>C29: The administration history explains the policy: after any sequence of the eight administration
  calls (by anyone, allowed or not) durable scopes stay unique, every grant's last recorded event has
  exactly the grant's scope and current status, and no grant is consumed without a committed receipt.\<close>

theorem history_explains_policy:
  assumes "policy_wf db" and "consumption_wf db"
    and "db' = fold (\<lambda>(now, call). admin_effect now call) calls db"
  shows "distinct (map scope_of (principal_grants db')) \<and> consumption_wf db' \<and>
    (\<forall>g \<in> set (principal_grants db'). \<exists>e. last_event (authorization_admin_events db') ''durable'' (g_id g) = Some e \<and>
       event_scope e = durable_row_scope g \<and> e_after_status e = g_status g) \<and>
    (\<forall>g \<in> set (delegated_grants db'). \<exists>e. last_event (authorization_admin_events db') ''delegated'' (d_id g) = Some e \<and>
       event_scope e = delegated_row_scope g \<and> e_after_status e = d_status g)"
proof -
  have "policy_wf db' \<and> consumption_wf db'"
    unfolding assms(3) using assms(1,2)
    by (induction calls arbitrary: db) (auto simp: admin_effect_keeps)
  then show ?thesis by (simp add: policy_wf_def history_wf_def history_of_def explained_def)
qed

theorem history_explains_policy_witness:
  "let db' = fold (\<lambda>(now, call). admin_effect now call)
     [(9, CreateDurable local_cli sample_durable_create), (10, DeactivateDurable local_cli 1)] sample_admin_board
   in distinct (map scope_of (principal_grants db')) \<and> consumption_wf db'"
  using history_explains_policy [OF sample_admin_wf refl] unfolding Let_def by blast

text \<open>The authorized calls act only for callers who may manage the policy: if one changes anything then
  the declarative policy allows its caller \<open>manage_authorization_policy\<close> on the administration
  resource, and every change is recorded in new events that name the caller.\<close>

theorem authorized_administration_is_authorized:
  assumes "policy_wf db" and "consumption_wf db" and "call_caller call = Some (c, p)"
    and "admin_effect now call db \<noteq> db"
  shows "policy_allows now db c p ''manage_authorization_policy'' (Some ''authorization-policy-administration'') None \<and>
    policy_only db (admin_effect now call db) \<and>
    (\<exists>es. es \<noteq> [] \<and> authorization_admin_events (admin_effect now call db) = authorization_admin_events db @ es \<and>
       (\<forall>e \<in> set es. e_actor_provider e = Some (trim (provider c)) \<and> e_actor_subject e = Some (trim (subject c)) \<and>
          e_actor_participant_id e = Some (trim p)))"
proof -
  have "authorize_administration now db c p = Inr ()"
    using admin_effect_denied [OF assms(3)] assms(4) by (cases "authorize_administration now db c p") auto
  then have "\<exists>d. explain_authorization now db c p MANAGE_AUTHORIZATION_POLICY
      (Some AUTHORIZATION_POLICY_ADMIN_RESOURCE) None = Inr d \<and> ad_allowed d"
    by (auto simp: authorize_administration_def split: sum.splits if_splits)
  then have "ad_allowed (evaluate_authorization_current_schema now db c p MANAGE_AUTHORIZATION_POLICY
      (Some AUTHORIZATION_POLICY_ADMIN_RESOURCE) None)"
    by (auto simp: explain_authorization_def split: if_splits)
  then have allows: "policy_allows now db c p ''manage_authorization_policy'' (Some ''authorization-policy-administration'') None"
    using evaluate_allowed_iff [OF assms(2)]
    by (simp add: MANAGE_AUTHORIZATION_POLICY_def AUTHORIZATION_POLICY_ADMIN_RESOURCE_def)
  obtain surface where caller: "call_actor call = caller_actor surface c p"
    using assms(3) by (cases call) auto
  have named: "e_actor_provider e = Some (trim (provider c)) \<and> e_actor_subject e = Some (trim (subject c)) \<and>
      e_actor_participant_id e = Some (trim p)" if "normalize_actor (call_actor call) = Inr a" "event_by a e" for a e
    using that unfolding caller caller_actor_def normalize_actor_def try_bind_def normalize_def Let_def
    by (auto simp: event_by_def transpose_opt_Inr split: sum.splits if_splits)
      (erule validate_participant_id_trim [THEN conjunct1])
  show ?thesis
    using allows admin_effect_recorded [OF assms(1), of now call] assms(4) named by blast
qed

theorem authorized_administration_is_authorized_witness:
  "policy_allows 9 sample_admin_board \<lparr>provider = ''human-web'', subject = ''ada''\<rparr> ''ada''
     ''manage_authorization_policy'' (Some ''authorization-policy-administration'') None"
proof -
  let ?c = "\<lparr>provider = ''human-web'', subject = ''ada''\<rparr>"
  let ?a = "\<lparr>na_surface = ''web'', na_provider = Some ''human-web'', na_subject = Some ''ada'',
    na_participant_id = Some ''ada''\<rparr>"
  have na: "normalize_actor (caller_actor ''web'' ?c ''ada'') = Inr ?a"
  proof -
    have "normalize ''web'' 64 f = Inr ''web''" "normalize ''human-web'' 256 f = Inr ''human-web''"
      "normalize ''ada'' 256 f = Inr ''ada''" for f
      by (simp_all add: normalize_def trim_graphic graphic_def ascii_simps ascii_control_def)
    moreover have "validate_participant_id ''ada'' = Some ''ada''" by code_simp
    ultimately show ?thesis
      by (simp add: normalize_actor_def caller_actor_def try_bind_def MAX_SURFACE_BYTES_def MAX_PROVIDER_BYTES_def
          MAX_SUBJECT_BYTES_def transpose_opt_def)
  qed
  have "authorization_decision_schema_current sample_admin_board"
    by (simp add: authorization_decision_schema_current_def table_has_columns_def sample_admin_board_def
        empty_board_def current_schema_def principal_grant_columns_def delegated_grant_columns_def)
  then have auth: "authorize_administration 9 sample_admin_board ?c ''ada'' = Inr ()"
    by (simp add: authorize_administration_def explain_authorization_def evaluate_authorization_current_schema_def
        participant_policy_row_def sql_count_def implicit_authority_reason_def capability_names
        sample_admin_board_def empty_board_def new_participant_def)
  obtain d where d: "create_durable_grant_in_tx 9 ?a sample_durable_create sample_admin_board = (Inr (1, Created), d)"
    "principal_grants d \<noteq> []" using sample_tx by blast
  have "admin_effect 9 (CreateDurableAuthorized ''web'' ?c ''ada'' sample_durable_create) sample_admin_board = d"
    by (simp add: create_durable_grant_authorized_def administer_def require_schema_current_def
        sample_admin_schema na sample_normalized auth commit_def d(1))
  moreover have "principal_grants sample_admin_board = []" by (simp add: sample_admin_board_def empty_board_def)
  ultimately have "admin_effect 9 (CreateDurableAuthorized ''web'' ?c ''ada'' sample_durable_create) sample_admin_board
      \<noteq> sample_admin_board" using d(2) by metis
  from authorized_administration_is_authorized [OF sample_admin_wf _ this] show ?thesis by simp
qed

section \<open>Effects of the calls\<close>

lemma policy_only_frame:
  "policy_only db db' \<Longrightarrow> web_participants db' = web_participants db \<and> schema db' = schema db \<and>
     messages db' = messages db \<and> execution_receipts db' = execution_receipts db"
proof -
  assume "policy_only db db'"
  then have eq: "db' = db\<lparr>principal_grants := principal_grants db', delegated_grants := delegated_grants db',
      authorization_admin_events := authorization_admin_events db'\<rparr>" by (simp only: policy_only_def)
  show ?thesis by (intro conjI; subst eq; simp)
qed

lemma schema_current_cong: "schema db = schema db' \<Longrightarrow> schema_current db = schema_current db'"
  by (simp add: schema_current_def authorization_policy_snapshot_schema_current_def table_has_columns_def)

lemma require_active_cong:
  "web_participants db = web_participants db' \<Longrightarrow> require_active_participant db = require_active_participant db'"
  by (intro ext) (simp add: require_active_participant_def)

lemma create_durable_post:
  assumes "create_durable_grant_in_tx now a r db = (Inr (i, st), db')"
  shows "require_active_participant db (dc_participant_id r) = Inr () \<and>
    (\<exists>g \<in> set (principal_grants db'). g_id g = i \<and> scope_of g = request_scope_key r \<and> g_status g = ''active'')"
proof (rule create_durable_cases [OF assms])
  fix g
  assume g: "g \<in> set (principal_grants db)" "scope_of g = request_scope_key r"
    and act: "require_active_participant db (dc_participant_id r) = Inr ()"
    and eq: "(Inr (i, st), db') = (Inr (g_id g, Reactivated), record_event now a ''durable'' (g_id g) ''reactivate''
      (durable_request_scope r) (Some ''inactive'') ''active''
      (db\<lparr>principal_grants := reactivate_durable now (g_id g) db\<rparr>))"
  let ?g = "g\<lparr>g_status := ''active'', g_updated_at := now\<rparr>"
  have "?g \<in> set (reactivate_durable now (g_id g) db)"
    unfolding reactivate_durable_def set_sql_update using g(1) by (intro bexI [of _ g]) simp_all
  moreover have "principal_grants db' = reactivate_durable now (g_id g) db" "i = g_id g" using eq by simp_all
  ultimately show ?thesis using g act by (auto simp: scope_of_def intro!: bexI [of _ ?g])
next
  assume act: "require_active_participant db (dc_participant_id r) = Inr ()"
    and eq: "(Inr (i, st), db') = (Inr (g_id (new_durable now r db), Created), record_event now a ''durable''
      (g_id (new_durable now r db)) ''create'' (durable_request_scope r) None ''active''
      (db\<lparr>principal_grants := principal_grants db @ [new_durable now r db]\<rparr>))"
  have "principal_grants db' = principal_grants db @ [new_durable now r db]" "i = g_id (new_durable now r db)"
    using eq by simp_all
  then show ?thesis using act by (auto simp: new_durable_def scope_of_def request_scope_key_def)
qed auto

lemma create_durable_again:
  assumes wf: "policy_wf db" and g: "g \<in> set (principal_grants db)" "scope_of g = request_scope_key r"
    "g_status g = ''active''" and act: "require_active_participant db (dc_participant_id r) = Inr ()"
  shows "create_durable_grant_in_tx now a r db = (Inr (g_id g, Existing), db)"
proof (rule create_durable_cases [of now a r db, OF refl])
  fix x
  assume "x \<in> set (principal_grants db)" "scope_of x = request_scope_key r"
    and r: "create_durable_grant_in_tx now a r db = (Inr (g_id x, Existing), db)"
  then have "x = g" using distinct_key_eq [of scope_of "principal_grants db" x g] wf g by (simp add: policy_wf_def)
  then show ?thesis using r by simp
qed (use g act in auto)

lemma create_durable_grant_tx:
  assumes "create_durable_grant now actor q db = (Inr y, db')"
  obtains a r where "schema_current db" "normalize_actor actor = Inr a"
    "normalize_durable_grant_create_request q = Inr r" "create_durable_grant_in_tx now a r db = (Inr y, db')"
  using durable_create.administer_cases [OF assms [unfolded create_durable_grant_def]] that by auto

text \<open>Creating a durable grant takes effect and is idempotent: afterwards the principal is allowed the
  capability on the granted resource (on every resource when none was named) because of a durable
  grant, whatever the intent, and the same request again reports the same grant as existing and
  changes nothing.\<close>

theorem created_grant_effective:
  assumes "policy_wf db" and "create_durable_grant now actor q db = (Inr (i, st), db')"
    and "normalize_durable_grant_create_request q = Inr r"
    and "d = evaluate_authorization_current_schema t db'
      \<lparr>provider = dc_principal_provider r, subject = dc_principal_subject r\<rparr> (dc_participant_id r)
      (dc_capability r) res intent"
    and "dc_resource r = None \<or> res = dc_resource r"
  shows "ad_allowed d \<and> ad_source d = ''principal_grants'' \<and>
    create_durable_grant now' actor q db' = (Inr (i, Existing), db')"
proof -
  obtain a where tx: "create_durable_grant_in_tx now a r db = (Inr (i, st), db')" and sch: "schema_current db"
    and a: "normalize_actor actor = Inr a"
    by (rule create_durable_grant_tx [OF assms(2)]) (use assms(3) in auto)
  have frame: "web_participants db' = web_participants db" "schema db' = schema db"
    using policy_only_frame [OF durable_create.changes_policy_only [OF assms(1), of now a r]] tx by simp_all
  have wf': "policy_wf db'" using durable_create.keeps_wf [OF assms(1), of now a r] tx by simp
  obtain g where g: "g \<in> set (principal_grants db')" "g_id g = i" "scope_of g = request_scope_key r"
      "g_status g = ''active''" and act: "require_active_participant db (dc_participant_id r) = Inr ()"
    using create_durable_post [OF tx] by blast
  have act': "require_active_participant db' (dc_participant_id r) = Inr ()"
    using act require_active_cong [OF frame(1)] by simp
  then obtain row where row: "participant_policy_row db' (dc_participant_id r) = Some row" "pp_status row = ''active''"
    by (auto simp: require_active_participant_def participant_policy_row_def split: option.splits if_splits)
  let ?who = "\<lparr>provider = dc_principal_provider r, subject = dc_principal_subject r\<rparr>"
  have sc: "durable_in_scope ?who (dc_participant_id r) (dc_capability r) g"
    and rs: "g_resource g = dc_resource r"
    using g(3,4) by (simp_all add: durable_in_scope_def scope_of_def request_scope_key_def)
  have "sql_resource_match res (g_resource g)"
    using rs assms(5) by (cases "dc_resource r") (auto simp: sql_resource_match_def)
  then obtain k where "explicit_match db' ?who (dc_participant_id r) (dc_capability r) res = Some k"
    using explicit_match_iff [of db' ?who "dc_participant_id r" "dc_capability r" res] g(1) sc by blast
  then have "d = allow ''principal_grants'' ''explicit_durable_grant_match'' (Some k) None"
    using row g(1) sc assms(4) by (auto simp: evaluate_cases)
  moreover have "create_durable_grant now' actor q db' = (Inr (i, Existing), db')"
    using create_durable_again [OF wf' g(1,3,4) act', of now' a] a assms(3) g(2) sch schema_current_cong [OF frame(2)]
    by (simp add: create_durable_grant_def administer_def require_schema_current_def commit_def)
  ultimately show ?thesis by simp
qed

theorem created_grant_effective_witness:
  "\<exists>db'. create_durable_grant 9 local_cli sample_durable_create sample_admin_board = (Inr (1, Created), db') \<and>
     create_durable_grant 10 local_cli sample_durable_create db' = (Inr (1, Existing), db')"
proof -
  obtain db' where c: "create_durable_grant 9 local_cli sample_durable_create sample_admin_board = (Inr (1, Created), db')"
    using sample_created by blast
  from created_grant_effective [OF sample_admin_wf(1) c sample_normalized(2) refl, of None 10]
  show ?thesis using c by (auto simp: sample_durable_create_def)
qed

text \<open>Deactivating a durable grant revokes it: afterwards no grant of its scope is active, grants of other
  scopes are untouched, no decision ever cites the grant, and at most one row changed.\<close>

theorem deactivated_grant_revoked:
  assumes "policy_wf db" and "deactivate_durable_grant now actor i db = (Inr (Some n), db')"
  shows "n \<le> 1 \<and> (\<exists>g \<in> set (principal_grants db). g_id g = i \<and>
      (\<forall>x \<in> set (principal_grants db'). scope_of x = scope_of g \<longrightarrow> g_status x = ''inactive'') \<and>
      (\<forall>x \<in> set (principal_grants db). scope_of x \<noteq> scope_of g \<longrightarrow> x \<in> set (principal_grants db'))) \<and>
    (\<forall>d t who p c res intent. d = evaluate_authorization_current_schema t db' who p c res intent \<longrightarrow>
      ad_allowed d \<longrightarrow> ad_source d = ''principal_grants'' \<longrightarrow> ad_grant_id d \<noteq> Some i)"
proof -
  obtain a where tx: "deactivate_durable_grant_in_tx now a i db = (Inr (Some n), db')"
    using durable_deactivate.administer_cases [OF assms(2) [unfolded deactivate_durable_grant_def]] by auto
  have wf': "policy_wf db'" using durable_deactivate.keeps_wf [OF assms(1), of now a i] tx by simp
  have main: "n \<le> 1 \<and> (\<exists>g \<in> set (principal_grants db). g_id g = i \<and>
      (\<forall>x \<in> set (principal_grants db'). scope_of x = scope_of g \<longrightarrow> g_status x = ''inactive'') \<and>
      (\<forall>x \<in> set (principal_grants db). scope_of x \<noteq> scope_of g \<longrightarrow> x \<in> set (principal_grants db')) \<and>
      (\<forall>x \<in> set (principal_grants db'). g_id x = i \<longrightarrow> g_status x = ''inactive''))"
  proof (rule deactivate_durable_cases [OF assms(1) tx])
    fix g assume g: "g \<in> set (principal_grants db)" "g_id g = i" "g_status g = ''inactive''"
      and r: "(Inr (Some n), db') = (Inr (Some 0), db)"
    have d: "distinct (map scope_of (principal_grants db))" "distinct (map g_id (principal_grants db))"
      using assms(1) by (simp_all add: policy_wf_def grants_wf_def)
    then show ?thesis using g r distinct_key_eq [OF d(1)] distinct_key_eq [OF d(2)]
      by (intro conjI bexI [of _ g]) auto
  next
    fix g assume g: "g \<in> set (principal_grants db)" "g_id g = i" "g_status g = ''active''"
      and r: "(Inr (Some n), db') = (Inr (Some 1), record_event now a ''durable'' i ''deactivate''
        (durable_row_scope g) (Some ''active'') ''inactive'' (db\<lparr>principal_grants := deactivated_durable now g db\<rparr>))"
    then have pg: "principal_grants db' = deactivated_durable now g db" and n: "n = 1" by simp_all
    have keep: "x \<in> set (deactivated_durable now g db)" if "x \<in> set (principal_grants db)" "scope_of x \<noteq> scope_of g" for x
      unfolding deactivated_durable_def set_sql_update using that by (intro bexI [of _ x]) simp_all
    have off: "g_status x = ''inactive''" if x: "x \<in> set (deactivated_durable now g db)"
      and s: "scope_of x = scope_of g \<or> g_id x = i" for x
    proof -
      have "distinct (map scope_of (principal_grants db))" using assms(1) by (simp add: policy_wf_def)
      then have "g_id x \<noteq> g_id g \<Longrightarrow> x \<in> set (principal_grants db) \<Longrightarrow> scope_of x \<noteq> scope_of g"
        using distinct_key_eq [of scope_of "principal_grants db" x g] g(1) by blast
      then show ?thesis using deactivated_durable_mem [OF assms(1) g(1) x] s g(2) by metis
    qed
    show ?thesis using n keep off g by (intro conjI bexI [of _ g]) (auto simp: pg)
  qed auto
  moreover have "ad_grant_id d \<noteq> Some i" if "d = evaluate_authorization_current_schema t db' who p c res intent"
    "ad_allowed d" "ad_source d = ''principal_grants''" for d t who p c res intent
  proof (rule evaluate_evidence [OF that(1,2)])
    fix g assume "g \<in> set (principal_grants db')" "ad_grant_id d = Some (g_id g)" "durable_in_scope who p c g"
    then show ?thesis using main by (auto simp: durable_in_scope_def)
  qed (use that(3) in \<open>auto simp: delegated_verdict_simps\<close>)
  ultimately show ?thesis by blast
qed

theorem deactivated_grant_revoked_witness:
  "\<exists>db1 db2. create_durable_grant 9 local_cli sample_durable_create sample_admin_board = (Inr (1, Created), db1) \<and>
     deactivate_durable_grant 10 local_cli 1 db1 = (Inr (Some 1), db2) \<and>
     (\<exists>g \<in> set (principal_grants db1). g_id g = 1 \<and>
        (\<forall>x \<in> set (principal_grants db2). scope_of x = scope_of g \<longrightarrow> g_status x = ''inactive''))"
proof -
  obtain db1 where c: "create_durable_grant 9 local_cli sample_durable_create sample_admin_board = (Inr (1, Created), db1)"
    using sample_created by blast
  obtain a where tx: "create_durable_grant_in_tx 9 a sample_durable_create sample_admin_board = (Inr (1, Created), db1)"
    and a: "normalize_actor local_cli = Inr a" 
    by (rule create_durable_grant_tx [OF c]) (use sample_normalized(2) in auto)
  have wf: "policy_wf db1" using durable_create.keeps_wf [OF sample_admin_wf(1), of 9 a sample_durable_create] tx by simp
  have "schema db1 = schema sample_admin_board"
    using policy_only_frame [OF durable_create.changes_policy_only [OF sample_admin_wf(1), of 9 a sample_durable_create]] tx by simp
  then have sch: "schema_current db1" using sample_admin_schema schema_current_cong by blast
  obtain g where g: "g \<in> set (principal_grants db1)" "g_id g = 1" "g_status g = ''active''"
    using create_durable_post [OF tx] by blast
  have d: "distinct (map g_id (principal_grants db1))" using wf by (simp add: policy_wf_def grants_wf_def)
  obtain db2 where t: "deactivate_durable_grant_in_tx 10 a 1 db1 = (Inr (Some 1), db2)"
  proof (rule deactivate_durable_cases [OF wf, of 10 a 1, OF refl])
    fix x assume "x \<in> set (principal_grants db1)" "g_id x = 1" "g_status x = ''inactive''"
    then show thesis using distinct_key_eq [OF d _ g(1)] g(2,3) by auto
  qed (use that g in \<open>auto simp: deactivate_durable_grant_in_tx_def\<close>)
  then have del: "deactivate_durable_grant 10 local_cli 1 db1 = (Inr (Some 1), db2)"
    by (simp add: deactivate_durable_grant_def administer_def require_schema_current_def sch a commit_def)
  from c del deactivated_grant_revoked [OF wf del] show ?thesis by blast
qed

section \<open>Windows over the history\<close>

lemma history_window_answer:
  assumes "schema_current db" and "transpose_opt InvalidQuery validate_participant_id who = Inr who"
    and "\<not> (n < 1 \<or> MAX_ADMINISTRATION_HISTORY_WINDOW_SIZE < n)"
    and "\<not> (case cursor of Some v \<Rightarrow> v \<le> 0 | None \<Rightarrow> False)"
  shows "\<exists>w. read_administration_event_window db \<lparr>hw_participant_id = who, hw_before = None, hw_after = cursor,
        hw_limit = Some n, hw_order = Some ''asc''\<rparr> = Inr w \<and>
      (hr_events w, hr_has_more w) = history_page Asc (db, who) n cursor"
    "\<exists>w. read_administration_event_window db \<lparr>hw_participant_id = who, hw_before = cursor, hw_after = None,
        hw_limit = Some n, hw_order = Some ''desc''\<rparr> = Inr w \<and>
      (hr_events w, hr_has_more w) = history_page Desc (db, who) n cursor"
proof -
  have o: "window_order_parse (Some ''asc'') = Some Asc" "window_order_parse (Some ''desc'') = Some Desc"
    by (simp_all add: window_order_parse_def)
  have rows: "history_rows db who Asc None cursor m = history_rows db who Asc cursor cursor m"
    "history_rows db who Desc cursor None m = history_rows db who Desc cursor cursor m" for m
    by (simp_all add: history_rows_def)
  show "\<exists>w. read_administration_event_window db \<lparr>hw_participant_id = who, hw_before = None, hw_after = cursor,
        hw_limit = Some n, hw_order = Some ''asc''\<rparr> = Inr w \<and>
      (hr_events w, hr_has_more w) = history_page Asc (db, who) n cursor"
    unfolding read_administration_event_window_def history_page_def history_window_request.select_convs
    using assms(3,4) by (simp add: assms(1,2) o rows case_prod_beta Let_def del: One_nat_def)
  show "\<exists>w. read_administration_event_window db \<lparr>hw_participant_id = who, hw_before = cursor, hw_after = None,
        hw_limit = Some n, hw_order = Some ''desc''\<rparr> = Inr w \<and>
      (hr_events w, hr_has_more w) = history_page Desc (db, who) n cursor"
    unfolding read_administration_event_window_def history_page_def history_window_request.select_convs
    using assms(3,4) by (simp add: assms(1,2) o rows case_prod_beta Let_def del: One_nat_def)
qed

text \<open>The administration history is read completely: for a participant filter that is absent or a valid id
  and every window size the surface accepts, reading on with the last event id as the cursor until
  \<open>has_more\<close> is false returns every recorded event of the filter exactly once, oldest first in ascending
  and newest first in descending order, and each answer of the surface is one of these windows.\<close>

theorem history_windows_complete:
  assumes "policy_wf db" and "schema_current db" and "\<forall>p. who = Some p \<longrightarrow> validate_participant_id p = Some p"
    and "1 \<le> n" and "n \<le> MAX_ADMINISTRATION_HISTORY_WINDOW_SIZE" and "\<forall>c. cursor = Some c \<longrightarrow> 0 < c"
  shows "drain (Suc (length (participant_events (db, who)))) (history_page Asc (db, who) n) e_id None =
      Some (participant_events (db, who)) \<and>
    drain (Suc (length (participant_events (db, who)))) (history_page Desc (db, who) n) e_id None =
      Some (rev (participant_events (db, who))) \<and>
    (\<exists>w. read_administration_event_window db \<lparr>hw_participant_id = who, hw_before = None, hw_after = cursor,
        hw_limit = Some n, hw_order = Some ''asc''\<rparr> = Inr w \<and>
      (hr_events w, hr_has_more w) = history_page Asc (db, who) n cursor) \<and>
    (\<exists>w. read_administration_event_window db \<lparr>hw_participant_id = who, hw_before = cursor, hw_after = None,
        hw_limit = Some n, hw_order = Some ''desc''\<rparr> = Inr w \<and>
      (hr_events w, hr_has_more w) = history_page Desc (db, who) n cursor)"
proof -
  have wf: "history_wf (fst (db, who))" using assms(1) by (simp add: policy_wf_def)
  have n: "0 < n" using assms(4) by simp
  have v: "transpose_opt InvalidQuery validate_participant_id who = Inr who"
    using assms(3) by (cases who) (simp_all add: transpose_opt_def)
  have c: "\<not> (case cursor of Some v \<Rightarrow> v \<le> 0 | None \<Rightarrow> False)" and l: "\<not> (n < 1 \<or> MAX_ADMINISTRATION_HISTORY_WINDOW_SIZE < n)"
    using assms(4,5,6) by (auto split: option.splits)
  note answer = history_window_answer [OF assms(2) v l c]
  show ?thesis
    by (intro conjI history_asc.drain_all [OF wf n] history_desc.drain_all [OF wf n, unfolded length_rev] answer
        lessI)
qed

theorem history_windows_complete_witness:
  "(\<exists>w. read_administration_event_window sample_admin_board \<lparr>hw_participant_id = Some ''ada'', hw_before = None,
     hw_after = Some 3, hw_limit = Some 20, hw_order = Some ''asc''\<rparr> = Inr w \<and>
     (hr_events w, hr_has_more w) = history_page Asc (sample_admin_board, Some ''ada'') 20 (Some 3))"
proof -
  have "validate_participant_id ''ada'' = Some ''ada''" by code_simp
  then have p: "\<forall>p. Some ''ada'' = Some p \<longrightarrow> validate_participant_id p = Some p" by simp
  have l: "1 \<le> (20 :: nat)" "20 \<le> MAX_ADMINISTRATION_HISTORY_WINDOW_SIZE"
    by (simp_all add: MAX_ADMINISTRATION_HISTORY_WINDOW_SIZE_def)
  have c: "\<forall>c. Some (3 :: int) = Some c \<longrightarrow> 0 < c" by simp
  from history_windows_complete [OF sample_admin_wf(1) sample_admin_schema p l c] show ?thesis by blast
qed

section \<open>Delegated grants with unknown capabilities\<close>

lemma audit_valid_delegated:
  "audit_authorization_integrity db = Inr report \<Longrightarrow> ir_valid report \<Longrightarrow> g \<in> set (delegated_grants db) \<Longrightarrow>
   delegated_ok (p_participant_id ` set (web_participants db)) g"
  by (auto simp: audit_authorization_integrity_def Let_def sort_key_Nil_iff delegated_violations_Nil
      split: if_splits)

lemma create_delegated_grant_tx:
  assumes "create_delegated_grant now actor q db = (Inr y, db')"
  obtains a r where "normalize_actor actor = Inr a"
    "normalize_delegated_grant_create_request q = Inr r" "create_delegated_grant_in_tx now a r db = (Inr y, db')"
  using delegated_create.administer_cases [OF assms [unfolded create_delegated_grant_def]] that by auto

text \<open>The creation of a delegated grant does not check that the capability is known: when the request's
  normalized capability is not one of the known capabilities and the creation succeeds, the integrity
  audit of the resulting board does not report a valid policy, whatever it reported before.\<close>

theorem unknown_delegated_capability_breaks_audit:
  assumes "create_delegated_grant now actor q db = (Inr i, db')"
    and "normalize_delegated_grant_create_request q = Inr r" and "\<not> is_known_capability (lc_capability r)"
    and "audit_authorization_integrity db' = Inr report"
  shows "\<not> ir_valid report \<and> (\<exists>g \<in> set (delegated_grants db'). d_id g = i \<and> d_capability g = lc_capability r \<and>
    d_status g = ''active'')"
proof -
  obtain a where tx: "create_delegated_grant_in_tx now a r db = (Inr i, db')"
    by (rule create_delegated_grant_tx [OF assms(1)]) (use assms(2) in auto)
  have "new_delegated now r db \<in> set (delegated_grants db') \<and> i = d_id (new_delegated now r db)"
    by (rule create_delegated_cases [OF tx]) simp_all
  moreover have "d_capability (new_delegated now r db) = lc_capability r" by (simp add: new_delegated_def)
  moreover have "d_status (new_delegated now r db) = ''active''" by (rule new_delegated_facts)
  moreover have "\<not> delegated_ok P (new_delegated now r db)" for P
    using assms(3) by (simp add: delegated_ok_def new_delegated_def)
  ultimately show ?thesis using audit_valid_delegated [OF assms(4)] by blast
qed

definition sample_delegated_create :: delegated_create where
  "sample_delegated_create = \<lparr>lc_principal_provider = ''github'', lc_principal_subject = ''u1'',
     lc_participant_id = ''ada'', lc_capability = ''fly'', lc_resource = None, lc_intent_id = None,
     lc_expires_at = None, lc_one_shot = True\<rparr>"

lemma sample_delegated_normalized:
  "normalize_delegated_grant_create_request sample_delegated_create = Inr sample_delegated_create"
proof -
  have n: "normalize ''github'' 256 f = Inr ''github''"
    "normalize ''u1'' 256 f = Inr ''u1''" "normalize ''fly'' 128 f = Inr ''fly''" for f
    by (simp_all add: normalize_def trim_graphic graphic_def ascii_simps ascii_control_def)
  have v: "validate_participant_id ''ada'' = Some ''ada''" by code_simp
  show ?thesis
    by (simp add: normalize_delegated_grant_create_request_def sample_delegated_create_def try_bind_def n v ok_or_def
        MAX_PROVIDER_BYTES_def MAX_SUBJECT_BYTES_def MAX_CAPABILITY_BYTES_def normalize_optional_def transpose_opt_def)
qed

lemma sample_delegated_tx:
  "\<exists>db'. create_delegated_grant_in_tx 9 a sample_delegated_create sample_admin_board = (Inr 1, db') \<and>
     schema db' = schema sample_admin_board"
proof -
  have b: "delegated_grants sample_admin_board = []"
    "web_participants sample_admin_board = [(new_participant 5 ''ada'' ''human'' None)\<lparr>p_role := ''admin''\<rparr>]"
    by (simp_all add: sample_admin_board_def empty_board_def)
  have q: "lc_participant_id sample_delegated_create = ''ada''" "lc_expires_at sample_delegated_create = None"
    by (simp_all add: sample_delegated_create_def)
  obtain i db' where tx: "create_delegated_grant_in_tx 9 a sample_delegated_create sample_admin_board = (Inr i, db')" "i = 1"
    by (simp add: create_delegated_grant_in_tx_def require_active_participant_def b q new_participant_def
        next_rowid_def Let_def)
  then show ?thesis
    using policy_only_frame [OF delegated_create.changes_policy_only [OF sample_admin_wf(1), of 9 a sample_delegated_create]]
    by simp
qed

theorem unknown_delegated_capability_breaks_audit_witness:
  "\<exists>db' report. create_delegated_grant 9 local_cli sample_delegated_create sample_admin_board = (Inr 1, db') \<and>
     audit_authorization_integrity db' = Inr report \<and> \<not> ir_valid report"
proof -
  obtain a where a: "normalize_actor local_cli = Inr a" using sample_normalized(1) by blast
  obtain db' where tx: "create_delegated_grant_in_tx 9 a sample_delegated_create sample_admin_board = (Inr 1, db')"
    "schema db' = schema sample_admin_board" using sample_delegated_tx by blast
  have c: "create_delegated_grant 9 local_cli sample_delegated_create sample_admin_board = (Inr 1, db')"
    by (simp add: create_delegated_grant_def administer_def require_schema_current_def sample_admin_schema a
        sample_delegated_normalized commit_def tx(1))
  have "authorization_integrity_schema_current db'"
    by (simp add: authorization_integrity_schema_current_def table_has_columns_def tx(2) sample_admin_board_def
        empty_board_def current_schema_def principal_grant_columns_def delegated_grant_columns_def)
  then obtain report where r: "audit_authorization_integrity db' = Inr report"
    by (simp add: audit_authorization_integrity_def Let_def)
  have "\<not> is_known_capability (lc_capability sample_delegated_create)"
    by (simp add: sample_delegated_create_def is_known_capability_def KNOWN_CAPABILITIES_def capability_names)
  from unknown_delegated_capability_breaks_audit [OF c sample_delegated_normalized this r] c r
  show ?thesis by blast
qed

end
