(* ===== verification/Execution.thy ===== *)
theory Execution
  imports Identity Authorization
begin

text \<open>
  Execution of message intents (\<open>execution.rs\<close>): the idempotent, authorized write of one message under a
  transaction that also records its ingress, its receipt and the authorization it rests on.

  A request carries an authority context, an ingress record and an intent envelope.  The transaction
  evaluates the authorization, makes sure of the channel, reserves the intent, appends the message or finds
  the one an earlier delivery appended, and records the evidence.  \<open>execute_cases\<close> is the case
  analysis the later theories use: an execution is refused and leaves the board alone, or it creates a
  message, or it returns the message of an earlier delivery.
\<close>

section \<open>Types\<close>

record authority_context =
  au_principal :: principal
  au_mechanism :: string

record intent_envelope =
  it_intent_id :: string
  it_participant_id :: string
  it_conversation_ref :: "string option"
  it_capability :: string
  it_resource :: string
  it_request_hash :: string

record ingress =
  ig_delivery_id :: string
  ig_intent_id :: string
  ig_transport :: string
  ig_external_ref :: string
  ig_principal :: principal

record execution_receipt =
  er_participant_id :: string
  er_intent_id :: string
  er_intent_hash :: string
  er_capability :: string
  er_message_id :: int
  er_status :: string

record message_execution_request =
  mr_authority :: authority_context
  mr_ingress :: ingress
  mr_intent :: intent_envelope
  mr_channel :: string
  mr_kind :: string
  mr_body :: string
  mr_reply_to :: "int option"

datatype message_execution_result =
    ExecCreated message
  | ExecExisting message
  | IntentConflict
  | ReplyTargetNotFound
  | ChannelArchived
  | AuthorizationDenied

definition POST_MESSAGE_CAPABILITY :: string where "POST_MESSAGE_CAPABILITY = ''post_message''"

section \<open>Identifiers and hashes\<close>

definition github_delivery_id :: "nat \<Rightarrow> int \<Rightarrow> string" where
  "github_delivery_id repository_id issue_number =
     ''github:'' @ dec repository_id @ '':issue:'' @ int_to_string issue_number"

definition github_intent_id :: "string option \<Rightarrow> nat \<Rightarrow> int \<Rightarrow> string option" where
  "github_intent_id explicit repository_id issue_number =
     (case explicit of Some v \<Rightarrow> normalize_intent_id v
      | None \<Rightarrow> Some (github_delivery_id repository_id issue_number))"

text \<open>\<open>to_string\<close> of a JSON value writes the bytes that \<open>to_vec\<close> writes, and \<open>hash_token\<close> hashes the
  bytes of its argument.\<close>

definition message_request_hash ::
    "externals \<Rightarrow> string \<Rightarrow> string \<Rightarrow> string \<Rightarrow> string option \<Rightarrow> int option \<Rightarrow> string" where
  "message_request_hash ext channel kind body conversation_ref reply_to =
     hex (sha256 ext (json_to_vec ext (JObj (btree_of
       [(''channel'', JStr channel), (''kind'', JStr kind), (''body'', JStr body),
        (''conversation_ref'', json_opt JStr conversation_ref), (''reply_to'', json_opt JInt reply_to)]))))"

definition hash_of_message :: "externals \<Rightarrow> message \<Rightarrow> string" where
  "hash_of_message ext m =
     message_request_hash ext (m_channel m) (m_kind m) (m_body m) (m_conversation_ref m) (m_reply_to m)"

section \<open>Recording an execution\<close>

definition find_receipt :: "board \<Rightarrow> string \<Rightarrow> string \<Rightarrow> receipt_row option" where
  "find_receipt db participant_id intent_id =
     find (\<lambda>r. r_participant_id r = participant_id \<and> r_intent_id r = intent_id) (execution_receipts db)"

definition get_execution_receipt :: "board \<Rightarrow> string \<Rightarrow> string \<Rightarrow> execution_receipt option" where
  "get_execution_receipt db participant_id intent_id =
     map_option (\<lambda>r. \<lparr>er_participant_id = r_participant_id r, er_intent_id = r_intent_id r,
         er_intent_hash = r_intent_hash r, er_capability = r_capability r, er_message_id = r_message_id r,
         er_status = r_status r\<rparr>)
       (find_receipt db participant_id intent_id)"

definition record_ingress_in_tx :: "int \<Rightarrow> ingress \<Rightarrow> execution_receipt \<Rightarrow> board \<Rightarrow> unit sql_result \<times> board" where
  "record_ingress_in_tx now ig receipt db =
     (case find (\<lambda>i. in_delivery_id i = ig_delivery_id ig) (ingress_provenance db) of
        Some i \<Rightarrow>
          if (in_participant_id i, in_intent_id i, in_transport i, in_external_ref i, in_principal_provider i,
                in_principal_subject i) \<noteq>
             (Some (er_participant_id receipt), ig_intent_id ig, ig_transport ig, ig_external_ref ig,
                provider (ig_principal ig), subject (ig_principal ig))
          then (Inl InvalidQuery, db) else (Inr (), db)
      | None \<Rightarrow>
          (Inr (), db\<lparr>ingress_provenance := ingress_provenance db @
            [\<lparr>in_delivery_id = ig_delivery_id ig, in_participant_id = Some (er_participant_id receipt),
              in_intent_id = ig_intent_id ig, in_transport = ig_transport ig,
              in_external_ref = ig_external_ref ig, in_principal_provider = provider (ig_principal ig),
              in_principal_subject = subject (ig_principal ig), in_created_at = now\<rparr>]\<rparr>))"

definition record_receipt_in_tx :: "int \<Rightarrow> execution_receipt \<Rightarrow> board \<Rightarrow> unit sql_result \<times> board" where
  "record_receipt_in_tx now receipt db =
     (case find_receipt db (er_participant_id receipt) (er_intent_id receipt) of
        Some r \<Rightarrow>
          if r_capability r \<noteq> er_capability receipt \<or> r_message_id r \<noteq> er_message_id receipt \<or>
             r_status r \<noteq> er_status receipt
          then (Inl InvalidQuery, db) else (Inr (), db)
      | None \<Rightarrow>
          (Inr (), db\<lparr>execution_receipts := execution_receipts db @
            [\<lparr>r_participant_id = er_participant_id receipt, r_intent_id = er_intent_id receipt,
              r_intent_hash = er_intent_hash receipt, r_capability = er_capability receipt,
              r_message_id = er_message_id receipt, r_status = er_status receipt, r_created_at = now\<rparr>]\<rparr>))"

definition record_execution_in_tx :: "int \<Rightarrow> ingress \<Rightarrow> execution_receipt \<Rightarrow> board \<Rightarrow> unit sql_result \<times> board" where
  "record_execution_in_tx now ig receipt db =
     (case record_ingress_in_tx now ig receipt db of
        (Inl e, db') \<Rightarrow> (Inl e, db')
      | (Inr _, db') \<Rightarrow> record_receipt_in_tx now receipt db')"

definition record_authorization_provenance_in_tx ::
    "int \<Rightarrow> execution_receipt \<Rightarrow> principal \<Rightarrow> string \<Rightarrow> authorization_decision \<Rightarrow> board
     \<Rightarrow> unit sql_result \<times> board" where
  "record_authorization_provenance_in_tx now receipt actor resource decision db =
     (if \<not> ad_allowed decision then (Inl InvalidQuery, db)
      else if \<exists>a \<in> set (execution_authorization_provenance db).
             a_participant_id a = er_participant_id receipt \<and> a_intent_id a = er_intent_id receipt
      then (Inl ConstraintViolation, db)
      else (Inr (), db\<lparr>execution_authorization_provenance := execution_authorization_provenance db @
             [\<lparr>a_participant_id = er_participant_id receipt, a_intent_id = er_intent_id receipt,
               a_principal_provider = Some (provider actor), a_principal_subject = Some (subject actor),
               a_capability = Some (er_capability receipt), a_resource = Some resource,
               a_source = ad_source decision, a_reason = ad_reason decision,
               a_grant_id = ad_grant_id decision, a_created_at = now\<rparr>]\<rparr>))"

section \<open>Executing a message intent\<close>

definition request_bound :: "externals \<Rightarrow> identity \<Rightarrow> message_execution_request \<Rightarrow> bool" where
  "request_bound ext who request \<longleftrightarrow>
     au_principal (mr_authority request) = ig_principal (mr_ingress request) \<and>
     ig_intent_id (mr_ingress request) = it_intent_id (mr_intent request) \<and>
     id_instance who = it_participant_id (mr_intent request) \<and>
     it_capability (mr_intent request) = POST_MESSAGE_CAPABILITY \<and>
     it_resource (mr_intent request) = mr_channel request \<and>
     it_request_hash (mr_intent request) = message_request_hash ext (mr_channel request) (mr_kind request)
       (mr_body request) (it_conversation_ref (mr_intent request)) (mr_reply_to request)"

definition same_content :: "message \<Rightarrow> message_execution_request \<Rightarrow> bool" where
  "same_content m request \<longleftrightarrow>
     m_channel m = mr_channel request \<and> m_kind m = mr_kind request \<and> m_body m = mr_body request \<and>
     m_reply_to m = mr_reply_to request \<and> m_conversation_ref m = it_conversation_ref (mr_intent request)"

text \<open>The effect of the intent: the message an earlier execution reserved (\<open>created = False\<close>) or a new one,
  or the early return of the transaction.\<close>

definition resolve_effect ::
    "int \<Rightarrow> identity \<Rightarrow> message_execution_request \<Rightarrow> board
     \<Rightarrow> message_execution_result sql_result + message \<times> bool \<times> board" where
  "resolve_effect now who request db =
     (let who_id = id_instance who; intent_id = it_intent_id (mr_intent request);
          (reserved, db1) = reserve_navigation now who_id intent_id (it_request_hash (mr_intent request)) db
      in if reserved = 0 then
           (case find_navigation db1 who_id intent_id of
              None \<Rightarrow> Inl (Inl QueryReturnedNoRows)
            | Some n \<Rightarrow>
                (case message_by_id db1 (n_message_id n) of
                   Inl e \<Rightarrow> Inl (Inl e)
                 | Inr m \<Rightarrow>
                     if n_request_hash n \<noteq> it_request_hash (mr_intent request) \<and> \<not> same_content m request
                     then Inl (Inr IntentConflict) else Inr (m, False, db1)))
         else if (case mr_reply_to request of Some t \<Rightarrow> \<not> message_exists db1 t | None \<Rightarrow> False)
         then Inl (Inr ReplyTargetNotFound)
         else
           (let (i, db2) = insert_message now (mr_channel request) who (it_conversation_ref (mr_intent request))
                  (mr_kind request) (mr_body request) (mr_reply_to request) db1;
                db3 = bind_navigation i who_id intent_id db2
            in case message_by_id db3 i of
                 Inl e \<Rightarrow> Inl (Inl e)
               | Inr m \<Rightarrow> Inr (m, True, db3)))"

definition receipt_of :: "message_execution_request \<Rightarrow> message \<Rightarrow> execution_receipt" where
  "receipt_of request m =
     \<lparr>er_participant_id = it_participant_id (mr_intent request), er_intent_id = it_intent_id (mr_intent request),
      er_intent_hash = it_request_hash (mr_intent request), er_capability = it_capability (mr_intent request),
      er_message_id = m_id m, er_status = ''committed''\<rparr>"

text \<open>The evidence of the effect: ingress and receipt always, the authorization provenance and the
  consumption of a one-shot grant when the message was created.\<close>

definition record_evidence_in_tx ::
    "int \<Rightarrow> message_execution_request \<Rightarrow> authorization_decision \<Rightarrow> message \<Rightarrow> bool \<Rightarrow> board
     \<Rightarrow> unit sql_result \<times> board" where
  "record_evidence_in_tx now request decision m created db =
     (let receipt = receipt_of request m in
      case record_execution_in_tx now (mr_ingress request) receipt db of
        (Inl e, db') \<Rightarrow> (Inl e, db')
      | (Inr _, db1) \<Rightarrow>
          if \<not> created then (Inr (), db1)
          else (case record_authorization_provenance_in_tx now receipt (au_principal (mr_authority request))
                       (it_resource (mr_intent request)) decision db1 of
                  (Inl e, db') \<Rightarrow> (Inl e, db')
                | (Inr _, db2) \<Rightarrow>
                    (case ad_consume_grant_id decision of
                       None \<Rightarrow> (Inr (), db2)
                     | Some grant_id \<Rightarrow>
                         consume_delegated_grant_in_tx now grant_id (it_intent_id (mr_intent request)) db2)))"

definition execute_message_intent ::
    "externals \<Rightarrow> int \<Rightarrow> identity \<Rightarrow> message_execution_request \<Rightarrow> board
     \<Rightarrow> message_execution_result sql_result \<times> board" where
  "execute_message_intent ext now who request db =
     (if \<not> request_bound ext who request then (Inl InvalidQuery, db)
      else
        let intent = mr_intent request;
            (decision, db1) = evaluate_authorization now db (au_principal (mr_authority request))
              (it_participant_id intent) (it_capability intent) (Some (it_resource intent))
              (Some (it_intent_id intent))
        in if \<not> ad_allowed decision then (Inr AuthorizationDenied, db)
           else
             (let (_, db2) = insert_channel_or_ignore now (mr_channel request)
                    (default_visibility (mr_channel request)) (Some (id_instance who)) db1
              in if map_option c_status (find (\<lambda>c. c_name c = mr_channel request) (channels db2)) \<noteq> Some ''active''
                 then (Inr ChannelArchived, db)
                 else case resolve_effect now who request db2 of
                        Inl r \<Rightarrow> (r, db)
                      | Inr (m, created, db3) \<Rightarrow>
                          (case record_evidence_in_tx now request decision m created db3 of
                             (Inl e, _) \<Rightarrow> (Inl e, db)
                           | (Inr _, db4) \<Rightarrow>
                               (Inr (if created then ExecCreated m else ExecExisting m), db4))))"

section \<open>The effect of an intent\<close>

definition created_message :: "int \<Rightarrow> identity \<Rightarrow> message_execution_request \<Rightarrow> board \<Rightarrow> message" where
  "created_message now who request db =
     \<lparr>m_id = next_rowid (map m_id (messages db)), m_created_at = now, m_channel = mr_channel request,
      m_source = id_source who, m_instance = id_instance who,
      m_conversation_ref = it_conversation_ref (mr_intent request), m_kind = mr_kind request,
      m_body = mr_body request, m_reply_to = mr_reply_to request\<rparr>"

definition created_reservation :: "int \<Rightarrow> identity \<Rightarrow> message_execution_request \<Rightarrow> message \<Rightarrow> navigation_write" where
  "created_reservation now who request m =
     \<lparr>n_instance = id_instance who, n_nonce = it_intent_id (mr_intent request),
      n_request_hash = it_request_hash (mr_intent request), n_message_id = m_id m, n_created_at = now\<rparr>"

definition with_created :: "int \<Rightarrow> identity \<Rightarrow> message_execution_request \<Rightarrow> board \<Rightarrow> board" where
  "with_created now who request db =
     (let m = created_message now who request db in
      db\<lparr>messages := messages db @ [m],
         navigation_writes := navigation_writes db @ [created_reservation now who request m]\<rparr>)"

definition reply_target_ok :: "message_execution_request \<Rightarrow> board \<Rightarrow> bool" where
  "reply_target_ok request db \<longleftrightarrow> (\<forall>t. mr_reply_to request = Some t \<longrightarrow> message_exists db t)"

lemma with_created_simps [simp]:
  "messages (with_created now who q db) = messages db @ [created_message now who q db]"
  "navigation_writes (with_created now who q db) =
     navigation_writes db @ [created_reservation now who q (created_message now who q db)]"
  "web_participants (with_created now who q db) = web_participants db"
  "principal_grants (with_created now who q db) = principal_grants db"
  "delegated_grants (with_created now who q db) = delegated_grants db"
  "authorization_admin_events (with_created now who q db) = authorization_admin_events db"
  "channels (with_created now who q db) = channels db"
  "identities (with_created now who q db) = identities db"
  "ingress_provenance (with_created now who q db) = ingress_provenance db"
  "execution_receipts (with_created now who q db) = execution_receipts db"
  "execution_authorization_provenance (with_created now who q db) = execution_authorization_provenance db"
  "schema (with_created now who q db) = schema db"
  by (simp_all add: with_created_def Let_def)

lemma created_message_simps [simp]:
  "m_id (created_message now who q db) = next_rowid (map m_id (messages db))"
  "m_channel (created_message now who q db) = mr_channel q"
  "m_instance (created_message now who q db) = id_instance who"
  "m_reply_to (created_message now who q db) = mr_reply_to q"
  by (simp_all add: created_message_def)

lemma resolve_fresh:
  assumes "find_navigation db (id_instance who) (it_intent_id (mr_intent q)) = None" and "reply_target_ok q db"
  shows "resolve_effect now who q db = Inr (created_message now who q db, True, with_created now who q db)"
proof -
  let ?w = "id_instance who" and ?k = "it_intent_id (mr_intent q)" and ?h = "it_request_hash (mr_intent q)"
  let ?m = "created_message now who q db"
  obtain db1 where r: "reserve_navigation now ?w ?k ?h db = (1, db1)" and ms: "messages db1 = messages db"
    and db1: "db1 = db\<lparr>navigation_writes := navigation_writes db @ [\<lparr>n_instance = ?w, n_nonce = ?k,
      n_request_hash = ?h, n_message_id = 0, n_created_at = now\<rparr>]\<rparr>"
    using assms(1) by (simp add: reserve_navigation_def)
  have t: "\<not> (case mr_reply_to q of Some t \<Rightarrow> \<not> message_exists db1 t | None \<Rightarrow> False)"
    using assms(2) message_exists_cong [OF ms] by (auto simp: reply_target_ok_def split: option.splits)
  have i: "insert_message now (mr_channel q) who (it_conversation_ref (mr_intent q)) (mr_kind q) (mr_body q)
      (mr_reply_to q) db1 = (m_id ?m, db1\<lparr>messages := messages db @ [?m]\<rparr>)"
    by (simp add: insert_message_def ms created_message_def Let_def)
  have b: "bind_navigation (m_id ?m) ?w ?k (db1\<lparr>messages := messages db @ [?m]\<rparr>) = with_created now who q db"
    using reserve_bind [OF assms(1), of "m_id ?m" now ?h] r
    by (simp add: bind_navigation_def db1 with_created_def created_reservation_def Let_def)
  have f: "message_by_id (with_created now who q db) (m_id ?m) = Inr ?m"
    by (rule message_by_id_last [of _ "messages db"]) (simp_all only: with_created_simps created_message_simps,
        metis image_set next_rowid_fresh)
  show ?thesis
    unfolding resolve_effect_def Let_def r prod.case i b
    using t f by (simp del: created_message_simps)
qed

lemma resolve_cases:
  assumes "resolve_effect now who q db = r"
  obtains
    (Fresh) "find_navigation db (id_instance who) (it_intent_id (mr_intent q)) = None" "reply_target_ok q db"
      "r = Inr (created_message now who q db, True, with_created now who q db)"
  | (Stored) n m where "find_navigation db (id_instance who) (it_intent_id (mr_intent q)) = Some n"
      "message_by_id db (n_message_id n) = Inr m" "n_request_hash n = it_request_hash (mr_intent q) \<or> same_content m q"
      "r = Inr (m, False, db)"
  | (Conflict) n m where "find_navigation db (id_instance who) (it_intent_id (mr_intent q)) = Some n"
      "message_by_id db (n_message_id n) = Inr m" "n_request_hash n \<noteq> it_request_hash (mr_intent q)"
      "\<not> same_content m q" "r = Inl (Inr IntentConflict)"
  | (Dangling) n e where "find_navigation db (id_instance who) (it_intent_id (mr_intent q)) = Some n"
      "message_by_id db (n_message_id n) = Inl e" "r = Inl (Inl e)"
  | (NoTarget) "find_navigation db (id_instance who) (it_intent_id (mr_intent q)) = None" "\<not> reply_target_ok q db"
      "r = Inl (Inr ReplyTargetNotFound)"
proof (cases "find_navigation db (id_instance who) (it_intent_id (mr_intent q))")
  case None
  show thesis
  proof (cases "reply_target_ok q db")
    case True
    with None Fresh resolve_fresh [OF None True, of now] assms show thesis by simp
  next
    case False
    obtain db1 where r: "reserve_navigation now (id_instance who) (it_intent_id (mr_intent q))
        (it_request_hash (mr_intent q)) db = (1, db1)" and ms: "messages db1 = messages db"
      using None by (simp add: reserve_navigation_def)
    have t: "case mr_reply_to q of Some t \<Rightarrow> \<not> message_exists db1 t | None \<Rightarrow> False"
      using False message_exists_cong [OF ms] by (auto simp: reply_target_ok_def split: option.splits)
    have "r = Inl (Inr ReplyTargetNotFound)"
      using assms t by (simp add: resolve_effect_def r)
    with None False NoTarget show thesis by simp
  qed
next
  case (Some n)
  then have r: "reserve_navigation now (id_instance who) (it_intent_id (mr_intent q)) (it_request_hash (mr_intent q)) db =
      (0, db)" by (simp add: reserve_navigation_def)
  show thesis
  proof (cases "message_by_id db (n_message_id n)")
    case (Inl e)
    then have "r = Inl (Inl e)" using assms Some by (simp add: resolve_effect_def r)
    with Some Inl Dangling show thesis by simp
  next
    case (Inr m)
    show thesis
    proof (cases "n_request_hash n = it_request_hash (mr_intent q) \<or> same_content m q")
      case True
      then have "r = Inr (m, False, db)" using assms Some Inr by (auto simp: resolve_effect_def r)
      with Some Inr True Stored show thesis by simp
    next
      case False
      then have "r = Inl (Inr IntentConflict)" using assms Some Inr by (simp add: resolve_effect_def r)
      with Some Inr False Conflict show thesis by simp
    qed
  qed
qed

section \<open>The evidence of an intent\<close>

definition ingress_row_of :: "int \<Rightarrow> ingress \<Rightarrow> execution_receipt \<Rightarrow> ingress_row" where
  "ingress_row_of now ig receipt =
     \<lparr>in_delivery_id = ig_delivery_id ig, in_participant_id = Some (er_participant_id receipt),
      in_intent_id = ig_intent_id ig, in_transport = ig_transport ig, in_external_ref = ig_external_ref ig,
      in_principal_provider = provider (ig_principal ig), in_principal_subject = subject (ig_principal ig),
      in_created_at = now\<rparr>"

definition receipt_row_of :: "int \<Rightarrow> execution_receipt \<Rightarrow> receipt_row" where
  "receipt_row_of now receipt =
     \<lparr>r_participant_id = er_participant_id receipt, r_intent_id = er_intent_id receipt,
      r_intent_hash = er_intent_hash receipt, r_capability = er_capability receipt,
      r_message_id = er_message_id receipt, r_status = er_status receipt, r_created_at = now\<rparr>"

definition provenance_row_of :: "int \<Rightarrow> message_execution_request \<Rightarrow> authorization_decision \<Rightarrow> provenance_row" where
  "provenance_row_of now q d =
     \<lparr>a_participant_id = it_participant_id (mr_intent q), a_intent_id = it_intent_id (mr_intent q),
      a_principal_provider = Some (provider (au_principal (mr_authority q))),
      a_principal_subject = Some (subject (au_principal (mr_authority q))),
      a_capability = Some (it_capability (mr_intent q)), a_resource = Some (it_resource (mr_intent q)),
      a_source = ad_source d, a_reason = ad_reason d, a_grant_id = ad_grant_id d, a_created_at = now\<rparr>"

definition consumed_grants :: "int \<Rightarrow> string \<Rightarrow> authorization_decision \<Rightarrow> board \<Rightarrow> delegated_grant list" where
  "consumed_grants now intent_id d db =
     (case ad_consume_grant_id d of
        None \<Rightarrow> delegated_grants db
      | Some k \<Rightarrow> sql_update (\<lambda>g. d_id g = k \<and> d_status g = ''active'' \<and> d_one_shot g = 1 \<and> d_consumed_at g = None)
          (\<lambda>g. g\<lparr>d_consumed_at := Some now, d_consumed_intent_id := Some intent_id, d_updated_at := now\<rparr>)
          (delegated_grants db))"

text \<open>A delivery that was recorded before, by the same execution with the same metadata.\<close>

definition delivered :: "ingress \<Rightarrow> execution_receipt \<Rightarrow> ingress_row \<Rightarrow> bool" where
  "delivered ig receipt i \<longleftrightarrow> ingress_row_of (in_created_at i) ig receipt = i"

lemma record_ingress_done:
  assumes "record_ingress_in_tx now ig rc db = (Inr u, db')"
  obtains xs where "db' = db\<lparr>ingress_provenance := ingress_provenance db @ xs\<rparr>"
    "xs = [ingress_row_of now ig rc] \<and> ig_delivery_id ig \<notin> in_delivery_id ` set (ingress_provenance db) \<or>
     xs = [] \<and> (\<exists>i \<in> set (ingress_provenance db). delivered ig rc i)"
proof (cases "find (\<lambda>i. in_delivery_id i = ig_delivery_id ig) (ingress_provenance db)")
  case None
  then have "ig_delivery_id ig \<notin> in_delivery_id ` set (ingress_provenance db)" by (auto simp: find_None_iff)
  moreover have "db' = db\<lparr>ingress_provenance := ingress_provenance db @ [ingress_row_of now ig rc]\<rparr>"
    using assms None by (simp add: record_ingress_in_tx_def ingress_row_of_def)
  ultimately show thesis using that by blast
next
  case (Some i)
  then have i: "i \<in> set (ingress_provenance db)" "in_delivery_id i = ig_delivery_id ig" by (auto dest: find_SomeD)
  have "delivered ig rc i \<and> db' = db"
    using assms Some i(2) by (simp add: record_ingress_in_tx_def delivered_def ingress_row_of_def split: if_splits)
  then show thesis using that [of "[]"] i(1) by auto
qed

lemma record_receipt_done:
  assumes "record_receipt_in_tx now rc db = (Inr u, db')"
  obtains rs where "db' = db\<lparr>execution_receipts := execution_receipts db @ rs\<rparr>"
    "rs = [receipt_row_of now rc] \<and> find_receipt db (er_participant_id rc) (er_intent_id rc) = None \<or>
     rs = [] \<and> (\<exists>r. find_receipt db (er_participant_id rc) (er_intent_id rc) = Some r \<and>
       r_capability r = er_capability rc \<and> r_message_id r = er_message_id rc \<and> r_status r = er_status rc)"
proof (cases "find_receipt db (er_participant_id rc) (er_intent_id rc)")
  case None
  then have "db' = db\<lparr>execution_receipts := execution_receipts db @ [receipt_row_of now rc]\<rparr>"
    using assms by (simp add: record_receipt_in_tx_def receipt_row_of_def)
  with None that show thesis by blast
next
  case (Some r)
  then have "r_capability r = er_capability rc \<and> r_message_id r = er_message_id rc \<and> r_status r = er_status rc \<and> db' = db"
    using assms by (simp add: record_receipt_in_tx_def split: if_splits)
  then show thesis using that [of "[]"] Some by auto
qed

lemma find_receipt_cong:
  "execution_receipts db = execution_receipts db' \<Longrightarrow> find_receipt db = find_receipt db'"
  by (intro ext) (simp add: find_receipt_def)

lemma record_execution_done:
  assumes "record_execution_in_tx now ig rc db = (Inr u, db')"
  obtains xs rs where
    "db' = db\<lparr>ingress_provenance := ingress_provenance db @ xs, execution_receipts := execution_receipts db @ rs\<rparr>"
    "xs = [ingress_row_of now ig rc] \<and> ig_delivery_id ig \<notin> in_delivery_id ` set (ingress_provenance db) \<or>
     xs = [] \<and> (\<exists>i \<in> set (ingress_provenance db). delivered ig rc i)"
    "rs = [receipt_row_of now rc] \<and> find_receipt db (er_participant_id rc) (er_intent_id rc) = None \<or>
     rs = [] \<and> (\<exists>r. find_receipt db (er_participant_id rc) (er_intent_id rc) = Some r \<and>
       r_capability r = er_capability rc \<and> r_message_id r = er_message_id rc \<and> r_status r = er_status rc)"
proof -
  obtain v db1 where i: "record_ingress_in_tx now ig rc db = (Inr v, db1)"
    and r: "record_receipt_in_tx now rc db1 = (Inr u, db')"
    using assms by (auto simp: record_execution_in_tx_def split: prod.splits sum.splits)
  obtain xs where xs: "db1 = db\<lparr>ingress_provenance := ingress_provenance db @ xs\<rparr>"
    "xs = [ingress_row_of now ig rc] \<and> ig_delivery_id ig \<notin> in_delivery_id ` set (ingress_provenance db) \<or>
     xs = [] \<and> (\<exists>i \<in> set (ingress_provenance db). delivered ig rc i)"
    by (rule record_ingress_done [OF i])
  have fr: "find_receipt db1 = find_receipt db" by (rule find_receipt_cong) (simp add: xs(1))
  obtain rs where rs: "db' = db1\<lparr>execution_receipts := execution_receipts db1 @ rs\<rparr>"
    "rs = [receipt_row_of now rc] \<and> find_receipt db (er_participant_id rc) (er_intent_id rc) = None \<or>
     rs = [] \<and> (\<exists>r. find_receipt db (er_participant_id rc) (er_intent_id rc) = Some r \<and>
       r_capability r = er_capability rc \<and> r_message_id r = er_message_id rc \<and> r_status r = er_status rc)"
    by (rule record_receipt_done [OF r]) (simp only: fr)
  have "db' = db\<lparr>ingress_provenance := ingress_provenance db @ xs, execution_receipts := execution_receipts db @ rs\<rparr>"
    unfolding rs(1) xs(1) by simp
  then show thesis using xs(2) rs(2) by (rule that)
qed

lemma record_evidence_created:
  assumes "record_evidence_in_tx now q d m True db = (Inr u, db')"
  obtains xs rs where
    "db' = db\<lparr>ingress_provenance := ingress_provenance db @ xs, execution_receipts := execution_receipts db @ rs,
       execution_authorization_provenance := execution_authorization_provenance db @ [provenance_row_of now q d],
       delegated_grants := consumed_grants now (it_intent_id (mr_intent q)) d db\<rparr>"
    "xs = [ingress_row_of now (mr_ingress q) (receipt_of q m)] \<and>
       ig_delivery_id (mr_ingress q) \<notin> in_delivery_id ` set (ingress_provenance db) \<or>
     xs = [] \<and> (\<exists>i \<in> set (ingress_provenance db). delivered (mr_ingress q) (receipt_of q m) i)"
    "rs = [receipt_row_of now (receipt_of q m)] \<and>
       find_receipt db (it_participant_id (mr_intent q)) (it_intent_id (mr_intent q)) = None \<or>
     rs = [] \<and> (\<exists>r. find_receipt db (it_participant_id (mr_intent q)) (it_intent_id (mr_intent q)) = Some r \<and>
       r_capability r = it_capability (mr_intent q) \<and> r_message_id r = m_id m \<and> r_status r = ''committed'')"
    "\<forall>a \<in> set (execution_authorization_provenance db).
       \<not> (a_participant_id a = it_participant_id (mr_intent q) \<and> a_intent_id a = it_intent_id (mr_intent q))"
proof -
  let ?rc = "receipt_of q m"
  obtain v w db1 db2 where x: "record_execution_in_tx now (mr_ingress q) ?rc db = (Inr v, db1)"
    and p: "record_authorization_provenance_in_tx now ?rc (au_principal (mr_authority q)) (it_resource (mr_intent q))
      d db1 = (Inr w, db2)"
    and c: "(case ad_consume_grant_id d of None \<Rightarrow> (Inr (), db2)
      | Some k \<Rightarrow> consume_delegated_grant_in_tx now k (it_intent_id (mr_intent q)) db2) = (Inr u, db')"
    using assms unfolding record_evidence_in_tx_def Let_def
    by (auto split: prod.splits sum.splits)
  obtain xs rs where d1:
    "db1 = db\<lparr>ingress_provenance := ingress_provenance db @ xs, execution_receipts := execution_receipts db @ rs\<rparr>"
    and xs: "xs = [ingress_row_of now (mr_ingress q) ?rc] \<and>
       ig_delivery_id (mr_ingress q) \<notin> in_delivery_id ` set (ingress_provenance db) \<or>
     xs = [] \<and> (\<exists>i \<in> set (ingress_provenance db). delivered (mr_ingress q) ?rc i)"
    and rs: "rs = [receipt_row_of now ?rc] \<and> find_receipt db (er_participant_id ?rc) (er_intent_id ?rc) = None \<or>
     rs = [] \<and> (\<exists>r. find_receipt db (er_participant_id ?rc) (er_intent_id ?rc) = Some r \<and>
       r_capability r = er_capability ?rc \<and> r_message_id r = er_message_id ?rc \<and> r_status r = er_status ?rc)"
    by (rule record_execution_done [OF x])
  have rc: "er_participant_id ?rc = it_participant_id (mr_intent q)" "er_intent_id ?rc = it_intent_id (mr_intent q)"
    "er_capability ?rc = it_capability (mr_intent q)" "er_message_id ?rc = m_id m" "er_status ?rc = ''committed''"
    by (simp_all add: receipt_of_def)
  have d2: "db2 = db1\<lparr>execution_authorization_provenance :=
      execution_authorization_provenance db1 @ [provenance_row_of now q d]\<rparr>"
    and fresh: "\<forall>a \<in> set (execution_authorization_provenance db1).
       \<not> (a_participant_id a = it_participant_id (mr_intent q) \<and> a_intent_id a = it_intent_id (mr_intent q))"
    using p unfolding record_authorization_provenance_in_tx_def
    by (auto simp: rc provenance_row_of_def split: if_splits)
  have d3: "db' = db2\<lparr>delegated_grants := consumed_grants now (it_intent_id (mr_intent q)) d db2\<rparr>"
    using c by (auto simp: consumed_grants_def consume_delegated_grant_in_tx_def Let_def split: option.splits if_splits)
  have dg: "delegated_grants db2 = delegated_grants db" by (simp add: d2 d1)
  have "consumed_grants now (it_intent_id (mr_intent q)) d db2 = consumed_grants now (it_intent_id (mr_intent q)) d db"
    by (simp only: consumed_grants_def dg)
  then have "db' = db\<lparr>ingress_provenance := ingress_provenance db @ xs, execution_receipts := execution_receipts db @ rs,
       execution_authorization_provenance := execution_authorization_provenance db @ [provenance_row_of now q d],
       delegated_grants := consumed_grants now (it_intent_id (mr_intent q)) d db\<rparr>"
    unfolding d3 by (simp add: d2 d1)
  then show thesis
    by (rule that) (use xs rs fresh rc d1 in simp_all)
qed

lemma record_evidence_existing:
  "record_evidence_in_tx now q d m False db = (Inr u, db') \<longleftrightarrow>
   record_execution_in_tx now (mr_ingress q) (receipt_of q m) db = (Inr u, db')"
  unfolding record_evidence_in_tx_def Let_def by (auto split: prod.splits sum.splits)

section \<open>The branches of an execution\<close>

text \<open>The board on which the effect is resolved, and the decision the execution rests on.\<close>

definition prepared :: "int \<Rightarrow> identity \<Rightarrow> message_execution_request \<Rightarrow> board \<Rightarrow> board" where
  "prepared now who q db =
     snd (insert_channel_or_ignore now (mr_channel q) (default_visibility (mr_channel q)) (Some (id_instance who))
       (ensure_grant_schema db))"

definition decision_of :: "int \<Rightarrow> message_execution_request \<Rightarrow> board \<Rightarrow> authorization_decision" where
  "decision_of now q db =
     evaluate_authorization_current_schema now (ensure_grant_schema db) (au_principal (mr_authority q))
       (it_participant_id (mr_intent q)) (it_capability (mr_intent q)) (Some (it_resource (mr_intent q)))
       (Some (it_intent_id (mr_intent q)))"

definition channel_active :: "message_execution_request \<Rightarrow> board \<Rightarrow> bool" where
  "channel_active q db \<longleftrightarrow> (case channel_metadata db (mr_channel q) of None \<Rightarrow> True | Some c \<Rightarrow> c_status c = ''active'')"

lemma ensure_grant_schema_frame' [simp]:
  "navigation_writes (ensure_grant_schema db) = navigation_writes db"
  "ingress_provenance (ensure_grant_schema db) = ingress_provenance db"
  "execution_authorization_provenance (ensure_grant_schema db) = execution_authorization_provenance db"
  "authorization_admin_events (ensure_grant_schema db) = authorization_admin_events db"
  "identities (ensure_grant_schema db) = identities db"
  by (simp_all add: ensure_grant_schema_def create_table_if_not_exists_def)

lemma prepared_frame [simp]:
  "messages (prepared now who q db) = messages db" "identities (prepared now who q db) = identities db"
  "web_participants (prepared now who q db) = web_participants db"
  "principal_grants (prepared now who q db) = principal_grants db"
  "delegated_grants (prepared now who q db) = delegated_grants db"
  "authorization_admin_events (prepared now who q db) = authorization_admin_events db"
  "navigation_writes (prepared now who q db) = navigation_writes db"
  "ingress_provenance (prepared now who q db) = ingress_provenance db"
  "execution_receipts (prepared now who q db) = execution_receipts db"
  "execution_authorization_provenance (prepared now who q db) = execution_authorization_provenance db"
  "schema (prepared now who q db) = schema (ensure_grant_schema db)"
  by (simp_all add: prepared_def)

lemma table_exists_ensure: "table_exists db t \<Longrightarrow> table_exists (ensure_grant_schema db) t"
  by (auto simp: ensure_grant_schema_def create_table_if_not_exists_def table_exists_def map_of_append
      map_add_def split: option.splits)

lemma prepared_channel_active:
  "map_option c_status (find (\<lambda>c. c_name c = mr_channel q) (channels (prepared now who q db))) = Some ''active'' \<longleftrightarrow>
   channel_active q db"
proof -
  have cm: "channel_metadata (ensure_grant_schema db) = channel_metadata db"
    by (intro ext) (simp add: channel_metadata_def)
  show ?thesis
  proof (cases "channel_metadata db (mr_channel q)")
    case None
    then show ?thesis
      using metadata_insert_new [of "ensure_grant_schema db" "mr_channel q" "default_visibility (mr_channel q)" now
          "Some (id_instance who)"] default_visibility_cases
      by (simp add: cm channel_active_def prepared_def channel_metadata_def)
  next
    case (Some c)
    then show ?thesis
      using metadata_insert_existing [of "ensure_grant_schema db" "mr_channel q" c now "mr_channel q"
          "default_visibility (mr_channel q)" "Some (id_instance who)"]
      by (simp add: cm channel_active_def prepared_def channel_metadata_def)
  qed
qed

lemma execute_unfold:
  "execute_message_intent ext now who q db =
     (if \<not> request_bound ext who q then (Inl InvalidQuery, db)
      else if \<not> ad_allowed (decision_of now q db) then (Inr AuthorizationDenied, db)
      else if \<not> channel_active q db then (Inr ChannelArchived, db)
      else case resolve_effect now who q (prepared now who q db) of
             Inl r \<Rightarrow> (r, db)
           | Inr (m, created, db3) \<Rightarrow>
               (case record_evidence_in_tx now q (decision_of now q db) m created db3 of
                  (Inl e, _) \<Rightarrow> (Inl e, db)
                | (Inr _, db4) \<Rightarrow> (Inr (if created then ExecCreated m else ExecExisting m), db4)))"
proof -
  have p: "insert_channel_or_ignore now (mr_channel q) (default_visibility (mr_channel q)) (Some (id_instance who))
      (ensure_grant_schema db) =
    (fst (insert_channel_or_ignore now (mr_channel q) (default_visibility (mr_channel q)) (Some (id_instance who))
      (ensure_grant_schema db)), prepared now who q db)"
    by (simp add: prepared_def)
  show ?thesis
    unfolding execute_message_intent_def evaluate_authorization_def Let_def prod.case
      decision_of_def [symmetric]
    by (subst p) (simp only: prod.case prepared_channel_active if_not_P)
qed

lemma execute_cases:
  assumes "execute_message_intent ext now who q db = (res, db')"
  obtains
    (Refused) "db' = db" "\<forall>m. res \<noteq> Inr (ExecCreated m) \<and> res \<noteq> Inr (ExecExisting m)"
  | (Created) "request_bound ext who q" "ad_allowed (decision_of now q db)" "channel_active q db"
      "find_navigation db (id_instance who) (it_intent_id (mr_intent q)) = None" "reply_target_ok q db"
      "res = Inr (ExecCreated (created_message now who q db))"
      "record_evidence_in_tx now q (decision_of now q db) (created_message now who q db) True
         (with_created now who q (prepared now who q db)) = (Inr (), db')"
  | (Existing) n m where "request_bound ext who q" "ad_allowed (decision_of now q db)" "channel_active q db"
      "find_navigation db (id_instance who) (it_intent_id (mr_intent q)) = Some n"
      "message_by_id db (n_message_id n) = Inr m" "n_request_hash n = it_request_hash (mr_intent q) \<or> same_content m q"
      "res = Inr (ExecExisting m)"
      "record_execution_in_tx now (mr_ingress q) (receipt_of q m) (prepared now who q db) = (Inr (), db')"
proof -
  let ?d = "decision_of now q db" and ?p = "prepared now who q db"
  have cong: "find_navigation ?p = find_navigation db" "message_by_id ?p = message_by_id db"
      "reply_target_ok q ?p = reply_target_ok q db" "created_message now who q ?p = created_message now who q db"
    by (rule find_navigation_cong, simp, rule message_by_id_cong, simp,
        simp add: reply_target_ok_def message_exists_cong [of ?p db], simp add: created_message_def)
  show thesis
  proof (cases "request_bound ext who q \<and> ad_allowed ?d \<and> channel_active q db")
    case False
    then have "db' = db \<and> (\<forall>m. res \<noteq> Inr (ExecCreated m) \<and> res \<noteq> Inr (ExecExisting m))"
      using assms unfolding execute_unfold by (auto split: if_splits)
    with Refused show thesis by blast
  next
    case True
    then have ex: "(res, db') = (case resolve_effect now who q ?p of
             Inl r \<Rightarrow> (r, db)
           | Inr (m, created, db3) \<Rightarrow>
               (case record_evidence_in_tx now q ?d m created db3 of
                  (Inl e, _) \<Rightarrow> (Inl e, db)
                | (Inr _, db4) \<Rightarrow> (Inr (if created then ExecCreated m else ExecExisting m), db4)))"
      using assms unfolding execute_unfold by simp
    show thesis
    proof (rule resolve_cases [of now who q ?p, OF refl])
      assume "find_navigation ?p (id_instance who) (it_intent_id (mr_intent q)) = None" "reply_target_ok q ?p"
        and r: "resolve_effect now who q ?p = Inr (created_message now who q ?p, True, with_created now who q ?p)"
      note f = this(1,2) [unfolded cong]
      obtain out db4 where e: "record_evidence_in_tx now q ?d (created_message now who q db) True
          (with_created now who q ?p) = (out, db4)" by (rule prod.exhaust)
      show thesis
      proof (cases out)
        case (Inl err)
        have "(res, db') = (Inl err, db)" using ex unfolding r cong by (simp add: e Inl)
        then show thesis by (intro Refused) simp_all
      next
        case (Inr u)
        have "(res, db') = (Inr (ExecCreated (created_message now who q db)), db4)"
          using ex unfolding r cong by (simp add: e Inr)
        with True f Created e Inr show thesis by simp
      qed
    next
      fix n m
      assume "find_navigation ?p (id_instance who) (it_intent_id (mr_intent q)) = Some n"
        "message_by_id ?p (n_message_id n) = Inr m" "n_request_hash n = it_request_hash (mr_intent q) \<or> same_content m q"
        and r: "resolve_effect now who q ?p = Inr (m, False, ?p)"
      note f = this(1-3) [unfolded cong]
      obtain out db4 where e: "record_evidence_in_tx now q ?d m False ?p = (out, db4)" by (rule prod.exhaust)
      show thesis
      proof (cases out)
        case (Inl err)
        have "(res, db') = (Inl err, db)" using ex unfolding r by (simp add: e Inl)
        then show thesis by (intro Refused) simp_all
      next
        case (Inr u)
        have "(res, db') = (Inr (ExecExisting m), db4)" using ex unfolding r by (simp add: e Inr)
        moreover have "record_execution_in_tx now (mr_ingress q) (receipt_of q m) ?p = (Inr (), db4)"
          using e Inr record_evidence_existing by simp
        ultimately show thesis using True f Existing by simp
      qed
    qed (use ex Refused in auto)
  qed
qed

end
