(* ===== verification/Execution_Audit.thy ===== *)
theory Execution_Audit
  imports Execution Authorization_Admin
begin

text \<open>
  The execution audit (\<open>execution.rs\<close>): the bundle of one execution, the integrity check of one
  execution, the sweep over all executions and the search for evidence without an execution.

  A check appends to the lists \<open>checks\<close> and \<open>violations\<close>; here each group of checks returns its two lists
  and the report concatenates them.  The audit queries tables that \<open>migrate_execution_schema\<close> created;
  the error of a query on a database without them is not modelled.

  \<open>execution_evidenced\<close> says declaratively what a valid execution is; the theorems show that the check and
  the sweep decide it.
\<close>

section \<open>Types\<close>

record authorization_provenance =
  ap_participant_id :: string
  ap_intent_id :: string
  ap_principal :: "principal option"
  ap_capability :: "string option"
  ap_resource :: "string option"
  ap_source :: string
  ap_reason :: string
  ap_grant_id :: "int option"

record ingress_audit_record =
  ia_participant_id :: string
  ia_delivery_id :: string
  ia_intent_id :: string
  ia_transport :: string
  ia_external_ref :: string
  ia_principal :: principal

record audit_bundle =
  ab_receipt :: execution_receipt
  ab_authorization :: "authorization_provenance option"
  ab_ingress :: "ingress_audit_record list"

record audit_report =
  ar_participant_id :: string
  ar_intent_id :: string
  ar_valid :: bool
  ar_checks :: "string list"
  ar_violations :: "string list"

record orphan_evidence =
  oe_kind :: string
  oe_participant_id :: "string option"
  oe_intent_id :: string
  oe_reference :: "string option"

record sweep_report =
  sr_valid :: bool
  sr_executions_scanned :: nat
  sr_invalid_executions :: "audit_report list"
  sr_orphan_evidence :: "orphan_evidence list"

section \<open>Schema\<close>

definition has_column :: "board \<Rightarrow> string \<Rightarrow> string \<Rightarrow> bool" where
  "has_column db table column = table_has_columns db table [column]"

definition execution_schema_current :: "board \<Rightarrow> bool" where
  "execution_schema_current db \<longleftrightarrow>
     table_exists db ''execution_receipts'' \<and> has_column db ''ingress_provenance'' ''participant_id'' \<and>
     table_exists db ''execution_authorization_provenance'' \<and>
     list_all (has_column db ''execution_authorization_provenance'')
       [''principal_provider'', ''principal_subject'', ''capability'', ''resource'', ''source'', ''reason'',
        ''grant_id'']"

section \<open>The evidence of one execution\<close>

definition provenance_of_row :: "provenance_row \<Rightarrow> authorization_provenance" where
  "provenance_of_row a =
     \<lparr>ap_participant_id = a_participant_id a, ap_intent_id = a_intent_id a,
      ap_principal = (case (a_principal_provider a, a_principal_subject a) of
        (Some p, Some s) \<Rightarrow> Some \<lparr>provider = p, subject = s\<rparr> | _ \<Rightarrow> None),
      ap_capability = a_capability a, ap_resource = a_resource a, ap_source = a_source a,
      ap_reason = a_reason a, ap_grant_id = a_grant_id a\<rparr>"

definition get_authorization_provenance :: "board \<Rightarrow> string \<Rightarrow> string \<Rightarrow> authorization_provenance option" where
  "get_authorization_provenance db participant_id intent_id =
     map_option provenance_of_row
       (find (\<lambda>a. a_participant_id a = participant_id \<and> a_intent_id a = intent_id)
          (execution_authorization_provenance db))"

definition ingress_audit_of_row :: "ingress_row \<Rightarrow> ingress_audit_record" where
  "ingress_audit_of_row i =
     \<lparr>ia_participant_id = (case in_participant_id i of Some p \<Rightarrow> p | None \<Rightarrow> []),
      ia_delivery_id = in_delivery_id i, ia_intent_id = in_intent_id i, ia_transport = in_transport i,
      ia_external_ref = in_external_ref i,
      ia_principal = \<lparr>provider = in_principal_provider i, subject = in_principal_subject i\<rparr>\<rparr>"

definition get_execution_audit_bundle :: "board \<Rightarrow> string \<Rightarrow> string \<Rightarrow> audit_bundle option" where
  "get_execution_audit_bundle db participant_id intent_id =
     (case get_execution_receipt db participant_id intent_id of
        None \<Rightarrow> None
      | Some receipt \<Rightarrow>
          Some \<lparr>ab_receipt = receipt,
            ab_authorization = get_authorization_provenance db participant_id intent_id,
            ab_ingress = map ingress_audit_of_row
              (sort_key (\<lambda>i. (in_created_at i, in_delivery_id i))
                (filter (\<lambda>i. in_participant_id i = Some participant_id \<and> in_intent_id i = intent_id)
                  (ingress_provenance db)))\<rparr>)"

section \<open>The checks of one execution\<close>

type_synonym findings = "string list \<times> string list"

definition check :: "string \<Rightarrow> findings" where "check c = ([c], [])"

definition violation :: "string \<Rightarrow> findings" where "violation v = ([], [v])"

definition check_or :: "bool \<Rightarrow> string \<Rightarrow> string \<Rightarrow> findings" where
  "check_or b c v = (if b then check c else violation v)"

definition all_findings :: "findings list \<Rightarrow> findings" where
  "all_findings fs = (concat (map fst fs), concat (map snd fs))"

definition receipt_findings :: "string \<Rightarrow> string \<Rightarrow> execution_receipt \<Rightarrow> findings" where
  "receipt_findings participant_id intent_id receipt =
     all_findings
       ([check ''receipt_present''] @
        (if er_participant_id receipt \<noteq> participant_id \<or> er_intent_id receipt \<noteq> intent_id
         then [violation ''receipt_binding_mismatch''] else []) @
        [check_or (er_status receipt = ''committed'') ''receipt_status_committed'' ''invalid_receipt_status''])"

definition message_findings :: "externals \<Rightarrow> string \<Rightarrow> execution_receipt \<Rightarrow> message option \<Rightarrow> findings" where
  "message_findings ext participant_id receipt effect =
     (case effect of
        None \<Rightarrow> violation ''message_effect_missing''
      | Some m \<Rightarrow> all_findings
          [check ''message_effect_present'',
           check_or (m_instance m = participant_id) ''message_effect_binding_valid''
             ''message_effect_binding_mismatch'',
           check_or (er_intent_hash receipt = hash_of_message ext m) ''intent_hash_matches_effect''
             ''intent_hash_mismatch''])"

text \<open>The reservation of the execution, or else one with its nonce or its message.\<close>

definition audited_navigation :: "board \<Rightarrow> string \<Rightarrow> string \<Rightarrow> execution_receipt \<Rightarrow> navigation_write option" where
  "audited_navigation db participant_id intent_id receipt =
     (case find_navigation db participant_id intent_id of
        Some n \<Rightarrow> Some n
      | None \<Rightarrow>
          (case sort_key (\<lambda>n. (if n_nonce n = intent_id then 0 else 1 :: int, n_created_at n))
                  (filter (\<lambda>n. n_nonce n = intent_id \<or> n_message_id n = er_message_id receipt)
                    (navigation_writes db)) of
             [] \<Rightarrow> None | n # _ \<Rightarrow> Some n))"

definition navigation_findings :: "board \<Rightarrow> string \<Rightarrow> string \<Rightarrow> execution_receipt \<Rightarrow> findings" where
  "navigation_findings db participant_id intent_id receipt =
     (if \<not> table_exists db ''navigation_writes'' then violation ''navigation_reservation_missing''
      else case audited_navigation db participant_id intent_id receipt of
        None \<Rightarrow> violation ''navigation_reservation_missing''
      | Some n \<Rightarrow> all_findings
          [check ''navigation_reservation_present'',
           check_or (n_instance n = er_participant_id receipt \<and> n_nonce n = er_intent_id receipt \<and>
               n_message_id n = er_message_id receipt)
             ''navigation_binding_valid'' ''navigation_binding_mismatch'',
           check_or (n_request_hash n = er_intent_hash receipt) ''navigation_hash_matches_receipt''
             ''navigation_hash_mismatch''])"

definition authorization_findings ::
    "board \<Rightarrow> string \<Rightarrow> string \<Rightarrow> execution_receipt \<Rightarrow> string option \<Rightarrow> findings" where
  "authorization_findings db participant_id intent_id receipt expected_resource =
     (let n = sql_count (\<lambda>a. a_participant_id a = participant_id \<and> a_intent_id a = intent_id)
            (execution_authorization_provenance db) in
      if n = 0 then violation ''authorization_provenance_missing''
      else if n \<noteq> 1 then violation ''authorization_provenance_duplicate''
      else all_findings
        ([check ''authorization_provenance_present''] @
         (case get_authorization_provenance db participant_id intent_id of
            None \<Rightarrow> []
          | Some auth \<Rightarrow>
              (if ap_participant_id auth \<noteq> participant_id \<or> ap_intent_id auth \<noteq> intent_id
               then [violation ''authorization_binding_mismatch''] else []) @
              [(case ap_principal auth of
                  Some actor \<Rightarrow> check_or (\<not> blank (provider actor) \<and> \<not> blank (subject actor))
                    ''authorization_principal_bound'' ''authorization_metadata_invalid''
                | None \<Rightarrow> violation ''authorization_principal_unbound''),
               (case ap_capability auth of
                  Some capability \<Rightarrow> check_or (capability = er_capability receipt)
                    ''authorization_capability_matches_receipt'' ''authorization_capability_mismatch''
                | None \<Rightarrow> violation ''authorization_scope_unbound''),
               (case ap_resource auth of
                  Some resource \<Rightarrow>
                    if blank resource then violation ''authorization_metadata_invalid''
                    else check_or (expected_resource = Some resource) ''authorization_resource_matches_effect''
                      ''authorization_resource_mismatch''
                | None \<Rightarrow> violation ''authorization_scope_unbound'')])))"

definition delegated_findings :: "board \<Rightarrow> string \<Rightarrow> string \<Rightarrow> execution_receipt \<Rightarrow> findings" where
  "delegated_findings db participant_id intent_id receipt =
     (case get_authorization_provenance db participant_id intent_id of
        None \<Rightarrow> ([], [])
      | Some auth \<Rightarrow>
          if ap_source auth \<noteq> ''delegated_grants'' then ([], [])
          else (case ap_grant_id auth of
            None \<Rightarrow> violation ''delegated_grant_reference_missing''
          | Some grant_id \<Rightarrow>
              if \<not> table_exists db ''delegated_grants'' then violation ''delegated_grant_missing''
              else (case find (\<lambda>g. d_id g = grant_id) (delegated_grants db) of
                None \<Rightarrow> violation ''delegated_grant_missing''
              | Some g \<Rightarrow> all_findings
                  [check ''delegated_grant_present'',
                   check_or (d_participant_id g = er_participant_id receipt \<and> d_capability g = er_capability receipt)
                     ''delegated_grant_binding_valid'' ''delegated_grant_binding_mismatch'',
                   (if d_one_shot g \<noteq> 0 then
                      (if d_consumed_at g = None then violation ''delegated_one_shot_consumption_missing''
                       else check_or (d_consumed_intent_id g = Some (er_intent_id receipt))
                         ''delegated_one_shot_consumption_valid'' ''delegated_one_shot_consumption_mismatch'')
                    else check ''delegated_grant_non_one_shot'')])))"

definition ingress_metadata_blank :: "ingress_audit_record \<Rightarrow> bool" where
  "ingress_metadata_blank row \<longleftrightarrow>
     blank (ia_delivery_id row) \<or> blank (ia_transport row) \<or> blank (ia_external_ref row) \<or>
     blank (provider (ia_principal row)) \<or> blank (subject (ia_principal row))"

definition ingress_findings :: "board \<Rightarrow> string \<Rightarrow> string \<Rightarrow> findings" where
  "ingress_findings db participant_id intent_id =
     (let rows = sort_key (\<lambda>i. (in_created_at i, in_delivery_id i))
            (filter (\<lambda>i. in_intent_id i = intent_id) (ingress_provenance db));
          unbound = (\<exists>i \<in> set rows. in_participant_id i = None \<or> in_participant_id i = Some []);
          target = map ingress_audit_of_row
            (filter (\<lambda>i. in_participant_id i \<noteq> Some [] \<and> in_participant_id i = Some participant_id) rows);
          mismatched = filter (\<lambda>r. ia_intent_id r \<noteq> intent_id \<or> ia_participant_id r \<noteq> participant_id) target;
          invalid = (\<exists>r \<in> set target. ingress_metadata_blank r)
      in all_findings
        (map (\<lambda>_. violation ''ingress_binding_mismatch'') mismatched @
         (if unbound then [violation ''ingress_participant_unbound''] else []) @
         (if target = [] then [violation ''ingress_missing'']
          else if mismatched = [] then [check ''ingress_binding_valid''] else []) @
         (if invalid then [violation ''ingress_metadata_invalid'']
          else if target \<noteq> [] then [check ''ingress_metadata_valid''] else [])))"

definition verify_execution_audit_integrity :: "externals \<Rightarrow> board \<Rightarrow> string \<Rightarrow> string \<Rightarrow> audit_report" where
  "verify_execution_audit_integrity ext db participant_id intent_id =
     (case get_execution_receipt db participant_id intent_id of
        None \<Rightarrow> \<lparr>ar_participant_id = participant_id, ar_intent_id = intent_id, ar_valid = False,
                  ar_checks = [], ar_violations = [''receipt_missing'']\<rparr>
      | Some receipt \<Rightarrow>
          (let effect = find (\<lambda>m. m_id m = er_message_id receipt) (messages db);
               (checks, violations) = all_findings
                 [receipt_findings participant_id intent_id receipt,
                  message_findings ext participant_id receipt effect,
                  navigation_findings db participant_id intent_id receipt,
                  authorization_findings db participant_id intent_id receipt (map_option m_channel effect),
                  delegated_findings db participant_id intent_id receipt,
                  ingress_findings db participant_id intent_id];
               valid = (violations = [])
           in \<lparr>ar_participant_id = participant_id, ar_intent_id = intent_id, ar_valid = valid,
               ar_checks = checks @ (if valid then [''valid_committed_audit''] else []),
               ar_violations = violations\<rparr>))"

section \<open>The sweep\<close>

definition has_receipt :: "board \<Rightarrow> string \<Rightarrow> string \<Rightarrow> bool" where
  "has_receipt db participant_id intent_id \<longleftrightarrow>
     (\<exists>r \<in> set (execution_receipts db). r_participant_id r = participant_id \<and> r_intent_id r = intent_id)"

definition orphan_authorization :: "board \<Rightarrow> orphan_evidence list" where
  "orphan_authorization db =
     map (\<lambda>a. \<lparr>oe_kind = ''orphan_authorization_provenance'', oe_participant_id = Some (a_participant_id a),
         oe_intent_id = a_intent_id a,
         oe_reference = map_option (\<lambda>i. ''grant_id='' @ int_to_string i) (a_grant_id a)\<rparr>)
       (sort_key (\<lambda>a. (a_participant_id a, a_intent_id a))
         (filter (\<lambda>a. \<not> has_receipt db (a_participant_id a) (a_intent_id a)) (execution_authorization_provenance db)))"

text \<open>The rows of the LEFT JOIN: one for each matching receipt, or one without a match.\<close>

definition joined_receipts :: "board \<Rightarrow> ingress_row \<Rightarrow> string option list" where
  "joined_receipts db i =
     (case filter (\<lambda>r. in_participant_id i = Some (r_participant_id r) \<and> r_intent_id r = in_intent_id i)
             (execution_receipts db) of
        [] \<Rightarrow> [None]
      | rs \<Rightarrow> map (\<lambda>r. Some (r_participant_id r)) rs)"

definition orphan_ingress_of :: "ingress_row \<Rightarrow> string option \<Rightarrow> orphan_evidence list" where
  "orphan_ingress_of i matched =
     (let unbound = [\<lparr>oe_kind = ''unbound_legacy_ingress'', oe_participant_id = None,
            oe_intent_id = in_intent_id i, oe_reference = Some (in_delivery_id i)\<rparr>]
      in case in_participant_id i of
           None \<Rightarrow> unbound
         | Some participant_id \<Rightarrow>
             if blank participant_id then unbound
             else if matched = None then
               [\<lparr>oe_kind = ''orphan_ingress_provenance'', oe_participant_id = Some participant_id,
                 oe_intent_id = in_intent_id i, oe_reference = Some (in_delivery_id i)\<rparr>]
             else [])"

definition orphan_ingress :: "board \<Rightarrow> orphan_evidence list" where
  "orphan_ingress db =
     concat (map (\<lambda>i. concat (map (orphan_ingress_of i) (joined_receipts db i)))
       (sort_key (\<lambda>i. (in_intent_id i, in_delivery_id i)) (ingress_provenance db)))"

definition orphan_navigation :: "board \<Rightarrow> orphan_evidence list" where
  "orphan_navigation db =
     map (\<lambda>n. \<lparr>oe_kind = ''orphan_navigation_reservation'', oe_participant_id = Some (n_instance n),
         oe_intent_id = n_nonce n, oe_reference = Some (''message_id='' @ int_to_string (n_message_id n))\<rparr>)
       (sort_key (\<lambda>n. (n_instance n, n_nonce n))
         (filter (\<lambda>n. \<not> has_receipt db (n_instance n) (n_nonce n)) (navigation_writes db)))"

definition sweep_execution_audit_integrity :: "externals \<Rightarrow> board \<Rightarrow> sweep_report" where
  "sweep_execution_audit_integrity ext db =
     (let executions = sort_key (\<lambda>(p, i). (p, i))
            (map (\<lambda>r. (r_participant_id r, r_intent_id r)) (execution_receipts db));
          invalid = filter (\<lambda>report. \<not> ar_valid report)
            (map (\<lambda>(p, i). verify_execution_audit_integrity ext db p i) executions);
          orphans = sort_key (\<lambda>o'. (oe_kind o', oe_participant_id o', oe_intent_id o', oe_reference o'))
            (orphan_authorization db @ orphan_ingress db @ orphan_navigation db)
      in \<lparr>sr_valid = (invalid = [] \<and> orphans = []), sr_executions_scanned = length executions,
          sr_invalid_executions = invalid, sr_orphan_evidence = orphans\<rparr>)"

section \<open>What a valid execution is\<close>

text \<open>The primary keys of the tables the audit joins.\<close>

definition receipt_key :: "receipt_row \<Rightarrow> string \<times> string" where
  "receipt_key r = (r_participant_id r, r_intent_id r)"

definition provenance_key :: "provenance_row \<Rightarrow> string \<times> string" where
  "provenance_key a = (a_participant_id a, a_intent_id a)"

definition navigation_key :: "navigation_write \<Rightarrow> string \<times> string" where
  "navigation_key n = (n_instance n, n_nonce n)"

definition keys_wf :: "board \<Rightarrow> bool" where
  "keys_wf db \<longleftrightarrow>
     distinct (map receipt_key (execution_receipts db)) \<and>
     distinct (map provenance_key (execution_authorization_provenance db)) \<and>
     distinct (map navigation_key (navigation_writes db)) \<and>
     distinct (map in_delivery_id (ingress_provenance db)) \<and>
     distinct (map m_id (messages db)) \<and> distinct (map d_id (delegated_grants db))"

definition authorization_evidenced :: "receipt_row \<Rightarrow> message \<Rightarrow> provenance_row \<Rightarrow> bool" where
  "authorization_evidenced r m a \<longleftrightarrow>
     provenance_key a = receipt_key r \<and>
     (\<exists>p s. a_principal_provider a = Some p \<and> a_principal_subject a = Some s \<and> \<not> blank p \<and> \<not> blank s) \<and>
     a_capability a = Some (r_capability r) \<and> a_resource a = Some (m_channel m) \<and> \<not> blank (m_channel m)"

definition delegated_evidenced :: "board \<Rightarrow> receipt_row \<Rightarrow> provenance_row \<Rightarrow> bool" where
  "delegated_evidenced db r a \<longleftrightarrow>
     (a_source a = ''delegated_grants'' \<longrightarrow>
       (\<exists>g \<in> set (delegated_grants db). a_grant_id a = Some (d_id g) \<and>
          d_participant_id g = r_participant_id r \<and> d_capability g = r_capability r \<and>
          (d_one_shot g \<noteq> 0 \<longrightarrow> d_consumed_at g \<noteq> None \<and> d_consumed_intent_id g = Some (r_intent_id r))))"

definition ingress_evidenced :: "board \<Rightarrow> string \<Rightarrow> string \<Rightarrow> bool" where
  "ingress_evidenced db p i \<longleftrightarrow>
     (\<forall>x \<in> set (ingress_provenance db). in_intent_id x = i \<longrightarrow>
        in_participant_id x \<noteq> None \<and> in_participant_id x \<noteq> Some []) \<and>
     (\<exists>x \<in> set (ingress_provenance db). in_participant_id x = Some p \<and> in_intent_id x = i) \<and>
     (\<forall>x \<in> set (ingress_provenance db). in_participant_id x = Some p \<longrightarrow> in_intent_id x = i \<longrightarrow>
        \<not> ingress_metadata_blank (ingress_audit_of_row x))"

text \<open>The receipt's message exists, belongs to the participant and hashes to the receipt's hash; the
  reservation and the authorization provenance agree with the receipt and the message; and every recorded
  delivery of the intent is bound and described.\<close>

definition effect_evidenced :: "externals \<Rightarrow> board \<Rightarrow> receipt_row \<Rightarrow> message \<Rightarrow> bool" where
  "effect_evidenced ext db r m \<longleftrightarrow>
     m_id m = r_message_id r \<and> m_instance m = r_participant_id r \<and> r_intent_hash r = hash_of_message ext m \<and>
     (\<exists>n \<in> set (navigation_writes db). navigation_key n = receipt_key r \<and> n_message_id n = r_message_id r \<and>
        n_request_hash n = r_intent_hash r) \<and>
     (\<exists>a \<in> set (execution_authorization_provenance db). authorization_evidenced r m a \<and> delegated_evidenced db r a)"

definition execution_evidenced :: "externals \<Rightarrow> board \<Rightarrow> receipt_row \<Rightarrow> bool" where
  "execution_evidenced ext db r \<longleftrightarrow>
     r_status r = ''committed'' \<and> (\<exists>m \<in> set (messages db). effect_evidenced ext db r m) \<and>
     ingress_evidenced db (r_participant_id r) (r_intent_id r)"

section \<open>The checks decide it\<close>

lemma findings_clean [simp]:
  "snd (check c) = []" "snd (violation v) \<noteq> []" "snd (check_or b c v) = [] \<longleftrightarrow> b"
  "snd (all_findings fs) = [] \<longleftrightarrow> (\<forall>f \<in> set fs. snd f = [])"
  by (auto simp: check_def violation_def check_or_def all_findings_def)

definition audited_receipt :: "receipt_row \<Rightarrow> execution_receipt" where
  "audited_receipt r =
     \<lparr>er_participant_id = r_participant_id r, er_intent_id = r_intent_id r, er_intent_hash = r_intent_hash r,
      er_capability = r_capability r, er_message_id = r_message_id r, er_status = r_status r\<rparr>"

lemma find_receipt_mem:
  assumes "keys_wf db" and "r \<in> set (execution_receipts db)"
  shows "find_receipt db (r_participant_id r) (r_intent_id r) = Some r"
  using find_key [of receipt_key "execution_receipts db" r] assms
  by (simp add: keys_wf_def find_receipt_def receipt_key_def)

lemma get_receipt_mem:
  "keys_wf db \<Longrightarrow> r \<in> set (execution_receipts db) \<Longrightarrow>
   get_execution_receipt db (r_participant_id r) (r_intent_id r) = Some (audited_receipt r)"
  by (simp add: get_execution_receipt_def find_receipt_mem audited_receipt_def)

lemma receipt_clean:
  "snd (receipt_findings (r_participant_id r) (r_intent_id r) (audited_receipt r)) = [] \<longleftrightarrow> r_status r = ''committed''"
  by (simp add: receipt_findings_def audited_receipt_def)

lemma message_clean:
  "snd (message_findings ext p rc effect) = [] \<longleftrightarrow>
     (\<exists>m. effect = Some m \<and> m_instance m = p \<and> er_intent_hash rc = hash_of_message ext m)"
  by (cases effect) (simp_all add: message_findings_def)

lemma navigation_clean:
  assumes "table_exists db ''navigation_writes''" and "keys_wf db"
  shows "snd (navigation_findings db (r_participant_id r) (r_intent_id r) (audited_receipt r)) = [] \<longleftrightarrow>
    (\<exists>n \<in> set (navigation_writes db). navigation_key n = receipt_key r \<and> n_message_id n = r_message_id r \<and>
       n_request_hash n = r_intent_hash r)" (is "?clean \<longleftrightarrow> ?ev")
proof -
  have dist: "distinct (map navigation_key (navigation_writes db))" using assms(2) by (simp add: keys_wf_def)
  have found: "find_navigation db (r_participant_id r) (r_intent_id r) = Some n"
    if "n \<in> set (navigation_writes db)" "navigation_key n = receipt_key r" for n
    using find_key [OF dist that(1)] that(2) by (simp add: find_navigation_def navigation_key_def receipt_key_def)
  have mem: "n \<in> set (navigation_writes db)"
    if "audited_navigation db (r_participant_id r) (r_intent_id r) (audited_receipt r) = Some n" for n
    using that by (auto simp: audited_navigation_def split: option.splits list.splits
        dest!: find_navigationD sort_key_Cons_mem)
  have clean: "?clean \<longleftrightarrow> (\<exists>n. audited_navigation db (r_participant_id r) (r_intent_id r) (audited_receipt r) = Some n \<and>
      navigation_key n = receipt_key r \<and> n_message_id n = r_message_id r \<and> n_request_hash n = r_intent_hash r)"
    using assms(1) unfolding navigation_findings_def
    by (cases "audited_navigation db (r_participant_id r) (r_intent_id r) (audited_receipt r)")
      (auto simp: audited_receipt_def navigation_key_def receipt_key_def)
  show ?thesis unfolding clean using mem found by (auto simp: audited_navigation_def)
qed

lemma get_provenance_mem:
  assumes "keys_wf db" and "a \<in> set (execution_authorization_provenance db)"
  shows "get_authorization_provenance db (a_participant_id a) (a_intent_id a) = Some (provenance_of_row a)"
  using find_key [of provenance_key "execution_authorization_provenance db" a] assms
  by (simp add: keys_wf_def get_authorization_provenance_def provenance_key_def)

lemma authorization_clean:
  assumes "keys_wf db"
  shows "snd (authorization_findings db (r_participant_id r) (r_intent_id r) (audited_receipt r) (Some (m_channel m))) = [] \<longleftrightarrow>
    (\<exists>a \<in> set (execution_authorization_provenance db). authorization_evidenced r m a)"
proof -
  let ?hit = "\<lambda>a. a_participant_id a = r_participant_id r \<and> a_intent_id a = r_intent_id r"
  let ?rows = "execution_authorization_provenance db"
  have dist: "distinct (map provenance_key ?rows)" using assms by (simp add: keys_wf_def)
  have hit: "?hit = (\<lambda>a. provenance_key a = receipt_key r)" by (auto simp: provenance_key_def receipt_key_def)
  show ?thesis
  proof (cases "\<exists>a \<in> set ?rows. ?hit a")
    case False
    then have "sql_count ?hit ?rows = 0" by (simp add: sql_count_0)
    then show ?thesis using False
      by (auto simp: authorization_findings_def authorization_evidenced_def provenance_key_def receipt_key_def)
  next
    case True
    then obtain a where a: "a \<in> set ?rows" "a_participant_id a = r_participant_id r" "a_intent_id a = r_intent_id r"
      by blast
    have uniq: "b = a" if "b \<in> set ?rows" "provenance_key b = receipt_key r" for b
      using distinct_key_eq [OF dist that(1) a(1)] that(2) a by (simp add: provenance_key_def receipt_key_def)
    have "receipt_key r \<in> provenance_key ` set ?rows"
      using a by (auto simp: provenance_key_def receipt_key_def intro!: image_eqI [of _ _ a])
    then have "sql_count ?hit ?rows = 1" using sql_count_key [OF dist, of "receipt_key r"] by (simp add: hit)
    moreover have "get_authorization_provenance db (r_participant_id r) (r_intent_id r) = Some (provenance_of_row a)"
      using get_provenance_mem [OF assms a(1)] a by simp
    ultimately have "snd (authorization_findings db (r_participant_id r) (r_intent_id r) (audited_receipt r)
        (Some (m_channel m))) = [] \<longleftrightarrow> authorization_evidenced r m a"
      using a(2,3) unfolding authorization_findings_def
      by (auto simp: provenance_of_row_def audited_receipt_def authorization_evidenced_def provenance_key_def
          receipt_key_def split: option.splits)
    then show ?thesis using a(1) uniq by (auto simp: authorization_evidenced_def)
  qed
qed

lemma delegated_clean:
  assumes "table_exists db ''delegated_grants''" and "keys_wf db"
    and a: "a \<in> set (execution_authorization_provenance db)" "provenance_key a = receipt_key r"
  shows "snd (delegated_findings db (r_participant_id r) (r_intent_id r) (audited_receipt r)) = [] \<longleftrightarrow>
    delegated_evidenced db r a"
proof -
  have g: "get_authorization_provenance db (r_participant_id r) (r_intent_id r) = Some (provenance_of_row a)"
    using get_provenance_mem [OF assms(2) a(1)] a(2) by (simp add: provenance_key_def receipt_key_def)
  have dist: "distinct (map d_id (delegated_grants db))" using assms(2) by (simp add: keys_wf_def)
  have fnd: "find (\<lambda>g. d_id g = k) (delegated_grants db) = Some x \<longleftrightarrow> x \<in> set (delegated_grants db) \<and> d_id x = k" for k x
    using find_key [OF dist, of x] by (auto dest: find_SomeD)
  have ap: "ap_source (provenance_of_row a) = a_source a" "ap_grant_id (provenance_of_row a) = a_grant_id a"
    by (simp_all add: provenance_of_row_def)
  show ?thesis
  proof (cases "a_source a = ''delegated_grants''")
    case False
    then show ?thesis by (simp add: delegated_findings_def g ap delegated_evidenced_def)
  next
    case src: True
    show ?thesis
    proof (cases "a_grant_id a")
      case None
      then show ?thesis using src by (simp add: delegated_findings_def g ap delegated_evidenced_def)
    next
      case (Some k)
      show ?thesis
      proof (cases "find (\<lambda>g. d_id g = k) (delegated_grants db)")
        case None
        then have "\<not> (\<exists>x \<in> set (delegated_grants db). d_id x = k)" by (auto simp: find_None_iff)
        then have "\<not> delegated_evidenced db r a" using src Some by (auto simp: delegated_evidenced_def)
        moreover have "delegated_findings db (r_participant_id r) (r_intent_id r) (audited_receipt r) =
            violation ''delegated_grant_missing''"
          unfolding delegated_findings_def g option.case ap using src Some None assms(1) by simp
        ultimately show ?thesis by simp
      next
        case f: (Some x)
        then have x: "x \<in> set (delegated_grants db)" "d_id x = k" by (simp_all add: fnd)
        have uniq: "\<And>y. y \<in> set (delegated_grants db) \<Longrightarrow> d_id y = k \<Longrightarrow> y = x" using f fnd by (metis option.inject)
        let ?Q = "\<lambda>x. d_participant_id x = r_participant_id r \<and> d_capability x = r_capability r \<and>
            (d_one_shot x \<noteq> 0 \<longrightarrow> d_consumed_at x \<noteq> None \<and> d_consumed_intent_id x = Some (r_intent_id r))"
        have id: "a_grant_id a = Some (d_id y) \<longleftrightarrow> d_id y = k" for y using Some by auto
        have "delegated_evidenced db r a \<longleftrightarrow> (\<exists>y \<in> set (delegated_grants db). d_id y = k \<and> ?Q y)"
          unfolding delegated_evidenced_def id using src by blast
        also have "\<dots> \<longleftrightarrow> ?Q x" using uniq x by blast
        finally have ev: "delegated_evidenced db r a \<longleftrightarrow> ?Q x" .
        have "delegated_findings db (r_participant_id r) (r_intent_id r) (audited_receipt r) = all_findings
            [check ''delegated_grant_present'',
             check_or (d_participant_id x = er_participant_id (audited_receipt r) \<and>
                 d_capability x = er_capability (audited_receipt r))
               ''delegated_grant_binding_valid'' ''delegated_grant_binding_mismatch'',
             (if d_one_shot x \<noteq> 0 then
                (if d_consumed_at x = None then violation ''delegated_one_shot_consumption_missing''
                 else check_or (d_consumed_intent_id x = Some (er_intent_id (audited_receipt r)))
                   ''delegated_one_shot_consumption_valid'' ''delegated_one_shot_consumption_mismatch'')
              else check ''delegated_grant_non_one_shot'')]"
          unfolding delegated_findings_def g option.case ap using src assms(1) by (simp only: Some f option.case simp_thms if_True if_False)
        then show ?thesis unfolding ev by (simp add: audited_receipt_def)
      qed
    qed
  qed
qed

lemma ingress_clean:
  "snd (ingress_findings db p i) = [] \<longleftrightarrow> ingress_evidenced db p i"
proof -
  let ?key = "\<lambda>x. (in_created_at x, in_delivery_id x)"
  let ?rows = "sort_key ?key (filter (\<lambda>x. in_intent_id x = i) (ingress_provenance db))"
  let ?target = "map ingress_audit_of_row
    (filter (\<lambda>x. in_participant_id x \<noteq> Some [] \<and> in_participant_id x = Some p) ?rows)"
  have rows: "set ?rows = {x \<in> set (ingress_provenance db). in_intent_id x = i}" by simp
  have mis: "filter (\<lambda>r. ia_intent_id r \<noteq> i \<or> ia_participant_id r \<noteq> p) ?target = []"
    by (auto simp: filter_empty_conv ingress_audit_of_row_def)
  have "snd (ingress_findings db p i) = [] \<longleftrightarrow>
      \<not> (\<exists>x \<in> set ?rows. in_participant_id x = None \<or> in_participant_id x = Some []) \<and> ?target \<noteq> [] \<and>
      \<not> (\<exists>r \<in> set ?target. ingress_metadata_blank r)"
    unfolding ingress_findings_def Let_def mis
    by (simp split: if_split) auto
  also have "\<dots> \<longleftrightarrow> ingress_evidenced db p i"
    unfolding ingress_evidenced_def by (auto simp: filter_empty_conv)
  finally show ?thesis .
qed

text \<open>The tables whose absence the audit reports as missing evidence.\<close>

definition audit_tables :: "board \<Rightarrow> bool" where
  "audit_tables db \<longleftrightarrow> table_exists db ''navigation_writes'' \<and> table_exists db ''delegated_grants''"

lemma verify_valid:
  assumes "keys_wf db" and "audit_tables db" and "r \<in> set (execution_receipts db)"
  shows "ar_valid (verify_execution_audit_integrity ext db (r_participant_id r) (r_intent_id r)) \<longleftrightarrow>
    execution_evidenced ext db r"
proof -
  let ?p = "r_participant_id r" and ?i = "r_intent_id r" and ?rc = "audited_receipt r"
  let ?effect = "find (\<lambda>m. m_id m = r_message_id r) (messages db)"
  have dist: "distinct (map m_id (messages db))" using assms(1) by (simp add: keys_wf_def)
  have eff: "?effect = Some m \<longleftrightarrow> m \<in> set (messages db) \<and> m_id m = r_message_id r" for m
    using find_key [OF dist, of m] by (auto dest: find_SomeD)
  have rc: "er_message_id ?rc = r_message_id r" "er_intent_hash ?rc = r_intent_hash r"
    by (simp_all add: audited_receipt_def)
  have "ar_valid (verify_execution_audit_integrity ext db ?p ?i) \<longleftrightarrow>
      snd (receipt_findings ?p ?i ?rc) = [] \<and> snd (message_findings ext ?p ?rc ?effect) = [] \<and>
      snd (navigation_findings db ?p ?i ?rc) = [] \<and>
      snd (authorization_findings db ?p ?i ?rc (map_option m_channel ?effect)) = [] \<and>
      snd (delegated_findings db ?p ?i ?rc) = [] \<and> snd (ingress_findings db ?p ?i) = []"
    unfolding verify_execution_audit_integrity_def get_receipt_mem [OF assms(1,3)] option.case Let_def
    by (simp add: rc case_prod_beta)
  also have "\<dots> \<longleftrightarrow> execution_evidenced ext db r"
  proof (cases ?effect)
    case None
    then show ?thesis
      using eff by (simp add: message_clean execution_evidenced_def effect_evidenced_def)
  next
    case (Some m)
    have m: "m \<in> set (messages db)" "m_id m = r_message_id r" using Some eff by blast+
    have uniq: "\<And>x. x \<in> set (messages db) \<Longrightarrow> m_id x = r_message_id r \<Longrightarrow> x = m" using Some eff by (metis option.inject)
    have auth: "(\<exists>a \<in> set (execution_authorization_provenance db). authorization_evidenced r m a) \<and>
        snd (delegated_findings db ?p ?i ?rc) = [] \<longleftrightarrow>
      (\<exists>a \<in> set (execution_authorization_provenance db). authorization_evidenced r m a \<and> delegated_evidenced db r a)"
      using delegated_clean [OF _ assms(1), of _ r] assms(2)
      by (auto simp: audit_tables_def authorization_evidenced_def)
    have "execution_evidenced ext db r \<longleftrightarrow>
        r_status r = ''committed'' \<and> effect_evidenced ext db r m \<and> ingress_evidenced db ?p ?i"
    proof -
      have "effect_evidenced ext db r x \<Longrightarrow> m_id x = r_message_id r" for x by (simp add: effect_evidenced_def)
      then show ?thesis unfolding execution_evidenced_def using m(1) uniq by blast
    qed
    moreover have "effect_evidenced ext db r m \<longleftrightarrow> m_instance m = ?p \<and> r_intent_hash r = hash_of_message ext m \<and>
        snd (navigation_findings db ?p ?i ?rc) = [] \<and>
        snd (authorization_findings db ?p ?i ?rc (Some (m_channel m))) = [] \<and>
        snd (delegated_findings db ?p ?i ?rc) = []"
      unfolding effect_evidenced_def authorization_clean [OF assms(1)]
        navigation_clean [OF assms(2) [unfolded audit_tables_def, THEN conjunct1] assms(1)]
      using auth m(2) by blast
    ultimately show ?thesis
      unfolding Some by (auto simp: receipt_clean message_clean ingress_clean rc)
  qed
  finally show ?thesis .
qed

lemma verify_missing:
  "\<not> has_receipt db p i \<Longrightarrow> ar_violations (verify_execution_audit_integrity ext db p i) = [''receipt_missing''] \<and>
     \<not> ar_valid (verify_execution_audit_integrity ext db p i)"
  by (auto simp: verify_execution_audit_integrity_def get_execution_receipt_def find_receipt_def has_receipt_def
      find_None_iff split: option.split dest!: find_SomeD)

text \<open>No evidence without an execution.\<close>

definition no_orphans :: "board \<Rightarrow> bool" where
  "no_orphans db \<longleftrightarrow>
     (\<forall>a \<in> set (execution_authorization_provenance db). has_receipt db (a_participant_id a) (a_intent_id a)) \<and>
     (\<forall>x \<in> set (ingress_provenance db). \<exists>p. in_participant_id x = Some p \<and> \<not> blank p \<and>
        has_receipt db p (in_intent_id x)) \<and>
     (\<forall>n \<in> set (navigation_writes db). has_receipt db (n_instance n) (n_nonce n))"

lemma orphan_authorization_Nil:
  "orphan_authorization db = [] \<longleftrightarrow>
     (\<forall>a \<in> set (execution_authorization_provenance db). has_receipt db (a_participant_id a) (a_intent_id a))"
  by (simp add: orphan_authorization_def sort_key_Nil_iff filter_empty_conv)

lemma orphan_navigation_Nil:
  "orphan_navigation db = [] \<longleftrightarrow> (\<forall>n \<in> set (navigation_writes db). has_receipt db (n_instance n) (n_nonce n))"
  by (simp add: orphan_navigation_def sort_key_Nil_iff filter_empty_conv)

lemma joined_receipts_None:
  "None \<in> set (joined_receipts db x) \<longleftrightarrow>
     \<not> (\<exists>p. in_participant_id x = Some p \<and> has_receipt db p (in_intent_id x))"
proof -
  let ?rs = "filter (\<lambda>r. in_participant_id x = Some (r_participant_id r) \<and> r_intent_id r = in_intent_id x)
    (execution_receipts db)"
  have "?rs = [] \<longleftrightarrow> \<not> (\<exists>p. in_participant_id x = Some p \<and> has_receipt db p (in_intent_id x))"
    by (auto simp: filter_empty_conv has_receipt_def)
  then show ?thesis by (auto simp: joined_receipts_def split: list.split)
qed

lemma joined_receipts_nonempty: "joined_receipts db x \<noteq> []"
  by (simp add: joined_receipts_def split: list.split)

lemma orphan_ingress_Nil:
  "orphan_ingress db = [] \<longleftrightarrow> (\<forall>x \<in> set (ingress_provenance db). \<exists>p. in_participant_id x = Some p \<and> \<not> blank p \<and>
     has_receipt db p (in_intent_id x))"
proof -
  have one: "concat (map (orphan_ingress_of x) (joined_receipts db x)) = [] \<longleftrightarrow>
      (\<exists>p. in_participant_id x = Some p \<and> \<not> blank p \<and> has_receipt db p (in_intent_id x))" for x
  proof -
    obtain j js where j: "joined_receipts db x = j # js" using joined_receipts_nonempty by (cases "joined_receipts db x") auto
    have "concat (map (orphan_ingress_of x) (joined_receipts db x)) = [] \<longleftrightarrow>
        (\<exists>p. in_participant_id x = Some p \<and> \<not> blank p) \<and> None \<notin> set (joined_receipts db x)"
      by (cases "in_participant_id x") (auto simp: orphan_ingress_of_def j split: if_splits)
    then show ?thesis unfolding joined_receipts_None by auto
  qed
  show ?thesis unfolding orphan_ingress_def concat_eq_Nil_conv by (simp only: set_map set_sort ball_simps one)
qed

section \<open>The audit is exact\<close>

text \<open>C6: The execution audit is exact: on a board whose primary keys hold, the check of one execution is valid
  if and only if there is a receipt for it that is committed, whose message exists, belongs to the
  participant and has the recorded hash, whose reservation, authorization provenance and (for delegated
  authority) consumed grant agree with it, and whose deliveries are all bound and described.\<close>

theorem execution_audit_exact:
  assumes "keys_wf db" and "audit_tables db"
  shows "ar_valid (verify_execution_audit_integrity ext db p i) \<longleftrightarrow>
    (\<exists>r \<in> set (execution_receipts db). receipt_key r = (p, i) \<and> execution_evidenced ext db r)"
proof (cases "has_receipt db p i")
  case False
  then show ?thesis using verify_missing [OF False] by (auto simp: has_receipt_def receipt_key_def)
next
  case True
  then obtain r where r: "r \<in> set (execution_receipts db)" "r_participant_id r = p" "r_intent_id r = i"
    by (auto simp: has_receipt_def)
  have dist: "distinct (map receipt_key (execution_receipts db))" using assms(1) by (simp add: keys_wf_def)
  have "x = r" if "x \<in> set (execution_receipts db)" "receipt_key x = (p, i)" for x
    using distinct_key_eq [OF dist that(1) r(1)] that(2) r by (simp add: receipt_key_def)
  moreover have "ar_valid (verify_execution_audit_integrity ext db p i) \<longleftrightarrow> execution_evidenced ext db r"
    by (rule verify_valid [OF assms r(1), of ext, unfolded r(2,3)])
  moreover have "receipt_key r = (p, i)" using r by (simp add: receipt_key_def)
  ultimately show ?thesis using r(1) by blast
qed

lemma no_invalid_reports:
  "filter (\<lambda>report. \<not> P report) (map (\<lambda>(p, i). f p i) (sort_key h (map (\<lambda>r. (k r, l r)) xs))) = [] \<longleftrightarrow>
   (\<forall>r \<in> set xs. P (f (k r) (l r)))"
  by (simp add: filter_empty_conv)

lemma invalid_reports:
  "set (filter (\<lambda>report. \<not> P report) (map (\<lambda>(p, i). f p i) (sort_key h (map (\<lambda>r. (k r, l r)) xs)))) =
   (\<lambda>r. f (k r) (l r)) ` {r \<in> set xs. \<not> P (f (k r) (l r))}"
  by auto

lemma sweep_valid:
  assumes "keys_wf db" and "audit_tables db"
  shows "sr_valid (sweep_execution_audit_integrity ext db) \<longleftrightarrow>
    (\<forall>r \<in> set (execution_receipts db). execution_evidenced ext db r) \<and> no_orphans db"
proof -
  let ?reports = "map (\<lambda>(p, i). verify_execution_audit_integrity ext db p i)
    (sort_key (\<lambda>(p, i). (p, i)) (map (\<lambda>r. (r_participant_id r, r_intent_id r)) (execution_receipts db)))"
  have "filter (\<lambda>report. \<not> ar_valid report) ?reports = [] \<longleftrightarrow>
      (\<forall>r \<in> set (execution_receipts db). ar_valid (verify_execution_audit_integrity ext db (r_participant_id r) (r_intent_id r)))"
    by (rule no_invalid_reports)
  also have "\<dots> \<longleftrightarrow> (\<forall>r \<in> set (execution_receipts db). execution_evidenced ext db r)"
    using verify_valid [OF assms] by simp
  finally have inv: "filter (\<lambda>report. \<not> ar_valid report) ?reports = [] \<longleftrightarrow>
      (\<forall>r \<in> set (execution_receipts db). execution_evidenced ext db r)" .
  have "orphan_authorization db @ orphan_ingress db @ orphan_navigation db = [] \<longleftrightarrow> no_orphans db"
    by (simp add: orphan_authorization_Nil orphan_ingress_Nil orphan_navigation_Nil no_orphans_def)
  then show ?thesis
    unfolding sweep_execution_audit_integrity_def Let_def sweep_report.select_convs sort_key_Nil_iff inv by blast
qed

text \<open>The sweep misses nothing and accuses nothing: it scans every receipt, is valid if and only if every
  receipt is evidenced and every provenance, delivery and reservation belongs to a receipt, and the
  executions it lists as invalid are exactly the reports of receipts that are not evidenced.\<close>

theorem execution_sweep_exact:
  assumes "keys_wf db" and "audit_tables db"
  shows "sr_executions_scanned (sweep_execution_audit_integrity ext db) = length (execution_receipts db) \<and>
    (sr_valid (sweep_execution_audit_integrity ext db) \<longleftrightarrow>
      (\<forall>r \<in> set (execution_receipts db). execution_evidenced ext db r) \<and> no_orphans db) \<and>
    set (sr_invalid_executions (sweep_execution_audit_integrity ext db)) =
      (\<lambda>r. verify_execution_audit_integrity ext db (r_participant_id r) (r_intent_id r)) `
        {r \<in> set (execution_receipts db). \<not> execution_evidenced ext db r}"
proof (intro conjI)
  show "sr_executions_scanned (sweep_execution_audit_integrity ext db) = length (execution_receipts db)"
    by (simp add: sweep_execution_audit_integrity_def Let_def)
  have "{r \<in> set (execution_receipts db). \<not> ar_valid (verify_execution_audit_integrity ext db (r_participant_id r) (r_intent_id r))} =
      {r \<in> set (execution_receipts db). \<not> execution_evidenced ext db r}"
    using verify_valid [OF assms] by blast
  then show "set (sr_invalid_executions (sweep_execution_audit_integrity ext db)) =
      (\<lambda>r. verify_execution_audit_integrity ext db (r_participant_id r) (r_intent_id r)) `
        {r \<in> set (execution_receipts db). \<not> execution_evidenced ext db r}"
    unfolding sweep_execution_audit_integrity_def Let_def sweep_report.select_convs invalid_reports by simp
qed (rule sweep_valid [OF assms])

lemma sample_audit_board: "keys_wf sample_admin_board" "audit_tables sample_admin_board"
  "execution_receipts sample_admin_board = []" "no_orphans sample_admin_board"
  by (simp_all add: keys_wf_def audit_tables_def no_orphans_def table_exists_def sample_admin_board_def
      empty_board_def current_schema_def)

theorem execution_audit_exact_witness:
  "\<not> ar_valid (verify_execution_audit_integrity sample_externals sample_admin_board ''ada'' ''i1'')"
  using execution_audit_exact [OF sample_audit_board(1,2)] sample_audit_board(3) by simp

theorem execution_sweep_exact_witness:
  "sr_valid (sweep_execution_audit_integrity sample_externals sample_admin_board)"
  using execution_sweep_exact [OF sample_audit_board(1,2)] sample_audit_board(3,4) by simp

end
