(* ===== verification/Evidence.thy ===== *)
theory Evidence
  imports Execution_Audit
begin

text \<open>
  The evidence invariant of the program's own writers: every receipt is evidenced and no evidence is
  orphaned.  The executor keeps it (\<open>execute_keeps_evidence\<close>).  Every other writer satisfies the contract
  \<open>quiet_operation\<close>: it leaves receipts, provenance, reservations and deliveries alone, loses no message
  and takes no consumption back.  The contract is interpreted on the operations of \<open>db.rs\<close>,
  \<open>identity.rs\<close> and \<open>authorization_admin.rs\<close>.
\<close>

section \<open>The invariant\<close>

definition evidence_wf :: "externals \<Rightarrow> board \<Rightarrow> bool" where
  "evidence_wf ext db \<longleftrightarrow>
     keys_wf db \<and> audit_tables db \<and> table_exists db ''execution_receipts'' \<and>
     (\<forall>r \<in> set (execution_receipts db). execution_evidenced ext db r) \<and> no_orphans db"

text \<open>A request whose evidence can be audited: nothing that is recorded about it is blank.\<close>

definition described :: "message_execution_request \<Rightarrow> bool" where
  "described q \<longleftrightarrow>
     \<not> blank (ig_delivery_id (mr_ingress q)) \<and> \<not> blank (ig_transport (mr_ingress q)) \<and>
     \<not> blank (ig_external_ref (mr_ingress q)) \<and> \<not> blank (provider (ig_principal (mr_ingress q))) \<and>
     \<not> blank (subject (ig_principal (mr_ingress q))) \<and> \<not> blank (mr_channel q) \<and>
     \<not> blank (it_participant_id (mr_intent q))"

text \<open>Grants keep what evidence refers to.\<close>

definition retained :: "delegated_grant \<Rightarrow> delegated_grant \<Rightarrow> bool" where
  "retained g g' \<longleftrightarrow> d_id g' = d_id g \<and> d_participant_id g' = d_participant_id g \<and> d_capability g' = d_capability g \<and>
     d_one_shot g' = d_one_shot g \<and>
     (d_consumed_at g \<noteq> None \<longrightarrow> d_consumed_at g' = d_consumed_at g \<and> d_consumed_intent_id g' = d_consumed_intent_id g)"

definition grants_retained :: "board \<Rightarrow> board \<Rightarrow> bool" where
  "grants_retained db db' \<longleftrightarrow> (\<forall>g \<in> set (delegated_grants db). \<exists>g' \<in> set (delegated_grants db'). retained g g')"

lemma grants_retained_eq: "delegated_grants db' = delegated_grants db \<Longrightarrow> grants_retained db db'"
  by (auto simp: grants_retained_def retained_def)

lemma delegated_evidenced_mono:
  assumes "delegated_evidenced db r a" and "grants_retained db db'"
  shows "delegated_evidenced db' r a"
  unfolding delegated_evidenced_def
proof (rule impI)
  assume "a_source a = ''delegated_grants''"
  then obtain g where g: "g \<in> set (delegated_grants db)" "a_grant_id a = Some (d_id g)"
      "d_participant_id g = r_participant_id r" "d_capability g = r_capability r"
      "d_one_shot g \<noteq> 0 \<longrightarrow> d_consumed_at g \<noteq> None \<and> d_consumed_intent_id g = Some (r_intent_id r)"
    using assms(1) unfolding delegated_evidenced_def by blast
  obtain g' where "g' \<in> set (delegated_grants db')" "retained g g'"
    using assms(2) g(1) unfolding grants_retained_def by blast
  with g show "\<exists>g \<in> set (delegated_grants db'). a_grant_id a = Some (d_id g) \<and>
      d_participant_id g = r_participant_id r \<and> d_capability g = r_capability r \<and>
      (d_one_shot g \<noteq> 0 \<longrightarrow> d_consumed_at g \<noteq> None \<and> d_consumed_intent_id g = Some (r_intent_id r))"
    by (intro bexI [of _ g']) (simp_all add: retained_def)
qed

lemma effect_evidenced_mono:
  assumes "effect_evidenced ext db r m" and "set (navigation_writes db) \<subseteq> set (navigation_writes db')"
    and "set (execution_authorization_provenance db) \<subseteq> set (execution_authorization_provenance db')"
    and "grants_retained db db'"
  shows "effect_evidenced ext db' r m"
  using assms delegated_evidenced_mono [OF _ assms(4), of r] unfolding effect_evidenced_def by blast

lemma evidenced_mono:
  assumes "execution_evidenced ext db r" and "set (navigation_writes db) \<subseteq> set (navigation_writes db')"
    and "set (execution_authorization_provenance db) \<subseteq> set (execution_authorization_provenance db')"
    and "set (messages db) \<subseteq> set (messages db')" and "grants_retained db db'"
    and "ingress_evidenced db' (r_participant_id r) (r_intent_id r)"
  shows "execution_evidenced ext db' r"
  using assms effect_evidenced_mono [OF _ assms(2,3,5)] unfolding execution_evidenced_def by blast

lemma ingress_evidenced_cong:
  "ingress_provenance db' = ingress_provenance db \<Longrightarrow> ingress_evidenced db' p i = ingress_evidenced db p i"
  by (simp add: ingress_evidenced_def)

lemma ingress_evidenced_append:
  assumes "ingress_evidenced db p i" and "set (ingress_provenance db') \<subseteq> insert x (set (ingress_provenance db))"
    and "set (ingress_provenance db) \<subseteq> set (ingress_provenance db')"
    and "in_participant_id x \<noteq> None" "in_participant_id x \<noteq> Some []"
    and "\<not> ingress_metadata_blank (ingress_audit_of_row x)"
  shows "ingress_evidenced db' p i"
  using assms unfolding ingress_evidenced_def by blast

lemma has_receipt_mono:
  "set (execution_receipts db) \<subseteq> set (execution_receipts db') \<Longrightarrow> has_receipt db p i \<Longrightarrow> has_receipt db' p i"
  by (auto simp: has_receipt_def)

lemma evidenced_reserved:
  assumes "evidence_wf ext db" and "has_receipt db p i"
  shows "find_navigation db p i \<noteq> None"
proof -
  obtain r where r: "r \<in> set (execution_receipts db)" "r_participant_id r = p" "r_intent_id r = i"
    using assms(2) by (auto simp: has_receipt_def)
  then obtain n where "n \<in> set (navigation_writes db)" "navigation_key n = receipt_key r"
    using assms(1) by (auto simp: evidence_wf_def execution_evidenced_def effect_evidenced_def)
  then show ?thesis using r by (auto simp: find_navigation_def find_None_iff navigation_key_def receipt_key_def)
qed

lemma reserved_evidenced:
  assumes "evidence_wf ext db" and "find_navigation db p i = Some n"
  obtains r m where "r \<in> set (execution_receipts db)" "r_participant_id r = p" "r_intent_id r = i"
    "find_receipt db p i = Some r" "execution_evidenced ext db r" "m \<in> set (messages db)"
    "effect_evidenced ext db r m" "m_id m = n_message_id n" "m_instance m = p"
    "n_request_hash n = hash_of_message ext m"
proof -
  have n: "n \<in> set (navigation_writes db)" "n_instance n = p" "n_nonce n = i"
    using find_navigationD [OF assms(2)] by auto
  have k: "keys_wf db" and dist: "distinct (map navigation_key (navigation_writes db))"
    using assms(1) by (simp_all add: evidence_wf_def keys_wf_def)
  have "has_receipt db p i" using assms(1) n by (auto simp: evidence_wf_def no_orphans_def)
  then obtain r where r: "r \<in> set (execution_receipts db)" "r_participant_id r = p" "r_intent_id r = i"
    by (auto simp: has_receipt_def)
  have ev: "execution_evidenced ext db r" using assms(1) r(1) by (simp add: evidence_wf_def)
  then obtain m where m: "m \<in> set (messages db)" "effect_evidenced ext db r m"
    by (auto simp: execution_evidenced_def)
  then obtain n' where n': "n' \<in> set (navigation_writes db)" "navigation_key n' = receipt_key r"
      "n_message_id n' = r_message_id r" "n_request_hash n' = r_intent_hash r"
    by (auto simp: effect_evidenced_def)
  have "n' = n" using distinct_key_eq [OF dist n'(1) n(1)] n'(2) n r by (simp add: navigation_key_def receipt_key_def)
  moreover have "find_receipt db p i = Some r" using find_receipt_mem [OF k r(1)] r by simp
  moreover have "m_id m = r_message_id r" "m_instance m = p" "r_intent_hash r = hash_of_message ext m"
    using m(2) r(2) by (simp_all add: effect_evidenced_def)
  ultimately show thesis using r ev m n'(3,4) by (intro that [of r m]) simp_all
qed

section \<open>The executor keeps it\<close>

lemma table_exists_prepared:
  "schema db' = schema (ensure_grant_schema db) \<Longrightarrow> table_exists db t \<Longrightarrow> table_exists db' t"
  using table_exists_ensure [of db t] table_exists_schema [of db' "ensure_grant_schema db"] by simp

lemma retained_refl: "retained g g"
  by (simp add: retained_def)

lemma grants_retained_update:
  assumes "delegated_grants db' = sql_update P f (delegated_grants db)" and "\<And>g. P g \<Longrightarrow> retained g (f g)"
  shows "grants_retained db db'"
  unfolding grants_retained_def assms(1)
proof (rule ballI)
  fix g assume g: "g \<in> set (delegated_grants db)"
  show "\<exists>g' \<in> set (sql_update P f (delegated_grants db)). retained g g'"
    by (rule bexI [of _ "if P g then f g else g"]) (use g assms(2) in \<open>auto simp: sql_update_def retained_refl\<close>)
qed

lemma consumed_grants_retained:
  assumes "delegated_grants db' = consumed_grants now i d db"
  shows "grants_retained db db'"
proof (cases "ad_consume_grant_id d")
  case None
  then show ?thesis using assms by (intro grants_retained_eq) (simp add: consumed_grants_def)
next
  case (Some k)
  show ?thesis
    by (rule grants_retained_update [OF assms [unfolded consumed_grants_def Some option.case]])
      (simp add: retained_def)
qed

lemma consumed_grants_cong:
  "delegated_grants db = delegated_grants db' \<Longrightarrow> consumed_grants now i d db = consumed_grants now i d db'"
  by (simp only: consumed_grants_def)

lemma consumed_grants_ids: "map d_id (consumed_grants now i d db) = map d_id (delegated_grants db)"
  by (simp add: consumed_grants_def map_sql_update split: option.split)

lemma described_ingress:
  assumes "described q" and "ig_principal (mr_ingress q) = au_principal (mr_authority q)"
  shows "\<not> ingress_metadata_blank (ingress_audit_of_row (ingress_row_of now (mr_ingress q) rc))"
  using assms by (simp add: described_def ingress_metadata_blank_def ingress_audit_of_row_def ingress_row_of_def)

text \<open>The board after a creation, under the invariant.\<close>

lemma created_board:
  assumes wf: "evidence_wf ext db" and ex: "execute_message_intent ext now who q db = (Inr (ExecCreated m), db')"
  obtains
    "request_bound ext who q" "ad_allowed (decision_of now q db)" "channel_active q db"
    "find_navigation db (id_instance who) (it_intent_id (mr_intent q)) = None" "reply_target_ok q db"
    "\<not> has_receipt db (it_participant_id (mr_intent q)) (it_intent_id (mr_intent q))"
    "ig_delivery_id (mr_ingress q) \<notin> in_delivery_id ` set (ingress_provenance db)"
    "m = created_message now who q db"
    "db' = prepared now who q db\<lparr>messages := messages db @ [m],
       navigation_writes := navigation_writes db @ [created_reservation now who q m],
       ingress_provenance := ingress_provenance db @ [ingress_row_of now (mr_ingress q) (receipt_of q m)],
       execution_receipts := execution_receipts db @ [receipt_row_of now (receipt_of q m)],
       execution_authorization_provenance :=
         execution_authorization_provenance db @ [provenance_row_of now q (decision_of now q db)],
       delegated_grants := consumed_grants now (it_intent_id (mr_intent q)) (decision_of now q db) db\<rparr>"
proof (rule execute_cases [OF ex])
  assume b: "request_bound ext who q" and al: "ad_allowed (decision_of now q db)" and ch: "channel_active q db"
    and nav: "find_navigation db (id_instance who) (it_intent_id (mr_intent q)) = None" and rt: "reply_target_ok q db"
    and res: "Inr (ExecCreated m) = Inr (ExecCreated (created_message now who q db))"
    and rec: "record_evidence_in_tx now q (decision_of now q db) (created_message now who q db) True
         (with_created now who q (prepared now who q db)) = (Inr (), db')"
  have m: "m = created_message now who q db" using res by simp
  have P: "id_instance who = it_participant_id (mr_intent q)" and I: "ig_intent_id (mr_ingress q) = it_intent_id (mr_intent q)"
    using b by (simp_all add: request_bound_def)
  let ?b = "with_created now who q (prepared now who q db)"
  have cm: "created_message now who q (prepared now who q db) = m" by (simp add: m created_message_def)
  have no: "\<not> has_receipt db (it_participant_id (mr_intent q)) (it_intent_id (mr_intent q))"
    using evidenced_reserved [OF wf, of "it_participant_id (mr_intent q)" "it_intent_id (mr_intent q)"] nav P by auto
  have fr: "find_receipt ?b = find_receipt db" by (rule find_receipt_cong) simp
  have none: "find_receipt db (it_participant_id (mr_intent q)) (it_intent_id (mr_intent q)) = None"
    using no by (auto simp: find_receipt_def has_receipt_def find_None_iff)
  obtain xs rs where d:
    "db' = ?b\<lparr>ingress_provenance := ingress_provenance ?b @ xs, execution_receipts := execution_receipts ?b @ rs,
       execution_authorization_provenance :=
         execution_authorization_provenance ?b @ [provenance_row_of now q (decision_of now q db)],
       delegated_grants := consumed_grants now (it_intent_id (mr_intent q)) (decision_of now q db) ?b\<rparr>"
    and xs: "xs = [ingress_row_of now (mr_ingress q) (receipt_of q m)] \<and>
       ig_delivery_id (mr_ingress q) \<notin> in_delivery_id ` set (ingress_provenance ?b) \<or>
     xs = [] \<and> (\<exists>i \<in> set (ingress_provenance ?b). delivered (mr_ingress q) (receipt_of q m) i)"
    and rs: "rs = [receipt_row_of now (receipt_of q m)] \<and>
       find_receipt ?b (it_participant_id (mr_intent q)) (it_intent_id (mr_intent q)) = None \<or>
     rs = [] \<and> (\<exists>r. find_receipt ?b (it_participant_id (mr_intent q)) (it_intent_id (mr_intent q)) = Some r \<and>
       r_capability r = it_capability (mr_intent q) \<and> r_message_id r = m_id m \<and> r_status r = ''committed'')"
    by (rule record_evidence_created [OF rec, folded m])
  have rs': "rs = [receipt_row_of now (receipt_of q m)]" using rs none by (simp add: fr)
  have xs': "xs = [ingress_row_of now (mr_ingress q) (receipt_of q m)]"
    and del: "ig_delivery_id (mr_ingress q) \<notin> in_delivery_id ` set (ingress_provenance db)"
  proof -
    have "\<not> delivered (mr_ingress q) (receipt_of q m) i" if "i \<in> set (ingress_provenance db)" for i
    proof
      assume "delivered (mr_ingress q) (receipt_of q m) i"
      then have "i = ingress_row_of (in_created_at i) (mr_ingress q) (receipt_of q m)" by (simp add: delivered_def)
      then have "in_participant_id i = Some (it_participant_id (mr_intent q))" "in_intent_id i = it_intent_id (mr_intent q)"
        using I by (metis ingress_row.select_convs ingress_row_of_def execution_receipt.select_convs(1) receipt_of_def)+
      then show False using wf that no by (auto simp: evidence_wf_def no_orphans_def)
    qed
    then show "xs = [ingress_row_of now (mr_ingress q) (receipt_of q m)]"
      "ig_delivery_id (mr_ingress q) \<notin> in_delivery_id ` set (ingress_provenance db)" using xs by auto
  qed
  have cg: "consumed_grants now (it_intent_id (mr_intent q)) (decision_of now q db) ?b =
      consumed_grants now (it_intent_id (mr_intent q)) (decision_of now q db) db" by (rule consumed_grants_cong) simp
  have "db' = prepared now who q db\<lparr>messages := messages db @ [m],
       navigation_writes := navigation_writes db @ [created_reservation now who q m],
       ingress_provenance := ingress_provenance db @ [ingress_row_of now (mr_ingress q) (receipt_of q m)],
       execution_receipts := execution_receipts db @ [receipt_row_of now (receipt_of q m)],
       execution_authorization_provenance :=
         execution_authorization_provenance db @ [provenance_row_of now q (decision_of now q db)],
       delegated_grants := consumed_grants now (it_intent_id (mr_intent q)) (decision_of now q db) db\<rparr>"
    unfolding d cg rs' xs' by (simp add: with_created_def Let_def cm)
  from that [OF b al ch nav rt no del m this] show thesis .
qed simp_all

text \<open>A decision that grants a new execution delegates it as the audit expects.\<close>

lemma decision_delegated:
  assumes gw: "grants_wf db" and d: "d = decision_of now q db" and al: "ad_allowed d"
    and src: "ad_source d = ''delegated_grants''"
    and no: "\<not> has_receipt db (it_participant_id (mr_intent q)) (it_intent_id (mr_intent q))"
  obtains g g' where "g \<in> set (delegated_grants db)" "ad_grant_id d = Some (d_id g)" "g' \<in> set (consumed_grants now (it_intent_id (mr_intent q)) d db)"
    "d_id g' = d_id g" "d_participant_id g' = it_participant_id (mr_intent q)" "d_capability g' = it_capability (mr_intent q)"
    "d_one_shot g' \<noteq> 0 \<longrightarrow> d_consumed_at g' \<noteq> None \<and> d_consumed_intent_id g' = Some (it_intent_id (mr_intent q))"
proof (rule evaluate_evidence [OF d [unfolded decision_of_def] al])
  fix i g
  assume i: "Some (it_intent_id (mr_intent q)) = Some i" and g: "g \<in> set (delegated_grants (ensure_grant_schema db))"
    and sc: "delegated_in_scope (au_principal (mr_authority q)) (it_participant_id (mr_intent q)) (it_capability (mr_intent q)) g"
    and den: "delegated_denial now (Some (it_resource (mr_intent q))) i g = None"
    and v: "d = delegated_verdict (ensure_grant_schema db) (it_participant_id (mr_intent q)) i g"
  have g': "g \<in> set (delegated_grants db)" using g by simp
  have gid: "ad_grant_id d = Some (d_id g)" by (simp only: v delegated_verdict_simps)
  have nr: "\<not> committed_receipt_exists (ensure_grant_schema db) (it_participant_id (mr_intent q)) (it_intent_id (mr_intent q))"
    using no by (auto simp: committed_receipt_exists_def sql_count_pos has_receipt_def)
  have open': "d_one_shot g = 0 \<or> d_consumed_at g = None"
    using al nr i unfolding v by (auto simp: delegated_verdict_def split: if_splits)
  have P: "d_participant_id g = it_participant_id (mr_intent q)" "d_capability g = it_capability (mr_intent q)"
    "d_status g = ''active''"
    using sc by (simp_all add: delegated_in_scope_def)
  show thesis
  proof (cases "d_one_shot g = 0")
    case True
    then have "consumed_grants now (it_intent_id (mr_intent q)) d db = delegated_grants db"
      by (simp add: consumed_grants_def v delegated_verdict_simps)
    then show thesis using True g' gid P by (intro that [of g g]) simp_all
  next
    case False
    then have one: "d_one_shot g = 1" and nc: "d_consumed_at g = None"
      using gw g' open' by (auto simp: grants_wf_def)
    let ?g = "g\<lparr>d_consumed_at := Some now, d_consumed_intent_id := Some (it_intent_id (mr_intent q)), d_updated_at := now\<rparr>"
    have c: "ad_consume_grant_id d = Some (d_id g)" using False nc by (simp add: v delegated_verdict_simps)
    have "?g \<in> set (consumed_grants now (it_intent_id (mr_intent q)) d db)"
      unfolding consumed_grants_def c option.case set_sql_update using g' one nc P by (intro bexI [of _ g]) simp_all
    then show thesis using g' gid P by (intro that [of g ?g]) simp_all
  qed
qed (use src in simp_all)

lemma execute_keeps_evidence_created:
  assumes wf: "evidence_wf ext db" and gw: "grants_wf db" and desc: "described q"
    and ex: "execute_message_intent ext now who q db = (Inr (ExecCreated m), db')"
  shows "evidence_wf ext db'"
proof (rule created_board [OF wf ex])
  let ?d = "decision_of now q db" and ?P = "it_participant_id (mr_intent q)" and ?I = "it_intent_id (mr_intent q)"
  let ?in = "ingress_row_of now (mr_ingress q) (receipt_of q m)" and ?r = "receipt_row_of now (receipt_of q m)"
  let ?a = "provenance_row_of now q ?d" and ?n = "created_reservation now who q m"
  assume b: "request_bound ext who q" and al: "ad_allowed ?d"
    and nav: "find_navigation db (id_instance who) ?I = None"
    and no: "\<not> has_receipt db ?P ?I"
    and del: "ig_delivery_id (mr_ingress q) \<notin> in_delivery_id ` set (ingress_provenance db)"
    and m: "m = created_message now who q db"
    and db': "db' = prepared now who q db\<lparr>messages := messages db @ [m],
       navigation_writes := navigation_writes db @ [?n], ingress_provenance := ingress_provenance db @ [?in],
       execution_receipts := execution_receipts db @ [?r],
       execution_authorization_provenance := execution_authorization_provenance db @ [?a],
       delegated_grants := consumed_grants now ?I ?d db\<rparr>"
  have f: "messages db' = messages db @ [m]" "navigation_writes db' = navigation_writes db @ [?n]"
    "ingress_provenance db' = ingress_provenance db @ [?in]" "execution_receipts db' = execution_receipts db @ [?r]"
    "execution_authorization_provenance db' = execution_authorization_provenance db @ [?a]"
    "delegated_grants db' = consumed_grants now ?I ?d db" "schema db' = schema (ensure_grant_schema db)"
    unfolding db' by simp_all
  have bound: "id_instance who = ?P" "ig_principal (mr_ingress q) = au_principal (mr_authority q)"
    "ig_intent_id (mr_ingress q) = ?I" "it_resource (mr_intent q) = mr_channel q"
    "it_request_hash (mr_intent q) = hash_of_message ext m"
    using b by (simp_all add: request_bound_def hash_of_message_def m created_message_def)
  have key: "receipt_key ?r = (?P, ?I)" "navigation_key ?n = (?P, ?I)" "provenance_key ?a = (?P, ?I)"
    by (simp_all add: receipt_key_def receipt_row_of_def receipt_of_def navigation_key_def created_reservation_def
        bound(1) provenance_key_def provenance_row_of_def)
  have old: "(?P, ?I) \<notin> receipt_key ` set (execution_receipts db)"
    "(?P, ?I) \<notin> provenance_key ` set (execution_authorization_provenance db)"
    "(?P, ?I) \<notin> navigation_key ` set (navigation_writes db)"
    using no wf nav bound(1) unfolding evidence_wf_def no_orphans_def
    by (auto simp: has_receipt_def receipt_key_def provenance_key_def navigation_key_def find_navigation_def find_None_iff)
  have inrow: "in_participant_id ?in = Some ?P" "in_intent_id ?in = ?I" "in_delivery_id ?in = ig_delivery_id (mr_ingress q)"
    by (simp_all add: ingress_row_of_def receipt_of_def bound(3))
  have nb: "\<not> blank ?P" "\<not> blank (mr_channel q)" using desc by (simp_all add: described_def)
  have inok: "\<not> ingress_metadata_blank (ingress_audit_of_row ?in)" by (rule described_ingress [OF desc bound(2)])
  have k: "keys_wf db" using wf by (simp add: evidence_wf_def)
  have mid: "m_id m = next_rowid (map m_id (messages db))" by (simp add: m)
  have keys: "keys_wf db'"
    using k old del next_rowid_fresh [of "map m_id (messages db)"] mid
    unfolding keys_wf_def f by (simp add: key inrow consumed_grants_ids)
  have tabs: "audit_tables db'" "table_exists db' ''execution_receipts''"
    using wf table_exists_prepared [OF f(7)] by (simp_all add: evidence_wf_def audit_tables_def)
  have ret: "grants_retained db db'" by (rule consumed_grants_retained [OF f(6)])
  have sub: "set (navigation_writes db) \<subseteq> set (navigation_writes db')" "set (messages db) \<subseteq> set (messages db')"
    "set (execution_authorization_provenance db) \<subseteq> set (execution_authorization_provenance db')"
    by (auto simp: f)
  have ing: "ingress_evidenced db' p i" if "ingress_evidenced db p i" for p i
    by (rule ingress_evidenced_append [OF that, of _ ?in]) (use inok nb in \<open>auto simp: f inrow\<close>)
  have evold: "execution_evidenced ext db' r" if "r \<in> set (execution_receipts db)" for r
    by (rule evidenced_mono [OF _ sub(1,3,2) ret ing]) (use wf that in \<open>auto simp: evidence_wf_def execution_evidenced_def\<close>)
  have pb: "\<not> blank (provider (au_principal (mr_authority q)))" "\<not> blank (subject (au_principal (mr_authority q)))"
    using desc bound(2) by (simp_all add: described_def)
  have auth: "authorization_evidenced ?r m ?a"
    unfolding authorization_evidenced_def key
    using nb pb by (simp add: provenance_row_of_def receipt_row_of_def receipt_of_def bound(4) m)
  have delg: "delegated_evidenced db' ?r ?a"
    unfolding delegated_evidenced_def
  proof (rule impI)
    assume "a_source ?a = ''delegated_grants''"
    then have src: "ad_source ?d = ''delegated_grants''" by (simp add: provenance_row_of_def)
    obtain g g' where "g \<in> set (delegated_grants db)" "ad_grant_id ?d = Some (d_id g)"
      "g' \<in> set (delegated_grants db')" "d_id g' = d_id g"
      "d_participant_id g' = ?P" "d_capability g' = it_capability (mr_intent q)"
      "d_one_shot g' \<noteq> 0 \<longrightarrow> d_consumed_at g' \<noteq> None \<and> d_consumed_intent_id g' = Some ?I"
      unfolding f(6) by (rule decision_delegated [OF gw refl al src no])
    then show "\<exists>g \<in> set (delegated_grants db'). a_grant_id ?a = Some (d_id g) \<and>
        d_participant_id g = r_participant_id ?r \<and> d_capability g = r_capability ?r \<and>
        (d_one_shot g \<noteq> 0 \<longrightarrow> d_consumed_at g \<noteq> None \<and> d_consumed_intent_id g = Some (r_intent_id ?r))"
      by (intro bexI [of _ g']) (simp_all add: provenance_row_of_def receipt_row_of_def receipt_of_def)
  qed
  have "effect_evidenced ext db' ?r m"
    unfolding effect_evidenced_def
  proof (intro conjI)
    show "\<exists>n \<in> set (navigation_writes db'). navigation_key n = receipt_key ?r \<and> n_message_id n = r_message_id ?r \<and>
        n_request_hash n = r_intent_hash ?r"
      by (rule bexI [of _ ?n]) (simp_all add: f key, simp add: created_reservation_def receipt_row_of_def receipt_of_def)
    show "\<exists>a \<in> set (execution_authorization_provenance db'). authorization_evidenced ?r m a \<and> delegated_evidenced db' ?r a"
      by (rule bexI [of _ ?a]) (use auth delg in \<open>simp_all add: f\<close>)
    show "m_instance m = r_participant_id ?r" by (simp add: receipt_row_of_def receipt_of_def m bound(1))
  qed (simp_all add: receipt_row_of_def receipt_of_def bound(5))
  moreover have "ingress_evidenced db' ?P ?I"
    unfolding ingress_evidenced_def f
    using wf no inok nb by (auto simp: inrow evidence_wf_def no_orphans_def)
  ultimately have evnew: "execution_evidenced ext db' ?r"
    unfolding execution_evidenced_def by (auto simp: f receipt_row_of_def receipt_of_def)
  have hr: "has_receipt db' ?P ?I" using key(1) by (auto simp: has_receipt_def f receipt_key_def)
  have mono: "has_receipt db p i \<Longrightarrow> has_receipt db' p i" for p i by (rule has_receipt_mono) (auto simp: f)
  have orph: "no_orphans db'"
    using wf hr mono nb(1) key inrow unfolding no_orphans_def f evidence_wf_def
    by (auto simp: provenance_key_def navigation_key_def)
  show ?thesis
    unfolding evidence_wf_def using keys tabs evold evnew orph by (simp add: f)
qed

text \<open>The board after a repeated delivery: at most one more ingress record.\<close>

lemma existing_board:
  assumes wf: "evidence_wf ext db" and ex: "execute_message_intent ext now who q db = (Inr (ExecExisting m), db')"
  obtains n xs where
    "request_bound ext who q" "ad_allowed (decision_of now q db)" "channel_active q db"
    "find_navigation db (id_instance who) (it_intent_id (mr_intent q)) = Some n"
    "m \<in> set (messages db)" "m_id m = n_message_id n" "n_request_hash n = it_request_hash (mr_intent q) \<or> same_content m q"
    "xs = [ingress_row_of now (mr_ingress q) (receipt_of q m)] \<and>
       ig_delivery_id (mr_ingress q) \<notin> in_delivery_id ` set (ingress_provenance db) \<or>
     xs = [] \<and> (\<exists>i \<in> set (ingress_provenance db). delivered (mr_ingress q) (receipt_of q m) i)"
    "db' = prepared now who q db\<lparr>ingress_provenance := ingress_provenance db @ xs\<rparr>"
proof (rule execute_cases [OF ex])
  fix n m'
  assume b: "request_bound ext who q" and al: "ad_allowed (decision_of now q db)" and ch: "channel_active q db"
    and nav: "find_navigation db (id_instance who) (it_intent_id (mr_intent q)) = Some n"
    and msg: "message_by_id db (n_message_id n) = Inr m'"
    and same: "n_request_hash n = it_request_hash (mr_intent q) \<or> same_content m' q"
    and res: "Inr (ExecExisting m) = Inr (ExecExisting m')"
    and rec: "record_execution_in_tx now (mr_ingress q) (receipt_of q m') (prepared now who q db) = (Inr (), db')"
  have m': "m' = m" using res by simp
  let ?p = "prepared now who q db"
  have P: "id_instance who = it_participant_id (mr_intent q)" using b by (simp add: request_bound_def)
  obtain r where fr: "find_receipt db (it_participant_id (mr_intent q)) (it_intent_id (mr_intent q)) = Some r"
    by (rule reserved_evidenced [OF wf nav]) (simp add: P)
  have cong: "find_receipt ?p = find_receipt db" by (rule find_receipt_cong) simp
  obtain xs rs where d: "db' = ?p\<lparr>ingress_provenance := ingress_provenance ?p @ xs, execution_receipts := execution_receipts ?p @ rs\<rparr>"
    and xs: "xs = [ingress_row_of now (mr_ingress q) (receipt_of q m)] \<and>
       ig_delivery_id (mr_ingress q) \<notin> in_delivery_id ` set (ingress_provenance ?p) \<or>
     xs = [] \<and> (\<exists>i \<in> set (ingress_provenance ?p). delivered (mr_ingress q) (receipt_of q m) i)"
    and rs: "rs = [receipt_row_of now (receipt_of q m)] \<and>
       find_receipt ?p (er_participant_id (receipt_of q m)) (er_intent_id (receipt_of q m)) = None \<or>
     rs = [] \<and> (\<exists>r. find_receipt ?p (er_participant_id (receipt_of q m)) (er_intent_id (receipt_of q m)) = Some r \<and>
       r_capability r = er_capability (receipt_of q m) \<and> r_message_id r = er_message_id (receipt_of q m) \<and>
       r_status r = er_status (receipt_of q m))"
    by (rule record_execution_done [OF rec, unfolded m'])
  have "rs = []" using rs fr by (simp add: cong receipt_of_def)
  then have eq: "db' = ?p\<lparr>ingress_provenance := ingress_provenance db @ xs\<rparr>" unfolding d by simp
  have mem: "m \<in> set (messages db)" "m_id m = n_message_id n"
    using msg m' by (auto simp: message_by_id_def dest: find_SomeD split: option.splits)
  from that [OF b al ch nav mem same [unfolded m'] _ eq] xs show thesis by simp
qed simp_all

lemma execute_keeps_evidence_existing:
  assumes wf: "evidence_wf ext db" and desc: "described q"
    and ex: "execute_message_intent ext now who q db = (Inr (ExecExisting m), db')"
  shows "evidence_wf ext db'"
proof (rule existing_board [OF wf ex])
  let ?P = "it_participant_id (mr_intent q)" and ?I = "it_intent_id (mr_intent q)"
  let ?in = "ingress_row_of now (mr_ingress q) (receipt_of q m)"
  fix n xs
  assume b: "request_bound ext who q" and nav: "find_navigation db (id_instance who) ?I = Some n"
    and xs: "xs = [?in] \<and> ig_delivery_id (mr_ingress q) \<notin> in_delivery_id ` set (ingress_provenance db) \<or>
     xs = [] \<and> (\<exists>i \<in> set (ingress_provenance db). delivered (mr_ingress q) (receipt_of q m) i)"
    and db': "db' = prepared now who q db\<lparr>ingress_provenance := ingress_provenance db @ xs\<rparr>"
  have f: "messages db' = messages db" "navigation_writes db' = navigation_writes db"
    "ingress_provenance db' = ingress_provenance db @ xs" "execution_receipts db' = execution_receipts db"
    "execution_authorization_provenance db' = execution_authorization_provenance db"
    "delegated_grants db' = delegated_grants db" "schema db' = schema (ensure_grant_schema db)"
    unfolding db' by simp_all
  have bound: "id_instance who = ?P" "ig_principal (mr_ingress q) = au_principal (mr_authority q)"
    "ig_intent_id (mr_ingress q) = ?I" using b by (simp_all add: request_bound_def)
  have inrow: "in_participant_id ?in = Some ?P" "in_intent_id ?in = ?I" "in_delivery_id ?in = ig_delivery_id (mr_ingress q)"
    by (simp_all add: ingress_row_of_def receipt_of_def bound(3))
  have nb: "\<not> blank ?P" using desc by (simp add: described_def)
  have inok: "\<not> ingress_metadata_blank (ingress_audit_of_row ?in)" by (rule described_ingress [OF desc bound(2)])
  have hr: "has_receipt db ?P ?I"
    by (rule reserved_evidenced [OF wf nav]) (auto simp: has_receipt_def bound(1))
  have k: "keys_wf db" using wf by (simp add: evidence_wf_def)
  have "distinct (map in_delivery_id (ingress_provenance db @ xs))"
    using xs k inrow(3) unfolding keys_wf_def by (elim disjE conjE) simp_all
  then have keys: "keys_wf db'" using k unfolding keys_wf_def f by blast
  have tabs: "audit_tables db'" "table_exists db' ''execution_receipts''"
    using wf table_exists_prepared [OF f(7)] by (simp_all add: evidence_wf_def audit_tables_def)
  have ing: "ingress_evidenced db' p i" if "ingress_evidenced db p i" for p i
    by (rule ingress_evidenced_append [OF that, of _ ?in]) (use inok nb xs in \<open>auto simp: f inrow\<close>)
  have evold: "execution_evidenced ext db' r" if "r \<in> set (execution_receipts db)" for r
    by (rule evidenced_mono [OF _ _ _ _ grants_retained_eq [OF f(6)] ing])
      (use wf that in \<open>auto simp: evidence_wf_def execution_evidenced_def f\<close>)
  have same: "has_receipt db' = has_receipt db" by (intro ext) (simp add: has_receipt_def f)
  have orph: "no_orphans db'"
    using wf hr nb inrow xs unfolding no_orphans_def f same evidence_wf_def by auto
  show ?thesis unfolding evidence_wf_def using keys tabs evold orph by (simp add: f)
qed

lemma execute_keeps_evidence:
  assumes "evidence_wf ext db" "grants_wf db" "described q"
  shows "evidence_wf ext (snd (execute_message_intent ext now who q db))"
proof (cases "execute_message_intent ext now who q db")
  case (Pair res db')
  show ?thesis
  proof (cases "\<exists>m. res = Inr (ExecCreated m) \<or> res = Inr (ExecExisting m)")
    case True
    then show ?thesis
      using execute_keeps_evidence_created [OF assms] execute_keeps_evidence_existing [OF assms(1,3)] Pair by auto
  next
    case False
    have "db' = db" by (rule execute_cases [OF Pair]) (use False in simp_all)
    then show ?thesis using assms(1) Pair by simp
  qed
qed

text \<open>The executor also keeps the policy invariants: no grant is created, removed or reactivated, and a
  consumption is recorded with the receipt of the consuming intent.\<close>

lemma committed_receipt_mono:
  assumes "set (execution_receipts db) \<subseteq> set (execution_receipts db')"
    and "table_exists db ''execution_receipts'' \<Longrightarrow> table_exists db' ''execution_receipts''"
  shows "committed_receipt_exists db p i \<Longrightarrow> committed_receipt_exists db' p i"
  using assms by (auto simp: committed_receipt_exists_def sql_count_pos)

lemma execute_keeps_consumption_created:
  assumes wf: "evidence_wf ext db" and gw: "grants_wf db" and cw: "consumption_wf db"
    and ex: "execute_message_intent ext now who q db = (Inr (ExecCreated m), db')"
  shows "consumption_wf db' \<and> grants_wf db'"
proof (rule created_board [OF wf ex])
  let ?d = "decision_of now q db" and ?P = "it_participant_id (mr_intent q)" and ?I = "it_intent_id (mr_intent q)"
  let ?r = "receipt_row_of now (receipt_of q m)"
  assume db': "db' = prepared now who q db\<lparr>messages := messages db @ [m],
       navigation_writes := navigation_writes db @ [created_reservation now who q m],
       ingress_provenance := ingress_provenance db @ [ingress_row_of now (mr_ingress q) (receipt_of q m)],
       execution_receipts := execution_receipts db @ [?r],
       execution_authorization_provenance := execution_authorization_provenance db @ [provenance_row_of now q ?d],
       delegated_grants := consumed_grants now ?I ?d db\<rparr>"
  have f: "execution_receipts db' = execution_receipts db @ [?r]" "principal_grants db' = principal_grants db"
    "delegated_grants db' = consumed_grants now ?I ?d db" "schema db' = schema (ensure_grant_schema db)"
    unfolding db' by simp_all
  have tab: "table_exists db' ''execution_receipts''"
    using wf table_exists_prepared [OF f(4)] by (simp add: evidence_wf_def)
  have mono: "committed_receipt_exists db p i \<Longrightarrow> committed_receipt_exists db' p i" for p i
    by (rule committed_receipt_mono) (use tab in \<open>auto simp: f\<close>)
  have new: "committed_receipt_exists db' ?P ?I"
    using tab by (auto simp: committed_receipt_exists_def sql_count_pos f receipt_row_of_def receipt_of_def)
  have old: "(d_consumed_at g = None \<longleftrightarrow> d_consumed_intent_id g = None) \<and>
     (\<forall>i. d_consumed_intent_id g = Some i \<longrightarrow> d_one_shot g = 1 \<and>
        committed_receipt_exists db' (d_participant_id g) i \<and> (d_intent_id g \<noteq> None \<longrightarrow> d_intent_id g = Some i))"
    if "g \<in> set (delegated_grants db)" for g
    using cw that mono by (auto simp: consumption_wf_def)
  show ?thesis
  proof (cases "ad_consume_grant_id ?d")
    case None
    then have "delegated_grants db' = delegated_grants db" by (simp add: f consumed_grants_def)
    then show ?thesis using old gw by (simp add: consumption_wf_def grants_wf_def f)
  next
    case (Some k)
    let ?hit = "\<lambda>g. d_id g = k \<and> d_status g = ''active'' \<and> d_one_shot g = 1 \<and> d_consumed_at g = None"
    let ?f = "\<lambda>g. g\<lparr>d_consumed_at := Some now, d_consumed_intent_id := Some ?I, d_updated_at := now\<rparr>"
    have dg: "delegated_grants db' = sql_update ?hit ?f (delegated_grants db)" by (simp add: f consumed_grants_def Some)
    have gw': "grants_wf (ensure_grant_schema db)" using gw by (simp add: grants_wf_def)
    obtain g0 where g0: "g0 \<in> set (delegated_grants db)" "d_id g0 = k" "d_participant_id g0 = ?P"
        "d_intent_id g0 \<noteq> None \<longrightarrow> d_intent_id g0 = Some ?I"
    proof (rule consume_decided [OF gw' Some [unfolded decision_of_def]])
      fix g i
      assume "Some ?I = Some i" "g \<in> set (delegated_grants (ensure_grant_schema db))" "d_id g = k"
        "delegated_in_scope (au_principal (mr_authority q)) ?P (it_capability (mr_intent q)) g"
        "delegated_denial now (Some (it_resource (mr_intent q))) i g = None"
      then show thesis
        by (intro that [of g]) (auto simp: delegated_in_scope_def delegated_denial_def Let_def split: if_splits option.splits)
    qed
    have dist: "distinct (map d_id (delegated_grants db))" using gw by (simp add: grants_wf_def)
    have "consumption_wf db'"
      unfolding consumption_wf_def dg
    proof (rule ballI)
      fix x assume "x \<in> set (sql_update ?hit ?f (delegated_grants db))"
      then obtain g where g: "g \<in> set (delegated_grants db)" "x = (if ?hit g then ?f g else g)"
        by (auto simp: set_sql_update)
      show "(d_consumed_at x = None \<longleftrightarrow> d_consumed_intent_id x = None) \<and>
         (\<forall>i. d_consumed_intent_id x = Some i \<longrightarrow> d_one_shot x = 1 \<and>
            committed_receipt_exists db' (d_participant_id x) i \<and> (d_intent_id x \<noteq> None \<longrightarrow> d_intent_id x = Some i))"
      proof (cases "?hit g")
        case True
        then have "g = g0" using distinct_key_eq [OF dist g(1) g0(1)] g0(2) by simp
        have x: "x = ?f g" by (rule trans [OF g(2) if_P [OF True]])
        show ?thesis unfolding x using True \<open>g = g0\<close> g0(3,4) new by simp
      next
        case False
        have x: "x = g" by (rule trans [OF g(2) if_not_P [OF False]])
        show ?thesis unfolding x by (rule old [OF g(1)])
      qed
    qed
    moreover have "grants_wf (db\<lparr>delegated_grants := sql_update ?hit ?f (delegated_grants db)\<rparr>)"
      by (rule grants_wf_update_delegated [OF gw]) simp_all
    then have "grants_wf db'" by (simp add: grants_wf_def f(2) dg)
    ultimately show ?thesis by blast
  qed
qed

lemma execute_keeps_policy:
  assumes "evidence_wf ext db" "grants_wf db" "consumption_wf db"
  shows "consumption_wf (snd (execute_message_intent ext now who q db)) \<and>
    grants_wf (snd (execute_message_intent ext now who q db))"
proof (cases "execute_message_intent ext now who q db")
  case (Pair res db')
  consider (C) m where "res = Inr (ExecCreated m)" | (E) m where "res = Inr (ExecExisting m)"
    | (R) "\<forall>m. res \<noteq> Inr (ExecCreated m) \<and> res \<noteq> Inr (ExecExisting m)" by blast
  then show ?thesis
  proof cases
    case C
    then show ?thesis using execute_keeps_consumption_created [OF assms] Pair by simp
  next
    case E
    show ?thesis
    proof (rule existing_board [OF assms(1) Pair [unfolded E]])
      fix xs
      assume d: "db' = prepared now who q db\<lparr>ingress_provenance := ingress_provenance db @ xs\<rparr>"
      have f: "principal_grants db' = principal_grants db" "delegated_grants db' = delegated_grants db"
        "execution_receipts db' = execution_receipts db" "schema db' = schema (ensure_grant_schema db)"
        unfolding d by simp_all
      have "committed_receipt_exists db p i \<Longrightarrow> committed_receipt_exists db' p i" for p i
        by (rule committed_receipt_mono) (use table_exists_prepared [OF f(4)] in \<open>auto simp: f\<close>)
      then show ?thesis using assms(2,3) Pair by (simp add: consumption_wf_def grants_wf_def f)
    qed
  next
    case R
    have "db' = db" by (rule execute_cases [OF Pair]) (use R in simp_all)
    then show ?thesis using assms Pair by simp
  qed
qed

section \<open>The contract of the other writers\<close>

definition quiet :: "board \<Rightarrow> board \<Rightarrow> bool" where
  "quiet db db' \<longleftrightarrow>
     execution_receipts db' = execution_receipts db \<and>
     execution_authorization_provenance db' = execution_authorization_provenance db \<and>
     navigation_writes db' = navigation_writes db \<and> ingress_provenance db' = ingress_provenance db \<and>
     schema db' = schema db \<and> set (messages db) \<subseteq> set (messages db') \<and>
     (distinct (map m_id (messages db)) \<longrightarrow> distinct (map m_id (messages db'))) \<and>
     grants_retained db db' \<and>
     (distinct (map d_id (delegated_grants db)) \<longrightarrow> distinct (map d_id (delegated_grants db')))"

lemma quiet_refl: "quiet db db"
  by (simp add: quiet_def grants_retained_eq)

locale quiet_operation =
  fixes wf :: "board \<Rightarrow> bool" and op :: "'q \<Rightarrow> board \<Rightarrow> board"
  assumes is_quiet: "wf db \<Longrightarrow> quiet db (op q db)"
begin

lemma keeps_evidence:
  assumes "wf db" and "evidence_wf ext db"
  shows "evidence_wf ext (op q db)"
proof -
  let ?db = "op q db"
  have q: "execution_receipts ?db = execution_receipts db"
    "execution_authorization_provenance ?db = execution_authorization_provenance db"
    "navigation_writes ?db = navigation_writes db" "ingress_provenance ?db = ingress_provenance db"
    "schema ?db = schema db" "set (messages db) \<subseteq> set (messages ?db)" "grants_retained db ?db"
    "distinct (map m_id (messages db)) \<longrightarrow> distinct (map m_id (messages ?db))"
    "distinct (map d_id (delegated_grants db)) \<longrightarrow> distinct (map d_id (delegated_grants ?db))"
    using is_quiet [OF assms(1), of q] by (simp_all add: quiet_def)
  have tabs: "audit_tables ?db" "table_exists ?db ''execution_receipts''"
    using assms(2) table_exists_schema [OF q(5)] by (simp_all add: evidence_wf_def audit_tables_def)
  have keys: "keys_wf ?db" using assms(2) q(8,9) by (simp add: evidence_wf_def keys_wf_def q(1-4))
  have ev: "execution_evidenced ext ?db r" if "r \<in> set (execution_receipts ?db)" for r
  proof (rule evidenced_mono [OF _ _ _ q(6,7)])
    show old: "execution_evidenced ext db r" using assms(2) that by (simp add: evidence_wf_def q(1))
    show "ingress_evidenced ?db (r_participant_id r) (r_intent_id r)"
      using old ingress_evidenced_cong [OF q(4)] by (simp add: execution_evidenced_def)
  qed (simp_all add: q(2,3))
  have "has_receipt ?db = has_receipt db" by (intro ext) (simp add: has_receipt_def q(1))
  then have "no_orphans ?db" using assms(2) by (simp add: evidence_wf_def no_orphans_def q(2-4))
  with tabs keys ev show ?thesis by (simp add: evidence_wf_def)
qed

end

text \<open>A quiet operation that keeps its own invariant can be repeated.\<close>

locale quiet_writer = quiet_operation wf op for wf :: "board \<Rightarrow> bool" and op :: "'q \<Rightarrow> board \<Rightarrow> board" +
  assumes keeps_wf: "wf db \<Longrightarrow> wf (op q db)"
begin

lemma run_keeps_evidence: "wf db \<Longrightarrow> evidence_wf ext db \<Longrightarrow> evidence_wf ext (fold op qs db) \<and> wf (fold op qs db)"
  by (induction qs arbitrary: db) (simp_all add: keeps_evidence keeps_wf)

end

section \<open>The writers of the log, the participants and the policy\<close>

datatype log_call =
    AppendMessage int identity string string string "int option"
  | CreateChannel int string string "string option"
  | UpdateChannel int string "string option" "string option"
  | EnsureChannel int string "string option"

fun log_effect :: "log_call \<Rightarrow> board \<Rightarrow> board" where
  "log_effect (AppendMessage now who ch k b r) db = snd (append_message now who ch k b r db)"
| "log_effect (CreateChannel now c v by) db = snd (create_channel now c v by db)"
| "log_effect (UpdateChannel now c v s) db = snd (update_channel now c v s db)"
| "log_effect (EnsureChannel now c by) db = snd (ensure_channel_for_write now c by db)"

datatype participant_call =
    Provision int string string "string option"
  | SetRole int string string
  | SetStatus int string string
  | SetTotp int string string
  | RevokeTotp int string
  | AuthenticateTotp int string string nat
  | SetAuthSecret int string string
  | RevokeAuth int string
  | SetOwner int string string string "string option"
  | ClearOwner int string

fun participant_effect :: "externals \<Rightarrow> participant_call \<Rightarrow> board \<Rightarrow> board" where
  "participant_effect ext (Provision now p s l) db = snd (provision_web_participant_identity now p s l db)"
| "participant_effect ext (SetRole now p r) db = snd (set_web_participant_role now p r db)"
| "participant_effect ext (SetStatus now p s) db = snd (set_web_participant_status now p s db)"
| "participant_effect ext (SetTotp now p s) db = snd (set_web_participant_totp now p s db)"
| "participant_effect ext (RevokeTotp now p) db = snd (revoke_web_participant_totp now p db)"
| "participant_effect ext (AuthenticateTotp clock p c now) db = snd (authenticate_web_totp ext clock p c now db)"
| "participant_effect ext (SetAuthSecret now p s) db = snd (set_web_participant_auth_secret ext now p s db)"
| "participant_effect ext (RevokeAuth now p) db = snd (revoke_web_participant_auth now p db)"
| "participant_effect ext (SetOwner now p o_provider o_subject l) db =
     snd (set_participant_owner now p o_provider o_subject l db)"
| "participant_effect ext (ClearOwner now p) db = snd (clear_participant_owner now p db)"

definition participants_only :: "board \<Rightarrow> board \<Rightarrow> bool" where
  "participants_only db db' \<longleftrightarrow> db' = db\<lparr>web_participants := web_participants db'\<rparr>"

lemma participants_only_simps [simp]:
  "participants_only db db" "participants_only db (db\<lparr>web_participants := ps\<rparr>)"
  "participants_only db (snd (update_participant p c f db))"
  by (simp_all add: participants_only_def update_participant_def Let_def)

lemma participant_effect_only: "participants_only db (participant_effect ext call db)"
proof (cases call)
  case (Provision now p s l)
  then show ?thesis
    by (simp add: provision_web_participant_identity_def split: option.split sum.split)
next
  case (AuthenticateTotp clock p c now)
  then show ?thesis unfolding AuthenticateTotp participant_effect.simps authenticate_cases
    by (simp split: option.split)
qed (simp_all add: set_web_participant_role_def set_web_participant_status_def set_web_participant_totp_def
    revoke_web_participant_totp_def set_web_participant_auth_secret_def revoke_web_participant_auth_def set_participant_owner_def
    clear_participant_owner_def case_prod_beta)

lemma participants_only_quiet:
  assumes "participants_only db db'"
  shows "quiet db db'"
proof -
  have eq: "db' = db\<lparr>web_participants := web_participants db'\<rparr>" using assms by (simp add: participants_only_def)
  have f: "execution_receipts db' = execution_receipts db"
    "execution_authorization_provenance db' = execution_authorization_provenance db"
    "navigation_writes db' = navigation_writes db" "ingress_provenance db' = ingress_provenance db"
    "schema db' = schema db" "messages db' = messages db" "delegated_grants db' = delegated_grants db"
    by (subst eq, simp)+
  then show ?thesis by (simp add: quiet_def grants_retained_eq)
qed

text \<open>The three writers.\<close>

lemma ensure_channel_write_frame [simp]:
  "messages (snd (ensure_channel_for_write now c by db)) = messages db"
  "delegated_grants (snd (ensure_channel_for_write now c by db)) = delegated_grants db"
  "execution_receipts (snd (ensure_channel_for_write now c by db)) = execution_receipts db"
  "execution_authorization_provenance (snd (ensure_channel_for_write now c by db)) = execution_authorization_provenance db"
  "navigation_writes (snd (ensure_channel_for_write now c by db)) = navigation_writes db"
  "ingress_provenance (snd (ensure_channel_for_write now c by db)) = ingress_provenance db"
  "schema (snd (ensure_channel_for_write now c by db)) = schema db"
  "web_participants (snd (ensure_channel_for_write now c by db)) = web_participants db"
  by (simp_all add: ensure_channel_for_write_def ensure_channel_def Let_def)

lemma log_effect_quiet: "quiet db (log_effect call db)"
proof (cases call)
  case (AppendMessage now who ch k b r)
  obtain res db' where a: "append_message now who ch k b r db = (res, db')" by fastforce
  note d = append_message_result [OF a]
  have f: "messages db' = messages db @ [projr res]" "execution_receipts db' = execution_receipts db"
    "execution_authorization_provenance db' = execution_authorization_provenance db"
    "navigation_writes db' = navigation_writes db" "ingress_provenance db' = ingress_provenance db"
    "schema db' = schema db" "delegated_grants db' = delegated_grants db"
    unfolding d(2) ensure_channel_def by simp_all
  have "m_id (projr res) = next_rowid (map m_id (messages db))" by (simp add: d(1))
  then show ?thesis
    using next_rowid_fresh [of "map m_id (messages db)"]
    by (simp add: AppendMessage a quiet_def f grants_retained_eq) blast
next
  case (UpdateChannel now c v s)
  then show ?thesis by (simp add: quiet_def grants_retained_eq update_channel_def Let_def)
qed (simp_all add: quiet_def grants_retained_eq create_channel_def case_prod_beta)

interpretation log_writer: quiet_writer "\<lambda>_. True" log_effect
  by unfold_locales (simp_all add: log_effect_quiet)

interpretation participant_writer: quiet_writer participants_wf "participant_effect ext" for ext
proof
  show "participants_wf db \<Longrightarrow> quiet db (participant_effect ext q db)" for db q
    by (rule participants_only_quiet [OF participant_effect_only])
  show "participants_wf db \<Longrightarrow> participants_wf (participant_effect ext q db)" for db q
    by (cases q) (simp_all add: provision_wf set_role_wf set_status_wf participants_wf_authenticate credentials_wf owner_wf)
qed

lemma administer_board:
  "snd (administer norm op authority now actor q db) = db \<or>
   (\<exists>a r. snd (administer norm op authority now actor q db) = snd (op now a r db))"
  by (auto simp: administer_def commit_def split: sum.splits)

lemma durable_keeps_delegated:
  assumes "policy_wf db"
  shows "delegated_grants (snd (create_durable_grant_in_tx now a r db)) = delegated_grants db"
    "delegated_grants (snd (deactivate_durable_grant_in_tx now a i db)) = delegated_grants db"
  by (rule create_durable_cases [of now a r db, OF refl], simp_all add: record_event_grants)
    (rule deactivate_durable_cases [OF assms, of now a i, OF refl], simp_all add: record_event_grants)

lemma delegated_retained:
  assumes "policy_wf db"
  shows "grants_retained db (snd (create_delegated_grant_in_tx now a q db))"
    "grants_retained db (snd (deactivate_delegated_grant_in_tx now a i db))"
proof -
  show "grants_retained db (snd (create_delegated_grant_in_tx now a q db))"
    by (rule create_delegated_cases [of now a q db, OF refl])
      (auto simp: grants_retained_eq grants_retained_def record_event_grants intro: retained_refl)
  show "grants_retained db (snd (deactivate_delegated_grant_in_tx now a i db))"
    by (rule deactivate_delegated_cases [OF assms, of now a i, OF refl])
      (auto simp: grants_retained_eq record_event_grants deactivated_delegated_def retained_def
        intro!: grants_retained_update)
qed

lemma admin_effect_retained:
  assumes "policy_wf db"
  shows "grants_retained db (admin_effect now call db)"
proof -
  have refl: "grants_retained db db" by (simp add: grants_retained_eq)
  have step: "grants_retained db (snd (administer norm op authority now actor q db))"
    if "\<And>a r. grants_retained db (snd (op now a r db))" for norm op authority actor q
    using administer_board [of norm op authority now actor q db] that refl by metis
  show ?thesis
    by (cases call) (simp_all add: admin_call_defs step delegated_retained [OF assms]
        grants_retained_eq durable_keeps_delegated [OF assms])
qed

lemma policy_only_quiet:
  assumes "policy_only db db'" and "grants_retained db db'" and "distinct (map d_id (delegated_grants db'))"
  shows "quiet db db'"
proof -
  have eq: "db' = db\<lparr>principal_grants := principal_grants db', delegated_grants := delegated_grants db',
      authorization_admin_events := authorization_admin_events db'\<rparr>" using assms(1) by (simp only: policy_only_def)
  have "execution_receipts db' = execution_receipts db"
    "execution_authorization_provenance db' = execution_authorization_provenance db"
    "navigation_writes db' = navigation_writes db" "ingress_provenance db' = ingress_provenance db"
    "schema db' = schema db" "messages db' = messages db"
    by (subst eq, simp)+
  then show ?thesis using assms(2,3) by (simp add: quiet_def)
qed

interpretation admin_writer: quiet_writer "\<lambda>db. policy_wf db \<and> consumption_wf db" "\<lambda>(now, call). admin_effect now call"
proof
  fix db and q :: "int \<times> admin_call" assume w: "policy_wf db \<and> consumption_wf db"
  obtain now call where q: "q = (now, call)" by fastforce
  have k: "policy_wf (admin_effect now call db) \<and> consumption_wf (admin_effect now call db)"
    using w by (simp add: admin_effect_keeps)
  then have d: "distinct (map d_id (delegated_grants (admin_effect now call db)))" by (simp add: policy_wf_def grants_wf_def)
  show "quiet db ((\<lambda>(now, call). admin_effect now call) q db)"
    unfolding q prod.case using w admin_effect_recorded admin_effect_retained d by (intro policy_only_quiet) simp_all
  show "policy_wf ((\<lambda>(now, call). admin_effect now call) q db) \<and> consumption_wf ((\<lambda>(now, call). admin_effect now call) q db)"
    using k by (simp add: q)
qed

section \<open>Progress of the executor\<close>

lemma record_ingress_ok:
  "ig_delivery_id ig \<notin> in_delivery_id ` set (ingress_provenance db) \<Longrightarrow>
   record_ingress_in_tx now ig rc db = (Inr (), db\<lparr>ingress_provenance := ingress_provenance db @ [ingress_row_of now ig rc]\<rparr>)"
proof -
  assume "ig_delivery_id ig \<notin> in_delivery_id ` set (ingress_provenance db)"
  then have "find (\<lambda>i. in_delivery_id i = ig_delivery_id ig) (ingress_provenance db) = None"
    unfolding find_None_iff by (metis imageI)
  then show ?thesis by (simp add: record_ingress_in_tx_def ingress_row_of_def)
qed

lemma record_ingress_again:
  assumes "distinct (map in_delivery_id (ingress_provenance db))" and "i \<in> set (ingress_provenance db)" "delivered ig rc i"
  shows "record_ingress_in_tx now ig rc db = (Inr (), db)"
proof -
  have i: "i = ingress_row_of (in_created_at i) ig rc" using assms(3) by (simp add: delivered_def)
  have "find (\<lambda>x. in_delivery_id x = in_delivery_id i) (ingress_provenance db) = Some i"
    using find_key [OF assms(1,2)] .
  moreover have "in_delivery_id i = ig_delivery_id ig" by (subst i) (simp add: ingress_row_of_def)
  ultimately have f: "find (\<lambda>x. in_delivery_id x = ig_delivery_id ig) (ingress_provenance db) = Some i" by simp
  have "(in_participant_id i, in_intent_id i, in_transport i, in_external_ref i, in_principal_provider i,
      in_principal_subject i) = (Some (er_participant_id rc), ig_intent_id ig, ig_transport ig, ig_external_ref ig,
      provider (ig_principal ig), subject (ig_principal ig))"
    by (subst i, subst i, subst i, subst i, subst i, subst i) (simp add: ingress_row_of_def)
  then show ?thesis unfolding record_ingress_in_tx_def f by simp
qed

lemma consume_ok:
  assumes "grants_wf db" and "ad_consume_grant_id (decision_of now q db) = Some k"
    and "delegated_grants db2 = delegated_grants db"
  shows "\<exists>db3. consume_delegated_grant_in_tx now k i db2 = (Inr (), db3)"
proof -
  have gw: "grants_wf (ensure_grant_schema db)" using assms(1) by (simp add: grants_wf_def)
  have "sql_count (\<lambda>g. d_id g = k \<and> d_status g = ''active'' \<and> d_one_shot g = 1 \<and> d_consumed_at g = None)
      (delegated_grants db2) = 1"
    by (rule consume_decided [OF gw assms(2) [unfolded decision_of_def]]) (simp add: assms(3))
  then show ?thesis by (simp add: consume_delegated_grant_in_tx_def Let_def)
qed

lemma execute_creates:
  assumes wf: "evidence_wf ext db" and gw: "grants_wf db" and b: "request_bound ext who q"
    and al: "ad_allowed (decision_of now q db)" and ch: "channel_active q db"
    and nav: "find_navigation db (id_instance who) (it_intent_id (mr_intent q)) = None" and rt: "reply_target_ok q db"
    and del: "ig_delivery_id (mr_ingress q) \<notin> in_delivery_id ` set (ingress_provenance db)"
  shows "\<exists>db'. execute_message_intent ext now who q db = (Inr (ExecCreated (created_message now who q db)), db')"
proof -
  let ?P = "it_participant_id (mr_intent q)" and ?I = "it_intent_id (mr_intent q)" and ?d = "decision_of now q db"
  let ?p = "prepared now who q db" and ?m = "created_message now who q db"
  let ?b = "with_created now who q ?p"
  let ?b1 = "?b\<lparr>ingress_provenance := ingress_provenance ?b @ [ingress_row_of now (mr_ingress q) (receipt_of q ?m)]\<rparr>"
  have cong: "find_navigation ?p = find_navigation db" "reply_target_ok q ?p = reply_target_ok q db"
    "created_message now who q ?p = ?m"
    by (rule find_navigation_cong, simp, simp add: reply_target_ok_def message_exists_cong [of ?p db],
        simp add: created_message_def)
  have P: "id_instance who = ?P" using b by (simp add: request_bound_def)
  have no: "\<not> has_receipt db ?P ?I" using evidenced_reserved [OF wf, of ?P ?I] nav P by auto
  have res: "resolve_effect now who q ?p = Inr (?m, True, ?b)"
    using resolve_fresh [of ?p who q now] nav rt by (simp add: cong)
  have "find_receipt ?b1 ?P ?I = None"
    using no by (auto simp: find_receipt_def has_receipt_def find_None_iff)
  then obtain db1 where r1: "record_execution_in_tx now (mr_ingress q) (receipt_of q ?m) ?b = (Inr (), db1)"
    and d1: "delegated_grants db1 = delegated_grants db"
      "execution_authorization_provenance db1 = execution_authorization_provenance db"
    using record_ingress_ok [of "mr_ingress q" ?b now "receipt_of q ?m"] del
    by (simp add: record_execution_in_tx_def record_receipt_in_tx_def receipt_of_def)
  have fresh: "\<not> (\<exists>a \<in> set (execution_authorization_provenance db1). a_participant_id a = ?P \<and> a_intent_id a = ?I)"
    using wf no by (auto simp: d1 evidence_wf_def no_orphans_def)
  obtain db2 where r2: "record_authorization_provenance_in_tx now (receipt_of q ?m) (au_principal (mr_authority q))
      (it_resource (mr_intent q)) ?d db1 = (Inr (), db2)" and d2: "delegated_grants db2 = delegated_grants db"
    using al fresh d1 by (simp add: record_authorization_provenance_in_tx_def receipt_of_def)
  obtain db3 where r3: "(case ad_consume_grant_id ?d of None \<Rightarrow> (Inr (), db2)
      | Some k \<Rightarrow> consume_delegated_grant_in_tx now k ?I db2) = (Inr (), db3)"
    using consume_ok [OF gw _ d2] by (cases "ad_consume_grant_id ?d") fastforce+
  have "record_evidence_in_tx now q ?d ?m True ?b = (Inr (), db3)"
    unfolding record_evidence_in_tx_def Let_def r1 prod.case sum.case r2 r3 by simp
  then show ?thesis unfolding execute_unfold res using b al ch by simp
qed

section \<open>A sample execution\<close>

lemma evidence_wf_fresh:
  assumes "execution_receipts db = []" "execution_authorization_provenance db = []" "navigation_writes db = []"
    "ingress_provenance db = []" "distinct (map m_id (messages db))" "distinct (map d_id (delegated_grants db))"
    "audit_tables db" "table_exists db ''execution_receipts''"
  shows "evidence_wf ext db"
  using assms by (simp add: evidence_wf_def keys_wf_def no_orphans_def)

definition sample_caller :: principal where
  "sample_caller = \<lparr>provider = ''participant-hmac'', subject = ''ada''\<rparr>"

definition sample_who :: identity where
  "sample_who = \<lparr>id_source = ''human'', id_instance = ''ada'', id_label = None\<rparr>"

definition sample_ingress :: "string \<Rightarrow> ingress" where
  "sample_ingress delivery = \<lparr>ig_delivery_id = delivery, ig_intent_id = ''i1'', ig_transport = ''http'',
     ig_external_ref = ''nonce'', ig_principal = sample_caller\<rparr>"

definition sample_request :: message_execution_request where
  "sample_request = \<lparr>mr_authority = \<lparr>au_principal = sample_caller, au_mechanism = ''hmac''\<rparr>,
     mr_ingress = sample_ingress ''d1'',
     mr_intent = \<lparr>it_intent_id = ''i1'', it_participant_id = ''ada'', it_conversation_ref = None,
       it_capability = POST_MESSAGE_CAPABILITY, it_resource = ''lab'',
       it_request_hash = message_request_hash sample_externals ''lab'' ''message'' ''hi'' None None\<rparr>,
     mr_channel = ''lab'', mr_kind = ''message'', mr_body = ''hi'', mr_reply_to = None\<rparr>"

lemma sample_evidence: "evidence_wf ext sample_admin_board" "grants_wf sample_admin_board"
proof -
  show "evidence_wf ext sample_admin_board"
    by (rule evidence_wf_fresh) (simp_all add: sample_admin_board_def empty_board_def audit_tables_def
        table_exists_def current_schema_def)
  show "grants_wf sample_admin_board" using sample_admin_wf(1) by (simp add: policy_wf_def)
qed

lemma sample_described: "described sample_request"
proof -
  have "trim s = s" if "s \<in> {''d1'', ''http'', ''nonce'', ''participant-hmac'', ''ada'', ''lab''}" for s
    using that by (elim insertE emptyE) (simp_all add: trim_graphic graphic_def ascii_simps)
  then have "\<not> blank ''d1'' \<and> \<not> blank ''http'' \<and> \<not> blank ''nonce'' \<and> \<not> blank ''participant-hmac'' \<and>
      \<not> blank ''ada'' \<and> \<not> blank ''lab''" by simp
  then show ?thesis by (simp add: described_def sample_request_def sample_ingress_def sample_caller_def)
qed

lemma sample_allowed: "ad_allowed (decision_of now sample_request sample_admin_board)"
  by (simp add: decision_of_def evaluate_cases participant_policy_row_def sample_admin_board_def empty_board_def
      ensure_grant_schema_def create_table_if_not_exists_def new_participant_def sample_request_def sample_caller_def
      implicit_authority_reason_def POST_MESSAGE_CAPABILITY_def capability_names)

lemma sample_executed:
  "\<exists>db'. execute_message_intent sample_externals 9 sample_who sample_request sample_admin_board =
     (Inr (ExecCreated (created_message 9 sample_who sample_request sample_admin_board)), db')"
  by (rule execute_creates [OF sample_evidence _ sample_allowed])
    (simp_all add: request_bound_def sample_request_def sample_ingress_def sample_who_def channel_active_def
      channel_metadata_def find_navigation_def reply_target_ok_def sample_admin_board_def empty_board_def)

end
