(* ===== verification/Exactly_Once.thy ===== *)
theory Exactly_Once
  imports Evidence
begin

text \<open>
  The contract of the executor under the evidence invariant: the outcome of every request as a
  specification (\<open>execution_outcome\<close>), the exactly-once effect of an intent, the answer to a retry, the single
  use of one-shot grants, and what a navigation write does to the invariant.
\<close>

section \<open>Recording a delivery\<close>

text \<open>A delivery id that was recorded for another execution or with other metadata.\<close>

definition delivery_conflict :: "message_execution_request \<Rightarrow> message \<Rightarrow> board \<Rightarrow> bool" where
  "delivery_conflict q m db \<longleftrightarrow>
     (\<exists>i \<in> set (ingress_provenance db). in_delivery_id i = ig_delivery_id (mr_ingress q) \<and>
        \<not> delivered (mr_ingress q) (receipt_of q m) i)"

lemma delivered_fields:
  assumes "delivered ig rc i"
  shows "in_delivery_id i = ig_delivery_id ig" "in_participant_id i = Some (er_participant_id rc)"
    "in_intent_id i = ig_intent_id ig"
  using assms unfolding delivered_def by (metis ingress_row.select_convs ingress_row_of_def)+

lemma delivery_conflict_fresh:
  assumes "evidence_wf ext db" and "request_bound ext who q"
    and "\<not> has_receipt db (it_participant_id (mr_intent q)) (it_intent_id (mr_intent q))"
  shows "delivery_conflict q m db \<longleftrightarrow> ig_delivery_id (mr_ingress q) \<in> in_delivery_id ` set (ingress_provenance db)"
proof -
  have "\<not> delivered (mr_ingress q) (receipt_of q m) i" if "i \<in> set (ingress_provenance db)" for i
  proof
    assume "delivered (mr_ingress q) (receipt_of q m) i"
    note f = delivered_fields [OF this]
    have "in_participant_id i = Some (it_participant_id (mr_intent q))" "in_intent_id i = it_intent_id (mr_intent q)"
      using f assms(2) by (simp_all add: receipt_of_def request_bound_def)
    then show False using assms(1,3) that by (auto simp: evidence_wf_def no_orphans_def)
  qed
  then show ?thesis unfolding delivery_conflict_def by (auto intro: rev_image_eqI)
qed

lemma record_ingress_conflict:
  assumes "distinct (map in_delivery_id (ingress_provenance db))"
    and "i \<in> set (ingress_provenance db)" "in_delivery_id i = ig_delivery_id ig" "\<not> delivered ig rc i"
  shows "record_ingress_in_tx now ig rc db = (Inl InvalidQuery, db)"
proof -
  have f: "find (\<lambda>x. in_delivery_id x = ig_delivery_id ig) (ingress_provenance db) = Some i"
    using find_key [OF assms(1,2)] assms(3) by simp
  have "(in_participant_id i, in_intent_id i, in_transport i, in_external_ref i, in_principal_provider i,
      in_principal_subject i) \<noteq> (Some (er_participant_id rc), ig_intent_id ig, ig_transport ig, ig_external_ref ig,
      provider (ig_principal ig), subject (ig_principal ig))"
    using assms(3,4) by (auto simp: delivered_def ingress_row_of_def)
  then show ?thesis unfolding record_ingress_in_tx_def f by simp
qed

section \<open>The tables after a creation\<close>

lemma created_fields:
  assumes "evidence_wf ext db" and "execute_message_intent ext now who q db = (Inr (ExecCreated m), db')"
  shows "messages db' = messages db @ [m]"
    and "navigation_writes db' = navigation_writes db @ [created_reservation now who q m]"
    and "ingress_provenance db' = ingress_provenance db @ [ingress_row_of now (mr_ingress q) (receipt_of q m)]"
    and "execution_receipts db' = execution_receipts db @ [receipt_row_of now (receipt_of q m)]"
    and "execution_authorization_provenance db' =
      execution_authorization_provenance db @ [provenance_row_of now q (decision_of now q db)]"
    and "delegated_grants db' = consumed_grants now (it_intent_id (mr_intent q)) (decision_of now q db) db"
    and "principal_grants db' = principal_grants db" and "web_participants db' = web_participants db"
    and "channels db' = channels (prepared now who q db)"
    and "authorization_admin_events db' = authorization_admin_events db" and "identities db' = identities db"
    and "schema db' = schema (ensure_grant_schema db)"
    and "m = created_message now who q db" and "request_bound ext who q" and "ad_allowed (decision_of now q db)"
    and "channel_active q db"
    and "\<not> has_receipt db (it_participant_id (mr_intent q)) (it_intent_id (mr_intent q))"
    and "ig_delivery_id (mr_ingress q) \<notin> in_delivery_id ` set (ingress_provenance db)"
    and "reply_target_ok q db"
    and "find_navigation db (id_instance who) (it_intent_id (mr_intent q)) = None"
  by (rule created_board [OF assms], simp)+

section \<open>The outcome of a request\<close>

text \<open>What the executor promises, stated on the board the request meets.\<close>

definition execution_outcome ::
    "externals \<Rightarrow> int \<Rightarrow> identity \<Rightarrow> message_execution_request \<Rightarrow> board
     \<Rightarrow> message_execution_result sql_result" where
  "execution_outcome ext now who q db =
     (if \<not> request_bound ext who q then Inl InvalidQuery
      else if \<not> ad_allowed (decision_of now q db) then Inr AuthorizationDenied
      else if \<not> channel_active q db then Inr ChannelArchived
      else case find_navigation db (it_participant_id (mr_intent q)) (it_intent_id (mr_intent q)) of
        Some n \<Rightarrow>
          (if n_request_hash n \<noteq> it_request_hash (mr_intent q) then Inr IntentConflict
           else case find (\<lambda>m. m_id m = n_message_id n) (messages db) of
             None \<Rightarrow> Inl QueryReturnedNoRows
           | Some m \<Rightarrow> if delivery_conflict q m db then Inl InvalidQuery else Inr (ExecExisting m))
      | None \<Rightarrow>
          (if \<not> reply_target_ok q db then Inr ReplyTargetNotFound
           else if delivery_conflict q (created_message now who q db) db then Inl InvalidQuery
           else Inr (ExecCreated (created_message now who q db))))"

text \<open>Receipts are written for posted messages only.\<close>

definition posts_only :: "board \<Rightarrow> bool" where
  "posts_only db \<longleftrightarrow> (\<forall>r \<in> set (execution_receipts db). r_capability r = POST_MESSAGE_CAPABILITY)"

lemma same_content_hash:
  "request_bound ext who q \<Longrightarrow> same_content m q \<Longrightarrow> hash_of_message ext m = it_request_hash (mr_intent q)"
  by (simp add: request_bound_def same_content_def hash_of_message_def)

lemma record_execution_existing:
  assumes k: "keys_wf db" and fr: "find_receipt db (er_participant_id (receipt_of q m)) (er_intent_id (receipt_of q m)) = Some r"
    and r: "r_capability r = it_capability (mr_intent q)" "r_message_id r = m_id m" "r_status r = ''committed''"
  shows "fst (record_execution_in_tx now (mr_ingress q) (receipt_of q m) db) =
    (if delivery_conflict q m db then Inl InvalidQuery else Inr ())"
proof -
  let ?rc = "receipt_of q m" and ?ig = "mr_ingress q"
  have dist: "distinct (map in_delivery_id (ingress_provenance db))" using k by (simp add: keys_wf_def)
  have rcp: "fst (record_receipt_in_tx now ?rc db') = Inr ()"
    if "execution_receipts db' = execution_receipts db" for db'
    using fr find_receipt_cong [OF that] r by (simp add: record_receipt_in_tx_def receipt_of_def)
  show ?thesis
  proof (cases "delivery_conflict q m db")
    case True
    then obtain i where "i \<in> set (ingress_provenance db)" "in_delivery_id i = ig_delivery_id ?ig" "\<not> delivered ?ig ?rc i"
      by (auto simp: delivery_conflict_def)
    then have "record_ingress_in_tx now ?ig ?rc db = (Inl InvalidQuery, db)" by (rule record_ingress_conflict [OF dist])
    then show ?thesis using True by (simp add: record_execution_in_tx_def)
  next
    case False
    obtain db' where "record_ingress_in_tx now ?ig ?rc db = (Inr (), db')" "execution_receipts db' = execution_receipts db"
    proof (cases "ig_delivery_id ?ig \<in> in_delivery_id ` set (ingress_provenance db)")
      case True
      then obtain i where i: "i \<in> set (ingress_provenance db)" "in_delivery_id i = ig_delivery_id ?ig" by auto
      then have "delivered ?ig ?rc i" using False by (auto simp: delivery_conflict_def)
      from record_ingress_again [OF dist i(1) this] show thesis by (rule that) simp
    next
      case False
      from record_ingress_ok [OF this] show thesis by (rule that) simp
    qed
    then show ?thesis using False rcp [of db'] by (simp add: record_execution_in_tx_def)
  qed
qed

lemma resolve_no_target:
  assumes "find_navigation db (id_instance who) (it_intent_id (mr_intent q)) = None" "\<not> reply_target_ok q db"
  shows "resolve_effect now who q db = Inl (Inr ReplyTargetNotFound)"
  by (rule resolve_cases [of now who q db, OF refl]) (simp_all add: assms)

lemma outcome_stored:
  assumes wf: "evidence_wf ext db" and po: "posts_only db" and b: "request_bound ext who q"
    and al: "ad_allowed (decision_of now q db)" and ch: "channel_active q db"
    and nav: "find_navigation db (it_participant_id (mr_intent q)) (it_intent_id (mr_intent q)) = Some n"
  shows "fst (execute_message_intent ext now who q db) = execution_outcome ext now who q db"
proof -
  let ?p = "prepared now who q db"
  have P: "id_instance who = it_participant_id (mr_intent q)" "it_capability (mr_intent q) = POST_MESSAGE_CAPABILITY"
    using b by (simp_all add: request_bound_def)
  obtain r m where r: "r \<in> set (execution_receipts db)" "r_participant_id r = it_participant_id (mr_intent q)"
      "r_intent_id r = it_intent_id (mr_intent q)"
      "find_receipt db (it_participant_id (mr_intent q)) (it_intent_id (mr_intent q)) = Some r"
    and ev: "execution_evidenced ext db r" and m: "m \<in> set (messages db)" "effect_evidenced ext db r m"
      "m_id m = n_message_id n" "n_request_hash n = hash_of_message ext m"
    by (rule reserved_evidenced [OF wf nav])
  have dist: "distinct (map m_id (messages db))" using wf by (simp add: evidence_wf_def keys_wf_def)
  have fm: "find (\<lambda>x. m_id x = n_message_id n) (messages db) = Some m"
    using find_key [OF dist m(1)] m(3) by simp
  have cong: "find_navigation ?p = find_navigation db" "find_receipt ?p = find_receipt db"
    "delivery_conflict q m ?p = delivery_conflict q m db" "keys_wf ?p = keys_wf db"
    by (rule find_navigation_cong, simp, rule find_receipt_cong, simp, simp add: delivery_conflict_def,
        simp add: keys_wf_def)
  have mb: "message_by_id ?p (n_message_id n) = Inr m" using fm by (simp add: message_by_id_def)
  have res: "resolve_effect now who q ?p =
      (if n_request_hash n \<noteq> it_request_hash (mr_intent q) then Inl (Inr IntentConflict) else Inr (m, False, ?p))"
    using nav mb same_content_hash [OF b, of m] m(4)
    by (auto simp: resolve_effect_def reserve_navigation_def cong P(1))
  have rec: "fst (record_evidence_in_tx now q (decision_of now q db) m False ?p) =
      (if delivery_conflict q m db then Inl InvalidQuery else Inr ())"
  proof -
    have "fst (record_execution_in_tx now (mr_ingress q) (receipt_of q m) ?p) =
        (if delivery_conflict q m ?p then Inl InvalidQuery else Inr ())"
      by (rule record_execution_existing [of _ _ _ r]) (use wf r po P(2) ev m(2,3) in
        \<open>simp_all add: cong evidence_wf_def receipt_of_def posts_only_def execution_evidenced_def effect_evidenced_def\<close>)
    moreover obtain out db4 where "record_execution_in_tx now (mr_ingress q) (receipt_of q m) ?p = (out, db4)" by fastforce
    ultimately show ?thesis unfolding cong record_evidence_in_tx_def Let_def by (cases out) (simp_all split: if_splits)
  qed
  obtain out db4 where e: "record_evidence_in_tx now q (decision_of now q db) m False ?p = (out, db4)" by fastforce
  show ?thesis
    unfolding execute_unfold execution_outcome_def res
    using b al ch nav fm rec e by (auto split: sum.split)
qed

lemma outcome_fresh:
  assumes wf: "evidence_wf ext db" and gw: "grants_wf db" and b: "request_bound ext who q"
    and al: "ad_allowed (decision_of now q db)" and ch: "channel_active q db"
    and nav: "find_navigation db (it_participant_id (mr_intent q)) (it_intent_id (mr_intent q)) = None"
  shows "fst (execute_message_intent ext now who q db) = execution_outcome ext now who q db"
proof -
  let ?p = "prepared now who q db" and ?m = "created_message now who q db"
  have P: "id_instance who = it_participant_id (mr_intent q)" using b by (simp add: request_bound_def)
  note nav' = nav [folded P]
  have no: "\<not> has_receipt db (it_participant_id (mr_intent q)) (it_intent_id (mr_intent q))"
    using evidenced_reserved [OF wf] nav by blast
  note conflict = delivery_conflict_fresh [OF wf b no, of ?m]
  show ?thesis
  proof (cases "reply_target_ok q db \<and> \<not> delivery_conflict q ?m db")
    case True
    then show ?thesis
      using execute_creates [OF wf gw b al ch nav'] b al ch nav by (auto simp: execution_outcome_def conflict)
  next
    case False
    show ?thesis
    proof (cases "reply_target_ok q db")
      case False
      have "reply_target_ok q ?p = reply_target_ok q db" "find_navigation ?p = find_navigation db"
        by (simp add: reply_target_ok_def message_exists_cong [of ?p db], rule find_navigation_cong, simp)
      then have "find_navigation ?p (id_instance who) (it_intent_id (mr_intent q)) = None" "\<not> reply_target_ok q ?p"
        using False nav' by simp_all
      then have "resolve_effect now who q ?p = Inl (Inr ReplyTargetNotFound)" by (rule resolve_no_target)
      then show ?thesis using False b al ch nav by (simp add: execute_unfold execution_outcome_def)
    next
      case rt: True
      then have dc: "delivery_conflict q ?m db" using False by simp
      then obtain i where i: "i \<in> set (ingress_provenance db)" "in_delivery_id i = ig_delivery_id (mr_ingress q)"
          "\<not> delivered (mr_ingress q) (receipt_of q ?m) i" by (auto simp: delivery_conflict_def)
      let ?b = "with_created now who q ?p"
      have cong: "find_navigation ?p = find_navigation db" "reply_target_ok q ?p = reply_target_ok q db"
        "created_message now who q ?p = ?m"
        by (rule find_navigation_cong, simp, simp add: reply_target_ok_def message_exists_cong [of ?p db],
            simp add: created_message_def)
      have res: "resolve_effect now who q ?p = Inr (?m, True, ?b)"
        using resolve_fresh [of ?p who q now] nav' rt by (simp add: cong)
      have "record_ingress_in_tx now (mr_ingress q) (receipt_of q ?m) ?b = (Inl InvalidQuery, ?b)"
        by (rule record_ingress_conflict [of _ i]) (use wf i in \<open>simp_all add: evidence_wf_def keys_wf_def\<close>)
      then have "record_evidence_in_tx now q (decision_of now q db) ?m True ?b = (Inl InvalidQuery, ?b)"
        by (simp add: record_evidence_in_tx_def record_execution_in_tx_def)
      then show ?thesis using rt dc b al ch nav by (simp add: execute_unfold execution_outcome_def res)
    qed
  qed
qed

lemma refused_unchanged:
  assumes "execute_message_intent ext now who q db = (res, db')"
    and "\<forall>m. res \<noteq> Inr (ExecCreated m) \<and> res \<noteq> Inr (ExecExisting m)"
  shows "db' = db"
  by (rule execute_cases [OF assms(1)]) (use assms(2) in simp_all)

lemma sample_posts_only: "posts_only sample_admin_board"
  by (simp add: posts_only_def sample_audit_board(3))

lemma outcome_correct:
  assumes "evidence_wf ext db" and "grants_wf db" and "posts_only db"
  shows "fst (execute_message_intent ext now who q db) = execution_outcome ext now who q db"
proof (cases "request_bound ext who q \<and> ad_allowed (decision_of now q db) \<and> channel_active q db")
  case False
  then show ?thesis by (auto simp: execute_unfold execution_outcome_def)
next
  case True
  then show ?thesis
    using outcome_stored [OF assms(1,3)] outcome_fresh [OF assms(1,2)]
    by (cases "find_navigation db (it_participant_id (mr_intent q)) (it_intent_id (mr_intent q))") simp_all
qed



section \<open>Created messages\<close>



section \<open>Exactly once\<close>

text \<open>An intent takes effect at most once.  Once a participant's intent has a receipt, no request for it
  (by any transport, principal, instant or content) creates a message: the log, the receipts, the
  reservations, the authorization provenance and the grants stay as they are, so that no one-shot grant is
  consumed a second time.\<close>

theorem intent_executes_once:
  assumes "evidence_wf ext db"
    and "has_receipt db (it_participant_id (mr_intent q)) (it_intent_id (mr_intent q))"
    and "execute_message_intent ext now who q db = (res, db')"
  shows "(\<forall>m. res \<noteq> Inr (ExecCreated m)) \<and> messages db' = messages db \<and>
    execution_receipts db' = execution_receipts db \<and> navigation_writes db' = navigation_writes db \<and>
    execution_authorization_provenance db' = execution_authorization_provenance db \<and>
    principal_grants db' = principal_grants db \<and> delegated_grants db' = delegated_grants db"
proof -
  consider (C) m where "res = Inr (ExecCreated m)" | (E) m where "res = Inr (ExecExisting m)"
    | (R) "\<forall>m. res \<noteq> Inr (ExecCreated m) \<and> res \<noteq> Inr (ExecExisting m)" by blast
  then show ?thesis
  proof cases
    case C
    show ?thesis by (rule created_board [OF assms(1) assms(3) [unfolded C]]) (use assms(2) in simp)
  next
    case E
    show ?thesis
    proof (rule existing_board [OF assms(1) assms(3) [unfolded E]])
      fix xs assume d: "db' = prepared now who q db\<lparr>ingress_provenance := ingress_provenance db @ xs\<rparr>"
      show ?thesis unfolding d using E by simp
    qed
  next
    case R
    then show ?thesis using refused_unchanged [OF assms(3)] by simp
  qed
qed

theorem intent_executes_once_witness:
  "\<exists>db' res db2. fst (execute_message_intent sample_externals 9 sample_who sample_request sample_admin_board) =
       Inr (ExecCreated (created_message 9 sample_who sample_request sample_admin_board)) \<and>
     db' = snd (execute_message_intent sample_externals 9 sample_who sample_request sample_admin_board) \<and>
     execute_message_intent sample_externals 70 sample_who sample_request db' = (res, db2) \<and>
     messages db2 = messages db'"
proof -
  let ?m = "created_message 9 sample_who sample_request sample_admin_board"
  obtain db' where ex: "execute_message_intent sample_externals 9 sample_who sample_request sample_admin_board =
     (Inr (ExecCreated ?m), db')" using sample_executed by blast
  obtain res db2 where re: "execute_message_intent sample_externals 70 sample_who sample_request db' = (res, db2)" by fastforce
  have wf: "evidence_wf sample_externals db'" using execute_keeps_evidence_created [OF sample_evidence sample_described ex] .
  have "has_receipt db' (it_participant_id (mr_intent sample_request)) (it_intent_id (mr_intent sample_request))"
    by (rule created_board [OF sample_evidence(1) ex]) (simp add: has_receipt_def receipt_row_of_def receipt_of_def)
  from intent_executes_once [OF wf this re] ex re show ?thesis by auto
qed

section \<open>Retries\<close>

lemma channel_metadata_prepared: "channel_active q db \<Longrightarrow> channel_active q (prepared now who q db)"
  using prepared_channel_active [of q now who db]
  by (auto simp: channel_active_def channel_metadata_def split: option.split)

lemma policy_allows_mono:
  assumes al: "policy_allows now db actor p cap res (Some i)"
    and row: "\<And>p. participant_policy_row db' p = participant_policy_row db p"
    and pg: "principal_grants db' = principal_grants db"
    and dg: "\<And>g. g \<in> set (delegated_grants db) \<Longrightarrow> delegated_in_scope actor p cap g \<Longrightarrow> delegated_applies now res i g \<Longrightarrow>
      \<exists>g' \<in> set (delegated_grants db'). delegated_in_scope actor p cap g' \<and> delegated_applies now res i g'"
  shows "policy_allows now db' actor p cap res (Some i)"
proof -
  have "(\<exists>g \<in> set (delegated_grants db). delegated_in_scope actor p cap g \<and> delegated_applies now res i g) \<Longrightarrow>
      (\<exists>g \<in> set (delegated_grants db'). delegated_in_scope actor p cap g \<and> delegated_applies now res i g)"
    using dg by blast
  then show ?thesis using al unfolding policy_allows_def row pg option.inject by metis
qed

text \<open>The authority a creation rested on still covers the intent, also when it was consumed by it.\<close>

lemma policy_allows_after_creation:
  assumes wf: "evidence_wf ext db" and gw: "grants_wf db"
    and ex: "execute_message_intent ext now who q db = (Inr (ExecCreated m), db')"
    and al: "policy_allows now db actor (it_participant_id (mr_intent q)) cap res (Some (it_intent_id (mr_intent q)))"
  shows "policy_allows now db' actor (it_participant_id (mr_intent q)) cap res (Some (it_intent_id (mr_intent q)))"
proof -
  let ?P = "it_participant_id (mr_intent q)" and ?I = "it_intent_id (mr_intent q)" and ?d = "decision_of now q db"
  note f = created_fields(7,8,6) [OF wf ex]
  have row: "participant_policy_row db' p = participant_policy_row db p" for p
    by (simp add: participant_policy_row_def f)
  have keep: "\<exists>g' \<in> set (delegated_grants db'). delegated_in_scope actor ?P cap g' \<and> delegated_applies now res ?I g'"
    if g: "g \<in> set (delegated_grants db)" "delegated_in_scope actor ?P cap g" "delegated_applies now res ?I g" for g
  proof (cases "\<exists>k. ad_consume_grant_id ?d = Some k \<and> d_id g = k \<and> d_status g = ''active'' \<and> d_one_shot g = 1 \<and>
      d_consumed_at g = None")
    case True
    let ?g = "g\<lparr>d_consumed_at := Some now, d_consumed_intent_id := Some ?I, d_updated_at := now\<rparr>"
    have "?g \<in> set (delegated_grants db')"
      using True g(1) unfolding f consumed_grants_def by (auto simp: set_sql_update intro!: bexI [of _ g])
    moreover have "delegated_in_scope actor ?P cap ?g" using g(2) by (simp add: delegated_in_scope_def)
    moreover have "delegated_applies now res ?I ?g" using g(3) True by (auto simp: delegated_applies_def)
    ultimately show ?thesis by blast
  next
    case False
    then have "g \<in> set (delegated_grants db')"
      using g(1) unfolding f consumed_grants_def
      by (cases "ad_consume_grant_id ?d") (auto simp: set_sql_update intro!: bexI [of _ g])
    with g(2,3) show ?thesis by blast
  qed
  show ?thesis by (rule policy_allows_mono [OF al row f(1) keep])
qed

lemma retry_allowed:
  assumes wf: "evidence_wf ext db" and gw: "grants_wf db" and cw: "consumption_wf db"
    and ex: "execute_message_intent ext now who q db = (Inr (ExecCreated m), db')"
    and same: "mr_intent q' = mr_intent q" "au_principal (mr_authority q') = au_principal (mr_authority q)"
  shows "ad_allowed (decision_of now q' db')"
proof -
  have ens: "consumption_wf (ensure_grant_schema x) = consumption_wf x" if "table_exists x ''execution_receipts''" for x
  proof -
    have "committed_receipt_exists (ensure_grant_schema x) = committed_receipt_exists x"
      using that table_exists_ensure [OF that] by (intro ext) (simp add: committed_receipt_exists_def)
    then show ?thesis by (simp add: consumption_wf_def)
  qed
  have pol: "policy_allows now (ensure_grant_schema x) a p c r i = policy_allows now x a p c r i" for x a p c r i
    by (simp add: policy_allows_def participant_policy_row_def)
  have iff: "ad_allowed (decision_of now y x) \<longleftrightarrow> policy_allows now x (au_principal (mr_authority y))
      (it_participant_id (mr_intent y)) (it_capability (mr_intent y)) (Some (it_resource (mr_intent y)))
      (Some (it_intent_id (mr_intent y)))" if "consumption_wf x" "table_exists x ''execution_receipts''" for x y
    unfolding decision_of_def using evaluate_allowed_iff [of "ensure_grant_schema x"] that ens pol by simp
  have al: "ad_allowed (decision_of now q db)" by (rule created_fields(15) [OF wf ex])
  have t: "table_exists db ''execution_receipts''" using wf by (simp add: evidence_wf_def)
  have sch: "schema db' = schema (ensure_grant_schema db)" by (rule created_fields(12) [OF wf ex])
  have cw': "consumption_wf db'" using execute_keeps_consumption_created [OF wf gw cw ex] by blast
  show ?thesis
    using iff [OF cw' table_exists_prepared [OF sch t], of q'] iff [OF cw t, of q] al
      policy_allows_after_creation [OF wf gw ex] by (simp add: same)
qed

text \<open>The reservation and the channel a creation leaves behind.\<close>

lemma delivered_new: "delivered ig rc (ingress_row_of now ig rc)"
  by (simp add: delivered_def ingress_row_of_def)

lemma created_reserved:
  assumes wf: "evidence_wf ext db" and gw: "grants_wf db" and desc: "described q"
    and ex: "execute_message_intent ext now who q db = (Inr (ExecCreated m), db')"
  shows "find_navigation db' (it_participant_id (mr_intent q)) (it_intent_id (mr_intent q)) =
      Some (created_reservation now who q m)"
    and "find (\<lambda>x. m_id x = m_id m) (messages db') = Some m" and "channel_active q db'"
    and "\<forall>i \<in> set (ingress_provenance db'). in_delivery_id i = ig_delivery_id (mr_ingress q) \<longrightarrow>
      delivered (mr_ingress q) (receipt_of q m) i"
proof -
  note c = created_fields [OF wf ex]
  have wf': "evidence_wf ext db'" using execute_keeps_evidence_created [OF wf gw desc ex] .
  have k: "distinct (map navigation_key (navigation_writes db'))" "distinct (map m_id (messages db'))"
    using wf' by (simp_all add: evidence_wf_def keys_wf_def)
  show "find_navigation db' (it_participant_id (mr_intent q)) (it_intent_id (mr_intent q)) =
      Some (created_reservation now who q m)"
  proof -
    have mem: "created_reservation now who q m \<in> set (navigation_writes db')"
      "navigation_key (created_reservation now who q m) = (it_participant_id (mr_intent q), it_intent_id (mr_intent q))"
      using c(14) by (simp_all add: c(2) navigation_key_def created_reservation_def request_bound_def)
    show ?thesis using find_key [OF k(1) mem(1)] mem(2) by (simp add: find_navigation_def navigation_key_def)
  qed
  have "m \<in> set (messages db')" by (simp add: c(1))
  then show "find (\<lambda>x. m_id x = m_id m) (messages db') = Some m" using find_key [OF k(2)] by simp
  show "channel_active q db'"
    using channel_metadata_prepared [OF c(16), of now who] by (simp add: channel_active_def channel_metadata_def c(9))
  show "\<forall>i \<in> set (ingress_provenance db'). in_delivery_id i = ig_delivery_id (mr_ingress q) \<longrightarrow>
      delivered (mr_ingress q) (receipt_of q m) i"
  proof -
    have "set (ingress_provenance db') =
        insert (ingress_row_of now (mr_ingress q) (receipt_of q m)) (set (ingress_provenance db))" by (simp add: c(3))
    then show ?thesis using c(18) delivered_new by (metis imageI insertE)
  qed
qed

lemma retry_existing:
  assumes "evidence_wf ext db" and "grants_wf db" and "consumption_wf db" and "posts_only db" and "described q"
    and "execute_message_intent ext now who q db = (Inr (ExecCreated m), db')"
    and "mr_intent q' = mr_intent q" and "request_bound ext who q'"
    and "au_principal (mr_authority q') = au_principal (mr_authority q)"
    and "mr_ingress q' = mr_ingress q \<or>
      ig_delivery_id (mr_ingress q') \<notin> in_delivery_id ` set (ingress_provenance db')"
  shows "\<exists>db''. execute_message_intent ext now who q' db' = (Inr (ExecExisting m), db'') \<and>
    messages db'' = messages db'"
proof -
  note cr = created_reserved [OF assms(1,2,5,6)]
  have wf': "evidence_wf ext db'" using execute_keeps_evidence_created [OF assms(1,2,5,6)] .
  have gw': "grants_wf db'" using execute_keeps_consumption_created [OF assms(1,2,3,6)] by blast
  have b: "request_bound ext who q" by (rule created_board [OF assms(1,6)])
  have po: "posts_only db'"
    by (rule created_board [OF assms(1,6)])
      (use assms(4) in \<open>auto simp: posts_only_def receipt_row_of_def receipt_of_def request_bound_def\<close>)
  have ch: "channel_active q' db'"
    using cr(3) b assms(7,8) by (simp add: channel_active_def request_bound_def)
  have dc: "\<not> delivery_conflict q' m db'"
  proof -
    have "receipt_of q' m = receipt_of q m" by (simp add: receipt_of_def assms(7))
    then show ?thesis using cr(4) assms(10) unfolding delivery_conflict_def by (metis imageI)
  qed
  have "execution_outcome ext now who q' db' = Inr (ExecExisting m)"
    using assms(7,8) retry_allowed [OF assms(1,2,3,6,7,9)] ch cr(1,2) dc
    by (simp add: execution_outcome_def created_reservation_def)
  then have "fst (execute_message_intent ext now who q' db') = Inr (ExecExisting m)"
    using outcome_correct [OF wf' gw' po] by simp
  then obtain db'' where ex: "execute_message_intent ext now who q' db' = (Inr (ExecExisting m), db'')"
    by (cases "execute_message_intent ext now who q' db'") auto
  have "messages db'' = messages db'" by (rule existing_board [OF wf' ex]) simp
  with ex show ?thesis by blast
qed

text \<open>A retry is answered with the message of the first execution.  After a creation, a request of the
  same principal for the same intent at the same instant, through whatever delivery (the same one again, or a
  new delivery id from any transport), is still authorized, also when the intent consumed a one-shot grant, and
  returns the created message without creating another one.\<close>

theorem retry_returns_created_message:
  assumes "evidence_wf ext db" and "grants_wf db" and "consumption_wf db" and "posts_only db" and "described q"
    and "execute_message_intent ext now who q db = (Inr (ExecCreated m), db')"
    and "mr_intent q' = mr_intent q" and "request_bound ext who q'"
    and "au_principal (mr_authority q') = au_principal (mr_authority q)"
    and "mr_ingress q' = mr_ingress q \<or>
      ig_delivery_id (mr_ingress q') \<notin> in_delivery_id ` set (ingress_provenance db')"
  shows "\<exists>db''. execute_message_intent ext now who q' db' = (Inr (ExecExisting m), db'') \<and>
    messages db'' = messages db'"
  by (rule retry_existing [OF assms])

theorem retry_returns_created_message_witness:
  "\<exists>db' db'' m. execute_message_intent sample_externals 9 sample_who sample_request sample_admin_board =
       (Inr (ExecCreated m), db') \<and>
     execute_message_intent sample_externals 9 sample_who (sample_request\<lparr>mr_ingress := sample_ingress ''d2''\<rparr>) db' =
       (Inr (ExecExisting m), db'') \<and> messages db'' = messages db'"
proof -
  let ?q = "sample_request\<lparr>mr_ingress := sample_ingress ''d2''\<rparr>"
  obtain m db' where ex: "execute_message_intent sample_externals 9 sample_who sample_request sample_admin_board =
     (Inr (ExecCreated m), db')" using sample_executed by blast
  have "set (ingress_provenance db') = {ingress_row_of 9 (mr_ingress sample_request) (receipt_of sample_request m)}"
    by (rule created_board [OF sample_evidence(1) ex]) (simp add: sample_admin_board_def empty_board_def)
  then have fresh: "ig_delivery_id (mr_ingress ?q) \<notin> in_delivery_id ` set (ingress_provenance db')"
    by (simp add: ingress_row_of_def sample_request_def sample_ingress_def)
  have "request_bound sample_externals sample_who ?q"
    by (simp add: request_bound_def sample_request_def sample_ingress_def sample_who_def)
  from retry_returns_created_message [OF sample_evidence sample_admin_wf(2) sample_posts_only sample_described ex _ this]
  show ?thesis using fresh ex by auto
qed

section \<open>One-shot grants\<close>

text \<open>Two authorization records that cite the same one-shot delegated grant are the same record, that of the intent that
  consumed it.  That the executor consumes the grant is in the theory \<open>Board_Runs\<close>.\<close>

lemma one_shot_citations_agree:
  assumes "evidence_wf ext db" and "g \<in> set (delegated_grants db)" and "d_one_shot g \<noteq> 0"
    and "a \<in> set (execution_authorization_provenance db)" "b \<in> set (execution_authorization_provenance db)"
    and "a_source a = ''delegated_grants''" "a_source b = ''delegated_grants''"
    and "a_grant_id a = Some (d_id g)" "a_grant_id b = Some (d_id g)"
  shows "a = b \<and> d_consumed_intent_id g = Some (a_intent_id a) \<and> d_participant_id g = a_participant_id a"
proof -
  have k: "distinct (map provenance_key (execution_authorization_provenance db))" "distinct (map d_id (delegated_grants db))"
    using assms(1) by (simp_all add: evidence_wf_def keys_wf_def)
  have cites: "d_consumed_intent_id g = Some (a_intent_id x) \<and> d_participant_id g = a_participant_id x"
    if x: "x \<in> set (execution_authorization_provenance db)" "a_source x = ''delegated_grants''" "a_grant_id x = Some (d_id g)" for x
  proof -
    have "has_receipt db (a_participant_id x) (a_intent_id x)"
      using assms(1) x(1) by (simp add: evidence_wf_def no_orphans_def)
    then obtain r where r: "r \<in> set (execution_receipts db)" "r_participant_id r = a_participant_id x"
        "r_intent_id r = a_intent_id x" by (auto simp: has_receipt_def)
    then obtain m y where "effect_evidenced ext db r m" and y: "y \<in> set (execution_authorization_provenance db)"
        "authorization_evidenced r m y" "delegated_evidenced db r y"
      using assms(1) unfolding evidence_wf_def execution_evidenced_def by (meson effect_evidenced_def)
    have "provenance_key y = provenance_key x"
      using y(2) r(2,3) by (simp add: authorization_evidenced_def provenance_key_def receipt_key_def)
    then have "y = x" using distinct_key_eq [OF k(1) y(1) x(1)] by simp
    then obtain h where h: "h \<in> set (delegated_grants db)" "a_grant_id x = Some (d_id h)"
        "d_participant_id h = r_participant_id r"
        "d_one_shot h \<noteq> 0 \<longrightarrow> d_consumed_intent_id h = Some (r_intent_id r)"
      using y(3) x(2) unfolding delegated_evidenced_def by blast
    have "h = g" using distinct_key_eq [OF k(2) h(1) assms(2)] h(2) x(3) by simp
    then show ?thesis using h(3,4) r(2,3) assms(3) by simp
  qed
  have "provenance_key a = provenance_key b"
    using cites [OF assms(4,6,8)] cites [OF assms(5,7,9)] by (simp add: provenance_key_def)
  then show ?thesis using distinct_key_eq [OF k(1) assms(4,5)] cites [OF assms(4,6,8)] by simp
qed

section \<open>Navigation writes and the invariant\<close>

lemma navigation_step_frames:
  "execution_receipts (snd (reserve_navigation now w k h db)) = execution_receipts db"
  "ingress_provenance (snd (reserve_navigation now w k h db)) = ingress_provenance db"
  "execution_authorization_provenance (snd (reserve_navigation now w k h db)) = execution_authorization_provenance db"
  "delegated_grants (snd (reserve_navigation now w k h db)) = delegated_grants db"
  "schema (snd (reserve_navigation now w k h db)) = schema db"
  "execution_receipts (bind_navigation i w k db) = execution_receipts db"
  "ingress_provenance (bind_navigation i w k db) = ingress_provenance db"
  "execution_authorization_provenance (bind_navigation i w k db) = execution_authorization_provenance db"
  "delegated_grants (bind_navigation i w k db) = delegated_grants db"
  "schema (bind_navigation i w k db) = schema db"
  "execution_receipts (snd (insert_message now ch who cr kd bd rt db)) = execution_receipts db"
  "ingress_provenance (snd (insert_message now ch who cr kd bd rt db)) = ingress_provenance db"
  "execution_authorization_provenance (snd (insert_message now ch who cr kd bd rt db)) = execution_authorization_provenance db"
  "delegated_grants (snd (insert_message now ch who cr kd bd rt db)) = delegated_grants db"
  "schema (snd (insert_message now ch who cr kd bd rt db)) = schema db"
  by (simp_all add: reserve_navigation_def bind_navigation_def insert_message_def Let_def)

lemma navigation_frame:
  "execution_receipts (snd (append_navigation_message_with_conversation now who input cref db)) = execution_receipts db"
  "ingress_provenance (snd (append_navigation_message_with_conversation now who input cref db)) = ingress_provenance db"
  "execution_authorization_provenance (snd (append_navigation_message_with_conversation now who input cref db)) =
     execution_authorization_provenance db"
  "delegated_grants (snd (append_navigation_message_with_conversation now who input cref db)) = delegated_grants db"
  "schema (snd (append_navigation_message_with_conversation now who input cref db)) = schema db"
  unfolding append_navigation_message_with_conversation_def Let_def case_prod_beta
  by (simp_all add: navigation_step_frames split: option.split sum.split)

lemma sweep_valid_clean:
  "sr_valid (sweep_execution_audit_integrity ext db) \<Longrightarrow> sr_orphan_evidence (sweep_execution_audit_integrity ext db) = []"
  by (simp add: sweep_execution_audit_integrity_def Let_def)

text \<open>C40: A navigation write leaves evidence the sweep rejects.  The browser surface reserves its nonce and
  appends its message, but records neither receipt nor delivery nor authorization: on every board that
  satisfied the evidence invariant, an accepted navigation write makes the sweep invalid, with an orphan
  reservation for the participant and the nonce.\<close>

theorem navigation_write_orphaned:
  assumes "evidence_wf ext db" and "append_navigation_message now who input db = (Inr (NavCreated m), db')"
  shows "\<not> sr_valid (sweep_execution_audit_integrity ext db') \<and>
    (\<exists>e \<in> set (sr_orphan_evidence (sweep_execution_audit_integrity ext db')).
       oe_kind e = ''orphan_navigation_reservation'' \<and> oe_participant_id e = Some (id_instance who) \<and>
       oe_intent_id e = ni_nonce input)"
proof -
  have created: "append_navigation_message_with_conversation now who input None db = (Inr (NavCreated m), db')"
    using assms(2) by (simp add: append_navigation_message_def)
  note c = navigation_created [OF created]
  let ?n = "\<lparr>n_instance = id_instance who, n_nonce = ni_nonce input, n_request_hash = ni_request_hash input,
    n_message_id = m_id m, n_created_at = now\<rparr>"
  let ?o = "\<lparr>oe_kind = ''orphan_navigation_reservation'', oe_participant_id = Some (id_instance who),
    oe_intent_id = ni_nonce input, oe_reference = Some (''message_id='' @ int_to_string (m_id m))\<rparr>"
  have "\<not> has_receipt db (id_instance who) (ni_nonce input)" using evidenced_reserved [OF assms(1)] c(1) by blast
  then have "\<not> has_receipt db' (id_instance who) (ni_nonce input)"
    using navigation_frame(1) [of now who input None db] created by (simp add: has_receipt_def)
  then have "?o \<in> set (orphan_navigation db')"
    by (simp add: orphan_navigation_def c(4) image_iff)
  then have "?o \<in> set (sr_orphan_evidence (sweep_execution_audit_integrity ext db'))"
    by (simp add: sweep_execution_audit_integrity_def Let_def)
  moreover from this have "\<not> sr_valid (sweep_execution_audit_integrity ext db')"
    using sweep_valid_clean [of ext db'] by force
  ultimately show ?thesis by (intro conjI bexI [of _ ?o]) simp_all
qed

theorem navigation_write_orphaned_witness:
  "\<exists>m db'. append_navigation_message 7 sample_who \<lparr>ni_channel = ''lab'', ni_kind = ''message'', ni_body = ''hi'',
       ni_reply_to = None, ni_nonce = ''n1'', ni_request_hash = ''h1''\<rparr> sample_admin_board = (Inr (NavCreated m), db') \<and>
     \<not> sr_valid (sweep_execution_audit_integrity sample_externals db')"
proof -
  let ?in = "\<lparr>ni_channel = ''lab'', ni_kind = ''message'', ni_body = ''hi'', ni_reply_to = None, ni_nonce = ''n1'',
    ni_request_hash = ''h1''\<rparr>"
  obtain r db' where 1: "append_navigation_message 7 sample_who ?in sample_admin_board = (r, db')" by fastforce
  then obtain m where m: "r = Inr (NavCreated m)"
    by (auto simp: append_navigation_message_def append_navigation_message_with_conversation_def
        insert_channel_or_ignore_def reserve_navigation_def find_navigation_def insert_message_def
        message_by_id_def bind_navigation_def next_rowid_def default_visibility_def sample_admin_board_def
        empty_board_def Let_def)
  show ?thesis using navigation_write_orphaned [OF sample_evidence(1) 1 [unfolded m]] 1 m by blast
qed

end
