(* ===== verification/System.thy ===== *)
theory System
  imports Exactly_Once
begin

text \<open>
  The whole board and its writers as a state machine: one step is one call of the executor, of the message
  log, of the identities, of the participants or of the administration.  \<open>system_wf\<close> is the conjunction of
  the components' invariants; every step keeps it, so it holds in every reachable state.
\<close>

section \<open>The writers of the identities\<close>

datatype identity_call =
    Register int string "string option" "(string \<times> string) list"
  | Rotate string string
  | Revoke string

fun identity_effect :: "externals \<Rightarrow> identity_call \<Rightarrow> board \<Rightarrow> board" where
  "identity_effect ext (Register now s l draws) db = snd (register_identity ext now s l draws db)"
| "identity_effect ext (Rotate t i) db = snd (rotate_token ext t i db)"
| "identity_effect ext (Revoke i) db = snd (revoke_token i db)"

definition identities_only :: "board \<Rightarrow> board \<Rightarrow> bool" where
  "identities_only db db' \<longleftrightarrow> db' = db\<lparr>identities := identities db'\<rparr>"

lemma identities_only_simps [simp]:
  "identities_only db db" "identities_only db (db\<lparr>identities := is\<rparr>)"
  by (simp_all add: identities_only_def)

lemma identities_only_fields:
  assumes "identities_only db db'"
  shows "execution_receipts db' = execution_receipts db"
    "execution_authorization_provenance db' = execution_authorization_provenance db"
    "navigation_writes db' = navigation_writes db" "ingress_provenance db' = ingress_provenance db"
    "schema db' = schema db" "messages db' = messages db" "delegated_grants db' = delegated_grants db"
    "principal_grants db' = principal_grants db" "authorization_admin_events db' = authorization_admin_events db"
    "web_participants db' = web_participants db" "channels db' = channels db"
proof -
  have eq: "db' = db\<lparr>identities := identities db'\<rparr>" using assms by (simp add: identities_only_def)
  show "execution_receipts db' = execution_receipts db"
    "execution_authorization_provenance db' = execution_authorization_provenance db"
    "navigation_writes db' = navigation_writes db" "ingress_provenance db' = ingress_provenance db"
    "schema db' = schema db" "messages db' = messages db" "delegated_grants db' = delegated_grants db"
    "principal_grants db' = principal_grants db" "authorization_admin_events db' = authorization_admin_events db"
    "web_participants db' = web_participants db" "channels db' = channels db"
    by (subst eq, simp)+
qed

lemma register_attempts_only: "identities_only db (snd (register_attempts ext now s l draws db))"
  by (induction ext now s l draws db rule: register_attempts.induct) simp_all

lemma identity_effect_only: "identities_only db (identity_effect ext call db)"
  by (cases call) (simp_all add: register_identity_def rotate_token_def revoke_token_def Let_def case_prod_beta
      register_attempts_only split: option.split sum.split)

interpretation identity_writer: quiet_writer "\<lambda>_. True" "identity_effect ext" for ext
proof
  show "quiet db (identity_effect ext q db)" for db q
    using identities_only_fields [OF identity_effect_only [of db ext q]]
    by (simp add: quiet_def grants_retained_eq)
qed simp

section \<open>The invariant of the board\<close>

definition system_wf :: "externals \<Rightarrow> board \<Rightarrow> bool" where
  "system_wf ext db \<longleftrightarrow> evidence_wf ext db \<and> posts_only db \<and> policy_wf db \<and> consumption_wf db \<and>
     participants_wf db \<and> db_wf db"

lemma policy_wf_cong:
  "principal_grants db' = principal_grants db \<Longrightarrow> delegated_grants db' = delegated_grants db \<Longrightarrow>
   authorization_admin_events db' = authorization_admin_events db \<Longrightarrow> policy_wf db' = policy_wf db"
  by (simp add: policy_wf_def grants_wf_def history_wf_def)

lemma consumption_wf_same:
  assumes "delegated_grants db' = delegated_grants db" "execution_receipts db' = execution_receipts db"
    "schema db' = schema db"
  shows "consumption_wf db' = consumption_wf db"
proof -
  have "committed_receipt_exists db' = committed_receipt_exists db"
    by (intro ext) (simp add: committed_receipt_exists_def assms table_exists_schema [OF assms(3)])
  then show ?thesis by (simp add: consumption_wf_def assms(1))
qed

lemma participants_wf_cong: "web_participants db' = web_participants db \<Longrightarrow> participants_wf db' = participants_wf db"
  by (simp add: participants_wf_def)

lemma db_wf_cong:
  "messages db' = messages db \<Longrightarrow> channels db' = channels db \<Longrightarrow> navigation_writes db' = navigation_writes db \<Longrightarrow>
   db_wf db' = db_wf db"
  by (simp add: db_wf_def log_wf_def replies_wf_def channels_wf_def navigation_wf_def)

lemma posts_only_cong: "execution_receipts db' = execution_receipts db \<Longrightarrow> posts_only db' = posts_only db"
  by (simp add: posts_only_def)

text \<open>A grant keeps its place in the history when only its consumption is recorded.\<close>

lemma history_of_update:
  assumes "history_of es pg dg"
    and "\<And>g. P g \<Longrightarrow> d_id (f g) = d_id g \<and> d_status (f g) = d_status g \<and> delegated_row_scope (f g) = delegated_row_scope g"
  shows "history_of es pg (sql_update P f dg)"
proof -
  have "map d_id (sql_update P f dg) = map d_id dg" using assms(2) by (intro map_sql_update) simp
  then have "d_id ` set (sql_update P f dg) = d_id ` set dg" by (metis image_set)
  moreover have "explained es ''delegated'' (d_id g) (delegated_row_scope g) (d_status g)"
    if "g \<in> set (sql_update P f dg)" for g
  proof -
    obtain g0 where g0: "g0 \<in> set dg" "g = (if P g0 then f g0 else g0)" using \<open>g \<in> _\<close> by (auto simp: set_sql_update)
    have "d_id g = d_id g0 \<and> d_status g = d_status g0 \<and> delegated_row_scope g = delegated_row_scope g0"
      unfolding g0(2) using assms(2) [of g0] by (cases "P g0") simp_all
    then show ?thesis using assms(1) g0(1) by (simp add: history_of_def)
  qed
  ultimately show ?thesis using assms(1) by (simp add: history_of_def)
qed

lemma consumed_history:
  "history_of es pg (delegated_grants db) \<Longrightarrow> history_of es pg (consumed_grants now i d db)"
  unfolding consumed_grants_def by (cases "ad_consume_grant_id d")
    (simp_all add: history_of_update delegated_row_scope_def)

section \<open>The steps\<close>

text \<open>A call of the log is admissible if the reply target it names exists; the HTTP handler checks that.\<close>

fun log_ok :: "log_call \<Rightarrow> board \<Rightarrow> bool" where
  "log_ok (AppendMessage now who ch k b r) db \<longleftrightarrow> (\<forall>t. r = Some t \<longrightarrow> message_exists db t)"
| "log_ok _ db \<longleftrightarrow> True"

inductive board_step :: "externals \<Rightarrow> board \<Rightarrow> board \<Rightarrow> bool" for ext where
  execute: "described q \<Longrightarrow> board_step ext db (snd (execute_message_intent ext now who q db))"
| log: "log_ok call db \<Longrightarrow> board_step ext db (log_effect call db)"
| identity: "board_step ext db (identity_effect ext call db)"
| participant: "board_step ext db (participant_effect ext call db)"
| administer: "board_step ext db (admin_effect now call db)"

inductive reachable :: "externals \<Rightarrow> board \<Rightarrow> bool" for ext where
  start: "reachable ext empty_board"
| step: "reachable ext db \<Longrightarrow> board_step ext db db' \<Longrightarrow> reachable ext db'"

inductive_cases board_stepE: "board_step ext db db'"

lemma created_keeps_db:
  assumes w: "db_wf db" and ev: "evidence_wf ext db"
    and ex: "execute_message_intent ext now who q db = (Inr (ExecCreated m), db')"
  shows "db_wf db'"
proof -
  note c = created_fields [OF ev ex]
  have i: "m_id m = next_rowid (map m_id (messages db))" and who: "m_instance m = id_instance who"
    and rt: "m_reply_to m = mr_reply_to q"
    by (subst c(13), simp)+
  have "log_wf db'" using w by (intro log_wf_append [OF _ c(1) i]) (simp add: db_wf_def)
  moreover have "replies_wf db'"
    by (rule replies_wf_append [OF _ c(1) i]) (use w c(19) rt in \<open>simp_all add: db_wf_def reply_target_ok_def\<close>)
  moreover have "channels_wf db'"
  proof -
    have "channels_wf (ensure_grant_schema db)" using w by (simp add: db_wf_def channels_wf_def)
    then have "channels_wf (prepared now who q db)" unfolding prepared_def by (rule channels_wf_insert_channel)
    then show ?thesis by (simp add: channels_wf_def c(9))
  qed
  moreover have "navigation_wf db'"
    by (rule navigation_wf_append [OF _ _ c(2), of m])
      (use w c(20) who in \<open>auto simp: db_wf_def c(1) created_reservation_def\<close>)
  ultimately show ?thesis by (simp add: db_wf_def)
qed

lemma created_keeps_system:
  assumes w: "system_wf ext db" and desc: "described q"
    and ex: "execute_message_intent ext now who q db = (Inr (ExecCreated m), db')"
  shows "system_wf ext db'"
proof -
  have ev: "evidence_wf ext db" and gw: "grants_wf db" and cw: "consumption_wf db"
    using w by (simp_all add: system_wf_def policy_wf_def)
  note c = created_fields [OF ev ex]
  have gc: "consumption_wf db' \<and> grants_wf db'" by (rule execute_keeps_consumption_created [OF ev gw cw ex])
  have "history_wf db'"
    using w consumed_history by (simp add: system_wf_def policy_wf_def history_wf_def c(6,7,10))
  then have "policy_wf db'" using gc w by (simp add: policy_wf_def system_wf_def c(7))
  moreover have "posts_only db'"
    using w c(14) by (simp add: system_wf_def posts_only_def c(4) receipt_row_of_def receipt_of_def request_bound_def)
  moreover have "participants_wf db'" using w participants_wf_cong [OF c(8)] by (simp add: system_wf_def)
  ultimately show ?thesis
    using gc created_keeps_db [OF _ ev ex] execute_keeps_evidence_created [OF ev gw desc ex] w
    by (simp add: system_wf_def)
qed

lemma existing_keeps_system:
  assumes w: "system_wf ext db" and desc: "described q"
    and ex: "execute_message_intent ext now who q db = (Inr (ExecExisting m), db')"
  shows "system_wf ext db'"
proof -
  have ev: "evidence_wf ext db" and gw: "grants_wf db" and cw: "consumption_wf db"
    using w by (simp_all add: system_wf_def policy_wf_def)
  have f: "principal_grants db' = principal_grants db" "delegated_grants db' = delegated_grants db"
    "authorization_admin_events db' = authorization_admin_events db" "web_participants db' = web_participants db"
    "execution_receipts db' = execution_receipts db" "messages db' = messages db"
    "navigation_writes db' = navigation_writes db" "channels db' = channels (prepared now who q db)"
    by (rule existing_board [OF ev ex], simp)+
  have "channels_wf (ensure_grant_schema db)" using w by (simp add: system_wf_def db_wf_def channels_wf_def)
  then have "channels_wf (prepared now who q db)" unfolding prepared_def by (rule channels_wf_insert_channel)
  then have "channels_wf db'" by (simp add: channels_wf_def f(8))
  then have "db_wf db'"
    using w by (simp add: system_wf_def db_wf_def log_wf_def replies_wf_def navigation_wf_def f(6,7))
  moreover have "consumption_wf db'"
    using execute_keeps_policy [OF ev gw cw, of now who q] ex by simp
  ultimately show ?thesis
    using w execute_keeps_evidence_existing [OF ev desc ex] policy_wf_cong [OF f(1,2,3)]
      participants_wf_cong [OF f(4)] posts_only_cong [OF f(5)] by (simp add: system_wf_def)
qed

lemma execute_keeps_system:
  assumes "system_wf ext db" and "described q"
  shows "system_wf ext (snd (execute_message_intent ext now who q db))"
proof (cases "execute_message_intent ext now who q db")
  case (Pair res db')
  consider (C) m where "res = Inr (ExecCreated m)" | (E) m where "res = Inr (ExecExisting m)"
    | (R) "\<forall>m. res \<noteq> Inr (ExecCreated m) \<and> res \<noteq> Inr (ExecExisting m)" by blast
  then show ?thesis
  proof cases
    case C
    then show ?thesis using created_keeps_system [OF assms] Pair by simp
  next
    case E
    then show ?thesis using existing_keeps_system [OF assms] Pair by simp
  next
    case R
    then show ?thesis using refused_unchanged [OF Pair] Pair assms(1) by simp
  qed
qed

lemma log_effect_fields:
  "delegated_grants (log_effect call db) = delegated_grants db" "principal_grants (log_effect call db) = principal_grants db"
  "authorization_admin_events (log_effect call db) = authorization_admin_events db"
  "web_participants (log_effect call db) = web_participants db"
  "execution_receipts (log_effect call db) = execution_receipts db" "schema (log_effect call db) = schema db"
  by (cases call; simp add: append_message_def insert_message_def ensure_channel_def ensure_channel_for_write_def
      create_channel_def update_channel_def case_prod_beta Let_def split: option.split sum.split)+

lemma log_effect_db_wf:
  assumes "db_wf db" and "log_ok call db"
  shows "db_wf (log_effect call db)"
proof (cases call)
  case (EnsureChannel now c b)
  have "db_wf (snd (ensure_channel_for_write now c b db))"
    using db_wf_ensure [OF assms(1), of now c b] by (simp add: ensure_channel_for_write_def Let_def)
  then show ?thesis by (simp add: EnsureChannel)
qed (use assms in \<open>simp_all add: db_wf_append_message db_wf_create_channel db_wf_update_channel\<close>)

lemma board_step_keeps:
  assumes "board_step ext db db'" and w: "system_wf ext db"
  shows "system_wf ext db'"
  using assms(1)
proof cases
  case (execute q now who)
  then show ?thesis using execute_keeps_system [OF w] by simp
next
  case (log call)
  note f = log_effect_fields [of call db]
  have "evidence_wf ext (log_effect call db)"
    by (rule log_writer.keeps_evidence) (use w in \<open>simp_all add: system_wf_def\<close>)
  then show ?thesis
    using w log_effect_db_wf [OF _ log(2)] consumption_wf_same [OF f(1,5,6)]
      policy_wf_cong [OF f(2,1,3)] participants_wf_cong [OF f(4)] posts_only_cong [OF f(5)]
    by (simp add: system_wf_def log(1))
next
  case (identity call)
  note f = identities_only_fields [OF identity_effect_only [of db ext call]]
  have "evidence_wf ext (identity_effect ext call db)"
    by (rule identity_writer.keeps_evidence) (use w in \<open>simp_all add: system_wf_def\<close>)
  then show ?thesis
    using w db_wf_cong [OF f(6,11,3)] consumption_wf_same [OF f(7,1,5)]
      policy_wf_cong [OF f(8,7,9)] participants_wf_cong [OF f(10)] posts_only_cong [OF f(1)]
    by (simp add: system_wf_def identity)
next
  case (participant call)
  have eq: "db' = db\<lparr>web_participants := web_participants db'\<rparr>"
    using participant_effect_only [of db ext call] by (simp only: participant participants_only_def)
  have f: "execution_receipts db' = execution_receipts db" "schema db' = schema db" "messages db' = messages db"
    "delegated_grants db' = delegated_grants db" "principal_grants db' = principal_grants db"
    "authorization_admin_events db' = authorization_admin_events db" "channels db' = channels db"
    "navigation_writes db' = navigation_writes db"
    by (subst eq, simp)+
  have "evidence_wf ext (participant_effect ext call db)"
    by (rule participant_writer.keeps_evidence) (use w in \<open>simp_all add: system_wf_def\<close>)
  moreover have "participants_wf (participant_effect ext call db)"
    by (rule participant_writer.keeps_wf) (use w in \<open>simp add: system_wf_def\<close>)
  ultimately show ?thesis
    using w db_wf_cong [OF f(3,7,8)] consumption_wf_same [OF f(4,1,2)] policy_wf_cong [OF f(5,4,6)] posts_only_cong [OF f(1)]
    by (simp add: system_wf_def participant)
next
  case (administer now call)
  have pw: "policy_wf db \<and> consumption_wf db" using w by (simp add: system_wf_def)
  have eq: "db' = db\<lparr>principal_grants := principal_grants db', delegated_grants := delegated_grants db',
      authorization_admin_events := authorization_admin_events db'\<rparr>"
    using admin_effect_recorded [of db now call] pw by (simp only: administer policy_only_def)
  have f: "execution_receipts db' = execution_receipts db" "messages db' = messages db" "channels db' = channels db"
    "navigation_writes db' = navigation_writes db" "web_participants db' = web_participants db"
    by (subst eq, simp)+
  have k: "policy_wf db' \<and> consumption_wf db'" using admin_effect_keeps pw by (simp add: administer)
  have "evidence_wf ext ((\<lambda>(now, call). admin_effect now call) (now, call) db)"
    by (rule admin_writer.keeps_evidence [OF pw]) (use w in \<open>simp add: system_wf_def\<close>)
  then have "evidence_wf ext db'" by (simp add: administer)
  then show ?thesis
    using w k db_wf_cong [OF f(2,3,4)] participants_wf_cong [OF f(5)] posts_only_cong [OF f(1)] by (simp add: system_wf_def)
qed

lemma system_wf_empty: "system_wf ext empty_board"
proof -
  have "evidence_wf ext empty_board"
    by (rule evidence_wf_fresh) (simp_all add: empty_board_def audit_tables_def table_exists_def current_schema_def)
  then show ?thesis
    by (simp add: system_wf_def posts_only_def policy_wf_def grants_wf_def history_wf_def history_of_def
        consumption_wf_def participants_wf_def db_wf_def log_wf_def replies_wf_def channels_wf_def navigation_wf_def
        empty_board_def)
qed

lemma reachable_system_wf: "reachable ext db \<Longrightarrow> system_wf ext db"
  by (induction rule: reachable.induct) (simp_all add: system_wf_empty board_step_keeps)

section \<open>Logs only grow\<close>

lemma admin_effect_log:
  assumes "policy_wf db"
  shows "messages (admin_effect now call db) = messages db" "execution_receipts (admin_effect now call db) = execution_receipts db"
proof -
  have eq: "admin_effect now call db = db\<lparr>principal_grants := principal_grants (admin_effect now call db),
      delegated_grants := delegated_grants (admin_effect now call db),
      authorization_admin_events := authorization_admin_events (admin_effect now call db)\<rparr>"
    using admin_effect_recorded [OF assms, of now call] by (simp only: policy_only_def)
  show "messages (admin_effect now call db) = messages db" "execution_receipts (admin_effect now call db) = execution_receipts db"
    by (subst eq, simp)+
qed

lemma log_effect_messages: "\<exists>ms. messages (log_effect call db) = messages db @ ms \<and> length ms \<le> 1"
proof (cases call)
  case (AppendMessage now who ch k b r)
  obtain res db' where a: "append_message now who ch k b r db = (res, db')" by fastforce
  have "messages db' = messages db @ [projr res]" by (simp add: append_message_result(2) [OF a] ensure_channel_def)
  then show ?thesis using a by (simp add: AppendMessage)
qed (simp_all add: create_channel_def update_channel_frame case_prod_beta)

text \<open>A step appends at most one message and at most one receipt, and no receipt without a message.\<close>

definition extends_log :: "board \<Rightarrow> board \<Rightarrow> bool" where
  "extends_log db db' \<longleftrightarrow> (\<exists>ms rs. messages db' = messages db @ ms \<and> execution_receipts db' = execution_receipts db @ rs \<and>
     length rs \<le> length ms \<and> length ms \<le> 1)"

lemma board_step_extends:
  assumes "board_step ext db db'" and w: "system_wf ext db"
  shows "extends_log db db'"
  using assms(1)
proof cases
  case (execute q now who)
  have ev: "evidence_wf ext db" using w by (simp add: system_wf_def)
  obtain res where ex: "execute_message_intent ext now who q db = (res, db')" using execute(1) by (metis prod.collapse)
  consider (C) m where "res = Inr (ExecCreated m)" | (E) m where "res = Inr (ExecExisting m)"
    | (R) "\<forall>m. res \<noteq> Inr (ExecCreated m) \<and> res \<noteq> Inr (ExecExisting m)" by blast
  then show ?thesis
  proof cases
    case C
    show ?thesis unfolding extends_log_def using created_fields(1,4) [OF ev ex [unfolded C]]
      by (intro exI [of _ "[m]"] exI [of _ "[receipt_row_of now (receipt_of q m)]"]) simp
  next
    case E
    have "messages db' = messages db" "execution_receipts db' = execution_receipts db"
      by (rule existing_board [OF ev ex [unfolded E]], simp)+
    then show ?thesis by (simp add: extends_log_def)
  next
    case R
    then show ?thesis using refused_unchanged [OF ex] by (simp add: extends_log_def)
  qed
next
  case (log call)
  then show ?thesis using log_effect_messages [of call db] log_effect_fields(5) [of call db] by (auto simp: extends_log_def)
next
  case (identity call)
  then show ?thesis using identities_only_fields(1,6) [OF identity_effect_only [of db ext call]] by (simp add: extends_log_def)
next
  case (participant call)
  have eq: "db' = db\<lparr>web_participants := web_participants db'\<rparr>"
    using participant_effect_only [of db ext call] by (simp only: participant participants_only_def)
  have "messages db' = messages db" "execution_receipts db' = execution_receipts db" by (subst eq, simp)+
  then show ?thesis by (simp add: extends_log_def)
next
  case (administer now call)
  have pw: "policy_wf db" using w by (simp add: system_wf_def)
  show ?thesis using admin_effect_log [OF pw] by (simp add: administer extends_log_def)
qed

lemma run_keeps:
  assumes "(board_step ext)\<^sup>*\<^sup>* db db'" and "system_wf ext db"
  shows "system_wf ext db' \<and> (\<exists>ms. messages db' = messages db @ ms) \<and>
    (\<exists>rs. execution_receipts db' = execution_receipts db @ rs)"
  using assms(1)
proof (induction rule: rtranclp_induct)
  case (step y z)
  then show ?case
    using board_step_keeps [OF step(2)] board_step_extends [OF step(2)] unfolding extends_log_def by fastforce
qed (use assms(2) in simp_all)

section \<open>A sample run\<close>

definition sample_provisioned :: board where
  "sample_provisioned = empty_board\<lparr>web_participants := [new_participant 5 ''ada'' ''human'' None]\<rparr>"

lemma sample_provisioned_step: "participant_effect ext (Provision 5 ''ada'' ''human'' None) empty_board = sample_provisioned"
proof -
  have "validate_participant_id ''ada'' = Some ''ada''" "validate_source ''human'' = Some ''human''" by code_simp+
  then show ?thesis
    by (simp add: provision_web_participant_identity_def get_web_participant_def normalize_label_def empty_board_def
        sample_provisioned_def)
qed

lemma sample_provisioned_reachable: "reachable ext sample_provisioned"
  using reachable.step [OF reachable.start board_step.participant] sample_provisioned_step by metis

lemma sample_run:
  obtains db' m where "execute_message_intent sample_externals 9 sample_who sample_request sample_provisioned =
      (Inr (ExecCreated m), db')" "reachable sample_externals db'" "messages db' = [m]"
    "r_message_id (receipt_row_of 9 (receipt_of sample_request m)) = m_id m"
    "execution_receipts db' = [receipt_row_of 9 (receipt_of sample_request m)]"
proof -
  have wf: "system_wf sample_externals sample_provisioned"
    by (rule reachable_system_wf [OF sample_provisioned_reachable])
  have ev: "evidence_wf sample_externals sample_provisioned" and gw: "grants_wf sample_provisioned"
    using wf by (simp_all add: system_wf_def policy_wf_def)
  have al: "ad_allowed (decision_of 9 sample_request sample_provisioned)"
    by (simp add: decision_of_def evaluate_cases participant_policy_row_def sample_provisioned_def empty_board_def
        ensure_grant_schema_def create_table_if_not_exists_def new_participant_def sample_request_def sample_caller_def
        implicit_authority_reason_def POST_MESSAGE_CAPABILITY_def capability_names)
  have "\<exists>db'. execute_message_intent sample_externals 9 sample_who sample_request sample_provisioned =
      (Inr (ExecCreated (created_message 9 sample_who sample_request sample_provisioned)), db')"
    by (rule execute_creates [OF ev gw _ al]) (simp_all add: request_bound_def sample_request_def sample_ingress_def
        sample_who_def channel_active_def channel_metadata_def find_navigation_def reply_target_ok_def
        sample_provisioned_def empty_board_def)
  then obtain m db' where ex: "execute_message_intent sample_externals 9 sample_who sample_request sample_provisioned =
      (Inr (ExecCreated m), db')" by blast
  have "board_step sample_externals sample_provisioned db'"
    using board_step.execute [OF sample_described, of sample_externals sample_provisioned 9 sample_who] ex by simp
  then have "reachable sample_externals db'" by (rule reachable.step [OF sample_provisioned_reachable])
  moreover have "messages sample_provisioned = []" "execution_receipts sample_provisioned = []"
    by (simp_all add: sample_provisioned_def empty_board_def)
  ultimately show thesis using that ex created_fields(1,4) [OF ev ex]
    by (simp add: receipt_row_of_def receipt_of_def)
qed

end
