(* ===== verification/Request_Auth.thy ===== *)
theory Request_Auth
  imports Identity
begin

text \<open>
  Who sends a request (\<open>request_auth.rs\<close>): the web session header, the signed request headers and the bearer
  token, resolved to an identity against the board.  A header map is the list of its entries with lower-case
  names.  The process key of the sessions and the clock are the arguments \<open>key\<close> and \<open>now\<close>.
\<close>

type_synonym header_map = "(string \<times> string) list"

definition WEB_SESSION_HEADER :: string where "WEB_SESSION_HEADER = ''x-blackboard-web-session''"

definition PARTICIPANT_ID_HEADER :: string where "PARTICIPANT_ID_HEADER = ''x-blackboard-participant-id''"

definition AUTH_SCHEME_HEADER :: string where "AUTH_SCHEME_HEADER = ''x-blackboard-auth-scheme''"

definition AUTH_PROOF_HEADER :: string where "AUTH_PROOF_HEADER = ''x-blackboard-auth-proof''"

definition AUTHORIZATION_HEADER :: string where "AUTHORIZATION_HEADER = ''authorization''"

text \<open>\<open>HeaderMap::contains_key\<close>, \<open>HeaderMap::get\<close> and \<open>HeaderValue::to_str\<close>, which accepts visible ASCII,
  the space and the tab.\<close>

definition contains_key :: "header_map \<Rightarrow> string \<Rightarrow> bool" where
  "contains_key headers name = (map_of headers name \<noteq> None)"

definition header_to_str :: "string \<Rightarrow> string option" where
  "header_to_str v = (if list_all (\<lambda>c. (CHR 0x20 \<le> c \<and> c < CHR 0x7F) \<or> c = CHR 0x09) v then Some v else None)"

definition header_text :: "header_map \<Rightarrow> string \<Rightarrow> string option" where
  "header_text headers name =
     (case Option.bind (map_of headers name) header_to_str of
        Some v \<Rightarrow> if v = [] then None else Some v
      | None \<Rightarrow> None)"

text \<open>\<open>str::split_once\<close> at a space, and \<open>eq_ignore_ascii_case\<close>.\<close>

definition split_once_space :: "string \<Rightarrow> (string \<times> string) option" where
  "split_once_space s =
     (if CHR '' '' \<in> set s
      then Some (takeWhile (\<lambda>c. c \<noteq> CHR '' '') s, tl (dropWhile (\<lambda>c. c \<noteq> CHR '' '') s)) else None)"

definition eq_ignore_ascii_case :: "string \<Rightarrow> string \<Rightarrow> bool" where
  "eq_ignore_ascii_case s t = (map to_ascii_uppercase s = map to_ascii_uppercase t)"

definition bearer_token :: "header_map \<Rightarrow> string option" where
  "bearer_token headers =
     (case Option.bind (Option.bind (map_of headers AUTHORIZATION_HEADER) header_to_str) split_once_space of
        None \<Rightarrow> None
      | Some (scheme, token) \<Rightarrow>
          if \<not> eq_ignore_ascii_case scheme ''bearer'' \<or> token = [] then None else Some token)"

definition verified_web_session :: "externals \<Rightarrow> bytes \<Rightarrow> nat \<Rightarrow> header_map \<Rightarrow> web_session option" where
  "verified_web_session ext key now headers =
     Option.bind (header_text headers WEB_SESSION_HEADER) (\<lambda>token. verify_web_session_at ext key token now)"

definition resolve_request_identity ::
    "externals \<Rightarrow> bytes \<Rightarrow> nat \<Rightarrow> board \<Rightarrow> header_map \<Rightarrow> identity option" where
  "resolve_request_identity ext key now db headers =
     (if contains_key headers WEB_SESSION_HEADER then
        (case verified_web_session ext key now headers of
           None \<Rightarrow> None
         | Some session \<Rightarrow>
             if ws_session_type session \<noteq> HumanWeb then None
             else get_web_participant db (ws_participant_id session))
      else if contains_key headers PARTICIPANT_ID_HEADER \<or> contains_key headers AUTH_PROOF_HEADER \<or>
              contains_key headers AUTH_SCHEME_HEADER then None
      else (case bearer_token headers of
              None \<Rightarrow> None
            | Some token \<Rightarrow> resolve_identity ext db token))"

definition resolve_request_identity_for_target ::
    "externals \<Rightarrow> bytes \<Rightarrow> nat \<Rightarrow> board \<Rightarrow> header_map \<Rightarrow> string \<Rightarrow> string \<Rightarrow> identity option" where
  "resolve_request_identity_for_target ext key now db headers http_method request_target =
     (if \<not> (contains_key headers AUTH_PROOF_HEADER \<or> contains_key headers AUTH_SCHEME_HEADER)
      then resolve_request_identity ext key now db headers
      else if contains_key headers WEB_SESSION_HEADER then None
      else (case (header_text headers PARTICIPANT_ID_HEADER, header_text headers AUTH_SCHEME_HEADER,
                  header_text headers AUTH_PROOF_HEADER) of
              (Some participant_id, Some scheme, Some proof_text) \<Rightarrow>
                (if scheme \<noteq> AUTH_SCHEME then None
                 else (case get_web_participant_auth db participant_id of
                         None \<Rightarrow> None
                       | Some auth \<Rightarrow>
                           if pa_auth_scheme auth \<noteq> scheme \<or>
                              \<not> verify_http_request_auth ext (pa_auth_secret auth) proof_text participant_id
                                  http_method request_target
                           then None else Some (pa_identity auth)))
            | _ \<Rightarrow> None))"

section \<open>What a resolved identity rests on\<close>

lemma participant_authD:
  assumes "get_web_participant_auth db p = Some auth"
  obtains r where "r \<in> set (web_participants db)" "p_participant_id r = p" "p_status r = ''active''"
    "pa_identity auth = identity_of_participant r" "p_auth_scheme r = Some (pa_auth_scheme auth)"
    "p_auth_secret r = Some (pa_auth_secret auth)"
  using assms by (auto simp: get_web_participant_auth_def split: if_splits dest!: find_SomeD)

text \<open>Every resolved identity is backed by one credential.  A request is attributed to an identity only
  on the strength of exactly one mechanism: a verified human-web session of that participant; or a proof, made
  with the secret of an active participant, over this very method and target; or a bearer token whose hash is
  stored for that identity.  A request that mixes a session with proof headers is attributed to nobody.\<close>

theorem resolved_identity_authentic:
  assumes "resolve_request_identity_for_target ext key now db headers http_method target = Some who"
  shows "(\<exists>session. verified_web_session ext key now headers = Some session \<and> ws_session_type session = HumanWeb \<and>
       id_instance who = ws_participant_id session \<and>
       \<not> contains_key headers AUTH_PROOF_HEADER \<and> \<not> contains_key headers AUTH_SCHEME_HEADER) \<or>
    (\<exists>r secret proof_text. r \<in> set (web_participants db) \<and> p_participant_id r = id_instance who \<and>
       p_status r = ''active'' \<and> p_auth_secret r = Some secret \<and>
       header_text headers PARTICIPANT_ID_HEADER = Some (id_instance who) \<and>
       header_text headers AUTH_PROOF_HEADER = Some proof_text \<and>
       verify_http_request_auth ext secret proof_text (id_instance who) http_method target \<and>
       \<not> contains_key headers WEB_SESSION_HEADER) \<or>
    (\<exists>row token. bearer_token headers = Some token \<and> row \<in> set (identities db) \<and> i_instance row = id_instance who \<and>
       i_token_hash row = Some (hash_token ext token) \<and> \<not> contains_key headers WEB_SESSION_HEADER \<and>
       \<not> contains_key headers PARTICIPANT_ID_HEADER \<and> \<not> contains_key headers AUTH_PROOF_HEADER \<and>
       \<not> contains_key headers AUTH_SCHEME_HEADER)"
proof (cases "contains_key headers AUTH_PROOF_HEADER \<or> contains_key headers AUTH_SCHEME_HEADER")
  case True
  obtain scheme proof_text auth p where h: "header_text headers PARTICIPANT_ID_HEADER = Some p"
      "header_text headers AUTH_PROOF_HEADER = Some proof_text" "\<not> contains_key headers WEB_SESSION_HEADER"
    and auth: "get_web_participant_auth db p = Some auth" "pa_identity auth = who"
      "verify_http_request_auth ext (pa_auth_secret auth) proof_text p http_method target"
    using assms True unfolding resolve_request_identity_for_target_def
    by (auto split: if_splits option.splits)
  obtain r where "r \<in> set (web_participants db)" "p_participant_id r = p" "p_status r = ''active''"
    "pa_identity auth = identity_of_participant r" "p_auth_secret r = Some (pa_auth_secret auth)"
    by (rule participant_authD [OF auth(1)])
  with h auth(2,3) show ?thesis by (auto simp: identity_of_participant_def)
next
  case False
  then have r: "resolve_request_identity ext key now db headers = Some who"
    using assms by (simp add: resolve_request_identity_for_target_def)
  show ?thesis
  proof (cases "contains_key headers WEB_SESSION_HEADER")
    case True
    then obtain session where s: "verified_web_session ext key now headers = Some session"
        "ws_session_type session = HumanWeb" "get_web_participant db (ws_participant_id session) = Some who"
      using r by (auto simp: resolve_request_identity_def split: option.splits if_splits)
    then have "id_instance who = ws_participant_id session"
      by (auto simp: get_web_participant_def identity_of_participant_def dest!: find_SomeD)
    with s False show ?thesis by blast
  next
    case no_session: False
    obtain token where t: "bearer_token headers = Some token" "resolve_identity ext db token = Some who"
        "\<not> contains_key headers PARTICIPANT_ID_HEADER"
      using r False no_session by (auto simp: resolve_request_identity_def split: option.splits if_splits)
    then obtain row where "row \<in> set (identities db)" "i_instance row = id_instance who"
        "i_token_hash row = Some (hash_token ext token)"
      by (auto simp: resolve_identity_def identity_of_row_def split: if_splits dest!: find_SomeD)
    with t False no_session show ?thesis by blast
  qed
qed

definition sample_token_board :: board where
  "sample_token_board = empty_board\<lparr>identities := [\<lparr>i_instance = ''bot-1'', i_source = ''bot'', i_label = None,
     i_token_hash = Some (hash_token sample_externals ''t''), i_created_at = 5\<rparr>]\<rparr>"

theorem resolved_identity_authentic_witness:
  "\<exists>who row. resolve_request_identity_for_target sample_externals [] 9 sample_token_board
       [(''authorization'', ''Bearer t'')] ''GET'' ''/api/messages'' = Some who \<and>
     row \<in> set (identities sample_token_board) \<and> i_token_hash row = Some (hash_token sample_externals ''t'')"
proof -
  let ?h = "[(''authorization'', ''Bearer t'')]"
  have h: "\<not> contains_key ?h WEB_SESSION_HEADER" "\<not> contains_key ?h PARTICIPANT_ID_HEADER"
    "\<not> contains_key ?h AUTH_PROOF_HEADER" "\<not> contains_key ?h AUTH_SCHEME_HEADER" "bearer_token ?h = Some ''t''"
    "header_text ?h PARTICIPANT_ID_HEADER = None" "header_text ?h WEB_SESSION_HEADER = None"
    by code_simp+
  have "resolve_identity sample_externals sample_token_board ''t'' =
      Some \<lparr>id_source = ''bot'', id_instance = ''bot-1'', id_label = None\<rparr>"
    by (simp add: resolve_identity_def sample_token_board_def identity_of_row_def)
  then have r: "resolve_request_identity_for_target sample_externals [] 9 sample_token_board ?h ''GET'' ''/api/messages'' =
      Some \<lparr>id_source = ''bot'', id_instance = ''bot-1'', id_label = None\<rparr>"
    using h by (simp add: resolve_request_identity_for_target_def resolve_request_identity_def)
  have "verified_web_session sample_externals [] 9 ?h = None" using h(7) by (simp add: verified_web_session_def)
  then show ?thesis using resolved_identity_authentic [OF r] r h by auto
qed

lemma inactive_rows:
  assumes "set_web_participant_status clock p ''inactive'' db = (Inr True, db')"
    and y: "y \<in> set (web_participants db')" "p_participant_id y = p"
  shows "p_status y \<noteq> ''active''"
proof -
  let ?f = "\<lambda>r. r\<lparr>p_status := ''inactive'', p_updated_at := clock\<rparr>"
  have d: "web_participants db' = sql_update (\<lambda>r. p_participant_id r = p) ?f (web_participants db)"
    using assms(1) by (auto simp: set_web_participant_status_def update_participant_def Let_def split: if_splits)
  obtain r0 where r0: "y = (if p_participant_id r0 = p then ?f r0 else r0)"
    using y(1) unfolding d set_sql_update by blast
  then have "p_participant_id r0 = p" using y(2) by (cases "p_participant_id r0 = p") simp_all
  then show ?thesis using r0 by simp
qed

text \<open>Deactivation does not end a live session.  The status of a participant does not enter the resolution
  of a human-web session: after the participant was set inactive, a request with a session token that is not yet
  expired is still attributed to the participant, although the participant's other credentials are refused.\<close>

lemma deactivated_session_still_resolves:
  assumes "verified_web_session ext key now headers = Some session" and "ws_session_type session = HumanWeb"
    and "set_web_participant_status clock (ws_participant_id session) ''inactive'' db = (Inr True, db')"
  shows "\<exists>who. id_instance who = ws_participant_id session \<and>
    resolve_request_identity ext key now db' headers = Some who \<and>
    get_web_participant_auth db' (ws_participant_id session) = None"
proof -
  let ?p = "ws_participant_id session"
  let ?f = "\<lambda>r. r\<lparr>p_status := ''inactive'', p_updated_at := clock\<rparr>"
  have "contains_key headers WEB_SESSION_HEADER"
    using assms(1) by (auto simp: verified_web_session_def contains_key_def header_text_def bind_eq_Some_conv
        split: option.splits)
  then have res: "resolve_request_identity ext key now db' headers = get_web_participant db' ?p"
    using assms(1,2) by (simp add: resolve_request_identity_def)
  have d: "web_participants db' = sql_update (\<lambda>r. p_participant_id r = ?p) ?f (web_participants db)"
    and n: "sql_count (\<lambda>r. p_participant_id r = ?p) (web_participants db) = 1"
    using assms(3) by (auto simp: set_web_participant_status_def update_participant_def Let_def split: if_splits)
  obtain r where r: "r \<in> set (web_participants db)" "p_participant_id r = ?p"
    using n sql_count_0 [of "\<lambda>r. p_participant_id r = ?p" "web_participants db"] by auto
  have ex: "\<exists>x \<in> set (web_participants db'). p_participant_id x = ?p"
  proof (rule bexI [of _ "?f r"])
    show "?f r \<in> set (web_participants db')"
      unfolding d set_sql_update using r by (intro bexI [of _ r]) simp_all
  qed (use r in simp)
  obtain x where x: "find (\<lambda>r. p_participant_id r = ?p) (web_participants db') = Some x"
  proof (cases "find (\<lambda>r. p_participant_id r = ?p) (web_participants db')")
    case None
    then show thesis using ex unfolding find_None_iff by blast
  qed
  then have "get_web_participant db' ?p = Some (identity_of_participant x)" by (simp add: get_web_participant_def)
  moreover have "id_instance (identity_of_participant x) = ?p"
    using find_SomeD [OF x] by (simp add: identity_of_participant_def)
  moreover have "get_web_participant_auth db' ?p = None"
    using inactive_rows [OF assms(3)] by (auto simp: get_web_participant_auth_def find_None_iff)
  ultimately show ?thesis using res by simp
qed

section \<open>Sample sessions\<close>

lemma header_to_str_append [simp]:
  "header_to_str s = Some s \<Longrightarrow> header_to_str t = Some t \<Longrightarrow> header_to_str (s @ t) = Some (s @ t)"
  by (simp add: header_to_str_def split: if_splits)

lemma header_to_str_hex: "header_to_str (hex bs) = Some (hex bs)"
proof -
  have "(CHR 0x20 \<le> hex_digit n \<and> hex_digit n < CHR 0x7F)" if "n < 16" for n
    using that by (auto simp: hex_digit_def ascii_simps)
  then have "list_all (\<lambda>c. (CHR 0x20 \<le> c \<and> c < CHR 0x7F) \<or> c = CHR 0x09) (hex_byte b)" for b
    using hex_byte_bounds [of b] by (simp add: hex_byte_def)
  then have "list_all (\<lambda>c. (CHR 0x20 \<le> c \<and> c < CHR 0x7F) \<or> c = CHR 0x09) (hex bs)"
    by (induction bs) (simp_all add: hex_def)
  then show ?thesis by (simp add: header_to_str_def)
qed

lemma sample_session:
  fixes key :: bytes and p :: string and t0 :: nat and kind :: web_session_kind and ext :: externals
  defines "s \<equiv> issue_web_session_at ext key p kind t0"
  assumes ext: "json_faithful ext" "base64_faithful ext" "b64_encode ext = hex" and "p \<noteq> []" "length p \<le> 64" "kind = Guest \<longrightarrow> p = GUEST_PARTICIPANT_ID" "t0 + 28800 < 2 ^ 64"
  shows "verified_web_session ext key t0 [(WEB_SESSION_HEADER, ws_token s)] = Some s"
    and "ws_participant_id s = p" and "ws_session_type s = kind"
proof -
  note f = issued_fields [of ext key p kind t0, folded s_def]
  show "ws_participant_id s = p" "ws_session_type s = kind" using f by simp_all
  have e: "ws_expires_at s = t0 + 28800"
    using f assms(8) by (simp add: saturating_add_u64_def WEB_SESSION_TTL_SECS_def u64_max_def)
  have "verify_web_session_at ext key (ws_token s) t0 =
      session_from_payload (JObj (session_fields p kind (ws_expires_at s))) (ws_token s) t0"
    by (rule verify_issued [OF ext(1,2)]) (simp add: s_def)
  also have "\<dots> = Some \<lparr>ws_participant_id = p, ws_session_type = kind, ws_expires_at = ws_expires_at s, ws_token = ws_token s\<rparr>"
    using payload_accepted [OF _ assms(5,6,7), of "ws_expires_at s" "ws_token s" t0] assms(8) by (simp add: e)
  also have "\<dots> = Some s" using f by (cases s) simp
  finally have v: "verify_web_session_at ext key (ws_token s) t0 = Some s" .
  have t: "header_to_str (ws_token s) = Some (ws_token s)"
  proof -
    have c: "header_to_str WEB_SESSION_PREFIX = Some WEB_SESSION_PREFIX" "header_to_str ''.'' = Some ''.''"
      by code_simp+
    show ?thesis using c header_to_str_hex
      by (simp add: s_def issue_web_session_at_def ext(3) Let_def del: append.simps)
  qed
  have "ws_token s \<noteq> []" by (simp add: s_def issue_web_session_at_def Let_def WEB_SESSION_PREFIX_def)
  then show "verified_web_session ext key t0 [(WEB_SESSION_HEADER, ws_token s)] = Some s"
    using v t by (simp add: verified_web_session_def header_text_def)
qed

end
