(* ===== verification/Http.thy ===== *)
theory Http
  imports Request_Auth Execution Authorization_Admin
begin

text \<open>
  The HTTP handlers (\<open>http.rs\<close>): validation of the request, the identity it acts for, the calls of the other
  components in the order of the handler, and the JSON or text of the answer.

  A handler is a function of the board and returns the answer with the new board; an \<open>Err\<close> of \<open>ApiError\<close> is
  \<open>Inl (status, code)\<close>.  The board changes a handler made before it failed stay.  Routing, static assets and the
  fixed security headers are not modelled.  The arguments \<open>ext\<close>, \<open>key\<close>, \<open>unix\<close> and \<open>now\<close> are the external codecs,
  the process key of the sessions, the clock in seconds and the time stamp of new rows; the query parameters are
  the pairs \<open>form_urlencoded::parse\<close> returned.
\<close>

section \<open>Errors\<close>

type_synonym api_error = "nat \<times> string"

type_synonym 'a api = "api_error + 'a"

definition unauthorized :: api_error where "unauthorized = (401, ''unauthorized'')"

definition forbidden :: api_error where "forbidden = (403, ''forbidden'')"

definition bad_request :: "string \<Rightarrow> api_error" where "bad_request code = (400, code)"

definition request_too_large :: api_error where "request_too_large = (413, ''request_too_large'')"

definition database :: api_error where "database = (503, ''database_unavailable'')"

definition with_db :: "'a sql_result \<Rightarrow> 'a api" where
  "with_db r = (case r of Inl _ \<Rightarrow> Inl database | Inr x \<Rightarrow> Inr x)"

definition ok_or :: "api_error \<Rightarrow> 'a option \<Rightarrow> 'a api" where
  "ok_or e x = (case x of None \<Rightarrow> Inl e | Some v \<Rightarrow> Inr v)"

definition MAX_BODY_BYTES :: nat where "MAX_BODY_BYTES = 64 * 1024"

definition MAX_PAGE_SIZE :: nat where "MAX_PAGE_SIZE = 200"

section \<open>Names and numbers\<close>

definition name_re :: "string \<Rightarrow> bool" where "name_re = name_shape ''._:/-'' 127"

definition kind_re :: "string \<Rightarrow> bool" where "kind_re = name_shape ''._-'' 31"

definition nonce_re :: "string \<Rightarrow> bool" where "nonce_re = name_shape ''._~-'' 127"

text \<open>\<open>str::parse\<close> of integers: an optional sign, then digits, in the range of the type.\<close>

definition digits_value :: "string \<Rightarrow> int" where
  "digits_value s = fold (\<lambda>c n. 10 * n + (int (of_char c) - 48)) s 0"

definition parse_digits :: "string \<Rightarrow> int option" where
  "parse_digits s = (if s = [] \<or> \<not> list_all is_ascii_digit s then None else Some (digits_value s))"

definition parse_i64 :: "string \<Rightarrow> int option" where
  "parse_i64 s =
     (let negative = (s \<noteq> [] \<and> hd s = CHR ''-'');
          digits = (if s \<noteq> [] \<and> hd s \<in> {CHR ''-'', CHR ''+''} then tl s else s)
      in case parse_digits digits of
           None \<Rightarrow> None
         | Some n \<Rightarrow>
             (let v = (if negative then - n else n) in
              if - (2 ^ 63) \<le> v \<and> v < 2 ^ 63 then Some v else None))"

definition parse_usize :: "string \<Rightarrow> nat option" where
  "parse_usize s =
     (let digits = (if s \<noteq> [] \<and> hd s = CHR ''+'' then tl s else s)
      in case parse_digits digits of None \<Rightarrow> None | Some n \<Rightarrow> if n < 2 ^ 64 then Some (nat n) else None)"

section \<open>Query parameters\<close>

text \<open>The first non-empty value of every key.\<close>

definition first_query_values :: "(string \<times> string) list \<Rightarrow> (string \<times> string) list" where
  "first_query_values query =
     fold (\<lambda>(k, v) values. if v = [] \<or> map_of values k \<noteq> None then values else values @ [(k, v)]) query []"

definition parse_after :: "(string \<times> string) list \<Rightarrow> int api" where
  "parse_after params =
     (case parse_i64 (case map_of params ''after'' of Some v \<Rightarrow> v | None \<Rightarrow> ''0'') of
        None \<Rightarrow> Inl (bad_request ''invalid_query'')
      | Some after \<Rightarrow> if after < 0 then Inl (bad_request ''invalid_query'') else Inr after)"

definition parse_limit :: "(string \<times> string) list \<Rightarrow> nat \<Rightarrow> nat api" where
  "parse_limit params default_limit =
     (case parse_usize (case map_of params ''limit'' of Some v \<Rightarrow> v
             | None \<Rightarrow> if default_limit = 50 then ''50'' else ''100'') of
        None \<Rightarrow> Inl (bad_request ''invalid_query'')
      | Some limit \<Rightarrow>
          if \<not> (1 \<le> limit \<and> limit \<le> MAX_PAGE_SIZE) then Inl (bad_request ''invalid_query'') else Inr limit)"

definition parse_channel_after_name :: "(string \<times> string) list \<Rightarrow> string option api" where
  "parse_channel_after_name params =
     (case map_of params ''after_name'' of
        None \<Rightarrow> Inr None
      | Some v \<Rightarrow> if name_re v then Inr (Some v) else Inl (bad_request ''invalid_query''))"

definition parse_channel_directory_limit :: "(string \<times> string) list \<Rightarrow> nat api" where
  "parse_channel_directory_limit params =
     (case parse_usize (case map_of params ''limit'' of Some v \<Rightarrow> v | None \<Rightarrow> ''20'') of
        None \<Rightarrow> Inl (bad_request ''invalid_query'')
      | Some limit \<Rightarrow>
          if \<not> (1 \<le> limit \<and> limit \<le> max_channel_directory_window_size)
          then Inl (bad_request ''invalid_query'') else Inr limit)"

definition parse_reply_to :: "(string \<times> string) list \<Rightarrow> int option api" where
  "parse_reply_to params =
     (case map_of params ''reply_to'' of
        None \<Rightarrow> Inr None
      | Some v \<Rightarrow>
          (case parse_i64 v of
             Some i \<Rightarrow> if 0 < i then Inr (Some i) else Inl (bad_request ''invalid_reply_to'')
           | None \<Rightarrow> Inl (bad_request ''invalid_reply_to'')))"

section \<open>JSON bodies\<close>

type_synonym json_map = "(string \<times> json) list"

definition as_i64 :: "json \<Rightarrow> int option" where
  "as_i64 v = (case v of JInt i \<Rightarrow> if - (2 ^ 63) \<le> i \<and> i < 2 ^ 63 then Some i else None | _ \<Rightarrow> None)"

definition as_object :: "json \<Rightarrow> json_map option" where
  "as_object v = (case v of JObj entries \<Rightarrow> Some entries | _ \<Rightarrow> None)"

definition read_json_object :: "externals \<Rightarrow> bytes \<Rightarrow> json_map api" where
  "read_json_object ext body =
     (if MAX_BODY_BYTES < length body then Inl request_too_large
      else if body = [] then Inl (bad_request ''invalid_json'')
      else case json_from_slice ext body of
             None \<Rightarrow> Inl (bad_request ''invalid_json'')
           | Some v \<Rightarrow> ok_or (bad_request ''invalid_json'') (as_object v))"

definition only_keys :: "json_map \<Rightarrow> string list \<Rightarrow> bool" where
  "only_keys entries allowed = list_all (\<lambda>(k, _). k \<in> set allowed) entries"

text \<open>\<open>body.get(key).and_then(Value::as_str).filter(valid)\<close>.\<close>

definition text_field :: "json_map \<Rightarrow> string \<Rightarrow> (string \<Rightarrow> bool) \<Rightarrow> string option" where
  "text_field body name valid =
     (case Option.bind (map_of body name) as_str of
        Some v \<Rightarrow> if valid v then Some v else None
      | None \<Rightarrow> None)"

text \<open>The fields of a message, validated in this order by both handlers that read them from a body.\<close>

definition kind_field :: "json_map \<Rightarrow> string api" where
  "kind_field body =
     (case map_of body ''kind'' of
        None \<Rightarrow> Inr ''message''
      | Some (JStr v) \<Rightarrow> if kind_re v then Inr v else Inl (bad_request ''invalid_kind'')
      | Some _ \<Rightarrow> Inl (bad_request ''invalid_kind''))"

definition reply_to_field :: "json_map \<Rightarrow> int option api" where
  "reply_to_field body =
     (case map_of body ''reply_to'' of
        None \<Rightarrow> Inr None
      | Some JNull \<Rightarrow> Inr None
      | Some v \<Rightarrow>
          (case as_i64 v of
             Some i \<Rightarrow> if 0 < i then Inr (Some i) else Inl (bad_request ''invalid_reply_to'')
           | None \<Rightarrow> Inl (bad_request ''invalid_reply_to'')))"

record message_fields =
  mf_channel :: string
  mf_kind :: string
  mf_body :: string
  mf_reply_to :: "int option"

definition read_message_fields :: "json_map \<Rightarrow> message_fields api" where
  "read_message_fields body =
     try_bind (ok_or (bad_request ''invalid_channel'') (text_field body ''channel'' name_re)) (\<lambda>channel.
     try_bind (kind_field body) (\<lambda>kind.
     try_bind (ok_or (bad_request ''invalid_body'') (text_field body ''body'' (\<lambda>v. \<not> blank v))) (\<lambda>message_body.
     if MAX_BODY_BYTES < length message_body then Inl request_too_large
     else try_bind (reply_to_field body) (\<lambda>reply_to.
       Inr \<lparr>mf_channel = channel, mf_kind = kind, mf_body = message_body, mf_reply_to = reply_to\<rparr>))))"

section \<open>JSON answers\<close>

type_synonym response = "nat \<times> json"

definition json_object :: "(string \<times> json) list \<Rightarrow> json" where
  "json_object pairs = JObj (btree_of pairs)"

definition message_json :: "message \<Rightarrow> json" where
  "message_json m = json_object
     [(''id'', JInt (m_id m)), (''created_at'', JInt (m_created_at m)), (''channel'', JStr (m_channel m)),
      (''source'', JStr (m_source m)), (''instance'', JStr (m_instance m)),
      (''conversation_ref'', json_opt JStr (m_conversation_ref m)), (''kind'', JStr (m_kind m)),
      (''body'', JStr (m_body m)), (''reply_to'', json_opt JInt (m_reply_to m))]"

definition channel_metadata_json :: "channel_row \<Rightarrow> json" where
  "channel_metadata_json c = json_object
     [(''channel'', JStr (c_name c)), (''visibility'', JStr (c_visibility c)), (''status'', JStr (c_status c)),
      (''created_at'', JInt (c_created_at c)), (''updated_at'', JInt (c_updated_at c)),
      (''created_by'', json_opt JStr (c_created_by c))]"

definition channel_summary_json :: "channel_summary \<Rightarrow> json" where
  "channel_summary_json s = json_object
     [(''channel'', JStr (s_channel s)), (''message_count'', JInt (int (s_message_count s))),
      (''last_id'', JInt (s_last_id s)), (''visibility'', JStr (s_visibility s)), (''status'', JStr (s_status s)),
      (''created_at'', JInt (s_created_at s)), (''updated_at'', JInt (s_updated_at s)),
      (''created_by'', json_opt JStr (s_created_by s))]"

definition identity_json :: "identity \<Rightarrow> string \<Rightarrow> string \<Rightarrow> json" where
  "identity_json who role session_type = json_object
     [(''source'', JStr (id_source who)), (''instance'', JStr (id_instance who)),
      (''label'', json_opt JStr (id_label who)), (''role'', JStr role), (''session_type'', JStr session_type)]"

definition session_json :: "string \<Rightarrow> string \<Rightarrow> string option \<Rightarrow> string \<Rightarrow> web_session \<Rightarrow> json" where
  "session_json source instance_id label role session = json_object
     [(''source'', JStr source), (''instance'', JStr instance_id), (''label'', json_opt JStr label),
      (''role'', JStr role), (''session_type'', JStr (web_session_kind_as_str (ws_session_type session))),
      (''session_token'', JStr (ws_token session)), (''expires_at'', JInt (int (ws_expires_at session)))]"

section \<open>Who may read, and who is admin\<close>

datatype read_access = GuestAccess | ParticipantAccess identity

definition require_identity :: "externals \<Rightarrow> bytes \<Rightarrow> nat \<Rightarrow> board \<Rightarrow> header_map \<Rightarrow> identity api" where
  "require_identity ext key unix db headers = ok_or unauthorized (resolve_request_identity ext key unix db headers)"

definition require_identity_for_target ::
    "externals \<Rightarrow> bytes \<Rightarrow> nat \<Rightarrow> board \<Rightarrow> header_map \<Rightarrow> string \<Rightarrow> string \<Rightarrow> identity api" where
  "require_identity_for_target ext key unix db headers http_method request_target =
     ok_or unauthorized (resolve_request_identity_for_target ext key unix db headers http_method request_target)"

definition require_read_access_for_target ::
    "externals \<Rightarrow> bytes \<Rightarrow> nat \<Rightarrow> board \<Rightarrow> header_map \<Rightarrow> string \<Rightarrow> string \<Rightarrow> read_access api" where
  "require_read_access_for_target ext key unix db headers http_method request_target =
     (case verified_web_session ext key unix headers of
        Some session \<Rightarrow>
          (case ws_session_type session of
             Guest \<Rightarrow> Inr GuestAccess
           | HumanWeb \<Rightarrow>
               try_bind (ok_or unauthorized (get_web_participant db (ws_participant_id session)))
                 (\<lambda>who. Inr (ParticipantAccess who)))
      | None \<Rightarrow>
          try_bind (require_identity_for_target ext key unix db headers http_method request_target)
            (\<lambda>who. Inr (ParticipantAccess who)))"

definition require_human_admin :: "externals \<Rightarrow> bytes \<Rightarrow> nat \<Rightarrow> board \<Rightarrow> header_map \<Rightarrow> identity api" where
  "require_human_admin ext key unix db headers =
     try_bind (ok_or unauthorized (verified_web_session ext key unix headers)) (\<lambda>session.
     if ws_session_type session \<noteq> HumanWeb then Inl forbidden
     else try_bind (ok_or unauthorized (get_web_participant db (ws_participant_id session))) (\<lambda>who.
       if get_web_participant_role db (ws_participant_id session) \<noteq> Some ''admin'' then Inl forbidden
       else Inr who))"

section \<open>Reading\<close>

text \<open>\<open>serde_json::to_string\<close> of a message: the fields in the order of the struct.\<close>

definition text_of_bytes :: "bytes \<Rightarrow> string" where
  "text_of_bytes bs = map (\<lambda>b. char_of (unat b)) bs"

definition message_to_string :: "externals \<Rightarrow> message \<Rightarrow> string" where
  "message_to_string ext m = text_of_bytes (json_to_vec ext (JObj
     [(''id'', JInt (m_id m)), (''created_at'', JInt (m_created_at m)), (''channel'', JStr (m_channel m)),
      (''source'', JStr (m_source m)), (''instance'', JStr (m_instance m)),
      (''conversation_ref'', json_opt JStr (m_conversation_ref m)), (''kind'', JStr (m_kind m)),
      (''body'', JStr (m_body m)), (''reply_to'', json_opt JInt (m_reply_to m))]))"

definition newline :: string where "newline = [CHR 0x0A]"

definition navigation_read ::
    "externals \<Rightarrow> string \<Rightarrow> (string \<times> string) list \<Rightarrow> board \<Rightarrow> (nat \<times> string) api" where
  "navigation_read ext channel query db =
     (if \<not> name_re channel then Inl (bad_request ''invalid_channel'')
      else let params = first_query_values query in
        try_bind (parse_after params) (\<lambda>after.
        try_bind (parse_limit params 50) (\<lambda>limit.
        if \<not> channel_is_public_active db channel then Inl (404, ''channel_not_found'')
        else let rows = list_messages_after db after (Some channel) limit;
                 latest_id = (if rows = [] then after else m_id (last rows))
             in Inr (200, ''conversation-blackboard read'' @ newline @ ''channel: '' @ channel @ newline @
                  ''after: '' @ int_to_string after @ newline @ ''count: '' @ dec (length rows) @ newline @
                  ''latest_id: '' @ int_to_string latest_id @ newline @
                  concat (map (\<lambda>row. newline @ message_to_string ext row @ newline) rows)))))"

text \<open>The handler of \<open>GET /api/messages\<close>.\<close>

definition messages_handler ::
    "externals \<Rightarrow> bytes \<Rightarrow> nat \<Rightarrow> header_map \<Rightarrow> string \<Rightarrow> (string \<times> string) list \<Rightarrow> board \<Rightarrow> response api" where
  "messages_handler ext key unix headers request_target query db =
     try_bind (require_read_access_for_target ext key unix db headers ''GET'' request_target) (\<lambda>access.
     let params = first_query_values query in
     try_bind (parse_after params) (\<lambda>after.
     try_bind (parse_limit params 100) (\<lambda>limit.
     let channel = map_of params ''channel'' in
     if (case channel of Some c \<Rightarrow> \<not> name_re c | None \<Rightarrow> False) then Inl (bad_request ''invalid_channel'')
     else if access = GuestAccess \<and> channel = None then Inl (bad_request ''guest_requires_channel'')
     else if access = GuestAccess \<and> (case channel of Some c \<Rightarrow> \<not> channel_is_public_active db c | None \<Rightarrow> False)
     then Inl forbidden
     else Inr (200, json_object [(''messages'',
       JArr (map message_json (list_messages_after db after channel limit)))]))))"

definition directory_json :: "channel_summary list \<times> bool \<Rightarrow> response" where
  "directory_json window = (200, json_object
     [(''channels'', JArr (map channel_summary_json (fst window))), (''has_more'', JBool (snd window))])"

text \<open>The handlers of \<open>GET /api/channels\<close> and \<open>GET /api/admin/channels\<close>.\<close>

definition channels_handler ::
    "externals \<Rightarrow> bytes \<Rightarrow> nat \<Rightarrow> header_map \<Rightarrow> string \<Rightarrow> (string \<times> string) list \<Rightarrow> board \<Rightarrow> response api" where
  "channels_handler ext key unix headers request_target query db =
     try_bind (require_read_access_for_target ext key unix db headers ''GET'' request_target) (\<lambda>access.
     let params = first_query_values query in
     try_bind (parse_channel_after_name params) (\<lambda>after_name.
     try_bind (parse_channel_directory_limit params) (\<lambda>limit.
     try_bind (with_db (read_channel_directory_window db after_name (Some limit) (access = GuestAccess)))
       (\<lambda>window. Inr (directory_json window)))))"

definition admin_channels ::
    "externals \<Rightarrow> bytes \<Rightarrow> nat \<Rightarrow> header_map \<Rightarrow> (string \<times> string) list \<Rightarrow> board \<Rightarrow> response api" where
  "admin_channels ext key unix headers query db =
     try_bind (require_human_admin ext key unix db headers) (\<lambda>_.
     let params = first_query_values query in
     try_bind (parse_channel_after_name params) (\<lambda>after_name.
     try_bind (parse_channel_directory_limit params) (\<lambda>limit.
     try_bind (with_db (read_channel_directory_window db after_name (Some limit) False))
       (\<lambda>window. Inr (directory_json window)))))"

definition whoami :: "externals \<Rightarrow> bytes \<Rightarrow> nat \<Rightarrow> header_map \<Rightarrow> board \<Rightarrow> response api" where
  "whoami ext key unix headers db =
     (case verified_web_session ext key unix headers of
        Some session \<Rightarrow>
          (if ws_session_type session = Guest then
             Inr (200, json_object [(''source'', JStr ''anonymous''), (''instance'', JStr GUEST_PARTICIPANT_ID),
               (''label'', JStr ''Guest''), (''role'', JStr ''guest''), (''session_type'', JStr ''guest'')])
           else try_bind (ok_or unauthorized (get_web_participant db (ws_participant_id session))) (\<lambda>who.
             Inr (200, identity_json who
               (case get_web_participant_role db (ws_participant_id session) of Some role \<Rightarrow> role | None \<Rightarrow> ''user'')
               ''human-web'')))
      | None \<Rightarrow>
          try_bind (require_identity ext key unix db headers) (\<lambda>who. Inr (200, identity_json who ''user'' ''client'')))"

section \<open>Signing in and registering\<close>

definition auth_totp ::
    "externals \<Rightarrow> bytes \<Rightarrow> nat \<Rightarrow> int \<Rightarrow> bytes \<Rightarrow> board \<Rightarrow> response api \<times> board" where
  "auth_totp ext key unix now request db =
     (case read_json_object ext request of
        Inl e \<Rightarrow> (Inl e, db)
      | Inr body \<Rightarrow>
          if \<not> only_keys body [''participant_id'', ''code''] then (Inl (bad_request ''invalid_auth''), db)
          else (case Option.bind (Option.bind (map_of body ''participant_id'') as_str) validate_participant_id of
            None \<Rightarrow> (Inl (bad_request ''invalid_participant_id''), db)
          | Some participant_id \<Rightarrow>
              (case text_field body ''code'' (\<lambda>v. length v = TOTP_DIGITS \<and> list_all is_ascii_digit v) of
                 None \<Rightarrow> (Inl (bad_request ''invalid_auth''), db)
               | Some code \<Rightarrow>
                   (case authenticate_web_totp ext now participant_id code unix db of
                      (None, db') \<Rightarrow> (Inl unauthorized, db')
                    | (Some verified, db') \<Rightarrow>
                        (Inr (200, session_json (id_source verified) (id_instance verified) (id_label verified)
                           (case get_web_participant_role db' participant_id of Some role \<Rightarrow> role | None \<Rightarrow> ''user'')
                           (issue_web_session_at ext key participant_id HumanWeb unix)), db')))))"

definition auth_guest :: "externals \<Rightarrow> bytes \<Rightarrow> nat \<Rightarrow> response" where
  "auth_guest ext key unix =
     (200, session_json ''anonymous'' GUEST_PARTICIPANT_ID (Some ''Guest'') ''guest''
        (issue_web_session_at ext key GUEST_PARTICIPANT_ID Guest unix))"

text \<open>Equality of the digests, compared in constant time.\<close>

definition constant_time_text_eq :: "externals \<Rightarrow> string \<Rightarrow> string \<Rightarrow> bool" where
  "constant_time_text_eq ext expected supplied = (sha256 ext (as_bytes expected) = sha256 ext (as_bytes supplied))"

text \<open>The draws are the random instance ids and tokens; \<open>registration_key\<close> comes from the configuration.  When every draw
  collides \<open>register_identity\<close> fails and the answer is \<open>database_unavailable\<close>.\<close>

definition register ::
    "externals \<Rightarrow> int \<Rightarrow> string option \<Rightarrow> (string \<times> string) list \<Rightarrow> header_map \<Rightarrow> bytes \<Rightarrow> board
     \<Rightarrow> response api \<times> board" where
  "register ext now registration_key draws headers request db =
     (case (case registration_key of Some k \<Rightarrow> if k = [] then None else Some k | None \<Rightarrow> None) of
        None \<Rightarrow> (Inl unauthorized, db)
      | Some expected \<Rightarrow>
          (case Option.bind (map_of headers ''x-registration-key'') header_to_str of
             None \<Rightarrow> (Inl unauthorized, db)
           | Some supplied \<Rightarrow>
               if \<not> constant_time_text_eq ext expected supplied then (Inl unauthorized, db)
               else (case read_json_object ext request of
                 Inl e \<Rightarrow> (Inl e, db)
               | Inr body \<Rightarrow>
                   (case map_of body ''source'' of
                      Some (JStr source) \<Rightarrow>
                        (case (case map_of body ''label'' of
                                 None \<Rightarrow> Some None
                               | Some JNull \<Rightarrow> Some None
                               | Some (JStr v) \<Rightarrow> if char_count v \<le> 256 then Some (Some v) else None
                               | Some _ \<Rightarrow> None) of
                           None \<Rightarrow> (Inl (bad_request ''invalid_label''), db)
                         | Some label \<Rightarrow>
                             if validate_source source = None \<or> isl (normalize_label label)
                             then (Inl (bad_request ''invalid_registration''), db)
                             else (case register_identity ext now source label draws db of
                                 (Inr (Some (who, token)), db') \<Rightarrow>
                                   (Inr (201, json_object [(''source'', JStr (id_source who)),
                                      (''instance'', JStr (id_instance who)), (''label'', json_opt JStr (id_label who)),
                                      (''token'', JStr token)]), db')
                               | (_, db') \<Rightarrow> (Inl database, db')))
                    | _ \<Rightarrow> (Inl (bad_request ''invalid_source''), db)))))"

section \<open>Administering channels\<close>

definition visibility_field :: "json_map \<Rightarrow> string option api" where
  "visibility_field body =
     (case map_of body ''visibility'' of
        None \<Rightarrow> Inr None
      | Some (JStr v) \<Rightarrow>
          if v \<in> {''public'', ''private''} then Inr (Some v) else Inl (bad_request ''invalid_visibility'')
      | Some _ \<Rightarrow> Inl (bad_request ''invalid_visibility''))"

definition status_field :: "json_map \<Rightarrow> string option api" where
  "status_field body =
     (case map_of body ''status'' of
        None \<Rightarrow> Inr None
      | Some (JStr v) \<Rightarrow>
          if v \<in> {''active'', ''archived''} then Inr (Some v) else Inl (bad_request ''invalid_status'')
      | Some _ \<Rightarrow> Inl (bad_request ''invalid_status''))"

definition channel_answer :: "nat \<Rightarrow> api_error \<Rightarrow> string \<Rightarrow> board \<Rightarrow> response api" where
  "channel_answer status e channel db =
     try_bind (ok_or e (channel_metadata db channel)) (\<lambda>c.
       Inr (status, json_object [(''channel'', channel_metadata_json c)]))"

definition read_channel_creation ::
    "externals \<Rightarrow> bytes \<Rightarrow> nat \<Rightarrow> header_map \<Rightarrow> bytes \<Rightarrow> board \<Rightarrow> (identity \<times> string \<times> string option) api" where
  "read_channel_creation ext key unix headers request db =
     try_bind (require_human_admin ext key unix db headers) (\<lambda>admin.
     try_bind (read_json_object ext request) (\<lambda>body.
     if \<not> only_keys body [''name'', ''visibility''] then Inl (bad_request ''invalid_arguments'')
     else try_bind (ok_or (bad_request ''invalid_channel'') (text_field body ''name'' name_re)) (\<lambda>channel.
       try_bind (visibility_field body) (\<lambda>visibility. Inr (admin, channel, visibility)))))"

definition admin_create_channel ::
    "externals \<Rightarrow> bytes \<Rightarrow> nat \<Rightarrow> int \<Rightarrow> header_map \<Rightarrow> bytes \<Rightarrow> board \<Rightarrow> response api \<times> board" where
  "admin_create_channel ext key unix now headers request db =
     (case read_channel_creation ext key unix headers request db of
        Inl e \<Rightarrow> (Inl e, db)
      | Inr (admin, channel, visibility) \<Rightarrow>
          (case create_channel now channel (case visibility of Some v \<Rightarrow> v | None \<Rightarrow> ''private'')
                  (Some (id_instance admin)) db of
             (created, db') \<Rightarrow>
               (if \<not> created then (Inl (409, ''channel_exists''), db')
                else (channel_answer 201 (409, ''channel_exists'') channel db', db'))))"

definition read_channel_update ::
    "externals \<Rightarrow> bytes \<Rightarrow> nat \<Rightarrow> header_map \<Rightarrow> string \<Rightarrow> bytes \<Rightarrow> board \<Rightarrow> (string option \<times> string option) api" where
  "read_channel_update ext key unix headers channel request db =
     try_bind (require_human_admin ext key unix db headers) (\<lambda>_.
     if \<not> name_re channel then Inl (bad_request ''invalid_channel'')
     else try_bind (read_json_object ext request) (\<lambda>body.
       if body = [] \<or> \<not> only_keys body [''visibility'', ''status''] then Inl (bad_request ''invalid_arguments'')
       else try_bind (visibility_field body) (\<lambda>visibility.
         try_bind (status_field body) (\<lambda>status. Inr (visibility, status)))))"

definition admin_update_channel ::
    "externals \<Rightarrow> bytes \<Rightarrow> nat \<Rightarrow> int \<Rightarrow> header_map \<Rightarrow> string \<Rightarrow> bytes \<Rightarrow> board \<Rightarrow> response api \<times> board" where
  "admin_update_channel ext key unix now headers channel request db =
     (case read_channel_update ext key unix headers channel request db of
        Inl e \<Rightarrow> (Inl e, db)
      | Inr (visibility, status) \<Rightarrow>
          (case update_channel now channel visibility status db of
             (Inl _, db') \<Rightarrow> (Inl database, db')
           | (Inr updated, db') \<Rightarrow>
               (if \<not> updated then (Inl (404, ''channel_not_found''), db')
                else (channel_answer 200 (404, ''channel_not_found'') channel db', db'))))"

section \<open>Writing with a proof\<close>

definition AUTH_KEYS :: "string list" where "AUTH_KEYS = [''scheme'', ''proof'']"

record signed_fields =
  sf_participant_id :: string
  sf_message :: message_fields
  sf_nonce :: string
  sf_scheme :: string
  sf_proof :: string

definition read_signed_fields :: "json_map \<Rightarrow> signed_fields api" where
  "read_signed_fields body =
     (if \<not> only_keys body [''participant_id'', ''channel'', ''kind'', ''body'', ''reply_to'', ''nonce'', ''auth'']
      then Inl (bad_request ''invalid_arguments'')
      else try_bind (ok_or (bad_request ''invalid_participant_id'')
          (Option.bind (Option.bind (map_of body ''participant_id'') as_str) validate_participant_id)) (\<lambda>participant_id.
        try_bind (read_message_fields body) (\<lambda>m.
        try_bind (ok_or (bad_request ''invalid_nonce'') (text_field body ''nonce'' nonce_re)) (\<lambda>nonce.
        try_bind (ok_or (bad_request ''invalid_auth'')
          (case Option.bind (map_of body ''auth'') as_object of
             Some auth \<Rightarrow> if only_keys auth AUTH_KEYS then Some auth else None
           | None \<Rightarrow> None)) (\<lambda>auth.
        try_bind (ok_or (bad_request ''unsupported_auth_scheme'') (text_field auth ''scheme'' (\<lambda>v. v = AUTH_SCHEME)))
          (\<lambda>scheme.
        try_bind (ok_or (bad_request ''invalid_auth'')
          (text_field auth ''proof'' (\<lambda>v. v \<noteq> [] \<and> length v \<le> 256))) (\<lambda>proof_text.
        Inr \<lparr>sf_participant_id = participant_id, sf_message = m, sf_nonce = nonce, sf_scheme = scheme,
             sf_proof = proof_text\<rparr>)))))))"

text \<open>The write proof is checked against the stored secret of the participant.\<close>

definition proven_writer ::
    "externals \<Rightarrow> board \<Rightarrow> string \<Rightarrow> string \<Rightarrow> string \<Rightarrow> message_fields \<Rightarrow> string \<Rightarrow> identity option" where
  "proven_writer ext db participant_id scheme proof_text m nonce =
     (case get_web_participant_auth db participant_id of
        None \<Rightarrow> None
      | Some record \<Rightarrow>
          if pa_auth_scheme record \<noteq> scheme \<or>
             \<not> verify_write_proof ext (pa_auth_secret record) proof_text participant_id (mf_channel m) (mf_kind m)
                 (mf_body m) (mf_reply_to m) nonce
          then None else Some (pa_identity record))"

definition signed_execution_request :: "externals \<Rightarrow> signed_fields \<Rightarrow> message_execution_request" where
  "signed_execution_request ext f =
     (let p = sf_participant_id f; m = sf_message f; nonce = sf_nonce f;
          principal = \<lparr>provider = ''participant-hmac'', subject = p\<rparr>
      in \<lparr>mr_authority = \<lparr>au_principal = principal, au_mechanism = AUTH_SCHEME\<rparr>,
          mr_ingress = \<lparr>ig_delivery_id = ''rest-hmac:'' @ p @ '':'' @ nonce, ig_intent_id = nonce,
            ig_transport = ''rest'', ig_external_ref = nonce, ig_principal = principal\<rparr>,
          mr_intent = \<lparr>it_intent_id = nonce, it_participant_id = p, it_conversation_ref = None,
            it_capability = POST_MESSAGE_CAPABILITY, it_resource = mf_channel m,
            it_request_hash = message_request_hash ext (mf_channel m) (mf_kind m) (mf_body m) None (mf_reply_to m)\<rparr>,
          mr_channel = mf_channel m, mr_kind = mf_kind m, mr_body = mf_body m, mr_reply_to = mf_reply_to m\<rparr>)"

definition executed_json :: "string \<Rightarrow> bool \<Rightarrow> message \<Rightarrow> json" where
  "executed_json status idempotent m = json_object
     [(''status'', JStr status), (''idempotent'', JBool idempotent), (''message'', message_json m)]"

definition execution_answer :: "message_execution_result \<Rightarrow> response api" where
  "execution_answer result =
     (case result of
        ExecCreated m \<Rightarrow> Inr (201, executed_json ''created'' False m)
      | ExecExisting m \<Rightarrow> Inr (200, executed_json ''existing'' True m)
      | IntentConflict \<Rightarrow> Inl (409, ''nonce_conflict'')
      | ReplyTargetNotFound \<Rightarrow> Inl (bad_request ''reply_target_not_found'')
      | ChannelArchived \<Rightarrow> Inl (409, ''channel_archived'')
      | AuthorizationDenied \<Rightarrow> Inl forbidden)"

definition post_signed_message ::
    "externals \<Rightarrow> int \<Rightarrow> json_map \<Rightarrow> board \<Rightarrow> response api \<times> board" where
  "post_signed_message ext now body db =
     (case read_signed_fields body of
        Inl e \<Rightarrow> (Inl e, db)
      | Inr f \<Rightarrow>
          (case proven_writer ext db (sf_participant_id f) (sf_scheme f) (sf_proof f) (sf_message f) (sf_nonce f) of
             None \<Rightarrow> (Inl unauthorized, db)
           | Some writer \<Rightarrow>
               (case ensure_channel_for_write now (mf_channel (sf_message f)) (Some (id_instance writer)) db of
                  (active, db1) \<Rightarrow>
                    (if \<not> active then (Inl (409, ''channel_archived''), db1)
                     else (case execute_message_intent ext now writer (signed_execution_request ext f) db1 of
                        (Inl _, db2) \<Rightarrow> (Inl database, db2)
                      | (Inr result, db2) \<Rightarrow> (execution_answer result, db2))))))"

section \<open>Writing with a session or a token\<close>

definition read_resolved_post ::
    "externals \<Rightarrow> bytes \<Rightarrow> nat \<Rightarrow> header_map \<Rightarrow> json_map \<Rightarrow> board \<Rightarrow> (identity \<times> message_fields) api" where
  "read_resolved_post ext key unix headers body db =
     try_bind (require_identity ext key unix db headers) (\<lambda>who.
     try_bind (read_message_fields body) (\<lambda>m.
     if (case mf_reply_to m of Some t \<Rightarrow> \<not> message_exists db t | None \<Rightarrow> False)
     then Inl (bad_request ''reply_target_not_found'') else Inr (who, m)))"

definition append_resolved_post :: "int \<Rightarrow> identity \<Rightarrow> message_fields \<Rightarrow> board \<Rightarrow> response api \<times> board" where
  "append_resolved_post now who m db =
     (case ensure_channel_for_write now (mf_channel m) (Some (id_instance who)) db of
        (active, db1) \<Rightarrow>
          (if \<not> active then (Inl (409, ''channel_archived''), db1)
           else (case append_message now who (mf_channel m) (mf_kind m) (mf_body m) (mf_reply_to m) db1 of
              (Inl _, db2) \<Rightarrow> (Inl database, db2)
            | (Inr row, db2) \<Rightarrow> (Inr (201, json_object [(''message'', message_json row)]), db2))))"

definition post_message ::
    "externals \<Rightarrow> bytes \<Rightarrow> nat \<Rightarrow> int \<Rightarrow> header_map \<Rightarrow> bytes \<Rightarrow> board \<Rightarrow> response api \<times> board" where
  "post_message ext key unix now headers request db =
     (if (case verified_web_session ext key unix headers of
            Some session \<Rightarrow> ws_session_type session = Guest | None \<Rightarrow> False) then (Inl forbidden, db)
      else case read_json_object ext request of
        Inl e \<Rightarrow> (Inl e, db)
      | Inr body \<Rightarrow>
          if map_of body ''source'' \<noteq> None \<or> map_of body ''instance'' \<noteq> None
          then (Inl (bad_request ''identity_is_server_resolved''), db)
          else if map_of body ''auth'' \<noteq> None \<or> map_of body ''participant_id'' \<noteq> None \<or> map_of body ''nonce'' \<noteq> None
          then post_signed_message ext now body db
          else (case read_resolved_post ext key unix headers body db of
             Inl e \<Rightarrow> (Inl e, db)
           | Inr (who, m) \<Rightarrow> append_resolved_post now who m db))"

section \<open>Writing by navigation\<close>

definition read_navigation_fields :: "(string \<times> string) list \<Rightarrow> (message_fields \<times> string \<times> string \<times> string) api" where
  "read_navigation_fields params =
     try_bind (ok_or (bad_request ''invalid_channel'')
       (case map_of params ''channel'' of Some v \<Rightarrow> if name_re v then Some v else None | None \<Rightarrow> None)) (\<lambda>channel.
     try_bind (case map_of params ''kind'' of
         None \<Rightarrow> Inr ''message''
       | Some v \<Rightarrow> if kind_re v then Inr v else Inl (bad_request ''invalid_kind'')) (\<lambda>kind.
     try_bind (ok_or (bad_request ''invalid_body'')
       (case map_of params ''body'' of Some v \<Rightarrow> if blank v then None else Some v | None \<Rightarrow> None)) (\<lambda>message_body.
     if MAX_BODY_BYTES < length message_body then Inl request_too_large
     else try_bind (ok_or (bad_request ''invalid_nonce'')
       (case map_of params ''nonce'' of Some v \<Rightarrow> if nonce_re v then Some v else None | None \<Rightarrow> None)) (\<lambda>nonce.
     try_bind (parse_reply_to params) (\<lambda>reply_to.
     if map_of params ''key'' \<noteq> None then Inl unauthorized
     else try_bind (ok_or unauthorized
       (case map_of params ''scheme'' of Some v \<Rightarrow> if v = AUTH_SCHEME then Some v else None | None \<Rightarrow> None)) (\<lambda>scheme.
     try_bind (ok_or unauthorized
       (case map_of params ''proof'' of Some v \<Rightarrow> if v \<noteq> [] \<and> length v \<le> 256 then Some v else None
        | None \<Rightarrow> None)) (\<lambda>proof_text.
     Inr (\<lparr>mf_channel = channel, mf_kind = kind, mf_body = message_body, mf_reply_to = reply_to\<rparr>,
          nonce, scheme, proof_text))))))))"

definition navigation_request_hash :: "externals \<Rightarrow> message_fields \<Rightarrow> string" where
  "navigation_request_hash ext m =
     hex (sha256 ext (json_to_vec ext (json_object
       [(''channel'', JStr (mf_channel m)), (''kind'', JStr (mf_kind m)), (''body'', JStr (mf_body m)),
        (''reply_to'', json_opt JInt (mf_reply_to m))])))"

definition navigation_write_text :: "string \<Rightarrow> bool \<Rightarrow> message \<Rightarrow> string" where
  "navigation_write_text status idempotent m =
     ''conversation-blackboard write'' @ newline @ ''status: '' @ status @ newline @
     ''idempotent: '' @ (if idempotent then ''true'' else ''false'') @ newline @
     ''id: '' @ int_to_string (m_id m) @ newline @ ''source: '' @ m_source m @ newline @
     ''participant_id: '' @ m_instance m @ newline @ ''instance: '' @ m_instance m @ newline @
     ''channel: '' @ m_channel m @ newline @ ''kind: '' @ m_kind m @ newline @
     ''reply_to: '' @ (case m_reply_to m of Some t \<Rightarrow> int_to_string t | None \<Rightarrow> ''null'') @ newline"

definition navigation_error_text :: "string \<Rightarrow> string" where
  "navigation_error_text code =
     ''conversation-blackboard write'' @ newline @ ''status: error'' @ newline @ ''error: '' @ code @ newline"

definition navigation_write ::
    "externals \<Rightarrow> int \<Rightarrow> string \<Rightarrow> (string \<times> string) list \<Rightarrow> board \<Rightarrow> (nat \<times> string) api \<times> board" where
  "navigation_write ext now participant_id query db =
     (if validate_participant_id participant_id = None then (Inl unauthorized, db)
      else case read_navigation_fields (first_query_values query) of
        Inl e \<Rightarrow> (Inl e, db)
      | Inr (m, nonce, scheme, proof_text) \<Rightarrow>
          (case proven_writer ext db participant_id scheme proof_text m nonce of
             None \<Rightarrow> (Inl unauthorized, db)
           | Some writer \<Rightarrow>
               (case ensure_channel_for_write now (mf_channel m) (Some (id_instance writer)) db of
                  (active, db1) \<Rightarrow>
                    (if \<not> active then (Inl (409, ''channel_archived''), db1)
                     else (case append_navigation_message now writer
                         \<lparr>ni_channel = mf_channel m, ni_kind = mf_kind m, ni_body = mf_body m,
                          ni_reply_to = mf_reply_to m, ni_nonce = nonce,
                          ni_request_hash = navigation_request_hash ext m\<rparr> db1 of
                        (Inl _, db2) \<Rightarrow> (Inl database, db2)
                      | (Inr (NavCreated row), db2) \<Rightarrow> (Inr (200, navigation_write_text ''created'' False row), db2)
                      | (Inr (NavExisting row), db2) \<Rightarrow> (Inr (200, navigation_write_text ''existing'' True row), db2)
                      | (Inr NavNonceConflict, db2) \<Rightarrow> (Inr (409, navigation_error_text ''nonce_conflict''), db2)
                      | (Inr NavReplyTargetNotFound, db2) \<Rightarrow> (Inr (400, navigation_error_text ''reply_target_not_found''), db2))))))"

end
