(* ===== verification/History.thy ===== *)
theory History
  imports Http
begin

text \<open>
  Message history windows (\<open>history.rs\<close>): \<open>GET /api/messages/window\<close> reads one channel in either direction with a
  cursor and reports whether more messages lie beyond.  Unlike the other windows it does not fetch one row more
  than the limit, but asks with \<open>EXISTS\<close> for a row beyond the last one; the interpretations of \<open>paged_store\<close> show
  that this gives the same contract.  The query parameters are the fields \<open>Query\<close> deserialized.
\<close>

section \<open>Definitions\<close>

definition DEFAULT_WINDOW_SIZE :: nat where "DEFAULT_WINDOW_SIZE = 20"

definition MAX_WINDOW_SIZE :: nat where "MAX_WINDOW_SIZE = 200"

record message_window_query =
  wq_channel :: string
  wq_before :: "int option"
  wq_after :: "int option"
  wq_limit :: "nat option"
  wq_order :: "string option"

datatype message_order = NewestFirst | OldestFirst

definition message_order_parse :: "string option \<Rightarrow> message_order option" where
  "message_order_parse v =
     (let s = (case v of Some s \<Rightarrow> s | None \<Rightarrow> ''desc'') in
      if s = ''desc'' then Some NewestFirst else if s = ''asc'' then Some OldestFirst else None)"

definition message_order_as_str :: "message_order \<Rightarrow> string" where
  "message_order_as_str order = (case order of NewestFirst \<Rightarrow> ''desc'' | OldestFirst \<Rightarrow> ''asc'')"

definition channel_messages :: "board \<Rightarrow> string \<Rightarrow> message list" where
  "channel_messages db channel = filter (\<lambda>m. m_channel m = channel) (messages db)"

definition list_message_window ::
    "board \<Rightarrow> string \<Rightarrow> message_order \<Rightarrow> int option \<Rightarrow> int option \<Rightarrow> nat \<Rightarrow> message list" where
  "list_message_window db channel order before after limit =
     (case order of
        NewestFirst \<Rightarrow> take limit (select_desc m_id before (channel_messages db channel))
      | OldestFirst \<Rightarrow> take limit (select_asc m_id after (channel_messages db channel)))"

definition has_message_before :: "board \<Rightarrow> string \<Rightarrow> int \<Rightarrow> bool" where
  "has_message_before db channel i = list_ex (\<lambda>m. m_channel m = channel \<and> m_id m < i) (messages db)"

definition has_message_after :: "board \<Rightarrow> string \<Rightarrow> int \<Rightarrow> bool" where
  "has_message_after db channel i = list_ex (\<lambda>m. m_channel m = channel \<and> i < m_id m) (messages db)"

text \<open>The rows of a window and whether a row lies beyond its last one.\<close>

definition read_message_window ::
    "board \<Rightarrow> string \<Rightarrow> message_order \<Rightarrow> int option \<Rightarrow> int option \<Rightarrow> nat \<Rightarrow> message list \<times> bool" where
  "read_message_window db channel order before after limit =
     (let rows = list_message_window db channel order before after limit
      in (rows,
          if rows = [] then False
          else (case order of
                  NewestFirst \<Rightarrow> has_message_before db channel (m_id (last rows))
                | OldestFirst \<Rightarrow> has_message_after db channel (m_id (last rows)))))"

text \<open>The checks of the handler, in its order; the result is the order and the limit to read with.\<close>

definition validate_window_query :: "message_window_query \<Rightarrow> (message_order \<times> nat) api" where
  "validate_window_query q =
     (if \<not> name_re (wq_channel q) then Inl (bad_request ''invalid_channel'')
      else if (case wq_before q of Some v \<Rightarrow> v \<le> 0 | None \<Rightarrow> False) \<or>
              (case wq_after q of Some v \<Rightarrow> v \<le> 0 | None \<Rightarrow> False)
      then Inl (bad_request ''invalid_query'')
      else (case message_order_parse (wq_order q) of
              None \<Rightarrow> Inl (bad_request ''invalid_order'')
            | Some order \<Rightarrow>
                if wq_before q \<noteq> None \<and> wq_after q \<noteq> None then Inl (bad_request ''invalid_query'')
                else if order = NewestFirst \<and> wq_after q \<noteq> None \<or> order = OldestFirst \<and> wq_before q \<noteq> None
                then Inl (bad_request ''invalid_query'')
                else (let limit = (case wq_limit q of Some n \<Rightarrow> n | None \<Rightarrow> DEFAULT_WINDOW_SIZE) in
                  if \<not> (1 \<le> limit \<and> limit \<le> MAX_WINDOW_SIZE) then Inl (bad_request ''invalid_query'')
                  else Inr (order, limit))))"

definition window_access ::
    "externals \<Rightarrow> bytes \<Rightarrow> nat \<Rightarrow> header_map \<Rightarrow> string \<Rightarrow> string \<Rightarrow> board \<Rightarrow> unit api" where
  "window_access ext key unix headers request_target channel db =
     (if (case verified_web_session ext key unix headers of
            Some session \<Rightarrow> ws_session_type session = Guest | None \<Rightarrow> False)
      then (if channel_is_public_active db channel then Inr () else Inl forbidden)
      else if resolve_request_identity_for_target ext key unix db headers ''GET'' request_target = None
      then Inl unauthorized else Inr ())"

definition window_json :: "message_order \<Rightarrow> message list \<times> bool \<Rightarrow> response" where
  "window_json order window = (200, json_object
     [(''messages'', JArr (map message_json (fst window))), (''order'', JStr (message_order_as_str order)),
      (''has_more'', JBool (snd window)), (''has_older'', JBool (order = NewestFirst \<and> snd window)),
      (''has_newer'', JBool (order = OldestFirst \<and> snd window))])"

definition message_window ::
    "externals \<Rightarrow> bytes \<Rightarrow> nat \<Rightarrow> header_map \<Rightarrow> string \<Rightarrow> message_window_query \<Rightarrow> board \<Rightarrow> response api" where
  "message_window ext key unix headers request_target q db =
     try_bind (validate_window_query q) (\<lambda>(order, limit).
     try_bind (window_access ext key unix headers request_target (wq_channel q) db) (\<lambda>_.
     Inr (window_json order
       (read_message_window db (wq_channel q) order (wq_before q) (wq_after q) limit))))"

section \<open>The windows satisfy the contract of paged stores\<close>

definition message_page :: "message_order \<Rightarrow> board \<times> string \<Rightarrow> nat \<Rightarrow> int option \<Rightarrow> message list \<times> bool" where
  "message_page order s n cursor =
     (case order of
        NewestFirst \<Rightarrow> read_message_window (fst s) (snd s) NewestFirst cursor None n
      | OldestFirst \<Rightarrow> read_message_window (fst s) (snd s) OldestFirst None cursor n)"

lemma channel_messages_sorted:
  "log_wf db \<Longrightarrow> sorted_wrt (\<lambda>a b. m_id a < m_id b) (channel_messages db channel)"
  by (simp add: log_wf_def channel_messages_def sorted_wrt_map sorted_wrt_filter)

lemma sort_channel_messages:
  assumes "log_wf db"
  shows "sort_key m_id (channel_messages db channel) = channel_messages db channel"
proof (rule sort_key_id_if_sorted)
  have "sorted_wrt (<) (map m_id (channel_messages db channel))"
    using channel_messages_sorted [OF assms] by (simp add: sorted_wrt_map)
  then show "sorted (map m_id (channel_messages db channel))" by (simp add: strict_sorted_iff)
qed

text \<open>Asking with \<open>EXISTS\<close> for a row beyond the last one of a window tells whether the window was cut.\<close>

lemma beyond_last_iff:
  assumes srt: "sorted_wrt (\<lambda>a b. lt (key a) (key b)) ms"
    and irrefl: "\<And>k. \<not> lt k k" and trans: "\<And>a b c. lt a b \<Longrightarrow> lt b c \<Longrightarrow> lt a c"
    and rs: "rs = take n (filter (beyond lt key c) ms)" and ne: "rs \<noteq> []"
  shows "(\<exists>m \<in> set ms. lt (key (last rs)) (key m)) \<longleftrightarrow> n < length (filter (beyond lt key c) ms)"
proof -
  have "filter (beyond lt key (Some (key (last rs)))) ms = drop n (filter (beyond lt key c) ms)"
    by (rule beyond_continue [where lt = lt and key = key, OF srt]) (use irrefl trans rs ne in blast)+
  moreover have "(\<exists>m \<in> set ms. lt (key (last rs)) (key m)) \<longleftrightarrow>
      filter (beyond lt key (Some (key (last rs)))) ms \<noteq> []"
    by (simp add: beyond_def filter_empty_conv)
  ultimately show ?thesis by (metis drop_eq_Nil not_le)
qed

lemma has_message_beyond:
  "has_message_before db channel i \<longleftrightarrow> (\<exists>m \<in> set (channel_messages db channel). m_id m < i)"
  "has_message_after db channel i \<longleftrightarrow> (\<exists>m \<in> set (channel_messages db channel). i < m_id m)"
  by (auto simp: has_message_before_def has_message_after_def channel_messages_def list_ex_iff)

lemma message_page_windows:
  assumes w: "log_wf db"
  shows "0 < n \<Longrightarrow> message_page OldestFirst (db, channel) n k =
      truncate_window n (filter (beyond (<) m_id k) (channel_messages db channel))"
    and "0 < n \<Longrightarrow> message_page NewestFirst (db, channel) n k =
      truncate_window n (filter (beyond (>) m_id k) (rev (channel_messages db channel)))"
proof -
  let ?ms = "channel_messages db channel"
  note srt = channel_messages_sorted [OF w, of channel]
  have a: "select_asc m_id k ?ms = filter (beyond (<) m_id k) ?ms"
    and d: "select_desc m_id k ?ms = filter (beyond (>) m_id k) (rev ?ms)"
    by (simp_all add: select_asc_eq select_desc_eq sort_channel_messages [OF w])
  show "message_page OldestFirst (db, channel) n k = truncate_window n (filter (beyond (<) m_id k) ?ms)" if "0 < n"
  proof (cases "take n (filter (beyond (<) m_id k) ?ms) = []")
    case True
    then have "filter (beyond (<) m_id k) ?ms = []" using that by simp
    then show ?thesis by (simp add: message_page_def read_message_window_def list_message_window_def a truncate_window_def)
  next
    case False
    have "(\<exists>m \<in> set ?ms. m_id (last (take n (filter (beyond (<) m_id k) ?ms))) < m_id m) \<longleftrightarrow>
        n < length (filter (beyond (<) m_id k) ?ms)"
      by (rule beyond_last_iff [where lt = "(<)", OF srt]) (use False in auto)
    then show ?thesis using False
      by (simp add: message_page_def read_message_window_def list_message_window_def a truncate_window_def
          has_message_beyond)
  qed
  have srt': "sorted_wrt (\<lambda>a b. m_id a > m_id b) (rev ?ms)" using srt by (simp add: sorted_wrt_rev)
  show "message_page NewestFirst (db, channel) n k = truncate_window n (filter (beyond (>) m_id k) (rev ?ms))" if "0 < n"
  proof (cases "take n (filter (beyond (>) m_id k) (rev ?ms)) = []")
    case True
    then have "filter (beyond (>) m_id k) (rev ?ms) = []" using that by simp
    then show ?thesis by (simp add: message_page_def read_message_window_def list_message_window_def d truncate_window_def)
  next
    case False
    have "(\<exists>m \<in> set (rev ?ms). m_id (last (take n (filter (beyond (>) m_id k) (rev ?ms)))) > m_id m) \<longleftrightarrow>
        n < length (filter (beyond (>) m_id k) (rev ?ms))"
      by (rule beyond_last_iff [where lt = "(>)", OF srt']) (use False in auto)
    then show ?thesis using False
      by (simp add: message_page_def read_message_window_def list_message_window_def d truncate_window_def
          has_message_beyond)
  qed
qed

interpretation message_asc: paged_store "\<lambda>s. log_wf (fst s)" "\<lambda>s. channel_messages (fst s) (snd s)" m_id "(<)"
  "message_page OldestFirst"
proof
  fix s :: "board \<times> string"
  assume w: "log_wf (fst s)"
  then show "sorted_wrt (\<lambda>a b. m_id a < m_id b) (channel_messages (fst s) (snd s))" by (rule channel_messages_sorted)
  show "message_page OldestFirst s n k = truncate_window n (filter (beyond (<) m_id k) (channel_messages (fst s) (snd s)))"
    if "0 < n" for n k
    using message_page_windows(1) [OF w that, of "snd s" k] by simp
qed auto

interpretation message_desc: paged_store "\<lambda>s. log_wf (fst s)" "\<lambda>s. rev (channel_messages (fst s) (snd s))" m_id "(>)"
  "message_page NewestFirst"
proof
  fix s :: "board \<times> string"
  assume w: "log_wf (fst s)"
  then show "sorted_wrt (\<lambda>a b. m_id a > m_id b) (rev (channel_messages (fst s) (snd s)))"
    using channel_messages_sorted [OF w] by (simp add: sorted_wrt_rev)
  show "message_page NewestFirst s n k =
      truncate_window n (filter (beyond (>) m_id k) (rev (channel_messages (fst s) (snd s))))"
    if "0 < n" for n k
    using message_page_windows(2) [OF w that, of "snd s" k] by simp
qed auto

section \<open>Properties\<close>

definition window_query :: "message_order \<Rightarrow> string \<Rightarrow> nat \<Rightarrow> int option \<Rightarrow> message_window_query" where
  "window_query order channel n cursor =
     \<lparr>wq_channel = channel, wq_before = (if order = NewestFirst then cursor else None),
      wq_after = (if order = OldestFirst then cursor else None), wq_limit = Some n,
      wq_order = Some (message_order_as_str order)\<rparr>"

lemma window_query_valid:
  assumes "name_re channel" "1 \<le> n" "n \<le> 200" "\<forall>c. cursor = Some c \<longrightarrow> 0 < c"
  shows "validate_window_query (window_query order channel n cursor) = Inr (order, n)"
  using assms by (cases order; cases cursor)
    (simp_all add: validate_window_query_def window_query_def message_order_parse_def message_order_as_str_def
      MAX_WINDOW_SIZE_def)

text \<open>C34: A client reads a whole channel through history windows.  For every channel, direction and accepted window
  size, a client that follows the cursor until \<open>has_more\<close> is false has read every message of the channel exactly
  once, oldest first or newest first; and each window is what the handler answers to an authorized request for it.\<close>

theorem message_windows_complete:
  assumes "log_wf db" and "name_re channel" and "1 \<le> n" and "n \<le> 200"
  shows "drain (Suc (length (messages db))) (message_page OldestFirst (db, channel) n) m_id None =
      Some (channel_messages db channel) \<and>
    drain (Suc (length (messages db))) (message_page NewestFirst (db, channel) n) m_id None =
      Some (rev (channel_messages db channel)) \<and>
    (\<forall>ext key unix headers target order cursor. (\<forall>c. cursor = Some c \<longrightarrow> 0 < c) \<longrightarrow>
      window_access ext key unix headers target channel db = Inr () \<longrightarrow>
      message_window ext key unix headers target (window_query order channel n cursor) db =
        Inr (window_json order (message_page order (db, channel) n cursor)))"
proof -
  have n: "0 < n" using assms(3) by simp
  have l: "length (channel_messages db channel) < Suc (length (messages db))"
    by (simp add: channel_messages_def le_imp_less_Suc)
  have "drain (Suc (length (messages db))) (message_page OldestFirst (db, channel) n) m_id None =
      Some (channel_messages db channel)"
    using message_asc.drain_all [of "(db, channel)" n] assms(1) n l by (simp del: drain.simps)
  moreover have "drain (Suc (length (messages db))) (message_page NewestFirst (db, channel) n) m_id None =
      Some (rev (channel_messages db channel))"
    using message_desc.drain_all [of "(db, channel)" n] assms(1) n l by (simp del: drain.simps)
  moreover have "message_window ext key unix headers target (window_query order channel n cursor) db =
        Inr (window_json order (message_page order (db, channel) n cursor))"
    if "\<forall>c. cursor = Some c \<longrightarrow> 0 < c" "window_access ext key unix headers target channel db = Inr ()"
    for ext key unix headers target order cursor
    unfolding message_window_def window_query_valid [OF assms(2-4) that(1)]
    using that(2) by (cases order) (simp_all add: try_bind_def window_query_def message_page_def)
  ultimately show ?thesis by blast
qed

definition sample_log :: board where
  "sample_log = empty_board\<lparr>messages := [
     \<lparr>m_id = 1, m_created_at = 5, m_channel = ''lab'', m_source = ''s'', m_instance = ''a'', m_conversation_ref = None,
      m_kind = ''message'', m_body = ''x'', m_reply_to = None\<rparr>,
     \<lparr>m_id = 2, m_created_at = 6, m_channel = ''lab'', m_source = ''s'', m_instance = ''a'', m_conversation_ref = None,
      m_kind = ''message'', m_body = ''y'', m_reply_to = Some 1\<rparr>]\<rparr>"

theorem message_windows_complete_witness:
  "map_option (map m_id) (drain 3 (message_page NewestFirst (sample_log, ''lab'') 1) m_id None) = Some [2, 1]"
proof -
  have w: "log_wf sample_log" by (simp add: log_wf_def sample_log_def)
  have n: "name_re ''lab''" by code_simp
  have l: "length (messages sample_log) = 2" and c: "map m_id (rev (channel_messages sample_log ''lab'')) = [2, 1]"
    by (simp_all add: sample_log_def channel_messages_def)
  have "drain (Suc (length (messages sample_log))) (message_page NewestFirst (sample_log, ''lab'') 1) m_id None =
      Some (rev (channel_messages sample_log ''lab''))"
    using message_windows_complete [OF w n, of 1] by simp
  then show ?thesis using l c by (simp add: numeral_3_eq_3)
qed

end
