(* ===== verification/Ingress.thy ===== *)
theory Ingress
  imports System
begin

text \<open>
  What the entry points that execute message intents share.  The signed REST post, the MCP write tool, the GitHub
  webhook and the OIDC post each turn a request into a bound execution request, call the executor and answer with
  its result.  The locale \<open>execution_surface\<close> is that contract; the client's facts (a request is a run of the board,
  an accepted request was authorized, a refused one adds no message, a replay is answered with the message of the
  first delivery) are proved once in it.  Every surface interprets it in its own theory.
\<close>

lemma executed_authorized:
  assumes "execute_message_intent ext now who q db = (res, db')"
    and "res = Inr (ExecCreated m) \<or> res = Inr (ExecExisting m)"
  shows "request_bound ext who q \<and> ad_allowed (decision_of now q db)"
  by (rule execute_cases [OF assms(1)]) (use assms(2) in auto)

lemma refused_execution:
  assumes "execute_message_intent ext now who q db = (res, db')"
    and "\<forall>m. res \<noteq> Inr (ExecCreated m) \<and> res \<noteq> Inr (ExecExisting m)"
  shows "db' = db"
  by (rule execute_cases [OF assms(1)]) (use assms(2) in auto)

text \<open>On a sound board the decision of the executor is the declarative policy.\<close>

lemma decision_policy:
  assumes "system_wf ext db"
  shows "ad_allowed (decision_of now q db) \<longleftrightarrow> policy_allows now db (au_principal (mr_authority q))
    (it_participant_id (mr_intent q)) (it_capability (mr_intent q)) (Some (it_resource (mr_intent q)))
    (Some (it_intent_id (mr_intent q)))"
proof -
  have t: "table_exists db ''execution_receipts''" using assms by (simp add: system_wf_def evidence_wf_def)
  then have "table_exists (ensure_grant_schema db) ''execution_receipts''" by (rule table_exists_ensure)
  then have "committed_receipt_exists (ensure_grant_schema db) = committed_receipt_exists db"
    using t by (intro HOL.ext) (simp add: committed_receipt_exists_def)
  then have "decision_of now q db = evaluate_authorization_current_schema now db (au_principal (mr_authority q))
      (it_participant_id (mr_intent q)) (it_capability (mr_intent q)) (Some (it_resource (mr_intent q)))
      (Some (it_intent_id (mr_intent q)))"
    unfolding decision_of_def by (intro evaluate_cong) simp_all
  then show ?thesis using evaluate_allowed_iff assms by (simp add: system_wf_def)
qed

lemma policy_allows_channels: "policy_allows now (db\<lparr>channels := cs\<rparr>) = policy_allows now db"
  by (intro HOL.ext) (simp add: policy_allows_def participant_policy_row_def)

text \<open>The policy allows the request.\<close>

definition request_allowed :: "int \<Rightarrow> board \<Rightarrow> message_execution_request \<Rightarrow> bool" where
  "request_allowed now db q \<longleftrightarrow> policy_allows now db (au_principal (mr_authority q))
     (it_participant_id (mr_intent q)) (it_capability (mr_intent q)) (Some (it_resource (mr_intent q)))
     (Some (it_intent_id (mr_intent q)))"

text \<open>The same request, executed again on the board the first execution left.\<close>

lemma replayed_execution:
  assumes "system_wf ext db" and "described q"
    and "execute_message_intent ext now who q db = (Inr (ExecCreated m), db')"
  shows "\<exists>db''. execute_message_intent ext now who q db' = (Inr (ExecExisting m), db'') \<and>
    messages db'' = messages db'"
proof -
  have "request_bound ext who q" using executed_authorized [OF assms(3)] by blast
  then show ?thesis
    using retry_existing [OF _ _ _ _ assms(2,3) refl] assms(1) by (auto simp: system_wf_def policy_wf_def)
qed

locale execution_surface =
  fixes ext :: externals and now :: int
    and serve :: "'r \<Rightarrow> board \<Rightarrow> 'a \<times> board"
    and intent_of :: "'r \<Rightarrow> board \<Rightarrow> (identity \<times> message_execution_request) option"
    and prep :: "'r \<Rightarrow> board \<Rightarrow> board"
    and answer :: "'r \<Rightarrow> message_execution_result sql_result \<Rightarrow> 'a"
    and created :: "'a \<Rightarrow> bool" and accepted :: "'a \<Rightarrow> bool"
  assumes refused: "intent_of r db = None \<Longrightarrow> snd (serve r db) = db \<and> \<not> accepted (fst (serve r db))"
    and executed: "intent_of r db = Some (who, q) \<Longrightarrow>
      execute_message_intent ext now who q (prep r db) = (res, db') \<Longrightarrow> serve r db = (answer r res, db')"
    and prep_run: "(board_step ext)\<^sup>*\<^sup>* db (prep r db)"
    and prep_channels: "\<exists>cs. prep r db = db\<lparr>channels := cs\<rparr>"
    and intent_described: "intent_of r db = Some (who, q) \<Longrightarrow> described q"
    and created_iff: "intent_of r db = Some wq \<Longrightarrow> created (answer r res) \<longleftrightarrow> (\<exists>m. res = Inr (ExecCreated m))"
    and accepted_iff: "intent_of r db = Some wq \<Longrightarrow>
      accepted (answer r res) \<longleftrightarrow> (\<exists>m. res = Inr (ExecCreated m) \<or> res = Inr (ExecExisting m))"
    and created_accepted: "created a \<Longrightarrow> accepted a"
    and intent_stable: "system_wf ext db \<Longrightarrow> intent_of r db = Some (who, q) \<Longrightarrow>
      execute_message_intent ext now who q (prep r db) = (Inr (ExecCreated m), db') \<Longrightarrow>
      intent_of r db' = Some (who, q) \<and> prep r db' = db'"
begin

lemma prep_messages: "messages (prep r db) = messages db"
proof -
  obtain cs where "prep r db = db\<lparr>channels := cs\<rparr>" using prep_channels by blast
  then show ?thesis by simp
qed

lemma serve_run: "(board_step ext)\<^sup>*\<^sup>* db (snd (serve r db))"
proof (cases "intent_of r db")
  case None
  then show ?thesis using refused by simp
next
  case (Some wq)
  obtain who q where wq: "wq = (who, q)" by fastforce
  obtain res db' where ex: "execute_message_intent ext now who q (prep r db) = (res, db')" by fastforce
  have "board_step ext (prep r db) db'"
    using board_step.execute [OF intent_described, of r db who q ext "prep r db" now who] Some wq ex by simp
  then have "(board_step ext)\<^sup>*\<^sup>* db db'" using prep_run [of db r] by (metis rtranclp.rtrancl_into_rtrancl)
  then show ?thesis using executed [of r db who q res db'] Some wq ex by simp
qed

lemma serve_reachable: "reachable ext db \<Longrightarrow> reachable ext (snd (serve r db))"
  using serve_run [of db r] by (induction rule: rtranclp_induct) (auto intro: reachable.step)

lemma accepted_authorized:
  assumes "system_wf ext db" and "accepted (fst (serve r db))"
  obtains who q where "intent_of r db = Some (who, q)" "request_bound ext who q" "request_allowed now db q"
proof -
  obtain who q where i: "intent_of r db = Some (who, q)" using assms(2) refused [of r db] by (cases "intent_of r db") auto
  obtain res db' where ex: "execute_message_intent ext now who q (prep r db) = (res, db')" by fastforce
  have "\<exists>m. res = Inr (ExecCreated m) \<or> res = Inr (ExecExisting m)"
    using assms(2) executed [OF i ex] accepted_iff [OF i, of res] by simp
  then have b: "request_bound ext who q" "ad_allowed (decision_of now q (prep r db))"
    using executed_authorized [OF ex] by blast+
  have "system_wf ext (prep r db)" using run_keeps [OF prep_run assms(1)] by blast
  moreover obtain cs where "prep r db = db\<lparr>channels := cs\<rparr>" using prep_channels by blast
  ultimately have "request_allowed now db q"
    using b(2) decision_policy by (simp add: request_allowed_def policy_allows_channels)
  with that i b(1) show thesis by blast
qed

lemma not_accepted_messages:
  assumes "\<not> accepted (fst (serve r db))"
  shows "messages (snd (serve r db)) = messages db"
proof (cases "intent_of r db")
  case None
  then show ?thesis using refused by simp
next
  case (Some wq)
  obtain who q where i: "intent_of r db = Some (who, q)" using Some by (cases wq) simp
  obtain res db' where ex: "execute_message_intent ext now who q (prep r db) = (res, db')" by fastforce
  have "db' = prep r db"
    using refused_execution [OF ex] assms executed [OF i ex] accepted_iff [OF i, of res] by auto
  then show ?thesis using executed [OF i ex] prep_messages [of r db] by simp
qed

lemma serve_replayed:
  assumes "system_wf ext db" and "created (fst (serve r db))"
  obtains m db'' where "fst (serve r db) = answer r (Inr (ExecCreated m))"
    "messages (snd (serve r db)) = messages db @ [m]"
    "serve r (snd (serve r db)) = (answer r (Inr (ExecExisting m)), db'')"
    "messages db'' = messages (snd (serve r db))"
proof -
  obtain who q where i: "intent_of r db = Some (who, q)"
    using created_accepted [OF assms(2)] refused [of r db] by (cases "intent_of r db") auto
  obtain res db' where ex: "execute_message_intent ext now who q (prep r db) = (res, db')" by fastforce
  then obtain m where m: "res = Inr (ExecCreated m)" using assms(2) executed [OF i ex] created_iff [OF i] by auto
  note ex = ex [unfolded m]
  have wf: "system_wf ext (prep r db)" using run_keeps [OF prep_run assms(1)] by blast
  then have ev: "evidence_wf ext (prep r db)" by (simp add: system_wf_def)
  obtain db'' where re: "execute_message_intent ext now who q db' = (Inr (ExecExisting m), db'')" "messages db'' = messages db'"
    using replayed_execution [OF wf intent_described [OF i] ex] by blast
  have st: "intent_of r db' = Some (who, q)" "prep r db' = db'" using intent_stable [OF assms(1) i ex] by simp_all
  have s: "serve r db = (answer r (Inr (ExecCreated m)), db')" by (rule executed [OF i ex])
  have "serve r db' = (answer r (Inr (ExecExisting m)), db'')"
    by (rule executed [OF st(1)]) (simp add: st(2) re(1))
  moreover have "messages db' = messages db @ [m]" using created_fields(1) [OF ev ex] prep_messages [of r db] by simp
  ultimately show thesis using that s re(2) by simp
qed

end

text \<open>What an intent that the surfaces re-read after an execution depends on.\<close>

lemma created_keeps_participants:
  assumes "system_wf ext db" and "execute_message_intent ext now who q db = (Inr (ExecCreated m), db')"
  shows "web_participants db' = web_participants db"
  using created_fields(8) [OF _ assms(2)] assms(1) by (simp add: system_wf_def)

text \<open>The first execution on a board without reservations and deliveries.\<close>

lemma first_execution:
  assumes "reachable ext db" and "described q" and "request_bound ext who q" and "ad_allowed (decision_of now q db)"
    and "channel_active q db" "navigation_writes db = []" "ingress_provenance db = []" "mr_reply_to q = None"
  obtains m db' where "execute_message_intent ext now who q db = (Inr (ExecCreated m), db')"
proof -
  have "system_wf ext db" by (rule reachable_system_wf [OF assms(1)])
  then have "evidence_wf ext db" "grants_wf db" by (simp_all add: system_wf_def policy_wf_def)
  from execute_creates [OF this assms(3,4)] show thesis
    using that assms(5-8) by (auto simp: find_navigation_def reply_target_ok_def)
qed

end
