(* ===== verification/Http_Surface.thy ===== *)
theory Http_Surface
  imports Http Ingress
begin

text \<open>
  What the HTTP handlers guarantee: their effects are steps of the board (so that the invariants of
  \<open>System\<close> survive every request except a navigation write), guests see public channels only, writes are
  authenticated, administration needs an admin session, and a replayed signed post is answered with the message
  it created.
\<close>

section \<open>Validation\<close>

lemma try_bind_Inr: "try_bind r f = Inr y \<longleftrightarrow> (\<exists>x. r = Inr x \<and> f x = Inr y)"
  by (simp add: try_bind_def split: sum.split)

lemma ok_or_Inr: "ok_or e x = Inr y \<longleftrightarrow> x = Some y"
  by (simp add: ok_or_def split: option.split)

lemma with_db_Inr: "with_db r = Inr y \<longleftrightarrow> r = Inr y"
  by (simp add: with_db_def split: sum.split)

lemma text_field_Some: "text_field body name valid = Some v \<Longrightarrow> valid v"
  by (auto simp: text_field_def split: option.splits if_splits)

lemma name_shape_not_blank:
  assumes "name_shape extra n s" and "list_all graphic extra"
  shows "\<not> blank s"
  using name_shape_trim [OF assms] name_shape_nonempty [OF assms(1)] by simp

lemma extras_graphic: "list_all graphic ''._:/-''" "list_all graphic ''._-''" "list_all graphic ''._~-''"
  "list_all graphic ''._:-''"
  by (simp_all add: graphic_def ascii_simps)

lemma name_re_not_blank: "name_re s \<Longrightarrow> \<not> blank s"
  unfolding name_re_def by (rule name_shape_not_blank [OF _ extras_graphic(1)])

lemma nonce_re_not_blank: "nonce_re s \<Longrightarrow> \<not> blank s"
  unfolding nonce_re_def by (rule name_shape_not_blank [OF _ extras_graphic(3)])

lemma valid_participant_not_blank:
  assumes "validate_participant_id s = Some p"
  shows "\<not> blank p"
  using validate_participant_id_graphic [OF assms] trim_graphic by simp

lemma append_not_blank: "list_all graphic s \<Longrightarrow> list_all graphic t \<Longrightarrow> s \<noteq> [] \<Longrightarrow> \<not> blank (s @ t)"
  by (simp add: trim_graphic)

lemma read_message_fields_ok:
  assumes "read_message_fields body = Inr m"
  shows "name_re (mf_channel m)" "length (mf_body m) \<le> MAX_BODY_BYTES" "\<not> blank (mf_body m)"
    "\<forall>t. mf_reply_to m = Some t \<longrightarrow> 0 < t"
proof -
  obtain ch k b r where f: "text_field body ''channel'' name_re = Some ch" "text_field body ''body'' (\<lambda>v. \<not> blank v) = Some b"
      "\<not> MAX_BODY_BYTES < length b" "reply_to_field body = Inr r"
      "m = \<lparr>mf_channel = ch, mf_kind = k, mf_body = b, mf_reply_to = r\<rparr>"
    using assms by (auto simp: read_message_fields_def try_bind_Inr ok_or_Inr split: if_splits)
  then show "name_re (mf_channel m)" "length (mf_body m) \<le> MAX_BODY_BYTES" "\<not> blank (mf_body m)"
    using text_field_Some [OF f(1)] text_field_Some [OF f(2)] by simp_all
  show "\<forall>t. mf_reply_to m = Some t \<longrightarrow> 0 < t"
    using f(4,5) by (auto simp: reply_to_field_def split: option.splits json.splits if_splits)
qed

lemma read_signed_fields_ok:
  assumes "read_signed_fields body = Inr f"
  shows "\<exists>s. validate_participant_id s = Some (sf_participant_id f)" "name_re (mf_channel (sf_message f))"
    "nonce_re (sf_nonce f)" "sf_scheme f = AUTH_SCHEME"
proof -
  obtain s p m n auth sc pt where f: "validate_participant_id s = Some p" "read_message_fields body = Inr m"
      "text_field body ''nonce'' nonce_re = Some n" "text_field auth ''scheme'' (\<lambda>v. v = AUTH_SCHEME) = Some sc"
      "f = \<lparr>sf_participant_id = p, sf_message = m, sf_nonce = n, sf_scheme = sc, sf_proof = pt\<rparr>"
    using assms by (auto simp: read_signed_fields_def try_bind_Inr ok_or_Inr bind_eq_Some_conv split: if_splits)
  then show "\<exists>s. validate_participant_id s = Some (sf_participant_id f)" "name_re (mf_channel (sf_message f))"
    "nonce_re (sf_nonce f)" "sf_scheme f = AUTH_SCHEME"
    using read_message_fields_ok(1) [OF f(2)] text_field_Some [OF f(3)] text_field_Some [OF f(4)] by auto
qed

text \<open>The request a signed post executes is described.\<close>

lemma signed_request_described:
  assumes "read_signed_fields body = Inr f"
  shows "described (signed_execution_request ext f)"
proof -
  note ok = read_signed_fields_ok [OF assms]
  have p: "list_all graphic (sf_participant_id f)" "\<not> blank (sf_participant_id f)"
    using ok(1) validate_participant_id_graphic valid_participant_not_blank by auto
  have n: "list_all graphic (sf_nonce f)" using ok(3) name_shape_graphic extras_graphic(3) by (auto simp: nonce_re_def)
  have "\<not> blank (''rest-hmac:'' @ sf_participant_id f @ '':'' @ sf_nonce f)"
    by (rule append_not_blank) (use p n in \<open>simp_all add: graphic_def ascii_simps\<close>)
  moreover have "\<not> blank ''rest''" "\<not> blank ''participant-hmac''"
    by (simp_all add: trim_graphic graphic_def ascii_simps)
  ultimately show ?thesis
    using p(2) name_re_not_blank [OF ok(2)] nonce_re_not_blank [OF ok(3)]
    by (simp add: described_def signed_execution_request_def Let_def)
qed

section \<open>Handlers are steps\<close>

lemma step_star: "board_step ext db db' \<Longrightarrow> (board_step ext)\<^sup>*\<^sup>* db db'"
  by (rule r_into_rtranclp)

lemma ensure_step: "board_step ext db (snd (ensure_channel_for_write now c b db))"
  using board_step.log [of "EnsureChannel now c b" db ext] by simp

lemma append_step:
  "(\<And>t. r = Some t \<Longrightarrow> message_exists db t) \<Longrightarrow> board_step ext db (snd (append_message now who ch k bd r db))"
  using board_step.log [of "AppendMessage now who ch k bd r" db ext] by simp

lemma message_exists_ensure: "message_exists (snd (ensure_channel_for_write now c b db)) t = message_exists db t"
  by (simp add: message_exists_def)

text \<open>The signed post as a surface of the executor.\<close>

definition signed_intent_of :: "externals \<Rightarrow> int \<Rightarrow> json_map \<Rightarrow> board \<Rightarrow> (identity \<times> message_execution_request) option" where
  "signed_intent_of ext now body db =
     (case read_signed_fields body of
        Inl _ \<Rightarrow> None
      | Inr f \<Rightarrow>
          (case proven_writer ext db (sf_participant_id f) (sf_scheme f) (sf_proof f) (sf_message f) (sf_nonce f) of
             None \<Rightarrow> None
           | Some writer \<Rightarrow>
               if fst (ensure_channel_for_write now (mf_channel (sf_message f)) (Some (id_instance writer)) db)
               then Some (writer, signed_execution_request ext f) else None))"

definition signed_prep :: "externals \<Rightarrow> int \<Rightarrow> json_map \<Rightarrow> board \<Rightarrow> board" where
  "signed_prep ext now body db =
     (case signed_intent_of ext now body db of
        None \<Rightarrow> db
      | Some (who, q) \<Rightarrow> snd (ensure_channel_for_write now (mr_channel q) (Some (id_instance who)) db))"

definition signed_answer :: "message_execution_result sql_result \<Rightarrow> response api" where
  "signed_answer res = (case res of Inl _ \<Rightarrow> Inl database | Inr r \<Rightarrow> execution_answer r)"

lemma signed_request_channel: "mr_channel (signed_execution_request ext f) = mf_channel (sf_message f)"
  by (simp add: signed_execution_request_def Let_def)

lemma insert_existing_channel: "channel_metadata db c = Some m \<Longrightarrow> insert_channel_or_ignore now c v b db = (0, db)"
  by (auto simp: channel_metadata_def insert_channel_or_ignore_def find_Some_iff dest: nth_mem)

lemma ensure_existing_channel:
  assumes "channel_metadata db c = Some m"
  shows "ensure_channel_for_write now c b db = (c_status m = ''active'', db)"
  using insert_existing_channel [OF assms] assms by (simp add: ensure_channel_for_write_def ensure_channel_def Let_def)

lemma ensure_makes_channel: "\<exists>m. channel_metadata (snd (ensure_channel_for_write now c b db)) c = Some m"
proof (cases "channel_metadata db c")
  case None
  then show ?thesis using metadata_insert_new [OF None default_visibility_cases]
    by (simp add: ensure_channel_for_write_def ensure_channel_def Let_def)
qed (simp add: ensure_existing_channel)

lemma ensure_only_channels: "\<exists>cs. snd (ensure_channel_for_write now c b db) = db\<lparr>channels := cs\<rparr>"
proof -
  have "db = db\<lparr>channels := channels db\<rparr>" by simp
  then show ?thesis
    unfolding ensure_channel_for_write_def ensure_channel_def insert_channel_or_ignore_def Let_def
    by (auto intro: exI [of _ "channels db"])
qed

lemma ensure_again:
  assumes "ensure_channel_for_write now c b db = (a, db1)" and "channels db' = channels db1"
  shows "ensure_channel_for_write now c b db' = (a, db')"
proof -
  obtain m where m: "channel_metadata db1 c = Some m" using ensure_makes_channel [of now c b db] assms(1) by auto
  then have m': "channel_metadata db' c = Some m" using assms(2) by (simp add: channel_metadata_def)
  have "a = (c_status m = ''active'')"
  proof (cases "channel_metadata db c")
    case None
    then show ?thesis using assms(1) m by (auto simp: ensure_channel_for_write_def Let_def split: option.splits)
  next
    case (Some x)
    then show ?thesis using assms(1) m by (simp add: ensure_existing_channel)
  qed
  then show ?thesis using ensure_existing_channel [OF m', of now b] by simp
qed

lemma ensure_refused_unchanged:
  "\<not> fst (ensure_channel_for_write now c b db) \<Longrightarrow> snd (ensure_channel_for_write now c b db) = db"
proof (cases "channel_metadata db c")
  case None
  assume "\<not> fst (ensure_channel_for_write now c b db)"
  then show ?thesis using None ensure_active_iff [of now c b db] by simp
qed (simp add: ensure_existing_channel)

lemma proven_writer_cong:
  "web_participants db' = web_participants db \<Longrightarrow> proven_writer ext db' = proven_writer ext db"
  by (intro HOL.ext) (simp add: proven_writer_def get_web_participant_auth_def)

lemma signed_intent_described: "signed_intent_of ext now body db = Some (who, q) \<Longrightarrow> described q"
  using signed_request_described by (auto simp: signed_intent_of_def split: sum.splits option.splits if_splits)

lemma signed_intent_stable:
  assumes wf: "system_wf ext db" and i: "signed_intent_of ext now body db = Some (who, q)"
    and ex: "execute_message_intent ext now who q (signed_prep ext now body db) = (Inr (ExecCreated m), db')"
  shows "signed_intent_of ext now body db' = Some (who, q) \<and> signed_prep ext now body db' = db'"
proof -
  obtain a db1 where e: "ensure_channel_for_write now (mr_channel q) (Some (id_instance who)) db = (a, db1)" by fastforce
  have db1: "signed_prep ext now body db = db1" using i e by (simp add: signed_prep_def)
  have "system_wf ext db1" using board_step_keeps [OF ensure_step wf, of now] e by (metis snd_conv)
  then have ev: "evidence_wf ext db1" and wp: "web_participants db' = web_participants db1"
    using created_keeps_participants ex unfolding db1 by (auto simp: system_wf_def)
  have wp': "web_participants db' = web_participants db"
    using wp ensure_channel_write_frame [of now "mr_channel q" "Some (id_instance who)" db] e by simp
  obtain x where "channel_metadata db1 (mr_channel q) = Some x"
    using ensure_makes_channel [of now "mr_channel q" "Some (id_instance who)" db] e by auto
  then have "channel_metadata (ensure_grant_schema db1) (mr_channel q) = Some x" by (simp add: channel_metadata_def)
  then have "prepared now who q db1 = ensure_grant_schema db1" by (simp add: prepared_def insert_existing_channel)
  then have "channels db' = channels db1" using created_fields(9) [OF ev ex [unfolded db1]] by simp
  from ensure_again [OF e this] have en: "ensure_channel_for_write now (mr_channel q) (Some (id_instance who)) db' = (a, db')" .
  have "signed_intent_of ext now body db' = Some (who, q)"
    using i e en by (auto simp: signed_intent_of_def proven_writer_cong [OF wp'] signed_request_channel
        split: sum.splits option.splits if_splits)
  then show ?thesis using en by (simp add: signed_prep_def)
qed

interpretation signed_post: execution_surface ext now "post_signed_message ext now" "signed_intent_of ext now"
  "signed_prep ext now" "\<lambda>_. signed_answer" "\<lambda>a. \<exists>j. a = Inr (201, j)" "\<lambda>a. \<exists>x. a = Inr x" for ext now
proof
  fix r db who q res db' m
  show "snd (post_signed_message ext now r db) = db \<and> \<not> (\<exists>x. fst (post_signed_message ext now r db) = Inr x)"
    if "signed_intent_of ext now r db = None"
    using that ensure_refused_unchanged
    by (auto simp: signed_intent_of_def post_signed_message_def case_prod_beta split: sum.splits option.splits if_splits)
  show "post_signed_message ext now r db = (signed_answer res, db')"
    if i: "signed_intent_of ext now r db = Some (who, q)"
      and ex: "execute_message_intent ext now who q (signed_prep ext now r db) = (res, db')"
  proof -
    obtain f where f: "read_signed_fields r = Inr f" "q = signed_execution_request ext f"
        "proven_writer ext db (sf_participant_id f) (sf_scheme f) (sf_proof f) (sf_message f) (sf_nonce f) = Some who"
        "fst (ensure_channel_for_write now (mf_channel (sf_message f)) (Some (id_instance who)) db)"
      using i by (auto simp: signed_intent_of_def split: sum.splits option.splits if_splits)
    show ?thesis using ex i f
      by (auto simp: post_signed_message_def signed_prep_def signed_answer_def signed_request_channel case_prod_beta
          split: sum.splits)
  qed
  show "(board_step ext)\<^sup>*\<^sup>* db (signed_prep ext now r db)"
    using ensure_step [of ext db now] by (auto simp: signed_prep_def intro: r_into_rtranclp split: option.split)
  show "\<exists>cs. signed_prep ext now r db = db\<lparr>channels := cs\<rparr>"
    using ensure_only_channels by (auto simp: signed_prep_def intro: exI [of _ "channels db"] split: option.split)
  show "signed_intent_of ext now r db = Some (who, q) \<Longrightarrow> described q" by (rule signed_intent_described)
  show "(\<exists>j. signed_answer res = Inr (201, j)) \<longleftrightarrow> (\<exists>m. res = Inr (ExecCreated m))"
    "(\<exists>x. signed_answer res = Inr x) \<longleftrightarrow> (\<exists>m. res = Inr (ExecCreated m) \<or> res = Inr (ExecExisting m))"
    by (auto simp: signed_answer_def execution_answer_def bad_request_def forbidden_def
        split: sum.split message_execution_result.split)
  show "system_wf ext db \<Longrightarrow> signed_intent_of ext now r db = Some (who, q) \<Longrightarrow>
      execute_message_intent ext now who q (signed_prep ext now r db) = (Inr (ExecCreated m), db') \<Longrightarrow>
      signed_intent_of ext now r db' = Some (who, q) \<and> signed_prep ext now r db' = db'"
    by (rule signed_intent_stable)
qed auto

lemma post_signed_steps: "(board_step ext)\<^sup>*\<^sup>* db (snd (post_signed_message ext now body db))"
  by (rule signed_post.serve_run)

lemma append_resolved_steps:
  assumes "\<And>t. mf_reply_to m = Some t \<Longrightarrow> message_exists db t"
  shows "(board_step ext)\<^sup>*\<^sup>* db (snd (append_resolved_post now who m db))"
proof -
  obtain active db1 where e: "ensure_channel_for_write now (mf_channel m) (Some (id_instance who)) db = (active, db1)" by fastforce
  have 1: "board_step ext db db1" using ensure_step [of ext db now] e by (metis snd_conv)
  have 2: "board_step ext db1 (snd (append_message now who (mf_channel m) (mf_kind m) (mf_body m) (mf_reply_to m) db1))"
    using assms message_exists_ensure [of now "mf_channel m" "Some (id_instance who)" db] e by (intro append_step) simp
  have "snd (append_resolved_post now who m db) = (if active then snd (append_message now who (mf_channel m) (mf_kind m)
      (mf_body m) (mf_reply_to m) db1) else db1)"
    using e by (simp add: append_resolved_post_def case_prod_beta split: sum.split)
  then show ?thesis using 1 2 by (auto intro: converse_rtranclp_into_rtranclp)
qed

lemma read_resolved_reply:
  "read_resolved_post ext key unix headers body db = Inr (who, m) \<Longrightarrow> mf_reply_to m = Some t \<Longrightarrow> message_exists db t"
  by (auto simp: read_resolved_post_def try_bind_Inr split: if_splits)

lemma post_message_steps: "(board_step ext)\<^sup>*\<^sup>* db (snd (post_message ext key unix now headers request db))"
proof (cases "read_json_object ext request")
  case body: (Inr body)
  show ?thesis
  proof (cases "read_resolved_post ext key unix headers body db")
    case (Inl e)
    then show ?thesis using body post_signed_steps [of ext db now body] by (simp add: post_message_def)
  next
    case (Inr wm)
    obtain who m where "wm = (who, m)" by fastforce
    then show ?thesis
      using body Inr append_resolved_steps [of m db ext now who] read_resolved_reply [of ext key unix headers body db who m]
        post_signed_steps [of ext db now body] by (simp add: post_message_def)
  qed
qed (simp add: post_message_def)

lemma admin_create_steps: "(board_step ext)\<^sup>*\<^sup>* db (snd (admin_create_channel ext key unix now headers request db))"
proof -
  have "board_step ext db (snd (create_channel now c v b db))" for c v b
    using board_step.log [of "CreateChannel now c v b" db ext] by simp
  note create = step_star [OF this]
  show ?thesis
  proof (cases "read_channel_creation ext key unix headers request db")
    case (Inr x)
    obtain a c v where x: "x = (a, c, v)" by (rule prod_cases3)
    obtain created db' where e: "create_channel now c (case v of Some v \<Rightarrow> v | None \<Rightarrow> ''private'') (Some (id_instance a)) db =
        (created, db')" by fastforce
    have "snd (admin_create_channel ext key unix now headers request db) = db'"
      unfolding admin_create_channel_def Inr x sum.case prod.case e by simp
    then show ?thesis using create e by (metis snd_conv)
  qed (simp add: admin_create_channel_def)
qed

lemma admin_update_steps: "(board_step ext)\<^sup>*\<^sup>* db (snd (admin_update_channel ext key unix now headers channel request db))"
proof -
  have "board_step ext db (snd (update_channel now c v s db))" for c v s
    using board_step.log [of "UpdateChannel now c v s" db ext] by simp
  note update = step_star [OF this]
  show ?thesis
  proof (cases "read_channel_update ext key unix headers channel request db")
    case (Inr x)
    obtain v s where x: "x = (v, s)" by fastforce
    obtain r db' where e: "update_channel now channel v s db = (r, db')" by fastforce
    have "snd (admin_update_channel ext key unix now headers channel request db) = db'"
      unfolding admin_update_channel_def Inr x sum.case prod.case e by (cases r) simp_all
    then show ?thesis using update e by (metis snd_conv)
  qed (simp add: admin_update_channel_def)
qed

lemma register_steps: "(board_step ext)\<^sup>*\<^sup>* db (snd (register ext now rk draws headers request db))"
proof -
  have "(board_step ext)\<^sup>*\<^sup>* db (snd (register_identity ext now s l draws db))" for s l
    using step_star [OF board_step.identity [of ext db "Register now s l draws"]] by simp
  then have r: "register_identity ext now s l draws db = (r, db') \<Longrightarrow> (board_step ext)\<^sup>*\<^sup>* db db'" for s l r db'
    by (metis snd_conv)
  show ?thesis unfolding register_def
    by (simp split: option.split sum.split json.split prod.split) (blast intro: r)
qed

lemma auth_totp_steps: "(board_step ext)\<^sup>*\<^sup>* db (snd (auth_totp ext key unix now request db))"
proof -
  have "(board_step ext)\<^sup>*\<^sup>* db (snd (authenticate_web_totp ext now p c unix db))" for p c
    using step_star [OF board_step.participant [of ext db "AuthenticateTotp now p c unix"]] by simp
  then have r: "authenticate_web_totp ext now p c unix db = (r, db') \<Longrightarrow> (board_step ext)\<^sup>*\<^sup>* db db'" for p c r db'
    by (metis snd_conv)
  show ?thesis unfolding auth_totp_def
    by (simp split: option.split sum.split prod.split) (blast intro: r)
qed

lemma reachable_run: "(board_step ext)\<^sup>*\<^sup>* db db' \<Longrightarrow> reachable ext db \<Longrightarrow> reachable ext db'"
  by (induction rule: rtranclp_induct) (auto intro: reachable.step)

section \<open>Properties\<close>

text \<open>HTTP requests keep the board sound.  Whatever the headers and bodies, signing in, registering, posting
  (with a session, a token or a proof) and administering channels take a reachable board to a reachable board;
  in particular the validation of a signed post discharges what the executor assumes of a request's metadata.\<close>

theorem http_requests_keep_reachable:
  assumes "reachable ext db"
  shows "reachable ext (snd (post_message ext key unix now headers request db)) \<and>
    reachable ext (snd (auth_totp ext key unix now request db)) \<and>
    reachable ext (snd (register ext now registration_key draws headers request db)) \<and>
    reachable ext (snd (admin_create_channel ext key unix now headers request db)) \<and>
    reachable ext (snd (admin_update_channel ext key unix now headers channel request db))"
  by (intro conjI) (rule reachable_run [OF _ assms], rule post_message_steps auth_totp_steps register_steps
      admin_create_steps admin_update_steps)+

theorem http_requests_keep_reachable_witness:
  "reachable sample_externals (snd (post_message sample_externals [] 9 9 [(''authorization'', ''Bearer t'')] [0] sample_provisioned))"
  using http_requests_keep_reachable [OF sample_provisioned_reachable] by blast



section \<open>Signed posts\<close>

lemma length_hex: "length (hex bs) = 2 * length bs"
  by (induction bs) (simp_all add: hex_def hex_byte_def)

text \<open>A participant with a secret, and a post it signed.\<close>

definition sample_secret :: string where
  "sample_secret = SECRET_PREFIX @ hex (replicate 32 7)"

definition sample_hmac_board :: board where
  "sample_hmac_board = participant_effect sample_externals (SetAuthSecret 6 ''ada'' sample_secret) sample_provisioned"

lemma decode_sample_secret: "decode_secret sample_externals sample_secret = Some (replicate 32 7)"
proof -
  have "length (hex (replicate 32 7)) = 64" by (simp only: length_hex length_replicate)
  then have "hex (replicate 32 7) \<noteq> []" by auto
  moreover have "b64_decode sample_externals = unhex" by (simp add: sample_externals_def)
  ultimately show ?thesis by (simp add: decode_secret_def sample_secret_def Let_def unhex_hex)
qed

lemma sample_hmac_facts:
  "reachable sample_externals sample_hmac_board" "channels sample_hmac_board = []" "messages sample_hmac_board = []"
  "navigation_writes sample_hmac_board = []" "ingress_provenance sample_hmac_board = []"
  "principal_grants sample_hmac_board = []"
  "web_participants sample_hmac_board = [(new_participant 5 ''ada'' ''human'' None)
     \<lparr>p_auth_secret := Some sample_secret, p_auth_scheme := Some AUTH_SCHEME, p_updated_at := 6\<rparr>]"
proof -
  show "reachable sample_externals sample_hmac_board"
    unfolding sample_hmac_board_def by (rule reachable.step [OF sample_provisioned_reachable board_step.participant])
  have v: "validate_participant_id ''ada'' \<noteq> None" by code_simp
  have "validate_secret sample_externals sample_secret" by (simp add: validate_secret_def decode_sample_secret)
  then have b: "sample_hmac_board = sample_provisioned\<lparr>web_participants := [(new_participant 5 ''ada'' ''human'' None)
     \<lparr>p_auth_secret := Some sample_secret, p_auth_scheme := Some AUTH_SCHEME, p_updated_at := 6\<rparr>]\<rparr>"
    using v by (simp add: sample_hmac_board_def set_web_participant_auth_secret_def update_participant_def
        sample_provisioned_def new_participant_def sql_update_def sql_count_def)
  show "channels sample_hmac_board = []" "messages sample_hmac_board = []" "navigation_writes sample_hmac_board = []"
    "ingress_provenance sample_hmac_board = []" "principal_grants sample_hmac_board = []"
    "web_participants sample_hmac_board = [(new_participant 5 ''ada'' ''human'' None)
     \<lparr>p_auth_secret := Some sample_secret, p_auth_scheme := Some AUTH_SCHEME, p_updated_at := 6\<rparr>]"
    by (simp_all add: b sample_provisioned_def empty_board_def)
qed

definition sample_signed_body :: "string \<Rightarrow> json_map" where
  "sample_signed_body proof_text =
     [(''auth'', JObj [(''proof'', JStr proof_text), (''scheme'', JStr AUTH_SCHEME)]), (''body'', JStr ''hi''),
      (''channel'', JStr ''lab''), (''nonce'', JStr ''n1''), (''participant_id'', JStr ''ada'')]"

lemma sample_signed_fields:
  assumes "p \<noteq> []" "length p \<le> 256"
  shows "read_signed_fields (sample_signed_body p) =
    Inr \<lparr>sf_participant_id = ''ada'',
      sf_message = \<lparr>mf_channel = ''lab'', mf_kind = ''message'', mf_body = ''hi'', mf_reply_to = None\<rparr>,
      sf_nonce = ''n1'', sf_scheme = AUTH_SCHEME, sf_proof = p\<rparr>"
proof -
  have v: "validate_participant_id ''ada'' = Some ''ada''" "name_re ''lab''" "nonce_re ''n1''" by code_simp+
  have nb: "\<not> blank ''hi''" by (simp add: trim_graphic graphic_def ascii_simps)
  have m: "read_message_fields (sample_signed_body p) =
      Inr \<lparr>mf_channel = ''lab'', mf_kind = ''message'', mf_body = ''hi'', mf_reply_to = None\<rparr>"
    using v(2) nb by (simp add: read_message_fields_def sample_signed_body_def try_bind_def ok_or_def text_field_def
        as_str_def kind_field_def reply_to_field_def MAX_BODY_BYTES_def)
  have keys: "only_keys (sample_signed_body p)
      [''participant_id'', ''channel'', ''kind'', ''body'', ''reply_to'', ''nonce'', ''auth'']"
    by (simp add: only_keys_def sample_signed_body_def)
  have get: "map_of (sample_signed_body p) ''participant_id'' = Some (JStr ''ada'')"
    "map_of (sample_signed_body p) ''nonce'' = Some (JStr ''n1'')"
    "map_of (sample_signed_body p) ''auth'' = Some (JObj [(''proof'', JStr p), (''scheme'', JStr AUTH_SCHEME)])"
    by (simp_all add: sample_signed_body_def)
  have akeys: "only_keys [(''proof'', JStr p), (''scheme'', JStr AUTH_SCHEME)] AUTH_KEYS"
    by (simp add: only_keys_def AUTH_KEYS_def)
  show ?thesis using v(1,3) assms
    by (simp add: read_signed_fields_def keys akeys m get try_bind_def ok_or_def text_field_def as_str_def as_object_def)
qed

lemma sample_signed_post:
  obtains p j db' where "post_signed_message sample_externals 9 (sample_signed_body p) sample_hmac_board = (Inr (201, j), db')"
    and "length p = 64"
proof -
  let ?bytes = "canonical_write_bytes_with_intent sample_externals ''ada'' ''lab'' ''message'' ''hi'' None ''n1'' None"
  obtain tag where tag: "hmac_sha256 sample_externals (replicate 32 7) ?bytes = tag" "length tag = 32"
    by (simp add: sample_externals_def)
  define p where "p = hex tag"
  have lp: "length p = 64" using tag(2) by (simp add: p_def length_hex)
  then have p: "p \<noteq> []" "length p \<le> 256" by auto
  let ?m = "\<lparr>mf_channel = ''lab'', mf_kind = ''message'', mf_body = ''hi'', mf_reply_to = None\<rparr>"
  let ?f = "\<lparr>sf_participant_id = ''ada'', sf_message = ?m, sf_nonce = ''n1'', sf_scheme = AUTH_SCHEME, sf_proof = p\<rparr>"
  let ?q = "signed_execution_request sample_externals ?f"
  have "b64_decode sample_externals = unhex" by (simp add: sample_externals_def)
  then have ok: "verify_write_proof sample_externals sample_secret p ''ada'' ''lab'' ''message'' ''hi'' None ''n1''"
    using tag by (simp add: verify_write_proof_def verify_write_proof_with_intent_def verify_message_proof_def
        decode_sample_secret p_def unhex_hex)
  have va: "validate_participant_id ''ada'' \<noteq> None" by code_simp
  have w: "proven_writer sample_externals sample_hmac_board ''ada'' AUTH_SCHEME p ?m ''n1'' = Some sample_who"
    using ok va by (simp add: proven_writer_def get_web_participant_auth_def sample_hmac_facts(7) new_participant_def
        identity_of_participant_def sample_who_def)
  obtain active db1 where e: "ensure_channel_for_write 9 ''lab'' (Some ''ada'') sample_hmac_board = (active, db1)" by fastforce
  have who: "id_instance sample_who = ''ada''" by (simp add: sample_who_def)
  have act: "active" using ensure_active_iff [of 9 "''lab''" "Some ''ada''" sample_hmac_board] e sample_hmac_facts(2)
    by (simp add: channel_metadata_def)
  have r1: "reachable sample_externals db1"
    using reachable.step [OF sample_hmac_facts(1) ensure_step [of sample_externals _ 9]] e by (metis snd_conv)
  obtain cs where cs: "db1 = sample_hmac_board\<lparr>channels := cs\<rparr>"
    using ensure_only_channels [of 9 "''lab''" "Some ''ada''" sample_hmac_board] e by auto
  have ca: "channel_active ?q db1"
    using ensure_again [OF e refl] ensure_active_iff [of 9 "''lab''" "Some ''ada''" db1] act
    by (simp add: channel_active_def signed_execution_request_def Let_def)
  have al: "ad_allowed (decision_of 9 ?q db1)"
    by (simp add: decision_of_def evaluate_cases participant_policy_row_def cs sample_hmac_facts(6,7) new_participant_def
        signed_execution_request_def Let_def implicit_authority_reason_def POST_MESSAGE_CAPABILITY_def capability_names)
  have b: "request_bound sample_externals sample_who ?q"
    by (simp add: request_bound_def signed_execution_request_def Let_def who)
  have d: "described ?q" by (rule signed_request_described [OF sample_signed_fields [OF p]])
  obtain m db' where ex: "execute_message_intent sample_externals 9 sample_who ?q db1 = (Inr (ExecCreated m), db')"
    by (rule first_execution [OF r1 d b al ca]) (simp_all add: cs sample_hmac_facts signed_execution_request_def Let_def)
  have "post_signed_message sample_externals 9 (sample_signed_body p) sample_hmac_board =
      (Inr (201, executed_json ''created'' False m), db')"
    using w e act ex by (simp add: post_signed_message_def sample_signed_fields [OF p] who execution_answer_def)
  with that show thesis using lp .
qed

text \<open>C8: Signed posts are authenticated and authorized.  On a reachable board a signed post is answered with
  success only if the participant it names is active and holds the secret with which the proof was made over
  exactly this channel, kind, body, reply target and nonce, and the policy allows the participant to post to the
  channel; a post that is refused, for whatever reason, adds no message.\<close>

theorem signed_posts_authorized:
  assumes "reachable ext db" and "post_signed_message ext now body db = (answer, db')"
  shows "(\<forall>a. answer = Inr a \<longrightarrow> (\<exists>f m r secret. read_signed_fields body = Inr f \<and> m = sf_message f \<and>
      r \<in> set (web_participants db) \<and> p_participant_id r = sf_participant_id f \<and> p_status r = ''active'' \<and>
      p_auth_secret r = Some secret \<and>
      verify_write_proof ext secret (sf_proof f) (sf_participant_id f) (mf_channel m) (mf_kind m) (mf_body m)
        (mf_reply_to m) (sf_nonce f) \<and>
      policy_allows now db \<lparr>provider = ''participant-hmac'', subject = sf_participant_id f\<rparr> (sf_participant_id f)
        POST_MESSAGE_CAPABILITY (Some (mf_channel m)) (Some (sf_nonce f)))) \<and>
    (\<forall>e. answer = Inl e \<longrightarrow> messages db' = messages db)"
proof (intro conjI allI impI)
  fix a assume a: "answer = Inr a"
  then have "\<exists>x. fst (post_signed_message ext now body db) = Inr x" using assms(2) by simp
  from signed_post.accepted_authorized [OF reachable_system_wf [OF assms(1)] this]
  obtain who q where q: "signed_intent_of ext now body db = Some (who, q)" "request_allowed now db q" by blast
  then obtain f where f: "read_signed_fields body = Inr f" "q = signed_execution_request ext f"
      "proven_writer ext db (sf_participant_id f) (sf_scheme f) (sf_proof f) (sf_message f) (sf_nonce f) = Some who"
    by (auto simp: signed_intent_of_def split: sum.splits option.splits if_splits)
  obtain auth where auth: "get_web_participant_auth db (sf_participant_id f) = Some auth"
      "verify_write_proof ext (pa_auth_secret auth) (sf_proof f) (sf_participant_id f) (mf_channel (sf_message f))
        (mf_kind (sf_message f)) (mf_body (sf_message f)) (mf_reply_to (sf_message f)) (sf_nonce f)"
    using f(3) by (auto simp: proven_writer_def split: option.splits if_splits)
  obtain r where "r \<in> set (web_participants db)" "p_participant_id r = sf_participant_id f" "p_status r = ''active''"
      "p_auth_secret r = Some (pa_auth_secret auth)" by (rule participant_authD [OF auth(1)])
  moreover have "policy_allows now db \<lparr>provider = ''participant-hmac'', subject = sf_participant_id f\<rparr> (sf_participant_id f)
        POST_MESSAGE_CAPABILITY (Some (mf_channel (sf_message f))) (Some (sf_nonce f))"
    using q(2) by (simp add: request_allowed_def f(2) signed_execution_request_def Let_def)
  ultimately show "\<exists>f m r secret. read_signed_fields body = Inr f \<and> m = sf_message f \<and>
      r \<in> set (web_participants db) \<and> p_participant_id r = sf_participant_id f \<and> p_status r = ''active'' \<and>
      p_auth_secret r = Some secret \<and>
      verify_write_proof ext secret (sf_proof f) (sf_participant_id f) (mf_channel m) (mf_kind m) (mf_body m)
        (mf_reply_to m) (sf_nonce f) \<and>
      policy_allows now db \<lparr>provider = ''participant-hmac'', subject = sf_participant_id f\<rparr> (sf_participant_id f)
        POST_MESSAGE_CAPABILITY (Some (mf_channel m)) (Some (sf_nonce f))" using f(1) auth(2) by blast
next
  fix e assume "answer = Inl e"
  then show "messages db' = messages db"
    using signed_post.not_accepted_messages [of ext now body db] assms(2) by simp
qed

theorem signed_posts_authorized_witness:
  "\<exists>p. policy_allows 9 sample_hmac_board \<lparr>provider = ''participant-hmac'', subject = p\<rparr> p POST_MESSAGE_CAPABILITY
     (Some ''lab'') (Some ''n1'')"
proof (rule sample_signed_post)
  fix p j db'
  assume post: "post_signed_message sample_externals 9 (sample_signed_body p) sample_hmac_board = (Inr (201, j), db')"
  then obtain f where f: "read_signed_fields (sample_signed_body p) = Inr f"
    "policy_allows 9 sample_hmac_board \<lparr>provider = ''participant-hmac'', subject = sf_participant_id f\<rparr>
       (sf_participant_id f) POST_MESSAGE_CAPABILITY (Some (mf_channel (sf_message f))) (Some (sf_nonce f))"
    using signed_posts_authorized [OF sample_hmac_facts(1) post] by blast
  have "sf_nonce f = ''n1'' \<and> mf_channel (sf_message f) = ''lab''"
    using f(1) by (auto simp: read_signed_fields_def read_message_fields_def sample_signed_body_def try_bind_Inr
        ok_or_Inr text_field_def as_str_def split: if_splits option.splits)
  then show ?thesis using f(2) by auto
qed

text \<open>A signed post takes effect once.  On a reachable board, when a signed post was answered 201 with a new
  message, sending the same post again is answered 200 with that same message and adds nothing to the log.\<close>

theorem signed_post_replayed:
  assumes "reachable ext db" and "post_signed_message ext now body db = (Inr (201, j), db')"
  shows "\<exists>m db''. j = executed_json ''created'' False m \<and> messages db' = messages db @ [m] \<and>
    post_signed_message ext now body db' = (Inr (200, executed_json ''existing'' True m), db'') \<and>
    messages db'' = messages db'"
proof -
  have s: "fst (post_signed_message ext now body db) = Inr (201, j)" "snd (post_signed_message ext now body db) = db'"
    using assms(2) by simp_all
  obtain m db'' where m: "Inr (201, j) = signed_answer (Inr (ExecCreated m))" "messages db' = messages db @ [m]"
    "post_signed_message ext now body db' = (signed_answer (Inr (ExecExisting m)), db'')" "messages db'' = messages db'"
    by (rule signed_post.serve_replayed [OF reachable_system_wf [OF assms(1)], of now body]) (use s in auto)
  then show ?thesis by (auto simp: signed_answer_def execution_answer_def)
qed

theorem signed_post_replayed_witness:
  "\<exists>body db' db'' m j. post_signed_message sample_externals 9 body sample_hmac_board = (Inr (201, j), db') \<and>
     post_signed_message sample_externals 9 body db' = (Inr (200, executed_json ''existing'' True m), db'') \<and>
     messages db' = [m] \<and> messages db'' = [m]"
proof (rule sample_signed_post)
  fix p j db'
  assume "post_signed_message sample_externals 9 (sample_signed_body p) sample_hmac_board = (Inr (201, j), db')"
  from this signed_post_replayed [OF sample_hmac_facts(1) this] show ?thesis
    unfolding sample_hmac_facts(3) append_Nil by metis
qed

section \<open>Deactivated participants\<close>

text \<open>C35: A deactivated participant can still write through a live session.  After the participant was set
  inactive, a post with a human-web session token issued before, that has not expired, is accepted: the message is
  appended to the log under the participant's name, although the participant has no authority left (every
  authorization for it is denied).\<close>

theorem deactivated_session_still_posts:
  assumes "verified_web_session ext key unix headers = Some session" and "ws_session_type session = HumanWeb"
    and "set_web_participant_status clock (ws_participant_id session) ''inactive'' db = (Inr True, db1)"
    and "read_json_object ext request = Inr body" and "read_message_fields body = Inr m"
    and "only_keys body [''channel'', ''kind'', ''body'']"
    and "fst (ensure_channel_for_write now (mf_channel m) (Some (ws_participant_id session)) db1)"
  shows "\<exists>row db2. post_message ext key unix now headers request db1 =
      (Inr (201, json_object [(''message'', message_json row)]), db2) \<and>
    messages db2 = messages db1 @ [row] \<and> m_instance row = ws_participant_id session \<and> m_body row = mf_body m \<and>
    (\<forall>actor cap res intent. \<not> ad_allowed (evaluate_authorization_current_schema clock db1 actor
       (ws_participant_id session) cap res intent))"
proof -
  let ?p = "ws_participant_id session"
  have keys: "k \<in> {''channel'', ''kind'', ''body''}" if "map_of body k = Some v" for k v
    using assms(6) map_of_SomeD [OF that] unfolding only_keys_def list_all_iff by fastforce
  then have none: "map_of body k = None" if "k \<notin> {''channel'', ''kind'', ''body''}" for k
    using that by (cases "map_of body k") blast+
  obtain who where who: "id_instance who = ?p" "resolve_request_identity ext key unix db1 headers = Some who"
    using deactivated_session_still_resolves [OF assms(1-3)] by blast
  have noreply: "mf_reply_to m = None"
    using assms(5) none [of "''reply_to''"]
    by (auto simp: read_message_fields_def try_bind_Inr reply_to_field_def split: if_splits)
  have read: "read_resolved_post ext key unix headers body db1 = Inr (who, m)"
    using who(2) assms(5) noreply by (simp add: read_resolved_post_def require_identity_def ok_or_def try_bind_def)
  obtain active db' where e: "ensure_channel_for_write now (mf_channel m) (Some (id_instance who)) db1 = (active, db')" by fastforce
  then have act: "active" and same: "messages db' = messages db1"
    using assms(7) who(1) ensure_channel_write_frame(1) [of now "mf_channel m" "Some (id_instance who)" db1] by simp_all
  obtain res db2 where a: "append_message now who (mf_channel m) (mf_kind m) (mf_body m) (mf_reply_to m) db' = (res, db2)"
    by fastforce
  note r = append_message_result [OF a]
  obtain row where row: "res = Inr row" using r(1) by simp
  have f: "messages db2 = messages db1 @ [row]" "m_instance row = ?p" "m_body row = mf_body m"
    using r row who(1) same by (simp_all add: ensure_channel_def)
  have "append_resolved_post now who m db1 = (Inr (201, json_object [(''message'', message_json row)]), db2)"
    using e act a row by (simp add: append_resolved_post_def)
  moreover have "post_message ext key unix now headers request db1 = append_resolved_post now who m db1"
    using assms(1,2,4) none read by (simp add: post_message_def)
  moreover have "\<not> ad_allowed (evaluate_authorization_current_schema clock db1 actor ?p cap res intent)" for actor cap res intent
  proof
    assume "ad_allowed (evaluate_authorization_current_schema clock db1 actor ?p cap res intent)"
    then obtain row where row: "participant_policy_row db1 ?p = Some row" "pp_status row = ''active''"
      using allowed_participant_active by blast
    then show False using inactive_rows [OF assms(3)] by (auto simp: participant_policy_row_def dest!: find_SomeD)
  qed
  ultimately show ?thesis using f by (simp add: exI [of _ row] exI [of _ db2])
qed

definition sample_post_body :: json_map where
  "sample_post_body = [(''body'', JStr ''hi''), (''channel'', JStr ''lab'')]"

lemma sample_post_fields:
  "read_message_fields sample_post_body = Inr \<lparr>mf_channel = ''lab'', mf_kind = ''message'', mf_body = ''hi'', mf_reply_to = None\<rparr>"
  "only_keys sample_post_body [''channel'', ''kind'', ''body'']"
proof -
  have "name_re ''lab''" by code_simp
  moreover have "\<not> blank ''hi''" by (simp add: trim_graphic graphic_def ascii_simps)
  ultimately show "read_message_fields sample_post_body =
      Inr \<lparr>mf_channel = ''lab'', mf_kind = ''message'', mf_body = ''hi'', mf_reply_to = None\<rparr>"
    by (simp add: read_message_fields_def sample_post_body_def try_bind_def ok_or_def text_field_def as_str_def
        kind_field_def reply_to_field_def MAX_BODY_BYTES_def)
  show "only_keys sample_post_body [''channel'', ''kind'', ''body'']"
    by (simp add: only_keys_def sample_post_body_def)
qed

text \<open>External functions under which \<open>[1]\<close> is the JSON text of a given body.\<close>

definition body_externals :: "json_map \<Rightarrow> externals" where
  "body_externals body = sample_externals
     \<lparr>json_to_vec := (\<lambda>v. if v = JObj body then [1] else json_to_vec sample_externals v),
      json_from_slice := (\<lambda>bs. if bs = [1] then Some (JObj body) else json_from_slice sample_externals bs)\<rparr>"

lemma body_externals_faithful:
  "json_faithful (body_externals body)" "base64_faithful (body_externals body)" "b64_encode (body_externals body) = hex"
  "read_json_object (body_externals body) [1] = Inr body"
proof -
  have "replicate n 0 \<noteq> [1 :: 8 word]" for n by (cases n) simp_all
  then show "json_faithful (body_externals body)"
    by (simp add: json_faithful_def body_externals_def sample_externals_def)
  show "base64_faithful (body_externals body)"
    using sample_base64_faithful by (simp add: base64_faithful_def body_externals_def)
  show "b64_encode (body_externals body) = hex" by (simp add: body_externals_def sample_externals_def)
  show "read_json_object (body_externals body) [1] = Inr body"
    by (simp add: read_json_object_def body_externals_def as_object_def ok_or_def MAX_BODY_BYTES_def)
qed

theorem deactivated_session_still_posts_witness:
  "\<exists>headers db1 db2 row. set_web_participant_status 7 ''ada'' ''inactive'' sample_provisioned = (Inr True, db1) \<and>
     snd (post_message (body_externals sample_post_body) [1] 9 9 headers [1] db1) = db2 \<and> messages db2 = [row] \<and>
     m_instance row = ''ada''"
proof -
  let ?ext = "body_externals sample_post_body"
  obtain s h where s: "verified_web_session ?ext [1] 9 h = Some s" "ws_session_type s = HumanWeb"
    "ws_participant_id s = ''ada''"
    using sample_session [OF body_externals_faithful(1-3), of "''ada''" HumanWeb 9 sample_post_body "[1]"] by auto
  have v: "validate_participant_id ''ada'' = Some ''ada''" by code_simp
  obtain db1 where d: "set_web_participant_status 7 ''ada'' ''inactive'' sample_provisioned = (Inr True, db1)"
    and c: "channels db1 = []" "messages db1 = []"
    by (simp add: set_web_participant_status_def v update_participant_def sample_provisioned_def empty_board_def
        new_participant_def sql_count_def)
  have "fst (ensure_channel_for_write 9 ''lab'' (Some ''ada'') db1)"
    using c by (simp add: ensure_channel_for_write_def ensure_channel_def insert_channel_or_ignore_def default_visibility_def
        channel_metadata_def Let_def)
  then have active: "fst (ensure_channel_for_write 9 (mf_channel \<lparr>mf_channel = ''lab'', mf_kind = ''message'',
      mf_body = ''hi'', mf_reply_to = None\<rparr>) (Some (ws_participant_id s)) db1)" by (simp only: s(3) message_fields.select_convs)
  have d': "set_web_participant_status 7 (ws_participant_id s) ''inactive'' sample_provisioned = (Inr True, db1)"
    by (simp only: d s(3))
  obtain row db2 where "post_message ?ext [1] 9 9 h [1] db1 = (Inr (201, json_object [(''message'', message_json row)]), db2)"
      "messages db2 = messages db1 @ [row]" "m_instance row = ws_participant_id s"
    using deactivated_session_still_posts [OF s(1,2) d' body_externals_faithful(4) sample_post_fields active] by blast
  then have "snd (post_message ?ext [1] 9 9 h [1] db1) = db2 \<and> messages db2 = [row] \<and> m_instance row = ''ada''"
    by (simp add: c s(3))
  then show ?thesis using d by blast
qed

end
