(* ===== verification/Github_Webhook.thy ===== *)
theory Github_Webhook
  imports Http_Surface
begin

unbundle bit_operations_syntax

text \<open>
  The GitHub webhook (\<open>github_webhook.rs\<close>): an issue opened in the configured repository by an admitted author
  carries a message intent in its body; the webhook verifies the signature, checks the event, validates the
  intent and executes it with the sender as the principal.

  The structs with \<open>derive(Deserialize)\<close> are records; the deserializers the macro generates are the arguments
  \<open>parse_event\<close> and \<open>parse_intent\<close>.  The lemmas show that an execution is a step of the board and that whatever the
  webhook changes was signed, came from the configured repository and acts for the sender of the event.
\<close>

section \<open>Events and intents\<close>

record github_actor =
  ga_id :: nat
  ga_login :: string

record github_issue =
  gi_number :: int
  gi_title :: string
  gi_body :: "string option"
  gi_author_association :: string
  gi_user :: github_actor

record github_issue_event =
  ge_action :: string
  ge_repository_id :: nat
  ge_sender :: github_actor
  ge_issue :: github_issue

record blackboard_issue_intent =
  bi_intent_id :: "string option"
  bi_participant_id :: string
  bi_conversation_ref :: "string option"
  bi_channel :: string
  bi_kind :: "string option"
  bi_body :: string
  bi_reply_to :: "int option"

record github_parsers =
  parse_event :: "bytes \<Rightarrow> github_issue_event option"
  parse_intent :: "string \<Rightarrow> blackboard_issue_intent option"

record github_webhook_state =
  gs_webhook_secret :: "string option"
  gs_repository_id :: "nat option"

text \<open>The configuration, read from the environment.\<close>

definition github_webhook_from_env :: "(string \<Rightarrow> string option) \<Rightarrow> github_webhook_state" where
  "github_webhook_from_env env =
     \<lparr>gs_webhook_secret =
        (case env ''BLACKBOARD_GITHUB_WEBHOOK_SECRET'' of Some v \<Rightarrow> if v = [] then None else Some v | None \<Rightarrow> None),
      gs_repository_id = Option.bind (env ''BLACKBOARD_GITHUB_REPOSITORY_ID'') parse_usize\<rparr>"

definition TITLE_PREFIX :: string where "TITLE_PREFIX = ''[blackboard]''"

definition MAX_CONVERSATION_REF_BYTES :: nat where "MAX_CONVERSATION_REF_BYTES = 256"

definition github_channel_re :: "string \<Rightarrow> bool" where "github_channel_re = name_shape ''._:-'' 127"

definition github_kind_re :: "string \<Rightarrow> bool" where "github_kind_re = name_shape ''._:-'' 63"

section \<open>The signature\<close>

definition hex_nibble :: "char \<Rightarrow> nat option" where
  "hex_nibble c =
     (if CHR ''0'' \<le> c \<and> c \<le> CHR ''9'' then Some (of_char c - 48)
      else if CHR ''a'' \<le> c \<and> c \<le> CHR ''f'' then Some (of_char c - 97 + 10)
      else if CHR ''A'' \<le> c \<and> c \<le> CHR ''F'' then Some (of_char c - 65 + 10)
      else None)"

fun decode_hex_chunks :: "string \<Rightarrow> bytes option" where
  "decode_hex_chunks (c # d # cs) =
     (case (hex_nibble c, hex_nibble d, decode_hex_chunks cs) of
        (Some high, Some low, Some rest) \<Rightarrow> Some ((push_bit 4 (of_nat high) OR of_nat low) # rest)
      | _ \<Rightarrow> None)"
| "decode_hex_chunks _ = Some []"

definition decode_hex_32 :: "string \<Rightarrow> bytes option" where
  "decode_hex_32 value = (if length value \<noteq> 64 then None else decode_hex_chunks value)"

definition SIGNATURE_PREFIX :: string where "SIGNATURE_PREFIX = ''sha256=''"

definition verify_github_signature :: "externals \<Rightarrow> string \<Rightarrow> string \<Rightarrow> bytes \<Rightarrow> bool" where
  "verify_github_signature ext secret signature body =
     (if \<not> prefix SIGNATURE_PREFIX signature then False
      else (case decode_hex_32 (drop (length SIGNATURE_PREFIX) signature) of
              None \<Rightarrow> False
            | Some tag \<Rightarrow> hmac_sha256 ext (as_bytes secret) body = tag))"

section \<open>Reading an event\<close>

definition github_error :: "nat \<Rightarrow> string \<Rightarrow> 'a api" where "github_error status code = Inl (status, code)"

definition read_github_event ::
    "externals \<Rightarrow> github_parsers \<Rightarrow> github_webhook_state \<Rightarrow> header_map \<Rightarrow> bytes \<Rightarrow> github_issue_event api" where
  "read_github_event ext parsers state headers body =
     (case (gs_webhook_secret state, gs_repository_id state) of
        (Some secret, Some expected_repository_id) \<Rightarrow>
          if Option.bind (map_of headers ''x-github-event'') header_to_str \<noteq> Some ''issues''
          then github_error 400 ''unsupported_github_event''
          else (case Option.bind (map_of headers ''x-hub-signature-256'') header_to_str of
            None \<Rightarrow> github_error 401 ''invalid_github_signature''
          | Some signature \<Rightarrow>
              if \<not> verify_github_signature ext secret signature body
              then github_error 401 ''invalid_github_signature''
              else (case parse_event parsers body of
                None \<Rightarrow> github_error 400 ''invalid_github_payload''
              | Some event \<Rightarrow>
                  if ge_action event \<noteq> ''opened'' then github_error 422 ''unsupported_github_action''
                  else if ge_repository_id event \<noteq> expected_repository_id
                  then github_error 403 ''github_repository_mismatch''
                  else if \<not> prefix TITLE_PREFIX (gi_title (ge_issue event))
                  then github_error 422 ''not_blackboard_issue''
                  else if ga_id (ge_sender event) \<noteq> ga_id (gi_user (ge_issue event))
                  then github_error 403 ''github_actor_mismatch''
                  else if gi_author_association (ge_issue event) \<notin> {''OWNER'', ''MEMBER'', ''COLLABORATOR''}
                  then github_error 403 ''github_author_not_admitted''
                  else Inr event))
      | _ \<Rightarrow> github_error 503 ''github_webhook_not_configured'')"

section \<open>Reading the intent\<close>

definition normalize_conversation_ref :: "string option \<Rightarrow> string option option" where
  "normalize_conversation_ref v =
     (case v of
        None \<Rightarrow> Some None
      | Some s \<Rightarrow>
          (let t = trim s in
           if t = [] \<or> MAX_CONVERSATION_REF_BYTES < length t \<or> has_control t then None else Some (Some t)))"

record webhook_intent =
  wi_participant_id :: string
  wi_channel :: string
  wi_kind :: string
  wi_body :: string
  wi_reply_to :: "int option"
  wi_conversation_ref :: "string option"
  wi_intent_id :: string
  wi_delivery_id :: string

definition read_issue_intent :: "github_parsers \<Rightarrow> github_issue_event \<Rightarrow> webhook_intent api" where
  "read_issue_intent parsers event =
     (case Option.bind (gi_body (ge_issue event)) (parse_intent parsers) of
        None \<Rightarrow> github_error 400 ''invalid_blackboard_intent''
      | Some intent \<Rightarrow>
          if validate_participant_id (bi_participant_id intent) = None \<or>
             \<not> github_channel_re (bi_channel intent) \<or> blank (bi_body intent) \<or>
             MAX_BODY_BYTES < length (bi_body intent)
          then github_error 400 ''invalid_blackboard_intent''
          else (let kind = (case bi_kind intent of Some k \<Rightarrow> k | None \<Rightarrow> ''message'') in
            if \<not> github_kind_re kind \<or> (case bi_reply_to intent of Some t \<Rightarrow> t \<le> 0 | None \<Rightarrow> False)
            then github_error 400 ''invalid_blackboard_intent''
            else (case normalize_conversation_ref (bi_conversation_ref intent) of
              None \<Rightarrow> github_error 400 ''invalid_blackboard_intent''
            | Some conversation_ref \<Rightarrow>
                (case github_intent_id (bi_intent_id intent) (ge_repository_id event) (gi_number (ge_issue event)) of
                   None \<Rightarrow> github_error 400 ''invalid_blackboard_intent''
                 | Some intent_id \<Rightarrow>
                     Inr \<lparr>wi_participant_id = bi_participant_id intent, wi_channel = bi_channel intent,
                          wi_kind = kind, wi_body = bi_body intent, wi_reply_to = bi_reply_to intent,
                          wi_conversation_ref = conversation_ref, wi_intent_id = intent_id,
                          wi_delivery_id =
                            github_delivery_id (ge_repository_id event) (gi_number (ge_issue event))\<rparr>))))"

section \<open>Executing it\<close>

definition webhook_execution_request ::
    "externals \<Rightarrow> github_issue_event \<Rightarrow> webhook_intent \<Rightarrow> message_execution_request" where
  "webhook_execution_request ext event i =
     (let principal = \<lparr>provider = GITHUB_PROVIDER, subject = dec (ga_id (ge_sender event))\<rparr>
      in \<lparr>mr_authority = \<lparr>au_principal = principal, au_mechanism = ''github-webhook-hmac-sha256''\<rparr>,
          mr_ingress = \<lparr>ig_delivery_id = wi_delivery_id i, ig_intent_id = wi_intent_id i,
            ig_transport = ''github-webhook'', ig_external_ref = wi_delivery_id i, ig_principal = principal\<rparr>,
          mr_intent = \<lparr>it_intent_id = wi_intent_id i, it_participant_id = wi_participant_id i,
            it_conversation_ref = wi_conversation_ref i, it_capability = POST_MESSAGE_CAPABILITY,
            it_resource = wi_channel i,
            it_request_hash = message_request_hash ext (wi_channel i) (wi_kind i) (wi_body i)
              (wi_conversation_ref i) (wi_reply_to i)\<rparr>,
          mr_channel = wi_channel i, mr_kind = wi_kind i, mr_body = wi_body i, mr_reply_to = wi_reply_to i\<rparr>)"

datatype webhook_write_result =
    WebhookCreated int
  | WebhookExisting int
  | WebhookNonceConflict
  | WebhookReplyTargetNotFound
  | WebhookChannelArchived
  | WebhookAuthorizationDenied

fun webhook_result :: "message_execution_result \<Rightarrow> webhook_write_result" where
  "webhook_result (ExecCreated m) = WebhookCreated (m_id m)"
| "webhook_result (ExecExisting m) = WebhookExisting (m_id m)"
| "webhook_result IntentConflict = WebhookNonceConflict"
| "webhook_result ReplyTargetNotFound = WebhookReplyTargetNotFound"
| "webhook_result ChannelArchived = WebhookChannelArchived"
| "webhook_result AuthorizationDenied = WebhookAuthorizationDenied"

definition webhook_write ::
    "externals \<Rightarrow> int \<Rightarrow> github_issue_event \<Rightarrow> webhook_intent \<Rightarrow> board \<Rightarrow> webhook_write_result sql_result \<times> board" where
  "webhook_write ext now event i db =
     (case get_web_participant db (wi_participant_id i) of
        None \<Rightarrow> (Inl QueryReturnedNoRows, db)
      | Some who \<Rightarrow>
          (case execute_message_intent ext now who (webhook_execution_request ext event i) db of
             (Inl e, db') \<Rightarrow> (Inl e, db')
           | (Inr result, db') \<Rightarrow> (Inr (webhook_result result), db')))"

definition webhook_payload :: "github_issue_event \<Rightarrow> webhook_intent \<Rightarrow> string \<Rightarrow> int \<Rightarrow> json" where
  "webhook_payload event i status message_id = json_object
     [(''status'', JStr status), (''id'', JInt message_id), (''participant_id'', JStr (wi_participant_id i)),
      (''conversation_ref'', json_opt JStr (wi_conversation_ref i)), (''intent_id'', JStr (wi_intent_id i)),
      (''delivery_id'', JStr (wi_delivery_id i)), (''github_user_id'', JInt (int (ga_id (ge_sender event)))),
      (''github_login'', JStr (ga_login (ge_sender event)))]"

definition webhook_answer :: "github_issue_event \<Rightarrow> webhook_intent \<Rightarrow> webhook_write_result sql_result \<Rightarrow> response api" where
  "webhook_answer event i result =
     (case result of
        Inl QueryReturnedNoRows \<Rightarrow> github_error 403 ''github_participant_not_owned''
      | Inl _ \<Rightarrow> github_error 503 ''database_unavailable''
      | Inr (WebhookCreated m) \<Rightarrow> Inr (201, webhook_payload event i ''created'' m)
      | Inr (WebhookExisting m) \<Rightarrow> Inr (200, webhook_payload event i ''existing'' m)
      | Inr WebhookNonceConflict \<Rightarrow> github_error 409 ''nonce_conflict''
      | Inr WebhookReplyTargetNotFound \<Rightarrow> github_error 400 ''reply_target_not_found''
      | Inr WebhookChannelArchived \<Rightarrow> github_error 409 ''channel_archived''
      | Inr WebhookAuthorizationDenied \<Rightarrow> github_error 403 ''github_participant_not_owned'')"

definition github_issue_webhook ::
    "externals \<Rightarrow> github_parsers \<Rightarrow> github_webhook_state \<Rightarrow> int \<Rightarrow> header_map \<Rightarrow> bytes \<Rightarrow> board
     \<Rightarrow> response api \<times> board" where
  "github_issue_webhook ext parsers state now headers body db =
     (case try_bind (read_github_event ext parsers state headers body)
             (\<lambda>event. try_bind (read_issue_intent parsers event) (\<lambda>i. Inr (event, i))) of
        Inl e \<Rightarrow> (Inl e, db)
      | Inr (event, i) \<Rightarrow>
          (case webhook_write ext now event i db of
             (result, db') \<Rightarrow> (webhook_answer event i result, db')))"

section \<open>Signatures\<close>

lemma hex_nibble_digit: "n < 16 \<Longrightarrow> hex_nibble (hex_digit n) = Some n"
  by (auto simp: hex_nibble_def hex_digit_def ascii_simps)

lemma join_nibbles: "push_bit 4 (of_nat (unat b div 16)) OR of_nat (unat b mod 16) = (b :: 8 word)"
proof -
  have id: "of_nat (unat x) = x" for x :: "8 word" by simp
  have "unat (drop_bit 4 b) = unat b div 16" by (simp only: unat_drop_bit_eq) (simp add: drop_bit_eq_div)
  then have h: "of_nat (unat b div 16) = drop_bit 4 b" using id [of "drop_bit 4 b"] by (simp only:)
  have "unat (take_bit 4 b) = unat b mod 16" by (simp only: unsigned_take_bit_eq) (simp add: take_bit_eq_mod)
  then have l: "of_nat (unat b mod 16) = take_bit 4 b" using id [of "take_bit 4 b"] by (simp only:)
  show ?thesis unfolding h l by (rule bit_word_eqI) (auto simp: bit_or_iff bit_push_bit_iff bit_drop_bit_eq bit_take_bit_iff)
qed

lemma decode_hex_chunks_hex: "decode_hex_chunks (hex bs) = Some bs"
proof (induction bs)
  case (Cons b bs)
  then show ?case
    by (simp add: hex_def hex_byte_def hex_nibble_digit hex_byte_bounds join_nibbles)
qed (simp add: hex_def)

lemma decode_hex_32_hex: "length bs = 32 \<Longrightarrow> decode_hex_32 (hex bs) = Some bs"
  by (simp add: decode_hex_32_def length_hex decode_hex_chunks_hex)

section \<open>Deliveries are steps\<close>

lemma dec_graphic: "list_all graphic (dec n)"
proof -
  have "is_ascii_digit c \<Longrightarrow> graphic c" for c by (auto simp: is_ascii_digit_def graphic_def ascii_simps)
  then show ?thesis using digits_dec [of n] by (auto simp: list_all_iff)
qed

lemma int_to_string_graphic: "list_all graphic (int_to_string i)"
  using dec_graphic by (simp add: int_to_string_def graphic_def ascii_simps)

lemma dec_nonempty: "dec n \<noteq> []"
  by (subst dec.simps) (simp add: Let_def)

lemma validated_not_blank: "validate_participant_id p = Some q \<Longrightarrow> \<not> blank p"
  using validate_participant_id_trim [of p q] name_shape_nonempty by force

lemma github_delivery_id_not_blank: "\<not> blank (github_delivery_id r n)"
proof -
  have "list_all graphic ''github:''" "list_all graphic '':issue:''" by (simp_all add: graphic_def ascii_simps)
  then have "list_all graphic (github_delivery_id r n)"
    using dec_graphic int_to_string_graphic by (simp add: github_delivery_id_def)
  moreover have "github_delivery_id r n \<noteq> []" by (simp add: github_delivery_id_def)
  ultimately show ?thesis by (simp add: trim_graphic)
qed

lemma read_issue_intent_ok:
  assumes "read_issue_intent parsers event = Inr i"
  shows "\<exists>p. validate_participant_id (wi_participant_id i) = Some p" "github_channel_re (wi_channel i)"
    "\<not> blank (wi_body i)" "length (wi_body i) \<le> MAX_BODY_BYTES"
    "wi_delivery_id i = github_delivery_id (ge_repository_id event) (gi_number (ge_issue event))"
  using assms by (auto simp: read_issue_intent_def github_error_def Let_def split: option.splits if_splits)

lemma webhook_described:
  assumes "read_issue_intent parsers event = Inr i"
  shows "described (webhook_execution_request ext event i)"
proof -
  note ok = read_issue_intent_ok [OF assms]
  have "\<not> blank (wi_participant_id i)" using ok(1) validated_not_blank by blast
  moreover have "\<not> blank (wi_channel i)"
    using ok(2) unfolding github_channel_re_def by (rule name_shape_not_blank) (rule extras_graphic)
  moreover have "\<not> blank (wi_delivery_id i)" unfolding ok(5) by (rule github_delivery_id_not_blank)
  moreover have "\<not> blank ''github-webhook''" "\<not> blank GITHUB_PROVIDER"
    by (simp_all add: trim_graphic graphic_def ascii_simps GITHUB_PROVIDER_def)
  moreover have "\<not> blank (dec (ga_id (ge_sender event)))" using dec_graphic dec_nonempty by (simp add: trim_graphic)
  ultimately show ?thesis by (simp add: described_def webhook_execution_request_def Let_def)
qed

definition read_webhook ::
    "externals \<Rightarrow> github_parsers \<Rightarrow> github_webhook_state \<Rightarrow> header_map \<times> bytes
     \<Rightarrow> (github_issue_event \<times> webhook_intent) api" where
  "read_webhook ext parsers state r =
     try_bind (read_github_event ext parsers state (fst r) (snd r))
       (\<lambda>event. try_bind (read_issue_intent parsers event) (\<lambda>i. Inr (event, i)))"

definition webhook_intent_of ::
    "externals \<Rightarrow> github_parsers \<Rightarrow> github_webhook_state \<Rightarrow> header_map \<times> bytes \<Rightarrow> board
     \<Rightarrow> (identity \<times> message_execution_request) option" where
  "webhook_intent_of ext parsers state r db =
     (case read_webhook ext parsers state r of
        Inl _ \<Rightarrow> None
      | Inr (event, i) \<Rightarrow>
          map_option (\<lambda>who. (who, webhook_execution_request ext event i)) (get_web_participant db (wi_participant_id i)))"

definition webhook_reply ::
    "externals \<Rightarrow> github_parsers \<Rightarrow> github_webhook_state \<Rightarrow> header_map \<times> bytes
     \<Rightarrow> message_execution_result sql_result \<Rightarrow> response api" where
  "webhook_reply ext parsers state r res =
     (case read_webhook ext parsers state r of
        Inl e \<Rightarrow> Inl e
      | Inr (event, i) \<Rightarrow>
          webhook_answer event i (case res of Inl e \<Rightarrow> Inl e | Inr x \<Rightarrow> Inr (webhook_result x)))"

lemma read_webhook_described:
  "read_webhook ext parsers state r = Inr (event, i) \<Longrightarrow> described (webhook_execution_request ext event i)"
  using webhook_described by (auto simp: read_webhook_def try_bind_Inr)

lemma webhook_answer_iff:
  "((\<exists>j. webhook_answer event i (case res of Inl e \<Rightarrow> Inl e | Inr x \<Rightarrow> Inr (webhook_result x)) = Inr (201, j)) \<longleftrightarrow>
     (\<exists>m. res = Inr (ExecCreated m))) \<and>
   ((\<exists>a. webhook_answer event i (case res of Inl e \<Rightarrow> Inl e | Inr x \<Rightarrow> Inr (webhook_result x)) = Inr a) \<longleftrightarrow>
     (\<exists>m. res = Inr (ExecCreated m) \<or> res = Inr (ExecExisting m)))"
proof (cases res)
  case (Inl e)
  then show ?thesis by (cases e) (simp_all add: webhook_answer_def github_error_def)
next
  case (Inr x)
  then show ?thesis by (cases x) (simp_all add: webhook_answer_def github_error_def)
qed

interpretation webhook: execution_surface ext now
  "\<lambda>r. github_issue_webhook ext parsers state now (fst r) (snd r)" "webhook_intent_of ext parsers state" "\<lambda>_ db. db"
  "webhook_reply ext parsers state" "\<lambda>a. \<exists>j. a = Inr (201, j)" "\<lambda>a. \<exists>x. a = Inr x" for ext now parsers state
proof
  fix r db who q res db' m
  have st: "github_issue_webhook ext parsers state now (fst r) (snd r) db =
      (case read_webhook ext parsers state r of
         Inl e \<Rightarrow> (Inl e, db)
       | Inr (event, i) \<Rightarrow>
          (case webhook_write ext now event i db of (result, db') \<Rightarrow> (webhook_answer event i result, db')))"
    by (simp add: github_issue_webhook_def read_webhook_def)
  show "snd (github_issue_webhook ext parsers state now (fst r) (snd r) db) = db \<and>
      \<not> (\<exists>x. fst (github_issue_webhook ext parsers state now (fst r) (snd r) db) = Inr x)"
    if "webhook_intent_of ext parsers state r db = None"
    using that unfolding st by (auto simp: webhook_intent_of_def webhook_write_def webhook_answer_def github_error_def
        split: sum.splits)
  show "github_issue_webhook ext parsers state now (fst r) (snd r) db = (webhook_reply ext parsers state r res, db')"
    if "webhook_intent_of ext parsers state r db = Some (who, q)" "execute_message_intent ext now who q db = (res, db')"
    using that unfolding st by (auto simp: webhook_intent_of_def webhook_write_def webhook_reply_def
        split: sum.splits)
  show "webhook_intent_of ext parsers state r db = Some (who, q) \<Longrightarrow> described q"
    using read_webhook_described [of ext parsers state r] by (auto simp: webhook_intent_of_def split: sum.splits)
  show "\<exists>cs. db = db\<lparr>channels := cs\<rparr>" by (rule exI [of _ "channels db"]) simp
  show "webhook_intent_of ext parsers state r db' = Some (who, q) \<and> db' = db'"
    if "system_wf ext db" "webhook_intent_of ext parsers state r db = Some (who, q)"
      "execute_message_intent ext now who q db = (Inr (ExecCreated m), db')"
    using that(2) created_keeps_participants [OF that(1,3)]
    by (auto simp: webhook_intent_of_def get_web_participant_def split: sum.splits)
next
  fix r db wq res
  assume "webhook_intent_of ext parsers state r db = Some wq"
  then obtain event i where "read_webhook ext parsers state r = Inr (event, i)"
    by (auto simp: webhook_intent_of_def split: sum.splits)
  then show "(\<exists>j. webhook_reply ext parsers state r res = Inr (201, j)) \<longleftrightarrow> (\<exists>m. res = Inr (ExecCreated m))"
    "(\<exists>x. webhook_reply ext parsers state r res = Inr x) \<longleftrightarrow> (\<exists>m. res = Inr (ExecCreated m) \<or> res = Inr (ExecExisting m))"
    by (simp_all only: webhook_reply_def sum.case prod.case webhook_answer_iff [THEN conjunct1] webhook_answer_iff [THEN conjunct2])
qed auto

lemma github_webhook_steps: "(board_step ext)\<^sup>*\<^sup>* db (snd (github_issue_webhook ext parsers state now headers body db))"
  by (rule webhook.serve_run [where r = "(headers, body)", simplified fst_conv snd_conv])

section \<open>Properties\<close>

text \<open>The signature check accepts what GitHub signed and nothing else: the header \<open>sha256=\<close> followed by
  the hexadecimal HMAC of the body under the secret verifies, and a header verifies only if it has that prefix and
  64 hexadecimal digits that decode to this HMAC.\<close>

theorem github_signature_exact:
  assumes "\<forall>k m. length (hmac_sha256 ext k m) = 32"
  shows "verify_github_signature ext secret (SIGNATURE_PREFIX @ hex (hmac_sha256 ext (as_bytes secret) body)) body \<and>
    (verify_github_signature ext secret signature body \<longrightarrow>
      (\<exists>digits. signature = SIGNATURE_PREFIX @ digits \<and> length digits = 64 \<and>
         decode_hex_chunks digits = Some (hmac_sha256 ext (as_bytes secret) body)))"
proof
  show "verify_github_signature ext secret (SIGNATURE_PREFIX @ hex (hmac_sha256 ext (as_bytes secret) body)) body"
    using assms by (simp add: verify_github_signature_def decode_hex_32_hex)
  show "verify_github_signature ext secret signature body \<longrightarrow>
      (\<exists>digits. signature = SIGNATURE_PREFIX @ digits \<and> length digits = 64 \<and>
         decode_hex_chunks digits = Some (hmac_sha256 ext (as_bytes secret) body))"
    by (auto simp: verify_github_signature_def decode_hex_32_def prefix_def split: if_splits option.splits)
qed

theorem github_signature_exact_witness:
  "verify_github_signature sample_externals ''s''
     (SIGNATURE_PREFIX @ hex (hmac_sha256 sample_externals (as_bytes ''s'') [1])) [1]"
proof -
  have "\<forall>k m. length (hmac_sha256 sample_externals k m) = 32" by (simp add: sample_externals_def)
  from github_signature_exact [OF this, of "''s''" "[1]"] show ?thesis by blast
qed

text \<open>A delivery that the sample webhook accepts.\<close>

definition sample_owned_board :: board where
  "sample_owned_board = participant_effect sample_externals (SetOwner 6 ''ada'' ''github'' ''7'' None) sample_provisioned"

lemma sample_owned_facts:
  "reachable sample_externals sample_owned_board" "channels sample_owned_board = []" "messages sample_owned_board = []"
  "navigation_writes sample_owned_board = []" "ingress_provenance sample_owned_board = []"
  "principal_grants sample_owned_board = []"
  "web_participants sample_owned_board = [(new_participant 5 ''ada'' ''human'' None)
     \<lparr>p_owner_provider := Some ''github'', p_owner_subject := Some ''7'', p_owner_login := None, p_updated_at := 6\<rparr>]"
proof -
  show "reachable sample_externals sample_owned_board"
    unfolding sample_owned_board_def by (rule reachable.step [OF sample_provisioned_reachable board_step.participant])
  have v: "validate_participant_id ''ada'' \<noteq> None" by code_simp
  have t: "trim ''github'' = ''github''" "trim ''7'' = ''7''" "list_all is_ascii_digit ''7''"
    by (simp_all add: trim_graphic graphic_def ascii_simps is_ascii_digit_def)
  have b: "sample_owned_board = sample_provisioned\<lparr>web_participants := [(new_participant 5 ''ada'' ''human'' None)
     \<lparr>p_owner_provider := Some ''github'', p_owner_subject := Some ''7'', p_owner_login := None, p_updated_at := 6\<rparr>]\<rparr>"
    using v t by (simp add: sample_owned_board_def set_participant_owner_def update_participant_def GITHUB_PROVIDER_def
        sample_provisioned_def new_participant_def sql_update_def sql_count_def)
  show "channels sample_owned_board = []" "messages sample_owned_board = []" "navigation_writes sample_owned_board = []"
    "ingress_provenance sample_owned_board = []" "principal_grants sample_owned_board = []"
    "web_participants sample_owned_board = [(new_participant 5 ''ada'' ''human'' None)
     \<lparr>p_owner_provider := Some ''github'', p_owner_subject := Some ''7'', p_owner_login := None, p_updated_at := 6\<rparr>]"
    by (simp_all add: b sample_provisioned_def empty_board_def)
qed

definition sample_issue_event :: github_issue_event where
  "sample_issue_event = \<lparr>ge_action = ''opened'', ge_repository_id = 3, ge_sender = \<lparr>ga_id = 7, ga_login = ''ada''\<rparr>,
     ge_issue = \<lparr>gi_number = 1, gi_title = ''[blackboard] hi'', gi_body = Some ''{}'',
       gi_author_association = ''OWNER'', gi_user = \<lparr>ga_id = 7, ga_login = ''ada''\<rparr>\<rparr>\<rparr>"

definition sample_parsers :: github_parsers where
  "sample_parsers = \<lparr>parse_event = (\<lambda>_. Some sample_issue_event),
     parse_intent = (\<lambda>_. Some \<lparr>bi_intent_id = None, bi_participant_id = ''ada'', bi_conversation_ref = None,
       bi_channel = ''lab'', bi_kind = None, bi_body = ''hi'', bi_reply_to = None\<rparr>)\<rparr>"

definition sample_webhook_state :: github_webhook_state where
  "sample_webhook_state = \<lparr>gs_webhook_secret = Some ''s'', gs_repository_id = Some 3\<rparr>"

definition sample_delivery :: "header_map \<times> bytes" where
  "sample_delivery = ([(''x-github-event'', ''issues''),
     (''x-hub-signature-256'', SIGNATURE_PREFIX @ hex (hmac_sha256 sample_externals (as_bytes ''s'') [1]))], [1])"

lemma sample_read_webhook:
  obtains i where "read_webhook sample_externals sample_parsers sample_webhook_state sample_delivery = Inr (sample_issue_event, i)"
    "wi_participant_id i = ''ada''" "wi_channel i = ''lab''" "wi_reply_to i = None"
proof -
  have "header_to_str SIGNATURE_PREFIX = Some SIGNATURE_PREFIX" "header_to_str ''issues'' = Some ''issues''" by code_simp+
  then have h: "Option.bind (map_of (fst sample_delivery) ''x-github-event'') header_to_str = Some ''issues''"
    "Option.bind (map_of (fst sample_delivery) ''x-hub-signature-256'') header_to_str =
       Some (SIGNATURE_PREFIX @ hex (hmac_sha256 sample_externals (as_bytes ''s'') [1]))"
    by (simp_all add: sample_delivery_def header_to_str_hex)
  have "length (hmac_sha256 sample_externals (as_bytes ''s'') [1]) = 32" by (simp add: sample_externals_def)
  then have v: "verify_github_signature sample_externals ''s''
      (SIGNATURE_PREFIX @ hex (hmac_sha256 sample_externals (as_bytes ''s'') [1])) [1]"
    by (simp add: verify_github_signature_def decode_hex_32_hex)
  have p: "prefix TITLE_PREFIX ''[blackboard] hi''" by code_simp
  have e: "read_github_event sample_externals sample_parsers sample_webhook_state (fst sample_delivery) (snd sample_delivery) =
      Inr sample_issue_event"
    unfolding read_github_event_def h using v p
    by (simp add: sample_webhook_state_def sample_delivery_def sample_parsers_def sample_issue_event_def)
  have r: "validate_participant_id ''ada'' \<noteq> None" "github_channel_re ''lab''" "github_kind_re ''message''" by code_simp+
  have nb: "\<not> blank ''hi''" by (simp add: trim_graphic graphic_def ascii_simps)
  obtain i where "read_issue_intent sample_parsers sample_issue_event = Inr i" "wi_participant_id i = ''ada''"
      "wi_channel i = ''lab''" "wi_reply_to i = None"
    using r nb by (simp add: read_issue_intent_def sample_parsers_def sample_issue_event_def MAX_BODY_BYTES_def
        normalize_conversation_ref_def github_intent_id_def)
  with e that show thesis by (simp add: read_webhook_def try_bind_def)
qed

lemma sample_delivered:
  obtains j db' where "github_issue_webhook sample_externals sample_parsers sample_webhook_state 9 (fst sample_delivery)
    (snd sample_delivery) sample_owned_board = (Inr (201, j), db')"
proof -
  obtain i where i: "read_webhook sample_externals sample_parsers sample_webhook_state sample_delivery = Inr (sample_issue_event, i)"
    "wi_participant_id i = ''ada''" "wi_channel i = ''lab''" "wi_reply_to i = None" by (rule sample_read_webhook)
  let ?q = "webhook_execution_request sample_externals sample_issue_event i"
  have d7: "dec 7 = ''7''" by code_simp
  have q: "au_principal (mr_authority ?q) = \<lparr>provider = ''github'', subject = ''7''\<rparr>" "mr_reply_to ?q = None"
    "it_participant_id (mr_intent ?q) = ''ada''" "it_capability (mr_intent ?q) = POST_MESSAGE_CAPABILITY"
    "it_resource (mr_intent ?q) = ''lab''"
    using i d7 by (simp_all add: webhook_execution_request_def Let_def GITHUB_PROVIDER_def sample_issue_event_def)
  have who: "get_web_participant sample_owned_board ''ada'' = Some sample_who"
    by (simp add: get_web_participant_def sample_owned_facts(7) new_participant_def identity_of_participant_def sample_who_def)
  have b: "request_bound sample_externals sample_who ?q"
    using i by (simp add: request_bound_def webhook_execution_request_def Let_def sample_who_def)
  have al: "ad_allowed (decision_of 9 ?q sample_owned_board)"
    unfolding decision_of_def q by (simp add: evaluate_cases participant_policy_row_def sample_owned_facts(6,7)
        new_participant_def implicit_authority_reason_def POST_MESSAGE_CAPABILITY_def capability_names)
  obtain m db' where ex: "execute_message_intent sample_externals 9 sample_who ?q sample_owned_board = (Inr (ExecCreated m), db')"
    by (rule first_execution [OF sample_owned_facts(1) read_webhook_described [OF i(1)] b al])
      (simp_all add: channel_active_def channel_metadata_def sample_owned_facts q)
  have "github_issue_webhook sample_externals sample_parsers sample_webhook_state 9 (fst sample_delivery)
      (snd sample_delivery) sample_owned_board =
      (webhook_reply sample_externals sample_parsers sample_webhook_state sample_delivery (Inr (ExecCreated m)), db')"
    by (rule webhook.executed [OF _ ex]) (simp add: webhook_intent_of_def i who)
  with that show thesis by (simp add: webhook_reply_def i(1) webhook_answer_def)
qed

text \<open>C12: Webhook deliveries are authentic and act for their sender.  On a reachable board a delivery is answered
  with success only if its signature is the HMAC of this body under the configured secret, it reports an issue
  opened in the configured repository by its own author, who is an owner, member or collaborator, and the policy
  allows that GitHub user to post to the channel as the participant the intent names; any other delivery adds no
  message.\<close>

theorem webhook_deliveries_authorized:
  assumes "reachable ext db" and "github_issue_webhook ext parsers state now headers body db = (answer, db')"
  shows "(\<forall>a. answer = Inr a \<longrightarrow> (\<exists>secret signature event i.
      gs_webhook_secret state = Some secret \<and> map_of headers ''x-hub-signature-256'' = Some signature \<and>
      verify_github_signature ext secret signature body \<and> parse_event parsers body = Some event \<and>
      gs_repository_id state = Some (ge_repository_id event) \<and> ge_action event = ''opened'' \<and>
      ga_id (ge_sender event) = ga_id (gi_user (ge_issue event)) \<and>
      gi_author_association (ge_issue event) \<in> {''OWNER'', ''MEMBER'', ''COLLABORATOR''} \<and>
      read_issue_intent parsers event = Inr i \<and>
      policy_allows now db \<lparr>provider = ''github'', subject = dec (ga_id (ge_sender event))\<rparr> (wi_participant_id i)
        POST_MESSAGE_CAPABILITY (Some (wi_channel i)) (Some (wi_intent_id i)))) \<and>
    (\<forall>e. answer = Inl e \<longrightarrow> messages db' = messages db)"
proof (intro conjI allI impI)
  fix a assume "answer = Inr a"
  then have "\<exists>x. fst (github_issue_webhook ext parsers state now (fst (headers, body)) (snd (headers, body)) db) = Inr x"
    using assms(2) by simp
  from webhook.accepted_authorized [OF reachable_system_wf [OF assms(1)] this]
  obtain who q where q: "webhook_intent_of ext parsers state (headers, body) db = Some (who, q)" "request_allowed now db q"
    by blast
  then obtain event i where ei: "read_github_event ext parsers state headers body = Inr event"
      "read_issue_intent parsers event = Inr i" "q = webhook_execution_request ext event i"
    by (auto simp: webhook_intent_of_def read_webhook_def try_bind_Inr split: sum.splits)
  have same: "header_to_str v = Some w \<Longrightarrow> w = v" for v w by (simp add: header_to_str_def split: if_splits)
  obtain secret signature where ev: "gs_webhook_secret state = Some secret"
      "map_of headers ''x-hub-signature-256'' = Some signature" "verify_github_signature ext secret signature body"
      "parse_event parsers body = Some event" "gs_repository_id state = Some (ge_repository_id event)"
      "ge_action event = ''opened''" "ga_id (ge_sender event) = ga_id (gi_user (ge_issue event))"
      "gi_author_association (ge_issue event) \<in> {''OWNER'', ''MEMBER'', ''COLLABORATOR''}"
    using ei(1) unfolding read_github_event_def github_error_def
    by (simp split: option.splits if_splits) (auto simp: bind_eq_Some_conv dest!: same)
  have "policy_allows now db \<lparr>provider = ''github'', subject = dec (ga_id (ge_sender event))\<rparr> (wi_participant_id i)
        POST_MESSAGE_CAPABILITY (Some (wi_channel i)) (Some (wi_intent_id i))"
    using q(2) by (simp add: request_allowed_def ei(3) webhook_execution_request_def Let_def GITHUB_PROVIDER_def)
  with ev ei(2) show "\<exists>secret signature event i.
      gs_webhook_secret state = Some secret \<and> map_of headers ''x-hub-signature-256'' = Some signature \<and>
      verify_github_signature ext secret signature body \<and> parse_event parsers body = Some event \<and>
      gs_repository_id state = Some (ge_repository_id event) \<and> ge_action event = ''opened'' \<and>
      ga_id (ge_sender event) = ga_id (gi_user (ge_issue event)) \<and>
      gi_author_association (ge_issue event) \<in> {''OWNER'', ''MEMBER'', ''COLLABORATOR''} \<and>
      read_issue_intent parsers event = Inr i \<and>
      policy_allows now db \<lparr>provider = ''github'', subject = dec (ga_id (ge_sender event))\<rparr> (wi_participant_id i)
        POST_MESSAGE_CAPABILITY (Some (wi_channel i)) (Some (wi_intent_id i))" by blast
next
  fix e assume "answer = Inl e"
  then show "messages db' = messages db"
    using webhook.not_accepted_messages [where r = "(headers, body)", simplified fst_conv snd_conv, of ext parsers state now db]
      assms(2) by simp
qed

theorem webhook_deliveries_authorized_witness:
  "\<exists>event (i :: webhook_intent). policy_allows 9 sample_owned_board \<lparr>provider = ''github'', subject = dec (ga_id (ge_sender event))\<rparr>
     (wi_participant_id i) POST_MESSAGE_CAPABILITY (Some (wi_channel i)) (Some (wi_intent_id i)) \<and>
     parse_event sample_parsers [1] = Some event"
proof (rule sample_delivered)
  fix j db'
  assume d: "github_issue_webhook sample_externals sample_parsers sample_webhook_state 9 (fst sample_delivery)
    (snd sample_delivery) sample_owned_board = (Inr (201, j), db')"
  have b: "snd sample_delivery = [1]" by (simp add: sample_delivery_def)
  obtain event and i :: webhook_intent where "parse_event sample_parsers (snd sample_delivery) = Some event"
    "policy_allows 9 sample_owned_board \<lparr>provider = ''github'', subject = dec (ga_id (ge_sender event))\<rparr>
     (wi_participant_id i) POST_MESSAGE_CAPABILITY (Some (wi_channel i)) (Some (wi_intent_id i))"
    using webhook_deliveries_authorized [OF sample_owned_facts(1) d, THEN conjunct1, rule_format, OF refl] by blast
  then show ?thesis unfolding b by blast
qed

text \<open>A redelivered webhook takes effect once.  GitHub may deliver an event again: on a reachable board, after a
  delivery that created a message, the same delivery is answered 200 with the id of that message and adds nothing.\<close>

theorem webhook_redelivery_existing:
  assumes "reachable ext db" and "github_issue_webhook ext parsers state now headers body db = (Inr (201, j), db')"
  shows "\<exists>event i m db''. j = webhook_payload event i ''created'' (m_id m) \<and> messages db' = messages db @ [m] \<and>
    github_issue_webhook ext parsers state now headers body db' =
      (Inr (200, webhook_payload event i ''existing'' (m_id m)), db'') \<and> messages db'' = messages db'"
proof -
  let ?r = "(headers, body)"
  have c: "\<exists>j. fst (github_issue_webhook ext parsers state now (fst ?r) (snd ?r) db) = Inr (201, j)"
    using assms(2) by simp
  obtain m db'' where m: "Inr (201, j) = webhook_reply ext parsers state ?r (Inr (ExecCreated m))"
    "messages db' = messages db @ [m]"
    "github_issue_webhook ext parsers state now headers body db' =
       (webhook_reply ext parsers state ?r (Inr (ExecExisting m)), db'')" "messages db'' = messages db'"
    by (rule webhook.serve_replayed [OF reachable_system_wf [OF assms(1)] c])
      (use assms(2) in \<open>simp only: fst_conv snd_conv\<close>)
  obtain event i where "read_webhook ext parsers state ?r = Inr (event, i)"
    using m(1) by (auto simp: webhook_reply_def split: sum.splits)
  then have "j = webhook_payload event i ''created'' (m_id m)"
    "webhook_reply ext parsers state ?r (Inr (ExecExisting m)) = Inr (200, webhook_payload event i ''existing'' (m_id m))"
    using m(1) by (simp_all add: webhook_reply_def webhook_answer_def)
  with m(2-4) show ?thesis by auto
qed

theorem webhook_redelivery_existing_witness:
  "\<exists>db' db'' j k m. github_issue_webhook sample_externals sample_parsers sample_webhook_state 9 (fst sample_delivery)
       (snd sample_delivery) sample_owned_board = (Inr (201, j), db') \<and>
     github_issue_webhook sample_externals sample_parsers sample_webhook_state 9 (fst sample_delivery)
       (snd sample_delivery) db' = (Inr (200, k), db'') \<and> messages db' = [m] \<and> messages db'' = [m]"
proof (rule sample_delivered)
  fix j db'
  assume d: "github_issue_webhook sample_externals sample_parsers sample_webhook_state 9 (fst sample_delivery)
    (snd sample_delivery) sample_owned_board = (Inr (201, j), db')"
  from webhook_redelivery_existing [OF sample_owned_facts(1) d] d show ?thesis
    unfolding sample_owned_facts(3) append_Nil by metis
qed

end
