(* ===== verification/Policy_Texts.thy ===== *)
theory Policy_Texts
  imports System
begin

text \<open>
  The grants of a reachable board are well-formed texts of known participants, and its durable grants have known
  capabilities: what \<open>audit_authorization_integrity\<close> looks for, all but one thing.  The creation of delegated grants
  does not check the capability, so on a reachable board an unknown capability of a delegated grant is the only
  violation the audit can find.
\<close>

section \<open>The texts of a grant\<close>

definition texts_of_participants :: "board \<Rightarrow> string set" where
  "texts_of_participants db = p_participant_id ` set (web_participants db)"

fun durable_scope_ok :: "string set \<Rightarrow> durable_scope \<Rightarrow> bool" where
  "durable_scope_ok ps (provider', subject', participant_id, capability, resource) \<longleftrightarrow>
     texts_ok ([provider', subject', participant_id, capability] @ (case resource of Some r \<Rightarrow> [r] | None \<Rightarrow> [])) \<and>
     participant_id \<in> ps \<and> is_known_capability capability"

definition delegated_scope_ok :: "string set \<Rightarrow> grant_scope \<Rightarrow> bool" where
  "delegated_scope_ok ps s \<longleftrightarrow>
     texts_ok ([gs_principal_provider s, gs_principal_subject s, gs_participant_id s, gs_capability s] @
       (case gs_resource s of Some r \<Rightarrow> [r] | None \<Rightarrow> []) @ (case gs_intent_id s of Some i \<Rightarrow> [i] | None \<Rightarrow> [])) \<and>
     gs_participant_id s \<in> ps"

definition grant_texts_wf :: "board \<Rightarrow> bool" where
  "grant_texts_wf db \<longleftrightarrow>
     (\<forall>s \<in> scope_of ` set (principal_grants db). durable_scope_ok (texts_of_participants db) s) \<and>
     (\<forall>s \<in> delegated_row_scope ` set (delegated_grants db). delegated_scope_ok (texts_of_participants db) s)"

lemma durable_ok_scope: "durable_ok ps g \<longleftrightarrow> durable_scope_ok ps (scope_of g) \<and> status_ok (g_status g)"
  by (auto simp: durable_ok_def scope_of_def)

lemma delegated_ok_scope:
  "delegated_ok ps g \<longleftrightarrow> delegated_scope_ok ps (delegated_row_scope g) \<and> is_known_capability (d_capability g) \<and>
     status_ok (d_status g) \<and> d_one_shot g \<in> {0, 1}"
  by (auto simp: delegated_ok_def delegated_scope_ok_def delegated_row_scope_def)

text \<open>New scopes have to be well formed; participants may only be added.\<close>

lemma grant_texts_step:
  assumes "grant_texts_wf db" and "texts_of_participants db \<subseteq> texts_of_participants db'"
    and "\<And>s. s \<in> scope_of ` set (principal_grants db') \<Longrightarrow>
      s \<in> scope_of ` set (principal_grants db) \<or> durable_scope_ok (texts_of_participants db') s"
    and "\<And>s. s \<in> delegated_row_scope ` set (delegated_grants db') \<Longrightarrow>
      s \<in> delegated_row_scope ` set (delegated_grants db) \<or> delegated_scope_ok (texts_of_participants db') s"
  shows "grant_texts_wf db'"
  unfolding grant_texts_wf_def
proof (intro conjI ballI)
  fix s assume "s \<in> scope_of ` set (principal_grants db')"
  then consider "s \<in> scope_of ` set (principal_grants db)" | "durable_scope_ok (texts_of_participants db') s"
    using assms(3) by blast
  then show "durable_scope_ok (texts_of_participants db') s"
  proof cases
    case 1
    then have "durable_scope_ok (texts_of_participants db) s" using assms(1) unfolding grant_texts_wf_def by blast
    then show ?thesis using assms(2) by (cases s) (simp only: durable_scope_ok.simps, blast)
  qed
next
  fix s assume "s \<in> delegated_row_scope ` set (delegated_grants db')"
  then consider "s \<in> delegated_row_scope ` set (delegated_grants db)" | "delegated_scope_ok (texts_of_participants db') s"
    using assms(4) by blast
  then show "delegated_scope_ok (texts_of_participants db') s"
  proof cases
    case 1
    then have "delegated_scope_ok (texts_of_participants db) s" using assms(1) unfolding grant_texts_wf_def by blast
    then show ?thesis using assms(2) unfolding delegated_scope_ok_def by blast
  qed
qed

lemma grant_texts_same:
  assumes "grant_texts_wf db" and "texts_of_participants db \<subseteq> texts_of_participants db'"
    and "scope_of ` set (principal_grants db') = scope_of ` set (principal_grants db)"
    and "delegated_row_scope ` set (delegated_grants db') = delegated_row_scope ` set (delegated_grants db)"
  shows "grant_texts_wf db'"
  by (rule grant_texts_step [OF assms(1,2)]) (simp_all add: assms(3,4))

section \<open>Normalized requests\<close>

lemma normalize_text_ok: "normalize v n f = Inr w \<Longrightarrow> \<not> malformed_text w"
  by (auto simp: normalize_def malformed_text_def Let_def split: if_splits)

lemma normalize_optional_ok: "normalize_optional v n f = Inr (Some w) \<Longrightarrow> \<not> malformed_text w"
  by (auto simp: normalize_optional_def normalize_text_ok split: option.splits sum.splits)

lemma participant_text_ok: "validate_participant_id p = Some q \<Longrightarrow> \<not> malformed_text q"
  using validate_participant_id_graphic [of p q] by (simp add: malformed_text_def trim_graphic has_control_graphic)

lemma intent_text_ok: "normalize_intent_id i = Some j \<Longrightarrow> \<not> malformed_text j"
  by (auto simp: normalize_intent_id_def malformed_text_def Let_def split: if_splits)

lemma transpose_opt_Some: "transpose_opt e f x = Inr (Some y) \<Longrightarrow> \<exists>x'. x = Some x' \<and> f x' = Some y"
  by (auto simp: transpose_opt_def split: option.splits)

lemma normalized_durable_ok:
  assumes "normalize_durable_grant_create_request q = Inr r" and "dc_participant_id r \<in> ps"
  shows "durable_scope_ok ps (request_scope_key r)"
  using assms
  by (auto simp: normalize_durable_grant_create_request_def try_bind_def ok_or_def request_scope_key_def texts_ok_def
      normalize_text_ok normalize_optional_ok participant_text_ok split: sum.splits option.splits if_splits)

lemma normalized_delegated_ok:
  assumes "normalize_delegated_grant_create_request q = Inr r" and "lc_participant_id r \<in> ps"
  shows "delegated_scope_ok ps (delegated_request_scope r)"
  using assms
  by (auto simp: normalize_delegated_grant_create_request_def try_bind_def ok_or_def delegated_request_scope_def
      delegated_scope_ok_def texts_ok_def normalize_text_ok normalize_optional_ok participant_text_ok
      dest!: transpose_opt_Some intent_text_ok split: sum.splits option.splits if_splits)

lemma active_participant_known: "require_active_participant db p = Inr () \<Longrightarrow> p \<in> texts_of_participants db"
  by (auto simp: require_active_participant_def texts_of_participants_def dest: find_SomeD split: option.splits if_splits)


section \<open>The steps keep the texts\<close>

lemma administer_invariant:
  assumes "P db" and "\<And>a r. norm q = Inr r \<Longrightarrow> P (snd (op now a r db))"
  shows "P (snd (administer norm op authority now actor q db))"
  unfolding administer_def
  using assms by (auto simp: commit_def case_prod_beta split: sum.split)

lemma create_durable_texts:
  assumes t: "grant_texts_wf db" and n: "normalize_durable_grant_create_request q = Inr r"
  shows "grant_texts_wf (snd (create_durable_grant_in_tx now a r db))"
proof (rule create_durable_cases [of now a r db, OF refl])
  fix g
  assume eq: "create_durable_grant_in_tx now a r db = (Inr (g_id g, Reactivated), record_event now a ''durable'' (g_id g)
      ''reactivate'' (durable_request_scope r) (Some ''inactive'') ''active''
      (db\<lparr>principal_grants := reactivate_durable now (g_id g) db\<rparr>))"
  have "scope_of ` set (reactivate_durable now (g_id g) db) = scope_of ` set (principal_grants db)"
    using scope_of_reactivate [of now "g_id g" db] by (metis image_set)
  then show ?thesis unfolding eq by (intro grant_texts_same [OF t]) (simp_all add: texts_of_participants_def record_event_def)
next
  assume act: "require_active_participant db (dc_participant_id r) = Inr ()"
    and eq: "create_durable_grant_in_tx now a r db = (Inr (g_id (new_durable now r db), Created), record_event now a
      ''durable'' (g_id (new_durable now r db)) ''create'' (durable_request_scope r) None ''active''
      (db\<lparr>principal_grants := principal_grants db @ [new_durable now r db]\<rparr>))"
  have "scope_of (new_durable now r db) = request_scope_key r" by (simp add: scope_of_def request_scope_key_def new_durable_def)
  moreover have "durable_scope_ok (texts_of_participants db) (request_scope_key r)"
    by (rule normalized_durable_ok [OF n active_participant_known [OF act]])
  ultimately show ?thesis unfolding eq
    by (intro grant_texts_step [OF t]) (auto simp: texts_of_participants_def record_event_def)
qed (use t in simp_all)

lemma create_delegated_texts:
  assumes t: "grant_texts_wf db" and n: "normalize_delegated_grant_create_request q = Inr r"
  shows "grant_texts_wf (snd (create_delegated_grant_in_tx now a r db))"
proof (rule create_delegated_cases [of now a r db, OF refl])
  assume act: "require_active_participant db (lc_participant_id r) = Inr ()"
    and eq: "create_delegated_grant_in_tx now a r db = (Inr (d_id (new_delegated now r db)), record_event now a
      ''delegated'' (d_id (new_delegated now r db)) ''create'' (delegated_request_scope r) None ''active''
      (db\<lparr>delegated_grants := delegated_grants db @ [new_delegated now r db]\<rparr>))"
  have "delegated_scope_ok (texts_of_participants db) (delegated_request_scope r)"
    by (rule normalized_delegated_ok [OF n active_participant_known [OF act]])
  then show ?thesis unfolding eq using new_delegated_facts(1) [of now r db]
    by (intro grant_texts_step [OF t]) (auto simp: texts_of_participants_def record_event_def)
qed (use t in simp_all)

lemma deactivate_durable_texts:
  assumes t: "grant_texts_wf db" and wf: "policy_wf db"
  shows "grant_texts_wf (snd (deactivate_durable_grant_in_tx now a i db))"
proof (rule deactivate_durable_cases [OF wf, of now a i, OF refl])
  fix g
  assume eq: "deactivate_durable_grant_in_tx now a i db = (Inr (Some 1), record_event now a ''durable'' i ''deactivate''
      (durable_row_scope g) (Some ''active'') ''inactive'' (db\<lparr>principal_grants := deactivated_durable now g db\<rparr>))"
  have "scope_of ` set (deactivated_durable now g db) = scope_of ` set (principal_grants db)"
    using deactivated_durable_keys(1) [of now g db] by (metis image_set)
  then show ?thesis unfolding eq by (intro grant_texts_same [OF t]) (simp_all add: texts_of_participants_def record_event_def)
qed (use t in simp_all)

lemma deactivate_delegated_texts:
  assumes t: "grant_texts_wf db" and wf: "policy_wf db"
  shows "grant_texts_wf (snd (deactivate_delegated_grant_in_tx now a i db))"
proof (rule deactivate_delegated_cases [OF wf, of now a i, OF refl])
  fix g
  assume eq: "deactivate_delegated_grant_in_tx now a i db = (Inr (Some 1), record_event now a ''delegated'' i ''deactivate''
      (delegated_row_scope g) (Some (d_status g)) ''inactive'' (db\<lparr>delegated_grants := deactivated_delegated now i db\<rparr>))"
  have "map delegated_row_scope (deactivated_delegated now i db) = map delegated_row_scope (delegated_grants db)"
    unfolding deactivated_delegated_def by (rule map_sql_update) (simp add: delegated_row_scope_def)
  then have "delegated_row_scope ` set (deactivated_delegated now i db) = delegated_row_scope ` set (delegated_grants db)"
    by (metis image_set)
  then show ?thesis unfolding eq by (intro grant_texts_same [OF t]) (simp_all add: texts_of_participants_def record_event_def)
qed (use t in simp_all)

lemma admin_effect_texts:
  assumes "grant_texts_wf db" and "policy_wf db"
  shows "grant_texts_wf (admin_effect now call db)"
  by (cases call)
    (simp_all add: admin_call_defs administer_invariant assms create_durable_texts [OF assms(1)]
      create_delegated_texts [OF assms(1)] deactivate_durable_texts [OF assms] deactivate_delegated_texts [OF assms])

lemma participant_effect_ids: "texts_of_participants db \<subseteq> texts_of_participants (participant_effect ext call db)"
proof -
  have keep: "texts_of_participants (snd (update_participant p c f db)) = texts_of_participants db"
    if "\<And>r. p_participant_id (f r) = p_participant_id r" for p c f db
    using update_participant_ids [of f p c db] that by (simp add: texts_of_participants_def)
  show ?thesis
  proof (cases call)
    case (Provision now p s l)
    show ?thesis unfolding Provision participant_effect.simps provision_web_participant_identity_def
      by (auto simp: texts_of_participants_def split: option.split sum.split)
  next
    case (AuthenticateTotp clock p c now)
    show ?thesis unfolding AuthenticateTotp participant_effect.simps authenticate_cases
      by (auto simp: keep split: option.split)
  qed (auto simp: keep set_web_participant_role_def set_web_participant_status_def set_web_participant_totp_def
    revoke_web_participant_totp_def set_web_participant_auth_secret_def revoke_web_participant_auth_def
    set_participant_owner_def clear_participant_owner_def case_prod_beta)
qed

lemma execute_texts:
  assumes t: "grant_texts_wf db" and ev: "evidence_wf ext db"
  shows "grant_texts_wf (snd (execute_message_intent ext now who q db))"
proof (cases "execute_message_intent ext now who q db")
  case (Pair res db')
  consider (C) m where "res = Inr (ExecCreated m)" | (E) m where "res = Inr (ExecExisting m)"
    | (R) "\<forall>m. res \<noteq> Inr (ExecCreated m) \<and> res \<noteq> Inr (ExecExisting m)" by blast
  then show ?thesis
  proof cases
    case C
    note c = created_fields [OF ev Pair [unfolded C]]
    have "map delegated_row_scope (delegated_grants db') = map delegated_row_scope (delegated_grants db)"
      unfolding c(6) consumed_grants_def
      by (cases "ad_consume_grant_id (decision_of now q db)") (simp_all add: map_sql_update delegated_row_scope_def)
    then have "delegated_row_scope ` set (delegated_grants db') = delegated_row_scope ` set (delegated_grants db)"
      by (metis image_set)
    then have "grant_texts_wf db'" by (intro grant_texts_same [OF t]) (simp_all add: texts_of_participants_def c(7,8))
    then show ?thesis using Pair by simp
  next
    case E
    have "principal_grants db' = principal_grants db" "delegated_grants db' = delegated_grants db"
      "web_participants db' = web_participants db"
      by (rule existing_board [OF ev Pair [unfolded E]], simp)+
    then have "grant_texts_wf db'" by (intro grant_texts_same [OF t]) (simp_all add: texts_of_participants_def)
    then show ?thesis using Pair by simp
  next
    case R
    then show ?thesis using refused_unchanged [OF Pair] Pair t by simp
  qed
qed

lemma board_step_texts:
  assumes "board_step ext db db'" and t: "grant_texts_wf db" and w: "system_wf ext db"
  shows "grant_texts_wf db'"
  using assms(1)
proof cases
  case (execute q now who)
  then show ?thesis using execute_texts [OF t] w by (simp add: system_wf_def)
next
  case (log call)
  then show ?thesis using log_effect_fields(1,2,4) [of call db]
    by (intro grant_texts_same [OF t]) (simp_all add: texts_of_participants_def)
next
  case (identity call)
  then show ?thesis using identities_only_fields(7,8,10) [OF identity_effect_only [of db ext call]]
    by (intro grant_texts_same [OF t]) (simp_all add: texts_of_participants_def)
next
  case (participant call)
  have eq: "db' = db\<lparr>web_participants := web_participants db'\<rparr>"
    using participant_effect_only [of db ext call] by (simp only: participant participants_only_def)
  have "principal_grants db' = principal_grants db" "delegated_grants db' = delegated_grants db" by (subst eq, simp)+
  then show ?thesis using participant_effect_ids [of db ext call]
    by (intro grant_texts_same [OF t]) (simp_all add: participant)
next
  case (administer now call)
  then show ?thesis using admin_effect_texts [OF t] w by (simp add: system_wf_def)
qed

lemma reachable_grant_texts: "reachable ext db \<Longrightarrow> grant_texts_wf db"
proof (induction rule: reachable.induct)
  case start
  show ?case by (simp add: grant_texts_wf_def empty_board_def)
next
  case (step db db')
  then show ?case using board_step_texts reachable_system_wf by blast
qed

section \<open>What the audit finds on a reachable board\<close>

text \<open>The violations of the audit, before they are sorted.\<close>

definition audit_violations :: "board \<Rightarrow> integrity_violation list" where
  "audit_violations db =
     (let participants = texts_of_participants db; durable_rows = sort_key g_id (principal_grants db);
          delegated_rows = sort_key d_id (delegated_grants db)
      in concat (map (durable_grant_violations participants) durable_rows) @ duplicate_scope_violations durable_rows @
         concat (map (\<lambda>g. delegated_grant_violations db participants g @ consumption_violations db g) delegated_rows))"

lemma audit_report:
  assumes "authorization_integrity_schema_current db"
  shows "\<exists>report. audit_authorization_integrity db = Inr report \<and> (ir_valid report \<longleftrightarrow> audit_violations db = [])"
  unfolding audit_authorization_integrity_def audit_violations_def texts_of_participants_def
  using assms by (simp add: Let_def sort_key_Nil_iff)

lemma audit_violations_unknown:
  assumes "policy_wf db" "consumption_wf db" "grant_texts_wf db"
  shows "audit_violations db = [] \<longleftrightarrow> (\<forall>g \<in> set (delegated_grants db). is_known_capability (d_capability g))"
proof -
  let ?ps = "texts_of_participants db" and ?dur = "sort_key g_id (principal_grants db)"
  have "distinct (map scope_of ?dur) = distinct (map scope_of (principal_grants db))"
    by (metis mset_map mset_sort mset_eq_imp_distinct_iff)
  then have dist: "distinct (map scope_of ?dur)" using assms(1) by (simp add: policy_wf_def)
  have durable: "durable_grant_violations ?ps g = []" if "g \<in> set (principal_grants db)" for g
    using assms(1,3) that unfolding durable_violations_Nil durable_ok_scope
    by (simp add: policy_wf_def grants_wf_def grant_texts_wf_def)
  have delegated: "delegated_grant_violations db ?ps g = [] \<and> consumption_violations db g = [] \<longleftrightarrow>
      is_known_capability (d_capability g)" if g: "g \<in> set (delegated_grants db)" for g
  proof -
    have one: "d_one_shot g \<in> {0, 1}" "status_ok (d_status g)" using assms(1) g by (auto simp: policy_wf_def grants_wf_def)
    have "consumption_violations db g = []"
      using assms(2) g unfolding consumption_violations_Nil [OF one(1)] consumption_wf_def by blast
    moreover have "delegated_scope_ok ?ps (delegated_row_scope g)" using assms(3) g by (simp add: grant_texts_wf_def)
    ultimately show ?thesis using one unfolding delegated_violations_Nil delegated_ok_scope by blast
  qed
  have "audit_violations db = [] \<longleftrightarrow>
      (\<forall>g \<in> set (delegated_grants db). delegated_grant_violations db ?ps g = [] \<and> consumption_violations db g = [])"
    using durable dist unfolding audit_violations_def Let_def append_is_Nil_conv concat_eq_Nil_conv duplicates_Nil by simp
  then show ?thesis using delegated by blast
qed

end
