(* ===== verification/Oidc.thy ===== *)
theory Oidc
  imports Http_Surface Policy_Texts "HOL-Library.AList"
begin

text \<open>
  The OIDC ingress (\<open>oidc.rs\<close>): a bearer token of the configured issuer names a principal, and a post to
  \<open>/api/oidc/messages/{participant_id}\<close> executes a message intent of that principal for the participant.

  The \<open>jsonwebtoken\<close> library is the argument \<open>jwt\<close>: reading a token's header, importing a key, and decoding a
  token, which checks the signature under the key, the expiry, the issuer and the audience and that the required
  claims are present.  Discovery and the download of the keys are not modelled.
\<close>

section \<open>The verifier\<close>

record jwt_header =
  jh_alg :: string
  jh_kid :: "string option"

record jwt_library =
  decode_header :: "string \<Rightarrow> jwt_header option"
  decode_token :: "string \<Rightarrow> string \<Rightarrow> string \<Rightarrow> string \<Rightarrow> json option"

record oidc_verifier =
  ov_issuer :: string
  ov_audience :: string
  ov_keys :: "(string \<times> string) list"

text \<open>The keys of a key set are its usable keys with an id, the last one for a repeated id.  The list holds the key
  id of each entry and what \<open>DecodingKey::from_jwk\<close> made of it.\<close>

definition from_jwks :: "string \<Rightarrow> string \<Rightarrow> (string option \<times> string option) list \<Rightarrow> oidc_verifier option" where
  "from_jwks issuer audience jwks =
     (let keys = fold (\<lambda>(kid, key) keys.
            (case kid of
               None \<Rightarrow> keys
             | Some i \<Rightarrow> (case key of Some k \<Rightarrow> AList.update i k keys | None \<Rightarrow> keys))) jwks []
      in if keys = [] then None
         else Some \<lparr>ov_issuer = issuer, ov_audience = audience, ov_keys = keys\<rparr>)"

definition verify_token :: "jwt_library \<Rightarrow> oidc_verifier \<Rightarrow> string \<Rightarrow> principal option" where
  "verify_token jwt v token =
     (case decode_header jwt token of
        None \<Rightarrow> None
      | Some header \<Rightarrow>
          if jh_alg header \<noteq> ''RS256'' then None
          else (case Option.bind (jh_kid header) (map_of (ov_keys v)) of
            None \<Rightarrow> None
          | Some key \<Rightarrow>
              (case decode_token jwt token key (ov_audience v) (ov_issuer v) of
                 None \<Rightarrow> None
               | Some claims \<Rightarrow>
                   (case Option.bind (json_get ''sub'' claims) as_str of
                      None \<Rightarrow> None
                    | Some s \<Rightarrow> if s = [] then None
                        else Some \<lparr>provider = ''oidc:'' @ ov_issuer v, subject = s\<rparr>))))"

text \<open>What the verifier accepts: an RS256 token whose key id names a configured key, under which the library decodes it
  for the configured audience and issuer to claims with a subject, not empty, that becomes a principal of the issuer.\<close>

definition token_issued_to :: "jwt_library \<Rightarrow> oidc_verifier \<Rightarrow> string \<Rightarrow> principal \<Rightarrow> bool" where
  "token_issued_to jwt v token p \<longleftrightarrow>
     (\<exists>header kid key claims. decode_header jwt token = Some header \<and> jh_alg header = ''RS256'' \<and>
        jh_kid header = Some kid \<and> map_of (ov_keys v) kid = Some key \<and>
        decode_token jwt token key (ov_audience v) (ov_issuer v) = Some claims \<and>
        json_get ''sub'' claims = Some (JStr (subject p)) \<and> subject p \<noteq> [] \<and> provider p = ''oidc:'' @ ov_issuer v)"

lemma as_str_Some: "as_str j = Some s \<longleftrightarrow> j = JStr s"
  by (cases j) (simp_all add: as_str_def)

lemma verify_token_iff: "verify_token jwt v token = Some p \<longleftrightarrow> token_issued_to jwt v token p"
  by (cases p)
    (auto simp: verify_token_def token_issued_to_def as_str_Some bind_eq_Some_conv split: option.splits if_splits; simp add: as_str_def)

section \<open>The request\<close>

definition OIDC_MECHANISM :: string where "OIDC_MECHANISM = ''oidc-bearer-jwt''"

definition valid_name :: "string \<Rightarrow> bool" where
  "valid_name v \<longleftrightarrow> v \<noteq> [] \<and> length v \<le> 128 \<and> list_all (\<lambda>b. is_alnum b \<or> b \<in> set ''-_.:'') v"

definition valid_kind :: "string \<Rightarrow> bool" where
  "valid_kind v \<longleftrightarrow> v \<noteq> [] \<and> length v \<le> 32 \<and> list_all (\<lambda>b. is_alnum b \<or> b \<in> set ''-_'') v"

text \<open>\<open>to_bytes\<close> reads at most one byte more than the limit and fails on a longer body.\<close>

definition oidc_read_json_object :: "externals \<Rightarrow> bytes \<Rightarrow> json_map api" where
  "oidc_read_json_object ext body =
     (if MAX_BODY_BYTES + 1 < length body then Inl (bad_request ''invalid_json'')
      else if MAX_BODY_BYTES < length body then Inl request_too_large
      else ok_or (bad_request ''invalid_json'') (Option.bind (json_from_slice ext body) as_object))"

record oidc_post_fields =
  of_principal :: principal
  of_participant_id :: string
  of_message :: message_fields
  of_intent_id :: string

definition oidc_kind_field :: "json_map \<Rightarrow> string api" where
  "oidc_kind_field body =
     (case map_of body ''kind'' of
        None \<Rightarrow> Inr ''message''
      | Some (JStr v) \<Rightarrow> if valid_kind v then Inr v else Inl (bad_request ''invalid_kind'')
      | Some _ \<Rightarrow> Inl (bad_request ''invalid_kind''))"

definition read_oidc_post ::
    "externals \<Rightarrow> jwt_library \<Rightarrow> oidc_verifier \<Rightarrow> string \<Rightarrow> header_map \<Rightarrow> bytes \<Rightarrow> oidc_post_fields api" where
  "read_oidc_post ext jwt v path_participant headers request =
     try_bind (ok_or (bad_request ''invalid_participant_id'') (validate_participant_id path_participant)) (\<lambda>participant_id.
     try_bind (ok_or unauthorized (bearer_token headers)) (\<lambda>token.
     try_bind (ok_or unauthorized (verify_token jwt v token)) (\<lambda>principal.
     try_bind (oidc_read_json_object ext request) (\<lambda>body.
     if \<not> only_keys body [''channel'', ''kind'', ''body'', ''reply_to'', ''intent_id'']
     then Inl (bad_request ''invalid_arguments'')
     else try_bind (ok_or (bad_request ''invalid_channel'') (text_field body ''channel'' valid_name)) (\<lambda>channel.
     try_bind (oidc_kind_field body) (\<lambda>kind.
     try_bind (ok_or (bad_request ''invalid_body'') (text_field body ''body'' (\<lambda>v. \<not> blank v))) (\<lambda>message_body.
     if MAX_BODY_BYTES < length message_body then Inl request_too_large
     else try_bind (reply_to_field body) (\<lambda>reply_to.
     try_bind (ok_or (bad_request ''invalid_intent_id'')
       (Option.bind (Option.bind (map_of body ''intent_id'') as_str) normalize_intent_id)) (\<lambda>intent_id.
     Inr \<lparr>of_principal = principal, of_participant_id = participant_id,
          of_message = \<lparr>mf_channel = channel, mf_kind = kind, mf_body = message_body, mf_reply_to = reply_to\<rparr>,
          of_intent_id = intent_id\<rparr>)))))))))"

definition oidc_delivery_id :: "oidc_post_fields \<Rightarrow> string" where
  "oidc_delivery_id f =
     ''oidc:'' @ subject (of_principal f) @ '':'' @ of_participant_id f @ '':'' @ of_intent_id f"

definition oidc_execution_request :: "externals \<Rightarrow> oidc_post_fields \<Rightarrow> message_execution_request" where
  "oidc_execution_request ext f =
     (let m = of_message f
      in \<lparr>mr_authority = \<lparr>au_principal = of_principal f, au_mechanism = OIDC_MECHANISM\<rparr>,
          mr_ingress = \<lparr>ig_delivery_id = oidc_delivery_id f, ig_intent_id = of_intent_id f,
            ig_transport = ''oidc-http'', ig_external_ref = of_intent_id f, ig_principal = of_principal f\<rparr>,
          mr_intent = \<lparr>it_intent_id = of_intent_id f, it_participant_id = of_participant_id f,
            it_conversation_ref = None, it_capability = POST_MESSAGE_CAPABILITY, it_resource = mf_channel m,
            it_request_hash = message_request_hash ext (mf_channel m) (mf_kind m) (mf_body m) None (mf_reply_to m)\<rparr>,
          mr_channel = mf_channel m, mr_kind = mf_kind m, mr_body = mf_body m, mr_reply_to = mf_reply_to m\<rparr>)"

definition oidc_json :: "bool \<Rightarrow> message \<Rightarrow> json" where
  "oidc_json idempotent m = json_object [(''idempotent'', JBool idempotent), (''message'', message_json m)]"

definition oidc_answer :: "message_execution_result sql_result \<Rightarrow> response api" where
  "oidc_answer result =
     (case result of
        Inl _ \<Rightarrow> Inl database
      | Inr (ExecCreated m) \<Rightarrow> Inr (201, oidc_json False m)
      | Inr (ExecExisting m) \<Rightarrow> Inr (200, oidc_json True m)
      | Inr AuthorizationDenied \<Rightarrow> Inl forbidden
      | Inr IntentConflict \<Rightarrow> Inl (409, ''intent_conflict'')
      | Inr ReplyTargetNotFound \<Rightarrow> Inl (bad_request ''reply_target_not_found'')
      | Inr ChannelArchived \<Rightarrow> Inl (409, ''channel_archived''))"

definition oidc_post_message ::
    "externals \<Rightarrow> jwt_library \<Rightarrow> oidc_verifier \<Rightarrow> int \<Rightarrow> string \<Rightarrow> header_map \<Rightarrow> bytes \<Rightarrow> board
     \<Rightarrow> response api \<times> board" where
  "oidc_post_message ext jwt v now path_participant headers request db =
     (case read_oidc_post ext jwt v path_participant headers request of
        Inl e \<Rightarrow> (Inl e, db)
      | Inr f \<Rightarrow>
          (case get_web_participant db (of_participant_id f) of
             None \<Rightarrow> (Inl forbidden, db)
           | Some writer \<Rightarrow>
               (case execute_message_intent ext now writer (oidc_execution_request ext f) db of
                  (result, db') \<Rightarrow> (oidc_answer result, db'))))"

section \<open>The post as a surface of the executor\<close>

text \<open>The verifier refuses an empty subject but not a blank one, which the audit of an execution would report.  The facts
  are proved for the library restricted to subjects that are not blank.  On a reachable board they carry over to every
  library, because no grant names a blank subject, so a post of such a principal is denied.\<close>

definition nonblank_subjects :: "jwt_library \<Rightarrow> jwt_library" where
  "nonblank_subjects jwt = jwt\<lparr>decode_token := (\<lambda>token key audience issuer.
     case decode_token jwt token key audience issuer of
       None \<Rightarrow> None
     | Some claims \<Rightarrow>
         (case Option.bind (json_get ''sub'' claims) as_str of
            Some s \<Rightarrow> if blank s then None else Some claims
          | None \<Rightarrow> Some claims))\<rparr>"

lemma verify_nonblank:
  "verify_token (nonblank_subjects jwt) v token =
     (case verify_token jwt v token of Some p \<Rightarrow> if blank (subject p) then None else Some p | None \<Rightarrow> None)"
proof -
  have "decode_header (nonblank_subjects jwt) = decode_header jwt" by (simp add: nonblank_subjects_def)
  moreover have "\<not> blank s \<Longrightarrow> s \<noteq> []" for s using trim_graphic [of "[]"] by auto
  ultimately show ?thesis
    unfolding verify_token_def by (auto simp: nonblank_subjects_def split: option.splits)
qed

text \<open>No grant of a reachable board names a blank subject, and a principal of an issuer has no implicit authority.\<close>

lemma malformed_blank: "blank s \<Longrightarrow> malformed_text s"
  by (simp add: malformed_text_def)

lemma blank_subject_denied:
  assumes "grant_texts_wf db" and "blank (subject actor)" and "provider actor = ''oidc:'' @ issuer"
  shows "\<not> policy_allows now db actor p cap res intent"
proof -
  have "\<not> durable_in_scope actor p cap g" if "g \<in> set (principal_grants db)" for g
    using assms(1,2) that malformed_blank
    by (force simp: grant_texts_wf_def durable_in_scope_def scope_of_def texts_ok_def)
  moreover have "\<not> delegated_in_scope actor p cap g" if "g \<in> set (delegated_grants db)" for g
    using assms(1,2) that malformed_blank
    by (force simp: grant_texts_wf_def delegated_in_scope_def delegated_scope_ok_def delegated_row_scope_def texts_ok_def)
  moreover have "implicit_authority_reason actor p cap res row = None" for row
    using assms(3) by (simp add: implicit_authority_reason_def Let_def)
  ultimately show ?thesis by (auto simp: policy_allows_def)
qed

lemma blank_subject_refused:
  assumes "reachable ext db" and "blank (subject (au_principal (mr_authority q)))"
    and "provider (au_principal (mr_authority q)) = ''oidc:'' @ issuer"
    and ex: "execute_message_intent ext now who q db = (res, db')"
  shows "db' = db \<and> (\<forall>m. res \<noteq> Inr (ExecCreated m) \<and> res \<noteq> Inr (ExecExisting m))"
proof -
  have "\<not> ad_allowed (decision_of now q db)"
    using decision_policy [OF reachable_system_wf [OF assms(1)]] blank_subject_denied [OF reachable_grant_texts [OF assms(1)] assms(2,3)]
    by blast
  then have "\<forall>m. res \<noteq> Inr (ExecCreated m) \<and> res \<noteq> Inr (ExecExisting m)"
    using executed_authorized [OF ex] by blast
  then show ?thesis using refused_execution [OF ex] by blast
qed

lemma valid_name_not_blank: "valid_name v \<Longrightarrow> \<not> blank v"
proof -
  assume v: "valid_name v"
  have "graphic b" if "is_alnum b \<or> b \<in> set ''-_.:''" for b
    using that is_alnum_graphic by (auto simp: graphic_def ascii_simps)
  then have "list_all graphic v" using v by (auto simp: valid_name_def list_all_iff)
  then show ?thesis using v by (simp add: valid_name_def trim_graphic)
qed

text \<open>A text with a graphic first byte is not blank.\<close>

lemma drop_short: "\<not> n < length xs \<Longrightarrow> drop (length xs - n) xs = xs"
  by simp

lemma ws_last_graphic: "graphic c \<Longrightarrow> ws_last (c # s) < length (c # s)"
proof -
  assume c: "graphic c"
  define xs where "xs = c # s"
  have ne: "xs \<noteq> []" "hd xs = c" by (simp_all add: xs_def)
  have no: "xs \<notin> set ws2 \<union> set ws3"
    using ws_high [of xs] graphic_high [OF c] by (auto simp: xs_def not_less)
  have 1: "1 < length xs" if "last xs \<in> set ws1" using that graphic_ws [OF c] by (cases s) (auto simp: xs_def)
  have 2: "2 < length xs" if "drop (length xs - 2) xs \<in> set ws2" using drop_short [of 2 xs] no that by (metis UnI1)
  have 3: "3 < length xs" if "drop (length xs - 3) xs \<in> set ws3" using drop_short [of 3 xs] no that by (metis UnI2)
  have "ws_last xs < length xs" using 1 2 3 ne unfolding ws_last_def by simp
  then show ?thesis by (simp only: xs_def)
qed

lemma trim_end_graphic: "graphic c \<Longrightarrow> trim_end (c # s) \<noteq> []"
proof (induction "c # s" arbitrary: s rule: trim_end.induct)
  case 1
  show ?case
  proof (cases "ws_last (c # s) = 0")
    case True
    then show ?thesis by (simp add: trim_end_id)
  next
    case False
    obtain t where t: "take (length (c # s) - ws_last (c # s)) (c # s) = c # t"
      using ws_last_graphic [OF 1(2), of s] by (cases "length (c # s) - ws_last (c # s)") auto
    then have "trim_end (c # s) = trim_end (c # t)" using False by (subst trim_end.simps) simp
    then show ?thesis using 1(1) [OF False] t 1(2) by simp
  qed
qed

lemma graphic_head_not_blank: "graphic c \<Longrightarrow> \<not> blank (c # s)"
proof -
  assume c: "graphic c"
  have "w \<notin> set ws2 \<union> set ws3" if "w = c # t" for w t
    using ws_high [of w] graphic_high [OF c] that by (auto simp: not_less)
  then have "ws_head (c # s) = 0" using graphic_ws [OF c] by (simp add: ws_head_def numeral_2_eq_2 numeral_3_eq_3)
  then show ?thesis using trim_end_graphic [OF c] by (simp add: trim_def trim_start_id)
qed

lemma graphic_prefix_not_blank: "graphic c \<Longrightarrow> \<not> blank ((c # s) @ t)"
  using graphic_head_not_blank by simp

lemma normalized_intent_not_blank: "normalize_intent_id v = Some w \<Longrightarrow> \<not> blank w"
  by (auto simp: normalize_intent_id_def Let_def split: if_splits)

text \<open>What an accepted post consists of.\<close>

lemma read_oidc_post_ok:
  assumes "read_oidc_post ext jwt v path headers request = Inr f"
  obtains token where "validate_participant_id path = Some (of_participant_id f)" "bearer_token headers = Some token"
    "verify_token jwt v token = Some (of_principal f)" "valid_name (mf_channel (of_message f))"
    "\<not> blank (of_intent_id f)"
proof -
  have "\<exists>token. validate_participant_id path = Some (of_participant_id f) \<and> bearer_token headers = Some token \<and>
      verify_token jwt v token = Some (of_principal f) \<and> valid_name (mf_channel (of_message f)) \<and>
      \<not> blank (of_intent_id f)"
    using assms by (auto simp: read_oidc_post_def try_bind_Inr ok_or_Inr text_field_def
        bind_eq_Some_conv normalized_intent_not_blank split: if_splits option.splits dest: normalized_intent_not_blank)
  then show thesis using that by blast
qed

lemma read_nonblank:
  "read_oidc_post ext (nonblank_subjects jwt) v path headers request = Inr f \<longleftrightarrow>
     read_oidc_post ext jwt v path headers request = Inr f \<and> \<not> blank (subject (of_principal f))"
proof (cases "\<exists>token p. bearer_token headers = Some token \<and> verify_token jwt v token = Some p \<and> blank (subject p)")
  case True
  then obtain token p where t: "bearer_token headers = Some token" "verify_token jwt v token = Some p" "blank (subject p)" by blast
  then have "verify_token (nonblank_subjects jwt) v token = None" by (simp add: verify_nonblank)
  then have "read_oidc_post ext (nonblank_subjects jwt) v path headers request \<noteq> Inr f"
    using t(1) by (auto elim!: read_oidc_post_ok)
  moreover have "blank (subject (of_principal f))" if "read_oidc_post ext jwt v path headers request = Inr f"
    by (rule read_oidc_post_ok [OF that]) (use t in simp)
  ultimately show ?thesis by blast
next
  case False
  then have "verify_token (nonblank_subjects jwt) v token = verify_token jwt v token" if "bearer_token headers = Some token" for token
    using that by (auto simp: verify_nonblank split: option.split)
  then have "read_oidc_post ext (nonblank_subjects jwt) v path headers request = read_oidc_post ext jwt v path headers request"
    by (cases "bearer_token headers") (simp_all add: read_oidc_post_def ok_or_def try_bind_def)
  moreover have "\<not> blank (subject (of_principal f))" if "read_oidc_post ext jwt v path headers request = Inr f"
    by (rule read_oidc_post_ok [OF that]) (use False in blast)
  ultimately show ?thesis by auto
qed

lemma oidc_provider_not_blank: "verify_token jwt v token = Some p \<Longrightarrow> \<not> blank (provider p)"
proof -
  assume "verify_token jwt v token = Some p"
  then have "provider p = ''oidc:'' @ ov_issuer v"
    by (auto simp: verify_token_def split: option.splits if_splits)
  then show ?thesis using graphic_head_not_blank [of "CHR ''o''" "''idc:'' @ ov_issuer v"]
    by (simp add: graphic_def ascii_simps)
qed

lemma oidc_request_described:
  assumes "\<not> blank (subject (of_principal f))" and "read_oidc_post ext jwt v path headers request = Inr f"
  shows "described (oidc_execution_request ext f)"
proof (rule read_oidc_post_ok [OF assms(2)])
  fix token
  assume ok: "validate_participant_id path = Some (of_participant_id f)" "verify_token jwt v token = Some (of_principal f)"
    "valid_name (mf_channel (of_message f))" "\<not> blank (of_intent_id f)"
  have g: "graphic (CHR ''o'')" by (simp add: graphic_def ascii_simps)
  have "\<not> blank (oidc_delivery_id f)" using graphic_head_not_blank [OF g] by (simp add: oidc_delivery_id_def)
  moreover have "\<not> blank ''oidc-http''" using graphic_head_not_blank [OF g, of "''idc-http''"] by simp
  moreover have "\<not> blank (of_participant_id f)"
  proof -
    have "trim (of_participant_id f) = of_participant_id f \<and> of_participant_id f \<noteq> []"
      using ok(1) validate_participant_id_trim [OF ok(1)] by (auto simp: validate_participant_id_def Let_def split: if_splits
          dest: name_shape_nonempty)
    then show ?thesis by simp
  qed
  moreover have "\<not> blank (subject (of_principal f))" "\<not> blank (provider (of_principal f))"
    using assms(1) ok(2) oidc_provider_not_blank by auto
  ultimately show ?thesis
    using ok(4) valid_name_not_blank [OF ok(3)] by (simp add: described_def oidc_execution_request_def Let_def)
qed

definition oidc_intent_of ::
    "externals \<Rightarrow> jwt_library \<Rightarrow> oidc_verifier \<Rightarrow> string \<times> header_map \<times> bytes \<Rightarrow> board
     \<Rightarrow> (identity \<times> message_execution_request) option" where
  "oidc_intent_of ext jwt v r db =
     (case read_oidc_post ext jwt v (fst r) (fst (snd r)) (snd (snd r)) of
        Inl _ \<Rightarrow> None
      | Inr f \<Rightarrow> map_option (\<lambda>who. (who, oidc_execution_request ext f)) (get_web_participant db (of_participant_id f)))"

lemma oidc_answer_iff:
  "(\<exists>j. oidc_answer res = Inr (201, j)) \<longleftrightarrow> (\<exists>m. res = Inr (ExecCreated m))"
  "(\<exists>x. oidc_answer res = Inr x) \<longleftrightarrow> (\<exists>m. res = Inr (ExecCreated m) \<or> res = Inr (ExecExisting m))"
  by (auto simp: oidc_answer_def bad_request_def forbidden_def split: sum.split message_execution_result.split)

interpretation oidc: execution_surface ext now
  "\<lambda>r. oidc_post_message ext (nonblank_subjects jwt) v now (fst r) (fst (snd r)) (snd (snd r))"
  "oidc_intent_of ext (nonblank_subjects jwt) v" "\<lambda>_ db. db" "\<lambda>_. oidc_answer"
  "\<lambda>a. \<exists>j. a = Inr (201, j)" "\<lambda>a. \<exists>x. a = Inr x" for ext now jwt v
proof
  fix r db who q res db' m
  show "snd (oidc_post_message ext (nonblank_subjects jwt) v now (fst r) (fst (snd r)) (snd (snd r)) db) = db \<and>
      \<not> (\<exists>x. fst (oidc_post_message ext (nonblank_subjects jwt) v now (fst r) (fst (snd r)) (snd (snd r)) db) = Inr x)"
    if "oidc_intent_of ext (nonblank_subjects jwt) v r db = None"
    using that by (auto simp: oidc_intent_of_def oidc_post_message_def split: sum.splits)
  show "oidc_post_message ext (nonblank_subjects jwt) v now (fst r) (fst (snd r)) (snd (snd r)) db = (oidc_answer res, db')"
    if "oidc_intent_of ext (nonblank_subjects jwt) v r db = Some (who, q)" "execute_message_intent ext now who q db = (res, db')"
    using that by (auto simp: oidc_intent_of_def oidc_post_message_def split: sum.splits)
  show "oidc_intent_of ext (nonblank_subjects jwt) v r db = Some (who, q) \<Longrightarrow> described q"
    using oidc_request_described by (auto simp: oidc_intent_of_def read_nonblank split: sum.splits)
  show "\<exists>cs. db = db\<lparr>channels := cs\<rparr>" by (rule exI [of _ "channels db"]) simp
  show "oidc_intent_of ext (nonblank_subjects jwt) v r db' = Some (who, q) \<and> db' = db'"
    if "system_wf ext db" "oidc_intent_of ext (nonblank_subjects jwt) v r db = Some (who, q)"
      "execute_message_intent ext now who q db = (Inr (ExecCreated m), db')"
    using that(2) created_keeps_participants [OF that(1,3)]
    by (auto simp: oidc_intent_of_def get_web_participant_def split: sum.splits)
  show "(\<exists>j. oidc_answer res = Inr (201, j)) \<longleftrightarrow> (\<exists>m. res = Inr (ExecCreated m))"
    "(\<exists>x. oidc_answer res = Inr x) \<longleftrightarrow> (\<exists>m. res = Inr (ExecCreated m) \<or> res = Inr (ExecExisting m))"
    by (rule oidc_answer_iff)+
qed auto

section \<open>Accepted posts\<close>

lemma oidc_post_nonblank:
  assumes "reachable ext db"
  shows "oidc_post_message ext jwt v now path headers request db =
      oidc_post_message ext (nonblank_subjects jwt) v now path headers request db \<or>
    (\<exists>e. oidc_post_message ext jwt v now path headers request db = (Inl e, db))"
proof (cases "read_oidc_post ext jwt v path headers request")
  case (Inl e)
  then show ?thesis by (simp add: oidc_post_message_def)
next
  case (Inr f)
  show ?thesis
  proof (cases "blank (subject (of_principal f))")
    case False
    then have "read_oidc_post ext (nonblank_subjects jwt) v path headers request = Inr f" using Inr by (simp add: read_nonblank)
    then show ?thesis by (simp add: oidc_post_message_def Inr)
  next
    case True
    obtain token where "verify_token jwt v token = Some (of_principal f)" by (rule read_oidc_post_ok [OF Inr])
    then have p: "provider (of_principal f) = ''oidc:'' @ ov_issuer v" by (auto simp: verify_token_iff token_issued_to_def)
    have a: "au_principal (mr_authority (oidc_execution_request ext f)) = of_principal f"
      by (simp add: oidc_execution_request_def Let_def)
    have "\<exists>e. (case execute_message_intent ext now writer (oidc_execution_request ext f) db of
        (result, db') \<Rightarrow> (oidc_answer result, db')) = (Inl e, db)" for writer
    proof (cases "execute_message_intent ext now writer (oidc_execution_request ext f) db")
      case (Pair res db')
      have refused: "db' = db" "\<not> (\<exists>x. oidc_answer res = Inr x)"
        using blank_subject_refused [OF assms _ _ Pair] True p unfolding a oidc_answer_iff by blast+
      then show ?thesis using Pair by (cases "oidc_answer res") auto
    qed
    then show ?thesis by (simp add: oidc_post_message_def Inr split: option.split)
  qed
qed

text \<open>C13: OIDC posts are authenticated and authorized.  A post on a reachable board is answered with success only if it
  carries a bearer token that the verifier accepts: RS256, under a configured key, for this issuer and audience, with a
  subject; and the policy allows the principal the token names to post to the channel as the participant of the path;
  any other post adds no message.\<close>

theorem oidc_posts_authorized:
  assumes "reachable ext db"
    and "oidc_post_message ext jwt v now path headers request db = (answer, db')"
  shows "(\<forall>a. answer = Inr a \<longrightarrow> (\<exists>token p f. bearer_token headers = Some token \<and> verify_token jwt v token = Some p \<and>
      token_issued_to jwt v token p \<and>
      read_oidc_post ext jwt v path headers request = Inr f \<and>
      validate_participant_id path = Some (of_participant_id f) \<and>
      policy_allows now db p (of_participant_id f) POST_MESSAGE_CAPABILITY (Some (mf_channel (of_message f)))
        (Some (of_intent_id f)))) \<and>
    (\<forall>e. answer = Inl e \<longrightarrow> messages db' = messages db)"
proof (intro conjI allI impI)
  let ?r = "(path, headers, request)"
  fix a assume a: "answer = Inr a"
  then have "oidc_post_message ext (nonblank_subjects jwt) v now path headers request db = (Inr a, db')"
    using assms(2) oidc_post_nonblank [OF assms(1), of jwt v now path headers request] by simp
  then have acc: "\<exists>x. fst (oidc_post_message ext (nonblank_subjects jwt) v now (fst ?r) (fst (snd ?r)) (snd (snd ?r)) db) = Inr x"
    by (intro exI [of _ a]) simp
  from oidc.accepted_authorized [OF reachable_system_wf [OF assms(1)] acc]
  obtain who q where q: "oidc_intent_of ext (nonblank_subjects jwt) v ?r db = Some (who, q)" "request_allowed now db q" by blast
  then obtain f where "read_oidc_post ext (nonblank_subjects jwt) v path headers request = Inr f"
      and f: "q = oidc_execution_request ext f"
    by (auto simp: oidc_intent_of_def split: sum.splits)
  then have f': "read_oidc_post ext jwt v path headers request = Inr f" by (simp add: read_nonblank)
  obtain token where t: "bearer_token headers = Some token" "verify_token jwt v token = Some (of_principal f)"
      "validate_participant_id path = Some (of_participant_id f)"
    by (rule read_oidc_post_ok [OF f'])
  have "policy_allows now db (of_principal f) (of_participant_id f) POST_MESSAGE_CAPABILITY
      (Some (mf_channel (of_message f))) (Some (of_intent_id f))"
    using q(2) by (simp add: request_allowed_def f oidc_execution_request_def Let_def)
  then show "\<exists>token p f. bearer_token headers = Some token \<and> verify_token jwt v token = Some p \<and>
      token_issued_to jwt v token p \<and>
      read_oidc_post ext jwt v path headers request = Inr f \<and>
      validate_participant_id path = Some (of_participant_id f) \<and>
      policy_allows now db p (of_participant_id f) POST_MESSAGE_CAPABILITY (Some (mf_channel (of_message f)))
        (Some (of_intent_id f))" using f' t verify_token_iff by blast
next
  fix e assume e: "answer = Inl e"
  consider "oidc_post_message ext (nonblank_subjects jwt) v now path headers request db = (Inl e, db')" | "db' = db"
    using assms(2) e oidc_post_nonblank [OF assms(1), of jwt v now path headers request] by auto
  then show "messages db' = messages db"
    using oidc.not_accepted_messages [where r = "(path, headers, request)", simplified fst_conv snd_conv, of ext jwt v now db]
    by cases simp_all
qed

text \<open>A board with a participant and two principals of one issuer who may both post as it, and a post of each.\<close>

definition sample_oidc_create :: "string \<Rightarrow> durable_create" where
  "sample_oidc_create s = \<lparr>dc_principal_provider = ''oidc:iss'', dc_principal_subject = s,
     dc_participant_id = ''ada'', dc_capability = ''post_message'', dc_resource = None\<rparr>"

definition sample_oidc_board :: board where
  "sample_oidc_board = admin_effect 8 (CreateDurable local_cli (sample_oidc_create ''s:ada''))
     (admin_effect 7 (CreateDurable local_cli (sample_oidc_create ''s'')) sample_provisioned)"

definition sample_oidc_grant :: "int \<Rightarrow> int \<Rightarrow> string \<Rightarrow> durable_grant" where
  "sample_oidc_grant i now s = \<lparr>g_id = i, g_principal_provider = ''oidc:iss'', g_principal_subject = s,
     g_participant_id = ''ada'', g_capability = ''post_message'', g_resource = None, g_status = ''active'',
     g_created_at = now, g_updated_at = now\<rparr>"

lemma sample_oidc_normalized:
  assumes "s \<in> {''s'', ''s:ada''}"
  shows "normalize_durable_grant_create_request (sample_oidc_create s) = Inr (sample_oidc_create s)"
proof -
  have n: "normalize ''oidc:iss'' 256 f = Inr ''oidc:iss''" "normalize s 256 f = Inr s"
    "normalize ''post_message'' 128 f = Inr ''post_message''" for f
    using assms by (auto simp: normalize_def trim_graphic graphic_def ascii_simps ascii_control_def)
  have v: "validate_participant_id ''ada'' = Some ''ada''" by code_simp
  show ?thesis
    by (simp add: normalize_durable_grant_create_request_def sample_oidc_create_def try_bind_def n v
        Authorization_Admin.ok_or_def
        MAX_PROVIDER_BYTES_def MAX_SUBJECT_BYTES_def MAX_CAPABILITY_BYTES_def normalize_optional_def
        is_known_capability_def KNOWN_CAPABILITIES_def capability_names)
qed

lemma sample_oidc_grants:
  assumes "s \<in> {''s'', ''s:ada''}" and "schema_current db"
    and "web_participants db = [new_participant 5 ''ada'' ''human'' None]"
    and "\<forall>g \<in> set (principal_grants db). g_principal_subject g \<noteq> s"
  shows "\<exists>es. admin_effect now (CreateDurable local_cli (sample_oidc_create s)) db =
    db\<lparr>principal_grants := principal_grants db @ [sample_oidc_grant (next_rowid (map g_id (principal_grants db))) now s],
      authorization_admin_events := es\<rparr>"
proof -
  have none: "filter (durable_scope_hit ''oidc:iss'' s ''ada'' ''post_message'' None) (principal_grants db) = []"
    using assms(4) by (auto simp: filter_empty_conv durable_scope_hit_def scope_of_def)
  have ev: "\<exists>es. record_event n a kind i action scope bs as d = d\<lparr>authorization_admin_events := es\<rparr>"
    for n a kind i action scope bs as d by (rule exI, rule record_event_def)
  let ?d = "db\<lparr>principal_grants := principal_grants db @ [sample_oidc_grant (next_rowid (map g_id (principal_grants db))) now s]\<rparr>"
  obtain es where es: "record_event now \<lparr>na_surface = ''local-cli'', na_provider = None, na_subject = None,
     na_participant_id = None\<rparr> ''durable'' (next_rowid (map g_id (principal_grants db))) ''create''
     (durable_request_scope (sample_oidc_create s)) None ''active'' ?d = ?d\<lparr>authorization_admin_events := es\<rparr>"
    using ev by blast
  have "create_durable_grant_in_tx now \<lparr>na_surface = ''local-cli'', na_provider = None, na_subject = None,
     na_participant_id = None\<rparr> (sample_oidc_create s) db =
     (Inr (next_rowid (map g_id (principal_grants db)), Created), ?d\<lparr>authorization_admin_events := es\<rparr>)"
    unfolding es [symmetric] using assms(3) none
    by (simp add: create_durable_grant_in_tx_def require_active_participant_def new_participant_def
        sample_oidc_create_def sample_oidc_grant_def Let_def)
  then have "admin_effect now (CreateDurable local_cli (sample_oidc_create s)) db = ?d\<lparr>authorization_admin_events := es\<rparr>"
    using assms(2) by (simp add: create_durable_grant_def administer_def require_schema_current_def
        sample_normalized(1) sample_oidc_normalized [OF assms(1)] commit_def)
  then show ?thesis by (intro exI) simp
qed

lemma sample_oidc_facts:
  "reachable ext sample_oidc_board" "channels sample_oidc_board = []" "messages sample_oidc_board = []"
  "navigation_writes sample_oidc_board = []" "ingress_provenance sample_oidc_board = []"
  "web_participants sample_oidc_board = [new_participant 5 ''ada'' ''human'' None]"
  "principal_grants sample_oidc_board = [sample_oidc_grant 1 7 ''s'', sample_oidc_grant 2 8 ''s:ada'']"
proof -
  show "reachable ext sample_oidc_board"
    unfolding sample_oidc_board_def
    by (rule reachable.step [OF reachable.step [OF sample_provisioned_reachable board_step.administer] board_step.administer])
  have sc: "schema_current sample_provisioned"
    using sample_admin_schema by (simp add: schema_current_def sample_admin_board_def sample_provisioned_def
        authorization_policy_snapshot_schema_current_def table_has_columns_def)
  obtain es where 1: "admin_effect 7 (CreateDurable local_cli (sample_oidc_create ''s'')) sample_provisioned =
      sample_provisioned\<lparr>principal_grants := [sample_oidc_grant 1 7 ''s''], authorization_admin_events := es\<rparr>"
    using sample_oidc_grants [of "''s''" sample_provisioned 7] sc
    by (auto simp: sample_provisioned_def empty_board_def next_rowid_def)
  let ?b = "sample_provisioned\<lparr>principal_grants := [sample_oidc_grant 1 7 ''s''], authorization_admin_events := es\<rparr>"
  have "schema_current ?b" using sc by (simp add: schema_current_def authorization_policy_snapshot_schema_current_def
        table_has_columns_def)
  then obtain fs where 2: "sample_oidc_board = ?b\<lparr>principal_grants := [sample_oidc_grant 1 7 ''s'', sample_oidc_grant 2 8 ''s:ada''],
      authorization_admin_events := fs\<rparr>"
    using sample_oidc_grants [of "''s:ada''" ?b 8] unfolding sample_oidc_board_def 1
    by (auto simp: sample_oidc_grant_def next_rowid_def sample_provisioned_def)
  show "channels sample_oidc_board = []" "messages sample_oidc_board = []"
    "navigation_writes sample_oidc_board = []" "ingress_provenance sample_oidc_board = []"
    "web_participants sample_oidc_board = [new_participant 5 ''ada'' ''human'' None]"
    "principal_grants sample_oidc_board = [sample_oidc_grant 1 7 ''s'', sample_oidc_grant 2 8 ''s:ada'']"
    by (simp_all add: 2 sample_provisioned_def empty_board_def)
qed

definition sample_oidc_body :: "string \<Rightarrow> json_map" where
  "sample_oidc_body i = [(''body'', JStr ''hi''), (''channel'', JStr ''lab''), (''intent_id'', JStr i)]"

definition oidc_externals :: externals where
  "oidc_externals = sample_externals\<lparr>json_from_slice :=
     (\<lambda>bs. Some (JObj (sample_oidc_body (if bs = [1] then ''ada:i'' else ''i''))))\<rparr>"

definition sample_jwt :: jwt_library where
  "sample_jwt = \<lparr>decode_header = (\<lambda>_. Some \<lparr>jh_alg = ''RS256'', jh_kid = Some ''k''\<rparr>),
     decode_token = (\<lambda>token _ _ _. Some (JObj [(''sub'', JStr (if token = ''t1'' then ''s'' else ''s:ada''))]))\<rparr>"

definition sample_verifier :: oidc_verifier where
  "sample_verifier = \<lparr>ov_issuer = ''iss'', ov_audience = ''board'', ov_keys = [(''k'', ''key'')]\<rparr>"

definition bearer :: "string \<Rightarrow> header_map" where
  "bearer token = [(''authorization'', ''Bearer '' @ token)]"

definition sample_oidc_fields :: "string \<Rightarrow> string \<Rightarrow> oidc_post_fields" where
  "sample_oidc_fields s i = \<lparr>of_principal = \<lparr>provider = ''oidc:iss'', subject = s\<rparr>, of_participant_id = ''ada'',
     of_message = \<lparr>mf_channel = ''lab'', mf_kind = ''message'', mf_body = ''hi'', mf_reply_to = None\<rparr>, of_intent_id = i\<rparr>"

lemma sample_subjects: "\<not> blank (subject (of_principal (sample_oidc_fields ''s'' i)))"
  by (simp add: sample_oidc_fields_def trim_graphic graphic_def ascii_simps)

lemma sample_oidc_read:
  "read_oidc_post oidc_externals sample_jwt sample_verifier ''ada'' (bearer ''t1'') [1] = Inr (sample_oidc_fields ''s'' ''ada:i'')"
  "read_oidc_post oidc_externals sample_jwt sample_verifier ''ada'' (bearer ''t2'') [2] = Inr (sample_oidc_fields ''s:ada'' ''i'')"
proof -
  have v: "validate_participant_id ''ada'' = Some ''ada''" "valid_name ''lab''" by code_simp+
  have b: "bearer_token (bearer ''t1'') = Some ''t1''" "bearer_token (bearer ''t2'') = Some ''t2''" by code_simp+
  have nb: "\<not> blank ''hi''" by (simp add: trim_graphic graphic_def ascii_simps)
  have n: "normalize_intent_id ''ada:i'' = Some ''ada:i''" "normalize_intent_id ''i'' = Some ''i''"
    by (simp_all add: normalize_intent_id_def trim_graphic graphic_def ascii_simps MAX_INTENT_ID_BYTES_def
        ascii_control_def)
  have t: "verify_token sample_jwt sample_verifier ''t1'' = Some \<lparr>provider = ''oidc:iss'', subject = ''s''\<rparr>"
    "verify_token sample_jwt sample_verifier ''t2'' = Some \<lparr>provider = ''oidc:iss'', subject = ''s:ada''\<rparr>"
    by (simp_all add: verify_token_def sample_jwt_def sample_verifier_def json_get_def as_str_def)
  have r: "oidc_read_json_object oidc_externals [1] = Inr (sample_oidc_body ''ada:i'')"
    "oidc_read_json_object oidc_externals [2] = Inr (sample_oidc_body ''i'')"
    by (simp_all add: oidc_read_json_object_def oidc_externals_def MAX_BODY_BYTES_def ok_or_def as_object_def)
  have k: "only_keys (sample_oidc_body i) [''channel'', ''kind'', ''body'', ''reply_to'', ''intent_id'']" for i
    by (simp add: only_keys_def sample_oidc_body_def)
  have f: "text_field (sample_oidc_body i) ''channel'' valid_name = Some ''lab''"
    "text_field (sample_oidc_body i) ''body'' (\<lambda>v. \<not> blank v) = Some ''hi''"
    "oidc_kind_field (sample_oidc_body i) = Inr ''message''" "reply_to_field (sample_oidc_body i) = Inr None"
    "Option.bind (map_of (sample_oidc_body i) ''intent_id'') as_str = Some i" for i
    using v(2) nb by (simp_all add: text_field_def sample_oidc_body_def as_str_def oidc_kind_field_def reply_to_field_def)
  show "read_oidc_post oidc_externals sample_jwt sample_verifier ''ada'' (bearer ''t1'') [1] =
      Inr (sample_oidc_fields ''s'' ''ada:i'')"
    "read_oidc_post oidc_externals sample_jwt sample_verifier ''ada'' (bearer ''t2'') [2] =
      Inr (sample_oidc_fields ''s:ada'' ''i'')"
    by (simp_all only: read_oidc_post_def v b t r k f n ok_or_def try_bind_def option.case sum.case simp_thms if_True if_False
        Option.bind.bind_lunit) (simp_all add: MAX_BODY_BYTES_def sample_oidc_fields_def)
qed

lemma sample_oidc_who: "get_web_participant sample_oidc_board ''ada'' = Some sample_who"
  by (simp add: get_web_participant_def sample_oidc_facts(6) new_participant_def identity_of_participant_def sample_who_def)

lemma sample_oidc_allowed:
  assumes "s \<in> {''s'', ''s:ada''}"
  shows "ad_allowed (decision_of 9 (oidc_execution_request ext (sample_oidc_fields s i)) sample_oidc_board)"
proof -
  have "POST_MESSAGE_CAPABILITY = ''post_message''" by (simp add: POST_MESSAGE_CAPABILITY_def capability_names)
  then show ?thesis using assms
    by (auto simp: decision_of_def oidc_execution_request_def Let_def sample_oidc_fields_def evaluate_cases
        participant_policy_row_def sample_oidc_facts(6,7) new_participant_def sample_oidc_grant_def durable_in_scope_def
        explicit_match_def sql_resource_match_def)
qed

lemma sample_oidc_posted:
  obtains j db' where "oidc_post_message oidc_externals sample_jwt sample_verifier 9 ''ada'' (bearer ''t1'') [1] sample_oidc_board =
    (Inr (201, j), db')"
proof -
  let ?q = "oidc_execution_request oidc_externals (sample_oidc_fields ''s'' ''ada:i'')"
  have q: "mr_reply_to ?q = None" "mr_channel ?q = ''lab''"
    by (simp_all add: oidc_execution_request_def Let_def sample_oidc_fields_def)
  have b: "request_bound oidc_externals sample_who ?q"
    by (simp add: request_bound_def oidc_execution_request_def Let_def sample_oidc_fields_def sample_who_def)
  obtain m db' where ex: "execute_message_intent oidc_externals 9 sample_who ?q sample_oidc_board = (Inr (ExecCreated m), db')"
    by (rule first_execution [OF sample_oidc_facts(1) oidc_request_described [OF sample_subjects sample_oidc_read(1)] b
          sample_oidc_allowed]) (simp_all add: channel_active_def channel_metadata_def sample_oidc_facts q)
  have "of_participant_id (sample_oidc_fields ''s'' ''ada:i'') = ''ada''" by (simp add: sample_oidc_fields_def)
  then have "oidc_post_message oidc_externals sample_jwt sample_verifier 9 ''ada'' (bearer ''t1'') [1] sample_oidc_board =
      (oidc_answer (Inr (ExecCreated m)), db')"
    by (simp add: oidc_post_message_def sample_oidc_read sample_oidc_who ex)
  with that show thesis by (simp add: oidc_answer_def)
qed

theorem oidc_posts_authorized_witness:
  "\<exists>p f. policy_allows 9 sample_oidc_board p (of_participant_id f) POST_MESSAGE_CAPABILITY
       (Some (mf_channel (of_message f))) (Some (of_intent_id f)) \<and>
     read_oidc_post oidc_externals sample_jwt sample_verifier ''ada'' (bearer ''t1'') [1] = Inr f"
proof (rule sample_oidc_posted)
  fix j db'
  assume "oidc_post_message oidc_externals sample_jwt sample_verifier 9 ''ada'' (bearer ''t1'') [1] sample_oidc_board =
    (Inr (201, j), db')"
  from oidc_posts_authorized [OF sample_oidc_facts(1) this] show ?thesis by blast
qed

section \<open>Delivery ids\<close>

text \<open>A delivery id recorded for one intent bars every other intent from it.\<close>

lemma other_delivery_refused:
  assumes wf: "system_wf ext db" and d: "described q"
    and ex: "execute_message_intent ext now who q db = (Inr (ExecCreated m), db')"
    and same: "ig_delivery_id (mr_ingress q') = ig_delivery_id (mr_ingress q)"
    and other: "(it_participant_id (mr_intent q'), ig_intent_id (mr_ingress q')) \<noteq>
      (it_participant_id (mr_intent q), ig_intent_id (mr_ingress q))"
  shows "fst (execute_message_intent ext now' who' q' db') \<noteq> Inr (ExecCreated x) \<and>
    fst (execute_message_intent ext now' who' q' db') \<noteq> Inr (ExecExisting x)"
proof -
  have wf': "system_wf ext db'"
    using board_step_keeps [OF board_step.execute [OF d] wf, of now who] ex by (metis snd_conv)
  have "ingress_row_of now (mr_ingress q) (receipt_of q m) \<in> set (ingress_provenance db')" (is "?i \<in> _")
    using created_fields(3) [OF _ ex] wf by (simp add: system_wf_def)
  moreover have "in_delivery_id ?i = ig_delivery_id (mr_ingress q')" by (simp add: ingress_row_of_def same)
  moreover have "\<not> delivered (mr_ingress q') (receipt_of q' y) ?i" for y
  proof
    assume "delivered (mr_ingress q') (receipt_of q' y) ?i"
    from delivered_fields(2,3) [OF this] show False
      using other by (simp add: ingress_row_of_def receipt_of_def)
  qed
  ultimately have "delivery_conflict q' y db'" for y unfolding delivery_conflict_def by blast
  moreover have "fst (execute_message_intent ext now' who' q' db') = execution_outcome ext now' who' q' db'"
    by (rule outcome_correct) (use wf' in \<open>simp_all add: system_wf_def policy_wf_def\<close>)
  ultimately show ?thesis by (simp add: execution_outcome_def split: option.split)
qed

text \<open>The delivery ids of OIDC posts are ambiguous.  A delivery id joins subject, participant and intent with
  colons, which all three may contain.  Once a post of one intent was answered 201, every valid post of a different
  intent whose id reads the same is refused and adds no message, whatever the policy allows its principal.\<close>

theorem oidc_delivery_ids_collide:
  assumes "reachable ext db"
    and "read_oidc_post ext jwt v path headers request = Inr f" and "read_oidc_post ext jwt v path' headers' request' = Inr g"
    and "oidc_delivery_id g = oidc_delivery_id f"
    and "(of_participant_id g, of_intent_id g) \<noteq> (of_participant_id f, of_intent_id f)"
    and "oidc_post_message ext jwt v now path headers request db = (Inr (201, j), db1)"
  shows "\<exists>e db2. oidc_post_message ext jwt v now' path' headers' request' db1 = (Inl e, db2) \<and> messages db2 = messages db1"
proof -
  obtain who m where ex: "execute_message_intent ext now who (oidc_execution_request ext f) db = (Inr (ExecCreated m), db1)"
    using assms(2,6) by (auto simp: oidc_post_message_def oidc_answer_def bad_request_def forbidden_def
        split: option.splits prod.splits sum.splits message_execution_result.splits)
  have "oidc_post_message ext (nonblank_subjects jwt) v now path headers request db = (Inr (201, j), db1)"
    using oidc_post_nonblank [OF assms(1), of jwt v now path headers request] assms(6) by simp
  then have "\<not> blank (subject (of_principal f))"
    using assms(2) by (cases "read_oidc_post ext (nonblank_subjects jwt) v path headers request")
      (auto simp: oidc_post_message_def read_nonblank)
  note d = oidc_request_described [OF this assms(2)]
  have r1: "reachable ext db1"
    using reachable.step [OF assms(1) board_step.execute [OF d]] ex by (metis snd_conv)
  have "fst (execute_message_intent ext now' who' (oidc_execution_request ext g) db1) \<noteq> Inr (ExecCreated x) \<and>
      fst (execute_message_intent ext now' who' (oidc_execution_request ext g) db1) \<noteq> Inr (ExecExisting x)" for who' x
    by (rule other_delivery_refused [OF reachable_system_wf [OF assms(1)] d ex])
      (use assms(4,5) in \<open>simp_all add: oidc_execution_request_def Let_def\<close>)
  then have "\<not> (\<exists>x. fst (oidc_post_message ext jwt v now' path' headers' request' db1) = Inr x)"
    using assms(3) oidc_answer_iff(2) by (auto simp: oidc_post_message_def split: option.split prod.split) (metis fst_conv)+
  moreover from this have "messages (snd (oidc_post_message ext jwt v now' path' headers' request' db1)) = messages db1"
    using oidc.not_accepted_messages [where r = "(path', headers', request')", simplified fst_conv snd_conv, of ext jwt v now' db1]
      oidc_post_nonblank [OF r1, of jwt v now' path' headers' request'] by auto
  ultimately show ?thesis
    by (cases "oidc_post_message ext jwt v now' path' headers' request' db1"; cases "fst (oidc_post_message ext jwt v now' path' headers' request' db1)") auto
qed

theorem oidc_delivery_ids_collide_witness:
  "\<exists>j db1 e db2. ad_allowed (decision_of 9 (oidc_execution_request oidc_externals (sample_oidc_fields ''s:ada'' ''i'')) sample_oidc_board) \<and>
     oidc_post_message oidc_externals sample_jwt sample_verifier 9 ''ada'' (bearer ''t1'') [1] sample_oidc_board = (Inr (201, j), db1) \<and>
     oidc_post_message oidc_externals sample_jwt sample_verifier 9 ''ada'' (bearer ''t2'') [2] db1 = (Inl e, db2)"
proof (rule sample_oidc_posted)
  fix j db1
  assume p: "oidc_post_message oidc_externals sample_jwt sample_verifier 9 ''ada'' (bearer ''t1'') [1] sample_oidc_board =
    (Inr (201, j), db1)"
  have "oidc_delivery_id (sample_oidc_fields ''s:ada'' ''i'') = oidc_delivery_id (sample_oidc_fields ''s'' ''ada:i'')"
    "(of_participant_id (sample_oidc_fields ''s:ada'' ''i''), of_intent_id (sample_oidc_fields ''s:ada'' ''i'')) \<noteq>
     (of_participant_id (sample_oidc_fields ''s'' ''ada:i''), of_intent_id (sample_oidc_fields ''s'' ''ada:i''))"
    by (simp_all add: oidc_delivery_id_def sample_oidc_fields_def)
  from oidc_delivery_ids_collide [OF sample_oidc_facts(1) sample_oidc_read this p, of 9]
  show ?thesis using p sample_oidc_allowed [of "''s:ada''"] by blast
qed

end
