(* ===== verification/Access_Api.thy ===== *)
theory Access_Api
  imports Http_Surface "HOL-Library.Sublist"
begin

text \<open>
  The access API (\<open>access_api.rs\<close>): the reads of grants, executions, audits and policy over HTTP, and the
  administration of grants.

  A handler resolves the identity of the request, takes the principal from the kind of credential that was used and
  asks the policy.  The serializers that \<open>derive(Serialize)\<close> generates are not modelled: an answer carries the value
  the handler puts into its JSON object, and its constructor stands for the key.  Query and body deserializers
  generated by \<open>derive(Deserialize)\<close> are outside of the model too: a handler starts with the deserialized record.
  \<open>ext\<close>, \<open>key\<close>, \<open>unix\<close> and \<open>now\<close> are as in the theory of the HTTP handlers.
\<close>

section \<open>Answers\<close>

datatype access_answer =
    History history_window
  | Grant string int string
  | GrantDeactivated string int nat
  | AccessContext identity principal "string option" string "string list" "effective_grant list"
  | Execution execution_receipt
  | Audit audit_bundle
  | Integrity audit_report
  | Sweep sweep_report
  | Decision decision_explanation
  | Policy policy_window
  | PolicyIntegrity integrity_report

type_synonym access_response = "(nat \<times> access_answer) api"

definition unavailable :: "string \<Rightarrow> api_error" where "unavailable code = (503, code)"

text \<open>What the closure of a policy-gated read returns: the triples \<open>(false, false, None)\<close>, \<open>(true, false, None)\<close> and
  \<open>(true, true, Some x)\<close>.\<close>

datatype 'a gated = Outdated | Denied | Permitted 'a

definition gated_read :: "bool \<Rightarrow> authorization_decision sql_result \<Rightarrow> 'a sql_result \<Rightarrow> 'a gated sql_result" where
  "gated_read current decision read_result =
     (if \<not> current then Inr Outdated
      else (case decision of
              Inl e \<Rightarrow> Inl e
            | Inr d \<Rightarrow>
                if \<not> ad_allowed d then Inr Denied
                else (case read_result of Inl e \<Rightarrow> Inl e | Inr x \<Rightarrow> Inr (Permitted x))))"

definition gated_answer :: "string \<Rightarrow> 'a gated sql_result \<Rightarrow> 'a api" where
  "gated_answer outdated_code r =
     (case r of
        Inl _ \<Rightarrow> Inl database
      | Inr Outdated \<Rightarrow> Inl (unavailable outdated_code)
      | Inr Denied \<Rightarrow> Inl forbidden
      | Inr (Permitted x) \<Rightarrow> Inr x)"

section \<open>The caller\<close>

definition principal_for_headers :: "header_map \<Rightarrow> identity \<Rightarrow> principal" where
  "principal_for_headers headers resolved =
     \<lparr>provider =
        (if contains_key headers WEB_SESSION_HEADER then ''human-web''
         else if contains_key headers AUTH_PROOF_HEADER \<or> contains_key headers AUTH_SCHEME_HEADER
         then ''participant-hmac'' else ''bearer''),
      subject = id_instance resolved\<rparr>"

definition access_identity ::
    "externals \<Rightarrow> bytes \<Rightarrow> nat \<Rightarrow> board \<Rightarrow> header_map \<Rightarrow> string \<Rightarrow> string \<Rightarrow> identity api" where
  "access_identity ext key unix db headers http_method request_target =
     (case resolve_request_identity_for_target ext key unix db headers http_method request_target of
        None \<Rightarrow> Inl unauthorized | Some resolved \<Rightarrow> Inr resolved)"

section \<open>Reads\<close>

record history_query =
  hq_participant_id :: "string option"
  hq_before :: "int option"
  hq_after :: "int option"
  hq_limit :: "nat option"
  hq_order :: "string option"

definition validate_history_query :: "history_query \<Rightarrow> history_window_request api" where
  "validate_history_query q =
     try_bind (case hq_participant_id q of
         None \<Rightarrow> Inr None
       | Some v \<Rightarrow> map_sum id Some (ok_or (bad_request ''invalid_participant_id'') (validate_participant_id v)))
       (\<lambda>participant_filter.
     try_bind (ok_or (bad_request ''invalid_history_window'') (window_order_parse (hq_order q))) (\<lambda>order.
     if \<not> window_cursors_valid order (hq_before q) (hq_after q) \<or>
        (case hq_limit q of Some n \<Rightarrow> \<not> (1 \<le> n \<and> n \<le> MAX_ADMINISTRATION_HISTORY_WINDOW_SIZE) | None \<Rightarrow> False)
     then Inl (bad_request ''invalid_history_window'')
     else Inr \<lparr>hw_participant_id = participant_filter, hw_before = hq_before q, hw_after = hq_after q,
                hw_limit = hq_limit q, hw_order = hq_order q\<rparr>))"

definition authorization_administration_history ::
    "externals \<Rightarrow> bytes \<Rightarrow> nat \<Rightarrow> int \<Rightarrow> header_map \<Rightarrow> string \<Rightarrow> history_query \<Rightarrow> board \<Rightarrow> access_response" where
  "authorization_administration_history ext key unix now headers request_target q db =
     try_bind (access_identity ext key unix db headers ''GET'' request_target) (\<lambda>resolved.
     try_bind (validate_history_query q) (\<lambda>request.
     try_bind (gated_answer ''schema_migration_required''
         (gated_read (schema_current db)
           (explain_authorization now db (principal_for_headers headers resolved) (id_instance resolved)
              READ_AUTHORIZATION_ADMINISTRATION_HISTORY (Some AUTHORIZATION_ADMINISTRATION_HISTORY_RESOURCE) None)
           (read_administration_event_window db request)))
       (\<lambda>window. Inr (200, History window))))"

text \<open>\<open>sort\<close> and \<open>dedup\<close>.\<close>

definition capability_names_of :: "effective_grant list \<Rightarrow> string list" where
  "capability_names_of grants = remdups_adj (sort (map eg_capability grants))"

definition access_context ::
    "externals \<Rightarrow> bytes \<Rightarrow> nat \<Rightarrow> int \<Rightarrow> header_map \<Rightarrow> string \<Rightarrow> board \<Rightarrow> access_response" where
  "access_context ext key unix now headers request_target db =
     try_bind (access_identity ext key unix db headers ''GET'' request_target) (\<lambda>resolved.
     if \<not> effective_grants_schema_current db then Inl (unavailable ''authorization_schema_not_current'')
     else let principal = principal_for_headers headers resolved;
              role = get_web_participant_role db (id_instance resolved)
       in try_bind (with_db (if role = None then Inr [] else effective_grants now db principal (id_instance resolved)))
            (\<lambda>grants. Inr (200, AccessContext resolved principal (map_option (\<lambda>_. id_instance resolved) role)
               (case role of Some r \<Rightarrow> r | None \<Rightarrow> ''user'') (capability_names_of grants) grants)))"

definition execution_receipt_handler ::
    "externals \<Rightarrow> bytes \<Rightarrow> nat \<Rightarrow> header_map \<Rightarrow> string \<Rightarrow> string \<Rightarrow> board \<Rightarrow> access_response" where
  "execution_receipt_handler ext key unix headers request_target intent db =
     try_bind (access_identity ext key unix db headers ''GET'' request_target) (\<lambda>resolved.
     try_bind (ok_or (bad_request ''invalid_intent_id'') (normalize_intent_id intent)) (\<lambda>intent_id.
     try_bind (ok_or (404, ''execution_not_found'') (get_execution_receipt db (id_instance resolved) intent_id))
       (\<lambda>receipt. Inr (200, Execution receipt))))"

text \<open>The gate of the reads that ask \<open>evaluate_read_authorization\<close>.\<close>

definition read_gate :: "int \<Rightarrow> board \<Rightarrow> header_map \<Rightarrow> identity \<Rightarrow> string \<Rightarrow> string option \<Rightarrow> 'a \<Rightarrow> 'a api" where
  "read_gate now db headers resolved capability resource content =
     gated_answer ''authorization_schema_not_current''
       (gated_read (effective_grants_schema_current db)
         (evaluate_read_authorization now db (principal_for_headers headers resolved) (id_instance resolved)
            capability resource) (Inr content))"

definition execution_audit ::
    "externals \<Rightarrow> bytes \<Rightarrow> nat \<Rightarrow> int \<Rightarrow> header_map \<Rightarrow> string \<Rightarrow> string \<Rightarrow> board \<Rightarrow> access_response" where
  "execution_audit ext key unix now headers request_target intent db =
     try_bind (access_identity ext key unix db headers ''GET'' request_target) (\<lambda>resolved.
     try_bind (ok_or (bad_request ''invalid_intent_id'') (normalize_intent_id intent)) (\<lambda>intent_id.
     try_bind (read_gate now db headers resolved READ_EXECUTION_AUDIT (Some intent_id)
         (get_execution_audit_bundle db (id_instance resolved) intent_id)) (\<lambda>audit.
     try_bind (ok_or (404, ''execution_not_found'') audit) (\<lambda>bundle. Inr (200, Audit bundle)))))"

definition execution_audit_integrity ::
    "externals \<Rightarrow> bytes \<Rightarrow> nat \<Rightarrow> int \<Rightarrow> header_map \<Rightarrow> string \<Rightarrow> string \<Rightarrow> board \<Rightarrow> access_response" where
  "execution_audit_integrity ext key unix now headers request_target intent db =
     try_bind (access_identity ext key unix db headers ''GET'' request_target) (\<lambda>resolved.
     try_bind (ok_or (bad_request ''invalid_intent_id'') (normalize_intent_id intent)) (\<lambda>intent_id.
     try_bind (read_gate now db headers resolved READ_EXECUTION_AUDIT (Some intent_id)
         (verify_execution_audit_integrity ext db (id_instance resolved) intent_id))
       (\<lambda>report. Inr (200, Integrity report))))"

definition execution_audit_sweep ::
    "externals \<Rightarrow> bytes \<Rightarrow> nat \<Rightarrow> int \<Rightarrow> header_map \<Rightarrow> string \<Rightarrow> board \<Rightarrow> access_response" where
  "execution_audit_sweep ext key unix now headers request_target db =
     try_bind (access_identity ext key unix db headers ''GET'' request_target) (\<lambda>resolved.
     try_bind (read_gate now db headers resolved READ_EXECUTION_AUDIT_SWEEP (Some EXECUTION_AUDIT_SWEEP_RESOURCE)
         (sweep_execution_audit_integrity ext db))
       (\<lambda>report. Inr (200, Sweep report)))"

record decision_query =
  dq_principal_provider :: string
  dq_principal_subject :: string
  dq_participant_id :: string
  dq_capability :: string
  dq_resource :: "string option"
  dq_intent_id :: "string option"

definition explain_target :: "int \<Rightarrow> board \<Rightarrow> decision_target \<Rightarrow> decision_explanation sql_result" where
  "explain_target now db target =
     map_sum id explanation_of (explain_authorization now db (dt_principal target) (dt_participant_id target)
       (dt_capability target) (dt_resource target) (dt_intent_id target))"

definition authorization_decision_explain ::
    "externals \<Rightarrow> bytes \<Rightarrow> nat \<Rightarrow> int \<Rightarrow> header_map \<Rightarrow> string \<Rightarrow> decision_query \<Rightarrow> board \<Rightarrow> access_response" where
  "authorization_decision_explain ext key unix now headers request_target q db =
     try_bind (access_identity ext key unix db headers ''GET'' request_target) (\<lambda>resolved.
     try_bind (map_sum bad_request id (normalize_authorization_decision_target (dq_principal_provider q)
         (dq_principal_subject q) (dq_participant_id q) (dq_capability q) (dq_resource q) (dq_intent_id q))) (\<lambda>target.
     try_bind (gated_answer ''authorization_schema_not_current''
         (gated_read (authorization_decision_schema_current db)
           (explain_authorization now db (principal_for_headers headers resolved) (id_instance resolved)
              READ_AUTHORIZATION_DECISION (Some AUTHORIZATION_DECISION_RESOURCE) None)
           (explain_target now db target)))
       (\<lambda>explanation. Inr (200, Decision explanation))))"

record policy_query =
  pq_store :: "string option"
  pq_before :: "int option"
  pq_after :: "int option"
  pq_limit :: "nat option"
  pq_order :: "string option"

definition validate_policy_query :: "policy_query \<Rightarrow> policy_window_request api" where
  "validate_policy_query q =
     try_bind (ok_or (bad_request ''invalid_policy_window'')
         (Option.bind (pq_store q) (\<lambda>v. if policy_store_parse v \<noteq> None then Some v else None))) (\<lambda>store.
     try_bind (ok_or (bad_request ''invalid_policy_window'') (window_order_parse (pq_order q))) (\<lambda>order.
     if \<not> window_cursors_valid order (pq_before q) (pq_after q) \<or>
        (case pq_limit q of Some n \<Rightarrow> \<not> (1 \<le> n \<and> n \<le> MAX_AUTHORIZATION_POLICY_WINDOW_SIZE) | None \<Rightarrow> False)
     then Inl (bad_request ''invalid_policy_window'')
     else Inr \<lparr>wr_store = store, wr_before = pq_before q, wr_after = pq_after q, wr_limit = pq_limit q,
                wr_order = pq_order q\<rparr>))"

definition authorization_policy ::
    "externals \<Rightarrow> bytes \<Rightarrow> nat \<Rightarrow> int \<Rightarrow> header_map \<Rightarrow> string \<Rightarrow> policy_query \<Rightarrow> board \<Rightarrow> access_response" where
  "authorization_policy ext key unix now headers request_target q db =
     try_bind (access_identity ext key unix db headers ''GET'' request_target) (\<lambda>resolved.
     try_bind (validate_policy_query q) (\<lambda>request.
     try_bind (gated_answer ''authorization_schema_not_current''
         (gated_read (authorization_policy_snapshot_schema_current db)
           (explain_authorization now db (principal_for_headers headers resolved) (id_instance resolved)
              READ_AUTHORIZATION_POLICY (Some AUTHORIZATION_POLICY_RESOURCE) None)
           (read_authorization_policy_window db request)))
       (\<lambda>window. Inr (200, Policy window))))"

definition authorization_policy_integrity ::
    "externals \<Rightarrow> bytes \<Rightarrow> nat \<Rightarrow> int \<Rightarrow> header_map \<Rightarrow> string \<Rightarrow> board \<Rightarrow> access_response" where
  "authorization_policy_integrity ext key unix now headers request_target db =
     try_bind (access_identity ext key unix db headers ''GET'' request_target) (\<lambda>resolved.
     try_bind (gated_answer ''authorization_schema_not_current''
         (gated_read (effective_grants_schema_current db \<and> authorization_integrity_schema_current db)
           (evaluate_read_authorization now db (principal_for_headers headers resolved) (id_instance resolved)
              READ_AUTHORIZATION_POLICY_INTEGRITY (Some AUTHORIZATION_POLICY_INTEGRITY_RESOURCE))
           (audit_authorization_integrity db)))
       (\<lambda>report. Inr (200, PolicyIntegrity report)))"

section \<open>Administration\<close>

text \<open>\<open>str::contains\<close>.\<close>

fun contains :: "string \<Rightarrow> string \<Rightarrow> bool" where
  "contains [] needle \<longleftrightarrow> needle = []"
| "contains (c # cs) needle \<longleftrightarrow> prefix needle (c # cs) \<or> contains cs needle"

definition map_administration_error :: "admin_error \<Rightarrow> api_error" where
  "map_administration_error e =
     (case e of
        AdminError text \<Rightarrow>
          if text = ''authorization denied'' then forbidden
          else if contains text ''schema requires migration'' then unavailable ''schema_migration_required''
          else bad_request ''invalid_grant_request''
      | AdminSql _ \<Rightarrow> database)"

definition administration_surface :: string where "administration_surface = ''rest-authorization-admin''"

text \<open>What the four handlers share: the caller, who must not be authenticated by a proof.\<close>

definition administration_caller ::
    "externals \<Rightarrow> bytes \<Rightarrow> nat \<Rightarrow> header_map \<Rightarrow> string \<Rightarrow> string \<Rightarrow> board \<Rightarrow> (principal \<times> string) api" where
  "administration_caller ext key unix headers http_method request_target db =
     try_bind (access_identity ext key unix db headers http_method request_target) (\<lambda>resolved.
     let principal = principal_for_headers headers resolved in
     if provider principal = ''participant-hmac'' then Inl (403, ''unsupported_authentication'')
     else Inr (principal, id_instance resolved))"

definition with_caller ::
    "(principal \<times> string) api \<Rightarrow> (principal \<Rightarrow> string \<Rightarrow> board \<Rightarrow> 'a admin_result \<times> board)
     \<Rightarrow> ('a \<Rightarrow> access_response) \<Rightarrow> board \<Rightarrow> access_response \<times> board" where
  "with_caller caller operation answer db =
     (case caller of
        Inl e \<Rightarrow> (Inl e, db)
      | Inr (caller_principal, participant_id) \<Rightarrow>
          (case operation caller_principal participant_id db of
             (Inl e, db') \<Rightarrow> (Inl (map_administration_error e), db')
           | (Inr x, db') \<Rightarrow> (answer x, db')))"

fun create_state_name :: "create_state \<Rightarrow> string" where
  "create_state_name Created = ''created''"
| "create_state_name Existing = ''existing''"
| "create_state_name Reactivated = ''reactivated''"

definition create_durable_authorization_grant ::
    "externals \<Rightarrow> bytes \<Rightarrow> nat \<Rightarrow> int \<Rightarrow> header_map \<Rightarrow> string \<Rightarrow> durable_create \<Rightarrow> board \<Rightarrow> access_response \<times> board" where
  "create_durable_authorization_grant ext key unix now headers request_target body db =
     with_caller (administration_caller ext key unix headers ''POST'' request_target db)
       (\<lambda>principal p. create_durable_grant_authorized now administration_surface principal p body)
       (\<lambda>(i, state). Inr (if state = Created then 201 else 200, Grant ''durable'' i (create_state_name state))) db"

definition create_delegated_authorization_grant ::
    "externals \<Rightarrow> bytes \<Rightarrow> nat \<Rightarrow> int \<Rightarrow> header_map \<Rightarrow> string \<Rightarrow> delegated_create \<Rightarrow> board \<Rightarrow> access_response \<times> board" where
  "create_delegated_authorization_grant ext key unix now headers request_target body db =
     with_caller (administration_caller ext key unix headers ''POST'' request_target db)
       (\<lambda>principal p. create_delegated_grant_authorized now administration_surface principal p body)
       (\<lambda>i. Inr (201, Grant ''delegated'' i ''created'')) db"

definition deactivate_delegated_authorization_grant ::
    "externals \<Rightarrow> bytes \<Rightarrow> nat \<Rightarrow> int \<Rightarrow> header_map \<Rightarrow> string \<Rightarrow> int \<Rightarrow> board \<Rightarrow> access_response \<times> board" where
  "deactivate_delegated_authorization_grant ext key unix now headers request_target grant_id db =
     with_caller (administration_caller ext key unix headers ''DELETE'' request_target db)
       (\<lambda>principal p. deactivate_delegated_grant_authorized now administration_surface principal p grant_id)
       (\<lambda>outcome. try_bind (ok_or (404, ''grant_not_found'') outcome)
          (\<lambda>rows_changed. Inr (200, GrantDeactivated ''delegated'' grant_id rows_changed))) db"

definition deactivate_durable_authorization_grant ::
    "externals \<Rightarrow> bytes \<Rightarrow> nat \<Rightarrow> int \<Rightarrow> header_map \<Rightarrow> string \<Rightarrow> int \<Rightarrow> board \<Rightarrow> access_response \<times> board" where
  "deactivate_durable_authorization_grant ext key unix now headers request_target grant_id db =
     with_caller (administration_caller ext key unix headers ''DELETE'' request_target db)
       (\<lambda>principal p. deactivate_durable_grant_authorized now administration_surface principal p grant_id)
       (\<lambda>outcome. try_bind (ok_or (404, ''grant_not_found'') outcome)
          (\<lambda>rows_changed. Inr (200, GrantDeactivated ''durable'' grant_id rows_changed))) db"

datatype administration_request =
    DurableCreate durable_create
  | DelegatedCreate delegated_create
  | DelegatedDeactivate int
  | DurableDeactivate int

fun administration_handler ::
    "externals \<Rightarrow> bytes \<Rightarrow> nat \<Rightarrow> int \<Rightarrow> header_map \<Rightarrow> string \<Rightarrow> administration_request \<Rightarrow> board
     \<Rightarrow> access_response \<times> board" where
  "administration_handler ext key unix now headers target (DurableCreate body) =
     create_durable_authorization_grant ext key unix now headers target body"
| "administration_handler ext key unix now headers target (DelegatedCreate body) =
     create_delegated_authorization_grant ext key unix now headers target body"
| "administration_handler ext key unix now headers target (DelegatedDeactivate i) =
     deactivate_delegated_authorization_grant ext key unix now headers target i"
| "administration_handler ext key unix now headers target (DurableDeactivate i) =
     deactivate_durable_authorization_grant ext key unix now headers target i"

fun request_method :: "administration_request \<Rightarrow> string" where
  "request_method (DurableCreate _) = ''POST''"
| "request_method (DelegatedCreate _) = ''POST''"
| "request_method _ = ''DELETE''"

text \<open>The call of the administration that a request is.\<close>

fun administration_call :: "administration_request \<Rightarrow> principal \<Rightarrow> string \<Rightarrow> admin_call" where
  "administration_call (DurableCreate body) c p = CreateDurableAuthorized administration_surface c p body"
| "administration_call (DelegatedCreate body) c p = CreateDelegatedAuthorized administration_surface c p body"
| "administration_call (DelegatedDeactivate i) c p = DeactivateDelegatedAuthorized administration_surface c p i"
| "administration_call (DurableDeactivate i) c p = DeactivateDurableAuthorized administration_surface c p i"

section \<open>Facts about the gate\<close>

lemma gated_answer_Inr:
  "gated_answer code (gated_read current decision r) = Inr x \<longleftrightarrow>
     current \<and> (\<exists>d. decision = Inr d \<and> ad_allowed d) \<and> r = Inr x"
  by (auto simp: gated_answer_def gated_read_def split: sum.splits gated.splits if_splits)

text \<open>The caller whom a request authenticates is allowed something.\<close>

definition caller_allowed ::
    "externals \<Rightarrow> bytes \<Rightarrow> nat \<Rightarrow> int \<Rightarrow> header_map \<Rightarrow> string \<Rightarrow> string \<Rightarrow> board \<Rightarrow> string \<Rightarrow> string option \<Rightarrow> bool" where
  "caller_allowed ext key unix now headers http_method target db capability resource \<longleftrightarrow>
     (\<exists>resolved. resolve_request_identity_for_target ext key unix db headers http_method target = Some resolved \<and>
        policy_allows now db (principal_for_headers headers resolved) (id_instance resolved) capability resource None)"

lemma explained_allows:
  assumes "consumption_wf db"
  shows "(\<exists>d. explain_authorization now db c p cap res i = Inr d \<and> ad_allowed d) \<Longrightarrow> policy_allows now db c p cap res i"
    and "(\<exists>d. evaluate_read_authorization now db c p cap res = Inr d \<and> ad_allowed d) \<Longrightarrow> policy_allows now db c p cap res None"
  using evaluate_allowed_iff [OF assms]
  by (auto simp: explain_authorization_def evaluate_read_authorization_def split: if_splits)

lemma access_identity_Inr:
  "access_identity ext key unix db headers m target = Inr resolved \<longleftrightarrow>
     resolve_request_identity_for_target ext key unix db headers m target = Some resolved"
  by (simp add: access_identity_def split: option.split)

lemma administration_caller_Inr:
  "administration_caller ext key unix headers m target db = Inr (c, p) \<longleftrightarrow>
     (\<exists>resolved. resolve_request_identity_for_target ext key unix db headers m target = Some resolved \<and>
        c = principal_for_headers headers resolved \<and> p = id_instance resolved \<and> provider c \<noteq> ''participant-hmac'')"
  by (auto simp: administration_caller_def try_bind_Inr access_identity_Inr Let_def split: if_splits)

section \<open>Facts about the administration\<close>

lemma deactivate_none:
  "deactivate_durable_grant_in_tx now a i db = (Inr None, db') \<Longrightarrow> db' = db"
  "deactivate_delegated_grant_in_tx now a i db = (Inr None, db') \<Longrightarrow> db' = db"
  by (auto simp: deactivate_durable_grant_in_tx_def deactivate_delegated_grant_in_tx_def Let_def
      split: if_splits option.splits)

text \<open>A request is refused before the administration is asked, or it is the call of the administration.\<close>

lemma administration_handler_cases:
  assumes "administration_handler ext key unix now headers target r db = (answer, db')"
  obtains (Refused) e where "administration_caller ext key unix headers (request_method r) target db = Inl e"
      "answer = Inl e" "db' = db"
  | (Called) c p where "administration_caller ext key unix headers (request_method r) target db = Inr (c, p)"
      "db' = admin_effect now (administration_call r c p) db" "\<And>e. answer = Inl e \<Longrightarrow> db' = db"
      "authorize_administration now db c p \<noteq> Inr () \<Longrightarrow> \<exists>e. answer = Inl e"
proof (cases "administration_caller ext key unix headers (request_method r) target db")
  case (Inl e)
  then show thesis using Refused assms
    by (cases r) (auto simp: with_caller_def create_durable_authorization_grant_def
      create_delegated_authorization_grant_def deactivate_delegated_authorization_grant_def
      deactivate_durable_authorization_grant_def)
next
  case (Inr cp)
  obtain c p where cp: "cp = (c, p)" by fastforce
  show thesis
  proof (rule Called [of c p])
    show "administration_caller ext key unix headers (request_method r) target db = Inr (c, p)" using Inr cp by simp
    note handlers = create_durable_authorization_grant_def create_delegated_authorization_grant_def
      deactivate_delegated_authorization_grant_def deactivate_durable_authorization_grant_def
    note cases = durable_create.administer_cases durable_deactivate.administer_cases
      delegated_create.administer_cases delegated_deactivate.administer_cases
    show "db' = admin_effect now (administration_call r c p) db"
      using assms Inr cp by (cases r) (auto simp: handlers with_caller_def split: prod.splits sum.splits)
    show "db' = db" if "answer = Inl e" for e
      using assms Inr cp that
      by (cases r) (auto simp: handlers with_caller_def admin_call_defs try_bind_def ok_or_def
          split: prod.splits sum.splits option.splits dest!: cases dest: deactivate_none)
    show "\<exists>e. answer = Inl e" if "authorize_administration now db c p \<noteq> Inr ()"
      using assms Inr cp that
      by (cases r) (auto simp: handlers with_caller_def admin_call_defs
          split: prod.splits sum.splits dest!: cases)
  qed
qed

section \<open>Properties\<close>

text \<open>C14: Reads of executions, audits and policy are gated.  On a reachable board the access API answers a read
  of an audit, of the sweep, of the policy, of its integrity, of the administration history or of a decision with
  success only if the request authenticates an identity whose principal the policy allows exactly the capability
  of that read on its resource.\<close>

theorem access_reads_authorized:
  assumes "reachable ext db"
  shows "(authorization_administration_history ext key unix now headers target hq db = Inr a \<longrightarrow>
      caller_allowed ext key unix now headers ''GET'' target db READ_AUTHORIZATION_ADMINISTRATION_HISTORY
        (Some AUTHORIZATION_ADMINISTRATION_HISTORY_RESOURCE)) \<and>
    (execution_audit ext key unix now headers target intent db = Inr a \<or>
     execution_audit_integrity ext key unix now headers target intent db = Inr a \<longrightarrow>
      (\<exists>i. normalize_intent_id intent = Some i \<and>
         caller_allowed ext key unix now headers ''GET'' target db READ_EXECUTION_AUDIT (Some i))) \<and>
    (execution_audit_sweep ext key unix now headers target db = Inr a \<longrightarrow>
      caller_allowed ext key unix now headers ''GET'' target db READ_EXECUTION_AUDIT_SWEEP
        (Some EXECUTION_AUDIT_SWEEP_RESOURCE)) \<and>
    (authorization_decision_explain ext key unix now headers target dq db = Inr a \<longrightarrow>
      caller_allowed ext key unix now headers ''GET'' target db READ_AUTHORIZATION_DECISION
        (Some AUTHORIZATION_DECISION_RESOURCE)) \<and>
    (authorization_policy ext key unix now headers target pq db = Inr a \<longrightarrow>
      caller_allowed ext key unix now headers ''GET'' target db READ_AUTHORIZATION_POLICY
        (Some AUTHORIZATION_POLICY_RESOURCE)) \<and>
    (authorization_policy_integrity ext key unix now headers target db = Inr a \<longrightarrow>
      caller_allowed ext key unix now headers ''GET'' target db READ_AUTHORIZATION_POLICY_INTEGRITY
        (Some AUTHORIZATION_POLICY_INTEGRITY_RESOURCE))"
proof -
  have c: "consumption_wf db" using reachable_system_wf [OF assms] by (simp add: system_wf_def)
  note allows = explained_allows [OF c]
  note defs = try_bind_Inr access_identity_Inr gated_answer_Inr read_gate_def caller_allowed_def ok_or_Inr
  show ?thesis
  proof (intro conjI impI)
    assume "authorization_administration_history ext key unix now headers target hq db = Inr a"
    then show "caller_allowed ext key unix now headers ''GET'' target db READ_AUTHORIZATION_ADMINISTRATION_HISTORY
        (Some AUTHORIZATION_ADMINISTRATION_HISTORY_RESOURCE)"
      unfolding authorization_administration_history_def defs by (blast intro: allows(1))
  next
    assume "execution_audit ext key unix now headers target intent db = Inr a \<or>
     execution_audit_integrity ext key unix now headers target intent db = Inr a"
    then show "\<exists>i. normalize_intent_id intent = Some i \<and>
         caller_allowed ext key unix now headers ''GET'' target db READ_EXECUTION_AUDIT (Some i)"
      unfolding execution_audit_def execution_audit_integrity_def defs by (blast intro: allows(2))
  next
    assume "execution_audit_sweep ext key unix now headers target db = Inr a"
    then show "caller_allowed ext key unix now headers ''GET'' target db READ_EXECUTION_AUDIT_SWEEP
        (Some EXECUTION_AUDIT_SWEEP_RESOURCE)"
      unfolding execution_audit_sweep_def defs by (blast intro: allows(2))
  next
    assume "authorization_decision_explain ext key unix now headers target dq db = Inr a"
    then show "caller_allowed ext key unix now headers ''GET'' target db READ_AUTHORIZATION_DECISION
        (Some AUTHORIZATION_DECISION_RESOURCE)"
      unfolding authorization_decision_explain_def defs by (blast intro: allows(1))
  next
    assume "authorization_policy ext key unix now headers target pq db = Inr a"
    then show "caller_allowed ext key unix now headers ''GET'' target db READ_AUTHORIZATION_POLICY
        (Some AUTHORIZATION_POLICY_RESOURCE)"
      unfolding authorization_policy_def defs by (blast intro: allows(1))
  next
    assume "authorization_policy_integrity ext key unix now headers target db = Inr a"
    then show "caller_allowed ext key unix now headers ''GET'' target db READ_AUTHORIZATION_POLICY_INTEGRITY
        (Some AUTHORIZATION_POLICY_INTEGRITY_RESOURCE)"
      unfolding authorization_policy_integrity_def defs by (blast intro: allows(2))
  qed
qed

text \<open>C15: Grants are administered over HTTP by authorized callers only.  On a reachable board, a grant request is
  answered with success only if the caller was authenticated by a session or a bearer token (never by a proof) and
  the policy allows that principal to administer the policy; it changes nothing but grants and their recorded
  events, the board stays reachable, and a refused request changes nothing at all.\<close>

theorem rest_administration_authorized:
  assumes "reachable ext db" and "administration_handler ext key unix now headers target r db = (answer, db')"
  shows "reachable ext db' \<and> policy_only db db' \<and>
    (\<forall>a. answer = Inr a \<longrightarrow> \<not> contains_key headers AUTH_PROOF_HEADER \<and> \<not> contains_key headers AUTH_SCHEME_HEADER \<and>
       caller_allowed ext key unix now headers (request_method r) target db MANAGE_AUTHORIZATION_POLICY
         (Some AUTHORIZATION_POLICY_ADMIN_RESOURCE)) \<and>
    (\<forall>e. answer = Inl e \<longrightarrow> db' = db)"
proof -
  have wf: "policy_wf db" "consumption_wf db" using reachable_system_wf [OF assms(1)] by (simp_all add: system_wf_def)
  have same: "policy_only db db" by (simp add: policy_only_def)
  show ?thesis
  proof (cases rule: administration_handler_cases [OF assms(2)])
    case (1 e)
    then show ?thesis using assms(1) same by simp
  next
    case (2 c p)
    have "\<not> contains_key headers AUTH_PROOF_HEADER \<and> \<not> contains_key headers AUTH_SCHEME_HEADER \<and>
       caller_allowed ext key unix now headers (request_method r) target db MANAGE_AUTHORIZATION_POLICY
         (Some AUTHORIZATION_POLICY_ADMIN_RESOURCE)" if "answer = Inr a" for a
    proof -
      obtain resolved where i: "resolve_request_identity_for_target ext key unix db headers (request_method r) target = Some resolved"
          "c = principal_for_headers headers resolved" "p = id_instance resolved" "provider c \<noteq> ''participant-hmac''"
        using 2(1) unfolding administration_caller_Inr by blast
      have "authorize_administration now db c p = Inr ()" using 2(4) that by auto
      then have "policy_allows now db c p MANAGE_AUTHORIZATION_POLICY (Some AUTHORIZATION_POLICY_ADMIN_RESOURCE) None"
        by (intro explained_allows(1) [OF wf(2)]) (auto simp: authorize_administration_def split: sum.splits if_splits)
      moreover have "\<not> contains_key headers AUTH_PROOF_HEADER \<and> \<not> contains_key headers AUTH_SCHEME_HEADER"
      proof (cases "contains_key headers WEB_SESSION_HEADER")
        case True
        then show ?thesis using i(1) by (auto simp: resolve_request_identity_for_target_def split: if_splits)
      next
        case False
        then show ?thesis using i(2,4) by (auto simp: principal_for_headers_def split: if_splits)
      qed
      ultimately show ?thesis using i by (auto simp: caller_allowed_def)
    qed
    moreover have "reachable ext db'" unfolding 2(2) by (rule reachable.step [OF assms(1) board_step.administer])
    moreover have "policy_only db db'" unfolding 2(2) using admin_effect_recorded [OF wf(1)] by blast
    ultimately show ?thesis using 2(3) by blast
  qed
qed

text \<open>A human administrator with a live session.\<close>

lemma sample_admin_reachable: "reachable ext sample_admin_board"
proof -
  have "validate_participant_id ''ada'' = Some ''ada''" by code_simp
  then have "participant_effect ext (SetRole 5 ''ada'' ''admin'') sample_provisioned = sample_admin_board"
    by (simp add: set_web_participant_role_def update_participant_def sample_provisioned_def sample_admin_board_def
        new_participant_def sql_update_def sql_count_def empty_board_def)
  then show ?thesis using reachable.step [OF sample_provisioned_reachable board_step.participant] by metis
qed

lemma sample_admin_request:
  obtains headers resolved where
    "\<And>m t. resolve_request_identity_for_target sample_externals [1] 9 sample_admin_board headers m t = Some resolved"
    "id_instance resolved = ''ada''" "principal_for_headers headers resolved = \<lparr>provider = ''human-web'', subject = ''ada''\<rparr>"
proof -
  obtain s h where s: "verified_web_session sample_externals [1] 9 h = Some s" "ws_session_type s = HumanWeb"
    "ws_participant_id s = ''ada''" "h = [(WEB_SESSION_HEADER, ws_token s)]"
    using sample_session [OF sample_json_faithful sample_base64_faithful, of "''ada''" HumanWeb 9 "[1]"]
    by (auto simp: sample_externals_def)
  have k: "contains_key h WEB_SESSION_HEADER" "\<not> contains_key h AUTH_PROOF_HEADER" "\<not> contains_key h AUTH_SCHEME_HEADER"
    by (simp_all add: s(4) contains_key_def WEB_SESSION_HEADER_def AUTH_PROOF_HEADER_def AUTH_SCHEME_HEADER_def)
  obtain who where w: "get_web_participant sample_admin_board ''ada'' = Some who" "id_instance who = ''ada''"
    by (simp add: get_web_participant_def sample_admin_board_def new_participant_def identity_of_participant_def)
  have "resolve_request_identity_for_target sample_externals [1] 9 sample_admin_board h m t = Some who" for m t
    by (simp add: resolve_request_identity_for_target_def resolve_request_identity_def k s(1,2,3) w)
  moreover have "principal_for_headers h who = \<lparr>provider = ''human-web'', subject = ''ada''\<rparr>"
    by (simp add: principal_for_headers_def k w)
  ultimately show thesis using that w(2) by blast
qed

theorem access_reads_authorized_witness:
  "\<exists>headers. execution_audit_sweep sample_externals [1] 9 9 headers ''/'' sample_admin_board =
       Inr (200, Sweep (sweep_execution_audit_integrity sample_externals sample_admin_board)) \<and>
     caller_allowed sample_externals [1] 9 9 headers ''GET'' ''/'' sample_admin_board READ_EXECUTION_AUDIT_SWEEP
       (Some EXECUTION_AUDIT_SWEEP_RESOURCE)"
proof (rule sample_admin_request)
  fix h resolved
  assume r: "\<And>m t. resolve_request_identity_for_target sample_externals [1] 9 sample_admin_board h m t = Some resolved"
    "id_instance resolved = ''ada''" "principal_for_headers h resolved = \<lparr>provider = ''human-web'', subject = ''ada''\<rparr>"
  have cur: "effective_grants_schema_current sample_admin_board"
    by (simp add: effective_grants_schema_current_def table_has_columns_def sample_admin_board_def
        empty_board_def current_schema_def principal_grant_columns_def)
  have al: "ad_allowed (evaluate_authorization_current_schema 9 sample_admin_board \<lparr>provider = ''human-web'', subject = ''ada''\<rparr>
      ''ada'' READ_EXECUTION_AUDIT_SWEEP (Some EXECUTION_AUDIT_SWEEP_RESOURCE) None)"
    by (simp add: evaluate_cases participant_policy_row_def sample_admin_board_def empty_board_def new_participant_def
        implicit_authority_reason_def capability_names EXECUTION_AUDIT_SWEEP_RESOURCE_def)
  have "execution_audit_sweep sample_externals [1] 9 9 h ''/'' sample_admin_board =
      Inr (200, Sweep (sweep_execution_audit_integrity sample_externals sample_admin_board))"
    by (simp add: execution_audit_sweep_def access_identity_def r try_bind_def read_gate_def gated_read_def gated_answer_def
        cur evaluate_read_authorization_def al)
  with access_reads_authorized [OF sample_admin_reachable, of sample_externals "[1]" 9 9 h "''/''"]
  show ?thesis by blast
qed

theorem rest_administration_authorized_witness:
  "\<exists>headers i db'. administration_handler sample_externals [1] 9 9 headers ''/'' (DurableCreate sample_durable_create)
       sample_admin_board = (Inr (201, Grant ''durable'' i ''created''), db') \<and> reachable sample_externals db' \<and>
     principal_grants db' \<noteq> []"
proof (rule sample_admin_request)
  fix h resolved
  assume r: "\<And>m t. resolve_request_identity_for_target sample_externals [1] 9 sample_admin_board h m t = Some resolved"
    "id_instance resolved = ''ada''" "principal_for_headers h resolved = \<lparr>provider = ''human-web'', subject = ''ada''\<rparr>"
  let ?c = "\<lparr>provider = ''human-web'', subject = ''ada''\<rparr>"
  let ?a = "\<lparr>na_surface = administration_surface, na_provider = Some ''human-web'', na_subject = Some ''ada'',
    na_participant_id = Some ''ada''\<rparr>"
  have n: "normalize ''human-web'' 256 f = Inr ''human-web''" "normalize ''ada'' 256 f = Inr ''ada''"
    "normalize ''rest-authorization-admin'' 64 f = Inr ''rest-authorization-admin''" for f
    by (simp_all add: normalize_def trim_graphic graphic_def ascii_simps ascii_control_def)
  have "validate_participant_id ''ada'' = Some ''ada''" by code_simp
  then have na: "normalize_actor (caller_actor administration_surface ?c ''ada'') = Inr ?a"
    by (simp add: normalize_actor_def caller_actor_def try_bind_def MAX_SURFACE_BYTES_def MAX_PROVIDER_BYTES_def
          MAX_SUBJECT_BYTES_def transpose_opt_def administration_surface_def n)
  have "authorization_decision_schema_current sample_admin_board"
    by (simp add: authorization_decision_schema_current_def table_has_columns_def sample_admin_board_def
        empty_board_def current_schema_def principal_grant_columns_def delegated_grant_columns_def)
  then have auth: "authorize_administration 9 sample_admin_board ?c ''ada'' = Inr ()"
    by (simp add: authorize_administration_def explain_authorization_def evaluate_cases
        participant_policy_row_def implicit_authority_reason_def capability_names
        sample_admin_board_def empty_board_def new_participant_def)
  obtain d where d: "create_durable_grant_in_tx 9 ?a sample_durable_create sample_admin_board = (Inr (1, Created), d)"
    "principal_grants d \<noteq> []" using sample_tx by blast
  have "create_durable_grant_authorized 9 administration_surface ?c ''ada'' sample_durable_create sample_admin_board =
      (Inr (1, Created), d)"
    by (simp add: create_durable_grant_authorized_def administer_def require_schema_current_def
        sample_admin_schema na sample_normalized auth commit_def d(1))
  then have p: "administration_handler sample_externals [1] 9 9 h ''/'' (DurableCreate sample_durable_create) sample_admin_board =
      (Inr (201, Grant ''durable'' 1 ''created''), d)"
    by (simp add: create_durable_authorization_grant_def administration_caller_def access_identity_def r try_bind_def
        with_caller_def)
  from rest_administration_authorized [OF sample_admin_reachable this] p d(2) show ?thesis by blast
qed

end
