(* ===== verification/Schema_Kept.thy ===== *)
theory Schema_Kept
  imports Ingress
begin

text \<open>
  The schema of reachable boards.  The read surfaces refuse to answer on a database whose tables lack columns, and the
  evaluator creates missing grant tables; on a board reached from a fresh database neither ever happens: every call
  keeps the schema, which is current.
\<close>

definition grant_tables :: "board \<Rightarrow> bool" where
  "grant_tables db \<longleftrightarrow> table_exists db ''principal_grants'' \<and> table_exists db ''delegated_grants''"

lemma ensure_grant_schema_id: "grant_tables db \<Longrightarrow> ensure_grant_schema db = db"
  by (simp add: grant_tables_def ensure_grant_schema_def create_table_if_not_exists_def)

lemma prepared_schema: "schema (prepared now who q db) = schema (ensure_grant_schema db)"
  by (simp add: prepared_def insert_channel_or_ignore_def)

lemma execute_schema:
  assumes "evidence_wf ext db" and "grant_tables db" and ex: "execute_message_intent ext now who q db = (res, db')"
  shows "schema db' = schema db"
proof (rule execute_cases [OF ex])
  assume "res = Inr (ExecCreated (created_message now who q db))"
  then show ?thesis using created_fields(12) [OF assms(1)] ex ensure_grant_schema_id [OF assms(2)] by simp
next
  fix m assume "res = Inr (ExecExisting m)"
  then have "execute_message_intent ext now who q db = (Inr (ExecExisting m), db')" using ex by simp
  then show ?thesis
    by (rule existing_board [OF assms(1)]) (simp add: prepared_schema ensure_grant_schema_id [OF assms(2)])
qed simp

lemma board_step_schema:
  assumes "board_step ext db db'" and w: "system_wf ext db" and g: "grant_tables db"
  shows "schema db' = schema db"
  using assms(1)
proof cases
  case (execute q now who)
  then show ?thesis using execute_schema [OF _ g] w by (simp add: system_wf_def prod_eq_iff)
next
  case (log call)
  then show ?thesis by (simp add: log_effect_fields)
next
  case (identity call)
  then show ?thesis using identities_only_fields(5) [OF identity_effect_only] by simp
next
  case (participant call)
  then show ?thesis using participants_only_quiet [OF participant_effect_only, of db ext call] by (simp add: quiet_def)
next
  case (administer now call)
  have "policy_only db (admin_effect now call db)" using admin_effect_recorded w by (simp add: system_wf_def)
  then show ?thesis unfolding administer policy_only_def by (metis board.select_convs(12) board.surjective board.update_convs(4,5,6))
qed

lemma grant_tables_schema: "schema db' = schema db \<Longrightarrow> grant_tables db' = grant_tables db"
  by (simp add: grant_tables_def table_exists_def)

lemma reachable_schema: "reachable ext db \<Longrightarrow> schema db = current_schema"
proof (induction rule: reachable.induct)
  case start
  then show ?case by (simp add: empty_board_def)
next
  case (step db db')
  have "grant_tables db" using step.IH by (simp add: grant_tables_def table_exists_def current_schema_def)
  then show ?case using board_step_schema [OF step.hyps(2) reachable_system_wf [OF step.hyps(1)]] step.IH by simp
qed

lemma current_schema_checks:
  assumes "schema db = current_schema"
  shows "ensure_grant_schema db = db" "schema_current db" "authorization_policy_snapshot_schema_current db"
    "authorization_integrity_schema_current db" "authorization_decision_schema_current db" "effective_grants_schema_current db"
proof -
  show "ensure_grant_schema db = db"
    by (rule ensure_grant_schema_id) (simp add: grant_tables_def table_exists_def assms current_schema_def)
  note cols = table_has_columns_def assms current_schema_def principal_grant_columns_def delegated_grant_columns_def
    admin_event_columns_def
  show "schema_current db" "authorization_policy_snapshot_schema_current db"
    "authorization_integrity_schema_current db" "authorization_decision_schema_current db" "effective_grants_schema_current db"
    by (simp_all add: schema_current_def authorization_policy_snapshot_schema_current_def
        authorization_integrity_schema_current_def authorization_decision_schema_current_def
        effective_grants_schema_current_def cols)
qed

lemmas reachable_current = current_schema_checks [OF reachable_schema]

lemma reachable_authorize:
  "reachable ext db \<Longrightarrow> authorize now db c p cap res =
     (ad_allowed (evaluate_authorization_current_schema now db c p cap res None), db)"
  by (simp add: authorize_def evaluate_authorization_def reachable_current(1))

lemma reachable_authorize_policy:
  assumes "reachable ext db"
  shows "authorize now db c p cap res = (policy_allows now db c p cap res None, db)"
proof -
  have "consumption_wf db" using reachable_system_wf [OF assms] by (simp add: system_wf_def)
  from evaluate_allowed_iff [OF this] show ?thesis by (simp add: reachable_authorize [OF assms])
qed

end
