(* ===== verification/Mcp_Tools.thy ===== *)
theory Mcp_Tools
  imports Oidc Access_Api Schema_Kept
begin

text \<open>
  The tools of the MCP server (\<open>mcp.rs\<close>).  A tool gets the arguments of the call and the principal of the transport, if
  the HTTP request carried a verified bearer token; without one the arguments must carry a participant's proof.  The
  answer of a tool is \<open>Inl code\<close> for \<open>tool_error(code)\<close> and \<open>Inr\<close> of what it hands to \<open>tool_success\<close>.  As in the access
  API the derived serializers are outside of the model: \<open>render\<close> is the JSON of a structured answer.

  Tools that call \<open>authorize\<close> may create missing grant tables, so they return the board they leave.
\<close>

section \<open>Answers\<close>

type_synonym 'a tool = "string + 'a"

datatype tool_answer =
    Messages string int nat int "message list"
  | Written string bool message
  | Context string principal "string list" "effective_grant list" string
  | Projection access_answer

definition MCP_ADAPTER :: string where "MCP_ADAPTER = ''mcp''"

definition tool_success :: "externals \<Rightarrow> json \<Rightarrow> json" where
  "tool_success ext structured_content = json_object
     [(''structuredContent'', structured_content),
      (''content'', JArr [json_object [(''type'', JStr ''text''),
         (''text'', JStr (text_of_bytes (json_to_vec ext structured_content)))]]),
      (''isError'', JBool False)]"

definition tool_error :: "string \<Rightarrow> json" where
  "tool_error code = json_object
     [(''content'', JArr [json_object [(''type'', JStr ''text''), (''text'', JStr code)]]), (''isError'', JBool True)]"

text \<open>The sequencing of steps that may fail and may change the board.\<close>

definition tool_bind :: "'a tool \<times> board \<Rightarrow> ('a \<Rightarrow> board \<Rightarrow> 'b tool \<times> board) \<Rightarrow> 'b tool \<times> board" where
  "tool_bind step rest = (case step of (Inl e, db) \<Rightarrow> (Inl e, db) | (Inr x, db) \<Rightarrow> rest x db)"

section \<open>Arguments\<close>

definition parse_auth :: "json_map \<Rightarrow> (string \<times> string) tool" where
  "parse_auth arguments =
     (case Option.bind (map_of arguments ''auth'') as_object of
        None \<Rightarrow> Inl ''invalid_auth''
      | Some auth \<Rightarrow>
          if length auth \<noteq> 2 \<or> \<not> only_keys auth [''scheme'', ''proof''] then Inl ''invalid_auth''
          else (case Option.bind (map_of auth ''scheme'') as_str of
            None \<Rightarrow> Inl ''invalid_auth''
          | Some scheme \<Rightarrow>
              if scheme \<noteq> AUTH_SCHEME then Inl ''unsupported_auth_scheme''
              else (case text_field auth ''proof'' (\<lambda>v. v \<noteq> [] \<and> length v \<le> 128) of
                None \<Rightarrow> Inl ''invalid_auth''
              | Some proof_text \<Rightarrow> Inr (scheme, proof_text))))"

text \<open>The participant id of every tool must be in its normal form.\<close>

definition tool_participant :: "json_map \<Rightarrow> string tool" where
  "tool_participant arguments =
     (case Option.bind (map_of arguments ''participant_id'') as_str of
        None \<Rightarrow> Inl ''invalid_participant_id''
      | Some value \<Rightarrow>
          if validate_participant_id value = Some value then Inr value else Inl ''invalid_participant_id'')"

definition tool_intent :: "json_map \<Rightarrow> string tool" where
  "tool_intent arguments =
     (case Option.bind (Option.bind (map_of arguments ''intent_id'') as_str) normalize_intent_id of
        None \<Rightarrow> Inl ''invalid_intent_id'' | Some i \<Rightarrow> Inr i)"

definition tool_text :: "json_map \<Rightarrow> string \<Rightarrow> (string \<Rightarrow> bool) \<Rightarrow> string \<Rightarrow> string tool" where
  "tool_text arguments name valid code =
     (case text_field arguments name valid of None \<Rightarrow> Inl code | Some v \<Rightarrow> Inr v)"

definition optional_text :: "json_map \<Rightarrow> string \<Rightarrow> string \<Rightarrow> string option tool" where
  "optional_text arguments name code =
     (case map_of arguments name of
        None \<Rightarrow> Inr None
      | Some JNull \<Rightarrow> Inr None
      | Some (JStr v) \<Rightarrow> Inr (Some v)
      | Some _ \<Rightarrow> Inl code)"

text \<open>A cursor, null, or absent.\<close>

definition cursor_argument :: "json_map \<Rightarrow> string \<Rightarrow> string \<Rightarrow> int option tool" where
  "cursor_argument arguments name code =
     (case map_of arguments name of
        None \<Rightarrow> Inr None
      | Some JNull \<Rightarrow> Inr None
      | Some v \<Rightarrow> (case as_i64 v of Some i \<Rightarrow> if 0 < i then Inr (Some i) else Inl code | None \<Rightarrow> Inl code))"

definition limit_argument :: "json_map \<Rightarrow> nat \<Rightarrow> string \<Rightarrow> nat option tool" where
  "limit_argument arguments maximum code =
     (case map_of arguments ''limit'' of
        None \<Rightarrow> Inr None
      | Some v \<Rightarrow>
          (case as_u64 v of Some n \<Rightarrow> if 1 \<le> n \<and> n \<le> maximum then Inr (Some n) else Inl code | None \<Rightarrow> Inl code))"

definition order_argument :: "json_map \<Rightarrow> string \<Rightarrow> string option tool" where
  "order_argument arguments code =
     (case map_of arguments ''order'' of
        None \<Rightarrow> Inr None
      | Some (JStr v) \<Rightarrow> if window_order_parse (Some v) \<noteq> None then Inr (Some v) else Inl code
      | Some _ \<Rightarrow> Inl code)"

record window_arguments =
  wa_before :: "int option"
  wa_after :: "int option"
  wa_limit :: "nat option"
  wa_order :: "string option"

definition read_window_arguments :: "json_map \<Rightarrow> nat \<Rightarrow> string \<Rightarrow> window_arguments tool" where
  "read_window_arguments arguments maximum code =
     try_bind (cursor_argument arguments ''before'' code) (\<lambda>before.
     try_bind (cursor_argument arguments ''after'' code) (\<lambda>after.
     try_bind (limit_argument arguments maximum code) (\<lambda>limit.
     try_bind (order_argument arguments code) (\<lambda>order.
     case window_order_parse order of
       None \<Rightarrow> Inl code
     | Some parsed_order \<Rightarrow>
         if before \<noteq> None \<and> after \<noteq> None \<or> parsed_order = Desc \<and> after \<noteq> None \<or> parsed_order = Asc \<and> before \<noteq> None
         then Inl code
         else Inr \<lparr>wa_before = before, wa_after = after, wa_limit = limit, wa_order = order\<rparr>))))"

section \<open>The caller\<close>

definition hmac_principal :: "string \<Rightarrow> principal" where
  "hmac_principal participant_id = \<lparr>provider = ''participant-hmac'', subject = participant_id\<rparr>"

definition resolve_capability_identity ::
    "externals \<Rightarrow> board \<Rightarrow> json_map \<Rightarrow> string \<Rightarrow> string \<Rightarrow> string option \<Rightarrow> identity tool" where
  "resolve_capability_identity ext db arguments participant_id capability resource =
     try_bind (parse_auth arguments) (\<lambda>(_, proof_text).
     case get_web_participant_auth db participant_id of
       None \<Rightarrow> Inl ''unauthorized''
     | Some auth \<Rightarrow>
         if pa_auth_scheme auth \<noteq> AUTH_SCHEME then Inl ''unsupported_auth_scheme''
         else if \<not> verify_capability_proof ext (pa_auth_secret auth) proof_text participant_id capability resource
         then Inl ''unauthorized''
         else Inr (pa_identity auth))"

text \<open>Who calls: the transport's principal, or the participant its proof names.\<close>

definition tool_caller ::
    "externals \<Rightarrow> board \<Rightarrow> json_map \<Rightarrow> principal option \<Rightarrow> string \<Rightarrow> string \<Rightarrow> string option \<Rightarrow> principal tool" where
  "tool_caller ext db arguments transport participant_id capability resource =
     (case transport of
        Some caller \<Rightarrow> Inr caller
      | None \<Rightarrow> try_bind (resolve_capability_identity ext db arguments participant_id capability resource)
          (\<lambda>_. Inr (hmac_principal participant_id)))"

definition resolve_capability_principal ::
    "externals \<Rightarrow> int \<Rightarrow> json_map \<Rightarrow> string \<Rightarrow> string \<Rightarrow> string option \<Rightarrow> principal option \<Rightarrow> board
     \<Rightarrow> principal tool \<times> board" where
  "resolve_capability_principal ext now arguments participant_id capability resource transport db =
     (case transport of
        Some caller \<Rightarrow>
          (case authorize now db caller participant_id capability resource of
             (allowed, db') \<Rightarrow> (if \<not> allowed then Inl ''forbidden'' else Inr caller, db'))
      | None \<Rightarrow> (tool_caller ext db arguments None participant_id capability resource, db))"

text \<open>Resolve the principal, ask the policy once more, and read.\<close>

definition authorized_read ::
    "externals \<Rightarrow> int \<Rightarrow> json_map \<Rightarrow> string \<Rightarrow> string \<Rightarrow> string option \<Rightarrow> principal option
     \<Rightarrow> (board \<Rightarrow> 'a tool) \<Rightarrow> string \<Rightarrow> board \<Rightarrow> 'a tool \<times> board" where
  "authorized_read ext now arguments participant_id capability resource transport read_result denied db =
     tool_bind (resolve_capability_principal ext now arguments participant_id capability resource transport db)
       (\<lambda>caller db1.
         (case authorize now db1 caller participant_id capability resource of
            (allowed, db2) \<Rightarrow> (if \<not> allowed then Inl denied else read_result db2, db2)))"

section \<open>Reading tools\<close>

definition blackboard_access_context ::
    "externals \<Rightarrow> int \<Rightarrow> json_map \<Rightarrow> principal option \<Rightarrow> board \<Rightarrow> tool_answer tool" where
  "blackboard_access_context ext now arguments transport db =
     (if \<not> only_keys arguments [''participant_id'', ''auth''] then Inl ''invalid_arguments''
      else try_bind (tool_participant arguments) (\<lambda>participant_id.
        try_bind (tool_caller ext db arguments transport participant_id ''access_context'' None) (\<lambda>caller.
        if \<not> effective_grants_schema_current db then Inl ''authorization_schema_not_current''
        else (case effective_grants now db caller participant_id of
          Inl _ \<Rightarrow> Inl ''database_unavailable''
        | Inr grants \<Rightarrow>
            if transport \<noteq> None \<and> grants = [] then Inl ''forbidden''
            else Inr (Context participant_id caller (capability_names_of grants) grants MCP_ADAPTER)))))"

definition blackboard_execution_receipt ::
    "externals \<Rightarrow> int \<Rightarrow> json_map \<Rightarrow> principal option \<Rightarrow> board \<Rightarrow> tool_answer tool \<times> board" where
  "blackboard_execution_receipt ext now arguments transport db =
     (if \<not> only_keys arguments [''participant_id'', ''intent_id'', ''auth''] then (Inl ''invalid_arguments'', db)
      else tool_bind (tool_participant arguments, db) (\<lambda>participant_id db.
        tool_bind (tool_intent arguments, db) (\<lambda>intent_id db.
        authorized_read ext now arguments participant_id READ_EXECUTION_RECEIPT (Some intent_id) transport
          (\<lambda>db. case get_execution_receipt db participant_id intent_id of
             None \<Rightarrow> Inl ''execution_not_found'' | Some receipt \<Rightarrow> Inr (Projection (Execution receipt)))
          ''execution_not_found'' db)))"

definition blackboard_execution_audit ::
    "externals \<Rightarrow> int \<Rightarrow> json_map \<Rightarrow> principal option \<Rightarrow> board \<Rightarrow> tool_answer tool \<times> board" where
  "blackboard_execution_audit ext now arguments transport db =
     (if \<not> only_keys arguments [''participant_id'', ''intent_id'', ''auth''] then (Inl ''invalid_arguments'', db)
      else tool_bind (tool_participant arguments, db) (\<lambda>participant_id db.
        tool_bind (tool_intent arguments, db) (\<lambda>intent_id db.
        authorized_read ext now arguments participant_id READ_EXECUTION_AUDIT (Some intent_id) transport
          (\<lambda>db. case get_execution_audit_bundle db participant_id intent_id of
             None \<Rightarrow> Inl ''execution_not_found'' | Some audit \<Rightarrow> Inr (Projection (Audit audit)))
          ''execution_not_found'' db)))"

definition blackboard_execution_audit_integrity ::
    "externals \<Rightarrow> int \<Rightarrow> json_map \<Rightarrow> principal option \<Rightarrow> board \<Rightarrow> tool_answer tool \<times> board" where
  "blackboard_execution_audit_integrity ext now arguments transport db =
     (if \<not> only_keys arguments [''participant_id'', ''intent_id'', ''auth''] then (Inl ''invalid_arguments'', db)
      else tool_bind (tool_participant arguments, db) (\<lambda>participant_id db.
        tool_bind (tool_intent arguments, db) (\<lambda>intent_id db.
        authorized_read ext now arguments participant_id READ_EXECUTION_AUDIT (Some intent_id) transport
          (\<lambda>db. Inr (Projection (Integrity (verify_execution_audit_integrity ext db participant_id intent_id))))
          ''forbidden'' db)))"

definition blackboard_execution_audit_sweep ::
    "externals \<Rightarrow> int \<Rightarrow> json_map \<Rightarrow> principal option \<Rightarrow> board \<Rightarrow> tool_answer tool \<times> board" where
  "blackboard_execution_audit_sweep ext now arguments transport db =
     (if \<not> only_keys arguments [''participant_id'', ''auth''] then (Inl ''invalid_arguments'', db)
      else tool_bind (tool_participant arguments, db) (\<lambda>participant_id db.
        authorized_read ext now arguments participant_id READ_EXECUTION_AUDIT_SWEEP (Some EXECUTION_AUDIT_SWEEP_RESOURCE)
          transport (\<lambda>db. Inr (Projection (Sweep (sweep_execution_audit_integrity ext db)))) ''forbidden'' db))"

text \<open>Here the schema is checked between the two decisions.\<close>

definition blackboard_authorization_policy_integrity ::
    "externals \<Rightarrow> int \<Rightarrow> json_map \<Rightarrow> principal option \<Rightarrow> board \<Rightarrow> tool_answer tool \<times> board" where
  "blackboard_authorization_policy_integrity ext now arguments transport db =
     (if \<not> only_keys arguments [''participant_id'', ''auth''] then (Inl ''invalid_arguments'', db)
      else tool_bind (tool_participant arguments, db) (\<lambda>participant_id db.
        tool_bind (resolve_capability_principal ext now arguments participant_id READ_AUTHORIZATION_POLICY_INTEGRITY
            (Some AUTHORIZATION_POLICY_INTEGRITY_RESOURCE) transport db) (\<lambda>caller db1.
        if \<not> authorization_integrity_schema_current db1 then (Inl ''authorization_schema_not_current'', db1)
        else (case authorize now db1 caller participant_id READ_AUTHORIZATION_POLICY_INTEGRITY
                (Some AUTHORIZATION_POLICY_INTEGRITY_RESOURCE) of
          (allowed, db2) \<Rightarrow>
            (if \<not> allowed then Inl ''forbidden''
             else (case audit_authorization_integrity db2 of
               Inl _ \<Rightarrow> Inl ''database_unavailable''
             | Inr report \<Rightarrow> Inr (Projection (PolicyIntegrity report))), db2)))))"

text \<open>The gate of the tools that read on a read-only connection.\<close>

definition tool_gate :: "'a gated sql_result \<Rightarrow> 'a tool" where
  "tool_gate r =
     (case r of
        Inl _ \<Rightarrow> Inl ''database_unavailable''
      | Inr Outdated \<Rightarrow> Inl ''authorization_schema_not_current''
      | Inr Denied \<Rightarrow> Inl ''forbidden''
      | Inr (Permitted x) \<Rightarrow> Inr x)"

text \<open>The proof of a decision request covers the whole question.\<close>

definition decision_caller ::
    "externals \<Rightarrow> board \<Rightarrow> json_map \<Rightarrow> principal option \<Rightarrow> string \<Rightarrow> decision_target \<Rightarrow> principal tool" where
  "decision_caller ext db arguments transport participant_id target =
     (case transport of
        Some caller \<Rightarrow> Inr caller
      | None \<Rightarrow>
          try_bind (parse_auth arguments) (\<lambda>(_, proof_text).
          case get_web_participant_auth db participant_id of
            None \<Rightarrow> Inl ''unauthorized''
          | Some auth \<Rightarrow>
              if pa_auth_scheme auth \<noteq> AUTH_SCHEME then Inl ''unsupported_auth_scheme''
              else if \<not> verify_message_proof ext (pa_auth_secret auth) proof_text
                    (canonical_authorization_decision_bytes ext participant_id (provider (dt_principal target))
                       (subject (dt_principal target)) (dt_participant_id target) (dt_capability target)
                       (dt_resource target) (dt_intent_id target))
              then Inl ''unauthorized''
              else Inr (hmac_principal participant_id)))"

definition blackboard_authorization_decision ::
    "externals \<Rightarrow> int \<Rightarrow> json_map \<Rightarrow> principal option \<Rightarrow> board \<Rightarrow> tool_answer tool" where
  "blackboard_authorization_decision ext now arguments transport db =
     (if \<not> only_keys arguments [''participant_id'', ''auth'', ''principal_provider'', ''principal_subject'',
           ''target_participant_id'', ''capability'', ''resource'', ''intent_id''] then Inl ''invalid_arguments''
      else try_bind (tool_participant arguments) (\<lambda>participant_id.
        try_bind (tool_text arguments ''principal_provider'' (\<lambda>_. True) ''invalid_principal_provider'') (\<lambda>principal_provider.
        try_bind (tool_text arguments ''principal_subject'' (\<lambda>_. True) ''invalid_principal_subject'') (\<lambda>principal_subject.
        try_bind (tool_text arguments ''target_participant_id'' (\<lambda>_. True) ''invalid_participant_id'') (\<lambda>target_participant_id.
        try_bind (tool_text arguments ''capability'' (\<lambda>_. True) ''invalid_capability'') (\<lambda>capability.
        try_bind (optional_text arguments ''resource'' ''invalid_resource'') (\<lambda>resource.
        try_bind (optional_text arguments ''intent_id'' ''invalid_intent_id'') (\<lambda>intent_id.
        try_bind (normalize_authorization_decision_target principal_provider principal_subject target_participant_id
            capability resource intent_id) (\<lambda>target.
        try_bind (decision_caller ext db arguments transport participant_id target) (\<lambda>caller.
        try_bind (tool_gate (gated_read (authorization_decision_schema_current db)
            (explain_authorization now db caller participant_id READ_AUTHORIZATION_DECISION
               (Some AUTHORIZATION_DECISION_RESOURCE) None)
            (explain_target now db target)))
          (\<lambda>explanation. Inr (Projection (Decision explanation)))))))))))))"

definition filter_argument :: "json_map \<Rightarrow> string option tool" where
  "filter_argument arguments =
     (case map_of arguments ''filter_participant_id'' of
        None \<Rightarrow> Inr None
      | Some JNull \<Rightarrow> Inr None
      | Some (JStr v) \<Rightarrow>
          if validate_participant_id v = Some v then Inr (Some v) else Inl ''invalid_filter_participant_id''
      | Some _ \<Rightarrow> Inl ''invalid_filter_participant_id'')"

definition blackboard_authorization_administration_history ::
    "externals \<Rightarrow> int \<Rightarrow> json_map \<Rightarrow> principal option \<Rightarrow> board \<Rightarrow> tool_answer tool" where
  "blackboard_authorization_administration_history ext now arguments transport db =
     (if \<not> only_keys arguments [''participant_id'', ''filter_participant_id'', ''before'', ''after'', ''limit'', ''order'',
           ''auth''] then Inl ''invalid_arguments''
      else try_bind (tool_participant arguments) (\<lambda>participant_id.
        try_bind (filter_argument arguments) (\<lambda>filter_participant_id.
        try_bind (read_window_arguments arguments MAX_ADMINISTRATION_HISTORY_WINDOW_SIZE ''invalid_history_window'') (\<lambda>w.
        try_bind (tool_caller ext db arguments transport participant_id READ_AUTHORIZATION_ADMINISTRATION_HISTORY
            (Some AUTHORIZATION_ADMINISTRATION_HISTORY_RESOURCE)) (\<lambda>caller.
        try_bind (tool_gate (gated_read (schema_current db)
            (explain_authorization now db caller participant_id READ_AUTHORIZATION_ADMINISTRATION_HISTORY
               (Some AUTHORIZATION_ADMINISTRATION_HISTORY_RESOURCE) None)
            (read_administration_event_window db
               \<lparr>hw_participant_id = filter_participant_id, hw_before = wa_before w, hw_after = wa_after w,
                hw_limit = wa_limit w, hw_order = wa_order w\<rparr>)))
          (\<lambda>window. Inr (Projection (History window))))))))"

definition blackboard_authorization_policy ::
    "externals \<Rightarrow> int \<Rightarrow> json_map \<Rightarrow> principal option \<Rightarrow> board \<Rightarrow> tool_answer tool" where
  "blackboard_authorization_policy ext now arguments transport db =
     (if \<not> only_keys arguments [''participant_id'', ''store'', ''before'', ''after'', ''limit'', ''order'', ''auth'']
      then Inl ''invalid_arguments''
      else try_bind (tool_participant arguments) (\<lambda>participant_id.
        try_bind (tool_text arguments ''store'' (\<lambda>v. policy_store_parse v \<noteq> None) ''invalid_policy_window'') (\<lambda>store.
        try_bind (read_window_arguments arguments MAX_AUTHORIZATION_POLICY_WINDOW_SIZE ''invalid_policy_window'') (\<lambda>w.
        try_bind (tool_caller ext db arguments transport participant_id READ_AUTHORIZATION_POLICY
            (Some AUTHORIZATION_POLICY_RESOURCE)) (\<lambda>caller.
        try_bind (tool_gate (gated_read (authorization_policy_snapshot_schema_current db)
            (explain_authorization now db caller participant_id READ_AUTHORIZATION_POLICY
               (Some AUTHORIZATION_POLICY_RESOURCE) None)
            (read_authorization_policy_window db
               \<lparr>wr_store = store, wr_before = wa_before w, wr_after = wa_after w, wr_limit = wa_limit w,
                wr_order = wa_order w\<rparr>)))
          (\<lambda>window. Inr (Projection (Policy window))))))))"

section \<open>Reading and writing messages\<close>

definition MAX_MESSAGE_BODY_BYTES :: nat where "MAX_MESSAGE_BODY_BYTES = 64 * 1024"

definition DEFAULT_PAGE_SIZE :: nat where "DEFAULT_PAGE_SIZE = 50"

record read_arguments =
  ra_channel :: string
  ra_after :: int
  ra_limit :: nat

definition read_read_arguments :: "json_map \<Rightarrow> read_arguments tool" where
  "read_read_arguments arguments =
     (if \<not> only_keys arguments [''channel'', ''after'', ''limit'', ''participant_id'', ''auth''] then Inl ''invalid_arguments''
      else try_bind (tool_text arguments ''channel'' name_re ''invalid_channel'') (\<lambda>channel.
        try_bind (case map_of arguments ''after'' of
            None \<Rightarrow> Inr 0
          | Some v \<Rightarrow> (case as_i64 v of Some i \<Rightarrow> if 0 \<le> i then Inr i else Inl ''invalid_after''
              | None \<Rightarrow> Inl ''invalid_after'')) (\<lambda>after.
        try_bind (case map_of arguments ''limit'' of
            None \<Rightarrow> Inr DEFAULT_PAGE_SIZE
          | Some v \<Rightarrow> (case as_u64 v of Some n \<Rightarrow> if 1 \<le> n \<and> n \<le> MAX_PAGE_SIZE then Inr n else Inl ''invalid_limit''
              | None \<Rightarrow> Inl ''invalid_limit'')) (\<lambda>limit.
        Inr \<lparr>ra_channel = channel, ra_after = after, ra_limit = limit\<rparr>))))"

text \<open>Whether the caller may read the channel: the policy decides for a transport principal, a proof over this very
  read for a participant, and without either the channel must be public.\<close>

definition read_permission ::
    "externals \<Rightarrow> int \<Rightarrow> json_map \<Rightarrow> principal option \<Rightarrow> read_arguments \<Rightarrow> board \<Rightarrow> unit tool \<times> board" where
  "read_permission ext now arguments transport a db =
     (let participant = Option.bind (map_of arguments ''participant_id'') as_str in
      if participant \<noteq> None \<or> map_of arguments ''auth'' \<noteq> None
      then (case Option.bind participant validate_participant_id of
          None \<Rightarrow> (Inl ''invalid_participant_id'', db)
        | Some participant_id \<Rightarrow>
            (case transport of
               Some caller \<Rightarrow>
                 (case authorize now db caller participant_id READ_MESSAGES (Some (ra_channel a)) of
                    (allowed, db') \<Rightarrow> (if \<not> allowed then Inl ''forbidden'' else Inr (), db'))
             | None \<Rightarrow>
                 (try_bind (parse_auth arguments) (\<lambda>(_, proof_text).
                    if (case get_web_participant_auth db participant_id of
                          None \<Rightarrow> False
                        | Some auth \<Rightarrow> pa_auth_scheme auth = AUTH_SCHEME \<and>
                            verify_read_proof ext (pa_auth_secret auth) proof_text participant_id (ra_channel a)
                              (ra_after a) (ra_limit a))
                    then Inr () else Inl ''unauthorized''), db)))
      else (if channel_is_public_active db (ra_channel a) then Inr () else Inl ''forbidden'', db))"

definition blackboard_read ::
    "externals \<Rightarrow> int \<Rightarrow> json_map \<Rightarrow> principal option \<Rightarrow> board \<Rightarrow> tool_answer tool \<times> board" where
  "blackboard_read ext now arguments transport db =
     tool_bind (read_read_arguments arguments, db) (\<lambda>a db.
     tool_bind (read_permission ext now arguments transport a db) (\<lambda>_ db.
       let rows = list_messages_after db (ra_after a) (Some (ra_channel a)) (ra_limit a);
           latest_id = (if rows = [] then ra_after a else m_id (last rows))
       in (Inr (Messages (ra_channel a) (ra_after a) (length rows) latest_id rows), db)))"

record write_arguments =
  ww_participant_id :: string
  ww_message :: message_fields
  ww_nonce :: string

definition read_write_arguments :: "json_map \<Rightarrow> write_arguments tool" where
  "read_write_arguments arguments =
     (if map_of arguments ''source'' \<noteq> None \<or> map_of arguments ''instance'' \<noteq> None
      then Inl ''identity_is_server_resolved''
      else if \<not> only_keys arguments [''participant_id'', ''auth'', ''channel'', ''kind'', ''body'', ''reply_to'', ''nonce'']
      then Inl ''invalid_arguments''
      else try_bind (tool_participant arguments) (\<lambda>participant_id.
        try_bind (tool_text arguments ''channel'' name_re ''invalid_channel'') (\<lambda>channel.
        try_bind (case map_of arguments ''kind'' of
            None \<Rightarrow> Inr ''message''
          | Some (JStr v) \<Rightarrow> if kind_re v then Inr v else Inl ''invalid_kind''
          | Some _ \<Rightarrow> Inl ''invalid_kind'') (\<lambda>kind.
        try_bind (tool_text arguments ''body'' (\<lambda>v. \<not> blank v \<and> length v \<le> MAX_MESSAGE_BODY_BYTES) ''invalid_body'')
          (\<lambda>message_body.
        try_bind (cursor_argument arguments ''reply_to'' ''invalid_reply_to'') (\<lambda>reply_to.
        try_bind (tool_text arguments ''nonce'' nonce_re ''invalid_nonce'') (\<lambda>nonce.
        Inr \<lparr>ww_participant_id = participant_id,
             ww_message = \<lparr>mf_channel = channel, mf_kind = kind, mf_body = message_body, mf_reply_to = reply_to\<rparr>,
             ww_nonce = nonce\<rparr>)))))))"

definition resolve_write_identity ::
    "externals \<Rightarrow> board \<Rightarrow> json_map \<Rightarrow> principal option \<Rightarrow> write_arguments \<Rightarrow> identity tool" where
  "resolve_write_identity ext db arguments transport w =
     (let p = ww_participant_id w; m = ww_message w in
      case transport of
        Some _ \<Rightarrow> (case get_web_participant db p of Some who \<Rightarrow> Inr who | None \<Rightarrow> Inl ''forbidden'')
      | None \<Rightarrow>
          try_bind (parse_auth arguments) (\<lambda>(_, proof_text).
          case get_web_participant_auth db p of
            None \<Rightarrow> Inl ''unauthorized''
          | Some auth \<Rightarrow>
              if pa_auth_scheme auth \<noteq> AUTH_SCHEME then Inl ''unsupported_auth_scheme''
              else if \<not> verify_write_proof ext (pa_auth_secret auth) proof_text p (mf_channel m) (mf_kind m) (mf_body m)
                    (mf_reply_to m) (ww_nonce w)
              then Inl ''unauthorized''
              else Inr (pa_identity auth)))"

definition mcp_delivery_id :: "principal option \<Rightarrow> write_arguments \<Rightarrow> string" where
  "mcp_delivery_id transport w =
     (case transport of Some _ \<Rightarrow> ''mcp-bearer:'' | None \<Rightarrow> ''mcp-hmac:'') @ ww_participant_id w @ '':'' @ ww_nonce w"

definition mcp_execution_request :: "externals \<Rightarrow> principal option \<Rightarrow> write_arguments \<Rightarrow> message_execution_request" where
  "mcp_execution_request ext transport w =
     (let m = ww_message w;
          caller = (case transport of Some c \<Rightarrow> c | None \<Rightarrow> hmac_principal (ww_participant_id w));
          mechanism = (case transport of Some _ \<Rightarrow> OIDC_MECHANISM | None \<Rightarrow> AUTH_SCHEME)
      in \<lparr>mr_authority = \<lparr>au_principal = caller, au_mechanism = mechanism\<rparr>,
          mr_ingress = \<lparr>ig_delivery_id = mcp_delivery_id transport w, ig_intent_id = ww_nonce w,
            ig_transport = ''mcp'', ig_external_ref = ww_nonce w, ig_principal = caller\<rparr>,
          mr_intent = \<lparr>it_intent_id = ww_nonce w, it_participant_id = ww_participant_id w, it_conversation_ref = None,
            it_capability = POST_MESSAGE_CAPABILITY, it_resource = mf_channel m,
            it_request_hash = message_request_hash ext (mf_channel m) (mf_kind m) (mf_body m) None (mf_reply_to m)\<rparr>,
          mr_channel = mf_channel m, mr_kind = mf_kind m, mr_body = mf_body m, mr_reply_to = mf_reply_to m\<rparr>)"

definition write_answer :: "message_execution_result sql_result \<Rightarrow> tool_answer tool" where
  "write_answer result =
     (case result of
        Inl _ \<Rightarrow> Inl ''database_unavailable''
      | Inr (ExecCreated m) \<Rightarrow> Inr (Written ''created'' False m)
      | Inr (ExecExisting m) \<Rightarrow> Inr (Written ''existing'' True m)
      | Inr IntentConflict \<Rightarrow> Inl ''nonce_conflict''
      | Inr ReplyTargetNotFound \<Rightarrow> Inl ''reply_target_not_found''
      | Inr ChannelArchived \<Rightarrow> Inl ''channel_archived''
      | Inr AuthorizationDenied \<Rightarrow> Inl ''forbidden'')"

definition blackboard_write ::
    "externals \<Rightarrow> int \<Rightarrow> json_map \<Rightarrow> principal option \<Rightarrow> board \<Rightarrow> tool_answer tool \<times> board" where
  "blackboard_write ext now arguments transport db =
     tool_bind (read_write_arguments arguments, db) (\<lambda>w db.
     tool_bind (resolve_write_identity ext db arguments transport w, db) (\<lambda>writer db.
     case execute_message_intent ext now writer (mcp_execution_request ext transport w) db of
       (result, db') \<Rightarrow> (write_answer result, db')))"

section \<open>The dispatch of a tool call\<close>

text \<open>The outer error is a protocol error of the call; the inner one the error of the tool.\<close>

definition tool_call ::
    "externals \<Rightarrow> int \<Rightarrow> json_map \<Rightarrow> principal option \<Rightarrow> board \<Rightarrow> tool_answer tool tool \<times> board" where
  "tool_call ext now request transport db =
     (case Option.bind (map_of request ''params'') as_object of
        None \<Rightarrow> (Inl ''invalid_tool_call_params'', db)
      | Some params \<Rightarrow>
     (case Option.bind (map_of params ''name'') as_str of
        None \<Rightarrow> (Inl ''invalid_tool_name'', db)
      | Some name \<Rightarrow>
     (case (case map_of params ''arguments'' of
              None \<Rightarrow> Some [] | Some (JObj arguments) \<Rightarrow> Some arguments | Some _ \<Rightarrow> None) of
        None \<Rightarrow> (Inl ''invalid_tool_arguments'', db)
      | Some arguments \<Rightarrow>
          let changing = (\<lambda>tool. map_prod Inr id (tool ext now arguments transport db));
              reading = (\<lambda>tool. (Inr (tool ext now arguments transport db), db))
          in if name = ''blackboard_read'' then changing blackboard_read
             else if name = ''blackboard_write'' then changing blackboard_write
             else if name = ''blackboard_access_context'' then reading blackboard_access_context
             else if name = ''blackboard_execution_receipt'' then changing blackboard_execution_receipt
             else if name = ''blackboard_execution_audit'' then changing blackboard_execution_audit
             else if name = ''blackboard_execution_audit_integrity'' then changing blackboard_execution_audit_integrity
             else if name = ''blackboard_execution_audit_sweep'' then changing blackboard_execution_audit_sweep
             else if name = ''blackboard_authorization_policy_integrity''
               then changing blackboard_authorization_policy_integrity
             else if name = ''blackboard_authorization_policy'' then reading blackboard_authorization_policy
             else if name = ''blackboard_authorization_administration_history''
               then reading blackboard_authorization_administration_history
             else if name = ''blackboard_authorization_decision'' then reading blackboard_authorization_decision
             else (Inl ''unknown_tool'', db))))"

definition tool_call_result ::
    "externals \<Rightarrow> (tool_answer \<Rightarrow> json) \<Rightarrow> int \<Rightarrow> json_map \<Rightarrow> principal option \<Rightarrow> board \<Rightarrow> json tool \<times> board" where
  "tool_call_result ext render now request transport db =
     (case tool_call ext now request transport db of
        (Inl code, db') \<Rightarrow> (Inl code, db')
      | (Inr (Inl code), db') \<Rightarrow> (Inr (tool_error code), db')
      | (Inr (Inr answer), db') \<Rightarrow> (Inr (tool_success ext (render answer)), db'))"

section \<open>Lemmas\<close>

lemma tool_bind_Inr:
  "tool_bind step rest = (Inr y, db') \<longleftrightarrow> (\<exists>x db. step = (Inr x, db) \<and> rest x db = (Inr y, db'))"
  by (auto simp: tool_bind_def split: prod.split sum.split)

lemma tool_bind_simps [simp]: "tool_bind (Inr x, db) f = f x db" "tool_bind (Inl e, db) f = (Inl e, db)"
  by (simp_all add: tool_bind_def)

lemma tool_text_Inr: "tool_text arguments name valid code = Inr v \<Longrightarrow> valid v"
  by (auto simp: tool_text_def text_field_def split: option.splits if_splits)

lemma tool_participant_Inr: "tool_participant arguments = Inr p \<Longrightarrow> validate_participant_id p = Some p"
  by (auto simp: tool_participant_def split: option.splits if_splits)

lemma tool_gate_Inr:
  "tool_gate (gated_read current decision r) = Inr x \<longleftrightarrow>
     current \<and> (\<exists>d. decision = Inr d \<and> ad_allowed d) \<and> r = Inr x"
  by (auto simp: tool_gate_def gated_read_def split: sum.splits gated.splits if_splits)

text \<open>A participant the arguments prove: an active one whose secret made a proof the check accepts.\<close>

definition proven_participant :: "board \<Rightarrow> string \<Rightarrow> (string \<Rightarrow> bool) \<Rightarrow> bool" where
  "proven_participant db p accepts \<longleftrightarrow> (\<exists>r \<in> set (web_participants db). p_participant_id r = p \<and> p_status r = ''active'' \<and>
     (\<exists>secret. p_auth_secret r = Some secret \<and> accepts secret))"

lemma proven_participantI:
  "get_web_participant_auth db p = Some auth \<Longrightarrow> accepts (pa_auth_secret auth) \<Longrightarrow> proven_participant db p accepts"
  by (erule participant_authD) (auto simp: proven_participant_def)

lemma capability_proven:
  assumes "resolve_capability_identity ext db arguments p cap res = Inr who"
  shows "\<exists>scheme proof_text. parse_auth arguments = Inr (scheme, proof_text) \<and>
    proven_participant db p (\<lambda>secret. verify_capability_proof ext secret proof_text p cap res)"
  using assms by (auto simp: resolve_capability_identity_def try_bind_Inr intro!: proven_participantI
      split: option.splits if_splits)

section \<open>Writes are executions\<close>

text \<open>A transport principal whose parts are not blank; any other is ignored where facts are proved.\<close>

definition described_caller :: "principal option \<Rightarrow> bool" where
  "described_caller transport \<longleftrightarrow> (\<forall>c. transport = Some c \<longrightarrow> \<not> blank (provider c) \<and> \<not> blank (subject c))"

definition only_described :: "principal option \<Rightarrow> principal option" where
  "only_described transport = (if described_caller transport then transport else None)"

lemma only_described_described: "described_caller (only_described transport)"
  by (simp add: only_described_def described_caller_def)

lemma read_write_arguments_ok:
  assumes "read_write_arguments arguments = Inr w"
  shows "validate_participant_id (ww_participant_id w) = Some (ww_participant_id w)"
    "name_re (mf_channel (ww_message w))" "nonce_re (ww_nonce w)" "\<not> blank (mf_body (ww_message w))"
  using assms
  by (auto simp: read_write_arguments_def try_bind_Inr split: if_splits dest: tool_participant_Inr tool_text_Inr)

lemma mcp_request_described:
  assumes "described_caller transport" and "read_write_arguments arguments = Inr w"
  shows "described (mcp_execution_request ext transport w)"
proof -
  note ok = read_write_arguments_ok [OF assms(2)]
  have g: "graphic (CHR ''m'')" by (simp add: graphic_def ascii_simps)
  have p: "\<not> blank (ww_participant_id w)" using ok(1) valid_participant_not_blank by blast
  have "\<not> blank (mcp_delivery_id transport w)"
    using graphic_head_not_blank [OF g] by (simp add: mcp_delivery_id_def split: option.split)
  moreover have "\<not> blank ''mcp''" "\<not> blank ''participant-hmac''" by (simp_all add: trim_graphic graphic_def ascii_simps)
  ultimately show ?thesis
    using assms(1) p name_re_not_blank [OF ok(2)] nonce_re_not_blank [OF ok(3)]
    by (auto simp: described_def mcp_execution_request_def Let_def hmac_principal_def described_caller_def
        split: option.split)
qed

definition mcp_intent_of ::
    "externals \<Rightarrow> json_map \<times> principal option \<Rightarrow> board \<Rightarrow> (identity \<times> message_execution_request) option" where
  "mcp_intent_of ext r db =
     (case read_write_arguments (fst r) of
        Inl _ \<Rightarrow> None
      | Inr w \<Rightarrow>
          (case resolve_write_identity ext db (fst r) (only_described (snd r)) w of
             Inl _ \<Rightarrow> None
           | Inr writer \<Rightarrow> Some (writer, mcp_execution_request ext (only_described (snd r)) w)))"

lemma write_answer_iff:
  "(\<exists>m. write_answer res = Inr (Written ''created'' False m)) \<longleftrightarrow> (\<exists>m. res = Inr (ExecCreated m))"
  "(\<exists>x. write_answer res = Inr x) \<longleftrightarrow> (\<exists>m. res = Inr (ExecCreated m) \<or> res = Inr (ExecExisting m))"
  by (auto simp: write_answer_def split: sum.split message_execution_result.split)

lemma write_identity_cong:
  "web_participants db' = web_participants db \<Longrightarrow> resolve_write_identity ext db' = resolve_write_identity ext db"
proof -
  assume "web_participants db' = web_participants db"
  then have "get_web_participant db' = get_web_participant db" "get_web_participant_auth db' = get_web_participant_auth db"
    by (intro HOL.ext, simp add: get_web_participant_def get_web_participant_auth_def)+
  then show ?thesis by (intro HOL.ext) (simp only: resolve_write_identity_def)
qed

interpretation mcp_write: execution_surface ext now "\<lambda>r. blackboard_write ext now (fst r) (only_described (snd r))"
  "mcp_intent_of ext" "\<lambda>_ db. db" "\<lambda>_. write_answer" "\<lambda>a. \<exists>m. a = Inr (Written ''created'' False m)"
  "\<lambda>a. \<exists>x. a = Inr x" for ext now
proof
  fix r db who q res db' m
  show "snd (blackboard_write ext now (fst r) (only_described (snd r)) db) = db \<and>
      \<not> (\<exists>x. fst (blackboard_write ext now (fst r) (only_described (snd r)) db) = Inr x)" if "mcp_intent_of ext r db = None"
    using that by (auto simp: mcp_intent_of_def blackboard_write_def split: sum.splits)
  show "blackboard_write ext now (fst r) (only_described (snd r)) db = (write_answer res, db')"
    if "mcp_intent_of ext r db = Some (who, q)" "execute_message_intent ext now who q db = (res, db')"
    using that by (auto simp: mcp_intent_of_def blackboard_write_def split: sum.splits)
  show "mcp_intent_of ext r db = Some (who, q) \<Longrightarrow> described q"
    using mcp_request_described [OF only_described_described] by (auto simp: mcp_intent_of_def split: sum.splits)
  show "\<exists>cs. db = db\<lparr>channels := cs\<rparr>" by (rule exI [of _ "channels db"]) simp
  show "mcp_intent_of ext r db' = Some (who, q) \<and> db' = db'"
    if "system_wf ext db" "mcp_intent_of ext r db = Some (who, q)"
      "execute_message_intent ext now who q db = (Inr (ExecCreated m), db')"
    using that(2) unfolding mcp_intent_of_def write_identity_cong [OF created_keeps_participants [OF that(1,3)]] by simp
  show "(\<exists>m. write_answer res = Inr (Written ''created'' False m)) \<longleftrightarrow> (\<exists>m. res = Inr (ExecCreated m))"
    "(\<exists>x. write_answer res = Inr x) \<longleftrightarrow> (\<exists>m. res = Inr (ExecCreated m) \<or> res = Inr (ExecExisting m))"
    by (rule write_answer_iff)+
qed auto

section \<open>What the tools keep\<close>

lemma blackboard_write_only_described:
  "described_caller transport \<Longrightarrow> only_described transport = transport"
  by (simp add: only_described_def)

lemma blackboard_write_steps:
  assumes "described_caller transport"
  shows "(board_step ext)\<^sup>*\<^sup>* db (snd (blackboard_write ext now arguments transport db))"
  using mcp_write.serve_run [of ext db now "(arguments, transport)"]
  by (simp add: blackboard_write_only_described [OF assms])

lemma authorized_read_same:
  assumes "reachable ext db"
  shows "snd (authorized_read ext now arguments p cap res transport f denied db) = db"
  unfolding authorized_read_def resolve_capability_principal_def reachable_authorize [OF assms]
  by (auto simp: tool_bind_def reachable_authorize [OF assms] split: option.split sum.split prod.split if_splits)

lemma reading_tools_same:
  assumes "reachable ext db"
  shows "snd (blackboard_read ext now arguments transport db) = db"
    "snd (blackboard_execution_receipt ext now arguments transport db) = db"
    "snd (blackboard_execution_audit ext now arguments transport db) = db"
    "snd (blackboard_execution_audit_integrity ext now arguments transport db) = db"
    "snd (blackboard_execution_audit_sweep ext now arguments transport db) = db"
    "snd (blackboard_authorization_policy_integrity ext now arguments transport db) = db"
proof -
  note same = authorized_read_same [OF assms] and auth = reachable_authorize [OF assms]
  have perm: "snd (read_permission ext now arguments transport a db) = db" for a
    by (simp add: read_permission_def auth Let_def split: option.split)
  have part: "tool_bind (tool_participant arguments, db) f = (case tool_participant arguments of Inl e \<Rightarrow> (Inl e, db) | Inr p \<Rightarrow> f p db)"
    for f :: "string \<Rightarrow> board \<Rightarrow> tool_answer tool \<times> board" by (simp split: sum.split)
  have int: "tool_bind (tool_intent arguments, db) f = (case tool_intent arguments of Inl e \<Rightarrow> (Inl e, db) | Inr p \<Rightarrow> f p db)"
    for f :: "string \<Rightarrow> board \<Rightarrow> tool_answer tool \<times> board" by (simp split: sum.split)
  show "snd (blackboard_read ext now arguments transport db) = db"
  proof (cases "read_read_arguments arguments")
    case (Inr a)
    obtain x where "read_permission ext now arguments transport a db = (x, db)" using perm [of a] by (metis surj_pair snd_conv)
    then show ?thesis by (cases x) (simp_all add: blackboard_read_def Inr Let_def)
  qed (simp add: blackboard_read_def)
  show "snd (blackboard_execution_receipt ext now arguments transport db) = db"
    "snd (blackboard_execution_audit ext now arguments transport db) = db"
    "snd (blackboard_execution_audit_integrity ext now arguments transport db) = db"
    "snd (blackboard_execution_audit_sweep ext now arguments transport db) = db"
    unfolding blackboard_execution_receipt_def blackboard_execution_audit_def blackboard_execution_audit_integrity_def
      blackboard_execution_audit_sweep_def part int
    by (simp_all add: same split: sum.split)
  show "snd (blackboard_authorization_policy_integrity ext now arguments transport db) = db"
    unfolding blackboard_authorization_policy_integrity_def part resolve_capability_principal_def auth
    by (auto simp: tool_bind_def auth split: sum.split option.split if_splits prod.split)
qed

text \<open>A tool call is a run of the board, and only the write tool changes it.\<close>

definition call_arguments :: "json_map \<Rightarrow> json_map option" where
  "call_arguments request =
     (case Option.bind (map_of request ''params'') as_object of
        None \<Rightarrow> None
      | Some params \<Rightarrow>
          (case map_of params ''arguments'' of
             None \<Rightarrow> Some [] | Some (JObj arguments) \<Rightarrow> Some arguments | Some _ \<Rightarrow> None))"

lemma tool_call_effect:
  assumes r: "reachable ext db"
  shows "snd (tool_call ext now request transport db) = db \<or>
    (\<exists>arguments. call_arguments request = Some arguments \<and> tool_call ext now request transport db =
       map_prod Inr id (blackboard_write ext now arguments transport db))"
proof -
  let ?eff = "\<lambda>arguments x. snd x = db \<or> x = map_prod Inr id (blackboard_write ext now arguments transport db)"
  have both: "?eff a x \<Longrightarrow> ?eff a y \<Longrightarrow> ?eff a (if c then x else y)" for c a and x y :: "tool_answer tool tool \<times> board"
    by simp
  note same = reading_tools_same [OF r]
  have tools: "?eff arguments (map_prod Inr id (blackboard_read ext now arguments transport db))"
    "?eff arguments (map_prod Inr id (blackboard_write ext now arguments transport db))"
    "?eff arguments (map_prod Inr id (blackboard_execution_receipt ext now arguments transport db))"
    "?eff arguments (map_prod Inr id (blackboard_execution_audit ext now arguments transport db))"
    "?eff arguments (map_prod Inr id (blackboard_execution_audit_integrity ext now arguments transport db))"
    "?eff arguments (map_prod Inr id (blackboard_execution_audit_sweep ext now arguments transport db))"
    "?eff arguments (map_prod Inr id (blackboard_authorization_policy_integrity ext now arguments transport db))"
    "?eff arguments (x, db)" for arguments x
    by (rule disjI1, simp only: snd_map_prod same id_apply, rule disjI2, rule refl,
        (rule disjI1, simp only: snd_map_prod same id_apply)+, simp)
  show ?thesis
  proof (cases "Option.bind (map_of request ''params'') as_object")
    case (Some params)
    show ?thesis
    proof (cases "Option.bind (map_of params ''name'') as_str")
      case name: (Some name)
      show ?thesis
      proof (cases "case map_of params ''arguments'' of
              None \<Rightarrow> Some [] | Some (JObj arguments) \<Rightarrow> Some arguments | Some _ \<Rightarrow> None")
        case None
        then show ?thesis unfolding tool_call_def Some option.case name by simp
      next
        case arguments: (Some arguments)
        have "?eff arguments (tool_call ext now request transport db)"
          unfolding tool_call_def Some option.case name arguments Let_def by (intro both tools)
        moreover have "call_arguments request = Some arguments" unfolding call_arguments_def Some option.case by (rule arguments)
        ultimately show ?thesis by blast
      qed
    qed (simp add: tool_call_def Some)
  qed (simp add: tool_call_def)
qed

lemma tool_call_result_board:
  "snd (tool_call_result ext render now request transport db) = snd (tool_call ext now request transport db)"
  by (simp add: tool_call_result_def split: prod.split sum.split)

section \<open>Properties\<close>

text \<open>Who wrote: the transport's principal, or the participant whose proof covers this very write.\<close>

definition write_authenticated ::
    "externals \<Rightarrow> board \<Rightarrow> json_map \<Rightarrow> principal option \<Rightarrow> write_arguments \<Rightarrow> principal \<Rightarrow> bool" where
  "write_authenticated ext db arguments transport w caller \<longleftrightarrow>
     (case transport of
        Some c \<Rightarrow> caller = c
      | None \<Rightarrow> caller = hmac_principal (ww_participant_id w) \<and>
          (\<exists>scheme proof_text. parse_auth arguments = Inr (scheme, proof_text) \<and>
             proven_participant db (ww_participant_id w) (\<lambda>secret.
               verify_write_proof ext secret proof_text (ww_participant_id w) (mf_channel (ww_message w))
                 (mf_kind (ww_message w)) (mf_body (ww_message w)) (mf_reply_to (ww_message w)) (ww_nonce w))))"

lemma resolved_write_authenticated:
  assumes "resolve_write_identity ext db arguments transport w = Inr who"
  shows "write_authenticated ext db arguments transport w
    (au_principal (mr_authority (mcp_execution_request ext transport w)))"
  using assms
  by (auto simp: resolve_write_identity_def write_authenticated_def mcp_execution_request_def Let_def try_bind_Inr
      intro!: proven_participantI split: option.splits if_splits)

lemma blackboard_write_accepted:
  assumes "reachable ext db" and "described_caller transport"
    and "blackboard_write ext now arguments transport db = (Inr a, db')"
  shows "\<exists>w caller. read_write_arguments arguments = Inr w \<and>
      write_authenticated ext db arguments transport w caller \<and>
      policy_allows now db caller (ww_participant_id w) POST_MESSAGE_CAPABILITY (Some (mf_channel (ww_message w)))
        (Some (ww_nonce w))"
proof -
  note same = blackboard_write_only_described [OF assms(2)]
  have "\<exists>x. fst (blackboard_write ext now (fst (arguments, transport)) (only_described (snd (arguments, transport))) db) = Inr x"
    using assms(3) by (simp add: same)
  from mcp_write.accepted_authorized [OF reachable_system_wf [OF assms(1)] this]
  obtain who q where q: "mcp_intent_of ext (arguments, transport) db = Some (who, q)" "request_allowed now db q" by blast
  then obtain w where w: "read_write_arguments arguments = Inr w"
      "resolve_write_identity ext db arguments transport w = Inr who" "q = mcp_execution_request ext transport w"
    by (auto simp: mcp_intent_of_def same split: sum.splits)
  have "policy_allows now db (au_principal (mr_authority q)) (ww_participant_id w) POST_MESSAGE_CAPABILITY
      (Some (mf_channel (ww_message w))) (Some (ww_nonce w))"
    using q(2) by (simp add: request_allowed_def w(3) mcp_execution_request_def Let_def)
  then show ?thesis using resolved_write_authenticated [OF w(2)] w(1,3) by blast
qed

lemma blackboard_write_refused:
  assumes "described_caller transport" and "blackboard_write ext now arguments transport db = (Inl e, db')"
  shows "messages db' = messages db"
  using mcp_write.not_accepted_messages [of ext now "(arguments, transport)" db] assms(2)
  by (simp add: blackboard_write_only_described [OF assms(1)])

text \<open>The principal of a token has a provider that is not blank.  With a blank subject it can write nothing on a reachable
  board, where no grant names it.\<close>

lemma undescribed_write_refused:
  assumes "reachable ext db" and "transport = Some c" and "provider c = ''oidc:'' @ issuer" and "\<not> described_caller transport"
  shows "\<exists>e. blackboard_write ext now arguments transport db = (Inl e, db)"
proof -
  have "\<not> blank (''oidc:'' @ issuer)" using graphic_head_not_blank [of "CHR ''o''" "''idc:'' @ issuer"]
    by (simp add: graphic_def ascii_simps)
  then have blank: "blank (subject c)" using assms(2-4) by (auto simp: described_caller_def)
  have "\<exists>e. (case execute_message_intent ext now writer (mcp_execution_request ext transport w) db of
      (result, db') \<Rightarrow> (write_answer result, db')) = (Inl e, db)" for writer w
  proof (cases "execute_message_intent ext now writer (mcp_execution_request ext transport w) db")
    case (Pair res db')
    have a: "au_principal (mr_authority (mcp_execution_request ext transport w)) = c"
      using assms(2) by (simp add: mcp_execution_request_def Let_def)
    have refused: "db' = db" "\<not> (\<exists>x. write_answer res = Inr x)"
      using blank_subject_refused [OF assms(1) _ _ Pair] blank assms(3) unfolding a write_answer_iff by blast+
    then show ?thesis using Pair by (cases "write_answer res") auto
  qed
  then show ?thesis
    by (cases "read_write_arguments arguments") (auto simp: blackboard_write_def tool_bind_def split: sum.split)
qed

text \<open>MCP writes are authenticated and authorized.  On a reachable board the write tool succeeds only for a caller
  that is the transport's verified principal, or else a participant that is active and whose secret made a proof of
  exactly this channel, kind, body, reply target and nonce, and only if the policy allows that principal to post to
  the channel as the participant; every other call of the tool adds no message.\<close>

theorem mcp_writes_authorized:
  assumes "reachable ext db" and "described_caller transport"
    and "blackboard_write ext now arguments transport db = (answer, db')"
  shows "(\<forall>a. answer = Inr a \<longrightarrow> (\<exists>w caller. read_write_arguments arguments = Inr w \<and>
      write_authenticated ext db arguments transport w caller \<and>
      policy_allows now db caller (ww_participant_id w) POST_MESSAGE_CAPABILITY (Some (mf_channel (ww_message w)))
        (Some (ww_nonce w)))) \<and>
    (\<forall>e. answer = Inl e \<longrightarrow> messages db' = messages db)"
  using blackboard_write_accepted [OF assms(1,2)] blackboard_write_refused [OF assms(2)] assms(3) by blast

text \<open>A caller authenticated for a capability whom the policy allows it.\<close>

definition tool_allowed ::
    "externals \<Rightarrow> int \<Rightarrow> board \<Rightarrow> json_map \<Rightarrow> principal option \<Rightarrow> string \<Rightarrow> string \<Rightarrow> string option \<Rightarrow> bool" where
  "tool_allowed ext now db arguments transport p capability resource \<longleftrightarrow>
     (\<exists>caller. policy_allows now db caller p capability resource None \<and>
        (case transport of
           Some c \<Rightarrow> caller = c
         | None \<Rightarrow> caller = hmac_principal p \<and>
             (\<exists>scheme proof_text. parse_auth arguments = Inr (scheme, proof_text) \<and>
                proven_participant db p (\<lambda>secret. verify_capability_proof ext secret proof_text p capability resource))))"

lemma tool_caller_allowed:
  assumes "tool_caller ext db arguments transport p cap res = Inr caller" and "policy_allows now db caller p cap res None"
  shows "tool_allowed ext now db arguments transport p cap res"
  using assms capability_proven
  by (auto simp: tool_allowed_def tool_caller_def try_bind_Inr split: option.splits)

lemma resolved_principal_allowed:
  assumes "reachable ext db"
    and "resolve_capability_principal ext now arguments p cap res transport db = (Inr caller, db1)"
    and "policy_allows now db caller p cap res None"
  shows "tool_allowed ext now db arguments transport p cap res" and "db1 = db"
proof -
  have "tool_caller ext db arguments transport p cap res = Inr caller \<and> db1 = db"
    using assms(2) by (auto simp: resolve_capability_principal_def reachable_authorize [OF assms(1)] tool_caller_def
        split: option.splits if_splits)
  then show "tool_allowed ext now db arguments transport p cap res" "db1 = db"
    using tool_caller_allowed assms(3) by blast+
qed

lemma authorized_read_allowed:
  assumes r: "reachable ext db"
    and s: "authorized_read ext now arguments p cap res transport f denied db = (Inr x, db')"
  shows "tool_allowed ext now db arguments transport p cap res \<and> f db = Inr x"
proof -
  obtain caller db1 where c: "resolve_capability_principal ext now arguments p cap res transport db = (Inr caller, db1)"
    "(case authorize now db1 caller p cap res of (allowed, db2) \<Rightarrow> (if \<not> allowed then Inl denied else f db2, db2)) = (Inr x, db')"
    using s unfolding authorized_read_def tool_bind_Inr by blast
  have db1: "db1 = db"
    using c(1) by (auto simp: resolve_capability_principal_def reachable_authorize [OF r] split: option.splits)
  have al: "policy_allows now db caller p cap res None" "f db = Inr x"
    using c(2) unfolding db1 reachable_authorize_policy [OF r] by (auto split: if_splits)
  show ?thesis using resolved_principal_allowed(1) [OF r c(1) al(1)] al(2) by blast
qed

lemma gated_tool_allowed:
  assumes "reachable ext db" and "tool_caller ext db arguments transport p cap res = Inr caller"
    and "explain_authorization now db caller p cap res None = Inr d" and "ad_allowed d"
  shows "tool_allowed ext now db arguments transport p cap res"
proof -
  have "consumption_wf db" using reachable_system_wf [OF assms(1)] by (simp add: system_wf_def)
  from explained_allows(1) [OF this] have "policy_allows now db caller p cap res None" using assms(3,4) by blast
  with assms(2) show ?thesis by (rule tool_caller_allowed)
qed

text \<open>C11: The privileged read tools are gated.  On a reachable board the tools that read receipts, audits, the sweep,
  policy windows, policy integrity and the administration history succeed only for a participant id in normal form
  and a caller, authenticated by the transport or by a proof bound to exactly this capability and resource, whom the
  policy allows it.\<close>

theorem mcp_reads_authorized:
  assumes "reachable ext db"
  shows "(fst (blackboard_execution_receipt ext now arguments transport db) = Inr a \<longrightarrow>
      (\<exists>p i. tool_participant arguments = Inr p \<and> tool_intent arguments = Inr i \<and>
         tool_allowed ext now db arguments transport p READ_EXECUTION_RECEIPT (Some i))) \<and>
    (fst (blackboard_execution_audit ext now arguments transport db) = Inr a \<or>
     fst (blackboard_execution_audit_integrity ext now arguments transport db) = Inr a \<longrightarrow>
      (\<exists>p i. tool_participant arguments = Inr p \<and> tool_intent arguments = Inr i \<and>
         tool_allowed ext now db arguments transport p READ_EXECUTION_AUDIT (Some i))) \<and>
    (fst (blackboard_execution_audit_sweep ext now arguments transport db) = Inr a \<longrightarrow>
      (\<exists>p. tool_participant arguments = Inr p \<and>
         tool_allowed ext now db arguments transport p READ_EXECUTION_AUDIT_SWEEP (Some EXECUTION_AUDIT_SWEEP_RESOURCE))) \<and>
    (fst (blackboard_authorization_policy_integrity ext now arguments transport db) = Inr a \<longrightarrow>
      (\<exists>p. tool_participant arguments = Inr p \<and> tool_allowed ext now db arguments transport p
         READ_AUTHORIZATION_POLICY_INTEGRITY (Some AUTHORIZATION_POLICY_INTEGRITY_RESOURCE))) \<and>
    (blackboard_authorization_policy ext now arguments transport db = Inr a \<longrightarrow>
      (\<exists>p. tool_participant arguments = Inr p \<and>
         tool_allowed ext now db arguments transport p READ_AUTHORIZATION_POLICY (Some AUTHORIZATION_POLICY_RESOURCE))) \<and>
    (blackboard_authorization_administration_history ext now arguments transport db = Inr a \<longrightarrow>
      (\<exists>p. tool_participant arguments = Inr p \<and> tool_allowed ext now db arguments transport p
         READ_AUTHORIZATION_ADMINISTRATION_HISTORY (Some AUTHORIZATION_ADMINISTRATION_HISTORY_RESOURCE)))"
proof -
  have fst_Inr: "fst x = Inr y \<longleftrightarrow> (\<exists>db'. x = (Inr y, db'))" for x :: "tool_answer tool \<times> board" and y by (cases x) auto
  note read = authorized_read_allowed [OF assms]
  note gated = gated_tool_allowed [OF assms]
  show ?thesis
  proof (intro conjI impI)
    assume "fst (blackboard_execution_receipt ext now arguments transport db) = Inr a"
    then show "\<exists>p i. tool_participant arguments = Inr p \<and> tool_intent arguments = Inr i \<and>
         tool_allowed ext now db arguments transport p READ_EXECUTION_RECEIPT (Some i)"
      unfolding fst_Inr blackboard_execution_receipt_def
      by (auto simp: tool_bind_Inr dest!: read split: if_splits)
  next
    assume "fst (blackboard_execution_audit ext now arguments transport db) = Inr a \<or>
      fst (blackboard_execution_audit_integrity ext now arguments transport db) = Inr a"
    then show "\<exists>p i. tool_participant arguments = Inr p \<and> tool_intent arguments = Inr i \<and>
         tool_allowed ext now db arguments transport p READ_EXECUTION_AUDIT (Some i)"
      unfolding fst_Inr blackboard_execution_audit_def blackboard_execution_audit_integrity_def
      by (auto simp: tool_bind_Inr dest!: read split: if_splits)
  next
    assume "fst (blackboard_execution_audit_sweep ext now arguments transport db) = Inr a"
    then show "\<exists>p. tool_participant arguments = Inr p \<and>
         tool_allowed ext now db arguments transport p READ_EXECUTION_AUDIT_SWEEP (Some EXECUTION_AUDIT_SWEEP_RESOURCE)"
      unfolding fst_Inr blackboard_execution_audit_sweep_def
      by (auto simp: tool_bind_Inr dest!: read split: if_splits)
  next
    assume "fst (blackboard_authorization_policy_integrity ext now arguments transport db) = Inr a"
    then obtain p caller db1 db2 where p: "tool_participant arguments = Inr p"
      and c: "resolve_capability_principal ext now arguments p READ_AUTHORIZATION_POLICY_INTEGRITY
          (Some AUTHORIZATION_POLICY_INTEGRITY_RESOURCE) transport db = (Inr caller, db1)"
      and al: "authorize now db1 caller p READ_AUTHORIZATION_POLICY_INTEGRITY
          (Some AUTHORIZATION_POLICY_INTEGRITY_RESOURCE) = (True, db2)"
      unfolding fst_Inr blackboard_authorization_policy_integrity_def
      by (auto simp: tool_bind_Inr split: if_splits prod.splits)
    have e: "db1 = db"
      using c by (auto simp: resolve_capability_principal_def reachable_authorize [OF assms] split: option.splits)
    have "policy_allows now db caller p READ_AUTHORIZATION_POLICY_INTEGRITY
        (Some AUTHORIZATION_POLICY_INTEGRITY_RESOURCE) None"
      using al unfolding e reachable_authorize_policy [OF assms] prod.inject by blast
    with c p show "\<exists>p. tool_participant arguments = Inr p \<and> tool_allowed ext now db arguments transport p
         READ_AUTHORIZATION_POLICY_INTEGRITY (Some AUTHORIZATION_POLICY_INTEGRITY_RESOURCE)"
      using resolved_principal_allowed(1) [OF assms] by blast
  next
    assume "blackboard_authorization_policy ext now arguments transport db = Inr a"
    then show "\<exists>p. tool_participant arguments = Inr p \<and>
         tool_allowed ext now db arguments transport p READ_AUTHORIZATION_POLICY (Some AUTHORIZATION_POLICY_RESOURCE)"
      unfolding blackboard_authorization_policy_def
      by (auto simp: try_bind_Inr tool_gate_Inr split: if_splits) (blast intro: gated)
  next
    assume "blackboard_authorization_administration_history ext now arguments transport db = Inr a"
    then show "\<exists>p. tool_participant arguments = Inr p \<and> tool_allowed ext now db arguments transport p
         READ_AUTHORIZATION_ADMINISTRATION_HISTORY (Some AUTHORIZATION_ADMINISTRATION_HISTORY_RESOURCE)"
      unfolding blackboard_authorization_administration_history_def
      by (auto simp: try_bind_Inr tool_gate_Inr split: if_splits) (blast intro: gated)
  qed
qed

text \<open>The read tool is confined.  On a reachable board the read tool answers with exactly the page of the one
  channel it was asked for, changes nothing, and answers only if the channel is public and active, or the policy
  allows the transport's principal to read it, or an active participant proved this very read.\<close>

theorem mcp_channel_reads_confined:
  assumes "reachable ext db" and "blackboard_read ext now arguments transport db = (Inr answer, db')"
  shows "\<exists>a rows. read_read_arguments arguments = Inr a \<and> db' = db \<and>
    rows = list_messages_after db (ra_after a) (Some (ra_channel a)) (ra_limit a) \<and>
    answer = Messages (ra_channel a) (ra_after a) (length rows) (if rows = [] then ra_after a else m_id (last rows)) rows \<and>
    (channel_is_public_active db (ra_channel a) \<or>
     (\<exists>caller p. transport = Some caller \<and> policy_allows now db caller p READ_MESSAGES (Some (ra_channel a)) None) \<or>
     (transport = None \<and> (\<exists>p scheme proof_text. parse_auth arguments = Inr (scheme, proof_text) \<and>
        proven_participant db p (\<lambda>secret. verify_read_proof ext secret proof_text p (ra_channel a) (ra_after a) (ra_limit a)))))"
proof -
  obtain a dba u db1 where s: "(read_read_arguments arguments, db) = (Inr a, dba)"
      "read_permission ext now arguments transport a dba = (Inr u, db1)"
      "(let rows = list_messages_after db1 (ra_after a) (Some (ra_channel a)) (ra_limit a);
            latest_id = (if rows = [] then ra_after a else m_id (last rows))
        in (Inr (Messages (ra_channel a) (ra_after a) (length rows) latest_id rows), db1)) = (Inr answer :: tool_answer tool, db')"
    using assms(2) unfolding blackboard_read_def tool_bind_Inr by (elim exE conjE) (rule that)
  then have a: "read_read_arguments arguments = Inr a" "read_permission ext now arguments transport a db = (Inr (), db1)"
    by simp_all
  have auth: "authorize now db c p READ_MESSAGES res = (policy_allows now db c p READ_MESSAGES res None, db)" for c p res
    by (rule reachable_authorize_policy [OF assms(1)])
  have db1: "db1 = db"
    using a(2) by (auto simp: read_permission_def auth Let_def split: if_splits option.splits)
  let ?participant = "Option.bind (map_of arguments ''participant_id'') as_str"
  have "channel_is_public_active db (ra_channel a) \<or>
     (\<exists>caller p. transport = Some caller \<and> policy_allows now db caller p READ_MESSAGES (Some (ra_channel a)) None) \<or>
     (transport = None \<and> (\<exists>p scheme proof_text. parse_auth arguments = Inr (scheme, proof_text) \<and>
        proven_participant db p (\<lambda>secret. verify_read_proof ext secret proof_text p (ra_channel a) (ra_after a) (ra_limit a))))"
  proof (cases "?participant \<noteq> None \<or> map_of arguments ''auth'' \<noteq> None")
    case True
    then obtain p where p: "Option.bind ?participant validate_participant_id = Some p"
      using a(2) by (auto simp: read_permission_def Let_def split: option.splits)
    show ?thesis
    proof (cases transport)
      case (Some caller)
      then show ?thesis using a(2) True p by (auto simp: read_permission_def auth Let_def split: if_splits)
    next
      case None
      then have s: "try_bind (parse_auth arguments) (\<lambda>(_, proof_text).
          if (case get_web_participant_auth db p of None \<Rightarrow> False
              | Some auth \<Rightarrow> pa_auth_scheme auth = AUTH_SCHEME \<and>
                  verify_read_proof ext (pa_auth_secret auth) proof_text p (ra_channel a) (ra_after a) (ra_limit a))
          then Inr () else Inl ''unauthorized'') = Inr ()"
        using a(2) True p by (auto simp: read_permission_def Let_def simp del: split_paired_All split_paired_Ex)
      then obtain scheme proof_text auth where v: "parse_auth arguments = Inr (scheme, proof_text)"
          "get_web_participant_auth db p = Some auth"
          "verify_read_proof ext (pa_auth_secret auth) proof_text p (ra_channel a) (ra_after a) (ra_limit a)"
        by (auto simp: try_bind_Inr split: option.splits if_splits)
      show ?thesis using None v(1) proven_participantI [OF v(2), of "\<lambda>secret. verify_read_proof ext secret proof_text p
          (ra_channel a) (ra_after a) (ra_limit a)"] v(3) by auto
    qed
  next
    case False
    then show ?thesis using a(2) by (auto simp: read_permission_def Let_def split: if_splits)
  qed
  moreover let ?rows = "list_messages_after db (ra_after a) (Some (ra_channel a)) (ra_limit a)"
  have "answer = Messages (ra_channel a) (ra_after a) (length ?rows) (if ?rows = [] then ra_after a else m_id (last ?rows)) ?rows"
      "db' = db"
    using s(3) unfolding db1 Let_def by (simp_all del: if_split add: prod.inject eq_commute)
  ultimately show ?thesis using a(1) by blast
qed

text \<open>A signed post that created a message executed its request on the board with the channel ensured, for a writer
  who is still found afterwards.\<close>

lemma signed_post_created:
  assumes "reachable ext db" and "post_signed_message ext now body db = (Inr (201, j), db1)"
    and f: "read_signed_fields body = Inr f"
  obtains who m db0 where "system_wf ext db0" "messages db0 = messages db" "ingress_provenance db0 = ingress_provenance db"
    "execute_message_intent ext now who (signed_execution_request ext f) db0 = (Inr (ExecCreated m), db1)"
    "j = executed_json ''created'' False m"
    "proven_writer ext db1 (sf_participant_id f) (sf_scheme f) (sf_proof f) (sf_message f) (sf_nonce f) = Some who"
proof -
  obtain who q where i: "signed_intent_of ext now body db = Some (who, q)"
    using signed_post.refused [of ext now body db] assms(2) by (cases "signed_intent_of ext now body db") auto
  have q: "q = signed_execution_request ext f" if "signed_intent_of ext now body d = Some (who, q)" for d
    using that f by (auto simp: signed_intent_of_def split: option.splits if_splits)
  obtain res db' where ex: "execute_message_intent ext now who q (signed_prep ext now body db) = (res, db')" by fastforce
  have s: "signed_answer res = Inr (201, j)" "db' = db1" using signed_post.executed [OF i ex] assms(2) by simp_all
  then obtain m where m: "res = Inr (ExecCreated m)" using signed_post.created_iff [OF i, of res] by blast
  note wf = reachable_system_wf [OF assms(1)]
  have "signed_intent_of ext now body db1 = Some (who, q)"
    using signed_intent_stable [OF wf i] ex m s(2) by blast
  then have "proven_writer ext db1 (sf_participant_id f) (sf_scheme f) (sf_proof f) (sf_message f) (sf_nonce f) = Some who"
    using f by (auto simp: signed_intent_of_def split: option.splits if_splits)
  moreover have "system_wf ext (signed_prep ext now body db)"
    using run_keeps [OF signed_post.prep_run wf] by blast
  moreover have "j = executed_json ''created'' False m" using s(1) by (simp add: m signed_answer_def execution_answer_def)
  moreover have "ingress_provenance (signed_prep ext now body db) = ingress_provenance db"
    by (auto simp: signed_prep_def split: option.splits)
  ultimately show thesis using that ex signed_post.prep_messages by (simp add: m s(2) q [OF i])
qed

text \<open>C9: An intent is executed once across surfaces.  When a signed REST post created a message, the same intent of
  the same participant sent again at once as a call of the MCP write tool, with a proof of its own and under a delivery id
  that was not used, is answered as existing with that very message and adds nothing.\<close>

theorem cross_surface_retry:
  assumes "reachable ext db" and "post_signed_message ext now body db = (Inr (201, j), db1)"
    and "read_signed_fields body = Inr f" and "read_write_arguments arguments = Inr w"
    and "ww_participant_id w = sf_participant_id f" "ww_message w = sf_message f" "ww_nonce w = sf_nonce f"
    and "resolve_write_identity ext db1 arguments None w = Inr writer"
    and "mcp_delivery_id None w \<notin> in_delivery_id ` set (ingress_provenance db1)"
  shows "\<exists>m db2. j = executed_json ''created'' False m \<and> messages db1 = messages db @ [m] \<and>
    blackboard_write ext now arguments None db1 = (Inr (Written ''existing'' True m), db2) \<and> messages db2 = messages db1"
proof (rule signed_post_created [OF assms(1-3)])
  fix who m db0
  let ?q = "signed_execution_request ext f" and ?q' = "mcp_execution_request ext None w"
  assume wf: "system_wf ext db0" and msgs: "messages db0 = messages db" and j: "j = executed_json ''created'' False m"
    and ex: "execute_message_intent ext now who ?q db0 = (Inr (ExecCreated m), db1)"
    and pw: "proven_writer ext db1 (sf_participant_id f) (sf_scheme f) (sf_proof f) (sf_message f) (sf_nonce f) = Some who"
  note parts = wf [unfolded system_wf_def policy_wf_def]
  have ev: "evidence_wf ext db0" "grants_wf db0" "consumption_wf db0" "posts_only db0" using parts by blast+
  have same: "mr_intent ?q' = mr_intent ?q" "au_principal (mr_authority ?q') = au_principal (mr_authority ?q)"
    by (simp_all add: mcp_execution_request_def signed_execution_request_def Let_def assms(5-7) hmac_principal_def)
  have who: "writer = who"
    using assms(5,8) pw by (auto simp: resolve_write_identity_def proven_writer_def Let_def try_bind_Inr
        split: option.splits if_splits)
  have "request_bound ext who ?q" by (rule created_board [OF ev(1) ex])
  then have b: "request_bound ext who ?q'"
    by (simp add: request_bound_def mcp_execution_request_def signed_execution_request_def Let_def assms(5-7))
  have "ig_delivery_id (mr_ingress ?q') \<notin> in_delivery_id ` set (ingress_provenance db1)"
    using assms(9) by (simp add: mcp_execution_request_def Let_def)
  then obtain db2 where "execute_message_intent ext now who ?q' db1 = (Inr (ExecExisting m), db2)" "messages db2 = messages db1"
    using retry_existing [OF ev signed_request_described [OF assms(3)] ex same(1) b same(2)] by blast
  then have "blackboard_write ext now arguments None db1 = (Inr (Written ''existing'' True m), db2)"
    by (simp add: blackboard_write_def assms(4,8) who tool_bind_def write_answer_def)
  moreover have "messages db1 = messages db @ [m]" using created_fields(1) [OF ev(1) ex] msgs by simp
  ultimately show ?thesis using j \<open>messages db2 = messages db1\<close> by blast
qed

section \<open>Samples\<close>

lemma sample_proof:
  assumes "p = hex (hmac_sha256 sample_externals (replicate 32 7) bs)"
  shows "verify_message_proof sample_externals sample_secret p bs" and "length p = 64"
proof -
  have l: "length (hmac_sha256 sample_externals (replicate 32 7) bs) = 32" by (simp add: sample_externals_def)
  have "b64_decode sample_externals = unhex" by (simp add: sample_externals_def)
  with l show "verify_message_proof sample_externals sample_secret p bs"
    by (simp add: verify_message_proof_def decode_sample_secret assms unhex_hex)
  show "length p = 64" using l by (simp only: assms length_hex)
qed

lemma sample_participant_auth:
  "get_web_participant_auth sample_hmac_board ''ada'' =
     Some \<lparr>pa_identity = sample_who, pa_auth_scheme = AUTH_SCHEME, pa_auth_secret = sample_secret\<rparr>"
proof -
  have "validate_participant_id ''ada'' \<noteq> None" by code_simp
  then show ?thesis
    by (simp add: get_web_participant_auth_def sample_hmac_facts(7) new_participant_def identity_of_participant_def
        sample_who_def)
qed

text \<open>The arguments of a tool call with a proof.\<close>

definition sample_arguments :: "string \<Rightarrow> json_map \<Rightarrow> json_map" where
  "sample_arguments p rest = (''auth'', JObj [(''proof'', JStr p), (''scheme'', JStr AUTH_SCHEME)]) # rest"

lemma sample_parse_auth: "length p = 64 \<Longrightarrow> parse_auth (sample_arguments p rest) = Inr (AUTH_SCHEME, p)"
  by (auto simp: parse_auth_def sample_arguments_def as_object_def only_keys_def text_field_def as_str_def)

definition sample_fields :: message_fields where
  "sample_fields = \<lparr>mf_channel = ''lab'', mf_kind = ''message'', mf_body = ''hi'', mf_reply_to = None\<rparr>"

lemma sample_write:
  assumes "length p = 64"
  shows "read_write_arguments (sample_signed_body p) =
    Inr \<lparr>ww_participant_id = ''ada'', ww_message = sample_fields, ww_nonce = ''n1''\<rparr>"
    and "parse_auth (sample_signed_body p) = Inr (AUTH_SCHEME, p)"
    and "read_signed_fields (sample_signed_body p) =
      Inr \<lparr>sf_participant_id = ''ada'', sf_message = sample_fields, sf_nonce = ''n1'', sf_scheme = AUTH_SCHEME, sf_proof = p\<rparr>"
proof -
  have v: "validate_participant_id ''ada'' = Some ''ada''" "name_re ''lab''" "nonce_re ''n1''" by code_simp+
  have nb: "\<not> blank ''hi''" by (simp add: trim_graphic graphic_def ascii_simps)
  have keys: "only_keys (sample_signed_body p)
      [''participant_id'', ''auth'', ''channel'', ''kind'', ''body'', ''reply_to'', ''nonce'']"
    by (simp add: only_keys_def sample_signed_body_def)
  have get: "map_of (sample_signed_body p) ''participant_id'' = Some (JStr ''ada'')"
    "map_of (sample_signed_body p) ''channel'' = Some (JStr ''lab'')" "map_of (sample_signed_body p) ''kind'' = None"
    "map_of (sample_signed_body p) ''body'' = Some (JStr ''hi'')" "map_of (sample_signed_body p) ''reply_to'' = None"
    "map_of (sample_signed_body p) ''nonce'' = Some (JStr ''n1'')"
    "map_of (sample_signed_body p) ''source'' = None" "map_of (sample_signed_body p) ''instance'' = None"
    by (simp_all add: sample_signed_body_def)
  show "read_write_arguments (sample_signed_body p) =
    Inr \<lparr>ww_participant_id = ''ada'', ww_message = sample_fields, ww_nonce = ''n1''\<rparr>"
    using v nb by (simp add: read_write_arguments_def get keys tool_participant_def tool_text_def text_field_def as_str_def
        try_bind_def cursor_argument_def MAX_MESSAGE_BODY_BYTES_def sample_fields_def)
  show "parse_auth (sample_signed_body p) = Inr (AUTH_SCHEME, p)"
    using sample_parse_auth [OF assms] by (simp add: sample_signed_body_def sample_arguments_def)
  have "p \<noteq> []" "length p \<le> 256" using assms by auto
  from sample_signed_fields [OF this]
  show "read_signed_fields (sample_signed_body p) =
      Inr \<lparr>sf_participant_id = ''ada'', sf_message = sample_fields, sf_nonce = ''n1'', sf_scheme = AUTH_SCHEME, sf_proof = p\<rparr>"
    by (simp add: sample_fields_def)
qed

lemma sample_mcp_written:
  obtains p m db' where "length p = 64"
    "blackboard_write sample_externals 9 (sample_signed_body p) None sample_hmac_board = (Inr (Written ''created'' False m), db')"
proof -
  define p where "p = hex (hmac_sha256 sample_externals (replicate 32 7)
    (canonical_write_bytes_with_intent sample_externals ''ada'' ''lab'' ''message'' ''hi'' None ''n1'' None))"
  note pr = sample_proof [OF p_def]
  let ?w = "\<lparr>ww_participant_id = ''ada'', ww_message = sample_fields, ww_nonce = ''n1''\<rparr>"
  let ?q = "mcp_execution_request sample_externals None ?w"
  have who: "resolve_write_identity sample_externals sample_hmac_board (sample_signed_body p) None ?w = Inr sample_who"
    using pr(1) by (simp add: resolve_write_identity_def sample_write(2) [OF pr(2)] sample_participant_auth try_bind_def
        verify_write_proof_def verify_write_proof_with_intent_def sample_fields_def)
  have b: "request_bound sample_externals sample_who ?q"
    by (simp add: request_bound_def mcp_execution_request_def Let_def sample_who_def)
  have d: "described ?q"
    by (rule mcp_request_described [OF _ sample_write(1) [OF pr(2)]]) (simp add: described_caller_def)
  have al: "ad_allowed (decision_of 9 ?q sample_hmac_board)"
    by (simp add: decision_of_def evaluate_cases participant_policy_row_def sample_hmac_facts(6,7) new_participant_def
        mcp_execution_request_def hmac_principal_def Let_def implicit_authority_reason_def POST_MESSAGE_CAPABILITY_def
        capability_names)
  obtain m db' where "execute_message_intent sample_externals 9 sample_who ?q sample_hmac_board = (Inr (ExecCreated m), db')"
    by (rule first_execution [OF sample_hmac_facts(1) d b al])
      (simp_all add: channel_active_def channel_metadata_def sample_hmac_facts mcp_execution_request_def Let_def sample_fields_def)
  then show thesis
    using that [OF pr(2), of m db'] by (simp add: blackboard_write_def sample_write(1) [OF pr(2)] who tool_bind_def write_answer_def)
qed

theorem mcp_writes_authorized_witness:
  "\<exists>p w. read_write_arguments (sample_signed_body p) = Inr w \<and> ww_message w = sample_fields \<and>
     policy_allows 9 sample_hmac_board (hmac_principal (ww_participant_id w)) (ww_participant_id w) POST_MESSAGE_CAPABILITY
       (Some (mf_channel (ww_message w))) (Some (ww_nonce w))"
proof (rule sample_mcp_written)
  fix p m db'
  assume l: "length p = 64" and w: "blackboard_write sample_externals 9 (sample_signed_body p) None sample_hmac_board =
    (Inr (Written ''created'' False m), db')"
  have "described_caller None" by (simp add: described_caller_def)
  from mcp_writes_authorized [OF sample_hmac_facts(1) this w] show ?thesis
    using sample_write(1) [OF l] unfolding write_authenticated_def option.case
    by (intro exI [of _ p] exI [of _ "\<lparr>ww_participant_id = ''ada'', ww_message = sample_fields, ww_nonce = ''n1''\<rparr>"]) simp
qed

theorem cross_surface_retry_witness:
  "\<exists>p m db1 db2. post_signed_message sample_externals 9 (sample_signed_body p) sample_hmac_board =
       (Inr (201, executed_json ''created'' False m), db1) \<and>
     blackboard_write sample_externals 9 (sample_signed_body p) None db1 = (Inr (Written ''existing'' True m), db2) \<and>
     messages db1 = [m] \<and> messages db2 = [m]"
proof (rule sample_signed_post)
  fix p j db1
  assume post: "post_signed_message sample_externals 9 (sample_signed_body p) sample_hmac_board = (Inr (201, j), db1)"
    and l: "length p = 64"
  note w = sample_write [OF l]
  let ?w = "\<lparr>ww_participant_id = ''ada'', ww_message = sample_fields, ww_nonce = ''n1''\<rparr>"
  obtain who m db0 where s: "system_wf sample_externals db0" "ingress_provenance db0 = ingress_provenance sample_hmac_board"
      "execute_message_intent sample_externals 9 who (signed_execution_request sample_externals
         \<lparr>sf_participant_id = ''ada'', sf_message = sample_fields, sf_nonce = ''n1'', sf_scheme = AUTH_SCHEME, sf_proof = p\<rparr>) db0 =
       (Inr (ExecCreated m), db1)"
      "proven_writer sample_externals db1 ''ada'' AUTH_SCHEME p sample_fields ''n1'' = Some who"
    by (rule signed_post_created [OF sample_hmac_facts(1) post w(3), simplified]) (rule that)
  have "evidence_wf sample_externals db0" using s(1) by (simp add: system_wf_def)
  from created_fields(3) [OF this s(3)]
  have i: "mcp_delivery_id None ?w \<notin> in_delivery_id ` set (ingress_provenance db1)"
    by (simp add: s(2) sample_hmac_facts(5) ingress_row_of_def signed_execution_request_def Let_def mcp_delivery_id_def)
  have "resolve_write_identity sample_externals db1 (sample_signed_body p) None ?w = Inr who"
    using s(4) by (auto simp: resolve_write_identity_def proven_writer_def w(2) try_bind_def split: option.splits if_splits)
  from cross_surface_retry [OF sample_hmac_facts(1) post w(3,1) _ _ _ this i, simplified]
  obtain m db2 where "j = executed_json ''created'' False m" "messages db1 = messages sample_hmac_board @ [m]"
      "blackboard_write sample_externals 9 (sample_signed_body p) None db1 = (Inr (Written ''existing'' True m), db2)"
      "messages db2 = messages db1"
    by blast
  with post show ?thesis
    unfolding sample_hmac_facts(3) append_Nil by (intro exI [of _ p] exI [of _ m] exI [of _ db1] exI [of _ db2]) simp
qed

definition sample_audit_arguments :: "string \<Rightarrow> json_map" where
  "sample_audit_arguments p = sample_arguments p [(''intent_id'', JStr ''n1''), (''participant_id'', JStr ''ada'')]"

theorem mcp_reads_authorized_witness:
  "\<exists>p. (\<exists>a. fst (blackboard_execution_audit_integrity sample_externals 9 (sample_audit_arguments p) None sample_hmac_board) = Inr a) \<and>
     tool_allowed sample_externals 9 sample_hmac_board (sample_audit_arguments p) None ''ada'' READ_EXECUTION_AUDIT (Some ''n1'')"
proof -
  define p where "p = hex (hmac_sha256 sample_externals (replicate 32 7)
    (canonical_capability_bytes sample_externals ''ada'' READ_EXECUTION_AUDIT (Some ''n1'')))"
  note pr = sample_proof [OF p_def]
  let ?a = "sample_audit_arguments p"
  have v: "validate_participant_id ''ada'' = Some ''ada''" by code_simp
  have n: "normalize_intent_id ''n1'' = Some ''n1''"
    by (simp add: normalize_intent_id_def trim_graphic graphic_def ascii_simps MAX_INTENT_ID_BYTES_def ascii_control_def)
  have keys: "only_keys ?a [''participant_id'', ''intent_id'', ''auth'']"
    by (simp add: only_keys_def sample_audit_arguments_def sample_arguments_def)
  have args: "tool_participant ?a = Inr ''ada''" "tool_intent ?a = Inr ''n1''"
    using v n by (simp_all add: tool_participant_def tool_intent_def sample_audit_arguments_def sample_arguments_def as_str_def)
  have "parse_auth ?a = Inr (AUTH_SCHEME, p)" unfolding sample_audit_arguments_def by (rule sample_parse_auth [OF pr(2)])
  then have r: "resolve_capability_principal sample_externals 9 ?a ''ada'' READ_EXECUTION_AUDIT (Some ''n1'') None sample_hmac_board
      = (Inr (hmac_principal ''ada''), sample_hmac_board)"
    using pr(1) by (simp add: resolve_capability_principal_def tool_caller_def resolve_capability_identity_def try_bind_def
        sample_participant_auth verify_capability_proof_def)
  have "ad_allowed (evaluate_authorization_current_schema 9 sample_hmac_board (hmac_principal ''ada'') ''ada''
      READ_EXECUTION_AUDIT (Some ''n1'') None)"
    by (simp add: evaluate_cases participant_policy_row_def sample_hmac_facts(6,7) new_participant_def hmac_principal_def
        implicit_authority_reason_def READ_EXECUTION_AUDIT_def capability_names)
  then have "fst (blackboard_execution_audit_integrity sample_externals 9 ?a None sample_hmac_board) =
      Inr (Projection (Integrity (verify_execution_audit_integrity sample_externals sample_hmac_board ''ada'' ''n1'')))"
    by (simp add: blackboard_execution_audit_integrity_def keys args tool_bind_def authorized_read_def r
        reachable_authorize [OF sample_hmac_facts(1)])
  moreover from this mcp_reads_authorized [OF sample_hmac_facts(1), of 9 ?a None]
  have "tool_allowed sample_externals 9 sample_hmac_board ?a None ''ada'' READ_EXECUTION_AUDIT (Some ''n1'')"
    using args by fastforce
  ultimately show ?thesis by blast
qed

definition sample_read_arguments :: "string \<Rightarrow> json_map" where
  "sample_read_arguments p = sample_arguments p [(''channel'', JStr ''lab''), (''participant_id'', JStr ''ada'')]"

theorem mcp_channel_reads_confined_witness:
  "\<exists>p. blackboard_read sample_externals 9 (sample_read_arguments p) None sample_hmac_board =
       (Inr (Messages ''lab'' 0 0 0 []), sample_hmac_board) \<and>
     proven_participant sample_hmac_board ''ada'' (\<lambda>secret. verify_read_proof sample_externals secret p ''ada'' ''lab'' 0 50)"
proof -
  define p where "p = hex (hmac_sha256 sample_externals (replicate 32 7)
    (canonical_read_bytes sample_externals ''ada'' ''lab'' 0 50))"
  note pr = sample_proof [OF p_def]
  let ?a = "sample_read_arguments p" and ?r = "\<lparr>ra_channel = ''lab'', ra_after = 0, ra_limit = 50\<rparr>"
  have v: "validate_participant_id ''ada'' = Some ''ada''" "name_re ''lab''" by code_simp+
  have keys: "only_keys ?a [''channel'', ''after'', ''limit'', ''participant_id'', ''auth'']"
    by (simp add: only_keys_def sample_read_arguments_def sample_arguments_def)
  have get: "map_of ?a ''channel'' = Some (JStr ''lab'')" "map_of ?a ''after'' = None" "map_of ?a ''limit'' = None"
    "map_of ?a ''participant_id'' = Some (JStr ''ada'')"
    by (simp_all add: sample_read_arguments_def sample_arguments_def)
  have args: "read_read_arguments ?a = Inr ?r"
    using v(2) by (simp add: read_read_arguments_def keys get tool_text_def text_field_def as_str_def try_bind_def DEFAULT_PAGE_SIZE_def)
  have auth: "parse_auth ?a = Inr (AUTH_SCHEME, p)" unfolding sample_read_arguments_def by (rule sample_parse_auth [OF pr(2)])
  then have perm: "read_permission sample_externals 9 ?a None ?r sample_hmac_board = (Inr (), sample_hmac_board)"
    using pr(1) v(1) by (simp add: read_permission_def get as_str_def try_bind_def sample_participant_auth verify_read_proof_def)
  have rows: "list_messages_after sample_hmac_board 0 (Some ''lab'') 50 = []"
    by (simp add: list_messages_after_def sample_hmac_facts(3))
  have read: "blackboard_read sample_externals 9 ?a None sample_hmac_board = (Inr (Messages ''lab'' 0 0 0 []), sample_hmac_board)"
    by (simp add: blackboard_read_def args perm tool_bind_def rows)
  have c: "\<not> channel_is_public_active sample_hmac_board ''lab''"
    by (simp add: channel_is_public_active_def channel_metadata_def sample_hmac_facts(2))
  obtain q where q: "proven_participant sample_hmac_board q (\<lambda>secret. verify_read_proof sample_externals secret p q ''lab'' 0 50)"
    using mcp_channel_reads_confined [OF sample_hmac_facts(1) read] args auth c by auto
  then have "q = ''ada''" by (auto simp: proven_participant_def sample_hmac_facts(7) new_participant_def)
  with q read show ?thesis by blast
qed

end
