(* ===== verification/Contract_Schema.thy ===== *)
theory Contract_Schema
  imports Mcp_Tools
begin

text \<open>
  The contract schemas (\<open>contract_schema.rs\<close>) and the tool descriptions of the MCP server (\<open>mcp.rs\<close>): static JSON
  documents, one definition per function and one per described tool, and what it means that a value conforms to a
  schema.  The properties say that the tools keep the contract they advertise.
\<close>

section \<open>Schemas\<close>

definition PARTICIPANT_ID_MAX :: nat where "PARTICIPANT_ID_MAX = 64"

definition INTENT_ID_MAX :: nat where "INTENT_ID_MAX = 256"

definition DELIVERY_ID_MAX :: nat where "DELIVERY_ID_MAX = 256"

definition participant_id_schema :: json where
  "participant_id_schema = json_object [
    (''type'', JStr ''string''), (''minLength'', JInt 1), (''maxLength'', JInt (int PARTICIPANT_ID_MAX)),
    (''description'', JStr ''Durable Blackboard attribution identity. It is not a transport credential.'')]"

definition conversation_ref_schema :: json where
  "conversation_ref_schema = json_object [
    (''anyOf'', JArr [json_object [(''type'', JStr ''string'')], json_object [(''type'', JStr ''null'')]]),
    (''description'',
      JStr ''Optional provider-side conversation provenance. It carries no authentication or authorization authority.'')]"

definition intent_id_schema :: json where
  "intent_id_schema = json_object [
    (''type'', JStr ''string''), (''minLength'', JInt 1), (''maxLength'', JInt (int INTENT_ID_MAX)),
    (''description'',
      JStr ''Transport-independent semantic operation identity used for idempotency and receipt lookup.'')]"

definition delivery_id_schema :: json where
  "delivery_id_schema = json_object [
    (''type'', JStr ''string''), (''minLength'', JInt 1), (''maxLength'', JInt (int DELIVERY_ID_MAX)),
    (''description'',
      JStr ''Transport delivery provenance identity. Distinct deliveries may carry the same semantic intent_id. delivery_id is not part of the semantic execution receipt.'')]"

definition principal_schema :: json where
  "principal_schema = json_object [
    (''type'', JStr ''object''),
    (''properties'', json_object [
      (''provider'', json_object [(''type'', JStr ''string'')]),
      (''subject'', json_object [(''type'', JStr ''string'')])]),
    (''required'', JArr [JStr ''provider'', JStr ''subject'']), (''additionalProperties'', JBool False)]"

definition message_schema :: json where
  "message_schema = json_object [
    (''type'', JStr ''object''),
    (''properties'', json_object [
      (''id'', json_object [(''type'', JStr ''integer''), (''minimum'', JInt 1)]),
      (''created_at'', json_object [(''type'', JStr ''integer'')]),
      (''channel'', json_object [(''type'', JStr ''string'')]),
      (''source'', json_object [(''type'', JStr ''string'')]),
      (''instance'', json_object [(''type'', JStr ''string'')]), (''conversation_ref'', conversation_ref_schema),
      (''kind'', json_object [(''type'', JStr ''string'')]), (''body'', json_object [(''type'', JStr ''string'')]),
      (''reply_to'', json_object [
        (''anyOf'', JArr [
          json_object [(''type'', JStr ''integer''), (''minimum'', JInt 1)],
          json_object [(''type'', JStr ''null'')]])])]),
    (''required'', JArr [
      JStr ''id'', JStr ''created_at'', JStr ''channel'', JStr ''source'', JStr ''instance'',
      JStr ''conversation_ref'', JStr ''kind'', JStr ''body'', JStr ''reply_to'']),
    (''additionalProperties'', JBool False)]"

definition access_context_schema :: json where
  "access_context_schema = json_object [
    (''type'', JStr ''object''),
    (''properties'', json_object [
      (''participant_id'', participant_id_schema), (''principal'', principal_schema),
      (''capabilities'', json_object [
        (''type'', JStr ''array''), (''items'', json_object [(''type'', JStr ''string'')])]),
      (''grants'', json_object [(''type'', JStr ''array'')]),
      (''adapter'', json_object [(''type'', JStr ''string'')])]),
    (''required'', JArr [
      JStr ''participant_id'', JStr ''principal'', JStr ''capabilities'', JStr ''grants'', JStr ''adapter'']),
    (''additionalProperties'', JBool False)]"

definition execution_receipt_schema :: json where
  "execution_receipt_schema = json_object [
    (''type'', JStr ''object''),
    (''properties'', json_object [
      (''participant_id'', participant_id_schema), (''intent_id'', intent_id_schema),
      (''intent_hash'', json_object [(''type'', JStr ''string'')]),
      (''capability'', json_object [(''type'', JStr ''string'')]),
      (''message_id'', json_object [(''type'', JStr ''integer''), (''minimum'', JInt 1)]),
      (''status'', json_object [(''type'', JStr ''string'')])]),
    (''required'', JArr [
      JStr ''participant_id'', JStr ''intent_id'', JStr ''intent_hash'', JStr ''capability'', JStr ''message_id'',
      JStr ''status'']),
    (''additionalProperties'', JBool False),
    (''description'',
      JStr ''Durable semantic execution receipt. Transport delivery_id is intentionally excluded and remains ingress provenance.'')]"

definition execution_receipt_envelope_schema :: json where
  "execution_receipt_envelope_schema = json_object [
    (''type'', JStr ''object''), (''properties'', json_object [(''execution'', execution_receipt_schema)]),
    (''required'', JArr [JStr ''execution'']), (''additionalProperties'', JBool False)]"

definition authorization_provenance_schema :: json where
  "authorization_provenance_schema = json_object [
    (''type'', JStr ''object''),
    (''properties'', json_object [
      (''participant_id'', participant_id_schema), (''intent_id'', intent_id_schema),
      (''principal'', json_object [(''anyOf'', JArr [principal_schema, json_object [(''type'', JStr ''null'')]])]),
      (''capability'', json_object [
        (''anyOf'', JArr [json_object [(''type'', JStr ''string'')], json_object [(''type'', JStr ''null'')]])]),
      (''resource'', json_object [
        (''anyOf'', JArr [json_object [(''type'', JStr ''string'')], json_object [(''type'', JStr ''null'')]])]),
      (''source'', json_object [(''type'', JStr ''string'')]),
      (''reason'', json_object [(''type'', JStr ''string'')]),
      (''grant_id'', json_object [
        (''anyOf'', JArr [
          json_object [(''type'', JStr ''integer''), (''minimum'', JInt 1)],
          json_object [(''type'', JStr ''null'')]])])]),
    (''required'', JArr [
      JStr ''participant_id'', JStr ''intent_id'', JStr ''principal'', JStr ''capability'', JStr ''resource'',
      JStr ''source'', JStr ''reason'', JStr ''grant_id'']),
    (''additionalProperties'', JBool False),
    (''description'', JStr ''Historical non-secret authorization decision persisted at execution commit time.'')]"

definition ingress_audit_record_schema :: json where
  "ingress_audit_record_schema = json_object [
    (''type'', JStr ''object''),
    (''properties'', json_object [
      (''participant_id'', participant_id_schema), (''delivery_id'', delivery_id_schema),
      (''intent_id'', intent_id_schema), (''transport'', json_object [(''type'', JStr ''string'')]),
      (''external_ref'', json_object [(''type'', JStr ''string'')]), (''principal'', principal_schema)]),
    (''required'', JArr [
      JStr ''participant_id'', JStr ''delivery_id'', JStr ''intent_id'', JStr ''transport'', JStr ''external_ref'',
      JStr ''principal'']),
    (''additionalProperties'', JBool False)]"

definition execution_audit_bundle_schema :: json where
  "execution_audit_bundle_schema = json_object [
    (''type'', JStr ''object''),
    (''properties'', json_object [
      (''receipt'', execution_receipt_schema),
      (''authorization'', json_object [
        (''anyOf'', JArr [authorization_provenance_schema, json_object [(''type'', JStr ''null'')]])]),
      (''ingress'', json_object [(''type'', JStr ''array''), (''items'', ingress_audit_record_schema)])]),
    (''required'', JArr [JStr ''receipt'', JStr ''authorization'', JStr ''ingress'']),
    (''additionalProperties'', JBool False),
    (''description'',
      JStr ''Immutable historical execution read model assembled from committed receipt, authorization provenance, and ingress provenance.'')]"

definition execution_audit_envelope_schema :: json where
  "execution_audit_envelope_schema = json_object [
    (''type'', JStr ''object''), (''properties'', json_object [(''audit'', execution_audit_bundle_schema)]),
    (''required'', JArr [JStr ''audit'']), (''additionalProperties'', JBool False)]"

definition execution_audit_integrity_schema :: json where
  "execution_audit_integrity_schema = json_object [
    (''type'', JStr ''object''),
    (''properties'', json_object [
      (''participant_id'', participant_id_schema), (''intent_id'', intent_id_schema),
      (''valid'', json_object [(''type'', JStr ''boolean'')]),
      (''checks'', json_object [(''type'', JStr ''array''), (''items'', json_object [(''type'', JStr ''string'')])]),
      (''violations'', json_object [
        (''type'', JStr ''array''), (''items'', json_object [(''type'', JStr ''string'')])])]),
    (''required'', JArr [
      JStr ''participant_id'', JStr ''intent_id'', JStr ''valid'', JStr ''checks'', JStr ''violations'']),
    (''additionalProperties'', JBool False),
    (''description'',
      JStr ''Read-only structural integrity report over committed execution evidence. It does not re-evaluate historical authorization policy.'')]"

definition execution_audit_integrity_envelope_schema :: json where
  "execution_audit_integrity_envelope_schema = json_object [
    (''type'', JStr ''object''), (''properties'', json_object [(''integrity'', execution_audit_integrity_schema)]),
    (''required'', JArr [JStr ''integrity'']), (''additionalProperties'', JBool False)]"

definition execution_audit_orphan_evidence_schema :: json where
  "execution_audit_orphan_evidence_schema = json_object [
    (''type'', JStr ''object''),
    (''properties'', json_object [
      (''kind'', json_object [(''type'', JStr ''string'')]),
      (''participant_id'', json_object [
        (''anyOf'', JArr [participant_id_schema, json_object [(''type'', JStr ''null'')]])]),
      (''intent_id'', intent_id_schema),
      (''reference'', json_object [
        (''anyOf'', JArr [json_object [(''type'', JStr ''string'')], json_object [(''type'', JStr ''null'')]])])]),
    (''required'', JArr [JStr ''kind'', JStr ''participant_id'', JStr ''intent_id'', JStr ''reference'']),
    (''additionalProperties'', JBool False),
    (''description'',
      JStr ''Read-only classification of durable execution evidence that cannot be attached to a committed receipt identity.'')]"

definition execution_audit_sweep_schema :: json where
  "execution_audit_sweep_schema = json_object [
    (''type'', JStr ''object''),
    (''properties'', json_object [
      (''valid'', json_object [(''type'', JStr ''boolean'')]),
      (''executions_scanned'', json_object [(''type'', JStr ''integer''), (''minimum'', JInt 0)]),
      (''invalid_executions'', json_object [
        (''type'', JStr ''array''), (''items'', execution_audit_integrity_schema)]),
      (''orphan_evidence'', json_object [
        (''type'', JStr ''array''), (''items'', execution_audit_orphan_evidence_schema)])]),
    (''required'', JArr [
      JStr ''valid'', JStr ''executions_scanned'', JStr ''invalid_executions'', JStr ''orphan_evidence'']),
    (''additionalProperties'', JBool False),
    (''description'', JStr ''Canonical database-wide read-only execution audit integrity sweep.'')]"

definition execution_audit_sweep_envelope_schema :: json where
  "execution_audit_sweep_envelope_schema = json_object [
    (''type'', JStr ''object''), (''properties'', json_object [(''sweep'', execution_audit_sweep_schema)]),
    (''required'', JArr [JStr ''sweep'']), (''additionalProperties'', JBool False)]"

definition authorization_administration_event_schema :: json where
  "authorization_administration_event_schema = json_object [
    (''type'', JStr ''object''),
    (''properties'', json_object [
      (''id'', json_object [(''type'', JStr ''integer''), (''minimum'', JInt 1)]),
      (''grant_store'', json_object [
        (''type'', JStr ''string''), (''enum'', JArr [JStr ''durable'', JStr ''delegated''])]),
      (''grant_id'', json_object [(''type'', JStr ''integer''), (''minimum'', JInt 1)]),
      (''operation'', json_object [
        (''type'', JStr ''string''), (''enum'', JArr [JStr ''create'', JStr ''reactivate'', JStr ''deactivate''])]),
      (''actor_surface'', json_object [(''type'', JStr ''string'')]),
      (''actor_provider'', json_object [
        (''anyOf'', JArr [json_object [(''type'', JStr ''string'')], json_object [(''type'', JStr ''null'')]])]),
      (''actor_subject'', json_object [
        (''anyOf'', JArr [json_object [(''type'', JStr ''string'')], json_object [(''type'', JStr ''null'')]])]),
      (''actor_participant_id'', json_object [
        (''anyOf'', JArr [participant_id_schema, json_object [(''type'', JStr ''null'')]])]),
      (''target_principal_provider'', json_object [(''type'', JStr ''string'')]),
      (''target_principal_subject'', json_object [(''type'', JStr ''string'')]),
      (''participant_id'', participant_id_schema), (''capability'', json_object [(''type'', JStr ''string'')]),
      (''resource'', json_object [
        (''anyOf'', JArr [json_object [(''type'', JStr ''string'')], json_object [(''type'', JStr ''null'')]])]),
      (''intent_id'', json_object [(''anyOf'', JArr [intent_id_schema, json_object [(''type'', JStr ''null'')]])]),
      (''expires_at'', json_object [
        (''anyOf'', JArr [json_object [(''type'', JStr ''integer'')], json_object [(''type'', JStr ''null'')]])]),
      (''one_shot'', json_object [(''type'', JStr ''boolean'')]),
      (''before_status'', json_object [
        (''anyOf'', JArr [
          json_object [(''type'', JStr ''string''), (''enum'', JArr [JStr ''active'', JStr ''inactive''])],
          json_object [(''type'', JStr ''null'')]])]),
      (''after_status'', json_object [
        (''type'', JStr ''string''), (''enum'', JArr [JStr ''active'', JStr ''inactive''])]),
      (''created_at'', json_object [(''type'', JStr ''integer'')])]),
    (''required'', JArr [
      JStr ''id'', JStr ''grant_store'', JStr ''grant_id'', JStr ''operation'', JStr ''actor_surface'',
      JStr ''actor_provider'', JStr ''actor_subject'', JStr ''actor_participant_id'',
      JStr ''target_principal_provider'', JStr ''target_principal_subject'', JStr ''participant_id'',
      JStr ''capability'', JStr ''resource'', JStr ''intent_id'', JStr ''expires_at'', JStr ''one_shot'',
      JStr ''before_status'', JStr ''after_status'', JStr ''created_at'']),
    (''additionalProperties'', JBool False),
    (''description'',
      JStr ''Immutable non-secret authorization-administration provenance for one effective policy mutation.'')]"

definition authorization_administration_history_schema :: json where
  "authorization_administration_history_schema = json_object [
    (''type'', JStr ''object''),
    (''properties'', json_object [
      (''events'', json_object [(''type'', JStr ''array''), (''items'', authorization_administration_event_schema)]),
      (''order'', json_object [(''type'', JStr ''string''), (''enum'', JArr [JStr ''desc'', JStr ''asc''])]),
      (''has_more'', json_object [(''type'', JStr ''boolean'')])]),
    (''required'', JArr [JStr ''events'', JStr ''order'', JStr ''has_more'']),
    (''additionalProperties'', JBool False),
    (''description'', JStr ''Canonical bounded read-only committed authorization-administration history window.'')]"

definition authorization_administration_history_envelope_schema :: json where
  "authorization_administration_history_envelope_schema = json_object [
    (''type'', JStr ''object''),
    (''properties'', json_object [(''history'', authorization_administration_history_schema)]),
    (''required'', JArr [JStr ''history'']), (''additionalProperties'', JBool False)]"

definition authorization_decision_explanation_schema :: json where
  "authorization_decision_explanation_schema = json_object [
    (''type'', JStr ''object''),
    (''properties'', json_object [
      (''allowed'', json_object [(''type'', JStr ''boolean'')]),
      (''source'', json_object [(''type'', JStr ''string'')]),
      (''reason'', json_object [(''type'', JStr ''string'')]),
      (''grant_id'', json_object [
        (''anyOf'', JArr [
          json_object [(''type'', JStr ''integer''), (''minimum'', JInt 1)],
          json_object [(''type'', JStr ''null'')]])]),
      (''consume_on_commit'', json_object [(''type'', JStr ''boolean'')])]),
    (''required'', JArr [
      JStr ''allowed'', JStr ''source'', JStr ''reason'', JStr ''grant_id'', JStr ''consume_on_commit'']),
    (''additionalProperties'', JBool False),
    (''description'', JStr ''Canonical non-secret read-only explanation of one authorization decision.'')]"

definition authorization_decision_envelope_schema :: json where
  "authorization_decision_envelope_schema = json_object [
    (''type'', JStr ''object''),
    (''properties'', json_object [(''decision'', authorization_decision_explanation_schema)]),
    (''required'', JArr [JStr ''decision'']), (''additionalProperties'', JBool False)]"

definition authorization_integrity_violation_schema :: json where
  "authorization_integrity_violation_schema = json_object [
    (''type'', JStr ''object''),
    (''properties'', json_object [
      (''kind'', json_object [(''type'', JStr ''string'')]), (''store'', json_object [(''type'', JStr ''string'')]),
      (''grant_id'', json_object [
        (''anyOf'', JArr [
          json_object [(''type'', JStr ''integer''), (''minimum'', JInt 1)],
          json_object [(''type'', JStr ''null'')]])]),
      (''participant_id'', json_object [
        (''anyOf'', JArr [participant_id_schema, json_object [(''type'', JStr ''null'')]])]),
      (''detail'', json_object [(''type'', JStr ''string'')])]),
    (''required'', JArr [JStr ''kind'', JStr ''store'', JStr ''grant_id'', JStr ''participant_id'', JStr ''detail'']),
    (''additionalProperties'', JBool False),
    (''description'',
      JStr ''Non-secret read-only classification of malformed or ambiguous authorization-policy state.'')]"

definition authorization_integrity_schema :: json where
  "authorization_integrity_schema = json_object [
    (''type'', JStr ''object''),
    (''properties'', json_object [
      (''valid'', json_object [(''type'', JStr ''boolean'')]),
      (''durable_grants_scanned'', json_object [(''type'', JStr ''integer''), (''minimum'', JInt 0)]),
      (''delegated_grants_scanned'', json_object [(''type'', JStr ''integer''), (''minimum'', JInt 0)]),
      (''violations'', json_object [
        (''type'', JStr ''array''), (''items'', authorization_integrity_violation_schema)])]),
    (''required'', JArr [
      JStr ''valid'', JStr ''durable_grants_scanned'', JStr ''delegated_grants_scanned'', JStr ''violations'']),
    (''additionalProperties'', JBool False),
    (''description'', JStr ''Canonical read-only integrity report over Blackboard authorization policy objects.'')]"

definition authorization_integrity_envelope_schema :: json where
  "authorization_integrity_envelope_schema = json_object [
    (''type'', JStr ''object''), (''properties'', json_object [(''integrity'', authorization_integrity_schema)]),
    (''required'', JArr [JStr ''integrity'']), (''additionalProperties'', JBool False)]"

definition durable_grant_snapshot_schema :: json where
  "durable_grant_snapshot_schema = json_object [
    (''type'', JStr ''object''),
    (''properties'', json_object [
      (''id'', json_object [(''type'', JStr ''integer''), (''minimum'', JInt 1)]),
      (''principal_provider'', json_object [(''type'', JStr ''string''), (''minLength'', JInt 1)]),
      (''principal_subject'', json_object [(''type'', JStr ''string''), (''minLength'', JInt 1)]),
      (''participant_id'', participant_id_schema),
      (''capability'', json_object [(''type'', JStr ''string''), (''minLength'', JInt 1)]),
      (''resource'', json_object [
        (''anyOf'', JArr [json_object [(''type'', JStr ''string'')], json_object [(''type'', JStr ''null'')]])]),
      (''status'', json_object [(''type'', JStr ''string''), (''enum'', JArr [JStr ''active'', JStr ''inactive''])]),
      (''created_at'', json_object [(''type'', JStr ''integer'')]),
      (''updated_at'', json_object [(''type'', JStr ''integer'')])]),
    (''required'', JArr [
      JStr ''id'', JStr ''principal_provider'', JStr ''principal_subject'', JStr ''participant_id'',
      JStr ''capability'', JStr ''resource'', JStr ''status'', JStr ''created_at'', JStr ''updated_at'']),
    (''additionalProperties'', JBool False),
    (''description'', JStr ''Non-secret durable authorization grant inventory record.'')]"

definition delegated_grant_snapshot_schema :: json where
  "delegated_grant_snapshot_schema = json_object [
    (''type'', JStr ''object''),
    (''properties'', json_object [
      (''id'', json_object [(''type'', JStr ''integer''), (''minimum'', JInt 1)]),
      (''principal_provider'', json_object [(''type'', JStr ''string''), (''minLength'', JInt 1)]),
      (''principal_subject'', json_object [(''type'', JStr ''string''), (''minLength'', JInt 1)]),
      (''participant_id'', participant_id_schema),
      (''capability'', json_object [(''type'', JStr ''string''), (''minLength'', JInt 1)]),
      (''resource'', json_object [
        (''anyOf'', JArr [json_object [(''type'', JStr ''string'')], json_object [(''type'', JStr ''null'')]])]),
      (''intent_id'', json_object [(''anyOf'', JArr [intent_id_schema, json_object [(''type'', JStr ''null'')]])]),
      (''expires_at'', json_object [
        (''anyOf'', JArr [json_object [(''type'', JStr ''integer'')], json_object [(''type'', JStr ''null'')]])]),
      (''one_shot'', json_object [(''type'', JStr ''boolean'')]),
      (''consumed_at'', json_object [
        (''anyOf'', JArr [json_object [(''type'', JStr ''integer'')], json_object [(''type'', JStr ''null'')]])]),
      (''consumed_intent_id'', json_object [
        (''anyOf'', JArr [intent_id_schema, json_object [(''type'', JStr ''null'')]])]),
      (''status'', json_object [(''type'', JStr ''string''), (''enum'', JArr [JStr ''active'', JStr ''inactive''])])]),
    (''required'', JArr [
      JStr ''id'', JStr ''principal_provider'', JStr ''principal_subject'', JStr ''participant_id'',
      JStr ''capability'', JStr ''resource'', JStr ''intent_id'', JStr ''expires_at'', JStr ''one_shot'',
      JStr ''consumed_at'', JStr ''consumed_intent_id'', JStr ''status'']),
    (''additionalProperties'', JBool False),
    (''description'',
      JStr ''Non-secret delegated authorization grant inventory record including lifecycle and consumption state.'')]"

definition authorization_policy_window_schema :: json where
  "authorization_policy_window_schema = json_object [
    (''type'', JStr ''object''),
    (''properties'', json_object [
      (''store'', json_object [(''type'', JStr ''string''), (''enum'', JArr [JStr ''durable'', JStr ''delegated''])]),
      (''durable_grants'', json_object [(''type'', JStr ''array''), (''items'', durable_grant_snapshot_schema)]),
      (''delegated_grants'', json_object [(''type'', JStr ''array''), (''items'', delegated_grant_snapshot_schema)]),
      (''order'', json_object [(''type'', JStr ''string''), (''enum'', JArr [JStr ''desc'', JStr ''asc''])]),
      (''has_more'', json_object [(''type'', JStr ''boolean'')])]),
    (''required'', JArr [
      JStr ''store'', JStr ''durable_grants'', JStr ''delegated_grants'', JStr ''order'', JStr ''has_more'']),
    (''additionalProperties'', JBool False),
    (''description'',
      JStr ''Canonical bounded privileged read-only window over one explicit Blackboard authorization grant store.'')]"

definition authorization_policy_envelope_schema :: json where
  "authorization_policy_envelope_schema = json_object [
    (''type'', JStr ''object''), (''properties'', json_object [(''policy'', authorization_policy_window_schema)]),
    (''required'', JArr [JStr ''policy'']), (''additionalProperties'', JBool False)]"

definition auth_schema :: json where
  "auth_schema = json_object [
    (''type'', JStr ''object''),
    (''properties'', json_object [
      (''scheme'', json_object [(''type'', JStr ''string''), (''enum'', JArr [JStr AUTH_SCHEME])]),
      (''proof'', json_object [
        (''type'', JStr ''string''), (''minLength'', JInt 1), (''maxLength'', JInt 128),
        (''description'', JStr ''Unpadded base64url HMAC-SHA256 proof over the canonical request.'')])]),
    (''required'', JArr [JStr ''scheme'', JStr ''proof'']), (''additionalProperties'', JBool False)]"

definition read_output_schema :: json where
  "read_output_schema = json_object [
    (''type'', JStr ''object''),
    (''properties'', json_object [
      (''channel'', json_object [(''type'', JStr ''string'')]),
      (''after'', json_object [(''type'', JStr ''integer'')]),
      (''count'', json_object [(''type'', JStr ''integer''), (''minimum'', JInt 0)]),
      (''latest_id'', json_object [(''type'', JStr ''integer''), (''minimum'', JInt 0)]),
      (''messages'', json_object [(''type'', JStr ''array''), (''items'', message_schema)])]),
    (''required'', JArr [JStr ''channel'', JStr ''after'', JStr ''count'', JStr ''latest_id'', JStr ''messages'']),
    (''additionalProperties'', JBool False)]"

definition write_output_schema :: json where
  "write_output_schema = json_object [
    (''type'', JStr ''object''),
    (''properties'', json_object [
      (''status'', json_object [(''type'', JStr ''string''), (''enum'', JArr [JStr ''created'', JStr ''existing''])]),
      (''idempotent'', json_object [(''type'', JStr ''boolean'')]),
      (''id'', json_object [(''type'', JStr ''integer''), (''minimum'', JInt 1)]),
      (''source'', json_object [(''type'', JStr ''string'')]),
      (''participant_id'', json_object [(''type'', JStr ''string'')]),
      (''instance'', json_object [(''type'', JStr ''string'')]),
      (''channel'', json_object [(''type'', JStr ''string'')]),
      (''kind'', json_object [(''type'', JStr ''string'')]),
      (''reply_to'', json_object [
        (''anyOf'', JArr [
          json_object [(''type'', JStr ''integer''), (''minimum'', JInt 1)],
          json_object [(''type'', JStr ''null'')]])])]),
    (''required'', JArr [
      JStr ''status'', JStr ''idempotent'', JStr ''id'', JStr ''source'', JStr ''participant_id'',
      JStr ''instance'', JStr ''channel'', JStr ''kind'', JStr ''reply_to'']),
    (''additionalProperties'', JBool False)]"

definition read_tool :: json where
  "read_tool = json_object [
    (''name'', JStr ''blackboard_read''), (''title'', JStr ''Read Conversation Blackboard''),
    (''description'',
      JStr ''Read a Blackboard channel. Public channels may be read without auth. Private channels require participant_id plus an hmac-sha256-v1 proof over the canonical read request.''),
    (''inputSchema'', json_object [
      (''type'', JStr ''object''),
      (''properties'', json_object [
        (''channel'', json_object [(''type'', JStr ''string''), (''minLength'', JInt 1), (''maxLength'', JInt 128)]),
        (''after'', json_object [(''type'', JStr ''integer''), (''minimum'', JInt 0), (''default'', JInt 0)]),
        (''limit'', json_object [
          (''type'', JStr ''integer''), (''minimum'', JInt 1), (''maximum'', JInt (int MAX_PAGE_SIZE)),
          (''default'', JInt (int DEFAULT_PAGE_SIZE))]),
        (''participant_id'', participant_id_schema), (''auth'', auth_schema)]),
      (''required'', JArr [JStr ''channel'']), (''additionalProperties'', JBool False)]),
    (''outputSchema'', read_output_schema),
    (''annotations'', json_object [
      (''readOnlyHint'', JBool True), (''destructiveHint'', JBool False), (''idempotentHint'', JBool True),
      (''openWorldHint'', JBool False)])]"

definition write_tool :: json where
  "write_tool = json_object [
    (''name'', JStr ''blackboard_write''), (''title'', JStr ''Write Conversation Blackboard''),
    (''description'',
      JStr ''Append a thought as an approved participant using participant_id plus an hmac-sha256-v1 proof over the canonical write request. The server resolves provenance; exact retries with the same nonce are idempotent.''),
    (''inputSchema'', json_object [
      (''type'', JStr ''object''),
      (''properties'', json_object [
        (''participant_id'', participant_id_schema), (''auth'', auth_schema),
        (''channel'', json_object [(''type'', JStr ''string''), (''minLength'', JInt 1), (''maxLength'', JInt 128)]),
        (''kind'', json_object [
          (''type'', JStr ''string''), (''minLength'', JInt 1), (''maxLength'', JInt 32),
          (''default'', JStr ''message'')]),
        (''body'', json_object [
          (''type'', JStr ''string''), (''minLength'', JInt 1), (''maxLength'', JInt (int MAX_MESSAGE_BODY_BYTES))]),
        (''reply_to'', json_object [
          (''anyOf'', JArr [
            json_object [(''type'', JStr ''integer''), (''minimum'', JInt 1)],
            json_object [(''type'', JStr ''null'')]])]),
        (''nonce'', json_object [(''type'', JStr ''string''), (''minLength'', JInt 1), (''maxLength'', JInt 128)])]),
      (''required'', JArr [JStr ''participant_id'', JStr ''auth'', JStr ''channel'', JStr ''body'', JStr ''nonce'']),
      (''additionalProperties'', JBool False)]),
    (''outputSchema'', write_output_schema),
    (''annotations'', json_object [
      (''readOnlyHint'', JBool False), (''destructiveHint'', JBool False), (''idempotentHint'', JBool True),
      (''openWorldHint'', JBool True)])]"

definition access_context_tool :: json where
  "access_context_tool = json_object [
    (''name'', JStr ''blackboard_access_context''), (''title'', JStr ''Read Blackboard Access Context''),
    (''description'',
      JStr ''Return the authenticated participant's effective capability grants without exposing credentials.''),
    (''inputSchema'', json_object [
      (''type'', JStr ''object''),
      (''properties'', json_object [(''participant_id'', participant_id_schema), (''auth'', auth_schema)]),
      (''required'', JArr [JStr ''participant_id'', JStr ''auth'']), (''additionalProperties'', JBool False)]),
    (''outputSchema'', access_context_schema),
    (''annotations'', json_object [
      (''readOnlyHint'', JBool True), (''destructiveHint'', JBool False), (''idempotentHint'', JBool True),
      (''openWorldHint'', JBool False)])]"

definition execution_receipt_tool :: json where
  "execution_receipt_tool = json_object [
    (''name'', JStr ''blackboard_execution_receipt''), (''title'', JStr ''Read Blackboard Execution Receipt''),
    (''description'',
      JStr ''Read back the durable semantic execution receipt for one authenticated participant intent.''),
    (''inputSchema'', json_object [
      (''type'', JStr ''object''),
      (''properties'', json_object [
        (''participant_id'', participant_id_schema), (''intent_id'', intent_id_schema), (''auth'', auth_schema)]),
      (''required'', JArr [JStr ''participant_id'', JStr ''intent_id'', JStr ''auth'']),
      (''additionalProperties'', JBool False)]),
    (''outputSchema'', execution_receipt_envelope_schema),
    (''annotations'', json_object [
      (''readOnlyHint'', JBool True), (''destructiveHint'', JBool False), (''idempotentHint'', JBool True),
      (''openWorldHint'', JBool False)])]"

definition execution_audit_tool :: json where
  "execution_audit_tool = json_object [
    (''name'', JStr ''blackboard_execution_audit''), (''title'', JStr ''Read Blackboard Execution Audit''),
    (''description'', JStr ''Read immutable committed execution evidence without re-evaluating historical policy.''),
    (''inputSchema'', json_object [
      (''type'', JStr ''object''),
      (''properties'', json_object [
        (''participant_id'', participant_id_schema), (''intent_id'', intent_id_schema), (''auth'', auth_schema)]),
      (''required'', JArr [JStr ''participant_id'', JStr ''intent_id'', JStr ''auth'']),
      (''additionalProperties'', JBool False)]),
    (''outputSchema'', execution_audit_envelope_schema),
    (''annotations'', json_object [
      (''readOnlyHint'', JBool True), (''destructiveHint'', JBool False), (''idempotentHint'', JBool True),
      (''openWorldHint'', JBool False)])]"

definition execution_audit_integrity_tool :: json where
  "execution_audit_integrity_tool = json_object [
    (''name'', JStr ''blackboard_execution_audit_integrity''),
    (''title'', JStr ''Verify Blackboard Execution Audit Integrity''),
    (''description'',
      JStr ''Verify structural consistency of committed execution evidence without re-evaluating policy or repairing history.''),
    (''inputSchema'', json_object [
      (''type'', JStr ''object''),
      (''properties'', json_object [
        (''participant_id'', participant_id_schema), (''intent_id'', intent_id_schema), (''auth'', auth_schema)]),
      (''required'', JArr [JStr ''participant_id'', JStr ''intent_id'', JStr ''auth'']),
      (''additionalProperties'', JBool False)]),
    (''outputSchema'', execution_audit_integrity_envelope_schema),
    (''annotations'', json_object [
      (''readOnlyHint'', JBool True), (''destructiveHint'', JBool False), (''idempotentHint'', JBool True),
      (''openWorldHint'', JBool False)])]"

definition execution_audit_sweep_tool :: json where
  "execution_audit_sweep_tool = json_object [
    (''name'', JStr ''blackboard_execution_audit_sweep''),
    (''title'', JStr ''Verify Blackboard Execution Audit Corpus''),
    (''description'',
      JStr ''Run the privileged canonical database-wide execution audit integrity sweep without repairing history.''),
    (''inputSchema'', json_object [
      (''type'', JStr ''object''),
      (''properties'', json_object [(''participant_id'', participant_id_schema), (''auth'', auth_schema)]),
      (''required'', JArr [JStr ''participant_id'', JStr ''auth'']), (''additionalProperties'', JBool False)]),
    (''outputSchema'', execution_audit_sweep_envelope_schema),
    (''annotations'', json_object [
      (''readOnlyHint'', JBool True), (''destructiveHint'', JBool False), (''idempotentHint'', JBool True),
      (''openWorldHint'', JBool False)])]"

definition authorization_policy_integrity_tool :: json where
  "authorization_policy_integrity_tool = json_object [
    (''name'', JStr ''blackboard_authorization_policy_integrity''),
    (''title'', JStr ''Verify Blackboard Authorization Policy Integrity''),
    (''description'',
      JStr ''Run the privileged canonical read-only integrity audit over durable and delegated authorization policy objects without repairing policy state.''),
    (''inputSchema'', json_object [
      (''type'', JStr ''object''),
      (''properties'', json_object [(''participant_id'', participant_id_schema), (''auth'', auth_schema)]),
      (''required'', JArr [JStr ''participant_id'', JStr ''auth'']), (''additionalProperties'', JBool False)]),
    (''outputSchema'', authorization_integrity_envelope_schema),
    (''annotations'', json_object [
      (''readOnlyHint'', JBool True), (''destructiveHint'', JBool False), (''idempotentHint'', JBool True),
      (''openWorldHint'', JBool False)])]"

definition authorization_policy_tool :: json where
  "authorization_policy_tool = json_object [
    (''name'', JStr ''blackboard_authorization_policy''),
    (''title'', JStr ''Read Blackboard Authorization Policy Window''),
    (''description'',
      JStr ''Read one bounded selected-store window of explicit Blackboard authorization objects without modifying, normalizing, repairing, or consuming authority.''),
    (''inputSchema'', json_object [
      (''type'', JStr ''object''),
      (''properties'', json_object [
        (''participant_id'', participant_id_schema),
        (''store'', json_object [
          (''type'', JStr ''string''), (''enum'', JArr [JStr ''durable'', JStr ''delegated''])]),
        (''before'', json_object [
          (''anyOf'', JArr [
            json_object [(''type'', JStr ''integer''), (''minimum'', JInt 1)],
            json_object [(''type'', JStr ''null'')]])]),
        (''after'', json_object [
          (''anyOf'', JArr [
            json_object [(''type'', JStr ''integer''), (''minimum'', JInt 1)],
            json_object [(''type'', JStr ''null'')]])]),
        (''limit'', json_object [
          (''type'', JStr ''integer''), (''minimum'', JInt 1),
          (''maximum'', JInt (int MAX_AUTHORIZATION_POLICY_WINDOW_SIZE)),
          (''default'', JInt (int DEFAULT_AUTHORIZATION_POLICY_WINDOW_SIZE))]),
        (''order'', json_object [
          (''type'', JStr ''string''), (''enum'', JArr [JStr ''desc'', JStr ''asc'']), (''default'', JStr ''desc'')]),
        (''auth'', auth_schema)]),
      (''required'', JArr [JStr ''participant_id'', JStr ''store'', JStr ''auth'']),
      (''additionalProperties'', JBool False)]),
    (''outputSchema'', authorization_policy_envelope_schema),
    (''annotations'', json_object [
      (''readOnlyHint'', JBool True), (''destructiveHint'', JBool False), (''idempotentHint'', JBool True),
      (''openWorldHint'', JBool False)])]"

definition authorization_administration_history_tool :: json where
  "authorization_administration_history_tool = json_object [
    (''name'', JStr ''blackboard_authorization_administration_history''),
    (''title'', JStr ''Read Blackboard Authorization Administration History''),
    (''description'',
      JStr ''Read immutable privileged authorization-administration provenance without modifying, repairing, or re-evaluating policy. Optional filter_participant_id only filters returned history and does not scope reader authority.''),
    (''inputSchema'', json_object [
      (''type'', JStr ''object''),
      (''properties'', json_object [
        (''participant_id'', participant_id_schema),
        (''filter_participant_id'', json_object [
          (''anyOf'', JArr [participant_id_schema, json_object [(''type'', JStr ''null'')]])]),
        (''before'', json_object [
          (''anyOf'', JArr [
            json_object [(''type'', JStr ''integer''), (''minimum'', JInt 1)],
            json_object [(''type'', JStr ''null'')]])]),
        (''after'', json_object [
          (''anyOf'', JArr [
            json_object [(''type'', JStr ''integer''), (''minimum'', JInt 1)],
            json_object [(''type'', JStr ''null'')]])]),
        (''limit'', json_object [
          (''type'', JStr ''integer''), (''minimum'', JInt 1),
          (''maximum'', JInt (int MAX_ADMINISTRATION_HISTORY_WINDOW_SIZE)),
          (''default'', JInt (int DEFAULT_ADMINISTRATION_HISTORY_WINDOW_SIZE))]),
        (''order'', json_object [
          (''type'', JStr ''string''), (''enum'', JArr [JStr ''desc'', JStr ''asc'']), (''default'', JStr ''desc'')]),
        (''auth'', auth_schema)]),
      (''required'', JArr [JStr ''participant_id'', JStr ''auth'']), (''additionalProperties'', JBool False)]),
    (''outputSchema'', authorization_administration_history_envelope_schema),
    (''annotations'', json_object [
      (''readOnlyHint'', JBool True), (''destructiveHint'', JBool False), (''idempotentHint'', JBool True),
      (''openWorldHint'', JBool False)])]"

definition authorization_decision_tool :: json where
  "authorization_decision_tool = json_object [
    (''name'', JStr ''blackboard_authorization_decision''),
    (''title'', JStr ''Explain Blackboard Authorization Decision''),
    (''description'',
      JStr ''Explain one target authorization decision using the canonical read-only policy evaluator. Caller authority is separate from the target principal. Participant-HMAC auth for this tool is bound to the complete target decision query.''),
    (''inputSchema'', json_object [
      (''type'', JStr ''object''),
      (''properties'', json_object [
        (''participant_id'', participant_id_schema), (''auth'', auth_schema),
        (''principal_provider'', json_object [
          (''type'', JStr ''string''), (''minLength'', JInt 1), (''maxLength'', JInt 256)]),
        (''principal_subject'', json_object [
          (''type'', JStr ''string''), (''minLength'', JInt 1), (''maxLength'', JInt 256)]),
        (''target_participant_id'', participant_id_schema),
        (''capability'', json_object [
          (''type'', JStr ''string''), (''minLength'', JInt 1), (''maxLength'', JInt 128)]),
        (''resource'', json_object [
          (''anyOf'', JArr [
            json_object [(''type'', JStr ''string''), (''minLength'', JInt 1), (''maxLength'', JInt 256)],
            json_object [(''type'', JStr ''null'')]])]),
        (''intent_id'', json_object [(''anyOf'', JArr [intent_id_schema, json_object [(''type'', JStr ''null'')]])])]),
      (''required'', JArr [
        JStr ''participant_id'', JStr ''auth'', JStr ''principal_provider'', JStr ''principal_subject'',
        JStr ''target_participant_id'', JStr ''capability'']),
      (''additionalProperties'', JBool False)]),
    (''outputSchema'', authorization_decision_envelope_schema),
    (''annotations'', json_object [
      (''readOnlyHint'', JBool True), (''destructiveHint'', JBool False), (''idempotentHint'', JBool True),
      (''openWorldHint'', JBool False)])]"

definition tools_list_result :: json where
  "tools_list_result = json_object [(''tools'', JArr
    [read_tool, write_tool, access_context_tool, execution_receipt_tool, execution_audit_tool,
     execution_audit_integrity_tool, execution_audit_sweep_tool, authorization_policy_integrity_tool,
     authorization_policy_tool, authorization_administration_history_tool, authorization_decision_tool])]"


end
