(* ===== verification/Mcp.thy ===== *)
theory Mcp
  imports Contract_Schema
begin

text \<open>
  The MCP protocol (\<open>mcp.rs\<close>): JSON-RPC messages over HTTP and over the standard streams, in the legacy protocol
  versions and in the modern one, around the tools of the theory \<open>Mcp_Tools\<close>.

  The record \<open>mcp_library\<close> holds the third-party functions: the standard base64 alphabet and the URL parser, which
  yields scheme and host.  A Rust panic is a value here: \<open>Panics\<close> is what a handler ends in when it slices out of
  bounds or unwraps nothing.
\<close>

section \<open>Values and responses\<close>

datatype 'a panicking = Panics | Returns 'a

record mcp_library =
  base64_standard :: "string \<Rightarrow> bytes option"
  url_parse :: "string \<Rightarrow> (string \<times> string option) option"

record protected_resource_config =
  pr_resource :: string
  pr_metadata_path :: string
  pr_metadata_url :: string

record mcp_http_state =
  ms_oidc_verifier :: "oidc_verifier option"
  ms_protected_resource :: "protected_resource_config option"

text \<open>Status, \<open>WWW-Authenticate\<close> challenge, body.\<close>

record mcp_response =
  mp_status :: nat
  mp_challenge :: "string option"
  mp_body :: "json option"

definition MAX_MCP_REQUEST_BYTES :: nat where "MAX_MCP_REQUEST_BYTES = 128 * 1024"

definition MODERN_PROTOCOL_VERSION :: string where "MODERN_PROTOCOL_VERSION = ''2026-07-28''"

definition LATEST_LEGACY_PROTOCOL_VERSION :: string where "LATEST_LEGACY_PROTOCOL_VERSION = ''2025-11-25''"

definition SUPPORTED_LEGACY_PROTOCOL_VERSIONS :: "string list" where
  "SUPPORTED_LEGACY_PROTOCOL_VERSIONS = [''2025-03-26'', ''2025-06-18'', ''2025-11-25'']"

definition SUPPORTED_PROTOCOL_VERSIONS :: "string list" where
  "SUPPORTED_PROTOCOL_VERSIONS = [''2026-07-28'', ''2025-11-25'', ''2025-06-18'', ''2025-03-26'']"

definition CARGO_PKG_VERSION :: string where "CARGO_PKG_VERSION = ''0.1.0''"

definition plain_status :: "nat \<Rightarrow> mcp_response" where
  "plain_status status = \<lparr>mp_status = status, mp_challenge = None, mp_body = None\<rparr>"

definition accepted :: mcp_response where "accepted = plain_status 202"

definition mcp_json_response :: "nat \<Rightarrow> json \<Rightarrow> mcp_response" where
  "mcp_json_response status v = \<lparr>mp_status = status, mp_challenge = None, mp_body = Some v\<rparr>"

definition jsonrpc_result :: "json \<Rightarrow> json \<Rightarrow> json" where
  "jsonrpc_result i result_value =
     json_object [(''jsonrpc'', JStr ''2.0''), (''id'', i), (''result'', result_value)]"

definition jsonrpc_error :: "json \<Rightarrow> int \<Rightarrow> string \<Rightarrow> json" where
  "jsonrpc_error i code text =
     json_object [(''jsonrpc'', JStr ''2.0''), (''id'', i),
       (''error'', json_object [(''code'', JInt code), (''message'', JStr text)])]"

definition jsonrpc_http_error :: "nat \<Rightarrow> json \<Rightarrow> int \<Rightarrow> string \<Rightarrow> mcp_response" where
  "jsonrpc_http_error status i code text = mcp_json_response status (jsonrpc_error i code text)"

definition jsonrpc_error_response :: "json \<Rightarrow> int \<Rightarrow> string \<Rightarrow> mcp_response" where
  "jsonrpc_error_response i code text = mcp_json_response 200 (jsonrpc_error i code text)"

definition jsonrpc_result_response :: "json \<Rightarrow> json \<Rightarrow> mcp_response" where
  "jsonrpc_result_response i result_value = mcp_json_response 200 (jsonrpc_result i result_value)"

definition unsupported_protocol_version_response :: "json \<Rightarrow> string \<Rightarrow> mcp_response" where
  "unsupported_protocol_version_response i requested =
     mcp_json_response 400 (json_object [(''jsonrpc'', JStr ''2.0''), (''id'', i),
       (''error'', json_object [(''code'', JInt (- 32022)), (''message'', JStr ''unsupported_protocol_version''),
         (''data'', json_object [(''supported'', JArr (map JStr SUPPORTED_PROTOCOL_VERSIONS)),
            (''requested'', JStr requested)])])])"

definition bearer_unauthorized :: "json \<Rightarrow> protected_resource_config option \<Rightarrow> mcp_response" where
  "bearer_unauthorized i resource =
     (jsonrpc_http_error 401 i (- 32001) ''unauthorized'')\<lparr>mp_challenge := Some
        (case resource of
           Some r \<Rightarrow> ''Bearer resource_metadata='' @ [CHR 0x22] @ pr_metadata_url r @ [CHR 0x22]
         | None \<Rightarrow> ''Bearer'')\<rparr>"

section \<open>Origins and bearer tokens\<close>

definition to_ascii_lowercase :: "char \<Rightarrow> char" where
  "to_ascii_lowercase c = (if CHR ''A'' \<le> c \<and> c \<le> CHR ''Z'' then char_of ((of_char c :: nat) + 32) else c)"

definition ends_with :: "string \<Rightarrow> string \<Rightarrow> bool" where
  "ends_with s suffix_text = suffix suffix_text s"

definition origin_allowed :: "mcp_library \<Rightarrow> header_map \<Rightarrow> bool" where
  "origin_allowed lib headers =
     (case map_of headers ''origin'' of
        None \<Rightarrow> True
      | Some v \<Rightarrow>
          (case Option.bind (header_to_str v) (url_parse lib) of
             None \<Rightarrow> False
           | Some (scheme, host_text) \<Rightarrow>
               (case host_text of
                  None \<Rightarrow> False
                | Some h \<Rightarrow>
                    let host = map to_ascii_lowercase h
                    in if host = ''localhost'' \<or> host = ''127.0.0.1'' \<or> host = ''::1''
                       then scheme = ''http'' \<or> scheme = ''https''
                       else if scheme \<noteq> ''https'' then False
                       else host = ''chatgpt.com'' \<or> ends_with host ''.chatgpt.com'' \<or> host = ''openai.com'' \<or>
                            ends_with host ''.openai.com'')))"

text \<open>No header is no principal; a header that does not hold a token the verifier accepts is an error.\<close>

definition resolve_http_bearer_principal ::
    "jwt_library \<Rightarrow> mcp_http_state \<Rightarrow> header_map \<Rightarrow> unit + principal option" where
  "resolve_http_bearer_principal jwt state headers =
     (case map_of headers AUTHORIZATION_HEADER of
        None \<Rightarrow> Inr None
      | Some v \<Rightarrow>
          (case Option.bind (header_to_str v) split_once_space of
             None \<Rightarrow> Inl ()
           | Some (scheme, token) \<Rightarrow>
               if \<not> eq_ignore_ascii_case scheme ''bearer'' \<or> token = [] then Inl ()
               else (case Option.bind (ms_oidc_verifier state) (\<lambda>v. verify_token jwt v token) of
                       None \<Rightarrow> Inl ()
                     | Some c \<Rightarrow> Inr (Some c))))"

text \<open>Whether a call without a bearer token is answered with a challenge before the tool sees it.\<close>

definition http_tool_call_requires_auth :: "board \<Rightarrow> json_map \<Rightarrow> bool" where
  "http_tool_call_requires_auth db request =
     (if Option.bind (map_of request ''method'') as_str \<noteq> Some ''tools/call'' then False
      else (case Option.bind (map_of request ''params'') as_object of
        None \<Rightarrow> False
      | Some params \<Rightarrow>
     (case Option.bind (map_of params ''name'') as_str of
        None \<Rightarrow> False
      | Some name \<Rightarrow>
     (case (case map_of params ''arguments'' of
              None \<Rightarrow> Some None | Some (JObj arguments) \<Rightarrow> Some (Some arguments) | Some _ \<Rightarrow> None) of
        None \<Rightarrow> False
      | Some arguments \<Rightarrow>
          if (case arguments of Some a \<Rightarrow> map_of a ''auth'' \<noteq> None | None \<Rightarrow> False) then False
          else if name \<in> {''blackboard_write'', ''blackboard_access_context'', ''blackboard_execution_receipt'',
            ''blackboard_execution_audit'', ''blackboard_execution_audit_integrity'', ''blackboard_execution_audit_sweep'',
            ''blackboard_authorization_policy_integrity'', ''blackboard_authorization_policy'',
            ''blackboard_authorization_decision'', ''blackboard_authorization_administration_history''} then True
          else if name = ''blackboard_read'' then
            (case arguments of
               None \<Rightarrow> False
             | Some a \<Rightarrow>
                 if map_of a ''participant_id'' \<noteq> None then True
                 else (case Option.bind (map_of a ''channel'') as_str of
                         None \<Rightarrow> False
                       | Some channel \<Rightarrow> if \<not> name_re channel then False else \<not> channel_is_public_active db channel))
          else False))))"

section \<open>Protocol metadata\<close>

definition request_meta :: "json_map \<Rightarrow> json_map option" where
  "request_meta request =
     Option.bind (Option.bind (map_of request ''params'') as_object) (\<lambda>params.
       Option.bind (map_of params ''_meta'') as_object)"

definition request_protocol_version :: "json_map \<Rightarrow> string option" where
  "request_protocol_version request =
     Option.bind (request_meta request) (\<lambda>meta.
       Option.bind (map_of meta ''io.modelcontextprotocol/protocolVersion'') as_str)"

text \<open>What both validations ask of the client's description of itself.\<close>

definition client_metadata_valid :: "json_map \<Rightarrow> bool" where
  "client_metadata_valid meta =
     ((case map_of meta ''io.modelcontextprotocol/clientInfo'' of
         None \<Rightarrow> True
       | Some v \<Rightarrow>
           (case as_object v of
              None \<Rightarrow> False
            | Some info \<Rightarrow> text_field info ''name'' (\<lambda>v. v \<noteq> []) \<noteq> None \<and> text_field info ''version'' (\<lambda>v. v \<noteq> []) \<noteq> None)) \<and>
      Option.bind (map_of meta ''io.modelcontextprotocol/clientCapabilities'') as_object \<noteq> None)"

definition validate_modern_request_metadata :: "json_map \<Rightarrow> string + unit" where
  "validate_modern_request_metadata request =
     (case request_meta request of
        None \<Rightarrow> Inl ''invalid_request_metadata''
      | Some meta \<Rightarrow>
          (case Option.bind (map_of meta ''io.modelcontextprotocol/protocolVersion'') as_str of
             None \<Rightarrow> Inl ''invalid_request_metadata''
           | Some protocol \<Rightarrow>
               if protocol \<noteq> MODERN_PROTOCOL_VERSION then Inl ''unsupported_protocol_version''
               else if \<not> client_metadata_valid meta then Inl ''invalid_request_metadata'' else Inr ()))"

section \<open>The encoded tool name\<close>

text \<open>\<open>String::from_utf8\<close> accepts exactly the well-formed UTF-8 byte sequences.\<close>

definition continuation :: "8 word \<Rightarrow> bool" where
  "continuation b \<longleftrightarrow> 0x80 \<le> b \<and> b \<le> 0xBF"

definition second_byte_ok :: "8 word \<Rightarrow> 8 word \<Rightarrow> bool" where
  "second_byte_ok b c \<longleftrightarrow>
     (if b = 0xE0 then 0xA0 \<le> c \<and> c \<le> 0xBF
      else if b = 0xED then 0x80 \<le> c \<and> c \<le> 0x9F
      else if b = 0xF0 then 0x90 \<le> c \<and> c \<le> 0xBF
      else if b = 0xF4 then 0x80 \<le> c \<and> c \<le> 0x8F
      else continuation c)"

definition utf8_width :: "8 word \<Rightarrow> nat" where
  "utf8_width b =
     (if b \<le> 0x7F then 1 else if 0xC2 \<le> b \<and> b \<le> 0xDF then 2 else if 0xE0 \<le> b \<and> b \<le> 0xEF then 3
      else if 0xF0 \<le> b \<and> b \<le> 0xF4 then 4 else 0)"

fun utf8_valid :: "bytes \<Rightarrow> bool" where
  "utf8_valid [] \<longleftrightarrow> True"
| "utf8_valid (b # bs) \<longleftrightarrow>
     (case utf8_width b of
        0 \<Rightarrow> False
      | Suc n \<Rightarrow>
          length (take n bs) = n \<and> (case take n bs of [] \<Rightarrow> True | c # cs \<Rightarrow> second_byte_ok b c \<and> list_all continuation cs) \<and>
          utf8_valid (drop n bs))"

definition HEADER_PREFIX :: string where "HEADER_PREFIX = ''=?base64?''"

text \<open>A header value in the form \<open>=?base64?...?=\<close> is decoded, any other must be printable ASCII without blanks at its
  ends.  The slice between prefix and suffix panics when they overlap.\<close>

definition decode_mcp_header_value :: "mcp_library \<Rightarrow> string \<Rightarrow> string option panicking" where
  "decode_mcp_header_value lib value =
     (if prefix HEADER_PREFIX value \<and> ends_with value ''?='' then
        (if length value - 2 < length HEADER_PREFIX then Panics
         else Returns
           (case base64_standard lib (take (length value - 2 - length HEADER_PREFIX) (drop (length HEADER_PREFIX) value)) of
              None \<Rightarrow> None
            | Some decoded \<Rightarrow> if utf8_valid decoded then Some (text_of_bytes decoded) else None))
      else if value = [] \<or> trim value \<noteq> value \<or>
              \<not> list_all (\<lambda>c. c = CHR 0x09 \<or> c = CHR '' '' \<or> (CHR 0x21 \<le> c \<and> c \<le> CHR 0x7E)) value
      then Returns None else Returns (Some value))"

definition mcp_header :: "header_map \<Rightarrow> string \<Rightarrow> string option" where
  "mcp_header headers name = Option.bind (map_of headers name) header_to_str"

definition request_tool_name :: "json_map \<Rightarrow> string option" where
  "request_tool_name request =
     Option.bind (Option.bind (map_of request ''params'') as_object) (\<lambda>params. Option.bind (map_of params ''name'') as_str)"

text \<open>\<open>Ok\<close> and \<open>Err\<close> of the agreement of the headers with the body.\<close>

definition tool_name_agrees :: "mcp_library \<Rightarrow> header_map \<Rightarrow> json_map \<Rightarrow> bool panicking" where
  "tool_name_agrees lib headers request =
     (case request_tool_name request of
        None \<Rightarrow> Returns False
      | Some body_name \<Rightarrow>
          (case mcp_header headers ''mcp-name'' of
             None \<Rightarrow> Returns False
           | Some v \<Rightarrow>
               (case decode_mcp_header_value lib v of
                  Panics \<Rightarrow> Panics
                | Returns name \<Rightarrow> Returns (name = Some body_name))))"

definition validate_modern_http_metadata ::
    "mcp_library \<Rightarrow> header_map \<Rightarrow> json_map \<Rightarrow> string \<Rightarrow> (string + unit) panicking" where
  "validate_modern_http_metadata lib headers request rpc_method =
     (let mismatch = Inl ''header_mismatch'' in
      case (request_protocol_version request, mcp_header headers ''mcp-protocol-version'',
            mcp_header headers ''mcp-method'') of
        (Some body_protocol, Some header_protocol, header_method) \<Rightarrow>
          if header_protocol \<noteq> body_protocol \<or> header_method \<noteq> Some rpc_method then Returns mismatch
          else (case (if rpc_method = ''tools/call'' then tool_name_agrees lib headers request else Returns True) of
                  Panics \<Rightarrow> Panics
                | Returns agrees \<Rightarrow>
                    if agrees \<and> (case request_meta request of None \<Rightarrow> False | Some meta \<Rightarrow> client_metadata_valid meta)
                    then Returns (Inr ()) else Returns mismatch)
      | _ \<Rightarrow> Returns mismatch)"

section \<open>Static results\<close>

definition server_name :: json where "server_name = JStr ''conversation-blackboard''"

definition initialize_result :: "json_map \<Rightarrow> string + json" where
  "initialize_result request =
     (case Option.bind (map_of request ''params'') as_object of
        None \<Rightarrow> Inl ''invalid_initialize_params''
      | Some params \<Rightarrow>
          (case Option.bind (map_of params ''protocolVersion'') as_str of
             None \<Rightarrow> Inl ''invalid_protocol_version''
           | Some requested \<Rightarrow> Inr (json_object
               [(''protocolVersion'', JStr (if requested \<in> set SUPPORTED_LEGACY_PROTOCOL_VERSIONS then requested
                   else LATEST_LEGACY_PROTOCOL_VERSION)),
                (''capabilities'', json_object [(''tools'', json_object [(''listChanged'', JBool False)])]),
                (''serverInfo'', json_object [(''name'', server_name), (''title'', JStr ''Conversation Blackboard''),
                   (''version'', JStr CARGO_PKG_VERSION)]),
                (''instructions'', JStr ''MCP is an adapter over Blackboard domain semantics. Use blackboard_read / blackboard_write for messages, blackboard_access_context for effective grants, blackboard_execution_receipt for semantic execution read-back, blackboard_execution_audit for immutable historical audit, and blackboard_execution_audit_integrity for structural audit verification. Use blackboard_execution_audit_sweep only with privileged corpus-wide audit authority, and blackboard_authorization_policy_integrity only with privileged global policy-integrity authority. Authenticated calls use hmac-sha256-v1 proofs bound to the canonical request.'')])))"

definition server_info :: json where
  "server_info = json_object [(''name'', server_name), (''version'', JStr CARGO_PKG_VERSION)]"

definition discover_result :: json where
  "discover_result = json_object
     [(''resultType'', JStr ''complete''), (''supportedVersions'', JArr (map JStr SUPPORTED_PROTOCOL_VERSIONS)),
      (''capabilities'', json_object [(''tools'', json_object [(''listChanged'', JBool False)])]),
      (''_meta'', json_object [(''io.modelcontextprotocol/serverInfo'', server_info)]),
      (''instructions'', JStr ''Conversation Blackboard exposes MCP as a protocol projection. Blackboard remains authoritative for identity, authorization, semantic execution, durable attribution, and audit.''),
      (''ttlMs'', JInt 300000), (''cacheScope'', JStr ''public'')]"

definition modern_result :: "string \<Rightarrow> json \<Rightarrow> json" where
  "modern_result rpc_method v =
     (case v of
        JObj entries \<Rightarrow>
          let entries = btree_insert ''resultType'' (JStr ''complete'') entries;
              meta = (case map_of entries ''_meta'' of
                  None \<Rightarrow> JObj [(''io.modelcontextprotocol/serverInfo'', server_info)]
                | Some (JObj entries) \<Rightarrow> JObj (btree_insert ''io.modelcontextprotocol/serverInfo'' server_info entries)
                | Some other \<Rightarrow> other);
              entries = btree_insert ''_meta'' meta entries
          in JObj (if rpc_method = ''tools/list''
                   then btree_insert ''cacheScope'' (JStr ''public'') (btree_insert ''ttlMs'' (JInt 300000) entries)
                   else entries)
      | _ \<Rightarrow> v)"

text \<open>\<open>get_mut\<close> of a key, and the change of what it holds.\<close>

definition update_key :: "string \<Rightarrow> (json \<Rightarrow> json) \<Rightarrow> json \<Rightarrow> json" where
  "update_key k f v =
     (case v of JObj entries \<Rightarrow> JObj (map (\<lambda>(k', w). (k', if k' = k then f w else w)) entries) | _ \<Rightarrow> v)"

definition auth_not_required :: "json \<Rightarrow> json" where
  "auth_not_required v =
     (case v of JArr entries \<Rightarrow> JArr (filter (\<lambda>field. as_str field \<noteq> Some ''auth'') entries) | _ \<Rightarrow> v)"

definition bearer_capable_tool :: "json \<Rightarrow> json" where
  "bearer_capable_tool =
     update_key ''inputSchema''
       (update_key ''properties'' (update_key ''auth'' (\<lambda>v. case v of
           JObj entries \<Rightarrow> JObj (btree_insert ''description'' (JStr ''Participant-HMAC fallback credential. Omit when this remote HTTP request is authenticated with a verified Authorization: Bearer token.'') entries)
         | _ \<Rightarrow> v)) \<circ>
        update_key ''required'' auth_not_required) \<circ>
     update_key ''description'' (\<lambda>v. case v of
         JStr text \<Rightarrow> JStr (text @ '' Remote HTTP callers may alternatively authenticate with Authorization: Bearer; participant-HMAC auth is required only when no verified Bearer principal is present.'')
       | _ \<Rightarrow> v)"

definition tools_list_result_for_modern_http :: "bool \<Rightarrow> json" where
  "tools_list_result_for_modern_http bearer_capable =
     (if \<not> bearer_capable then tools_list_result
      else update_key ''tools'' (\<lambda>v. case v of JArr tools \<Rightarrow> JArr (map bearer_capable_tool tools) | _ \<Rightarrow> v) tools_list_result)"

section \<open>The HTTP endpoint\<close>

definition has_key :: "json_map \<Rightarrow> string \<Rightarrow> bool" where
  "has_key request k = (map_of request k \<noteq> None)"

definition request_id :: "json_map \<Rightarrow> json" where
  "request_id request = (case map_of request ''id'' of Some i \<Rightarrow> i | None \<Rightarrow> JNull)"

definition modern_request ::
    "externals \<Rightarrow> (tool_answer \<Rightarrow> json) \<Rightarrow> mcp_http_state \<Rightarrow> int \<Rightarrow> json_map \<Rightarrow> string \<Rightarrow> principal option \<Rightarrow> board
     \<Rightarrow> mcp_response \<times> board" where
  "modern_request ext render state now request rpc_method transport db =
     (let i = request_id request in
      if \<not> has_key request ''id'' then (accepted, db)
      else if rpc_method = ''server/discover'' then (jsonrpc_result_response i discover_result, db)
      else if rpc_method = ''tools/list'' then
        (jsonrpc_result_response i (modern_result rpc_method
           (tools_list_result_for_modern_http (ms_oidc_verifier state \<noteq> None))), db)
      else if rpc_method = ''tools/call'' then
        (case tool_call_result ext render now request transport db of
           (Inl code, db') \<Rightarrow> (jsonrpc_error_response i (- 32602) code, db')
         | (Inr r, db') \<Rightarrow> (jsonrpc_result_response i (modern_result rpc_method r), db'))
      else (jsonrpc_http_error 404 i (- 32601) ''method_not_found'', db))"

definition legacy_method ::
    "externals \<Rightarrow> (tool_answer \<Rightarrow> json) \<Rightarrow> int \<Rightarrow> json_map \<Rightarrow> string \<Rightarrow> principal option \<Rightarrow> board
     \<Rightarrow> mcp_response \<times> board" where
  "legacy_method ext render now request rpc_method transport db =
     (let i = request_id request in
      if \<not> has_key request ''id'' then (accepted, db)
      else if rpc_method = ''initialize'' then
        (case initialize_result request of
           Inl code \<Rightarrow> (jsonrpc_error_response i (- 32602) code, db)
         | Inr r \<Rightarrow> (jsonrpc_result_response i r, db))
      else if rpc_method = ''ping'' then (jsonrpc_result_response i (json_object []), db)
      else if rpc_method = ''tools/list'' then (jsonrpc_result_response i tools_list_result, db)
      else if rpc_method = ''tools/call'' then
        (case tool_call_result ext render now request transport db of
           (Inl code, db') \<Rightarrow> (jsonrpc_error_response i (- 32602) code, db')
         | (Inr r, db') \<Rightarrow> (jsonrpc_result_response i r, db'))
      else (jsonrpc_error_response i (- 32601) ''method_not_found'', db))"

definition legacy_request ::
    "externals \<Rightarrow> (tool_answer \<Rightarrow> json) \<Rightarrow> int \<Rightarrow> header_map \<Rightarrow> json_map \<Rightarrow> string \<Rightarrow> principal option \<Rightarrow> board
     \<Rightarrow> mcp_response \<times> board" where
  "legacy_request ext render now headers request rpc_method transport db =
     (let i = request_id request in
      case mcp_header headers ''mcp-protocol-version'' of
        Some version \<Rightarrow>
          if version \<notin> set SUPPORTED_LEGACY_PROTOCOL_VERSIONS
          then (unsupported_protocol_version_response i version, db)
          else legacy_method ext render now request rpc_method transport db
      | None \<Rightarrow> legacy_method ext render now request rpc_method transport db)"

text \<open>The method of a JSON-RPC message; a message without one is a response, which is accepted, or invalid.\<close>

definition mcp_method ::
    "externals \<Rightarrow> mcp_library \<Rightarrow> (tool_answer \<Rightarrow> json) \<Rightarrow> mcp_http_state \<Rightarrow> int \<Rightarrow> header_map \<Rightarrow> json_map \<Rightarrow> string
     \<Rightarrow> principal option \<Rightarrow> board \<Rightarrow> mcp_response panicking \<times> board" where
  "mcp_method ext lib render state now headers request rpc_method transport db =
     (let i = request_id request;
          body_protocol = request_protocol_version request;
          header_protocol = mcp_header headers ''mcp-protocol-version''
      in if body_protocol \<noteq> None \<or> header_protocol = Some MODERN_PROTOCOL_VERSION \<or> rpc_method = ''server/discover''
         then (case validate_modern_http_metadata lib headers request rpc_method of
             Panics \<Rightarrow> (Panics, db)
           | Returns (Inl text) \<Rightarrow> (Returns (jsonrpc_http_error 400 i (- 32020) text), db)
           | Returns (Inr _) \<Rightarrow>
               (case body_protocol of
                  None \<Rightarrow> (Panics, db)
                | Some requested \<Rightarrow>
                    if requested \<noteq> MODERN_PROTOCOL_VERSION
                    then (Returns (unsupported_protocol_version_response i requested), db)
                    else map_prod Returns id (modern_request ext render state now request rpc_method transport db)))
         else map_prod Returns id (legacy_request ext render now headers request rpc_method transport db))"

definition mcp_message ::
    "externals \<Rightarrow> mcp_library \<Rightarrow> jwt_library \<Rightarrow> (tool_answer \<Rightarrow> json) \<Rightarrow> mcp_http_state \<Rightarrow> int \<Rightarrow> header_map \<Rightarrow> json_map
     \<Rightarrow> board \<Rightarrow> mcp_response panicking \<times> board" where
  "mcp_message ext lib jwt render state now headers request db =
     (let i = request_id request in
      if Option.bind (map_of request ''jsonrpc'') as_str \<noteq> Some ''2.0''
      then (Returns (jsonrpc_http_error 400 i (- 32600) ''invalid_request''), db)
      else (case Option.bind (map_of request ''method'') as_str of
        None \<Rightarrow>
          (if has_key request ''result'' \<or> has_key request ''error'' then Returns accepted
           else Returns (jsonrpc_http_error 400 i (- 32600) ''invalid_request''), db)
      | Some rpc_method \<Rightarrow>
          (case resolve_http_bearer_principal jwt state headers of
             Inl _ \<Rightarrow> (Returns (bearer_unauthorized i (ms_protected_resource state)), db)
           | Inr transport \<Rightarrow>
               if ms_oidc_verifier state \<noteq> None \<and> transport = None \<and> http_tool_call_requires_auth db request
               then (Returns (bearer_unauthorized i (ms_protected_resource state)), db)
               else mcp_method ext lib render state now headers request rpc_method transport db)))"

definition mcp_post ::
    "externals \<Rightarrow> mcp_library \<Rightarrow> jwt_library \<Rightarrow> (tool_answer \<Rightarrow> json) \<Rightarrow> mcp_http_state \<Rightarrow> int \<Rightarrow> header_map \<Rightarrow> bytes
     \<Rightarrow> board \<Rightarrow> mcp_response panicking \<times> board" where
  "mcp_post ext lib jwt render state now headers body db =
     (if \<not> origin_allowed lib headers
      then (Returns (jsonrpc_http_error 403 JNull (- 32600) ''origin_not_allowed''), db)
      else if MAX_MCP_REQUEST_BYTES < length body
      then (Returns (jsonrpc_http_error 413 JNull (- 32600) ''request_too_large''), db)
      else (case json_from_slice ext body of
        None \<Rightarrow> (Returns (jsonrpc_http_error 400 JNull (- 32700) ''parse_error''), db)
      | Some v \<Rightarrow>
          (case as_object v of
             None \<Rightarrow> (Returns (jsonrpc_http_error 400 JNull (- 32600) ''invalid_request''), db)
           | Some request \<Rightarrow> mcp_message ext lib jwt render state now headers request db)))"

text \<open>The other methods of the endpoint.\<close>

definition mcp_get :: "mcp_library \<Rightarrow> header_map \<Rightarrow> mcp_response" where
  "mcp_get lib headers = plain_status (if origin_allowed lib headers then 405 else 403)"

definition mcp_options :: "mcp_library \<Rightarrow> header_map \<Rightarrow> mcp_response" where
  "mcp_options lib headers = plain_status (if origin_allowed lib headers then 204 else 403)"

definition protected_resource_metadata :: "mcp_http_state \<Rightarrow> mcp_response" where
  "protected_resource_metadata state =
     (case (ms_protected_resource state, ms_oidc_verifier state) of
        (Some resource, Some verifier) \<Rightarrow> mcp_json_response 200 (json_object
          [(''resource'', JStr (pr_resource resource)), (''authorization_servers'', JArr [JStr (ov_issuer verifier)]),
           (''bearer_methods_supported'', JArr [JStr ''header''])])
      | _ \<Rightarrow> plain_status 404)"

section \<open>The standard streams\<close>

definition stdio_dispatch ::
    "externals \<Rightarrow> (tool_answer \<Rightarrow> json) \<Rightarrow> int \<Rightarrow> json \<Rightarrow> board \<Rightarrow> json option \<times> board" where
  "stdio_dispatch ext render now v db =
     (case as_object v of
        None \<Rightarrow> (Some (jsonrpc_error JNull (- 32600) ''invalid_request''), db)
      | Some request \<Rightarrow>
          let i = request_id request;
              answer = (\<lambda>r. Some (case r of Inr v \<Rightarrow> jsonrpc_result i v | Inl (code, text) \<Rightarrow> jsonrpc_error i code text));
              checked = (\<lambda>r. answer (case r of Inl text \<Rightarrow> Inl (- 32602, text) | Inr v \<Rightarrow> Inr v))
          in if Option.bind (map_of request ''jsonrpc'') as_str \<noteq> Some ''2.0''
             then (Some (jsonrpc_error i (- 32600) ''invalid_request''), db)
             else (case Option.bind (map_of request ''method'') as_str of
               None \<Rightarrow>
                 (if has_key request ''result'' \<or> has_key request ''error'' then None
                  else Some (jsonrpc_error i (- 32600) ''invalid_request''), db)
             | Some rpc_method \<Rightarrow>
                 if \<not> has_key request ''id'' then (None, db)
                 else if rpc_method = ''server/discover''
                 then (checked (map_sum id (\<lambda>_. discover_result) (validate_modern_request_metadata request)), db)
                 else if rpc_method = ''initialize'' then (checked (initialize_result request), db)
                 else if rpc_method = ''ping'' then (answer (Inr (json_object [])), db)
                 else if rpc_method = ''tools/list'' then (answer (Inr tools_list_result), db)
                 else if rpc_method = ''tools/call'' then
                   map_prod checked id (tool_call_result ext render now request None db)
                 else (answer (Inl (- 32601, ''method_not_found'')), db)))"

text \<open>One response per line that asks for one, in the order of the lines.  A line comes with the time it is read at.\<close>

fun serve_stdio ::
    "externals \<Rightarrow> (tool_answer \<Rightarrow> json) \<Rightarrow> (int \<times> string) list \<Rightarrow> board \<Rightarrow> json list \<times> board" where
  "serve_stdio ext render [] db = ([], db)"
| "serve_stdio ext render ((now, line) # lines) db =
     (if blank line then serve_stdio ext render lines db
      else case (case json_from_slice ext (as_bytes line) of
          Some v \<Rightarrow> stdio_dispatch ext render now v db
        | None \<Rightarrow> (Some (jsonrpc_error JNull (- 32700) ''parse_error''), db)) of
        (response, db') \<Rightarrow>
          (case serve_stdio ext render lines db' of
             (responses, db'') \<Rightarrow> ((case response of Some r \<Rightarrow> [r] | None \<Rightarrow> []) @ responses, db'')))"

section \<open>Lemmas\<close>

lemma prefix_split: "prefix p v \<Longrightarrow> \<exists>r. v = p @ r"
  by (auto simp: prefix_def)

text \<open>The only header value that panics.\<close>

lemma decode_panics_iff: "decode_mcp_header_value lib v = Panics \<longleftrightarrow> v = ''=?base64?=''"
proof
  assume "decode_mcp_header_value lib v = Panics"
  then have p: "prefix HEADER_PREFIX v" "suffix ''?='' v" "length v - 2 < length HEADER_PREFIX"
    by (auto simp: decode_mcp_header_value_def ends_with_def split: if_splits)
  then obtain r where r: "v = HEADER_PREFIX @ r" using prefix_split by blast
  have l: "length HEADER_PREFIX = 9" by (simp add: HEADER_PREFIX_def)
  have "length v < 11" using p(3) l by simp
  then have "length r \<le> 1" using r l by simp
  then consider "r = []" | c where "r = [c]" by (cases r; cases "tl r") auto
  then show "v = ''=?base64?=''"
  proof cases
    case 1
    then show ?thesis using p(2) r by (simp add: HEADER_PREFIX_def suffix_def)
  next
    case 2
    then show ?thesis using p(2) r by (auto simp: HEADER_PREFIX_def suffix_def)
  qed
next
  assume "v = ''=?base64?=''"
  then show "decode_mcp_header_value lib v = Panics"
    by (simp add: decode_mcp_header_value_def ends_with_def HEADER_PREFIX_def suffix_def)
qed

lemma decode_panics: "decode_mcp_header_value lib ''=?base64?='' = Panics"
  by (simp add: decode_panics_iff)

lemma name_panics_iff:
  "tool_name_agrees lib headers request = Panics \<longleftrightarrow>
     request_tool_name request \<noteq> None \<and> mcp_header headers ''mcp-name'' = Some ''=?base64?=''"
  by (auto simp: tool_name_agrees_def decode_panics_iff decode_panics split: option.splits panicking.splits)

lemma modern_metadata_panics_iff:
  "validate_modern_http_metadata lib headers request rpc_method = Panics \<longleftrightarrow>
     rpc_method = ''tools/call'' \<and> request_protocol_version request \<noteq> None \<and>
     mcp_header headers ''mcp-protocol-version'' = request_protocol_version request \<and>
     mcp_header headers ''mcp-method'' = Some ''tools/call'' \<and>
     request_tool_name request \<noteq> None \<and> mcp_header headers ''mcp-name'' = Some ''=?base64?=''"
proof -
  have p: "tool_name_agrees lib headers request = Panics"
    if "request_tool_name request = Some n" "mcp_header headers ''mcp-name'' = Some ''=?base64?=''" for n
    using that by (simp add: name_panics_iff)
  show ?thesis
    by (auto simp: validate_modern_http_metadata_def name_panics_iff p Let_def split: option.splits panicking.splits if_splits)
qed

lemma modern_metadata_version:
  "validate_modern_http_metadata lib headers request rpc_method = Returns (Inr u) \<Longrightarrow> request_protocol_version request \<noteq> None"
  by (auto simp: validate_modern_http_metadata_def Let_def split: option.splits panicking.splits if_splits)

lemma fst_map_prod_Returns: "fst (map_prod Returns id x) \<noteq> Panics"
  by (cases x) simp

lemma mcp_method_panics_iff:
  "fst (mcp_method ext lib render state now headers request rpc_method transport db) = Panics \<longleftrightarrow>
     validate_modern_http_metadata lib headers request rpc_method = Panics"
proof (cases "request_protocol_version request")
  case None
  then show ?thesis
    using modern_metadata_version [of lib headers request rpc_method] fst_map_prod_Returns
    by (auto simp: mcp_method_def Let_def modern_metadata_panics_iff split: panicking.splits sum.splits)
next
  case (Some v)
  then show ?thesis
    by (auto simp: mcp_method_def Let_def fst_map_prod_Returns split: panicking.splits sum.splits)
qed

text \<open>What a request does to the board: nothing, or the effect of a tool call.\<close>

lemma modern_request_board:
  "snd (modern_request ext render state now request rpc_method transport db) \<in>
     {db, snd (tool_call_result ext render now request transport db)}"
  by (auto simp: modern_request_def Let_def split: prod.splits sum.splits)

lemma legacy_request_board:
  "snd (legacy_request ext render now headers request rpc_method transport db) \<in>
     {db, snd (tool_call_result ext render now request transport db)}"
  by (auto simp: legacy_request_def legacy_method_def Let_def split: prod.splits sum.splits option.splits)

lemma mcp_method_board:
  "snd (mcp_method ext lib render state now headers request rpc_method transport db) \<in>
     {db, snd (tool_call_result ext render now request transport db)}"
  by (simp add: mcp_method_def Let_def modern_request_board legacy_request_board insertI1 del: insert_iff
      split: panicking.split sum.split option.split)

section \<open>Properties\<close>

text \<open>C36: The MCP endpoint panics on exactly one header.  A request to the endpoint ends in a panic if and only if its
  origin is allowed, its body is a JSON-RPC request of a tool call in the modern protocol, whose version and method
  the headers repeat, that passes the bearer check, and the header that repeats the tool name is \<open>=?base64?=\<close>, where
  prefix and suffix of the encoded form overlap.  In particular the \<open>expect\<close> on the protocol version never fails.\<close>

theorem mcp_post_panics_iff:
  "fst (mcp_post ext lib jwt render state now headers body db) = Panics \<longleftrightarrow>
     origin_allowed lib headers \<and> length body \<le> MAX_MCP_REQUEST_BYTES \<and>
     (\<exists>request version transport. json_from_slice ext body = Some (JObj request) \<and>
        Option.bind (map_of request ''jsonrpc'') as_str = Some ''2.0'' \<and>
        Option.bind (map_of request ''method'') as_str = Some ''tools/call'' \<and>
        resolve_http_bearer_principal jwt state headers = Inr transport \<and>
        (ms_oidc_verifier state = None \<or> transport \<noteq> None \<or> \<not> http_tool_call_requires_auth db request) \<and>
        request_protocol_version request = Some version \<and>
        mcp_header headers ''mcp-protocol-version'' = Some version \<and>
        mcp_header headers ''mcp-method'' = Some ''tools/call'' \<and>
        request_tool_name request \<noteq> None \<and> mcp_header headers ''mcp-name'' = Some ''=?base64?='')"
proof -
  have obj: "as_object v = Some request \<longleftrightarrow> v = JObj request" for v request
    by (cases v) (simp_all add: as_object_def)
  have message: "fst (mcp_message ext lib jwt render state now headers request db) = Panics \<longleftrightarrow>
      (\<exists>version transport. Option.bind (map_of request ''jsonrpc'') as_str = Some ''2.0'' \<and>
        Option.bind (map_of request ''method'') as_str = Some ''tools/call'' \<and>
        resolve_http_bearer_principal jwt state headers = Inr transport \<and>
        (ms_oidc_verifier state = None \<or> transport \<noteq> None \<or> \<not> http_tool_call_requires_auth db request) \<and>
        request_protocol_version request = Some version \<and>
        mcp_header headers ''mcp-protocol-version'' = Some version \<and>
        mcp_header headers ''mcp-method'' = Some ''tools/call'' \<and>
        request_tool_name request \<noteq> None \<and> mcp_header headers ''mcp-name'' = Some ''=?base64?='')" for request
    unfolding mcp_message_def Let_def
    by (auto simp: mcp_method_panics_iff modern_metadata_panics_iff split: option.split sum.split)
  show ?thesis
    unfolding mcp_post_def
    by (auto simp: message obj as_object_def split: option.split json.split)
qed

text \<open>A request that is parsed and passes the bearer check gets to its method; every other leaves the board alone.\<close>

lemma mcp_post_board:
  "snd (mcp_post ext lib jwt render state now headers body db) = db \<or>
   (\<exists>request rpc_method transport. json_from_slice ext body = Some (JObj request) \<and>
      resolve_http_bearer_principal jwt state headers = Inr transport \<and>
      snd (mcp_post ext lib jwt render state now headers body db) = snd (tool_call ext now request transport db))"
proof -
  have obj: "as_object v = Some request \<Longrightarrow> v = JObj request" for v request
    by (cases v) (simp_all add: as_object_def)
  have meth: "snd (mcp_method ext lib render state now headers request rpc_method transport db) = db \<or>
      snd (mcp_method ext lib render state now headers request rpc_method transport db) = snd (tool_call ext now request transport db)"
    for request rpc_method transport
    using mcp_method_board [of ext lib render state now headers request rpc_method transport db]
    by (simp add: tool_call_result_board)
  have message: "snd (mcp_message ext lib jwt render state now headers request db) = db \<or>
      (\<exists>transport. resolve_http_bearer_principal jwt state headers = Inr transport \<and>
         snd (mcp_message ext lib jwt render state now headers request db) = snd (tool_call ext now request transport db))"
    for request
    using meth by (auto simp: mcp_message_def Let_def split: option.split sum.split)
  show ?thesis
    using message obj by (fastforce simp: mcp_post_def split: option.splits)
qed

text \<open>The principal of a bearer token is the one the verifier found in it.\<close>

lemma bearer_principal_issued:
  assumes "resolve_http_bearer_principal jwt state headers = Inr (Some caller)"
  obtains v token where "ms_oidc_verifier state = Some v" "bearer_token headers = Some token" "token_issued_to jwt v token caller"
  using assms that
  by (auto simp: resolve_http_bearer_principal_def bearer_token_def bind_eq_Some_conv verify_token_iff
      split: option.splits if_splits)

text \<open>One with a blank subject writes nothing.\<close>

lemma bearer_write_described:
  assumes "reachable ext db" and "resolve_http_bearer_principal jwt state headers = Inr transport"
    and "snd (blackboard_write ext now arguments transport db) \<noteq> db"
  shows "described_caller transport"
proof (cases transport)
  case None
  then show ?thesis by (simp add: described_caller_def)
next
  case (Some caller)
  obtain v token where "token_issued_to jwt v token caller" using bearer_principal_issued assms(2) Some by blast
  then have "provider caller = ''oidc:'' @ ov_issuer v" by (auto simp: token_issued_to_def)
  from undescribed_write_refused [OF assms(1) Some this] show ?thesis using assms(3) by (metis snd_conv)
qed


text \<open>Notifications are inert.  A JSON-RPC message without an id, over HTTP or over the standard streams, never
  changes the board, and over the streams it is never answered when it has a method.\<close>

theorem mcp_notifications_inert:
  assumes "map_of request ''id'' = None"
  shows "snd (mcp_message ext lib jwt render state now headers request db) = db \<and>
    snd (stdio_dispatch ext render now (JObj request) db) = db \<and>
    (\<forall>rpc_method. Option.bind (map_of request ''method'') as_str = Some rpc_method \<longrightarrow>
       Option.bind (map_of request ''jsonrpc'') as_str = Some ''2.0'' \<longrightarrow>
       fst (stdio_dispatch ext render now (JObj request) db) = None)"
proof -
  have id: "\<not> has_key request ''id''" using assms by (simp add: has_key_def)
  have "snd (modern_request ext render state now request rpc_method transport db) = db"
    "snd (legacy_request ext render now headers request rpc_method transport db) = db" for rpc_method transport
    using id by (simp_all add: modern_request_def legacy_request_def legacy_method_def Let_def split: option.split)
  then have "snd (mcp_method ext lib render state now headers request rpc_method transport db) = db" for rpc_method transport
    by (simp add: mcp_method_def Let_def split: panicking.split sum.split option.split)
  then have "snd (mcp_message ext lib jwt render state now headers request db) = db"
    by (simp add: mcp_message_def Let_def split: option.split sum.split)
  moreover have "as_object (JObj request) = Some request" by (simp add: as_object_def)
  ultimately show ?thesis
    using id by (auto simp: stdio_dispatch_def Let_def split: option.split)
qed

text \<open>Without a transport principal and without a proof every tool but the read tool fails before it does anything.\<close>

lemma tool_bind_fails:
  assumes "\<And>x. step = Inr x \<Longrightarrow> \<exists>e. rest x db = (Inl e, db)"
  shows "\<exists>e. tool_bind (step, db) rest = (Inl e, db)"
  using assms by (cases step) auto

lemma try_bind_fails:
  assumes "\<And>x. step = Inr x \<Longrightarrow> \<exists>e. rest x = Inl e"
  shows "\<exists>e. try_bind step rest = Inl e"
  using assms by (cases step) (auto simp: try_bind_def)

lemma unproven_caller:
  assumes "map_of arguments ''auth'' = None"
  shows "parse_auth arguments = Inl ''invalid_auth''" "tool_caller ext db arguments None p cap res = Inl ''invalid_auth''"
    "decision_caller ext db arguments None p target = Inl ''invalid_auth''"
    "resolve_capability_principal ext now arguments p cap res None db = (Inl ''invalid_auth'', db)"
    "authorized_read ext now arguments p cap res None f denied db = (Inl ''invalid_auth'', db)"
    "resolve_write_identity ext db arguments None w = Inl ''invalid_auth''"
  using assms by (simp_all add: parse_auth_def tool_caller_def decision_caller_def resolve_capability_identity_def
      resolve_capability_principal_def authorized_read_def resolve_write_identity_def Let_def try_bind_def)

lemma unproven_tools_fail:
  assumes "map_of arguments ''auth'' = None"
  shows "\<exists>e. blackboard_write ext now arguments None db = (Inl e, db)"
    "\<exists>e. blackboard_access_context ext now arguments None db = Inl e"
    "\<exists>e. blackboard_execution_receipt ext now arguments None db = (Inl e, db)"
    "\<exists>e. blackboard_execution_audit ext now arguments None db = (Inl e, db)"
    "\<exists>e. blackboard_execution_audit_integrity ext now arguments None db = (Inl e, db)"
    "\<exists>e. blackboard_execution_audit_sweep ext now arguments None db = (Inl e, db)"
    "\<exists>e. blackboard_authorization_policy_integrity ext now arguments None db = (Inl e, db)"
    "\<exists>e. blackboard_authorization_policy ext now arguments None db = Inl e"
    "\<exists>e. blackboard_authorization_decision ext now arguments None db = Inl e"
    "\<exists>e. blackboard_authorization_administration_history ext now arguments None db = Inl e"
proof -
  note caller = unproven_caller [OF assms]
  have caller_fails: "\<exists>e. try_bind (tool_caller ext db arguments None p cap res) f = Inl e"
    "\<exists>e. try_bind (decision_caller ext db arguments None p target) f = Inl e" for p cap res target and f :: "principal \<Rightarrow> tool_answer tool"
    by (simp_all add: caller try_bind_def)
  have cases: "\<exists>e. (if c then (Inl e', db) else x) = (Inl e, db)" if "\<exists>e. x = (Inl e, db)" for c e' and x :: "tool_answer tool \<times> board"
    using that by auto
  have cases': "\<exists>e. (if c then Inl e' else x) = Inl e" if "\<exists>e. x = Inl e" for c e' and x :: "tool_answer tool"
    using that by auto
  show "\<exists>e. blackboard_write ext now arguments None db = (Inl e, db)"
    unfolding blackboard_write_def by (rule tool_bind_fails) (simp add: caller)
  show "\<exists>e. blackboard_access_context ext now arguments None db = Inl e"
    unfolding blackboard_access_context_def by (rule caller_fails | rule cases' | rule try_bind_fails)+
  show "\<exists>e. blackboard_execution_receipt ext now arguments None db = (Inl e, db)"
    "\<exists>e. blackboard_execution_audit ext now arguments None db = (Inl e, db)"
    "\<exists>e. blackboard_execution_audit_integrity ext now arguments None db = (Inl e, db)"
    "\<exists>e. blackboard_execution_audit_sweep ext now arguments None db = (Inl e, db)"
    unfolding blackboard_execution_receipt_def blackboard_execution_audit_def blackboard_execution_audit_integrity_def
      blackboard_execution_audit_sweep_def caller
    by (intro cases tool_bind_fails; simp)+
  show "\<exists>e. blackboard_authorization_policy_integrity ext now arguments None db = (Inl e, db)"
    unfolding blackboard_authorization_policy_integrity_def caller
    by (intro cases tool_bind_fails; simp)
  show "\<exists>e. blackboard_authorization_policy ext now arguments None db = Inl e"
    "\<exists>e. blackboard_authorization_decision ext now arguments None db = Inl e"
    "\<exists>e. blackboard_authorization_administration_history ext now arguments None db = Inl e"
    unfolding blackboard_authorization_policy_def blackboard_authorization_decision_def
      blackboard_authorization_administration_history_def
    by (rule caller_fails | rule cases' | rule try_bind_fails)+
qed

lemma unproven_read_fails:
  assumes "map_of arguments ''auth'' = None"
    and "Option.bind (map_of arguments ''participant_id'') as_str \<noteq> None \<or>
      (\<forall>channel. Option.bind (map_of arguments ''channel'') as_str = Some channel \<longrightarrow> name_re channel \<longrightarrow>
         \<not> channel_is_public_active db channel)"
  shows "\<exists>e. blackboard_read ext now arguments None db = (Inl e, db)"
proof -
  have "\<exists>e. read_permission ext now arguments None a db = (Inl e, db)" if a: "read_read_arguments arguments = Inr a" for a
  proof (cases "Option.bind (map_of arguments ''participant_id'') as_str")
    case (Some p)
    then show ?thesis
      by (cases "validate_participant_id p") (simp_all add: read_permission_def Let_def unproven_caller(1) [OF assms(1)] try_bind_def)
  next
    case None
    have "tool_text arguments ''channel'' name_re ''invalid_channel'' = Inr (ra_channel a)"
      using a by (auto simp: read_read_arguments_def try_bind_Inr split: if_splits)
    then have "Option.bind (map_of arguments ''channel'') as_str = Some (ra_channel a)" "name_re (ra_channel a)"
      by (auto simp: tool_text_def text_field_def split: option.splits if_splits)
    then have "\<not> channel_is_public_active db (ra_channel a)" using assms(2) None by blast
    then show ?thesis using assms(1) None by (simp add: read_permission_def Let_def)
  qed
  then have "\<exists>e. tool_bind (read_permission ext now arguments None a db) f = (Inl e, db)"
    if "read_read_arguments arguments = Inr a" for a and f :: "unit \<Rightarrow> board \<Rightarrow> tool_answer tool \<times> board"
    using that by fastforce
  then show ?thesis unfolding blackboard_read_def by (intro tool_bind_fails)
qed

text \<open>The bearer challenge refuses nothing that would have been served.  When a call without a token is answered
  with a challenge instead of being passed to its tool, then, unless its participant id is not a text, the tool would
  have failed without a proof as well and would have left the board alone.\<close>

theorem mcp_challenge_sound:
  assumes "http_tool_call_requires_auth db request" and "call_arguments request = Some arguments"
    and "\<And>v. map_of arguments ''participant_id'' = Some v \<Longrightarrow> as_str v \<noteq> None"
  shows "\<exists>e. tool_call ext now request None db = (Inr (Inl e), db)"
proof -
  have f: "\<exists>e. map_prod Inr id x = (Inr (Inl e), db)" if "\<exists>e. x = (Inl e, db)" for x :: "tool_answer tool \<times> board"
    using that by auto
  obtain params name where p: "Option.bind (map_of request ''params'') as_object = Some params"
      "Option.bind (map_of params ''name'') as_str = Some name"
    using assms(1) unfolding http_tool_call_requires_auth_def by (auto split: if_splits option.splits)
  have a: "(case map_of params ''arguments'' of
      None \<Rightarrow> Some [] | Some (JObj arguments) \<Rightarrow> Some arguments | Some _ \<Rightarrow> None) = Some arguments"
    using assms(2) p(1) unfolding call_arguments_def by simp
  have given: "map_of params ''arguments'' = None \<and> arguments = [] \<or> map_of params ''arguments'' = Some (JObj arguments)"
    using a by (auto split: option.splits json.splits)
  have "map_of arguments ''auth'' = None"
    using assms(1) p given unfolding http_tool_call_requires_auth_def by (auto split: if_splits)
  note tools = unproven_tools_fail [OF this]
  have read: "\<exists>e. blackboard_read ext now arguments None db = (Inl e, db)" if "name = ''blackboard_read''"
  proof (rule unproven_read_fails [OF \<open>map_of arguments ''auth'' = None\<close>])
    show "Option.bind (map_of arguments ''participant_id'') as_str \<noteq> None \<or>
      (\<forall>channel. Option.bind (map_of arguments ''channel'') as_str = Some channel \<longrightarrow> name_re channel \<longrightarrow>
         \<not> channel_is_public_active db channel)"
      using assms(1,3) p given that unfolding http_tool_call_requires_auth_def
      by (cases "map_of arguments ''participant_id''") (auto split: if_splits option.splits)
  qed
  have known: "name \<in> {''blackboard_read'', ''blackboard_write'', ''blackboard_access_context'', ''blackboard_execution_receipt'',
      ''blackboard_execution_audit'', ''blackboard_execution_audit_integrity'', ''blackboard_execution_audit_sweep'',
      ''blackboard_authorization_policy_integrity'', ''blackboard_authorization_policy'',
      ''blackboard_authorization_administration_history'', ''blackboard_authorization_decision''}"
    using assms(1) p given unfolding http_tool_call_requires_auth_def option.case by (auto split: if_splits)
  have reading: "\<exists>e. (Inr x, db) = (Inr (Inl e), db)" if "\<exists>e. x = Inl e" for x :: "tool_answer tool"
    using that by auto
  have branch: "\<exists>e. (if c then x else y) = (Inr (Inl e), db)"
    if "c \<Longrightarrow> \<exists>e. x = (Inr (Inl e), db)" "\<not> c \<Longrightarrow> \<exists>e. y = (Inr (Inl e), db)"
    for c and x y :: "tool_answer tool tool \<times> board"
    using that by simp
  show ?thesis
    unfolding tool_call_def p option.case a Let_def
    by (intro branch f reading tools read) (assumption | use known in \<open>simp only: insert_iff empty_iff simp_thms\<close>)+
qed

section \<open>Samples\<close>

definition sample_library :: mcp_library where
  "sample_library = \<lparr>base64_standard = unhex, url_parse = (\<lambda>_. None)\<rparr>"

definition sample_write_arguments :: json_map where
  "sample_write_arguments = [(''body'', JStr ''hi''), (''channel'', JStr ''lab''), (''nonce'', JStr ''n1''),
     (''participant_id'', JStr ''ada'')]"

definition sample_tool_request :: "string \<Rightarrow> json_map \<Rightarrow> json_map \<Rightarrow> json_map" where
  "sample_tool_request name arguments meta =
     [(''id'', JInt 1), (''jsonrpc'', JStr ''2.0''), (''method'', JStr ''tools/call''),
      (''params'', JObj [(''_meta'', JObj meta), (''arguments'', JObj arguments), (''name'', JStr name)])]"

text \<open>Externals whose parser reads one fixed request.\<close>

definition reading_externals :: "json_map \<Rightarrow> externals" where
  "reading_externals request = sample_externals\<lparr>json_from_slice := (\<lambda>_. Some (JObj request))\<rparr>"

lemma sample_tool_request_get:
  "map_of (sample_tool_request name arguments meta) ''jsonrpc'' = Some (JStr ''2.0'')"
  "map_of (sample_tool_request name arguments meta) ''method'' = Some (JStr ''tools/call'')"
  "map_of (sample_tool_request name arguments meta) ''id'' = Some (JInt 1)"
  "map_of (sample_tool_request name arguments meta) ''params'' =
     Some (JObj [(''_meta'', JObj meta), (''arguments'', JObj arguments), (''name'', JStr name)])"
  by (simp_all add: sample_tool_request_def)

lemma sample_tool_request_parts:
  "request_tool_name (sample_tool_request name arguments meta) = Some name"
  "request_meta (sample_tool_request name arguments meta) = Some meta"
  "call_arguments (sample_tool_request name arguments meta) = Some arguments"
  by (simp_all add: request_tool_name_def request_meta_def call_arguments_def sample_tool_request_get as_object_def as_str_def)

text \<open>A request without any credential that panics, whatever the board and the clock.\<close>

theorem mcp_post_panics_iff_witness:
  "\<forall>lib jwt render now db.
     fst (mcp_post (reading_externals (sample_tool_request ''blackboard_read'' []
            [(''io.modelcontextprotocol/protocolVersion'', JStr ''2026-07-28'')])) lib jwt render
         \<lparr>ms_oidc_verifier = None, ms_protected_resource = None\<rparr> now
         [(''mcp-protocol-version'', ''2026-07-28''), (''mcp-method'', ''tools/call''), (''mcp-name'', ''=?base64?='')] [1] db) = Panics"
proof (intro allI)
  fix lib jwt render now db
  let ?request = "sample_tool_request ''blackboard_read'' [] [(''io.modelcontextprotocol/protocolVersion'', JStr ''2026-07-28'')]"
  let ?headers = "[(''mcp-protocol-version'', ''2026-07-28''), (''mcp-method'', ''tools/call''), (''mcp-name'', ''=?base64?='')]"
  have h: "mcp_header ?headers ''mcp-protocol-version'' = Some ''2026-07-28''"
    "mcp_header ?headers ''mcp-method'' = Some ''tools/call''" "mcp_header ?headers ''mcp-name'' = Some ''=?base64?=''"
    by code_simp+
  have o: "origin_allowed lib ?headers" by (simp add: origin_allowed_def)
  have b: "resolve_http_bearer_principal jwt \<lparr>ms_oidc_verifier = None, ms_protected_resource = None\<rparr> ?headers = Inr None"
    by (simp add: resolve_http_bearer_principal_def AUTHORIZATION_HEADER_def)
  have v: "request_protocol_version ?request = Some ''2026-07-28''"
    by (simp add: request_protocol_version_def sample_tool_request_parts(2) as_str_def)
  show "fst (mcp_post (reading_externals ?request) lib jwt render \<lparr>ms_oidc_verifier = None, ms_protected_resource = None\<rparr>
      now ?headers [1] db) = Panics"
    unfolding mcp_post_panics_iff
    by (intro conjI exI [of _ ?request] exI [of _ "''2026-07-28''"] exI [of _ None])
      (simp_all add: o b v h sample_tool_request_get sample_tool_request_parts as_str_def reading_externals_def
        MAX_MCP_REQUEST_BYTES_def)
qed

theorem mcp_notifications_inert_witness:
  "snd (stdio_dispatch sample_externals (\<lambda>_. JNull) 9 (JObj [(''jsonrpc'', JStr ''2.0''), (''method'', JStr ''tools/call'')])
     sample_hmac_board) = sample_hmac_board"
  using mcp_notifications_inert [of "[(''jsonrpc'', JStr ''2.0''), (''method'', JStr ''tools/call'')]" sample_externals
      sample_library sample_jwt "\<lambda>_. JNull" "\<lparr>ms_oidc_verifier = None, ms_protected_resource = None\<rparr>" 9 "[]" sample_hmac_board]
  by simp

theorem mcp_challenge_sound_witness:
  "\<exists>e. tool_call sample_externals 9 (sample_tool_request ''blackboard_write'' sample_write_arguments []) None sample_hmac_board =
     (Inr (Inl e), sample_hmac_board)"
proof (rule mcp_challenge_sound [OF _ sample_tool_request_parts(3)])
  let ?r = "sample_tool_request ''blackboard_write'' sample_write_arguments []"
  have "map_of sample_write_arguments ''auth'' = None" by (simp add: sample_write_arguments_def)
  then show "http_tool_call_requires_auth sample_hmac_board ?r"
    by (simp add: http_tool_call_requires_auth_def sample_tool_request_get as_object_def as_str_def)
  fix v assume "map_of sample_write_arguments ''participant_id'' = Some v"
  then show "as_str v \<noteq> None" by (auto simp: sample_write_arguments_def as_str_def)
qed

lemma sample_bearer_principal:
  "resolve_http_bearer_principal sample_jwt \<lparr>ms_oidc_verifier = Some sample_verifier, ms_protected_resource = None\<rparr>
     (bearer ''t1'') = Inr (Some \<lparr>provider = ''oidc:iss'', subject = ''s''\<rparr>)"
proof -
  have "Option.bind (header_to_str (''Bearer '' @ ''t1'')) split_once_space = Some (''Bearer'', ''t1'')"
    "eq_ignore_ascii_case ''Bearer'' ''bearer''" by code_simp+
  then show ?thesis
    by (simp add: resolve_http_bearer_principal_def AUTHORIZATION_HEADER_def bearer_def verify_token_def sample_jwt_def
        sample_verifier_def json_get_def as_str_def)
qed

lemma sample_bearer_write:
  defines "caller \<equiv> \<lparr>provider = ''oidc:iss'', subject = ''s''\<rparr>"
  obtains m db' where
    "blackboard_write ext 9 sample_write_arguments (Some caller) sample_oidc_board = (Inr (Written ''created'' False m), db')"
    "messages db' = [m]"
proof -
  let ?w = "\<lparr>ww_participant_id = ''ada'', ww_message = sample_fields, ww_nonce = ''n1''\<rparr>"
  let ?q = "mcp_execution_request ext (Some caller) ?w"
  have v: "validate_participant_id ''ada'' = Some ''ada''" "name_re ''lab''" "nonce_re ''n1''" by code_simp+
  have nb: "\<not> blank ''hi''" by (simp add: trim_graphic graphic_def ascii_simps)
  have keys: "only_keys sample_write_arguments
      [''participant_id'', ''auth'', ''channel'', ''kind'', ''body'', ''reply_to'', ''nonce'']"
    by (simp add: only_keys_def sample_write_arguments_def)
  have get: "map_of sample_write_arguments ''participant_id'' = Some (JStr ''ada'')"
    "map_of sample_write_arguments ''channel'' = Some (JStr ''lab'')" "map_of sample_write_arguments ''kind'' = None"
    "map_of sample_write_arguments ''body'' = Some (JStr ''hi'')" "map_of sample_write_arguments ''reply_to'' = None"
    "map_of sample_write_arguments ''nonce'' = Some (JStr ''n1'')"
    "map_of sample_write_arguments ''source'' = None" "map_of sample_write_arguments ''instance'' = None"
    by (simp_all add: sample_write_arguments_def)
  have w: "read_write_arguments sample_write_arguments = Inr ?w"
    using v nb by (simp add: read_write_arguments_def get keys tool_participant_def tool_text_def text_field_def as_str_def
        try_bind_def cursor_argument_def MAX_MESSAGE_BODY_BYTES_def sample_fields_def)
  have "\<not> blank ''s''" "\<not> blank ''oidc:iss''" by (simp_all add: trim_graphic graphic_def ascii_simps)
  then have d: "described ?q"
    by (intro mcp_request_described [OF _ w]) (simp add: described_caller_def caller_def)
  have b: "request_bound ext sample_who ?q"
    by (simp add: request_bound_def mcp_execution_request_def Let_def sample_who_def)
  have "POST_MESSAGE_CAPABILITY = ''post_message''" by (simp add: POST_MESSAGE_CAPABILITY_def capability_names)
  then have al: "ad_allowed (decision_of 9 ?q sample_oidc_board)"
    by (simp add: decision_of_def mcp_execution_request_def Let_def caller_def evaluate_cases sample_fields_def
        participant_policy_row_def sample_oidc_facts(6,7) new_participant_def sample_oidc_grant_def durable_in_scope_def
        explicit_match_def sql_resource_match_def)
  obtain m db' where ex: "execute_message_intent ext 9 sample_who ?q sample_oidc_board = (Inr (ExecCreated m), db')"
    by (rule first_execution [OF sample_oidc_facts(1) d b al])
      (simp_all add: channel_active_def channel_metadata_def sample_oidc_facts mcp_execution_request_def Let_def sample_fields_def)
  have "evidence_wf ext sample_oidc_board" using reachable_system_wf [OF sample_oidc_facts(1)] by (simp add: system_wf_def)
  from created_fields(1) [OF this ex] have "messages db' = [m]" by (simp add: sample_oidc_facts(3))
  moreover have "resolve_write_identity ext sample_oidc_board sample_write_arguments (Some caller) ?w = Inr sample_who"
    by (simp add: resolve_write_identity_def sample_oidc_who)
  ultimately show thesis
    using that [of m db'] ex by (simp add: blackboard_write_def w tool_bind_def write_answer_def)
qed


end
