(* ===== verification/Migration.thy ===== *)
theory Migration
  imports Schema_Kept Execution_Audit "HOL-Library.AList"
begin

text \<open>
  Opening a database: \<open>initialize\<close> of \<open>db.rs\<close> with the migrations it runs (\<open>db.rs\<close>, \<open>authorization.rs\<close>,
  \<open>authorization_admin.rs\<close> and \<open>execution.rs\<close>) and \<open>ensure_owner_columns\<close> of \<open>github_webhook.rs\<close>.  A migration runs on
  whatever an older release left in the file, so the database is here not the record of the theory \<open>Board\<close> but a catalog of
  tables, in the order of their creation, each with its columns and its rows, and of indexes.  \<open>catalog\<close> leads back:
  it is the \<open>schema\<close> of a board.

  A statement fails where SQLite rejects it: on a table or column that does not exist, on a column that exists already,
  on dropping a column that an index or a constraint of the table names.  Every statement is a transaction of its own, so
  those before a failing one stay.  Of the constraints of an existing table only the primary key of the channels matters
  and is modelled; the values of a migrated table are those the schema allows.
\<close>

section \<open>Databases\<close>

datatype sql_value = SNull | SInt int | SText string

text \<open>A row gives a value to every column; it is NULL outside the columns of its table.\<close>

type_synonym sql_row = "string \<Rightarrow> sql_value"

text \<open>The pinned columns of a table are those of its keys, its unique sets and its table constraints.\<close>

record sql_table =
  st_columns :: "string list"
  st_pinned :: "string list"
  st_rows :: "sql_row list"

record sql_index =
  ix_name :: string
  ix_table :: string
  ix_columns :: "string list"

record database =
  db_tables :: "(string \<times> sql_table) list"
  db_indexes :: "sql_index list"

datatype statement_error = NoSuchTable | NoSuchColumn | DuplicateColumn | ColumnInUse

type_synonym statement = "database \<Rightarrow> (statement_error + unit) \<times> database"

definition empty_database :: database where
  "empty_database = \<lparr>db_tables = [], db_indexes = []\<rparr>"

definition table_of :: "database \<Rightarrow> string \<Rightarrow> sql_table option" where
  "table_of db table = map_of (db_tables db) table"

definition columns_of :: "database \<Rightarrow> string \<Rightarrow> string list" where
  "columns_of db table = (case table_of db table of None \<Rightarrow> [] | Some t \<Rightarrow> st_columns t)"

definition rows_of :: "database \<Rightarrow> string \<Rightarrow> sql_row list" where
  "rows_of db table = (case table_of db table of None \<Rightarrow> [] | Some t \<Rightarrow> st_rows t)"

definition put_table :: "string \<Rightarrow> sql_table \<Rightarrow> database \<Rightarrow> database" where
  "put_table table t db = db\<lparr>db_tables := AList.update table t (db_tables db)\<rparr>"

definition catalog :: "database \<Rightarrow> schema_table list" where
  "catalog db = map (\<lambda>(table, t). (table, st_columns t)) (db_tables db)"

text \<open>\<open>PRAGMA table_info\<close> of a table that does not exist returns no rows.\<close>

definition table_has_column :: "database \<Rightarrow> string \<Rightarrow> string \<Rightarrow> bool" where
  "table_has_column db table column = (column \<in> set (columns_of db table))"

section \<open>Statements\<close>

definition create_table :: "string \<Rightarrow> string list \<Rightarrow> string list \<Rightarrow> statement" where
  "create_table table columns pinned db =
     (Inr (), if table_of db table \<noteq> None then db
              else put_table table \<lparr>st_columns = columns, st_pinned = pinned, st_rows = []\<rparr> db)"

definition create_index :: "string \<Rightarrow> string \<Rightarrow> string list \<Rightarrow> statement" where
  "create_index name table columns db =
     (if \<exists>i \<in> set (db_indexes db). ix_name i = name then (Inr (), db)
      else if table_of db table = None then (Inl NoSuchTable, db)
      else if \<not> list_all (table_has_column db table) columns then (Inl NoSuchColumn, db)
      else (Inr (), db\<lparr>db_indexes := db_indexes db @ [\<lparr>ix_name = name, ix_table = table, ix_columns = columns\<rparr>]\<rparr>))"

definition drop_index_if_exists :: "string \<Rightarrow> statement" where
  "drop_index_if_exists name db = (Inr (), db\<lparr>db_indexes := filter (\<lambda>i. ix_name i \<noteq> name) (db_indexes db)\<rparr>)"

text \<open>\<open>ALTER TABLE ... ADD COLUMN\<close> gives the existing rows the default of the column.\<close>

definition add_column :: "string \<Rightarrow> string \<Rightarrow> sql_value \<Rightarrow> statement" where
  "add_column table column default_value db =
     (case table_of db table of
        None \<Rightarrow> (Inl NoSuchTable, db)
      | Some t \<Rightarrow>
          if column \<in> set (st_columns t) then (Inl DuplicateColumn, db)
          else (Inr (), put_table table (t\<lparr>st_columns := st_columns t @ [column],
                  st_rows := map (\<lambda>r. r(column := default_value)) (st_rows t)\<rparr>) db))"

definition drop_column :: "string \<Rightarrow> string \<Rightarrow> statement" where
  "drop_column table column db =
     (case table_of db table of
        None \<Rightarrow> (Inl NoSuchTable, db)
      | Some t \<Rightarrow>
          if column \<notin> set (st_columns t) then (Inl NoSuchColumn, db)
          else if column \<in> set (st_pinned t) \<or>
              (\<exists>i \<in> set (db_indexes db). ix_table i = table \<and> column \<in> set (ix_columns i)) then (Inl ColumnInUse, db)
          else (Inr (), put_table table (t\<lparr>st_columns := filter (\<lambda>c. c \<noteq> column) (st_columns t),
                  st_rows := map (\<lambda>r. r(column := SNull)) (st_rows t)\<rparr>) db))"

definition rename_to :: "string \<Rightarrow> string \<Rightarrow> string list \<Rightarrow> string list" where
  "rename_to old new columns = map (\<lambda>c. if c = old then new else c) columns"

definition rename_column :: "string \<Rightarrow> string \<Rightarrow> string \<Rightarrow> statement" where
  "rename_column table old new db =
     (case table_of db table of
        None \<Rightarrow> (Inl NoSuchTable, db)
      | Some t \<Rightarrow>
          if old \<notin> set (st_columns t) then (Inl NoSuchColumn, db)
          else if new \<in> set (st_columns t) then (Inl DuplicateColumn, db)
          else (Inr (), (put_table table (t\<lparr>st_columns := rename_to old new (st_columns t),
                  st_pinned := rename_to old new (st_pinned t),
                  st_rows := map (\<lambda>r. r(new := r old, old := SNull)) (st_rows t)\<rparr>) db)
                \<lparr>db_indexes := map (\<lambda>i. if ix_table i = table then i\<lparr>ix_columns := rename_to old new (ix_columns i)\<rparr> else i)
                   (db_indexes db)\<rparr>))"

text \<open>An \<open>UPDATE\<close> or \<open>INSERT\<close> of a table, with the columns the statement names.\<close>

definition change_rows :: "string \<Rightarrow> string list \<Rightarrow> (sql_row list \<Rightarrow> sql_row list) \<Rightarrow> statement" where
  "change_rows table columns f db =
     (case table_of db table of
        None \<Rightarrow> (Inl NoSuchTable, db)
      | Some t \<Rightarrow>
          if \<not> set columns \<subseteq> set (st_columns t) then (Inl NoSuchColumn, db)
          else (Inr (), put_table table (t\<lparr>st_rows := f (st_rows t)\<rparr>) db))"

text \<open>The statements of a batch, and of a function that propagates errors with \<open>?\<close>, run until one fails.\<close>

fun steps :: "statement list \<Rightarrow> statement" where
  "steps [] db = (Inr (), db)"
| "steps (s # ss) db = (case s db of (Inl e, db') \<Rightarrow> (Inl e, db') | (Inr _, db') \<Rightarrow> steps ss db')"

definition unless_column :: "string \<Rightarrow> string \<Rightarrow> statement list \<Rightarrow> statement" where
  "unless_column table column ss db = (if table_has_column db table column then (Inr (), db) else steps ss db)"

definition when_column :: "string \<Rightarrow> string \<Rightarrow> statement list \<Rightarrow> statement" where
  "when_column table column ss db = (if table_has_column db table column then steps ss db else (Inr (), db))"

section \<open>Aggregates\<close>

text \<open>SQLite orders NULL before the integers and those before the texts; \<open>MIN\<close>, \<open>MAX\<close> and \<open>COUNT\<close> skip NULL.\<close>

fun sql_le :: "sql_value \<Rightarrow> sql_value \<Rightarrow> bool" where
  "sql_le SNull v = True"
| "sql_le (SInt i) v = (case v of SNull \<Rightarrow> False | SInt j \<Rightarrow> i \<le> j | SText _ \<Rightarrow> True)"
| "sql_le (SText s) v = (case v of SText t \<Rightarrow> s \<le> t | _ \<Rightarrow> False)"

definition sql_eq :: "sql_value \<Rightarrow> sql_value \<Rightarrow> bool" where
  "sql_eq u v = (u \<noteq> SNull \<and> u = v)"

definition sql_min :: "sql_value list \<Rightarrow> sql_value" where
  "sql_min vs = (case filter (\<lambda>v. v \<noteq> SNull) vs of [] \<Rightarrow> SNull
     | x # xs \<Rightarrow> fold (\<lambda>v m. if sql_le m v then m else v) xs x)"

definition sql_max :: "sql_value list \<Rightarrow> sql_value" where
  "sql_max vs = (case filter (\<lambda>v. v \<noteq> SNull) vs of [] \<Rightarrow> SNull
     | x # xs \<Rightarrow> fold (\<lambda>v m. if sql_le v m then m else v) xs x)"

definition count_distinct :: "sql_value list \<Rightarrow> nat" where
  "count_distinct vs = length (remdups (filter (\<lambda>v. v \<noteq> SNull) vs))"

section \<open>The schema\<close>

text \<open>The columns of the tables are those of \<open>current_schema\<close>; these are the keys and table constraints.\<close>

definition pinned_columns :: "(string \<times> string list) list" where
  "pinned_columns =
    [(''messages'', [''id'']), (''identities'', [''instance'', ''token_hash'']),
     (''web_capabilities'', [''instance'', ''capability_hash'']),
     (''web_participants'', [''participant_id'', ''role'', ''status'', ''auth_scheme'', ''auth_secret'',
        ''owner_provider'', ''owner_subject'']),
     (''principal_grants'', [''id'', ''status'', ''principal_provider'', ''principal_subject'', ''participant_id'',
        ''capability'', ''resource'']),
     (''delegated_grants'', [''id'']),
     (''authorization_admin_events'', [''id'', ''actor_provider'', ''actor_subject'']),
     (''channels'', [''name'', ''visibility'', ''status'']), (''navigation_writes'', [''instance'', ''nonce'']),
     (''ingress_provenance'', [''delivery_id'']), (''execution_receipts'', [''participant_id'', ''intent_id'']),
     (''execution_authorization_provenance'', [''participant_id'', ''intent_id''])]"

definition of_table :: "(string \<times> string list) list \<Rightarrow> string \<Rightarrow> string list" where
  "of_table names table = (case map_of names table of None \<Rightarrow> [] | Some columns \<Rightarrow> columns)"

definition create_current :: "string \<Rightarrow> statement" where
  "create_current table = create_table table (of_table current_schema table) (of_table pinned_columns table)"

definition grants_lookup :: "string list" where
  "grants_lookup = [''principal_provider'', ''principal_subject'', ''participant_id'', ''capability'', ''status'']"

definition schema_batch :: "statement list" where
  "schema_batch =
    [create_current ''messages'',
     create_index ''idx_messages_channel_id'' ''messages'' [''channel'', ''id''],
     create_current ''identities'',
     create_current ''web_capabilities'',
     create_current ''web_participants'',
     create_current ''principal_grants'',
     create_index ''idx_principal_grants_lookup'' ''principal_grants'' grants_lookup,
     create_current ''delegated_grants'',
     create_index ''idx_delegated_grants_lookup'' ''delegated_grants'' grants_lookup,
     create_current ''authorization_admin_events'',
     create_index ''idx_authorization_admin_events_grant'' ''authorization_admin_events''
       [''grant_store'', ''grant_id'', ''id''],
     create_current ''channels'',
     create_current ''navigation_writes'',
     create_current ''ingress_provenance'',
     create_index ''idx_ingress_provenance_intent'' ''ingress_provenance'' [''intent_id''],
     create_current ''execution_receipts'',
     create_index ''idx_execution_receipts_message'' ''execution_receipts'' [''message_id''],
     create_current ''execution_authorization_provenance'']"

section \<open>Migrations\<close>

definition migrate_web_participant_auth_columns :: statement where
  "migrate_web_participant_auth_columns = steps
    [unless_column ''web_participants'' ''auth_scheme'' [add_column ''web_participants'' ''auth_scheme'' SNull],
     unless_column ''web_participants'' ''auth_secret'' [add_column ''web_participants'' ''auth_secret'' SNull],
     drop_index_if_exists ''idx_web_participants_public_key'',
     when_column ''web_participants'' ''public_key'' [drop_column ''web_participants'' ''public_key''],
     when_column ''web_participants'' ''signature_scheme'' [drop_column ''web_participants'' ''signature_scheme'']]"

definition migrate_web_participant_totp_columns :: statement where
  "migrate_web_participant_totp_columns = steps
    (map (\<lambda>(column, default_value).
        unless_column ''web_participants'' column [add_column ''web_participants'' column default_value])
      [(''totp_secret'', SNull), (''totp_last_step'', SNull), (''totp_fail_count'', SInt 0),
       (''totp_locked_until'', SNull)])"

definition promote_first_admin :: "int \<Rightarrow> sql_row \<Rightarrow> sql_row" where
  "promote_first_admin now r =
     (if sql_eq (r ''participant_id'') (SText ''cheng-main'')
      then r(''role'' := SText ''admin'', ''updated_at'' := SInt now) else r)"

definition migrate_web_participant_role :: "int \<Rightarrow> statement" where
  "migrate_web_participant_role now = unless_column ''web_participants'' ''role''
     [add_column ''web_participants'' ''role'' (SText ''user''),
      change_rows ''web_participants'' [''role'', ''updated_at'', ''participant_id''] (map (promote_first_admin now))]"

definition migrate_web_participant_status :: statement where
  "migrate_web_participant_status = unless_column ''web_participants'' ''status''
     [add_column ''web_participants'' ''status'' (SText ''active'')]"

definition migrate_message_conversation_ref :: statement where
  "migrate_message_conversation_ref = unless_column ''messages'' ''conversation_ref''
     [\<lambda>db. if table_has_column db ''messages'' ''conversation_uuid''
            then rename_column ''messages'' ''conversation_uuid'' ''conversation_ref'' db
            else add_column ''messages'' ''conversation_ref'' SNull db]"

text \<open>
  One channel for every name the messages mention; \<open>INSERT OR IGNORE\<close> skips a name that has a row and a channel whose
  messages have no time, which the columns may not lack.  The order in which a \<open>GROUP BY\<close> delivers its groups is not
  specified; here it is that of the last messages of the channels.
\<close>

definition migrated_channel :: "sql_row list \<Rightarrow> sql_value \<Rightarrow> sql_row" where
  "migrated_channel msgs name =
     (let times = map (\<lambda>m. m ''created_at'') (filter (\<lambda>m. m ''channel'' = name) msgs) in
      (\<lambda>_. SNull)
        (''name'' := name,
         ''visibility'' := SText (if sql_eq name (SText ''blackboard-lounge'') then ''public'' else ''private''),
         ''status'' := SText ''active'',
         ''created_at'' := sql_min times,
         ''updated_at'' := sql_max times))"

definition insert_or_ignore_channel :: "sql_row \<Rightarrow> sql_row list \<Rightarrow> sql_row list" where
  "insert_or_ignore_channel new rows =
     (if new ''created_at'' = SNull \<or> (\<exists>r \<in> set rows. sql_eq (r ''name'') (new ''name'')) then rows else rows @ [new])"

definition migrate_channel_metadata :: statement where
  "migrate_channel_metadata db =
     (if table_of db ''messages'' = None then (Inl NoSuchTable, db)
      else if \<not> list_all (table_has_column db ''messages'') [''channel'', ''created_at''] then (Inl NoSuchColumn, db)
      else (let msgs = rows_of db ''messages'' in
        change_rows ''channels'' [''name'', ''visibility'', ''status'', ''created_at'', ''updated_at'', ''created_by'']
          (fold (\<lambda>name. insert_or_ignore_channel (migrated_channel msgs name)) (remdups (map (\<lambda>m. m ''channel'') msgs)))
          db))"

text \<open>Here the check of the status belongs to its column.\<close>

definition ensure_grant_tables :: statement where
  "ensure_grant_tables = steps
    [create_table ''principal_grants'' (of_table current_schema ''principal_grants'')
       [''id'', ''principal_provider'', ''principal_subject'', ''participant_id'', ''capability'', ''resource''],
     create_index ''idx_principal_grants_lookup'' ''principal_grants'' grants_lookup,
     create_current ''delegated_grants'',
     create_index ''idx_delegated_grants_lookup'' ''delegated_grants'' grants_lookup]"

definition migrate_admin_schema :: statement where
  "migrate_admin_schema = steps
    [ensure_grant_tables,
     create_current ''authorization_admin_events'',
     create_index ''idx_authorization_admin_events_grant'' ''authorization_admin_events''
       [''grant_store'', ''grant_id'', ''id''],
     create_index ''idx_authorization_admin_events_participant_id'' ''authorization_admin_events''
       [''participant_id'', ''id'']]"

text \<open>The backfill of the evidence of an execution from its receipt.\<close>

definition receipts_of :: "sql_row list \<Rightarrow> sql_value \<Rightarrow> sql_value \<Rightarrow> sql_row list" where
  "receipts_of receipts participant intent =
     filter (\<lambda>er. sql_eq (er ''participant_id'') participant \<and> sql_eq (er ''intent_id'') intent) receipts"

definition recover_capability :: "sql_row list \<Rightarrow> sql_row \<Rightarrow> sql_row" where
  "recover_capability receipts r =
     (case receipts_of receipts (r ''participant_id'') (r ''intent_id'') of
        er # _ \<Rightarrow> if r ''capability'' = SNull then r(''capability'' := er ''capability'') else r
      | [] \<Rightarrow> r)"

definition intent_participants :: "sql_row list \<Rightarrow> sql_value \<Rightarrow> sql_value list" where
  "intent_participants receipts intent =
     map (\<lambda>er. er ''participant_id'') (filter (\<lambda>er. sql_eq (er ''intent_id'') intent) receipts)"

definition attribute_ingress :: "sql_row list \<Rightarrow> sql_row \<Rightarrow> sql_row" where
  "attribute_ingress receipts r =
     (let participants = intent_participants receipts (r ''intent_id'') in
      if r ''participant_id'' = SNull \<and> count_distinct participants = 1
      then r(''participant_id'' := sql_min participants) else r)"

definition backfill :: "string \<Rightarrow> string list \<Rightarrow> string list \<Rightarrow> (sql_row list \<Rightarrow> sql_row \<Rightarrow> sql_row) \<Rightarrow> statement" where
  "backfill table columns receipt_columns f db =
     (if table_of db ''execution_receipts'' = None then (Inl NoSuchTable, db)
      else if \<not> list_all (table_has_column db ''execution_receipts'') receipt_columns then (Inl NoSuchColumn, db)
      else change_rows table columns (map (f (rows_of db ''execution_receipts''))) db)"

definition add_missing_authorization_columns :: statement where
  "add_missing_authorization_columns db =
     (let present = columns_of db ''execution_authorization_provenance'' in
      steps (map (\<lambda>column. add_column ''execution_authorization_provenance'' column SNull)
        (filter (\<lambda>column. column \<notin> set present)
          [''principal_provider'', ''principal_subject'', ''capability'', ''resource''])) db)"

definition migrate_execution_schema :: statement where
  "migrate_execution_schema = steps
    [create_current ''ingress_provenance'',
     create_index ''idx_ingress_provenance_intent'' ''ingress_provenance'' [''intent_id''],
     create_current ''execution_receipts'',
     create_index ''idx_execution_receipts_message'' ''execution_receipts'' [''message_id''],
     create_current ''execution_authorization_provenance'',
     unless_column ''ingress_provenance'' ''participant_id'' [add_column ''ingress_provenance'' ''participant_id'' SNull],
     create_index ''idx_ingress_provenance_execution'' ''ingress_provenance'' [''participant_id'', ''intent_id''],
     add_missing_authorization_columns,
     backfill ''execution_authorization_provenance'' [''capability'', ''participant_id'', ''intent_id'']
       [''capability'', ''participant_id'', ''intent_id''] recover_capability,
     backfill ''ingress_provenance'' [''participant_id'', ''intent_id'']
       [''participant_id'', ''intent_id''] attribute_ingress]"

definition initialize_statements :: "int \<Rightarrow> statement list" where
  "initialize_statements now = schema_batch @
    [migrate_web_participant_auth_columns,
     migrate_web_participant_totp_columns,
     migrate_web_participant_role now,
     migrate_web_participant_status,
     migrate_message_conversation_ref,
     migrate_channel_metadata,
     migrate_admin_schema,
     migrate_execution_schema]"

definition initialize :: "int \<Rightarrow> statement" where
  "initialize now = steps (initialize_statements now)"

definition ensure_owner_columns :: statement where
  "ensure_owner_columns = steps
    (map (\<lambda>column. unless_column ''web_participants'' column [add_column ''web_participants'' column SNull])
      [''owner_provider'', ''owner_subject'', ''owner_login''])"

section \<open>What statements do to tables\<close>

named_theorems statement_effects "effects of statements on the tables"

lemma table_of_put [statement_effects]:
  "table_of (put_table table t db) table' = (if table' = table then Some t else table_of db table')"
  by (simp add: table_of_def put_table_def update_conv')

lemma table_of_indexes [statement_effects]: "table_of (db\<lparr>db_indexes := ixs\<rparr>) table = table_of db table"
  by (simp add: table_of_def)

lemma indexes_put [statement_effects]: "db_indexes (put_table table t db) = db_indexes db"
  by (simp add: put_table_def)

lemma has_column_table: "table_has_column db table column \<longleftrightarrow> (\<exists>t. table_of db table = Some t \<and> column \<in> set (st_columns t))"
  by (cases "table_of db table") (simp_all add: table_has_column_def columns_of_def)

lemma steps_append:
  "steps (ss @ ss') db = (case steps ss db of (Inl e, db') \<Rightarrow> (Inl e, db') | (Inr _, db') \<Rightarrow> steps ss' db')"
  by (induction ss arbitrary: db) (auto split: prod.split sum.split)

text \<open>
  Two ways to reason about a sequence of statements: \<open>keeps\<close>, for what holds after every statement, even one that fails,
  and \<open>runs\<close>, for a statement that succeeds and what it establishes.
\<close>

definition keeps :: "(database \<Rightarrow> bool) \<Rightarrow> statement \<Rightarrow> bool" where
  "keeps P s \<longleftrightarrow> (\<forall>db. P db \<longrightarrow> P (snd (s db)))"

definition runs :: "(database \<Rightarrow> bool) \<Rightarrow> statement \<Rightarrow> (database \<Rightarrow> bool) \<Rightarrow> bool" where
  "runs P s Q \<longleftrightarrow> (\<forall>db. P db \<longrightarrow> fst (s db) = Inr () \<and> Q (snd (s db)))"

lemma keepsI: "(\<And>db. P db \<Longrightarrow> P (snd (s db))) \<Longrightarrow> keeps P s"
  by (simp add: keeps_def)

lemma keepsD: "keeps P s \<Longrightarrow> P db \<Longrightarrow> P (snd (s db))"
  by (simp add: keeps_def)

lemma runsI: "(\<And>db. P db \<Longrightarrow> fst (s db) = Inr ()) \<Longrightarrow> (\<And>db. P db \<Longrightarrow> Q (snd (s db))) \<Longrightarrow> runs P s Q"
  by (simp add: runs_def)

lemma runsD: "runs P s Q \<Longrightarrow> P db \<Longrightarrow> s db = (Inr (), snd (s db)) \<and> Q (snd (s db))"
  by (simp add: runs_def prod_eq_iff)

lemma runs_weaken: "runs P s Q \<Longrightarrow> (\<And>db. P' db \<Longrightarrow> P db) \<Longrightarrow> (\<And>db. Q db \<Longrightarrow> Q' db) \<Longrightarrow> runs P' s Q'"
  by (simp add: runs_def)

lemma keeps_runs: "keeps P s \<Longrightarrow> runs Q s R \<Longrightarrow> runs (\<lambda>db. P db \<and> Q db) s (\<lambda>db. P db \<and> R db)"
  by (simp add: runs_def keeps_def)

lemma keeps_steps: "(\<And>s. s \<in> set ss \<Longrightarrow> keeps P s) \<Longrightarrow> keeps P (steps ss)"
proof (induction ss)
  case (Cons s ss)
  have "keeps P s" and rest: "keeps P (steps ss)" using Cons by simp_all
  then have "P db \<Longrightarrow> P (snd (s db))" for db by (simp add: keeps_def)
  then show ?case using rest by (auto simp: keeps_def split: prod.split sum.split) (metis snd_conv)+
qed (simp add: keeps_def)

lemma keeps_unless_column: "(\<And>s. s \<in> set ss \<Longrightarrow> keeps P s) \<Longrightarrow> keeps P (unless_column table column ss)"
  using keeps_steps [of ss P] by (simp add: keeps_def unless_column_def)

lemma keeps_when_column: "(\<And>s. s \<in> set ss \<Longrightarrow> keeps P s) \<Longrightarrow> keeps P (when_column table column ss)"
  using keeps_steps [of ss P] by (simp add: keeps_def when_column_def)

lemma runs_Nil: "(\<And>db. P db \<Longrightarrow> Q db) \<Longrightarrow> runs P (steps []) Q"
  by (simp add: runs_def)

lemma runs_Cons: "runs P s Q \<Longrightarrow> runs Q (steps ss) R \<Longrightarrow> runs P (steps (s # ss)) R"
  by (fastforce simp: runs_def split: prod.split sum.split)

lemma runs_append: "runs P (steps ss) Q \<Longrightarrow> runs Q (steps ss') R \<Longrightarrow> runs P (steps (ss @ ss')) R"
  by (fastforce simp: runs_def steps_append split: prod.split sum.split)

section \<open>No row is lost\<close>

text \<open>The columns a migration removes, and those in which it replaces NULL.\<close>

definition removed_columns :: "(string \<times> string) list" where
  "removed_columns = [(''web_participants'', ''public_key''), (''web_participants'', ''signature_scheme''),
     (''messages'', ''conversation_uuid'')]"

definition filled_columns :: "(string \<times> string) list" where
  "filled_columns = [(''execution_authorization_provenance'', ''capability''), (''ingress_provenance'', ''participant_id'')]"

text \<open>The one value that a migration overwrites: the time of the last update of the first administrator.\<close>

definition first_admin_time :: "string \<Rightarrow> string \<Rightarrow> sql_row \<Rightarrow> bool" where
  "first_admin_time table c r \<longleftrightarrow>
     table = ''web_participants'' \<and> c = ''updated_at'' \<and> r ''participant_id'' = SText ''cheng-main''"

definition row_kept :: "string \<Rightarrow> string list \<Rightarrow> sql_row \<Rightarrow> sql_row \<Rightarrow> bool" where
  "row_kept table columns r r' \<longleftrightarrow>
     (table = ''web_participants'' \<longrightarrow> r' ''participant_id'' = r ''participant_id'') \<and>
     (\<forall>c \<in> set columns. (table, c) \<notin> set removed_columns \<longrightarrow>
        r' c = r c \<or> r c = SNull \<and> (table, c) \<in> set filled_columns \<or> first_admin_time table c r)"

text \<open>
  A table is kept when its columns are, the removed ones apart, and its rows are the first rows of the new table in the
  same order, with the same values; only the channels get new rows.
\<close>

definition table_kept :: "string \<Rightarrow> sql_table \<Rightarrow> sql_table \<Rightarrow> bool" where
  "table_kept table t t' \<longleftrightarrow>
     (\<forall>c \<in> set (st_columns t). (table, c) \<notin> set removed_columns \<longrightarrow> c \<in> set (st_columns t')) \<and>
     length (st_rows t) \<le> length (st_rows t') \<and>
     (table \<noteq> ''channels'' \<longrightarrow> length (st_rows t') = length (st_rows t)) \<and>
     (\<forall>i < length (st_rows t). row_kept table (st_columns t) (st_rows t ! i) (st_rows t' ! i))"

definition index_names :: "database \<Rightarrow> string set" where
  "index_names db = ix_name ` set (db_indexes db)"

definition database_kept :: "database \<Rightarrow> database \<Rightarrow> bool" where
  "database_kept db db' \<longleftrightarrow>
     (\<forall>table t. table_of db table = Some t \<longrightarrow> (\<exists>t'. table_of db' table = Some t' \<and> table_kept table t t')) \<and>
     index_names db - {''idx_web_participants_public_key''} \<subseteq> index_names db'"

lemma index_names_put [statement_effects]: "index_names (put_table table t db) = index_names db"
  by (simp add: index_names_def put_table_def)

lemma index_names_update [statement_effects]: "index_names (db\<lparr>db_indexes := ixs\<rparr>) = ix_name ` set ixs"
  by (simp add: index_names_def)

lemma index_names_renamed [statement_effects]:
  "ix_name ` set (map (\<lambda>i. if ix_table i = table then i\<lparr>ix_columns := f (ix_columns i)\<rparr> else i) ixs) = ix_name ` set ixs"
  unfolding set_map image_image by (rule image_cong) simp_all

lemma row_kept_refl: "row_kept table columns r r"
  by (simp add: row_kept_def)

lemma row_kept_trans:
  assumes "row_kept table columns r r'" "row_kept table columns' r' r''"
    and "\<And>c. c \<in> set columns \<Longrightarrow> (table, c) \<notin> set removed_columns \<Longrightarrow> c \<in> set columns'"
  shows "row_kept table columns r r''"
proof -
  have same: "first_admin_time table c r' \<longleftrightarrow> first_admin_time table c r" for c
    using assms(1) by (auto simp: row_kept_def first_admin_time_def)
  have "r'' c = r c \<or> r c = SNull \<and> (table, c) \<in> set filled_columns \<or> first_admin_time table c r"
    if "c \<in> set columns" "(table, c) \<notin> set removed_columns" for c
  proof -
    have "r' c = r c \<or> r c = SNull \<and> (table, c) \<in> set filled_columns \<or> first_admin_time table c r"
      "r'' c = r' c \<or> r' c = SNull \<and> (table, c) \<in> set filled_columns \<or> first_admin_time table c r"
      using assms that same [of c] unfolding row_kept_def by blast+
    then show ?thesis by auto
  qed
  then show ?thesis using assms(1,2) by (simp add: row_kept_def)
qed

lemma table_kept_refl: "table_kept table t t"
  by (simp add: table_kept_def row_kept_refl)

lemma table_keptD:
  assumes "table_kept table t t'"
  shows "c \<in> set (st_columns t) \<Longrightarrow> (table, c) \<notin> set removed_columns \<Longrightarrow> c \<in> set (st_columns t')"
    "length (st_rows t) \<le> length (st_rows t')"
    "table \<noteq> ''channels'' \<Longrightarrow> length (st_rows t') = length (st_rows t)"
    "i < length (st_rows t) \<Longrightarrow> row_kept table (st_columns t) (st_rows t ! i) (st_rows t' ! i)"
  using assms unfolding table_kept_def by blast+

lemma table_kept_trans:
  assumes k: "table_kept table t t'" and k': "table_kept table t' t''"
  shows "table_kept table t t''"
  unfolding table_kept_def
proof (intro conjI ballI allI impI)
  fix i assume i: "i < length (st_rows t)"
  then have i': "i < length (st_rows t')" using table_keptD(2) [OF k] by linarith
  show "row_kept table (st_columns t) (st_rows t ! i) (st_rows t'' ! i)"
    using table_keptD(4) [OF k i] table_keptD(4) [OF k' i'] table_keptD(1) [OF k]
    by (rule row_kept_trans)
next
  show "length (st_rows t) \<le> length (st_rows t'')"
    using table_keptD(2) [OF k] table_keptD(2) [OF k'] by linarith
qed (simp_all add: table_keptD [OF k] table_keptD [OF k'])

lemma database_kept_refl: "database_kept db db"
  by (simp add: database_kept_def table_kept_refl)

lemma database_kept_trans: "database_kept db db' \<Longrightarrow> database_kept db' db'' \<Longrightarrow> database_kept db db''"
  unfolding database_kept_def by (intro conjI, meson table_kept_trans, blast)

lemma keeps_tables: "(\<And>db. database_kept db (snd (s db))) \<Longrightarrow> keeps (database_kept db0) s"
  by (rule keepsI) (blast intro: database_kept_trans)

lemma put_kept:
  assumes "table_of db table = Some t" "table_kept table t t'"
  shows "database_kept db (put_table table t' db)"
  using assms by (auto simp: database_kept_def statement_effects table_kept_refl)

lemma put_put_kept:
  assumes "table_of db table = Some t" "table_kept table t t'"
  shows "database_kept db (put_table table t' (put_table table t'' db))"
  using assms by (auto simp: database_kept_def statement_effects table_kept_refl)

lemma create_table_kept: "database_kept db (snd (create_table table columns pinned db))"
  by (auto simp: create_table_def database_kept_def statement_effects table_kept_refl)

lemma create_index_kept: "database_kept db (snd (create_index name table columns db))"
  by (auto simp: create_index_def database_kept_def statement_effects table_kept_refl index_names_def)

lemma drop_index_kept: "database_kept db (snd (drop_index_if_exists ''idx_web_participants_public_key'' db))"
  by (auto simp: drop_index_if_exists_def database_kept_def statement_effects table_kept_refl index_names_def)

lemma add_column_kept:
  assumes "(table, column) \<noteq> (''web_participants'', ''participant_id'')"
  shows "database_kept db (snd (add_column table column v db))"
  using assms by (auto simp: add_column_def table_kept_def row_kept_def database_kept_refl split: option.split intro!: put_kept)

lemma drop_column_kept:
  assumes "(table, column) \<in> set removed_columns"
  shows "database_kept db (snd (drop_column table column db))"
proof -
  have "(table, column) \<noteq> (''web_participants'', ''participant_id'')" using assms by (auto simp: removed_columns_def)
  with assms show ?thesis
    by (auto simp: drop_column_def table_kept_def row_kept_def database_kept_refl split: option.split intro!: put_kept)
qed

lemma rename_to_set: "c \<in> set (rename_to old new cs) \<longleftrightarrow> (c \<noteq> old \<and> c \<in> set cs) \<or> (c = new \<and> old \<in> set cs)" if "old \<noteq> new"
  using that by (auto simp: rename_to_def)

lemma rename_column_kept:
  assumes "(table, old) \<in> set removed_columns" and "old \<noteq> new"
    and "(table, new) \<noteq> (''web_participants'', ''participant_id'')"
  shows "database_kept db (snd (rename_column table old new db))"
proof (cases "table_of db table")
  case (Some t)
  have old: "(table, old) \<noteq> (''web_participants'', ''participant_id'')" using assms(1) by (auto simp: removed_columns_def)
  let ?t = "t\<lparr>st_columns := rename_to old new (st_columns t), st_pinned := rename_to old new (st_pinned t),
      st_rows := map (\<lambda>r. r(new := r old, old := SNull)) (st_rows t)\<rparr>"
  have "table_kept table t ?t" if "new \<notin> set (st_columns t)"
    using assms old that by (auto simp: table_kept_def row_kept_def rename_to_set)
  then have "database_kept db (put_table table ?t db)" if "new \<notin> set (st_columns t)"
    using that by (intro put_kept [OF Some]) simp
  then show ?thesis
    by (simp add: rename_column_def Some database_kept_refl)
      (simp add: database_kept_def table_of_put table_of_indexes index_names_put index_names_update index_names_renamed
        index_names_def del: set_map)
qed (simp add: rename_column_def database_kept_refl)

lemma change_rows_kept:
  assumes "\<And>t. table_of db table = Some t \<Longrightarrow> table_kept table t (t\<lparr>st_rows := f (st_rows t)\<rparr>)"
  shows "database_kept db (snd (change_rows table columns f db))"
  using assms by (auto simp: change_rows_def database_kept_refl split: option.split intro!: put_kept)

lemma map_rows_kept:
  assumes "\<And>r. row_kept table (st_columns t) r (f r)"
  shows "table_kept table t (t\<lparr>st_rows := map f (st_rows t)\<rparr>)"
  using assms by (simp add: table_kept_def)

text \<open>The promotion of the first administrator writes the role it has just added.\<close>

lemma role_kept: "database_kept db (snd (migrate_web_participant_role now db))"
proof (cases "table_of db ''web_participants''")
  case None
  then show ?thesis by (simp add: migrate_web_participant_role_def unless_column_def add_column_def database_kept_refl)
next
  case (Some t)
  let ?added = "t\<lparr>st_columns := st_columns t @ [''role''], st_rows := map (\<lambda>r. r(''role'' := SText ''user'')) (st_rows t)\<rparr>"
  let ?promoted = "?added\<lparr>st_rows := map (promote_first_admin now) (st_rows ?added)\<rparr>"
  show ?thesis
  proof (cases "''role'' \<in> set (st_columns t)")
    case True
    then show ?thesis
      by (simp add: migrate_web_participant_role_def unless_column_def has_column_table Some database_kept_refl)
  next
    case False
    have added: "table_kept ''web_participants'' t ?added" and promoted: "table_kept ''web_participants'' t ?promoted"
      using False by (auto simp: table_kept_def row_kept_def promote_first_admin_def first_admin_time_def sql_eq_def)
    have "database_kept db (put_table ''web_participants'' ?added db)"
      "database_kept db (put_table ''web_participants'' ?promoted (put_table ''web_participants'' ?added db))"
      using put_kept [OF Some added] put_put_kept [OF Some promoted] by blast+
    then show ?thesis
      using False
      by (simp add: migrate_web_participant_role_def unless_column_def has_column_table Some add_column_def
          change_rows_def statement_effects)
  qed
qed

lemma insert_channels_append:
  "\<exists>more. fold (\<lambda>name. insert_or_ignore_channel (g name)) names rows = rows @ more"
proof (induction names arbitrary: rows)
  case (Cons name names)
  show ?case
  proof (cases "insert_or_ignore_channel (g name) rows = rows")
    case False
    then have "insert_or_ignore_channel (g name) rows = rows @ [g name]"
      by (simp add: insert_or_ignore_channel_def split: if_splits)
    then show ?thesis using Cons.IH [of "rows @ [g name]"] by auto
  qed (use Cons.IH in simp)
qed simp

lemma channel_metadata_kept: "database_kept db (snd (migrate_channel_metadata db))"
proof -
  have "database_kept db (snd (change_rows ''channels'' columns (fold (\<lambda>name. insert_or_ignore_channel (g name)) names) db))"
    for columns g names
  proof (rule change_rows_kept)
    fix t :: sql_table
    obtain more where "fold (\<lambda>name. insert_or_ignore_channel (g name)) names (st_rows t) = st_rows t @ more"
      using insert_channels_append [of g names "st_rows t"] by blast
    then show "table_kept ''channels'' t (t\<lparr>st_rows := fold (\<lambda>name. insert_or_ignore_channel (g name)) names (st_rows t)\<rparr>)"
      by (simp add: table_kept_def nth_append row_kept_refl)
  qed
  note inserted = this
  show ?thesis
    by (simp add: migrate_channel_metadata_def Let_def database_kept_refl) (intro impI inserted)
qed

lemma recover_capability_kept: "row_kept ''execution_authorization_provenance'' columns r (recover_capability receipts r)"
proof -
  have filled: "(''execution_authorization_provenance'', ''capability'') \<in> set filled_columns"
    by (simp add: filled_columns_def)
  show ?thesis
  proof (cases "receipts_of receipts (r ''participant_id'') (r ''intent_id'')")
    case (Cons er ers)
    then show ?thesis
      using filled by (cases "r ''capability'' = SNull") (simp_all add: recover_capability_def row_kept_def)
  qed (simp add: recover_capability_def row_kept_refl)
qed

lemma attribute_ingress_kept: "row_kept ''ingress_provenance'' columns r (attribute_ingress receipts r)"
proof -
  have "(''ingress_provenance'', ''participant_id'') \<in> set filled_columns" by (simp add: filled_columns_def)
  then show ?thesis by (auto simp: row_kept_def attribute_ingress_def Let_def)
qed

lemma backfill_kept:
  assumes "\<And>columns receipts r. row_kept table columns r (f receipts r)"
  shows "database_kept db (snd (backfill table cols receipt_cols f db))"
  by (auto simp: backfill_def database_kept_refl intro!: change_rows_kept map_rows_kept assms)

lemma statement_keeps:
  "keeps (database_kept db0) (create_table table columns pinned)"
  "keeps (database_kept db0) (create_index name table columns)"
  "keeps (database_kept db0) (drop_index_if_exists ''idx_web_participants_public_key'')"
  "(table, column) \<noteq> (''web_participants'', ''participant_id'') \<Longrightarrow> keeps (database_kept db0) (add_column table column v)"
  "keeps (database_kept db0) (migrate_web_participant_role now)"
  "keeps (database_kept db0) migrate_channel_metadata"
  "keeps (database_kept db0) (backfill ''execution_authorization_provenance'' columns columns' recover_capability)"
  "keeps (database_kept db0) (backfill ''ingress_provenance'' columns columns' attribute_ingress)"
  by (auto intro!: keeps_tables create_table_kept create_index_kept drop_index_kept add_column_kept role_kept
      channel_metadata_kept backfill_kept recover_capability_kept attribute_ingress_kept)

lemma drop_column_keeps: "(table, column) \<in> set removed_columns \<Longrightarrow> keeps (database_kept db0) (drop_column table column)"
  by (intro keeps_tables drop_column_kept)

lemmas keeps_intros = keeps_steps keeps_unless_column keeps_when_column

lemma schema_batch_keeps: "s \<in> set schema_batch \<Longrightarrow> keeps (database_kept db0) s"
  unfolding schema_batch_def create_current_def by (auto simp: statement_keeps)

lemma auth_columns_keep: "keeps (database_kept db0) migrate_web_participant_auth_columns"
  unfolding migrate_web_participant_auth_columns_def
  by (auto intro!: keeps_intros simp: statement_keeps drop_column_keeps removed_columns_def)

lemma totp_columns_keep: "keeps (database_kept db0) migrate_web_participant_totp_columns"
  unfolding migrate_web_participant_totp_columns_def by (auto intro!: keeps_intros simp: statement_keeps)

lemma status_keep: "keeps (database_kept db0) migrate_web_participant_status"
  unfolding migrate_web_participant_status_def by (auto intro!: keeps_intros simp: statement_keeps)

lemma conversation_ref_keep: "keeps (database_kept db0) migrate_message_conversation_ref"
  unfolding migrate_message_conversation_ref_def
  by (rule keeps_unless_column, rule keeps_tables)
    (auto intro!: add_column_kept rename_column_kept simp: removed_columns_def)

lemma admin_schema_keep: "keeps (database_kept db0) migrate_admin_schema"
  unfolding migrate_admin_schema_def ensure_grant_tables_def create_current_def
  by (auto intro!: keeps_intros simp: statement_keeps)

lemma add_missing_keep: "keeps (database_kept db0) add_missing_authorization_columns"
proof (rule keepsI)
  fix db assume db: "database_kept db0 db"
  have "keeps (database_kept db0) (steps (map (\<lambda>column. add_column ''execution_authorization_provenance'' column SNull) columns))"
    for columns by (auto intro!: keeps_intros simp: statement_keeps)
  from keepsD [OF this db] show "database_kept db0 (snd (add_missing_authorization_columns db))"
    by (simp only: add_missing_authorization_columns_def Let_def)
qed

lemma execution_schema_keep: "keeps (database_kept db0) migrate_execution_schema"
  unfolding migrate_execution_schema_def create_current_def
  by (auto intro!: keeps_intros simp: statement_keeps add_missing_keep)

lemma initialize_keeps: "keeps (database_kept db0) (initialize now)"
  unfolding initialize_def initialize_statements_def
  by (rule keeps_steps)
    (auto simp: schema_batch_keeps statement_keeps auth_columns_keep totp_columns_keep status_keep conversation_ref_keep
      admin_schema_keep execution_schema_keep)

lemma owner_columns_keep: "keeps (database_kept db0) ensure_owner_columns"
  unfolding ensure_owner_columns_def by (auto intro!: keeps_intros simp: statement_keeps)

section \<open>A legacy database is brought up to date\<close>

definition migrated_columns :: "(string \<times> string list) list" where
  "migrated_columns =
    [(''messages'', [''conversation_ref'']),
     (''web_participants'', [''role'', ''status'', ''auth_scheme'', ''auth_secret'', ''totp_secret'', ''totp_last_step'',
        ''totp_fail_count'', ''totp_locked_until'', ''owner_provider'', ''owner_subject'', ''owner_login'']),
     (''ingress_provenance'', [''participant_id'']),
     (''execution_authorization_provenance'', [''principal_provider'', ''principal_subject'', ''capability'', ''resource''])]"

definition base_columns :: "string \<Rightarrow> string list" where
  "base_columns table = filter (\<lambda>c. c \<notin> set (of_table migrated_columns table)) (of_table current_schema table)"

definition schema_tables :: "string list" where
  "schema_tables = map fst current_schema"

text \<open>
  A legacy database has, of the tables of the schema, any; each with at least the columns no migration adds; and nothing
  but the index of the public keys rests on the columns of the discarded credentials.
\<close>

definition droppable :: "string \<Rightarrow> database \<Rightarrow> bool" where
  "droppable column db \<longleftrightarrow>
     (\<forall>t. table_of db ''web_participants'' = Some t \<longrightarrow> column \<notin> set (st_pinned t)) \<and>
     (\<forall>i \<in> set (db_indexes db). ix_table i = ''web_participants'' \<and> column \<in> set (ix_columns i) \<longrightarrow>
        ix_name i = ''idx_web_participants_public_key'')"

definition legacy_database :: "database \<Rightarrow> bool" where
  "legacy_database db \<longleftrightarrow>
     (\<forall>table \<in> set schema_tables. table_of db table \<noteq> None \<longrightarrow> set (base_columns table) \<subseteq> set (columns_of db table)) \<and>
     droppable ''public_key'' db \<and> droppable ''signature_scheme'' db"

definition created_tables :: "string set \<Rightarrow> string set \<Rightarrow> database \<Rightarrow> bool" where
  "created_tables T N db \<longleftrightarrow> legacy_database db \<and> (\<forall>table \<in> T. table_of db table \<noteq> None) \<and> N \<subseteq> index_names db"

lemma base_columns_subset: "set (base_columns table) \<subseteq> set (of_table current_schema table)"
  by (auto simp: base_columns_def)

lemma pinned_current: "c \<notin> set (of_table pinned_columns ''web_participants'')"
  if "c \<in> {''public_key'', ''signature_scheme''}"
  using that by (auto simp: of_table_def pinned_columns_def)

lemma legacy_base:
  "created_tables T N db \<Longrightarrow> table \<in> set schema_tables \<Longrightarrow> table_of db table \<noteq> None \<Longrightarrow>
     set (base_columns table) \<subseteq> set (columns_of db table)"
  unfolding created_tables_def legacy_database_def by blast

lemma create_current_runs: "runs (created_tables T N) (create_current table) (created_tables (insert table T) N)"
proof (rule runsI)
  fix db assume db: "created_tables T N db"
  let ?db = "snd (create_current table db)"
  have cols: "columns_of ?db table' =
      (if table' = table \<and> table_of db table = None then of_table current_schema table else columns_of db table')" for table'
    by (auto simp: create_current_def create_table_def columns_of_def statement_effects split: option.split)
  have drop: "droppable c ?db" if "c \<in> {''public_key'', ''signature_scheme''}" "droppable c db" for c
    using that pinned_current [OF that(1)]
    by (auto simp: droppable_def create_current_def create_table_def statement_effects)
  show "created_tables (insert table T) N ?db"
    unfolding created_tables_def legacy_database_def
  proof (intro conjI ballI impI drop)
    fix table' assume t: "table' \<in> set schema_tables" "table_of ?db table' \<noteq> None"
    show "set (base_columns table') \<subseteq> set (columns_of ?db table')"
    proof (cases "table' = table \<and> table_of db table = None")
      case True
      then show ?thesis using base_columns_subset [of table] by (simp add: cols)
    next
      case False
      then have "table_of db table' \<noteq> None"
        using t(2) by (auto simp: create_current_def create_table_def statement_effects split: if_splits)
      moreover have "columns_of ?db table' = columns_of db table'" using False by (simp only: cols if_False)
      ultimately show ?thesis using legacy_base [OF db t(1)] by simp
    qed
  qed (use db in \<open>auto simp: created_tables_def legacy_database_def create_current_def create_table_def statement_effects\<close>)
qed (simp add: create_current_def create_table_def)

lemma create_index_runs:
  assumes "table \<in> T" "table \<in> set schema_tables" "set columns \<subseteq> set (base_columns table)" "table \<noteq> ''web_participants''"
  shows "runs (created_tables T N) (create_index name table columns) (created_tables T (insert name N))"
proof (rule runsI)
  fix db assume db: "created_tables T N db"
  then have "table_of db table \<noteq> None" using assms(1) unfolding created_tables_def by blast
  with legacy_base [OF db assms(2)] have "list_all (table_has_column db table) columns" "table_of db table \<noteq> None"
    using assms(3) by (auto simp: list_all_iff table_has_column_def)
  then show "fst (create_index name table columns db) = Inr ()" by (auto simp: create_index_def)
  have tables: "table_of (snd (create_index name table columns db)) = table_of db"
    by (simp add: create_index_def statement_effects fun_eq_iff)
  have indexes: "set (db_indexes (snd (create_index name table columns db))) \<subseteq>
      insert \<lparr>ix_name = name, ix_table = table, ix_columns = columns\<rparr> (set (db_indexes db))"
    by (auto simp: create_index_def)
  have "droppable c db \<Longrightarrow> droppable c (snd (create_index name table columns db))" for c
    using indexes assms(4) unfolding droppable_def tables by fastforce
  moreover have "insert name N \<subseteq> index_names (snd (create_index name table columns db))"
    using db \<open>list_all _ _\<close> \<open>table_of db table \<noteq> None\<close> by (auto simp: create_index_def index_names_def created_tables_def)
  ultimately show "created_tables T (insert name N) (snd (create_index name table columns db))"
    using db unfolding created_tables_def legacy_database_def columns_of_def tables by blast
qed

lemma base_columns_eval:
  "set [''channel'', ''id''] \<subseteq> set (base_columns ''messages'')"
  "set grants_lookup \<subseteq> set (base_columns ''principal_grants'')"
  "set grants_lookup \<subseteq> set (base_columns ''delegated_grants'')"
  "set [''grant_store'', ''grant_id'', ''id''] \<subseteq> set (base_columns ''authorization_admin_events'')"
  "set [''intent_id''] \<subseteq> set (base_columns ''ingress_provenance'')"
  "set [''message_id''] \<subseteq> set (base_columns ''execution_receipts'')"
  by (simp_all add: base_columns_def of_table_def current_schema_def migrated_columns_def grants_lookup_def)

definition schema_indexes :: "string set" where
  "schema_indexes = {''idx_messages_channel_id'', ''idx_principal_grants_lookup'', ''idx_delegated_grants_lookup'',
     ''idx_authorization_admin_events_grant'', ''idx_ingress_provenance_intent'', ''idx_execution_receipts_message''}"

lemma schema_batch_runs: "runs legacy_database (steps schema_batch) (created_tables (set schema_tables) schema_indexes)"
proof -
  have tables: "schema_tables = [''messages'', ''identities'', ''web_capabilities'', ''web_participants'',
      ''principal_grants'', ''delegated_grants'', ''authorization_admin_events'', ''channels'', ''navigation_writes'',
      ''ingress_provenance'', ''execution_receipts'', ''execution_authorization_provenance'']"
    by (simp add: schema_tables_def current_schema_def)
  have "runs (created_tables {} {}) (steps schema_batch)
      (created_tables {''execution_authorization_provenance'', ''execution_receipts'', ''ingress_provenance'',
        ''navigation_writes'', ''channels'', ''authorization_admin_events'', ''delegated_grants'', ''principal_grants'',
        ''web_participants'', ''web_capabilities'', ''identities'', ''messages''}
        {''idx_execution_receipts_message'', ''idx_ingress_provenance_intent'', ''idx_authorization_admin_events_grant'',
        ''idx_delegated_grants_lookup'', ''idx_principal_grants_lookup'', ''idx_messages_channel_id''})"
    unfolding schema_batch_def
    by (rule runs_Cons create_current_runs runs_Nil create_index_runs base_columns_eval | assumption
      | simp add: tables)+
  then show ?thesis
    by (rule runs_weaken) (auto simp: created_tables_def tables schema_indexes_def)
qed

text \<open>Columns that exist and are not removed stay, and so do indexes; so what a statement establishes can be accumulated.\<close>

definition established :: "(string \<times> string) set \<Rightarrow> string set \<Rightarrow> database \<Rightarrow> bool" where
  "established K N db \<longleftrightarrow>
     (\<forall>table column. (table, column) \<in> K - set removed_columns \<longrightarrow> table_has_column db table column) \<and>
     N - {''idx_web_participants_public_key''} \<subseteq> index_names db"

definition base_pairs :: "(string \<times> string) set" where
  "base_pairs = {(table, column). table \<in> set schema_tables \<and> column \<in> set (base_columns table)}"

lemma kept_columns:
  "database_kept db db' \<Longrightarrow> table_has_column db table column \<Longrightarrow> (table, column) \<notin> set removed_columns \<Longrightarrow>
     table_has_column db' table column"
  unfolding has_column_table database_kept_def by (meson table_keptD(1))

lemma established_kept:
  assumes kept: "database_kept db db'" and db: "established K N db"
  shows "established K N db'"
  unfolding established_def
proof (intro conjI allI impI)
  show "N - {''idx_web_participants_public_key''} \<subseteq> index_names db'"
    using kept db unfolding database_kept_def established_def by blast
  fix table column assume "(table, column) \<in> K - set removed_columns"
  then show "table_has_column db' table column"
    using db kept_columns [OF kept] by (simp add: established_def)
qed

lemma establishedD:
  "established K N db \<Longrightarrow> (table, column) \<in> K \<Longrightarrow> (table, column) \<notin> set removed_columns \<Longrightarrow> table_has_column db table column"
  by (auto simp: established_def)

lemma established_Un: "established (K \<union> K') (N \<union> N') db \<longleftrightarrow> established K N db \<and> established K' N' db"
  unfolding established_def by blast

lemma established_runs:
  assumes keeps: "\<And>db0. keeps (database_kept db0) s"
    and ok: "\<And>db. established K N db \<Longrightarrow> fst (s db) = Inr ()"
    and more: "\<And>db. established K N db \<Longrightarrow> established K' N' (snd (s db))"
  shows "runs (established K N) s (established (K' \<union> K) (N' \<union> N))"
proof (rule runsI)
  fix db assume db: "established K N db"
  have "database_kept db (snd (s db))" by (rule keepsD [OF keeps database_kept_refl])
  then show "established (K' \<union> K) (N' \<union> N) (snd (s db))"
    using established_kept [OF _ db] more [OF db] by (simp add: established_Un)
qed (rule ok)

lemma add_missing_runs:
  assumes "(table, known) \<in> K" "(table, known) \<notin> set removed_columns"
    and other: "(table, column) \<noteq> (''web_participants'', ''participant_id'')"
  shows "runs (established K N) (unless_column table column [add_column table column v])
    (established ({(table, column)} \<union> K) ({} \<union> N))"
proof (rule established_runs)
  fix db assume "established K N db"
  then obtain t where "table_of db table = Some t" using establishedD [OF _ assms(1,2)] by (auto simp: has_column_table)
  then show "fst (unless_column table column [add_column table column v] db) = Inr ()"
    "established {(table, column)} {} (snd (unless_column table column [add_column table column v] db))"
    by (auto simp: unless_column_def add_column_def has_column_table established_def statement_effects)
qed (use other in \<open>auto intro!: keeps_intros simp: statement_keeps\<close>)

lemma create_index_established:
  assumes "Pair table ` set columns \<subseteq> K - set removed_columns" "columns \<noteq> []"
  shows "runs (established K N) (create_index name table columns) (established ({} \<union> K) ({name} \<union> N))"
proof (rule established_runs)
  fix db assume db: "established K N db"
  have has: "\<forall>c \<in> set columns. table_has_column db table c"
    using assms(1) establishedD [OF db] by blast
  then have "table_of db table \<noteq> None" using assms(2) by (cases columns) (auto simp: has_column_table)
  with has show "fst (create_index name table columns db) = Inr ()"
    "established {} {name} (snd (create_index name table columns db))"
    by (auto simp: create_index_def list_all_iff established_def index_names_def)
qed (rule statement_keeps)

lemma create_table_established:
  shows "runs (established K N) (create_table table columns pinned) (established ({} \<union> K) ({} \<union> N))"
  by (rule established_runs) (simp_all add: statement_keeps create_table_def established_def)

lemma schema_batch_established: "created_tables (set schema_tables) N db \<Longrightarrow> established base_pairs N db"
  unfolding established_def
proof (intro conjI)
  assume db: "created_tables (set schema_tables) N db"
  then show "N - {''idx_web_participants_public_key''} \<subseteq> index_names db" by (auto simp: created_tables_def)
  have "table_has_column db table column" if "(table, column) \<in> base_pairs" for table column
    using that legacy_base [OF db] db by (auto simp: base_pairs_def table_has_column_def created_tables_def)
  then show "\<forall>table column. (table, column) \<in> base_pairs - set removed_columns \<longrightarrow> table_has_column db table column"
    by blast
qed

text \<open>The discarded credentials: once their index is dropped, nothing rests on their columns, so they can be dropped.\<close>

definition discarded :: "string list" where
  "discarded = [''public_key'', ''signature_scheme'']"

definition all_droppable :: "database \<Rightarrow> bool" where
  "all_droppable db \<longleftrightarrow> droppable ''public_key'' db \<and> droppable ''signature_scheme'' db"

definition gone :: "string set \<Rightarrow> database \<Rightarrow> bool" where
  "gone G db \<longleftrightarrow> ''idx_web_participants_public_key'' \<notin> index_names db \<and> all_droppable db \<and>
     (\<forall>column \<in> G. \<not> table_has_column db ''web_participants'' column)"

lemma add_column_droppable: "keeps all_droppable (add_column table column v)"
  by (rule keepsI) (auto simp: all_droppable_def droppable_def add_column_def statement_effects split: option.split)

lemma drop_index_runs:
  "runs (\<lambda>db. all_droppable db \<and> established K N db) (drop_index_if_exists ''idx_web_participants_public_key'')
     (\<lambda>db. gone {} db \<and> established K N db)"
proof (rule runsI)
  fix db assume db: "all_droppable db \<and> established K N db"
  then have "established K N (snd (drop_index_if_exists ''idx_web_participants_public_key'' db))"
    using established_kept [OF drop_index_kept] by blast
  moreover have "gone {} (snd (drop_index_if_exists ''idx_web_participants_public_key'' db))"
    using db by (auto simp: gone_def all_droppable_def droppable_def drop_index_if_exists_def statement_effects)
  ultimately show "gone {} (snd (drop_index_if_exists ''idx_web_participants_public_key'' db)) \<and>
      established K N (snd (drop_index_if_exists ''idx_web_participants_public_key'' db))" by blast
qed (simp add: drop_index_if_exists_def)

lemma gone_unused:
  assumes "gone G db" "column \<in> set discarded" "table_of db ''web_participants'' = Some t"
  shows "column \<notin> set (st_pinned t)" "\<forall>i \<in> set (db_indexes db). \<not> (ix_table i = ''web_participants'' \<and> column \<in> set (ix_columns i))"
proof -
  have d: "droppable column db" and no_index: "''idx_web_participants_public_key'' \<notin> index_names db"
    using assms(1,2) by (auto simp: gone_def all_droppable_def discarded_def)
  then show "column \<notin> set (st_pinned t)" using assms(3) by (simp add: droppable_def)
  show "\<forall>i \<in> set (db_indexes db). \<not> (ix_table i = ''web_participants'' \<and> column \<in> set (ix_columns i))"
    using d no_index unfolding droppable_def index_names_def by (metis imageI)
qed

lemma discarded_removed: "column \<in> set discarded \<Longrightarrow> (''web_participants'', column) \<in> set removed_columns"
  by (auto simp: discarded_def removed_columns_def)

lemma drop_column_runs:
  assumes c: "column \<in> set discarded"
  shows "runs (\<lambda>db. gone G db \<and> established K N db) (when_column ''web_participants'' column [drop_column ''web_participants'' column])
     (\<lambda>db. gone (insert column G) db \<and> established K N db)"
proof (rule runsI)
  fix db assume db: "gone G db \<and> established K N db"
  let ?s = "when_column ''web_participants'' column [drop_column ''web_participants'' column]"
  have result: "fst (?s db) = Inr () \<and> gone (insert column G) (snd (?s db))"
  proof (cases "table_has_column db ''web_participants'' column")
    case True
    then obtain t where t: "table_of db ''web_participants'' = Some t" "column \<in> set (st_columns t)"
      by (auto simp: has_column_table)
    let ?t = "t\<lparr>st_columns := filter (\<lambda>c. c \<noteq> column) (st_columns t), st_rows := map (\<lambda>r. r(column := SNull)) (st_rows t)\<rparr>"
    have "drop_column ''web_participants'' column db = (Inr (), put_table ''web_participants'' ?t db)"
      using gone_unused [OF conjunct1 [OF db] c t(1)] t by (auto simp: drop_column_def)
    then have "?s db = (Inr (), put_table ''web_participants'' ?t db)" using True by (simp add: when_column_def)
    moreover have "gone (insert column G) (put_table ''web_participants'' ?t db)"
      using db t by (auto simp: gone_def all_droppable_def droppable_def statement_effects has_column_table)
    ultimately show ?thesis by simp
  qed (use db in \<open>simp add: when_column_def gone_def\<close>)
  then show "fst (?s db) = Inr ()" by blast
  have "keeps (database_kept db) ?s"
    by (intro keeps_when_column) (simp add: drop_column_keeps [OF discarded_removed [OF c]])
  then have "database_kept db (snd (?s db))" by (rule keepsD [OF _ database_kept_refl])
  then have "established K N (snd (?s db))" using established_kept db by blast
  with result show "gone (insert column G) (snd (?s db)) \<and> established K N (snd (?s db))" by blast
qed

lemma auth_columns_run:
  assumes "(''web_participants'', ''participant_id'') \<in> K"
  shows "runs (\<lambda>db. all_droppable db \<and> established K N db) migrate_web_participant_auth_columns
     (\<lambda>db. gone (set discarded) db \<and>
        established ({(''web_participants'', ''auth_secret'')} \<union> ({(''web_participants'', ''auth_scheme'')} \<union> K)) N db)"
proof -
  have known: "(''web_participants'', ''participant_id'') \<notin> set removed_columns" by (simp add: removed_columns_def)
  have add: "runs (\<lambda>db. all_droppable db \<and> established K' N db)
      (unless_column ''web_participants'' column [add_column ''web_participants'' column SNull])
      (\<lambda>db. all_droppable db \<and> established ({(''web_participants'', column)} \<union> K') N db)"
    if "(''web_participants'', ''participant_id'') \<in> K'" "column \<noteq> ''participant_id''" for column K'
  proof (rule keeps_runs)
    show "keeps all_droppable (unless_column ''web_participants'' column [add_column ''web_participants'' column SNull])"
      by (rule keeps_unless_column) (simp add: add_column_droppable)
    show "runs (established K' N) (unless_column ''web_participants'' column [add_column ''web_participants'' column SNull])
        (established ({(''web_participants'', column)} \<union> K') N)"
      using add_missing_runs [OF that(1) known, of column N] that(2) by simp
  qed
  have "gone {''signature_scheme'', ''public_key''} = gone (set discarded)"
    by (intro arg_cong [of _ _ gone]) (auto simp: discarded_def)
  moreover have "''public_key'' \<in> set discarded" "''signature_scheme'' \<in> set discarded" by (simp_all add: discarded_def)
  ultimately show ?thesis
    unfolding migrate_web_participant_auth_columns_def
    by (intro runs_Cons [OF add] runs_Cons [OF drop_index_runs] runs_Cons [OF drop_column_runs] runs_Nil)
      (use assms in simp_all)
qed

lemma base_known:
  "table \<in> set schema_tables \<Longrightarrow> column \<in> set (base_columns table) \<Longrightarrow> base_pairs \<subseteq> K \<Longrightarrow> (table, column) \<in> K"
  by (auto simp: base_pairs_def)

lemma current_not_removed: "column \<in> set (of_table current_schema table) \<Longrightarrow> (table, column) \<notin> set removed_columns"
proof -
  have "''public_key'' \<notin> set (of_table current_schema ''web_participants'')"
    "''signature_scheme'' \<notin> set (of_table current_schema ''web_participants'')"
    "''conversation_uuid'' \<notin> set (of_table current_schema ''messages'')"
    by (simp_all add: of_table_def current_schema_def)
  moreover assume "column \<in> set (of_table current_schema table)"
  ultimately show ?thesis by (auto simp: removed_columns_def)
qed

lemma base_not_removed: "column \<in> set (base_columns table) \<Longrightarrow> (table, column) \<notin> set removed_columns"
  using base_columns_subset current_not_removed by blast

text \<open>Of every table, a column it always had; and the columns the data migrations read and write.\<close>

lemma schema_table_eval:
  "''messages'' \<in> set schema_tables" "''web_participants'' \<in> set schema_tables" "''channels'' \<in> set schema_tables"
  "''principal_grants'' \<in> set schema_tables" "''delegated_grants'' \<in> set schema_tables"
  "''authorization_admin_events'' \<in> set schema_tables" "''ingress_provenance'' \<in> set schema_tables"
  "''execution_receipts'' \<in> set schema_tables" "''execution_authorization_provenance'' \<in> set schema_tables"
  by (simp_all add: schema_tables_def current_schema_def)

lemma base_column_eval:
  "set [''id'', ''channel'', ''created_at''] \<subseteq> set (base_columns ''messages'')"
  "set [''participant_id'', ''updated_at''] \<subseteq> set (base_columns ''web_participants'')"
  "set [''name'', ''visibility'', ''status'', ''created_at'', ''updated_at'', ''created_by''] \<subseteq> set (base_columns ''channels'')"
  "set [''participant_id'', ''id''] \<subseteq> set (base_columns ''authorization_admin_events'')"
  "set [''capability'', ''participant_id'', ''intent_id''] \<subseteq> set (base_columns ''execution_receipts'')"
  "set [''participant_id'', ''intent_id''] \<subseteq> set (base_columns ''execution_authorization_provenance'')"
  by (simp_all add: base_columns_def of_table_def current_schema_def migrated_columns_def)

lemmas base_facts = base_columns_eval base_column_eval

lemma established_base:
  assumes "established K N db" "base_pairs \<subseteq> K" "table \<in> set schema_tables" "set columns \<subseteq> set (base_columns table)"
  shows "list_all (table_has_column db table) columns"
  using assms establishedD [OF assms(1) base_known base_not_removed] by (auto simp: list_all_iff)

lemma add_known_runs:
  assumes "base_pairs \<subseteq> K" "table \<in> set schema_tables" "known \<in> set (base_columns table)"
    and "(table, column) \<noteq> (''web_participants'', ''participant_id'')"
  shows "runs (established K N) (unless_column table column [add_column table column v])
    (established ({(table, column)} \<union> K) ({} \<union> N))"
  by (rule add_missing_runs [OF base_known [OF assms(2,3,1)] base_not_removed [OF assms(3)] assms(4)])

lemma add_columns_run:
  assumes "base_pairs \<subseteq> K" "table \<in> set schema_tables" "known \<in> set (base_columns table)"
    and "''participant_id'' \<notin> fst ` set cvs"
  shows "runs (established K N) (steps (map (\<lambda>(column, v). unless_column table column [add_column table column v]) cvs))
    (established (Pair table ` fst ` set cvs \<union> K) N)"
  using assms(1,4)
proof (induction cvs arbitrary: K)
  case Nil
  then show ?case by (simp add: runs_def)
next
  case (Cons cv cvs)
  obtain column v where cv: "cv = (column, v)" by fastforce
  have "runs (established K N) (unless_column table column [add_column table column v]) (established ({(table, column)} \<union> K) N)"
    using add_known_runs [OF Cons.prems(1) assms(2,3), of column N v] Cons.prems(2) by (auto simp: cv)
  moreover have "runs (established ({(table, column)} \<union> K) N)
      (steps (map (\<lambda>(column, v). unless_column table column [add_column table column v]) cvs))
      (established (Pair table ` fst ` set cvs \<union> ({(table, column)} \<union> K)) N)"
    using Cons.prems by (intro Cons.IH) (auto simp: cv)
  ultimately have "runs (established K N)
      (steps (map (\<lambda>(column, v). unless_column table column [add_column table column v]) (cv # cvs)))
      (established (Pair table ` fst ` set cvs \<union> ({(table, column)} \<union> K)) N)"
    unfolding cv list.map prod.case by (rule runs_Cons)
  moreover have "Pair table ` fst ` set cvs \<union> ({(table, column)} \<union> K) = Pair table ` fst ` set (cv # cvs) \<union> K"
    by (auto simp: cv)
  ultimately show ?case by (simp only:)
qed

lemma totp_columns_run:
  assumes "base_pairs \<subseteq> K"
  shows "runs (established K N) migrate_web_participant_totp_columns
    (established (Pair ''web_participants'' ` {''totp_secret'', ''totp_last_step'', ''totp_fail_count'', ''totp_locked_until''} \<union> K) N)"
  unfolding migrate_web_participant_totp_columns_def
  using add_columns_run [OF assms, of "''web_participants''" "''participant_id''"
      "[(''totp_secret'', SNull), (''totp_last_step'', SNull), (''totp_fail_count'', SInt 0), (''totp_locked_until'', SNull)]" N]
    base_facts schema_table_eval by simp

lemma owner_columns_run:
  assumes "base_pairs \<subseteq> K"
  shows "runs (established K N) ensure_owner_columns
    (established (Pair ''web_participants'' ` {''owner_provider'', ''owner_subject'', ''owner_login''} \<union> K) N)"
  unfolding ensure_owner_columns_def
  using add_columns_run [OF assms, of "''web_participants''" "''participant_id''"
      "[(''owner_provider'', SNull), (''owner_subject'', SNull), (''owner_login'', SNull)]" N]
    base_facts schema_table_eval by simp

lemma status_run:
  assumes "base_pairs \<subseteq> K"
  shows "runs (established K N) migrate_web_participant_status (established ({(''web_participants'', ''status'')} \<union> K) N)"
  unfolding migrate_web_participant_status_def
  using add_known_runs [OF assms, of "''web_participants''" "''participant_id''" "''status''" N] base_facts schema_table_eval by simp

lemma role_run:
  assumes "base_pairs \<subseteq> K"
  shows "runs (established K N) (migrate_web_participant_role now) (established ({(''web_participants'', ''role'')} \<union> K) ({} \<union> N))"
proof (rule established_runs)
  fix db assume "established K N db"
  from established_base [OF this assms schema_table_eval(2) base_column_eval(2)]
  obtain t where t: "table_of db ''web_participants'' = Some t" "''participant_id'' \<in> set (st_columns t)"
    "''updated_at'' \<in> set (st_columns t)" by (auto simp: has_column_table)
  then show "fst (migrate_web_participant_role now db) = Inr ()"
    "established {(''web_participants'', ''role'')} {} (snd (migrate_web_participant_role now db))"
    by (auto simp: migrate_web_participant_role_def unless_column_def has_column_table add_column_def change_rows_def
        statement_effects established_def)
qed (rule statement_keeps)

lemma conversation_ref_run:
  assumes "base_pairs \<subseteq> K"
  shows "runs (established K N) migrate_message_conversation_ref
    (established ({(''messages'', ''conversation_ref'')} \<union> K) ({} \<union> N))"
proof (rule established_runs)
  fix db assume "established K N db"
  from established_base [OF this assms schema_table_eval(1) base_column_eval(1)]
  obtain t where t: "table_of db ''messages'' = Some t" by (auto simp: has_column_table)
  then show "fst (migrate_message_conversation_ref db) = Inr ()"
    "established {(''messages'', ''conversation_ref'')} {} (snd (migrate_message_conversation_ref db))"
    by (auto simp: migrate_message_conversation_ref_def unless_column_def has_column_table add_column_def rename_column_def
        statement_effects established_def rename_to_set)
qed (rule conversation_ref_keep)

lemma channel_metadata_run:
  assumes "base_pairs \<subseteq> K"
  shows "runs (established K N) migrate_channel_metadata (established ({} \<union> K) ({} \<union> N))"
proof (rule established_runs)
  fix db assume db: "established K N db"
  from established_base [OF db assms schema_table_eval(1) base_column_eval(1)]
    established_base [OF db assms schema_table_eval(3) base_column_eval(3)]
  show "fst (migrate_channel_metadata db) = Inr ()"
    by (auto simp: migrate_channel_metadata_def has_column_table change_rows_def Let_def)
qed (simp_all add: statement_keeps established_def)

lemma index_run:
  assumes "base_pairs \<subseteq> K" "table \<in> set schema_tables" "set columns \<subseteq> set (base_columns table)" "columns \<noteq> []"
  shows "runs (established K N) (create_index name table columns) (established K ({name} \<union> N))"
proof -
  have "Pair table ` set columns \<subseteq> K - set removed_columns"
    using assms(3) base_not_removed base_known [OF assms(2) _ assms(1)] by blast
  from create_index_established [OF this assms(4), of N name] show ?thesis by simp
qed

lemma table_run: "runs (established K N) (create_table table columns pinned) (established K N)"
  using create_table_established [of K N] by simp

lemma current_run: "runs (established K N) (create_current table) (established K N)"
  unfolding create_current_def by (rule table_run)

lemma grant_tables_run:
  assumes "base_pairs \<subseteq> K"
  shows "runs (established K N) ensure_grant_tables
    (established K ({''idx_delegated_grants_lookup''} \<union> ({''idx_principal_grants_lookup''} \<union> N)))"
  unfolding ensure_grant_tables_def
  by (rule runs_Cons, rule table_run, rule runs_Cons, rule index_run [OF assms schema_table_eval(4) base_facts(2)],
      simp add: grants_lookup_def, rule runs_Cons, rule current_run, rule runs_Cons,
      rule index_run [OF assms schema_table_eval(5) base_facts(3)], simp add: grants_lookup_def, rule runs_Nil)

lemma admin_schema_run:
  assumes "base_pairs \<subseteq> K"
  shows "runs (established K N) migrate_admin_schema
    (established K ({''idx_authorization_admin_events_participant_id''} \<union> ({''idx_authorization_admin_events_grant''} \<union>
       ({''idx_delegated_grants_lookup''} \<union> ({''idx_principal_grants_lookup''} \<union> N)))))"
  unfolding migrate_admin_schema_def
  by (rule runs_Cons, rule grant_tables_run [OF assms], rule runs_Cons, rule current_run, rule runs_Cons,
      rule index_run [OF assms schema_table_eval(6) base_facts(4)], simp, rule runs_Cons,
      rule index_run [OF assms schema_table_eval(6) base_column_eval(4)], simp, rule runs_Nil)

lemma backfill_run:
  assumes keeps: "\<And>db0. keeps (database_kept db0) (backfill table columns receipt_columns f)"
    and "Pair table ` set columns \<subseteq> K - set removed_columns" "columns \<noteq> []"
    and "Pair ''execution_receipts'' ` set receipt_columns \<subseteq> K - set removed_columns" "receipt_columns \<noteq> []"
  shows "runs (established K N) (backfill table columns receipt_columns f) (established K N)"
proof -
  have "runs (established K N) (backfill table columns receipt_columns f) (established ({} \<union> K) ({} \<union> N))"
  proof (rule established_runs [OF keeps])
    fix db assume db: "established K N db"
    have has: "\<forall>c \<in> set columns. table_has_column db table c"
      "\<forall>c \<in> set receipt_columns. table_has_column db ''execution_receipts'' c"
      using assms(2,4) establishedD [OF db] by blast+
    then have "table_of db table \<noteq> None" "table_of db ''execution_receipts'' \<noteq> None"
      using assms(3,5) by (cases columns; cases receipt_columns; auto simp: has_column_table)+
    with has show "fst (backfill table columns receipt_columns f db) = Inr ()"
      by (auto simp: backfill_def list_all_iff change_rows_def has_column_table)
  qed (simp add: established_def)
  then show ?thesis by simp
qed

definition provenance_columns :: "string list" where
  "provenance_columns = [''principal_provider'', ''principal_subject'', ''capability'', ''resource'']"

lemma add_columns_direct:
  assumes "distinct columns" "\<forall>c \<in> set columns. \<not> table_has_column db table c" "table_of db table \<noteq> None"
  shows "fst (steps (map (\<lambda>column. add_column table column v) columns) db) = Inr () \<and>
    (\<forall>c. table_has_column (snd (steps (map (\<lambda>column. add_column table column v) columns) db)) table c \<longleftrightarrow>
       c \<in> set columns \<or> table_has_column db table c)"
  using assms
proof (induction columns arbitrary: db)
  case (Cons c cs)
  obtain t where t: "table_of db table = Some t" using Cons.prems(3) by blast
  then have "c \<notin> set (st_columns t)" using Cons.prems(2) by (simp add: has_column_table)
  then obtain t' where step: "add_column table c v db = (Inr (), put_table table t' db)" "st_columns t' = st_columns t @ [c]"
    by (simp add: add_column_def t)
  have has: "table_has_column (put_table table t' db) table c' \<longleftrightarrow> c' = c \<or> table_has_column db table c'" for c'
    by (auto simp: has_column_table statement_effects t step(2))
  show ?case
    using Cons.IH [of "put_table table t' db"] Cons.prems by (auto simp: step(1) has statement_effects)
qed simp

lemma add_missing_columns_run:
  assumes "base_pairs \<subseteq> K"
  shows "runs (established K N) add_missing_authorization_columns
    (established (Pair ''execution_authorization_provenance'' ` set provenance_columns \<union> K) N)"
proof -
  have "runs (established K N) add_missing_authorization_columns
    (established (Pair ''execution_authorization_provenance'' ` set provenance_columns \<union> K) ({} \<union> N))"
  proof (rule established_runs [OF add_missing_keep])
    fix db assume db: "established K N db"
    let ?t = "''execution_authorization_provenance''"
    let ?missing = "filter (\<lambda>c. c \<notin> set (columns_of db ?t)) provenance_columns"
    have "distinct ?missing" "\<forall>c \<in> set ?missing. \<not> table_has_column db ?t c"
      by (simp_all add: provenance_columns_def table_has_column_def)
    moreover from established_base [OF db assms schema_table_eval(9) base_column_eval(6)]
    have "table_of db ?t \<noteq> None" by (auto simp: has_column_table)
    ultimately have "fst (steps (map (\<lambda>column. add_column ?t column SNull) ?missing) db) = Inr () \<and>
        (\<forall>c. table_has_column (snd (steps (map (\<lambda>column. add_column ?t column SNull) ?missing) db)) ?t c \<longleftrightarrow>
           c \<in> set ?missing \<or> table_has_column db ?t c)"
      by (rule add_columns_direct)
    then have step: "fst (add_missing_authorization_columns db) = Inr ()"
      "\<forall>c \<in> set provenance_columns. table_has_column (snd (add_missing_authorization_columns db)) ?t c"
      by (auto simp: add_missing_authorization_columns_def provenance_columns_def [symmetric] Let_def table_has_column_def)
    then show "fst (add_missing_authorization_columns db) = Inr ()" by (rule conjunct1 [OF conjI])
    show "established (Pair ?t ` set provenance_columns) {} (snd (add_missing_authorization_columns db))"
      using step(2) by (auto simp: established_def)
  qed
  then show ?thesis by simp
qed

text \<open>The backfills settle: run again, they change nothing.\<close>

definition settled_by :: "string \<Rightarrow> (sql_row list \<Rightarrow> sql_row \<Rightarrow> sql_row) \<Rightarrow> database \<Rightarrow> bool" where
  "settled_by table f db \<longleftrightarrow> map (f (rows_of db ''execution_receipts'')) (rows_of db table) = rows_of db table"

lemma rows_of_backfill:
  assumes "fst (backfill table columns receipt_columns f db) = Inr ()"
  shows "rows_of (snd (backfill table columns receipt_columns f db)) table' =
    (if table' = table then map (f (rows_of db ''execution_receipts'')) (rows_of db table) else rows_of db table')"
  using assms
  by (auto simp: backfill_def change_rows_def rows_of_def statement_effects split: option.splits if_splits)

lemma backfill_settles:
  assumes "runs P (backfill table columns receipt_columns f) Q" "table \<noteq> ''execution_receipts''"
    and "\<And>receipts r. f receipts (f receipts r) = f receipts r"
  shows "runs P (backfill table columns receipt_columns f) (\<lambda>db. settled_by table f db \<and> Q db)"
  using assms by (simp add: runs_def settled_by_def rows_of_backfill comp_def)

lemma backfill_keeps_settled:
  assumes "runs P (backfill table columns receipt_columns f) Q" "table \<noteq> ''execution_receipts''" "table' \<noteq> table"
  shows "runs (\<lambda>db. settled_by table' g db \<and> P db) (backfill table columns receipt_columns f) (\<lambda>db. settled_by table' g db \<and> Q db)"
  using assms by (simp add: runs_def settled_by_def rows_of_backfill)

lemma recover_capability_idem: "recover_capability receipts (recover_capability receipts r) = recover_capability receipts r"
  by (simp add: recover_capability_def split: list.split)

lemma attribute_ingress_idem: "attribute_ingress receipts (attribute_ingress receipts r) = attribute_ingress receipts r"
  by (simp add: attribute_ingress_def Let_def)

definition evidence_settled :: "database \<Rightarrow> bool" where
  "evidence_settled db \<longleftrightarrow> settled_by ''ingress_provenance'' attribute_ingress db \<and>
     settled_by ''execution_authorization_provenance'' recover_capability db"

definition ingress_participant :: "string \<times> string" where
  "ingress_participant = (''ingress_provenance'', ''participant_id'')"

lemma execution_schema_run:
  assumes "base_pairs \<subseteq> K"
  shows "runs (established K N) migrate_execution_schema
    (\<lambda>db. evidence_settled db \<and> established (Pair ''execution_authorization_provenance'' ` set provenance_columns \<union> ({ingress_participant} \<union> K))
       ({''idx_ingress_provenance_execution''} \<union> ({''idx_execution_receipts_message''} \<union>
         ({''idx_ingress_provenance_intent''} \<union> N))) db)"
proof -
  let ?K1 = "{ingress_participant} \<union> K"
  let ?K2 = "Pair ''execution_authorization_provenance'' ` set provenance_columns \<union> ?K1"
  have K: "base_pairs \<subseteq> ?K1" "base_pairs \<subseteq> ?K2" using assms by blast+
  have "Pair ''ingress_provenance'' ` set [''intent_id''] \<subseteq> ?K1 - set removed_columns"
    using base_not_removed base_known [OF schema_table_eval(7) _ K(1)] base_facts(5) by blast
  moreover have "ingress_participant \<notin> set removed_columns" by (simp add: ingress_participant_def removed_columns_def)
  ultimately have ingress: "Pair ''ingress_provenance'' ` set [''participant_id'', ''intent_id''] \<subseteq> ?K1 - set removed_columns"
    by (simp add: ingress_participant_def)
  have eap: "Pair ''execution_authorization_provenance'' ` set [''capability'', ''participant_id'', ''intent_id'']
      \<subseteq> ?K2 - set removed_columns"
  proof -
    have "Pair ''execution_authorization_provenance'' ` set [''participant_id'', ''intent_id''] \<subseteq> ?K2 - set removed_columns"
      using base_not_removed base_known [OF schema_table_eval(9) _ K(2)] base_column_eval(6) by blast
    then show ?thesis by (simp add: provenance_columns_def removed_columns_def)
  qed
  have receipts: "Pair ''execution_receipts'' ` set columns \<subseteq> ?K2 - set removed_columns"
    if "set columns \<subseteq> set [''capability'', ''participant_id'', ''intent_id'']" for columns
    using that base_not_removed base_known [OF schema_table_eval(8) _ K(2)] base_column_eval(5) by blast
  have ingress': "Pair ''ingress_provenance'' ` set [''participant_id'', ''intent_id''] \<subseteq> ?K2 - set removed_columns"
    using ingress by blast
  have known: "runs (established K N') (unless_column ''ingress_provenance'' ''participant_id''
      [add_column ''ingress_provenance'' ''participant_id'' SNull]) (established ?K1 N')" for N'
    using add_known_runs [OF assms schema_table_eval(7), of "''intent_id''" "''participant_id''" N' SNull] base_facts(5)
    by (simp add: ingress_participant_def)
  have indexed: "runs (established ?K1 N') (create_index ''idx_ingress_provenance_execution'' ''ingress_provenance''
      [''participant_id'', ''intent_id'']) (established ?K1 ({''idx_ingress_provenance_execution''} \<union> N'))" for N'
    using create_index_established [OF ingress, of N'] by simp
  show ?thesis
    unfolding migrate_execution_schema_def
    apply (rule runs_Cons, rule current_run)
    apply (rule runs_Cons, rule index_run [OF assms schema_table_eval(7) base_facts(5)], simp)
    apply (rule runs_Cons, rule current_run)
    apply (rule runs_Cons, rule index_run [OF assms schema_table_eval(8) base_facts(6)], simp)
    apply (rule runs_Cons, rule current_run)
    apply (rule runs_Cons, rule known)
    apply (rule runs_Cons, rule indexed)
    apply (rule runs_Cons, rule add_missing_columns_run [OF K(1)])
    apply (rule runs_Cons, rule backfill_settles [OF backfill_run [OF statement_keeps(7) eap _ receipts]], simp, simp, simp, simp)
      apply (rule recover_capability_idem)
    apply (rule runs_Cons, rule backfill_settles [OF backfill_keeps_settled [OF backfill_run [OF statement_keeps(8) ingress' _ receipts]]],
        simp, simp, simp, simp, simp, simp)
      apply (rule attribute_ingress_idem)
    apply (rule runs_Nil)
    apply (simp add: evidence_settled_def)
    done
qed

section \<open>What is discarded stays discarded\<close>

text \<open>What \<open>gone\<close> speaks of: the columns and pins of the participants and the indexes on them.\<close>

lemma gone_cong:
  assumes "map_option (\<lambda>t. (set (st_columns t) \<inter> G, st_pinned t)) (table_of db' ''web_participants'') =
      map_option (\<lambda>t. (set (st_columns t) \<inter> G, st_pinned t)) (table_of db ''web_participants'')"
    and "\<And>i. i \<in> set (db_indexes db') \<Longrightarrow> ix_table i = ''web_participants'' \<Longrightarrow> i \<in> set (db_indexes db)"
    and "''idx_web_participants_public_key'' \<in> index_names db' \<Longrightarrow> ''idx_web_participants_public_key'' \<in> index_names db"
    and "gone G db"
  shows "gone G db'"
proof -
  have "droppable c db'" if "droppable c db" for c
    using that assms(1,2) unfolding droppable_def
    by (cases "table_of db ''web_participants''"; cases "table_of db' ''web_participants''") auto
  moreover have "\<not> table_has_column db' ''web_participants'' c" if "c \<in> G" "\<not> table_has_column db ''web_participants'' c" for c
    using that assms(1)
    by (cases "table_of db ''web_participants''"; cases "table_of db' ''web_participants''") (auto simp: has_column_table)
  ultimately show ?thesis using assms(3,4) by (auto simp: gone_def all_droppable_def)
qed

lemma gone_keeps:
  "column \<notin> G \<Longrightarrow> keeps (gone G) (add_column table column v)"
  "table \<noteq> ''web_participants'' \<Longrightarrow> keeps (gone G) (create_table table columns pinned)"
  "table \<noteq> ''web_participants'' \<Longrightarrow> name \<noteq> ''idx_web_participants_public_key'' \<Longrightarrow> keeps (gone G) (create_index name table columns)"
  "keeps (gone G) (change_rows table columns f)"
proof -
  show "keeps (gone G) (add_column table column v)" if "column \<notin> G"
    by (rule keepsI, erule gone_cong [rotated 3])
      (use that in \<open>auto simp: add_column_def statement_effects split: option.splits if_splits\<close>)
  show "keeps (gone G) (create_table table columns pinned)" if "table \<noteq> ''web_participants''"
    by (rule keepsI, erule gone_cong [rotated 3]) (use that in \<open>auto simp: create_table_def statement_effects split: if_splits\<close>)
  show "keeps (gone G) (create_index name table columns)"
    if "table \<noteq> ''web_participants''" "name \<noteq> ''idx_web_participants_public_key''"
    by (rule keepsI, erule gone_cong [rotated 3])
      (use that in \<open>auto simp: create_index_def statement_effects index_names_def split: if_splits\<close>)
  show "keeps (gone G) (change_rows table columns f)"
    by (rule keepsI, erule gone_cong [rotated 3]) (auto simp: change_rows_def statement_effects split: option.splits if_splits)
qed

lemma gone_rename:
  assumes "table \<noteq> ''web_participants''"
  shows "keeps (gone G) (rename_column table old new)"
proof (rule keepsI, erule gone_cong [rotated 3])
  fix db :: database
  have "index_names (snd (rename_column table old new db)) = index_names db"
    by (auto simp: rename_column_def index_names_put index_names_update index_names_renamed index_names_def
        simp del: set_map split: option.split)
  then show "''idx_web_participants_public_key'' \<in> index_names (snd (rename_column table old new db)) \<Longrightarrow>
      ''idx_web_participants_public_key'' \<in> index_names db" by simp
qed (use assms in \<open>auto simp: rename_column_def statement_effects split: option.splits if_splits\<close>)

lemma gone_backfill: "keeps (gone G) (backfill table columns receipt_columns f)"
proof (rule keepsI)
  fix db assume "gone G db"
  then show "gone G (snd (backfill table columns receipt_columns f db))"
    using keepsD [OF gone_keeps(4)] by (simp add: backfill_def)
qed

lemma gone_channel_metadata: "keeps (gone G) migrate_channel_metadata"
proof (rule keepsI)
  fix db assume "gone G db"
  then show "gone G (snd (migrate_channel_metadata db))"
    using keepsD [OF gone_keeps(4)] by (simp add: migrate_channel_metadata_def Let_def)
qed

lemma gone_add_missing:
  assumes "G \<inter> set provenance_columns = {}"
  shows "keeps (gone G) add_missing_authorization_columns"
proof (rule keepsI)
  fix db assume db: "gone G db"
  let ?missing = "filter (\<lambda>c. c \<notin> set (columns_of db ''execution_authorization_provenance'')) provenance_columns"
  have "keeps (gone G) (steps (map (\<lambda>column. add_column ''execution_authorization_provenance'' column SNull) ?missing))"
    by (rule keeps_steps) (use assms in \<open>auto intro!: gone_keeps(1)\<close>)
  from keepsD [OF this db] show "gone G (snd (add_missing_authorization_columns db))"
    by (simp only: add_missing_authorization_columns_def provenance_columns_def Let_def)
qed

lemma gone_migrations:
  assumes "G = set discarded"
  shows "keeps (gone G) migrate_web_participant_totp_columns" "keeps (gone G) (migrate_web_participant_role now)"
    "keeps (gone G) migrate_web_participant_status" "keeps (gone G) migrate_message_conversation_ref"
    "keeps (gone G) migrate_admin_schema" "keeps (gone G) migrate_execution_schema" "keeps (gone G) ensure_owner_columns"
proof -
  have G: "column \<notin> G" if "column \<notin> {''public_key'', ''signature_scheme''}" for column
    using that assms by (simp add: discarded_def)
  note rules = keeps_intros gone_keeps(4) gone_keeps(1) [OF G] gone_keeps(2,3)
  show "keeps (gone G) migrate_web_participant_totp_columns"
    unfolding migrate_web_participant_totp_columns_def by (auto intro!: rules)
  show "keeps (gone G) (migrate_web_participant_role now)"
    unfolding migrate_web_participant_role_def by (auto intro!: rules)
  show "keeps (gone G) migrate_web_participant_status"
    unfolding migrate_web_participant_status_def by (auto intro!: rules)
  show "keeps (gone G) migrate_admin_schema"
    unfolding migrate_admin_schema_def ensure_grant_tables_def create_current_def by (auto intro!: rules)
  have "G \<inter> set provenance_columns = {}" using assms by (simp add: discarded_def provenance_columns_def)
  then show "keeps (gone G) migrate_execution_schema"
    unfolding migrate_execution_schema_def create_current_def by (auto intro!: rules gone_backfill gone_add_missing)
  show "keeps (gone G) ensure_owner_columns"
    unfolding ensure_owner_columns_def by (auto intro!: rules)
  show "keeps (gone G) migrate_message_conversation_ref"
    unfolding migrate_message_conversation_ref_def
  proof (rule keeps_unless_column)
    fix s assume s: "s \<in> set [\<lambda>db. if table_has_column db ''messages'' ''conversation_uuid''
        then rename_column ''messages'' ''conversation_uuid'' ''conversation_ref'' db
        else add_column ''messages'' ''conversation_ref'' SNull db]"
    have "keeps (gone G) (rename_column ''messages'' ''conversation_uuid'' ''conversation_ref'')"
      "keeps (gone G) (add_column ''messages'' ''conversation_ref'' SNull)"
      by (auto intro!: gone_rename rules)
    with s show "keeps (gone G) s" by (auto simp: keeps_def)
  qed
qed

definition initialized_pairs :: "(string \<times> string) set" where
  "initialized_pairs = Pair ''execution_authorization_provenance'' ` set provenance_columns \<union>
     ({ingress_participant} \<union> ({(''messages'', ''conversation_ref'')} \<union> ({(''web_participants'', ''status'')} \<union>
      ({(''web_participants'', ''role'')} \<union>
       (Pair ''web_participants'' ` {''totp_secret'', ''totp_last_step'', ''totp_fail_count'', ''totp_locked_until''} \<union>
        ({(''web_participants'', ''auth_secret'')} \<union> ({(''web_participants'', ''auth_scheme'')} \<union> base_pairs)))))))"

definition initialized_indexes :: "string set" where
  "initialized_indexes = {''idx_ingress_provenance_execution''} \<union> ({''idx_execution_receipts_message''} \<union>
     ({''idx_ingress_provenance_intent''} \<union> ({''idx_authorization_admin_events_participant_id''} \<union>
      ({''idx_authorization_admin_events_grant''} \<union> ({''idx_delegated_grants_lookup''} \<union>
       ({''idx_principal_grants_lookup''} \<union> schema_indexes))))))"

definition initialized :: "database \<Rightarrow> bool" where
  "initialized db \<longleftrightarrow> gone (set discarded) db \<and> evidence_settled db \<and> established initialized_pairs initialized_indexes db"

definition before_channels :: "int \<Rightarrow> statement list" where
  "before_channels now = schema_batch @
    [migrate_web_participant_auth_columns, migrate_web_participant_totp_columns, migrate_web_participant_role now,
     migrate_web_participant_status, migrate_message_conversation_ref]"

lemma initialize_split:
  "initialize now = steps (before_channels now @ [migrate_channel_metadata, migrate_admin_schema, migrate_execution_schema])"
  by (simp add: initialize_def initialize_statements_def before_channels_def)

definition prepared_pairs :: "(string \<times> string) set" where
  "prepared_pairs = {(''messages'', ''conversation_ref'')} \<union> ({(''web_participants'', ''status'')} \<union>
      ({(''web_participants'', ''role'')} \<union>
       (Pair ''web_participants'' ` {''totp_secret'', ''totp_last_step'', ''totp_fail_count'', ''totp_locked_until''} \<union>
        ({(''web_participants'', ''auth_secret'')} \<union> ({(''web_participants'', ''auth_scheme'')} \<union> base_pairs)))))"

lemma before_channels_run:
  "runs legacy_database (steps (before_channels now))
     (\<lambda>db. gone (set discarded) db \<and> established prepared_pairs schema_indexes db)"
proof -
  note disc = gone_migrations [OF refl]
  have batch: "runs legacy_database (steps schema_batch) (\<lambda>db. all_droppable db \<and> established base_pairs schema_indexes db)"
    by (rule runs_weaken [OF schema_batch_runs])
      (auto simp: schema_batch_established, auto simp: created_tables_def legacy_database_def all_droppable_def)
  have "(''web_participants'', ''participant_id'') \<in> base_pairs"
    using base_column_eval(2) schema_table_eval(2) by (simp add: base_pairs_def)
  note auth = auth_columns_run [OF this]
  show ?thesis
    unfolding before_channels_def prepared_pairs_def
    apply (rule runs_append [OF batch])
    apply (rule runs_Cons [OF auth])
    apply (rule runs_Cons, rule keeps_runs [OF disc(1) totp_columns_run], blast)
    apply (rule runs_Cons, rule keeps_runs [OF disc(2) role_run], blast)
    apply (rule runs_Cons, rule keeps_runs [OF disc(3) status_run], blast)
    apply (rule runs_Cons, rule keeps_runs [OF disc(4) conversation_ref_run], blast)
    apply (rule runs_Nil)
    apply simp
    done
qed

lemma prepared_base: "base_pairs \<subseteq> prepared_pairs"
  unfolding prepared_pairs_def by blast

lemma initialize_runs: "runs legacy_database (initialize now) initialized"
proof -
  note disc = gone_migrations [OF refl]
  show ?thesis
    unfolding initialize_split initialized_def initialized_pairs_def initialized_indexes_def
    apply (rule runs_append [OF before_channels_run])
    apply (rule runs_Cons, rule keeps_runs [OF gone_channel_metadata channel_metadata_run [OF prepared_base]])
    apply (rule runs_Cons, rule keeps_runs [OF disc(5) admin_schema_run], use prepared_base in simp)
    apply (rule runs_Cons, rule keeps_runs [OF disc(6) execution_schema_run], use prepared_base in simp)
    apply (rule runs_Nil)
    apply (simp add: prepared_pairs_def)
    done
qed

section \<open>Every channel of the messages has its row\<close>

definition channels_settled :: "database \<Rightarrow> bool" where
  "channels_settled db \<longleftrightarrow> (\<forall>m \<in> set (rows_of db ''messages'').
     migrated_channel (rows_of db ''messages'') (m ''channel'') ''created_at'' = SNull \<or>
     (\<exists>c \<in> set (rows_of db ''channels''). sql_eq (c ''name'') (m ''channel'')))"

definition named_messages :: "database \<Rightarrow> bool" where
  "named_messages db \<longleftrightarrow> (\<forall>m \<in> set (rows_of db ''messages''). m ''channel'' \<noteq> SNull)"

lemma migrated_channel_name: "migrated_channel msgs name ''name'' = name"
  by (simp add: migrated_channel_def Let_def)

lemma insert_channels_settle:
  assumes "SNull \<notin> set names" "name \<in> set names"
  shows "migrated_channel msgs name ''created_at'' = SNull \<or>
    (\<exists>c \<in> set (fold (\<lambda>name. insert_or_ignore_channel (migrated_channel msgs name)) names rows). sql_eq (c ''name'') name)"
  using assms
proof (induction names arbitrary: rows)
  case (Cons n ns)
  let ?insert = "\<lambda>name. insert_or_ignore_channel (migrated_channel msgs name)"
  show ?case
  proof (cases "name = n")
    case True
    obtain more where more: "fold ?insert ns (?insert n rows) = ?insert n rows @ more"
      using insert_channels_append [of "migrated_channel msgs"] by blast
    have "migrated_channel msgs n ''created_at'' = SNull \<or> (\<exists>c \<in> set (?insert n rows). sql_eq (c ''name'') n)"
      using Cons.prems by (auto simp: insert_or_ignore_channel_def migrated_channel_name sql_eq_def)
    then show ?thesis unfolding True using more by auto
  next
    case False
    then show ?thesis using Cons.IH [of "?insert n rows"] Cons.prems by simp
  qed
qed simp

lemma channel_rows:
  assumes "fst (migrate_channel_metadata db) = Inr ()"
  shows "rows_of (snd (migrate_channel_metadata db)) ''messages'' = rows_of db ''messages''"
    "rows_of (snd (migrate_channel_metadata db)) ''channels'' =
      fold (\<lambda>name. insert_or_ignore_channel (migrated_channel (rows_of db ''messages'') name))
        (remdups (map (\<lambda>m. m ''channel'') (rows_of db ''messages''))) (rows_of db ''channels'')"
  using assms
  by (auto simp: migrate_channel_metadata_def change_rows_def rows_of_def statement_effects Let_def
      split: option.splits if_splits)

lemma channels_settle:
  assumes "fst (migrate_channel_metadata db) = Inr ()" "named_messages db"
  shows "channels_settled (snd (migrate_channel_metadata db))"
  unfolding channels_settled_def channel_rows [OF assms(1)]
proof
  fix m assume m: "m \<in> set (rows_of db ''messages'')"
  have "SNull \<notin> set (remdups (map (\<lambda>m. m ''channel'') (rows_of db ''messages'')))"
    using assms(2) by (force simp: named_messages_def)
  moreover have "m ''channel'' \<in> set (remdups (map (\<lambda>m. m ''channel'') (rows_of db ''messages'')))" using m by simp
  ultimately show "migrated_channel (rows_of db ''messages'') (m ''channel'') ''created_at'' = SNull \<or>
      (\<exists>c \<in> set (fold (\<lambda>name. insert_or_ignore_channel (migrated_channel (rows_of db ''messages'') name))
        (remdups (map (\<lambda>m. m ''channel'') (rows_of db ''messages''))) (rows_of db ''channels'')).
        sql_eq (c ''name'') (m ''channel''))"
    by (rule insert_channels_settle)
qed

lemma settled_channels_idle:
  assumes "channels_settled db"
  shows "fold (\<lambda>name. insert_or_ignore_channel (migrated_channel (rows_of db ''messages'') name))
      (remdups (map (\<lambda>m. m ''channel'') (rows_of db ''messages''))) (rows_of db ''channels'') = rows_of db ''channels''"
proof (rule fold_invariant [where P = "\<lambda>rows. rows = rows_of db ''channels''"])
  fix name rows assume "name \<in> set (remdups (map (\<lambda>m. m ''channel'') (rows_of db ''messages'')))"
    and rows: "rows = rows_of db ''channels''"
  then obtain m where "m \<in> set (rows_of db ''messages'')" "name = m ''channel''" by auto
  then show "insert_or_ignore_channel (migrated_channel (rows_of db ''messages'') name) rows = rows_of db ''channels''"
    using assms by (auto simp: insert_or_ignore_channel_def channels_settled_def migrated_channel_name rows)
qed simp_all

lemma channels_settled_cong:
  "rows_of db' ''messages'' = rows_of db ''messages'' \<Longrightarrow> rows_of db' ''channels'' = rows_of db ''channels'' \<Longrightarrow>
     channels_settled db \<Longrightarrow> channels_settled db'"
  by (simp add: channels_settled_def)

lemma channels_settled_keeps:
  assumes "table \<notin> {''messages'', ''channels''}"
  shows "keeps channels_settled (create_table table columns pinned)"
    "keeps channels_settled (create_index name table' columns)"
    "keeps channels_settled (add_column table column v)"
    "keeps channels_settled (backfill table columns receipt_columns f)"
proof -
  have rows: "\<lbrakk>\<And>db table'. table' \<noteq> table \<Longrightarrow> rows_of (snd (s db)) table' = rows_of db table'\<rbrakk> \<Longrightarrow> keeps channels_settled s" for s
    by (rule keepsI, erule channels_settled_cong [rotated 2]) (use assms in auto)
  show "keeps channels_settled (create_table table columns pinned)"
    by (rule rows) (simp add: create_table_def rows_of_def statement_effects)
  show "keeps channels_settled (create_index name table' columns)"
    by (rule rows) (simp add: create_index_def rows_of_def statement_effects)
  show "keeps channels_settled (add_column table column v)"
    by (rule rows) (simp add: add_column_def rows_of_def statement_effects split: option.split)
  show "keeps channels_settled (backfill table columns receipt_columns f)"
    by (rule rows) (simp add: backfill_def change_rows_def rows_of_def statement_effects split: option.split)
qed

lemma channels_settled_migrations:
  "keeps channels_settled migrate_admin_schema" "keeps channels_settled migrate_execution_schema"
proof -
  show "keeps channels_settled migrate_admin_schema"
    unfolding migrate_admin_schema_def ensure_grant_tables_def create_current_def
    by (auto intro!: keeps_intros channels_settled_keeps)
  have "keeps channels_settled add_missing_authorization_columns"
  proof (rule keepsI)
    fix db assume db: "channels_settled db"
    have "keeps channels_settled (steps (map (\<lambda>column. add_column ''execution_authorization_provenance'' column SNull) columns))"
      for columns by (rule keeps_steps) (auto intro!: channels_settled_keeps)
    from keepsD [OF this db] show "channels_settled (snd (add_missing_authorization_columns db))"
      by (simp only: add_missing_authorization_columns_def Let_def)
  qed
  then show "keeps channels_settled migrate_execution_schema"
    unfolding migrate_execution_schema_def create_current_def
    by (auto intro!: keeps_intros channels_settled_keeps)
qed

lemma named_keeps:
  "keeps named_messages (create_table table columns pinned)"
  "keeps named_messages (create_index name table columns)"
  "keeps named_messages (drop_index_if_exists name)"
  "column \<noteq> ''channel'' \<Longrightarrow> keeps named_messages (add_column table column v)"
  "table \<noteq> ''messages'' \<Longrightarrow> keeps named_messages (drop_column table column)"
  "old \<noteq> ''channel'' \<Longrightarrow> new \<noteq> ''channel'' \<Longrightarrow> keeps named_messages (rename_column table old new)"
  "table \<noteq> ''messages'' \<Longrightarrow> keeps named_messages (change_rows table columns f)"
  by (auto intro!: keepsI simp: named_messages_def rows_of_def create_table_def create_index_def drop_index_if_exists_def
      add_column_def drop_column_def rename_column_def change_rows_def statement_effects split: option.splits if_splits)

lemma named_before_channels:
  "s \<in> set schema_batch \<Longrightarrow> keeps named_messages s"
  "keeps named_messages migrate_web_participant_auth_columns" "keeps named_messages migrate_web_participant_totp_columns"
  "keeps named_messages (migrate_web_participant_role now)" "keeps named_messages migrate_web_participant_status"
  "keeps named_messages migrate_message_conversation_ref"
proof -
  note rules = keeps_intros named_keeps
  show "s \<in> set schema_batch \<Longrightarrow> keeps named_messages s"
    unfolding schema_batch_def create_current_def by (auto intro!: rules)
  show "keeps named_messages migrate_web_participant_auth_columns"
    unfolding migrate_web_participant_auth_columns_def by (auto intro!: rules)
  show "keeps named_messages migrate_web_participant_totp_columns"
    unfolding migrate_web_participant_totp_columns_def by (auto intro!: rules)
  show "keeps named_messages (migrate_web_participant_role now)"
    unfolding migrate_web_participant_role_def by (auto intro!: rules)
  show "keeps named_messages migrate_web_participant_status"
    unfolding migrate_web_participant_status_def by (auto intro!: rules)
  have "keeps named_messages (rename_column ''messages'' ''conversation_uuid'' ''conversation_ref'')"
    "keeps named_messages (add_column ''messages'' ''conversation_ref'' SNull)" by (auto intro!: rules)
  then show "keeps named_messages migrate_message_conversation_ref"
    unfolding migrate_message_conversation_ref_def by (intro keeps_unless_column) (auto simp: keeps_def)
qed

lemma initialize_settles_channels:
  "runs (\<lambda>db. named_messages db \<and> legacy_database db) (initialize now) channels_settled"
proof -
  have named: "keeps named_messages (steps (before_channels now))"
    by (rule keeps_steps) (auto simp: before_channels_def named_before_channels)
  have channels: "runs (\<lambda>db. named_messages db \<and> gone (set discarded) db \<and> established prepared_pairs schema_indexes db)
      migrate_channel_metadata (\<lambda>db. channels_settled db \<and> established prepared_pairs schema_indexes db)"
    using channel_metadata_run [OF prepared_base, of schema_indexes] channels_settle by (simp add: runs_def)
  show ?thesis
    unfolding initialize_split
    apply (rule runs_append [OF keeps_runs [OF named before_channels_run]])
    apply (rule runs_Cons [OF channels])
    apply (rule runs_Cons, rule keeps_runs [OF channels_settled_migrations(1) admin_schema_run [OF prepared_base]])
    apply (rule runs_Cons, rule keeps_runs [OF channels_settled_migrations(2) execution_schema_run [OF prepared_base]])
    apply (rule runs_Nil)
    apply simp
    done
qed

section \<open>Initialising again\<close>

definition idle :: "database \<Rightarrow> statement \<Rightarrow> bool" where
  "idle db s \<longleftrightarrow> s db = (Inr (), db)"

lemma idle_steps: "\<forall>s \<in> set ss. idle db s \<Longrightarrow> idle db (steps ss)"
  by (induction ss) (simp_all add: idle_def)

lemma update_present: "map_of xs k = Some v \<Longrightarrow> AList.update k v xs = xs"
  by (induction xs) auto

lemma put_present: "table_of db table = Some t \<Longrightarrow> put_table table t db = db"
  by (simp add: put_table_def table_of_def update_present)

lemma idle_create_table: "table_of db table \<noteq> None \<Longrightarrow> idle db (create_table table columns pinned)"
  by (simp add: idle_def create_table_def)

lemma idle_create_index: "name \<in> index_names db \<Longrightarrow> idle db (create_index name table columns)"
  by (auto simp: idle_def create_index_def index_names_def)

lemma idle_unless_column: "table_has_column db table column \<Longrightarrow> idle db (unless_column table column ss)"
  by (simp add: idle_def unless_column_def)

lemma idle_when_column: "\<not> table_has_column db table column \<Longrightarrow> idle db (when_column table column ss)"
  by (simp add: idle_def when_column_def)

lemma idle_drop_index: "name \<notin> index_names db \<Longrightarrow> idle db (drop_index_if_exists name)"
  by (auto simp: idle_def drop_index_if_exists_def index_names_def intro!: database.equality filter_True)

lemma idle_change_rows:
  assumes "table_of db table \<noteq> None" "list_all (table_has_column db table) columns" "f (rows_of db table) = rows_of db table"
  shows "idle db (change_rows table columns f)"
  using assms put_present [of db table]
  by (auto simp: idle_def change_rows_def rows_of_def list_all_iff has_column_table)

lemma idle_backfill:
  assumes "settled_by table f db" "table_of db table \<noteq> None" "table_of db ''execution_receipts'' \<noteq> None"
    "list_all (table_has_column db table) columns" "list_all (table_has_column db ''execution_receipts'') receipt_columns"
  shows "idle db (backfill table columns receipt_columns f)"
  using idle_change_rows [OF assms(2,4), of "map (f (rows_of db ''execution_receipts''))"] assms
  by (simp add: idle_def backfill_def settled_by_def)

lemma idle_channel_metadata:
  assumes "channels_settled db" "table_of db ''messages'' \<noteq> None" "table_of db ''channels'' \<noteq> None"
    "list_all (table_has_column db ''messages'') [''channel'', ''created_at'']"
    "list_all (table_has_column db ''channels'') [''name'', ''visibility'', ''status'', ''created_at'', ''updated_at'', ''created_by'']"
  shows "idle db migrate_channel_metadata"
  using idle_change_rows [of db, OF assms(3,5), where f = "fold (\<lambda>name. insert_or_ignore_channel
      (migrated_channel (rows_of db ''messages'') name)) (remdups (map (\<lambda>m. m ''channel'') (rows_of db ''messages'')))",
      OF settled_channels_idle [OF assms(1)]] assms(2,4)
  by (simp add: idle_def migrate_channel_metadata_def Let_def)

lemma initialized_has:
  assumes "initialized db" "(table, column) \<in> initialized_pairs" "(table, column) \<notin> set removed_columns"
  shows "table_has_column db table column"
  using assms(1) establishedD [OF _ assms(2,3)] by (auto simp: initialized_def)

lemma initialized_base:
  assumes "initialized db" "table \<in> set schema_tables" "column \<in> set (base_columns table)"
  shows "table_has_column db table column"
proof (rule initialized_has [OF assms(1) _ base_not_removed [OF assms(3)]])
  show "(table, column) \<in> initialized_pairs"
    using assms(2,3) by (simp add: initialized_pairs_def base_pairs_def)
qed

lemma base_columns_inhabited: "table \<in> set schema_tables \<Longrightarrow> base_columns table \<noteq> []"
proof -
  have "list_all (\<lambda>table. base_columns table \<noteq> []) schema_tables" by code_simp
  then show "table \<in> set schema_tables \<Longrightarrow> base_columns table \<noteq> []" by (simp add: list_all_iff)
qed

lemma initialized_tables:
  assumes "initialized db" "table \<in> set schema_tables"
  shows "table_of db table \<noteq> None"
proof -
  obtain c where "c \<in> set (base_columns table)" using base_columns_inhabited [OF assms(2)] by (cases "base_columns table") auto
  from initialized_base [OF assms this] show ?thesis by (auto simp: has_column_table)
qed

lemma initialized_index: "initialized db \<Longrightarrow> name \<in> initialized_indexes \<Longrightarrow> name \<in> index_names db"
  by (auto simp: initialized_def established_def initialized_indexes_def schema_indexes_def)

lemma initialized_migrated:
  assumes "initialized db"
  shows "\<forall>column \<in> set [''auth_scheme'', ''auth_secret'', ''totp_secret'', ''totp_last_step'', ''totp_fail_count'',
      ''totp_locked_until'', ''role'', ''status'']. table_has_column db ''web_participants'' column"
    "table_has_column db ''messages'' ''conversation_ref''"
    "table_has_column db ''ingress_provenance'' ''participant_id''"
    "\<forall>column \<in> set provenance_columns. table_has_column db ''execution_authorization_provenance'' column"
    "\<forall>column \<in> set discarded. \<not> table_has_column db ''web_participants'' column"
    "''idx_web_participants_public_key'' \<notin> index_names db"
proof -
  have "table_has_column db table column" if "(table, column) \<in> initialized_pairs"
    "column \<notin> {''public_key'', ''signature_scheme'', ''conversation_uuid''}" for table column
    using initialized_has [OF assms that(1)] that(2) by (auto simp: removed_columns_def)
  then show "\<forall>column \<in> set [''auth_scheme'', ''auth_secret'', ''totp_secret'', ''totp_last_step'', ''totp_fail_count'',
      ''totp_locked_until'', ''role'', ''status'']. table_has_column db ''web_participants'' column"
    "table_has_column db ''messages'' ''conversation_ref''"
    "table_has_column db ''ingress_provenance'' ''participant_id''"
    "\<forall>column \<in> set provenance_columns. table_has_column db ''execution_authorization_provenance'' column"
    by (simp_all add: initialized_pairs_def ingress_participant_def provenance_columns_def)
  show "\<forall>column \<in> set discarded. \<not> table_has_column db ''web_participants'' column"
    "''idx_web_participants_public_key'' \<notin> index_names db"
    using assms by (auto simp: initialized_def gone_def)
qed

lemma initialized_idle:
  assumes db: "initialized db" and channels: "channels_settled db"
  shows "idle db (initialize now)"
proof -
  note migrated = initialized_migrated [OF db]
  have table: "table \<in> set schema_tables \<Longrightarrow> idle db (create_table table columns pinned)" for table columns pinned
    using idle_create_table [OF initialized_tables [OF db]] by blast
  have current: "table \<in> set schema_tables \<Longrightarrow> idle db (create_current table)" for table
    unfolding create_current_def by (rule table)
  have tables: "schema_tables = [''messages'', ''identities'', ''web_capabilities'', ''web_participants'',
      ''principal_grants'', ''delegated_grants'', ''authorization_admin_events'', ''channels'', ''navigation_writes'',
      ''ingress_provenance'', ''execution_receipts'', ''execution_authorization_provenance'']"
    by (simp add: schema_tables_def current_schema_def)
  have index: "name \<in> initialized_indexes \<Longrightarrow> idle db (create_index name table columns)" for name table columns
    using initialized_index [OF db] by (rule idle_create_index)
  note indexes = index [unfolded initialized_indexes_def schema_indexes_def]
  have base: "list_all (table_has_column db table) columns"
    if "set columns \<subseteq> set (base_columns table)" "table \<in> set schema_tables" for table columns
    using that initialized_base [OF db that(2)] by (auto simp: list_all_iff)
  have exists: "table \<in> set schema_tables \<Longrightarrow> table_of db table \<noteq> None" for table by (rule initialized_tables [OF db])
  have batch: "\<forall>s \<in> set schema_batch. idle db s"
    unfolding schema_batch_def by (simp add: current indexes tables)
  have auth: "idle db migrate_web_participant_auth_columns"
    unfolding migrate_web_participant_auth_columns_def
    by (rule idle_steps) (use migrated in \<open>simp add: idle_unless_column idle_drop_index idle_when_column discarded_def\<close>)
  have totp: "idle db migrate_web_participant_totp_columns"
    unfolding migrate_web_participant_totp_columns_def
    by (rule idle_steps) (use migrated in \<open>simp add: idle_unless_column\<close>)
  have rest: "idle db (migrate_web_participant_role now)" "idle db migrate_web_participant_status"
    "idle db migrate_message_conversation_ref"
    unfolding migrate_web_participant_role_def migrate_web_participant_status_def migrate_message_conversation_ref_def
    using migrated by (simp_all add: idle_unless_column)
  have channel: "idle db migrate_channel_metadata"
    by (rule idle_channel_metadata [OF channels exists exists base base])
      (use base_column_eval(1,3) schema_table_eval in auto)
  have admin: "idle db migrate_admin_schema"
    unfolding migrate_admin_schema_def ensure_grant_tables_def
    by (intro idle_steps ballI) (auto intro!: idle_steps simp: current table indexes tables)
  have missing: "idle db add_missing_authorization_columns"
  proof -
    have "filter (\<lambda>c. c \<notin> set (columns_of db ''execution_authorization_provenance'')) provenance_columns = []"
      using migrated(4) by (simp add: filter_empty_conv table_has_column_def)
    then show ?thesis
      by (simp add: idle_def add_missing_authorization_columns_def provenance_columns_def [symmetric] Let_def)
  qed
  have eap: "list_all (table_has_column db ''execution_authorization_provenance'') [''capability'', ''participant_id'', ''intent_id'']"
    using migrated(4) base [OF base_column_eval(6) schema_table_eval(9)] by (simp add: provenance_columns_def)
  have receipts: "list_all (table_has_column db ''execution_receipts'') [''capability'', ''participant_id'', ''intent_id'']"
    by (rule base [OF base_column_eval(5) schema_table_eval(8)])
  have ingress: "list_all (table_has_column db ''ingress_provenance'') [''participant_id'', ''intent_id'']"
    using migrated(3) base [OF base_facts(5) schema_table_eval(7)] by simp
  have evidence: "evidence_settled db" using db by (simp add: initialized_def)
  have "idle db (backfill ''execution_authorization_provenance'' [''capability'', ''participant_id'', ''intent_id'']
       [''capability'', ''participant_id'', ''intent_id''] recover_capability)"
    by (rule idle_backfill [OF _ exists exists eap receipts]) (use evidence schema_table_eval in \<open>auto simp: evidence_settled_def\<close>)
  moreover have "idle db (backfill ''ingress_provenance'' [''participant_id'', ''intent_id''] [''participant_id'', ''intent_id'']
      attribute_ingress)"
    by (rule idle_backfill [OF _ exists exists ingress])
      (use evidence schema_table_eval receipts in \<open>auto simp: evidence_settled_def\<close>)
  ultimately have execution: "idle db migrate_execution_schema"
    unfolding migrate_execution_schema_def
    by (intro idle_steps ballI) (use migrated(3) missing in \<open>auto simp: current indexes tables idle_unless_column\<close>)
  show ?thesis
    unfolding initialize_def initialize_statements_def
    by (rule idle_steps) (use batch auth totp rest channel admin execution in auto)
qed

section \<open>The schema a migration leaves\<close>

lemma catalog_table: "map_of (catalog db) table = map_option st_columns (table_of db table)"
  unfolding catalog_def table_of_def by (induction "db_tables db") (auto simp: map_of_map)

lemma catalog_has_columns:
  "table_has_columns (b\<lparr>schema := catalog db\<rparr>) table columns \<longleftrightarrow>
     table_of db table \<noteq> None \<and> list_all (table_has_column db table) columns"
  by (cases "table_of db table")
    (simp_all add: table_has_columns_def catalog_table table_has_column_def columns_of_def list_all_iff)

definition all_current_columns :: "database \<Rightarrow> bool" where
  "all_current_columns db \<longleftrightarrow> list_all (\<lambda>(table, columns). list_all (table_has_column db table) columns) current_schema"

lemma current_tables_inhabited: "columns \<noteq> []" if "(table, columns) \<in> set current_schema"
  using that by (auto simp: current_schema_def)

lemma current_columns_transfer:
  assumes "all_current_columns db" "table_has_columns b0 table columns" "schema b0 = current_schema"
  shows "table_has_columns (b\<lparr>schema := catalog db\<rparr>) table columns"
proof -
  obtain cs where cs: "map_of current_schema table = Some cs" "list_all (\<lambda>c. c \<in> set cs) columns"
    using assms(2,3) by (auto simp: table_has_columns_def split: option.splits)
  then have "(table, cs) \<in> set current_schema" by (blast dest: map_of_SomeD)
  then have all: "list_all (table_has_column db table) cs" "cs \<noteq> []"
    using assms(1) current_tables_inhabited by (auto simp: all_current_columns_def list_all_iff)
  then have "table_of db table \<noteq> None" by (cases cs) (auto simp: has_column_table)
  with all cs(2) show ?thesis unfolding catalog_has_columns by (auto simp: list_all_iff)
qed

definition schema_guards :: "board \<Rightarrow> bool" where
  "schema_guards b \<longleftrightarrow> schema_current b \<and> authorization_policy_snapshot_schema_current b \<and>
     authorization_integrity_schema_current b \<and> authorization_decision_schema_current b \<and>
     effective_grants_schema_current b \<and> execution_schema_current b"

lemma all_current_guards:
  assumes "all_current_columns db"
  shows "schema_guards (b\<lparr>schema := catalog db\<rparr>)"
proof -
  have current: "schema empty_board = current_schema" by (simp add: empty_board_def)
  have transfer: "table_has_columns empty_board table columns \<Longrightarrow> table_has_columns (b\<lparr>schema := catalog db\<rparr>) table columns"
    for table columns by (rule current_columns_transfer [OF assms _ current])
  have "execution_schema_current empty_board" by code_simp
  moreover have exists: "table_exists b' t = table_has_columns b' t []" for b' t
    by (simp add: table_exists_def table_has_columns_def split: option.split)
  ultimately show ?thesis
    using current_schema_checks(2-) [OF current]
    unfolding schema_guards_def schema_current_def authorization_policy_snapshot_schema_current_def
      authorization_integrity_schema_current_def authorization_decision_schema_current_def
      effective_grants_schema_current_def execution_schema_current_def has_column_def list_all_iff exists
    by (intro conjI ballI transfer) blast+
qed

definition owner_columns :: "string list" where
  "owner_columns = [''owner_provider'', ''owner_subject'', ''owner_login'']"

lemma current_columns_established:
  assumes "established (Pair ''web_participants'' ` set owner_columns \<union> initialized_pairs) N db"
  shows "all_current_columns db"
  unfolding all_current_columns_def list_all_iff
proof (intro ballI, clarify)
  fix table columns column assume t: "(table, columns) \<in> set current_schema" and c: "column \<in> set columns"
  have "distinct (map fst current_schema)" by (simp add: current_schema_def)
  with t have of_table: "of_table current_schema table = columns" by (simp add: of_table_def)
  let ?K = "Pair ''web_participants'' ` set owner_columns \<union> initialized_pairs"
  have "(table, column) \<in> ?K"
  proof (cases "column \<in> set (of_table migrated_columns table)")
    case True
    have "\<forall>(table, columns) \<in> set migrated_columns. Pair table ` set columns \<subseteq> ?K"
      by (simp add: migrated_columns_def initialized_pairs_def ingress_participant_def provenance_columns_def owner_columns_def)
    moreover have "(table, of_table migrated_columns table) \<in> set migrated_columns"
      using True by (auto simp: of_table_def split: option.splits dest: map_of_SomeD)
    ultimately show ?thesis using True by blast
  next
    case False
    then have "(table, column) \<in> base_pairs"
      using t c of_table by (force simp: base_pairs_def base_columns_def schema_tables_def)
    then show ?thesis by (simp add: initialized_pairs_def)
  qed
  then show "table_has_column db table column"
    using establishedD [OF assms] current_not_removed c of_table by blast
qed

lemma owner_columns_complete: "runs initialized ensure_owner_columns all_current_columns"
proof -
  have "base_pairs \<subseteq> initialized_pairs" unfolding initialized_pairs_def by blast
  from owner_columns_run [OF this, of initialized_indexes] show ?thesis
    by (rule runs_weaken) (auto simp: initialized_def owner_columns_def intro: current_columns_established)
qed

section \<open>Conversations keep their names\<close>

lemma steps_append_Inr:
  assumes "steps (ss @ ss') db = (Inr (), db')"
  obtains db1 where "steps ss db = (Inr (), db1)" "steps ss' db1 = (Inr (), db')"
  using assms by (auto simp: steps_append split: prod.splits sum.splits)

lemma rename_column_table:
  assumes "table_of db table = Some t" "old \<in> set (st_columns t)" "new \<notin> set (st_columns t)"
  shows "table_of (snd (rename_column table old new db)) table = Some (t\<lparr>st_columns := rename_to old new (st_columns t),
      st_pinned := rename_to old new (st_pinned t),
      st_rows := map (\<lambda>r. r(new := r old, old := SNull)) (st_rows t)\<rparr>)"
  using assms by (simp add: rename_column_def statement_effects)

lemma steps_single: "steps [s] db = s db"
  by (cases "s db") (simp split: sum.split)

lemma keeps_messages_table:
  "table \<noteq> ''messages'' \<Longrightarrow> keeps (\<lambda>db. table_of db ''messages'' = Some t) (add_column table column v)"
  "keeps (\<lambda>db. table_of db ''messages'' = Some t) (create_table table columns pinned)"
  "keeps (\<lambda>db. table_of db ''messages'' = Some t) (create_index name table columns)"
  "keeps (\<lambda>db. table_of db ''messages'' = Some t) (drop_index_if_exists name)"
  "table \<noteq> ''messages'' \<Longrightarrow> keeps (\<lambda>db. table_of db ''messages'' = Some t) (drop_column table column)"
  "table \<noteq> ''messages'' \<Longrightarrow> keeps (\<lambda>db. table_of db ''messages'' = Some t) (change_rows table columns f)"
  by (auto intro!: keepsI simp: add_column_def create_table_def create_index_def drop_index_if_exists_def drop_column_def
      change_rows_def statement_effects split: option.split)

definition before_conversations :: "int \<Rightarrow> statement list" where
  "before_conversations now = schema_batch @
    [migrate_web_participant_auth_columns, migrate_web_participant_totp_columns, migrate_web_participant_role now,
     migrate_web_participant_status]"

lemma before_conversations_messages:
  "keeps (\<lambda>db. table_of db ''messages'' = Some t) (steps (before_conversations now))"
proof (rule keeps_steps)
  fix s assume s: "s \<in> set (before_conversations now)"
  have "\<forall>s \<in> set schema_batch. keeps (\<lambda>db. table_of db ''messages'' = Some t) s"
    unfolding schema_batch_def create_current_def by (simp add: keeps_messages_table)
  with s show "keeps (\<lambda>db. table_of db ''messages'' = Some t) s"
    unfolding before_conversations_def migrate_web_participant_auth_columns_def migrate_web_participant_totp_columns_def
      migrate_web_participant_role_def migrate_web_participant_status_def
    by (auto intro!: keeps_intros keeps_messages_table)
qed

lemma conversation_names_kept:
  assumes ok: "fst (initialize now db) = Inr ()" and t: "table_of db ''messages'' = Some t"
    and uuid: "''conversation_uuid'' \<in> set (st_columns t)" and no_ref: "''conversation_ref'' \<notin> set (st_columns t)"
    and i: "i < length (st_rows t)"
  shows "(rows_of (snd (initialize now db)) ''messages'' ! i) ''conversation_ref'' = (st_rows t ! i) ''conversation_uuid''"
proof -
  let ?rest = "[migrate_channel_metadata, migrate_admin_schema, migrate_execution_schema]"
  have "initialize now = steps (before_conversations now @ [migrate_message_conversation_ref] @ ?rest)"
    by (simp add: initialize_split before_channels_def before_conversations_def)
  with ok have "steps (before_conversations now @ [migrate_message_conversation_ref] @ ?rest) db
      = (Inr (), snd (initialize now db))" by (simp add: prod_eq_iff)
  then obtain db1 where db1: "steps (before_conversations now) db = (Inr (), db1)"
    "steps ([migrate_message_conversation_ref] @ ?rest) db1 = (Inr (), snd (initialize now db))"
    by (rule steps_append_Inr)
  from db1(2) obtain db2 where db2: "steps [migrate_message_conversation_ref] db1 = (Inr (), db2)"
    "steps ?rest db2 = (Inr (), snd (initialize now db))"
    by (rule steps_append_Inr)
  have t1: "table_of db1 ''messages'' = Some t"
    using keepsD [OF before_conversations_messages, of db t now] t by (simp add: db1(1))
  let ?t = "t\<lparr>st_columns := rename_to ''conversation_uuid'' ''conversation_ref'' (st_columns t),
      st_pinned := rename_to ''conversation_uuid'' ''conversation_ref'' (st_pinned t),
      st_rows := map (\<lambda>r. r(''conversation_ref'' := r ''conversation_uuid'', ''conversation_uuid'' := SNull)) (st_rows t)\<rparr>"
  have "table_has_column db1 ''messages'' ''conversation_uuid''" "\<not> table_has_column db1 ''messages'' ''conversation_ref''"
    using uuid no_ref by (simp_all add: has_column_table t1)
  then have "migrate_message_conversation_ref db1 = rename_column ''messages'' ''conversation_uuid'' ''conversation_ref'' db1"
    unfolding migrate_message_conversation_ref_def unless_column_def steps_single by (simp only: if_True if_False)
  then have "rename_column ''messages'' ''conversation_uuid'' ''conversation_ref'' db1 = (Inr (), db2)"
    using db2(1) unfolding steps_single by (rule trans [OF sym])
  moreover have "table_of (snd (rename_column ''messages'' ''conversation_uuid'' ''conversation_ref'' db1)) ''messages'' = Some ?t"
    by (rule rename_column_table [OF t1 uuid no_ref])
  ultimately have t2: "table_of db2 ''messages'' = Some ?t" by simp
  have "keeps (database_kept db2) (steps ?rest)"
    by (rule keeps_steps) (auto simp: statement_keeps admin_schema_keep execution_schema_keep)
  from keepsD [OF this database_kept_refl] have kept: "database_kept db2 (snd (initialize now db))"
    by (simp only: db2(2) snd_conv)
  with t2 obtain t' where t': "table_of (snd (initialize now db)) ''messages'' = Some t'"
    "table_kept ''messages'' ?t t'"
    unfolding database_kept_def by blast
  have "''conversation_ref'' \<in> set (st_columns ?t)" using uuid by (simp add: rename_to_set)
  moreover have "(''messages'', ''conversation_ref'') \<notin> set removed_columns" "(''messages'', ''conversation_ref'') \<notin> set filled_columns"
    "\<not> first_admin_time ''messages'' ''conversation_ref'' r" for r
    by (simp_all add: removed_columns_def filled_columns_def first_admin_time_def)
  moreover have "i < length (st_rows ?t)" using i by simp
  note table_keptD(4) [OF t'(2) this]
  ultimately have "(st_rows t' ! i) ''conversation_ref'' = (st_rows ?t ! i) ''conversation_ref''"
    unfolding row_kept_def by blast
  then show ?thesis using i by (simp add: rows_of_def t'(1))
qed

section \<open>The owner columns\<close>

definition lacks_column :: "string \<Rightarrow> database \<Rightarrow> bool" where
  "lacks_column column db \<longleftrightarrow>
     (\<exists>t. table_of db ''web_participants'' = Some t \<and> column \<notin> set (st_columns t))"

lemma lacks_keeps:
  "column' \<noteq> column \<Longrightarrow> keeps (lacks_column column) (add_column table column' v)"
  "keeps (lacks_column column) (create_table table columns pinned)"
  "keeps (lacks_column column) (create_index name table columns)"
  "keeps (lacks_column column) (drop_index_if_exists name)"
  "keeps (lacks_column column) (drop_column table column')"
  "new \<noteq> column \<Longrightarrow> old \<noteq> new \<Longrightarrow> keeps (lacks_column column) (rename_column table old new)"
  "keeps (lacks_column column) (change_rows table columns f)"
  by (auto intro!: keepsI simp: lacks_column_def add_column_def create_table_def create_index_def drop_index_if_exists_def
      drop_column_def rename_column_def rename_to_set change_rows_def statement_effects split: option.split)

lemma lacks_backfill: "keeps (lacks_column column) (backfill table columns receipt_columns f)"
  using lacks_keeps(7) by (simp add: keeps_def backfill_def)

lemma lacks_channel_metadata: "keeps (lacks_column column) migrate_channel_metadata"
  using lacks_keeps(7) by (simp add: keeps_def migrate_channel_metadata_def Let_def)

lemma lacks_add_missing:
  assumes "column \<notin> set provenance_columns"
  shows "keeps (lacks_column column) add_missing_authorization_columns"
proof (rule keepsI)
  fix db assume db: "lacks_column column db"
  let ?missing = "filter (\<lambda>c. c \<notin> set (columns_of db ''execution_authorization_provenance'')) provenance_columns"
  have "keeps (lacks_column column) (steps (map (\<lambda>c. add_column ''execution_authorization_provenance'' c SNull) ?missing))"
    by (rule keeps_steps) (use assms in \<open>auto intro!: lacks_keeps(1)\<close>)
  from keepsD [OF this db] show "lacks_column column (snd (add_missing_authorization_columns db))"
    by (simp only: add_missing_authorization_columns_def provenance_columns_def Let_def)
qed

lemma lacks_owner: "keeps (lacks_column ''owner_provider'') (initialize now)"
proof -
  let ?P = "lacks_column ''owner_provider''"
  note rules = keeps_intros lacks_keeps lacks_backfill lacks_add_missing
  have batch: "s \<in> set schema_batch \<Longrightarrow> keeps ?P s" for s
    unfolding schema_batch_def create_current_def by (auto intro!: rules)
  have parts: "keeps ?P migrate_web_participant_auth_columns" "keeps ?P migrate_web_participant_totp_columns"
    "keeps ?P (migrate_web_participant_role now)" "keeps ?P migrate_web_participant_status"
    unfolding migrate_web_participant_auth_columns_def migrate_web_participant_totp_columns_def
      migrate_web_participant_role_def migrate_web_participant_status_def
    by (auto intro!: rules)
  have "keeps ?P (rename_column ''messages'' ''conversation_uuid'' ''conversation_ref'')"
    "keeps ?P (add_column ''messages'' ''conversation_ref'' SNull)" by (auto intro!: rules)
  then have conversation: "keeps ?P migrate_message_conversation_ref"
    unfolding migrate_message_conversation_ref_def by (intro keeps_unless_column) (auto simp: keeps_def)
  have schemas: "keeps ?P migrate_admin_schema" "keeps ?P migrate_execution_schema"
    unfolding migrate_admin_schema_def ensure_grant_tables_def migrate_execution_schema_def create_current_def
    by (auto intro!: rules simp: provenance_columns_def)
  show ?thesis
    unfolding initialize_def initialize_statements_def
    by (rule keeps_steps) (auto simp: batch parts conversation lacks_channel_metadata schemas)
qed

section \<open>The first administrator\<close>

definition before_roles :: "statement list" where
  "before_roles = schema_batch @ [migrate_web_participant_auth_columns, migrate_web_participant_totp_columns]"

lemma before_roles_keep:
  "keeps (database_kept db0) (steps before_roles)" "keeps (lacks_column ''role'') (steps before_roles)"
proof -
  show "keeps (database_kept db0) (steps before_roles)"
    unfolding before_roles_def by (rule keeps_steps) (auto simp: schema_batch_keeps auth_columns_keep totp_columns_keep)
  have "s \<in> set schema_batch \<Longrightarrow> keeps (lacks_column ''role'') s" for s
    unfolding schema_batch_def create_current_def by (auto intro!: lacks_keeps)
  moreover have "keeps (lacks_column ''role'') migrate_web_participant_auth_columns"
    "keeps (lacks_column ''role'') migrate_web_participant_totp_columns"
    unfolding migrate_web_participant_auth_columns_def migrate_web_participant_totp_columns_def
    by (auto intro!: keeps_intros lacks_keeps)
  ultimately show "keeps (lacks_column ''role'') (steps before_roles)"
    unfolding before_roles_def by (intro keeps_steps) auto
qed

definition migrated_role :: "sql_row \<Rightarrow> sql_value" where
  "migrated_role r = SText (if r ''participant_id'' = SText ''cheng-main'' then ''admin'' else ''user'')"

lemma promoted_role: "promote_first_admin now (r(''role'' := SText ''user'')) ''role'' = migrated_role r"
  by (simp add: promote_first_admin_def migrated_role_def sql_eq_def)

lemma role_added:
  assumes "table_of db ''web_participants'' = Some t" "''role'' \<notin> set (st_columns t)"
    and "migrate_web_participant_role now db = (Inr (), db')"
  shows "table_of db' ''web_participants'' = Some (t\<lparr>st_columns := st_columns t @ [''role''],
      st_rows := map (\<lambda>r. promote_first_admin now (r(''role'' := SText ''user''))) (st_rows t)\<rparr>)"
  using assms
  by (auto simp: migrate_web_participant_role_def unless_column_def has_column_table add_column_def change_rows_def
      statement_effects comp_def split: if_splits)

lemma roles_migrated:
  assumes ok: "fst (initialize now db) = Inr ()" and t: "table_of db ''web_participants'' = Some t"
    and no_role: "''role'' \<notin> set (st_columns t)" and i: "i < length (st_rows t)"
  shows "(rows_of (snd (initialize now db)) ''web_participants'' ! i) ''role'' = migrated_role (st_rows t ! i)"
proof -
  let ?rest = "[migrate_web_participant_status, migrate_message_conversation_ref, migrate_channel_metadata,
      migrate_admin_schema, migrate_execution_schema]"
  have "initialize now = steps (before_roles @ [migrate_web_participant_role now] @ ?rest)"
    by (simp add: initialize_def initialize_statements_def before_roles_def)
  with ok have "steps (before_roles @ [migrate_web_participant_role now] @ ?rest) db = (Inr (), snd (initialize now db))"
    by (simp add: prod_eq_iff)
  then obtain db1 where db1: "steps before_roles db = (Inr (), db1)"
    "steps ([migrate_web_participant_role now] @ ?rest) db1 = (Inr (), snd (initialize now db))"
    by (rule steps_append_Inr)
  from db1(2) obtain db2 where db2: "steps [migrate_web_participant_role now] db1 = (Inr (), db2)"
    "steps ?rest db2 = (Inr (), snd (initialize now db))"
    by (rule steps_append_Inr)
  have "database_kept db db1" using keepsD [OF before_roles_keep(1) database_kept_refl, of db] by (simp add: db1(1))
  with t obtain t1 where t1: "table_of db1 ''web_participants'' = Some t1" "table_kept ''web_participants'' t t1"
    unfolding database_kept_def by blast
  have "lacks_column ''role'' db1"
    using keepsD [OF before_roles_keep(2), of db] t no_role by (simp add: db1(1) lacks_column_def)
  then have role1: "''role'' \<notin> set (st_columns t1)" by (simp add: lacks_column_def t1(1))
  let ?t2 = "t1\<lparr>st_columns := st_columns t1 @ [''role''],
      st_rows := map (\<lambda>r. promote_first_admin now (r(''role'' := SText ''user''))) (st_rows t1)\<rparr>"
  have t2: "table_of db2 ''web_participants'' = Some ?t2"
    using role_added [OF t1(1) role1] db2(1) unfolding steps_single by blast
  have "keeps (database_kept db2) (steps ?rest)"
    by (rule keeps_steps) (auto simp: statement_keeps status_keep conversation_ref_keep admin_schema_keep execution_schema_keep)
  from keepsD [OF this database_kept_refl] have "database_kept db2 (snd (initialize now db))"
    by (simp only: db2(2) snd_conv)
  with t2 obtain t' where t': "table_of (snd (initialize now db)) ''web_participants'' = Some t'"
    "table_kept ''web_participants'' ?t2 t'"
    unfolding database_kept_def by blast
  have i1: "i < length (st_rows t1)" using table_keptD(2) [OF t1(2)] i by simp
  then have i2: "i < length (st_rows ?t2)" by simp
  have "(st_rows t' ! i) ''role'' = (st_rows ?t2 ! i) ''role''"
    using table_keptD(4) [OF t'(2) i2]
    by (simp add: row_kept_def removed_columns_def filled_columns_def first_admin_time_def)
  also have "\<dots> = migrated_role (st_rows t1 ! i)" using i1 by (simp add: promoted_role)
  also have "\<dots> = migrated_role (st_rows t ! i)"
    using table_keptD(4) [OF t1(2) i] by (simp add: row_kept_def migrated_role_def)
  finally show ?thesis by (simp add: rows_of_def t'(1))
qed

section \<open>Opening a database\<close>

lemma fresh_database:
  "case initialize now empty_database of (result, db) \<Rightarrow>
     result = Inr () \<and> catalog db = current_schema \<and> list_all (\<lambda>(table, t). length (st_rows t) = 0) (db_tables db)"
  by code_simp

definition sample_legacy :: database where
  "sample_legacy =
     \<lparr>db_tables =
       [(''messages'', \<lparr>st_columns = [''id'', ''created_at'', ''channel'', ''source'', ''instance'', ''conversation_uuid'',
            ''kind'', ''body'', ''reply_to''], st_pinned = [''id''],
          st_rows = [(\<lambda>_. SNull)(''id'' := SInt 1, ''created_at'' := SInt 10, ''channel'' := SText ''lab'',
            ''conversation_uuid'' := SText ''c1'', ''body'' := SText ''hello'')]\<rparr>),
        (''web_participants'', \<lparr>st_columns = [''participant_id'', ''source'', ''label'', ''public_key'', ''created_at'',
            ''updated_at''], st_pinned = [''participant_id''],
          st_rows = [(\<lambda>_. SNull)(''participant_id'' := SText ''cheng-main'', ''public_key'' := SText ''key'')]\<rparr>)],
      db_indexes = [\<lparr>ix_name = ''idx_web_participants_public_key'', ix_table = ''web_participants'',
        ix_columns = [''public_key'']\<rparr>]\<rparr>"

lemma sample_legacy_database: "legacy_database sample_legacy"
proof -
  have tables: "table_of sample_legacy ''messages'' \<noteq> None" by (simp add: sample_legacy_def table_of_def)
  have "list_all (\<lambda>table. table_of sample_legacy table \<noteq> None \<longrightarrow>
      list_all (\<lambda>c. c \<in> set (columns_of sample_legacy table)) (base_columns table)) schema_tables" by code_simp
  moreover have "droppable ''public_key'' sample_legacy" "droppable ''signature_scheme'' sample_legacy"
    by (simp_all add: droppable_def sample_legacy_def table_of_def)
  ultimately show ?thesis by (auto simp: legacy_database_def list_all_iff subset_iff)
qed

lemma sample_legacy_facts:
  "lacks_column ''owner_provider'' sample_legacy" "named_messages sample_legacy"
  by (simp_all add: lacks_column_def named_messages_def rows_of_def sample_legacy_def table_of_def)

section \<open>Properties\<close>

text \<open>C27: Opening a database succeeds on a fresh file and on every legacy database (any of the tables, each with the columns
  no migration adds, and no other use of the discarded credential columns).  On a fresh file it leaves exactly the tables
  of the current schema, empty, which is the empty board; on a legacy database, together with the owner columns the server
  adds, it leaves every column of the current schema, so that every schema guard of the authorization and execution code
  passes.\<close>

theorem databases_migrate:
  "(case initialize now empty_database of (result, fresh) \<Rightarrow>
      result = Inr () \<and> catalog fresh = schema empty_board \<and> list_all (\<lambda>(table, t). length (st_rows t) = 0) (db_tables fresh)) \<and>
   (legacy_database db \<longrightarrow>
      fst (initialize now db) = Inr () \<and> fst (ensure_owner_columns (snd (initialize now db))) = Inr () \<and>
      all_current_columns (snd (ensure_owner_columns (snd (initialize now db)))) \<and>
      schema_guards (b\<lparr>schema := catalog (snd (ensure_owner_columns (snd (initialize now db))))\<rparr>))"
proof (intro conjI impI)
  show "case initialize now empty_database of (result, fresh) \<Rightarrow>
      result = Inr () \<and> catalog fresh = schema empty_board \<and> list_all (\<lambda>(table, t). length (st_rows t) = 0) (db_tables fresh)"
    using fresh_database [of now] by (simp add: empty_board_def)
  assume "legacy_database db"
  then have first: "fst (initialize now db) = Inr ()" "initialized (snd (initialize now db))"
    using initialize_runs [of now] by (simp_all add: runs_def)
  then have second: "fst (ensure_owner_columns (snd (initialize now db))) = Inr ()"
    "all_current_columns (snd (ensure_owner_columns (snd (initialize now db))))"
    using owner_columns_complete by (simp_all add: runs_def)
  from first(1) second all_current_guards [OF second(2)]
  show "fst (initialize now db) = Inr ()" "fst (ensure_owner_columns (snd (initialize now db))) = Inr ()"
    "all_current_columns (snd (ensure_owner_columns (snd (initialize now db))))"
    "schema_guards (b\<lparr>schema := catalog (snd (ensure_owner_columns (snd (initialize now db))))\<rparr>)" by blast+
qed

theorem databases_migrate_witness:
  "fst (initialize 7 sample_legacy) = Inr () \<and> all_current_columns (snd (ensure_owner_columns (snd (initialize 7 sample_legacy))))"
  using databases_migrate [of 7 sample_legacy] sample_legacy_database by blast

text \<open>C28: Opening a database loses nothing, even when a migration fails half way: every table keeps its columns, but for
  the discarded credentials and the old name of the conversation, and its rows, in order, with their values; only NULLs of
  the execution evidence are filled in, only channels get new rows, and the one value overwritten is the time of the last
  update of the participant \<open>cheng-main\<close>.  The conversation of a message is kept under its new name, and where the roles
  are new, exactly that participant becomes an administrator.\<close>

theorem migration_preserves_rows:
  "database_kept db (snd (initialize now db)) \<and>
   (fst (initialize now db) = Inr () \<longrightarrow>
     (\<forall>t i. table_of db ''messages'' = Some t \<and> ''conversation_uuid'' \<in> set (st_columns t) \<and>
        ''conversation_ref'' \<notin> set (st_columns t) \<and> i < length (st_rows t) \<longrightarrow>
        (rows_of (snd (initialize now db)) ''messages'' ! i) ''conversation_ref'' = (st_rows t ! i) ''conversation_uuid'') \<and>
     (\<forall>t i. table_of db ''web_participants'' = Some t \<and> ''role'' \<notin> set (st_columns t) \<and> i < length (st_rows t) \<longrightarrow>
        (rows_of (snd (initialize now db)) ''web_participants'' ! i) ''role'' =
          SText (if (st_rows t ! i) ''participant_id'' = SText ''cheng-main'' then ''admin'' else ''user'')))"
proof (intro conjI impI allI)
  show "database_kept db (snd (initialize now db))"
    by (rule keepsD [OF initialize_keeps database_kept_refl])
qed (elim conjE, rule conversation_names_kept roles_migrated [unfolded migrated_role_def]; assumption)+

theorem migration_preserves_rows_witness:
  "(rows_of (snd (initialize 7 sample_legacy)) ''messages'' ! 0) ''conversation_ref'' = SText ''c1'' \<and>
   (rows_of (snd (initialize 7 sample_legacy)) ''web_participants'' ! 0) ''role'' = SText ''admin''"
proof -
  have ok: "fst (initialize 7 sample_legacy) = Inr ()"
    using initialize_runs sample_legacy_database by (simp add: runs_def)
  obtain t where t: "table_of sample_legacy ''messages'' = Some t" "''conversation_uuid'' \<in> set (st_columns t)"
    "''conversation_ref'' \<notin> set (st_columns t)" "0 < length (st_rows t)" "(st_rows t ! 0) ''conversation_uuid'' = SText ''c1''"
    by (simp add: sample_legacy_def table_of_def)
  obtain p where p: "table_of sample_legacy ''web_participants'' = Some p" "''role'' \<notin> set (st_columns p)"
    "0 < length (st_rows p)" "(st_rows p ! 0) ''participant_id'' = SText ''cheng-main''"
    by (simp add: sample_legacy_def table_of_def)
  note kept = mp [OF conjunct2 [OF migration_preserves_rows] ok]
  have "(rows_of (snd (initialize 7 sample_legacy)) ''messages'' ! 0) ''conversation_ref'' = SText ''c1''"
    using conjunct1 [OF kept, rule_format, of t 0] t by simp
  moreover have "(rows_of (snd (initialize 7 sample_legacy)) ''web_participants'' ! 0) ''role'' = SText ''admin''"
    using conjunct2 [OF kept, rule_format, of p 0] p by simp
  ultimately show ?thesis by blast
qed

text \<open>Opening a database again, as every start of the server does, changes nothing: the second run of the migrations
  succeeds and returns the same tables, rows and indexes.  And after the first, every channel the messages mention has its
  row (a channel whose messages have no time apart).\<close>

theorem initialize_idempotent:
  assumes "legacy_database db" "named_messages db"
  shows "initialize now' (snd (initialize now db)) = (Inr (), snd (initialize now db)) \<and>
    channels_settled (snd (initialize now db))"
proof -
  have "initialized (snd (initialize now db))" "channels_settled (snd (initialize now db))"
    using initialize_runs [of now] initialize_settles_channels [of now] assms by (simp_all add: runs_def)
  with initialized_idle show ?thesis unfolding idle_def by blast
qed

theorem initialize_idempotent_witness:
  "initialize 8 (snd (initialize 7 sample_legacy)) = (Inr (), snd (initialize 7 sample_legacy))"
  using initialize_idempotent [OF sample_legacy_database sample_legacy_facts(2)] by blast

text \<open>What \<open>initialize\<close> leaves out: the owner columns of the participants are not among its migrations.  On a database
  that lacks them they are still missing after it, so the guard of the effective grants and that of the decision
  explanations refuse until something else has called \<open>ensure_owner_columns\<close>; the server does, the MCP server over the
  standard streams and \<open>db init\<close> do not.\<close>

theorem initialize_omits_owner_columns:
  assumes "lacks_column ''owner_provider'' db"
  shows "\<not> effective_grants_schema_current (b\<lparr>schema := catalog (snd (initialize now db))\<rparr>) \<and>
    \<not> authorization_decision_schema_current (b\<lparr>schema := catalog (snd (initialize now db))\<rparr>)"
proof -
  have "lacks_column ''owner_provider'' (snd (initialize now db))" by (rule keepsD [OF lacks_owner assms])
  then have "\<not> table_has_column (snd (initialize now db)) ''web_participants'' ''owner_provider''"
    by (auto simp: lacks_column_def has_column_table)
  then show ?thesis
    by (simp add: effective_grants_schema_current_def authorization_decision_schema_current_def catalog_has_columns)
qed

theorem initialize_omits_owner_columns_witness:
  "\<not> effective_grants_schema_current (empty_board\<lparr>schema := catalog (snd (initialize 7 sample_legacy))\<rparr>)"
  using initialize_omits_owner_columns [OF sample_legacy_facts(1)] by blast

end
