(* ===== verification/Cli.thy ===== *)
theory Cli
  imports Migration
begin

text \<open>
  The command line: what its commands (\<open>participant_admin.rs\<close>, \<open>admin.rs\<close>, \<open>grant_admin.rs\<close>, \<open>execution_audit.rs\<close>) share.

  A command runs to its end with one database, prints lines and exits with a result.  The disk maps paths to files; a
  file is a database, of which only the logical content counts, or something else, on which opening a connection fails.
  The path of the database is a field of every command of the source; here it is an argument beside the command.  The
  parsing of the arguments is that of the library \<open>clap\<close>: a command starts as the parsed value.
\<close>

section \<open>Results\<close>

datatype cli_error = CliMessage string | CliSql sql_error | CliStatement statement_error | NotADatabase

type_synonym 'a cli_result = "cli_error + 'a"

text \<open>A session: a database becomes a result, the lines printed and the database left.\<close>

type_synonym 'db session = "'db \<Rightarrow> unit cli_result \<times> string list \<times> 'db"

definition fails :: "cli_error \<Rightarrow> 'db session" where
  "fails e db = (Inl e, [], db)"

definition prints :: "string list \<Rightarrow> 'db session" where
  "prints lines db = (Inr (), lines, db)"

text \<open>A session over a read-only connection prints what it computes from the database and leaves it alone.\<close>

definition reads :: "('db \<Rightarrow> unit cli_result \<times> string list) \<Rightarrow> 'db session" where
  "reads f db = (fst (f db), snd (f db), db)"

text \<open>\<open>?\<close> on an SQL result whose effect is already on the database.\<close>

definition sql_step :: "'a sql_result \<times> 'db \<Rightarrow> ('a \<Rightarrow> 'db session) \<Rightarrow> unit cli_result \<times> string list \<times> 'db" where
  "sql_step r k = (case fst r of Inl e \<Rightarrow> (Inl (CliSql e), [], snd r) | Inr x \<Rightarrow> k x (snd r))"

section \<open>Files\<close>

datatype 'db disk_file = Database 'db | OtherFile

type_synonym 'db disk = "string \<Rightarrow> 'db disk_file option"

definition require_file :: "string \<Rightarrow> string \<Rightarrow> 'db disk \<Rightarrow> unit cli_result" where
  "require_file path what disk =
     (if disk path \<noteq> None then Inr () else Inl (CliMessage (what @ '' does not exist: '' @ path)))"

text \<open>The checks of a command between \<open>require_database\<close> and opening the connection are its first argument.\<close>

definition with_checked_database ::
    "'a cli_result \<Rightarrow> string \<Rightarrow> ('a \<Rightarrow> 'db session) \<Rightarrow> 'db disk \<Rightarrow> unit cli_result \<times> string list \<times> 'db disk" where
  "with_checked_database precheck path session disk =
     (case require_file path ''database'' disk of
        Inl e \<Rightarrow> (Inl e, [], disk)
      | Inr _ \<Rightarrow>
          (case precheck of
             Inl e \<Rightarrow> (Inl e, [], disk)
           | Inr x \<Rightarrow>
               (case disk path of
                  Some (Database db) \<Rightarrow>
                    (let (result, lines, db') = session x db in (result, lines, disk(path \<mapsto> Database db')))
                | _ \<Rightarrow> (Inl NotADatabase, [], disk))))"

definition with_database ::
    "string \<Rightarrow> 'db session \<Rightarrow> 'db disk \<Rightarrow> unit cli_result \<times> string list \<times> 'db disk" where
  "with_database path session disk = with_checked_database (Inr ()) path (\<lambda>_. session) disk"

section \<open>Lines\<close>

definition tab :: string where "tab = [CHR 0x09]"

fun tabbed :: "string list \<Rightarrow> string" where
  "tabbed [] = []"
| "tabbed [s] = s"
| "tabbed (s # ss) = s @ tab @ tabbed ss"

definition or_else :: "string option \<Rightarrow> string \<Rightarrow> string" where
  "or_else s d = (case s of Some v \<Rightarrow> v | None \<Rightarrow> d)"

definition show_int :: "int option \<Rightarrow> string \<Rightarrow> string" where
  "show_int i d = (case i of Some v \<Rightarrow> int_to_string v | None \<Rightarrow> d)"

definition show_nat :: "nat \<Rightarrow> string" where "show_nat n = int_to_string (int n)"

definition show_bool :: "bool \<Rightarrow> string" where "show_bool b = (if b then ''true'' else ''false'')"

section \<open>What a command can do to the disk\<close>

text \<open>A command leaves the files other than its own alone, and of its own it makes what its session makes.\<close>

lemma with_checked_database_cases:
  obtains (refused) e where "with_checked_database precheck path session disk = (Inl e, [], disk)"
  | (ran) x db where "precheck = Inr x" "disk path = Some (Database db)"
      "with_checked_database precheck path session disk =
        (fst (session x db), fst (snd (session x db)), disk(path \<mapsto> Database (snd (snd (session x db)))))"
proof (cases "disk path")
  case None
  then show ?thesis using refused by (simp add: with_checked_database_def require_file_def)
next
  case (Some f)
  show ?thesis
  proof (cases precheck)
    case (Inl e)
    then show ?thesis using refused Some by (simp add: with_checked_database_def require_file_def)
  next
    case (Inr x)
    show ?thesis
    proof (cases f)
      case (Database db)
      then show ?thesis using ran Inr Some by (simp add: with_checked_database_def require_file_def case_prod_beta)
    next
      case OtherFile
      then show ?thesis using refused Inr Some by (simp add: with_checked_database_def require_file_def)
    qed
  qed
qed

text \<open>A predicate of databases holds of all databases of a disk.\<close>

definition all_databases :: "('db \<Rightarrow> bool) \<Rightarrow> 'db disk \<Rightarrow> bool" where
  "all_databases P disk \<longleftrightarrow> (\<forall>path db. disk path = Some (Database db) \<longrightarrow> P db)"

lemma all_databases_update: "all_databases P disk \<Longrightarrow> P db \<Longrightarrow> all_databases P (disk(path \<mapsto> Database db))"
  by (simp add: all_databases_def)

lemma all_databasesD: "all_databases P disk \<Longrightarrow> disk path = Some (Database db) \<Longrightarrow> P db"
  by (simp add: all_databases_def)

text \<open>A session respects an invariant of databases if it keeps it, whatever its result.\<close>

definition session_keeps :: "('db \<Rightarrow> bool) \<Rightarrow> 'db session \<Rightarrow> bool" where
  "session_keeps P session \<longleftrightarrow> (\<forall>db. P db \<longrightarrow> P (snd (snd (session db))))"

lemma with_checked_database_keeps:
  assumes "\<And>x. precheck = Inr x \<Longrightarrow> session_keeps P (session x)" and disk: "all_databases P disk"
  shows "all_databases P (snd (snd (with_checked_database precheck path session disk)))"
proof (rule with_checked_database_cases [of precheck path session disk])
  fix e assume "with_checked_database precheck path session disk = (Inl e, [], disk)"
  then show ?thesis using disk by simp
next
  fix x db assume r: "precheck = Inr x" "disk path = Some (Database db)"
    "with_checked_database precheck path session disk =
      (fst (session x db), fst (snd (session x db)), disk(path \<mapsto> Database (snd (snd (session x db)))))"
  have "P (snd (snd (session x db)))"
    using assms(1) [OF r(1)] all_databasesD [OF disk r(2)] by (simp add: session_keeps_def)
  then show ?thesis using all_databases_update [OF disk] r(3) by simp
qed

lemma session_keeps_simps [simp]:
  "session_keeps P (fails e)" "session_keeps P (prints lines)" "session_keeps P (reads f)"
  by (simp_all add: session_keeps_def fails_def prints_def reads_def)

lemma with_database_keeps:
  "session_keeps P session \<Longrightarrow> all_databases P disk \<Longrightarrow> all_databases P (snd (snd (with_database path session disk)))"
  unfolding with_database_def by (rule with_checked_database_keeps)

section \<open>Families of commands\<close>

text \<open>The commands of a program respect an invariant of databases if each of them does; then so does every sequence.\<close>

locale command_family =
  fixes P :: "'db \<Rightarrow> bool"
    and admissible :: "'c \<Rightarrow> bool"
    and run :: "'c \<Rightarrow> 'db disk \<Rightarrow> unit cli_result \<times> string list \<times> 'db disk"
  assumes keeps: "admissible c \<Longrightarrow> all_databases P disk \<Longrightarrow> all_databases P (snd (snd (run c disk)))"
begin

lemma runs_keep:
  "\<forall>c \<in> set commands. admissible c \<Longrightarrow> all_databases P disk \<Longrightarrow>
   all_databases P (fold (\<lambda>c d. snd (snd (run c d))) commands disk)"
  by (induction commands arbitrary: disk) (simp_all add: keeps)

end

text \<open>A family of sessions gives a family of commands: each on a database file of its own.\<close>

locale session_family =
  fixes P :: "'db \<Rightarrow> bool"
    and session :: "'c \<Rightarrow> 'db session"
  assumes respects: "session_keeps P (session c)"

sublocale session_family \<subseteq> command_family P "\<lambda>_. True" "\<lambda>(c, path). with_database path (session c)"
  by unfold_locales (simp add: case_prod_beta with_database_keeps respects)

end
