(* ===== verification/Participant_Admin.thy ===== *)
theory Participant_Admin
  imports Cli Identity
begin

text \<open>
  The commands that administer participants (\<open>participant_admin.rs\<close>) and bearer identities (the identity commands of
  \<open>admin.rs\<close>).  The bytes of the random number generator are the argument \<open>draw\<close>; the otpauth address, which the URL
  library builds, is the argument \<open>otpauth\<close>, and \<open>otpauth_uri\<close> is what \<open>web_auth.rs\<close> does around it.
\<close>

section \<open>The owner columns of a board\<close>

text \<open>\<open>ensure_owner_columns\<close> of \<open>github_webhook.rs\<close> on a board; the theory \<open>Migration\<close> has it on a catalog.\<close>

definition ensure_owner_columns_on :: "board \<Rightarrow> (statement_error + unit) \<times> board" where
  "ensure_owner_columns_on db =
     (case map_of (schema db) ''web_participants'' of
        None \<Rightarrow> (Inl NoSuchTable, db)
      | Some columns \<Rightarrow>
          (Inr (), db\<lparr>schema := AList.update ''web_participants''
             (columns @ filter (\<lambda>c. c \<notin> set columns) [''owner_provider'', ''owner_subject'', ''owner_login'']) (schema db)\<rparr>))"

definition with_owner_columns :: "board session \<Rightarrow> board session" where
  "with_owner_columns session db =
     (case ensure_owner_columns_on db of
        (Inl e, db') \<Rightarrow> (Inl (CliStatement e), [], db')
      | (Inr _, db') \<Rightarrow> session db')"

section \<open>Inspection\<close>

record participant_inspection =
  pi_participant_id :: string
  pi_source :: string
  pi_label :: "string option"
  pi_role :: string
  pi_lifecycle_status :: string
  pi_totp_status :: string
  pi_auth_scheme :: "string option"
  pi_auth_status :: string
  pi_owner_provider :: "string option"
  pi_owner_subject :: "string option"
  pi_owner_login :: "string option"

definition auth_active :: "externals \<Rightarrow> participant_row \<Rightarrow> bool" where
  "auth_active ext r =
     (p_auth_scheme r = Some AUTH_SCHEME \<and> (case p_auth_secret r of Some s \<Rightarrow> validate_secret ext s | None \<Rightarrow> False))"

definition inspect_row :: "externals \<Rightarrow> participant_row \<Rightarrow> participant_inspection" where
  "inspect_row ext r =
     \<lparr>pi_participant_id = p_participant_id r, pi_source = p_source r, pi_label = p_label r, pi_role = p_role r,
      pi_lifecycle_status = p_status r,
      pi_totp_status = (if p_totp_secret r \<noteq> None then ''active'' else ''not-configured''),
      pi_auth_scheme = p_auth_scheme r,
      pi_auth_status = (if auth_active ext r then ''active'' else ''not-configured''),
      pi_owner_provider = p_owner_provider r, pi_owner_subject = p_owner_subject r, pi_owner_login = p_owner_login r\<rparr>"

definition inspect_participant :: "externals \<Rightarrow> board \<Rightarrow> string \<Rightarrow> participant_inspection option" where
  "inspect_participant ext db participant_id =
     map_option (inspect_row ext) (find (\<lambda>r. p_participant_id r = participant_id) (web_participants db))"

definition list_participants :: "externals \<Rightarrow> board \<Rightarrow> participant_inspection list" where
  "list_participants ext db = map (inspect_row ext) (sort_key p_participant_id (web_participants db))"

definition print_participant :: "participant_inspection \<Rightarrow> string list" where
  "print_participant r =
     [''PARTICIPANT'',
      ''participant_id : '' @ pi_participant_id r,
      ''label          : '' @ or_else (pi_label r) ''-'',
      ''source         : '' @ pi_source r,
      ''role           : '' @ pi_role r,
      ''status         : '' @ pi_lifecycle_status r,
      [],
      ''owner'',
      ''provider       : '' @ or_else (pi_owner_provider r) ''-'',
      ''subject        : '' @ or_else (pi_owner_subject r) ''-'',
      ''login          : '' @ or_else (pi_owner_login r) ''-'',
      [],
      ''totp'',
      ''status         : '' @ pi_totp_status r,
      [],
      ''auth'',
      ''status         : '' @ pi_auth_status r,
      ''auth_scheme    : '' @ or_else (pi_auth_scheme r) ''-'']"

definition owner_text :: "participant_inspection \<Rightarrow> string" where
  "owner_text r =
     (case (pi_owner_provider r, pi_owner_subject r, pi_owner_login r) of
        (Some owner_provider, Some owner_subject, Some login) \<Rightarrow> owner_provider @ '':'' @ owner_subject @ ''('' @ login @ '')''
      | (Some owner_provider, Some owner_subject, None) \<Rightarrow> owner_provider @ '':'' @ owner_subject
      | _ \<Rightarrow> ''-'')"

definition participant_line :: "participant_inspection \<Rightarrow> string" where
  "participant_line r =
     tabbed [pi_participant_id r, pi_source r, pi_role r, pi_lifecycle_status r, pi_totp_status r, pi_auth_status r,
       owner_text r, or_else (pi_label r) ''-'']"

section \<open>Commands\<close>

datatype participant_command =
    ProvisionParticipant string string "string option"
  | ShowParticipant string
  | ListParticipants
  | DeactivateParticipant string
  | ReactivateParticipant string
  | SetParticipantRole string string
  | SetParticipantOwner string string string "string option"
  | ClearParticipantOwner string
  | TotpEnroll string string
  | TotpRevoke string
  | AuthGenerate string
  | AuthRotate string
  | AuthRevoke string

definition unknown_participant :: "string \<Rightarrow> cli_error" where
  "unknown_participant participant_id = CliMessage (''unknown participant: '' @ participant_id)"

text \<open>An update that is expected to hit the participant.\<close>

definition updated_or :: "cli_error \<Rightarrow> bool sql_result \<times> board \<Rightarrow> string list \<Rightarrow> unit cli_result \<times> string list \<times> board" where
  "updated_or e r lines = sql_step r (\<lambda>changed. if \<not> changed then fails e else prints lines)"

definition otpauth_uri :: "(string \<Rightarrow> string \<Rightarrow> string \<Rightarrow> string option) \<Rightarrow> string \<Rightarrow> string \<Rightarrow> string \<Rightarrow> string option" where
  "otpauth_uri otpauth participant_id secret issuer =
     (if participant_id = [] \<or> blank issuer \<or> \<not> validate_totp_secret secret then None
      else otpauth participant_id secret (trim issuer))"

definition totp_enroll ::
    "(string \<Rightarrow> string \<Rightarrow> string \<Rightarrow> string option) \<Rightarrow> bytes \<Rightarrow> int \<Rightarrow> string \<Rightarrow> string \<Rightarrow> board session" where
  "totp_enroll otpauth draw now participant_id issuer db =
     (if get_web_participant db participant_id = None then fails (unknown_participant participant_id) db
      else let secret = generate_totp_secret draw in
        sql_step (set_web_participant_totp now participant_id secret db)
          (\<lambda>changed. if \<not> changed then fails (unknown_participant participant_id)
             else (case otpauth_uri otpauth participant_id secret issuer of
                None \<Rightarrow> fails (CliMessage ''could not construct TOTP enrollment URI'')
              | Some uri \<Rightarrow> prints
                  [''TOTP ENROLLMENT READY'',
                   ''participant_id : '' @ participant_id,
                   ''issuer         : '' @ issuer,
                   ''setup_key      : '' @ secret,
                   ''otpauth_uri    : '' @ uri])))"

definition provision_auth :: "externals \<Rightarrow> bytes \<Rightarrow> int \<Rightarrow> string \<Rightarrow> bool \<Rightarrow> board session" where
  "provision_auth ext draw now participant_id rotating db =
     (if get_web_participant db participant_id = None then fails (unknown_participant participant_id) db
      else with_owner_columns (\<lambda>db.
        (case inspect_participant ext db participant_id of
           None \<Rightarrow> fails (unknown_participant participant_id) db
         | Some current \<Rightarrow>
             if \<not> rotating \<and> pi_auth_status current = ''active''
             then fails (CliMessage (''participant auth already configured: '' @ participant_id @ ''; use auth-rotate'')) db
             else let (secret, registered_secret) = generate_secret ext draw in
               updated_or (unknown_participant participant_id)
                 (set_web_participant_auth_secret ext now participant_id registered_secret db)
                 [''PARTICIPANT AUTH READY'',
                  ''participant_id : '' @ participant_id,
                  ''auth_scheme    : '' @ AUTH_SCHEME,
                  ''secret         : '' @ secret,
                  ''note           : This secret is shown once. Store it with the participant client; '' @
                    ''participant show/list never reveal it.''])) db)"

fun participant_session ::
    "externals \<Rightarrow> (string \<Rightarrow> string \<Rightarrow> string \<Rightarrow> string option) \<Rightarrow> bytes \<Rightarrow> int \<Rightarrow> participant_command \<Rightarrow> board session" where
  "participant_session ext otpauth draw now (ProvisionParticipant participant_id source label) db =
     with_owner_columns (\<lambda>db. sql_step (provision_web_participant_identity now participant_id source label db)
       (\<lambda>record. case record of
          None \<Rightarrow> fails (CliMessage (''participant already exists: '' @ participant_id))
        | Some who \<Rightarrow> prints
            [''PARTICIPANT READY'',
             ''source         : '' @ id_source who,
             ''participant_id : '' @ id_instance who,
             ''role           : user'',
             ''status         : active''])) db"
| "participant_session ext otpauth draw now (ShowParticipant participant_id) db =
     with_owner_columns (with_owner_columns (\<lambda>db.
       (case inspect_participant ext db participant_id of
          None \<Rightarrow> fails (unknown_participant participant_id) db
        | Some record \<Rightarrow> prints (print_participant record) db))) db"
| "participant_session ext otpauth draw now ListParticipants db =
     with_owner_columns (with_owner_columns (\<lambda>db. prints
       ([''PARTICIPANTS'',
         tabbed [''participant_id'', ''source'', ''role'', ''status'', ''totp'', ''auth'', ''owner'', ''label'']] @
        map participant_line (list_participants ext db)) db)) db"
| "participant_session ext otpauth draw now (DeactivateParticipant participant_id) db =
     updated_or (unknown_participant participant_id) (set_web_participant_status now participant_id ''inactive'' db)
       [''PARTICIPANT INACTIVE'', ''participant_id : '' @ participant_id, ''status         : inactive'']"
| "participant_session ext otpauth draw now (ReactivateParticipant participant_id) db =
     updated_or (unknown_participant participant_id) (set_web_participant_status now participant_id ''active'' db)
       [''PARTICIPANT ACTIVE'', ''participant_id : '' @ participant_id, ''status         : active'']"
| "participant_session ext otpauth draw now (SetParticipantRole participant_id role) db =
     updated_or (unknown_participant participant_id) (set_web_participant_role now participant_id role db)
       [''PARTICIPANT ROLE READY'', ''participant_id : '' @ participant_id, ''role           : '' @ role]"
| "participant_session ext otpauth draw now (SetParticipantOwner participant_id owner_provider owner_subject login) db =
     with_owner_columns (\<lambda>db. updated_or (unknown_participant participant_id)
       (set_participant_owner now participant_id owner_provider owner_subject login db)
       [''PARTICIPANT OWNER READY'', ''participant_id : '' @ participant_id, ''provider       : '' @ owner_provider,
        ''subject        : '' @ owner_subject, ''login          : '' @ or_else login ''-'']) db"
| "participant_session ext otpauth draw now (ClearParticipantOwner participant_id) db =
     with_owner_columns (\<lambda>db. updated_or (unknown_participant participant_id)
       (clear_participant_owner now participant_id db)
       [''PARTICIPANT OWNER CLEARED'', ''participant_id : '' @ participant_id]) db"
| "participant_session ext otpauth draw now (TotpEnroll participant_id issuer) db =
     totp_enroll otpauth draw now participant_id issuer db"
| "participant_session ext otpauth draw now (TotpRevoke participant_id) db =
     updated_or (CliMessage (''no active TOTP for participant: '' @ participant_id))
       (revoke_web_participant_totp now participant_id db) [''revoked TOTP login: '' @ participant_id]"
| "participant_session ext otpauth draw now (AuthGenerate participant_id) db =
     provision_auth ext draw now participant_id False db"
| "participant_session ext otpauth draw now (AuthRotate participant_id) db =
     provision_auth ext draw now participant_id True db"
| "participant_session ext otpauth draw now (AuthRevoke participant_id) db =
     updated_or (CliMessage (''no active participant auth for: '' @ participant_id))
       (revoke_web_participant_auth now participant_id db)
       [''PARTICIPANT AUTH REVOKED'', ''participant_id : '' @ participant_id]"

definition dispatch_participant ::
    "externals \<Rightarrow> (string \<Rightarrow> string \<Rightarrow> string \<Rightarrow> string option) \<Rightarrow> bytes \<Rightarrow> int \<Rightarrow> participant_command \<Rightarrow> string
     \<Rightarrow> board disk \<Rightarrow> unit cli_result \<times> string list \<times> board disk" where
  "dispatch_participant ext otpauth draw now command path =
     with_database path (participant_session ext otpauth draw now command)"

section \<open>Bearer identities\<close>

definition print_identity_token :: "identity \<Rightarrow> string \<Rightarrow> string list" where
  "print_identity_token who token =
     [''SAVE THIS TOKEN NOW. Only its SHA-256 hash is stored in the database.'',
      ''source  : '' @ id_source who,
      ''instance: '' @ id_instance who,
      ''label   : '' @ or_else (id_label who) [],
      ''token   : '' @ token]"

definition unknown_instance :: "string \<Rightarrow> cli_error" where
  "unknown_instance i = CliMessage (''unknown instance: '' @ i)"

text \<open>The loops over the instances of a command print as they go and stop at the first error; the n-th rotation of a
  command draws the token \<open>tokens n\<close>.\<close>

definition then_prints :: "string list \<Rightarrow> unit cli_result \<times> string list \<times> 'db \<Rightarrow> unit cli_result \<times> string list \<times> 'db" where
  "then_prints lines r = (fst r, lines @ fst (snd r), snd (snd r))"

fun rotate_all :: "externals \<Rightarrow> (nat \<Rightarrow> string) \<Rightarrow> nat \<Rightarrow> string list \<Rightarrow> board session" where
  "rotate_all ext tokens n [] db = (Inr (), [], db)"
| "rotate_all ext tokens n (i # rest) db =
     (case get_identity db i of
        None \<Rightarrow> fails (unknown_instance i) db
      | Some record \<Rightarrow>
          (case rotate_token ext (tokens n) i db of
             (Inl e, db') \<Rightarrow> (Inl (CliSql e), [], db')
           | (Inr None, db') \<Rightarrow> (Inl (unknown_instance i), [], db')
           | (Inr (Some t), db') \<Rightarrow> then_prints (print_identity_token record t) (rotate_all ext tokens (Suc n) rest db')))"

fun revoke_all :: "string list \<Rightarrow> board session" where
  "revoke_all [] db = (Inr (), [], db)"
| "revoke_all (i # rest) db =
     (case revoke_token i db of
        (False, db') \<Rightarrow> (Inl (unknown_instance i), [], db')
      | (True, db') \<Rightarrow> then_prints [''revoked: '' @ i] (revoke_all rest db'))"

text \<open>\<open>register_identity\<close> draws until a pair does not collide; the supply \<open>draws\<close> is that of one run, and one that holds
  no fresh pair, which the code never sees, is the violated constraint.\<close>

datatype identity_command =
    ProvisionIdentity string "string option"
  | RotateIdentities "string list"
  | RevokeIdentities "string list"

fun identity_session ::
    "externals \<Rightarrow> (string \<times> string) list \<Rightarrow> (nat \<Rightarrow> string) \<Rightarrow> int \<Rightarrow> identity_command \<Rightarrow> board session" where
  "identity_session ext draws tokens now (ProvisionIdentity source label) db =
     sql_step (register_identity ext now source label draws db)
       (\<lambda>registered. case registered of
          None \<Rightarrow> fails (CliSql ConstraintViolation)
        | Some (who, token) \<Rightarrow> prints (print_identity_token who token))"
| "identity_session ext draws tokens now (RotateIdentities instances) db = rotate_all ext tokens 0 instances db"
| "identity_session ext draws tokens now (RevokeIdentities instances) db = revoke_all instances db"

definition dispatch_identity ::
    "externals \<Rightarrow> (string \<times> string) list \<Rightarrow> (nat \<Rightarrow> string) \<Rightarrow> int \<Rightarrow> identity_command \<Rightarrow> string \<Rightarrow> board disk
     \<Rightarrow> unit cli_result \<times> string list \<times> board disk" where
  "dispatch_identity ext draws tokens now command path =
     with_database path (identity_session ext draws tokens now command)"

section \<open>The owner columns are there\<close>

lemma ensure_owner_columns_current:
  assumes "schema db = current_schema"
  shows "ensure_owner_columns_on db = (Inr (), db)"
proof -
  have columns: "map_of (schema db) ''web_participants'' = Some (of_table current_schema ''web_participants'')"
    using assms by (simp add: of_table_def current_schema_def)
  have none: "filter (\<lambda>c. c \<notin> set (of_table current_schema ''web_participants''))
      [''owner_provider'', ''owner_subject'', ''owner_login''] = []"
    by (simp add: of_table_def current_schema_def)
  show ?thesis
    by (simp only: ensure_owner_columns_on_def columns option.case none append_Nil2 update_present [OF columns]) simp
qed

lemma with_owner_columns_current: "schema db = current_schema \<Longrightarrow> with_owner_columns session db = session db"
  by (simp add: with_owner_columns_def ensure_owner_columns_current)

section \<open>Every command is a call\<close>

named_theorems session_simps "what the combinators of sessions do to the database"

lemma sql_step_db [session_simps]:
  "snd (snd (sql_step r k)) = (case fst r of Inl e \<Rightarrow> snd r | Inr x \<Rightarrow> snd (snd (k x (snd r))))"
  by (simp add: sql_step_def split: sum.split)

lemma fails_db [session_simps]: "snd (snd (fails e db)) = db" "snd (snd (prints lines db)) = db"
  by (simp_all add: fails_def prints_def)

lemma updated_or_db [session_simps]: "snd (snd (updated_or e r lines)) = snd r"
  by (simp add: updated_or_def session_simps split: sum.split)

lemma provision_auth_db:
  assumes "schema db = current_schema"
  shows "snd (snd (provision_auth ext draw now p rotating db)) = db \<or>
    snd (snd (provision_auth ext draw now p rotating db)) =
      snd (set_web_participant_auth_secret ext now p (snd (generate_secret ext draw)) db)"
  unfolding provision_auth_def with_owner_columns_current [OF assms]
  by (auto simp: session_simps case_prod_beta split: option.split)

lemma totp_enroll_db:
  "snd (snd (totp_enroll otpauth draw now p issuer db)) = db \<or>
   snd (snd (totp_enroll otpauth draw now p issuer db)) = snd (set_web_participant_totp now p (generate_totp_secret draw) db)"
  unfolding totp_enroll_def by (auto simp: session_simps Let_def split: option.split sum.split)

lemma participant_session_effect:
  assumes "schema db = current_schema"
  shows "snd (snd (participant_session ext otpauth draw now command db)) = db \<or>
    (\<exists>call. snd (snd (participant_session ext otpauth draw now command db)) = participant_effect ext call db)"
proof -
  let ?db = "snd (snd (participant_session ext otpauth draw now command db))"
  note owner = with_owner_columns_current [OF assms]
  show ?thesis
  proof (cases command)
    case (ProvisionParticipant p s l)
    have "?db = snd (provision_web_participant_identity now p s l db)"
      by (simp add: ProvisionParticipant owner session_simps split: sum.split option.split)
    then show ?thesis by (metis participant_effect.simps(1))
  next
    case (TotpEnroll p issuer)
    then show ?thesis using totp_enroll_db [of otpauth draw now p issuer db]
      by (simp only: participant_session.simps) (metis participant_effect.simps(4))
  next
    case (AuthGenerate p)
    then show ?thesis using provision_auth_db [OF assms, of ext draw now p False]
      by (simp only: participant_session.simps) (metis participant_effect.simps(7))
  next
    case (AuthRotate p)
    then show ?thesis using provision_auth_db [OF assms, of ext draw now p True]
      by (simp only: participant_session.simps) (metis participant_effect.simps(7))
  next
    case (DeactivateParticipant p)
    then show ?thesis by (simp add: session_simps) (metis participant_effect.simps(3))
  next
    case (ReactivateParticipant p)
    then show ?thesis by (simp add: session_simps) (metis participant_effect.simps(3))
  next
    case (SetParticipantRole p r)
    then show ?thesis by (simp add: session_simps) (metis participant_effect.simps(2))
  next
    case (SetParticipantOwner p o_provider o_subject l)
    then show ?thesis by (simp add: session_simps owner) (metis participant_effect.simps(9))
  next
    case (ClearParticipantOwner p)
    then show ?thesis by (simp add: session_simps owner) (metis participant_effect.simps(10))
  next
    case (TotpRevoke p)
    then show ?thesis by (simp add: session_simps) (metis participant_effect.simps(5))
  next
    case (AuthRevoke p)
    then show ?thesis by (simp add: session_simps) (metis participant_effect.simps(8))
  qed (simp_all add: owner session_simps split: option.split)
qed

lemma participant_session_reachable: "session_keeps (reachable ext) (participant_session ext otpauth draw now command)"
  unfolding session_keeps_def
proof (intro allI impI)
  fix db assume r: "reachable ext db"
  then show "reachable ext (snd (snd (participant_session ext otpauth draw now command db)))"
    using participant_session_effect [OF reachable_schema [OF r], of ext otpauth draw now command]
      reachable.step [OF r board_step.participant] by auto
qed

lemma rotate_all_reachable: "reachable ext db \<Longrightarrow> reachable ext (snd (snd (rotate_all ext tokens n is db)))"
proof (induction "is" arbitrary: n db)
  case (Cons i rest)
  have step: "reachable ext (snd (rotate_token ext (tokens n) i db))"
    using reachable.step [OF Cons.prems board_step.identity [of ext db "Rotate (tokens n) i"]] by simp
  obtain r db' where rot: "rotate_token ext (tokens n) i db = (r, db')" by fastforce
  then have db': "reachable ext db'" using step by simp
  show ?case
    using Cons.prems db' Cons.IH [OF db', of "Suc n"]
    by (auto simp: rot then_prints_def session_simps split: option.split sum.split)
qed simp

lemma revoke_all_reachable: "reachable ext db \<Longrightarrow> reachable ext (snd (snd (revoke_all is db)))"
proof (induction "is" arbitrary: db)
  case (Cons i rest)
  obtain r db' where rev: "revoke_token i db = (r, db')" by fastforce
  then have "reachable ext db'"
    using reachable.step [OF Cons.prems board_step.identity [of ext db "Revoke i"]] by simp
  then show ?case using Cons.IH by (cases r) (simp_all add: rev then_prints_def)
qed simp

lemma identity_session_reachable: "session_keeps (reachable ext) (identity_session ext draws tokens now command)"
  unfolding session_keeps_def
proof (intro allI impI)
  fix db assume r: "reachable ext db"
  show "reachable ext (snd (snd (identity_session ext draws tokens now command db)))"
  proof (cases command)
    case (ProvisionIdentity s l)
    have "snd (snd (identity_session ext draws tokens now command db)) = snd (register_identity ext now s l draws db)"
      by (simp add: ProvisionIdentity session_simps split: sum.split option.split)
    then show ?thesis using reachable.step [OF r board_step.identity [of ext db "Register now s l draws"]] by simp
  qed (use r rotate_all_reachable revoke_all_reachable in simp_all)
qed

interpretation participant_commands: session_family "reachable ext" "\<lambda>(draw, now, command). participant_session ext otpauth draw now command"
  for ext otpauth
  by unfold_locales (simp add: case_prod_beta participant_session_reachable)

interpretation identity_commands: session_family "reachable ext" "\<lambda>(draws, tokens, now, command). identity_session ext draws tokens now command"
  for ext
  by unfold_locales (simp add: case_prod_beta identity_session_reachable)

section \<open>Stored secrets stay hidden\<close>

text \<open>
  Two boards look alike if they differ in nothing but the stored secrets of participants: the same rows have a one-time
  secret, an HMAC secret, and one that is valid.
\<close>

definition rows_alike :: "externals \<Rightarrow> participant_row \<Rightarrow> participant_row \<Rightarrow> bool" where
  "rows_alike ext r r' \<longleftrightarrow> r' = r\<lparr>p_totp_secret := p_totp_secret r', p_auth_secret := p_auth_secret r'\<rparr> \<and>
     (p_totp_secret r = None \<longleftrightarrow> p_totp_secret r' = None) \<and> (p_auth_secret r = None \<longleftrightarrow> p_auth_secret r' = None) \<and>
     (auth_active ext r \<longleftrightarrow> auth_active ext r')"

definition boards_alike :: "externals \<Rightarrow> board \<Rightarrow> board \<Rightarrow> bool" where
  "boards_alike ext db db' \<longleftrightarrow> db' = db\<lparr>web_participants := web_participants db'\<rparr> \<and>
     list_all2 (rows_alike ext) (web_participants db) (web_participants db')"

definition outcomes_alike ::
    "externals \<Rightarrow> unit cli_result \<times> string list \<times> board \<Rightarrow> unit cli_result \<times> string list \<times> board \<Rightarrow> bool" where
  "outcomes_alike ext r r' \<longleftrightarrow> fst r' = fst r \<and> fst (snd r') = fst (snd r) \<and> boards_alike ext (snd (snd r)) (snd (snd r'))"

lemma rows_alikeD:
  assumes "rows_alike ext r r'"
  shows "p_participant_id r' = p_participant_id r" "p_source r' = p_source r" "p_label r' = p_label r"
    "p_role r' = p_role r" "p_status r' = p_status r" "p_auth_scheme r' = p_auth_scheme r"
    "p_owner_provider r' = p_owner_provider r" "p_owner_subject r' = p_owner_subject r" "p_owner_login r' = p_owner_login r"
    "p_totp_secret r' = None \<longleftrightarrow> p_totp_secret r = None" "p_auth_secret r' = None \<longleftrightarrow> p_auth_secret r = None"
    "auth_active ext r' \<longleftrightarrow> auth_active ext r"
proof -
  have eq: "r' = r\<lparr>p_totp_secret := p_totp_secret r', p_auth_secret := p_auth_secret r'\<rparr>"
    using assms by (simp add: rows_alike_def)
  show "p_participant_id r' = p_participant_id r" "p_source r' = p_source r" "p_label r' = p_label r"
    "p_role r' = p_role r" "p_status r' = p_status r" "p_auth_scheme r' = p_auth_scheme r"
    "p_owner_provider r' = p_owner_provider r" "p_owner_subject r' = p_owner_subject r" "p_owner_login r' = p_owner_login r"
    by (subst eq, simp)+
  show "p_totp_secret r' = None \<longleftrightarrow> p_totp_secret r = None" "p_auth_secret r' = None \<longleftrightarrow> p_auth_secret r = None"
    "auth_active ext r' \<longleftrightarrow> auth_active ext r"
    using assms by (simp_all add: rows_alike_def)
qed

lemma inspect_alike: "rows_alike ext r r' \<Longrightarrow> inspect_row ext r' = inspect_row ext r"
  using rows_alikeD [of ext r r'] by (simp add: inspect_row_def)

lemma find_alike:
  "list_all2 (rows_alike ext) rs rs' \<Longrightarrow>
   rel_option (rows_alike ext) (find (\<lambda>r. p_participant_id r = p) rs) (find (\<lambda>r. p_participant_id r = p) rs')"
  by (induction rule: list_all2_induct) (simp_all add: rows_alikeD(1))

lemma boards_alike_rows: "boards_alike ext db db' \<Longrightarrow> list_all2 (rows_alike ext) (web_participants db) (web_participants db')"
  by (simp add: boards_alike_def)

lemma boards_alike_update:
  assumes "boards_alike ext db db'" "list_all2 (rows_alike ext) rs rs'"
  shows "boards_alike ext (db\<lparr>web_participants := rs\<rparr>) (db'\<lparr>web_participants := rs'\<rparr>)"
proof -
  have "db' = db\<lparr>web_participants := web_participants db'\<rparr>" using assms(1) by (simp add: boards_alike_def)
  then have "db'\<lparr>web_participants := rs'\<rparr> = db\<lparr>web_participants := web_participants db'\<rparr>\<lparr>web_participants := rs'\<rparr>" by simp
  then show ?thesis using assms(2) by (simp add: boards_alike_def)
qed

lemma alike_get: "boards_alike ext db db' \<Longrightarrow> get_web_participant db' p = get_web_participant db p"
  using find_alike [OF boards_alike_rows, of ext db db' p]
  by (auto simp: get_web_participant_def identity_of_participant_def rows_alikeD elim: option.rel_cases)

lemma alike_inspect: "boards_alike ext db db' \<Longrightarrow> inspect_participant ext db' p = inspect_participant ext db p"
  using find_alike [OF boards_alike_rows, of ext db db' p]
  by (auto simp: inspect_participant_def inspect_alike elim: option.rel_cases)

lemma insort_alike:
  assumes "list_all2 (rows_alike ext) rs rs'" "rows_alike ext r r'"
  shows "list_all2 (rows_alike ext) (insort_key p_participant_id r rs) (insort_key p_participant_id r' rs')"
  using assms(1) by (induction rule: list_all2_induct) (simp_all add: assms(2) rows_alikeD(1) [OF assms(2)] rows_alikeD(1))

lemma sort_alike:
  "list_all2 (rows_alike ext) rs rs' \<Longrightarrow>
   list_all2 (rows_alike ext) (sort_key p_participant_id rs) (sort_key p_participant_id rs')"
  by (induction rule: list_all2_induct) (simp_all add: insort_alike)

lemma alike_list: "boards_alike ext db db' \<Longrightarrow> list_participants ext db' = list_participants ext db"
proof -
  have "list_all2 (rows_alike ext) rs rs' \<Longrightarrow> map (inspect_row ext) rs' = map (inspect_row ext) rs" for rs rs'
    by (induction rule: list_all2_induct) (simp_all add: inspect_alike)
  then show "boards_alike ext db db' \<Longrightarrow> ?thesis"
    using sort_alike [OF boards_alike_rows] by (simp add: list_participants_def)
qed

text \<open>An update whose condition and effect do not depend on the secrets.\<close>

definition calls_alike :: "externals \<Rightarrow> 'a \<times> board \<Rightarrow> 'a \<times> board \<Rightarrow> bool" where
  "calls_alike ext r r' \<longleftrightarrow> fst r' = fst r \<and> boards_alike ext (snd r) (snd r')"

lemma update_alike:
  assumes db: "boards_alike ext db db'"
    and c: "\<And>r r'. rows_alike ext r r' \<Longrightarrow> c r' = c r" and f: "\<And>r r'. rows_alike ext r r' \<Longrightarrow> rows_alike ext (f r) (f r')"
  shows "calls_alike ext (update_participant p c f db) (update_participant p c f db')"
proof -
  let ?hit = "\<lambda>r. p_participant_id r = p \<and> c r"
  have hit: "rows_alike ext r r' \<Longrightarrow> ?hit r' = ?hit r" for r r' using c rows_alikeD(1) by metis
  have "sql_count ?hit rs' = sql_count ?hit rs \<and> list_all2 (rows_alike ext) (sql_update ?hit f rs) (sql_update ?hit f rs')"
    if "list_all2 (rows_alike ext) rs rs'" for rs rs'
    using that hit f by (induction rule: list_all2_induct) (auto simp: sql_count_def sql_update_def)
  from this [OF boards_alike_rows [OF db]] show ?thesis
    using boards_alike_update [OF db] by (simp add: calls_alike_def update_participant_def Let_def)
qed

lemma updated_or_alike:
  assumes "calls_alike ext r r'"
  shows "outcomes_alike ext (updated_or e r lines) (updated_or e r' lines)"
  using assms
  by (auto simp: calls_alike_def outcomes_alike_def updated_or_def sql_step_def fails_def prints_def split: sum.split)

lemma rows_alike_update:
  assumes "rows_alike ext r r'"
  shows "rows_alike ext (r\<lparr>p_role := x, p_updated_at := t\<rparr>) (r'\<lparr>p_role := x, p_updated_at := t\<rparr>)"
    "rows_alike ext (r\<lparr>p_status := x, p_updated_at := t\<rparr>) (r'\<lparr>p_status := x, p_updated_at := t\<rparr>)"
    "rows_alike ext (r\<lparr>p_totp_secret := s, p_totp_last_step := None, p_totp_fail_count := 0, p_totp_locked_until := None,
       p_updated_at := t\<rparr>) (r'\<lparr>p_totp_secret := s, p_totp_last_step := None, p_totp_fail_count := 0,
       p_totp_locked_until := None, p_updated_at := t\<rparr>)"
    "rows_alike ext (r\<lparr>p_auth_secret := s, p_auth_scheme := s', p_updated_at := t\<rparr>)
       (r'\<lparr>p_auth_secret := s, p_auth_scheme := s', p_updated_at := t\<rparr>)"
    "rows_alike ext (r\<lparr>p_owner_provider := s, p_owner_subject := s', p_owner_login := s'', p_updated_at := t\<rparr>)
       (r'\<lparr>p_owner_provider := s, p_owner_subject := s', p_owner_login := s'', p_updated_at := t\<rparr>)"
proof -
  have eq: "r' = r\<lparr>p_totp_secret := p_totp_secret r', p_auth_secret := p_auth_secret r'\<rparr>"
    using assms by (simp add: rows_alike_def)
  obtain a b where r': "r' = r\<lparr>p_totp_secret := a, p_auth_secret := b\<rparr>" "(p_totp_secret r = None) = (a = None)"
    "(p_auth_secret r = None) = (b = None)" "auth_active ext r = auth_active ext (r\<lparr>p_totp_secret := a, p_auth_secret := b\<rparr>)"
    using assms eq by (auto simp: rows_alike_def)
  note defs = rows_alike_def auth_active_def r'(1)
  show "rows_alike ext (r\<lparr>p_role := x, p_updated_at := t\<rparr>) (r'\<lparr>p_role := x, p_updated_at := t\<rparr>)"
    "rows_alike ext (r\<lparr>p_status := x, p_updated_at := t\<rparr>) (r'\<lparr>p_status := x, p_updated_at := t\<rparr>)"
    "rows_alike ext (r\<lparr>p_totp_secret := s, p_totp_last_step := None, p_totp_fail_count := 0, p_totp_locked_until := None,
       p_updated_at := t\<rparr>) (r'\<lparr>p_totp_secret := s, p_totp_last_step := None, p_totp_fail_count := 0,
       p_totp_locked_until := None, p_updated_at := t\<rparr>)"
    "rows_alike ext (r\<lparr>p_auth_secret := s, p_auth_scheme := s', p_updated_at := t\<rparr>)
       (r'\<lparr>p_auth_secret := s, p_auth_scheme := s', p_updated_at := t\<rparr>)"
    "rows_alike ext (r\<lparr>p_owner_provider := s, p_owner_subject := s', p_owner_login := s'', p_updated_at := t\<rparr>)
       (r'\<lparr>p_owner_provider := s, p_owner_subject := s', p_owner_login := s'', p_updated_at := t\<rparr>)"
    using r'(2-4) by (simp_all add: defs)
qed

lemma calls_alike_sql:
  assumes "calls_alike ext (update_participant p c f db) (update_participant p c f db')" "boards_alike ext db db'"
  shows "calls_alike ext (if guard then (Inl e, db) else let (changed, db1) = update_participant p c f db in (Inr changed, db1))
    (if guard then (Inl e, db') else let (changed, db1) = update_participant p c f db' in (Inr changed, db1))"
  using assms by (simp add: calls_alike_def case_prod_beta)

lemma operations_alike:
  assumes "boards_alike ext db db'"
  shows "calls_alike ext (set_web_participant_status now p s db) (set_web_participant_status now p s db')"
    "calls_alike ext (set_web_participant_role now p s db) (set_web_participant_role now p s db')"
    "calls_alike ext (set_web_participant_totp now p s db) (set_web_participant_totp now p s db')"
    "calls_alike ext (revoke_web_participant_totp now p db) (revoke_web_participant_totp now p db')"
    "calls_alike ext (set_web_participant_auth_secret ext now p s db) (set_web_participant_auth_secret ext now p s db')"
    "calls_alike ext (revoke_web_participant_auth now p db) (revoke_web_participant_auth now p db')"
    "calls_alike ext (set_participant_owner now p s s' l db) (set_participant_owner now p s s' l db')"
    "calls_alike ext (clear_participant_owner now p db) (clear_participant_owner now p db')"
proof -
  note sql = calls_alike_sql [OF update_alike [OF assms] assms]
  show "calls_alike ext (set_web_participant_status now p s db) (set_web_participant_status now p s db')"
    unfolding set_web_participant_status_def by (rule sql) (simp_all add: rows_alike_update)
  show "calls_alike ext (set_web_participant_role now p s db) (set_web_participant_role now p s db')"
    unfolding set_web_participant_role_def by (rule sql) (simp_all add: rows_alike_update)
  show "calls_alike ext (set_web_participant_totp now p s db) (set_web_participant_totp now p s db')"
    unfolding set_web_participant_totp_def by (rule sql) (simp_all add: rows_alike_update)
  show "calls_alike ext (revoke_web_participant_totp now p db) (revoke_web_participant_totp now p db')"
    unfolding revoke_web_participant_totp_def by (rule sql) (simp_all only: rows_alike_update rows_alikeD)
  show "calls_alike ext (set_web_participant_auth_secret ext now p s db) (set_web_participant_auth_secret ext now p s db')"
    unfolding set_web_participant_auth_secret_def by (rule sql) (simp_all add: rows_alike_update)
  show "calls_alike ext (revoke_web_participant_auth now p db) (revoke_web_participant_auth now p db')"
    unfolding revoke_web_participant_auth_def by (rule sql) (simp_all only: rows_alike_update rows_alikeD)
  show "calls_alike ext (set_participant_owner now p s s' l db) (set_participant_owner now p s s' l db')"
    unfolding set_participant_owner_def by (rule sql) (simp_all add: rows_alike_update)
  show "calls_alike ext (clear_participant_owner now p db) (clear_participant_owner now p db')"
    unfolding clear_participant_owner_def by (rule sql) (simp_all add: rows_alike_update)
qed

lemma provision_alike:
  assumes "boards_alike ext db db'"
  shows "calls_alike ext (provision_web_participant_identity now p s l db) (provision_web_participant_identity now p s l db')"
proof -
  have "boards_alike ext (db\<lparr>web_participants := web_participants db @ [r]\<rparr>)
      (db'\<lparr>web_participants := web_participants db' @ [r]\<rparr>)" for r
    by (rule boards_alike_update [OF assms]) (simp add: boards_alike_rows [OF assms] list_all2_appendI rows_alike_def)
  then show ?thesis
    using assms alike_get [OF assms]
    by (simp add: calls_alike_def provision_web_participant_identity_def split: option.split sum.split)
qed

lemma sql_step_alike:
  assumes "calls_alike ext r r'"
    and "\<And>x db db'. boards_alike ext db db' \<Longrightarrow> outcomes_alike ext (k x db) (k x db')"
  shows "outcomes_alike ext (sql_step r k) (sql_step r' k)"
  using assms by (cases "fst r") (simp_all add: calls_alike_def outcomes_alike_def sql_step_def)

lemma leaf_alike:
  "boards_alike ext db db' \<Longrightarrow> outcomes_alike ext (fails e db) (fails e db')"
  "boards_alike ext db db' \<Longrightarrow> outcomes_alike ext (prints lines db) (prints lines db')"
  by (simp_all add: outcomes_alike_def fails_def prints_def)

lemma owner_columns_alike:
  assumes "boards_alike ext db db'"
    and "\<And>db db'. boards_alike ext db db' \<Longrightarrow> outcomes_alike ext (session db) (session db')"
  shows "outcomes_alike ext (with_owner_columns session db) (with_owner_columns session db')"
proof -
  obtain ps where db': "db' = db\<lparr>web_participants := ps\<rparr>" "list_all2 (rows_alike ext) (web_participants db) ps"
    using assms(1) unfolding boards_alike_def by blast
  then have "boards_alike ext (db\<lparr>schema := s\<rparr>) (db'\<lparr>schema := s\<rparr>)" for s by (simp add: boards_alike_def)
  then show ?thesis
    using assms db'(1)
    by (simp add: with_owner_columns_def ensure_owner_columns_on_def outcomes_alike_def split: option.split)
qed

lemma totp_enroll_alike:
  assumes "boards_alike ext db db'"
  shows "outcomes_alike ext (totp_enroll otpauth draw now p issuer db) (totp_enroll otpauth draw now p issuer db')"
proof (cases "get_web_participant db p = None")
  case True
  then show ?thesis using alike_get [OF assms] by (simp add: totp_enroll_def leaf_alike assms)
next
  case False
  then show ?thesis
    unfolding totp_enroll_def alike_get [OF assms] if_not_P [OF False] Let_def
    by (intro sql_step_alike operations_alike assms) (auto intro!: leaf_alike split: option.split)
qed

lemma provision_auth_alike:
  assumes "boards_alike ext db db'"
  shows "outcomes_alike ext (provision_auth ext draw now p rotating db) (provision_auth ext draw now p rotating db')"
proof (cases "get_web_participant db p = None")
  case True
  then show ?thesis using alike_get [OF assms] by (simp add: provision_auth_def leaf_alike assms)
next
  case False
  then show ?thesis
    unfolding provision_auth_def alike_get [OF assms] if_not_P [OF False]
    by (intro owner_columns_alike [OF assms])
      (auto simp: alike_inspect case_prod_beta intro!: leaf_alike updated_or_alike operations_alike split: option.split)
qed

text \<open>C26: No command that administers participants reveals or depends on a stored secret: on two boards that differ only
  in the secrets of participants, every command has the same result and prints the same lines, and leaves boards that
  again differ only in secrets.\<close>

theorem participant_commands_hide_secrets:
  assumes "boards_alike ext db db'"
  shows "fst (participant_session ext otpauth draw now command db') = fst (participant_session ext otpauth draw now command db) \<and>
    fst (snd (participant_session ext otpauth draw now command db')) =
      fst (snd (participant_session ext otpauth draw now command db)) \<and>
    boards_alike ext (snd (snd (participant_session ext otpauth draw now command db)))
      (snd (snd (participant_session ext otpauth draw now command db')))"
proof -
  have "outcomes_alike ext (participant_session ext otpauth draw now command db)
      (participant_session ext otpauth draw now command db')"
  proof (cases command)
    case (ProvisionParticipant p s l)
    then show ?thesis
      by (auto intro!: owner_columns_alike [OF assms] sql_step_alike provision_alike leaf_alike split: option.split)
  next
    case (ShowParticipant p)
    then show ?thesis
      by (auto intro!: owner_columns_alike [OF assms] owner_columns_alike leaf_alike simp: alike_inspect split: option.split)
  next
    case ListParticipants
    then show ?thesis
      by (auto intro!: owner_columns_alike [OF assms] owner_columns_alike leaf_alike simp: alike_list)
  qed (simp_all add: updated_or_alike operations_alike assms totp_enroll_alike provision_auth_alike owner_columns_alike)
  then show ?thesis by (simp add: outcomes_alike_def)
qed

definition sample_secret_row :: "string \<Rightarrow> participant_row" where
  "sample_secret_row secret =
     (new_participant 1 ''maker-main'' ''claude'' None)\<lparr>p_totp_secret := Some secret\<rparr>"

theorem participant_commands_hide_secrets_witness:
  "fst (snd (participant_session sample_externals (\<lambda>_ _ _. None) [] 5 (ShowParticipant ''maker-main'')
      (empty_board\<lparr>web_participants := [sample_secret_row ''B'']\<rparr>))) =
   fst (snd (participant_session sample_externals (\<lambda>_ _ _. None) [] 5 (ShowParticipant ''maker-main'')
      (empty_board\<lparr>web_participants := [sample_secret_row ''A'']\<rparr>)))"
proof -
  have "boards_alike sample_externals (empty_board\<lparr>web_participants := [sample_secret_row ''A'']\<rparr>)
      (empty_board\<lparr>web_participants := [sample_secret_row ''B'']\<rparr>)"
    by (simp add: boards_alike_def rows_alike_def auth_active_def sample_secret_row_def new_participant_def)
  from participant_commands_hide_secrets [OF this, of "\<lambda>_ _ _. None" "[]" 5 "ShowParticipant ''maker-main''"]
  show ?thesis by blast
qed

section \<open>Failures\<close>

lemma sql_count_keyed:
  "distinct (map k rows) \<Longrightarrow>
   sql_count (\<lambda>r. k r = v \<and> Q r) rows = (if \<exists>r \<in> set rows. k r = v \<and> Q r then 1 else 0)"
proof (induction rows)
  case (Cons r rows)
  then have rest: "sql_count (\<lambda>r. k r = v \<and> Q r) rows = (if \<exists>r \<in> set rows. k r = v \<and> Q r then 1 else 0)" by simp
  show ?case
  proof (cases "k r = v \<and> Q r")
    case True
    then have "\<not> (\<exists>r \<in> set rows. k r = v \<and> Q r)" using Cons.prems by (auto simp: image_iff)
    then show ?thesis using True rest by (simp add: sql_count_def)
  next
    case False
    then show ?thesis using rest by (auto simp: sql_count_def)
  qed
qed (simp add: sql_count_def)

lemma update_participant_hit:
  assumes "participants_wf db"
  shows "fst (update_participant p c f db) \<longleftrightarrow> (\<exists>r \<in> set (web_participants db). p_participant_id r = p \<and> c r)"
  using sql_count_keyed [of p_participant_id "web_participants db" p c] assms
  by (simp add: update_participant_def Let_def participants_wf_def)

lemma update_participant_missed:
  assumes "participants_wf db" "\<not> fst (update_participant p c f db)"
  shows "snd (update_participant p c f db) = db"
proof -
  have "sql_count (\<lambda>r. p_participant_id r = p \<and> c r) (web_participants db) = 0"
    using assms by (simp add: update_participant_hit sql_count_0)
  from sql_update_none [OF this] show ?thesis by (simp add: update_participant_def Let_def)
qed

text \<open>An operation is refusing if it leaves the board alone unless it reports a change.\<close>

definition refusing :: "board \<Rightarrow> bool sql_result \<times> board \<Rightarrow> bool" where
  "refusing db r \<longleftrightarrow> (fst r \<noteq> Inr True \<longrightarrow> snd r = db)"

lemma refusing_sql:
  assumes "participants_wf db"
  shows "refusing db (if guard then (Inl e, db) else let (changed, db') = update_participant p c f db in (Inr changed, db'))"
  using update_participant_missed [OF assms, of p c f] by (simp add: refusing_def case_prod_beta)

lemma operations_refusing:
  assumes "participants_wf db"
  shows "refusing db (set_web_participant_status now p s db)" "refusing db (set_web_participant_role now p s db)"
    "refusing db (set_web_participant_totp now p s db)" "refusing db (revoke_web_participant_totp now p db)"
    "refusing db (set_web_participant_auth_secret ext now p s db)" "refusing db (revoke_web_participant_auth now p db)"
    "refusing db (set_participant_owner now p s s' l db)" "refusing db (clear_participant_owner now p db)"
  unfolding set_web_participant_status_def set_web_participant_role_def set_web_participant_totp_def
    revoke_web_participant_totp_def set_web_participant_auth_secret_def revoke_web_participant_auth_def
    set_participant_owner_def clear_participant_owner_def
  by (rule refusing_sql [OF assms])+

lemma updated_or_failed:
  assumes "refusing db r" "fst (updated_or e r lines) = Inl e'"
  shows "snd (snd (updated_or e r lines)) = db \<and> fst (snd (updated_or e r lines)) = []"
  using assms
  by (auto simp: updated_or_def sql_step_def refusing_def fails_def prints_def split: sum.splits if_splits)

lemma provision_auth_failed:
  assumes "schema db = current_schema" "participants_wf db"
    and "fst (provision_auth ext draw now p rotating db) = Inl e"
  shows "snd (snd (provision_auth ext draw now p rotating db)) = db \<and> fst (snd (provision_auth ext draw now p rotating db)) = []"
  using assms(3) updated_or_failed [OF operations_refusing(5) [OF assms(2)]]
  unfolding provision_auth_def with_owner_columns_current [OF assms(1)]
  by (auto simp: fails_def case_prod_beta split: option.splits if_splits)

text \<open>An enrolment that could store its secret fails only where the address cannot be built.\<close>

lemma totp_enroll_failed:
  assumes "participants_wf db" and "fst (totp_enroll otpauth draw now p issuer db) = Inl e"
    and issuer: "\<not> blank issuer" and builds: "otpauth p (generate_totp_secret draw) (trim issuer) \<noteq> None"
  shows "snd (snd (totp_enroll otpauth draw now p issuer db)) = db \<and> fst (snd (totp_enroll otpauth draw now p issuer db)) = []"
proof -
  let ?secret = "generate_totp_secret draw"
  let ?set = "set_web_participant_totp now p ?secret db"
  have refused: "fst ?set \<noteq> Inr True \<Longrightarrow> snd ?set = db"
    using operations_refusing(3) [OF assms(1)] by (simp add: refusing_def)
  have uri: "otpauth_uri otpauth p ?secret issuer \<noteq> None" if "fst ?set = Inr True"
  proof -
    have "validate_participant_id p \<noteq> None" "validate_totp_secret ?secret"
      using that by (auto simp: set_web_participant_totp_def split: if_splits)
    moreover have "validate_participant_id [] = None" by code_simp
    ultimately show ?thesis using issuer builds by (auto simp: otpauth_uri_def)
  qed
  show ?thesis
  proof (cases "fst ?set = Inr True")
    case True
    then show ?thesis using assms(2) uri by (auto simp: totp_enroll_def sql_step_def fails_def prints_def Let_def split: if_splits)
  next
    case False
    then show ?thesis using assms(2) refused
      by (auto simp: totp_enroll_def sql_step_def fails_def prints_def Let_def split: if_splits sum.splits)
  qed
qed

lemma failed_session:
  assumes db: "schema db = current_schema" "participants_wf db"
    and failed: "fst (participant_session ext otpauth draw now command db) = Inl e"
    and issuer: "\<And>p issuer. command = TotpEnroll p issuer \<Longrightarrow>
      \<not> blank issuer \<and> otpauth p (generate_totp_secret draw) (trim issuer) \<noteq> None"
  shows "snd (snd (participant_session ext otpauth draw now command db)) = db \<and>
    fst (snd (participant_session ext otpauth draw now command db)) = []"
proof -
  note owner = with_owner_columns_current [OF db(1)]
  note refused = updated_or_failed [OF operations_refusing(1) [OF db(2)]] updated_or_failed [OF operations_refusing(2) [OF db(2)]]
    updated_or_failed [OF operations_refusing(4) [OF db(2)]] updated_or_failed [OF operations_refusing(6) [OF db(2)]]
    updated_or_failed [OF operations_refusing(7) [OF db(2)]] updated_or_failed [OF operations_refusing(8) [OF db(2)]]
    provision_auth_failed [OF db]
  show ?thesis
  proof (cases command)
    case (ProvisionParticipant p s l)
    have "fst (provision_web_participant_identity now p s l db) = Inl e1 \<or>
        fst (provision_web_participant_identity now p s l db) = Inr None \<Longrightarrow>
        snd (provision_web_participant_identity now p s l db) = db" for e1
      by (auto simp: provision_web_participant_identity_def split: option.splits sum.splits if_splits)
    then show ?thesis
      using failed by (auto simp: ProvisionParticipant owner sql_step_def fails_def prints_def split: sum.splits option.splits)
  next
    case (ShowParticipant p)
    then show ?thesis using failed by (simp add: owner fails_def prints_def split: option.splits)
  next
    case ListParticipants
    then show ?thesis using failed by (simp add: owner prints_def)
  next
    case (TotpEnroll p issuer)
    then show ?thesis using totp_enroll_failed [OF db(2), of otpauth draw now p issuer e] failed issuer by (simp add: owner)
  qed (use failed refused in \<open>simp_all add: owner\<close>)
qed

text \<open>An enrolment stores its secret before it builds the address, which fails for a blank issuer.\<close>

lemma blank_issuer_enrolment:
  assumes wf: "participants_wf db" and p: "validate_participant_id p \<noteq> None"
    and r: "find (\<lambda>r. p_participant_id r = p) (web_participants db) = Some r"
    and draw: "length draw = 20" and issuer: "blank issuer"
  shows "fst (totp_enroll otpauth draw now p issuer db) = Inl (CliMessage ''could not construct TOTP enrollment URI'') \<and>
    fst (snd (totp_enroll otpauth draw now p issuer db)) = [] \<and>
    find (\<lambda>r. p_participant_id r = p) (web_participants (snd (snd (totp_enroll otpauth draw now p issuer db)))) =
      Some (r\<lparr>p_totp_secret := Some (generate_totp_secret draw), p_totp_last_step := None, p_totp_fail_count := 0,
              p_totp_locked_until := None, p_updated_at := now\<rparr>)"
proof -
  let ?f = "\<lambda>r. r\<lparr>p_totp_secret := Some (generate_totp_secret draw), p_totp_last_step := None, p_totp_fail_count := 0,
              p_totp_locked_until := None, p_updated_at := now\<rparr>"
  have d: "distinct (map p_participant_id (web_participants db))" using wf by (simp add: participants_wf_def)
  have "draw \<noteq> []" using draw by auto
  then have valid: "validate_totp_secret (generate_totp_secret draw)" using base32_roundtrip [of draw] draw by blast
  have hit: "fst (update_participant p (\<lambda>_. True) ?f db)"
    using r by (auto simp: update_participant_hit [OF wf] dest: find_SomeD)
  have set_it: "set_web_participant_totp now p (generate_totp_secret draw) db = (Inr True, snd (update_participant p (\<lambda>_. True) ?f db))"
    using p valid hit by (simp add: set_web_participant_totp_def case_prod_beta)
  have enroll: "totp_enroll otpauth draw now p issuer db =
      (Inl (CliMessage ''could not construct TOTP enrollment URI''), [], snd (update_participant p (\<lambda>_. True) ?f db))"
    using r issuer by (simp add: totp_enroll_def get_web_participant_def set_it sql_step_def otpauth_uri_def fails_def)
  have "find (\<lambda>r. p_participant_id r = p) (web_participants (snd (update_participant p (\<lambda>_. True) ?f db))) = Some (?f r)"
    using find_sql_update_key [OF d, of ?f p "\<lambda>_. True" "\<lambda>_. True"] r by (simp add: update_participant_def Let_def)
  then show ?thesis unfolding enroll by simp
qed


lemma sample_command_board:
  "schema sample_totp_board = current_schema"
  "find (\<lambda>r. p_participant_id r = ''ada'') (web_participants sample_totp_board) = Some sample_totp_row"
  by (simp_all add: sample_totp_board_def empty_board_def sample_totp_row_def new_participant_def)


section \<open>Credentials\<close>

text \<open>\<open>participant auth-generate\<close> never replaces a working credential: for a participant that has one it fails and
  leaves the board as it was.  Otherwise it prints exactly one credential, the one it stored: an active participant can
  authenticate with it from then on, and generating again is refused.\<close>

theorem generated_credential_stored:
  assumes "base64_faithful ext" and "length draw = 32" and "schema db = current_schema" and "participants_wf db"
    and "validate_participant_id p \<noteq> None" and "find (\<lambda>r. p_participant_id r = p) (web_participants db) = Some r"
  shows "if auth_active ext r
    then (\<exists>e. participant_session ext otpauth draw now (AuthGenerate p) db = (Inl e, [], db))
    else (\<exists>lines db'. participant_session ext otpauth draw now (AuthGenerate p) db = (Inr (), lines, db') \<and>
      ''secret         : '' @ fst (generate_secret ext draw) \<in> set lines \<and>
      validate_secret ext (fst (generate_secret ext draw)) \<and>
      (p_status r = ''active'' \<longrightarrow>
        map_option pa_auth_secret (get_web_participant_auth db' p) = Some (fst (generate_secret ext draw))) \<and>
      (\<exists>e. participant_session ext otpauth draw' now' (AuthGenerate p) db' = (Inl e, [], db')))"
proof -
  have owner: "participant_session ext otpauth draw now (AuthGenerate p) db = provision_auth ext draw now p False db"
    for draw now db by simp
  have refuse: "\<exists>e. provision_auth ext draw now p False db = (Inl e, [], db)"
    if "schema db = current_schema" "find (\<lambda>r. p_participant_id r = p) (web_participants db) = Some r" "auth_active ext r"
    for draw now db r
    using that by (simp add: provision_auth_def with_owner_columns_current get_web_participant_def inspect_participant_def
        inspect_row_def fails_def)
  show ?thesis
  proof (cases "auth_active ext r")
    case True
    then show ?thesis using refuse [OF assms(3,6) True] unfolding owner by simp
  next
    case False
    let ?s = "fst (generate_secret ext draw)"
    let ?f = "\<lambda>r. r\<lparr>p_auth_secret := Some ?s, p_auth_scheme := Some AUTH_SCHEME, p_updated_at := now\<rparr>"
    let ?db = "snd (update_participant p (\<lambda>_. True) ?f db)"
    have valid: "validate_secret ext ?s" by (rule generated_secret_valid [OF assms(1,2)])
    have hit: "fst (update_participant p (\<lambda>_. True) ?f db)"
      using assms(6) by (auto simp: update_participant_hit [OF assms(4)] dest: find_SomeD)
    have set_it: "set_web_participant_auth_secret ext now p ?s db = (Inr True, ?db)"
      using assms(5) valid hit by (simp add: set_web_participant_auth_secret_def case_prod_beta)
    have same: "snd (generate_secret ext draw) = ?s" by (simp add: generate_secret_def Let_def)
    obtain lines where run: "provision_auth ext draw now p False db = (Inr (), lines, ?db)" "''secret         : '' @ ?s \<in> set lines"
      using False assms(6)
      by (simp add: provision_auth_def with_owner_columns_current [OF assms(3)] get_web_participant_def
          inspect_participant_def inspect_row_def case_prod_beta same set_it updated_or_def sql_step_def prints_def)
    have d: "distinct (map p_participant_id (web_participants db))" using assms(4) by (simp add: participants_wf_def)
    have row: "find (\<lambda>r. p_participant_id r = p \<and> Q r) (web_participants ?db) = (if Q (?f r) then Some (?f r) else None)" for Q
      using find_sql_update_key [OF d, of ?f p Q "\<lambda>_. True"] assms(6) by (simp add: update_participant_def Let_def)
    have "schema ?db = current_schema" using assms(3) by (simp add: update_participant_def Let_def)
    moreover have "auth_active ext (?f r)" using valid by (simp add: auth_active_def)
    moreover have "find (\<lambda>r. p_participant_id r = p) (web_participants ?db) = Some (?f r)" using row [of "\<lambda>_. True"] by simp
    ultimately have again: "\<exists>e. provision_auth ext draw' now' p False ?db = (Inl e, [], ?db)" using refuse by blast
    have stored: "map_option pa_auth_secret (get_web_participant_auth ?db p) = Some ?s" if "p_status r = ''active''"
      unfolding get_web_participant_auth_def row using assms(5) that by simp
    show ?thesis using False run again stored valid unfolding owner by auto
  qed
qed

theorem generated_credential_stored_witness:
  "\<exists>lines db'. participant_session sample_externals (\<lambda>_ _ _. None) (replicate 32 7) 5 (AuthGenerate ''ada'') sample_totp_board =
     (Inr (), lines, db') \<and>
   map_option pa_auth_secret (get_web_participant_auth db' ''ada'') = Some (fst (generate_secret sample_externals (replicate 32 7)))"
proof -
  have v: "validate_participant_id ''ada'' \<noteq> None" using sample_totp_board_facts(7) by simp
  have a: "\<not> auth_active sample_externals sample_totp_row" "p_status sample_totp_row = ''active''"
    by (simp_all add: auth_active_def sample_totp_row_def new_participant_def)
  from generated_credential_stored [OF sample_base64_faithful, of "replicate 32 7", OF _ sample_command_board(1)
      sample_totp_board_facts(1) v sample_command_board(2), of "\<lambda>_ _ _. None" 5] a
  show ?thesis by (simp del: participant_session.simps) blast
qed

end
