(* ===== verification/Grant_Admin.thy ===== *)
theory Grant_Admin
  imports Cli Policy_Texts
begin

text \<open>
  The commands that administer and inspect authorization grants (\<open>grant_admin.rs\<close>).  The reading commands check the
  tables they read before anything else and say which command migrates the file; the writing commands act as the
  actor \<open>local_cli\<close>.  The clock is the argument \<open>now\<close>.
\<close>

section \<open>Commands\<close>

datatype durable_grant_command =
    CreateDurableGrant durable_create
  | ListDurableGrants "string option"
  | DeactivateDurableGrant int

datatype grant_command =
    CreateGrant delegated_create
  | ListGrants "string option"
  | GrantHistory history_window_request
  | ExplainGrant string string string string "string option" "string option"
  | DeactivateGrant int
  | DurableGrants durable_grant_command
  | VerifyGrants

fun admin_failure :: "admin_error \<Rightarrow> cli_error" where
  "admin_failure (AdminError s) = CliMessage s"
| "admin_failure (AdminSql e) = CliSql e"

text \<open>\<open>?\<close> on the result of an administrative operation.\<close>

definition admin_step :: "'a admin_result \<times> board \<Rightarrow> ('a \<Rightarrow> board session) \<Rightarrow> unit cli_result \<times> string list \<times> board" where
  "admin_step r k = (case fst r of Inl e \<Rightarrow> (Inl (admin_failure e), [], snd r) | Inr x \<Rightarrow> k x (snd r))"

definition cli_normalize :: "string \<Rightarrow> nat \<Rightarrow> string \<Rightarrow> string cli_result" where
  "cli_normalize value max_bytes field =
     (let value = trim value
      in if value = [] \<or> max_bytes < length value \<or> has_control value
         then Inl (CliMessage (''invalid '' @ field)) else Inr value)"

definition cli_normalize_optional :: "string option \<Rightarrow> nat \<Rightarrow> string \<Rightarrow> string option cli_result" where
  "cli_normalize_optional value max_bytes field =
     (case value of None \<Rightarrow> Inr None | Some v \<Rightarrow> try_bind (cli_normalize v max_bytes field) (\<lambda>w. Inr (Some w)))"

text \<open>A reading command asks for a migration unless the tables are current.\<close>

definition requires_migration :: "string \<Rightarrow> string \<Rightarrow> string \<Rightarrow> cli_error" where
  "requires_migration what path command =
     CliMessage (what @ '' schema requires migration: run `conversation-blackboard db init --db '' @ path @ ''` before '' @ command)"

definition reads_current ::
    "(board \<Rightarrow> bool) \<Rightarrow> cli_error \<Rightarrow> (board \<Rightarrow> unit cli_result \<times> string list) \<Rightarrow> board session" where
  "reads_current current stale f = reads (\<lambda>db. if \<not> current db then (Inl stale, []) else f db)"

section \<open>Listing\<close>

text \<open>The inspection structs have the columns of the rows, so a row stands for its inspection.\<close>

definition list_grants :: "board \<Rightarrow> string option \<Rightarrow> delegated_grant list" where
  "list_grants db participant_id =
     sort_key d_id (filter (\<lambda>g. case participant_id of Some p \<Rightarrow> d_participant_id g = p | None \<Rightarrow> True) (delegated_grants db))"

definition list_durable_grants :: "board \<Rightarrow> string option \<Rightarrow> durable_grant list" where
  "list_durable_grants db participant_id =
     sort_key g_id (filter (\<lambda>g. case participant_id of Some p \<Rightarrow> g_participant_id g = p | None \<Rightarrow> True) (principal_grants db))"

definition grant_line :: "delegated_grant \<Rightarrow> string" where
  "grant_line g = tabbed
     [int_to_string (d_id g), d_principal_provider g @ '':'' @ d_principal_subject g, d_participant_id g, d_capability g,
      or_else (d_resource g) ''*'', or_else (d_intent_id g) ''*'', show_int (d_expires_at g) ''never'',
      show_bool (d_one_shot g \<noteq> 0), show_int (d_consumed_at g) ''-'', or_else (d_consumed_intent_id g) ''-'', d_status g]"

definition durable_grant_line :: "durable_grant \<Rightarrow> string" where
  "durable_grant_line g = tabbed
     [int_to_string (g_id g), g_principal_provider g @ '':'' @ g_principal_subject g, g_participant_id g, g_capability g,
      or_else (g_resource g) ''*'', g_status g, int_to_string (g_created_at g), int_to_string (g_updated_at g)]"

definition event_actor :: "admin_event \<Rightarrow> string" where
  "event_actor e =
     (case (e_actor_provider e, e_actor_subject e) of
        (Some p, Some s) \<Rightarrow> p @ '':'' @ s
      | _ \<Rightarrow> e_actor_surface e)"

definition event_line :: "admin_event \<Rightarrow> string" where
  "event_line e = tabbed
     [int_to_string (e_id e), e_grant_store e, int_to_string (e_grant_id e), e_operation e, event_actor e,
      e_participant_id e, e_target_principal_provider e @ '':'' @ e_target_principal_subject e, e_capability e,
      or_else (e_resource e) ''*'', or_else (e_intent_id e) ''*'', show_int (e_expires_at e) ''never'',
      show_bool (e_one_shot e \<noteq> 0), or_else (e_before_status e) ''-'', e_after_status e, int_to_string (e_created_at e)]"

definition violation_line :: "integrity_violation \<Rightarrow> string" where
  "violation_line v = ''violation                : '' @ tabbed
     [v_kind v, v_store v, show_int (v_grant_id v) ''-'', or_else (v_participant_id v) ''-'', v_detail v]"

section \<open>Explaining and verifying\<close>

definition explain_lines :: "authorization_decision \<Rightarrow> string list" where
  "explain_lines d =
     [''AUTHORIZATION EXPLANATION'',
      ''decision          : '' @ (if ad_allowed d then ''allow'' else ''deny''),
      ''reason            : '' @ ad_reason d,
      ''source            : '' @ ad_source d,
      ''grant_id          : '' @ show_int (ad_grant_id d) ''-'',
      ''consume_on_commit : '' @ show_bool (ad_consume_grant_id d \<noteq> None)]"

definition sql_cli :: "'a sql_result \<Rightarrow> 'a cli_result" where
  "sql_cli r = (case r of Inl e \<Rightarrow> Inl (CliSql e) | Inr x \<Rightarrow> Inr x)"

definition explain_grant ::
    "int \<Rightarrow> board \<Rightarrow> string \<Rightarrow> string \<Rightarrow> string \<Rightarrow> string \<Rightarrow> string option \<Rightarrow> string option \<Rightarrow> authorization_decision cli_result" where
  "explain_grant now db principal_provider principal_subject participant_id capability resource intent_id =
     try_bind (cli_normalize principal_provider MAX_PROVIDER_BYTES ''principal_provider'') (\<lambda>principal_provider.
     try_bind (cli_normalize principal_subject MAX_SUBJECT_BYTES ''principal_subject'') (\<lambda>principal_subject.
     try_bind (ok_or (validate_participant_id participant_id) (CliMessage ''invalid participant_id'')) (\<lambda>participant_id.
     try_bind (cli_normalize capability MAX_CAPABILITY_BYTES ''capability'') (\<lambda>capability.
     try_bind (cli_normalize_optional resource MAX_RESOURCE_BYTES ''resource'') (\<lambda>resource.
     try_bind (transpose_opt (CliMessage ''invalid intent_id'') normalize_intent_id intent_id) (\<lambda>intent_id.
       sql_cli (explain_authorization now db \<lparr>provider = principal_provider, subject = principal_subject\<rparr>
         participant_id capability resource intent_id)))))))"

definition verify_lines :: "integrity_report \<Rightarrow> string list" where
  "verify_lines report =
     [''AUTHORIZATION POLICY INTEGRITY'',
      ''valid                    : '' @ show_bool (ir_valid report),
      ''durable_grants_scanned   : '' @ show_nat (ir_durable_grants_scanned report),
      ''delegated_grants_scanned : '' @ show_nat (ir_delegated_grants_scanned report),
      ''violations               : '' @ show_nat (length (ir_violations report))] @
     map violation_line (ir_violations report)"

text \<open>Verification prints its report and then fails if the report is not valid.\<close>

definition verify_grants :: "board \<Rightarrow> unit cli_result \<times> string list" where
  "verify_grants db =
     (case audit_authorization_integrity db of
        Inl e \<Rightarrow> (Inl (CliSql e), [])
      | Inr report \<Rightarrow>
          (if ir_valid report then Inr () else Inl (CliMessage ''authorization policy integrity verification failed''),
           verify_lines report))"

definition history_lines :: "history_window \<Rightarrow> string list" where
  "history_lines window =
     [''AUTHORIZATION ADMINISTRATION HISTORY'',
      ''order    : '' @ hr_order window,
      ''has_more : '' @ show_bool (hr_has_more window),
      tabbed [''id'', ''store'', ''grant_id'', ''operation'', ''actor'', ''participant_id'', ''principal'', ''capability'',
        ''resource'', ''intent_id'', ''expires_at'', ''one_shot'', ''before'', ''after'', ''created_at'']] @
     map event_line (hr_events window)"

section \<open>Sessions\<close>

fun create_state_text :: "create_state \<Rightarrow> string" where
  "create_state_text Created = ''created''"
| "create_state_text Existing = ''existing''"
| "create_state_text Reactivated = ''reactivated''"

fun durable_grant_session :: "string \<Rightarrow> int \<Rightarrow> durable_grant_command \<Rightarrow> board session" where
  "durable_grant_session path now (CreateDurableGrant spec) db =
     admin_step (create_durable_grant now local_cli spec db) (\<lambda>(grant_id, state). prints
       [''DURABLE PRINCIPAL GRANT READY'',
        ''grant_id           : '' @ int_to_string grant_id,
        ''state              : '' @ create_state_text state,
        ''principal_provider : '' @ trim (dc_principal_provider spec),
        ''principal_subject  : '' @ trim (dc_principal_subject spec),
        ''participant_id     : '' @ trim (dc_participant_id spec),
        ''capability         : '' @ trim (dc_capability spec),
        ''resource           : '' @ or_else (dc_resource spec) ''*''])"
| "durable_grant_session path now (ListDurableGrants participant_id) db =
     reads_current authorization_policy_snapshot_schema_current
       (requires_migration ''authorization grant'' path ''durable list'')
       (\<lambda>db. (Inr (), [''DURABLE PRINCIPAL GRANTS'',
          tabbed [''id'', ''principal'', ''participant_id'', ''capability'', ''resource'', ''status'', ''created_at'', ''updated_at'']] @
        map durable_grant_line (list_durable_grants db participant_id))) db"
| "durable_grant_session path now (DeactivateDurableGrant grant_id) db =
     (if grant_id \<le> 0 then fails (CliMessage ''grant_id must be positive'') db
      else admin_step (deactivate_durable_grant now local_cli grant_id db) (\<lambda>updated_rows. case updated_rows of
        None \<Rightarrow> fails (CliMessage (''unknown durable principal grant: '' @ int_to_string grant_id))
      | Some n \<Rightarrow> prints
          [''DURABLE PRINCIPAL GRANT INACTIVE'',
           ''grant_id      : '' @ int_to_string grant_id,
           ''status        : inactive'',
           ''rows_changed  : '' @ show_nat n]))"

fun grant_session :: "string \<Rightarrow> int \<Rightarrow> grant_command \<Rightarrow> board session" where
  "grant_session path now (CreateGrant spec) db =
     admin_step (create_delegated_grant now local_cli spec db) (\<lambda>grant_id. prints
       [''DELEGATED GRANT READY'',
        ''grant_id           : '' @ int_to_string grant_id,
        ''principal_provider : '' @ trim (lc_principal_provider spec),
        ''principal_subject  : '' @ trim (lc_principal_subject spec),
        ''participant_id     : '' @ trim (lc_participant_id spec),
        ''capability         : '' @ trim (lc_capability spec),
        ''resource           : '' @ or_else (lc_resource spec) ''*'',
        ''intent_id          : '' @ or_else (lc_intent_id spec) ''*'',
        ''expires_at         : '' @ show_int (lc_expires_at spec) ''never'',
        ''one_shot           : '' @ show_bool (lc_one_shot spec)])"
| "grant_session path now (ListGrants participant_id) db =
     reads_current authorization_policy_snapshot_schema_current
       (requires_migration ''authorization grant'' path ''list'')
       (\<lambda>db. (Inr (), [''DELEGATED GRANTS'',
          tabbed [''id'', ''principal'', ''participant_id'', ''capability'', ''resource'', ''intent_id'', ''expires_at'',
            ''one_shot'', ''consumed_at'', ''consumed_intent_id'', ''status'']] @
        map grant_line (list_grants db participant_id))) db"
| "grant_session path now (GrantHistory request) db =
     reads_current schema_current (requires_migration ''authorization administration'' path ''history'')
       (\<lambda>db. case read_administration_event_window db request of
          Inl _ \<Rightarrow> (Inl (CliMessage ''invalid administration history window''), [])
        | Inr window \<Rightarrow> (Inr (), history_lines window)) db"
| "grant_session path now (ExplainGrant principal_provider principal_subject participant_id capability resource intent_id) db =
     reads_current authorization_decision_schema_current (requires_migration ''authorization decision'' path ''explain'')
       (\<lambda>db. case explain_grant now db principal_provider principal_subject participant_id capability resource intent_id of
          Inl e \<Rightarrow> (Inl e, [])
        | Inr d \<Rightarrow> (Inr (), explain_lines d)) db"
| "grant_session path now (DeactivateGrant grant_id) db =
     (if grant_id \<le> 0 then fails (CliMessage ''grant_id must be positive'') db
      else admin_step (deactivate_delegated_grant now local_cli grant_id db) (\<lambda>found.
        if found = None then fails (CliMessage (''unknown delegated grant: '' @ int_to_string grant_id))
        else prints
          [''DELEGATED GRANT INACTIVE'',
           ''grant_id : '' @ int_to_string grant_id,
           ''status   : inactive'']))"
| "grant_session path now (DurableGrants command) db = durable_grant_session path now command db"
| "grant_session path now VerifyGrants db =
     reads_current authorization_integrity_schema_current (requires_migration ''authorization grant'' path ''audit'')
       verify_grants db"

definition dispatch_grant ::
    "int \<Rightarrow> grant_command \<Rightarrow> string \<Rightarrow> board disk \<Rightarrow> unit cli_result \<times> string list \<times> board disk" where
  "dispatch_grant now command path = with_database path (grant_session path now command)"

section \<open>The commands as calls of the administration\<close>

lemma admin_step_db:
  "(\<And>x db. snd (snd (k x db)) = db) \<Longrightarrow> snd (snd (admin_step r k)) = snd r"
  by (simp add: admin_step_def split: sum.split)

lemma fails_prints_db [simp]: "snd (snd (fails e db)) = db" "snd (snd (prints lines db)) = db"
  by (simp_all add: fails_def prints_def)

lemma reads_current_db [simp]: "snd (snd (reads_current c stale f db)) = db"
  by (simp add: reads_current_def reads_def)

lemma grant_session_effect:
  "snd (snd (grant_session path now command db)) = db \<or>
   (\<exists>call. snd (snd (grant_session path now command db)) = admin_effect now call db)"
proof -
  let ?out = "snd (snd (grant_session path now command db))"
  have call: ?thesis if "?out = admin_effect now c db" for c using that by blast
  show ?thesis
  proof (cases command)
    case (CreateGrant spec)
    show ?thesis by (rule call [of "CreateDelegated local_cli spec"]) (simp add: CreateGrant admin_step_db)
  next
    case (DeactivateGrant i)
    have "snd (snd (admin_step (deactivate_delegated_grant now local_cli i db) k)) =
        admin_effect now (DeactivateDelegated local_cli i) db" if "\<And>x db. snd (snd (k x db)) = db" for k :: "nat option \<Rightarrow> board session"
      using that by (simp add: admin_step_db)
    then show ?thesis by (cases "i \<le> 0") (auto simp: DeactivateGrant intro!: exI [of _ "DeactivateDelegated local_cli i"])
  next
    case (DurableGrants c)
    show ?thesis
    proof (cases c)
      case (CreateDurableGrant spec)
      show ?thesis by (rule call [of "CreateDurable local_cli spec"])
          (simp add: DurableGrants CreateDurableGrant admin_step_db case_prod_beta)
    next
      case (DeactivateDurableGrant i)
      have "snd (snd (admin_step (deactivate_durable_grant now local_cli i db) k)) =
          admin_effect now (DeactivateDurable local_cli i) db" if "\<And>x db. snd (snd (k x db)) = db" for k :: "nat option \<Rightarrow> board session"
        using that by (simp add: admin_step_db)
      then show ?thesis by (cases "i \<le> 0")
          (auto simp: DurableGrants DeactivateDurableGrant split: option.split intro!: exI [of _ "DeactivateDurable local_cli i"])
    qed (simp add: DurableGrants)
  qed simp_all
qed

lemma grant_session_reachable: "session_keeps (reachable ext) (grant_session path now command)"
  unfolding session_keeps_def
proof (intro allI impI)
  fix db assume r: "reachable ext db"
  then show "reachable ext (snd (snd (grant_session path now command db)))"
    using grant_session_effect [of path now command db] reachable.step [OF r board_step.administer] by auto
qed

interpretation grant_commands: session_family "reachable ext" "\<lambda>(path, now, command). grant_session path now command"
  for ext
  by unfold_locales (simp add: case_prod_beta grant_session_reachable)

section \<open>Verification\<close>

lemma reads_current_run:
  "current db \<Longrightarrow> reads_current current stale f db = (fst (f db), snd (f db), db)"
  by (simp add: reads_current_def reads_def)

text \<open>C25: \<open>grant verify\<close> succeeds on a reachable board if and only if every delegated grant has a known
  capability (the one thing the administration does not check), prints its report in both cases and leaves the board
  as it was.\<close>

theorem grant_verification_exact:
  assumes "reachable ext db"
  shows "snd (snd (grant_session path now VerifyGrants db)) = db \<and>
    (fst (grant_session path now VerifyGrants db) = Inr () \<longleftrightarrow>
      (\<forall>g \<in> set (delegated_grants db). is_known_capability (d_capability g))) \<and>
    (\<exists>report. audit_authorization_integrity db = Inr report \<and>
      fst (snd (grant_session path now VerifyGrants db)) = verify_lines report \<and>
      (ir_violations report = [] \<longleftrightarrow> (\<forall>g \<in> set (delegated_grants db). is_known_capability (d_capability g))))"
proof -
  have wf: "policy_wf db" "consumption_wf db" using reachable_system_wf [OF assms] by (simp_all add: system_wf_def)
  obtain report where report: "audit_authorization_integrity db = Inr report"
      "ir_valid report \<longleftrightarrow> audit_violations db = []"
    using audit_report [OF reachable_current(4) [OF assms]] by blast
  have valid: "ir_valid report \<longleftrightarrow> (\<forall>g \<in> set (delegated_grants db). is_known_capability (d_capability g))"
    using report(2) audit_violations_unknown [OF wf reachable_grant_texts [OF assms]] by simp
  have "ir_valid report \<longleftrightarrow> ir_violations report = []"
    using report(1) by (auto simp: audit_authorization_integrity_def Let_def split: if_splits)
  moreover have "grant_session path now VerifyGrants db = (fst (verify_grants db), snd (verify_grants db), db)"
    using reads_current_run [of authorization_integrity_schema_current db] reachable_current(4) [OF assms] by simp
  ultimately show ?thesis using report(1) valid by (simp add: verify_grants_def)
qed

theorem grant_verification_exact_witness:
  "fst (grant_session ''board.db'' 5 VerifyGrants empty_board) = Inr ()"
  using grant_verification_exact [OF reachable.start [of sample_externals], of "''board.db''" 5] by (simp add: empty_board_def)

section \<open>Explaining a grant\<close>

lemma cli_normalize_agrees: "normalize v n f = Inr w \<Longrightarrow> cli_normalize v n f' = Inr w"
  by (simp add: normalize_def cli_normalize_def Let_def split: if_splits)

lemma cli_normalize_optional_agrees: "normalize_optional v n f = Inr w \<Longrightarrow> cli_normalize_optional v n f' = Inr w"
  by (auto simp: normalize_optional_def cli_normalize_optional_def try_bind_def cli_normalize_agrees
      split: option.splits sum.splits)

lemma explain_normalized:
  assumes "normalize_durable_grant_create_request q = Inr r"
    and "transpose_opt (CliMessage ''invalid intent_id'') normalize_intent_id intent = Inr intent'"
    and "authorization_decision_schema_current db"
  shows "explain_grant now db (dc_principal_provider q) (dc_principal_subject q) (dc_participant_id q) (dc_capability q)
      (dc_resource q) intent = Inr (evaluate_authorization_current_schema now db
        \<lparr>provider = dc_principal_provider r, subject = dc_principal_subject r\<rparr> (dc_participant_id r) (dc_capability r)
        (dc_resource r) intent')"
proof -
  have n: "normalize (dc_principal_provider q) MAX_PROVIDER_BYTES ''principal_provider'' = Inr (dc_principal_provider r)"
    "normalize (dc_principal_subject q) MAX_SUBJECT_BYTES ''principal_subject'' = Inr (dc_principal_subject r)"
    "validate_participant_id (dc_participant_id q) = Some (dc_participant_id r)"
    "normalize (dc_capability q) MAX_CAPABILITY_BYTES ''capability'' = Inr (dc_capability r)"
    "normalize_optional (dc_resource q) MAX_RESOURCE_BYTES ''resource'' = Inr (dc_resource r)"
    using assms(1) by (auto simp: normalize_durable_grant_create_request_def try_bind_def ok_or_def
        split: sum.splits option.splits if_splits)
  show ?thesis
    using assms(3)
    by (simp add: explain_grant_def try_bind_def ok_or_def n cli_normalize_agrees [OF n(1)] cli_normalize_agrees [OF n(2)]
        cli_normalize_agrees [OF n(4)] cli_normalize_optional_agrees [OF n(5)] assms(2) sql_cli_def explain_authorization_def)
qed

lemma admin_step_ok:
  "fst (admin_step r k) = Inr () \<Longrightarrow> \<exists>x. fst r = Inr x \<and> admin_step r k = k x (snd r)"
  by (auto simp: admin_step_def split: sum.splits)

text \<open>A durable grant made on the command line is what the other commands report: after \<open>grant durable create\<close>
  succeeded, \<open>grant explain\<close> with the same arguments (and any valid intent, at any time) prints a decision that allows
  by a durable grant, and the same \<open>create\<close> again succeeds and changes nothing.\<close>

theorem created_grant_explained:
  assumes "policy_wf db" and "schema db = current_schema"
    and "fst (grant_session path now (DurableGrants (CreateDurableGrant q)) db) = Inr ()"
    and "db' = snd (snd (grant_session path now (DurableGrants (CreateDurableGrant q)) db))"
    and "intent = None \<or> normalize_intent_id (the intent) \<noteq> None"
  shows "(\<exists>d. grant_session path' now' (ExplainGrant (dc_principal_provider q) (dc_principal_subject q)
        (dc_participant_id q) (dc_capability q) (dc_resource q) intent) db' = (Inr (), explain_lines d, db') \<and>
      ad_allowed d \<and> ad_source d = ''principal_grants'') \<and>
    fst (grant_session path' now' (DurableGrants (CreateDurableGrant q)) db') = Inr () \<and>
    snd (snd (grant_session path' now' (DurableGrants (CreateDurableGrant q)) db')) = db'"
proof -
  obtain y where y: "fst (create_durable_grant now local_cli q db) = Inr y"
    using admin_step_ok [OF assms(3) [unfolded grant_session.simps durable_grant_session.simps]] by blast
  obtain i st where ist: "y = (i, st)" by fastforce
  have db': "db' = snd (create_durable_grant now local_cli q db)"
    by (simp add: assms(4) admin_step_db case_prod_beta)
  have made: "create_durable_grant now local_cli q db = (Inr (i, st), db')"
    using y by (simp add: db' ist prod_eq_iff)
  obtain a r where tx: "normalize_durable_grant_create_request q = Inr r"
      "create_durable_grant_in_tx now a r db = (Inr (i, st), db')"
    by (rule create_durable_grant_tx [OF made])
  have "schema db' = current_schema"
    using policy_only_frame [OF durable_create.changes_policy_only [OF assms(1), of now a r]] tx(2) assms(2) by simp
  then have current: "authorization_decision_schema_current db'" by (rule current_schema_checks)
  obtain intent' where intent: "transpose_opt (CliMessage ''invalid intent_id'') normalize_intent_id intent = Inr intent'"
    using assms(5) by (cases intent) (auto simp: transpose_opt_def)
  let ?d = "evaluate_authorization_current_schema now' db' \<lparr>provider = dc_principal_provider r, subject = dc_principal_subject r\<rparr>
      (dc_participant_id r) (dc_capability r) (dc_resource r) intent'"
  have d: "ad_allowed ?d \<and> ad_source ?d = ''principal_grants'' \<and> create_durable_grant now' local_cli q db' = (Inr (i, Existing), db')"
    by (rule created_grant_effective [OF assms(1) made tx(1) refl]) simp
  have "grant_session path' now' (ExplainGrant (dc_principal_provider q) (dc_principal_subject q) (dc_participant_id q)
      (dc_capability q) (dc_resource q) intent) db' = (Inr (), explain_lines ?d, db')"
    by (simp add: reads_current_run current explain_normalized [OF tx(1) intent current])
  then show ?thesis using d by (auto simp: admin_step_def prints_def)
qed

theorem created_grant_explained_witness:
  "\<exists>d db'. grant_session ''b'' 20 (ExplainGrant ''github'' ''u1'' ''ada'' ''post_message'' None None) db' =
     (Inr (), explain_lines d, db') \<and> ad_allowed d"
proof -
  obtain db' where made: "create_durable_grant 9 local_cli sample_durable_create sample_admin_board = (Inr (1, Created), db')"
    using sample_created by blast
  have ok: "fst (grant_session ''b'' 9 (DurableGrants (CreateDurableGrant sample_durable_create)) sample_admin_board) = Inr ()"
    by (simp add: made admin_step_def prints_def)
  have s: "schema sample_admin_board = current_schema" by (simp add: sample_admin_board_def empty_board_def)
  show ?thesis
    using created_grant_explained [OF sample_admin_wf(1) s ok refl, of None "''b''" 20]
    by (auto simp: sample_durable_create_def)
qed

end
