(* ===== verification/Execution_Command.thy ===== *)
theory Execution_Command
  imports Cli
begin

text \<open>
  The commands that inspect the execution evidence of a database (\<open>execution_audit.rs\<close>).  They check their arguments
  before they open the file, read-only, and ask for a migration unless the tables of the evidence are current.
\<close>

section \<open>Commands\<close>

datatype execution_command =
    AuditExecution string string
  | VerifyAudit string string
  | VerifyAll

definition require_current_execution_schema :: "string \<Rightarrow> board \<Rightarrow> unit cli_result" where
  "require_current_execution_schema path db =
     (if execution_schema_current db then Inr ()
      else Inl (CliMessage (''execution schema requires migration: run `conversation-blackboard db init --db '' @ path @
        ''` before audit'')))"

text \<open>The arguments that \<open>audit\<close> and \<open>verify-audit\<close> check before they open the database.\<close>

definition execution_target :: "string \<Rightarrow> string \<Rightarrow> (string \<times> string) cli_result" where
  "execution_target participant_id intent_id =
     (case validate_participant_id participant_id of
        None \<Rightarrow> Inl (CliMessage ''invalid participant_id'')
      | Some participant_id \<Rightarrow>
          (case normalize_intent_id intent_id of
             None \<Rightarrow> Inl (CliMessage ''invalid intent_id'')
           | Some intent_id \<Rightarrow> Inr (participant_id, intent_id)))"

definition provenance_lines :: "authorization_provenance option \<Rightarrow> string list" where
  "provenance_lines authorization =
     (case authorization of
        Some auth \<Rightarrow>
          [''auth_source    : '' @ ap_source auth,
           ''auth_reason    : '' @ ap_reason auth,
           ''auth_grant_id  : '' @ show_int (ap_grant_id auth) ''-'']
      | None \<Rightarrow> [''auth_source    : -'', ''auth_reason    : -'', ''auth_grant_id  : -''])"

definition delivery_line :: "ingress_audit_record \<Rightarrow> string" where
  "delivery_line d = ''delivery        : '' @ tabbed
     [ia_participant_id d, ia_delivery_id d, ia_transport d, ia_external_ref d,
      provider (ia_principal d) @ '':'' @ subject (ia_principal d), ia_intent_id d]"

definition audit_lines :: "audit_bundle \<Rightarrow> string list" where
  "audit_lines audit =
     [''EXECUTION AUDIT'',
      ''participant_id : '' @ er_participant_id (ab_receipt audit),
      ''intent_id      : '' @ er_intent_id (ab_receipt audit),
      ''capability     : '' @ er_capability (ab_receipt audit),
      ''message_id     : '' @ int_to_string (er_message_id (ab_receipt audit)),
      ''status         : '' @ er_status (ab_receipt audit),
      ''intent_hash    : '' @ er_intent_hash (ab_receipt audit)] @
     provenance_lines (ab_authorization audit) @
     [''deliveries     : '' @ show_nat (length (ab_ingress audit))] @
     map delivery_line (ab_ingress audit)"

definition report_lines :: "audit_report \<Rightarrow> string list" where
  "report_lines report =
     [''EXECUTION AUDIT INTEGRITY'',
      ''participant_id : '' @ ar_participant_id report,
      ''intent_id      : '' @ ar_intent_id report,
      ''valid          : '' @ show_bool (ar_valid report)] @
     map (\<lambda>c. ''check          : '' @ c) (ar_checks report) @
     map (\<lambda>v. ''violation      : '' @ v) (ar_violations report)"

definition sweep_lines :: "sweep_report \<Rightarrow> string list" where
  "sweep_lines report =
     [''EXECUTION AUDIT SWEEP'',
      ''valid              : '' @ show_bool (sr_valid report),
      ''executions_scanned : '' @ show_nat (sr_executions_scanned report),
      ''invalid_executions : '' @ show_nat (length (sr_invalid_executions report)),
      ''orphan_evidence    : '' @ show_nat (length (sr_orphan_evidence report))] @
     map (\<lambda>r. ''invalid_execution  : '' @ tabbed [ar_participant_id r, ar_intent_id r, join_with '','' (ar_violations r)])
       (sr_invalid_executions report) @
     map (\<lambda>e. ''orphan_evidence     : '' @ tabbed [oe_kind e, or_else (oe_participant_id e) ''-'', oe_intent_id e,
         or_else (oe_reference e) ''-'']) (sr_orphan_evidence report)"

section \<open>Sessions\<close>

definition execution_reads :: "string \<Rightarrow> (board \<Rightarrow> unit cli_result \<times> string list) \<Rightarrow> board session" where
  "execution_reads path f = reads (\<lambda>db. case require_current_execution_schema path db of Inl e \<Rightarrow> (Inl e, []) | Inr _ \<Rightarrow> f db)"

definition audit_session :: "string \<Rightarrow> string \<times> string \<Rightarrow> board session" where
  "audit_session path target = execution_reads path (\<lambda>db.
     (case get_execution_audit_bundle db (fst target) (snd target) of
        None \<Rightarrow> (Inl (CliMessage (''execution not found: '' @ fst target @ ''/'' @ snd target)), [])
      | Some audit \<Rightarrow> (Inr (), audit_lines audit)))"

definition verify_audit_session :: "externals \<Rightarrow> string \<Rightarrow> string \<times> string \<Rightarrow> board session" where
  "verify_audit_session ext path target = execution_reads path (\<lambda>db.
     (let report = verify_execution_audit_integrity ext db (fst target) (snd target)
      in (if ar_valid report then Inr () else Inl (CliMessage ''execution audit integrity verification failed''),
          report_lines report)))"

definition verify_all_session :: "externals \<Rightarrow> string \<Rightarrow> board session" where
  "verify_all_session ext path = execution_reads path (\<lambda>db.
     (let report = sweep_execution_audit_integrity ext db
      in (if sr_valid report then Inr () else Inl (CliMessage ''execution audit sweep verification failed''),
          sweep_lines report)))"

fun dispatch_execution ::
    "externals \<Rightarrow> execution_command \<Rightarrow> string \<Rightarrow> board disk \<Rightarrow> unit cli_result \<times> string list \<times> board disk" where
  "dispatch_execution ext (AuditExecution participant_id intent_id) path disk =
     with_checked_database (execution_target participant_id intent_id) path (audit_session path) disk"
| "dispatch_execution ext (VerifyAudit participant_id intent_id) path disk =
     with_checked_database (execution_target participant_id intent_id) path (verify_audit_session ext path) disk"
| "dispatch_execution ext VerifyAll path disk = with_database path (verify_all_session ext path) disk"

section \<open>What the commands leave and answer\<close>

lemma execution_sessions_keep [simp]:
  "session_keeps P (audit_session path target)" "session_keeps P (verify_audit_session ext path target)"
  "session_keeps P (verify_all_session ext path)"
  by (simp_all add: audit_session_def verify_audit_session_def verify_all_session_def execution_reads_def)

lemma dispatch_execution_keeps:
  "all_databases P disk \<Longrightarrow> all_databases P (snd (snd (dispatch_execution ext command path disk)))"
  by (cases command) (simp_all add: with_checked_database_keeps with_database_keeps)

interpretation execution_commands: command_family P "\<lambda>_. True" "\<lambda>(command, path). dispatch_execution ext command path"
  for P ext
  by unfold_locales (simp add: case_prod_beta dispatch_execution_keeps)

lemma execution_reads_run:
  assumes "execution_schema_current db"
  shows "execution_reads path f db = (fst (f db), snd (f db), db)"
  using assms by (simp add: execution_reads_def reads_def require_current_execution_schema_def)

lemma reachable_execution_schema: "reachable ext db \<Longrightarrow> execution_schema_current db"
  using reachable_schema [of ext db]
  by (simp add: execution_schema_current_def has_column_def table_has_columns_def table_exists_def current_schema_def)

lemma checked_run:
  assumes "disk path = Some (Database db)" and "\<And>x. precheck = Inr x \<Longrightarrow> snd (snd (session x db)) = db"
  shows "with_checked_database precheck path session disk =
    (case precheck of Inl e \<Rightarrow> (Inl e, [], disk) | Inr x \<Rightarrow> (fst (session x db), fst (snd (session x db)), disk))"
  using assms by (auto simp: with_checked_database_def require_file_def case_prod_beta fun_upd_idem split: sum.split)

lemma has_receipt_get: "has_receipt db p i \<longleftrightarrow> get_execution_receipt db p i \<noteq> None"
  by (auto simp: has_receipt_def get_execution_receipt_def find_receipt_def find_None_iff)

lemma execution_target_Inr:
  "execution_target p i = Inr x \<longleftrightarrow> validate_participant_id p = Some (fst x) \<and> normalize_intent_id i = Some (snd x)"
  by (cases x) (auto simp: execution_target_def split: option.splits)

lemma reachable_verify:
  assumes "reachable ext db"
  shows "sr_valid (sweep_execution_audit_integrity ext db)"
    and "ar_valid (verify_execution_audit_integrity ext db p i) \<longleftrightarrow> has_receipt db p i"
proof -
  have w: "system_wf ext db" by (rule reachable_system_wf [OF assms])
  then have ev: "evidence_wf ext db" and k: "keys_wf db" "audit_tables db" by (simp_all add: system_wf_def evidence_wf_def)
  show "sr_valid (sweep_execution_audit_integrity ext db)"
    using sweep_valid [OF k, of ext] ev by (simp add: evidence_wf_def)
  show "ar_valid (verify_execution_audit_integrity ext db p i) \<longleftrightarrow> has_receipt db p i"
  proof
    assume "ar_valid (verify_execution_audit_integrity ext db p i)"
    then show "has_receipt db p i" unfolding has_receipt_get
      by (auto simp: verify_execution_audit_integrity_def split: option.splits)
  next
    assume "has_receipt db p i"
    then obtain r where "r \<in> set (execution_receipts db)" "r_participant_id r = p" "r_intent_id r = i"
      by (auto simp: has_receipt_def)
    then show "ar_valid (verify_execution_audit_integrity ext db p i)"
      using verify_valid [OF k, of r ext] ev by (auto simp: evidence_wf_def execution_evidenced_def)
  qed
qed

text \<open>C24: On a database that only the writers of \<open>reachable\<close> wrote (no navigation write among them), \<open>execution
  verify-all\<close> succeeds, and \<open>execution audit\<close> and \<open>execution verify-audit\<close> succeed for exactly the committed executions:
  those of a valid participant and intent for which the database has a receipt.  None of the three changes the disk.  The
  restriction matters: \<open>navigation_write_orphaned\<close> shows that the sweep behind \<open>verify-all\<close> reports an accepted navigation
  write.\<close>

theorem execution_commands_exact:
  assumes "reachable ext db" and "disk path = Some (Database db)"
  shows "fst (dispatch_execution ext VerifyAll path disk) = Inr () \<and>
    (fst (dispatch_execution ext (VerifyAudit p i) path disk) = Inr () \<longleftrightarrow>
      (\<exists>q j. validate_participant_id p = Some q \<and> normalize_intent_id i = Some j \<and> has_receipt db q j)) \<and>
    (fst (dispatch_execution ext (AuditExecution p i) path disk) = Inr () \<longleftrightarrow>
      (\<exists>q j. validate_participant_id p = Some q \<and> normalize_intent_id i = Some j \<and> has_receipt db q j)) \<and>
    snd (snd (dispatch_execution ext command path disk)) = disk"
proof -
  note current = reachable_execution_schema [OF assms(1)]
  note defs = audit_session_def verify_audit_session_def verify_all_session_def execution_reads_run [OF current] Let_def
  have same: "snd (snd (audit_session path x db)) = db" "snd (snd (verify_audit_session ext path x db)) = db"
    "snd (snd (verify_all_session ext path db)) = db" for x by (simp_all add: defs)
  note runs = checked_run [of disk path, OF assms(2), of _ "audit_session path", OF same(1)]
    checked_run [of disk path, OF assms(2), of _ "verify_audit_session ext path", OF same(2)]
    checked_run [of disk path, OF assms(2), of _ "\<lambda>_. verify_all_session ext path", OF same(3)]
  have exact: "(\<exists>x. execution_target p i = Inr x \<and> has_receipt db (fst x) (snd x)) \<longleftrightarrow>
      (\<exists>q j. validate_participant_id p = Some q \<and> normalize_intent_id i = Some j \<and> has_receipt db q j)"
    by (auto simp: execution_target_Inr)
  have "fst (dispatch_execution ext VerifyAll path disk) = Inr ()"
    unfolding dispatch_execution.simps with_database_def runs by (simp add: defs reachable_verify(1) [OF assms(1)])
  moreover have "fst (dispatch_execution ext (VerifyAudit p i) path disk) = Inr () \<longleftrightarrow>
      (\<exists>x. execution_target p i = Inr x \<and> has_receipt db (fst x) (snd x))"
    unfolding dispatch_execution.simps runs by (simp add: defs reachable_verify(2) [OF assms(1)] split: sum.split)
  moreover have "fst (dispatch_execution ext (AuditExecution p i) path disk) = Inr () \<longleftrightarrow>
      (\<exists>x. execution_target p i = Inr x \<and> has_receipt db (fst x) (snd x))"
    unfolding dispatch_execution.simps runs
    by (simp add: defs has_receipt_get get_execution_audit_bundle_def split: sum.split option.split)
  moreover have "snd (snd (dispatch_execution ext command path disk)) = disk"
    by (cases command) (simp_all add: with_database_def runs split: sum.split)
  ultimately show ?thesis unfolding exact by blast
qed

theorem execution_commands_exact_witness:
  "fst (dispatch_execution sample_externals VerifyAll ''board.db'' [''board.db'' \<mapsto> Database empty_board]) = Inr ()"
  using execution_commands_exact [OF reachable.start, of "[''board.db'' \<mapsto> Database empty_board]" "''board.db''"]
  by (simp del: dispatch_execution.simps)

end
