(* ===== verification/Board_Runs.thy ===== *)
theory Board_Runs
  imports Schema_Kept
begin

text \<open>
  What the steps of a board keep besides its invariants: the records of authorizations, the consumption of delegated
  grants, and a row of the channel table for every channel that the messages name.  With them a one-shot grant is
  followed over a run of the board.
\<close>

section \<open>Authorizations and consumptions stay\<close>

definition authorizations_kept :: "board \<Rightarrow> board \<Rightarrow> bool" where
  "authorizations_kept db db' \<longleftrightarrow>
     set (execution_authorization_provenance db) \<subseteq> set (execution_authorization_provenance db') \<and> grants_retained db db'"

lemma grants_retained_trans: "grants_retained db db' \<Longrightarrow> grants_retained db' db'' \<Longrightarrow> grants_retained db db''"
  unfolding grants_retained_def retained_def by (metis (no_types, opaque_lifting))

lemma authorizations_kept_trans:
  "authorizations_kept db db' \<Longrightarrow> authorizations_kept db' db'' \<Longrightarrow> authorizations_kept db db''"
  unfolding authorizations_kept_def using grants_retained_trans by blast

lemma authorizations_kept_quiet: "quiet db db' \<Longrightarrow> authorizations_kept db db'"
  by (simp add: quiet_def authorizations_kept_def)

text \<open>The three ways an execution can end.\<close>

lemma execution_ends:
  assumes "execute_message_intent ext now who q db = (res, db')"
  obtains (Created) m where "res = Inr (ExecCreated m)" | (Existing) m where "res = Inr (ExecExisting m)" | (Refused) "db' = db"
  using refused_unchanged [OF assms] by blast

lemma execute_keeps_authorizations:
  assumes ev: "evidence_wf ext db" and ex: "execute_message_intent ext now who q db = (res, db')"
  shows "authorizations_kept db db'"
  using ex
proof (cases rule: execution_ends)
  case (Created m)
  note c = created_fields [OF ev ex [unfolded Created]]
  show ?thesis unfolding authorizations_kept_def c(5) using consumed_grants_retained [OF c(6)] by auto
next
  case (Existing m)
  have "execution_authorization_provenance db' = execution_authorization_provenance db" "delegated_grants db' = delegated_grants db"
    by (rule existing_board [OF ev ex [unfolded Existing]], simp)+
  then show ?thesis by (simp add: authorizations_kept_def grants_retained_eq)
qed (simp add: authorizations_kept_def grants_retained_eq)

lemma board_step_authorizations:
  assumes "board_step ext db db'" and w: "system_wf ext db"
  shows "authorizations_kept db db'"
  using assms(1)
proof cases
  case (execute q now who)
  show ?thesis
    by (rule execute_keeps_authorizations [of ext db now who q]) (use w execute(1) in \<open>simp_all add: system_wf_def prod_eq_iff\<close>)
next
  case (log call)
  show ?thesis unfolding log(1) by (rule authorizations_kept_quiet [OF log_effect_quiet])
next
  case (identity call)
  have "quiet db (identity_effect ext call db)" by (rule identity_writer.is_quiet) simp
  then show ?thesis unfolding identity by (rule authorizations_kept_quiet)
next
  case (participant call)
  show ?thesis unfolding participant
    by (rule authorizations_kept_quiet [OF participants_only_quiet [OF participant_effect_only]])
next
  case (administer now call)
  have "quiet db ((\<lambda>(now, call). admin_effect now call) (now, call) db)"
    by (rule admin_writer.is_quiet) (use w in \<open>simp add: system_wf_def\<close>)
  then show ?thesis unfolding administer prod.case by (rule authorizations_kept_quiet)
qed

lemma run_authorizations:
  assumes "(board_step ext)\<^sup>*\<^sup>* db db'" and "system_wf ext db"
  shows "authorizations_kept db db'"
  using assms(1)
proof (induction rule: rtranclp_induct)
  case base
  show ?case by (simp add: authorizations_kept_def grants_retained_eq)
next
  case (step y z)
  have "system_wf ext y" using run_keeps [OF step(1) assms(2)] by blast
  with step board_step_authorizations authorizations_kept_trans show ?case by blast
qed

section \<open>The grant an execution rests on\<close>

text \<open>The decision on a request rests on a delegated grant.\<close>

definition rests_on :: "int \<Rightarrow> message_execution_request \<Rightarrow> board \<Rightarrow> delegated_grant \<Rightarrow> bool" where
  "rests_on now q db g \<longleftrightarrow> ad_source (decision_of now q db) = ''delegated_grants'' \<and>
     ad_grant_id (decision_of now q db) = Some (d_id g)"

text \<open>For a new execution the grant is one of the participant, not consumed if it is one-shot, and then to be consumed.\<close>

lemma rests_on_open:
  assumes gw: "grants_wf db" and g: "g \<in> set (delegated_grants db)" "rests_on now q db g"
    and al: "ad_allowed (decision_of now q db)"
    and no: "\<not> has_receipt db (it_participant_id (mr_intent q)) (it_intent_id (mr_intent q))"
  shows "(d_one_shot g = 0 \<or> d_consumed_at g = None) \<and> d_participant_id g = it_participant_id (mr_intent q) \<and>
    d_status g = ''active'' \<and>
    ad_consume_grant_id (decision_of now q db) = (if d_one_shot g \<noteq> 0 \<and> d_consumed_at g = None then Some (d_id g) else None)"
proof (rule evaluate_evidence [OF decision_of_def al])
  fix i h
  let ?b = "ensure_grant_schema db"
  assume i: "Some (it_intent_id (mr_intent q)) = Some i" and h: "h \<in> set (delegated_grants ?b)"
    and sc: "delegated_in_scope (au_principal (mr_authority q)) (it_participant_id (mr_intent q)) (it_capability (mr_intent q)) h"
    and v: "decision_of now q db = delegated_verdict ?b (it_participant_id (mr_intent q)) i h"
  have "d_id h = d_id g" using g(2) by (simp add: rests_on_def v delegated_verdict_simps)
  then have "h = g" using distinct_key_eq [of d_id "delegated_grants db" h g] gw h g(1) by (simp add: grants_wf_def)
  have "\<not> committed_receipt_exists ?b (it_participant_id (mr_intent q)) (it_intent_id (mr_intent q))"
    using no by (auto simp: committed_receipt_exists_def sql_count_pos has_receipt_def)
  then have "d_one_shot h = 0 \<or> d_consumed_at h = None"
    using al i unfolding v by (auto simp: delegated_verdict_def split: if_splits)
  then show ?thesis using sc unfolding v \<open>h = g\<close> by (simp add: delegated_verdict_simps delegated_in_scope_def)
qed (use g(2) in \<open>simp_all add: rests_on_def\<close>)

text \<open>The creation consumes it.\<close>

lemma creation_consumes:
  assumes w: "system_wf ext db" and ex: "execute_message_intent ext now who q db = (Inr (ExecCreated m), db')"
    and g: "g \<in> set (delegated_grants db)" "d_one_shot g \<noteq> 0" "rests_on now q db g"
  shows "d_consumed_at g = None"
    and "g\<lparr>d_consumed_at := Some now, d_consumed_intent_id := Some (it_intent_id (mr_intent q)), d_updated_at := now\<rparr>
      \<in> set (delegated_grants db')"
proof -
  have ev: "evidence_wf ext db" and gw: "grants_wf db" using w by (simp_all add: system_wf_def policy_wf_def)
  note c = created_fields [OF ev ex]
  have o: "d_consumed_at g = None" "d_status g = ''active''" "ad_consume_grant_id (decision_of now q db) = Some (d_id g)"
    using rests_on_open [OF gw g(1,3) c(15,17)] g(2) by auto
  show "d_consumed_at g = None" by (rule o(1))
  have "d_one_shot g = 1" using gw g(1,2) by (auto simp: grants_wf_def)
  then show "g\<lparr>d_consumed_at := Some now, d_consumed_intent_id := Some (it_intent_id (mr_intent q)), d_updated_at := now\<rparr>
      \<in> set (delegated_grants db')"
    unfolding c(6) consumed_grants_def o(3) option.case set_sql_update using g(1) o(1,2) by (intro bexI [of _ g]) simp_all
qed

section \<open>Every named channel has its row\<close>

definition channels_known :: "board \<Rightarrow> bool" where
  "channels_known db \<longleftrightarrow> (\<forall>m \<in> set (messages db). \<exists>c \<in> set (channels db). c_name c = m_channel m)"

definition channel_names :: "board \<Rightarrow> string set" where
  "channel_names db = c_name ` set (channels db)"

lemma channels_known_names: "channels_known db \<longleftrightarrow> m_channel ` set (messages db) \<subseteq> channel_names db"
  by (force simp: channels_known_def channel_names_def)

lemma insert_channel_names:
  "channel_names db \<subseteq> channel_names (snd (insert_channel_or_ignore now c v b db))"
  by (auto simp: channel_names_def insert_channel_or_ignore_def)

lemma default_channel_named: "c \<in> channel_names (snd (insert_channel_or_ignore now c (default_visibility c) b db))"
  by (force simp: channel_names_def insert_channel_or_ignore_def default_visibility_def)

lemma prepared_names:
  "channel_names db \<subseteq> channel_names (prepared now who q db)" "mr_channel q \<in> channel_names (prepared now who q db)"
proof -
  have "channel_names (ensure_grant_schema db) = channel_names db" by (simp add: channel_names_def)
  then show "channel_names db \<subseteq> channel_names (prepared now who q db)"
    unfolding prepared_def using insert_channel_names by metis
  show "mr_channel q \<in> channel_names (prepared now who q db)" unfolding prepared_def by (rule default_channel_named)
qed

lemma execute_channels:
  assumes ev: "evidence_wf ext db" and known: "channels_known db"
    and ex: "execute_message_intent ext now who q db = (res, db')"
  shows "channels_known db'"
  using ex
proof (cases rule: execution_ends)
  case (Created m)
  note c = created_fields [OF ev ex [unfolded Created]]
  have "m_channel m = mr_channel q" by (simp add: c(13) created_message_def)
  moreover have "channel_names db' = channel_names (prepared now who q db)" by (simp add: channel_names_def c(9))
  ultimately show ?thesis using known prepared_names(1) [of db now who q] prepared_names(2) [of q now who db]
    unfolding channels_known_names c(1) by auto
next
  case (Existing m)
  have "messages db' = messages db" "channel_names db' = channel_names (prepared now who q db)"
    by (rule existing_board [OF ev ex [unfolded Existing]], simp add: channel_names_def)+
  then show ?thesis using known prepared_names(1) [of db now who q] unfolding channels_known_names by auto
qed (use known in simp)

lemma log_channels:
  assumes "channels_known db"
  shows "channels_known (log_effect call db)"
proof (cases call)
  case (AppendMessage now who ch k b r)
  obtain res db' where a: "append_message now who ch k b r db = (res, db')" by fastforce
  let ?e = "ensure_channel now ch (Some (id_instance who)) db"
  have "messages db' = messages db @ [projr res]" "m_channel (projr res) = ch" "channel_names db' = channel_names ?e"
    using append_message_result [OF a] by (simp_all add: channel_names_def ensure_channel_def)
  moreover have "ch \<in> channel_names ?e" "channel_names db \<subseteq> channel_names ?e"
    unfolding ensure_channel_def by (rule default_channel_named, rule insert_channel_names)
  ultimately show ?thesis using assms by (auto simp: AppendMessage a channels_known_names)
next
  case (CreateChannel now c v b)
  then show ?thesis
    using assms insert_channel_names [of db now c v b] by (auto simp: create_channel_def case_prod_beta channels_known_names)
next
  case (EnsureChannel now c b)
  then show ?thesis
    using assms insert_channel_names [of db now c "default_visibility c" b]
    by (auto simp: ensure_channel_for_write_def ensure_channel_def Let_def channels_known_names)
next
  case (UpdateChannel now c v s)
  have "map c_name (channels (log_effect call db)) = map c_name (channels db)"
    by (simp add: UpdateChannel update_channel_def Let_def map_sql_update)
  then have "channel_names (log_effect call db) = channel_names db" by (simp add: channel_names_def flip: set_map)
  moreover have "messages (log_effect call db) = messages db" by (simp add: UpdateChannel update_channel_def Let_def)
  ultimately show ?thesis using assms by (simp add: channels_known_names)
qed

lemma board_step_channels:
  assumes "board_step ext db db'" and w: "system_wf ext db" and known: "channels_known db"
  shows "channels_known db'"
  using assms(1)
proof cases
  case (execute q now who)
  show ?thesis
    by (rule execute_channels [of ext db now who q]) (use w known execute(1) in \<open>simp_all add: system_wf_def prod_eq_iff\<close>)
next
  case (log call)
  then show ?thesis using log_channels [OF known] by simp
next
  case (identity call)
  then show ?thesis using known identities_only_fields(6,11) [OF identity_effect_only [of db ext call]]
    by (simp add: channels_known_def)
next
  case (participant call)
  have eq: "db' = db\<lparr>web_participants := web_participants db'\<rparr>"
    using participant_effect_only [of db ext call] by (simp only: participant participants_only_def)
  have "messages db' = messages db" "channels db' = channels db" by (subst eq, simp)+
  then show ?thesis using known by (simp add: channels_known_def)
next
  case (administer now call)
  have "policy_only db db'" using admin_effect_recorded [of db now call] w by (simp add: administer system_wf_def)
  then have eq: "db' = db\<lparr>principal_grants := principal_grants db', delegated_grants := delegated_grants db',
      authorization_admin_events := authorization_admin_events db'\<rparr>" by (simp only: policy_only_def)
  have "messages db' = messages db" "channels db' = channels db" by (subst eq, simp)+
  then show ?thesis using known by (simp add: channels_known_def)
qed

lemma reachable_channels: "reachable ext db \<Longrightarrow> channels_known db"
proof (induction rule: reachable.induct)
  case start
  show ?case by (simp add: channels_known_def empty_board_def)
next
  case (step db db')
  then show ?case using board_step_channels reachable_system_wf by blast
qed

section \<open>One-shot grants\<close>

text \<open>C7: A one-shot grant authorizes one execution.  When a request on a reachable board creates a message and the decision
  rests on a one-shot delegated grant, that grant was not consumed before; whatever calls follow, its row stays consumed
  by this intent, no other execution is recorded as authorized by it, and no later creation rests on it.\<close>

theorem one_shot_grant_used_once:
  assumes "reachable ext db" and "described q"
    and "execute_message_intent ext now who q db = (Inr (ExecCreated m), db1)"
    and "g \<in> set (delegated_grants db)" and "d_one_shot g \<noteq> 0" and "rests_on now q db g"
    and "(board_step ext)\<^sup>*\<^sup>* db1 db2"
  shows "d_consumed_at g = None \<and>
    (\<exists>g' \<in> set (delegated_grants db2). d_id g' = d_id g \<and> d_consumed_at g' = Some now \<and>
       d_consumed_intent_id g' = Some (it_intent_id (mr_intent q))) \<and>
    (\<forall>a \<in> set (execution_authorization_provenance db2).
       a_source a = ''delegated_grants'' \<and> a_grant_id a = Some (d_id g) \<longrightarrow>
       a = provenance_row_of now q (decision_of now q db)) \<and>
    (\<forall>now' who' q' m'. fst (execute_message_intent ext now' who' q' db2) = Inr (ExecCreated m') \<longrightarrow>
       \<not> rests_on now' q' db2 g)"
proof -
  let ?g = "g\<lparr>d_consumed_at := Some now, d_consumed_intent_id := Some (it_intent_id (mr_intent q)), d_updated_at := now\<rparr>"
  let ?a = "provenance_row_of now q (decision_of now q db)"
  have w: "system_wf ext db" by (rule reachable_system_wf [OF assms(1)])
  then have ev: "evidence_wf ext db" by (simp add: system_wf_def)
  have "board_step ext db db1" using board_step.execute [OF assms(2), of ext db now who] assms(3) by simp
  then have w1: "system_wf ext db1" using board_step_keeps w by blast
  then have w2: "system_wf ext db2" using run_keeps [OF assms(7)] by blast
  have kept: "authorizations_kept db1 db2" by (rule run_authorizations [OF assms(7) w1])
  have first: "d_consumed_at g = None" "?g \<in> set (delegated_grants db1)"
    by (rule creation_consumes [OF w assms(3-6)])+
  then obtain g' where "g' \<in> set (delegated_grants db2)" "retained ?g g'"
    using kept unfolding authorizations_kept_def grants_retained_def by blast
  then have g': "g' \<in> set (delegated_grants db2)" "d_id g' = d_id g" "d_one_shot g' \<noteq> 0" "d_consumed_at g' = Some now"
    "d_consumed_intent_id g' = Some (it_intent_id (mr_intent q))"
    using assms(5) by (simp_all add: retained_def)
  have "?a \<in> set (execution_authorization_provenance db1)" by (simp add: created_fields(5) [OF ev assms(3)])
  then have a: "?a \<in> set (execution_authorization_provenance db2)" using kept by (auto simp: authorizations_kept_def)
  have cites: "a_source ?a = ''delegated_grants''" "a_grant_id ?a = Some (d_id g')"
    using assms(6) g'(2) by (simp_all add: provenance_row_of_def rests_on_def)
  have ev2: "evidence_wf ext db2" using w2 by (simp add: system_wf_def)
  have one: "b = ?a" if "b \<in> set (execution_authorization_provenance db2)" "a_source b = ''delegated_grants''"
    "a_grant_id b = Some (d_id g)" for b
    using one_shot_citations_agree [OF ev2 g'(1,3) that(1) a that(2) cites(1) _ cites(2)] that(3) g'(2) by simp
  have "\<not> rests_on now' q' db2 g" if "fst (execute_message_intent ext now' who' q' db2) = Inr (ExecCreated m')" for now' who' q' m'
  proof
    assume "rests_on now' q' db2 g"
    then have "rests_on now' q' db2 g'" by (simp add: rests_on_def g'(2))
    from creation_consumes(1) [OF w2 _ g'(1,3) this] that g'(4) show False by (metis option.distinct(1) prod.collapse)
  qed
  then show ?thesis using first(1) g' one by blast
qed

definition one_shot_create :: delegated_create where
  "one_shot_create = \<lparr>lc_principal_provider = ''github'', lc_principal_subject = ''u2'',
     lc_participant_id = ''ada'', lc_capability = ''post_message'', lc_resource = None, lc_intent_id = None,
     lc_expires_at = None, lc_one_shot = True\<rparr>"

definition one_shot_board :: board where
  "one_shot_board = admin_effect 7 (CreateDelegated local_cli one_shot_create) sample_provisioned"

definition one_shot_request :: message_execution_request where
  "one_shot_request = sample_request\<lparr>mr_authority := \<lparr>au_principal = sample_principal ''u2'', au_mechanism = ''webhook''\<rparr>,
     mr_ingress := (sample_ingress ''d1'')\<lparr>ig_principal := sample_principal ''u2''\<rparr>\<rparr>"

lemma one_shot_normalized: "normalize_delegated_grant_create_request one_shot_create = Inr one_shot_create"
proof -
  have n: "normalize ''github'' 256 f = Inr ''github''" "normalize ''u2'' 256 f = Inr ''u2''"
    "normalize ''post_message'' 128 f = Inr ''post_message''" for f
    by (simp_all add: normalize_def trim_graphic graphic_def ascii_simps ascii_control_def)
  have v: "validate_participant_id ''ada'' = Some ''ada''" by code_simp
  show ?thesis
    by (simp add: normalize_delegated_grant_create_request_def one_shot_create_def try_bind_def n v
        Authorization_Admin.ok_or_def MAX_PROVIDER_BYTES_def MAX_SUBJECT_BYTES_def MAX_CAPABILITY_BYTES_def
        normalize_optional_def transpose_opt_def)
qed

lemma one_shot_facts:
  "reachable ext one_shot_board"
  "\<exists>es. one_shot_board = sample_provisioned\<lparr>delegated_grants := [new_delegated 7 one_shot_create sample_provisioned],
     authorization_admin_events := es\<rparr>"
proof -
  show "reachable ext one_shot_board"
    unfolding one_shot_board_def by (rule reachable.step [OF sample_provisioned_reachable board_step.administer])
  let ?a = "\<lparr>na_surface = ''local-cli'', na_provider = None, na_subject = None, na_participant_id = None\<rparr>"
  let ?g = "new_delegated 7 one_shot_create sample_provisioned"
  have parts: "delegated_grants sample_provisioned = []" "lc_expires_at one_shot_create = None"
    "web_participants sample_provisioned = [new_participant 5 ''ada'' ''human'' None]" "lc_participant_id one_shot_create = ''ada''"
    by (simp_all add: sample_provisioned_def empty_board_def one_shot_create_def)
  have ok: "require_active_participant sample_provisioned (lc_participant_id one_shot_create) = Inr ()"
    by (simp add: require_active_participant_def parts new_participant_def)
  have tx: "create_delegated_grant_in_tx 7 ?a one_shot_create sample_provisioned = (Inr (d_id ?g), record_event 7 ?a ''delegated'' (d_id ?g)
      ''create'' (delegated_request_scope one_shot_create) None ''active'' (sample_provisioned\<lparr>delegated_grants := [?g]\<rparr>))"
    using ok by (simp add: create_delegated_grant_in_tx_def new_delegated_def parts Let_def)
  have "schema_current sample_provisioned" using reachable_current [OF sample_provisioned_reachable] by blast
  then have "one_shot_board = record_event 7 ?a ''delegated'' (d_id ?g)
      ''create'' (delegated_request_scope one_shot_create) None ''active'' (sample_provisioned\<lparr>delegated_grants := [?g]\<rparr>)"
    by (simp add: one_shot_board_def create_delegated_grant_def administer_def require_schema_current_def
        sample_normalized(1) one_shot_normalized commit_def tx)
  then show "\<exists>es. one_shot_board = sample_provisioned\<lparr>delegated_grants := [?g], authorization_admin_events := es\<rparr>"
    by (simp add: record_event_def) blast
qed

lemma one_shot_rests:
  obtains g where "delegated_grants one_shot_board = [g]" "d_id g = 1" "d_one_shot g = 1"
    "decision_of 50 one_shot_request one_shot_board = allow ''delegated_grants'' ''delegated_grant_match'' (Some 1) (Some 1)"
proof -
  obtain es where b: "one_shot_board = sample_provisioned\<lparr>delegated_grants := [new_delegated 7 one_shot_create sample_provisioned],
     authorization_admin_events := es\<rparr>" using one_shot_facts(2) by blast
  have g: "new_delegated 7 one_shot_create sample_provisioned = sample_delegated\<lparr>d_expires_at := None,
      d_created_at := 7, d_updated_at := 7\<rparr>"
    by (simp add: new_delegated_def one_shot_create_def sample_delegated_def sample_provisioned_def empty_board_def next_rowid_def)
  have "ensure_grant_schema one_shot_board = one_shot_board" by (rule reachable_current(1) [OF one_shot_facts(1)])
  then have "decision_of 50 one_shot_request one_shot_board =
      evaluate_authorization_current_schema 50 one_shot_board (sample_principal ''u2'') ''ada'' ''post_message'' (Some ''lab'') (Some ''i1'')"
    by (simp add: decision_of_def one_shot_request_def sample_request_def POST_MESSAGE_CAPABILITY_def)
  also have "\<dots> = allow ''delegated_grants'' ''delegated_grant_match'' (Some 1) (Some 1)"
    unfolding b g
    by (simp add: evaluate_authorization_current_schema_def participant_policy_row_def delegated_candidates_def
        durable_in_scope_def delegated_in_scope_def delegated_denial_def sql_count_def implicit_authority_reason_def
        sample_policy_defs sample_provisioned_def new_participant_def empty_board_def Let_def)
  finally show thesis
    using that [of "new_delegated 7 one_shot_create sample_provisioned"] by (simp add: b g sample_delegated_def)
qed

lemma one_shot_described: "described one_shot_request"
proof -
  have "trim s = s" if "s \<in> {''github'', ''u2''}" for s
    using that by (elim insertE emptyE) (simp_all add: trim_graphic graphic_def ascii_simps)
  then show ?thesis using sample_described
    by (simp add: described_def one_shot_request_def sample_principal_def sample_request_def sample_ingress_def)
qed

theorem one_shot_grant_used_once_witness:
  "\<exists>db1 m g g'. execute_message_intent sample_externals 50 sample_who one_shot_request one_shot_board = (Inr (ExecCreated m), db1) \<and>
     g \<in> set (delegated_grants one_shot_board) \<and> d_one_shot g = 1 \<and> d_consumed_at g = None \<and>
     g' \<in> set (delegated_grants db1) \<and> d_id g' = d_id g \<and> d_consumed_at g' = Some 50 \<and> d_consumed_intent_id g' = Some ''i1''"
proof -
  obtain g where g: "delegated_grants one_shot_board = [g]" "d_id g = 1" "d_one_shot g = 1"
    and dec: "decision_of 50 one_shot_request one_shot_board =
      allow ''delegated_grants'' ''delegated_grant_match'' (Some 1) (Some 1)" by (rule one_shot_rests)
  have al: "ad_allowed (decision_of 50 one_shot_request one_shot_board)" by (simp add: dec)
  obtain es where b: "one_shot_board = sample_provisioned\<lparr>delegated_grants := [new_delegated 7 one_shot_create sample_provisioned],
     authorization_admin_events := es\<rparr>" using one_shot_facts(2) by blast
  have empty: "channels one_shot_board = []" "navigation_writes one_shot_board = []" "ingress_provenance one_shot_board = []"
    by (simp_all add: b sample_provisioned_def empty_board_def)
  have "request_bound sample_externals sample_who one_shot_request" "mr_reply_to one_shot_request = None"
    by (simp_all add: request_bound_def one_shot_request_def sample_request_def sample_ingress_def sample_who_def)
  then obtain m db1 where ex: "execute_message_intent sample_externals 50 sample_who one_shot_request one_shot_board =
      (Inr (ExecCreated m), db1)"
    using first_execution [OF one_shot_facts(1) one_shot_described _ al] empty
    by (metis channel_active_def channel_metadata_def find.simps(1) option.simps(4))
  have "rests_on 50 one_shot_request one_shot_board g" by (simp add: rests_on_def dec g(2) allow_def)
  from one_shot_grant_used_once [OF one_shot_facts(1) one_shot_described ex _ _ this rtranclp.rtrancl_refl]
  have "d_consumed_at g = None \<and> (\<exists>g' \<in> set (delegated_grants db1). d_id g' = d_id g \<and> d_consumed_at g' = Some 50 \<and>
      d_consumed_intent_id g' = Some (it_intent_id (mr_intent one_shot_request)))" using g by simp
  moreover have "it_intent_id (mr_intent one_shot_request) = ''i1''" by (simp add: one_shot_request_def sample_request_def)
  ultimately show ?thesis using ex g by auto
qed

end
