(* ===== verification/Board_Catalog.thy ===== *)
theory Board_Catalog
  imports Cli Board_Runs
begin

text \<open>
  The link between the two views of a database file.  To the operations a database is a record of typed tables, the \<open>board\<close>;
  to the migrations of \<open>initialize\<close> it is a catalog of tables of SQL values, the \<open>database\<close> of the theory \<open>Migration\<close>.
  \<open>board_database\<close> is the catalog of a board, \<open>database_board\<close> reads a catalog back, and \<open>initialize_board\<close> is
  \<open>initialize\<close> of \<open>db.rs\<close> on the file of a board.  On a file without tables it makes the empty board, and every reachable
  board it leaves as it is: its tables are current, its evidence has no NULL to fill, and its channels all have their rows.
\<close>

section \<open>Rows\<close>

named_theorems sql_rows "rows read back from SQL"

definition sql_row_of :: "(string \<times> sql_value) list \<Rightarrow> sql_row" where
  "sql_row_of cells = (\<lambda>column. case map_of cells column of None \<Rightarrow> SNull | Some v \<Rightarrow> v)"

lemma sql_row_of_simps [simp]:
  "sql_row_of [] column = SNull"
  "sql_row_of ((column', v) # cells) column = (if column = column' then v else sql_row_of cells column)"
  by (simp_all add: sql_row_of_def)

definition opt_text :: "string option \<Rightarrow> sql_value" where
  "opt_text s = (case s of None \<Rightarrow> SNull | Some v \<Rightarrow> SText v)"

definition opt_int :: "int option \<Rightarrow> sql_value" where
  "opt_int i = (case i of None \<Rightarrow> SNull | Some v \<Rightarrow> SInt v)"

fun int_of :: "sql_value \<Rightarrow> int" where
  "int_of (SInt i) = i"
| "int_of _ = 0"

fun text_of :: "sql_value \<Rightarrow> string" where
  "text_of (SText s) = s"
| "text_of _ = []"

fun int_option :: "sql_value \<Rightarrow> int option" where
  "int_option (SInt i) = Some i"
| "int_option _ = None"

fun text_option :: "sql_value \<Rightarrow> string option" where
  "text_option (SText s) = Some s"
| "text_option _ = None"

lemma option_values [simp]: "text_option (opt_text s) = s" "int_option (opt_int i) = i"
  by (simp_all add: opt_text_def opt_int_def split: option.split)

definition message_sql :: "message \<Rightarrow> sql_row" where
  "message_sql x = sql_row_of [(''id'', SInt (m_id x)), (''created_at'', SInt (m_created_at x)),
    (''channel'', SText (m_channel x)), (''source'', SText (m_source x)), (''instance'', SText (m_instance x)),
    (''conversation_ref'', opt_text (m_conversation_ref x)), (''kind'', SText (m_kind x)),
    (''body'', SText (m_body x)), (''reply_to'', opt_int (m_reply_to x))]"

definition sql_message :: "sql_row \<Rightarrow> message" where
  "sql_message r = \<lparr>m_id = int_of (r ''id''), m_created_at = int_of (r ''created_at''),
    m_channel = text_of (r ''channel''), m_source = text_of (r ''source''), m_instance = text_of (r ''instance''),
    m_conversation_ref = text_option (r ''conversation_ref''), m_kind = text_of (r ''kind''),
    m_body = text_of (r ''body''), m_reply_to = int_option (r ''reply_to'')\<rparr>"

lemma message_read_back [sql_rows]: "sql_message (message_sql x) = x"
  by (simp add: sql_message_def message_sql_def)

definition identity_sql :: "identity_row \<Rightarrow> sql_row" where
  "identity_sql x = sql_row_of [(''instance'', SText (i_instance x)), (''source'', SText (i_source x)),
    (''label'', opt_text (i_label x)), (''token_hash'', opt_text (i_token_hash x)),
    (''created_at'', SInt (i_created_at x))]"

definition sql_identity :: "sql_row \<Rightarrow> identity_row" where
  "sql_identity r = \<lparr>i_instance = text_of (r ''instance''), i_source = text_of (r ''source''),
    i_label = text_option (r ''label''), i_token_hash = text_option (r ''token_hash''),
    i_created_at = int_of (r ''created_at'')\<rparr>"

lemma identity_read_back [sql_rows]: "sql_identity (identity_sql x) = x"
  by (simp add: sql_identity_def identity_sql_def)

definition participant_sql :: "participant_row \<Rightarrow> sql_row" where
  "participant_sql x = sql_row_of [(''participant_id'', SText (p_participant_id x)), (''source'', SText (p_source x)),
    (''label'', opt_text (p_label x)), (''role'', SText (p_role x)), (''status'', SText (p_status x)),
    (''auth_scheme'', opt_text (p_auth_scheme x)), (''auth_secret'', opt_text (p_auth_secret x)),
    (''totp_secret'', opt_text (p_totp_secret x)), (''totp_last_step'', opt_int (p_totp_last_step x)),
    (''totp_fail_count'', SInt (p_totp_fail_count x)), (''totp_locked_until'', opt_int (p_totp_locked_until x)),
    (''owner_provider'', opt_text (p_owner_provider x)), (''owner_subject'', opt_text (p_owner_subject x)),
    (''owner_login'', opt_text (p_owner_login x)), (''created_at'', SInt (p_created_at x)),
    (''updated_at'', SInt (p_updated_at x))]"

definition sql_participant :: "sql_row \<Rightarrow> participant_row" where
  "sql_participant r = \<lparr>p_participant_id = text_of (r ''participant_id''), p_source = text_of (r ''source''),
    p_label = text_option (r ''label''), p_role = text_of (r ''role''), p_status = text_of (r ''status''),
    p_auth_scheme = text_option (r ''auth_scheme''), p_auth_secret = text_option (r ''auth_secret''),
    p_totp_secret = text_option (r ''totp_secret''), p_totp_last_step = int_option (r ''totp_last_step''),
    p_totp_fail_count = int_of (r ''totp_fail_count''), p_totp_locked_until = int_option (r ''totp_locked_until''),
    p_owner_provider = text_option (r ''owner_provider''), p_owner_subject = text_option (r ''owner_subject''),
    p_owner_login = text_option (r ''owner_login''), p_created_at = int_of (r ''created_at''),
    p_updated_at = int_of (r ''updated_at'')\<rparr>"

lemma participant_read_back [sql_rows]: "sql_participant (participant_sql x) = x"
  by (simp add: sql_participant_def participant_sql_def)

definition durable_sql :: "durable_grant \<Rightarrow> sql_row" where
  "durable_sql x = sql_row_of [(''id'', SInt (g_id x)), (''principal_provider'', SText (g_principal_provider x)),
    (''principal_subject'', SText (g_principal_subject x)), (''participant_id'', SText (g_participant_id x)),
    (''capability'', SText (g_capability x)), (''resource'', opt_text (g_resource x)),
    (''status'', SText (g_status x)), (''created_at'', SInt (g_created_at x)), (''updated_at'', SInt (g_updated_at x))]"

definition sql_durable :: "sql_row \<Rightarrow> durable_grant" where
  "sql_durable r = \<lparr>g_id = int_of (r ''id''), g_principal_provider = text_of (r ''principal_provider''),
    g_principal_subject = text_of (r ''principal_subject''), g_participant_id = text_of (r ''participant_id''),
    g_capability = text_of (r ''capability''), g_resource = text_option (r ''resource''),
    g_status = text_of (r ''status''), g_created_at = int_of (r ''created_at''),
    g_updated_at = int_of (r ''updated_at'')\<rparr>"

lemma durable_read_back [sql_rows]: "sql_durable (durable_sql x) = x"
  by (simp add: sql_durable_def durable_sql_def)

definition delegated_sql :: "delegated_grant \<Rightarrow> sql_row" where
  "delegated_sql x = sql_row_of [(''id'', SInt (d_id x)), (''principal_provider'', SText (d_principal_provider x)),
    (''principal_subject'', SText (d_principal_subject x)), (''participant_id'', SText (d_participant_id x)),
    (''capability'', SText (d_capability x)), (''resource'', opt_text (d_resource x)),
    (''intent_id'', opt_text (d_intent_id x)), (''expires_at'', opt_int (d_expires_at x)),
    (''one_shot'', SInt (d_one_shot x)), (''consumed_at'', opt_int (d_consumed_at x)),
    (''consumed_intent_id'', opt_text (d_consumed_intent_id x)), (''status'', SText (d_status x)),
    (''created_at'', SInt (d_created_at x)), (''updated_at'', SInt (d_updated_at x))]"

definition sql_delegated :: "sql_row \<Rightarrow> delegated_grant" where
  "sql_delegated r = \<lparr>d_id = int_of (r ''id''), d_principal_provider = text_of (r ''principal_provider''),
    d_principal_subject = text_of (r ''principal_subject''), d_participant_id = text_of (r ''participant_id''),
    d_capability = text_of (r ''capability''), d_resource = text_option (r ''resource''),
    d_intent_id = text_option (r ''intent_id''), d_expires_at = int_option (r ''expires_at''),
    d_one_shot = int_of (r ''one_shot''), d_consumed_at = int_option (r ''consumed_at''),
    d_consumed_intent_id = text_option (r ''consumed_intent_id''), d_status = text_of (r ''status''),
    d_created_at = int_of (r ''created_at''), d_updated_at = int_of (r ''updated_at'')\<rparr>"

lemma delegated_read_back [sql_rows]: "sql_delegated (delegated_sql x) = x"
  by (simp add: sql_delegated_def delegated_sql_def)

definition event_sql :: "admin_event \<Rightarrow> sql_row" where
  "event_sql x = sql_row_of [(''id'', SInt (e_id x)), (''grant_store'', SText (e_grant_store x)),
    (''grant_id'', SInt (e_grant_id x)), (''operation'', SText (e_operation x)),
    (''actor_surface'', SText (e_actor_surface x)), (''actor_provider'', opt_text (e_actor_provider x)),
    (''actor_subject'', opt_text (e_actor_subject x)),
    (''actor_participant_id'', opt_text (e_actor_participant_id x)),
    (''target_principal_provider'', SText (e_target_principal_provider x)),
    (''target_principal_subject'', SText (e_target_principal_subject x)),
    (''participant_id'', SText (e_participant_id x)), (''capability'', SText (e_capability x)),
    (''resource'', opt_text (e_resource x)), (''intent_id'', opt_text (e_intent_id x)),
    (''expires_at'', opt_int (e_expires_at x)), (''one_shot'', SInt (e_one_shot x)),
    (''before_status'', opt_text (e_before_status x)), (''after_status'', SText (e_after_status x)),
    (''created_at'', SInt (e_created_at x))]"

definition sql_event :: "sql_row \<Rightarrow> admin_event" where
  "sql_event r = \<lparr>e_id = int_of (r ''id''), e_grant_store = text_of (r ''grant_store''),
    e_grant_id = int_of (r ''grant_id''), e_operation = text_of (r ''operation''),
    e_actor_surface = text_of (r ''actor_surface''), e_actor_provider = text_option (r ''actor_provider''),
    e_actor_subject = text_option (r ''actor_subject''),
    e_actor_participant_id = text_option (r ''actor_participant_id''),
    e_target_principal_provider = text_of (r ''target_principal_provider''),
    e_target_principal_subject = text_of (r ''target_principal_subject''),
    e_participant_id = text_of (r ''participant_id''), e_capability = text_of (r ''capability''),
    e_resource = text_option (r ''resource''), e_intent_id = text_option (r ''intent_id''),
    e_expires_at = int_option (r ''expires_at''), e_one_shot = int_of (r ''one_shot''),
    e_before_status = text_option (r ''before_status''), e_after_status = text_of (r ''after_status''),
    e_created_at = int_of (r ''created_at'')\<rparr>"

lemma event_read_back [sql_rows]: "sql_event (event_sql x) = x"
  by (simp add: sql_event_def event_sql_def)

definition channel_sql :: "channel_row \<Rightarrow> sql_row" where
  "channel_sql x = sql_row_of [(''name'', SText (c_name x)), (''visibility'', SText (c_visibility x)),
    (''status'', SText (c_status x)), (''created_at'', SInt (c_created_at x)),
    (''updated_at'', SInt (c_updated_at x)), (''created_by'', opt_text (c_created_by x))]"

definition sql_channel :: "sql_row \<Rightarrow> channel_row" where
  "sql_channel r = \<lparr>c_name = text_of (r ''name''), c_visibility = text_of (r ''visibility''),
    c_status = text_of (r ''status''), c_created_at = int_of (r ''created_at''),
    c_updated_at = int_of (r ''updated_at''), c_created_by = text_option (r ''created_by'')\<rparr>"

lemma channel_read_back [sql_rows]: "sql_channel (channel_sql x) = x"
  by (simp add: sql_channel_def channel_sql_def)

definition navigation_sql :: "navigation_write \<Rightarrow> sql_row" where
  "navigation_sql x = sql_row_of [(''instance'', SText (n_instance x)), (''nonce'', SText (n_nonce x)),
    (''request_hash'', SText (n_request_hash x)), (''message_id'', SInt (n_message_id x)),
    (''created_at'', SInt (n_created_at x))]"

definition sql_navigation :: "sql_row \<Rightarrow> navigation_write" where
  "sql_navigation r = \<lparr>n_instance = text_of (r ''instance''), n_nonce = text_of (r ''nonce''),
    n_request_hash = text_of (r ''request_hash''), n_message_id = int_of (r ''message_id''),
    n_created_at = int_of (r ''created_at'')\<rparr>"

lemma navigation_read_back [sql_rows]: "sql_navigation (navigation_sql x) = x"
  by (simp add: sql_navigation_def navigation_sql_def)

definition ingress_sql :: "ingress_row \<Rightarrow> sql_row" where
  "ingress_sql x = sql_row_of [(''delivery_id'', SText (in_delivery_id x)),
    (''participant_id'', opt_text (in_participant_id x)), (''intent_id'', SText (in_intent_id x)),
    (''transport'', SText (in_transport x)), (''external_ref'', SText (in_external_ref x)),
    (''principal_provider'', SText (in_principal_provider x)),
    (''principal_subject'', SText (in_principal_subject x)), (''created_at'', SInt (in_created_at x))]"

definition sql_ingress :: "sql_row \<Rightarrow> ingress_row" where
  "sql_ingress r = \<lparr>in_delivery_id = text_of (r ''delivery_id''),
    in_participant_id = text_option (r ''participant_id''), in_intent_id = text_of (r ''intent_id''),
    in_transport = text_of (r ''transport''), in_external_ref = text_of (r ''external_ref''),
    in_principal_provider = text_of (r ''principal_provider''),
    in_principal_subject = text_of (r ''principal_subject''), in_created_at = int_of (r ''created_at'')\<rparr>"

lemma ingress_read_back [sql_rows]: "sql_ingress (ingress_sql x) = x"
  by (simp add: sql_ingress_def ingress_sql_def)

definition receipt_sql :: "receipt_row \<Rightarrow> sql_row" where
  "receipt_sql x = sql_row_of [(''participant_id'', SText (r_participant_id x)),
    (''intent_id'', SText (r_intent_id x)), (''intent_hash'', SText (r_intent_hash x)),
    (''capability'', SText (r_capability x)), (''message_id'', SInt (r_message_id x)),
    (''status'', SText (r_status x)), (''created_at'', SInt (r_created_at x))]"

definition sql_receipt :: "sql_row \<Rightarrow> receipt_row" where
  "sql_receipt r = \<lparr>r_participant_id = text_of (r ''participant_id''), r_intent_id = text_of (r ''intent_id''),
    r_intent_hash = text_of (r ''intent_hash''), r_capability = text_of (r ''capability''),
    r_message_id = int_of (r ''message_id''), r_status = text_of (r ''status''),
    r_created_at = int_of (r ''created_at'')\<rparr>"

lemma receipt_read_back [sql_rows]: "sql_receipt (receipt_sql x) = x"
  by (simp add: sql_receipt_def receipt_sql_def)

definition provenance_sql :: "provenance_row \<Rightarrow> sql_row" where
  "provenance_sql x = sql_row_of [(''participant_id'', SText (a_participant_id x)),
    (''intent_id'', SText (a_intent_id x)), (''principal_provider'', opt_text (a_principal_provider x)),
    (''principal_subject'', opt_text (a_principal_subject x)), (''capability'', opt_text (a_capability x)),
    (''resource'', opt_text (a_resource x)), (''source'', SText (a_source x)), (''reason'', SText (a_reason x)),
    (''grant_id'', opt_int (a_grant_id x)), (''created_at'', SInt (a_created_at x))]"

definition sql_provenance :: "sql_row \<Rightarrow> provenance_row" where
  "sql_provenance r = \<lparr>a_participant_id = text_of (r ''participant_id''),
    a_intent_id = text_of (r ''intent_id''), a_principal_provider = text_option (r ''principal_provider''),
    a_principal_subject = text_option (r ''principal_subject''), a_capability = text_option (r ''capability''),
    a_resource = text_option (r ''resource''), a_source = text_of (r ''source''), a_reason = text_of (r ''reason''),
    a_grant_id = int_option (r ''grant_id''), a_created_at = int_of (r ''created_at'')\<rparr>"

lemma provenance_read_back [sql_rows]: "sql_provenance (provenance_sql x) = x"
  by (simp add: sql_provenance_def provenance_sql_def)

section \<open>Tables\<close>

text \<open>The table of the capabilities of an older release is part of the schema, but nothing writes it.\<close>

definition board_rows :: "board \<Rightarrow> (string \<times> sql_row list) list" where
  "board_rows db =
    [(''messages'', map message_sql (messages db)),
     (''identities'', map identity_sql (identities db)),
     (''web_participants'', map participant_sql (web_participants db)),
     (''principal_grants'', map durable_sql (principal_grants db)),
     (''delegated_grants'', map delegated_sql (delegated_grants db)),
     (''authorization_admin_events'', map event_sql (authorization_admin_events db)),
     (''channels'', map channel_sql (channels db)),
     (''navigation_writes'', map navigation_sql (navigation_writes db)),
     (''ingress_provenance'', map ingress_sql (ingress_provenance db)),
     (''execution_receipts'', map receipt_sql (execution_receipts db)),
     (''execution_authorization_provenance'', map provenance_sql (execution_authorization_provenance db))]"

definition board_table :: "board \<Rightarrow> schema_table \<Rightarrow> string \<times> sql_table" where
  "board_table db = (\<lambda>(table, columns). (table, \<lparr>st_columns = columns, st_pinned = of_table pinned_columns table,
     st_rows = (case map_of (board_rows db) table of None \<Rightarrow> [] | Some rows \<Rightarrow> rows)\<rparr>))"

text \<open>The indexes that \<open>initialize\<close> creates; a file without tables has none.\<close>

definition current_indexes :: "sql_index list" where
  "current_indexes = db_indexes (snd (initialize 0 empty_database))"

definition board_database :: "board \<Rightarrow> database" where
  "board_database db = \<lparr>db_tables = map (board_table db) (schema db),
     db_indexes = (if schema db = [] then [] else current_indexes)\<rparr>"

definition database_board :: "database \<Rightarrow> board" where
  "database_board d =
     \<lparr>messages = map sql_message (rows_of d ''messages''),
      identities = map sql_identity (rows_of d ''identities''),
      web_participants = map sql_participant (rows_of d ''web_participants''),
      principal_grants = map sql_durable (rows_of d ''principal_grants''),
      delegated_grants = map sql_delegated (rows_of d ''delegated_grants''),
      authorization_admin_events = map sql_event (rows_of d ''authorization_admin_events''),
      channels = map sql_channel (rows_of d ''channels''),
      navigation_writes = map sql_navigation (rows_of d ''navigation_writes''),
      ingress_provenance = map sql_ingress (rows_of d ''ingress_provenance''),
      execution_receipts = map sql_receipt (rows_of d ''execution_receipts''),
      execution_authorization_provenance = map sql_provenance (rows_of d ''execution_authorization_provenance''),
      schema = catalog d\<rparr>"

definition initialize_board :: "int \<Rightarrow> board \<Rightarrow> unit cli_result \<times> board" where
  "initialize_board now db =
     (case initialize now (board_database db) of
        (Inl e, d) \<Rightarrow> (Inl (CliStatement e), database_board d)
      | (Inr _, d) \<Rightarrow> (Inr (), database_board d))"

text \<open>What SQLite makes of a missing file: a database without tables.\<close>

definition no_tables :: board where
  "no_tables = empty_board\<lparr>schema := []\<rparr>"

section \<open>Reading back what was written\<close>

lemma board_table_of:
  "table_of (board_database db) table = map_option (\<lambda>columns. snd (board_table db (table, columns))) (map_of (schema db) table)"
proof -
  have "map_of (map (board_table db) ts) table = map_option (\<lambda>columns. snd (board_table db (table, columns))) (map_of ts table)" for ts
    by (induction ts) (auto simp: board_table_def)
  then show ?thesis by (simp add: table_of_def board_database_def)
qed

lemma board_columns: "columns_of (board_database db) table = of_table (schema db) table"
  by (simp add: columns_of_def board_table_of board_table_def of_table_def split: option.split)

lemma board_catalog: "catalog (board_database db) = schema db"
  by (simp add: catalog_def board_database_def board_table_def comp_def case_prod_beta)

lemma board_rows_of:
  assumes "schema db = current_schema" and "(table, rows) \<in> set (board_rows db)"
  shows "rows_of (board_database db) table = rows"
proof -
  have "distinct (map fst (board_rows db))" by (simp add: board_rows_def)
  then have "map_of (board_rows db) table = Some rows" using assms(2) by simp
  moreover have "map_of current_schema table \<noteq> None" using assms(2) by (auto simp: board_rows_def current_schema_def)
  ultimately show ?thesis by (auto simp: rows_of_def board_table_of board_table_def assms(1))
qed

lemma database_board_inverse:
  assumes "schema db = current_schema"
  shows "database_board (board_database db) = db"
proof -
  note rows = board_rows_of [OF assms]
  have "rows_of (board_database db) table = rows" if "(table, rows) \<in> set (board_rows db)" for table rows
    using rows that by blast
  then show ?thesis
    by (simp add: database_board_def board_catalog board_rows_def sql_rows comp_def)
qed

section \<open>The file of a reachable board\<close>

lemma current_index_names: "ix_name ` set current_indexes = initialized_indexes"
proof -
  have "set (map ix_name current_indexes) = set [''idx_messages_channel_id'', ''idx_principal_grants_lookup'',
      ''idx_delegated_grants_lookup'', ''idx_authorization_admin_events_grant'', ''idx_ingress_provenance_intent'',
      ''idx_execution_receipts_message'', ''idx_authorization_admin_events_participant_id'', ''idx_ingress_provenance_execution'']"
    by code_simp
  then show ?thesis by (auto simp: initialized_indexes_def schema_indexes_def)
qed

lemma current_indexes_droppable:
  "list_all (\<lambda>i. ix_table i = ''web_participants'' \<longrightarrow> ix_columns i = []) current_indexes"
  by code_simp

lemma board_has_column:
  "schema db = current_schema \<Longrightarrow> table_has_column (board_database db) table column \<longleftrightarrow> column \<in> set (of_table current_schema table)"
  by (simp add: table_has_column_def board_columns)

lemma migrated_columns_current:
  "list_all (\<lambda>(table, column). column \<in> set (of_table current_schema table))
     (map (Pair ''execution_authorization_provenance'') provenance_columns @ map (Pair ''web_participants'')
       [''totp_secret'', ''totp_last_step'', ''totp_fail_count'', ''totp_locked_until'', ''auth_secret'', ''auth_scheme'',
        ''role'', ''status''] @ [(''ingress_provenance'', ''participant_id''), (''messages'', ''conversation_ref'')])"
  by code_simp

lemma initialized_pairs_current: "(table, column) \<in> initialized_pairs \<Longrightarrow> column \<in> set (of_table current_schema table)"
  using migrated_columns_current base_columns_subset
  by (auto simp: initialized_pairs_def base_pairs_def ingress_participant_def list_all_iff)

text \<open>Evidence and channels.\<close>

lemma authorized_capability:
  assumes ev: "evidence_wf ext db" and a: "a \<in> set (execution_authorization_provenance db)"
  shows "a_capability a \<noteq> None"
proof -
  have "has_receipt db (a_participant_id a) (a_intent_id a)" using ev a by (simp add: evidence_wf_def no_orphans_def)
  then obtain r where r: "r \<in> set (execution_receipts db)" "r_participant_id r = a_participant_id a" "r_intent_id r = a_intent_id a"
    by (auto simp: has_receipt_def)
  then obtain m y where y: "y \<in> set (execution_authorization_provenance db)" "authorization_evidenced r m y"
    using ev unfolding evidence_wf_def execution_evidenced_def effect_evidenced_def by meson
  have "provenance_key y = provenance_key a"
    using y(2) r(2,3) by (simp add: authorization_evidenced_def provenance_key_def receipt_key_def)
  moreover have "distinct (map provenance_key (execution_authorization_provenance db))"
    using ev by (simp add: evidence_wf_def keys_wf_def)
  ultimately have "y = a" using distinct_key_eq y(1) a by metis
  then show ?thesis using y(2) by (simp add: authorization_evidenced_def)
qed

lemma board_evidence_settled:
  assumes "schema db = current_schema" and ev: "evidence_wf ext db"
  shows "evidence_settled (board_database db)"
proof -
  have rows: "rows_of (board_database db) ''ingress_provenance'' = map ingress_sql (ingress_provenance db)"
    "rows_of (board_database db) ''execution_authorization_provenance'' = map provenance_sql (execution_authorization_provenance db)"
    by (rule board_rows_of [OF assms(1)], simp add: board_rows_def)+
  have "in_participant_id x \<noteq> None" if "x \<in> set (ingress_provenance db)" for x
    using ev that by (auto simp: evidence_wf_def no_orphans_def)
  then have "ingress_sql x ''participant_id'' \<noteq> SNull" if "x \<in> set (ingress_provenance db)" for x
    using that by (auto simp: ingress_sql_def opt_text_def split: option.split)
  moreover have "provenance_sql x ''capability'' \<noteq> SNull" if "x \<in> set (execution_authorization_provenance db)" for x
    using authorized_capability [OF ev that] by (auto simp: provenance_sql_def opt_text_def split: option.split)
  ultimately show ?thesis
    by (auto simp: evidence_settled_def settled_by_def rows attribute_ingress_def recover_capability_def Let_def
        split: list.split)
qed

lemma board_channels_settled:
  assumes "schema db = current_schema" and known: "channels_known db"
  shows "channels_settled (board_database db)"
proof -
  have rows: "rows_of (board_database db) ''messages'' = map message_sql (messages db)"
    "rows_of (board_database db) ''channels'' = map channel_sql (channels db)"
    by (rule board_rows_of [OF assms(1)], simp add: board_rows_def)+
  have "message_sql m ''channel'' = SText (m_channel m)" "channel_sql c ''name'' = SText (c_name c)" for m c
    by (simp_all add: message_sql_def channel_sql_def)
  then show ?thesis using known by (fastforce simp: channels_settled_def rows sql_eq_def channels_known_def)
qed

lemma board_gone: "schema db = current_schema \<Longrightarrow> gone (set discarded) (board_database db)"
proof -
  assume s: "schema db = current_schema"
  then have indexes: "db_indexes (board_database db) = current_indexes" by (simp add: board_database_def current_schema_def)
  have "''idx_web_participants_public_key'' \<notin> initialized_indexes" by (simp add: initialized_indexes_def schema_indexes_def)
  then have "''idx_web_participants_public_key'' \<notin> index_names (board_database db)"
    by (simp only: index_names_def indexes current_index_names not_False_eq_True)
  moreover have "all_droppable (board_database db)"
    using current_indexes_droppable
    by (auto simp: all_droppable_def droppable_def indexes list_all_iff board_table_of board_table_def s pinned_current)
  moreover have "\<not> table_has_column (board_database db) ''web_participants'' column" if "column \<in> set discarded" for column
    using that unfolding board_has_column [OF s] by (auto simp: discarded_def of_table_def current_schema_def)
  ultimately show ?thesis by (simp add: gone_def)
qed

lemma board_initialized:
  assumes "schema db = current_schema" and "evidence_wf ext db"
  shows "initialized (board_database db)"
proof -
  have "index_names (board_database db) = initialized_indexes"
    using current_index_names by (simp add: index_names_def board_database_def assms(1) current_schema_def)
  then have "established initialized_pairs initialized_indexes (board_database db)"
    using initialized_pairs_current by (auto simp: established_def board_has_column [OF assms(1)])
  then show ?thesis using board_gone [OF assms(1)] board_evidence_settled [OF assms] by (simp add: initialized_def)
qed

section \<open>Initializing the file of a board\<close>

lemma initialize_reachable:
  assumes "reachable ext db"
  shows "initialize_board now db = (Inr (), db)"
proof -
  have s: "schema db = current_schema" by (rule reachable_schema [OF assms])
  have ev: "evidence_wf ext db" using reachable_system_wf [OF assms] by (simp add: system_wf_def)
  have "idle (board_database db) (initialize now)"
    by (rule initialized_idle [OF board_initialized [OF s ev] board_channels_settled [OF s reachable_channels [OF assms]]])
  then show ?thesis by (simp add: initialize_board_def idle_def database_board_inverse [OF s])
qed

lemma initialize_no_tables: "initialize_board now no_tables = (Inr (), empty_board)"
proof -
  have empty: "board_database no_tables = empty_database"
    by (simp add: board_database_def no_tables_def empty_database_def)
  obtain d where d: "initialize now empty_database = (Inr (), d)" "catalog d = current_schema"
    "list_all (\<lambda>(table, t). length (st_rows t) = 0) (db_tables d)"
    using fresh_database [of now] by (auto split: prod.splits)
  have "rows_of d table = []" for table
    using d(3) by (auto simp: rows_of_def table_of_def list_all_iff dest!: map_of_SomeD split: option.split)
  then have "database_board d = empty_board" by (simp add: database_board_def empty_board_def d(2))
  then show ?thesis by (simp add: initialize_board_def empty d(1))
qed

end
