(* ===== verification/Database_Files.thy ===== *)
theory Database_Files
  imports Board_Catalog
begin

text \<open>
  The \<open>db\<close> commands of \<open>admin.rs\<close>: creating a database, checking it, backing it up and restoring it.  What they do to
  files is here; what SQLite does inside a file is the argument \<open>sqlite\<close>: the database that opening a missing file
  creates, \<open>PRAGMA integrity_check\<close>, and \<open>VACUUM INTO\<close>, which answers and leaves something at its target, depending on
  what is there.  The commands work on files of any kind of database, so \<open>initialize\<close> of \<open>db.rs\<close> is the argument \<open>init\<close> of
  the dispatch; on files of boards it is \<open>initialize_board\<close> of the theory \<open>Board_Catalog\<close>.  A path names a file in an
  existing directory by its name, so \<open>ensure_parent\<close> has nothing to do and a sibling's path is the path with a suffix.
  Files cannot fail to be removed or renamed.
\<close>

section \<open>SQLite\<close>

record 'db sqlite =
  fresh_database :: 'db
  integrity_check :: "'db \<Rightarrow> string"
  vacuum :: "'db \<Rightarrow> 'db disk_file option \<Rightarrow> unit cli_result \<times> 'db disk_file option"

text \<open>\<open>VACUUM INTO\<close> a path without a file makes a copy there; whatever happens elsewhere, it makes no database but a copy.\<close>

definition vacuum_copies :: "'db sqlite \<Rightarrow> bool" where
  "vacuum_copies sqlite \<longleftrightarrow> (\<forall>db. vacuum sqlite db None = (Inr (), Some (Database db)))"

definition vacuum_only_copies :: "'db sqlite \<Rightarrow> bool" where
  "vacuum_only_copies sqlite \<longleftrightarrow> (\<forall>db file db'. snd (vacuum sqlite db file) = Some (Database db') \<longrightarrow>
     db' = db \<or> file = Some (Database db'))"

section \<open>Files\<close>

definition sibling_with_suffix :: "string \<Rightarrow> string \<Rightarrow> string" where
  "sibling_with_suffix path ending = path @ ending"

definition database_files :: "string \<Rightarrow> string list" where
  "database_files path = [path, path @ ''-wal'', path @ ''-shm'']"

definition remove_database_files :: "string \<Rightarrow> 'db disk \<Rightarrow> 'db disk" where
  "remove_database_files path disk = (\<lambda>p. if p \<in> set (database_files path) then None else disk p)"

definition rename_file :: "string \<Rightarrow> string \<Rightarrow> 'db disk \<Rightarrow> 'db disk" where
  "rename_file source target disk = (disk(target := disk source))(source := None)"

text \<open>Opening a connection creates a missing file; the first statement fails on a file that is no database.\<close>

definition open_database :: "'db sqlite \<Rightarrow> string \<Rightarrow> 'db disk \<Rightarrow> 'db cli_result \<times> 'db disk" where
  "open_database sqlite path disk =
     (case disk path of
        None \<Rightarrow> (Inr (fresh_database sqlite), disk(path \<mapsto> Database (fresh_database sqlite)))
      | Some (Database db) \<Rightarrow> (Inr db, disk)
      | Some OtherFile \<Rightarrow> (Inl NotADatabase, disk))"

definition vacuum_into :: "'db sqlite \<Rightarrow> 'db \<Rightarrow> string \<Rightarrow> 'db disk \<Rightarrow> unit cli_result \<times> 'db disk" where
  "vacuum_into sqlite db target disk =
     (let (result, file) = vacuum sqlite db (disk target) in (result, disk(target := file)))"

definition integrity_ok :: "'db sqlite \<Rightarrow> string \<Rightarrow> 'db disk \<Rightarrow> bool cli_result" where
  "integrity_ok sqlite path disk =
     (case require_file path ''database'' disk of
        Inl e \<Rightarrow> Inl e
      | Inr _ \<Rightarrow>
          (case disk path of
             Some (Database db) \<Rightarrow> Inr (integrity_check sqlite db = ''ok'')
           | _ \<Rightarrow> Inl NotADatabase))"

section \<open>Backing up and restoring\<close>

text \<open>The steps that \<open>backup\<close> and \<open>restore\<close> share: a copy of the database at \<open>source\<close> is made at \<open>tmp\<close> and checked.\<close>

definition checked_copy :: "'db sqlite \<Rightarrow> string \<Rightarrow> string \<Rightarrow> string \<Rightarrow> 'db disk \<Rightarrow> unit cli_result \<times> 'db disk" where
  "checked_copy sqlite source tmp failure disk =
     (case open_database sqlite source (remove_database_files tmp disk) of
        (Inl e, disk) \<Rightarrow> (Inl e, disk)
      | (Inr db, disk) \<Rightarrow>
          (case vacuum_into sqlite db tmp disk of
             (Inl e, disk) \<Rightarrow> (Inl e, disk)
           | (Inr _, disk) \<Rightarrow>
               (case integrity_ok sqlite tmp disk of
                  Inl e \<Rightarrow> (Inl e, disk)
                | Inr ok \<Rightarrow>
                    (if \<not> ok then (Inl (CliMessage failure), remove_database_files tmp disk) else (Inr (), disk)))))"

definition backup_database ::
    "'db sqlite \<Rightarrow> string \<Rightarrow> string \<Rightarrow> 'db disk \<Rightarrow> unit cli_result \<times> string list \<times> 'db disk" where
  "backup_database sqlite source output disk =
     (case require_file source ''source database'' disk of
        Inl e \<Rightarrow> (Inl e, [], disk)
      | Inr _ \<Rightarrow>
          (let tmp = sibling_with_suffix output ''.tmp'' in
           case checked_copy sqlite source tmp ''backup integrity check failed'' disk of
             (Inl e, disk) \<Rightarrow> (Inl e, [], disk)
           | (Inr _, disk) \<Rightarrow> (Inr (), [''Backup created: '' @ output], rename_file tmp output (disk(output := None)))))"

definition restore_database ::
    "'db sqlite \<Rightarrow> string \<Rightarrow> string \<Rightarrow> bool \<Rightarrow> 'db disk \<Rightarrow> unit cli_result \<times> string list \<times> 'db disk" where
  "restore_database sqlite backup target force disk =
     (case require_file backup ''backup'' disk of
        Inl e \<Rightarrow> (Inl e, [], disk)
      | Inr _ \<Rightarrow>
          (if disk target \<noteq> None \<and> \<not> force
           then (Inl (CliMessage (''target exists: '' @ target @ '' (use --force to overwrite)'')), [], disk)
           else case integrity_ok sqlite backup disk of
             Inl e \<Rightarrow> (Inl e, [], disk)
           | Inr ok \<Rightarrow>
               (if \<not> ok then (Inl (CliMessage ''backup integrity check failed''), [], disk)
                else let tmp = sibling_with_suffix target ''.restore-tmp'' in
                  case checked_copy sqlite backup tmp ''restored database integrity check failed'' disk of
                    (Inl e, disk) \<Rightarrow> (Inl e, [], disk)
                  | (Inr _, disk) \<Rightarrow>
                      (Inr (), [''Database restored: '' @ target],
                       rename_file tmp target (if force then remove_database_files target disk else disk)))))"

datatype db_command =
    InitDb string
  | CheckDb string
  | BackupDb string string
  | RestoreDb string string bool

fun dispatch_db ::
    "('db \<Rightarrow> unit cli_result \<times> 'db) \<Rightarrow> 'db sqlite \<Rightarrow> db_command \<Rightarrow> 'db disk \<Rightarrow> unit cli_result \<times> string list \<times> 'db disk" where
  "dispatch_db init sqlite (InitDb path) disk =
     (case open_database sqlite path disk of
        (Inl e, disk) \<Rightarrow> (Inl e, [], disk)
      | (Inr db, disk) \<Rightarrow>
          (case init db of
             (Inl e, db') \<Rightarrow> (Inl e, [], disk(path \<mapsto> Database db'))
           | (Inr _, db') \<Rightarrow> (Inr (), [''Database initialized: '' @ path], disk(path \<mapsto> Database db'))))"
| "dispatch_db init sqlite (CheckDb path) disk =
     (case integrity_ok sqlite path disk of
        Inl e \<Rightarrow> (Inl e, [], disk)
      | Inr True \<Rightarrow> (Inr (), [''ok''], disk)
      | Inr False \<Rightarrow> (Inl (CliMessage (''database integrity check failed: '' @ path)), [], disk))"
| "dispatch_db init sqlite (BackupDb source output) disk = backup_database sqlite source output disk"
| "dispatch_db init sqlite (RestoreDb backup target force) disk = restore_database sqlite backup target force disk"

section \<open>What a copy does\<close>

lemma removed_files: "remove_database_files path disk p = (if p \<in> set (database_files path) then None else disk p)"
  by (simp add: remove_database_files_def)

text \<open>A copy changes nothing but the files of the temporary database and, where it is missing, the source.\<close>

lemma tmp_database_file: "tmp \<in> set (database_files tmp)"
  by (simp add: database_files_def)

lemma open_database_frame: "p \<noteq> source \<or> disk p \<noteq> None \<Longrightarrow> snd (open_database sqlite source disk) p = disk p"
  by (auto simp: open_database_def split: option.split disk_file.split)

lemma vacuum_into_frame: "p \<noteq> tmp \<Longrightarrow> snd (vacuum_into sqlite db tmp disk) p = disk p"
  by (simp add: vacuum_into_def case_prod_beta Let_def)

lemma checked_copy_cases:
  obtains (unopened) e where "checked_copy sqlite source tmp failure disk =
      (Inl e, snd (open_database sqlite source (remove_database_files tmp disk)))"
  | (copied) db d r where "d = snd (vacuum_into sqlite db tmp (snd (open_database sqlite source (remove_database_files tmp disk))))"
      "fst (open_database sqlite source (remove_database_files tmp disk)) = Inr db"
      "checked_copy sqlite source tmp failure disk = (r, d) \<or>
       checked_copy sqlite source tmp failure disk = (r, remove_database_files tmp d) \<and> r \<noteq> Inr ()"
      "r = Inr () \<longrightarrow> integrity_ok sqlite tmp d = Inr True"
proof (cases "open_database sqlite source (remove_database_files tmp disk)")
  case (Pair opened d0)
  show ?thesis
  proof (cases opened)
    case (Inl e)
    then show ?thesis using unopened [of e] Pair by (simp add: checked_copy_def)
  next
    case (Inr db)
    obtain res d1 where v: "vacuum_into sqlite db tmp d0 = (res, d1)" by fastforce
    have d1: "d1 = snd (vacuum_into sqlite db tmp (snd (open_database sqlite source (remove_database_files tmp disk))))"
      by (simp add: Pair v)
    have db: "fst (open_database sqlite source (remove_database_files tmp disk)) = Inr db" by (simp add: Pair Inr)
    have "\<exists>r. (checked_copy sqlite source tmp failure disk = (r, d1) \<or>
        checked_copy sqlite source tmp failure disk = (r, remove_database_files tmp d1) \<and> r \<noteq> Inr ()) \<and>
        (r = Inr () \<longrightarrow> integrity_ok sqlite tmp d1 = Inr True)"
    proof (cases res)
      case (Inl e)
      then have "checked_copy sqlite source tmp failure disk = (Inl e, d1)"
        by (simp add: checked_copy_def Pair \<open>opened = Inr db\<close> v)
      then show ?thesis by (intro exI [of _ "Inl e"]) simp
    next
      case (Inr u)
      show ?thesis
      proof (cases "integrity_ok sqlite tmp d1")
        case (Inl e)
        then have "checked_copy sqlite source tmp failure disk = (Inl e, d1)"
          by (simp add: checked_copy_def Pair \<open>opened = Inr db\<close> v Inr)
        then show ?thesis by (intro exI [of _ "Inl e"]) simp
      next
        case ok: (Inr ok)
        show ?thesis
        proof (cases ok)
          case True
          then have "checked_copy sqlite source tmp failure disk = (Inr (), d1)"
            by (simp add: checked_copy_def Pair \<open>opened = Inr db\<close> v Inr ok)
          then show ?thesis using ok True by (intro exI [of _ "Inr ()"]) simp
        next
          case False
          then have "checked_copy sqlite source tmp failure disk = (Inl (CliMessage failure), remove_database_files tmp d1)"
            by (simp add: checked_copy_def Pair \<open>opened = Inr db\<close> v Inr ok)
          then show ?thesis by (intro exI [of _ "Inl (CliMessage failure)"]) simp
        qed
      qed
    qed
    then show ?thesis using copied [OF d1 db] by blast
  qed
qed

lemma checked_copy_frame:
  assumes p: "p \<notin> set (database_files tmp)" and s: "p \<noteq> source \<or> disk p \<noteq> None"
  shows "snd (checked_copy sqlite source tmp failure disk) p = disk p"
proof -
  let ?open = "open_database sqlite source (remove_database_files tmp disk)"
  have r: "remove_database_files tmp d p = d p" for d :: "'a disk" using p by (simp add: removed_files)
  have "p \<noteq> source \<or> remove_database_files tmp disk p \<noteq> None" using s by (simp add: r)
  then have o: "snd ?open p = disk p" using open_database_frame [of p source "remove_database_files tmp disk" sqlite] by (simp add: r)
  have v: "snd (vacuum_into sqlite db tmp d) p = d p" for db d
    by (rule vacuum_into_frame) (use p tmp_database_file in blast)
  show ?thesis
    by (rule checked_copy_cases [of sqlite source tmp failure disk]) (auto simp: o v r)
qed

lemma checked_copy_ok:
  assumes "vacuum_copies sqlite" and "disk source = Some (Database db)" and "source \<notin> set (database_files tmp)"
    and "integrity_check sqlite db = ''ok''"
  shows "checked_copy sqlite source tmp failure disk = (Inr (), (remove_database_files tmp disk)(tmp \<mapsto> Database db))"
  using assms
  by (simp add: checked_copy_def open_database_def vacuum_into_def vacuum_copies_def removed_files integrity_ok_def
      require_file_def) (simp add: database_files_def)

text \<open>A copy that succeeds has checked what it made.\<close>

lemma checked_copy_checked:
  assumes "fst (checked_copy sqlite source tmp failure disk) = Inr ()"
  shows "integrity_ok sqlite tmp (snd (checked_copy sqlite source tmp failure disk)) = Inr True"
  by (rule checked_copy_cases [of sqlite source tmp failure disk]) (use assms in auto)

lemma suffixes_apart [simp]:
  "path \<notin> set (database_files (path @ ''.tmp''))" "path \<notin> set (database_files (path @ ''.restore-tmp''))"
  "path @ ''-wal'' \<notin> set (database_files (path @ ''.restore-tmp''))"
  "path @ ''-shm'' \<notin> set (database_files (path @ ''.restore-tmp''))"
  "path @ ''.tmp'' \<notin> set (database_files path)" "path @ ''.restore-tmp'' \<notin> set (database_files path)"
  by (simp_all add: database_files_def)

section \<open>Round trip\<close>

lemma rename_file_target: "source \<noteq> target \<Longrightarrow> rename_file source target disk target = disk source"
  by (simp add: rename_file_def)

lemma rename_file_other: "p \<noteq> source \<Longrightarrow> p \<noteq> target \<Longrightarrow> rename_file source target disk p = disk p"
  by (simp add: rename_file_def)

lemma backup_run:
  assumes "vacuum_copies sqlite" and "disk source = Some (Database db)" and "integrity_check sqlite db = ''ok''"
    and "source \<notin> set (database_files (output @ ''.tmp''))"
  shows "backup_database sqlite source output disk = (Inr (), [''Backup created: '' @ output],
    rename_file (output @ ''.tmp'') output (((remove_database_files (output @ ''.tmp'') disk)(output @ ''.tmp'' \<mapsto> Database db))
      (output := None)))"
  using checked_copy_ok [of sqlite disk source db, OF assms(1,2,4,3), of "''backup integrity check failed''"] assms(2)
  by (simp add: backup_database_def require_file_def sibling_with_suffix_def Let_def)

lemma restore_run:
  assumes "vacuum_copies sqlite" and "disk backup = Some (Database db)" and "integrity_check sqlite db = ''ok''"
    and "backup \<notin> set (database_files (target @ ''.restore-tmp''))" and "force \<or> disk target = None"
  shows "restore_database sqlite backup target force disk = (Inr (), [''Database restored: '' @ target],
    rename_file (target @ ''.restore-tmp'') target
      (let d = (remove_database_files (target @ ''.restore-tmp'') disk)(target @ ''.restore-tmp'' \<mapsto> Database db)
       in if force then remove_database_files target d else d))"
  using checked_copy_ok [of sqlite disk backup db, OF assms(1,2,4,3), of "''restored database integrity check failed''"]
    assms(2,3,5)
  by (auto simp: restore_database_def require_file_def sibling_with_suffix_def integrity_ok_def Let_def)

text \<open>C21: A backup restores what was backed up.  Backing up an intact database succeeds and leaves its file alone (unless
  the paths overlap); whatever happens to other files, as long as the backup stays, restoring it to a path without
  a file, or to any path with \<open>--force\<close>, succeeds and puts the same database there; with \<open>--force\<close> no write-ahead log
  of the database that it replaced is left.\<close>

theorem backup_restore_roundtrip:
  assumes "vacuum_copies sqlite" and "disk source = Some (Database db)" and "integrity_check sqlite db = ''ok''"
    and "source \<notin> set (database_files (output @ ''.tmp''))" and "output \<notin> set (database_files (target @ ''.restore-tmp''))"
  shows "\<exists>saved. dispatch_db init sqlite (BackupDb source output) disk = (Inr (), [''Backup created: '' @ output], saved) \<and>
    (source \<noteq> output \<longrightarrow> saved source = disk source) \<and>
    (\<forall>later force. later output = saved output \<and> (force \<or> later target = None) \<longrightarrow>
      (\<exists>restored. dispatch_db init sqlite (RestoreDb output target force) later =
          (Inr (), [''Database restored: '' @ target], restored) \<and>
        restored target = Some (Database db) \<and>
        (force \<longrightarrow> restored (target @ ''-wal'') = None \<and> restored (target @ ''-shm'') = None)))"
proof -
  let ?tmp = "output @ ''.tmp''"
  define saved where "saved = rename_file ?tmp output (((remove_database_files ?tmp disk)(?tmp \<mapsto> Database db))(output := None))"
  have run: "dispatch_db init sqlite (BackupDb source output) disk = (Inr (), [''Backup created: '' @ output], saved)"
    using backup_run [of sqlite disk source db "output", OF assms(1-4)] by (simp add: saved_def)
  have source: "source \<noteq> output \<longrightarrow> saved source = disk source"
    using assms(4) tmp_database_file [of ?tmp] by (auto simp: saved_def rename_file_def removed_files)
  have saved: "saved output = Some (Database db)" by (simp add: saved_def rename_file_def)
  have restores: "\<exists>restored. dispatch_db init sqlite (RestoreDb output target force) later =
        (Inr (), [''Database restored: '' @ target], restored) \<and> restored target = Some (Database db) \<and>
      (force \<longrightarrow> restored (target @ ''-wal'') = None \<and> restored (target @ ''-shm'') = None)"
    if "later output = saved output \<and> (force \<or> later target = None)" for later force
  proof -
    have "later output = Some (Database db)" "force \<or> later target = None" using that saved by simp_all
    from restore_run [where disk = later and backup = "output" and db = db and force = force, OF assms(1) this(1) assms(3,5) this(2)]
    show ?thesis by (simp add: rename_file_def removed_files Let_def database_files_def)
  qed
  show ?thesis using run source restores by blast
qed

text \<open>A sample SQLite over boards: opening creates a database without tables and copies are faithful.\<close>

definition sample_sqlite :: "board sqlite" where
  "sample_sqlite = \<lparr>fresh_database = no_tables, integrity_check = (\<lambda>_. ''ok''),
     vacuum = (\<lambda>db file. if file = None then (Inr (), Some (Database db)) else (Inl (CliMessage ''output file already exists''), file))\<rparr>"

lemma sample_sqlite_copies: "vacuum_copies sample_sqlite" "vacuum_only_copies sample_sqlite"
  "integrity_check sample_sqlite db = ''ok''"
  by (simp_all add: vacuum_copies_def vacuum_only_copies_def sample_sqlite_def)

theorem backup_restore_roundtrip_witness:
  "\<exists>saved. dispatch_db (initialize_board 5) sample_sqlite (BackupDb ''a.db'' ''b.db'') [''a.db'' \<mapsto> Database sample_admin_board] =
     (Inr (), [''Backup created: b.db''], saved) \<and>
   (\<exists>restored. dispatch_db (initialize_board 5) sample_sqlite (RestoreDb ''b.db'' ''c.db'' True) saved =
     (Inr (), [''Database restored: c.db''], restored) \<and> restored ''c.db'' = Some (Database sample_admin_board))"
  using backup_restore_roundtrip [OF sample_sqlite_copies(1), of "[''a.db'' \<mapsto> Database sample_admin_board]" "''a.db''"
      sample_admin_board "''b.db''" "''c.db''", OF _ sample_sqlite_copies(3)]
  by (simp add: database_files_def del: dispatch_db.simps) blast

section \<open>All or nothing\<close>

text \<open>C23: A restore is all or nothing, whatever SQLite does: without \<open>--force\<close> an existing target makes it fail and
  changes nothing; when it fails the files of the target are as they were; when it succeeds the target is a database
  that passed the integrity check.  But without \<open>--force\<close> it keeps the write-ahead log that a removed database left
  beside the target, which SQLite then applies to the restored database.\<close>

theorem restore_all_or_nothing:
  "(disk target \<noteq> None \<and> \<not> force \<longrightarrow>
      fst (dispatch_db init sqlite (RestoreDb backup target force) disk) \<noteq> Inr () \<and>
      snd (snd (dispatch_db init sqlite (RestoreDb backup target force) disk)) = disk) \<and>
   (\<forall>e. fst (dispatch_db init sqlite (RestoreDb backup target force) disk) = Inl e \<longrightarrow>
      (\<forall>p \<in> set (database_files target).
        snd (snd (dispatch_db init sqlite (RestoreDb backup target force) disk)) p = disk p)) \<and>
   (fst (dispatch_db init sqlite (RestoreDb backup target force) disk) = Inr () \<longrightarrow>
      (\<exists>db. snd (snd (dispatch_db init sqlite (RestoreDb backup target force) disk)) target = Some (Database db) \<and>
        integrity_check sqlite db = ''ok'') \<and>
      (\<not> force \<longrightarrow> snd (snd (dispatch_db init sqlite (RestoreDb backup target force) disk)) (target @ ''-wal'') = disk (target @ ''-wal'')))"
proof -
  let ?tmp = "target @ ''.restore-tmp''" and ?failure = "''restored database integrity check failed''"
  let ?copy = "checked_copy sqlite backup ?tmp ?failure disk"
  define out where "out = restore_database sqlite backup target force disk"
  have frame: "snd ?copy p = disk p" if "disk backup \<noteq> None" "p \<in> set (database_files target)" for p
    by (rule checked_copy_frame) (use that in \<open>auto simp: database_files_def\<close>)
  consider (early) e where "out = (Inl e, [], disk)"
    | (failed) e where "disk backup \<noteq> None" "out = (Inl e, [], snd ?copy)" "disk target = None \<or> force"
    | (restored) "disk backup \<noteq> None" "fst ?copy = Inr ()" "disk target = None \<or> force"
        "out = (Inr (), [''Database restored: '' @ target],
          rename_file ?tmp target (if force then remove_database_files target (snd ?copy) else snd ?copy))"
    unfolding out_def restore_database_def require_file_def sibling_with_suffix_def Let_def
    by (cases ?copy) (fastforce split: sum.splits if_splits)
  then show ?thesis
  proof cases
    case early
    then show ?thesis unfolding dispatch_db.simps out_def [symmetric] by simp
  next
    case failed
    then show ?thesis unfolding dispatch_db.simps out_def [symmetric] using frame by auto
  next
    case restored
    have "integrity_ok sqlite ?tmp (snd ?copy) = Inr True" by (rule checked_copy_checked [OF restored(2)])
    then obtain db where db: "snd ?copy ?tmp = Some (Database db)" "integrity_check sqlite db = ''ok''"
      by (auto simp: integrity_ok_def require_file_def split: option.splits disk_file.splits if_splits)
    have "snd (snd out) target = Some (Database db)"
      using restored(4) db(1) by (auto simp: rename_file_def removed_files database_files_def)
    moreover have "snd (snd out) (target @ ''-wal'') = disk (target @ ''-wal'')" if "\<not> force"
      using restored(4) that frame [OF restored(1), of "target @ ''-wal''"] by (simp add: rename_file_def database_files_def)
    ultimately show ?thesis unfolding dispatch_db.simps out_def [symmetric] using restored(3,4) db(2) by auto
  qed
qed

theorem restore_all_or_nothing_witness:
  "fst (dispatch_db (initialize_board 5) sample_sqlite (RestoreDb ''b.db'' ''a.db'' False)
     [''a.db'' \<mapsto> Database empty_board, ''b.db'' \<mapsto> Database sample_admin_board]) \<noteq> Inr ()"
  using restore_all_or_nothing [of "[''a.db'' \<mapsto> Database empty_board, ''b.db'' \<mapsto> Database sample_admin_board]" "''a.db''" False
      "initialize_board 5" sample_sqlite "''b.db''"]
  by (simp del: dispatch_db.simps)

section \<open>A copy of its own temporary file\<close>

lemma checked_copy_self:
  assumes "vacuum_only_copies sqlite" and "db \<noteq> fresh_database sqlite"
  shows "snd (checked_copy sqlite tmp tmp failure disk) tmp \<noteq> Some (Database db)"
proof (rule checked_copy_cases [of sqlite tmp tmp failure disk])
  have opened: "open_database sqlite tmp (remove_database_files tmp disk) = (Inr (fresh_database sqlite),
      (remove_database_files tmp disk)(tmp \<mapsto> Database (fresh_database sqlite)))"
    by (simp add: open_database_def removed_files database_files_def)
  { fix e
    assume "checked_copy sqlite tmp tmp failure disk = (Inl e, snd (open_database sqlite tmp (remove_database_files tmp disk)))"
    then show ?thesis using assms(2) by (simp add: opened) }
  fix db0 d r
  assume d: "d = snd (vacuum_into sqlite db0 tmp (snd (open_database sqlite tmp (remove_database_files tmp disk))))"
    and db0: "fst (open_database sqlite tmp (remove_database_files tmp disk)) = Inr db0"
    and r: "checked_copy sqlite tmp tmp failure disk = (r, d) \<or>
      checked_copy sqlite tmp tmp failure disk = (r, remove_database_files tmp d) \<and> r \<noteq> Inr ()"
  have "d tmp = snd (vacuum sqlite (fresh_database sqlite) (Some (Database (fresh_database sqlite))))"
    using db0 by (simp add: d opened vacuum_into_def case_prod_beta Let_def)
  then have "d tmp \<noteq> Some (Database db)" using assms unfolding vacuum_only_copies_def by auto
  then show ?thesis using r by (auto simp: removed_files tmp_database_file)
qed

text \<open>C38: Backing up \<open>x.tmp\<close> to \<open>x\<close>, or restoring \<open>x.restore-tmp\<close> to \<open>x\<close>, destroys the database: the command removes its
  own temporary files first, one of which is the source, and afterwards the database is at neither path, unless
  the old file at \<open>x\<close> was the same database.\<close>

theorem copying_temporary_destroys:
  assumes "vacuum_only_copies sqlite" and "db \<noteq> fresh_database sqlite" and "integrity_check sqlite db = ''ok''"
  shows "(disk (x @ ''.tmp'') = Some (Database db) \<longrightarrow>
      snd (snd (dispatch_db init sqlite (BackupDb (x @ ''.tmp'') x) disk)) (x @ ''.tmp'') \<noteq> Some (Database db) \<and>
      (snd (snd (dispatch_db init sqlite (BackupDb (x @ ''.tmp'') x) disk)) x = Some (Database db) \<longrightarrow>
        disk x = Some (Database db))) \<and>
    (disk (x @ ''.restore-tmp'') = Some (Database db) \<and> (disk x = None \<or> force) \<longrightarrow>
      snd (snd (dispatch_db init sqlite (RestoreDb (x @ ''.restore-tmp'') x force) disk)) (x @ ''.restore-tmp'') \<noteq> Some (Database db) \<and>
      (snd (snd (dispatch_db init sqlite (RestoreDb (x @ ''.restore-tmp'') x force) disk)) x = Some (Database db) \<longrightarrow>
        disk x = Some (Database db)))"
proof (intro conjI [of "_ \<longrightarrow> _"] impI)
  let ?tmp = "x @ ''.tmp''"
  let ?copy = "checked_copy sqlite ?tmp ?tmp ''backup integrity check failed'' disk"
  assume s: "disk ?tmp = Some (Database db)"
  have gone: "snd ?copy ?tmp \<noteq> Some (Database db)" by (rule checked_copy_self [OF assms(1,2)])
  have x: "snd ?copy x = disk x" by (rule checked_copy_frame) simp_all
  have run: "backup_database sqlite ?tmp x disk = (case ?copy of (Inl e, disk) \<Rightarrow> (Inl e, [], disk)
      | (Inr _, disk) \<Rightarrow> (Inr (), [''Backup created: '' @ x], rename_file ?tmp x (disk(x := None))))"
    by (simp add: backup_database_def require_file_def s sibling_with_suffix_def Let_def)
  show "snd (snd (dispatch_db init sqlite (BackupDb ?tmp x) disk)) ?tmp \<noteq> Some (Database db) \<and>
      (snd (snd (dispatch_db init sqlite (BackupDb ?tmp x) disk)) x = Some (Database db) \<longrightarrow> disk x = Some (Database db))"
    unfolding dispatch_db.simps run using gone x
    by (cases ?copy) (auto simp: rename_file_def split: sum.split)
next
  let ?tmp = "x @ ''.restore-tmp''"
  let ?copy = "checked_copy sqlite ?tmp ?tmp ''restored database integrity check failed'' disk"
  assume s: "disk ?tmp = Some (Database db) \<and> (disk x = None \<or> force)"
  have gone: "snd ?copy ?tmp \<noteq> Some (Database db)" by (rule checked_copy_self [OF assms(1,2)])
  have x: "snd ?copy x = disk x" by (rule checked_copy_frame) simp_all
  have run: "restore_database sqlite ?tmp x force disk = (case ?copy of (Inl e, disk) \<Rightarrow> (Inl e, [], disk)
      | (Inr _, disk) \<Rightarrow> (Inr (), [''Database restored: '' @ x],
          rename_file ?tmp x (if force then remove_database_files x disk else disk)))"
    using s assms(3) by (auto simp: restore_database_def require_file_def integrity_ok_def sibling_with_suffix_def Let_def)
  show "snd (snd (dispatch_db init sqlite (RestoreDb ?tmp x force) disk)) ?tmp \<noteq> Some (Database db) \<and>
      (snd (snd (dispatch_db init sqlite (RestoreDb ?tmp x force) disk)) x = Some (Database db) \<longrightarrow> disk x = Some (Database db))"
    unfolding dispatch_db.simps run using gone x
    by (cases ?copy) (auto simp: rename_file_def removed_files database_files_def split: sum.split)
qed

theorem copying_temporary_destroys_witness:
  "snd (snd (dispatch_db (initialize_board 5) sample_sqlite (BackupDb ''b.db.tmp'' ''b.db'') [''b.db.tmp'' \<mapsto> Database empty_board])) ''b.db.tmp'' \<noteq>
     Some (Database empty_board)"
proof -
  have "empty_board \<noteq> fresh_database sample_sqlite"
    by (simp add: sample_sqlite_def no_tables_def empty_board_def current_schema_def)
  from copying_temporary_destroys [OF sample_sqlite_copies(2) this sample_sqlite_copies(3),
      of "[''b.db.tmp'' \<mapsto> Database empty_board]" "''b.db''"]
  show ?thesis by (simp del: dispatch_db.simps)
qed

end
