(* ===== verification/Command_Line.thy ===== *)
theory Command_Line
  imports Participant_Admin Grant_Admin Execution_Command Database_Files
begin

text \<open>
  The administrative commands together (the commands of \<open>main.rs\<close> that work on database files).  A run is a sequence of
  commands, each a process of its own with its own clock, random bytes and arguments, on one disk.
\<close>

section \<open>Commands\<close>

text \<open>A command with what its process takes from outside: the file, the clock, the random bytes and the address builder.\<close>

datatype admin_command =
    DbCommand db_command int
  | IdentityCommand identity_command string int "(string \<times> string) list" "nat \<Rightarrow> string"
  | ParticipantCommand participant_command string int bytes "string \<Rightarrow> string \<Rightarrow> string \<Rightarrow> string option"
  | GrantCommand grant_command string int
  | ExecutionCommand execution_command string

fun run_admin_command ::
    "externals \<Rightarrow> board sqlite \<Rightarrow> admin_command \<Rightarrow> board disk \<Rightarrow> unit cli_result \<times> string list \<times> board disk" where
  "run_admin_command ext sqlite (DbCommand command now) disk = dispatch_db (initialize_board now) sqlite command disk"
| "run_admin_command ext sqlite (IdentityCommand command path now draws tokens) disk =
     dispatch_identity ext draws tokens now command path disk"
| "run_admin_command ext sqlite (ParticipantCommand command path now draw otpauth) disk =
     dispatch_participant ext otpauth draw now command path disk"
| "run_admin_command ext sqlite (GrantCommand command path now) disk = dispatch_grant now command path disk"
| "run_admin_command ext sqlite (ExecutionCommand command path) disk = dispatch_execution ext command path disk"

definition run_commands :: "externals \<Rightarrow> board sqlite \<Rightarrow> admin_command list \<Rightarrow> board disk \<Rightarrow> board disk" where
  "run_commands ext sqlite commands disk = fold (\<lambda>c d. snd (snd (run_admin_command ext sqlite c d))) commands disk"

section \<open>Databases stay sound\<close>

text \<open>What the commands need of SQLite: a vacuum makes nothing but copies, and opening a missing file makes a database
  without tables.\<close>

definition sqlite_sound :: "board sqlite \<Rightarrow> bool" where
  "sqlite_sound sqlite \<longleftrightarrow> vacuum_only_copies sqlite \<and> fresh_database sqlite = no_tables"

text \<open>A copy is admissible unless its source is one of its own temporary files.\<close>

fun command_ok :: "admin_command \<Rightarrow> bool" where
  "command_ok (DbCommand (BackupDb source out) now) \<longleftrightarrow> source \<notin> set (database_files (out @ ''.tmp''))"
| "command_ok (DbCommand (RestoreDb backup target force) now) \<longleftrightarrow> backup \<notin> set (database_files (target @ ''.restore-tmp''))"
| "command_ok _ \<longleftrightarrow> True"

lemma all_databases_removed: "all_databases P disk \<Longrightarrow> all_databases P (remove_database_files path disk)"
  by (simp add: all_databases_def removed_files)

lemma all_databases_moved: "all_databases P disk \<Longrightarrow> all_databases P (rename_file source target disk)"
  by (auto simp: all_databases_def rename_file_def)

lemma all_databases_erased: "all_databases P disk \<Longrightarrow> all_databases P (disk(path := None))"
  by (simp add: all_databases_def)

lemma checked_copy_keeps:
  assumes v: "vacuum_only_copies sqlite" and disk: "all_databases P disk"
    and s: "source \<notin> set (database_files tmp)" "disk source \<noteq> None"
  shows "all_databases P (snd (checked_copy sqlite source tmp failure disk))"
proof (rule checked_copy_cases [of sqlite source tmp failure disk])
  let ?d0 = "remove_database_files tmp disk"
  have d0: "all_databases P ?d0" by (rule all_databases_removed [OF disk])
  have "?d0 source \<noteq> None" using s by (simp add: removed_files)
  then have same: "snd (open_database sqlite source ?d0) = ?d0"
    by (auto simp: open_database_def split: disk_file.split)
  { fix e
    assume "checked_copy sqlite source tmp failure disk = (Inl e, snd (open_database sqlite source ?d0))"
    then show ?thesis using d0 by (simp add: same) }
  fix db d r
  assume d: "d = snd (vacuum_into sqlite db tmp (snd (open_database sqlite source ?d0)))"
    and db: "fst (open_database sqlite source ?d0) = Inr db"
    and r: "checked_copy sqlite source tmp failure disk = (r, d) \<or>
      checked_copy sqlite source tmp failure disk = (r, remove_database_files tmp d) \<and> r \<noteq> Inr ()"
  have "?d0 source = Some (Database db)"
    using db \<open>?d0 source \<noteq> None\<close> by (auto simp: open_database_def split: disk_file.splits)
  then have "P db" by (rule all_databasesD [OF d0])
  have "d = ?d0(tmp := snd (vacuum sqlite db (?d0 tmp)))" by (simp add: d same vacuum_into_def case_prod_beta Let_def)
  moreover have "P db'" if "snd (vacuum sqlite db (?d0 tmp)) = Some (Database db')" for db'
    using v that \<open>P db\<close> all_databasesD [OF d0, of tmp db'] unfolding vacuum_only_copies_def by blast
  ultimately have "all_databases P d" using d0 by (auto simp: all_databases_def)
  then show ?thesis using r all_databases_removed by auto
qed

lemma backup_keeps:
  assumes v: "vacuum_only_copies sqlite" and disk: "all_databases P disk" and s: "source \<notin> set (database_files (out @ ''.tmp''))"
  shows "all_databases P (snd (snd (backup_database sqlite source out disk)))"
proof (cases "disk source")
  case None
  then show ?thesis using disk by (simp add: backup_database_def require_file_def)
next
  case (Some f)
  let ?copy = "checked_copy sqlite source (out @ ''.tmp'') ''backup integrity check failed'' disk"
  have "all_databases P (snd ?copy)" by (rule checked_copy_keeps [OF v disk s]) (simp add: Some)
  moreover have "backup_database sqlite source out disk = (case ?copy of (Inl e, disk) \<Rightarrow> (Inl e, [], disk)
      | (Inr _, disk) \<Rightarrow> (Inr (), [''Backup created: '' @ out], rename_file (out @ ''.tmp'') out (disk(out := None))))"
    by (simp add: backup_database_def require_file_def Some sibling_with_suffix_def Let_def)
  ultimately show ?thesis
    by (cases ?copy) (simp add: all_databases_moved all_databases_erased split: sum.split)
qed

lemma restore_keeps:
  assumes v: "vacuum_only_copies sqlite" and disk: "all_databases P disk"
    and s: "backup \<notin> set (database_files (target @ ''.restore-tmp''))"
  shows "all_databases P (snd (snd (restore_database sqlite backup target force disk)))"
proof (cases "disk backup")
  case None
  then show ?thesis using disk by (simp add: restore_database_def require_file_def)
next
  case (Some f)
  let ?copy = "checked_copy sqlite backup (target @ ''.restore-tmp'') ''restored database integrity check failed'' disk"
  have "all_databases P (snd ?copy)" by (rule checked_copy_keeps [OF v disk s]) (simp add: Some)
  then have copied: "all_databases P (snd (snd (case ?copy of (Inl e, disk) \<Rightarrow> (Inl e, [] :: string list, disk)
      | (Inr _, disk) \<Rightarrow> (Inr (), [''Database restored: '' @ target],
          rename_file (target @ ''.restore-tmp'') target (if force then remove_database_files target disk else disk)))))"
    by (cases ?copy) (simp add: all_databases_moved all_databases_removed split: sum.split)
  show ?thesis
    unfolding restore_database_def require_file_def sibling_with_suffix_def Let_def
    using copied disk by (auto simp: Some split: sum.split)
qed

lemma init_keeps:
  assumes "sqlite_sound sqlite" and disk: "all_databases (reachable ext) disk"
  shows "all_databases (reachable ext) (snd (snd (dispatch_db (initialize_board now) sqlite (InitDb path) disk)))"
proof (cases "disk path")
  case None
  have "dispatch_db (initialize_board now) sqlite (InitDb path) disk =
      (Inr (), [''Database initialized: '' @ path], disk(path \<mapsto> Database empty_board))"
    using assms(1) None by (simp add: open_database_def sqlite_sound_def initialize_no_tables)
  then show ?thesis using all_databases_update [OF disk reachable.start] by simp
next
  case (Some f)
  show ?thesis
  proof (cases f)
    case (Database db)
    have r: "reachable ext db" using all_databasesD [OF disk] Some Database by blast
    have "dispatch_db (initialize_board now) sqlite (InitDb path) disk =
        (Inr (), [''Database initialized: '' @ path], disk(path \<mapsto> Database db))"
      by (simp add: open_database_def initialize_reachable [OF r] Some Database)
    then show ?thesis using all_databases_update [OF disk r] by simp
  next
    case OtherFile
    then show ?thesis using disk by (simp add: open_database_def Some)
  qed
qed

lemma dispatch_db_keeps:
  assumes sound: "sqlite_sound sqlite" and disk: "all_databases (reachable ext) disk" and ok: "command_ok (DbCommand c now)"
  shows "all_databases (reachable ext) (snd (snd (dispatch_db (initialize_board now) sqlite c disk)))"
proof (cases c)
  case (InitDb path)
  then show ?thesis using init_keeps [OF sound disk] by blast
next
  case (CheckDb path)
  then show ?thesis using disk by (auto split: sum.split bool.split)
next
  case (BackupDb source out)
  then show ?thesis using backup_keeps [of sqlite "reachable ext" disk source out] sound disk ok by (simp add: sqlite_sound_def)
next
  case (RestoreDb backup target force)
  then show ?thesis using restore_keeps [of sqlite "reachable ext" disk backup target force] sound disk ok
    by (simp add: sqlite_sound_def)
qed

interpretation sound_sqlite: command_family "reachable ext" "\<lambda>c. command_ok (DbCommand c now) \<and> sqlite_sound sqlite"
    "dispatch_db (initialize_board now) sqlite" for ext now sqlite
  by unfold_locales (simp add: dispatch_db_keeps)

lemma run_admin_command_keeps:
  assumes "sqlite_sound sqlite" and disk: "all_databases (reachable ext) disk" and "command_ok c"
  shows "all_databases (reachable ext) (snd (snd (run_admin_command ext sqlite c disk)))"
proof (cases c)
  case (DbCommand command now)
  then show ?thesis using sound_sqlite.keeps [of command now sqlite] assms by simp
next
  case (IdentityCommand command path now draws tokens)
  then show ?thesis
    using identity_commands.keeps [where ext = ext and c = "((draws, tokens, now, command), path)", OF TrueI disk] by (simp add: dispatch_identity_def)
next
  case (ParticipantCommand command path now draw otpauth)
  then show ?thesis
    using participant_commands.keeps [where ext = ext and otpauth = otpauth and c = "((draw, now, command), path)", OF TrueI disk] by (simp add: dispatch_participant_def)
next
  case (GrantCommand command path now)
  then show ?thesis
    using grant_commands.keeps [where ext = ext and c = "((path, now, command), path)", OF TrueI disk] by (simp add: dispatch_grant_def)
next
  case (ExecutionCommand command path)
  then show ?thesis using execution_commands.keeps [where ext = ext and c = "(command, path)", OF TrueI disk] by simp
qed

interpretation admin_commands: command_family "reachable ext" "\<lambda>c. command_ok c \<and> sqlite_sound sqlite"
    "run_admin_command ext sqlite" for ext sqlite
  by unfold_locales (simp add: run_admin_command_keeps)

text \<open>C20: Whatever sequence of administrative commands is run, with whatever arguments, clocks and random bytes and
  whether they succeed or fail, a disk whose databases are all reachable boards keeps that property, so the theorems about
  reachable boards apply to its databases; provided SQLite's vacuum makes nothing but copies, a missing file is opened as
  a database without tables, and no backup or restore copies one of its own temporary files.\<close>

theorem command_line_keeps_databases:
  assumes "sqlite_sound sqlite" and "all_databases (reachable ext) disk" and "\<forall>c \<in> set commands. command_ok c"
  shows "all_databases (reachable ext) (run_commands ext sqlite commands disk)"
  unfolding run_commands_def by (rule admin_commands.runs_keep) (use assms in simp_all)

lemma sample_sqlite_sound: "sqlite_sound sample_sqlite"
  using sample_sqlite_copies(2) by (simp add: sqlite_sound_def sample_sqlite_def)

theorem command_line_keeps_databases_witness:
  "all_databases (reachable sample_externals) (run_commands sample_externals sample_sqlite
     [DbCommand (InitDb ''a.db'') 3, DbCommand (BackupDb ''a.db'' ''b.db'') 4, GrantCommand VerifyGrants ''b.db'' 5] Map.empty)"
  by (rule command_line_keeps_databases [OF sample_sqlite_sound]) (simp_all add: all_databases_def database_files_def)

end
