(* ===== verification/Server.thy ===== *)
theory Server
  imports Mcp Github_Webhook History
begin

text \<open>
  The server as one program: the routers of \<open>http.rs\<close>, \<open>history.rs\<close>, \<open>access_api.rs\<close>, \<open>mcp.rs\<close>, \<open>github_webhook.rs\<close> and
  \<open>oidc.rs\<close>, merged as \<open>runtime.rs\<close> merges them, and its configuration.  A request comes with the readings of the clocks
  and the random draws at its arrival; serving a list of requests is serving them one after the other.

  The extractors that axum derives (query structs, JSON bodies, percent-decoding, limits of bodies) are arguments; a
  request they refuse is answered \<open>Rejected\<close> and reaches no handler.  Matching is that of axum: fixed segments are
  compared as they are sent, a parameter matches one non-empty segment, a HEAD request is served by the GET handler.
\<close>

section \<open>Requests and routers\<close>

datatype http_verb = GET | HEAD | POST | PATCH | DELETE | OPTIONS | OTHER_VERB

record http_request =
  rq_verb :: http_verb
  rq_path :: string
  rq_target :: string
  rq_query :: "(string \<times> string) list"
  rq_headers :: header_map
  rq_body :: bytes
  rq_unix :: nat
  rq_now :: int
  rq_draws :: "(string \<times> string) list"

datatype server_answer =
    ApiAnswer "response api"
  | TextAnswer "(nat \<times> string) api"
  | AccessAnswer access_response
  | McpAnswer "mcp_response panicking"
  | StaticFile string
  | Rejected
  | MethodNotAllowed

type_synonym handler = "board \<Rightarrow> server_answer \<times> board"

type_synonym methods = "(http_verb \<times> handler) list"

type_synonym router = "(string list \<Rightarrow> methods option) list"

definition reading :: "('a \<Rightarrow> server_answer) \<Rightarrow> (board \<Rightarrow> 'a) \<Rightarrow> handler" where
  "reading wrap f db = (wrap (f db), db)"

definition writing :: "('a \<Rightarrow> server_answer) \<Rightarrow> (board \<Rightarrow> 'a \<times> board) \<Rightarrow> handler" where
  "writing wrap f db = map_prod wrap id (f db)"

definition extracted :: "'a option \<Rightarrow> ('a \<Rightarrow> handler) \<Rightarrow> handler" where
  "extracted x h db = (case x of None \<Rightarrow> (Rejected, db) | Some v \<Rightarrow> h v db)"

fun split_slash :: "string \<Rightarrow> string list" where
  "split_slash [] = [[]]"
| "split_slash (c # cs) =
     (if c = CHR ''/'' then [] # split_slash cs
      else (case split_slash cs of s # ss \<Rightarrow> (c # s) # ss | [] \<Rightarrow> [[c]]))"

text \<open>A route at a fixed path, and one with a parameter between two fixed parts.\<close>

definition at :: "string list \<Rightarrow> methods \<Rightarrow> string list \<Rightarrow> methods option" where
  "at fixed methods path = (if path = fixed then Some methods else None)"

definition captured :: "string list \<Rightarrow> string list \<Rightarrow> string list \<Rightarrow> string option" where
  "captured before after path =
     (let i = length before in
      if length path = Suc i + length after \<and> take i path = before \<and> drop (Suc i) path = after \<and> path ! i \<noteq> []
      then Some (path ! i) else None)"

definition at_param :: "string list \<Rightarrow> string list \<Rightarrow> (string \<Rightarrow> methods) \<Rightarrow> string list \<Rightarrow> methods option" where
  "at_param before after methods path = map_option methods (captured before after path)"

fun find_route :: "router \<Rightarrow> string list \<Rightarrow> methods option" where
  "find_route [] path = None"
| "find_route (r # rs) path = (case r path of Some m \<Rightarrow> Some m | None \<Rightarrow> find_route rs path)"

definition find_method :: "methods \<Rightarrow> http_verb \<Rightarrow> handler option" where
  "find_method methods verb =
     (case map_of methods verb of
        Some h \<Rightarrow> Some h
      | None \<Rightarrow> if verb = HEAD then map_of methods GET else None)"

section \<open>Configuration\<close>

record runtime_config =
  rc_host :: string
  rc_port :: nat
  rc_db_path :: string
  rc_registration_key :: "string option"
  rc_mcp_resource_url :: "string option"

text \<open>\<open>str::parse\<close> of a \<open>u16\<close>.\<close>

definition parse_u16 :: "string \<Rightarrow> nat option" where
  "parse_u16 s = Option.bind (parse_usize s) (\<lambda>n. if n < 2 ^ 16 then Some n else None)"

definition first_given :: "'a option \<Rightarrow> 'a option \<Rightarrow> 'a \<Rightarrow> 'a" where
  "first_given x y z = (case x of Some v \<Rightarrow> v | None \<Rightarrow> (case y of Some v \<Rightarrow> v | None \<Rightarrow> z))"

definition from_env_with_overrides ::
    "(string \<Rightarrow> string option) \<Rightarrow> string option \<Rightarrow> nat option \<Rightarrow> string option \<Rightarrow> runtime_config" where
  "from_env_with_overrides env host port db_path =
     (let nonempty = (\<lambda>v. if v = [] then None else Some v) in
      \<lparr>rc_host = first_given host (env ''BLACKBOARD_HOST'') ''127.0.0.1'',
       rc_port = first_given port (Option.bind (env ''BLACKBOARD_PORT'') parse_u16) 8766,
       rc_db_path = first_given db_path (env ''BLACKBOARD_DB'') ''board.db'',
       rc_registration_key = Option.bind (env ''BLACKBOARD_REGISTRATION_KEY'') nonempty,
       rc_mcp_resource_url = Option.bind (map_option trim (env ''BLACKBOARD_MCP_RESOURCE_URL'')) nonempty\<rparr>)"

record extractors =
  window_query_of :: "(string \<times> string) list \<Rightarrow> message_window_query option"
  history_query_of :: "(string \<times> string) list \<Rightarrow> history_query option"
  decision_query_of :: "(string \<times> string) list \<Rightarrow> decision_query option"
  policy_query_of :: "(string \<times> string) list \<Rightarrow> policy_query option"
  durable_body_of :: "header_map \<Rightarrow> bytes \<Rightarrow> durable_create option"
  delegated_body_of :: "header_map \<Rightarrow> bytes \<Rightarrow> delegated_create option"
  raw_body_of :: "bytes \<Rightarrow> bytes option"
  param_of :: "string \<Rightarrow> string option"

text \<open>What the running server holds: the process key of the sessions, the registration key, the extractors, the parsers
  and the configuration of the webhook, the JWT library with the verifier, and the library and the state of MCP.\<close>

record server =
  sv_key :: bytes
  sv_registration_key :: "string option"
  sv_extract :: extractors
  sv_github_parsers :: github_parsers
  sv_github :: github_webhook_state
  sv_jwt :: jwt_library
  sv_oidc :: "oidc_verifier option"
  sv_mcp_library :: mcp_library
  sv_mcp :: mcp_http_state
  sv_render :: "tool_answer \<Rightarrow> json"

section \<open>The routers\<close>

text \<open>\<open>health\<close> asks the database for a row; on a board it is there.\<close>

definition health :: "response api" where "health = Inr (200, json_object [(''status'', JStr ''ok'')])"

definition http_app :: "externals \<Rightarrow> server \<Rightarrow> http_request \<Rightarrow> router" where
  "http_app ext sv rq =
     (let key = sv_key sv; unix = rq_unix rq; now = rq_now rq; headers = rq_headers rq; target = rq_target rq;
          query = rq_query rq; body = rq_body rq; param = param_of (sv_extract sv) in
      [at [[]] [(GET, reading StaticFile (\<lambda>_. ''index.html''))],
       at [''app.js''] [(GET, reading StaticFile (\<lambda>_. ''app.js''))],
       at [''style.css''] [(GET, reading StaticFile (\<lambda>_. ''style.css''))],
       at [''utcp''] [(GET, reading StaticFile (\<lambda>_. ''utcp.json''))],
       at_param [''r''] [] (\<lambda>p. [(GET, extracted (param p) (\<lambda>channel.
         reading TextAnswer (navigation_read ext channel query)))]),
       at_param [''w''] [] (\<lambda>p. [(GET, extracted (param p) (\<lambda>participant_id.
         writing TextAnswer (navigation_write ext now participant_id query)))]),
       at [''api'', ''health''] [(GET, reading ApiAnswer (\<lambda>_. health))],
       at [''api'', ''auth'', ''totp''] [(POST, writing ApiAnswer (auth_totp ext key unix now body))],
       at [''api'', ''auth'', ''guest''] [(POST, reading ApiAnswer (\<lambda>_. Inr (auth_guest ext key unix)))],
       at [''api'', ''whoami''] [(GET, reading ApiAnswer (whoami ext key unix headers))],
       at [''api'', ''messages'']
         [(GET, reading ApiAnswer (messages_handler ext key unix headers target query)),
          (POST, writing ApiAnswer (post_message ext key unix now headers body))],
       at [''api'', ''channels''] [(GET, reading ApiAnswer (channels_handler ext key unix headers target query))],
       at [''api'', ''admin'', ''channels'']
         [(GET, reading ApiAnswer (admin_channels ext key unix headers query)),
          (POST, writing ApiAnswer (admin_create_channel ext key unix now headers body))],
       at_param [''api'', ''admin'', ''channels''] [] (\<lambda>p. [(PATCH, extracted (param p) (\<lambda>channel.
         writing ApiAnswer (admin_update_channel ext key unix now headers channel body)))]),
       at [''api'', ''register'']
         [(POST, writing ApiAnswer (register ext now (sv_registration_key sv) (rq_draws rq) headers body))]])"

definition history_app :: "externals \<Rightarrow> server \<Rightarrow> http_request \<Rightarrow> router" where
  "history_app ext sv rq =
     [at [''api'', ''messages'', ''window'']
        [(GET, extracted (window_query_of (sv_extract sv) (rq_query rq)) (\<lambda>q.
          reading ApiAnswer (message_window ext (sv_key sv) (rq_unix rq) (rq_headers rq) (rq_target rq) q)))]]"

definition access_app :: "externals \<Rightarrow> server \<Rightarrow> http_request \<Rightarrow> router" where
  "access_app ext sv rq =
     (let key = sv_key sv; unix = rq_unix rq; now = rq_now rq; headers = rq_headers rq; target = rq_target rq;
          x = sv_extract sv; param = param_of x; param_id = (\<lambda>p. Option.bind (param_of x p) parse_i64) in
      [at [''api'', ''access-context''] [(GET, reading AccessAnswer (access_context ext key unix now headers target))],
       at_param [''api'', ''executions''] [] (\<lambda>p. [(GET, extracted (param p) (\<lambda>i.
         reading AccessAnswer (execution_receipt_handler ext key unix headers target i)))]),
       at_param [''api'', ''executions''] [''audit''] (\<lambda>p. [(GET, extracted (param p) (\<lambda>i.
         reading AccessAnswer (execution_audit ext key unix now headers target i)))]),
       at_param [''api'', ''executions''] [''audit'', ''integrity''] (\<lambda>p. [(GET, extracted (param p) (\<lambda>i.
         reading AccessAnswer (execution_audit_integrity ext key unix now headers target i)))]),
       at [''api'', ''execution-audit'', ''sweep'']
         [(GET, reading AccessAnswer (execution_audit_sweep ext key unix now headers target))],
       at [''api'', ''authorization-policy''] [(GET, extracted (policy_query_of x (rq_query rq)) (\<lambda>q.
         reading AccessAnswer (authorization_policy ext key unix now headers target q)))],
       at [''api'', ''authorization-policy'', ''integrity'']
         [(GET, reading AccessAnswer (authorization_policy_integrity ext key unix now headers target))],
       at [''api'', ''authorization-decision'', ''explain''] [(GET, extracted (decision_query_of x (rq_query rq)) (\<lambda>q.
         reading AccessAnswer (authorization_decision_explain ext key unix now headers target q)))],
       at [''api'', ''authorization-administration'', ''history''] [(GET, extracted (history_query_of x (rq_query rq)) (\<lambda>q.
         reading AccessAnswer (authorization_administration_history ext key unix now headers target q)))],
       at [''api'', ''authorization-grants'', ''durable''] [(POST, extracted (durable_body_of x headers (rq_body rq)) (\<lambda>b.
         writing AccessAnswer (create_durable_authorization_grant ext key unix now headers target b)))],
       at_param [''api'', ''authorization-grants'', ''durable''] [] (\<lambda>p. [(DELETE, extracted (param_id p) (\<lambda>i.
         writing AccessAnswer (deactivate_durable_authorization_grant ext key unix now headers target i)))]),
       at [''api'', ''authorization-grants'', ''delegated''] [(POST, extracted (delegated_body_of x headers (rq_body rq)) (\<lambda>b.
         writing AccessAnswer (create_delegated_authorization_grant ext key unix now headers target b)))],
       at_param [''api'', ''authorization-grants'', ''delegated''] [] (\<lambda>p. [(DELETE, extracted (param_id p) (\<lambda>i.
         writing AccessAnswer (deactivate_delegated_authorization_grant ext key unix now headers target i)))])])"

definition mcp_delete :: "mcp_library \<Rightarrow> header_map \<Rightarrow> mcp_response" where
  "mcp_delete lib headers = plain_status (if origin_allowed lib headers then 405 else 403)"

definition mcp_app :: "externals \<Rightarrow> server \<Rightarrow> http_request \<Rightarrow> router" where
  "mcp_app ext sv rq =
     (let lib = sv_mcp_library sv; headers = rq_headers rq in
      at [''mcp'']
        [(POST, writing McpAnswer
            (mcp_post ext lib (sv_jwt sv) (sv_render sv) (sv_mcp sv) (rq_now rq) headers (rq_body rq))),
         (GET, reading McpAnswer (\<lambda>_. Returns (mcp_get lib headers))),
         (DELETE, reading McpAnswer (\<lambda>_. Returns (mcp_delete lib headers))),
         (OPTIONS, reading McpAnswer (\<lambda>_. Returns (mcp_options lib headers)))] #
      (case ms_protected_resource (sv_mcp sv) of
         None \<Rightarrow> []
       | Some config \<Rightarrow> [at (split_slash (tl (pr_metadata_path config)))
           [(GET, reading McpAnswer (\<lambda>_. Returns (protected_resource_metadata (sv_mcp sv))))]]))"

definition github_app :: "externals \<Rightarrow> server \<Rightarrow> http_request \<Rightarrow> router" where
  "github_app ext sv rq =
     [at [''integrations'', ''github'', ''issues''] [(POST, extracted (raw_body_of (sv_extract sv) (rq_body rq)) (\<lambda>body.
        writing ApiAnswer (github_issue_webhook ext (sv_github_parsers sv) (sv_github sv) (rq_now rq) (rq_headers rq) body)))]]"

definition oidc_app :: "externals \<Rightarrow> server \<Rightarrow> http_request \<Rightarrow> router" where
  "oidc_app ext sv rq =
     (case sv_oidc sv of
        None \<Rightarrow> []
      | Some v \<Rightarrow> [at_param [''api'', ''oidc'', ''messages''] [] (\<lambda>p. [(POST, extracted (param_of (sv_extract sv) p) (\<lambda>participant_id.
          writing ApiAnswer (oidc_post_message ext (sv_jwt sv) v (rq_now rq) participant_id (rq_headers rq) (rq_body rq))))])])"

section \<open>Serving\<close>

definition server_app :: "externals \<Rightarrow> server \<Rightarrow> http_request \<Rightarrow> router" where
  "server_app ext sv rq =
     http_app ext sv rq @ history_app ext sv rq @ access_app ext sv rq @ mcp_app ext sv rq @ github_app ext sv rq @
     oidc_app ext sv rq"

definition not_found :: server_answer where "not_found = ApiAnswer (Inl (404, ''not_found''))"

definition serve_request :: "externals \<Rightarrow> server \<Rightarrow> http_request \<Rightarrow> board \<Rightarrow> server_answer \<times> board" where
  "serve_request ext sv rq db =
     (case find_route (server_app ext sv rq) (split_slash (tl (rq_path rq))) of
        None \<Rightarrow> (not_found, db)
      | Some methods \<Rightarrow>
          (case find_method methods (rq_verb rq) of
             None \<Rightarrow> (MethodNotAllowed, db)
           | Some h \<Rightarrow> h db))"

definition serve_requests :: "externals \<Rightarrow> server \<Rightarrow> http_request list \<Rightarrow> board \<Rightarrow> board" where
  "serve_requests ext sv rqs db = fold (\<lambda>rq db. snd (serve_request ext sv rq db)) rqs db"

section \<open>Facts about routing\<close>

definition route_ok :: "(http_verb \<Rightarrow> handler \<Rightarrow> bool) \<Rightarrow> string list \<Rightarrow> (string list \<Rightarrow> methods option) \<Rightarrow> bool" where
  "route_ok P path r \<longleftrightarrow> (\<forall>ms. r path = Some ms \<longrightarrow> (\<forall>(v, h) \<in> set ms. P v h))"

lemma route_ok_at [simp]: "route_ok P path (at fixed ms) \<longleftrightarrow> (path = fixed \<longrightarrow> (\<forall>(v, h) \<in> set ms. P v h))"
  by (auto simp: route_ok_def at_def)

lemma route_ok_param [simp]:
  "route_ok P path (at_param before after f) \<longleftrightarrow>
     (\<forall>p. captured before after path = Some p \<longrightarrow> (\<forall>(v, h) \<in> set (f p). P v h))"
  by (auto simp: route_ok_def at_param_def)

lemma find_route_ok: "list_all (route_ok P path) rs \<Longrightarrow> find_route rs path = Some ms \<Longrightarrow> (v, h) \<in> set ms \<Longrightarrow> P v h"
  by (induction rs) (auto simp: route_ok_def split: option.splits)

lemma serve_request_ok:
  assumes "list_all (route_ok P (split_slash (tl (rq_path rq)))) (server_app ext sv rq)"
  obtains "snd (serve_request ext sv rq db) = db"
  | v h where "P v h" "serve_request ext sv rq db = h db" "v = rq_verb rq \<or> rq_verb rq = HEAD \<and> v = GET"
proof -
  have "\<exists>v. (v, h) \<in> set ms \<and> (v = verb \<or> verb = HEAD \<and> v = GET)" if "find_method ms verb = Some h" for ms verb h
    using that by (auto simp: find_method_def dest: map_of_SomeD split: option.splits if_splits)
  then show thesis using that find_route_ok [OF assms] by (fastforce simp: serve_request_def split: option.splits)
qed

definition pure :: "handler \<Rightarrow> bool" where "pure h \<longleftrightarrow> (\<forall>db. snd (h db) = db)"

lemma pure_reading [simp]: "pure (reading wrap f)"
  by (simp add: pure_def reading_def)

lemma pure_extracted: "(\<And>v. pure (h v)) \<Longrightarrow> pure (extracted x h)"
  by (simp add: pure_def extracted_def split: option.split)

section \<open>Every handler is a run of steps\<close>

definition steps_only :: "externals \<Rightarrow> handler \<Rightarrow> bool" where
  "steps_only ext h \<longleftrightarrow> (\<forall>db. reachable ext db \<longrightarrow> (board_step ext)\<^sup>*\<^sup>* db (snd (h db)))"

lemma steps_pure: "pure h \<Longrightarrow> steps_only ext h"
  by (simp add: steps_only_def pure_def)

lemma steps_extracted: "(\<And>v. steps_only ext (h v)) \<Longrightarrow> steps_only ext (extracted x h)"
  by (auto simp: steps_only_def extracted_def split: option.split)

lemma steps_writing:
  "(\<And>db. reachable ext db \<Longrightarrow> (board_step ext)\<^sup>*\<^sup>* db (snd (f db))) \<Longrightarrow> steps_only ext (writing wrap f)"
  by (simp add: steps_only_def writing_def)

lemma administration_steps: "(board_step ext)\<^sup>*\<^sup>* db (snd (administration_handler ext key unix now headers target r db))"
proof -
  obtain answer db' where a: "administration_handler ext key unix now headers target r db = (answer, db')" by fastforce
  show ?thesis
    using a step_star [OF board_step.administer, of ext db now] by (cases rule: administration_handler_cases [OF a]) auto
qed

lemmas grant_steps =
  administration_steps [where r = "DurableCreate b" for b, simplified]
  administration_steps [where r = "DelegatedCreate b" for b, simplified]
  administration_steps [where r = "DurableDeactivate i" for i, simplified]
  administration_steps [where r = "DelegatedDeactivate i" for i, simplified]

lemma oidc_steps:
  assumes "reachable ext db"
  shows "(board_step ext)\<^sup>*\<^sup>* db (snd (oidc_post_message ext jwt v now participant_id headers body db))"
  using oidc.serve_run [of ext db jwt v now "(participant_id, headers, body)"]
    oidc_post_nonblank [OF assms, of jwt v now participant_id headers body] by auto

lemma mcp_steps:
  assumes "reachable ext db"
  shows "(board_step ext)\<^sup>*\<^sup>* db (snd (mcp_post ext lib jwt render state now headers body db))"
proof (cases "snd (mcp_post ext lib jwt render state now headers body db) = db")
  case False
  then obtain request transport where t: "resolve_http_bearer_principal jwt state headers = Inr transport"
      "snd (mcp_post ext lib jwt render state now headers body db) = snd (tool_call ext now request transport db)"
    using mcp_post_board [of ext lib jwt render state now headers body db] by auto
  then obtain arguments where a: "snd (tool_call ext now request transport db) = snd (blackboard_write ext now arguments transport db)"
    using tool_call_effect [OF assms, of now request transport] False by auto
  have "described_caller transport" by (rule bearer_write_described [OF assms t(1), of now arguments]) (use t(2) a False in simp)
  then show ?thesis using blackboard_write_steps a t(2) by simp
qed simp

lemmas server_apps = server_app_def http_app_def history_app_def access_app_def mcp_app_def github_app_def oidc_app_def Let_def

definition navigation_path :: "http_request \<Rightarrow> bool" where
  "navigation_path rq \<longleftrightarrow> captured [''w''] [] (split_slash (tl (rq_path rq))) \<noteq> None"

lemma server_app_steps:
  assumes "\<not> navigation_path rq"
  shows "list_all (route_ok (\<lambda>_. steps_only ext) (split_slash (tl (rq_path rq)))) (server_app ext sv rq)"
  using assms
  by (simp add: server_apps navigation_path_def steps_pure steps_extracted steps_writing post_message_steps
      auth_totp_steps register_steps admin_create_steps admin_update_steps grant_steps github_webhook_steps oidc_steps mcp_steps
      split: option.split)

lemma server_app_pure:
  assumes "\<not> navigation_path rq"
  shows "list_all (route_ok (\<lambda>v h. v \<in> {GET, HEAD, OPTIONS} \<longrightarrow> pure h) (split_slash (tl (rq_path rq)))) (server_app ext sv rq)"
  using assms
  by (simp add: server_apps navigation_path_def pure_extracted split: option.split)

section \<open>Properties\<close>

lemma reachable_audits_valid:
  assumes "reachable ext db"
  shows "sr_valid (sweep_execution_audit_integrity ext db)"
    and "r \<in> set (execution_receipts db) \<Longrightarrow> r_status r = ''committed'' \<and>
      ar_valid (verify_execution_audit_integrity ext db (r_participant_id r) (r_intent_id r))"
proof -
  have ev: "evidence_wf ext db" and k: "keys_wf db" "audit_tables db"
    using reachable_system_wf [OF assms] by (simp_all add: system_wf_def evidence_wf_def)
  show "sr_valid (sweep_execution_audit_integrity ext db)"
    using sweep_valid [OF k, of ext] ev by (simp add: evidence_wf_def)
  show "r_status r = ''committed'' \<and> ar_valid (verify_execution_audit_integrity ext db (r_participant_id r) (r_intent_id r))"
    if "r \<in> set (execution_receipts db)"
    using verify_valid [OF k that, of ext] ev that by (simp add: evidence_wf_def execution_evidenced_def)
qed

text \<open>C18: Safe methods are safe, except for navigation writes.  A GET, HEAD or OPTIONS request of any path other than
  \<open>/w/{participant_id}\<close> leaves the board as it is, whatever it carries and however it is answered.\<close>

theorem safe_methods_change_nothing:
  assumes "rq_verb rq \<in> {GET, HEAD, OPTIONS}" and "\<not> navigation_path rq"
  shows "snd (serve_request ext sv rq db) = db"
proof (rule serve_request_ok [OF server_app_pure [OF assms(2)], of ext sv db])
  fix v h
  assume "v \<in> {GET, HEAD, OPTIONS} \<longrightarrow> pure h" "serve_request ext sv rq db = h db"
    "v = rq_verb rq \<or> rq_verb rq = HEAD \<and> v = GET"
  then show ?thesis using assms(1) by (auto simp: pure_def)
qed

lemma serve_request_steps:
  assumes "\<not> navigation_path rq" and "reachable ext db"
  shows "(board_step ext)\<^sup>*\<^sup>* db (snd (serve_request ext sv rq db))"
proof (rule serve_request_ok [OF server_app_steps [OF assms(1)], of ext sv db])
  fix v h
  assume "steps_only ext h" "serve_request ext sv rq db = h db"
  then show ?thesis using assms(2) by (simp add: steps_only_def)
qed simp

lemma serve_requests_steps:
  assumes "\<forall>rq \<in> set rqs. \<not> navigation_path rq"
  shows "reachable ext db \<Longrightarrow> (board_step ext)\<^sup>*\<^sup>* db (serve_requests ext sv rqs db)"
  using assms
proof (induction rqs arbitrary: db)
  case (Cons rq rqs)
  have s: "(board_step ext)\<^sup>*\<^sup>* db (snd (serve_request ext sv rq db))"
    using serve_request_steps Cons.prems by simp
  then show ?case
    using Cons.IH [OF reachable_run [OF s Cons.prems(1)]] Cons.prems(2) by (simp add: serve_requests_def)
qed (simp add: serve_requests_def)

text \<open>C17: The server keeps its board sound.  Whatever requests arrive, in any order, with any headers and bodies and at
  any time, none of them a navigation write: the board stays reachable, the message log only grows, every committed
  execution keeps its receipt, and the sweep and the audits of all executions are valid at the end.\<close>

theorem served_boards_sound:
  assumes "reachable ext db" and "\<forall>rq \<in> set rqs. \<not> navigation_path rq"
  shows "reachable ext (serve_requests ext sv rqs db) \<and>
    (\<exists>ms. messages (serve_requests ext sv rqs db) = messages db @ ms) \<and>
    set (execution_receipts db) \<subseteq> set (execution_receipts (serve_requests ext sv rqs db)) \<and>
    sr_valid (sweep_execution_audit_integrity ext (serve_requests ext sv rqs db)) \<and>
    (\<forall>r \<in> set (execution_receipts (serve_requests ext sv rqs db)).
       ar_valid (verify_execution_audit_integrity ext (serve_requests ext sv rqs db) (r_participant_id r) (r_intent_id r)))"
proof -
  have run: "(board_step ext)\<^sup>*\<^sup>* db (serve_requests ext sv rqs db)" by (rule serve_requests_steps [OF assms(2,1)])
  then have r: "reachable ext (serve_requests ext sv rqs db)" by (rule reachable_run [OF _ assms(1)])
  show ?thesis
    using r reachable_audits_valid [OF r] run_keeps [OF run reachable_system_wf [OF assms(1)]] by auto
qed

definition sample_extract :: extractors where
  "sample_extract = \<lparr>window_query_of = (\<lambda>_. None), history_query_of = (\<lambda>_. None), decision_query_of = (\<lambda>_. None),
     policy_query_of = (\<lambda>_. None), durable_body_of = (\<lambda>_ _. None), delegated_body_of = (\<lambda>_ _. None), raw_body_of = Some,
     param_of = Some\<rparr>"

definition sample_server :: server where
  "sample_server = \<lparr>sv_key = [1], sv_registration_key = Some ''k'', sv_extract = sample_extract,
     sv_github_parsers = sample_parsers, sv_github = \<lparr>gs_webhook_secret = None, gs_repository_id = None\<rparr>, sv_jwt = sample_jwt,
     sv_oidc = Some sample_verifier, sv_mcp_library = sample_library,
     sv_mcp = \<lparr>ms_oidc_verifier = None, ms_protected_resource = None\<rparr>, sv_render = (\<lambda>_. JNull)\<rparr>"

definition sample_http_request :: "http_verb \<Rightarrow> string \<Rightarrow> http_request" where
  "sample_http_request verb path = \<lparr>rq_verb = verb, rq_path = path, rq_target = path, rq_query = [],
     rq_headers = [(''x-registration-key'', ''k'')], rq_body = [1], rq_unix = 9, rq_now = 9, rq_draws = [(''i-1'', ''tok'')]\<rparr>"

lemma sample_paths:
  "split_slash (tl ''/api/register'') = [''api'', ''register'']" "split_slash (tl ''/api/whoami'') = [''api'', ''whoami'']"
  by simp_all

lemma sample_not_navigation:
  "\<not> navigation_path (sample_http_request verb ''/api/register'')" "\<not> navigation_path (sample_http_request verb ''/api/whoami'')"
  by (simp_all add: navigation_path_def sample_http_request_def captured_def)

theorem safe_methods_change_nothing_witness:
  "snd (serve_request sample_externals sample_server (sample_http_request HEAD ''/api/register'') sample_hmac_board) = sample_hmac_board \<and>
   snd (serve_request sample_externals sample_server (sample_http_request GET ''/api/whoami'') sample_hmac_board) = sample_hmac_board"
  using safe_methods_change_nothing [of "sample_http_request HEAD ''/api/register''"]
    safe_methods_change_nothing [of "sample_http_request GET ''/api/whoami''"] sample_not_navigation
  by (simp add: sample_http_request_def)

definition sample_registration :: json_map where
  "sample_registration = [(''source'', JStr ''maker'')]"

theorem served_boards_sound_witness:
  "let ext = body_externals sample_registration;
       db = serve_requests ext sample_server [sample_http_request POST ''/api/register'', sample_http_request GET ''/api/whoami''] empty_board
   in length (identities db) = 1 \<and> reachable ext db \<and> sr_valid (sweep_execution_audit_integrity ext db)"
proof -
  let ?ext = "body_externals sample_registration" and ?rq = "sample_http_request POST ''/api/register''"
  let ?rq' = "sample_http_request GET ''/api/whoami''"
  have v: "validate_source ''maker'' = Some ''maker''" and k: "header_to_str ''k'' = Some ''k''" by code_simp+
  obtain who db where r: "register_identity ?ext 9 ''maker'' None [(''i-1'', ''tok'')] empty_board = (Inr (Some (who, ''tok'')), db)"
      and one: "length (identities db) = 1"
    by (simp add: register_identity_def v normalize_label_def empty_board_def)
  have "snd (register ?ext 9 (Some ''k'') [(''i-1'', ''tok'')] [(''x-registration-key'', ''k'')] [1] empty_board) = db"
    using v k r body_externals_faithful(4) [of sample_registration]
    by (simp add: register_def constant_time_text_eq_def sample_registration_def normalize_label_def)
  then have "snd (serve_request ?ext sample_server ?rq empty_board) = db"
    by (simp add: serve_request_def server_apps sample_http_request_def at_def at_param_def captured_def find_method_def writing_def
        sample_server_def)
  moreover have "snd (serve_request ?ext sample_server ?rq' db) = db"
    using safe_methods_change_nothing [of ?rq'] sample_not_navigation by (simp add: sample_http_request_def)
  ultimately have s: "serve_requests ?ext sample_server [?rq, ?rq'] empty_board = db" by (simp add: serve_requests_def)
  from served_boards_sound [OF reachable.start, of "[?rq, ?rq']" ?ext sample_server] sample_not_navigation
  show ?thesis using one by (simp add: s Let_def)
qed

end
