(* ===== verification/Adapter_Profile.thy ===== *)
theory Adapter_Profile
  imports Server
begin

text \<open>
  The adapter profiles (\<open>adapter_profile.rs\<close>): what each way into the board is called, over which transport it comes and
  what it offers.  At run time only the name of the MCP adapter is read; the lemmas relate the profiles to the routes.
\<close>

record adapter_profile =
  ap_name :: string
  ap_transport :: string
  ap_capabilities :: "string list"
  ap_asynchronous :: bool

definition REST_PROFILE :: adapter_profile where
  "REST_PROFILE = \<lparr>ap_name = ''rest'', ap_transport = ''http'',
     ap_capabilities = [''read_messages'', ''post_message'', ''access_context'', ''execution_receipt'', ''execution_audit'',
       ''execution_audit_integrity'', ''manage_channels''], ap_asynchronous = False\<rparr>"

definition MCP_PROFILE :: adapter_profile where
  "MCP_PROFILE = \<lparr>ap_name = ''mcp'', ap_transport = ''streamable-http'',
     ap_capabilities = [''read_messages'', ''post_message'', ''access_context'', ''execution_receipt'', ''execution_audit'',
       ''execution_audit_integrity''], ap_asynchronous = False\<rparr>"

definition GITHUB_MAILBOX :: adapter_profile where
  "GITHUB_MAILBOX = \<lparr>ap_name = ''github-mailbox'', ap_transport = ''github-issues-webhook'', ap_capabilities = [''post_message''],
     ap_asynchronous = True\<rparr>"

definition CLI_PROFILE :: adapter_profile where
  "CLI_PROFILE = \<lparr>ap_name = ''cli'', ap_transport = ''native-process'',
     ap_capabilities = [''participant_admin'', ''database_admin'', ''client_projection''], ap_asynchronous = False\<rparr>"

definition PROFILES :: "adapter_profile list" where "PROFILES = [REST_PROFILE, MCP_PROFILE, GITHUB_MAILBOX, CLI_PROFILE]"

definition profile :: "string \<Rightarrow> adapter_profile option" where "profile name = find (\<lambda>p. ap_name p = name) PROFILES"

lemmas profile_defs = PROFILES_def REST_PROFILE_def MCP_PROFILE_def GITHUB_MAILBOX_def CLI_PROFILE_def

text \<open>A profile is found by its name and by no other.\<close>

lemma profile_found: "p \<in> set PROFILES \<Longrightarrow> profile (ap_name p) = Some p"
  unfolding PROFILES_def list.set by (elim insertE emptyE; simp only: profile_def; simp add: profile_defs)

lemma profile_iff: "profile name = Some p \<longleftrightarrow> p \<in> set PROFILES \<and> ap_name p = name"
proof
  assume "profile name = Some p"
  then show "p \<in> set PROFILES \<and> ap_name p = name"
    unfolding profile_def find_Some_iff by (metis nth_mem)
qed (use profile_found in blast)

text \<open>The asynchronous adapter is the one that answers no request of its author: it can post and nothing else.\<close>

lemma asynchronous_posts_only: "p \<in> set PROFILES \<Longrightarrow> ap_asynchronous p \<Longrightarrow> ap_capabilities p = [''post_message'']"
  by (auto simp: profile_defs)

text \<open>Every read that the MCP profile offers the REST profile offers too, by a route that exists for every server.\<close>

lemma mcp_offers_rest: "set (ap_capabilities MCP_PROFILE) \<subseteq> set (ap_capabilities REST_PROFILE)"
  by (simp add: profile_defs)

lemma rest_routes_exist:
  "find_route (server_app ext sv rq) [''api'', ''messages''] \<noteq> None"
  "find_route (server_app ext sv rq) [''api'', ''access-context''] \<noteq> None"
  "find_route (server_app ext sv rq) [''api'', ''executions'', ''i''] \<noteq> None"
  "find_route (server_app ext sv rq) [''api'', ''executions'', ''i'', ''audit''] \<noteq> None"
  "find_route (server_app ext sv rq) [''api'', ''executions'', ''i'', ''audit'', ''integrity''] \<noteq> None"
  "find_route (server_app ext sv rq) [''api'', ''admin'', ''channels''] \<noteq> None"
  by (simp_all add: server_apps at_def at_param_def captured_def)

end
