(* ===== verification/Runtime.thy ===== *)
theory Runtime
  imports Server
begin

text \<open>
  Starting the server (\<open>runtime.rs\<close>): the environment becomes the configuration, the OIDC verifier is set up from the
  configured issuer (\<open>OidcState::from_env\<close>), the MCP state from the resource URL, and the routers get both.

  The environment is a function.  The URL library, and the downloads of the discovery document and of the key set with
  their deserializers, are arguments, as is whether the address can be bound.  Opening the database is in the theory
  \<open>Migration\<close>.
\<close>

section \<open>Libraries\<close>

record url =
  url_scheme :: string
  url_host :: "string option"
  url_path :: string
  url_query :: "string option"
  url_fragment :: "string option"
  url_text :: string

text \<open>\<open>Url::parse\<close>; the text of a URL with another path and without query and fragment; the two downloads.\<close>

record startup_library =
  parse_address :: "string \<Rightarrow> url option"
  text_with_path :: "url \<Rightarrow> string \<Rightarrow> string"
  discovery_document :: "string \<Rightarrow> (string \<times> string) option"
  key_set :: "string \<Rightarrow> (string option \<times> string option) list option"

type_synonym 'a startup = "string + 'a"

definition library_failure :: string where "library_failure = ''library error''"

section \<open>OIDC\<close>

definition without_end_slashes :: "string \<Rightarrow> string" where
  "without_end_slashes v = rev (dropWhile (\<lambda>c. c = CHR ''/'') (rev v))"

definition validate_https_url :: "startup_library \<Rightarrow> string \<Rightarrow> unit startup" where
  "validate_https_url lib v =
     (case parse_address lib v of
        None \<Rightarrow> Inl library_failure
      | Some u \<Rightarrow>
          if url_scheme u \<noteq> ''https'' \<or> url_host u = None then Inl ''OIDC URLs must use https'' else Inr ())"

definition not_blank :: "string option \<Rightarrow> string option" where
  "not_blank x = Option.bind x (\<lambda>v. if blank v then None else Some v)"

definition jwks_url :: "startup_library \<Rightarrow> (string \<Rightarrow> string option) \<Rightarrow> string \<Rightarrow> string startup" where
  "jwks_url lib env issuer =
     (case not_blank (env ''BLACKBOARD_OIDC_JWKS_URL'') of
        Some address \<Rightarrow> try_bind (validate_https_url lib address) (\<lambda>_. Inr address)
      | None \<Rightarrow>
          (case discovery_document lib (issuer @ ''/.well-known/openid-configuration'') of
             None \<Rightarrow> Inl library_failure
           | Some (named, address) \<Rightarrow>
               if without_end_slashes named \<noteq> issuer then Inl ''OIDC discovery issuer mismatch''
               else try_bind (validate_https_url lib address) (\<lambda>_. Inr address)))"

definition oidc_from_env :: "startup_library \<Rightarrow> (string \<Rightarrow> string option) \<Rightarrow> oidc_verifier option startup" where
  "oidc_from_env lib env =
     (case (not_blank (env ''BLACKBOARD_OIDC_ISSUER''), not_blank (env ''BLACKBOARD_OIDC_AUDIENCE'')) of
        (Some configured, Some audience) \<Rightarrow>
          (let issuer = without_end_slashes configured in
           try_bind (validate_https_url lib issuer) (\<lambda>_.
           try_bind (jwks_url lib env issuer) (\<lambda>address.
           case key_set lib address of
             None \<Rightarrow> Inl library_failure
           | Some jwks \<Rightarrow>
               (case from_jwks issuer audience jwks of
                  None \<Rightarrow> Inl ''OIDC JWKS contains no usable keyed signing keys''
                | Some v \<Rightarrow> Inr (Some v)))))
      | _ \<Rightarrow>
          if env ''BLACKBOARD_OIDC_ISSUER'' \<noteq> None \<or> env ''BLACKBOARD_OIDC_AUDIENCE'' \<noteq> None
          then Inl ''BLACKBOARD_OIDC_ISSUER and BLACKBOARD_OIDC_AUDIENCE must be configured together'' else Inr None)"

section \<open>MCP\<close>

definition protected_resource_parse :: "startup_library \<Rightarrow> string \<Rightarrow> protected_resource_config startup" where
  "protected_resource_parse lib resource =
     (case parse_address lib resource of
        None \<Rightarrow> Inl library_failure
      | Some u \<Rightarrow>
          if url_scheme u \<noteq> ''https'' \<or> url_host u = None \<or> url_fragment u \<noteq> None
          then Inl ''BLACKBOARD_MCP_RESOURCE_URL must be an absolute HTTPS URL without a fragment''
          else if url_query u \<noteq> None then Inl ''BLACKBOARD_MCP_RESOURCE_URL must not contain a query''
          else let metadata_path = ''/.well-known/oauth-protected-resource'' @ (if url_path u = ''/'' then [] else url_path u)
               in Inr \<lparr>pr_resource = url_text u, pr_metadata_path = metadata_path,
                    pr_metadata_url = text_with_path lib u metadata_path\<rparr>)"

definition mcp_state :: "startup_library \<Rightarrow> oidc_verifier option \<Rightarrow> string option \<Rightarrow> mcp_http_state startup" where
  "mcp_state lib verifier resource_url =
     try_bind (case resource_url of
         None \<Rightarrow> Inr None | Some resource \<Rightarrow> map_sum id Some (protected_resource_parse lib resource)) (\<lambda>resource.
     if resource \<noteq> None \<and> verifier = None then Inl ''BLACKBOARD_MCP_RESOURCE_URL requires OIDC configuration''
     else Inr \<lparr>ms_oidc_verifier = verifier, ms_protected_resource = resource\<rparr>)"

section \<open>Starting\<close>

text \<open>The parts that come with the program rather than from its environment, and the random key of the process.\<close>

record program_parts =
  pp_key :: bytes
  pp_extract :: extractors
  pp_github_parsers :: github_parsers
  pp_jwt :: jwt_library
  pp_mcp_library :: mcp_library
  pp_render :: "tool_answer \<Rightarrow> json"

definition start_server ::
    "startup_library \<Rightarrow> program_parts \<Rightarrow> (string \<Rightarrow> nat \<Rightarrow> bool) \<Rightarrow> (string \<Rightarrow> string option) \<Rightarrow> runtime_config \<Rightarrow> server startup" where
  "start_server lib parts binds env config =
     (if \<not> binds (rc_host config) (rc_port config) then Inl library_failure
      else try_bind (oidc_from_env lib env) (\<lambda>verifier.
        try_bind (mcp_state lib verifier (rc_mcp_resource_url config)) (\<lambda>state.
        Inr \<lparr>sv_key = pp_key parts, sv_registration_key = rc_registration_key config, sv_extract = pp_extract parts,
          sv_github_parsers = pp_github_parsers parts, sv_github = github_webhook_from_env env, sv_jwt = pp_jwt parts,
          sv_oidc = verifier, sv_mcp_library = pp_mcp_library parts, sv_mcp = state, sv_render = pp_render parts\<rparr>)))"

text \<open>\<open>run_interactive\<close>.\<close>

definition run_interactive ::
    "startup_library \<Rightarrow> program_parts \<Rightarrow> (string \<Rightarrow> nat \<Rightarrow> bool) \<Rightarrow> (string \<Rightarrow> string option)
     \<Rightarrow> string option \<Rightarrow> nat option \<Rightarrow> string option \<Rightarrow> server startup" where
  "run_interactive lib parts binds env host port db_path =
     start_server lib parts binds env (from_env_with_overrides env host port db_path)"

section \<open>Properties\<close>

definition https :: "startup_library \<Rightarrow> string \<Rightarrow> bool" where
  "https lib address \<longleftrightarrow> (\<exists>u. parse_address lib address = Some u \<and> url_scheme u = ''https'' \<and> url_host u \<noteq> None)"

lemma validated_https: "validate_https_url lib v = Inr u \<longleftrightarrow> https lib v"
  by (auto simp: validate_https_url_def https_def split: option.split)

lemma without_end_slashes_end: "without_end_slashes v = [] \<or> last (without_end_slashes v) \<noteq> CHR ''/''"
proof (cases "dropWhile (\<lambda>c. c = CHR ''/'') (rev v)")
  case (Cons c cs)
  then have "c \<noteq> CHR ''/''" using hd_dropWhile [of "\<lambda>c. c = CHR ''/''" "rev v"] by auto
  then show ?thesis using Cons by (simp add: without_end_slashes_def)
qed (simp add: without_end_slashes_def)

lemma without_end_slashes_idem: "without_end_slashes (without_end_slashes v) = without_end_slashes v"
  by (simp add: without_end_slashes_def dropWhile_idem)

text \<open>Where the keys of an issuer come from: the configured address, or the discovery document of the issuer itself.\<close>

definition keys_source :: "startup_library \<Rightarrow> (string \<Rightarrow> string option) \<Rightarrow> string \<Rightarrow> string \<Rightarrow> bool" where
  "keys_source lib env issuer address \<longleftrightarrow> https lib address \<and>
     (case not_blank (env ''BLACKBOARD_OIDC_JWKS_URL'') of
        Some configured \<Rightarrow> address = configured
      | None \<Rightarrow> \<exists>named. discovery_document lib (issuer @ ''/.well-known/openid-configuration'') = Some (named, address) \<and>
          without_end_slashes named = issuer)"

lemma jwks_url_Inr: "jwks_url lib env issuer = Inr address \<longleftrightarrow> keys_source lib env issuer address"
  by (auto simp: jwks_url_def keys_source_def try_bind_Inr validated_https split: option.splits if_splits)

lemma from_jwks_fields:
  "from_jwks issuer audience jwks = Some v \<Longrightarrow> ov_issuer v = issuer \<and> ov_audience v = audience \<and> ov_keys v \<noteq> []"
  by (auto simp: from_jwks_def Let_def split: if_splits)

lemma oidc_from_env_Some:
  "oidc_from_env lib env = Inr (Some v) \<longleftrightarrow>
     (\<exists>configured audience address jwks. not_blank (env ''BLACKBOARD_OIDC_ISSUER'') = Some configured \<and>
        not_blank (env ''BLACKBOARD_OIDC_AUDIENCE'') = Some audience \<and> https lib (without_end_slashes configured) \<and>
        keys_source lib env (without_end_slashes configured) address \<and> key_set lib address = Some jwks \<and>
        from_jwks (without_end_slashes configured) audience jwks = Some v)"
  by (auto simp: oidc_from_env_def Let_def try_bind_Inr validated_https jwks_url_Inr split: option.splits if_splits)

lemma oidc_from_env_None:
  "oidc_from_env lib env = Inr None \<longleftrightarrow> env ''BLACKBOARD_OIDC_ISSUER'' = None \<and> env ''BLACKBOARD_OIDC_AUDIENCE'' = None"
  by (auto simp: oidc_from_env_def Let_def try_bind_Inr not_blank_def split: option.splits if_splits)


definition sample_startup :: startup_library where
  "sample_startup = \<lparr>parse_address = (\<lambda>v. Some \<lparr>url_scheme = ''https'', url_host = Some ''id.example'', url_path = ''/'',
       url_query = None, url_fragment = None, url_text = v\<rparr>),
     text_with_path = (\<lambda>u path. url_text u @ path), discovery_document = (\<lambda>_. Some (''https://id.example/'', ''https://id.example/keys'')),
     key_set = (\<lambda>_. Some [(Some ''k1'', Some ''key'')])\<rparr>"

definition sample_parts :: program_parts where
  "sample_parts = \<lparr>pp_key = [1], pp_extract = sample_extract, pp_github_parsers = sample_parsers, pp_jwt = sample_jwt,
     pp_mcp_library = sample_library, pp_render = (\<lambda>_. JNull)\<rparr>"

definition sample_env :: "string \<Rightarrow> string option" where
  "sample_env = [''BLACKBOARD_OIDC_ISSUER'' \<mapsto> ''https://id.example//'', ''BLACKBOARD_OIDC_AUDIENCE'' \<mapsto> ''board'',
     ''BLACKBOARD_MCP_RESOURCE_URL'' \<mapsto> '' https://board.example/mcp '']"

lemma sample_env_values:
  "sample_env ''BLACKBOARD_OIDC_ISSUER'' = Some ''https://id.example//''" "sample_env ''BLACKBOARD_OIDC_AUDIENCE'' = Some ''board''"
  "sample_env ''BLACKBOARD_MCP_RESOURCE_URL'' = Some '' https://board.example/mcp ''" "sample_env ''BLACKBOARD_OIDC_JWKS_URL'' = None"
  by (simp_all add: sample_env_def)


end
