(* ===== verification/Client.thy ===== *)
theory Client
  imports Server Cli
begin

text \<open>
  The client of the REST API (\<open>client.rs\<close>), its command line (\<open>client_cli.rs\<close>) and the verification of an endpoint
  (\<open>admin.rs\<close>).  A request is sent over a network that is a function of the request and of the state behind it; it
  answers with a status and a body, or fails.  The URL library and the pretty printer are arguments.  A derived
  deserializer is written out: a struct is read from an object, whose unknown fields are ignored, or from an array
  of its fields; a missing optional field is \<open>None\<close>.  The body of a post is given by its JSON value.
\<close>

section \<open>Requests and answers\<close>

record client_error =
  ce_status :: "nat option"
  ce_code :: string

type_synonym 'a client = "client_error + 'a"

definition local_error :: "string \<Rightarrow> client_error" where
  "local_error code = \<lparr>ce_status = None, ce_code = code\<rparr>"

definition http_error :: "nat \<Rightarrow> string \<Rightarrow> client_error" where
  "http_error status code = \<lparr>ce_status = Some status, ce_code = code\<rparr>"

definition client_error_text :: "client_error \<Rightarrow> string" where
  "client_error_text e =
     (case ce_status e of
        Some status \<Rightarrow> ''blackboard HTTP '' @ show_nat status @ '': '' @ ce_code e
      | None \<Rightarrow> ''blackboard client: '' @ ce_code e)"

record client_request =
  cq_verb :: http_verb
  cq_url :: string
  cq_query :: "(string \<times> string) list"
  cq_token :: "string option"
  cq_body :: "json option"

type_synonym 's network = "client_request \<Rightarrow> 's \<Rightarrow> (nat \<times> bytes) option \<times> 's"

text \<open>\<open>Url::parse\<close> with its scheme, \<open>Url::join\<close>, and whether the HTTP library builds a client.\<close>

record url_library =
  parse_url :: "string \<Rightarrow> (string \<times> string) option"
  join_url :: "string \<Rightarrow> string \<Rightarrow> string option"
  builds_client :: bool

record blackboard_client =
  bc_base_url :: string
  bc_token :: string

definition with_end_slash :: "string \<Rightarrow> string" where
  "with_end_slash raw = rev (dropWhile (\<lambda>c. c = CHR ''/'') (rev (trim raw))) @ ''/''"

definition new_client :: "url_library \<Rightarrow> string \<Rightarrow> string \<Rightarrow> blackboard_client client" where
  "new_client lib base_url token =
     (if token = [] then Inl (local_error ''empty bearer token'')
      else case parse_url lib (with_end_slash base_url) of
        None \<Rightarrow> Inl (local_error ''invalid endpoint URL'')
      | Some (scheme, url) \<Rightarrow>
          (if scheme \<notin> {''http'', ''https''} then Inl (local_error ''endpoint URL must use http or https'')
           else if \<not> builds_client lib then Inl (local_error ''failed to build HTTP client'')
           else Inr \<lparr>bc_base_url = url, bc_token = token\<rparr>))"

definition client_url :: "url_library \<Rightarrow> blackboard_client \<Rightarrow> string \<Rightarrow> string client" where
  "client_url lib client path =
     (case join_url lib (bc_base_url client) path of
        None \<Rightarrow> Inl (local_error ''failed to build endpoint URL'')
      | Some url \<Rightarrow> Inr url)"

section \<open>Deserializers\<close>

definition struct_fields :: "string list \<Rightarrow> json \<Rightarrow> (string \<times> json) list option" where
  "struct_fields names v =
     (case v of
        JObj entries \<Rightarrow> Some entries
      | JArr vs \<Rightarrow> if length vs = length names then Some (zip names vs) else None
      | _ \<Rightarrow> None)"

definition required :: "(json \<Rightarrow> 'a option) \<Rightarrow> (string \<times> json) list \<Rightarrow> string \<Rightarrow> 'a option" where
  "required f entries name = Option.bind (map_of entries name) f"

definition optional :: "(json \<Rightarrow> 'a option) \<Rightarrow> (string \<times> json) list \<Rightarrow> string \<Rightarrow> 'a option option" where
  "optional f entries name =
     (case map_of entries name of
        None \<Rightarrow> Some None
      | Some JNull \<Rightarrow> Some None
      | Some v \<Rightarrow> map_option Some (f v))"

fun vector :: "(json \<Rightarrow> 'a option) \<Rightarrow> json list \<Rightarrow> 'a list option" where
  "vector f [] = Some []"
| "vector f (v # vs) = (case f v of None \<Rightarrow> None | Some x \<Rightarrow> map_option ((#) x) (vector f vs))"

definition vector_field :: "(json \<Rightarrow> 'a option) \<Rightarrow> (string \<times> json) list \<Rightarrow> string \<Rightarrow> 'a list option" where
  "vector_field f entries name = (case map_of entries name of Some (JArr vs) \<Rightarrow> vector f vs | _ \<Rightarrow> None)"

definition message_names :: "string list" where
  "message_names = [''id'', ''created_at'', ''channel'', ''source'', ''instance'', ''conversation_ref'', ''kind'', ''body'', ''reply_to'']"

definition read_message :: "json \<Rightarrow> message option" where
  "read_message v =
     Option.bind (struct_fields message_names v) (\<lambda>e.
     Option.bind (required as_i64 e ''id'') (\<lambda>id'.
     Option.bind (required as_i64 e ''created_at'') (\<lambda>created_at.
     Option.bind (required as_str e ''channel'') (\<lambda>channel.
     Option.bind (required as_str e ''source'') (\<lambda>source.
     Option.bind (required as_str e ''instance'') (\<lambda>instance_id.
     Option.bind (optional as_str e ''conversation_ref'') (\<lambda>conversation_ref.
     Option.bind (required as_str e ''kind'') (\<lambda>kind.
     Option.bind (required as_str e ''body'') (\<lambda>message_body.
     Option.bind (optional as_i64 e ''reply_to'') (\<lambda>reply_to.
       Some \<lparr>m_id = id', m_created_at = created_at, m_channel = channel, m_source = source, m_instance = instance_id,
         m_conversation_ref = conversation_ref, m_kind = kind, m_body = message_body, m_reply_to = reply_to\<rparr>))))))))))"

definition read_identity :: "json \<Rightarrow> identity option" where
  "read_identity v =
     Option.bind (struct_fields [''source'', ''instance'', ''label''] v) (\<lambda>e.
     Option.bind (required as_str e ''source'') (\<lambda>source.
     Option.bind (required as_str e ''instance'') (\<lambda>instance_id.
     Option.bind (optional as_str e ''label'') (\<lambda>label.
       Some \<lparr>id_source = source, id_instance = instance_id, id_label = label\<rparr>))))"

text \<open>A summary that the client reads has a signed message count.\<close>

record client_channel =
  cc_channel :: string
  cc_message_count :: int
  cc_last_id :: int
  cc_visibility :: string
  cc_status :: string
  cc_created_at :: int
  cc_updated_at :: int
  cc_created_by :: "string option"

definition channel_names :: "string list" where
  "channel_names = [''channel'', ''message_count'', ''last_id'', ''visibility'', ''status'', ''created_at'', ''updated_at'', ''created_by'']"

definition read_channel :: "json \<Rightarrow> client_channel option" where
  "read_channel v =
     Option.bind (struct_fields channel_names v) (\<lambda>e.
     Option.bind (required as_str e ''channel'') (\<lambda>channel.
     Option.bind (required as_i64 e ''message_count'') (\<lambda>message_count.
     Option.bind (required as_i64 e ''last_id'') (\<lambda>last_id.
     Option.bind (required as_str e ''visibility'') (\<lambda>visibility.
     Option.bind (required as_str e ''status'') (\<lambda>status.
     Option.bind (required as_i64 e ''created_at'') (\<lambda>created_at.
     Option.bind (required as_i64 e ''updated_at'') (\<lambda>updated_at.
     Option.bind (optional as_str e ''created_by'') (\<lambda>created_by.
       Some \<lparr>cc_channel = channel, cc_message_count = message_count, cc_last_id = last_id, cc_visibility = visibility,
         cc_status = status, cc_created_at = created_at, cc_updated_at = updated_at, cc_created_by = created_by\<rparr>)))))))))"

definition read_health :: "json \<Rightarrow> string option" where
  "read_health v = Option.bind (struct_fields [''status''] v) (\<lambda>e. required as_str e ''status'')"

definition read_channels :: "json \<Rightarrow> client_channel list option" where
  "read_channels v = Option.bind (struct_fields [''channels''] v) (\<lambda>e. vector_field read_channel e ''channels'')"

definition read_messages :: "json \<Rightarrow> message list option" where
  "read_messages v = Option.bind (struct_fields [''messages''] v) (\<lambda>e. vector_field read_message e ''messages'')"

definition read_post :: "json \<Rightarrow> message option" where
  "read_post v = Option.bind (struct_fields [''message''] v) (\<lambda>e. required read_message e ''message'')"

definition read_error :: "json \<Rightarrow> string option option" where
  "read_error v = Option.bind (struct_fields [''error''] v) (\<lambda>e. optional as_str e ''error'')"

section \<open>Operations\<close>

definition is_success :: "nat \<Rightarrow> bool" where "is_success status \<longleftrightarrow> 200 \<le> status \<and> status < 300"

definition request_json ::
    "externals \<Rightarrow> (json \<Rightarrow> 'a option) \<Rightarrow> (nat \<times> bytes) option \<Rightarrow> bool \<Rightarrow> 'a client" where
  "request_json ext decode response authenticated =
     (case response of
        None \<Rightarrow> Inl (local_error (if authenticated then ''authenticated request failed'' else ''request failed''))
      | Some (status, body) \<Rightarrow>
          (if \<not> is_success status
           then Inl (http_error status
             (case Option.bind (json_from_slice ext body) read_error of
                Some (Some code) \<Rightarrow> code
              | _ \<Rightarrow> ''http_error''))
           else case Option.bind (json_from_slice ext body) decode of
                  None \<Rightarrow> Inl (local_error ''invalid JSON response'')
                | Some x \<Rightarrow> Inr x))"

text \<open>A request to a path of the board; nothing is sent when the address cannot be built.\<close>

definition exchange ::
    "externals \<Rightarrow> url_library \<Rightarrow> 's network \<Rightarrow> blackboard_client \<Rightarrow> http_verb \<Rightarrow> string \<Rightarrow> (string \<times> string) list \<Rightarrow> bool \<Rightarrow> json option
     \<Rightarrow> (json \<Rightarrow> 'a option) \<Rightarrow> 's \<Rightarrow> 'a client \<times> 's" where
  "exchange ext lib net client verb path query authenticated body decode s =
     (case client_url lib client path of
        Inl e \<Rightarrow> (Inl e, s)
      | Inr url \<Rightarrow>
          (let (response, s') = net \<lparr>cq_verb = verb, cq_url = url, cq_query = query,
             cq_token = (if authenticated then Some (bc_token client) else None), cq_body = body\<rparr> s
           in (request_json ext decode response authenticated, s')))"

definition client_health ::
    "externals \<Rightarrow> url_library \<Rightarrow> 's network \<Rightarrow> blackboard_client \<Rightarrow> 's \<Rightarrow> unit client \<times> 's" where
  "client_health ext lib net client s =
     (case exchange ext lib net client GET ''api/health'' [] False None read_health s of
        (Inl e, s') \<Rightarrow> (Inl e, s')
      | (Inr status, s') \<Rightarrow>
          (if status = ''ok'' then Inr () else Inl (local_error ''unexpected health response''), s'))"

definition client_whoami ::
    "externals \<Rightarrow> url_library \<Rightarrow> 's network \<Rightarrow> blackboard_client \<Rightarrow> 's \<Rightarrow> identity client \<times> 's" where
  "client_whoami ext lib net client = exchange ext lib net client GET ''api/whoami'' [] True None read_identity"

definition client_channels ::
    "externals \<Rightarrow> url_library \<Rightarrow> 's network \<Rightarrow> blackboard_client \<Rightarrow> 's \<Rightarrow> client_channel list client \<times> 's" where
  "client_channels ext lib net client = exchange ext lib net client GET ''api/channels'' [] True None read_channels"

definition messages_query :: "int \<Rightarrow> string option \<Rightarrow> nat \<Rightarrow> (string \<times> string) list" where
  "messages_query after channel limit =
     [(''after'', int_to_string after), (''limit'', show_nat limit)] @
     (case channel of Some c \<Rightarrow> [(''channel'', c)] | None \<Rightarrow> [])"

definition client_messages ::
    "externals \<Rightarrow> url_library \<Rightarrow> 's network \<Rightarrow> blackboard_client \<Rightarrow> int \<Rightarrow> string option \<Rightarrow> nat \<Rightarrow> 's \<Rightarrow> message list client \<times> 's" where
  "client_messages ext lib net client after channel limit s =
     (if after < 0 then (Inl (local_error ''after must be >= 0''), s)
      else if \<not> (1 \<le> limit \<and> limit \<le> 200) then (Inl (local_error ''limit must be between 1 and 200''), s)
      else exchange ext lib net client GET ''api/messages'' (messages_query after channel limit) True None read_messages s)"

definition post_json :: "string \<Rightarrow> string \<Rightarrow> string \<Rightarrow> int option \<Rightarrow> json" where
  "post_json channel kind body reply_to = json_object
     [(''channel'', JStr channel), (''kind'', JStr kind), (''body'', JStr body), (''reply_to'', json_opt JInt reply_to)]"

definition client_post ::
    "externals \<Rightarrow> url_library \<Rightarrow> 's network \<Rightarrow> blackboard_client \<Rightarrow> string \<Rightarrow> string \<Rightarrow> string \<Rightarrow> int option \<Rightarrow> 's
     \<Rightarrow> message client \<times> 's" where
  "client_post ext lib net client channel kind body reply_to =
     exchange ext lib net client POST ''api/messages'' [] True (Some (post_json channel kind body reply_to)) read_post"

section \<open>The command line\<close>

datatype client_command =
    ClientHealth
  | ClientWhoami
  | ClientChannels
  | ClientRead int "string option" nat
  | ClientPost string string string "int option"

definition identity_value :: "identity \<Rightarrow> json" where
  "identity_value who = JObj [(''source'', JStr (id_source who)), (''instance'', JStr (id_instance who)),
     (''label'', json_opt JStr (id_label who))]"

definition message_value :: "message \<Rightarrow> json" where
  "message_value m = JObj [(''id'', JInt (m_id m)), (''created_at'', JInt (m_created_at m)), (''channel'', JStr (m_channel m)),
     (''source'', JStr (m_source m)), (''instance'', JStr (m_instance m)),
     (''conversation_ref'', json_opt JStr (m_conversation_ref m)), (''kind'', JStr (m_kind m)),
     (''body'', JStr (m_body m)), (''reply_to'', json_opt JInt (m_reply_to m))]"

definition channel_value :: "client_channel \<Rightarrow> json" where
  "channel_value c = JObj [(''channel'', JStr (cc_channel c)), (''message_count'', JInt (cc_message_count c)),
     (''last_id'', JInt (cc_last_id c)), (''visibility'', JStr (cc_visibility c)), (''status'', JStr (cc_status c)),
     (''created_at'', JInt (cc_created_at c)), (''updated_at'', JInt (cc_updated_at c)),
     (''created_by'', json_opt JStr (cc_created_by c))]"

text \<open>\<open>print_json\<close> of what an operation answered; a failure becomes the text of the error.\<close>

definition print_json :: "(json \<Rightarrow> string) \<Rightarrow> ('a \<Rightarrow> json) \<Rightarrow> 'a client \<times> 's \<Rightarrow> unit cli_result \<times> string list \<times> 's" where
  "print_json pretty value r =
     (case r of
        (Inl e, s) \<Rightarrow> (Inl (CliMessage (client_error_text e)), [], s)
      | (Inr x, s) \<Rightarrow> (Inr (), [pretty (value x)], s))"

fun run_client_command ::
    "externals \<Rightarrow> url_library \<Rightarrow> (json \<Rightarrow> string) \<Rightarrow> 's network \<Rightarrow> blackboard_client \<Rightarrow> client_command \<Rightarrow> 's
     \<Rightarrow> unit cli_result \<times> string list \<times> 's" where
  "run_client_command ext lib pretty net client ClientHealth s =
     print_json pretty (\<lambda>_. JObj [(''status'', JStr ''ok'')]) (client_health ext lib net client s)"
| "run_client_command ext lib pretty net client ClientWhoami s =
     print_json pretty identity_value (client_whoami ext lib net client s)"
| "run_client_command ext lib pretty net client ClientChannels s =
     print_json pretty (\<lambda>cs. JArr (map channel_value cs)) (client_channels ext lib net client s)"
| "run_client_command ext lib pretty net client (ClientRead after channel limit) s =
     print_json pretty (\<lambda>ms. JArr (map message_value ms)) (client_messages ext lib net client after channel limit s)"
| "run_client_command ext lib pretty net client (ClientPost channel kind body reply_to) s =
     print_json pretty message_value (client_post ext lib net client channel kind body reply_to s)"

text \<open>The environment: \<open>BLACKBOARD_URL\<close> and \<open>BLACKBOARD_TOKEN\<close>; whether the timeout is a positive finite number.\<close>

definition dispatch_client ::
    "externals \<Rightarrow> url_library \<Rightarrow> (json \<Rightarrow> string) \<Rightarrow> 's network \<Rightarrow> string option \<Rightarrow> string option \<Rightarrow> string option \<Rightarrow> bool \<Rightarrow> client_command
     \<Rightarrow> 's \<Rightarrow> unit cli_result \<times> string list \<times> 's" where
  "dispatch_client ext lib pretty net url env_url env_token timeout_ok command s =
     (if \<not> timeout_ok then (Inl (CliMessage ''--timeout must be > 0''), [], s)
      else case env_token of
        None \<Rightarrow> (Inl (CliMessage ''missing BLACKBOARD_TOKEN''), [], s)
      | Some token \<Rightarrow>
          (case new_client lib (or_else url (or_else env_url ''http://127.0.0.1:8766'')) token of
             Inl e \<Rightarrow> (Inl (CliMessage (client_error_text e)), [], s)
           | Inr client \<Rightarrow> run_client_command ext lib pretty net client command s))"


section \<open>Verifying an endpoint\<close>

record verify_args =
  va_url :: "string option"
  va_expect_source :: "string option"
  va_expect_instance :: "string option"
  va_channel :: "string option"
  va_after :: int
  va_limit :: nat
  va_timeout_ok :: bool

text \<open>The text of an error of the HTTP library is the argument \<open>library_error\<close>.\<close>

definition json_response :: "externals \<Rightarrow> string \<Rightarrow> (nat \<times> bytes) option \<Rightarrow> json cli_result" where
  "json_response ext library_error response =
     (case response of
        None \<Rightarrow> Inl (CliMessage library_error)
      | Some (status, body) \<Rightarrow>
          (if \<not> is_success status then Inl (CliMessage (''endpoint returned HTTP '' @ show_nat status))
           else case json_from_slice ext body of None \<Rightarrow> Inl (CliMessage library_error) | Some v \<Rightarrow> Inr v))"

definition normalized_base_url :: "url_library \<Rightarrow> string \<Rightarrow> string \<Rightarrow> string cli_result" where
  "normalized_base_url lib library_error raw =
     (case parse_url lib (with_end_slash raw) of
        None \<Rightarrow> Inl (CliMessage library_error)
      | Some (scheme, url) \<Rightarrow>
          (if scheme \<in> {''http'', ''https''} then Inr url else Inl (CliMessage ''endpoint URL must use http or https'')))"

definition get_json ::
    "externals \<Rightarrow> url_library \<Rightarrow> string \<Rightarrow> 's network \<Rightarrow> string \<Rightarrow> string \<Rightarrow> (string \<times> string) list \<Rightarrow> string option \<Rightarrow> 's
     \<Rightarrow> json cli_result \<times> 's" where
  "get_json ext lib library_error net base path query token s =
     (case join_url lib base path of
        None \<Rightarrow> (Inl (CliMessage library_error), s)
      | Some url \<Rightarrow>
          (let (response, s') = net \<lparr>cq_verb = GET, cq_url = url, cq_query = query, cq_token = token, cq_body = None\<rparr> s
           in (json_response ext library_error response, s')))"

text \<open>What each answer has to hold, and the lines printed for it.\<close>

definition verify_health :: "json \<Rightarrow> string list cli_result" where
  "verify_health answer =
     (if Option.bind (json_get ''status'' answer) as_str \<noteq> Some ''ok''
      then Inl (CliMessage ''unexpected health response'') else Inr [''PASS: health''])"

definition mismatch :: "string \<Rightarrow> string option \<Rightarrow> string \<Rightarrow> string list cli_result \<Rightarrow> string list cli_result" where
  "mismatch what expected got r =
     (case expected of
        Some e \<Rightarrow>
          if got \<noteq> e then Inl (CliMessage (what @ '' mismatch: expected '' @ e @ '', got '' @ got)) else r
      | None \<Rightarrow> r)"

definition verify_whoami :: "verify_args \<Rightarrow> json \<Rightarrow> string list cli_result" where
  "verify_whoami args answer =
     (case Option.bind (json_get ''source'' answer) as_str of
        None \<Rightarrow> Inl (CliMessage ''whoami response missing source'')
      | Some source \<Rightarrow>
          (case Option.bind (json_get ''instance'' answer) as_str of
             None \<Rightarrow> Inl (CliMessage ''whoami response missing instance'')
           | Some instance_id \<Rightarrow>
               mismatch ''source'' (va_expect_source args) source
                 (mismatch ''instance'' (va_expect_instance args) instance_id
                   (Inr [''PASS: whoami source='' @ source @ '' instance='' @ instance_id @ '' label='' @
                      or_else (Option.bind (json_get ''label'' answer) as_str) []]))))"

definition latest_line :: "json list \<Rightarrow> string list" where
  "latest_line rows =
     (if rows = [] then [] else
      case Option.bind (json_get ''id'' (last rows)) as_i64 of
        Some latest \<Rightarrow> [''latest_id='' @ int_to_string latest]
      | None \<Rightarrow> [])"

definition verify_messages :: "verify_args \<Rightarrow> json \<Rightarrow> string list cli_result" where
  "verify_messages args v =
     (case json_get ''messages'' v of
        Some (JArr rows) \<Rightarrow>
          Inr ((''PASS: messages count='' @ show_nat (length rows) @ '' after='' @ int_to_string (va_after args) @
             '' channel='' @ or_else (va_channel args) ''*'') # latest_line rows)
      | _ \<Rightarrow> Inl (CliMessage ''messages response missing messages array''))"

text \<open>One step: a request, the verification of its answer, and the steps after it; what was printed stays printed.\<close>

definition verify_step ::
    "json cli_result \<times> 's \<Rightarrow> (json \<Rightarrow> string list cli_result) \<Rightarrow> ('s \<Rightarrow> unit cli_result \<times> string list \<times> 's)
     \<Rightarrow> unit cli_result \<times> string list \<times> 's" where
  "verify_step r verify rest =
     (case fst r of
        Inl e \<Rightarrow> (Inl e, [], snd r)
      | Inr v \<Rightarrow>
          (case verify v of
             Inl e \<Rightarrow> (Inl e, [], snd r)
           | Inr lines \<Rightarrow> (let (result, more, s) = rest (snd r) in (result, lines @ more, s))))"

definition verify_requests ::
    "externals \<Rightarrow> url_library \<Rightarrow> string \<Rightarrow> 's network \<Rightarrow> string \<Rightarrow> string \<Rightarrow> verify_args \<Rightarrow> 's \<Rightarrow> unit cli_result \<times> string list \<times> 's" where
  "verify_requests ext lib library_error net base token args s =
     verify_step (get_json ext lib library_error net base ''api/health'' [] None s) verify_health (\<lambda>s.
     verify_step (get_json ext lib library_error net base ''api/whoami'' [] (Some token) s) (verify_whoami args) (\<lambda>s.
     verify_step (get_json ext lib library_error net base ''api/messages''
         (messages_query (va_after args) (va_channel args) (va_limit args)) (Some token) s) (verify_messages args) (\<lambda>s.
       (Inr (), [], s))))"

definition verify_endpoint ::
    "externals \<Rightarrow> url_library \<Rightarrow> string \<Rightarrow> 's network \<Rightarrow> string option \<Rightarrow> string option \<Rightarrow> verify_args \<Rightarrow> 's
     \<Rightarrow> unit cli_result \<times> string list \<times> 's" where
  "verify_endpoint ext lib library_error net env_url env_token args s =
     (let failed = (\<lambda>text. (Inl (CliMessage text), [], s)) in
      if va_after args < 0 then failed ''--after must be >= 0''
      else if \<not> (1 \<le> va_limit args \<and> va_limit args \<le> 200) then failed ''--limit must be between 1 and 200''
      else if \<not> va_timeout_ok args then failed ''--timeout must be > 0''
      else case (case va_url args of Some u \<Rightarrow> Some u | None \<Rightarrow> env_url) of
        None \<Rightarrow> failed ''missing --url or BLACKBOARD_URL''
      | Some raw \<Rightarrow>
          (case env_token of
             None \<Rightarrow> failed ''missing BLACKBOARD_TOKEN''
           | Some token \<Rightarrow>
               if token = [] then failed ''BLACKBOARD_TOKEN is empty''
               else case normalized_base_url lib library_error raw of
                 Inl e \<Rightarrow> (Inl e, [], s)
               | Inr base \<Rightarrow>
                   if \<not> builds_client lib then failed library_error
                   else verify_requests ext lib library_error net base token args s))"

end
