(* ===== verification/Client_Server.thy ===== *)
theory Client_Server
  imports Client Schema_Kept
begin

text \<open>
  The client and the server together: the network of the theory \<open>Client\<close> is here a board behind the handlers of
  \<open>Http\<close>, routed as \<open>http.rs\<close> routes them, with answers on the wire as bytes.
\<close>

section \<open>The server behind the network\<close>

text \<open>A token that is no header value is refused by the client's HTTP library, before anything is sent.\<close>

definition header_value :: "string \<Rightarrow> bool" where
  "header_value v = list_all (\<lambda>c. (CHR 0x20 \<le> c \<and> c \<noteq> CHR 0x7F) \<or> c = CHR 0x09) v"

definition wire :: "externals \<Rightarrow> response api \<Rightarrow> nat \<times> bytes" where
  "wire ext answer =
     (case answer of
        Inl (status, code) \<Rightarrow> (status, json_to_vec ext (json_object [(''error'', JStr code)]))
      | Inr (status, v) \<Rightarrow> (status, json_to_vec ext v))"

text \<open>The client does not sign its reads, so the query is left out of the target.  Answers that are no JSON are given bytes
  by the argument \<open>other\<close>; the client's requests have none.\<close>

definition request_headers :: "string option \<Rightarrow> header_map" where
  "request_headers token = (case token of Some t \<Rightarrow> [(AUTHORIZATION_HEADER, ''Bearer '' @ t)] | None \<Rightarrow> [])"

definition sent_request :: "externals \<Rightarrow> nat \<Rightarrow> int \<Rightarrow> string \<Rightarrow> client_request \<Rightarrow> http_request" where
  "sent_request ext unix now base request =
     (let path = CHR ''/'' # drop (length base) (cq_url request) in
      \<lparr>rq_verb = cq_verb request, rq_path = path, rq_target = path, rq_query = cq_query request,
       rq_headers = request_headers (cq_token request),
       rq_body = (case cq_body request of Some v \<Rightarrow> json_to_vec ext v | None \<Rightarrow> []), rq_unix = unix, rq_now = now, rq_draws = []\<rparr>)"

definition board_server ::
    "externals \<Rightarrow> server \<Rightarrow> (server_answer \<Rightarrow> nat \<times> bytes) \<Rightarrow> nat \<Rightarrow> int \<Rightarrow> string \<Rightarrow> board network" where
  "board_server ext sv other unix now base request db =
     (if (case cq_token request of Some t \<Rightarrow> \<not> header_value t | None \<Rightarrow> False) then (None, db)
      else let (answer, db') = serve_request ext sv (sent_request ext unix now base request) db
           in (Some (case answer of ApiAnswer r \<Rightarrow> wire ext r | _ \<Rightarrow> other answer), db'))"

text \<open>\<open>Url::join\<close> of a relative path to an address that ends in a slash.\<close>

definition joins_paths :: "url_library \<Rightarrow> string \<Rightarrow> bool" where
  "joins_paths lib base \<longleftrightarrow> (\<forall>path. join_url lib base path = Some (base @ path))"

text \<open>The routes of the client's requests.\<close>

definition client_route ::
    "externals \<Rightarrow> server \<Rightarrow> http_request \<Rightarrow> board \<Rightarrow> response api \<times> board" where
  "client_route ext sv rq db =
     (if rq_verb rq = POST then post_message ext (sv_key sv) (rq_unix rq) (rq_now rq) (rq_headers rq) (rq_body rq) db
      else ((if rq_path rq = ''/api/health'' then health
             else if rq_path rq = ''/api/whoami'' then whoami ext (sv_key sv) (rq_unix rq) (rq_headers rq) db
             else if rq_path rq = ''/api/channels''
             then channels_handler ext (sv_key sv) (rq_unix rq) (rq_headers rq) (rq_target rq) (rq_query rq) db
             else messages_handler ext (sv_key sv) (rq_unix rq) (rq_headers rq) (rq_target rq) (rq_query rq) db), db))"

definition client_paths :: "(http_verb \<times> string) set" where
  "client_paths = {(GET, ''/api/health''), (GET, ''/api/whoami''), (GET, ''/api/channels''), (GET, ''/api/messages''),
     (POST, ''/api/messages'')}"

lemma serve_client:
  assumes "(rq_verb rq, rq_path rq) \<in> client_paths"
  shows "serve_request ext sv rq db = map_prod ApiAnswer id (client_route ext sv rq db)"
proof -
  let ?served = "\<lambda>verb path. rq_verb rq = verb \<longrightarrow> rq_path rq = path \<longrightarrow>
    serve_request ext sv rq db = map_prod ApiAnswer id (client_route ext sv rq db)"
  have "?served GET ''/api/health''" "?served GET ''/api/whoami''" "?served GET ''/api/channels''" "?served GET ''/api/messages''"
    "?served POST ''/api/messages''"
    by (simp_all add: serve_request_def server_apps at_def at_param_def captured_def find_method_def writing_def reading_def
        client_route_def)
  then show ?thesis using assms by (auto simp: client_paths_def)
qed

section \<open>JSON on the wire\<close>

lemma map_of_btree_insert: "map_of (btree_insert k v es) = (map_of es)(k \<mapsto> v)"
  by (induction k v es rule: btree_insert.induct) (auto simp: fun_eq_iff)

lemma map_of_btree_fold: "map_of (fold (\<lambda>(k, v). btree_insert k v) pairs acc) = map_of acc ++ map_of (rev pairs)"
  by (induction pairs arbitrary: acc) (auto simp: map_of_btree_insert map_add_def fun_eq_iff split: option.split)

lemma map_of_btree [simp]: "map_of (btree_of pairs) = map_of (rev pairs)"
  by (simp add: btree_of_def map_of_btree_fold)

lemma struct_fields_object [simp]: "struct_fields names (json_object pairs) = Some (btree_of pairs)"
  by (simp add: struct_fields_def json_object_def)

lemmas wire_simps = required_def optional_def vector_field_def as_str_def as_i64_def json_opt_def

lemma read_error_json: "read_error (json_object [(''error'', JStr code)]) = Some (Some code)"
  by (simp add: read_error_def wire_simps)

definition i64 :: "int \<Rightarrow> bool" where "i64 i \<longleftrightarrow> - (2 ^ 63) \<le> i \<and> i < 2 ^ 63"

lemma read_message_json:
  "read_message (message_json m) =
     (if i64 (m_id m) \<and> i64 (m_created_at m) \<and> (\<forall>t. m_reply_to m = Some t \<longrightarrow> i64 t) then Some m else None)"
  by (cases "m_conversation_ref m"; cases "m_reply_to m")
    (auto simp: read_message_def message_json_def wire_simps i64_def message_names_def)

lemma vector_map: "(\<And>x. x \<in> set xs \<Longrightarrow> f (g x) = Some x) \<Longrightarrow> vector f (map g xs) = Some xs"
  by (induction xs) simp_all

lemma vector_length: "vector f vs = Some xs \<Longrightarrow> length xs = length vs"
  by (induction vs arbitrary: xs) (auto split: option.splits)

lemma request_json_wire:
  assumes "json_faithful ext"
  shows "request_json ext decode (Some (wire ext answer)) authenticated =
    (case answer of
       Inl (status, code) \<Rightarrow>
         (if \<not> is_success status then Inl (http_error status code)
          else case decode (json_object [(''error'', JStr code)]) of
            None \<Rightarrow> Inl (local_error ''invalid JSON response'') | Some x \<Rightarrow> Inr x)
     | Inr (status, v) \<Rightarrow>
         (if \<not> is_success status
          then Inl (http_error status (case read_error v of Some (Some code) \<Rightarrow> code | _ \<Rightarrow> ''http_error''))
          else case decode v of None \<Rightarrow> Inl (local_error ''invalid JSON response'') | Some x \<Rightarrow> Inr x))"
  using assms by (auto simp: request_json_def wire_def json_faithful_def read_error_json split: sum.split)

section \<open>Numbers in a query\<close>

lemma digits_value_snoc: "digits_value (s @ [c]) = 10 * digits_value s + (int (of_char c) - 48)"
  by (simp add: digits_value_def)

lemma digit_value: "n < 10 \<Longrightarrow> int (of_char (digit_char n)) - 48 = int n"
  by (simp add: digit_char_def)

lemma digits_value_dec: "digits_value (dec n) = int n"
proof (induction n rule: dec.induct)
  case (1 n)
  show ?case
  proof (cases "n < 10")
    case True
    then show ?thesis using digit_value [OF True] digits_value_snoc [of "[]" "digit_char n"]
      by (subst dec.simps) (simp add: digits_value_def)
  next
    case False
    then have "digits_value (dec n) = 10 * int (n div 10) + int (n mod 10)"
      using "1.IH" digit_value [of "n mod 10"] by (subst dec.simps) (simp add: digits_value_snoc)
    also have "\<dots> = int n" by (metis mult_div_mod_eq of_nat_add of_nat_mult of_nat_numeral)
    finally show ?thesis .
  qed
qed

lemma dec_not_Nil: "dec n \<noteq> []"
  by (subst dec.simps) simp

lemma parse_digits_dec: "parse_digits (dec n) = Some (int n)"
  by (simp add: parse_digits_def dec_not_Nil digits_dec digits_value_dec)

lemma dec_no_sign: "hd (dec n) \<noteq> CHR ''-''" "hd (dec n) \<noteq> CHR ''+''"
proof -
  have "is_ascii_digit (hd (dec n))" using digits_dec [of n] dec_not_Nil [of n] by (cases "dec n") simp_all
  then show "hd (dec n) \<noteq> CHR ''-''" "hd (dec n) \<noteq> CHR ''+''" by (auto simp: is_ascii_digit_def ascii_simps)
qed

lemma parse_i64_shown: "0 \<le> i \<Longrightarrow> i < 2 ^ 63 \<Longrightarrow> parse_i64 (int_to_string i) = Some i"
  by (simp add: parse_i64_def int_to_string_def Let_def parse_digits_dec dec_no_sign)

lemma parse_usize_shown: "n < 2 ^ 63 \<Longrightarrow> parse_usize (show_nat n) = Some n"
  by (simp add: parse_usize_def show_nat_def int_to_string_def Let_def parse_digits_dec dec_no_sign)

section \<open>What the server answers the client\<close>

lemma bearer_split: "split_once_space (''Bearer '' @ t) = Some (''Bearer'', t)"
  by (simp add: split_once_space_def)

lemma bearer_scheme: "eq_ignore_ascii_case ''Bearer'' ''bearer''"
  by code_simp

lemma bearer_request:
  "bearer_token (request_headers (Some t)) = (if header_to_str t = None \<or> t = [] then None else Some t)"
  using bearer_split [of t] bearer_scheme
  by (auto simp: bearer_token_def request_headers_def header_to_str_def)

lemma request_headers_keys:
  "map_of (request_headers token) WEB_SESSION_HEADER = None"
  "map_of (request_headers token) PARTICIPANT_ID_HEADER = None"
  "map_of (request_headers token) AUTH_PROOF_HEADER = None"
  "map_of (request_headers token) AUTH_SCHEME_HEADER = None"
  by (simp_all add: request_headers_def AUTHORIZATION_HEADER_def WEB_SESSION_HEADER_def PARTICIPANT_ID_HEADER_def
      AUTH_PROOF_HEADER_def AUTH_SCHEME_HEADER_def split: option.split)

lemma no_session: "verified_web_session ext key unix (request_headers token) = None"
  by (simp add: verified_web_session_def header_text_def request_headers_keys)

definition token_identity :: "externals \<Rightarrow> board \<Rightarrow> string \<Rightarrow> identity option" where
  "token_identity ext db token =
     (if header_to_str token = None \<or> token = [] then None else resolve_identity ext db token)"

lemma request_identity:
  "resolve_request_identity ext key unix db (request_headers (Some t)) = token_identity ext db t"
  "resolve_request_identity_for_target ext key unix db (request_headers (Some t)) verb path = token_identity ext db t"
  by (simp_all add: resolve_request_identity_def resolve_request_identity_for_target_def contains_key_def
      request_headers_keys bearer_request token_identity_def)

lemma read_access:
  "require_read_access_for_target ext key unix db (request_headers (Some t)) verb path =
    (case token_identity ext db t of None \<Rightarrow> Inl unauthorized | Some who \<Rightarrow> Inr (ParticipantAccess who))"
  by (simp add: require_read_access_for_target_def no_session require_identity_for_target_def request_identity ok_or_def
      try_bind_def split: option.split)

text \<open>The query of a read is parsed back to what the client asked for.\<close>

lemma int_to_string_not_Nil: "int_to_string i \<noteq> []"
  by (simp add: int_to_string_def dec_not_Nil)

lemma messages_query_parsed:
  assumes "0 \<le> after" "after < 2 ^ 63" "1 \<le> limit" "limit \<le> 200"
  shows "parse_after (first_query_values (messages_query after channel limit)) = Inr after"
    and "parse_limit (first_query_values (messages_query after channel limit)) 100 = Inr limit"
    and "map_of (first_query_values (messages_query after channel limit)) ''channel'' = (if channel = Some [] then None else channel)"
proof -
  have "first_query_values (messages_query after channel limit) = messages_query after (if channel = Some [] then None else channel) limit"
    by (cases channel) (simp_all add: first_query_values_def messages_query_def int_to_string_not_Nil show_nat_def)
  then show "parse_after (first_query_values (messages_query after channel limit)) = Inr after"
    "parse_limit (first_query_values (messages_query after channel limit)) 100 = Inr limit"
    "map_of (first_query_values (messages_query after channel limit)) ''channel'' = (if channel = Some [] then None else channel)"
    using assms parse_i64_shown [of after] parse_usize_shown [of limit]
    by (auto simp: parse_after_def parse_limit_def MAX_PAGE_SIZE_def messages_query_def split: option.split)
qed

text \<open>An exchange with the board: the client's address is where the server answers.\<close>

lemma board_exchange:
  assumes "joins_paths lib (bc_base_url client)" and "header_value (bc_token client)" and "(verb, CHR ''/'' # path) \<in> client_paths"
  shows "exchange ext lib (board_server ext sv other unix now (bc_base_url client)) client verb path query True body decode db =
    (let (answer, db') = client_route ext sv \<lparr>rq_verb = verb, rq_path = CHR ''/'' # path, rq_target = CHR ''/'' # path,
           rq_query = query, rq_headers = request_headers (Some (bc_token client)),
           rq_body = (case body of Some v \<Rightarrow> json_to_vec ext v | None \<Rightarrow> []), rq_unix = unix, rq_now = now, rq_draws = []\<rparr> db
     in (request_json ext decode (Some (wire ext answer)) True, db'))"
  using assms
  by (simp add: exchange_def client_url_def joins_paths_def board_server_def sent_request_def serve_client case_prod_beta Let_def)

lemma header_to_str_value: "header_to_str t \<noteq> None \<Longrightarrow> header_value t"
  by (auto simp: header_to_str_def header_value_def list_all_iff split: if_splits)

lemma token_identity_value: "token_identity ext db t = Some who \<Longrightarrow> header_value t \<and> resolve_identity ext db t = Some who"
  using header_to_str_value by (auto simp: token_identity_def split: if_splits)

lemma token_identity_cong: "identities db' = identities db \<Longrightarrow> token_identity ext db' = token_identity ext db"
  by (auto simp: token_identity_def resolve_identity_def)

lemma struct_fields_messages [simp]: "read_messages (json_object [(''messages'', JArr vs)]) = vector read_message vs"
  by (simp add: read_messages_def vector_field_def)

lemma client_messages_board:
  assumes "json_faithful ext" and joined: "joins_paths lib (bc_base_url client)"
    and who: "token_identity ext db (bc_token client) = Some who"
    and range: "0 \<le> after" "after < 2 ^ 63" "1 \<le> limit" "limit \<le> 200" and c: "\<And>c. channel = Some c \<Longrightarrow> name_re c"
    and rows: "\<And>m. m \<in> set (list_messages_after db after channel limit) \<Longrightarrow> read_message (message_json m) = Some m"
  shows "client_messages ext lib (board_server ext sv other unix now (bc_base_url client)) client after channel limit db =
    (Inr (list_messages_after db after channel limit), db)"
proof -
  have "c \<noteq> []" if "channel = Some c" for c using c [OF that] by (auto simp: name_re_def name_shape_def)
  note q = messages_query_parsed [OF range]
  have "messages_handler ext (sv_key sv) unix (request_headers (Some (bc_token client))) ''/api/messages'' (messages_query after channel limit) db =
      Inr (200, json_object [(''messages'', JArr (map message_json (list_messages_after db after channel limit)))])"
    using c q who \<open>\<And>c. channel = Some c \<Longrightarrow> c \<noteq> []\<close> by (auto simp: messages_handler_def read_access try_bind_def split: option.split)
  then have "client_messages ext lib (board_server ext sv other unix now (bc_base_url client)) client after channel limit db =
      (request_json ext read_messages (Some (wire ext (Inr (200, json_object
        [(''messages'', JArr (map message_json (list_messages_after db after channel limit)))])))) True, db)"
    using range token_identity_value [OF who]
    by (simp add: client_messages_def board_exchange [OF joined] client_route_def client_paths_def)
  also have "\<dots> = (Inr (list_messages_after db after channel limit), db)"
    using vector_map [of "list_messages_after db after channel limit" read_message message_json] rows
    by (simp add: request_json_wire [OF assms(1)] is_success_def)
  finally show ?thesis .
qed

lemma client_post_board:
  assumes "joins_paths lib (bc_base_url client)" and "header_value (bc_token client)"
  shows "client_post ext lib (board_server ext sv other unix now (bc_base_url client)) client channel kind body reply_to db =
    (let (answer, db') = post_message ext (sv_key sv) unix now (request_headers (Some (bc_token client)))
           (json_to_vec ext (post_json channel kind body reply_to)) db
     in (request_json ext read_post (Some (wire ext answer)) True, db'))"
  by (simp add: client_post_def board_exchange [OF assms] client_route_def client_paths_def)

lemma read_post_error: "read_post (json_object [(''error'', JStr code)]) = None"
  by (simp add: read_post_def wire_simps)

lemma read_post_message: "read_post (json_object [(''message'', message_json m)]) = read_message (message_json m)"
  by (simp add: read_post_def wire_simps)

text \<open>The body of a post has no credential of its own, and its fields are the arguments of the client.\<close>

lemma post_fields:
  "map_of (btree_of [(''channel'', JStr channel), (''kind'', JStr kind), (''body'', JStr body), (''reply_to'', json_opt JInt reply_to)]) name =
    (if name = ''channel'' then Some (JStr channel) else if name = ''kind'' then Some (JStr kind)
     else if name = ''body'' then Some (JStr body) else if name = ''reply_to'' then Some (json_opt JInt reply_to) else None)"
  by (auto simp: map_add_def)

lemma read_message_fields_post:
  assumes "map_of e ''channel'' = Some (JStr channel)" "map_of e ''kind'' = Some (JStr kind)"
    "map_of e ''body'' = Some (JStr body)" "map_of e ''reply_to'' = Some (json_opt JInt reply_to)"
    and ok: "read_message_fields e = Inr f"
  shows "f = \<lparr>mf_channel = channel, mf_kind = kind, mf_body = body, mf_reply_to = reply_to\<rparr> \<and> name_re channel"
proof -
  have "text_field e ''channel'' v = (if v channel then Some channel else None)"
      "text_field e ''body'' v = (if v body then Some body else None)"
      "kind_field e = (if kind_re kind then Inr kind else Inl (bad_request ''invalid_kind''))" for v
    using assms(1-3) by (simp_all add: text_field_def kind_field_def as_str_def)
  moreover have "r = reply_to" if "reply_to_field e = Inr r" for r
    using that assms(4) by (cases reply_to) (auto simp: reply_to_field_def json_opt_def as_i64_def split: if_splits option.splits)
  ultimately show ?thesis
    using ok by (auto simp: read_message_fields_def try_bind_Inr ok_or_Inr split: if_splits)
qed

lemma append_resolved_written:
  assumes "append_resolved_post now who f db = (Inr r, db')" and "log_wf db"
  shows "\<exists>m. r = (201, json_object [(''message'', message_json m)]) \<and> messages db' = messages db @ [m] \<and> log_wf db' \<and>
    identities db' = identities db \<and> m_channel m = mf_channel f \<and> m_kind m = mf_kind f \<and> m_body m = mf_body f \<and>
    m_reply_to m = mf_reply_to f \<and> m_source m = id_source who \<and> m_instance m = id_instance who \<and> m_created_at m = now \<and>
    (\<forall>x \<in> set (messages db). m_id x < m_id m)"
proof -
  obtain active db1 where e: "ensure_channel_for_write now (mf_channel f) (Some (id_instance who)) db = (active, db1)" by fastforce
  obtain cs where db1: "db1 = db\<lparr>channels := cs\<rparr>" using ensure_only_channels e by (metis snd_conv)
  then have wf: "log_wf db1" using assms(2) log_wf_cong [of db1 db] by simp
  obtain m where a: "append_message now who (mf_channel f) (mf_kind f) (mf_body f) (mf_reply_to f) db1 = (Inr m, db')"
      and r: "r = (201, json_object [(''message'', message_json m)])"
    using assms(1) e by (auto simp: append_resolved_post_def split: if_splits sum.splits prod.splits)
  have "identities db' = identities db"
    using append_message_result(2) [OF a] db1 by (simp add: ensure_channel_def insert_channel_or_ignore_def split: option.split)
  moreover have "m_created_at m = now" using append_message_result(1) [OF a] by simp
  ultimately show ?thesis using append_message_extends_log [OF wf a] r db1 by (intro exI [of _ m]) auto
qed

lemma client_post_written:
  assumes faithful: "json_faithful ext" and joined: "joins_paths lib (bc_base_url client)" and wf: "log_wf db"
    and p: "client_post ext lib (board_server ext sv other unix now (bc_base_url client)) client channel kind body reply_to db = (Inr m, db')"
  shows "\<exists>who. token_identity ext db (bc_token client) = Some who \<and> messages db' = messages db @ [m] \<and> log_wf db' \<and>
    identities db' = identities db \<and> m_channel m = channel \<and> m_kind m = kind \<and> m_body m = body \<and> m_reply_to m = reply_to \<and>
    m_source m = id_source who \<and> m_instance m = id_instance who \<and> m_created_at m = now \<and> name_re channel \<and>
    read_message (message_json m) = Some m \<and> (\<forall>x \<in> set (messages db). m_id x < m_id m)"
proof -
  let ?fields = "btree_of [(''channel'', JStr channel), (''kind'', JStr kind), (''body'', JStr body), (''reply_to'', json_opt JInt reply_to)]"
  let ?headers = "request_headers (Some (bc_token client))"
  have sent: "header_value (bc_token client)"
  proof (rule ccontr)
    assume "\<not> header_value (bc_token client)"
    then show False using p joined
      by (simp add: client_post_def exchange_def client_url_def joins_paths_def board_server_def request_json_def)
  qed
  obtain answer where answer: "post_message ext (sv_key sv) unix now ?headers (json_to_vec ext (post_json channel kind body reply_to)) db = (answer, db')"
      and ok: "request_json ext read_post (Some (wire ext answer)) True = Inr m"
    using p by (auto simp: client_post_board [OF joined sent] split: prod.splits)
  obtain status v where v: "answer = Inr (status, v)" "read_post v = Some m"
    using ok by (auto simp: request_json_wire [OF faithful] read_post_error split: sum.splits if_splits option.splits prod.splits)
  obtain who f where "read_json_object ext (json_to_vec ext (post_json channel kind body reply_to)) = Inr ?fields"
      and f: "read_resolved_post ext (sv_key sv) unix ?headers ?fields db = Inr (who, f)" "append_resolved_post now who f db = (Inr (status, v), db')"
    using answer v(1) faithful
    by (auto simp: post_message_def no_session read_json_object_def json_faithful_def post_json_def json_object_def as_object_def
        ok_or_def post_fields simp del: map_of_btree split: if_splits sum.splits)
  have who: "token_identity ext db (bc_token client) = Some who" and "read_message_fields ?fields = Inr f"
    using f(1) by (auto simp: read_resolved_post_def try_bind_Inr require_identity_def ok_or_Inr request_identity split: if_splits)
  then have rf: "f = \<lparr>mf_channel = channel, mf_kind = kind, mf_body = body, mf_reply_to = reply_to\<rparr> \<and> name_re channel"
    by (intro read_message_fields_post) (simp_all add: post_fields del: map_of_btree)
  obtain x where x: "v = json_object [(''message'', message_json x)]" and w: "messages db' = messages db @ [x]" "log_wf db'"
      "identities db' = identities db" "m_channel x = mf_channel f" "m_kind x = mf_kind f" "m_body x = mf_body f"
      "m_reply_to x = mf_reply_to f" "m_source x = id_source who" "m_instance x = id_instance who" "m_created_at x = now"
      "\<forall>y \<in> set (messages db). m_id y < m_id x"
    using append_resolved_written [OF f(2) wf] by auto
  have r: "read_message (message_json x) = Some m" using v(2) x by (simp add: read_post_message)
  then have "x = m" by (simp add: read_message_json split: if_splits)
  then show ?thesis using w who rf r by (intro exI [of _ who]) simp
qed

lemma append_resolved_failed:
  assumes "append_resolved_post now who f db = (Inl e, db')"
  shows "messages db' = messages db"
proof -
  obtain active db1 where en: "ensure_channel_for_write now (mf_channel f) (Some (id_instance who)) db = (active, db1)" by fastforce
  have "messages db1 = messages db"
    using ensure_channel_write_frame(1) [of now "mf_channel f" "Some (id_instance who)" db] en by simp
  then show ?thesis using assms en
    by (auto simp: append_resolved_post_def split: if_splits sum.splits prod.splits dest!: append_message_result(1))
qed

lemma client_post_refused:
  assumes faithful: "json_faithful ext" and joined: "joins_paths lib (bc_base_url client)"
    and p: "client_post ext lib (board_server ext sv other unix now (bc_base_url client)) client channel kind body reply_to db = (Inl e, db')"
    and code: "ce_code e \<noteq> ''invalid JSON response''"
  shows "messages db' = messages db"
proof (cases "header_value (bc_token client)")
  case sent: True
  let ?headers = "request_headers (Some (bc_token client))"
  obtain answer where answer: "post_message ext (sv_key sv) unix now ?headers (json_to_vec ext (post_json channel kind body reply_to)) db = (answer, db')"
      and failed: "request_json ext read_post (Some (wire ext answer)) True = Inl e"
    using p by (auto simp: client_post_board [OF joined sent] split: prod.splits)
  show ?thesis
  proof (cases answer)
    case (Inl a)
    then show ?thesis using answer faithful
      by (auto simp: post_message_def no_session read_json_object_def json_faithful_def post_json_def json_object_def as_object_def
          ok_or_def post_fields simp del: map_of_btree dest: append_resolved_failed split: if_splits sum.splits)
  next
    case (Inr r)
    then have "fst r = 201"
      using answer faithful
      by (auto simp: post_message_def no_session read_json_object_def json_faithful_def post_json_def json_object_def as_object_def
          append_resolved_post_def ok_or_def post_fields simp del: map_of_btree split: if_splits sum.splits prod.splits)
    then show ?thesis using failed Inr code
      by (auto simp: request_json_wire [OF faithful] is_success_def local_error_def split: option.splits prod.splits)
  qed
next
  case False
  then show ?thesis using p joined by (simp add: client_post_def exchange_def client_url_def joins_paths_def board_server_def)
qed

section \<open>Properties\<close>

text \<open>C22: The client reads what it posts.  A post that the client reports as made is in the log of the board: it is one new message, with the fields
  the client gave and the identity of its token, and reading the channel from just before it answers exactly it.  A post
  that the client reports as failed left the log as it was, unless the answer itself could not be read.\<close>

theorem client_reads_what_it_posts:
  assumes "json_faithful ext" and "joins_paths lib (bc_base_url client)" and "reachable ext db" and "1 \<le> limit" "limit \<le> 200"
    and "client_post ext lib (board_server ext sv other unix now (bc_base_url client)) client channel kind body reply_to db = (answer, db')"
  shows "case answer of
      Inl e \<Rightarrow> messages db' = messages db \<or> ce_code e = ''invalid JSON response''
    | Inr m \<Rightarrow>
        (\<exists>who. resolve_identity ext db (bc_token client) = Some who \<and> messages db' = messages db @ [m] \<and>
          m_source m = id_source who \<and> m_instance m = id_instance who \<and> m_channel m = channel \<and> m_kind m = kind \<and>
          m_body m = body \<and> m_reply_to m = reply_to \<and>
          client_messages ext lib (board_server ext sv other unix' now' (bc_base_url client)) client (m_id m - 1) (Some channel)
            limit db' = (Inr [m], db'))"
proof (cases answer)
  case (Inl e)
  then show ?thesis using client_post_refused [OF assms(1,2)] assms(6) by auto
next
  case (Inr m)
  have "log_wf db" using reachable_system_wf [OF assms(3)] by (simp add: system_wf_def db_wf_def)
  from client_post_written [OF assms(1,2) this assms(6) [unfolded Inr]] obtain who
    where who: "token_identity ext db (bc_token client) = Some who"
    and w: "messages db' = messages db @ [m]" "log_wf db'" "identities db' = identities db" "m_channel m = channel" "m_kind m = kind"
      "m_body m = body" "m_reply_to m = reply_to" "m_source m = id_source who" "m_instance m = id_instance who" "name_re channel"
      "read_message (message_json m) = Some m" "\<forall>x \<in> set (messages db). m_id x < m_id m" by auto
  have who': "token_identity ext db' (bc_token client) = Some who" using who token_identity_cong [OF w(3)] by simp
  have "filter (\<lambda>x. m_channel x = channel \<and> m_id m - 1 < m_id x) (messages db) = []"
    using w(12) by (auto simp: filter_empty_conv)
  then have rows: "list_messages_after db' (m_id m - 1) (Some channel) limit = [m]"
    using assms(4) w(1,4) by (simp add: list_messages_after_log [OF w(2)] take_Cons')
  have "0 \<le> m_id m - 1" "m_id m - 1 < 2 ^ 63"
    using w(1,2,11) by (auto simp: log_wf_def read_message_json i64_def split: if_splits)
  from client_messages_board [OF assms(1,2) who' this assms(4,5), of "Some channel" sv other unix' now'] rows w(10,11)
  have "client_messages ext lib (board_server ext sv other unix' now' (bc_base_url client)) client (m_id m - 1) (Some channel) limit db' =
      (Inr [m], db')" by simp
  then show ?thesis using token_identity_value [OF who] w Inr by (simp add: exI [of _ who])
qed

definition sample_urls :: url_library where
  "sample_urls = \<lparr>parse_url = (\<lambda>url. Some (''http'', url)), join_url = (\<lambda>base path. Some (base @ path)), builds_client = True\<rparr>"

definition sample_other :: "server_answer \<Rightarrow> nat \<times> bytes" where "sample_other answer = (500, [])"

lemma sample_key [simp]: "sv_key sample_server = [1]" by (simp add: sample_server_def)

definition sample_posted :: json_map where
  "sample_posted = btree_of [(''channel'', JStr ''lab''), (''kind'', JStr ''message''), (''body'', JStr ''hi''), (''reply_to'', JNull)]"

lemma sample_registered:
  "\<exists>who db. register_identity (body_externals sample_posted) 5 ''maker'' None [(''i-1'', ''tok'')] empty_board =
     (Inr (Some (who, ''tok'')), db) \<and> reachable (body_externals sample_posted) db \<and> messages db = [] \<and> channels db = [] \<and>
     resolve_identity (body_externals sample_posted) db ''tok'' = Some who"
proof -
  let ?ext = "body_externals sample_posted"
  have v: "validate_source ''maker'' = Some ''maker''" by code_simp
  obtain who db where r: "register_identity ?ext 5 ''maker'' None [(''i-1'', ''tok'')] empty_board = (Inr (Some (who, ''tok'')), db)"
      and rows: "messages db = []" "channels db = []"
    by (simp add: register_identity_def v normalize_label_def empty_board_def)
  have "identities_wf empty_board" by (simp add: identities_wf_def empty_board_def)
  from token_lifecycle [OF this r] have "resolve_identity ?ext db ''tok'' = Some who" by simp
  moreover have "reachable ?ext db"
    using reachable.step [OF reachable.start board_step.identity [of ?ext empty_board "Register 5 ''maker'' None [(''i-1'', ''tok'')]"]] r
    by simp
  ultimately show ?thesis using r rows by blast
qed

lemma sample_posted_fields:
  "read_message_fields sample_posted = Inr \<lparr>mf_channel = ''lab'', mf_kind = ''message'', mf_body = ''hi'', mf_reply_to = None\<rparr>"
proof -
  have "name_re ''lab''" "kind_re ''message''" by code_simp+
  moreover have "\<not> blank ''hi''" by (simp add: trim_graphic graphic_def ascii_simps)
  ultimately show ?thesis
    by (simp add: read_message_fields_def sample_posted_def try_bind_def ok_or_def text_field_def as_str_def
        kind_field_def reply_to_field_def MAX_BODY_BYTES_def)
qed

lemma sample_post_accepted:
  assumes "resolve_identity (body_externals sample_posted) db ''tok'' = Some who" and "messages db = []" "channels db = []"
  shows "\<exists>x db'. post_message (body_externals sample_posted) [1] 9 9 (request_headers (Some ''tok'')) [1] db =
      (Inr (201, json_object [(''message'', message_json x)]), db') \<and> read_message (message_json x) = Some x"
proof -
  let ?ext = "body_externals sample_posted" and ?h = "request_headers (Some ''tok'')"
  let ?f = "\<lparr>mf_channel = ''lab'', mf_kind = ''message'', mf_body = ''hi'', mf_reply_to = None\<rparr>"
  have t: "header_to_str ''tok'' = Some ''tok''" by code_simp
  have keys: "map_of sample_posted k = None" if "k \<notin> {''channel'', ''kind'', ''body'', ''reply_to''}" for k
    using that by (simp add: sample_posted_def)
  have "resolve_request_identity ?ext [1] 9 db ?h = Some who" using t assms(1) by (simp add: request_identity token_identity_def)
  then have r: "read_resolved_post ?ext [1] 9 ?h sample_posted db = Inr (who, ?f)"
    by (simp add: read_resolved_post_def require_identity_def ok_or_def try_bind_def sample_posted_fields)
  obtain active db1 where e: "ensure_channel_for_write 9 ''lab'' (Some (id_instance who)) db = (active, db1)" by fastforce
  then have active and rows: "messages db1 = []"
    using assms(2,3) ensure_channel_write_frame(1) [of 9 "''lab''" "Some (id_instance who)" db]
    by (simp_all add: ensure_channel_for_write_def ensure_channel_def insert_channel_or_ignore_def default_visibility_def
        channel_metadata_def Let_def)
  obtain res db' where a: "append_message 9 who ''lab'' ''message'' ''hi'' None db1 = (res, db')" by fastforce
  then obtain x where x: "res = Inr x" "m_id x = 1" "m_created_at x = 9" "m_reply_to x = None"
    using append_message_result(1) [OF a] rows by (simp add: next_rowid_def)
  then have "read_message (message_json x) = Some x" by (simp add: read_message_json i64_def)
  moreover have "append_resolved_post 9 who ?f db = (Inr (201, json_object [(''message'', message_json x)]), db')"
    using e a x(1) \<open>active\<close> by (simp add: append_resolved_post_def)
  then have "post_message ?ext [1] 9 9 ?h [1] db = (Inr (201, json_object [(''message'', message_json x)]), db')"
    by (simp add: post_message_def no_session body_externals_faithful(4) keys r)
  ultimately show ?thesis by blast
qed

theorem client_reads_what_it_posts_witness:
  "let ext = body_externals sample_posted; net = board_server ext sample_server sample_other 9 9 ''http://board/'';
       client = \<lparr>bc_base_url = ''http://board/'', bc_token = ''tok''\<rparr>;
       db = snd (register_identity ext 5 ''maker'' None [(''i-1'', ''tok'')] empty_board)
   in \<exists>m db'. client_post ext sample_urls net client ''lab'' ''message'' ''hi'' None db = (Inr m, db') \<and> m_body m = ''hi'' \<and>
     client_messages ext sample_urls net client (m_id m - 1) (Some ''lab'') 1 db' = (Inr [m], db')"
proof -
  let ?ext = "body_externals sample_posted" and ?client = "\<lparr>bc_base_url = ''http://board/'', bc_token = ''tok''\<rparr>"
  let ?net = "board_server ?ext sample_server sample_other 9 9 ''http://board/''"
  obtain who db where db: "register_identity ?ext 5 ''maker'' None [(''i-1'', ''tok'')] empty_board = (Inr (Some (who, ''tok'')), db)"
      "reachable ?ext db" and rows: "messages db = []" "channels db = []" "resolve_identity ?ext db ''tok'' = Some who"
    using sample_registered by blast
  obtain x db' where p: "post_message ?ext [1] 9 9 (request_headers (Some ''tok'')) [1] db =
      (Inr (201, json_object [(''message'', message_json x)]), db')" and x: "read_message (message_json x) = Some x"
    using sample_post_accepted [OF rows(3,1,2)] by blast
  have lib: "joins_paths sample_urls (bc_base_url ?client)" by (simp add: joins_paths_def sample_urls_def)
  have sent: "header_value (bc_token ?client)" by code_simp
  have "json_to_vec ?ext (post_json ''lab'' ''message'' ''hi'' None) = [1]"
    by (simp add: body_externals_def post_json_def json_object_def sample_posted_def json_opt_def)
  then have posted: "client_post ?ext sample_urls ?net ?client ''lab'' ''message'' ''hi'' None db = (Inr x, db')"
    using p x client_post_board [OF lib sent, of ?ext sample_server sample_other 9 9 "''lab''" "''message''" "''hi''" None db]
    by (simp add: request_json_wire [OF body_externals_faithful(1)] is_success_def read_post_message)
  then show ?thesis
    using client_reads_what_it_posts [OF body_externals_faithful(1) lib db(2) le_refl, where unix' = 9 and now' = 9] db(1)
    by (fastforce simp: Let_def)
qed

section \<open>Verifying an endpoint\<close>

text \<open>What a token reads: the messages it asked for, or the refusal of the server.\<close>

lemma messages_handler_token:
  assumes "0 \<le> after" "after < 2 ^ 63" "1 \<le> limit" "limit \<le> 200"
  shows "(\<exists>rows. messages_handler ext key unix (request_headers (Some t)) path (messages_query after channel limit) db =
      Inr (200, json_object [(''messages'', JArr rows)])) \<longleftrightarrow>
    token_identity ext db t \<noteq> None \<and> (\<forall>c. channel = Some c \<longrightarrow> c = [] \<or> name_re c)"
    and "messages_handler ext key unix (request_headers (Some t)) path (messages_query after channel limit) db = Inr r \<Longrightarrow>
      \<exists>rows. r = (200, json_object [(''messages'', JArr rows)])"
  using messages_query_parsed [OF assms, of channel]
  by (auto simp: messages_handler_def read_access try_bind_def Let_def unauthorized_def bad_request_def split: option.splits if_splits)

lemma json_get_object [simp]: "json_get name (json_object pairs) = map_of (rev pairs) name"
  by (simp add: json_get_def json_object_def)

lemma board_get_json:
  assumes "json_faithful ext" and "joins_paths lib base" and "(GET, CHR ''/'' # path) \<in> client_paths"
  shows "get_json ext lib library_error (board_server ext sv other unix now base) base path query token db =
    (case (case token of Some t \<Rightarrow> header_value t | None \<Rightarrow> True) of
       False \<Rightarrow> (Inl (CliMessage library_error), db)
     | True \<Rightarrow>
         (let (answer, db') = client_route ext sv \<lparr>rq_verb = GET, rq_path = CHR ''/'' # path, rq_target = CHR ''/'' # path,
                rq_query = query, rq_headers = request_headers token, rq_body = [], rq_unix = unix, rq_now = now, rq_draws = []\<rparr> db
          in (case answer of
                Inl (status, code) \<Rightarrow>
                  (if \<not> is_success status then Inl (CliMessage (''endpoint returned HTTP '' @ show_nat status))
                   else Inr (json_object [(''error'', JStr code)]))
              | Inr (status, v) \<Rightarrow>
                  (if \<not> is_success status then Inl (CliMessage (''endpoint returned HTTP '' @ show_nat status)) else Inr v), db')))"
  using assms
  by (auto simp: get_json_def joins_paths_def board_server_def sent_request_def serve_client json_response_def wire_def
      json_faithful_def case_prod_beta Let_def split: bool.split option.split sum.split)

lemma whoami_token:
  "whoami ext key unix (request_headers (Some t)) db =
    (case token_identity ext db t of None \<Rightarrow> Inl unauthorized | Some who \<Rightarrow> Inr (200, identity_json who ''user'' ''client''))"
  by (simp add: whoami_def no_session require_identity_def request_identity ok_or_def try_bind_def split: option.split)

definition expects :: "verify_args \<Rightarrow> identity \<Rightarrow> bool" where
  "expects args who \<longleftrightarrow> (\<forall>e. va_expect_source args = Some e \<longrightarrow> id_source who = e) \<and>
     (\<forall>e. va_expect_instance args = Some e \<longrightarrow> id_instance who = e)"

lemma verify_whoami_identity: "isl (verify_whoami args (identity_json who role kind)) \<longleftrightarrow> \<not> expects args who"
  by (auto simp: verify_whoami_def identity_json_def wire_simps mismatch_def expects_def split: option.split)

lemma verify_step_fst:
  "fst (verify_step (r, s) verify rest) =
     (case r of Inl e \<Rightarrow> Inl e | Inr v \<Rightarrow> (case verify v of Inl e \<Rightarrow> Inl e | Inr lines \<Rightarrow> fst (rest s)))"
  by (simp add: verify_step_def case_prod_beta Let_def split: sum.split)

lemma verify_step_state: "(\<And>s'. s' = s \<Longrightarrow> snd (snd (rest s')) = s) \<Longrightarrow> snd (snd (verify_step (r, s) verify rest)) = s"
  by (simp add: verify_step_def case_prod_beta Let_def split: sum.split)

text \<open>The three answers of a board, as the verification reads them.\<close>

lemma board_health_json:
  assumes "json_faithful ext" and "joins_paths lib base"
  shows "get_json ext lib library_error (board_server ext sv other unix now base) base ''api/health'' [] None db =
    (Inr (json_object [(''status'', JStr ''ok'')]), db)"
  by (simp add: board_get_json [OF assms] client_route_def client_paths_def health_def is_success_def)

lemma board_whoami_json:
  assumes "json_faithful ext" and "joins_paths lib base"
  shows "\<exists>r. get_json ext lib library_error (board_server ext sv other unix now base) base ''api/whoami'' [] (Some t) db = (r, db) \<and>
    (case token_identity ext db t of None \<Rightarrow> isl r | Some who \<Rightarrow> r = Inr (identity_json who ''user'' ''client''))"
  using token_identity_value [of ext db t]
  by (cases "token_identity ext db t"; cases "header_value t")
    (simp_all add: board_get_json [OF assms] client_route_def client_paths_def whoami_token unauthorized_def is_success_def)

lemma board_messages_json:
  assumes "json_faithful ext" and "joins_paths lib base" and range: "0 \<le> after" "after < 2 ^ 63" "1 \<le> limit" "limit \<le> 200"
    and who: "token_identity ext db t = Some who"
  shows "\<exists>r. get_json ext lib library_error (board_server ext sv other unix now base) base ''api/messages''
      (messages_query after channel limit) (Some t) db = (r, db) \<and>
    (if \<forall>c. channel = Some c \<longrightarrow> c = [] \<or> name_re c then \<exists>rows. r = Inr (json_object [(''messages'', JArr rows)]) else isl r)"
proof -
  let ?a = "messages_handler ext (sv_key sv) unix (request_headers (Some t)) ''/api/messages'' (messages_query after channel limit) db"
  note h = messages_handler_token [OF range, of ext "sv_key sv" unix t "''/api/messages''" channel db]
  have get: "get_json ext lib library_error (board_server ext sv other unix now base) base ''api/messages''
      (messages_query after channel limit) (Some t) db =
     (case ?a of
        Inl (status, code) \<Rightarrow> (if \<not> is_success status then Inl (CliMessage (''endpoint returned HTTP '' @ show_nat status))
          else Inr (json_object [(''error'', JStr code)]))
      | Inr (status, v) \<Rightarrow> (if \<not> is_success status then Inl (CliMessage (''endpoint returned HTTP '' @ show_nat status)) else Inr v), db)"
    using token_identity_value [OF who] by (simp add: board_get_json [OF assms(1,2)] client_route_def client_paths_def)
  show ?thesis
  proof (cases ?a)
    case (Inl e)
    then have "\<not> (\<forall>c. channel = Some c \<longrightarrow> c = [] \<or> name_re c)" using h(1) who by auto
    moreover have "\<not> is_success (fst e)"
      using Inl who messages_query_parsed [OF range, of channel]
      by (auto simp: messages_handler_def read_access try_bind_def Let_def bad_request_def is_success_def split: if_splits option.splits)
    ultimately show ?thesis using get Inl by (auto simp: case_prod_beta)
  next
    case (Inr r)
    then obtain rows where "r = (200, json_object [(''messages'', JArr rows)])" using h(2) by blast
    then show ?thesis using get Inr h(1) who by (auto simp: is_success_def)
  qed
qed

lemma verify_messages_array: "verify_messages args (json_object [(''messages'', JArr rows)]) \<noteq> Inl e"
  by (simp add: verify_messages_def)

lemma verify_requests_board:
  assumes "json_faithful ext" and "joins_paths lib base"
    and "0 \<le> va_after args" "va_after args < 2 ^ 63" "1 \<le> va_limit args" "va_limit args \<le> 200"
  shows "fst (verify_requests ext lib library_error (board_server ext sv other unix now base) base t args db) = Inr () \<longleftrightarrow>
      (\<exists>who. token_identity ext db t = Some who \<and> expects args who) \<and> (\<forall>c. va_channel args = Some c \<longrightarrow> c = [] \<or> name_re c)"
    and "snd (snd (verify_requests ext lib library_error (board_server ext sv other unix now base) base t args db)) = db"
proof -
  let ?net = "board_server ext sv other unix now base"
  note health = board_health_json [OF assms(1,2), of library_error sv other unix now db]
  have passed: "verify_health (json_object [(''status'', JStr ''ok'')]) = Inr [''PASS: health'']"
    by (simp add: verify_health_def wire_simps)
  obtain w where w: "get_json ext lib library_error ?net base ''api/whoami'' [] (Some t) db = (w, db)"
      "case token_identity ext db t of None \<Rightarrow> isl w | Some who \<Rightarrow> w = Inr (identity_json who ''user'' ''client'')"
    using board_whoami_json [OF assms(1,2)] by blast
  let ?q = "messages_query (va_after args) (va_channel args) (va_limit args)"
  obtain m where m: "get_json ext lib library_error ?net base ''api/messages'' ?q (Some t) db = (m, db) \<and>
      (\<forall>who. token_identity ext db t = Some who \<longrightarrow> (if \<forall>c. va_channel args = Some c \<longrightarrow> c = [] \<or> name_re c
        then \<exists>rows. m = Inr (json_object [(''messages'', JArr rows)]) else isl m))" if "token_identity ext db t \<noteq> None"
    using board_messages_json [OF assms(1-6)] by fastforce
  have run: "verify_requests ext lib library_error ?net base t args db =
      verify_step (Inr (json_object [(''status'', JStr ''ok'')]), db) verify_health (\<lambda>s.
      verify_step (get_json ext lib library_error ?net base ''api/whoami'' [] (Some t) s) (verify_whoami args) (\<lambda>s.
      verify_step (get_json ext lib library_error ?net base ''api/messages'' ?q (Some t) s) (verify_messages args) (\<lambda>s.
        (Inr (), [], s))))"
    by (simp add: verify_requests_def health)
  show "fst (verify_requests ext lib library_error ?net base t args db) = Inr () \<longleftrightarrow>
      (\<exists>who. token_identity ext db t = Some who \<and> expects args who) \<and> (\<forall>c. va_channel args = Some c \<longrightarrow> c = [] \<or> name_re c)"
  proof (cases "token_identity ext db t")
    case None
    then obtain e where "w = Inl e" using w(2) by (cases w) simp_all
    then show ?thesis using None by (simp add: run verify_step_fst passed w(1))
  next
    case (Some who)
    then have got: "get_json ext lib library_error ?net base ''api/messages'' ?q (Some t) db = (m, db)" using m by simp
    have first: "fst (verify_requests ext lib library_error ?net base t args db) =
        (case verify_whoami args (identity_json who ''user'' ''client'') of Inl e \<Rightarrow> Inl e
         | Inr _ \<Rightarrow> (case m of Inl e \<Rightarrow> Inl e | Inr v \<Rightarrow> (case verify_messages args v of Inl e \<Rightarrow> Inl e | Inr _ \<Rightarrow> Inr ())))"
      using w Some by (simp add: run verify_step_fst passed got split: sum.split)
    then show ?thesis
      using verify_whoami_identity [of args who "''user''" "''client''"] m Some
      by (cases "verify_whoami args (identity_json who ''user'' ''client'')"; cases m) (auto simp: verify_messages_array split: sum.splits if_splits)
  qed
  show "snd (snd (verify_requests ext lib library_error ?net base t args db)) = db"
  proof (cases "token_identity ext db t")
    case None
    then obtain e where "w = Inl e" using w(2) by (cases w) simp_all
    then show ?thesis by (simp add: run verify_step_def passed w(1))
  next
    case (Some who)
    then show ?thesis using m by (auto simp: run w(1) intro!: verify_step_state)
  qed
qed

text \<open>Verifying the endpoint of a board succeeds exactly when the token is one of the board's, of the expected source
  and instance, and the channel is a valid name; it changes nothing on the board.\<close>

theorem verify_endpoint_accepts_iff:
  assumes "json_faithful ext" and "joins_paths lib base" and "builds_client lib"
    and "va_url args = Some raw" and "normalized_base_url lib library_error raw = Inr base" and "va_after args < 2 ^ 63"
  shows "(fst (verify_endpoint ext lib library_error (board_server ext sv other unix now base) env_url (Some token) args db) = Inr () \<longleftrightarrow>
      0 \<le> va_after args \<and> 1 \<le> va_limit args \<and> va_limit args \<le> 200 \<and> va_timeout_ok args \<and>
      (\<exists>who. token_identity ext db token = Some who \<and> expects args who) \<and>
      (\<forall>c. va_channel args = Some c \<longrightarrow> c = [] \<or> name_re c)) \<and>
    snd (snd (verify_endpoint ext lib library_error (board_server ext sv other unix now base) env_url (Some token) args db)) = db"
proof (cases "token = [] \<or> va_after args < 0 \<or> \<not> (1 \<le> va_limit args \<and> va_limit args \<le> 200) \<or> \<not> va_timeout_ok args")
  case True
  then show ?thesis by (auto simp: verify_endpoint_def Let_def token_identity_def assms(4))
next
  case False
  then have "verify_endpoint ext lib library_error (board_server ext sv other unix now base) env_url (Some token) args db =
      verify_requests ext lib library_error (board_server ext sv other unix now base) base token args db"
    by (simp add: verify_endpoint_def Let_def assms(3-5) not_less)
  then show ?thesis using False assms(6) verify_requests_board [OF assms(1,2), of args] by simp
qed

theorem verify_endpoint_accepts_iff_witness:
  "let ext = body_externals sample_posted; db = snd (register_identity ext 5 ''maker'' None [(''i-1'', ''tok'')] empty_board);
       run = (\<lambda>source. fst (verify_endpoint ext sample_urls ''error'' (board_server ext sample_server sample_other 9 9 ''http://board/'') None (Some ''tok'')
         \<lparr>va_url = Some ''http://board'', va_expect_source = Some source, va_expect_instance = None, va_channel = Some ''lab'',
           va_after = 0, va_limit = 20, va_timeout_ok = True\<rparr> db))
   in run ''maker'' = Inr () \<and> run ''other'' \<noteq> Inr ()"
proof -
  let ?ext = "body_externals sample_posted"
  let ?args = "\<lambda>source. \<lparr>va_url = Some ''http://board'', va_expect_source = Some source, va_expect_instance = None,
    va_channel = Some ''lab'', va_after = 0, va_limit = 20, va_timeout_ok = True\<rparr>"
  obtain who db where db: "register_identity ?ext 5 ''maker'' None [(''i-1'', ''tok'')] empty_board = (Inr (Some (who, ''tok'')), db)"
      and r: "resolve_identity ?ext db ''tok'' = Some who"
    using sample_registered by blast
  have v: "validate_source ''maker'' = Some ''maker''" by code_simp
  have source: "id_source who = ''maker''" using db by (auto simp: register_identity_def v normalize_label_def empty_board_def)
  have facts: "header_to_str ''tok'' = Some ''tok''" "name_re ''lab''" by code_simp+
  then have t: "token_identity ?ext db ''tok'' = Some who" using r by (simp add: token_identity_def)
  have lib: "joins_paths sample_urls ''http://board/''" "builds_client sample_urls"
    by (simp_all add: joins_paths_def sample_urls_def)
  have slash: "with_end_slash ''http://board'' = ''http://board/''"
    by (simp add: with_end_slash_def trim_graphic graphic_def ascii_simps)
  then have url: "normalized_base_url sample_urls ''error'' ''http://board'' = Inr ''http://board/''"
    by (simp add: normalized_base_url_def sample_urls_def)
  have "va_url (?args s) = Some ''http://board''" "va_after (?args s) < 2 ^ 63" for s by simp_all
  note accepts = verify_endpoint_accepts_iff [OF body_externals_faithful(1) lib this(1) url this(2),
      THEN conjunct1, of sample_posted sample_server sample_other 9 9 None "''tok''" _ db]
  have "fst (verify_endpoint ?ext sample_urls ''error'' (board_server ?ext sample_server sample_other 9 9 ''http://board/'') None (Some ''tok'') (?args s) db) =
      Inr () \<longleftrightarrow> s = ''maker''" for s
    unfolding accepts using t facts(2) source by (auto simp: expects_def)
  then show ?thesis using db by (simp add: Let_def)
qed

lemma read_channel_json: "read_channel (channel_summary_json s) = Some c \<Longrightarrow> cc_channel c = s_channel s"
  by (cases "s_created_by s")
    (auto simp: read_channel_def channel_summary_json_def channel_names_def wire_simps split: if_splits)

lemma vector_keys:
  assumes "\<And>x c. f (g x) = Some c \<Longrightarrow> k c = j x"
  shows "vector f (map g xs) = Some cs \<Longrightarrow> map k cs = map j xs"
  using assms by (induction xs arbitrary: cs) (auto split: option.splits)

lemma struct_fields_channels: "read_channels (snd (directory_json w)) = vector read_channel (map channel_summary_json (fst w))"
  by (simp add: read_channels_def directory_json_def vector_field_def)

lemma channels_handler_token:
  "channels_handler ext key unix (request_headers (Some t)) path [] db =
    (case token_identity ext db t of None \<Rightarrow> Inl unauthorized | Some who \<Rightarrow> Inr (directory_json (directory_page (db, False) 20 None)))"
proof -
  have "parse_usize ''20'' = Some 20" by code_simp
  then show ?thesis
    by (simp add: channels_handler_def read_access first_query_values_def parse_channel_after_name_def try_bind_def
        parse_channel_directory_limit_def max_channel_directory_window_size_def read_channel_directory_window_def
        with_db_def directory_page_def Let_def split: option.split)
qed

lemma directory_names:
  assumes "channels_wf db" and "0 < n"
  shows "map s_channel (fst (directory_page (db, False) n None)) = take n (sort (map c_name (channels db)))"
proof -
  have "map s_channel (directory_rows (db, False)) = sort (map c_name (channels db))"
    by (rule properties_for_sort [symmetric]) (simp_all add: directory_rows_def comp_def)
  moreover have "fst (directory_page (db, False) n None) = take n (directory_rows (db, False))"
    using directory.page_rows [of "(db, False)" n None] assms by (simp add: truncate_window_def beyond_def)
  ultimately show ?thesis by (simp add: take_map [symmetric])
qed

text \<open>C39: The channels the client lists are the first twenty in the order of their names: the server answers a window of
  the directory and the client does not ask for the next one, so on a larger board channels are missing.\<close>

theorem client_channels_incomplete:
  assumes "json_faithful ext" and "joins_paths lib (bc_base_url client)" and "reachable ext db"
    and "client_channels ext lib (board_server ext sv other unix now (bc_base_url client)) client db = (Inr cs, db')"
  shows "db' = db \<and> map cc_channel cs = take 20 (sort (map c_name (channels db))) \<and>
    (20 < length (channels db) \<longrightarrow> (\<exists>c \<in> set (channels db). c_name c \<notin> cc_channel ` set cs))"
proof -
  have wf: "channels_wf db" using reachable_system_wf [OF assms(3)] by (simp add: system_wf_def db_wf_def)
  have sent: "header_value (bc_token client)"
  proof (rule ccontr)
    assume "\<not> header_value (bc_token client)"
    then show False using assms(2,4)
      by (simp add: client_channels_def exchange_def client_url_def joins_paths_def board_server_def request_json_def)
  qed
  have same: "db' = db"
    using assms(4) by (simp add: client_channels_def board_exchange [OF assms(2) sent] client_route_def client_paths_def)
  have answer: "request_json ext read_channels (Some (wire ext (channels_handler ext (sv_key sv) unix
      (request_headers (Some (bc_token client))) ''/api/channels'' [] db))) True = Inr cs"
    using assms(4) by (auto simp: client_channels_def board_exchange [OF assms(2) sent] client_route_def client_paths_def)
  have "vector read_channel (map channel_summary_json (fst (directory_page (db, False) 20 None))) = Some cs"
    using answer struct_fields_channels [of "directory_page (db, False) 20 None"]
    by (auto simp: request_json_wire [OF assms(1)] channels_handler_token is_success_def unauthorized_def directory_json_def
        split: option.splits)
  then have names: "map cc_channel cs = take 20 (sort (map c_name (channels db)))"
    using vector_keys [of read_channel channel_summary_json cc_channel s_channel] read_channel_json directory_names [OF wf, of 20] by simp
  moreover have "\<exists>c \<in> set (channels db). c_name c \<notin> cc_channel ` set cs" if long: "20 < length (channels db)"
  proof (rule ccontr)
    assume "\<not> (\<exists>c \<in> set (channels db). c_name c \<notin> cc_channel ` set cs)"
    then have "set (map c_name (channels db)) \<subseteq> set (map cc_channel cs)" by auto
    then have "card (set (map c_name (channels db))) \<le> length cs"
      by (metis card_length card_mono finite_set le_trans length_map)
    moreover have "length cs = 20" using arg_cong [OF names, of length] long by simp
    moreover have "card (set (map c_name (channels db))) = length (channels db)"
      using wf distinct_card [of "map c_name (channels db)"] by (simp add: channels_wf_def)
    ultimately show False using long by simp
  qed
  ultimately show ?thesis using same by blast
qed

definition sample_crowded :: "nat \<Rightarrow> board \<Rightarrow> board" where
  "sample_crowded n db = fold (\<lambda>i db. snd (create_channel 3 (replicate i CHR ''a'') ''private'' None db)) [0..<n] db"

lemma sample_crowded_facts:
  assumes "reachable ext db" and "channels db = []" and "messages db = []"
  shows "reachable ext (sample_crowded n db) \<and> messages (sample_crowded n db) = [] \<and>
    identities (sample_crowded n db) = identities db \<and>
    map c_name (channels (sample_crowded n db)) = map (\<lambda>i. replicate i CHR ''a'') [0..<n] \<and>
    (\<forall>c \<in> set (channels (sample_crowded n db)). c_created_at c = 3 \<and> c_updated_at c = 3)"
proof (induction n)
  case (Suc n)
  let ?b = "sample_crowded n db" and ?name = "replicate n CHR ''a''"
  have grown: "sample_crowded (Suc n) db = snd (create_channel 3 ?name ''private'' None ?b)" by (simp add: sample_crowded_def)
  have "?name \<notin> set (map c_name (channels ?b))" using Suc.IH by (auto dest: arg_cong [of _ _ length])
  then have fresh: "\<not> (\<exists>c \<in> set (channels ?b). c_name c = ?name)" by (metis image_eqI set_map)
  have "board_step ext ?b (snd (create_channel 3 ?name ''private'' None ?b))"
    using board_step.log [of "CreateChannel 3 ?name ''private'' None" ?b ext] by simp
  then have "reachable ext (sample_crowded (Suc n) db)" unfolding grown using Suc.IH reachable.step by blast
  then show ?case using Suc.IH fresh
    by (auto simp: grown create_channel_def insert_channel_or_ignore_def)
qed (use assms in \<open>simp_all add: sample_crowded_def\<close>)

lemma read_channel_json_some:
  assumes "i64 (int (s_message_count s))" "i64 (s_last_id s)" "i64 (s_created_at s)" "i64 (s_updated_at s)"
  shows "read_channel (channel_summary_json s) \<noteq> None"
  using assms by (cases "s_created_by s")
    (auto simp: read_channel_def channel_summary_json_def channel_names_def wire_simps i64_def)

lemma vector_some: "(\<And>x. x \<in> set xs \<Longrightarrow> f (g x) \<noteq> None) \<Longrightarrow> \<exists>ys. vector f (map g xs) = Some ys"
proof (induction xs)
  case (Cons x xs)
  obtain y where "f (g x) = Some y" using Cons.prems [of x] by auto
  moreover obtain ys where "vector f (map g xs) = Some ys" using Cons by auto
  ultimately show ?case by simp
qed simp

theorem client_channels_incomplete_witness:
  "let ext = body_externals sample_posted;
       db = sample_crowded 21 (snd (register_identity ext 5 ''maker'' None [(''i-1'', ''tok'')] empty_board))
   in \<exists>cs. client_channels ext sample_urls (board_server ext sample_server sample_other 9 9 ''http://board/'')
       \<lparr>bc_base_url = ''http://board/'', bc_token = ''tok''\<rparr> db = (Inr cs, db) \<and>
     (\<exists>c \<in> set (channels db). c_name c \<notin> cc_channel ` set cs)"
proof -
  let ?ext = "body_externals sample_posted" and ?client = "\<lparr>bc_base_url = ''http://board/'', bc_token = ''tok''\<rparr>"
  obtain who db0 where db0: "register_identity ?ext 5 ''maker'' None [(''i-1'', ''tok'')] empty_board = (Inr (Some (who, ''tok'')), db0)"
      "reachable ?ext db0" and rows: "messages db0 = []" "channels db0 = []" "resolve_identity ?ext db0 ''tok'' = Some who"
    using sample_registered by blast
  define db where "db = sample_crowded 21 db0"
  note facts = sample_crowded_facts [OF db0(2) rows(2,1), of 21, folded db_def]
  have "header_to_str ''tok'' = Some ''tok''" by code_simp
  then have who: "token_identity ?ext db ''tok'' = Some who"
    using rows(3) token_identity_cong [of db db0 ?ext] facts by (simp add: token_identity_def)
  let ?page = "directory_page (db, False) 20 None"
  have "read_channel (channel_summary_json s) \<noteq> None" if "s \<in> set (fst ?page)" for s
  proof -
    have "s \<in> set (take 20 (read_channel_directory_rows db False None 21))"
      using that by (simp add: directory_page_def truncate_window_def)
    then have "s \<in> set (read_channel_directory_rows db False None 21)" by (rule in_set_takeD)
    then obtain c where "c \<in> set (channels db)" "s = channel_summary_row db c"
      by (auto simp: read_channel_directory_rows_def select_asc_def dest!: in_set_takeD)
    then show ?thesis using facts by (intro read_channel_json_some) (auto simp: channel_summary_row_def i64_def Let_def)
  qed
  then obtain cs where cs: "vector read_channel (map channel_summary_json (fst ?page)) = Some cs"
    using vector_some [of "fst ?page" read_channel channel_summary_json] by blast
  have lib: "joins_paths sample_urls (bc_base_url ?client)" by (simp add: joins_paths_def sample_urls_def)
  have sent: "header_value (bc_token ?client)" by code_simp
  have "channels_handler ?ext [1] 9 (request_headers (Some ''tok'')) ''/api/channels'' [] db = Inr (directory_json ?page)"
    by (simp add: channels_handler_token who)
  then have answer: "client_channels ?ext sample_urls (board_server ?ext sample_server sample_other 9 9 (bc_base_url ?client)) ?client db = (Inr cs, db)"
    using cs struct_fields_channels [of ?page]
    by (simp add: client_channels_def board_exchange [OF lib sent] client_route_def client_paths_def request_json_wire [OF body_externals_faithful(1)]
        is_success_def directory_json_def del: blackboard_client.select_convs(1))
  have "length (channels db) = 21" using facts by (metis length_map length_upt diff_zero)
  then have "\<exists>c \<in> set (channels db). c_name c \<notin> cc_channel ` set cs"
    using client_channels_incomplete [OF body_externals_faithful(1) lib _ answer] facts by simp
  then show ?thesis using answer db0(1) unfolding db_def Let_def by auto
qed

end
