(* ===== verification/Spec2Isabelle.thy ===== *)
theory Spec2Isabelle
  imports Participant_Auth Web_Auth Db Identity Policy_Audit Authorization_Admin Execution_Audit System History
    Http_Surface Github_Webhook Oidc Access_Api Mcp Migration Policy_Texts Cli Participant_Admin Grant_Admin Execution_Command
    Board_Runs Board_Catalog Database_Files Command_Line
    Server Adapter_Profile Runtime Client Client_Server
begin

text \<open>
  A verification development for the conversation blackboard (\<open>src/\<close>), a server that keeps a durable log of messages
  written by participants, human or agent, under an explicit authorization policy, and an immutable evidence of every
  write that was executed as an intent.

  \<^bold>\<open>The program and its model\<close>

  The server is a set of handlers over one SQLite database.  Every handler opens a connection, runs one transaction and
  answers; so a handler is here a function of the board, the value of all tables (\<open>Board\<close>, after \<open>schema.sql\<close>), and
  returns its answer with the board it commits.  A transaction that fails returns the board it started from.  The clock
  is an argument (\<open>now\<close>, \<open>clock\<close>, \<open>unix\<close>), and so are the process key of the web sessions (\<open>key\<close>) and the
  third-party code: codecs, JSON, hashes and HMAC (\<open>externals\<close> in \<open>Encoding\<close>), the JWT library (\<open>jwt_library\<close> in \<open>Oidc\<close>),
  the deserializers of webhook payloads (\<open>github_parsers\<close>), base64 and the URL parser of the MCP server (\<open>mcp_library\<close>).
  Errors are values: \<open>Inl\<close> of an SQL error, of an HTTP status with its code, of a tool's error code; a panic is the value
  \<open>Panics\<close>.  Texts are byte strings (\<open>Prelude\<close> says how), 64-bit cursors and times are \<open>int\<close> within their bounds where
  the code checks them, one-time codes and base32 are computed on words.

  \<^bold>\<open>Theories\<close>, in the order of their imports, with the source files under \<open>src/src/\<close>:

  \<^item> \<open>Prelude\<close>: results, texts, rows, and the lemma collections \<open>ascii_simps\<close> and \<open>row_simps\<close>; \<open>Windows\<close>: the locale
    \<open>paged_store\<close> of everything that is read in windows.
  \<^item> \<open>Board\<close> and \<open>Db\<close> (\<open>db.rs\<close>, \<open>model.rs\<close>, \<open>schema.sql\<close>): tables; channels, message log, navigation writes, directory.
  \<^item> \<open>Encoding\<close>, \<open>Participant_Auth\<close> (\<open>participant_auth.rs\<close>): external codecs, secrets, canonical bytes, proofs.
  \<^item> \<open>Web_Auth\<close> (\<open>web_auth.rs\<close>): one-time codes and signed sessions; \<open>Identity\<close> (\<open>identity.rs\<close>): identities, participants,
    credentials, sign-in.
  \<^item> \<open>Authorization\<close> and \<open>Policy_Audit\<close> (\<open>authorization.rs\<close>): evaluation, one-shot grants, effective grants, windows, the
    audit of the policy; \<open>Authorization_Admin\<close> (\<open>authorization_admin.rs\<close>): creating and deactivating grants, with history.
  \<^item> \<open>Execution\<close>, \<open>Execution_Audit\<close> (\<open>execution.rs\<close>): the executor of message intents, and the audit and sweep over the
    evidence it leaves.  \<open>Evidence\<close>: the invariant of that evidence; \<open>Exactly_Once\<close>: the contract of the executor;
    \<open>System\<close>: the board as a state machine; \<open>Schema_Kept\<close>: the schema of reachable boards; \<open>Board_Runs\<close>: what runs of the
    board keep, and the life of a one-shot grant.
  \<^item> \<open>Ingress\<close>: the locale \<open>execution_surface\<close> of the entry points that execute intents.
  \<^item> \<open>Request_Auth\<close> (\<open>request_auth.rs\<close>), \<open>Http\<close> and \<open>Http_Surface\<close> (\<open>http.rs\<close>), \<open>History\<close> (\<open>history.rs\<close>),
    \<open>Access_Api\<close> (\<open>access_api.rs\<close>): the REST surface.
  \<^item> \<open>Github_Webhook\<close> (\<open>github_webhook.rs\<close>), \<open>Oidc\<close> (\<open>oidc.rs\<close>): the two other ingresses.
  \<^item> \<open>Mcp_Tools\<close>, \<open>Contract_Schema\<close>, \<open>Mcp\<close> (\<open>mcp.rs\<close>, \<open>contract_schema.rs\<close>): the tools of the MCP server, what it
    advertises of them, and its protocol.
  \<^item> \<open>Migration\<close> (\<open>db.rs\<close>, with the migrations of \<open>execution.rs\<close>, \<open>authorization.rs\<close>, \<open>authorization_admin.rs\<close> and
    \<open>github_webhook.rs\<close>): opening a database of this or an older release, over a catalog of tables, columns, rows and
    indexes; \<open>catalog\<close> leads from there to the \<open>schema\<close> of a board.  \<open>Board_Catalog\<close>: the tables of a board as such a
    catalog and back, and \<open>initialize\<close> on the file of a board.
  \<^item> \<open>Cli\<close>: a disk of files, and a command as a session on the database of one file, which prints lines and may fail;
    \<open>Participant_Admin\<close> (\<open>participant_admin.rs\<close>, the identity commands of \<open>admin.rs\<close>), \<open>Grant_Admin\<close> (\<open>grant_admin.rs\<close>, over
    \<open>Policy_Texts\<close>, the texts of the grants of reachable boards), \<open>Execution_Command\<close> (\<open>execution_audit.rs\<close>): such commands;
    \<open>Database_Files\<close> (the \<open>db\<close> commands of \<open>admin.rs\<close>): creating, checking, backing up and restoring files, over an argument
    \<open>sqlite\<close> for what SQLite does with a missing file, an integrity check and a vacuum; \<open>Command_Line\<close> (\<open>main.rs\<close>): all of them in any order.
  \<^item> \<open>Server\<close> (\<open>runtime.rs\<close> and the routers of the ingress files): requests as they arrive, routed to the handlers above;
    \<open>Runtime\<close> (\<open>runtime.rs\<close>, \<open>OidcState::from_env\<close>, the resource URL of \<open>mcp.rs\<close>): how the configuration becomes a server;
    \<open>Adapter_Profile\<close> (\<open>adapter_profile.rs\<close>): the descriptions of the ways in.
  \<^item> \<open>Client\<close> (\<open>client.rs\<close>, \<open>client_cli.rs\<close>, the endpoint verification of \<open>admin.rs\<close>): the REST client over an arbitrary
    network; \<open>Client_Server\<close>: the client with the modelled server behind its network.

  \<^bold>\<open>Interfaces\<close>

  \<^item> \<open>paged_store\<close> (\<open>Windows\<close>): a store, a key and a page function with its laws; the client's theorem is that paging
    through the windows shows the whole store once and ends.  Interpreted on the channel directory (\<open>Db\<close>), both grant
    stores in both orders (\<open>Authorization\<close>), the administration history (\<open>Authorization_Admin\<close>), the messages (\<open>History\<close>).
  \<^item> \<open>admin_operation\<close> (\<open>Authorization_Admin\<close>): what an administration operation keeps and records; interpreted on all four.
  \<^item> \<open>quiet_operation\<close> and its extension \<open>quiet_writer\<close> (\<open>Evidence\<close>): writers that leave the evidence alone; interpreted on
    the message log, the identities, the participants and the administration.
  \<^item> \<open>execution_surface\<close> (\<open>Ingress\<close>): an entry point turns a request into a bound execution request, makes sure of what the
    executor needs and answers with its result; the client's theorems are that a request is a run of the board, that it
    is accepted only when the policy allows it, and that a repeated request is answered with the first message.
    Interpreted on the signed REST post, the webhook, the OIDC post and the MCP write tool.
  \<^item> \<open>command_family\<close> and \<open>session_family\<close> (\<open>Cli\<close>), which gives one by a sublocale: commands that respect an invariant of the
    databases of a disk, and hence so does every sequence of them.  Interpreted on the commands of each theory above and,
    in \<open>Command_Line\<close>, on all of them.

  \<^bold>\<open>What is shown\<close>

  \<^item> The whole: \<open>reachable\<close> are the boards that any sequence of calls of the writers leads to from an empty database.  On
    all of them the invariants of the components hold and the execution audit and its sweep find nothing
    (\<open>reachable_boards_sound\<close>); a committed execution stays (\<open>committed_executions_permanent\<close>); the server,
    through all its routes and for any sequence of requests, keeps its board there (\<open>served_boards_sound\<close>), except by the
    navigation write, whose reservations the sweep reports; that is also the only route on which a GET writes
    (\<open>safe_methods_change_nothing\<close>).  A server that starts trusts one OIDC issuer or none.
  \<^item> Client and server together: what the client reports as posted is in the log under the identity of its token, and is
    what the client reads back; an endpoint is verified exactly when the token and the expectations hold.
  \<^item> The executor refines \<open>execution_outcome\<close>, creates at most one message per participant and intent, consumes a one-shot
    grant with the execution that cites it, so that no later run of the board rests on it again, and answers a retry with the first message, also when the retry comes over
    another surface (\<open>cross_surface_retry\<close>).
  \<^item> The policy evaluation decides exactly \<open>policy_allows\<close>; the audits decide exactly their declarative specifications;
    the administration records what it does and does only what the policy allows its caller.
  \<^item> Every surface that writes or reads more than public channels authenticates its caller and asks the policy: one
    theorem per surface, which names the credential and the grant.  For a bearer token the credential is spelled out: the
    algorithm, the configured key, the audience, the issuer and the subject.  A token with a blank subject is refused by
    the policy, so no theorem assumes that there is none.
  \<^item> Credentials: canonical bytes are injective across the five kinds of signed requests, sessions are authentic and
    round-trip, codes are not replayed.
  \<^item> Opening a database succeeds on a fresh file, where it leaves the empty board from which \<open>reachable\<close> starts, and on every
    legacy database; it loses no row, rewrites only what the migrations name (the role and the time of the first administrator among them),
    and running it again changes nothing.  On the file of a reachable board it changes nothing either.
  \<^item> The administrative commands keep every database of the disk reachable, in any order and with any arguments; they print
    what the database holds and answer exactly what the audits decide; they never print a stored secret; a command
    that fails leaves the board as it was, with the one exception stated; backups restore what was backed up.
  \<^item> The theorems of kind \<open>error\<close> state behaviour that the repository's documents or the
    other paths of the code contradict; the manifest lists them as findings.

  \<^bold>\<open>Bounds and termination\<close>

  No definition needs fuel: loops over rows, bytes and grants are structural recursions, and loops that follow cursors are
  shown to end by the locale \<open>paged_store\<close>, whose page bound is the positive limit of the window.  Widths and limits are the
  constants of the code (page sizes, body sizes, code digits, the 30 second step and the lock times of the sign-in).

  \<^bold>\<open>Not modelled\<close>

  \<^item> The contents of the static pages, the response headers other than the challenges, TLS, the asynchronous runtime and
    the Windows service, and the extractors that axum derives.
  \<^item> The parsing of the command line; errors and directories of the file system; the files that SQLite keeps beside a
    database while it is open.
  \<^item> Concurrency of connections: SQLite serializes writing transactions, and a handler here is one of them.  The
    interleaving of handlers is the order of the steps of \<open>System\<close>.
  \<^item> Serializers and deserializers that \<open>derive\<close> generates: a handler starts with the deserialized value, and an answer is
    the value that is serialized.  Where the code builds JSON itself (\<open>json!\<close>), so does the model.
  \<^item> The pragmas of a connection and the constraints of tables other than those \<open>Migration\<close> names; reachable boards start
    from the empty board, not from the rows of a migrated database, and are made without the navigation write.
  \<^item> The network: downloads of the OIDC configuration and the transport below the client are arguments.
\<close>

section \<open>Properties of the whole board\<close>

text \<open>C1: Every reachable board is sound.  Starting from the empty database, after any sequence of calls of
  the executor (with described requests), of the message log, of the identities, of the participants and of
  the administration, interleaved in any way: the invariants of all components hold together, the sweep over
  the execution evidence is valid and the audit of every execution with a receipt is valid.\<close>

theorem reachable_boards_sound:
  assumes "reachable ext db"
  shows "log_wf db \<and> replies_wf db \<and> channels_wf db \<and> navigation_wf db \<and> participants_wf db \<and>
    policy_wf db \<and> consumption_wf db \<and> sr_valid (sweep_execution_audit_integrity ext db) \<and>
    (\<forall>r \<in> set (execution_receipts db). r_status r = ''committed'' \<and>
       ar_valid (verify_execution_audit_integrity ext db (r_participant_id r) (r_intent_id r)))"
proof -
  have "system_wf ext db" by (rule reachable_system_wf [OF assms])
  then show ?thesis using reachable_audits_valid [OF assms] by (simp add: system_wf_def db_wf_def)
qed

theorem reachable_boards_sound_witness:
  "\<exists>db m. reachable sample_externals db \<and> messages db = [m] \<and>
     sr_valid (sweep_execution_audit_integrity sample_externals db) \<and>
     ar_valid (verify_execution_audit_integrity sample_externals db ''ada'' ''i1'')"
proof (rule sample_run)
  fix db' m
  let ?r = "receipt_row_of 9 (receipt_of sample_request m)"
  assume r: "reachable sample_externals db'" and m: "messages db' = [m]" and rc: "execution_receipts db' = [?r]"
  have "r_participant_id ?r = ''ada''" "r_intent_id ?r = ''i1''"
    by (simp_all add: receipt_row_of_def receipt_of_def sample_request_def)
  then show ?thesis using reachable_boards_sound [OF r] r m rc by auto
qed

text \<open>C3: Committed executions are permanent.  Whatever calls follow, a committed execution keeps its receipt
  and its message, its audit stays valid, the message log only grows (nothing is deleted, reordered or
  edited), and no further request for the same participant and intent creates a message.\<close>

theorem committed_executions_permanent:
  assumes "reachable ext db" and "(board_step ext)\<^sup>*\<^sup>* db db'" and "r \<in> set (execution_receipts db)"
  shows "(\<exists>ms. messages db' = messages db @ ms) \<and> r \<in> set (execution_receipts db') \<and>
    ar_valid (verify_execution_audit_integrity ext db' (r_participant_id r) (r_intent_id r)) \<and>
    (\<forall>now who q m. it_participant_id (mr_intent q) = r_participant_id r \<longrightarrow>
       it_intent_id (mr_intent q) = r_intent_id r \<longrightarrow>
       fst (execute_message_intent ext now who q db') \<noteq> Inr (ExecCreated m))"
proof -
  have run: "system_wf ext db' \<and> (\<exists>ms. messages db' = messages db @ ms) \<and>
      (\<exists>rs. execution_receipts db' = execution_receipts db @ rs)"
    by (rule run_keeps [OF assms(2) reachable_system_wf [OF assms(1)]])
  then have ev: "evidence_wf ext db'" and k: "keys_wf db'" "audit_tables db'"
    by (simp_all add: system_wf_def evidence_wf_def)
  have r: "r \<in> set (execution_receipts db')" using run assms(3) by auto
  have "ar_valid (verify_execution_audit_integrity ext db' (r_participant_id r) (r_intent_id r))"
    using verify_valid [OF k r, of ext] ev r by (simp add: evidence_wf_def)
  moreover have "has_receipt db' (r_participant_id r) (r_intent_id r)" using r by (auto simp: has_receipt_def)
  then have "fst (execute_message_intent ext now who q db') \<noteq> Inr (ExecCreated m)"
    if "it_participant_id (mr_intent q) = r_participant_id r" "it_intent_id (mr_intent q) = r_intent_id r" for now who q m
    using created_fields(17) [OF ev, of now who q m] that by (metis prod.collapse)
  ultimately show ?thesis using run r by blast
qed

theorem committed_executions_permanent_witness:
  "\<exists>db m. messages db = [m] \<and>
     fst (execute_message_intent sample_externals 70 sample_who sample_request db) \<noteq> Inr (ExecCreated m)"
proof (rule sample_run)
  fix db' m
  let ?r = "receipt_row_of 9 (receipt_of sample_request m)"
  assume r: "reachable sample_externals db'" and m: "messages db' = [m]" and rc: "execution_receipts db' = [?r]"
  have "it_participant_id (mr_intent sample_request) = r_participant_id ?r"
    "it_intent_id (mr_intent sample_request) = r_intent_id ?r"
    by (simp_all add: receipt_row_of_def receipt_of_def)
  moreover have "?r \<in> set (execution_receipts db')" by (simp add: rc)
  ultimately have "fst (execute_message_intent sample_externals 70 sample_who sample_request db') \<noteq> Inr (ExecCreated m)"
    using committed_executions_permanent [OF r rtranclp.rtrancl_refl, of ?r] by blast
  then show ?thesis using m by blast
qed

end
